(* ===== verification/Prelude.thy ===== *)
theory Prelude
  imports Main "HOL-Library.Word" "HOL-Library.Signed_Division"
begin

text \<open>
  The shared vocabulary of the development: the machine types of the 16-bit kernel, the error
  codes of \<^verbatim>\<open>hdr/error.h\<close>, byte packing, and the generic facts about words, lists and
  options that several components use.
\<close>

section \<open>Machine types\<close>

unbundle bit_operations_syntax

type_synonym u8 = "8 word"
type_synonym u16 = "16 word"
type_synonym u32 = "32 word"
type_synonym bytes = "8 word list"

section \<open>Error codes\<close>

text \<open>The negative return codes of the kernel functions; \<open>SUCCESS\<close> is the \<open>Inr\<close> side.\<close>

datatype dos_error =
    DE_INVLDFUNC | DE_FILENOTFND | DE_PATHNOTFND | DE_TOOMANY | DE_ACCESS | DE_INVLDHNDL
  | DE_MCBDESTRY | DE_NOMEM | DE_INVLDMCB | DE_INVLDACC | DE_INVLDDATA | DE_INVLDDRV
  | DE_RMVCUDIR | DE_NFILES | DE_BLKINVLD | DE_SEEK | DE_HNDLDSKFULL | DE_DEADLOCK
  | DE_LOCK | DE_FILEEXISTS | DE_DEVICE

fun errno :: "dos_error \<Rightarrow> int" where
  "errno DE_INVLDFUNC = -1"
| "errno DE_FILENOTFND = -2"
| "errno DE_PATHNOTFND = -3"
| "errno DE_TOOMANY = -4"
| "errno DE_ACCESS = -5"
| "errno DE_INVLDHNDL = -6"
| "errno DE_MCBDESTRY = -7"
| "errno DE_NOMEM = -8"
| "errno DE_INVLDMCB = -9"
| "errno DE_INVLDACC = -12"
| "errno DE_INVLDDATA = -13"
| "errno DE_INVLDDRV = -15"
| "errno DE_RMVCUDIR = -16"
| "errno DE_NFILES = -18"
| "errno DE_BLKINVLD = -20"
| "errno DE_SEEK = -25"
| "errno DE_HNDLDSKFULL = -28"
| "errno DE_DEADLOCK = -36"
| "errno DE_LOCK = -39"
| "errno DE_FILEEXISTS = -80"
| "errno DE_DEVICE = -17"

section \<open>Fact collections\<close>

named_theorems layout_simps \<open>byte layout of little-endian fields\<close>
named_theorems frame_simps \<open>fields an operation leaves alone\<close>
named_theorems inv_intros \<open>preservation of component invariants\<close>

section \<open>Words\<close>

lemma unat_add_no_wrap:
  fixes a b :: "'a::len word"
  shows "unat a + unat b < 2 ^ LENGTH('a) \<Longrightarrow> unat (a + b) = unat a + unat b"
  by (simp add: unat_add_lem [symmetric])

lemma unat_mult_no_wrap:
  fixes a b :: "'a::len word"
  shows "unat a * unat b < 2 ^ LENGTH('a) \<Longrightarrow> unat (a * b) = unat a * unat b"
  by (simp add: unat_mult_lem [symmetric])

lemma unat_drop_bit: "unat (drop_bit n (w :: 'a::len word)) = unat w div 2 ^ n"
  unfolding unat_drop_bit_eq by (rule drop_bit_eq_div)

lemma unat_push_bit_no_wrap:
  fixes w :: "'a::len word"
  shows "unat w * 2 ^ n < 2 ^ LENGTH('a) \<Longrightarrow> unat (push_bit n w) = unat w * 2 ^ n"
  unfolding unsigned_push_bit_eq push_bit_eq_mult [of n "unat w"] take_bit_eq_mod by simp

lemma unat16_lt [simp]: "unat (x :: u16) < 65536"
  using unsigned_less [of x] by simp

lemma unat8_lt [simp]: "unat (x :: u8) < 256"
  using unsigned_less [of x] by simp

lemma unat32_lt [simp]: "unat (x :: u32) < 4294967296"
  using unsigned_less [of x] by simp

lemma unat_eq_iff: "(a :: 'a::len word) = b \<longleftrightarrow> unat a = unat b"
  by (simp add: word_unat_eq_iff)

lemma unat16_of_nat: "n < 65536 \<Longrightarrow> unat (of_nat n :: u16) = n"
  by (simp add: unsigned_of_nat take_bit_eq_mod)

lemma unat32_of_nat: "n < 4294967296 \<Longrightarrow> unat (of_nat n :: u32) = n"
  by (simp add: unsigned_of_nat take_bit_eq_mod)

lemma unat8_of_nat: "n < 256 \<Longrightarrow> unat (of_nat n :: u8) = n"
  by (simp add: unsigned_of_nat take_bit_eq_mod)

lemma unat_ucast_8_16 [simp]: "unat (ucast (w :: u8) :: u16) = unat w"
  by (simp add: unsigned_ucast_eq take_bit_eq_mod less_trans [OF unat8_lt])

lemma unat_ucast_8_32 [simp]: "unat (ucast (w :: u8) :: u32) = unat w"
  by (simp add: unsigned_ucast_eq take_bit_eq_mod less_trans [OF unat8_lt])

lemma unat_ucast_16_32 [simp]: "unat (ucast (w :: u16) :: u32) = unat w"
  by (simp add: unsigned_ucast_eq take_bit_eq_mod less_trans [OF unat16_lt])

lemma unat_ucast_16_8: "unat (ucast (w :: u16) :: u8) = unat w mod 256"
  by (simp add: unsigned_ucast_eq take_bit_eq_mod)

lemma unat_ucast_32_16: "unat (ucast (w :: u32) :: u16) = unat w mod 65536"
  by (simp add: unsigned_ucast_eq take_bit_eq_mod)

lemma unat_ucast_32_8: "unat (ucast (w :: u32) :: u8) = unat w mod 256"
  by (simp add: unsigned_ucast_eq take_bit_eq_mod)

lemma sint16_small:
  assumes "unat w < 32768"
  shows "sint (w :: u16) = int (unat w)"
proof -
  have u: "uint w = int (unat w)" by simp
  have "0 \<le> uint w" by simp
  moreover have "uint w < 32768" using u assms by linarith
  ultimately have "- 32768 \<le> uint w \<and> uint w < 32768" by linarith
  then have "signed_take_bit 15 (uint w) = uint w" by (intro signed_take_bit_int_eq_self) simp_all
  then show ?thesis by (simp add: sint_uint)
qed

text \<open>C division and remainder on values that are not negative.\<close>

lemma sdiv_pos: "0 \<le> a \<Longrightarrow> 0 < b \<Longrightarrow> a sdiv b = a div (b :: int)"
  by (cases "a = 0") (simp_all add: signed_divide_int_def)

lemma smod_pos: "0 \<le> a \<Longrightarrow> 0 < b \<Longrightarrow> a smod b = a mod (b :: int)"
  by (cases "a = 0") (simp_all add: signed_modulo_int_def)

lemma word_and_mask_mod: "(w :: 'a::len word) AND mask n = w mod 2 ^ n"
  unfolding take_bit_eq_mask [symmetric] take_bit_eq_mod by (rule refl)

text \<open>The two sides of a truncating division, for linear arithmetic.\<close>

lemma div_bounds:
  fixes n k :: nat
  assumes "0 < k"
  shows "k * (n div k) \<le> n" and "n < k * (n div k) + k"
proof -
  have "k * (n div k) + n mod k = n" "n mod k < k" using assms by simp_all
  then show "k * (n div k) \<le> n" "n < k * (n div k) + k" by linarith+
qed

section \<open>Lists\<close>

lemma takeWhile_neq_split:
  "x \<in> set xs \<Longrightarrow> xs = takeWhile (\<lambda>y. y \<noteq> x) xs @ x # tl (dropWhile (\<lambda>y. y \<noteq> x) xs)"
  by (induction xs) auto

lemma list_update_append_eq: "(xs @ y # ys)[length xs := z] = xs @ z # ys"
  by simp

lemma count_update:
  "i < length xs \<Longrightarrow>
   length (filter P (xs[i := y])) + of_bool (P (xs ! i)) = length (filter P xs) + of_bool (P y)"
proof (induction xs arbitrary: i)
  case (Cons x xs)
  then show ?case by (cases i) auto
qed simp

lemma find_upt_first:
  "find P [0..<n] = Some i \<Longrightarrow> P i \<and> i < n \<and> (\<forall>j < i. \<not> P j)"
  by (auto simp: find_Some_iff)

lemma unat16_inc: "unat (x :: u16) < 65535 \<Longrightarrow> unat (x + 1) = unat x + 1"
  by (subst unat_add_no_wrap) simp_all

lemma unat16_dec: "0 < unat (x :: u16) \<Longrightarrow> unat (x - 1) = unat x - 1"
  by (subst unat_sub) (simp_all add: word_le_nat_alt)

section \<open>Bytes of a word\<close>

text \<open>Little-endian halves of a 16-bit value, as the structures of the kernel lay it out.\<close>

definition lo8 :: "u16 \<Rightarrow> u8" where "lo8 w = ucast w"
definition hi8 :: "u16 \<Rightarrow> u8" where "hi8 w = ucast (drop_bit 8 w)"
definition mk16 :: "u8 \<Rightarrow> u8 \<Rightarrow> u16" where "mk16 l h = ucast l OR push_bit 8 (ucast h)"

lemma mk16_split [simp, layout_simps]: "mk16 (lo8 w) (hi8 w) = w"
  by (rule bit_word_eqI) (auto simp: mk16_def lo8_def hi8_def bit_or_iff bit_push_bit_iff
      bit_ucast_iff bit_drop_bit_eq)

lemma lo8_mk16 [simp, layout_simps]: "lo8 (mk16 l h) = l"
  by (rule bit_word_eqI) (auto simp: mk16_def lo8_def bit_or_iff bit_push_bit_iff bit_ucast_iff)

lemma hi8_mk16 [simp, layout_simps]: "hi8 (mk16 l h) = h"
  by (rule bit_word_eqI) (auto simp: mk16_def hi8_def bit_or_iff bit_push_bit_iff bit_ucast_iff
      bit_drop_bit_eq dest: bit_imp_le_length)

end
