(* ===== verification/Mem_Manager.thy ===== *)
theory Mem_Manager
  imports Prelude
begin

text \<open>
  The memory manager, \<^verbatim>\<open>kernel/memmgr.c\<close>: the chain of memory control blocks (MCBs) and the
  DOS calls that allocate, free and resize blocks.
\<close>

section \<open>State\<close>

text \<open>
  An MCB is one paragraph (16 bytes) at offset 0 of its segment, so memory seen through MCB
  pointers is a total function from segments: two different segments never overlap.
  The fields of \<^verbatim>\<open>mcb\<close> the manager reads or writes are kept (\<^verbatim>\<open>m_fill\<close> is never touched).
\<close>

record mcb =
  m_type :: u8
  m_psp :: u16
  m_size :: u16
  m_name :: bytes

record mem_state =
  mem :: "u16 \<Rightarrow> mcb"
  first_mcb :: u16
  uppermem_root :: u16
  uppermem_link :: u8
  mem_access_mode :: u8
  cu_psp :: u16

definition MCB_NORMAL :: u8 where "MCB_NORMAL = 0x4d"
definition MCB_LAST :: u8 where "MCB_LAST = 0x5a"
definition FREE_PSP :: u16 where "FREE_PSP = 0"

lemmas mcb_consts [simp] = MCB_NORMAL_def MCB_LAST_def FREE_PSP_def

text \<open>The macros on MCB pointers; \<open>+\<close> on segments wraps at 16 bits, as \<^verbatim>\<open>MK_FP\<close> does.\<close>

definition nxtMCBsize :: "u16 \<Rightarrow> u16 \<Rightarrow> u16" where
  "nxtMCBsize p sz = p + sz + 1"

definition nxtMCB :: "mem_state \<Rightarrow> u16 \<Rightarrow> u16" where
  "nxtMCB s p = nxtMCBsize p (m_size (mem s p))"

definition mcbFree :: "mcb \<Rightarrow> bool" where
  "mcbFree b \<longleftrightarrow> m_psp b = FREE_PSP"

definition mcbFreeable :: "mcb \<Rightarrow> bool" where
  "mcbFreeable b \<longleftrightarrow> m_type b = MCB_NORMAL \<or> m_type b = MCB_LAST"

definition mcbValid :: "mcb \<Rightarrow> bool" where
  "mcbValid b \<longleftrightarrow> m_size b \<noteq> 0xffff \<and> (m_type b = MCB_NORMAL \<or> m_type b = MCB_LAST)"

definition upd_mcb :: "u16 \<Rightarrow> (mcb \<Rightarrow> mcb) \<Rightarrow> mem_state \<Rightarrow> mem_state" where
  "upd_mcb p f s = s\<lparr>mem := (mem s)(p := f (mem s p))\<rparr>"

lemma upd_mcb_sel [simp]:
  "first_mcb (upd_mcb p f s) = first_mcb s"
  "uppermem_root (upd_mcb p f s) = uppermem_root s"
  "uppermem_link (upd_mcb p f s) = uppermem_link s"
  "mem_access_mode (upd_mcb p f s) = mem_access_mode s"
  "cu_psp (upd_mcb p f s) = cu_psp s"
  "mem (upd_mcb p f s) = (mem s)(p := f (mem s p))"
  by (simp_all add: upd_mcb_def)

section \<open>Joining free blocks\<close>

text \<open>
  \<^verbatim>\<open>joinMCBs\<close> always returns: each turn of its loop marks one more MCB with the size
  \<open>0xffff\<close>, and a marked MCB is not valid. \<open>fake_mcbs\<close> counts what is left to mark.
\<close>

definition fake_mcbs :: "u16 \<Rightarrow> mem_state \<Rightarrow> nat" where
  "fake_mcbs p s = card {q. q \<noteq> p \<and> m_size (mem s q) \<noteq> 0xffff}"

definition join1 :: "u16 \<Rightarrow> mem_state \<Rightarrow> mem_state" where
  "join1 p s =
     (let q = nxtMCB s p;
          s1 = upd_mcb p (\<lambda>b. b\<lparr>m_type := m_type (mem s q)\<rparr>) s;
          s2 = upd_mcb p (\<lambda>b. b\<lparr>m_size := m_size b + (m_size (mem s1 q) + 1)\<rparr>) s1
      in upd_mcb q (\<lambda>b. b\<lparr>m_size := 0xffff\<rparr>) s2)"

lemma join1_decreases:
  assumes "mcbValid (mem s (nxtMCB s p))" and "p \<noteq> nxtMCB s p"
  shows "fake_mcbs p (join1 p s) < fake_mcbs p s"
proof -
  let ?q = "nxtMCB s p" and ?A = "{q. q \<noteq> p \<and> m_size (mem s q) \<noteq> 0xffff}"
  have eq: "{q. q \<noteq> p \<and> m_size (mem (join1 p s) q) \<noteq> 0xffff} = ?A - {?q}"
    using assms by (auto simp: join1_def Let_def mcbValid_def split: if_splits)
  have q: "?q \<in> ?A"
    using assms by (auto simp: mcbValid_def)
  show ?thesis
    unfolding fake_mcbs_def eq by (rule card_Diff1_less [OF finite q])
qed

lemma nxtMCB_self: "nxtMCB s p = p \<Longrightarrow> m_size (mem s p) = 0xffff"
proof -
  assume "nxtMCB s p = p"
  then have "m_size (mem s p) + 1 = 0"
    by (simp add: nxtMCB_def nxtMCBsize_def add.assoc)
  then have "m_size (mem s p) = - 1"
    by (metis add_eq_0_iff2)
  then show ?thesis by simp
qed

function joinMCBs :: "u16 \<Rightarrow> mem_state \<Rightarrow> (dos_error + unit) \<times> mem_state" where
  "joinMCBs para s =
     (if m_type (mem s para) \<noteq> MCB_NORMAL then (Inr (), s)
      else if \<not> mcbFree (mem s (nxtMCB s para)) then (Inr (), s)
      else if \<not> mcbValid (mem s (nxtMCB s para)) then (Inl DE_MCBDESTRY, s)
      else joinMCBs para (join1 para s))"
  by pat_completeness auto
termination
proof (relation "measure (\<lambda>(p, s). fake_mcbs p s)")
  fix para s
  assume "\<not> \<not> mcbValid (mem s (nxtMCB s para))"
  then have v: "mcbValid (mem s (nxtMCB s para))" by simp
  then have "para \<noteq> nxtMCB s para"
    using nxtMCB_self [of s para] by (auto simp: mcbValid_def)
  with v show "((para, join1 para s), para, s) \<in> measure (\<lambda>(p, s). fake_mcbs p s)"
    by (simp add: join1_decreases)
qed simp

declare joinMCBs.simps [simp del]

section \<open>Allocating\<close>

definition LARGEST :: int where "LARGEST = -1"
definition FIRST_FIT :: int where "FIRST_FIT = 0"
definition BEST_FIT :: int where "BEST_FIT = 1"
definition LAST_FIT :: int where "LAST_FIT = 2"
definition FIRST_FIT_UO :: int where "FIRST_FIT_UO = 0x40"
definition BEST_FIT_UO :: int where "BEST_FIT_UO = 0x41"
definition LAST_FIT_UO :: int where "LAST_FIT_UO = 0x42"
definition FIRST_FIT_U :: int where "FIRST_FIT_U = 0x80"
definition BEST_FIT_U :: int where "BEST_FIT_U = 0x81"
definition LAST_FIT_U :: int where "LAST_FIT_U = 0x82"

lemmas fit_modes = LARGEST_def FIRST_FIT_def BEST_FIT_def LAST_FIT_def FIRST_FIT_UO_def
  BEST_FIT_UO_def LAST_FIT_UO_def FIRST_FIT_U_def BEST_FIT_U_def LAST_FIT_U_def

definition is_first_fit :: "int \<Rightarrow> bool" where
  "is_first_fit mode \<longleftrightarrow> mode = FIRST_FIT \<or> mode = FIRST_FIT_U \<or> mode = FIRST_FIT_UO"

definition is_best_fit :: "int \<Rightarrow> bool" where
  "is_best_fit mode \<longleftrightarrow> mode = BEST_FIT \<or> mode = BEST_FIT_U \<or> mode = BEST_FIT_UO"

definition is_last_fit :: "int \<Rightarrow> bool" where
  "is_last_fit mode \<longleftrightarrow> mode = LAST_FIT \<or> mode = LAST_FIT_UO \<or> mode = LAST_FIT_U"

definition umb_linked :: "mem_state \<Rightarrow> bool" where
  "umb_linked s \<longleftrightarrow> uppermem_link s AND 1 \<noteq> 0 \<and> uppermem_root s \<noteq> 0xffff"

text \<open>Where the search starts: the upper memory chain when the mode asks for it.\<close>

definition scan_start :: "u16 \<Rightarrow> int \<Rightarrow> mem_state \<Rightarrow> u16" where
  "scan_start sz mode s =
     (if umb_linked s then
        (let tmpmode = (if mode = LARGEST then uint (mem_access_mode s) else mode)
         in if (mode \<noteq> LARGEST \<or> sz = 0xffff) \<and> tmpmode AND (FIRST_FIT_UO OR FIRST_FIT_U) \<noteq> 0
            then uppermem_root s else first_mcb s)
      else first_mcb s)"

text \<open>
  The \<^verbatim>\<open>switch (mode)\<close> of the search, for a free block at \<open>p\<close>: the new \<^verbatim>\<open>foundSeg\<close> and
  whether the search stops (\<^verbatim>\<open>goto stopIt\<close>). \<open>None\<close> is the NULL pointer.
\<close>

definition fit_rule :: "int \<Rightarrow> u16 \<Rightarrow> mem_state \<Rightarrow> u16 \<Rightarrow> u16 option \<Rightarrow> u16 option \<times> bool" where
  "fit_rule mode sz s p found =
     (if sz \<le> m_size (mem s p) then
        (if mode = LARGEST then (found, False)
         else if is_best_fit mode then
           (case found of
              None \<Rightarrow> (Some p, False)
            | Some f \<Rightarrow> (if m_size (mem s p) < m_size (mem s f) then (Some p, False) else (found, False)))
         else if is_first_fit mode then (Some p, True)
         else (Some p, False))
      else (found, False))"

definition bigger :: "mem_state \<Rightarrow> u16 \<Rightarrow> u16 option \<Rightarrow> u16 option" where
  "bigger s p biggest =
     (case biggest of
        None \<Rightarrow> Some p
      | Some b \<Rightarrow> (if m_size (mem s b) < m_size (mem s p) then Some p else biggest))"

text \<open>
  The search loop. Nothing bounds it for an arbitrary memory image (a chain that wraps around
  the segment space has no last block), so not returning is the value \<open>None\<close>.
  The result is an error, or whether the loop was left by \<^verbatim>\<open>goto stopIt\<close>, \<^verbatim>\<open>biggestSeg\<close> and
  \<^verbatim>\<open>foundSeg\<close>.
\<close>

partial_function (option) mcb_scan ::
  "int \<Rightarrow> u16 \<Rightarrow> mem_state \<Rightarrow> u16 \<Rightarrow> u16 option \<Rightarrow> u16 option
   \<Rightarrow> ((dos_error + bool \<times> u16 option \<times> u16 option) \<times> mem_state) option" where
  "mcb_scan mode sz s p biggest found =
     (if \<not> mcbValid (mem s p) then Some (Inl DE_MCBDESTRY, s)
      else if mcbFree (mem s p) then
        (let (r, s1) = joinMCBs p s in
         if r \<noteq> Inr () then Some (Inl DE_MCBDESTRY, s1)
         else
           (let biggest1 = bigger s1 p biggest;
                (found1, stop) = fit_rule mode sz s1 p found
            in if stop then Some (Inr (True, biggest1, found1), s1)
               else if m_type (mem s1 p) = MCB_LAST then Some (Inr (False, biggest1, found1), s1)
               else mcb_scan mode sz s1 (nxtMCB s1 p) biggest1 found1))
      else if m_type (mem s p) = MCB_LAST then Some (Inr (False, biggest, found), s)
      else mcb_scan mode sz s (nxtMCB s p) biggest found)"

text \<open>The two ways to split the found block, and the claim that ends a successful call.\<close>

definition split_last :: "u16 \<Rightarrow> u16 \<Rightarrow> mem_state \<Rightarrow> u16 \<times> mem_state" where
  "split_last sz p s =
     (let s1 = upd_mcb p (\<lambda>b. b\<lparr>m_size := m_size b - (sz + 1)\<rparr>) s;
          f = nxtMCB s1 p;
          s2 = upd_mcb f (\<lambda>b. b\<lparr>m_type := m_type (mem s1 p)\<rparr>) s1;
          s3 = upd_mcb p (\<lambda>b. b\<lparr>m_type := MCB_NORMAL\<rparr>) s2;
          s4 = upd_mcb p (\<lambda>b. b\<lparr>m_psp := FREE_PSP\<rparr>) s3
      in (f, upd_mcb f (\<lambda>b. b\<lparr>m_size := sz\<rparr>) s4))"

definition split_first :: "u16 \<Rightarrow> u16 \<Rightarrow> mem_state \<Rightarrow> u16 \<times> mem_state" where
  "split_first sz f s =
     (let p = nxtMCBsize f sz;
          s1 = upd_mcb p (\<lambda>b. b\<lparr>m_type := m_type (mem s f)\<rparr>) s;
          s2 = upd_mcb p (\<lambda>b. b\<lparr>m_size := m_size (mem s1 f) - sz - 1\<rparr>) s1;
          s3 = upd_mcb f (\<lambda>b. b\<lparr>m_type := MCB_NORMAL\<rparr>) s2;
          s4 = upd_mcb p (\<lambda>b. b\<lparr>m_psp := FREE_PSP\<rparr>) s3
      in (f, upd_mcb f (\<lambda>b. b\<lparr>m_size := sz\<rparr>) s4))"

definition alloc_found :: "u16 \<Rightarrow> int \<Rightarrow> u16 \<Rightarrow> mem_state \<Rightarrow> u16 \<times> mem_state" where
  "alloc_found sz mode f s =
     (let (g, s1) = (if mode \<noteq> LARGEST \<and> sz \<noteq> m_size (mem s f)
                     then (if is_last_fit mode then split_last sz f s else split_first sz f s)
                     else (f, s))
      in (g, upd_mcb g (\<lambda>b. b\<lparr>m_psp := cu_psp s1, m_name := (m_name b)[0 := 0]\<rparr>) s1))"

text \<open>
  \<^verbatim>\<open>DosMemAlloc\<close>. The pointer argument \<^verbatim>\<open>asize\<close> is \<open>None\<close> for NULL, and its new contents are
  returned; for \<open>LARGEST\<close> the C function requires it to be non-NULL. The second search, after
  \<^verbatim>\<open>goto searchAgain\<close>, is the recursive call.
\<close>

definition set_out :: "'a option \<Rightarrow> 'a \<Rightarrow> 'a option" where
  "set_out ptr v = map_option (\<lambda>_. v) ptr"

definition largest_pick :: "u16 \<Rightarrow> int \<Rightarrow> mem_state \<Rightarrow> u16 option \<Rightarrow> u16 option \<Rightarrow> u16 option" where
  "largest_pick sz mode s biggest found =
     (case biggest of
        Some b \<Rightarrow> (if mode = LARGEST \<and> sz \<le> m_size (mem s b) then Some b else found)
      | None \<Rightarrow> found)"

definition largest_out :: "u16 \<Rightarrow> int \<Rightarrow> mem_state \<Rightarrow> u16 option \<Rightarrow> u16 option \<Rightarrow> u16 option" where
  "largest_out sz mode s biggest asize =
     (case biggest of
        Some b \<Rightarrow> (if mode = LARGEST \<and> sz \<le> m_size (mem s b)
                   then set_out asize (m_size (mem s b)) else asize)
      | None \<Rightarrow> asize)"

definition size_at :: "mem_state \<Rightarrow> u16 option \<Rightarrow> u16" where
  "size_at s q = (case q of None \<Rightarrow> 0 | Some b \<Rightarrow> m_size (mem s b))"

partial_function (option) DosMemAlloc ::
  "u16 \<Rightarrow> int \<Rightarrow> u16 option \<Rightarrow> mem_state \<Rightarrow> ((dos_error + u16) \<times> u16 option \<times> mem_state) option" where
  "DosMemAlloc sz mode asize s =
     Option.bind (mcb_scan mode sz s (scan_start sz mode s) None None) (\<lambda>(r, s1).
       case r of
         Inl e \<Rightarrow> Some (Inl e, asize, s1)
       | Inr (stopped, biggest, found) \<Rightarrow>
           (if stopped then
              (let (f, s2) = alloc_found sz mode (the found) s1 in Some (Inr f, asize, s2))
            else
              (let found1 = largest_pick sz mode s1 biggest found;
                   asize1 = largest_out sz mode s1 biggest asize
               in if size_at s1 found1 = 0 then
                    (if mode \<noteq> LARGEST \<and> mode AND FIRST_FIT_U \<noteq> 0 \<and> umb_linked s1
                     then DosMemAlloc sz (mode AND NOT FIRST_FIT_U) asize1 s1
                     else Some (Inl DE_NOMEM, set_out asize1 (size_at s1 biggest), s1))
                  else
                    (let (f, s2) = alloc_found sz mode (the found1) s1
                     in Some (Inr f, asize1, s2)))))"

text \<open>
  \<^verbatim>\<open>DosMemLargest\<close> asks for \<open>0xffff\<close> paragraphs, which no valid block has, so that the search
  only reports the largest block.
\<close>

definition DosMemLargest :: "mem_state \<Rightarrow> ((dos_error + unit) \<times> u16 \<times> mem_state) option" where
  "DosMemLargest s =
     Option.bind (DosMemAlloc 0xffff LARGEST (Some 0) s) (\<lambda>(_, sz, s1).
       if mem_access_mode s1 AND 0x80 \<noteq> 0 then
         Option.bind (DosMemAlloc 0xffff LARGEST (Some 0)
                        (s1\<lparr>mem_access_mode := mem_access_mode s1 AND NOT 0x80\<rparr>)) (\<lambda>(_, low, s2).
           let s3 = s2\<lparr>mem_access_mode := mem_access_mode s2 OR 0x80\<rparr>;
               sz1 = (if the low > the sz then the low else the sz)
           in Some (if sz1 \<noteq> 0 then Inr () else Inl DE_NOMEM, sz1, s3))
       else Some (if the sz \<noteq> 0 then Inr () else Inl DE_NOMEM, the sz, s1))"

section \<open>Freeing, resizing, checking\<close>

definition DosMemFree :: "u16 \<Rightarrow> mem_state \<Rightarrow> (dos_error + unit) \<times> mem_state" where
  "DosMemFree para s =
     (if para = 0 then (Inl DE_INVLDMCB, s)
      else if \<not> mcbFreeable (mem s para) then (Inl DE_INVLDMCB, s)
      else if mcbFree (mem s para) then (Inr (), s)
      else (Inr (), upd_mcb para (\<lambda>b. b\<lparr>m_psp := FREE_PSP, m_name := replicate 8 0\<rparr>) s))"

definition shrink_block :: "u16 \<Rightarrow> u16 \<Rightarrow> mem_state \<Rightarrow> mem_state" where
  "shrink_block p sz s =
     (let q = nxtMCBsize p sz;
          s1 = upd_mcb q (\<lambda>b. b\<lparr>m_size := m_size (mem s p) - sz - 1\<rparr>) s;
          s2 = upd_mcb q (\<lambda>b. b\<lparr>m_type := m_type (mem s1 p)\<rparr>) s1;
          s3 = upd_mcb p (\<lambda>b. b\<lparr>m_size := sz\<rparr>) s2;
          s4 = upd_mcb p (\<lambda>b. b\<lparr>m_type := MCB_NORMAL\<rparr>) s3
      in upd_mcb q (\<lambda>b. b\<lparr>m_psp := FREE_PSP\<rparr>) s4)"

text \<open>\<open>maxSize\<close> is \<open>None\<close> for a NULL pointer; its new contents are returned.\<close>

definition DosMemChange ::
  "u16 \<Rightarrow> u16 \<Rightarrow> u16 option \<Rightarrow> mem_state \<Rightarrow> (dos_error + unit) \<times> u16 option \<times> mem_state" where
  "DosMemChange para sz maxSize s =
     (let p = para - 1 in
      if \<not> mcbValid (mem s p) then (Inl DE_MCBDESTRY, maxSize, s)
      else
        (let (r, s1) = (if sz > m_size (mem s p) then joinMCBs p s else (Inr (), s)) in
         if r \<noteq> Inr () then (Inl DE_MCBDESTRY, maxSize, s1)
         else if sz > m_size (mem s1 p) then (Inl DE_NOMEM, set_out maxSize (m_size (mem s1 p)), s1)
         else
           (let (r2, s2) = (if sz < m_size (mem s1 p)
                            then joinMCBs (nxtMCBsize p sz) (shrink_block p sz s1)
                            else (Inr (), s1)) in
            if r2 \<noteq> Inr () then (Inl DE_MCBDESTRY, maxSize, s2)
            else (Inr (), maxSize, upd_mcb p (\<lambda>b. b\<lparr>m_psp := cu_psp s2\<rparr>) s2))))"

text \<open>The walk of \<^verbatim>\<open>DosMemCheck\<close>; its console output is left out.\<close>

partial_function (option) mem_check_from :: "mem_state \<Rightarrow> u16 \<Rightarrow> (dos_error + unit) option" where
  "mem_check_from s p =
     (if m_type (mem s p) = MCB_LAST then Some (Inr ())
      else if m_type (mem s p) \<noteq> MCB_NORMAL then Some (Inl DE_MCBDESTRY)
      else mem_check_from s (nxtMCB s p))"

definition DosMemCheck :: "mem_state \<Rightarrow> (dos_error + unit) option" where
  "DosMemCheck s = mem_check_from s (first_mcb s)"

text \<open>
  \<^verbatim>\<open>DosUmbLink\<close>. Its local \<^verbatim>\<open>q\<close> is not initialised: the argument \<open>q0\<close> stands for whatever
  it holds when the loop runs no turn. The loop returns \<open>None\<close> inside the result when it meets
  an invalid MCB (the early \<^verbatim>\<open>return\<close>).
\<close>

partial_function (option) umb_walk :: "mem_state \<Rightarrow> u16 \<Rightarrow> u16 \<Rightarrow> ((u16 \<times> u16) option) option" where
  "umb_walk s p q =
     (if p \<noteq> uppermem_root s \<and> m_type (mem s p) \<noteq> MCB_LAST then
        (if \<not> mcbValid (mem s p) then Some None
         else umb_walk s (nxtMCB s p) p)
      else Some (Some (p, q)))"

definition DosUmbLink :: "u16 \<Rightarrow> u16 \<Rightarrow> mem_state \<Rightarrow> mem_state option" where
  "DosUmbLink q0 n s =
     (if uppermem_root s = 0xffff then Some s
      else if n > 1 \<or> ucast (uppermem_link s AND 1) = n then Some s
      else Option.bind (umb_walk s (first_mcb s) q0) (\<lambda>r.
        case r of
          None \<Rightarrow> Some s
        | Some (p, q) \<Rightarrow>
            (if n = 0 then
               (let s1 = (if m_type (mem s q) = MCB_NORMAL \<and> p = uppermem_root s
                          then upd_mcb q (\<lambda>b. b\<lparr>m_type := MCB_LAST\<rparr>) s else s)
                in Some (s1\<lparr>uppermem_link := ucast n\<rparr>))
             else if m_type (mem s p) = MCB_LAST then
               Some ((upd_mcb p (\<lambda>b. b\<lparr>m_type := MCB_NORMAL\<rparr>) s)\<lparr>uppermem_link := ucast n\<rparr>)
             else Some s)))"

text \<open>\<^verbatim>\<open>FreeProcessMem\<close>: note the early return, which skips the second \<^verbatim>\<open>DosUmbLink\<close>.\<close>

partial_function (option) free_from :: "u16 \<Rightarrow> mem_state \<Rightarrow> u16 \<Rightarrow> ((dos_error + unit) \<times> mem_state) option" where
  "free_from ps s p =
     (if \<not> mcbValid (mem s p) then Some (Inl DE_MCBDESTRY, s)
      else
        (let s1 = (if m_psp (mem s p) = ps then snd (DosMemFree p s) else s) in
         if m_type (mem s1 p) = MCB_LAST then Some (Inr (), s1)
         else free_from ps s1 (nxtMCB s1 p)))"

definition FreeProcessMem :: "u16 \<Rightarrow> u16 \<Rightarrow> u16 \<Rightarrow> mem_state \<Rightarrow> ((dos_error + unit) \<times> mem_state) option" where
  "FreeProcessMem q0 q1 ps s =
     (let oldumbstate = ucast (uppermem_link s AND 1) in
      Option.bind (DosUmbLink q0 1 s) (\<lambda>s1.
      Option.bind (free_from ps s1 (first_mcb s1)) (\<lambda>(r, s2).
        if r \<noteq> Inr () then Some (r, s2)
        else Option.bind (DosUmbLink q1 oldumbstate s2) (\<lambda>s3. Some (Inr (), s3)))))"

end
