(* ===== verification/Mem_Chain.thy ===== *)
theory Mem_Chain
  imports Mem_Manager
begin

text \<open>
  Well-formed MCB chains, and what the operations of the memory manager do to them.
\<close>

section \<open>The chain invariant\<close>

text \<open>
  \<open>mcb_chain m ps\<close>: the segments \<open>ps\<close> hold the MCBs of a chain, each block ends where the next
  MCB begins, only the last MCB is marked \<open>MCB_LAST\<close>, and nothing wraps around.
\<close>

fun mcb_chain :: "(u16 \<Rightarrow> mcb) \<Rightarrow> u16 list \<Rightarrow> bool" where
  "mcb_chain m [] = False"
| "mcb_chain m [p] =
     (p \<noteq> 0 \<and> m_size (m p) \<noteq> 0xffff \<and> m_type (m p) = MCB_LAST
      \<and> unat p + unat (m_size (m p)) < 65536)"
| "mcb_chain m (p # q # ps) =
     (p \<noteq> 0 \<and> m_size (m p) \<noteq> 0xffff \<and> m_type (m p) = MCB_NORMAL
      \<and> unat q = unat p + unat (m_size (m p)) + 1 \<and> mcb_chain m (q # ps))"

definition chain_end :: "(u16 \<Rightarrow> mcb) \<Rightarrow> u16 list \<Rightarrow> nat" where
  "chain_end m ps = unat (last ps) + unat (m_size (m (last ps))) + 1"

text \<open>The allocated blocks of a chain: header segment, size, owner.\<close>

definition allocs :: "(u16 \<Rightarrow> mcb) \<Rightarrow> u16 list \<Rightarrow> (u16 \<times> u16 \<times> u16) set" where
  "allocs m ps = {(p, m_size (m p), m_psp (m p)) | p. p \<in> set ps \<and> \<not> mcbFree (m p)}"

text \<open>The maximal runs of free blocks, as header segment and size after joining.\<close>

function runs :: "(u16 \<Rightarrow> mcb) \<Rightarrow> u16 list \<Rightarrow> (u16 \<times> nat) list" where
  "runs m [] = []"
| "runs m (p # ps) =
     (if mcbFree (m p)
      then (p, unat (m_size (m p)) + (\<Sum>q\<leftarrow>takeWhile (\<lambda>q. mcbFree (m q)) ps. unat (m_size (m q)) + 1))
           # runs m (dropWhile (\<lambda>q. mcbFree (m q)) ps)
      else runs m ps)"
  by pat_completeness auto
termination
  by (relation "measure (\<lambda>(m, ps). length ps)") (auto simp: le_imp_less_Suc length_dropWhile_le)

lemma mcb_chain_Cons:
  "ps \<noteq> [] \<Longrightarrow> mcb_chain m (p # ps) \<longleftrightarrow>
     p \<noteq> 0 \<and> m_size (m p) \<noteq> 0xffff \<and> m_type (m p) = MCB_NORMAL
     \<and> unat (hd ps) = unat p + unat (m_size (m p)) + 1 \<and> mcb_chain m ps"
  by (cases ps) auto

lemma mcb_chain_valid: "mcb_chain m ps \<Longrightarrow> p \<in> set ps \<Longrightarrow> mcbValid (m p)"
  by (induction m ps rule: mcb_chain.induct) (auto simp: mcbValid_def)

lemma mcb_chain_suffix: "mcb_chain m (xs @ p # ys) \<Longrightarrow> mcb_chain m (p # ys)"
proof (induction xs)
  case (Cons x xs)
  then show ?case by (simp add: mcb_chain_Cons)
qed simp

lemma mcb_chain_gt: "mcb_chain m (p # ps) \<Longrightarrow> q \<in> set ps \<Longrightarrow> unat p < unat q"
proof (induction ps arbitrary: p)
  case (Cons r rs)
  then have r: "unat p < unat r" and ch: "mcb_chain m (r # rs)" by auto
  show ?case
  proof (cases "q = r")
    case False
    then have "unat r < unat q" using Cons.IH [OF ch] Cons.prems by simp
    with r show ?thesis by simp
  qed (use r in simp)
qed simp

lemma mcb_chain_distinct: "mcb_chain m ps \<Longrightarrow> distinct ps"
proof (induction ps)
  case (Cons p ps)
  then show ?case
  proof (cases "ps = []")
    case False
    then have "mcb_chain m ps" using Cons.prems by (simp add: mcb_chain_Cons)
    moreover have "p \<notin> set ps" using mcb_chain_gt [OF Cons.prems] by auto
    ultimately show ?thesis using Cons.IH by simp
  qed simp
qed simp

lemma mcb_chain_cong:
  "(\<And>p. p \<in> set ps \<Longrightarrow> m_size (m' p) = m_size (m p) \<and> m_type (m' p) = m_type (m p))
   \<Longrightarrow> mcb_chain m' ps = mcb_chain m ps"
  by (induction m ps rule: mcb_chain.induct) auto

lemma mcb_chain_replace:
  assumes "mcb_chain m (xs @ p # ys)" and "mcb_chain m' (p # zs)"
    and "\<And>x. x \<in> set xs \<Longrightarrow> m' x = m x"
  shows "mcb_chain m' (xs @ p # zs)"
  using assms
proof (induction xs)
  case (Cons x xs)
  have ne: "xs @ p # ys \<noteq> []" "xs @ p # zs \<noteq> []" by simp_all
  have "hd (xs @ p # ys) = hd (xs @ p # zs)" by (cases xs) auto
  with Cons ne show ?case by (simp add: mcb_chain_Cons)
qed simp

lemma mcb_chain_next:
  assumes "mcb_chain (mem s) (p # q # ps)"
  shows "nxtMCB s p = q"
proof -
  have q: "unat q = unat p + unat (m_size (mem s p)) + 1" using assms by simp
  have b: "unat p + unat (m_size (mem s p)) + 1 < 65536" using q unat16_lt [of q] by linarith
  have "unat (p + m_size (mem s p)) = unat p + unat (m_size (mem s p))"
    using b by (intro unat_add_no_wrap) simp
  then have "unat (p + m_size (mem s p) + 1) = unat q"
    using b q by (subst unat_add_no_wrap) simp_all
  then show ?thesis
    by (simp add: nxtMCB_def nxtMCBsize_def unat_eq_iff)
qed

section \<open>joinMCBs\<close>

lemma join1_mem:
  assumes "nxtMCB s p = q" and "p \<noteq> q"
  shows "mem (join1 p s) = (mem s)
     (p := (mem s p)\<lparr>m_type := m_type (mem s q), m_size := m_size (mem s p) + (m_size (mem s q) + 1)\<rparr>,
      q := (mem s q)\<lparr>m_size := 0xffff\<rparr>)"
  using assms by (auto simp: join1_def Let_def fun_eq_iff)

text \<open>The globals of the memory manager, which only \<^verbatim>\<open>DosUmbLink\<close> changes.\<close>

definition mem_env :: "mem_state \<Rightarrow> u16 \<times> u16 \<times> u8 \<times> u8 \<times> u16" where
  "mem_env s = (first_mcb s, uppermem_root s, uppermem_link s, mem_access_mode s, cu_psp s)"

lemma mem_env_upd [simp]: "mem_env (upd_mcb p f s) = mem_env s"
  by (simp add: mem_env_def)

lemma mem_env_join1 [simp]: "mem_env (join1 p s) = mem_env s"
  by (simp add: join1_def Let_def)

lemma mcb_chain_hd:
  assumes "mcb_chain m (p # ps)"
  shows "p \<noteq> 0" and "m_size (m p) \<noteq> 0xffff" and "unat p + unat (m_size (m p)) < 65536"
proof -
  show "p \<noteq> 0" "m_size (m p) \<noteq> 0xffff" using assms by (cases ps; simp)+
  show "unat p + unat (m_size (m p)) < 65536"
  proof (cases ps)
    case (Cons q qs)
    then have "unat q = unat p + unat (m_size (m p)) + 1" using assms by simp
    then show ?thesis using unat16_lt [of q] by linarith
  qed (use assms in simp)
qed

lemma join1_size:
  assumes ch: "mcb_chain (mem s) (p # q # ps)"
  shows "unat (m_size (mem s p) + (m_size (mem s q) + 1)) = unat (m_size (mem s p)) + unat (m_size (mem s q)) + 1"
    and "m_size (mem s p) + (m_size (mem s q) + 1) \<noteq> 0xffff"
proof -
  let ?a = "unat (m_size (mem s p))" and ?b = "unat (m_size (mem s q))"
  have p: "0 < unat p" using ch by (simp add: unat_gt_0)
  have uq: "unat q = unat p + ?a + 1" using ch by simp
  have "unat q + ?b < 65536" using ch mcb_chain_hd(3) [of "mem s" q ps] by simp
  with uq p have le: "?a + ?b + 1 < 65535" by linarith
  have s1: "unat (m_size (mem s q) + 1) = ?b + 1"
    using le by (subst unat_add_no_wrap) simp_all
  show sz: "unat (m_size (mem s p) + (m_size (mem s q) + 1)) = ?a + ?b + 1"
    using le s1 by (subst unat_add_no_wrap) simp_all
  show "m_size (mem s p) + (m_size (mem s q) + 1) \<noteq> 0xffff"
    using le sz by (auto simp: unat_eq_iff)
qed

lemma join1_chain:
  assumes ch: "mcb_chain (mem s) (p # q # ps)"
  shows "mcb_chain (mem (join1 p s)) (p # ps)"
    and "unat (m_size (mem (join1 p s) p)) = unat (m_size (mem s p)) + unat (m_size (mem s q)) + 1"
    and "chain_end (mem (join1 p s)) (p # ps) = chain_end (mem s) (p # q # ps)"
    and "\<And>x. x \<noteq> p \<Longrightarrow> x \<noteq> q \<Longrightarrow> mem (join1 p s) x = mem s x"
    and "m_psp (mem (join1 p s) p) = m_psp (mem s p)"
    and "m_name (mem (join1 p s) p) = m_name (mem s p)"
proof -
  have n: "nxtMCB s p = q" using ch by (rule mcb_chain_next)
  have dist: "distinct (p # q # ps)" using ch by (rule mcb_chain_distinct)
  have pq: "p \<noteq> q" and nq: "\<And>x. x \<in> set ps \<Longrightarrow> x \<noteq> p \<and> x \<noteq> q" using dist by auto
  note m = join1_mem [OF n pq]
  show size: "unat (m_size (mem (join1 p s) p)) = unat (m_size (mem s p)) + unat (m_size (mem s q)) + 1"
    using m pq join1_size(1) [OF ch] by simp
  show frame: "\<And>x. x \<noteq> p \<Longrightarrow> x \<noteq> q \<Longrightarrow> mem (join1 p s) x = mem s x"
    using m by simp
  show "m_psp (mem (join1 p s) p) = m_psp (mem s p)" "m_name (mem (join1 p s) p) = m_name (mem s p)"
    using m pq by simp_all
  have ne: "m_size (mem (join1 p s) p) \<noteq> 0xffff"
    using m pq join1_size(2) [OF ch] by simp
  have ty: "m_type (mem (join1 p s) p) = m_type (mem s q)"
    using m pq by simp
  have uq: "unat q = unat p + unat (m_size (mem s p)) + 1" and chq: "mcb_chain (mem s) (q # ps)"
    and p0: "p \<noteq> 0"
    using ch by auto
  show "mcb_chain (mem (join1 p s)) (p # ps)"
  proof (cases ps)
    case Nil
    then show ?thesis using chq ty ne p0 size uq by simp
  next
    case (Cons r rs)
    have "mcb_chain (mem (join1 p s)) (r # rs) = mcb_chain (mem s) (r # rs)"
      using nq Cons by (intro mcb_chain_cong) (simp add: frame)
    then show ?thesis using chq ty ne p0 size uq Cons by simp
  qed
  show "chain_end (mem (join1 p s)) (p # ps) = chain_end (mem s) (p # q # ps)"
  proof (cases "ps = []")
    case True
    then show ?thesis using size uq by (simp add: chain_end_def)
  next
    case False
    then have "last ps \<noteq> p" "last ps \<noteq> q" using dist by (auto dest: last_in_set)
    then show ?thesis using False frame by (simp add: chain_end_def)
  qed
qed

text \<open>On a well-formed chain \<^verbatim>\<open>joinMCBs\<close> joins exactly the free blocks that follow.\<close>

lemma joinMCBs_chain:
  assumes "mcb_chain (mem s) (p # ps)"
  defines "fs \<equiv> takeWhile (\<lambda>q. mcbFree (mem s q)) ps"
  shows "\<exists>s'. joinMCBs p s = (Inr (), s') \<and> mem_env s' = mem_env s
     \<and> mcb_chain (mem s') (p # dropWhile (\<lambda>q. mcbFree (mem s q)) ps)
     \<and> unat (m_size (mem s' p)) = unat (m_size (mem s p)) + (\<Sum>q\<leftarrow>fs. unat (m_size (mem s q)) + 1)
     \<and> chain_end (mem s') (p # dropWhile (\<lambda>q. mcbFree (mem s q)) ps) = chain_end (mem s) (p # ps)
     \<and> (\<forall>x. x \<noteq> p \<longrightarrow> x \<notin> set fs \<longrightarrow> mem s' x = mem s x)
     \<and> m_psp (mem s' p) = m_psp (mem s p) \<and> m_name (mem s' p) = m_name (mem s p)"
  using assms(1) unfolding fs_def
proof (induction ps arbitrary: s)
  case Nil
  then have "joinMCBs p s = (Inr (), s)" by (subst joinMCBs.simps) simp
  then show ?case using Nil by simp
next
  case (Cons q ps)
  have n: "nxtMCB s p = q" using Cons.prems by (rule mcb_chain_next)
  have v: "mcbValid (mem s q)" using mcb_chain_valid [OF Cons.prems, of q] by simp
  have ty: "m_type (mem s p) = MCB_NORMAL" using Cons.prems by simp
  show ?case
  proof (cases "mcbFree (mem s q)")
    case False
    then have "joinMCBs p s = (Inr (), s)" using n by (subst joinMCBs.simps) simp
    then show ?thesis using Cons.prems False by simp
  next
    case True
    let ?s1 = "join1 p s"
    have step: "joinMCBs p s = joinMCBs p ?s1" using n v ty True by (subst joinMCBs.simps) simp
    note j = join1_chain [OF Cons.prems]
    have dist: "distinct (p # q # ps)" using Cons.prems by (rule mcb_chain_distinct)
    have nq: "\<And>x. x \<in> set ps \<Longrightarrow> x \<noteq> p \<and> x \<noteq> q" using dist by auto
    then have same: "\<And>x. x \<in> set ps \<Longrightarrow> mem ?s1 x = mem s x" by (simp add: j(4))
    have tw: "takeWhile (\<lambda>q. mcbFree (mem ?s1 q)) ps = takeWhile (\<lambda>q. mcbFree (mem s q)) ps"
      and dw: "dropWhile (\<lambda>q. mcbFree (mem ?s1 q)) ps = dropWhile (\<lambda>q. mcbFree (mem s q)) ps"
      using same by (auto intro: takeWhile_cong dropWhile_cong)
    have sums: "(\<Sum>q\<leftarrow>takeWhile (\<lambda>q. mcbFree (mem s q)) ps. unat (m_size (mem ?s1 q)) + 1)
              = (\<Sum>q\<leftarrow>takeWhile (\<lambda>q. mcbFree (mem s q)) ps. unat (m_size (mem s q)) + 1)"
      using same by (intro arg_cong [where f = sum_list] map_cong) (auto dest: set_takeWhileD)
    obtain s' where s': "joinMCBs p ?s1 = (Inr (), s')" "mem_env s' = mem_env ?s1"
      "mcb_chain (mem s') (p # dropWhile (\<lambda>q. mcbFree (mem s q)) ps)"
      "unat (m_size (mem s' p)) = unat (m_size (mem ?s1 p))
         + (\<Sum>q\<leftarrow>takeWhile (\<lambda>q. mcbFree (mem s q)) ps. unat (m_size (mem s q)) + 1)"
      "chain_end (mem s') (p # dropWhile (\<lambda>q. mcbFree (mem s q)) ps) = chain_end (mem ?s1) (p # ps)"
      "\<forall>x. x \<noteq> p \<longrightarrow> x \<notin> set (takeWhile (\<lambda>q. mcbFree (mem s q)) ps) \<longrightarrow> mem s' x = mem ?s1 x"
      "m_psp (mem s' p) = m_psp (mem ?s1 p)" "m_name (mem s' p) = m_name (mem ?s1 p)"
      using Cons.IH [OF j(1)] unfolding tw dw sums by blast
    then show ?thesis using j True step by (intro exI [of _ s']) auto
  qed
qed

section \<open>Joining along the search\<close>

text \<open>
  \<open>joined s s' ps qs\<close>: from the chain \<open>ps\<close> of \<open>s\<close> to the chain \<open>qs\<close> of \<open>s'\<close> nothing but joins
  of adjacent free blocks happened.
\<close>

definition joined :: "mem_state \<Rightarrow> mem_state \<Rightarrow> u16 list \<Rightarrow> u16 list \<Rightarrow> bool" where
  "joined s s' ps qs \<longleftrightarrow>
     mem_env s' = mem_env s \<and> mcb_chain (mem s') qs \<and> hd qs = hd ps \<and> set qs \<subseteq> set ps
     \<and> chain_end (mem s') qs = chain_end (mem s) ps
     \<and> (\<forall>x. x \<notin> set ps \<longrightarrow> mem s' x = mem s x)
     \<and> (\<forall>x \<in> set ps. \<not> mcbFree (mem s x) \<longrightarrow> x \<in> set qs \<and> mem s' x = mem s x)
     \<and> (\<forall>x \<in> set qs. mcbFree (mem s' x) \<longleftrightarrow> mcbFree (mem s x))
     \<and> runs (mem s') qs = runs (mem s) ps"

lemma joined_refl: "mcb_chain (mem s) ps \<Longrightarrow> joined s s ps ps"
  by (simp add: joined_def)

lemma joined_keep:
  "joined s s' ps qs \<Longrightarrow> x \<in> set ps \<Longrightarrow> \<not> mcbFree (mem s x) \<Longrightarrow> x \<in> set qs \<and> mem s' x = mem s x"
  by (simp add: joined_def)

lemma joined_outside: "joined s s' ps qs \<Longrightarrow> x \<notin> set ps \<Longrightarrow> mem s' x = mem s x"
  by (simp add: joined_def)

lemma joined_free: "joined s s' ps qs \<Longrightarrow> x \<in> set qs \<Longrightarrow> mcbFree (mem s' x) \<longleftrightarrow> mcbFree (mem s x)"
  by (simp add: joined_def)

lemma joined_parts:
  assumes "joined s s' ps qs"
  shows "mem_env s' = mem_env s" "mcb_chain (mem s') qs" "hd qs = hd ps" "set qs \<subseteq> set ps"
    "chain_end (mem s') qs = chain_end (mem s) ps" "runs (mem s') qs = runs (mem s) ps"
  using assms by (simp_all add: joined_def)

lemma joinedI:
  assumes "mem_env s' = mem_env s" "mcb_chain (mem s') qs" "hd qs = hd ps" "set qs \<subseteq> set ps"
    "chain_end (mem s') qs = chain_end (mem s) ps" "runs (mem s') qs = runs (mem s) ps"
    and "\<And>x. x \<notin> set ps \<Longrightarrow> mem s' x = mem s x"
    and "\<And>x. x \<in> set ps \<Longrightarrow> \<not> mcbFree (mem s x) \<Longrightarrow> x \<in> set qs \<and> mem s' x = mem s x"
    and "\<And>x. x \<in> set qs \<Longrightarrow> mcbFree (mem s' x) \<longleftrightarrow> mcbFree (mem s x)"
  shows "joined s s' ps qs"
  unfolding joined_def by (intro conjI ballI allI impI; (rule assms; assumption | blast intro: assms(8) [THEN conjunct1] assms(8) [THEN conjunct2]))

lemma joined_trans:
  assumes a: "joined s s1 ps qs" and b: "joined s1 s2 qs rs"
  shows "joined s s2 ps rs"
proof (rule joinedI)
  note pa = joined_parts [OF a] and pb = joined_parts [OF b]
  show "mem_env s2 = mem_env s" "mcb_chain (mem s2) rs" "hd rs = hd ps" "set rs \<subseteq> set ps"
    "chain_end (mem s2) rs = chain_end (mem s) ps" "runs (mem s2) rs = runs (mem s) ps"
    using pa pb by auto
  show "x \<in> set rs \<and> mem s2 x = mem s x" if "x \<in> set ps" "\<not> mcbFree (mem s x)" for x
    using joined_keep [OF a that] joined_keep [OF b, of x] that by simp
  show "mem s2 x = mem s x" if "x \<notin> set ps" for x
    using joined_outside [OF a that] joined_outside [OF b, of x] pa(4) that by auto
  show "mcbFree (mem s2 x) \<longleftrightarrow> mcbFree (mem s x)" if "x \<in> set rs" for x
    using joined_free [OF a, of x] joined_free [OF b that] pb(4) that by auto
qed

lemma runs_not_free: "\<not> mcbFree (m p) \<Longrightarrow> runs m (p # ps) = runs m ps"
  by simp

lemma runs_cong: "\<forall>q \<in> set ps. m' q = m q \<Longrightarrow> runs m' ps = runs m ps"
proof (induction m ps rule: runs.induct)
  case (2 m p ps)
  let ?F = "\<lambda>q. mcbFree (m q)" and ?F' = "\<lambda>q. mcbFree (m' q)"
  have tw: "takeWhile ?F' ps = takeWhile ?F ps" and dw: "dropWhile ?F' ps = dropWhile ?F ps"
    using 2(3) by (auto intro: takeWhile_cong dropWhile_cong)
  have sums: "(\<Sum>q\<leftarrow>takeWhile ?F ps. unat (m_size (m' q)) + 1) = (\<Sum>q\<leftarrow>takeWhile ?F ps. unat (m_size (m q)) + 1)"
    using 2(3) by (intro arg_cong [where f = sum_list] map_cong) (auto dest: set_takeWhileD)
  have "\<forall>q \<in> set (dropWhile ?F ps). m' q = m q" using 2(3) by (auto dest: set_dropWhileD)
  then show ?case using 2 tw dw sums by auto
qed simp

lemma runs_hd_not_free:
  "mcbFree (m p) \<Longrightarrow> (ps = [] \<or> \<not> mcbFree (m (hd ps))) \<Longrightarrow>
   runs m (p # ps) = (p, unat (m_size (m p))) # runs m ps"
  by (cases ps) auto

lemma runs_append:
  "ys = [] \<or> \<not> mcbFree (m (hd ys)) \<Longrightarrow> runs m (xs @ ys) = runs m xs @ runs m ys"
proof (induction m xs rule: runs.induct)
  case (2 m p ps)
  have "takeWhile (\<lambda>q. mcbFree (m q)) (ps @ ys) = takeWhile (\<lambda>q. mcbFree (m q)) ps
      \<and> dropWhile (\<lambda>q. mcbFree (m q)) (ps @ ys) = dropWhile (\<lambda>q. mcbFree (m q)) ps @ ys"
    using 2(3) by (induction ps; cases ys) auto
  then show ?case using 2 by auto
qed simp

lemma joined_Cons:
  assumes j: "joined s s' (r # rs) qs" and ch: "mcb_chain (mem s) (p # r # rs)"
    and free: "mcbFree (mem s p) \<Longrightarrow> \<not> mcbFree (mem s r)"
  shows "joined s s' (p # r # rs) (p # qs)"
proof -
  note parts = joined_parts [OF j]
  have dist: "distinct (p # r # rs)" using ch by (rule mcb_chain_distinct)
  have p: "mem s' p = mem s p" using joined_outside [OF j, of p] dist by simp
  obtain qs' where qs': "qs = r # qs'" using parts(2,3) by (cases qs) auto
  have chain: "mcb_chain (mem s') (p # qs)"
    using mcb_chain_replace [of "mem s" "[p]" r rs "mem s'" qs'] ch parts(2) qs' p by simp
  have fr: "mcbFree (mem s p) \<Longrightarrow> \<not> mcbFree (mem s' r)"
    using joined_keep [OF j, of r] free by auto
  have runs: "runs (mem s') (p # qs) = runs (mem s) (p # r # rs)"
  proof (cases "mcbFree (mem s p)")
    case True
    then have "runs (mem s') (p # qs) = (p, unat (m_size (mem s' p))) # runs (mem s') qs"
      using fr qs' p by (intro runs_hd_not_free) auto
    moreover have "runs (mem s) (p # r # rs) = (p, unat (m_size (mem s p))) # runs (mem s) (r # rs)"
      using True free by (intro runs_hd_not_free) auto
    ultimately show ?thesis using parts(6) p by simp
  next
    case False
    then have "runs (mem s') (p # qs) = runs (mem s') qs" using p by simp
    moreover have "runs (mem s) (p # r # rs) = runs (mem s) (r # rs)" using False by simp
    ultimately show ?thesis using parts(6) by simp
  qed
  have "chain_end (mem s') (p # qs) = chain_end (mem s) (p # r # rs)"
    using parts(5) qs' by (simp add: chain_end_def)
  then show ?thesis
    using parts chain runs joined_outside [OF j] joined_keep [OF j] joined_free [OF j] p
    by (intro joinedI) auto
qed

lemma joinMCBs_joined:
  assumes ch: "mcb_chain (mem s) (p # ps)" and free: "mcbFree (mem s p)"
  defines "d \<equiv> dropWhile (\<lambda>q. mcbFree (mem s q)) ps"
  shows "\<exists>s' n. joinMCBs p s = (Inr (), s') \<and> joined s s' (p # ps) (p # d)
     \<and> runs (mem s) (p # ps) = (p, n) # runs (mem s) d
     \<and> unat (m_size (mem s' p)) = n \<and> mcbFree (mem s' p)
     \<and> (\<forall>q \<in> set d. mem s' q = mem s q) \<and> (d = [] \<or> \<not> mcbFree (mem s (hd d)))"
proof -
  define t where "t = takeWhile (\<lambda>q. mcbFree (mem s q)) ps"
  obtain s' where j: "joinMCBs p s = (Inr (), s')" and env: "mem_env s' = mem_env s"
      and chain: "mcb_chain (mem s') (p # d)"
      and size: "unat (m_size (mem s' p)) = unat (m_size (mem s p)) + (\<Sum>q\<leftarrow>t. unat (m_size (mem s q)) + 1)"
      and cend: "chain_end (mem s') (p # d) = chain_end (mem s) (p # ps)"
      and fr: "\<forall>x. x \<noteq> p \<longrightarrow> x \<notin> set t \<longrightarrow> mem s' x = mem s x"
      and psp: "m_psp (mem s' p) = m_psp (mem s p)"
    using joinMCBs_chain [OF ch] unfolding d_def t_def by blast
  have split: "ps = t @ d" unfolding t_def d_def by simp
  have dist: "distinct (p # t @ d)" using mcb_chain_distinct [OF ch] split by simp
  have tfree: "\<forall>x \<in> set t. mcbFree (mem s x)" unfolding t_def by (auto dest: set_takeWhileD)
  have same: "\<forall>q \<in> set d. mem s' q = mem s q" using fr dist by auto
  have free': "mcbFree (mem s' p)" using free psp by (simp add: mcbFree_def)
  have hdd: "d = [] \<or> \<not> mcbFree (mem s (hd d))"
    unfolding d_def using hd_dropWhile [of "\<lambda>q. mcbFree (mem s q)" ps] by blast
  have hdd': "d = [] \<or> \<not> mcbFree (mem s' (hd d))" using hdd same by (cases d) auto
  have runs_d: "runs (mem s') d = runs (mem s) d"
    using same by (rule runs_cong)
  have runs1: "runs (mem s) (p # ps) = (p, unat (m_size (mem s' p))) # runs (mem s) d"
    using free size by (simp add: d_def t_def)
  have runs2: "runs (mem s') (p # d) = (p, unat (m_size (mem s' p))) # runs (mem s) d"
    using runs_hd_not_free [of "mem s'" p d] free' hdd' runs_d by simp
  have "joined s s' (p # ps) (p # d)"
  proof (rule joinedI)
    show "set (p # d) \<subseteq> set (p # ps)" using split by auto
    show "runs (mem s') (p # d) = runs (mem s) (p # ps)" using runs1 runs2 by simp
    show "mem s' x = mem s x" if "x \<notin> set (p # ps)" for x using that fr split by auto
    show "x \<in> set (p # d) \<and> mem s' x = mem s x" if "x \<in> set (p # ps)" "\<not> mcbFree (mem s x)" for x
      using that fr split tfree free by auto
    show "mcbFree (mem s' x) \<longleftrightarrow> mcbFree (mem s x)" if "x \<in> set (p # d)" for x
      using that same free free' by auto
  qed (use env chain cend in auto)
  then show ?thesis using j runs1 same hdd free' by blast
qed

section \<open>The search\<close>

text \<open>
  What the search computes, on the runs of free blocks: \<open>pick\<close> is the loop of \<^verbatim>\<open>DosMemAlloc\<close>
  over a list of runs, returning whether it stopped early, the biggest run and the found run.
\<close>

type_synonym run = "u16 \<times> nat"

definition bigger_run :: "run \<Rightarrow> run option \<Rightarrow> run option" where
  "bigger_run r b = (case b of None \<Rightarrow> Some r | Some b' \<Rightarrow> (if snd b' < snd r then Some r else b))"

definition fit_run :: "int \<Rightarrow> nat \<Rightarrow> run \<Rightarrow> run option \<Rightarrow> run option \<times> bool" where
  "fit_run mode n r f =
     (if n \<le> snd r then
        (if mode = LARGEST then (f, False)
         else if is_best_fit mode then
           (case f of None \<Rightarrow> (Some r, False) | Some f' \<Rightarrow> (if snd r < snd f' then Some r else f, False))
         else if is_first_fit mode then (Some r, True)
         else (Some r, False))
      else (f, False))"

fun pick :: "int \<Rightarrow> nat \<Rightarrow> run list \<Rightarrow> run option \<Rightarrow> run option \<Rightarrow> bool \<times> run option \<times> run option" where
  "pick mode n [] b f = (False, b, f)"
| "pick mode n (r # rs) b f =
     (let (f1, stop) = fit_run mode n r f
      in if stop then (True, bigger_run r b, f1) else pick mode n rs (bigger_run r b) f1)"

text \<open>A run found earlier in the search: its block lies outside the rest of the chain.\<close>

definition run_ok :: "mem_state \<Rightarrow> run option \<Rightarrow> bool" where
  "run_ok s b \<longleftrightarrow> (case b of None \<Rightarrow> True | Some (q, n) \<Rightarrow> unat (m_size (mem s q)) = n)"

definition outside :: "u16 list \<Rightarrow> run option \<Rightarrow> bool" where
  "outside ps b \<longleftrightarrow> (case b of None \<Rightarrow> True | Some (q, n) \<Rightarrow> q \<notin> set ps)"

lemma run_ok_joined: "joined s s' ps qs \<Longrightarrow> outside ps b \<Longrightarrow> run_ok s b \<Longrightarrow> run_ok s' b"
  by (auto simp: run_ok_def outside_def joined_outside split: option.splits)

lemma bigger_abs:
  "run_ok s b \<Longrightarrow> unat (m_size (mem s p)) = n \<Longrightarrow>
   bigger s p (map_option fst b) = map_option fst (bigger_run (p, n) b)"
  by (auto simp: bigger_def bigger_run_def run_ok_def word_less_nat_alt split: option.splits)

lemma fit_abs:
  "run_ok s f \<Longrightarrow> unat (m_size (mem s p)) = n \<Longrightarrow>
   fit_rule mode sz s p (map_option fst f) = map_prod (map_option fst) id (fit_run mode (unat sz) (p, n) f)"
  by (auto simp: fit_rule_def fit_run_def run_ok_def word_less_nat_alt word_le_nat_alt split: option.splits)

lemma bigger_run_cases: "bigger_run r b = Some r \<or> bigger_run r b = b"
  by (auto simp: bigger_run_def split: option.splits)

lemma fit_run_cases: "fst (fit_run mode n r f) = Some r \<or> fst (fit_run mode n r f) = f"
  by (auto simp: fit_run_def split: option.splits)

lemma run_ok_bigger: "run_ok s b \<Longrightarrow> run_ok s (Some r) \<Longrightarrow> run_ok s (bigger_run r b)"
  using bigger_run_cases [of r b] by auto

lemma run_ok_fit: "run_ok s f \<Longrightarrow> run_ok s (Some r) \<Longrightarrow> run_ok s (fst (fit_run mode n r f))"
  using fit_run_cases [of mode n r f] by auto

lemma outside_bigger: "outside ps b \<Longrightarrow> outside ps (Some r) \<Longrightarrow> outside ps (bigger_run r b)"
  using bigger_run_cases [of r b] by auto

lemma outside_fit: "outside ps f \<Longrightarrow> outside ps (Some r) \<Longrightarrow> outside ps (fst (fit_run mode n r f))"
  using fit_run_cases [of mode n r f] by auto

lemma outside_subset: "outside ps b \<Longrightarrow> set qs \<subseteq> set ps \<Longrightarrow> outside qs b"
  by (auto simp: outside_def split: option.splits)

text \<open>
  The search returns on every well-formed chain, and it returns what \<open>pick\<close> does on the runs,
  after joining some of them.
\<close>

lemma mcb_scan_chain:
  assumes "mcb_chain (mem s) (p # ps)"
    and "run_ok s b" "run_ok s f" "outside (p # ps) b" "outside (p # ps) f"
    and "pick mode (unat sz) (runs (mem s) (p # ps)) b f = (stop, b', f')"
  shows "\<exists>s' qs. mcb_scan mode sz s p (map_option fst b) (map_option fst f)
            = Some (Inr (stop, map_option fst b', map_option fst f'), s')
     \<and> joined s s' (p # ps) (p # qs) \<and> run_ok s' b' \<and> run_ok s' f'"
  using assms
proof (induction ps arbitrary: s p b f rule: length_induct)
  case (1 ps)
  note ch = 1(2) and ok = 1(3,4) and out = 1(5,6) and pick = 1(7)
  have v: "mcbValid (mem s p)" using mcb_chain_valid [OF ch] by simp
  have last: "m_type (mem s p) = MCB_LAST \<longleftrightarrow> ps = []" using ch by (cases ps) auto
  show ?case
  proof (cases "mcbFree (mem s p)")
    case False
    then have runs: "runs (mem s) (p # ps) = runs (mem s) ps" by simp
    show ?thesis
    proof (cases ps)
      case Nil
      then have "mcb_scan mode sz s p (map_option fst b) (map_option fst f)
          = Some (Inr (False, map_option fst b, map_option fst f), s)"
        using v False last by (subst mcb_scan.simps) simp
      moreover have "(stop, b', f') = (False, b, f)" using pick Nil runs by simp
      ultimately show ?thesis using ok joined_refl [OF ch] Nil by auto
    next
      case (Cons r rs)
      have step: "mcb_scan mode sz s p bb ff = mcb_scan mode sz s r bb ff" for bb ff
        using v False last Cons mcb_chain_next [of s p r rs] ch by (subst mcb_scan.simps) simp
      have chr: "mcb_chain (mem s) (r # rs)" using ch Cons by simp
      have "outside (r # rs) b" "outside (r # rs) f"
        using out Cons by (auto intro: outside_subset)
      then obtain s' qs where r: "mcb_scan mode sz s r (map_option fst b) (map_option fst f)
            = Some (Inr (stop, map_option fst b', map_option fst f'), s')"
          "joined s s' (r # rs) (r # qs)" "run_ok s' b'" "run_ok s' f'"
        using 1(1) Cons chr ok pick runs by fastforce
      have "joined s s' (p # r # rs) (p # r # qs)"
        using r(2) ch Cons False by (intro joined_Cons) auto
      then show ?thesis using r step Cons by (intro exI [of _ s'] exI [of _ "r # qs"]) simp
    qed
  next
    case True
    define d where "d = dropWhile (\<lambda>q. mcbFree (mem s q)) ps"
    obtain s1 n where j: "joinMCBs p s = (Inr (), s1)" and jo: "joined s s1 (p # ps) (p # d)"
      and runs: "runs (mem s) (p # ps) = (p, n) # runs (mem s) d"
      and n: "unat (m_size (mem s1 p)) = n" and free1: "mcbFree (mem s1 p)"
      and same: "\<forall>q \<in> set d. mem s1 q = mem s q" and hdd: "d = [] \<or> \<not> mcbFree (mem s (hd d))"
      using joinMCBs_joined [OF ch True] unfolding d_def by blast
    let ?b1 = "bigger_run (p, n) b"
    obtain f1 st where f1: "fit_run mode (unat sz) (p, n) f = (f1, st)" by fastforce
    have ch1: "mcb_chain (mem s1) (p # d)" using joined_parts(2) [OF jo] .
    have last1: "m_type (mem s1 p) = MCB_LAST \<longleftrightarrow> d = []" using ch1 by (cases d) auto
    have sub: "set d \<subseteq> set ps" unfolding d_def by (auto dest: set_dropWhileD)
    have pd: "p \<notin> set d" using mcb_chain_distinct [OF ch1] by simp
    have ok1: "run_ok s1 b" "run_ok s1 f" using run_ok_joined [OF jo] ok out by auto
    have okp: "run_ok s1 (Some (p, n))" using n by (simp add: run_ok_def)
    have okb: "run_ok s1 ?b1" and okf: "run_ok s1 f1"
      using run_ok_bigger [OF ok1(1) okp] run_ok_fit [OF ok1(2) okp, of mode "unat sz"] f1 by simp_all
    have outd: "outside d b" "outside d f" "outside d (Some (p, n))"
      using outside_subset [OF out(1), of d] outside_subset [OF out(2), of d] sub pd
      by (auto simp: outside_def)
    have outb: "outside d ?b1" and outf: "outside d f1"
      using outside_bigger [OF outd(1,3)] outside_fit [OF outd(2,3), of mode "unat sz"] f1 by simp_all
    have step: "mcb_scan mode sz s p (map_option fst b) (map_option fst f) =
        (if st then Some (Inr (True, map_option fst ?b1, map_option fst f1), s1)
         else if d = [] then Some (Inr (False, map_option fst ?b1, map_option fst f1), s1)
         else mcb_scan mode sz s1 (nxtMCB s1 p) (map_option fst ?b1) (map_option fst f1))"
      using v True j last1 bigger_abs [OF ok1(1) n] fit_abs [OF ok1(2) n, of mode sz] f1
      by (subst mcb_scan.simps) (simp add: Let_def)
    have pk: "pick mode (unat sz) ((p, n) # runs (mem s) d) b f
        = (if st then (True, ?b1, f1) else pick mode (unat sz) (runs (mem s) d) ?b1 f1)"
      using f1 by simp
    have pick2: "(if st then (True, ?b1, f1) else pick mode (unat sz) (runs (mem s) d) ?b1 f1) = (stop, b', f')"
      using pick unfolding runs pk .
    show ?thesis
    proof (cases "st \<or> d = []")
      case True
      then have "(stop, b', f') = (st, ?b1, f1)" using pick2 by (auto split: if_splits)
      then show ?thesis using True step jo okb okf by auto
    next
      case False
      then obtain r rs where d: "d = r # rs" by (cases d) auto
      have nx: "nxtMCB s1 p = r" using ch1 d by (intro mcb_chain_next [of s1 p r rs]) simp
      have chr: "mcb_chain (mem s1) (r # rs)" using ch1 d by simp
      have runs1: "runs (mem s1) (r # rs) = runs (mem s) d" using runs_cong [OF same] unfolding d .
      have len: "length rs < length ps"
        using length_dropWhile_le [of "\<lambda>q. mcbFree (mem s q)" ps] d unfolding d_def by simp
      have pk1: "pick mode (unat sz) (runs (mem s1) (r # rs)) ?b1 f1 = (stop, b', f')"
        using False pick2 runs1 by simp
      obtain s' qs where r: "mcb_scan mode sz s1 r (map_option fst ?b1) (map_option fst f1)
            = Some (Inr (stop, map_option fst b', map_option fst f'), s')"
          "joined s1 s' (r # rs) (r # qs)" "run_ok s' b'" "run_ok s' f'"
        using 1(1) len chr okb okf outb outf pk1 unfolding d by blast
      have "\<not> mcbFree (mem s1 r)" using hdd same d by simp
      then have "joined s1 s' (p # r # rs) (p # r # qs)"
        using r(2) ch1 d by (intro joined_Cons) auto
      then have "joined s s' (p # ps) (p # r # qs)" using joined_trans jo d by metis
      then show ?thesis using r step nx False by (intro exI [of _ s'] exI [of _ "r # qs"]) simp
    qed
  qed
qed

subsection \<open>Which run each mode picks\<close>

lemma pick_first:
  assumes "is_first_fit mode" and "pick mode n rs b None = (stop, b', f')"
  shows "f' = find (\<lambda>r. n \<le> snd r) rs" and "stop \<longleftrightarrow> f' \<noteq> None"
proof -
  have md: "mode \<noteq> LARGEST" "\<not> is_best_fit mode"
    using assms(1) by (auto simp: is_first_fit_def is_best_fit_def fit_modes)
  have "f' = find (\<lambda>r. n \<le> snd r) rs \<and> (stop \<longleftrightarrow> f' \<noteq> None)"
    using assms(2)
    by (induction rs arbitrary: b) (auto simp: fit_run_def md assms(1) split: if_splits)
  then show "f' = find (\<lambda>r. n \<le> snd r) rs" "stop \<longleftrightarrow> f' \<noteq> None" by auto
qed

lemma pick_last:
  assumes "mode \<noteq> LARGEST" "\<not> is_best_fit mode" "\<not> is_first_fit mode"
    and "pick mode n rs b f = (stop, b', f')"
  shows "\<not> stop \<and> f' = (if filter (\<lambda>r. n \<le> snd r) rs = [] then f else Some (last (filter (\<lambda>r. n \<le> snd r) rs)))"
  using assms(4)
proof (induction rs arbitrary: b f)
  case (Cons r rs)
  then show ?case
    using Cons.IH [of "bigger_run r b" "if n \<le> snd r then Some r else f"] assms(1-3)
    by (auto simp: fit_run_def split: if_splits)
qed simp

definition smaller :: "run option \<Rightarrow> run \<Rightarrow> bool" where
  "smaller f r \<longleftrightarrow> (case f of None \<Rightarrow> False | Some f' \<Rightarrow> snd f' \<le> snd r)"

lemma pick_best:
  assumes "is_best_fit mode" and "pick mode n rs b f = (stop, b', f')"
  shows "\<not> stop \<and> (\<forall>r \<in> set rs. n \<le> snd r \<longrightarrow> smaller f' r)
     \<and> (\<forall>r. smaller f r \<longrightarrow> smaller f' r)"
  using assms(2)
proof (induction rs arbitrary: b f)
  case (Cons r rs)
  have md: "mode \<noteq> LARGEST" using assms(1) by (auto simp: is_best_fit_def fit_modes)
  define f1 where "f1 = fst (fit_run mode n r f)"
  have f1: "fit_run mode n r f = (f1, False)"
    using assms(1) md by (auto simp: fit_run_def f1_def split: option.splits)
  have "n \<le> snd r \<longrightarrow> smaller f1 r" and "\<forall>x. smaller f x \<longrightarrow> smaller f1 x"
    using assms(1) md by (auto simp: fit_run_def f1_def smaller_def split: option.splits)
  moreover have "\<not> stop \<and> (\<forall>r \<in> set rs. n \<le> snd r \<longrightarrow> smaller f' r) \<and> (\<forall>x. smaller f1 x \<longrightarrow> smaller f' x)"
    using Cons.IH [of "bigger_run r b" f1] Cons.prems f1 by simp
  ultimately show ?case by (auto simp del: split_paired_All)
qed simp

lemma pick_found:
  assumes "pick mode n rs b f = (stop, b', f')"
  shows "(mode = LARGEST \<longrightarrow> f' = f \<and> \<not> stop)
    \<and> (f' = f \<or> (\<exists>r \<in> set rs. f' = Some r \<and> n \<le> snd r)) \<and> (stop \<longrightarrow> f' \<noteq> None)"
  using assms
proof (induction rs arbitrary: b f)
  case (Cons r rs)
  obtain f1 st where f1: "fit_run mode n r f = (f1, st)" by fastforce
  then have c: "f1 = f \<or> f1 = Some r \<and> n \<le> snd r" "mode = LARGEST \<longrightarrow> f1 = f \<and> \<not> st" "st \<longrightarrow> f1 \<noteq> None"
    by (auto simp: fit_run_def split: option.splits if_splits)
  show ?case
  proof (cases st)
    case True
    then show ?thesis using Cons.prems f1 c by auto
  next
    case False
    then have "pick mode n rs (bigger_run r b) f1 = (stop, b', f')" using Cons.prems f1 by simp
    from Cons.IH [OF this] c show ?thesis by auto
  qed
qed simp

text \<open>A fitting run is found whenever there is one; without an early stop the biggest is known.\<close>

lemma pick_none:
  assumes "pick mode n rs b f = (stop, b', f')" and "mode \<noteq> LARGEST" and "f' = None"
  shows "f = None \<and> (\<forall>r \<in> set rs. snd r < n)"
  using assms
proof (induction rs arbitrary: b f)
  case (Cons r rs)
  obtain f1 st where f1: "fit_run mode n r f = (f1, st)" by fastforce
  have ns: "\<not> st" using f1 Cons.prems by (cases st) (auto simp: fit_run_def split: option.splits if_splits)
  then have "f1 = None \<and> (\<forall>r \<in> set rs. snd r < n)"
    using Cons.IH [of "bigger_run r b" f1] Cons.prems f1 by simp
  then show ?case using f1 Cons.prems(2) by (auto simp: fit_run_def split: option.splits if_splits)
qed simp

lemma pick_bmem:
  assumes "pick mode n rs b f = (stop, b', f')"
  shows "b' = b \<or> (\<exists>r \<in> set rs. b' = Some r)"
  using assms
proof (induction rs arbitrary: b f)
  case (Cons r rs)
  obtain f1 st where f1: "fit_run mode n r f = (f1, st)" by fastforce
  then have "b' = bigger_run r b \<or> (\<exists>r \<in> set rs. b' = Some r)"
    using Cons by (cases st) auto
  then show ?case using bigger_run_cases [of r b] by auto
qed simp

lemma pick_biggest:
  assumes "pick mode n rs b f = (False, b', f')"
  shows "(case b' of None \<Rightarrow> b = None \<and> rs = [] | Some r \<Rightarrow> (r \<in> set rs \<or> b = Some r))
    \<and> (\<forall>r \<in> set rs. \<exists>m. b' = Some m \<and> snd r \<le> snd m)
    \<and> (\<forall>r. b = Some r \<longrightarrow> (\<exists>m. b' = Some m \<and> snd r \<le> snd m))"
  using assms
proof (induction rs arbitrary: b f)
  case Nil
  then show ?case by (cases b) auto
next
  case (Cons r rs)
  obtain f1 st where f1: "fit_run mode n r f = (f1, st)" by fastforce
  have ns: "\<not> st" using f1 Cons.prems by (cases st) auto
  let ?b = "bigger_run r b"
  have b: "\<exists>m. ?b = Some m \<and> snd r \<le> snd m \<and> (m = r \<or> b = Some m)"
    and b2: "\<forall>x. b = Some x \<longrightarrow> (\<exists>m. ?b = Some m \<and> snd x \<le> snd m)"
    by (cases b; cases r; auto simp: bigger_run_def)+
  have "(case b' of None \<Rightarrow> ?b = None \<and> rs = [] | Some r \<Rightarrow> (r \<in> set rs \<or> ?b = Some r))
    \<and> (\<forall>r \<in> set rs. \<exists>m. b' = Some m \<and> snd r \<le> snd m)
    \<and> (\<forall>r. ?b = Some r \<longrightarrow> (\<exists>m. b' = Some m \<and> snd r \<le> snd m))"
    using Cons.IH [of ?b f1] Cons.prems f1 ns by simp
  then show ?case using b b2 by (fastforce split: option.splits)
qed

lemma runs_mem: "(q, n) \<in> set (runs m ps) \<Longrightarrow> q \<in> set ps \<and> mcbFree (m q)"
  by (induction m ps rule: runs.induct) (auto split: if_splits dest: set_dropWhileD)

declare runs.simps(2) [simp del]

lemma runs_fst: "r \<in> set (runs m ps) \<Longrightarrow> fst r \<in> set ps"
  using runs_mem [of "fst r" "snd r"] by simp

section \<open>Splitting\<close>

lemma mcb_chain_insert:
  assumes ch: "mcb_chain m (xs @ f # ys)"
    and same: "\<And>x. x \<in> set xs \<union> set ys \<Longrightarrow> m' x = m x"
    and r: "unat r = unat f + unat (m_size (m' f)) + 1"
    and sizes: "unat (m_size (m' f)) + unat (m_size (m' r)) + 1 = unat (m_size (m f))"
    and types: "m_type (m' f) = MCB_NORMAL" "m_type (m' r) = m_type (m f)"
  shows "mcb_chain m' (xs @ f # r # ys)"
    and "chain_end m' (xs @ f # r # ys) = chain_end m (xs @ f # ys)"
proof -
  have chf: "mcb_chain m (f # ys)" using ch by (rule mcb_chain_suffix)
  note h = mcb_chain_hd [OF chf]
  have lt: "unat (m_size (m f)) < 65535"
    using h(2) unat16_lt [of "m_size (m f)"] by (auto simp: unat_eq_iff less_le)
  have n1: "m_size (m' f) \<noteq> 0xffff" and n2: "m_size (m' r) \<noteq> 0xffff"
    using sizes lt by (auto simp: unat_eq_iff)
  have r0: "r \<noteq> 0" using r by auto
  have sy: "\<And>x. x \<in> set ys \<Longrightarrow> m' x = m x" by (simp add: same)
  have rr: "mcb_chain m' (r # ys)"
  proof (cases ys)
    case Nil
    then show ?thesis using chf types n2 r0 r sizes by simp
  next
    case (Cons y zs)
    have "mcb_chain m' (y # zs) = mcb_chain m (y # zs)"
      using Cons by (intro mcb_chain_cong) (simp add: sy)
    then show ?thesis using chf types n2 r0 r sizes Cons by simp
  qed
  then have frs: "mcb_chain m' (f # r # ys)" using h(1) n1 types(1) r by simp
  have "\<And>x. x \<in> set xs \<Longrightarrow> m' x = m x" by (simp add: same)
  then show "mcb_chain m' (xs @ f # r # ys)"
    by (rule mcb_chain_replace [OF ch frs])
  show "chain_end m' (xs @ f # r # ys) = chain_end m (xs @ f # ys)"
  proof (cases "ys = []")
    case True
    then show ?thesis using r sizes by (simp add: chain_end_def)
  next
    case False
    then have "m' (last ys) = m (last ys)" by (simp add: sy)
    then show ?thesis using False by (simp add: chain_end_def)
  qed
qed

text \<open>The effect of \<open>alloc_found\<close> on a chain: the found block is claimed, all or part of it.\<close>

lemma nxtMCBsize_unat:
  assumes "mcb_chain m (f # ys)" and "unat sz < unat (m_size (m f))"
  shows "unat (nxtMCBsize f sz) = unat f + unat sz + 1"
proof -
  have b: "unat f + unat sz + 1 < 65536" using mcb_chain_hd(3) [OF assms(1)] assms(2) by linarith
  have a: "unat (f + sz) = unat f + unat sz" using b by (intro unat_add_no_wrap) simp
  then show ?thesis using b unfolding nxtMCBsize_def by (subst unat_add_no_wrap) simp_all
qed

lemma unat_diff: "b \<le> a \<Longrightarrow> unat (a - b :: u16) = unat a - unat b"
  by (simp add: unat_sub word_le_nat_alt)

lemma split_sizes:
  assumes "unat sz < unat (k :: u16)"
  shows "unat (k - sz - 1) = unat k - unat sz - 1" and "unat (k - (sz + 1)) = unat k - unat sz - 1"
proof -
  have s1: "unat (sz + 1) = unat sz + 1"
    using assms unat16_lt [of k] by (subst unat_add_no_wrap) (simp_all del: unat16_lt)
  then show b: "unat (k - (sz + 1)) = unat k - unat sz - 1"
    using assms by (subst unat_diff) (simp_all add: word_le_nat_alt)
  have eq: "k - sz - 1 = k - (sz + 1)" by (simp add: diff_diff_eq)
  show "unat (k - sz - 1) = unat k - unat sz - 1"
    unfolding eq by (rule b)
qed

definition claimed :: "mem_state \<Rightarrow> mem_state \<Rightarrow> u16 list \<Rightarrow> u16 list \<Rightarrow> u16 \<Rightarrow> u16 \<Rightarrow> bool" where
  "claimed s s' ps qs g sz \<longleftrightarrow>
     mem_env s' = mem_env s \<and> mcb_chain (mem s') qs \<and> hd qs = hd ps
     \<and> chain_end (mem s') qs = chain_end (mem s) ps
     \<and> g \<in> set qs \<and> m_size (mem s' g) = sz \<and> m_psp (mem s' g) = cu_psp s
     \<and> (\<forall>x \<in> set qs. x \<noteq> g \<longrightarrow> \<not> mcbFree (mem s' x) \<longrightarrow> x \<in> set ps \<and> \<not> mcbFree (mem s x))
     \<and> (\<forall>x \<in> set ps. \<not> mcbFree (mem s x) \<longrightarrow> x \<in> set qs \<and> x \<noteq> g \<and> mem s' x = mem s x)"

lemma alloc_found_exact:
  assumes ch: "mcb_chain (mem s) ps" and f: "f \<in> set ps" "mcbFree (mem s f)"
    and ex: "mode = LARGEST \<or> sz = m_size (mem s f)"
  shows "\<exists>s'. alloc_found sz mode f s = (f, s') \<and> claimed s s' ps ps f (m_size (mem s f))"
proof -
  let ?s = "upd_mcb f (\<lambda>b. b\<lparr>m_psp := cu_psp s, m_name := (m_name b)[0 := 0]\<rparr>) s"
  have "alloc_found sz mode f s = (f, ?s)" using ex by (auto simp: alloc_found_def)
  moreover have "mcb_chain (mem ?s) ps = mcb_chain (mem s) ps" by (intro mcb_chain_cong) auto
  moreover have "chain_end (mem ?s) ps = chain_end (mem s) ps" by (simp add: chain_end_def)
  ultimately show ?thesis using ch f by (auto simp: claimed_def)
qed

lemma mcb_chain_around:
  assumes ch: "mcb_chain m (xs @ f # ys)"
  shows "x \<in> set xs \<Longrightarrow> unat x < unat f"
    and "y \<in> set ys \<Longrightarrow> unat f + unat (m_size (m f)) + 1 \<le> unat y"
proof -
  assume "x \<in> set xs"
  then obtain as bs where "xs = as @ x # bs" by (auto dest: split_list)
  then have "mcb_chain m (x # (bs @ f # ys))" using ch mcb_chain_suffix [of m as x "bs @ f # ys"] by simp
  then show "unat x < unat f" by (rule mcb_chain_gt) simp
next
  assume y: "y \<in> set ys"
  then obtain z zs where z: "ys = z # zs" by (cases ys) auto
  have chz: "mcb_chain m (f # z # zs)" using mcb_chain_suffix [OF ch] z by simp
  then have "unat z = unat f + unat (m_size (m f)) + 1" and "mcb_chain m (z # zs)" by simp_all
  moreover have "unat z \<le> unat y" using mcb_chain_gt [of m z zs y] y z chz by fastforce
  ultimately show "unat f + unat (m_size (m f)) + 1 \<le> unat y" by simp
qed

lemma split_last_mem:
  assumes "nxtMCBsize p (m_size (mem s p) - (sz + 1)) = f" and "p \<noteq> f"
  shows "fst (split_last sz p s) = f"
    and "mem (snd (split_last sz p s)) = (mem s)
       (p := (mem s p)\<lparr>m_type := MCB_NORMAL, m_psp := FREE_PSP, m_size := m_size (mem s p) - (sz + 1)\<rparr>,
        f := (mem s f)\<lparr>m_type := m_type (mem s p), m_size := sz\<rparr>)"
    and "mem_env (snd (split_last sz p s)) = mem_env s"
  using assms by (auto simp: split_last_def Let_def nxtMCB_def fun_eq_iff)

lemma split_first_mem:
  assumes "nxtMCBsize f sz = p" and "p \<noteq> f"
  shows "fst (split_first sz f s) = f"
    and "mem (snd (split_first sz f s)) = (mem s)
       (f := (mem s f)\<lparr>m_type := MCB_NORMAL, m_size := sz\<rparr>,
        p := (mem s p)\<lparr>m_type := m_type (mem s f), m_psp := FREE_PSP, m_size := m_size (mem s f) - sz - 1\<rparr>)"
    and "mem_env (snd (split_first sz f s)) = mem_env s"
  using assms by (auto simp: split_first_def Let_def fun_eq_iff)

lemma claimed_insert:
  assumes ch: "mcb_chain (mem s) (xs @ f # ys)" and free: "mcbFree (mem s f)"
    and r: "unat r = unat f + unat (m_size (mem s' f)) + 1"
    and sizes: "unat (m_size (mem s' f)) + unat (m_size (mem s' r)) + 1 = unat (m_size (mem s f))"
    and types: "m_type (mem s' f) = MCB_NORMAL" "m_type (mem s' r) = m_type (mem s f)"
    and same: "\<And>x. x \<noteq> f \<Longrightarrow> x \<noteq> r \<Longrightarrow> mem s' x = mem s x"
    and env: "mem_env s' = mem_env s"
    and g: "g = f \<and> mcbFree (mem s' r) \<or> g = r \<and> mcbFree (mem s' f)"
       "m_size (mem s' g) = sz" "m_psp (mem s' g) = cu_psp s"
  shows "claimed s s' (xs @ f # ys) (xs @ f # r # ys) g sz"
proof -
  have dist: "distinct (xs @ f # ys)" using ch by (rule mcb_chain_distinct)
  have rx: "x \<noteq> r" if "x \<in> set xs \<union> set ys" for x
  proof -
    have "unat r < unat f + unat (m_size (mem s f)) + 1" using r sizes by simp
    moreover have "unat f < unat r" using r by simp
    ultimately show ?thesis
      using that mcb_chain_around(1) [OF ch, of x] mcb_chain_around(2) [OF ch, of x] by auto
  qed
  have keep: "mem s' x = mem s x" if "x \<in> set xs \<union> set ys" for x
    using that rx [OF that] dist by (intro same) auto
  have gx: "x \<noteq> g" if "x \<in> set xs \<union> set ys" for x
    using that rx [OF that] dist g(1) by auto
  note ins = mcb_chain_insert [OF ch keep r sizes types]
  have hd: "hd (xs @ f # r # ys) = hd (xs @ f # ys)" by (cases xs) auto
  show ?thesis
    unfolding claimed_def
  proof (intro conjI ballI impI)
    show "mcb_chain (mem s') (xs @ f # r # ys)" "chain_end (mem s') (xs @ f # r # ys) = chain_end (mem s) (xs @ f # ys)"
      using ins by blast+
    show "g \<in> set (xs @ f # r # ys)" using g(1) by auto
    show "x \<in> set (xs @ f # ys)" "\<not> mcbFree (mem s x)"
      if "x \<in> set (xs @ f # r # ys)" "x \<noteq> g" "\<not> mcbFree (mem s' x)" for x
      using that g(1) keep [of x] by auto
    show "x \<in> set (xs @ f # r # ys)" "x \<noteq> g" "mem s' x = mem s x"
      if "x \<in> set (xs @ f # ys)" "\<not> mcbFree (mem s x)" for x
      using that free keep [of x] gx [of x] by auto
  qed (use env hd g in auto)
qed

lemma alloc_found_split:
  assumes ch: "mcb_chain (mem s) (xs @ f # ys)" and free: "mcbFree (mem s f)"
    and sz: "unat sz < unat (m_size (mem s f))" and mode: "mode \<noteq> LARGEST"
  defines "g \<equiv> (if is_last_fit mode then f + (m_size (mem s f) - sz) else f)"
  shows "\<exists>s' r. alloc_found sz mode f s = (g, s') \<and> claimed s s' (xs @ f # ys) (xs @ f # r # ys) g sz"
proof -
  let ?k = "m_size (mem s f)"
  let ?claim = "\<lambda>b. b\<lparr>m_psp := cu_psp s, m_name := (m_name b)[0 := 0]\<rparr>"
  have chf: "mcb_chain (mem s) (f # ys)" using ch by (rule mcb_chain_suffix)
  have ne: "sz \<noteq> ?k" using sz by auto
  show ?thesis
  proof (cases "is_last_fit mode")
    case True
    have g: "nxtMCBsize f (?k - (sz + 1)) = g" using True by (simp add: g_def nxtMCBsize_def)
    have ug: "unat g = unat f + (unat ?k - unat sz - 1) + 1"
      using nxtMCBsize_unat [OF chf, of "?k - (sz + 1)"] split_sizes(2) [OF sz] sz g by simp
    then have fg: "f \<noteq> g" by auto
    let ?s1 = "snd (split_last sz f s)"
    note sp = split_last_mem [OF g fg]
    have cu: "cu_psp ?s1 = cu_psp s" using sp(3) by (simp add: mem_env_def)
    let ?s' = "upd_mcb g (\<lambda>b. b\<lparr>m_psp := cu_psp ?s1, m_name := (m_name b)[0 := 0]\<rparr>) ?s1"
    have "alloc_found sz mode f s = (g, ?s')"
      using True ne mode sp(1) by (simp add: alloc_found_def split_beta)
    moreover have "claimed s ?s' (xs @ f # ys) (xs @ f # g # ys) g sz"
      by (rule claimed_insert [OF ch free])
        (use sp(2,3) fg ug split_sizes(2) [OF sz] sz cu in \<open>auto simp: mcbFree_def\<close>)
    ultimately show ?thesis by blast
  next
    case False
    let ?r = "nxtMCBsize f sz"
    have g: "g = f" using False by (simp add: g_def)
    have ur: "unat ?r = unat f + unat sz + 1" by (rule nxtMCBsize_unat [OF chf sz])
    then have rf: "?r \<noteq> f" by auto
    let ?s1 = "snd (split_first sz f s)"
    note sp = split_first_mem [OF refl rf]
    have cu: "cu_psp ?s1 = cu_psp s" using sp(3) by (simp add: mem_env_def)
    let ?s' = "upd_mcb f (\<lambda>b. b\<lparr>m_psp := cu_psp ?s1, m_name := (m_name b)[0 := 0]\<rparr>) ?s1"
    have "alloc_found sz mode f s = (g, ?s')"
      using False ne mode sp(1) g by (simp add: alloc_found_def split_beta)
    moreover have "claimed s ?s' (xs @ f # ys) (xs @ f # ?r # ys) g sz"
      by (rule claimed_insert [OF ch free])
        (use sp(2,3) rf ur split_sizes(1) [OF sz] sz cu g in \<open>auto simp: mcbFree_def\<close>)
    ultimately show ?thesis by blast
  qed
qed

end
