(* ===== verification/Mem_Alloc.thy ===== *)
theory Mem_Alloc
  imports Mem_Chain
begin

text \<open>
  Correctness of the calls of the memory manager on a well-formed arena: allocation, freeing,
  resizing and the upper memory link.
\<close>

section \<open>The arena\<close>

definition arena :: "mem_state \<Rightarrow> u16 list \<Rightarrow> bool" where
  "arena s ps \<longleftrightarrow> mcb_chain (mem s) ps \<and> hd ps = first_mcb s
     \<and> (umb_linked s \<longrightarrow> uppermem_root s \<in> set ps \<and> \<not> mcbFree (mem s (uppermem_root s)))"

text \<open>\<open>kept\<close>: the chain changed, but no allocated block did and none appeared.\<close>

definition kept :: "mem_state \<Rightarrow> mem_state \<Rightarrow> u16 list \<Rightarrow> u16 list \<Rightarrow> bool" where
  "kept s s' ps qs \<longleftrightarrow>
     mem_env s' = mem_env s \<and> mcb_chain (mem s') qs \<and> hd qs = hd ps
     \<and> chain_end (mem s') qs = chain_end (mem s) ps
     \<and> (\<forall>x \<in> set qs. \<not> mcbFree (mem s' x) \<longrightarrow> x \<in> set ps \<and> \<not> mcbFree (mem s x))
     \<and> (\<forall>x \<in> set ps. \<not> mcbFree (mem s x) \<longrightarrow> x \<in> set qs \<and> mem s' x = mem s x)"

definition region :: "u16 \<Rightarrow> int \<Rightarrow> mem_state \<Rightarrow> u16 list \<Rightarrow> u16 list" where
  "region sz mode s ps = dropWhile (\<lambda>p. p \<noteq> scan_start sz mode s) ps"

lemma kept_parts:
  assumes "kept s s' ps qs"
  shows "mem_env s' = mem_env s" "mcb_chain (mem s') qs" "hd qs = hd ps"
    "chain_end (mem s') qs = chain_end (mem s) ps"
    "x \<in> set qs \<Longrightarrow> \<not> mcbFree (mem s' x) \<Longrightarrow> x \<in> set ps \<and> \<not> mcbFree (mem s x)"
    "x \<in> set ps \<Longrightarrow> \<not> mcbFree (mem s x) \<Longrightarrow> x \<in> set qs \<and> mem s' x = mem s x"
  using assms unfolding kept_def by blast+

lemma kept_refl: "mcb_chain (mem s) ps \<Longrightarrow> kept s s ps ps"
  by (simp add: kept_def)

lemma mem_env_linked: "mem_env s' = mem_env s \<Longrightarrow> umb_linked s' = umb_linked s"
  by (simp add: mem_env_def umb_linked_def)

lemma mem_env_sel:
  assumes "mem_env s' = mem_env s"
  shows "first_mcb s' = first_mcb s" "uppermem_root s' = uppermem_root s"
    "uppermem_link s' = uppermem_link s" "mem_access_mode s' = mem_access_mode s" "cu_psp s' = cu_psp s"
  using assms by (simp_all add: mem_env_def)

lemma arena_transfer:
  assumes "arena s ps" "mem_env s' = mem_env s" "mcb_chain (mem s') qs" "hd qs = hd ps"
    and keep: "uppermem_root s \<in> set ps \<Longrightarrow> \<not> mcbFree (mem s (uppermem_root s)) \<Longrightarrow>
      uppermem_root s \<in> set qs \<and> mem s' (uppermem_root s) = mem s (uppermem_root s)"
  shows "arena s' qs"
  using assms(1-4) keep by (auto simp: arena_def mem_env_linked [OF assms(2)] mem_env_sel [OF assms(2)])

lemma kept_arena: "kept s s' ps qs \<Longrightarrow> arena s ps \<Longrightarrow> arena s' qs"
  by (rule arena_transfer, assumption) (erule kept_parts, assumption?, assumption?)+

lemma claimed_parts:
  assumes "claimed s s' ps qs g sz"
  shows "mem_env s' = mem_env s" "mcb_chain (mem s') qs" "hd qs = hd ps"
    "chain_end (mem s') qs = chain_end (mem s) ps" "g \<in> set qs" "m_size (mem s' g) = sz"
    "m_psp (mem s' g) = cu_psp s"
    "x \<in> set qs \<Longrightarrow> x \<noteq> g \<Longrightarrow> \<not> mcbFree (mem s' x) \<Longrightarrow> x \<in> set ps \<and> \<not> mcbFree (mem s x)"
    "x \<in> set ps \<Longrightarrow> \<not> mcbFree (mem s x) \<Longrightarrow> x \<in> set qs \<and> x \<noteq> g \<and> mem s' x = mem s x"
  using assms unfolding claimed_def by blast+

lemma kept_claimed:
  assumes k: "kept s s1 ps qs" and c: "claimed s1 s2 qs rs g sz"
  shows "claimed s s2 ps rs g sz"
proof -
  note kp = kept_parts [OF k] and cp = claimed_parts [OF c]
  have cu: "cu_psp s1 = cu_psp s" using kp(1) by (simp add: mem_env_def)
  show ?thesis
    unfolding claimed_def
  proof (intro conjI ballI impI)
    show "x \<in> set ps" "\<not> mcbFree (mem s x)"
      if "x \<in> set rs" "x \<noteq> g" "\<not> mcbFree (mem s2 x)" for x
      using cp(8) [OF that] kp(5) cp(9) that(3) by auto
    show "x \<in> set rs" "x \<noteq> g" "mem s2 x = mem s x"
      if "x \<in> set ps" "\<not> mcbFree (mem s x)" for x
      using kp(6) [OF that] cp(9) [of x] that by auto
  qed (use kp(1-4) cp(1-7) cu in auto)
qed

lemma claimed_arena: "claimed s s' ps qs g sz \<Longrightarrow> arena s ps \<Longrightarrow> arena s' qs"
  by (rule arena_transfer, assumption) (erule claimed_parts | (drule claimed_parts(9), assumption, assumption, blast))+

lemma allocs_iff:
  "(x, n, w) \<in> allocs m ps \<longleftrightarrow> x \<in> set ps \<and> \<not> mcbFree (m x) \<and> n = m_size (m x) \<and> w = m_psp (m x)"
  by (auto simp: allocs_def)

lemma claimed_allocs:
  assumes c: "claimed s s' ps qs g sz" and own: "cu_psp s \<noteq> 0"
  shows "allocs (mem s') qs = insert (g, sz, cu_psp s) (allocs (mem s) ps)"
    and "\<forall>n w. (g, n, w) \<notin> allocs (mem s) ps"
proof -
  note cp = claimed_parts [OF c]
  have gf: "\<not> mcbFree (mem s' g)" using cp(7) own by (simp add: mcbFree_def)
  show "\<forall>n w. (g, n, w) \<notin> allocs (mem s) ps" using cp(9) [of g] by (simp add: allocs_iff) blast
  have one: "(x, n, w) \<in> allocs (mem s') qs \<longleftrightarrow> (x, n, w) = (g, sz, cu_psp s) \<or> (x, n, w) \<in> allocs (mem s) ps" for x n w
  proof (cases "x = g")
    case True
    then show ?thesis using cp(5-7) gf cp(9) [of g] by (auto simp: allocs_iff)
  next
    case False
    have "x \<in> set qs \<and> \<not> mcbFree (mem s' x) \<longleftrightarrow> x \<in> set ps \<and> \<not> mcbFree (mem s x)"
      using cp(8) [OF _ False] cp(9) by metis
    moreover have "x \<in> set ps \<and> \<not> mcbFree (mem s x) \<Longrightarrow> mem s' x = mem s x" using cp(9) by blast
    ultimately show ?thesis using False by (auto simp: allocs_iff)
  qed
  then show "allocs (mem s') qs = insert (g, sz, cu_psp s) (allocs (mem s) ps)" by auto
qed

lemma kept_allocs:
  assumes k: "kept s s' ps qs"
  shows "allocs (mem s') qs = allocs (mem s) ps"
proof -
  note kp = kept_parts [OF k]
  have "(x, n, w) \<in> allocs (mem s') qs \<longleftrightarrow> (x, n, w) \<in> allocs (mem s) ps" for x n w
  proof -
    have "x \<in> set qs \<and> \<not> mcbFree (mem s' x) \<longleftrightarrow> x \<in> set ps \<and> \<not> mcbFree (mem s x)"
      using kp(5) [of x] kp(6) [of x] by metis
    moreover have "x \<in> set ps \<and> \<not> mcbFree (mem s x) \<Longrightarrow> mem s' x = mem s x" using kp(6) by blast
    ultimately show ?thesis by (auto simp: allocs_iff)
  qed
  then show ?thesis by auto
qed

section \<open>One search\<close>

lemma scan_start_in:
  "arena s ps \<Longrightarrow> scan_start sz mode s \<in> set ps"
proof -
  assume a: "arena s ps"
  then have "ps \<noteq> []" by (auto simp: arena_def)
  then have "first_mcb s \<in> set ps" using a by (metis arena_def list.set_sel(1))
  then show ?thesis using a by (simp add: scan_start_def arena_def Let_def)
qed

lemma region_split:
  assumes "arena s ps"
  shows "\<exists>xs ys. ps = xs @ scan_start sz mode s # ys \<and> region sz mode s ps = scan_start sz mode s # ys"
proof -
  let ?p = "scan_start sz mode s"
  have "?p \<in> set ps" by (rule scan_start_in [OF assms])
  then have "dropWhile (\<lambda>p. p \<noteq> ?p) ps \<noteq> []" by (simp add: dropWhile_eq_Nil_conv)
  moreover from this have "hd (dropWhile (\<lambda>p. p \<noteq> ?p) ps) = ?p"
    using hd_dropWhile [of "\<lambda>p. p \<noteq> ?p" ps] by simp
  ultimately obtain ys where "dropWhile (\<lambda>p. p \<noteq> ?p) ps = ?p # ys"
    by (metis list.collapse)
  then show ?thesis unfolding region_def by (metis takeWhile_dropWhile_id)
qed

lemma alloc_pass:
  assumes ar: "arena s ps" and pick: "pick mode (unat sz) (runs (mem s) (region sz mode s ps)) None None = (stop, b, f)"
  shows "\<exists>s1 qs. mcb_scan mode sz s (scan_start sz mode s) None None
        = Some (Inr (stop, map_option fst b, map_option fst f), s1)
     \<and> kept s s1 ps qs \<and> runs (mem s1) qs = runs (mem s) ps \<and> run_ok s1 b \<and> run_ok s1 f
     \<and> (\<forall>q n. f = Some (q, n) \<or> b = Some (q, n) \<longrightarrow> q \<in> set qs \<and> mcbFree (mem s1 q))"
proof -
  let ?p = "scan_start sz mode s"
  obtain xs ys where ps: "ps = xs @ ?p # ys" and reg: "region sz mode s ps = ?p # ys"
    using region_split [OF ar] by blast
  have ch: "mcb_chain (mem s) (xs @ ?p # ys)" using ar ps by (simp add: arena_def)
  have chp: "mcb_chain (mem s) (?p # ys)" using ch by (rule mcb_chain_suffix)
  have dist: "distinct (xs @ ?p # ys)" using ch by (rule mcb_chain_distinct)
  obtain s1 qs where sc: "mcb_scan mode sz s ?p (map_option fst (None :: run option)) (map_option fst (None :: run option))
        = Some (Inr (stop, map_option fst b, map_option fst f), s1)"
      and jo: "joined s s1 (?p # ys) (?p # qs)" and ok: "run_ok s1 b" "run_ok s1 f"
    using mcb_scan_chain [OF chp, of None None mode sz stop b f] pick reg
    by (auto simp: run_ok_def outside_def)
  note jp = joined_parts [OF jo]
  have keepx: "mem s1 x = mem s x" if "x \<in> set xs" for x
    using that dist by (intro joined_outside [OF jo]) auto
  have chain: "mcb_chain (mem s1) (xs @ ?p # qs)"
    by (rule mcb_chain_replace [OF ch jp(2)]) (rule keepx)
  have "chain_end (mem s1) (xs @ ?p # qs) = chain_end (mem s) (xs @ ?p # ys)"
    using jp(5) by (simp add: chain_end_def)
  moreover have "hd (xs @ ?p # qs) = hd (xs @ ?p # ys)" by (cases xs) auto
  moreover have "x \<in> set ps" "\<not> mcbFree (mem s x)"
    if "x \<in> set (xs @ ?p # qs)" "\<not> mcbFree (mem s1 x)" for x
  proof -
    show "x \<in> set ps" using that(1) jp(4) ps by auto
    show "\<not> mcbFree (mem s x)"
    proof (cases "x \<in> set xs")
      case False
      then show ?thesis using that joined_free [OF jo, of x] by simp
    qed (use that(2) keepx in simp)
  qed
  moreover have "x \<in> set (xs @ ?p # qs)" "mem s1 x = mem s x"
    if "x \<in> set ps" "\<not> mcbFree (mem s x)" for x
    using that keepx [of x] joined_keep [OF jo _ that(2)] unfolding ps by auto
  ultimately have kept: "kept s s1 ps (xs @ ?p # qs)"
    unfolding kept_def ps using jp(1) chain by blast
  have same: "runs (mem s1) (xs @ ?p # qs) = runs (mem s) ps"
  proof (cases "xs = []")
    case True
    then show ?thesis using jp(6) ps by simp
  next
    case False
    then have "?p \<noteq> first_mcb s" using ar ps dist by (cases xs) (auto simp: arena_def)
    then have nf: "\<not> mcbFree (mem s ?p)" using ar by (auto simp: scan_start_def arena_def Let_def split: if_splits)
    then have nf1: "\<not> mcbFree (mem s1 ?p)" using joined_keep [OF jo] by simp
    have "runs (mem s1) (xs @ ?p # qs) = runs (mem s1) xs @ runs (mem s1) (?p # qs)"
      using nf1 by (intro runs_append) simp
    moreover have "runs (mem s) (xs @ ?p # ys) = runs (mem s) xs @ runs (mem s) (?p # ys)"
      using nf by (intro runs_append) simp
    moreover have "runs (mem s1) xs = runs (mem s) xs" using keepx by (intro runs_cong) blast
    ultimately show ?thesis using jp(6) ps by simp
  qed
  have "q \<in> set (xs @ ?p # qs) \<and> mcbFree (mem s1 q)" if "f = Some (q, n) \<or> b = Some (q, n)" for q n
  proof -
    have "(q, n) \<in> set (runs (mem s) (?p # ys))"
      using that
    proof
      assume "f = Some (q, n)"
      then show ?thesis using pick_found [OF pick] reg by auto
    next
      assume "b = Some (q, n)"
      then show ?thesis using pick_bmem [OF pick] reg by auto
    qed
    then have "(q, n) \<in> set (runs (mem s1) (?p # qs))" using jp(6) by simp
    then show ?thesis using runs_mem by fastforce
  qed
  then show ?thesis using sc kept ok same by (intro exI [of _ s1] exI [of _ "xs @ ?p # qs"]) simp
qed

section \<open>DosMemAlloc\<close>

text \<open>Where the allocated block starts: at the end of the run for a last-fit search.\<close>

definition place :: "int \<Rightarrow> u16 \<Rightarrow> run \<Rightarrow> u16" where
  "place mode sz r = (if is_last_fit mode then fst r + (of_nat (snd r) - sz) else fst r)"

lemma alloc_claims:
  assumes ch: "mcb_chain (mem s) ps" and q: "q \<in> set ps" "mcbFree (mem s q)"
    and n: "unat (m_size (mem s q)) = n" "unat sz \<le> n" and mode: "mode \<noteq> LARGEST"
  shows "\<exists>s' qs. alloc_found sz mode q s = (place mode sz (q, n), s')
     \<and> claimed s s' ps qs (place mode sz (q, n)) sz"
proof -
  have k: "of_nat n = m_size (mem s q)" unfolding n(1) [symmetric] by simp
  show ?thesis
  proof (cases "sz = m_size (mem s q)")
    case True
    then have pl: "place mode sz (q, n) = q" using k by (simp add: place_def)
    show ?thesis using alloc_found_exact [OF ch q, of mode sz] True unfolding pl by auto
  next
    case False
    obtain xs ys where ps: "ps = xs @ q # ys" using q(1) by (auto dest: split_list)
    have "unat sz < unat (m_size (mem s q))" using False n by (simp add: unat_eq_iff)
    then show ?thesis using alloc_found_split [of s xs q ys sz mode] ch q(2) mode ps k
      by (auto simp: place_def)
  qed
qed

lemma alloc_once:
  assumes ar: "arena s ps" and mode: "mode \<noteq> LARGEST" and sz: "0 < unat sz"
    and pick: "pick mode (unat sz) (runs (mem s) (region sz mode s ps)) None None = (stop, b, f)"
  shows "f = Some r \<Longrightarrow> \<exists>s' qs. DosMemAlloc sz mode asize s = Some (Inr (place mode sz r), asize, s')
             \<and> claimed s s' ps qs (place mode sz r) sz"
    and "f = None \<Longrightarrow> \<exists>s1 qs a. kept s s1 ps qs \<and> runs (mem s1) qs = runs (mem s) ps
             \<and> unat a = (case b of None \<Rightarrow> 0 | Some r \<Rightarrow> snd r)
             \<and> DosMemAlloc sz mode asize s =
                 (if mode AND FIRST_FIT_U \<noteq> 0 \<and> umb_linked s
                  then DosMemAlloc sz (mode AND NOT FIRST_FIT_U) asize s1
                  else Some (Inl DE_NOMEM, set_out asize a, s1))"
proof -
  obtain s1 qs where sc: "mcb_scan mode sz s (scan_start sz mode s) None None
        = Some (Inr (stop, map_option fst b, map_option fst f), s1)"
    and k: "kept s s1 ps qs" and rn: "runs (mem s1) qs = runs (mem s) ps"
    and ok: "run_ok s1 b" "run_ok s1 f"
    and fm: "\<forall>q n. f = Some (q, n) \<or> b = Some (q, n) \<longrightarrow> q \<in> set qs \<and> mcbFree (mem s1 q)"
    using alloc_pass [OF ar pick] by blast
  have lp: "largest_pick sz mode s1 x y = y" "largest_out sz mode s1 x asize = asize" for x y
    using mode by (simp_all add: largest_pick_def largest_out_def split: option.splits)
  have um: "umb_linked s1 = umb_linked s" using kept_parts(1) [OF k] by (rule mem_env_linked)
  show "\<exists>s' qs. DosMemAlloc sz mode asize s = Some (Inr (place mode sz r), asize, s')
             \<and> claimed s s' ps qs (place mode sz r) sz" if f: "f = Some r"
  proof -
    obtain q n where r: "r = (q, n)" by (cases r)
    have le: "unat sz \<le> n" using pick_found [OF pick] f r by auto
    have n: "unat (m_size (mem s1 q)) = n" using ok(2) f r by (simp add: run_ok_def)
    have ne: "m_size (mem s1 q) \<noteq> 0" using n le sz by auto
    obtain s2 rs where a: "alloc_found sz mode q s1 = (place mode sz r, s2)"
      and c: "claimed s1 s2 qs rs (place mode sz r) sz"
      using alloc_claims [OF kept_parts(2) [OF k] _ _ n le mode] fm f r by auto
    have "DosMemAlloc sz mode asize s = Some (Inr (place mode sz r), asize, s2)"
      using sc a f r ne by (subst DosMemAlloc.simps) (simp add: Let_def size_at_def lp)
    then show ?thesis using kept_claimed [OF k c] by blast
  qed
  show "\<exists>s1 qs a. kept s s1 ps qs \<and> runs (mem s1) qs = runs (mem s) ps
             \<and> unat a = (case b of None \<Rightarrow> 0 | Some r \<Rightarrow> snd r)
             \<and> DosMemAlloc sz mode asize s =
                 (if mode AND FIRST_FIT_U \<noteq> 0 \<and> umb_linked s
                  then DosMemAlloc sz (mode AND NOT FIRST_FIT_U) asize s1
                  else Some (Inl DE_NOMEM, set_out asize a, s1))"
    if f: "f = None"
  proof -
    have ns: "\<not> stop" using pick_found [OF pick] f by auto
    let ?a = "size_at s1 (map_option fst b)"
    have out: "unat ?a = (case b of None \<Rightarrow> 0 | Some r \<Rightarrow> snd r)"
      using ok(1) by (cases b) (auto simp: size_at_def run_ok_def)
    have "DosMemAlloc sz mode asize s =
                 (if mode AND FIRST_FIT_U \<noteq> 0 \<and> umb_linked s
                  then DosMemAlloc sz (mode AND NOT FIRST_FIT_U) asize s1
                  else Some (Inl DE_NOMEM, set_out asize ?a, s1))"
      using sc f ns mode um by (subst DosMemAlloc.simps) (simp add: Let_def size_at_def lp)
    then show ?thesis using k rn out by blast
  qed
qed

text \<open>The runs of a search area are the runs of the chain from its start on.\<close>

lemma region_runs:
  assumes ar: "arena s ps"
  shows "runs (mem s) (region sz mode s ps)
    = filter (\<lambda>r. unat (scan_start sz mode s) \<le> unat (fst r)) (runs (mem s) ps)"
proof -
  let ?p = "scan_start sz mode s"
  obtain xs ys where ps: "ps = xs @ ?p # ys" and reg: "region sz mode s ps = ?p # ys"
    using region_split [OF ar] by blast
  have ch: "mcb_chain (mem s) (xs @ ?p # ys)" using ar ps by (simp add: arena_def)
  note dist = mcb_chain_distinct [OF ch]
  have hi: "\<forall>r \<in> set (runs (mem s) (?p # ys)). unat ?p \<le> unat (fst r)"
  proof
    fix r assume "r \<in> set (runs (mem s) (?p # ys))"
    then have "fst r \<in> set (?p # ys)" by (rule runs_fst)
    then show "unat ?p \<le> unat (fst r)"
      using mcb_chain_gt [OF mcb_chain_suffix [OF ch], of "fst r"] by fastforce
  qed
  have lo: "\<forall>r \<in> set (runs (mem s) xs). \<not> unat ?p \<le> unat (fst r)"
  proof
    fix r assume "r \<in> set (runs (mem s) xs)"
    then have "fst r \<in> set xs" by (rule runs_fst)
    then show "\<not> unat ?p \<le> unat (fst r)" using mcb_chain_around(1) [OF ch] by fastforce
  qed
  have "runs (mem s) (xs @ ?p # ys) = runs (mem s) xs @ runs (mem s) (?p # ys)"
  proof (cases "xs = []")
    case False
    then have "?p \<noteq> first_mcb s" using ar ps dist by (cases xs) (auto simp: arena_def)
    then have "\<not> mcbFree (mem s ?p)" using ar by (auto simp: scan_start_def arena_def Let_def split: if_splits)
    then show ?thesis by (intro runs_append) simp
  qed simp
  then show ?thesis using hi lo ps reg by (simp add: filter_empty_conv filter_id_conv)
qed

lemma scan_start_env:
  assumes "mem_env s' = mem_env s" shows "scan_start sz mode s' = scan_start sz mode s"
  by (simp add: scan_start_def mem_env_linked [OF assms] mem_env_sel [OF assms])

lemma region_runs_kept:
  assumes "arena s ps" "kept s s1 ps qs" "runs (mem s1) qs = runs (mem s) ps"
  shows "runs (mem s1) (region sz mode s1 qs) = runs (mem s) (region sz mode s ps)"
  unfolding region_runs [OF assms(1)] region_runs [OF kept_arena [OF assms(2,1)]] assms(3)
    scan_start_env [OF kept_parts(1) [OF assms(2)]] by (rule refl)

text \<open>
  The mode of the search that decides: an upper-memory-first mode falls back to the whole chain
  when nothing upstairs fits.
\<close>

definition fits :: "u16 \<Rightarrow> int \<Rightarrow> mem_state \<Rightarrow> u16 list \<Rightarrow> run list" where
  "fits sz mode s ps = filter (\<lambda>r. unat sz \<le> snd r) (runs (mem s) (region sz mode s ps))"

definition pass_mode :: "u16 \<Rightarrow> int \<Rightarrow> mem_state \<Rightarrow> u16 list \<Rightarrow> int" where
  "pass_mode sz mode s ps =
     (if mode AND FIRST_FIT_U \<noteq> 0 \<and> umb_linked s \<and> fits sz mode s ps = []
      then mode AND NOT FIRST_FIT_U else mode)"

text \<open>The placement policy of a mode.\<close>

definition chosen :: "int \<Rightarrow> run list \<Rightarrow> run \<Rightarrow> bool" where
  "chosen mode rs r \<longleftrightarrow> r \<in> set rs \<and>
     (if is_first_fit mode then r = hd rs
      else if is_best_fit mode then (\<forall>x \<in> set rs. snd r \<le> snd x)
      else r = last rs)"

definition largest :: "run list \<Rightarrow> nat" where
  "largest rs = foldr (\<lambda>r m. max (snd r) m) rs 0"

lemma largest_ge: "r \<in> set rs \<Longrightarrow> snd r \<le> largest rs"
  by (induction rs) (auto simp: largest_def)

lemma largest_le: "(\<And>r. r \<in> set rs \<Longrightarrow> snd r \<le> n) \<Longrightarrow> largest rs \<le> n"
  by (induction rs) (auto simp: largest_def)

lemma pick_largest:
  assumes "pick mode n rs None None = (False, b, f)"
  shows "(case b of None \<Rightarrow> 0 | Some r \<Rightarrow> snd r) = largest rs"
proof (cases b)
  case None
  then have "rs = []" using pick_biggest [OF assms] by simp
  then show ?thesis using None by (simp add: largest_def)
next
  case (Some r)
  then have "r \<in> set rs" "\<And>x. x \<in> set rs \<Longrightarrow> snd x \<le> snd r" using pick_biggest [OF assms] by auto
  then show ?thesis using Some largest_ge [of r rs] largest_le [of rs "snd r"] by simp
qed

lemma find_filter: "find P xs = (case filter P xs of [] \<Rightarrow> None | x # _ \<Rightarrow> Some x)"
  by (induction xs) auto

lemma pick_chosen:
  assumes p: "pick mode n rs None None = (stop, b, f)" and md: "mode \<noteq> LARGEST"
  defines "fs \<equiv> filter (\<lambda>r. n \<le> snd r) rs"
  shows "f = None \<longleftrightarrow> fs = []" and "f = Some r \<Longrightarrow> chosen mode fs r"
proof -
  show iff: "f = None \<longleftrightarrow> fs = []"
  proof
    assume "f = None"
    then show "fs = []" using pick_none [OF p md] by (force simp: fs_def filter_empty_conv)
  next
    assume "fs = []"
    then show "f = None" using pick_found [OF p] by (auto simp: fs_def filter_empty_conv)
  qed
  assume f: "f = Some r"
  have mem: "r \<in> set fs" using pick_found [OF p] f by (auto simp: fs_def)
  consider "is_first_fit mode" | "\<not> is_first_fit mode" "is_best_fit mode"
    | "\<not> is_first_fit mode" "\<not> is_best_fit mode" by blast
  then show "chosen mode fs r"
  proof cases
    case 1
    then show ?thesis using pick_first(1) [OF 1 p] f mem
      by (auto simp: chosen_def find_filter fs_def split: list.splits)
  next
    case 2
    then have "\<forall>x \<in> set rs. n \<le> snd x \<longrightarrow> smaller f x" using pick_best [OF 2(2) p] by blast
    then show ?thesis using 2 f mem by (auto simp: chosen_def smaller_def fs_def)
  next
    case 3
    then have "f = (if fs = [] then None else Some (last fs))"
      using pick_last [OF md 3(2,1) p] unfolding fs_def by blast
    then show ?thesis using 3 f mem by (auto simp: chosen_def split: if_splits)
  qed
qed

lemma umb_bit_cleared: "(mode AND NOT FIRST_FIT_U) AND FIRST_FIT_U = (0::int)"
  by (rule bit_eqI) (simp add: bit_and_iff bit_not_iff)

lemma umb_mode_not_LARGEST: "mode AND NOT FIRST_FIT_U \<noteq> LARGEST"
proof
  assume "mode AND NOT FIRST_FIT_U = LARGEST"
  then have "LARGEST AND FIRST_FIT_U = 0" using umb_bit_cleared [of mode] by simp
  then show False by (simp add: fit_modes)
qed

text \<open>One search, without the fallback.\<close>

lemma alloc_pass_result:
  assumes ar: "arena s ps" and mode: "mode \<noteq> LARGEST" and sz: "0 < unat sz"
  shows "fits sz mode s ps \<noteq> [] \<Longrightarrow>
       \<exists>r s' qs. chosen mode (fits sz mode s ps) r \<and> claimed s s' ps qs (place mode sz r) sz
         \<and> DosMemAlloc sz mode asize s = Some (Inr (place mode sz r), asize, s')"
    and "fits sz mode s ps = [] \<Longrightarrow>
       \<exists>s1 qs a. kept s s1 ps qs \<and> runs (mem s1) qs = runs (mem s) ps
         \<and> unat a = largest (runs (mem s) (region sz mode s ps))
         \<and> DosMemAlloc sz mode asize s =
             (if mode AND FIRST_FIT_U \<noteq> 0 \<and> umb_linked s
              then DosMemAlloc sz (mode AND NOT FIRST_FIT_U) asize s1
              else Some (Inl DE_NOMEM, set_out asize a, s1))"
proof -
  obtain stop b f where p: "pick mode (unat sz) (runs (mem s) (region sz mode s ps)) None None = (stop, b, f)"
    by (metis prod_cases3)
  note c = pick_chosen [OF p mode, folded fits_def]
  { assume "fits sz mode s ps \<noteq> []"
    then obtain r where "f = Some r" using c(1) by auto
    then show "\<exists>r s' qs. chosen mode (fits sz mode s ps) r \<and> claimed s s' ps qs (place mode sz r) sz
         \<and> DosMemAlloc sz mode asize s = Some (Inr (place mode sz r), asize, s')"
      using alloc_once(1) [OF ar mode sz p] c(2) by blast }
  { assume "fits sz mode s ps = []"
    then have f: "f = None" using c(1) by blast
    then have "\<not> stop" using pick_found [OF p] by auto
    then have "(case b of None \<Rightarrow> 0 | Some r \<Rightarrow> snd r) = largest (runs (mem s) (region sz mode s ps))"
      using p by (intro pick_largest) simp
    then show "\<exists>s1 qs a. kept s s1 ps qs \<and> runs (mem s1) qs = runs (mem s) ps
         \<and> unat a = largest (runs (mem s) (region sz mode s ps))
         \<and> DosMemAlloc sz mode asize s =
             (if mode AND FIRST_FIT_U \<noteq> 0 \<and> umb_linked s
              then DosMemAlloc sz (mode AND NOT FIRST_FIT_U) asize s1
              else Some (Inl DE_NOMEM, set_out asize a, s1))"
      using alloc_once(2) [OF ar mode sz p f] by simp }
qed

lemma kept_trans:
  assumes a: "kept s s1 ps qs" and b: "kept s1 s2 qs rs"
  shows "kept s s2 ps rs"
proof -
  note ka = kept_parts [OF a] and kb = kept_parts [OF b]
  have "mem_env s2 = mem_env s" "hd rs = hd ps" "chain_end (mem s2) rs = chain_end (mem s) ps"
    using ka(1,3,4) kb(1,3,4) by simp_all
  moreover have "x \<in> set ps \<and> \<not> mcbFree (mem s x)" if "x \<in> set rs" "\<not> mcbFree (mem s2 x)" for x
    using kb(5) [OF that] ka(5) kb(6) that by metis
  moreover have "x \<in> set rs \<and> mem s2 x = mem s x" if "x \<in> set ps" "\<not> mcbFree (mem s x)" for x
    using ka(6) [OF that] kb(6) [of x] that by metis
  ultimately show ?thesis using kb(2) unfolding kept_def by blast
qed

text \<open>The whole call, both searches.\<close>

lemma alloc_result:
  assumes ar: "arena s ps" and mode: "mode \<noteq> LARGEST" and sz: "0 < unat sz"
  defines "m \<equiv> pass_mode sz mode s ps"
  shows "fits sz m s ps \<noteq> [] \<Longrightarrow>
       \<exists>r s' qs. chosen m (fits sz m s ps) r \<and> claimed s s' ps qs (place m sz r) sz
         \<and> DosMemAlloc sz mode asize s = Some (Inr (place m sz r), asize, s')"
    and "fits sz m s ps = [] \<Longrightarrow>
       \<exists>s' qs a. kept s s' ps qs \<and> unat a = largest (runs (mem s) (region sz m s ps))
         \<and> DosMemAlloc sz mode asize s = Some (Inl DE_NOMEM, set_out asize a, s')"
proof -
  let ?again = "mode AND FIRST_FIT_U \<noteq> 0 \<and> umb_linked s \<and> fits sz mode s ps = []"
  let ?m = "mode AND NOT FIRST_FIT_U"
  have again: "m = ?m \<and> (\<exists>s1 qs. kept s s1 ps qs \<and> arena s1 qs
       \<and> fits sz ?m s1 qs = fits sz ?m s ps
       \<and> runs (mem s1) (region sz ?m s1 qs) = runs (mem s) (region sz ?m s ps)
       \<and> DosMemAlloc sz mode asize s = DosMemAlloc sz ?m asize s1)" if a: "?again"
  proof -
    obtain s1 qs where k: "kept s s1 ps qs" "runs (mem s1) qs = runs (mem s) ps"
      and e: "DosMemAlloc sz mode asize s = DosMemAlloc sz ?m asize s1"
      using alloc_pass_result(2) [OF ar mode sz, of asize] a by auto
    have rg: "runs (mem s1) (region sz ?m s1 qs) = runs (mem s) (region sz ?m s ps)"
      by (rule region_runs_kept [OF ar k])
    then have "fits sz ?m s1 qs = fits sz ?m s ps" by (simp add: fits_def)
    then show ?thesis using k(1) kept_arena [OF k(1) ar] e rg a unfolding m_def pass_mode_def by auto
  qed
  have once: "m = mode" if "\<not> ?again" using that by (auto simp: m_def pass_mode_def)
  { assume f: "fits sz m s ps \<noteq> []"
    show "\<exists>r s' qs. chosen m (fits sz m s ps) r \<and> claimed s s' ps qs (place m sz r) sz
         \<and> DosMemAlloc sz mode asize s = Some (Inr (place m sz r), asize, s')"
    proof (cases ?again)
      case True
      then obtain s1 qs where k: "kept s s1 ps qs" "arena s1 qs" "fits sz ?m s1 qs = fits sz ?m s ps"
          "DosMemAlloc sz mode asize s = DosMemAlloc sz ?m asize s1" and m: "m = ?m"
        using again by blast
      obtain r s' rs where "chosen ?m (fits sz ?m s ps) r" "claimed s1 s' qs rs (place ?m sz r) sz"
          "DosMemAlloc sz ?m asize s1 = Some (Inr (place ?m sz r), asize, s')"
        using alloc_pass_result(1) [OF k(2) umb_mode_not_LARGEST sz, of mode asize] f k(3) m by auto
      then show ?thesis using kept_claimed [OF k(1)] k(4) m by metis
    next
      case False
      then show ?thesis using alloc_pass_result(1) [OF ar mode sz, of asize] f once by simp
    qed }
  { assume f: "fits sz m s ps = []"
    show "\<exists>s' qs a. kept s s' ps qs \<and> unat a = largest (runs (mem s) (region sz m s ps))
         \<and> DosMemAlloc sz mode asize s = Some (Inl DE_NOMEM, set_out asize a, s')"
    proof (cases ?again)
      case True
      then obtain s1 qs where k: "kept s s1 ps qs" "arena s1 qs" "fits sz ?m s1 qs = fits sz ?m s ps"
          "runs (mem s1) (region sz ?m s1 qs) = runs (mem s) (region sz ?m s ps)"
          "DosMemAlloc sz mode asize s = DosMemAlloc sz ?m asize s1" and m: "m = ?m"
        using again by blast
      obtain s2 rs a where "kept s1 s2 qs rs" "unat a = largest (runs (mem s1) (region sz ?m s1 qs))"
          "DosMemAlloc sz ?m asize s1 = Some (Inl DE_NOMEM, set_out asize a, s2)"
        using alloc_pass_result(2) [OF k(2) umb_mode_not_LARGEST sz, of mode asize] f k(3) m
        by (auto simp: umb_bit_cleared)
      then show ?thesis using kept_trans [OF k(1)] k(4,5) m by metis
    next
      case False
      then have m: "m = mode" using once by blast
      then have na: "\<not> (mode AND FIRST_FIT_U \<noteq> 0 \<and> umb_linked s)" using False f by blast
      show ?thesis using alloc_pass_result(2) [OF ar mode sz, of asize] f unfolding m if_not_P [OF na] by blast
    qed }
qed

end
