(* ===== verification/Mem_Calls.thy ===== *)
theory Mem_Calls
  imports Mem_Alloc
begin

text \<open>
  Freeing, resizing and walking a chain: \<^verbatim>\<open>DosMemFree\<close>, \<^verbatim>\<open>DosMemChange\<close>, \<^verbatim>\<open>FreeProcessMem\<close>,
  \<^verbatim>\<open>DosUmbLink\<close>, \<^verbatim>\<open>DosMemCheck\<close>, and the properties of the memory manager.
\<close>

section \<open>Resizing one block\<close>

text \<open>\<open>resized\<close>: block \<open>p\<close> now has size \<open>n\<close> and owner \<open>w\<close>, every other allocated block is as before.\<close>

definition resized :: "mem_state \<Rightarrow> mem_state \<Rightarrow> u16 list \<Rightarrow> u16 list \<Rightarrow> u16 \<Rightarrow> nat \<Rightarrow> u16 \<Rightarrow> bool" where
  "resized s s' ps qs p n w \<longleftrightarrow>
     mem_env s' = mem_env s \<and> mcb_chain (mem s') qs \<and> hd qs = hd ps
     \<and> chain_end (mem s') qs = chain_end (mem s) ps
     \<and> p \<in> set qs \<and> unat (m_size (mem s' p)) = n \<and> m_psp (mem s' p) = w
     \<and> (\<forall>x \<in> set qs. x \<noteq> p \<longrightarrow> \<not> mcbFree (mem s' x) \<longrightarrow> x \<in> set ps \<and> \<not> mcbFree (mem s x))
     \<and> (\<forall>x \<in> set ps. x \<noteq> p \<longrightarrow> \<not> mcbFree (mem s x) \<longrightarrow> x \<in> set qs \<and> mem s' x = mem s x)"

lemma resized_parts:
  assumes "resized s s' ps qs p n w"
  shows "mem_env s' = mem_env s" "mcb_chain (mem s') qs" "hd qs = hd ps"
    "chain_end (mem s') qs = chain_end (mem s) ps" "p \<in> set qs" "unat (m_size (mem s' p)) = n"
    "m_psp (mem s' p) = w"
    "x \<in> set qs \<Longrightarrow> x \<noteq> p \<Longrightarrow> \<not> mcbFree (mem s' x) \<Longrightarrow> x \<in> set ps \<and> \<not> mcbFree (mem s x)"
    "x \<in> set ps \<Longrightarrow> x \<noteq> p \<Longrightarrow> \<not> mcbFree (mem s x) \<Longrightarrow> x \<in> set qs \<and> mem s' x = mem s x"
  using assms unfolding resized_def by blast+

lemma resizedI:
  assumes "mem_env s' = mem_env s" "mcb_chain (mem s') qs" "hd qs = hd ps"
    "chain_end (mem s') qs = chain_end (mem s) ps" "p \<in> set qs" "unat (m_size (mem s' p)) = n"
    "m_psp (mem s' p) = w"
    and "\<And>x. x \<in> set qs \<Longrightarrow> x \<noteq> p \<Longrightarrow> \<not> mcbFree (mem s' x) \<Longrightarrow> x \<in> set ps \<and> \<not> mcbFree (mem s x)"
    and "\<And>x. x \<in> set ps \<Longrightarrow> x \<noteq> p \<Longrightarrow> \<not> mcbFree (mem s x) \<Longrightarrow> x \<in> set qs \<and> mem s' x = mem s x"
  shows "resized s s' ps qs p n w"
  using assms(1-7) unfolding resized_def by (intro conjI ballI impI) (assumption | rule assms(8) [THEN conjunct1]
    assms(8) [THEN conjunct2] assms(9) [THEN conjunct1] assms(9) [THEN conjunct2])+

lemma resized_refl:
  "mcb_chain (mem s) ps \<Longrightarrow> p \<in> set ps \<Longrightarrow> resized s s ps ps p (unat (m_size (mem s p))) (m_psp (mem s p))"
  unfolding resized_def by blast

lemma resized_trans:
  assumes a: "resized s s1 ps qs p n w" and b: "resized s1 s2 qs rs p n' w'"
  shows "resized s s2 ps rs p n' w'"
proof -
  note ra = resized_parts [OF a] and rb = resized_parts [OF b]
  have "mem_env s2 = mem_env s" "hd rs = hd ps" "chain_end (mem s2) rs = chain_end (mem s) ps"
    using ra(1,3,4) rb(1,3,4) by simp_all
  moreover have "x \<in> set ps \<and> \<not> mcbFree (mem s x)" if "x \<in> set rs" "x \<noteq> p" "\<not> mcbFree (mem s2 x)" for x
    using rb(8) [OF that] ra(8) rb(9) that by metis
  moreover have "x \<in> set rs \<and> mem s2 x = mem s x" if "x \<in> set ps" "x \<noteq> p" "\<not> mcbFree (mem s x)" for x
    using ra(9) [OF that] rb(9) [of x] that by metis
  ultimately show ?thesis using rb(2,5,6,7) unfolding resized_def by blast
qed

lemma resized_owner:
  assumes r: "resized s s1 ps qs p n w"
  shows "resized s (upd_mcb p (\<lambda>b. b\<lparr>m_psp := v\<rparr>) s1) ps qs p n v"
proof -
  note ra = resized_parts [OF r]
  let ?s = "upd_mcb p (\<lambda>b. b\<lparr>m_psp := v\<rparr>) s1"
  show ?thesis
  proof (rule resizedI)
    have "mcb_chain (mem ?s) qs = mcb_chain (mem s1) qs" by (intro mcb_chain_cong) auto
    then show "mcb_chain (mem ?s) qs" using ra(2) by blast
    have "chain_end (mem ?s) qs = chain_end (mem s1) qs" by (simp add: chain_end_def)
    then show "chain_end (mem ?s) qs = chain_end (mem s) ps" using ra(4) by simp
    show "x \<in> set ps \<and> \<not> mcbFree (mem s x)" if "x \<in> set qs" "x \<noteq> p" "\<not> mcbFree (mem ?s x)" for x
      by (rule ra(8)) (use that in simp_all)
    show "x \<in> set qs \<and> mem ?s x = mem s x" if "x \<in> set ps" "x \<noteq> p" "\<not> mcbFree (mem s x)" for x
      using ra(9) [OF that] that(2) by simp
  qed (use ra(1,3,5,6) in simp_all)
qed

text \<open>The size \<open>p\<close> can grow to: itself and the free blocks that follow.\<close>

definition room :: "(u16 \<Rightarrow> mcb) \<Rightarrow> u16 list \<Rightarrow> u16 \<Rightarrow> nat" where
  "room m ps p = unat (m_size (m p)) +
     (\<Sum>q\<leftarrow>takeWhile (\<lambda>q. mcbFree (m q)) (tl (dropWhile (\<lambda>q. q \<noteq> p) ps)). unat (m_size (m q)) + 1)"

lemma room_split:
  "p \<notin> set xs \<Longrightarrow> room m (xs @ p # ys) p = unat (m_size (m p)) +
     (\<Sum>q\<leftarrow>takeWhile (\<lambda>q. mcbFree (m q)) ys. unat (m_size (m q)) + 1)"
  by (induction xs) (auto simp: room_def)

lemma room_ge: "unat (m_size (m p)) \<le> room m ps p"
  by (simp add: room_def)

lemma joinMCBs_resized:
  assumes ch: "mcb_chain (mem s) (xs @ p # ys)"
  shows "\<exists>s' qs. joinMCBs p s = (Inr (), s')
     \<and> resized s s' (xs @ p # ys) qs p (room (mem s) (xs @ p # ys) p) (m_psp (mem s p))"
proof -
  define fs where "fs = takeWhile (\<lambda>q. mcbFree (mem s q)) ys"
  define ds where "ds = dropWhile (\<lambda>q. mcbFree (mem s q)) ys"
  have dist: "distinct (xs @ p # ys)" using ch by (rule mcb_chain_distinct)
  have ys: "ys = fs @ ds" by (simp add: fs_def ds_def)
  obtain s' where j: "joinMCBs p s = (Inr (), s')" "mem_env s' = mem_env s"
      "mcb_chain (mem s') (p # ds)"
      "unat (m_size (mem s' p)) = unat (m_size (mem s p)) + (\<Sum>q\<leftarrow>fs. unat (m_size (mem s q)) + 1)"
      "chain_end (mem s') (p # ds) = chain_end (mem s) (p # ys)"
      "\<forall>x. x \<noteq> p \<longrightarrow> x \<notin> set fs \<longrightarrow> mem s' x = mem s x" "m_psp (mem s' p) = m_psp (mem s p)"
    using joinMCBs_chain [OF mcb_chain_suffix [OF ch]] unfolding fs_def ds_def by blast
  have free: "\<forall>x \<in> set fs. mcbFree (mem s x)" unfolding fs_def by (auto dest: set_takeWhileD)
  have same: "mem s' x = mem s x" if "x \<in> set xs \<or> x \<in> set ds" for x using that j(6) dist ys by auto
  have ch': "mcb_chain (mem s') (xs @ p # ds)"
    by (rule mcb_chain_replace [OF ch j(3)]) (use same in blast)
  have "chain_end (mem s') (xs @ p # ds) = chain_end (mem s) (xs @ p # ys)"
    using j(5) by (simp add: chain_end_def)
  moreover have "hd (xs @ p # ds) = hd (xs @ p # ys)" by (cases xs) auto
  moreover have "unat (m_size (mem s' p)) = room (mem s) (xs @ p # ys) p"
    using j(4) dist by (simp add: room_split fs_def)
  moreover have "x \<in> set (xs @ p # ys) \<and> \<not> mcbFree (mem s x)"
    if "x \<in> set (xs @ p # ds)" "x \<noteq> p" "\<not> mcbFree (mem s' x)" for x
    using that same [of x] ys by auto
  moreover have "x \<in> set (xs @ p # ds) \<and> mem s' x = mem s x"
    if "x \<in> set (xs @ p # ys)" "x \<noteq> p" "\<not> mcbFree (mem s x)" for x
    using that same [of x] ys free by auto
  ultimately have "resized s s' (xs @ p # ys) (xs @ p # ds) p (room (mem s) (xs @ p # ys) p) (m_psp (mem s p))"
    using j(2,7) ch' by (intro resizedI) (assumption | simp)+
  then show ?thesis using j(1) by blast
qed

lemma shrink_block_mem:
  assumes "nxtMCBsize p sz = q" and "p \<noteq> q"
  shows "mem (shrink_block p sz s) = (mem s)
     (p := (mem s p)\<lparr>m_size := sz, m_type := MCB_NORMAL\<rparr>,
      q := (mem s q)\<lparr>m_size := m_size (mem s p) - sz - 1, m_type := m_type (mem s p), m_psp := FREE_PSP\<rparr>)"
    and "mem_env (shrink_block p sz s) = mem_env s"
  using assms by (auto simp: shrink_block_def Let_def fun_eq_iff)

lemma shrink_resized:
  assumes ch: "mcb_chain (mem s) (xs @ p # ys)" and sz: "unat sz < unat (m_size (mem s p))"
    and own: "\<not> mcbFree (mem s p)"
  shows "\<exists>s' qs. joinMCBs (nxtMCBsize p sz) (shrink_block p sz s) = (Inr (), s')
     \<and> resized s s' (xs @ p # ys) qs p (unat sz) (m_psp (mem s p))"
proof -
  let ?q = "nxtMCBsize p sz" and ?s1 = "shrink_block p sz s"
  have uq: "unat ?q = unat p + unat sz + 1" by (rule nxtMCBsize_unat [OF mcb_chain_suffix [OF ch] sz])
  then have pq: "p \<noteq> ?q" by auto
  note m = shrink_block_mem [OF refl pq, of s]
  have mp: "mem ?s1 p = (mem s p)\<lparr>m_size := sz, m_type := MCB_NORMAL\<rparr>"
    and mq: "mem ?s1 ?q = (mem s ?q)\<lparr>m_size := m_size (mem s p) - sz - 1,
               m_type := m_type (mem s p), m_psp := FREE_PSP\<rparr>"
    and mx: "\<And>x. x \<noteq> p \<Longrightarrow> x \<noteq> ?q \<Longrightarrow> mem ?s1 x = mem s x"
    using pq by (simp_all add: m(1))
  have qn: "x \<noteq> ?q" if "x \<in> set xs \<union> set ys" for x
  proof -
    have "unat ?q < unat p + unat (m_size (mem s p)) + 1" "unat p < unat ?q" using uq sz by simp_all
    then show ?thesis
      using that mcb_chain_around(1) [OF ch, of x] mcb_chain_around(2) [OF ch, of x] by auto
  qed
  have dist: "distinct (xs @ p # ys)" using ch by (rule mcb_chain_distinct)
  have same: "mem ?s1 x = mem s x" if "x \<in> set xs \<union> set ys" for x
    using that qn [OF that] dist by (intro mx) auto
  have sizes: "unat (m_size (mem ?s1 p)) + unat (m_size (mem ?s1 ?q)) + 1 = unat (m_size (mem s p))"
    using split_sizes(1) [OF sz] sz by (simp add: mp mq)
  have c1: "mcb_chain (mem ?s1) (xs @ p # ?q # ys)"
      "chain_end (mem ?s1) (xs @ p # ?q # ys) = chain_end (mem s) (xs @ p # ys)"
    by (intro mcb_chain_insert [OF ch same _ sizes]; simp add: mp mq uq)+
  have fq: "mcbFree (mem ?s1 ?q)" by (simp add: mcbFree_def mq)
  have r1: "resized s ?s1 (xs @ p # ys) (xs @ p # ?q # ys) p (unat sz) (m_psp (mem s p))"
    unfolding resized_def
  proof (intro conjI ballI impI)
    show "x \<in> set (xs @ p # ys)" "\<not> mcbFree (mem s x)"
      if "x \<in> set (xs @ p # ?q # ys)" "x \<noteq> p" "\<not> mcbFree (mem ?s1 x)" for x
      using that fq same [of x] by auto
    show "x \<in> set (xs @ p # ?q # ys)" "mem ?s1 x = mem s x"
      if "x \<in> set (xs @ p # ys)" "x \<noteq> p" "\<not> mcbFree (mem s x)" for x
      using that same [of x] by auto
    show "hd (xs @ p # ?q # ys) = hd (xs @ p # ys)" by (cases xs) auto
  qed (use c1 m(2) mp in auto)
  have c2: "mcb_chain (mem ?s1) ((xs @ [p]) @ ?q # ys)" using c1(1) by simp
  obtain s' qs where j: "joinMCBs ?q ?s1 = (Inr (), s')"
      and r2: "resized ?s1 s' ((xs @ [p]) @ ?q # ys) qs ?q (room (mem ?s1) ((xs @ [p]) @ ?q # ys) ?q) (m_psp (mem ?s1 ?q))"
    using joinMCBs_resized [OF c2] by blast
  note rp = resized_parts [OF r2]
  have nf: "\<not> mcbFree (mem ?s1 p)" using own by (simp add: mcbFree_def mp)
  have keep: "p \<in> set qs \<and> mem s' p = mem ?s1 p" using rp(9) [of p] pq nf by simp
  have fq': "mcbFree (mem s' ?q)" using rp(7) fq by (simp add: mcbFree_def)
  have "resized ?s1 s' (xs @ p # ?q # ys) qs p (unat sz) (m_psp (mem s p))"
    unfolding resized_def
  proof (intro conjI ballI impI)
    show "x \<in> set (xs @ p # ?q # ys)" "\<not> mcbFree (mem ?s1 x)"
      if "x \<in> set qs" "x \<noteq> p" "\<not> mcbFree (mem s' x)" for x
      using that fq' rp(8) [of x] by auto
    show "x \<in> set qs" "mem s' x = mem ?s1 x"
      if "x \<in> set (xs @ p # ?q # ys)" "x \<noteq> p" "\<not> mcbFree (mem ?s1 x)" for x
      using that fq rp(9) [of x] by auto
  qed (use rp(1-4) keep mp in auto)
  then show ?thesis using j resized_trans [OF r1] by blast
qed

lemma resized_arena:
  assumes r: "resized s s' ps qs p n w" and ar: "arena s ps" and w: "w \<noteq> 0"
  shows "arena s' qs"
proof -
  note ra = resized_parts [OF r]
  have "uppermem_root s \<in> set qs \<and> \<not> mcbFree (mem s' (uppermem_root s))" if "umb_linked s"
  proof (cases "uppermem_root s = p")
    case True
    then show ?thesis using ra(5,7) w by (simp add: mcbFree_def)
  next
    case False
    then show ?thesis using ra(9) [of "uppermem_root s"] ar that by (simp add: arena_def)
  qed
  then show ?thesis
    using ar ra(2,3) mem_env_linked [OF ra(1)] mem_env_sel [OF ra(1)] by (simp add: arena_def)
qed

lemma resized_allocs:
  assumes r: "resized s s' ps qs p n w" and p: "p \<in> set ps" "\<not> mcbFree (mem s p)" and w: "w \<noteq> 0"
  shows "allocs (mem s') qs =
    insert (p, of_nat n, w) (allocs (mem s) ps - {(p, m_size (mem s p), m_psp (mem s p))})"
proof -
  note ra = resized_parts [OF r]
  have n: "m_size (mem s' p) = of_nat n" unfolding ra(6) [symmetric] by simp
  have "(x, k, v) \<in> allocs (mem s') qs \<longleftrightarrow> (x, k, v) = (p, of_nat n, w)
      \<or> (x, k, v) \<in> allocs (mem s) ps - {(p, m_size (mem s p), m_psp (mem s p))}" for x k v
  proof (cases "x = p")
    case True
    then show ?thesis using ra(5,7) w n by (auto simp: allocs_iff mcbFree_def)
  next
    case False
    have "x \<in> set qs \<and> \<not> mcbFree (mem s' x) \<longleftrightarrow> x \<in> set ps \<and> \<not> mcbFree (mem s x)"
      using ra(8) [OF _ False] ra(9) [OF _ False] by metis
    moreover have "x \<in> set ps \<and> \<not> mcbFree (mem s x) \<Longrightarrow> mem s' x = mem s x" using ra(9) [OF _ False] by blast
    ultimately show ?thesis using False by (auto simp: allocs_iff)
  qed
  then show ?thesis by auto
qed

lemma word_of_nat_unat16: "unat (x :: u16) = n \<Longrightarrow> x = of_nat n"
  by auto

lemma DosMemChange_resized:
  assumes ch: "mcb_chain (mem s) ps" and p: "para - 1 \<in> set ps" "\<not> mcbFree (mem s (para - 1))"
  defines "rm \<equiv> room (mem s) ps (para - 1)"
  shows "unat sz \<le> rm \<Longrightarrow> \<exists>s' qs. DosMemChange para sz out s = (Inr (), out, s')
      \<and> resized s s' ps qs (para - 1) (unat sz) (cu_psp s)"
    and "rm < unat sz \<Longrightarrow> \<exists>s' qs. DosMemChange para sz out s = (Inl DE_NOMEM, set_out out (of_nat rm), s')
      \<and> resized s s' ps qs (para - 1) rm (m_psp (mem s (para - 1)))"
proof -
  let ?p = "para - 1"
  obtain xs ys where ps: "ps = xs @ ?p # ys" using p(1) by (auto dest: split_list)
  have v: "mcbValid (mem s ?p)" using mcb_chain_valid [OF ch p(1)] .
  let ?grow = "if sz > m_size (mem s ?p) then joinMCBs ?p s else (Inr (), s)"
  have grow: "\<exists>s1 qs k. ?grow = (Inr (), s1) \<and> resized s s1 ps qs ?p k (m_psp (mem s ?p))
      \<and> (if sz > m_size (mem s ?p) then k = rm else k = unat (m_size (mem s ?p)))"
  proof (cases "sz > m_size (mem s ?p)")
    case True
    then show ?thesis using joinMCBs_resized [of s xs ?p ys] ch ps unfolding rm_def by auto
  next
    case False
    then show ?thesis using resized_refl [OF ch p(1)] by auto
  qed
  then obtain s1 qs k where g: "?grow = (Inr (), s1)" and r1: "resized s s1 ps qs ?p k (m_psp (mem s ?p))"
    and k: "if sz > m_size (mem s ?p) then k = rm else k = unat (m_size (mem s ?p))" by blast
  note ra = resized_parts [OF r1]
  have krm: "unat sz \<le> rm \<longleftrightarrow> unat sz \<le> k"
    using k room_ge [of "mem s" ?p ps] by (auto simp: rm_def word_less_nat_alt split: if_splits)
  have own: "\<not> mcbFree (mem s1 ?p)" using ra(7) p(2) by (simp add: mcbFree_def)
  have cu: "cu_psp s1 = cu_psp s" using ra(1) by (rule mem_env_sel)
  { assume "rm < unat sz"
    then have gt: "sz > m_size (mem s1 ?p)" and "k = rm"
      using krm k ra(6) by (auto simp: word_less_nat_alt split: if_splits)
    moreover from this have "m_size (mem s1 ?p) = of_nat rm" using word_of_nat_unat16 [OF ra(6)] by simp
    ultimately show "\<exists>s' qs. DosMemChange para sz out s = (Inl DE_NOMEM, set_out out (of_nat rm), s')
      \<and> resized s s' ps qs ?p rm (m_psp (mem s ?p))"
      using v g r1 by (intro exI [of _ s1] exI [of _ qs]) (simp add: DosMemChange_def Let_def) }
  { assume "unat sz \<le> rm"
    then have le: "\<not> sz > m_size (mem s1 ?p)" using krm ra(6) by (simp add: word_less_nat_alt)
    have "\<exists>s2 rs. (if sz < m_size (mem s1 ?p) then joinMCBs (nxtMCBsize ?p sz) (shrink_block ?p sz s1)
              else (Inr (), s1)) = (Inr (), s2) \<and> resized s1 s2 qs rs ?p (unat sz) (m_psp (mem s1 ?p))"
    proof (cases "sz < m_size (mem s1 ?p)")
      case True
      obtain xs' ys' where qs: "qs = xs' @ ?p # ys'" using ra(5) by (auto dest: split_list)
      then show ?thesis using shrink_resized [of s1 xs' ?p ys' sz] ra(2) own True by (simp add: word_less_nat_alt)
    next
      case False
      then have "sz = m_size (mem s1 ?p)" using le by simp
      then show ?thesis using resized_refl [OF ra(2,5)] by auto
    qed
    then obtain s2 rs where sh: "(if sz < m_size (mem s1 ?p) then joinMCBs (nxtMCBsize ?p sz) (shrink_block ?p sz s1)
              else (Inr (), s1)) = (Inr (), s2)" and r2: "resized s1 s2 qs rs ?p (unat sz) (m_psp (mem s1 ?p))" by blast
    have cu2: "cu_psp s2 = cu_psp s" using mem_env_sel(5) [OF resized_parts(1) [OF r2]] cu by simp
    have "DosMemChange para sz out s = (Inr (), out, upd_mcb ?p (\<lambda>b. b\<lparr>m_psp := cu_psp s2\<rparr>) s2)"
      using v g le sh by (simp add: DosMemChange_def Let_def split del: if_split)
    moreover have "resized s (upd_mcb ?p (\<lambda>b. b\<lparr>m_psp := cu_psp s2\<rparr>) s2) ps rs ?p (unat sz) (cu_psp s)"
      using resized_owner [OF resized_trans [OF r1 r2], of "cu_psp s2"] cu2 by simp
    ultimately show "\<exists>s' qs. DosMemChange para sz out s = (Inr (), out, s')
      \<and> resized s s' ps qs ?p (unat sz) (cu_psp s)" by blast }
qed

section \<open>Freeing\<close>

lemma chain_freeable: "mcb_chain m ps \<Longrightarrow> p \<in> set ps \<Longrightarrow> mcbFreeable (m p) \<and> p \<noteq> 0"
  by (induction m ps rule: mcb_chain.induct) (auto simp: mcbFreeable_def)

definition freed_mcb :: "mcb \<Rightarrow> mcb" where
  "freed_mcb b = b\<lparr>m_psp := FREE_PSP, m_name := replicate 8 0\<rparr>"

lemma DosMemFree_chain:
  assumes "mcb_chain (mem s) ps" "p \<in> set ps"
  shows "DosMemFree p s = (Inr (), if mcbFree (mem s p) then s else upd_mcb p freed_mcb s)"
  using chain_freeable [OF assms] by (auto simp: DosMemFree_def freed_mcb_def fun_eq_iff)

definition free_owned :: "u16 \<Rightarrow> u16 set \<Rightarrow> (u16 \<Rightarrow> mcb) \<Rightarrow> u16 \<Rightarrow> mcb" where
  "free_owned w A m x = (if x \<in> A \<and> m_psp (m x) = w \<and> w \<noteq> 0 then freed_mcb (m x) else m x)"

lemma free_owned_same [simp]:
  "m_size (free_owned w A m x) = m_size (m x)" "m_type (free_owned w A m x) = m_type (m x)"
  by (simp_all add: free_owned_def freed_mcb_def)

lemma mcb_chain_free_owned [simp]: "mcb_chain (free_owned w A m) ps = mcb_chain m ps"
  by (rule mcb_chain_cong) simp

lemma free_from_chain:
  assumes "mcb_chain (mem s) (p # ps)"
  shows "\<exists>s'. free_from w s p = Some (Inr (), s') \<and> mem_env s' = mem_env s
     \<and> mem s' = free_owned w (set (p # ps)) (mem s)"
  using assms
proof (induction ps arbitrary: p s)
  case (Cons q ps)
  let ?s1 = "if m_psp (mem s p) = w then snd (DosMemFree p s) else s"
  have v: "mcbValid (mem s p)" using mcb_chain_valid [OF Cons.prems] by simp
  have m1: "mem ?s1 = free_owned w {p} (mem s)" and e1: "mem_env ?s1 = mem_env s"
    using DosMemFree_chain [OF Cons.prems, of p]
    by (auto simp: free_owned_def fun_eq_iff mcbFree_def)
  have ch: "mcb_chain (mem ?s1) (p # q # ps)" unfolding m1 using Cons.prems by simp
  have nx: "nxtMCB ?s1 p = q" using ch by (rule mcb_chain_next)
  have nl: "m_type (mem ?s1 p) \<noteq> MCB_LAST" unfolding m1 using Cons.prems by simp
  have "free_from w s p = free_from w ?s1 q"
    using v nx nl by (subst free_from.simps) (simp add: Let_def)
  moreover obtain s' where "free_from w ?s1 q = Some (Inr (), s')" "mem_env s' = mem_env ?s1"
      "mem s' = free_owned w (set (q # ps)) (mem ?s1)"
    using Cons.IH [of ?s1 q] ch by auto
  moreover have "free_owned w (set (q # ps)) (mem ?s1) = free_owned w (set (p # q # ps)) (mem s)"
    unfolding m1 by (rule ext) (auto simp: free_owned_def freed_mcb_def)
  ultimately show ?case using e1 by auto
next
  case Nil
  let ?s1 = "if m_psp (mem s p) = w then snd (DosMemFree p s) else s"
  have v: "mcbValid (mem s p)" using mcb_chain_valid [OF Nil] by simp
  have m1: "mem ?s1 = free_owned w {p} (mem s)" and e1: "mem_env ?s1 = mem_env s"
    using DosMemFree_chain [OF Nil, of p] by (auto simp: free_owned_def fun_eq_iff mcbFree_def)
  have "m_type (mem ?s1 p) = MCB_LAST" unfolding m1 using Nil by simp
  then have "free_from w s p = Some (Inr (), ?s1)"
    using v by (subst free_from.simps) (simp add: Let_def)
  then show ?case using m1 e1 by auto
qed

section \<open>The upper memory link\<close>

text \<open>
  \<open>two_parts s ps us\<close>: the conventional chain \<open>ps\<close> and the upper chain \<open>us\<close>, which starts
  where the last conventional block ends; \<open>ps\<close> is closed by \<open>MCB_LAST\<close> when not linked.
\<close>

definition two_parts :: "mem_state \<Rightarrow> u16 list \<Rightarrow> u16 list \<Rightarrow> bool" where
  "two_parts s ps us \<longleftrightarrow> ps \<noteq> [] \<and> hd ps = first_mcb s \<and> us \<noteq> [] \<and> hd us = uppermem_root s
     \<and> uppermem_root s \<noteq> 0xffff \<and> mcb_chain (mem s) us
     \<and> (if uppermem_link s = 0
        then mcb_chain (mem s) ps \<and> unat (uppermem_root s) = chain_end (mem s) ps
        else uppermem_link s = 1 \<and> mcb_chain (mem s) (ps @ us))"

lemma umb_walk_skip:
  assumes "mcb_chain (mem s) (xs @ p # ys)" and "uppermem_root s \<notin> set xs"
  shows "umb_walk s (hd (xs @ [p])) q = umb_walk s p (if xs = [] then q else last xs)"
  using assms
proof (induction xs arbitrary: q)
  case (Cons x xs)
  obtain r rs where r: "xs @ p # ys = r # rs" by (cases xs) auto
  then have hd: "hd (xs @ [p]) = r" by (cases xs) auto
  have ch: "mcb_chain (mem s) (x # r # rs)" using Cons.prems r by simp
  have "mcbValid (mem s x)" using mcb_chain_valid [OF ch] by simp
  moreover have "uppermem_root s \<noteq> x" "x \<noteq> uppermem_root s" using Cons.prems(2) by auto
  ultimately have "umb_walk s x q = umb_walk s r x"
    using ch mcb_chain_next [OF ch] by (subst umb_walk.simps) simp
  also have "\<dots> = umb_walk s p (if xs = [] then x else last xs)"
    using Cons.IH [of x] Cons.prems ch r hd by simp
  finally show ?case by simp
qed simp

lemma mcb_chain_prefix_last:
  assumes "mcb_chain m (xs @ [p])" "unat r = chain_end m (xs @ [p])" "mcb_chain m us" "us \<noteq> []" "hd us = r"
    "m' = m(p := (m p)\<lparr>m_type := MCB_NORMAL\<rparr>)" "p \<notin> set us"
  shows "mcb_chain m' ((xs @ [p]) @ us)"
proof -
  have us: "mcb_chain m' us = mcb_chain m us" using assms(6,7) by (intro mcb_chain_cong) auto
  have chp: "mcb_chain m [p]" using assms(1) mcb_chain_suffix [of m xs p "[]"] by simp
  have "mcb_chain m' (p # us)"
    using chp assms(2-6) us by (simp add: mcb_chain_Cons chain_end_def)
  moreover have "p \<notin> set xs" using mcb_chain_distinct [OF assms(1)] by simp
  ultimately show ?thesis
    using mcb_chain_replace [OF assms(1), of m' us] assms(6) by fastforce
qed

lemma mcb_chain_cut:
  assumes "mcb_chain m ((xs @ [p]) @ us)" "us \<noteq> []" "m' = m(p := (m p)\<lparr>m_type := MCB_LAST\<rparr>)"
  shows "mcb_chain m' (xs @ [p])" "chain_end m' (xs @ [p]) = unat (hd us)" "m_type (m p) = MCB_NORMAL"
    "mcb_chain m' us" "p \<notin> set us"
proof -
  have ch: "mcb_chain m (xs @ p # us)" using assms(1) by simp
  have chp: "mcb_chain m (p # us)" using mcb_chain_suffix [OF ch] .
  have dist: "distinct (xs @ p # us)" using ch by (rule mcb_chain_distinct)
  show "p \<notin> set us" using dist by simp
  have cu: "mcb_chain m us" "m_type (m p) = MCB_NORMAL" "unat (hd us) = unat p + unat (m_size (m p)) + 1"
    using chp assms(2) by (simp_all add: mcb_chain_Cons)
  show "m_type (m p) = MCB_NORMAL" by (rule cu)
  show "chain_end m' (xs @ [p]) = unat (hd us)" using cu(3) assms(3) by (simp add: chain_end_def)
  have "mcb_chain m' [p]" using mcb_chain_hd [OF chp] assms(3) by simp
  then show "mcb_chain m' (xs @ [p])"
    using mcb_chain_replace [OF ch, of m' "[]"] assms(3) dist by fastforce
  have "mcb_chain m' us = mcb_chain m us" using assms(3) dist by (intro mcb_chain_cong) auto
  then show "mcb_chain m' us" using cu by simp
qed

lemma UmbLink_on:
  assumes t: "two_parts s ps us" and off: "uppermem_link s = 0" and far: "set ps \<inter> set us = {}"
  shows "DosUmbLink q0 1 s = Some ((upd_mcb (last ps) (\<lambda>b. b\<lparr>m_type := MCB_NORMAL\<rparr>) s)\<lparr>uppermem_link := 1\<rparr>)"
    and "two_parts ((upd_mcb (last ps) (\<lambda>b. b\<lparr>m_type := MCB_NORMAL\<rparr>) s)\<lparr>uppermem_link := 1\<rparr>) ps us"
proof -
  obtain xs p where ps: "ps = xs @ [p]" using t by (metis two_parts_def rev_exhaust)
  have ch: "mcb_chain (mem s) (xs @ [p])" and root: "uppermem_root s \<in> set us" "uppermem_root s \<noteq> 0xffff"
    using t off ps hd_in_set [of us] by (auto simp: two_parts_def simp del: hd_in_set)
  have nin: "uppermem_root s \<notin> set ps" using far root by auto
  have last: "m_type (mem s p) = MCB_LAST" using mcb_chain_suffix [OF ch] by simp
  have "hd (xs @ [p]) = first_mcb s" using t ps by (simp add: two_parts_def)
  then have "umb_walk s (first_mcb s) q0 = Some (Some (p, if xs = [] then q0 else last xs))"
    using umb_walk_skip [OF ch, of q0] nin ps last by (simp add: umb_walk.simps)
  then show "DosUmbLink q0 1 s = Some ((upd_mcb (last ps) (\<lambda>b. b\<lparr>m_type := MCB_NORMAL\<rparr>) s)\<lparr>uppermem_link := 1\<rparr>)"
    using root(2) off last ps by (simp add: DosUmbLink_def)
  have "p \<notin> set us" using far ps by auto
  then have "mcb_chain ((mem s)(p := (mem s p)\<lparr>m_type := MCB_NORMAL\<rparr>)) ((xs @ [p]) @ us)"
    using t off ps by (intro mcb_chain_prefix_last [OF ch _ _ _ _ refl]) (auto simp: two_parts_def)
  moreover have "mcb_chain ((mem s)(p := (mem s p)\<lparr>m_type := MCB_NORMAL\<rparr>)) us = mcb_chain (mem s) us"
    using \<open>p \<notin> set us\<close> by (intro mcb_chain_cong) auto
  ultimately show "two_parts ((upd_mcb (last ps) (\<lambda>b. b\<lparr>m_type := MCB_NORMAL\<rparr>) s)\<lparr>uppermem_link := 1\<rparr>) ps us"
    using t ps by (simp add: two_parts_def)
qed

lemma UmbLink_off:
  assumes t: "two_parts s ps us" and on: "uppermem_link s = 1"
  shows "DosUmbLink q0 0 s = Some ((upd_mcb (last ps) (\<lambda>b. b\<lparr>m_type := MCB_LAST\<rparr>) s)\<lparr>uppermem_link := 0\<rparr>)"
    and "two_parts ((upd_mcb (last ps) (\<lambda>b. b\<lparr>m_type := MCB_LAST\<rparr>) s)\<lparr>uppermem_link := 0\<rparr>) ps us"
proof -
  obtain xs p where ps: "ps = xs @ [p]" using t by (metis two_parts_def rev_exhaust)
  obtain r vs where us: "us = r # vs" using t by (cases us) (auto simp: two_parts_def)
  have r: "uppermem_root s = r" "r \<noteq> 0xffff" using t us by (auto simp: two_parts_def)
  have ch: "mcb_chain (mem s) ((xs @ [p]) @ us)" using t on ps by (simp add: two_parts_def)
  note cut = mcb_chain_cut [OF ch _ refl]
  have "distinct ((xs @ [p]) @ us)" using ch by (rule mcb_chain_distinct)
  then have "umb_walk s (hd ((xs @ [p]) @ [r])) q0 = umb_walk s r p"
    using umb_walk_skip [of s "xs @ [p]" r vs q0] ch us r by auto
  moreover have "hd ((xs @ [p]) @ [r]) = first_mcb s" using t ps by (cases xs) (auto simp: two_parts_def)
  moreover have "umb_walk s r p = Some (Some (r, p))"
    using r by (subst umb_walk.simps) simp
  ultimately have "umb_walk s (first_mcb s) q0 = Some (Some (r, p))" by simp
  then show "DosUmbLink q0 0 s = Some ((upd_mcb (last ps) (\<lambda>b. b\<lparr>m_type := MCB_LAST\<rparr>) s)\<lparr>uppermem_link := 0\<rparr>)"
    using r on ps cut(3) us by (simp add: DosUmbLink_def)
  show "two_parts ((upd_mcb (last ps) (\<lambda>b. b\<lparr>m_type := MCB_LAST\<rparr>) s)\<lparr>uppermem_link := 0\<rparr>) ps us"
    using t ps cut us r by (simp add: two_parts_def)
qed

end
