(* ===== verification/Mem_Props.thy ===== *)
theory Mem_Props
  imports Mem_Calls
begin

text \<open>
  The properties of the memory manager, each with a concrete arena on which it applies.
\<close>

section \<open>Whole calls\<close>

lemma two_parts_free:
  assumes t: "two_parts s ps us" and e: "mem_env s' = mem_env s"
    and m: "mem s' = free_owned w A (mem s)"
  shows "two_parts s' ps us"
proof -
  have "chain_end (mem s') ps = chain_end (mem s) ps" by (simp add: m chain_end_def)
  then show ?thesis using t by (simp add: two_parts_def mem_env_sel [OF e] m)
qed

lemma free_all_linked:
  assumes t: "two_parts s ps us" and on: "uppermem_link s = 1"
  shows "\<exists>s'. free_from w s (first_mcb s) = Some (Inr (), s') \<and> mem_env s' = mem_env s
    \<and> mem s' = free_owned w (set ps \<union> set us) (mem s)"
proof -
  obtain p rs where ps: "ps = p # rs" using t by (cases ps) (auto simp: two_parts_def)
  then have "mcb_chain (mem s) (p # rs @ us)" "first_mcb s = p" using t on by (auto simp: two_parts_def)
  then show ?thesis using free_from_chain [of s p "rs @ us" w] ps by (simp add: Un_assoc)
qed

lemma mem_state_eqI:
  "mem s = mem s' \<Longrightarrow> mem_env s = mem_env s' \<Longrightarrow> (s :: mem_state) = s'"
  by (cases s; cases s') (simp add: mem_env_def)

text \<open>
  C1: when some free run of the area searched is large enough, \<^verbatim>\<open>DosMemAlloc\<close> returns and
  succeeds. It claims exactly the requested number of paragraphs for the current process, inside
  the run that the placement policy of the mode prescribes (first, smallest, last, upper
  memory first with a fallback to the whole chain), and leaves a well-formed chain in which
  every other allocated block is as before.
\<close>

theorem DosMemAlloc_succeeds:
  assumes "arena s ps" "mode \<noteq> LARGEST" "sz \<noteq> 0" "cu_psp s \<noteq> 0"
    and "fits sz (pass_mode sz mode s ps) s ps \<noteq> []"
  shows "\<exists>r g s' qs. chosen (pass_mode sz mode s ps) (fits sz (pass_mode sz mode s ps) s ps) r
     \<and> g = place (pass_mode sz mode s ps) sz r
     \<and> DosMemAlloc sz mode asize s = Some (Inr g, asize, s') \<and> arena s' qs
     \<and> chain_end (mem s') qs = chain_end (mem s) ps
     \<and> allocs (mem s') qs = insert (g, sz, cu_psp s) (allocs (mem s) ps)
     \<and> (\<forall>n w. (g, n, w) \<notin> allocs (mem s) ps)"
proof -
  have sz: "0 < unat sz" using assms(3) by (simp add: unat_gt_0)
  let ?m = "pass_mode sz mode s ps"
  obtain r s' qs where r: "chosen ?m (fits sz ?m s ps) r" and c: "claimed s s' ps qs (place ?m sz r) sz"
    and d: "DosMemAlloc sz mode asize s = Some (Inr (place ?m sz r), asize, s')"
    using alloc_result(1) [OF assms(1,2) sz assms(5)] by blast
  show ?thesis
    using r d claimed_arena [OF c assms(1)] claimed_allocs [OF c assms(4)] claimed_parts(4) [OF c] by blast
qed

text \<open>
  C2: when no free run of the area searched is large enough, \<^verbatim>\<open>DosMemAlloc\<close> returns
  \<open>DE_NOMEM\<close>, reports the size of the largest run of that area, and allocates and frees nothing.
\<close>

theorem DosMemAlloc_fails:
  assumes "arena s ps" "mode \<noteq> LARGEST" "sz \<noteq> 0"
    and "fits sz (pass_mode sz mode s ps) s ps = []"
  shows "\<exists>s' qs a. DosMemAlloc sz mode asize s = Some (Inl DE_NOMEM, set_out asize a, s') \<and> arena s' qs
     \<and> unat a = largest (runs (mem s) (region sz (pass_mode sz mode s ps) s ps))
     \<and> allocs (mem s') qs = allocs (mem s) ps \<and> chain_end (mem s') qs = chain_end (mem s) ps"
proof -
  have sz: "0 < unat sz" using assms(3) by (simp add: unat_gt_0)
  obtain s' qs a where k: "kept s s' ps qs"
    and a: "unat a = largest (runs (mem s) (region sz (pass_mode sz mode s ps) s ps))"
      "DosMemAlloc sz mode asize s = Some (Inl DE_NOMEM, set_out asize a, s')"
    using alloc_result(2) [OF assms(1,2) sz assms(4)] by blast
  then show ?thesis using kept_arena [OF k assms(1)] kept_allocs [OF k] kept_parts(4) [OF k] by blast
qed

text \<open>
  C3: \<^verbatim>\<open>DosMemChange\<close> on a block of the current process. If the block and the free
  blocks after it are large enough, the block gets exactly the new size; otherwise the call fails with
  \<open>DE_NOMEM\<close>, reports what the block could grow to, and the block has been grown to that size.
  No other block changes in either case.
\<close>

theorem DosMemChange_resizes:
  assumes "arena s ps" "para - 1 \<in> set ps" "m_psp (mem s (para - 1)) = cu_psp s" "cu_psp s \<noteq> 0"
  defines "k \<equiv> room (mem s) ps (para - 1)"
  defines "others \<equiv> allocs (mem s) ps - {(para - 1, m_size (mem s (para - 1)), cu_psp s)}"
  shows "\<exists>s' qs. DosMemChange para sz out s =
       (if unat sz \<le> k then (Inr (), out, s') else (Inl DE_NOMEM, set_out out (of_nat k), s'))
     \<and> arena s' qs \<and> chain_end (mem s') qs = chain_end (mem s) ps
     \<and> allocs (mem s') qs = insert (para - 1, if unat sz \<le> k then sz else of_nat k, cu_psp s) others"
proof -
  have ch: "mcb_chain (mem s) ps" using assms(1) by (simp add: arena_def)
  have nf: "\<not> mcbFree (mem s (para - 1))" using assms(3,4) by (simp add: mcbFree_def)
  have "\<exists>s' qs. DosMemChange para sz out s =
       (if unat sz \<le> k then (Inr (), out, s') else (Inl DE_NOMEM, set_out out (of_nat k), s'))
     \<and> resized s s' ps qs (para - 1) (if unat sz \<le> k then unat sz else k) (cu_psp s)"
    using DosMemChange_resized [OF ch assms(2) nf, folded k_def, of sz out] assms(3)
    by (cases "unat sz \<le> k") auto
  then obtain s' qs where d: "DosMemChange para sz out s =
       (if unat sz \<le> k then (Inr (), out, s') else (Inl DE_NOMEM, set_out out (of_nat k), s'))"
    and r: "resized s s' ps qs (para - 1) (if unat sz \<le> k then unat sz else k) (cu_psp s)" by blast
  have "allocs (mem s') qs = insert (para - 1, if unat sz \<le> k then sz else of_nat k, cu_psp s) others"
    using resized_allocs [OF r assms(2) nf assms(4)] assms(3) by (simp add: others_def split: if_splits)
  then show ?thesis using d resized_arena [OF r assms(1,4)] resized_parts(4) [OF r] by blast
qed

text \<open>
  C4: \<^verbatim>\<open>FreeProcessMem\<close> on a conventional and an upper chain, linked or not: it returns,
  every block of the process is free afterwards, in both chains, every other block is unchanged,
  and the link state is what it was.
\<close>

theorem FreeProcessMem_frees_all:
  assumes "two_parts s ps us" and "set ps \<inter> set us = {}"
  shows "\<exists>s'. FreeProcessMem q0 q1 w s = Some (Inr (), s')
     \<and> two_parts s' ps us \<and> uppermem_link s' = uppermem_link s
     \<and> mem s' = free_owned w (set ps \<union> set us) (mem s)"
proof (cases "uppermem_link s = 0")
  case False
  then have on: "uppermem_link s = 1" using assms(1) by (auto simp: two_parts_def)
  obtain s' where s': "free_from w s (first_mcb s) = Some (Inr (), s')" "mem_env s' = mem_env s"
    "mem s' = free_owned w (set ps \<union> set us) (mem s)" using free_all_linked [OF assms(1) on] by blast
  have "uppermem_link s' = 1" using mem_env_sel(3) [OF s'(2)] on by simp
  then have "FreeProcessMem q0 q1 w s = Some (Inr (), s')"
    using s'(1) on by (simp add: FreeProcessMem_def DosUmbLink_def Let_def)
  then show ?thesis using s' two_parts_free [OF assms(1) s'(2,3)] mem_env_sel(3) [OF s'(2)] by blast
next
  case off: True
  note l = UmbLink_on [OF assms(1) off assms(2)]
  let ?s1 = "(upd_mcb (last ps) (\<lambda>b. b\<lparr>m_type := MCB_NORMAL\<rparr>) s)\<lparr>uppermem_link := 1\<rparr>"
  obtain s2 where s2: "free_from w ?s1 (first_mcb ?s1) = Some (Inr (), s2)" "mem_env s2 = mem_env ?s1"
    "mem s2 = free_owned w (set ps \<union> set us) (mem ?s1)" using free_all_linked [OF l(2)] by auto
  have on: "uppermem_link s2 = 1" using mem_env_sel(3) [OF s2(2)] by simp
  note u = UmbLink_off [OF two_parts_free [OF l(2) s2(2,3)] on]
  let ?s3 = "(upd_mcb (last ps) (\<lambda>b. b\<lparr>m_type := MCB_LAST\<rparr>) s2)\<lparr>uppermem_link := 0\<rparr>"
  obtain xs p where ps: "ps = xs @ [p]" using assms(1) by (metis two_parts_def rev_exhaust)
  have "mcb_chain (mem s) (xs @ [p])" using assms(1) off ps by (simp add: two_parts_def)
  then have "mcb_chain (mem s) [p]" by (rule mcb_chain_suffix)
  then have "m_type (mem s p) = MCB_LAST" by simp
  then have tback: "(mem s p)\<lparr>m_type := MCB_LAST\<rparr> = mem s p" by (cases "mem s p") simp
  have "mem s2 x = free_owned w (set ps \<union> set us) ((mem s)(p := (mem s p)\<lparr>m_type := MCB_NORMAL\<rparr>)) x" for x
    using s2(3) ps by simp
  then have "mem ?s3 = free_owned w (set ps \<union> set us) (mem s)"
    using tback ps by (cases "mem s p") (auto simp: fun_eq_iff free_owned_def freed_mcb_def)
  moreover have "FreeProcessMem q0 q1 w s = Some (Inr (), ?s3)"
    using l(1) s2(1) u(1) off by (simp add: FreeProcessMem_def)
  ultimately show ?thesis using u(2) off by auto
qed

text \<open>
  \<^verbatim>\<open>DosMemFree\<close> of an allocated block removes exactly that block from the allocated ones and
  keeps the chain; freeing it a second time succeeds and changes nothing.
\<close>

theorem DosMemFree_releases:
  assumes "arena s ps" "p \<in> set ps" "\<not> mcbFree (mem s p)" "umb_linked s \<Longrightarrow> p \<noteq> uppermem_root s"
  shows "\<exists>s'. DosMemFree p s = (Inr (), s') \<and> arena s' ps
     \<and> allocs (mem s') ps = allocs (mem s) ps - {(p, m_size (mem s p), m_psp (mem s p))}
     \<and> chain_end (mem s') ps = chain_end (mem s) ps \<and> DosMemFree p s' = (Inr (), s')"
proof -
  let ?s = "upd_mcb p freed_mcb s"
  have ch: "mcb_chain (mem s) ps" using assms(1) by (simp add: arena_def)
  have d: "DosMemFree p s = (Inr (), ?s)" using DosMemFree_chain [OF ch assms(2)] assms(3) by simp
  have ch': "mcb_chain (mem ?s) ps = mcb_chain (mem s) ps"
    by (intro mcb_chain_cong) (auto simp: freed_mcb_def)
  have fr: "mcbFree (mem ?s p)" by (simp add: mcbFree_def freed_mcb_def)
  have "arena ?s ps" using assms(1,4) ch' by (auto simp: arena_def umb_linked_def)
  moreover have "allocs (mem ?s) ps = allocs (mem s) ps - {(p, m_size (mem s p), m_psp (mem s p))}"
    using fr by (auto simp: allocs_def)
  moreover have "chain_end (mem ?s) ps = chain_end (mem s) ps" by (simp add: chain_end_def freed_mcb_def)
  moreover have "DosMemFree p ?s = (Inr (), ?s)" using DosMemFree_chain [of ?s ps p] ch ch' assms(2) fr by simp
  ultimately show ?thesis using d by blast
qed

section \<open>A concrete arena\<close>

text \<open>Conventional memory \<open>0x100..0x18f\<close> and upper memory from \<open>0x190\<close>, linked or not.\<close>

definition demo_mcb :: "u8 \<Rightarrow> u16 \<Rightarrow> u16 \<Rightarrow> mcb" where
  "demo_mcb t w n = \<lparr>m_type = t, m_psp = w, m_size = n, m_name = replicate 8 0x20\<rparr>"

definition demo_mem :: "u16 \<Rightarrow> mem_state" where
  "demo_mem link = \<lparr>mem = (\<lambda>_. demo_mcb 0 0 0)
      (0x100 := demo_mcb MCB_NORMAL 8 0x0f, 0x110 := demo_mcb MCB_NORMAL 0 0x0f,
       0x120 := demo_mcb MCB_NORMAL 8 0x1f, 0x140 := demo_mcb MCB_NORMAL 0 0x3f,
       0x180 := demo_mcb (if link = 0 then MCB_LAST else MCB_NORMAL) 9 0x0f,
       0x190 := demo_mcb MCB_NORMAL 8 0x07, 0x198 := demo_mcb MCB_LAST 0 0x27),
     first_mcb = 0x100, uppermem_root = 0x190, uppermem_link = ucast link,
     mem_access_mode = 0, cu_psp = 8\<rparr>"

definition demo_low :: "u16 list" where "demo_low = [0x100, 0x110, 0x120, 0x140, 0x180]"
definition demo_high :: "u16 list" where "demo_high = [0x190, 0x198]"

lemmas demo_defs = demo_mem_def demo_mcb_def demo_low_def demo_high_def

lemma demo_arena: "arena (demo_mem 1) (demo_low @ demo_high)"
  by (simp add: demo_defs arena_def umb_linked_def mcbFree_def)

lemma demo_two_parts: "two_parts (demo_mem 0) demo_low demo_high"
  by (simp add: demo_defs two_parts_def chain_end_def)

lemma demo_runs: "runs (mem (demo_mem 1)) demo_high = [(0x198, 0x27)]"
  "runs (mem (demo_mem 1)) (demo_low @ demo_high) = [(0x110, 0x0f), (0x140, 0x3f), (0x198, 0x27)]"
  by (simp_all add: demo_defs runs.simps mcbFree_def)

lemma demo_fits:
  "fits 0x30 BEST_FIT_U (demo_mem 1) (demo_low @ demo_high) = []"
  "fits 0x30 BEST_FIT (demo_mem 1) (demo_low @ demo_high) = [(0x140, 0x3f)]"
  "fits 0x100 FIRST_FIT (demo_mem 1) (demo_low @ demo_high) = []"
  using demo_runs
  by (simp_all add: fits_def region_def scan_start_def demo_defs fit_modes umb_linked_def)

lemma demo_pass:
  "pass_mode 0x30 BEST_FIT_U (demo_mem 1) (demo_low @ demo_high) = BEST_FIT"
  "pass_mode 0x100 FIRST_FIT (demo_mem 1) (demo_low @ demo_high) = FIRST_FIT"
  using demo_fits by (simp_all add: pass_mode_def fit_modes umb_linked_def demo_mem_def)

theorem DosMemAlloc_succeeds_witness:
  "\<exists>r g s' qs. chosen BEST_FIT [(0x140, 0x3f)] r \<and> g = place BEST_FIT 0x30 r
     \<and> DosMemAlloc 0x30 BEST_FIT_U None (demo_mem 1) = Some (Inr g, None, s') \<and> arena s' qs
     \<and> chain_end (mem s') qs = chain_end (mem (demo_mem 1)) (demo_low @ demo_high)
     \<and> allocs (mem s') qs = insert (g, 0x30, cu_psp (demo_mem 1)) (allocs (mem (demo_mem 1)) (demo_low @ demo_high))
     \<and> (\<forall>n w. (g, n, w) \<notin> allocs (mem (demo_mem 1)) (demo_low @ demo_high))"
  using DosMemAlloc_succeeds [OF demo_arena, of BEST_FIT_U "0x30" None]
  by (simp add: demo_pass demo_fits) (simp add: fit_modes demo_mem_def)

theorem DosMemAlloc_fails_witness:
  "\<exists>s' qs a. DosMemAlloc 0x100 FIRST_FIT (Some 0) (demo_mem 1) = Some (Inl DE_NOMEM, Some a, s') \<and> arena s' qs
     \<and> unat a = 0x3f
     \<and> allocs (mem s') qs = allocs (mem (demo_mem 1)) (demo_low @ demo_high)
     \<and> chain_end (mem s') qs = chain_end (mem (demo_mem 1)) (demo_low @ demo_high)"
proof -
  have "region 0x100 FIRST_FIT (demo_mem 1) (demo_low @ demo_high) = demo_low @ demo_high"
    by (simp add: region_def scan_start_def demo_defs fit_modes umb_linked_def)
  then show ?thesis
    using DosMemAlloc_fails [OF demo_arena, of FIRST_FIT "0x100" "Some 0"]
    by (simp add: demo_pass demo_fits demo_runs largest_def set_out_def) (simp add: fit_modes)
qed

theorem DosMemChange_resizes_witness:
  "\<exists>s' qs. DosMemChange 0x101 0x14 None (demo_mem 1) = (Inr (), None, s') \<and> arena s' qs
     \<and> chain_end (mem s') qs = chain_end (mem (demo_mem 1)) (demo_low @ demo_high)
     \<and> allocs (mem s') qs = insert (0x100, 0x14, 8)
          (allocs (mem (demo_mem 1)) (demo_low @ demo_high) - {(0x100, 0x0f, 8)})"
proof -
  have r: "room (mem (demo_mem 1)) (demo_low @ demo_high) 0x100 = 0x1f"
    by (simp add: room_def demo_defs mcbFree_def)
  have v: "m_psp (mem (demo_mem 1) 0x100) = 8" "m_size (mem (demo_mem 1) 0x100) = 0x0f"
    "cu_psp (demo_mem 1) = 8" "0x100 \<in> set (demo_low @ demo_high)"
    by (simp_all add: demo_defs)
  show ?thesis
    using DosMemChange_resizes [OF demo_arena, of "0x101" "0x14" None] r v by simp
qed

theorem FreeProcessMem_frees_all_witness:
  "\<exists>s'. FreeProcessMem 0 0 8 (demo_mem 0) = Some (Inr (), s')
     \<and> two_parts s' demo_low demo_high \<and> uppermem_link s' = 0
     \<and> mcbFree (mem s' 0x100) \<and> mcbFree (mem s' 0x190) \<and> m_psp (mem s' 0x180) = 9"
proof -
  have "set demo_low \<inter> set demo_high = {}" by (simp add: demo_defs)
  from FreeProcessMem_frees_all [OF demo_two_parts this, of 0 0 8]
  obtain s' where s': "FreeProcessMem 0 0 8 (demo_mem 0) = Some (Inr (), s')"
    "two_parts s' demo_low demo_high" "uppermem_link s' = uppermem_link (demo_mem 0)"
    "mem s' = free_owned 8 (set demo_low \<union> set demo_high) (mem (demo_mem 0))" by blast
  show ?thesis
    by (rule exI [of _ s'])
      (use s' in \<open>simp add: demo_defs free_owned_def freed_mcb_def mcbFree_def\<close>)
qed

theorem DosMemFree_releases_witness:
  "\<exists>s'. DosMemFree 0x120 (demo_mem 1) = (Inr (), s') \<and> arena s' (demo_low @ demo_high)
     \<and> (0x120, 0x1f, 8) \<notin> allocs (mem s') (demo_low @ demo_high)
     \<and> DosMemFree 0x120 s' = (Inr (), s')"
  using DosMemFree_releases [OF demo_arena, of "0x120"]
  by (auto simp: demo_defs mcbFree_def)

end
