(* ===== verification/Char_Dev.thy ===== *)
theory Char_Dev
  imports Prelude
begin

text \<open>
  Requests to character devices: \<^verbatim>\<open>CharRequest\<close>, \<^verbatim>\<open>BinaryCharIO\<close>, \<^verbatim>\<open>CharIO\<close>, \<^verbatim>\<open>CharCmd\<close>,
  \<^verbatim>\<open>Busy\<close> and \<^verbatim>\<open>ndread\<close> of \<^verbatim>\<open>kernel/chario.c\<close> and \<^verbatim>\<open>char_error\<close> of \<^verbatim>\<open>kernel/error.c\<close>.
  A device driver is a parameter: a function on the request header, the transfer buffer and the
  state of the device. The critical error handler (INT 24h, a user program) answers from a
  list; when the list is exhausted the answer is \<open>FAIL\<close>.
\<close>

section \<open>Requests and drivers\<close>

record request =
  r_length :: u8
  r_unit :: u8
  r_command :: u8
  r_status :: u16
  r_count :: u16
  r_ndbyte :: u8
  r_nunits :: u8

type_synonym 'd driver = "request \<Rightarrow> bytes \<Rightarrow> 'd \<Rightarrow> request \<times> bytes \<times> 'd"

definition S_ERROR :: u16 where "S_ERROR = 0x8000"
definition S_BUSY :: u16 where "S_BUSY = 0x0200"
definition S_DONE :: u16 where "S_DONE = 0x0100"
definition S_MASK :: u16 where "S_MASK = 0x00ff"

definition E_LENGTH :: u16 where "E_LENGTH = 5"
definition E_FAILURE :: u16 where "E_FAILURE = 12"

definition C_INIT :: u8 where "C_INIT = 0x00"
definition C_INPUT :: u8 where "C_INPUT = 0x04"
definition C_NDREAD :: u8 where "C_NDREAD = 0x05"
definition C_ISTAT :: u8 where "C_ISTAT = 0x06"
definition C_IFLUSH :: u8 where "C_IFLUSH = 0x07"
definition C_OUTPUT :: u8 where "C_OUTPUT = 0x08"
definition C_OSTAT :: u8 where "C_OSTAT = 0x0a"
definition C_OFLUSH :: u8 where "C_OFLUSH = 0x0b"
definition C_OUB :: u8 where "C_OUB = 0x10"

lemmas status_bits = S_ERROR_def S_BUSY_def S_DONE_def S_MASK_def
lemmas dev_commands = C_INIT_def C_INPUT_def C_NDREAD_def C_ISTAT_def C_IFLUSH_def C_OUTPUT_def
  C_OSTAT_def C_OFLUSH_def C_OUB_def

definition failure :: "u16 \<Rightarrow> u16" where
  "failure x = S_ERROR + S_DONE + x"

definition req_size :: u8 where "req_size = 30"

section \<open>Critical errors\<close>

datatype crit_answer = CONTINUE | RETRY | ABORT | FAIL

record 'd char_env =
  CharReqHdr :: request
  CritErrCode :: u16
  answers :: "crit_answer list"
  dev :: 'd

definition char_error :: "'d char_env \<Rightarrow> crit_answer \<times> 'd char_env" where
  "char_error e =
     (let e1 = e\<lparr>CritErrCode := (r_status (CharReqHdr e) AND S_MASK) + 0x13\<rparr>
      in case answers e1 of
           [] \<Rightarrow> (FAIL, e1)
         | a # as \<Rightarrow> (a, e1\<lparr>answers := as\<rparr>))"

section \<open>CharRequest and its callers\<close>

text \<open>The result of \<^verbatim>\<open>CharRequest\<close>: an error, \<open>Inr True\<close> for 1 (retry), \<open>Inr False\<close> for 0.\<close>

definition CharRequest ::
  "'d driver \<Rightarrow> u8 \<Rightarrow> bytes \<Rightarrow> 'd char_env \<Rightarrow> (dos_error + bool) \<times> bytes \<times> 'd char_env" where
  "CharRequest drv cmd buf e =
     (let rq = (CharReqHdr e)\<lparr>r_command := cmd, r_unit := 0, r_status := 0, r_length := req_size\<rparr>;
          (rq1, buf1, d1) = drv rq buf (dev e);
          e1 = e\<lparr>CharReqHdr := rq1, dev := d1\<rparr>
      in if r_status rq1 AND S_ERROR \<noteq> 0 then
           (let (a, e2) = char_error e1
            in case a of
                 ABORT \<Rightarrow> (Inl DE_INVLDACC, buf1, e2)
               | FAIL \<Rightarrow> (Inl DE_INVLDACC, buf1, e2)
               | CONTINUE \<Rightarrow> (Inr False, buf1, e2\<lparr>CharReqHdr := (CharReqHdr e2)\<lparr>r_count := 0\<rparr>\<rparr>)
               | RETRY \<Rightarrow> (Inr True, buf1, e2))
         else (Inr False, buf1, e1))"

text \<open>Each retry uses up an answer, so the retry loops end.\<close>

lemma CharRequest_answers:
  "CharRequest drv cmd buf e = (Inr True, buf', e') \<Longrightarrow> length (answers e') < length (answers e)"
  by (auto simp: CharRequest_def char_error_def Let_def split: prod.splits if_splits
      crit_answer.splits list.splits)

function BinaryCharIO ::
  "'d driver \<Rightarrow> u16 \<Rightarrow> u8 \<Rightarrow> bytes \<Rightarrow> 'd char_env \<Rightarrow> (dos_error + u16) \<times> bytes \<times> 'd char_env" where
  "BinaryCharIO drv n cmd buf e =
     (case CharRequest drv cmd buf (e\<lparr>CharReqHdr := (CharReqHdr e)\<lparr>r_count := n\<rparr>\<rparr>) of
        (Inl err, buf1, e1) \<Rightarrow> (Inl err, buf1, e1)
      | (Inr True, buf1, e1) \<Rightarrow> BinaryCharIO drv n cmd buf1 e1
      | (Inr False, buf1, e1) \<Rightarrow> (Inr (r_count (CharReqHdr e1)), buf1, e1))"
  by pat_completeness auto
termination
  by (relation "measure (\<lambda>(drv, n, cmd, buf, e). length (answers e))")
    (auto dest!: CharRequest_answers [OF sym])

declare BinaryCharIO.simps [simp del]

function CharCmd :: "'d driver \<Rightarrow> u8 \<Rightarrow> 'd char_env \<Rightarrow> 'd char_env" where
  "CharCmd drv cmd e =
     (case CharRequest drv cmd [] e of
        (Inr True, _, e1) \<Rightarrow> CharCmd drv cmd e1
      | (_, _, e1) \<Rightarrow> e1)"
  by pat_completeness auto
termination
  by (relation "measure (\<lambda>(drv, cmd, e). length (answers e))") (auto dest!: CharRequest_answers [OF sym])

declare CharCmd.simps [simp del]

text \<open>
  \<^verbatim>\<open>CharIO\<close>: the character, 256 when nothing is transferred, or an error, which a count of \<open>0x8000\<close> or more
  becomes as well when the long result is cut to 16 bits.
\<close>

definition CharIO :: "'d driver \<Rightarrow> u8 \<Rightarrow> u8 \<Rightarrow> 'd char_env \<Rightarrow> int \<times> 'd char_env" where
  "CharIO drv ch cmd e =
     (case BinaryCharIO drv 1 cmd [ch] e of
        (Inl err, _, e1) \<Rightarrow> (errno err, e1)
      | (Inr k, buf1, e1) \<Rightarrow> (if k = 0 then 256 else if sint k < 0 then sint k else uint (hd buf1), e1))"

definition Busy :: "'d driver \<Rightarrow> 'd char_env \<Rightarrow> bool \<times> 'd char_env" where
  "Busy drv e =
     (let e1 = CharCmd drv C_NDREAD e;
          e2 = (if r_status (CharReqHdr e1) AND S_ERROR \<noteq> 0 then CharCmd drv C_ISTAT e1 else e1)
      in (r_status (CharReqHdr e2) AND S_BUSY \<noteq> 0, e2))"

definition con_flush :: "'d driver \<Rightarrow> 'd char_env \<Rightarrow> 'd char_env" where
  "con_flush drv e = CharCmd drv C_IFLUSH e"

definition ndread :: "'d driver \<Rightarrow> 'd char_env \<Rightarrow> u8 option \<times> 'd char_env" where
  "ndread drv e =
     (let e1 = CharCmd drv C_NDREAD e
      in (if r_status (CharReqHdr e1) AND S_BUSY \<noteq> 0 then None else Some (r_ndbyte (CharReqHdr e1)), e1))"

text \<open>A request the driver completes without an error asks nobody and is not repeated.\<close>

lemma BinaryCharIO_ok:
  assumes "drv ((CharReqHdr e)\<lparr>r_count := n, r_command := cmd, r_unit := 0, r_status := 0, r_length := req_size\<rparr>)
      buf (dev e) = (rq1, buf1, d1)"
    and "r_status rq1 AND S_ERROR = 0"
  shows "BinaryCharIO drv n cmd buf e = (Inr (r_count rq1), buf1, e\<lparr>CharReqHdr := rq1, dev := d1\<rparr>)"
  using assms by (subst BinaryCharIO.simps) (simp add: CharRequest_def)

end
