(* ===== verification/Dos_Time.thy ===== *)
theory Dos_Time
  imports Char_Dev "HOL-Library.Signed_Division"
begin

text \<open>
  Time and date: the DOS calls of \<^verbatim>\<open>kernel/systime.c\<close>, the built-in CLOCK$ driver of
  \<^verbatim>\<open>kernel/sysclk.c\<close> with \<^verbatim>\<open>drivers/rdpcclk.asm\<close>, \<^verbatim>\<open>wrpcclk.asm\<close> and \<^verbatim>\<open>wratclk.asm\<close>,
  its initialisation \<^verbatim>\<open>kernel/initclk.c\<close>, and the time stamps of \<^verbatim>\<open>kernel/fatfs.c\<close>. The BIOS
  services of INT 1Ah are parameters.
\<close>

section \<open>Data\<close>

record ClockRecord =
  clkDays :: u16
  clkMinutes :: u8
  clkHours :: u8
  clkHundredths :: u8
  clkSeconds :: u8

record dostime =
  minute :: u8
  hour :: u8
  hundredth :: u8
  second :: u8

record dosdate =
  year :: u16
  monthday :: u8
  month :: u8

text \<open>The six bytes of \<^verbatim>\<open>struct ClockRecord\<close>, which travel through the transfer buffer.\<close>

definition pack_clock :: "ClockRecord \<Rightarrow> bytes" where
  "pack_clock c = [lo8 (clkDays c), hi8 (clkDays c), clkMinutes c, clkHours c, clkHundredths c, clkSeconds c]"

definition unpack_clock :: "bytes \<Rightarrow> ClockRecord" where
  "unpack_clock b = \<lparr>clkDays = mk16 (b ! 0) (b ! 1), clkMinutes = b ! 2, clkHours = b ! 3,
     clkHundredths = b ! 4, clkSeconds = b ! 5\<rparr>"

lemma unpack_pack_clock [simp, layout_simps]: "unpack_clock (pack_clock c) = c"
  by (cases c) (simp add: unpack_clock_def pack_clock_def)

lemma length_pack_clock [simp]: "length (pack_clock c) = 6"
  by (simp add: pack_clock_def)

section \<open>The calendar\<close>

definition days :: "u16 list list" where
  "days = [[0, 31, 59, 90, 120, 151, 181, 212, 243, 273, 304, 334, 365],
           [0, 31, 60, 91, 121, 152, 182, 213, 244, 274, 305, 335, 366]]"

definition is_leap_year_monthdays :: "u16 \<Rightarrow> u16 list" where
  "is_leap_year_monthdays y = (if y AND 3 \<noteq> 0 \<or> y = 2100 then days ! 0 else days ! 1)"

definition DaysFromYearMonthDay :: "u16 \<Rightarrow> u16 \<Rightarrow> u16 \<Rightarrow> u16" where
  "DaysFromYearMonthDay Year Month DayOfMonth =
     (if Year < 1980 then 0
      else DayOfMonth - 1 + is_leap_year_monthdays Year ! unat (Month - 1)
           + (Year - 1980) * 365 + (Year - 1980 + 3) div 4)"

lemma monthdays_year: "is_leap_year_monthdays y ! 12 = 365 \<or> is_leap_year_monthdays y ! 12 = 366"
  by (simp add: is_leap_year_monthdays_def days_def)

text \<open>The loop that \<^verbatim>\<open>DosGetDate\<close> and the driver share: whole years are taken off.\<close>

function year_loop :: "u16 \<Rightarrow> u16 \<Rightarrow> u16 \<times> u16" where
  "year_loop Year c =
     (if is_leap_year_monthdays Year ! 12 \<le> c
      then year_loop (Year + 1) (c - is_leap_year_monthdays Year ! 12)
      else (Year, c))"
  by pat_completeness auto
termination
proof (relation "measure (\<lambda>(Year, c). unat c)")
  fix Year c :: u16
  assume le: "is_leap_year_monthdays Year ! 12 \<le> c"
  then have "unat (c - is_leap_year_monthdays Year ! 12) = unat c - unat (is_leap_year_monthdays Year ! 12)"
    by (simp add: unat_sub)
  moreover have "0 < unat (is_leap_year_monthdays Year ! 12)" using monthdays_year [of Year] by auto
  ultimately show "((Year + 1, c - is_leap_year_monthdays Year ! 12), Year, c) \<in> measure (\<lambda>(Year, c). unat c)"
    using le by (auto simp: word_le_nat_alt)
qed simp

declare year_loop.simps [simp del]

text \<open>The month loop of \<^verbatim>\<open>DosGetDate\<close>; reading past the table is \<open>None\<close>.\<close>

function month_loop :: "u16 list \<Rightarrow> u16 \<Rightarrow> nat \<Rightarrow> nat option" where
  "month_loop pdays c Month =
     (if length pdays \<le> Month then None
      else if pdays ! Month \<le> c then month_loop pdays c (Suc Month)
      else Some Month)"
  by pat_completeness auto
termination
  by (relation "measure (\<lambda>(pdays, c, Month). length pdays - Month)") auto

declare month_loop.simps [simp del]

section \<open>The BIOS clock services\<close>

text \<open>
  INT 1Ah, functions 0 (read the tick count and the midnight flag), 1 (set the tick count),
  3 and 5 (set the real-time clock).
\<close>

record 'b bios =
  bios_time :: "'b \<Rightarrow> u8 \<times> u32 \<times> 'b"
  bios_set_time :: "u32 \<Rightarrow> 'b \<Rightarrow> 'b"
  bios_set_rtc_time :: "u8 \<Rightarrow> u8 \<Rightarrow> u8 \<Rightarrow> 'b \<Rightarrow> 'b"
  bios_set_rtc_date :: "bytes \<Rightarrow> 'b \<Rightarrow> 'b"

record 'b clock_dev =
  DaysSinceEpoch :: u16
  bios_state :: 'b

definition ReadPCClock :: "'b bios \<Rightarrow> 'b clock_dev \<Rightarrow> u32 \<times> 'b clock_dev" where
  "ReadPCClock B d =
     (let (al, ticks, b1) = bios_time B (bios_state d)
      in (ticks, d\<lparr>DaysSinceEpoch := DaysSinceEpoch d + ucast al, bios_state := b1\<rparr>))"

definition WritePCClock :: "'b bios \<Rightarrow> u32 \<Rightarrow> 'b clock_dev \<Rightarrow> 'b clock_dev" where
  "WritePCClock B ticks d = d\<lparr>bios_state := bios_set_time B ticks (bios_state d)\<rparr>"

definition WriteATClock :: "'b bios \<Rightarrow> bytes \<Rightarrow> u8 \<Rightarrow> u8 \<Rightarrow> u8 \<Rightarrow> 'b clock_dev \<Rightarrow> 'b clock_dev" where
  "WriteATClock B bcdDays bcdHours bcdMinutes bcdSeconds d =
     d\<lparr>bios_state := bios_set_rtc_date B bcdDays
         (bios_set_rtc_time B bcdHours bcdMinutes bcdSeconds (bios_state d))\<rparr>"

section \<open>The clock driver\<close>

text \<open>\<open>int\<close> is 16 bits wide; the arguments here are not negative.\<close>

definition ByteToBcd :: "u16 \<Rightarrow> u8" where
  "ByteToBcd x = ucast (push_bit 4 (x div 10) OR (x mod 10))"

definition DayToBcd :: "u16 \<Rightarrow> u16 \<Rightarrow> u16 \<Rightarrow> bytes" where
  "DayToBcd mon day yr = [ByteToBcd day, ByteToBcd mon, ByteToBcd (yr mod 100), ByteToBcd (yr div 100)]"

text \<open>Ticks of the PC clock to hundredths of a second and back, in 32-bit arithmetic.\<close>

definition hundredths_of_ticks :: "u32 \<Rightarrow> u32" where
  "hundredths_of_ticks pc =
     (let ticks = 5 * pc in push_bit 16 (ticks div 59659) + push_bit 16 (ticks mod 59659) div 59659)"

definition ticks_of_hundredths :: "u32 \<Rightarrow> u32" where
  "ticks_of_hundredths hs =
     (drop_bit 16 hs * 59659 + drop_bit 16 ((hs AND 0xffff) * 59659)) div 5"

text \<open>The time fields: \<^verbatim>\<open>tmp\<close> is a (signed) \<^verbatim>\<open>int\<close>, and its quotients are cut to bytes.\<close>

definition clock_of_hundredths :: "u32 \<Rightarrow> u16 \<Rightarrow> ClockRecord" where
  "clock_of_hundredths ticks dse =
     (let tmp = sint (ucast (ticks div 6000) :: u16);
          tmp2 = sint (ucast (ticks mod 6000) :: u16)
      in \<lparr>clkDays = dse, clkMinutes = word_of_int (tmp smod 60), clkHours = word_of_int (tmp sdiv 60),
          clkHundredths = word_of_int (tmp2 smod 100), clkSeconds = word_of_int (tmp2 sdiv 100)\<rparr>)"

definition hundredths_of_clock :: "ClockRecord \<Rightarrow> u32" where
  "hundredths_of_clock clk =
     6000 * ucast (60 * ucast (clkHours clk) + ucast (clkMinutes clk) :: u16)
     + ucast (100 * ucast (clkSeconds clk) + ucast (clkHundredths clk) :: u16)"

text \<open>The month loop of the driver: \<^verbatim>\<open>Month\<close> ends at 13 and \<^verbatim>\<open>Day\<close> stays when nothing matches.\<close>

definition clk_month :: "u16 list \<Rightarrow> u16 \<Rightarrow> u16 \<times> u16" where
  "clk_month pdays Day =
     (case find (\<lambda>Month. Day < pdays ! Month) [1..<13] of
        Some Month \<Rightarrow> (of_nat Month, Day - pdays ! (Month - 1) + 1)
      | None \<Rightarrow> (13, Day))"

definition clk_output :: "'b bios \<Rightarrow> ClockRecord \<Rightarrow> 'b clock_dev \<Rightarrow> 'b clock_dev" where
  "clk_output B clk d =
     (let d1 = d\<lparr>DaysSinceEpoch := clkDays clk\<rparr>;
          d2 = WritePCClock B (ticks_of_hundredths (hundredths_of_clock clk)) d1;
          (Year, Day) = year_loop 1980 (clkDays clk);
          (Month, Day1) = clk_month (is_leap_year_monthdays Year) Day;
          bcd_days = DayToBcd Month Day1 Year
      in WriteATClock B bcd_days (ByteToBcd (ucast (clkHours clk))) (ByteToBcd (ucast (clkMinutes clk)))
           (ByteToBcd (ucast (clkSeconds clk))) d2)"

definition clk_driver :: "'b bios \<Rightarrow> 'b clock_dev driver" where
  "clk_driver B rq buf d =
     (if r_command rq = C_INIT then (rq\<lparr>r_nunits := 0, r_status := S_DONE\<rparr>, buf, d)
      else if r_command rq = C_INPUT then
        (if r_count rq \<noteq> 6 then (rq\<lparr>r_status := failure E_LENGTH\<rparr>, buf, d)
         else (let (pc, d1) = ReadPCClock B d
               in (rq\<lparr>r_status := S_DONE\<rparr>,
                   pack_clock (clock_of_hundredths (hundredths_of_ticks pc) (DaysSinceEpoch d1)), d1)))
      else if r_command rq = C_OUTPUT then
        (if r_count rq \<noteq> 6 then (rq\<lparr>r_status := failure E_LENGTH\<rparr>, buf, d)
         else (rq\<lparr>r_status := S_DONE\<rparr>, buf, clk_output B (unpack_clock buf) d))
      else if r_command rq = C_OFLUSH \<or> r_command rq = C_IFLUSH then (rq\<lparr>r_status := S_DONE\<rparr>, buf, d)
      else (rq\<lparr>r_status := failure E_FAILURE\<rparr>, buf, d))"

section \<open>The DOS calls\<close>

text \<open>
  The requests go through \<^verbatim>\<open>CharReqHdr\<close>, but the callers test \<^verbatim>\<open>ClkReqHdr\<close>, a second header
  that nothing writes: its status is a component of the state that never changes.
\<close>

record 'd time_state =
  env :: "'d char_env"
  ClkRecord :: ClockRecord
  ClkReqHdr_status :: u16

definition ExecuteClockDriverRequest :: "'d driver \<Rightarrow> u8 \<Rightarrow> 'd time_state \<Rightarrow> 'd time_state" where
  "ExecuteClockDriverRequest drv cmd s =
     (let (_, buf, e1) = BinaryCharIO drv 6 cmd (pack_clock (ClkRecord s)) (env s)
      in s\<lparr>env := e1, ClkRecord := unpack_clock buf\<rparr>)"

definition clk_failed :: "'d time_state \<Rightarrow> bool" where
  "clk_failed s \<longleftrightarrow> ClkReqHdr_status s AND S_ERROR \<noteq> 0"

definition DosGetTime :: "'d driver \<Rightarrow> dostime \<Rightarrow> 'd time_state \<Rightarrow> dostime \<times> 'd time_state" where
  "DosGetTime drv dt s =
     (let s1 = ExecuteClockDriverRequest drv C_INPUT s
      in if clk_failed s1 then (dt, s1)
         else (dt\<lparr>hour := clkHours (ClkRecord s1), minute := clkMinutes (ClkRecord s1),
                  second := clkSeconds (ClkRecord s1), hundredth := clkHundredths (ClkRecord s1)\<rparr>, s1))"

text \<open>
  On a failed write the setters return what the critical error handler answers; the \<open>Inl\<close> side
  keeps \<open>DE_INVLDDATA\<close>, the \<open>Inr\<close> side \<open>None\<close> for \<open>SUCCESS\<close> or that answer.
\<close>

definition clk_char_error :: "'d time_state \<Rightarrow> crit_answer \<times> 'd time_state" where
  "clk_char_error s =
     (let hdr = (CharReqHdr (env s))\<lparr>r_status := ClkReqHdr_status s\<rparr>;
          (a, e1) = char_error ((env s)\<lparr>CharReqHdr := hdr\<rparr>)
      in (a, s\<lparr>env := e1\<lparr>CharReqHdr := CharReqHdr (env s)\<rparr>\<rparr>))"

definition finish_set :: "'d time_state \<Rightarrow> (dos_error + crit_answer option) \<times> 'd time_state" where
  "finish_set s =
     (if clk_failed s then (let (a, s1) = clk_char_error s in (Inr (Some a), s1)) else (Inr None, s))"

definition DosSetTime :: "'d driver \<Rightarrow> dostime \<Rightarrow> 'd time_state \<Rightarrow> (dos_error + crit_answer option) \<times> 'd time_state" where
  "DosSetTime drv dt s =
     (if 23 < hour dt \<or> 59 < minute dt \<or> 59 < second dt \<or> 99 < hundredth dt then (Inl DE_INVLDDATA, s)
      else
        (let s1 = ExecuteClockDriverRequest drv C_INPUT s;
             s2 = s1\<lparr>ClkRecord := (ClkRecord s1)\<lparr>clkHours := hour dt, clkMinutes := minute dt,
                        clkSeconds := second dt, clkHundredths := hundredth dt\<rparr>\<rparr>
         in finish_set (ExecuteClockDriverRequest drv C_OUTPUT s2)))"

definition date_of_days :: "u16 \<Rightarrow> dosdate option" where
  "date_of_days clk =
     (let (Year, c) = year_loop 1980 clk;
          pdays = is_leap_year_monthdays Year
      in map_option (\<lambda>Month. \<lparr>year = Year, monthday = ucast (c - pdays ! (Month - 1) + 1), month = of_nat Month\<rparr>)
           (month_loop pdays c 1))"

text \<open>The result is the day of the week and the date; \<open>None\<close> would be a read past the month table.\<close>

definition DosGetDate :: "'d driver \<Rightarrow> dosdate \<Rightarrow> 'd time_state \<Rightarrow> (u8 \<times> dosdate \<times> 'd time_state) option" where
  "DosGetDate drv dd s =
     (let s1 = ExecuteClockDriverRequest drv C_INPUT s
      in if clk_failed s1 then Some (0, dd, s1)
         else map_option (\<lambda>dd1. (ucast ((clkDays (ClkRecord s1) + 2) mod 7), dd1, s1))
                (date_of_days (clkDays (ClkRecord s1))))"

definition valid_date :: "dosdate \<Rightarrow> bool" where
  "valid_date dd \<longleftrightarrow>
     (let pdays = is_leap_year_monthdays (year dd)
      in \<not> (year dd < 1980 \<or> 2099 < year dd \<or> month dd < 1 \<or> 12 < month dd \<or> monthday dd < 1
            \<or> ucast (monthday dd) > pdays ! unat (month dd) - pdays ! unat (month dd - 1)))"

definition DosSetDate :: "'d driver \<Rightarrow> dosdate \<Rightarrow> 'd time_state \<Rightarrow> (dos_error + crit_answer option) \<times> 'd time_state" where
  "DosSetDate drv dd s =
     (if \<not> valid_date dd then (Inl DE_INVLDDATA, s)
      else
        (let s1 = ExecuteClockDriverRequest drv C_INPUT s;
             s2 = s1\<lparr>ClkRecord := (ClkRecord s1)\<lparr>clkDays :=
                    DaysFromYearMonthDay (year dd) (ucast (month dd)) (ucast (monthday dd))\<rparr>\<rparr>
         in finish_set (ExecuteClockDriverRequest drv C_OUTPUT s2)))"

section \<open>Time stamps\<close>

definition time_encode :: "dostime \<Rightarrow> u16" where
  "time_encode t = push_bit 11 (ucast (hour t)) OR push_bit 5 (ucast (minute t)) OR drop_bit 1 (ucast (second t))"

definition DT_ENCODE :: "u16 \<Rightarrow> u16 \<Rightarrow> u16 \<Rightarrow> u16" where
  "DT_ENCODE m d y = push_bit 5 (m AND 0x0f) OR (d AND 0x1f) OR push_bit 9 (y AND 0x7f)"

text \<open>The local \<^verbatim>\<open>dd\<close> (\<^verbatim>\<open>dt\<close>) is not initialised: the first argument stands for its contents.\<close>

definition dos_getdate :: "dosdate \<Rightarrow> 'd driver \<Rightarrow> 'd time_state \<Rightarrow> (u16 \<times> 'd time_state) option" where
  "dos_getdate dd0 drv s =
     map_option (\<lambda>(_, dd, s1). (DT_ENCODE (ucast (month dd)) (ucast (monthday dd)) (year dd - 1980), s1))
       (DosGetDate drv dd0 s)"

definition dos_gettime :: "dostime \<Rightarrow> 'd driver \<Rightarrow> 'd time_state \<Rightarrow> u16 \<times> 'd time_state" where
  "dos_gettime dt0 drv s = (let (dt, s1) = DosGetTime drv dt0 s in (time_encode dt, s1))"

section \<open>Setting the clock at boot\<close>

definition InitBcdToByte :: "u16 \<Rightarrow> u16" where
  "InitBcdToByte x = (drop_bit 4 x AND 0xf) * 10 + (x AND 0xf)"

text \<open>
  The registers the BIOS returned: \<open>(ch, cl, dh)\<close> of the time call, \<open>(ch, cl, dh, dl)\<close> of the
  date call. The INT 21h calls reach \<^verbatim>\<open>DosSetDate\<close> and \<^verbatim>\<open>DosSetTime\<close>.
\<close>

definition init_date :: "u8 \<times> u8 \<times> u8 \<times> u8 \<Rightarrow> dosdate" where
  "init_date regsD =
     (let (ch, cl, dh, dl) = regsD;
          cx = 100 * InitBcdToByte (ucast ch) + InitBcdToByte (ucast cl);
          cx1 = (if 1900 \<le> cx \<and> cx < 1980 then cx + 100 else cx)
      in \<lparr>year = cx1, monthday = ucast (InitBcdToByte (ucast dl)), month = ucast (InitBcdToByte (ucast dh))\<rparr>)"

definition init_time :: "u8 \<times> u8 \<times> u8 \<Rightarrow> dostime" where
  "init_time regsT =
     (let (ch, cl, dh) = regsT
      in \<lparr>minute = ucast (InitBcdToByte (ucast cl)), hour = ucast (InitBcdToByte (ucast ch)),
          hundredth = 0, second = ucast (InitBcdToByte (ucast dh))\<rparr>)"

definition Init_clk_driver ::
  "u8 \<times> u8 \<times> u8 \<Rightarrow> u8 \<times> u8 \<times> u8 \<times> u8 \<Rightarrow> 'd driver \<Rightarrow> 'd time_state \<Rightarrow> 'd time_state" where
  "Init_clk_driver regsT regsD drv s =
     (let (_, s1) = DosSetDate drv (init_date regsD) s;
          (_, s2) = DosSetTime drv (init_time regsT) s1
      in s2)"

end
