(* ===== verification/Dos_Time_Props.thy ===== *)
theory Dos_Time_Props
  imports Dos_Time
begin

text \<open>
  The calendar arithmetic on natural numbers, the contract of a clock device as a locale with the
  built-in driver as its interpretation, and the properties of the time calls.
\<close>

section \<open>Years and months as numbers\<close>

definition leap :: "nat \<Rightarrow> bool" where
  "leap n \<longleftrightarrow> n mod 4 = 0 \<and> n \<noteq> 120"

definition year_len :: "nat \<Rightarrow> nat" where
  "year_len n = (if leap n then 366 else 365)"

text \<open>Days from 1 January 1980 to 1 January of year \<open>1980 + n\<close>.\<close>

definition year_start :: "nat \<Rightarrow> nat" where
  "year_start n = (\<Sum>i<n. year_len i)"

lemma year_start_Suc [simp]: "year_start (Suc n) = year_start n + year_len n"
  by (simp add: year_start_def)

lemma year_start_0 [simp]: "year_start 0 = 0"
  by (simp add: year_start_def)

lemma year_start_closed: "n \<le> 120 \<Longrightarrow> year_start n = n * 365 + (n + 3) div 4"
proof (induction n)
  case (Suc n)
  then have "year_start n = n * 365 + (n + 3) div 4" "n \<noteq> 120" by auto
  moreover have "(Suc n + 3) div 4 = (n + 3) div 4 + (if n mod 4 = 0 then 1 else 0)" by presburger
  ultimately show ?case by (simp add: year_len_def leap_def)
qed simp

lemma and3_unat: "(y :: u16) AND 3 = 0 \<longleftrightarrow> unat y mod 4 = 0"
proof -
  have "(3 :: u16) = mask 2" by (simp add: mask_eq_exp_minus_1)
  then have "y AND 3 = y mod 4" using word_and_mask_mod [of y 2] by simp
  moreover have "unat (y mod 4) = unat y mod 4" by (simp add: unat_mod)
  ultimately show ?thesis by (simp add: unat_eq_0 [symmetric])
qed

definition yr :: "nat \<Rightarrow> u16" where "yr n = of_nat (1980 + n)"

lemma unat_yr: "n < 1000 \<Longrightarrow> unat (yr n) = 1980 + n"
  by (simp add: yr_def unat16_of_nat del: of_nat_add)

lemma yr_Suc: "yr n + 1 = yr (Suc n)"
  by (simp add: yr_def)

lemma monthdays_yr:
  assumes "n < 1000"
  shows "is_leap_year_monthdays (yr n) = (if leap n then days ! 1 else days ! 0)"
proof -
  have "yr n = 2100 \<longleftrightarrow> n = 120" using unat_yr [OF assms] by (simp add: unat_eq_iff)
  moreover have "yr n AND 3 = 0 \<longleftrightarrow> n mod 4 = 0"
    unfolding and3_unat unat_yr [OF assms] by presburger
  ultimately show ?thesis by (simp add: is_leap_year_monthdays_def leap_def)
qed

lemma monthdays_year_len: "n < 1000 \<Longrightarrow> unat (is_leap_year_monthdays (yr n) ! 12) = year_len n"
  by (simp add: monthdays_yr year_len_def days_def)

lemma year_len_pos: "365 \<le> year_len n"
  by (simp add: year_len_def)

text \<open>The year loop, on any day count: it stops in the year that contains the day.\<close>

lemma year_loop_yr:
  assumes "n + unat c div 365 < 999"
  shows "\<exists>m k. year_loop (yr n) c = (yr m, k) \<and> n \<le> m \<and> m < 999 \<and> unat k < year_len m
     \<and> year_start n + unat c = year_start m + unat k"
  using assms
proof (induction "unat c" arbitrary: n c rule: less_induct)
  case less
  let ?l = "is_leap_year_monthdays (yr n) ! 12"
  have n: "n < 1000" using less.prems by linarith
  note len = monthdays_year_len [OF n]
  show ?case
  proof (cases "?l \<le> c")
    case False
    then have "year_loop (yr n) c = (yr n, c)" by (subst year_loop.simps) simp
    then show ?thesis using False len less.prems by (auto simp: word_le_nat_alt)
  next
    case True
    then have u: "unat (c - ?l) = unat c - year_len n" and le: "year_len n \<le> unat c"
      using len by (simp_all add: unat_sub word_le_nat_alt)
    have lt: "unat (c - ?l) < unat c" using u le year_len_pos [of n] by linarith
    have "unat (c - ?l) + 365 \<le> unat c" using u le year_len_pos [of n] by linarith
    then have "Suc n + unat (c - ?l) div 365 < 999" using less.prems by linarith
    from less.hyps [OF lt this]
    obtain m k where mk: "year_loop (yr (Suc n)) (c - ?l) = (yr m, k)" "Suc n \<le> m" "m < 999"
      "unat k < year_len m" "year_start (Suc n) + unat (c - ?l) = year_start m + unat k" by blast
    have "year_loop (yr n) c = (yr m, k)"
      using True mk(1) by (subst year_loop.simps) (simp add: yr_Suc)
    moreover have "year_start n + unat c = year_start m + unat k" using mk(5) u le by simp
    ultimately show ?thesis using mk(2-4) by (intro exI [of _ m] exI [of _ k]) simp
  qed
qed

lemma year_start_mono: "n \<le> m \<Longrightarrow> year_start n \<le> year_start m"
  by (induction rule: dec_induct) auto

lemma year_split_unique:
  assumes "year_start n + j = year_start m + k" "j < year_len n" "k < year_len m"
  shows "n = m \<and> j = k"
proof (cases n m rule: linorder_cases)
  case less
  then have "year_start (Suc n) \<le> year_start m" by (intro year_start_mono) simp
  then show ?thesis using assms by simp
next
  case greater
  then have "year_start (Suc m) \<le> year_start n" by (intro year_start_mono) simp
  then show ?thesis using assms by simp
qed (use assms in simp)

lemma year_loop_1980:
  assumes "j < year_len n" "year_start n + j < 65536"
  shows "year_loop 1980 (of_nat (year_start n + j)) = (yr n, of_nat j)"
proof -
  let ?c = "of_nat (year_start n + j) :: u16"
  have c: "unat ?c = year_start n + j" using assms(2) by (rule unat16_of_nat)
  have "0 + unat ?c div 365 < 999" using assms(2) c by simp
  then obtain m k where mk: "year_loop (yr 0) ?c = (yr m, k)" "unat k < year_len m"
    "year_start 0 + unat ?c = year_start m + unat k"
    using year_loop_yr [of 0 ?c] by blast
  have "year_start n + j = year_start m + unat k" using mk(3) unfolding c by simp
  from year_split_unique [OF this assms(1) mk(2)] have nm: "yr n = yr m" "of_nat j = k" by auto
  have "yr 0 = 1980" by (simp add: yr_def)
  then show ?thesis using mk(1) unfolding nm by simp
qed

section \<open>Dates and day numbers\<close>

text \<open>The month table as numbers: \<open>mstart n M\<close> days of the year come before month \<open>M + 1\<close>.\<close>

definition mstart :: "nat \<Rightarrow> nat \<Rightarrow> nat" where
  "mstart n M = unat (is_leap_year_monthdays (yr n) ! M)"

lemma month_cases: "1 \<le> (M :: nat) \<Longrightarrow> M \<le> 12 \<Longrightarrow>
  M = 1 \<or> M = 2 \<or> M = 3 \<or> M = 4 \<or> M = 5 \<or> M = 6 \<or> M = 7 \<or> M = 8 \<or> M = 9 \<or> M = 10 \<or> M = 11 \<or> M = 12"
  by presburger

lemma days_nth:
  "days ! 0 = [0, 31, 59, 90, 120, 151, 181, 212, 243, 273, 304, 334, 365]"
  "days ! Suc 0 = [0, 31, 60, 91, 121, 152, 182, 213, 244, 274, 305, 335, 366]"
  by (simp_all add: days_def)

lemma month_loop_found:
  assumes "\<And>i. M0 \<le> i \<Longrightarrow> i < M \<Longrightarrow> pd ! i \<le> c" "c < pd ! M" "M < length pd" "M0 \<le> M"
  shows "month_loop pd c M0 = Some M"
  using assms
proof (induction "M - M0" arbitrary: M0)
  case 0
  then have "M0 = M" by simp
  then show ?case using 0 by (subst month_loop.simps) (auto simp: not_le)
next
  case (Suc x)
  then have "M0 < M" "pd ! M0 \<le> c" by auto
  moreover have "month_loop pd c (Suc M0) = Some M" using Suc \<open>M0 < M\<close> by (intro Suc.hyps) auto
  ultimately show ?case using Suc.prems by (subst month_loop.simps) auto
qed

text \<open>Every day of a year is found in exactly one month.\<close>

lemma month_of_day:
  assumes "n < 1000" "unat c < year_len n"
  shows "\<exists>M. 1 \<le> M \<and> M \<le> 12 \<and> month_loop (is_leap_year_monthdays (yr n)) c 1 = Some M
    \<and> is_leap_year_monthdays (yr n) ! (M - 1) \<le> c \<and> c < is_leap_year_monthdays (yr n) ! M"
proof -
  let ?pd = "is_leap_year_monthdays (yr n)"
  have pd: "?pd = days ! 0 \<or> ?pd = days ! 1" by (simp add: is_leap_year_monthdays_def)
  have len: "length ?pd = 13" and z: "?pd ! 0 = 0" using pd by (auto simp: days_nth)
  have "c < ?pd ! 12" using assms monthdays_year_len [OF assms(1)] by (simp add: word_less_nat_alt)
  then have ex: "\<exists>M. c < ?pd ! M" by blast
  define M where "M = (LEAST M. c < ?pd ! M)"
  have M: "c < ?pd ! M" unfolding M_def using ex by (rule LeastI_ex)
  have below: "?pd ! i \<le> c" if "i < M" for i
    using not_less_Least [of i "\<lambda>M. c < ?pd ! M"] that unfolding M_def by (simp add: not_less)
  have M12: "M \<le> 12" unfolding M_def by (rule Least_le) fact
  have M1: "1 \<le> M" using M z by (cases M) auto
  have "month_loop ?pd c 1 = Some M" using M below len M12 M1 by (intro month_loop_found) auto
  then show ?thesis using M M1 M12 below [of "M - 1"] by auto
qed

lemma monthdays_props:
  shows "length (is_leap_year_monthdays y) = 13" and "is_leap_year_monthdays y ! 0 = 0"
    and "sorted (map unat (is_leap_year_monthdays y))"
    and "1 \<le> M \<Longrightarrow> M \<le> 12 \<Longrightarrow>
      unat (is_leap_year_monthdays y ! (M - 1)) + 28 \<le> unat (is_leap_year_monthdays y ! M)
      \<and> unat (is_leap_year_monthdays y ! M) \<le> unat (is_leap_year_monthdays y ! (M - 1)) + 31"
proof -
  have pd: "is_leap_year_monthdays y = days ! 0 \<or> is_leap_year_monthdays y = days ! Suc 0"
    by (simp add: is_leap_year_monthdays_def)
  then show "length (is_leap_year_monthdays y) = 13" "is_leap_year_monthdays y ! 0 = 0"
    "sorted (map unat (is_leap_year_monthdays y))"
    by (auto simp: days_nth)
  show "unat (is_leap_year_monthdays y ! (M - 1)) + 28 \<le> unat (is_leap_year_monthdays y ! M)
      \<and> unat (is_leap_year_monthdays y ! M) \<le> unat (is_leap_year_monthdays y ! (M - 1)) + 31"
    if "1 \<le> M" "M \<le> 12"
    using month_cases [OF that] pd by (elim disjE) (simp_all add: days_nth)
qed

lemma monthdays_mono:
  "i \<le> j \<Longrightarrow> j \<le> 12 \<Longrightarrow> unat (is_leap_year_monthdays y ! i) \<le> unat (is_leap_year_monthdays y ! j)"
  using sorted_nth_mono [OF monthdays_props(3) [of y], of i j] monthdays_props(1) [of y] by simp

lemma div4_word:
  assumes "n < 1000"
  shows "(of_nat n + 3) div 4 = (of_nat ((n + 3) div 4) :: u16)"
proof -
  have "unat ((of_nat n + 3) div 4 :: u16) = unat (of_nat (n + 3) :: u16) div 4"
    by (simp add: unat_div)
  also have "\<dots> = (n + 3) div 4" using assms by (simp add: unat16_of_nat del: of_nat_add)
  finally show ?thesis using assms by (simp add: unat_eq_iff unat16_of_nat)
qed

lemma DaysFromYearMonthDay_yr:
  assumes "n < 120" "1 \<le> D"
  shows "DaysFromYearMonthDay (yr n) m (of_nat D)
    = of_nat (year_start n + (unat (is_leap_year_monthdays (yr n) ! unat (m - 1)) + (D - 1)))"
proof -
  have "\<not> yr n < 1980" using assms unat_yr [of n] by (simp add: word_less_nat_alt)
  moreover have "yr n - 1980 = of_nat n" by (simp add: yr_def)
  moreover have "of_nat D - 1 = (of_nat (D - 1) :: u16)" using assms(2) by (simp add: of_nat_diff)
  ultimately show ?thesis
    using assms(1) by (simp add: DaysFromYearMonthDay_def div4_word year_start_closed)
qed

text \<open>The date functions are inverse to each other for the years DOS accepts.\<close>

lemma date_of_days_parts:
  "\<exists>n k M. date_of_days d = Some \<lparr>year = yr n, monthday = ucast (k - is_leap_year_monthdays (yr n) ! (M - 1) + 1),
       month = of_nat M\<rparr> \<and> n < 999 \<and> 1 \<le> M \<and> M \<le> 12 \<and> unat k < year_len n
     \<and> unat d = year_start n + unat k
     \<and> is_leap_year_monthdays (yr n) ! (M - 1) \<le> k \<and> k < is_leap_year_monthdays (yr n) ! M"
proof -
  have "0 + unat d div 365 < 999" using unat16_lt [of d] by linarith
  then obtain n k where nk: "year_loop (yr 0) d = (yr n, k)" "n < 999" "unat k < year_len n"
    "unat d = year_start n + unat k"
    using year_loop_yr [of 0 d] by auto
  obtain M where "1 \<le> M" "M \<le> 12" "month_loop (is_leap_year_monthdays (yr n)) k 1 = Some M"
    "is_leap_year_monthdays (yr n) ! (M - 1) \<le> k" "k < is_leap_year_monthdays (yr n) ! M"
    using month_of_day [of n k] nk(2,3) by auto
  moreover have "yr 0 = 1980" by (simp add: yr_def)
  ultimately show ?thesis using nk by (intro exI [of _ n] exI [of _ k] exI [of _ M]) (simp add: date_of_days_def)
qed

lemma month_word:
  assumes "1 \<le> M" "M \<le> 12"
  shows "unat (of_nat M :: u8) = M" "unat (ucast (of_nat M :: u8) - 1 :: u16) = M - 1"
    "unat (of_nat M - 1 :: u8) = M - 1"
  using month_cases [OF assms] by (elim disjE; simp)+

lemma monthday_word:
  assumes "unat (a :: u16) \<le> unat k" "unat k < unat a + 31"
  shows "unat (ucast (k - a + 1) :: u8) = unat k - unat a + 1"
    and "ucast (ucast (k - a + 1) :: u8) = k - a + 1"
proof -
  have s: "unat (k - a) = unat k - unat a" using assms(1) by (simp add: unat_sub word_le_nat_alt)
  have u: "unat (k - a + 1) = unat k - unat a + 1" using s assms(2) by (subst unat_add_no_wrap) simp_all
  then show v: "unat (ucast (k - a + 1) :: u8) = unat k - unat a + 1"
    using assms(2) by (simp add: unat_ucast_16_8)
  show "ucast (ucast (k - a + 1) :: u8) = k - a + 1"
    using u v by (simp add: unat_eq_iff)
qed

lemma valid_date_parts:
  assumes "valid_date dd"
  shows "\<exists>n M D. dd = \<lparr>year = yr n, monthday = of_nat D, month = of_nat M\<rparr> \<and> n < 120
    \<and> 1 \<le> M \<and> M \<le> 12 \<and> 1 \<le> D \<and> D < 32
    \<and> unat (is_leap_year_monthdays (yr n) ! (M - 1)) + D \<le> unat (is_leap_year_monthdays (yr n) ! M)"
proof -
  define n M D where "n = unat (year dd) - 1980" and "M = unat (month dd)" and "D = unat (monthday dd)"
  have y: "1980 \<le> unat (year dd)" "unat (year dd) \<le> 2099" "1 \<le> M" "M \<le> 12" "1 \<le> D"
    using assms by (simp_all add: valid_date_def Let_def word_less_nat_alt n_def M_def D_def not_less Suc_leI)
  then have n: "n < 120" "year dd = yr n"
    by (auto simp: n_def yr_def)
  have m1: "unat (month dd - 1) = M - 1" using y(3) by (subst unat_sub) (simp_all add: M_def word_le_nat_alt)
  note mp = monthdays_props(4) [OF y(3,4), of "yr n"]
  have "ucast (monthday dd) \<le> is_leap_year_monthdays (yr n) ! M - is_leap_year_monthdays (yr n) ! (M - 1)"
    using assms m1 n(2) by (simp add: valid_date_def Let_def M_def not_less)
  then have "D \<le> unat (is_leap_year_monthdays (yr n) ! M) - unat (is_leap_year_monthdays (yr n) ! (M - 1))"
    using mp by (simp add: word_le_nat_alt D_def unat_sub)
  then have "unat (is_leap_year_monthdays (yr n) ! (M - 1)) + D \<le> unat (is_leap_year_monthdays (yr n) ! M)" "D < 32"
    using mp by linarith+
  moreover have "dd = \<lparr>year = yr n, monthday = of_nat D, month = of_nat M\<rparr>"
    using n(2) by (cases dd) (simp add: D_def M_def)
  ultimately show ?thesis using n(1) y by blast
qed

lemma date_of_DaysFromYearMonthDay:
  assumes "valid_date dd"
  shows "date_of_days (DaysFromYearMonthDay (year dd) (ucast (month dd)) (ucast (monthday dd))) = Some dd"
proof -
  obtain n M D where dd: "dd = \<lparr>year = yr n, monthday = of_nat D, month = of_nat M\<rparr>" and n: "n < 120"
    and M: "1 \<le> M" "M \<le> 12" and D: "1 \<le> D" "D < 32"
    and le: "unat (is_leap_year_monthdays (yr n) ! (M - 1)) + D \<le> unat (is_leap_year_monthdays (yr n) ! M)"
    using valid_date_parts [OF assms] by blast
  let ?pd = "is_leap_year_monthdays (yr n)"
  define j where "j = unat (?pd ! (M - 1)) + (D - 1)"
  have uD: "ucast (of_nat D :: u8) = (of_nat D :: u16)" using D by (simp add: unat_eq_iff unat8_of_nat unat16_of_nat)
  have d: "DaysFromYearMonthDay (year dd) (ucast (month dd)) (ucast (monthday dd)) = of_nat (year_start n + j)"
    using DaysFromYearMonthDay_yr [OF n D(1)] month_word(2) [OF M] uD by (simp add: dd j_def)
  have jM: "j < unat (?pd ! M)" using le D(1) by (simp add: j_def)
  have jl: "j < year_len n"
    using jM monthdays_mono [OF M(2), of "yr n"] monthdays_year_len [of n] n by simp
  have s: "year_start n + j < 65536" using jl n year_start_closed [of n] by (simp add: year_len_def split: if_splits)
  have uj: "unat (of_nat j :: u16) = j" using s by (simp add: unat16_of_nat)
  have ml: "month_loop ?pd (of_nat j) 1 = Some M"
  proof (rule month_loop_found)
    show "?pd ! i \<le> of_nat j" if "1 \<le> i" "i < M" for i
    proof -
      have "i \<le> M - 1" "M - 1 \<le> 12" using that M by linarith+
      then show ?thesis
        unfolding word_le_nat_alt uj using monthdays_mono [of i "M - 1" "yr n"] by (simp add: j_def)
    qed
  qed (use jM uj M monthdays_props(1) in \<open>auto simp: word_less_nat_alt\<close>)
  have "of_nat j - ?pd ! (M - 1) + 1 = of_nat D"
  proof -
    have "of_nat j = ?pd ! (M - 1) + of_nat (D - 1)" by (simp add: j_def)
    then show ?thesis using D(1) by (simp add: of_nat_diff)
  qed
  moreover have "ucast (of_nat D :: u16) = (of_nat D :: u8)"
    using D by (simp add: unat_eq_iff unat_ucast_16_8 unat8_of_nat unat16_of_nat)
  ultimately show ?thesis
    unfolding d using year_loop_1980 [OF jl s] ml by (simp add: date_of_days_def dd)
qed

lemma DaysFromYearMonthDay_of_date:
  assumes "date_of_days d = Some dd" "unat d < year_start 120"
  shows "DaysFromYearMonthDay (year dd) (ucast (month dd)) (ucast (monthday dd)) = d \<and> valid_date dd"
proof -
  obtain n k M where dd: "dd = \<lparr>year = yr n, monthday = ucast (k - is_leap_year_monthdays (yr n) ! (M - 1) + 1),
       month = of_nat M\<rparr>" and M: "1 \<le> M" "M \<le> 12" and k: "unat k < year_len n"
     "unat d = year_start n + unat k" "is_leap_year_monthdays (yr n) ! (M - 1) \<le> k"
     "k < is_leap_year_monthdays (yr n) ! M"
    using date_of_days_parts [of d] assms(1) by auto
  let ?a = "is_leap_year_monthdays (yr n) ! (M - 1)"
  have n: "n < 120"
  proof (rule ccontr)
    assume "\<not> n < 120"
    then have "year_start 120 \<le> year_start n" by (intro year_start_mono) simp
    then show False using assms(2) k(2) by simp
  qed
  note mp = monthdays_props(4) [OF M, of "yr n"]
  have b: "unat ?a \<le> unat k" "unat k < unat ?a + 31"
    using k(3,4) mp by (simp_all add: word_le_nat_alt word_less_nat_alt)
  note mw = monthday_word [OF b]
  define D where "D = unat k - unat ?a + 1"
  have D: "1 \<le> D" "unat ?a + (D - 1) = unat k" using b by (simp_all add: D_def)
  have s: "unat (k - ?a) = unat k - unat ?a" using b(1) by (simp add: unat_sub word_le_nat_alt)
  have u: "unat (k - ?a + 1) = D" using s b(2) by (subst unat_add_no_wrap) (simp_all add: D_def)
  have kD: "k - ?a + 1 = of_nat D" unfolding u [symmetric] by simp
  have "DaysFromYearMonthDay (yr n) (ucast (of_nat M :: u8)) (of_nat D) = of_nat (year_start n + unat k)"
    using DaysFromYearMonthDay_yr [OF n D(1), of "ucast (of_nat M :: u8)"] unfolding month_word(2) [OF M] D(2) .
  also have "\<dots> = d" unfolding k(2) [symmetric] by simp
  finally have 1: "DaysFromYearMonthDay (year dd) (ucast (month dd)) (ucast (monthday dd)) = d"
    using mw(2) kD by (simp add: dd)
  have yr: "1980 \<le> unat (yr n)" "unat (yr n) \<le> 2099" using unat_yr [of n] n by simp_all
  have u8: "unat (ucast (k - ?a + 1) :: u8) = D" using mw(1) by (simp add: D_def)
  have "unat (is_leap_year_monthdays (yr n) ! M - ?a) = unat (is_leap_year_monthdays (yr n) ! M) - unat ?a"
    using mp by (simp add: unat_sub word_le_nat_alt)
  moreover have "D \<le> unat (is_leap_year_monthdays (yr n) ! M) - unat ?a"
    using k(4) b(1) by (simp add: D_def word_less_nat_alt)
  ultimately have fit: "\<not> is_leap_year_monthdays (yr n) ! M - ?a < k - ?a + 1"
    using u by (simp add: word_less_nat_alt)
  have "\<not> yr n < 1980" "\<not> 2099 < yr n" using yr by (simp_all add: word_less_nat_alt)
  moreover have "\<not> (of_nat M :: u8) < 1" "\<not> 12 < (of_nat M :: u8)"
    using month_word(1) [OF M] M by (simp_all add: word_less_nat_alt)
  moreover have "\<not> (ucast (k - ?a + 1) :: u8) < 1" using u8 D(1) by (simp add: word_less_nat_alt)
  ultimately have "valid_date dd"
    using fit month_word [OF M] mw(2) by (simp add: dd valid_date_def Let_def)
  with 1 show ?thesis by simp
qed

section \<open>Ticks and hundredths\<close>

lemma ticks_unat:
  assumes "unat hs < 8640000"
  shows "unat (ticks_of_hundredths hs) = (unat hs * 59659 div 65536) div 5"
proof -
  let ?a = "unat hs div 65536" and ?b = "unat hs mod 65536"
  have ab: "?a < 132" "?b < 65536" using assms by auto
  have a: "unat (drop_bit 16 hs) = ?a" by (simp add: unat_drop_bit)
  have "(0xffff :: u32) = mask 16" by (simp add: mask_eq_exp_minus_1)
  then have "hs AND 0xffff = hs mod 65536" using word_and_mask_mod [of hs 16] by simp
  then have b: "unat (hs AND 0xffff) = ?b" by (simp add: unat_mod)
  have "unat ((hs AND 0xffff) * 59659) = ?b * 59659" using ab(2) b by (subst unat_mult_no_wrap) simp_all
  then have lo: "unat (drop_bit 16 ((hs AND 0xffff) * 59659)) = ?b * 59659 div 65536" by (simp add: unat_drop_bit)
  have hi: "unat (drop_bit 16 hs * 59659) = ?a * 59659" using ab(1) a by (subst unat_mult_no_wrap) simp_all
  have "?b * 59659 div 65536 < 65536" using ab(2) by (simp add: div_less_iff_less_mult)
  then have "unat (drop_bit 16 hs * 59659 + drop_bit 16 ((hs AND 0xffff) * 59659)) = ?a * 59659 + ?b * 59659 div 65536"
    using hi lo ab(1) by (subst unat_add_no_wrap) simp_all
  also have "\<dots> = unat hs * 59659 div 65536"
  proof -
    have "unat hs * 59659 = (?a * 65536 + ?b) * 59659" by simp
    also have "\<dots> = (?a * 59659) * 65536 + ?b * 59659" by (simp only: add_mult_distrib)
    finally show ?thesis by (metis div_mult_self3 zero_neq_numeral add.commute)
  qed
  finally show ?thesis by (simp add: ticks_of_hundredths_def unat_div)
qed

lemma hundredths_unat:
  assumes "unat pc < 1573042"
  shows "unat (hundredths_of_ticks pc) = 5 * unat pc * 65536 div 59659"
proof -
  let ?t = "5 * unat pc"
  have t: "unat (5 * pc) = ?t" using assms by (subst unat_mult_no_wrap) simp_all
  have q: "?t div 59659 < 132" using assms by auto
  have r: "?t mod 59659 < 59659" by simp
  have "unat (push_bit 16 (5 * pc div 59659)) = (?t div 59659) * 65536"
    using q t by (subst unat_push_bit_no_wrap) (simp_all add: unat_div)
  moreover have "unat (push_bit 16 (5 * pc mod 59659)) = (?t mod 59659) * 65536"
    using r t by (subst unat_push_bit_no_wrap) (simp_all add: unat_mod)
  then have "unat (push_bit 16 (5 * pc mod 59659) div 59659) = (?t mod 59659) * 65536 div 59659"
    by (simp add: unat_div)
  moreover have "(?t mod 59659) * 65536 div 59659 < 65536" using r by (simp add: div_less_iff_less_mult)
  ultimately have "unat (hundredths_of_ticks pc) = (?t div 59659) * 65536 + (?t mod 59659) * 65536 div 59659"
    using q unfolding hundredths_of_ticks_def Let_def by (subst unat_add_no_wrap) simp_all
  also have "\<dots> = ?t * 65536 div 59659"
  proof -
    have "?t * 65536 = ((?t div 59659) * 59659 + ?t mod 59659) * 65536" by simp
    also have "\<dots> = ((?t div 59659) * 65536) * 59659 + (?t mod 59659) * 65536"
      by (simp only: add_mult_distrib)
    finally show ?thesis by (metis div_mult_self3 zero_neq_numeral add.commute)
  qed
  finally show ?thesis .
qed

lemma scale_bounds:
  fixes h :: nat
  defines "t \<equiv> 5 * ((h * 59659 div 65536) div 5)"
  shows "t * 65536 div 59659 \<le> h" and "h \<le> t * 65536 div 59659 + 6"
proof -
  define X q Y where "X = h * 59659 div 65536" and "q = X div 5" and "Y = t * 65536 div 59659"
  have "65536 * X \<le> h * 59659" "h * 59659 < 65536 * X + 65536"
    unfolding X_def by (rule div_bounds; simp)+
  moreover have "5 * q \<le> X" "X < 5 * q + 5" unfolding q_def by (rule div_bounds; simp)+
  moreover have "59659 * Y \<le> t * 65536" "t * 65536 < 59659 * Y + 59659"
    unfolding Y_def by (rule div_bounds; simp)+
  moreover have "t = 5 * q" by (simp add: t_def X_def q_def)
  ultimately have "Y \<le> h" "h \<le> Y + 6" by linarith+
  then show "t * 65536 div 59659 \<le> h" "h \<le> t * 65536 div 59659 + 6" by (simp_all add: Y_def)
qed

text \<open>A time of day as a number of hundredths, and the fields of the clock record.\<close>

definition clock_hs :: "ClockRecord \<Rightarrow> nat" where
  "clock_hs c = 6000 * (60 * unat (clkHours c) + unat (clkMinutes c)) + 100 * unat (clkSeconds c)
     + unat (clkHundredths c)"

definition time_hs :: "dostime \<Rightarrow> nat" where
  "time_hs t = 6000 * (60 * unat (hour t) + unat (minute t)) + 100 * unat (second t) + unat (hundredth t)"

lemma hundredths_of_clock_unat: "unat (hundredths_of_clock c) = clock_hs c"
proof -
  let ?H = "unat (clkHours c)" and ?M = "unat (clkMinutes c)" and ?S = "unat (clkSeconds c)"
    and ?U = "unat (clkHundredths c)"
  have l: "?H < 256" "?M < 256" "?S < 256" "?U < 256" by (rule unat8_lt)+
  have b: "60 * ?H < 65536" "100 * ?S < 65536" "60 * ?H + ?M < 65536" "100 * ?S + ?U < 65536"
    using l by linarith+
  have "6000 * (60 * ?H + ?M) = 360000 * ?H + 6000 * ?M" by simp
  then have b5: "6000 * (60 * ?H + ?M) + (100 * ?S + ?U) < 4294967296" using l by linarith
  then have b6: "6000 * (60 * ?H + ?M) < 4294967296" by linarith
  have m1: "unat (60 * ucast (clkHours c) :: u16) = 60 * ?H"
    using b(1) by (subst unat_mult_no_wrap) simp_all
  have m2: "unat (100 * ucast (clkSeconds c) :: u16) = 100 * ?S"
    using b(2) by (subst unat_mult_no_wrap) simp_all
  have a1: "unat (60 * ucast (clkHours c) + ucast (clkMinutes c) :: u16) = 60 * ?H + ?M"
    using b(3) m1 by (subst unat_add_no_wrap) simp_all
  have a2: "unat (100 * ucast (clkSeconds c) + ucast (clkHundredths c) :: u16) = 100 * ?S + ?U"
    using b(4) m2 by (subst unat_add_no_wrap) simp_all
  have m3: "unat (6000 * ucast (60 * ucast (clkHours c) + ucast (clkMinutes c) :: u16) :: u32) = 6000 * (60 * ?H + ?M)"
    using b6 a1 by (subst unat_mult_no_wrap) simp_all
  show ?thesis
    unfolding hundredths_of_clock_def clock_hs_def using b5 m3 a2
    by (subst unat_add_no_wrap) simp_all
qed

lemma unat8_of_int_nat: "n < 256 \<Longrightarrow> unat (word_of_int (int n) :: u8) = n"
  by (simp add: unat8_of_nat)

lemma clock_hs_of_hundredths:
  assumes "unat ticks < 8640000"
  shows "clock_hs (clock_of_hundredths ticks d) = unat ticks"
proof -
  let ?n = "unat ticks"
  define q r where "q = ?n div 6000" and "r = ?n mod 6000"
  have q: "q < 1440" and r: "r < 6000" and n: "?n = 6000 * q + r"
    using assms by (auto simp: q_def r_def)
  have "unat (ucast (ticks div 6000) :: u16) = q" "unat (ucast (ticks mod 6000) :: u16) = r"
    using q r by (simp_all add: unat_ucast_32_16 unat_div unat_mod q_def r_def)
  then have s: "sint (ucast (ticks div 6000) :: u16) = int q" "sint (ucast (ticks mod 6000) :: u16) = int r"
    using q r by (simp_all add: sint16_small)
  have fields: "int q sdiv 60 = int (q div 60)" "int q smod 60 = int (q mod 60)"
    "int r sdiv 100 = int (r div 100)" "int r smod 100 = int (r mod 100)"
    by (simp_all add: sdiv_pos smod_pos zdiv_int zmod_int)
  have bounds: "q div 60 < 256" "q mod 60 < 256" "r div 100 < 256" "r mod 100 < 256"
    using q r by (simp_all add: div_less_iff_less_mult less_trans [OF mod_less_divisor])
  have "clock_hs (clock_of_hundredths ticks d) = 6000 * (60 * (q div 60) + q mod 60) + 100 * (r div 100) + r mod 100"
    unfolding clock_hs_def clock_of_hundredths_def Let_def s fields
    using bounds by (simp add: unat8_of_nat del: of_nat_div of_nat_mod)
  then show ?thesis using n by simp
qed

section \<open>The contract of a clock device\<close>

text \<open>
  What the date calls rely on: a read delivers the day counter (advanced by the midnights the
  BIOS has counted), a write sets it. \<open>'p\<close> are the parameters of the driver.
\<close>

locale clock_device =
  fixes drv :: "'p \<Rightarrow> 'd driver"
    and good :: "'p \<Rightarrow> bool"
    and day :: "'d \<Rightarrow> u16"
    and carry :: "'p \<Rightarrow> 'd \<Rightarrow> u16"
  assumes reads: "r_command rq = C_INPUT \<Longrightarrow> r_count rq = 6 \<Longrightarrow>
      \<exists>rq' c d'. drv p rq buf d = (rq', pack_clock c, d') \<and> r_status rq' = S_DONE
        \<and> clkDays c = day d + carry p d \<and> day d' = day d + carry p d"
    and writes: "r_command rq = C_OUTPUT \<Longrightarrow> r_count rq = 6 \<Longrightarrow>
      \<exists>rq' d'. drv p rq (pack_clock c) d = (rq', pack_clock c, d') \<and> r_status rq' = S_DONE
        \<and> day d' = clkDays c \<and> (good p \<longrightarrow> carry p d' = 0)"
begin

lemma exec_input:
  "\<exists>e c. ExecuteClockDriverRequest (drv p) C_INPUT s = s\<lparr>env := e, ClkRecord := c\<rparr>
     \<and> clkDays c = day (dev (env s)) + carry p (dev (env s))
     \<and> day (dev e) = day (dev (env s)) + carry p (dev (env s))"
proof -
  let ?rq = "(CharReqHdr (env s))\<lparr>r_count := 6, r_command := C_INPUT, r_unit := 0, r_status := 0, r_length := req_size\<rparr>"
  obtain rq' c d' where d: "drv p ?rq (pack_clock (ClkRecord s)) (dev (env s)) = (rq', pack_clock c, d')"
    "r_status rq' = S_DONE" "clkDays c = day (dev (env s)) + carry p (dev (env s))"
    "day d' = day (dev (env s)) + carry p (dev (env s))"
    using reads [of ?rq p "pack_clock (ClkRecord s)" "dev (env s)"] by auto
  have "r_status rq' AND S_ERROR = 0" using d(2) by (simp add: status_bits)
  from BinaryCharIO_ok [where drv = "drv p" and e = "env s", OF d(1) this]
  have "ExecuteClockDriverRequest (drv p) C_INPUT s = s\<lparr>env := (env s)\<lparr>CharReqHdr := rq', dev := d'\<rparr>, ClkRecord := c\<rparr>"
    by (simp add: ExecuteClockDriverRequest_def)
  then show ?thesis using d(3,4) by (intro exI [of _ "(env s)\<lparr>CharReqHdr := rq', dev := d'\<rparr>"] exI [of _ c]) simp
qed

lemma exec_output:
  "\<exists>e. ExecuteClockDriverRequest (drv p) C_OUTPUT s = s\<lparr>env := e\<rparr>
     \<and> day (dev e) = clkDays (ClkRecord s) \<and> (good p \<longrightarrow> carry p (dev e) = 0)"
proof -
  let ?rq = "(CharReqHdr (env s))\<lparr>r_count := 6, r_command := C_OUTPUT, r_unit := 0, r_status := 0, r_length := req_size\<rparr>"
  obtain rq' d' where d: "drv p ?rq (pack_clock (ClkRecord s)) (dev (env s)) = (rq', pack_clock (ClkRecord s), d')"
    "r_status rq' = S_DONE" "day d' = clkDays (ClkRecord s)" "good p \<longrightarrow> carry p d' = 0"
    using writes [of ?rq p "ClkRecord s" "dev (env s)"] by auto
  have "r_status rq' AND S_ERROR = 0" using d(2) by (simp add: status_bits)
  from BinaryCharIO_ok [where drv = "drv p" and e = "env s", OF d(1) this]
  have "ExecuteClockDriverRequest (drv p) C_OUTPUT s = s\<lparr>env := (env s)\<lparr>CharReqHdr := rq', dev := d'\<rparr>\<rparr>"
    by (simp add: ExecuteClockDriverRequest_def)
  then show ?thesis using d(3,4) by (intro exI [of _ "(env s)\<lparr>CharReqHdr := rq', dev := d'\<rparr>"]) simp
qed

lemma get_after_set_date:
  assumes "good p" "valid_date dd" "\<not> clk_failed s"
  shows "\<exists>s1 s2. DosSetDate (drv p) dd s = (Inr None, s1)
     \<and> DosGetDate (drv p) dd0 s1 = Some (ucast ((DaysFromYearMonthDay (year dd) (ucast (month dd))
           (ucast (monthday dd)) + 2) mod 7), dd, s2)"
proof -
  let ?n = "DaysFromYearMonthDay (year dd) (ucast (month dd)) (ucast (monthday dd))"
  obtain e1 c1 where i: "ExecuteClockDriverRequest (drv p) C_INPUT s = s\<lparr>env := e1, ClkRecord := c1\<rparr>"
    using exec_input by blast
  let ?s2 = "s\<lparr>env := e1, ClkRecord := c1\<lparr>clkDays := ?n\<rparr>\<rparr>"
  obtain e2 where o2: "ExecuteClockDriverRequest (drv p) C_OUTPUT ?s2 = ?s2\<lparr>env := e2\<rparr>"
    "day (dev e2) = ?n" "carry p (dev e2) = 0"
    using exec_output [of p ?s2] assms(1) by auto
  let ?s3 = "?s2\<lparr>env := e2\<rparr>"
  have set: "DosSetDate (drv p) dd s = (Inr None, ?s3)"
    using assms(2,3) i o2(1) by (simp add: DosSetDate_def Let_def finish_set_def clk_failed_def)
  obtain e3 c3 where g: "ExecuteClockDriverRequest (drv p) C_INPUT ?s3 = ?s3\<lparr>env := e3, ClkRecord := c3\<rparr>"
    "clkDays c3 = ?n" using exec_input [of p ?s3] o2(2,3) by auto
  have "DosGetDate (drv p) dd0 ?s3 = Some (ucast ((?n + 2) mod 7), dd, ?s3\<lparr>env := e3, ClkRecord := c3\<rparr>)"
    using g assms(3) date_of_DaysFromYearMonthDay [OF assms(2)]
    by (simp add: DosGetDate_def clk_failed_def)
  with set show ?thesis by blast
qed

end

section \<open>The built-in driver is such a device\<close>

text \<open>
  The documented behaviour of the BIOS clock: a tick count that has just been set is read back,
  with no midnight passed (idealised: no time passes between the calls).
\<close>

definition bios_ok :: "'b bios \<Rightarrow> bool" where
  "bios_ok B \<longleftrightarrow> (\<forall>t h m x ds b.
     let r = bios_time B (bios_set_rtc_date B ds (bios_set_rtc_time B h m x (bios_set_time B t b)))
     in fst r = 0 \<and> fst (snd r) = t)"

definition midnights :: "'b bios \<Rightarrow> 'b clock_dev \<Rightarrow> u16" where
  "midnights B d = ucast (fst (bios_time B (bios_state d)))"

lemma clk_output_bios:
  "\<exists>t h m x ds b. clk_output B c d = d\<lparr>DaysSinceEpoch := clkDays c, bios_state :=
      bios_set_rtc_date B ds (bios_set_rtc_time B h m x (bios_set_time B t b))\<rparr>
      \<and> t = ticks_of_hundredths (hundredths_of_clock c)"
  by (simp add: clk_output_def Let_def split_beta WritePCClock_def WriteATClock_def) blast

interpretation builtin_clock: clock_device clk_driver bios_ok DaysSinceEpoch midnights
proof (unfold_locales, goal_cases)
  case (1 rq p buf d)
  then show ?case
    by (auto simp: clk_driver_def dev_commands ReadPCClock_def midnights_def clock_of_hundredths_def
        Let_def split_beta)
next
  case (2 rq p c d)
  obtain t h m x ds b where o: "clk_output p c d = d\<lparr>DaysSinceEpoch := clkDays c, bios_state :=
      bios_set_rtc_date p ds (bios_set_rtc_time p h m x (bios_set_time p t b))\<rparr>"
    using clk_output_bios [of p c d] by (elim exE conjE)
  show ?case using 2
    by (auto simp: clk_driver_def dev_commands o midnights_def bios_ok_def Let_def)
qed

section \<open>Properties\<close>

text \<open>
  C5: \<^verbatim>\<open>DosSetDate\<close> on the built-in clock accepts every valid date, and \<^verbatim>\<open>DosGetDate\<close> then
  returns exactly that date, with the day of the week counted from Tuesday 1 January 1980.
\<close>

theorem DosGetDate_after_DosSetDate:
  assumes "bios_ok B" "valid_date dd" "\<not> clk_failed s"
  shows "\<exists>s1 s2. DosSetDate (clk_driver B) dd s = (Inr None, s1)
     \<and> DosGetDate (clk_driver B) dd0 s1 = Some (ucast ((DaysFromYearMonthDay (year dd) (ucast (month dd))
           (ucast (monthday dd)) + 2) mod 7), dd, s2)"
  by (rule builtin_clock.get_after_set_date [OF assms])

text \<open>
  The calendar of \<^verbatim>\<open>DosGetDate\<close> inverts \<^verbatim>\<open>DaysFromYearMonthDay\<close>: every day number up to the
  end of 2099 is a valid date, and that date has exactly this day number. In particular the
  loops end and never read past the month table.
\<close>

lemma date_of_days_inverse:
  assumes "d < 43830"
  shows "\<exists>dd. date_of_days d = Some dd \<and> valid_date dd
     \<and> DaysFromYearMonthDay (year dd) (ucast (month dd)) (ucast (monthday dd)) = d"
proof -
  have "unat d < year_start 120" using assms by (simp add: year_start_closed word_less_nat_alt)
  then show ?thesis using date_of_days_parts [of d] DaysFromYearMonthDay_of_date [of d] by blast
qed

lemma exec_clk_input:
  assumes "bios_time B (bios_state (dev (env s))) = (al, pc, b)"
  shows "\<exists>e. ExecuteClockDriverRequest (clk_driver B) C_INPUT s = s\<lparr>env := e,
     ClkRecord := clock_of_hundredths (hundredths_of_ticks pc) (DaysSinceEpoch (dev (env s)) + ucast al)\<rparr>"
proof -
  let ?c = "clock_of_hundredths (hundredths_of_ticks pc) (DaysSinceEpoch (dev (env s)) + ucast al)"
  let ?rq = "(CharReqHdr (env s))\<lparr>r_count := 6, r_command := C_INPUT, r_unit := 0, r_status := 0, r_length := req_size\<rparr>"
  obtain rq' d' where d: "clk_driver B ?rq (pack_clock (ClkRecord s)) (dev (env s)) = (rq', pack_clock ?c, d')"
    and st: "r_status rq' = S_DONE"
    using assms by (auto simp: clk_driver_def dev_commands ReadPCClock_def Let_def)
  have "r_status rq' AND S_ERROR = 0" using st by (simp add: status_bits)
  from BinaryCharIO_ok [where drv = "clk_driver B" and e = "env s", OF d this]
  have "ExecuteClockDriverRequest (clk_driver B) C_INPUT s = s\<lparr>env := (env s)\<lparr>CharReqHdr := rq', dev := d'\<rparr>, ClkRecord := ?c\<rparr>"
    by (simp add: ExecuteClockDriverRequest_def)
  then show ?thesis by blast
qed

lemma exec_clk_output:
  assumes "bios_ok B"
  shows "\<exists>e b. ExecuteClockDriverRequest (clk_driver B) C_OUTPUT s = s\<lparr>env := e\<rparr>
     \<and> bios_time B (bios_state (dev e)) = (0, ticks_of_hundredths (hundredths_of_clock (ClkRecord s)), b)"
proof -
  let ?rq = "(CharReqHdr (env s))\<lparr>r_count := 6, r_command := C_OUTPUT, r_unit := 0, r_status := 0, r_length := req_size\<rparr>"
  let ?d = "clk_output B (ClkRecord s) (dev (env s))"
  have d: "clk_driver B ?rq (pack_clock (ClkRecord s)) (dev (env s)) = (?rq\<lparr>r_status := S_DONE\<rparr>, pack_clock (ClkRecord s), ?d)"
    by (simp add: clk_driver_def dev_commands)
  have "r_status (?rq\<lparr>r_status := S_DONE\<rparr>) AND S_ERROR = 0" by (simp add: status_bits)
  from BinaryCharIO_ok [where drv = "clk_driver B" and e = "env s", OF d this]
  have ex: "ExecuteClockDriverRequest (clk_driver B) C_OUTPUT s = s\<lparr>env := (env s)\<lparr>CharReqHdr := ?rq\<lparr>r_status := S_DONE\<rparr>, dev := ?d\<rparr>\<rparr>"
    by (simp add: ExecuteClockDriverRequest_def)
  obtain h m x ds b where o2: "?d = (dev (env s))\<lparr>DaysSinceEpoch := clkDays (ClkRecord s), bios_state :=
      bios_set_rtc_date B ds (bios_set_rtc_time B h m x
        (bios_set_time B (ticks_of_hundredths (hundredths_of_clock (ClkRecord s))) b))\<rparr>"
    using clk_output_bios [of B "ClkRecord s" "dev (env s)"] by (elim exE conjE) simp
  have "\<exists>b'. bios_time B (bios_state ?d) = (0, ticks_of_hundredths (hundredths_of_clock (ClkRecord s)), b')"
    using assms unfolding o2 bios_ok_def Let_def by (simp add: prod_eq_iff)
  then show ?thesis using ex by (intro exI [of _ "(env s)\<lparr>CharReqHdr := ?rq\<lparr>r_status := S_DONE\<rparr>, dev := ?d\<rparr>"]) simp
qed

text \<open>
  C6: \<^verbatim>\<open>DosSetTime\<close> followed by \<^verbatim>\<open>DosGetTime\<close> on the built-in clock gives the time back, never
  later and at most 6 hundredths of a second earlier (one tick of the PC clock and the
  rounding of the two scalings).
\<close>

theorem DosGetTime_after_DosSetTime:
  assumes "bios_ok B" "\<not> clk_failed s"
    and "hour dt \<le> 23" "minute dt \<le> 59" "second dt \<le> 59" "hundredth dt \<le> 99"
  shows "\<exists>s1 dt' s2. DosSetTime (clk_driver B) dt s = (Inr None, s1)
     \<and> DosGetTime (clk_driver B) dt0 s1 = (dt', s2)
     \<and> time_hs dt' \<le> time_hs dt \<and> time_hs dt \<le> time_hs dt' + 6"
proof -
  obtain al pc b0 where bt: "bios_time B (bios_state (dev (env s))) = (al, pc, b0)" by (metis prod_cases3)
  obtain e1 c1 where i: "ExecuteClockDriverRequest (clk_driver B) C_INPUT s = s\<lparr>env := e1, ClkRecord := c1\<rparr>"
    using exec_clk_input [OF bt] by blast
  let ?c = "c1\<lparr>clkHours := hour dt, clkMinutes := minute dt, clkSeconds := second dt, clkHundredths := hundredth dt\<rparr>"
  let ?s2 = "s\<lparr>env := e1, ClkRecord := ?c\<rparr>"
  let ?T = "ticks_of_hundredths (hundredths_of_clock ?c)"
  obtain e2 b where o2: "ExecuteClockDriverRequest (clk_driver B) C_OUTPUT ?s2 = ?s2\<lparr>env := e2\<rparr>"
    "bios_time B (bios_state (dev e2)) = (0, ?T, b)"
    using exec_clk_output [OF assms(1), of ?s2] by auto
  let ?s3 = "?s2\<lparr>env := e2\<rparr>"
  have set: "DosSetTime (clk_driver B) dt s = (Inr None, ?s3)"
    using assms(2-) i o2(1) by (simp add: DosSetTime_def Let_def finish_set_def clk_failed_def not_less)
  let ?c3 = "clock_of_hundredths (hundredths_of_ticks ?T) (DaysSinceEpoch (dev e2) + ucast (0 :: u8))"
  have o3: "bios_time B (bios_state (dev (env ?s3))) = (0, ?T, b)" using o2(2) by simp
  obtain e3 where g: "ExecuteClockDriverRequest (clk_driver B) C_INPUT ?s3 = ?s3\<lparr>env := e3, ClkRecord := ?c3\<rparr>"
    using exec_clk_input [OF o3] by auto
  let ?dt = "dt0\<lparr>hour := clkHours ?c3, minute := clkMinutes ?c3, second := clkSeconds ?c3, hundredth := clkHundredths ?c3\<rparr>"
  have get: "DosGetTime (clk_driver B) dt0 ?s3 = (?dt, ?s3\<lparr>env := e3, ClkRecord := ?c3\<rparr>)"
    using g assms(2) by (simp add: DosGetTime_def clk_failed_def)
  have hs: "clock_hs ?c = time_hs dt" "clock_hs ?c3 = time_hs ?dt" by (simp_all add: clock_hs_def time_hs_def)
  have "unat (hour dt) \<le> 23" "unat (minute dt) \<le> 59" "unat (second dt) \<le> 59" "unat (hundredth dt) \<le> 99"
    using assms(3-) by (simp_all add: word_le_nat_alt)
  then have "60 * unat (hour dt) + unat (minute dt) \<le> 1439"
    and hm: "100 * unat (second dt) + unat (hundredth dt) < 6000" by linarith+
  then have "6000 * (60 * unat (hour dt) + unat (minute dt)) \<le> 6000 * 1439" by (intro mult_le_mono2)
  then have lt: "time_hs dt < 8640000" unfolding time_hs_def using hm by linarith
  have h: "unat (hundredths_of_clock ?c) = time_hs dt" using hundredths_of_clock_unat [of ?c] hs(1) by simp
  have T: "unat ?T = (time_hs dt * 59659 div 65536) div 5" using ticks_unat [of "hundredths_of_clock ?c"] h lt by simp
  have "unat ?T < 1573042" unfolding T using lt by (simp add: div_less_iff_less_mult)
  then have "unat (hundredths_of_ticks ?T) = 5 * ((time_hs dt * 59659 div 65536) div 5) * 65536 div 59659"
    using hundredths_unat [of ?T] T by simp
  moreover note scale_bounds [of "time_hs dt"]
  ultimately have u: "unat (hundredths_of_ticks ?T) \<le> time_hs dt" "time_hs dt \<le> unat (hundredths_of_ticks ?T) + 6"
    by simp_all
  then have "clock_hs ?c3 = unat (hundredths_of_ticks ?T)" using lt by (intro clock_hs_of_hundredths) simp
  then have "time_hs ?dt \<le> time_hs dt" "time_hs dt \<le> time_hs ?dt + 6" using u unfolding hs(2) by linarith+
  then show ?thesis using set get by blast
qed

section \<open>The real-time clock\<close>

lemma bcd_round: "unat x < 100 \<Longrightarrow> InitBcdToByte (ucast (ByteToBcd x)) = x"
proof -
  assume lt: "unat x < 100"
  have "\<forall>n \<in> set [0..<100]. InitBcdToByte (ucast (ByteToBcd (of_nat n))) = (of_nat n :: u16)"
    by code_simp
  then have "InitBcdToByte (ucast (ByteToBcd (of_nat (unat x)))) = (of_nat (unat x) :: u16)"
    using lt by (simp del: of_nat_unat)
  then show ?thesis by simp
qed

lemma bcd_round8:
  "unat x < 100 \<Longrightarrow> (ucast (InitBcdToByte (ucast (ByteToBcd x))) :: u8) = ucast x"
  by (simp add: bcd_round)

lemma clk_month_loop:
  assumes "\<And>i. 1 \<le> i \<Longrightarrow> i < M \<Longrightarrow> pd ! i \<le> c" "1 \<le> M" "M \<le> 12" "c < pd ! M"
  shows "clk_month pd c = (of_nat M, c - pd ! (M - 1) + 1)"
proof -
  have "[1..<13] = [1..<M] @ M # [Suc M..<13]"
    using assms(2,3) upt_add_eq_append [of 1 M "13 - M"] upt_conv_Cons [of M 13] by simp
  moreover have "find (\<lambda>Month. c < pd ! Month) [1..<M] = None"
    unfolding find_None_iff using leD [OF assms(1)] by auto
  moreover have "find P (xs @ y # ys) = Some y" if "find P xs = None" "P y" for P and xs ys :: "nat list" and y
    using that by (induction xs) (auto split: if_splits)
  ultimately show ?thesis using assms(4) by (simp add: clk_month_def)
qed

text \<open>
  What the clock driver writes to the real-time clock is read back at boot as the same
  date: decoding the BCD registers gives exactly the date of the day number, for every day up to the
  end of 2099.
\<close>

theorem rtc_date_round_trip:
  assumes "clkDays c < 43830"
  shows "\<exists>ds h m x b. clk_output B c d = d\<lparr>DaysSinceEpoch := clkDays c,
       bios_state := bios_set_rtc_date B ds (bios_set_rtc_time B h m x b)\<rparr>
     \<and> date_of_days (clkDays c) = Some (init_date (ds ! 3, ds ! 2, ds ! 1, ds ! 0))"
proof -
  obtain n k M where dd: "date_of_days (clkDays c) = Some \<lparr>year = yr n,
        monthday = ucast (k - is_leap_year_monthdays (yr n) ! (M - 1) + 1), month = of_nat M\<rparr>"
      and n: "n < 999" and M: "1 \<le> M" "M \<le> 12" and kl: "unat k < year_len n"
      and dk: "unat (clkDays c) = year_start n + unat k"
      and kM: "is_leap_year_monthdays (yr n) ! (M - 1) \<le> k" "k < is_leap_year_monthdays (yr n) ! M"
    using date_of_days_parts [of "clkDays c"] by blast
  let ?pd = "is_leap_year_monthdays (yr n)"
  have n120: "n < 120"
  proof (rule ccontr)
    assume "\<not> n < 120"
    then have "year_start 120 \<le> year_start n" by (intro year_start_mono) simp
    then show False using assms dk by (simp add: year_start_closed word_less_nat_alt)
  qed
  have e: "clkDays c = of_nat (year_start n + unat k)" unfolding dk [symmetric] by simp
  have "year_start n + unat k < 65536" using dk unat16_lt [of "clkDays c"] by linarith
  then have yl: "year_loop 1980 (clkDays c) = (yr n, k)" unfolding e using year_loop_1980 [OF kl] by simp
  have below: "?pd ! i \<le> k" if "1 \<le> i" "i < M" for i
  proof -
    have "i \<le> M - 1" "M - 1 \<le> 12" using that M by linarith+
    then show ?thesis using monthdays_mono [of i "M - 1" "yr n"] kM(1) by (simp add: word_le_nat_alt)
  qed
  have cm: "clk_month ?pd k = (of_nat M, k - ?pd ! (M - 1) + 1)"
    by (rule clk_month_loop [OF below M kM(2)])
  let ?D = "k - ?pd ! (M - 1) + 1"
  note mp = monthdays_props(4) [OF M, of "yr n"]
  have b: "unat (?pd ! (M - 1)) \<le> unat k" "unat k < unat (?pd ! (M - 1)) + 31"
    using kM mp by (simp_all add: word_le_nat_alt word_less_nat_alt)
  have "unat ?D = unat (ucast (ucast ?D :: u8) :: u16)" by (simp only: monthday_word(2) [OF b])
  also have "\<dots> = unat (ucast ?D :: u8)" by (rule unat_ucast_8_16)
  also have "\<dots> = unat k - unat (?pd ! (M - 1)) + 1" by (rule monthday_word(1) [OF b])
  finally have D: "unat ?D < 100" using b by linarith
  have uy: "unat (yr n) = 1980 + n" using n120 by (simp add: unat_yr)
  have y: "unat (yr n div 100) < 100" "unat (yr n mod 100) < 100" using uy n120 by (simp_all add: unat_div unat_mod)
  have "unat (of_nat M :: u16) < 100" using M by (simp add: unat16_of_nat)
  have cent: "100 * (yr n div 100) + yr n mod 100 = yr n" by (rule mult_div_mod_eq)
  have nofix: "\<not> (1900 \<le> yr n \<and> yr n < 1980)" using uy by (simp add: word_le_nat_alt word_less_nat_alt)
  let ?ds = "DayToBcd (of_nat M) ?D (yr n)"
  have "init_date (?ds ! 3, ?ds ! 2, ?ds ! 1, ?ds ! 0)
      = \<lparr>year = yr n, monthday = ucast ?D, month = ucast (of_nat M :: u16)\<rparr>"
    using y D \<open>unat (of_nat M :: u16) < 100\<close> cent nofix
    by (simp add: init_date_def DayToBcd_def bcd_round Let_def)
  moreover have "(ucast (of_nat M :: u16) :: u8) = of_nat M"
    using M by (simp add: unat_eq_iff unat_ucast_16_8 unat16_of_nat unat8_of_nat)
  ultimately have "date_of_days (clkDays c) = Some (init_date (?ds ! 3, ?ds ! 2, ?ds ! 1, ?ds ! 0))"
    using dd by simp
  moreover have "\<exists>h m x b. clk_output B c d = d\<lparr>DaysSinceEpoch := clkDays c,
       bios_state := bios_set_rtc_date B ?ds (bios_set_rtc_time B h m x b)\<rparr>"
    using yl cm by (simp add: clk_output_def Let_def WritePCClock_def WriteATClock_def) blast
  ultimately show ?thesis by blast
qed

section \<open>Concrete clocks\<close>

definition demo_bios :: "u32 bios" where
  "demo_bios = \<lparr>bios_time = (\<lambda>b. (0, b, b)), bios_set_time = (\<lambda>t _. t),
     bios_set_rtc_time = (\<lambda>_ _ _ b. b), bios_set_rtc_date = (\<lambda>_ b. b)\<rparr>"

definition demo_clock :: "u32 clock_dev time_state" where
  "demo_clock = \<lparr>
     env = \<lparr>CharReqHdr = \<lparr>r_length = 0, r_unit = 0, r_command = 0, r_status = 0, r_count = 0, r_ndbyte = 0, r_nunits = 0\<rparr>,
            CritErrCode = 0, answers = [], dev = \<lparr>DaysSinceEpoch = 0, bios_state = 0\<rparr>\<rparr>,
     ClkRecord = \<lparr>clkDays = 0, clkMinutes = 0, clkHours = 0, clkHundredths = 0, clkSeconds = 0\<rparr>,
     ClkReqHdr_status = 0\<rparr>"

lemma demo_bios_ok: "bios_ok demo_bios"
  by (simp add: bios_ok_def demo_bios_def)

lemma demo_clock_ok: "\<not> clk_failed demo_clock"
  by (simp add: clk_failed_def demo_clock_def)

theorem DosGetDate_after_DosSetDate_witness:
  "\<exists>s1 s2. DosSetDate (clk_driver demo_bios) \<lparr>year = 2000, monthday = 29, month = 2\<rparr> demo_clock = (Inr None, s1)
     \<and> DosGetDate (clk_driver demo_bios) \<lparr>year = 0, monthday = 0, month = 0\<rparr> s1
       = Some (2, \<lparr>year = 2000, monthday = 29, month = 2\<rparr>, s2)"
proof -
  have v: "valid_date \<lparr>year = 2000, monthday = 29, month = 2\<rparr>"
    by (simp add: valid_date_def is_leap_year_monthdays_def days_def Let_def)
  have "DaysFromYearMonthDay 2000 2 29 = 7364"
    by (simp add: DaysFromYearMonthDay_def is_leap_year_monthdays_def days_def)
  then show ?thesis
    using DosGetDate_after_DosSetDate [OF demo_bios_ok v demo_clock_ok, of "\<lparr>year = 0, monthday = 0, month = 0\<rparr>"]
    by simp
qed

theorem DosGetTime_after_DosSetTime_witness:
  "\<exists>s1 dt' s2. DosSetTime (clk_driver demo_bios) \<lparr>minute = 34, hour = 12, hundredth = 78, second = 56\<rparr> demo_clock = (Inr None, s1)
     \<and> DosGetTime (clk_driver demo_bios) \<lparr>minute = 0, hour = 0, hundredth = 0, second = 0\<rparr> s1 = (dt', s2)
     \<and> time_hs dt' \<le> 4529678 \<and> 4529678 \<le> time_hs dt' + 6"
  using DosGetTime_after_DosSetTime [OF demo_bios_ok demo_clock_ok,
      of "\<lparr>minute = 34, hour = 12, hundredth = 78, second = 56\<rparr>" "\<lparr>minute = 0, hour = 0, hundredth = 0, second = 0\<rparr>"]
  by (simp add: time_hs_def)

theorem rtc_date_round_trip_witness:
  "\<exists>ds h m x b. clk_output demo_bios \<lparr>clkDays = 7364, clkMinutes = 0, clkHours = 0, clkHundredths = 0, clkSeconds = 0\<rparr>
       \<lparr>DaysSinceEpoch = 0, bios_state = 0\<rparr>
       = \<lparr>DaysSinceEpoch = 7364, bios_state = bios_set_rtc_date demo_bios ds (bios_set_rtc_time demo_bios h m x b)\<rparr>
     \<and> date_of_days 7364 = Some (init_date (ds ! 3, ds ! 2, ds ! 1, ds ! 0))"
  using rtc_date_round_trip [of "\<lparr>clkDays = 7364, clkMinutes = 0, clkHours = 0, clkHundredths = 0, clkSeconds = 0\<rparr>"
      demo_bios "\<lparr>DaysSinceEpoch = 0, bios_state = 0\<rparr>"]
  by simp

end
