(* ===== verification/Share.thy ===== *)
theory Share
  imports Prelude
begin

text \<open>
  SHARE, \<^verbatim>\<open>share/src/share.c\<close>: the tables of open files and locked regions, and the calls the
  kernel makes through the multiplex interrupt.
\<close>

section \<open>State\<close>

text \<open>
  A file name is a C string: its bytes up to the terminator, which is not stored. An entry is
  unused when its name is empty. Calls of INT 24h are recorded in order, as the registers AL
  and DI.
\<close>

record file_t =
  filename :: bytes
  f_psp :: u16
  openmode :: u8
  sharemode :: u8
  first_openmode :: u8
  first_sharemode :: u8

record lock_t =
  used :: bool
  start :: u32
  end_ofs :: u32
  fileno :: u16
  l_psp :: u16

record share_state =
  file_table :: "file_t list"
  lock_table :: "lock_t list"
  file_table_free :: u16
  lock_table_free :: u16
  int24_calls :: "(u8 \<times> u16) list"

definition SHARE_COMPAT :: u8 where "SHARE_COMPAT = 0"
definition SHARE_DENY_ALL :: u8 where "SHARE_DENY_ALL = 1"
definition SHARE_DENY_WRITE :: u8 where "SHARE_DENY_WRITE = 2"
definition SHARE_DENY_READ :: u8 where "SHARE_DENY_READ = 3"
definition SHARE_DENY_NONE :: u8 where "SHARE_DENY_NONE = 4"
definition OPEN_READ_ONLY :: u8 where "OPEN_READ_ONLY = 0"
definition OPEN_WRITE_ONLY :: u8 where "OPEN_WRITE_ONLY = 1"
definition OPEN_READ_WRITE :: u8 where "OPEN_READ_WRITE = 2"

lemmas share_modes = SHARE_COMPAT_def SHARE_DENY_ALL_def SHARE_DENY_WRITE_def SHARE_DENY_READ_def
  SHARE_DENY_NONE_def OPEN_READ_ONLY_def OPEN_WRITE_ONLY_def OPEN_READ_WRITE_def

section \<open>The open policy\<close>

definition open_actions :: "u8 list list" where
  "open_actions =
    [[0, 1, 1, 1, 1],
     [2, 1, 1, 1, 1],
     [2, 1, 1, 1, 1],
     [2, 1, 1, 1, 1],
     [2, 1, 1, 1, 0]]"

text \<open>First share mode, first open mode, current share mode, current open mode, action.\<close>

definition open_exceptions :: "(u8 \<times> u8 \<times> u8 \<times> u8 \<times> u8) list" where
  "open_exceptions =
    [(0, 0, 2, 0, 3), (0, 0, 4, 0, 3), (2, 0, 0, 0, 4), (2, 0, 2, 0, 0), (2, 0, 4, 0, 0),
     (3, 0, 2, 1, 0), (3, 0, 4, 1, 0), (3, 1, 4, 1, 0), (3, 2, 4, 1, 0),
     (4, 0, 0, 0, 4), (4, 0, 0, 1, 0), (4, 0, 0, 2, 0), (4, 0, 2, 0, 0), (4, 0, 2, 1, 0),
     (4, 0, 2, 2, 0), (4, 1, 3, 0, 0), (4, 1, 3, 1, 0), (4, 1, 3, 2, 0)]"

text \<open>The search of \<^verbatim>\<open>do_open_check\<close> through the exceptions, then the general table.\<close>

definition find_exception :: "u8 \<Rightarrow> u8 \<Rightarrow> u8 \<Rightarrow> u8 \<Rightarrow> (u8 \<times> u8 \<times> u8 \<times> u8 \<times> u8) option" where
  "find_exception fs fo cs co =
     find (\<lambda>(efs, efo, ecs, eco, act). efs = fs \<and> ecs = cs \<and> efo = fo \<and> eco = co) open_exceptions"

definition open_action :: "u8 \<Rightarrow> u8 \<Rightarrow> u8 \<Rightarrow> u8 \<Rightarrow> u8" where
  "open_action fs fo cs co =
     (case find_exception fs fo cs co of
        Some (_, _, _, _, act) \<Rightarrow> act
      | None \<Rightarrow> open_actions ! unat fs ! unat cs)"

section \<open>Helpers\<close>

fun fnmatches :: "bytes \<Rightarrow> bytes \<Rightarrow> bool" where
  "fnmatches [] fn2 = (fn2 = [])"
| "fnmatches (c # fn1) [] = False"
| "fnmatches (c # fn1) (d # fn2) = (if c \<noteq> d then False else fnmatches fn1 fn2)"

fun remove_locks :: "u16 \<Rightarrow> lock_t list \<Rightarrow> u16 \<Rightarrow> lock_t list \<times> u16" where
  "remove_locks fno [] free = ([], free)"
| "remove_locks fno (l # ls) free =
     (if used l \<and> fileno l = fno
      then (let (ls1, free1) = remove_locks fno ls (free + 1) in (l\<lparr>used := False\<rparr> # ls1, free1))
      else (let (ls1, free1) = remove_locks fno ls free in (l # ls1, free1)))"

definition remove_all_locks :: "u16 \<Rightarrow> share_state \<Rightarrow> share_state" where
  "remove_all_locks fno s =
     (let (ls, free) = remove_locks fno (lock_table s) (lock_table_free s)
      in s\<lparr>lock_table := ls, lock_table_free := free\<rparr>)"

definition upd_file :: "nat \<Rightarrow> (file_t \<Rightarrow> file_t) \<Rightarrow> share_state \<Rightarrow> share_state" where
  "upd_file i f s = s\<lparr>file_table := (file_table s)[i := f (file_table s ! i)]\<rparr>"

definition free_file_table_entry :: "nat \<Rightarrow> share_state \<Rightarrow> share_state" where
  "free_file_table_entry i s =
     (upd_file i (\<lambda>f. f\<lparr>filename := []\<rparr>) s)\<lparr>file_table_free := file_table_free s + 1\<rparr>"

text \<open>AL for the critical error: the drive of a name that starts with a drive letter.\<close>

definition drive_of :: "bytes \<Rightarrow> u8" where
  "drive_of fn = (case fn of c # d # _ \<Rightarrow> (if d = 0x3a then c - 0x41 else 0) | _ \<Rightarrow> 0)"

definition call_int24 :: "u8 \<Rightarrow> u16 \<Rightarrow> share_state \<Rightarrow> share_state" where
  "call_int24 al di s = s\<lparr>int24_calls := int24_calls s @ [(al, di)]\<rparr>"

section \<open>Opening and closing\<close>

text \<open>The first other entry with the same name.\<close>

definition same_file :: "nat \<Rightarrow> file_t list \<Rightarrow> nat option" where
  "same_file i fs =
     find (\<lambda>j. j \<noteq> i \<and> filename (fs ! j) \<noteq> [] \<and> fnmatches (filename (fs ! j)) (filename (fs ! i)))
       [0..<length fs]"

definition do_open_check :: "nat \<Rightarrow> share_state \<Rightarrow> int \<times> share_state" where
  "do_open_check i s =
     (let s1 = upd_file i (\<lambda>f. f\<lparr>first_sharemode := sharemode f, first_openmode := openmode f\<rparr>) s
      in case same_file i (file_table s1) of
           None \<Rightarrow> (int i, s1)
         | Some j \<Rightarrow>
             (let p = file_table s1 ! j;
                  s2 = upd_file i (\<lambda>f. f\<lparr>first_sharemode := first_sharemode p, first_openmode := first_openmode p\<rparr>) s1;
                  f = file_table s2 ! i;
                  action = open_action (first_sharemode f) (first_openmode f) (sharemode f) (openmode f)
              in if action = 1 then (-5, free_file_table_entry i s2)
                 else if action = 2 then
                   (-0x20, call_int24 (drive_of (filename f)) 0x0d (free_file_table_entry i s2))
                 else (int i, s2)))"

definition clean_sharemode :: "u16 \<Rightarrow> u8" where
  "clean_sharemode m = (let m1 = m AND 0x07 in if m1 > 4 then SHARE_COMPAT else ucast m1)"

definition clean_openmode :: "u16 \<Rightarrow> u8" where
  "clean_openmode m = (let m1 = m AND 0x03 in if m1 > 2 then OPEN_READ_ONLY else ucast m1)"

definition free_slot :: "file_t list \<Rightarrow> nat option" where
  "free_slot fs = find (\<lambda>i. filename (fs ! i) = []) [0..<length fs]"

text \<open>
  \<^verbatim>\<open>open_check\<close>. A name of 128 bytes or more would be stored without its terminator and later
  comparisons would read past the array: \<open>None\<close>. (The kernel's path buffers hold 127 bytes.)
\<close>

definition open_check :: "bytes \<Rightarrow> u16 \<Rightarrow> u16 \<Rightarrow> u16 \<Rightarrow> share_state \<Rightarrow> (int \<times> share_state) option" where
  "open_check fn psp omode smode s =
     (case free_slot (file_table s) of
        None \<Rightarrow> Some (-1, s)
      | Some i \<Rightarrow>
          (if 128 \<le> length fn then None
           else
             (let s1 = upd_file i (\<lambda>f. f\<lparr>filename := fn\<rparr>) s;
                  s2 = s1\<lparr>file_table_free := file_table_free s1 - 1\<rparr>;
                  s3 = upd_file i (\<lambda>f. f\<lparr>f_psp := psp, openmode := clean_openmode omode,
                                        sharemode := clean_sharemode smode\<rparr>) s2
              in Some (do_open_check i s3))))"

text \<open>A file number outside the table is an access out of bounds: \<open>None\<close>.\<close>

definition close_file :: "u16 \<Rightarrow> share_state \<Rightarrow> share_state option" where
  "close_file fno s =
     (if length (file_table s) \<le> unat fno then None
      else Some (free_file_table_entry (unat fno) (remove_all_locks fno s)))"

section \<open>Locking\<close>

text \<open>The region of a request: \<open>len\<close> is cut when it wraps around.\<close>

definition region_end :: "u32 \<Rightarrow> u32 \<Rightarrow> u32" where
  "region_end ofs len = (if ofs + len < ofs then 0xffffffff else ofs + len)"

definition region_len :: "u32 \<Rightarrow> u32 \<Rightarrow> u32" where
  "region_len ofs len = (if ofs + len < ofs then 0xffffffff - ofs else len)"

definition conflicts :: "u16 \<Rightarrow> bytes \<Rightarrow> u32 \<Rightarrow> u32 \<Rightarrow> file_t list \<Rightarrow> lock_t \<Rightarrow> bool" where
  "conflicts psp fn ofs endofs fs l \<longleftrightarrow>
     used l \<and> (psp = 0 \<or> l_psp l \<noteq> psp) \<and> fnmatches fn (filename (fs ! unat (fileno l)))
     \<and> (ofs \<ge> start l \<and> ofs < end_ofs l \<or> endofs > start l \<and> endofs \<le> end_ofs l)"

definition access_check :: "u16 \<Rightarrow> u16 \<Rightarrow> u32 \<Rightarrow> u32 \<Rightarrow> bool \<Rightarrow> share_state \<Rightarrow> (int \<times> share_state) option" where
  "access_check psp fno ofs len allowcriter s =
     (if length (file_table s) \<le> unat fno then None
      else if region_len ofs len < 1 then Some (0, s)
      else
        (let f = file_table s ! unat fno in
         case find (conflicts psp (filename f) ofs (region_end ofs len) (file_table s)) (lock_table s) of
           None \<Rightarrow> Some (0, s)
         | Some _ \<Rightarrow>
             Some (-0x21,
               if allowcriter
               then call_int24 (drive_of (filename f)) 0x0e (free_file_table_entry (unat fno) s)
               else s)))"

fun unlock_first :: "u16 \<Rightarrow> u16 \<Rightarrow> u32 \<Rightarrow> u32 \<Rightarrow> lock_t list \<Rightarrow> lock_t list option" where
  "unlock_first psp fno ofs endofs [] = None"
| "unlock_first psp fno ofs endofs (l # ls) =
     (if used l \<and> l_psp l = psp \<and> fileno l = fno \<and> start l = ofs \<and> end_ofs l = endofs
      then Some (l\<lparr>used := False\<rparr> # ls)
      else map_option ((#) l) (unlock_first psp fno ofs endofs ls))"

fun lock_first :: "u16 \<Rightarrow> u16 \<Rightarrow> u32 \<Rightarrow> u32 \<Rightarrow> lock_t list \<Rightarrow> lock_t list option" where
  "lock_first psp fno ofs endofs [] = None"
| "lock_first psp fno ofs endofs (l # ls) =
     (if \<not> used l
      then Some (l\<lparr>used := True, start := ofs, end_ofs := endofs, fileno := fno, l_psp := psp\<rparr> # ls)
      else map_option ((#) l) (lock_first psp fno ofs endofs ls))"

definition lock_unlock :: "u16 \<Rightarrow> u16 \<Rightarrow> u32 \<Rightarrow> u32 \<Rightarrow> bool \<Rightarrow> share_state \<Rightarrow> (int \<times> share_state) option" where
  "lock_unlock psp fno ofs len unlock s =
     (if region_len ofs len < 1 then Some (0, s)
      else if unlock then
        (case unlock_first psp fno ofs (region_end ofs len) (lock_table s) of
           None \<Rightarrow> Some (-0x21, s)
         | Some ls \<Rightarrow> Some (0, s\<lparr>lock_table := ls, lock_table_free := lock_table_free s + 1\<rparr>))
      else
        Option.bind (access_check 0 fno ofs (region_len ofs len) False s) (\<lambda>(r, _).
          if r \<noteq> 0 then Some (-0x21, s)
          else
            (case lock_first psp fno ofs (ofs + region_len ofs len) (lock_table s) of
               None \<Rightarrow> Some (-0x24, s)
             | Some ls \<Rightarrow> Some (0, s\<lparr>lock_table := ls, lock_table_free := lock_table_free s - 1\<rparr>))))"

definition is_file_open :: "bytes \<Rightarrow> share_state \<Rightarrow> int" where
  "is_file_open fn s = (if \<exists>f \<in> set (file_table s). fnmatches fn (filename f) then 1 else 0)"

section \<open>The multiplex interrupt\<close>

record intregs =
  r_ax :: u16
  r_bx :: u16
  r_cx :: u16
  r_dx :: u16
  r_si :: u16
  r_di :: u16
  r_ds :: u16
  r_es :: u16

definition long_of :: "u16 \<Rightarrow> u16 \<Rightarrow> u32" where
  "long_of hi lo = push_bit 16 (ucast hi) + ucast lo"

text \<open>
  \<^verbatim>\<open>inner_handler\<close>: the new registers and whether the call is chained to the next handler.
  \<open>str_at\<close> reads the C string at a far pointer.
\<close>

definition inner_handler ::
  "(u16 \<Rightarrow> u16 \<Rightarrow> bytes) \<Rightarrow> intregs \<Rightarrow> share_state \<Rightarrow> (bool \<times> intregs \<times> share_state) option" where
  "inner_handler str_at r s =
     (let al = r_ax r AND 0xff;
          ret = (\<lambda>(v, s1). (False, r\<lparr>r_ax := word_of_int v\<rparr>, s1))
      in if drop_bit 8 (r_ax r) AND 0xff \<noteq> 0x10 then Some (True, r, s)
         else if al = 0 then Some (False, r\<lparr>r_ax := r_ax r OR 0xff\<rparr>, s)
         else if al = 0xa0 then map_option ret (open_check (str_at (r_ds r) (r_si r)) (r_bx r) (r_cx r) (r_dx r) s)
         else if al = 0xa1 then map_option (\<lambda>s1. (False, r, s1)) (close_file (r_bx r) s)
         else if r_ax r AND 0xfe = 0xa2 then
           map_option ret (access_check (r_bx r) (r_cx r) (long_of (r_si r) (r_di r)) (long_of (r_es r) (r_dx r))
              (r_ax r AND 1 \<noteq> 0) s)
         else if r_ax r AND 0xfe = 0xa4 then
           map_option ret (lock_unlock (r_bx r) (r_cx r) (long_of (r_si r) (r_di r)) (long_of (r_es r) (r_dx r))
              (r_ax r AND 1 \<noteq> 0) s)
         else if al = 0xa6 then Some (ret (is_file_open (str_at (r_ds r) (r_si r)) s, s))
         else Some (True, r, s))"

text \<open>\<^verbatim>\<open>init_tables\<close>: empty tables of the configured sizes (when the memory is there).\<close>

definition blank_file :: file_t where
  "blank_file = \<lparr>filename = [], f_psp = 0, openmode = 0, sharemode = 0, first_openmode = 0, first_sharemode = 0\<rparr>"

definition blank_lock :: lock_t where
  "blank_lock = \<lparr>used = False, start = 0, end_ofs = 0, fileno = 0, l_psp = 0\<rparr>"

definition sizeof_file_t :: u16 where "sizeof_file_t = 134"

definition init_tables :: "u16 \<Rightarrow> u16 \<Rightarrow> share_state" where
  "init_tables file_bytes locks =
     (let n = file_bytes div sizeof_file_t
      in \<lparr>file_table = replicate (unat n) blank_file, lock_table = replicate (unat locks) blank_lock,
          file_table_free = n, lock_table_free = locks, int24_calls = []\<rparr>)"

end
