(* ===== verification/Share_Props.thy ===== *)
theory Share_Props
  imports Share
begin

text \<open>
  The invariant of the SHARE tables, kept by every call of the multiplex interrupt but one, and
  what opening, locking and unlocking promise.
\<close>

section \<open>Names and slots\<close>

lemma fnmatches_eq [simp]: "fnmatches a b \<longleftrightarrow> a = b"
  by (induction a b rule: fnmatches.induct) auto

lemma free_slot_Some:
  assumes "free_slot fs = Some i"
  shows "i < length fs" "filename (fs ! i) = []"
  using find_upt_first [OF assms [unfolded free_slot_def]] by auto

lemma free_slot_None: "free_slot fs = None \<longleftrightarrow> (\<forall>f \<in> set fs. filename f \<noteq> [])"
  by (simp add: free_slot_def find_None_iff all_set_conv_all_nth)

lemma same_file_Some:
  assumes "same_file i fs = Some j"
  shows "j < length fs" "j \<noteq> i" "filename (fs ! j) = filename (fs ! i)" "filename (fs ! i) \<noteq> []"
  using find_upt_first [OF assms [unfolded same_file_def]] by auto

lemma same_file_None:
  "same_file i fs = None \<longleftrightarrow> (\<forall>j < length fs. j \<noteq> i \<longrightarrow> filename (fs ! j) \<noteq> [] \<longrightarrow> filename (fs ! j) \<noteq> filename (fs ! i))"
  by (auto simp: same_file_def find_None_iff)

section \<open>The invariant\<close>

definition entry_ok :: "file_t \<Rightarrow> bool" where
  "entry_ok f \<longleftrightarrow> filename f \<noteq> [] \<longrightarrow>
     sharemode f \<le> 4 \<and> openmode f \<le> 2 \<and> first_sharemode f \<le> 4 \<and> first_openmode f \<le> 2"

definition lock_ok :: "file_t list \<Rightarrow> lock_t \<Rightarrow> bool" where
  "lock_ok fs l \<longleftrightarrow> used l \<longrightarrow> unat (fileno l) < length fs \<and> filename (fs ! unat (fileno l)) \<noteq> []"

definition same_first :: "file_t \<Rightarrow> file_t \<Rightarrow> bool" where
  "same_first f g \<longleftrightarrow> filename f \<noteq> [] \<longrightarrow> filename f = filename g \<longrightarrow>
     first_sharemode f = first_sharemode g \<and> first_openmode f = first_openmode g"

definition unused :: "file_t list \<Rightarrow> nat" where
  "unused fs = length (filter (\<lambda>f. filename f = []) fs)"

definition unlocked :: "lock_t list \<Rightarrow> nat" where
  "unlocked ls = length (filter (\<lambda>l. \<not> used l) ls)"

definition share_inv :: "share_state \<Rightarrow> bool" where
  "share_inv s \<longleftrightarrow> length (file_table s) < 32768 \<and> length (lock_table s) < 65535
     \<and> unat (file_table_free s) = unused (file_table s)
     \<and> unat (lock_table_free s) = unlocked (lock_table s)
     \<and> (\<forall>f \<in> set (file_table s). entry_ok f)
     \<and> (\<forall>l \<in> set (lock_table s). lock_ok (file_table s) l)
     \<and> (\<forall>f \<in> set (file_table s). \<forall>g \<in> set (file_table s). same_first f g)"

lemma share_invD:
  assumes "share_inv s"
  shows "length (file_table s) < 32768" "length (lock_table s) < 65535"
    "unat (file_table_free s) = unused (file_table s)" "unat (lock_table_free s) = unlocked (lock_table s)"
    "f \<in> set (file_table s) \<Longrightarrow> entry_ok f" "l \<in> set (lock_table s) \<Longrightarrow> lock_ok (file_table s) l"
    "f \<in> set (file_table s) \<Longrightarrow> g \<in> set (file_table s) \<Longrightarrow> same_first f g"
  using assms by (auto simp: share_inv_def)

lemma init_tables_inv:
  assumes "locks < 0xffff"
  shows "share_inv (init_tables n locks)"
proof -
  have "unat n div 134 < 32768" using unat16_lt [of n] by linarith
  then show ?thesis
    using assms by (simp add: share_inv_def init_tables_def blank_file_def blank_lock_def unused_def
        unlocked_def entry_ok_def lock_ok_def same_first_def word_less_nat_alt unat_div sizeof_file_t_def)
qed

section \<open>Closing\<close>

lemma remove_locks_spec:
  "remove_locks fno ls free = (map (\<lambda>l. if used l \<and> fileno l = fno then l\<lparr>used := False\<rparr> else l) ls,
     free + of_nat (length (filter (\<lambda>l. used l \<and> fileno l = fno) ls)))"
  by (induction fno ls free rule: remove_locks.induct) (auto simp: split_beta)

lemma unlocked_removed:
  "unlocked (map (\<lambda>l. if used l \<and> fileno l = fno then l\<lparr>used := False\<rparr> else l) ls)
    = unlocked ls + length (filter (\<lambda>l. used l \<and> fileno l = fno) ls)"
  by (induction ls) (auto simp: unlocked_def)

lemma unlocked_le: "unlocked ls + length (filter (\<lambda>l. used l \<and> fileno l = fno) ls) \<le> length ls"
  by (induction ls) (auto simp: unlocked_def)

lemma remove_all_locks_parts:
  assumes "share_inv s"
  shows "unat (lock_table_free (remove_all_locks fno s)) = unlocked (lock_table (remove_all_locks fno s))"
    and "lock_table (remove_all_locks fno s) =
      map (\<lambda>l. if used l \<and> fileno l = fno then l\<lparr>used := False\<rparr> else l) (lock_table s)"
    and "file_table (remove_all_locks fno s) = file_table s"
    and "file_table_free (remove_all_locks fno s) = file_table_free s"
    and "int24_calls (remove_all_locks fno s) = int24_calls s"
proof -
  let ?k = "length (filter (\<lambda>l. used l \<and> fileno l = fno) (lock_table s))"
  have b: "unlocked (lock_table s) + ?k < 65535"
    using unlocked_le [of "lock_table s" fno] share_invD(2) [OF assms] by linarith
  then have "unat (of_nat ?k :: u16) = ?k" by (intro unat16_of_nat) linarith
  then have "unat (lock_table_free s + of_nat ?k) = unlocked (lock_table s) + ?k"
    using b share_invD(4) [OF assms] by (subst unat_add_no_wrap) simp_all
  then show "unat (lock_table_free (remove_all_locks fno s)) = unlocked (lock_table (remove_all_locks fno s))"
    by (simp add: remove_all_locks_def remove_locks_spec unlocked_removed)
qed (simp_all add: remove_all_locks_def remove_locks_spec)

lemma unused_update:
  "i < length fs \<Longrightarrow> unused (fs[i := f]) + of_bool (filename (fs ! i) = []) = unused fs + of_bool (filename f = [])"
  unfolding unused_def by (rule count_update)

lemma unused_le: "unused fs \<le> length fs"
  by (simp add: unused_def)

lemma blank_entries:
  assumes "\<And>f. f \<in> set fs \<Longrightarrow> entry_ok f" "\<And>f g. f \<in> set fs \<Longrightarrow> g \<in> set fs \<Longrightarrow> same_first f g"
    and "filename e = []"
  shows "\<forall>f \<in> set (fs[i := e]). entry_ok f" and "\<forall>f \<in> set (fs[i := e]). \<forall>g \<in> set (fs[i := e]). same_first f g"
proof -
  have e: "entry_ok e" "\<And>f. same_first e f" "\<And>f. same_first f e"
    using assms(3) by (auto simp: entry_ok_def same_first_def)
  have sub: "set (fs[i := e]) \<subseteq> insert e (set fs)" by (rule set_update_subset_insert)
  show "\<forall>f \<in> set (fs[i := e]). entry_ok f" using sub e(1) assms(1) by blast
  show "\<forall>f \<in> set (fs[i := e]). \<forall>g \<in> set (fs[i := e]). same_first f g" using sub e(2,3) assms(2) by blast
qed

lemma close_file_inv:
  assumes inv: "share_inv s" and i: "unat fno < length (file_table s)" "filename (file_table s ! unat fno) \<noteq> []"
  shows "\<exists>s'. close_file fno s = Some s' \<and> share_inv s'
     \<and> file_table s' = (file_table s)[unat fno := (file_table s ! unat fno)\<lparr>filename := []\<rparr>]
     \<and> lock_table s' = map (\<lambda>l. if used l \<and> fileno l = fno then l\<lparr>used := False\<rparr> else l) (lock_table s)
     \<and> int24_calls s' = int24_calls s"
proof -
  let ?s1 = "remove_all_locks fno s" and ?i = "unat fno"
  let ?s' = "free_file_table_entry ?i ?s1"
  note r = remove_all_locks_parts [OF inv, of fno]
  have cl: "close_file fno s = Some ?s'" using i(1) by (simp add: close_file_def)
  have ft: "file_table ?s' = (file_table s)[?i := (file_table s ! ?i)\<lparr>filename := []\<rparr>]"
    and lt: "lock_table ?s' = lock_table ?s1" and lf: "lock_table_free ?s' = lock_table_free ?s1"
    and ff: "file_table_free ?s' = file_table_free s + 1" and ic: "int24_calls ?s' = int24_calls s"
    using r(3-5) by (simp_all add: free_file_table_entry_def upd_file_def)
  have "unused (file_table ?s') = unused (file_table s) + 1"
    using unused_update [OF i(1), of "(file_table s ! ?i)\<lparr>filename := []\<rparr>"] i(2) ft by simp
  moreover have "unat (file_table_free s + 1) = unused (file_table s) + 1"
    using unat16_inc [of "file_table_free s"] share_invD(1,3) [OF inv] unused_le [of "file_table s"] by simp
  moreover have "lock_ok (file_table ?s') l" if "l \<in> set (lock_table ?s')" for l
  proof -
    obtain k where k: "k \<in> set (lock_table s)" "l = (if used k \<and> fileno k = fno then k\<lparr>used := False\<rparr> else k)"
      using \<open>l \<in> set (lock_table ?s')\<close> lt r(2) by auto
    show ?thesis
    proof (cases "used k \<and> fileno k = fno")
      case True
      then show ?thesis using k(2) by (simp add: lock_ok_def)
    next
      case False
      then have "used k \<Longrightarrow> unat (fileno k) \<noteq> ?i" by (simp add: unat_eq_iff)
      then show ?thesis using k False share_invD(6) [OF inv k(1)] ft by (auto simp: lock_ok_def)
    qed
  qed
  moreover have "\<forall>f \<in> set (file_table ?s'). entry_ok f"
    "\<forall>f \<in> set (file_table ?s'). \<forall>g \<in> set (file_table ?s'). same_first f g"
    unfolding ft by (rule blank_entries; use share_invD(5,7) [OF inv] in simp)+
  ultimately have "share_inv ?s'"
    using share_invD(1,2) [OF inv] ft lt lf ff r(1,2) by (auto simp: share_inv_def)
  then show ?thesis using cl ft lt r(2) ic by simp
qed

section \<open>Opening\<close>

text \<open>The modes the tables hold are cleaned.\<close>

lemma ucast_le_small:
  assumes "\<not> (k :: u16) < m" "unat k < 256"
  shows "(ucast m :: u8) \<le> ucast k"
proof -
  have "unat m \<le> unat k" using assms(1) by (simp add: word_less_nat_alt)
  then show ?thesis unfolding word_le_nat_alt unat_ucast_16_8 using assms(2) by simp
qed

lemma clean_sharemode_le: "clean_sharemode m \<le> 4"
  using ucast_le_small [of 4 "m AND 7"] by (simp add: clean_sharemode_def Let_def SHARE_COMPAT_def)

lemma clean_openmode_le: "clean_openmode m \<le> 2"
  using ucast_le_small [of 2 "m AND 3"] by (simp add: clean_openmode_def Let_def OPEN_READ_ONLY_def)

text \<open>The entry an open writes, with the modes of the first open of the file.\<close>

definition new_entry :: "file_t \<Rightarrow> bytes \<Rightarrow> u16 \<Rightarrow> u16 \<Rightarrow> u16 \<Rightarrow> u8 \<times> u8 \<Rightarrow> file_t" where
  "new_entry f fn psp omode smode fst_modes = f\<lparr>filename := fn, f_psp := psp, openmode := clean_openmode omode,
     sharemode := clean_sharemode smode, first_sharemode := fst fst_modes, first_openmode := snd fst_modes\<rparr>"

text \<open>The state between the steps of \<^verbatim>\<open>open_check\<close>.\<close>

definition open_entry :: "nat \<Rightarrow> bytes \<Rightarrow> u16 \<Rightarrow> u16 \<Rightarrow> u16 \<Rightarrow> share_state \<Rightarrow> u8 \<times> u8 \<Rightarrow> share_state" where
  "open_entry i fn psp omode smode s fst_modes =
     s\<lparr>file_table := (file_table s)[i := new_entry (file_table s ! i) fn psp omode smode fst_modes],
       file_table_free := file_table_free s - 1\<rparr>"

definition held :: "bytes \<Rightarrow> share_state \<Rightarrow> file_t option" where
  "held fn s = find (\<lambda>f. filename f = fn) (file_table s)"

lemma open_check_slot:
  assumes slot: "free_slot (file_table s) = Some i" and fn: "fn \<noteq> []" "length fn < 128" and inv: "share_inv s"
  shows "held fn s = None \<Longrightarrow> open_check fn psp omode smode s =
      Some (int i, open_entry i fn psp omode smode s (clean_sharemode smode, clean_openmode omode))"
    and "held fn s = Some g \<Longrightarrow> open_check fn psp omode smode s =
      (let s1 = open_entry i fn psp omode smode s (first_sharemode g, first_openmode g);
           act = open_action (first_sharemode g) (first_openmode g) (clean_sharemode smode) (clean_openmode omode)
       in Some (if act = 1 then (-5, free_file_table_entry i s1)
                else if act = 2 then (-0x20, call_int24 (drive_of fn) 0x0d (free_file_table_entry i s1))
                else (int i, s1)))"
proof -
  let ?fs = "file_table s"
  note i = free_slot_Some [OF slot]
  let ?own = "new_entry (?fs ! i) fn psp omode smode (clean_sharemode smode, clean_openmode omode)"
  let ?s3 = "upd_file i (\<lambda>f. f\<lparr>f_psp := psp, openmode := clean_openmode omode, sharemode := clean_sharemode smode\<rparr>)
     ((upd_file i (\<lambda>f. f\<lparr>filename := fn\<rparr>) s)\<lparr>file_table_free := file_table_free s - 1\<rparr>)"
  have ck: "open_check fn psp omode smode s = Some (do_open_check i ?s3)"
    using slot fn by (simp add: open_check_def upd_file_def Let_def)
  have ft1: "file_table (upd_file i (\<lambda>f. f\<lparr>first_sharemode := sharemode f, first_openmode := openmode f\<rparr>) ?s3)
      = ?fs[i := ?own]"
    using i(1) by (simp add: upd_file_def new_entry_def)
  have st1: "upd_file i (\<lambda>f. f\<lparr>first_sharemode := sharemode f, first_openmode := openmode f\<rparr>) ?s3
      = open_entry i fn psp omode smode s (clean_sharemode smode, clean_openmode omode)"
    using i(1) by (simp add: upd_file_def new_entry_def open_entry_def)
  { assume "held fn s = None"
    then have "\<forall>f \<in> set ?fs. filename f \<noteq> fn" by (simp add: held_def find_None_iff)
    then have "same_file i (?fs[i := ?own]) = None"
      using i(1) by (auto simp: same_file_None nth_list_update new_entry_def)
    then show "open_check fn psp omode smode s =
      Some (int i, open_entry i fn psp omode smode s (clean_sharemode smode, clean_openmode omode))"
      using ck ft1 st1 by (simp add: do_open_check_def Let_def) }
  { assume h: "held fn s = Some g"
    then have g: "g \<in> set ?fs" "filename g = fn" by (auto simp: held_def find_Some_iff)
    then obtain k where k: "k < length ?fs" "?fs ! k = g" by (auto simp: in_set_conv_nth)
    have "k \<noteq> i" using g(2) k(2) i(2) fn(1) by auto
    then have "same_file i (?fs[i := ?own]) \<noteq> None"
      using k g(2) fn(1) i(1) by (auto simp: same_file_None new_entry_def)
    then obtain j where j: "same_file i (?fs[i := ?own]) = Some j" by blast
    note jp = same_file_Some [OF j]
    have jn: "?fs[i := ?own] ! j = ?fs ! j" "?fs ! j \<in> set ?fs" "filename (?fs ! j) = fn"
      using jp i(1) by (simp_all add: new_entry_def)
    then have first: "first_sharemode (?fs ! j) = first_sharemode g" "first_openmode (?fs ! j) = first_openmode g"
      using share_invD(7) [OF inv jn(2) g(1)] g(2) fn(1) by (simp_all add: same_first_def)
    have "upd_file i (\<lambda>f. f\<lparr>first_sharemode := first_sharemode g, first_openmode := first_openmode g\<rparr>)
        (open_entry i fn psp omode smode s (clean_sharemode smode, clean_openmode omode))
      = open_entry i fn psp omode smode s (first_sharemode g, first_openmode g)"
      using i(1) by (simp add: open_entry_def upd_file_def new_entry_def)
    moreover have "file_table (open_entry i fn psp omode smode s m) ! i = new_entry (?fs ! i) fn psp omode smode m" for m
      using i(1) by (simp add: open_entry_def)
    ultimately show "open_check fn psp omode smode s =
      (let s1 = open_entry i fn psp omode smode s (first_sharemode g, first_openmode g);
           act = open_action (first_sharemode g) (first_openmode g) (clean_sharemode smode) (clean_openmode omode)
       in Some (if act = 1 then (-5, free_file_table_entry i s1)
                else if act = 2 then (-0x20, call_int24 (drive_of fn) 0x0d (free_file_table_entry i s1))
                else (int i, s1)))"
      using ck j jn(1) first ft1 unfolding st1 by (simp add: do_open_check_def Let_def st1 new_entry_def) }
qed

lemma open_entry_inv:
  assumes inv: "share_inv s" and slot: "free_slot (file_table s) = Some i"
    and first: "\<And>g. g \<in> set (file_table s) \<Longrightarrow> filename g = fn \<Longrightarrow> fn \<noteq> [] \<Longrightarrow>
       m = (first_sharemode g, first_openmode g)"
    and le: "fst m \<le> 4" "snd m \<le> 2" and fn: "fn \<noteq> []"
  shows "share_inv (open_entry i fn psp omode smode s m)"
proof -
  let ?fs = "file_table s"
  let ?e = "new_entry (?fs ! i) fn psp omode smode m"
  note i = free_slot_Some [OF slot]
  have e: "filename ?e = fn" "first_sharemode ?e = fst m" "first_openmode ?e = snd m"
    by (simp_all add: new_entry_def)
  have eok: "entry_ok ?e"
    using le clean_sharemode_le clean_openmode_le by (simp add: entry_ok_def new_entry_def)
  have sub: "set (?fs[i := ?e]) \<subseteq> insert ?e (set ?fs)" by (rule set_update_subset_insert)
  have same: "same_first ?e g \<and> same_first g ?e" if "g \<in> set ?fs" for g
    using first [OF that] fn e by (auto simp: same_first_def)
  have cnt: "unused (?fs[i := ?e]) + 1 = unused ?fs" using unused_update [OF i(1), of ?e] i(2) e fn by simp
  then have "unat (file_table_free s - 1) = unused (?fs[i := ?e])"
    using share_invD(3) [OF inv] by (subst unat16_dec) simp_all
  moreover have "\<forall>f \<in> set (?fs[i := ?e]). entry_ok f" using sub eok share_invD(5) [OF inv] by blast
  moreover have "\<forall>f \<in> set (?fs[i := ?e]). \<forall>g \<in> set (?fs[i := ?e]). same_first f g"
  proof (intro ballI)
    fix f g assume "f \<in> set (?fs[i := ?e])" "g \<in> set (?fs[i := ?e])"
    then have "f = ?e \<or> f \<in> set ?fs" "g = ?e \<or> g \<in> set ?fs" using sub by blast+
    moreover have "same_first ?e ?e" by (simp add: same_first_def)
    ultimately show "same_first f g" using same share_invD(7) [OF inv] by blast
  qed
  moreover have "lock_ok (?fs[i := ?e]) l" if "l \<in> set (lock_table s)" for l
    using share_invD(6) [OF inv that] fn e i(1) by (auto simp: lock_ok_def nth_list_update)
  ultimately show ?thesis
    using share_invD(1-4) [OF inv] by (simp add: share_inv_def open_entry_def)
qed

lemma free_file_table_entry_sel [simp]:
  "lock_table (free_file_table_entry i s) = lock_table s"
  "lock_table_free (free_file_table_entry i s) = lock_table_free s"
  "int24_calls (free_file_table_entry i s) = int24_calls s"
  "file_table (free_file_table_entry i s) = (file_table s)[i := (file_table s ! i)\<lparr>filename := []\<rparr>]"
  "file_table_free (free_file_table_entry i s) = file_table_free s + 1"
  by (simp_all add: free_file_table_entry_def upd_file_def)

lemma call_int24_sel [simp]:
  "lock_table (call_int24 a d s) = lock_table s" "lock_table_free (call_int24 a d s) = lock_table_free s"
  "file_table (call_int24 a d s) = file_table s" "file_table_free (call_int24 a d s) = file_table_free s"
  "int24_calls (call_int24 a d s) = int24_calls s @ [(a, d)]"
  by (simp_all add: call_int24_def)

lemma share_inv_int24 [simp]: "share_inv (call_int24 a d s) = share_inv s"
  by (simp add: share_inv_def)

lemma undo_open:
  assumes inv: "share_inv s" and slot: "free_slot (file_table s) = Some i"
    and s'_def: "s' = free_file_table_entry i (open_entry i fn psp omode smode s m)"
  shows "share_inv s'" and "map filename (file_table s') = map filename (file_table s)"
    and "lock_table s' = lock_table s"
    and "file_table_free s' = file_table_free s"
    and "\<And>j. j \<noteq> i \<Longrightarrow> file_table s' ! j = file_table s ! j"
    and "lock_table_free s' = lock_table_free s" and "int24_calls s' = int24_calls s"
proof -
  let ?fs = "file_table s"
  let ?e = "(new_entry (?fs ! i) fn psp omode smode m)\<lparr>filename := []\<rparr>"
  note i = free_slot_Some [OF slot]
  have ft: "file_table s' = ?fs[i := ?e]" using i(1) by (simp add: s'_def open_entry_def)
  have ff: "file_table_free s' = file_table_free s" and lt: "lock_table s' = lock_table s"
    and lf: "lock_table_free s' = lock_table_free s"
    by (simp_all add: s'_def open_entry_def)
  show "map filename (file_table s') = map filename ?fs"
    using i unfolding ft map_update by (simp add: list_update_same_conv)
  have "unused (?fs[i := ?e]) = unused ?fs" using unused_update [OF i(1), of ?e] i(2) by simp
  moreover have "\<forall>f \<in> set (?fs[i := ?e]). entry_ok f"
    "\<forall>f \<in> set (?fs[i := ?e]). \<forall>g \<in> set (?fs[i := ?e]). same_first f g"
    by (rule blank_entries; use share_invD(5,7) [OF inv] in simp)+
  moreover have "lock_ok (?fs[i := ?e]) l" if "l \<in> set (lock_table s)" for l
    using share_invD(6) [OF inv that] i by (auto simp: lock_ok_def nth_list_update)
  ultimately show "share_inv s'"
    using share_invD(1-4) [OF inv] unfolding share_inv_def ft ff lt lf by simp
  show "lock_table s' = lock_table s" "file_table_free s' = file_table_free s" by fact+
  show "\<And>j. j \<noteq> i \<Longrightarrow> file_table s' ! j = ?fs ! j" unfolding ft by simp
  show "lock_table_free s' = lock_table_free s" "int24_calls s' = int24_calls s"
    by (simp_all add: s'_def open_entry_def)
qed

section \<open>The sharing policy\<close>

definition denies_read :: "u8 \<Rightarrow> bool" where
  "denies_read m \<longleftrightarrow> m = SHARE_DENY_ALL \<or> m = SHARE_DENY_READ"

definition denies_write :: "u8 \<Rightarrow> bool" where
  "denies_write m \<longleftrightarrow> m = SHARE_DENY_ALL \<or> m = SHARE_DENY_WRITE"

definition may_read :: "u8 \<Rightarrow> bool" where
  "may_read m \<longleftrightarrow> m = OPEN_READ_ONLY \<or> m = OPEN_READ_WRITE"

definition may_write :: "u8 \<Rightarrow> bool" where
  "may_write m \<longleftrightarrow> m = OPEN_WRITE_ONLY \<or> m = OPEN_READ_WRITE"

text \<open>Neither open does what the other one denies.\<close>

definition compatible :: "u8 \<Rightarrow> u8 \<Rightarrow> u8 \<Rightarrow> u8 \<Rightarrow> bool" where
  "compatible fs fo cs co \<longleftrightarrow>
     (denies_read fs \<longrightarrow> \<not> may_read co) \<and> (denies_write fs \<longrightarrow> \<not> may_write co)
     \<and> (denies_read cs \<longrightarrow> \<not> may_read fo) \<and> (denies_write cs \<longrightarrow> \<not> may_write fo)"

lemma policy_table:
  "\<forall>fs \<in> set [0, 1, 2, 3, 4]. \<forall>fo \<in> set [0, 1, 2]. \<forall>cs \<in> set [0, 1, 2, 3, 4]. \<forall>co \<in> set [0, 1, 2].
     open_action fs fo cs co = 1 \<or> open_action fs fo cs co = 2 \<or> compatible fs fo cs co"
  by code_simp

lemma u8_le4: "(x :: u8) \<le> 4 \<Longrightarrow> x \<in> set [0, 1, 2, 3, 4]"
proof -
  assume "x \<le> 4"
  then have "unat x \<le> 4" by (simp add: word_le_nat_alt)
  then have "unat x = 0 \<or> unat x = 1 \<or> unat x = 2 \<or> unat x = 3 \<or> unat x = 4" by linarith
  then show ?thesis by (auto simp: unat_eq_iff)
qed

lemma u8_le2: "(x :: u8) \<le> 2 \<Longrightarrow> x \<in> set [0, 1, 2]"
proof -
  assume "x \<le> 2"
  then have "unat x \<le> 2" by (simp add: word_le_nat_alt)
  then have "unat x = 0 \<or> unat x = 1 \<or> unat x = 2" by linarith
  then show ?thesis by (auto simp: unat_eq_iff)
qed

lemma policy_sound:
  assumes "fs \<le> 4" "fo \<le> 2" "cs \<le> 4" "co \<le> 2" "open_action fs fo cs co \<noteq> 1" "open_action fs fo cs co \<noteq> 2"
  shows "compatible fs fo cs co"
  using policy_table u8_le4 [OF assms(1)] u8_le2 [OF assms(2)] u8_le4 [OF assms(3)] u8_le2 [OF assms(4)]
    assms(5,6) by blast

section \<open>Opening and closing: properties\<close>

lemma held_Some:
  assumes "share_inv s" "held fn s = Some g" "fn \<noteq> []"
  shows "g \<in> set (file_table s)" "filename g = fn" "first_sharemode g \<le> 4" "first_openmode g \<le> 2"
    and "\<And>h. h \<in> set (file_table s) \<Longrightarrow> filename h = fn \<Longrightarrow>
      first_sharemode h = first_sharemode g \<and> first_openmode h = first_openmode g"
proof -
  show g: "g \<in> set (file_table s)" "filename g = fn" using assms(2) by (auto simp: held_def find_Some_iff)
  then show "first_sharemode g \<le> 4" "first_openmode g \<le> 2"
    using share_invD(5) [OF assms(1) g(1)] assms(3) by (simp_all add: entry_ok_def)
  show "first_sharemode h = first_sharemode g \<and> first_openmode h = first_openmode g"
    if "h \<in> set (file_table s)" "filename h = fn" for h
    using share_invD(7) [OF assms(1) that(1) g(1)] that(2) g(2) assms(3) by (simp add: same_first_def)
qed

lemma held_None: "held fn s = None \<longleftrightarrow> (\<forall>f \<in> set (file_table s). filename f \<noteq> fn)"
  by (auto simp: held_def find_None_iff)

lemma open_check_policy:
  assumes inv: "share_inv s" and fn: "fn \<noteq> []" "length fn < 128"
    and oc: "open_check fn psp omode smode s = Some (r, s')"
  shows "share_inv s' \<and> lock_table s' = lock_table s \<and> lock_table_free s' = lock_table_free s \<and>
    (if 0 \<le> r
     then free_slot (file_table s) = Some (nat r) \<and> file_table_free s' = file_table_free s - 1
       \<and> filename (file_table s' ! nat r) = fn \<and> f_psp (file_table s' ! nat r) = psp
       \<and> openmode (file_table s' ! nat r) = clean_openmode omode
       \<and> sharemode (file_table s' ! nat r) = clean_sharemode smode
       \<and> (\<forall>j. j \<noteq> nat r \<longrightarrow> file_table s' ! j = file_table s ! j)
       \<and> length (file_table s') = length (file_table s) \<and> int24_calls s' = int24_calls s
       \<and> (\<forall>g \<in> set (file_table s). filename g = fn \<longrightarrow>
            compatible (first_sharemode g) (first_openmode g) (clean_sharemode smode) (clean_openmode omode))
     else r \<in> {-1, -5, -0x20} \<and> file_table_free s' = file_table_free s
       \<and> (if r = -1 then s' = s \<and> (\<forall>f \<in> set (file_table s). filename f \<noteq> [])
          else fn \<in> filename ` set (file_table s))
       \<and> map filename (file_table s') = map filename (file_table s)
       \<and> (\<forall>j. filename (file_table s ! j) \<noteq> [] \<longrightarrow> file_table s' ! j = file_table s ! j)
       \<and> int24_calls s' = int24_calls s @ (if r = -0x20 then [(drive_of fn, 0x0d)] else []))"
proof (cases "free_slot (file_table s)")
  case None
  then have "r = -1" "s' = s" "\<forall>f \<in> set (file_table s). filename f \<noteq> []"
    using oc by (simp_all add: open_check_def flip: free_slot_None)
  then show ?thesis using inv by simp
next
  case (Some i)
  note sl = Some
  note i = free_slot_Some [OF Some]
  note slot = open_check_slot [OF Some fn inv, where psp = psp and omode = omode and smode = smode]
  let ?e = "open_entry i fn psp omode smode s"
  have ent: "file_table (?e m) ! i = new_entry (file_table s ! i) fn psp omode smode m"
    "\<And>j. j \<noteq> i \<Longrightarrow> file_table (?e m) ! j = file_table s ! j" "lock_table (?e m) = lock_table s"
    "lock_table_free (?e m) = lock_table_free s" "file_table_free (?e m) = file_table_free s - 1"
    "length (file_table (?e m)) = length (file_table s)" "int24_calls (?e m) = int24_calls s" for m
    using i(1) by (simp_all add: open_entry_def)
  show ?thesis
  proof (cases "held fn s")
    case None
    have "share_inv (?e (clean_sharemode smode, clean_openmode omode))"
      using None by (intro open_entry_inv [OF inv Some _ _ _ fn(1)])
        (auto simp: held_None clean_sharemode_le clean_openmode_le)
    moreover have r: "r = int i" "s' = ?e (clean_sharemode smode, clean_openmode omode)"
      using oc slot(1) [OF None] by simp_all
    moreover have "\<forall>g \<in> set (file_table s). filename g \<noteq> fn" using None by (simp only: held_None)
    ultimately show ?thesis using Some ent by (simp add: new_entry_def)
  next
    case (Some g)
    note g = held_Some [OF inv Some fn(1)]
    let ?m = "(first_sharemode g, first_openmode g)"
    let ?act = "open_action (first_sharemode g) (first_openmode g) (clean_sharemode smode) (clean_openmode omode)"
    note eq = slot(2) [OF Some]
    have keep: "share_inv (?e ?m)"
    proof (rule open_entry_inv [OF inv sl _ _ _ fn(1)])
      show "?m = (first_sharemode h, first_openmode h)" if "h \<in> set (file_table s)" "filename h = fn" for h
        using g(5) [OF that] by simp
    qed (use g(3,4) in simp_all)
    note undo = undo_open [OF inv sl refl, where fn = fn and psp = psp and omode = omode and smode = smode and m = ?m]
    have named: "fn \<in> filename ` set (file_table s)" using g(1,2) by blast
    have kept: "\<forall>j. filename (file_table s ! j) \<noteq> [] \<longrightarrow>
        file_table (free_file_table_entry i (?e ?m)) ! j = file_table s ! j"
    proof (intro allI impI)
      fix j assume "filename (file_table s ! j) \<noteq> []"
      then have "j \<noteq> i" using i(2) by metis
      then show "file_table (free_file_table_entry i (?e ?m)) ! j = file_table s ! j" by (rule undo(5))
    qed
    consider "?act = 1" | "?act \<noteq> 1" "?act = 2" | "?act \<noteq> 1" "?act \<noteq> 2" by blast
    then show ?thesis
    proof cases
      case 3
      have "compatible (first_sharemode h) (first_openmode h) (clean_sharemode smode) (clean_openmode omode)"
        if "h \<in> set (file_table s)" "filename h = fn" for h
        using policy_sound [OF g(3,4) clean_sharemode_le clean_openmode_le 3] g(5) [OF that] by simp
      moreover have "r = int i" "s' = ?e ?m" using oc eq 3 by (simp_all add: Let_def)
      ultimately show ?thesis using keep ent sl by (simp add: new_entry_def)
    next
      case 1
      then have "r = -5" "s' = free_file_table_entry i (?e ?m)" using oc eq by (simp_all add: Let_def)
      then show ?thesis using undo(1-4) undo(6-7) named kept by simp
    next
      case 2
      then have "r = -0x20" "s' = call_int24 (drive_of fn) 0x0d (free_file_table_entry i (?e ?m))"
        using oc eq by (simp_all add: Let_def)
      then show ?thesis using undo(1-4) undo(6-7) named kept by simp
    qed
  qed
qed

text \<open>
  C7: an open is granted only when it is compatible with the first open of the same file:
  neither of the two reads or writes what the other denies. The granted open takes the first free
  entry, which gets the name, the process and the cleaned modes, and changes no other entry. A refused
  open, which happens only when no entry is free or the file is open already, leaves the entries of
  all open files, the free entries and all locks as they were; what it may have written stays in the
  free entry it tried. The only critical error is the sharing violation, for the drive of the name.
  The table invariant holds afterwards in every case.
\<close>

theorem open_check_respects_policy:
  assumes inv: "share_inv s" and fn: "fn \<noteq> []" "length fn < 128"
    and oc: "open_check fn psp omode smode s = Some (r, s')"
  shows "share_inv s' \<and> lock_table s' = lock_table s \<and> lock_table_free s' = lock_table_free s \<and>
    (if 0 \<le> r
     then free_slot (file_table s) = Some (nat r) \<and> file_table_free s' = file_table_free s - 1
       \<and> filename (file_table s' ! nat r) = fn \<and> f_psp (file_table s' ! nat r) = psp
       \<and> openmode (file_table s' ! nat r) = clean_openmode omode
       \<and> sharemode (file_table s' ! nat r) = clean_sharemode smode
       \<and> (\<forall>j. j \<noteq> nat r \<longrightarrow> file_table s' ! j = file_table s ! j)
       \<and> length (file_table s') = length (file_table s) \<and> int24_calls s' = int24_calls s
       \<and> (\<forall>g \<in> set (file_table s). filename g = fn \<longrightarrow>
            compatible (first_sharemode g) (first_openmode g) (clean_sharemode smode) (clean_openmode omode))
     else r \<in> {-1, -5, -0x20} \<and> file_table_free s' = file_table_free s
       \<and> (if r = -1 then s' = s \<and> (\<forall>f \<in> set (file_table s). filename f \<noteq> [])
          else fn \<in> filename ` set (file_table s))
       \<and> map filename (file_table s') = map filename (file_table s)
       \<and> (\<forall>j. filename (file_table s ! j) \<noteq> [] \<longrightarrow> file_table s' ! j = file_table s ! j)
       \<and> int24_calls s' = int24_calls s @ (if r = -0x20 then [(drive_of fn, 0x0d)] else []))"
  by (rule open_check_policy [OF assms])

text \<open>
  C8: closing a file frees its entry and removes every lock held through it, and nothing else;
  the table invariant is kept.
\<close>

theorem close_file_releases:
  assumes "share_inv s" "unat fno < length (file_table s)" "filename (file_table s ! unat fno) \<noteq> []"
  shows "\<exists>s'. close_file fno s = Some s' \<and> share_inv s' \<and> filename (file_table s' ! unat fno) = []
     \<and> (\<forall>j. j \<noteq> unat fno \<longrightarrow> file_table s' ! j = file_table s ! j)
     \<and> filter used (lock_table s') = filter (\<lambda>l. used l \<and> fileno l \<noteq> fno) (lock_table s)"
proof -
  obtain s' where s': "close_file fno s = Some s'" "share_inv s'"
    "file_table s' = (file_table s)[unat fno := (file_table s ! unat fno)\<lparr>filename := []\<rparr>]"
    "lock_table s' = map (\<lambda>l. if used l \<and> fileno l = fno then l\<lparr>used := False\<rparr> else l) (lock_table s)"
    using close_file_inv [OF assms] by blast
  have "filter used (map (\<lambda>l. if used l \<and> fileno l = fno then l\<lparr>used := False\<rparr> else l) ls)
      = filter (\<lambda>l. used l \<and> fileno l \<noteq> fno) ls" for ls
    by (induction ls) auto
  then show ?thesis using s' assms(2) by auto
qed

section \<open>Locks\<close>

text \<open>The requested region is \<open>ofs .. region_end ofs len\<close>, and not empty when its length is not 0.\<close>

lemma region_len_end: "ofs + region_len ofs len = region_end ofs len"
  by (simp add: region_len_def region_end_def)

lemma region_nonempty: "\<not> region_len ofs len < 1 \<Longrightarrow> ofs < region_end ofs len"
proof (cases "ofs + len < ofs")
  case True
  assume "\<not> region_len ofs len < 1"
  then have "0xffffffff - ofs \<noteq> 0" using True by (auto simp: region_len_def)
  then have "ofs \<noteq> 0xffffffff" by auto
  then have "unat ofs \<noteq> 4294967295" by (simp add: unat_eq_iff)
  moreover have "unat ofs < 4294967296" by (rule unat32_lt)
  ultimately have "unat ofs < 4294967295" by linarith
  then have "ofs < 0xffffffff" unfolding word_less_nat_alt by simp
  then show ?thesis using True by (simp add: region_end_def)
next
  case False
  assume "\<not> region_len ofs len < 1"
  then have "len \<noteq> 0" using False by (auto simp: region_len_def)
  then have "ofs + len \<noteq> ofs" by simp
  then show ?thesis using False by (simp add: region_end_def less_le not_less)
qed

definition overlaps :: "u32 \<Rightarrow> u32 \<Rightarrow> lock_t \<Rightarrow> bool" where
  "overlaps ofs endofs l \<longleftrightarrow> ofs < end_ofs l \<and> start l < endofs"

definition encloses :: "u32 \<Rightarrow> u32 \<Rightarrow> lock_t \<Rightarrow> bool" where
  "encloses ofs endofs l \<longleftrightarrow> ofs < start l \<and> end_ofs l < endofs"

definition foreign :: "u16 \<Rightarrow> bytes \<Rightarrow> share_state \<Rightarrow> lock_t \<Rightarrow> bool" where
  "foreign psp fn s l \<longleftrightarrow> l \<in> set (lock_table s) \<and> used l \<and> (psp = 0 \<or> l_psp l \<noteq> psp)
     \<and> filename (file_table s ! unat (fileno l)) = fn"

lemma conflicts_iff:
  assumes "ofs < endofs"
  shows "conflicts psp fn ofs endofs fs l \<longleftrightarrow> used l \<and> (psp = 0 \<or> l_psp l \<noteq> psp)
     \<and> filename (fs ! unat (fileno l)) = fn \<and> overlaps ofs endofs l \<and> \<not> encloses ofs endofs l"
  using assms by (auto simp: conflicts_def overlaps_def encloses_def not_less)

text \<open>What the search of \<^verbatim>\<open>access_check\<close> finds.\<close>

lemma access_check_search:
  assumes "unat fno < length (file_table s)" "\<not> region_len ofs len < 1"
  shows "access_check psp fno ofs len crit s =
    Some (if \<exists>l. foreign psp (filename (file_table s ! unat fno)) s l \<and> overlaps ofs (region_end ofs len) l
               \<and> \<not> encloses ofs (region_end ofs len) l
          then (-0x21, if crit then call_int24 (drive_of (filename (file_table s ! unat fno))) 0x0e
                   (free_file_table_entry (unat fno) s) else s)
          else (0, s))"
proof -
  let ?fn = "filename (file_table s ! unat fno)"
  have ne: "ofs < region_end ofs len" by (rule region_nonempty [OF assms(2)])
  have "find (conflicts psp ?fn ofs (region_end ofs len) (file_table s)) (lock_table s) = None \<longleftrightarrow>
    \<not> (\<exists>l. foreign psp ?fn s l \<and> overlaps ofs (region_end ofs len) l \<and> \<not> encloses ofs (region_end ofs len) l)"
    by (auto simp: find_None_iff conflicts_iff [OF ne] foreign_def)
  then show ?thesis
    using assms by (cases "find (conflicts psp ?fn ofs (region_end ofs len) (file_table s)) (lock_table s)")
      (simp_all add: access_check_def Let_def)
qed

text \<open>
  C9: an access is refused only when another process has locked a part of the region,
  in the same file, and it is refused whenever such a lock holds the first or the last byte of the
  region or reaches beyond it; no claim is made for a lock that lies strictly inside the region. Without a
  refusal nothing changes; a refusal changes something only when a critical error is allowed: the
  entry of the file is freed and the lock violation is raised for the drive of its name.
\<close>

theorem access_check_guards_locks:
  assumes "unat fno < length (file_table s)" "\<not> region_len ofs len < 1"
  defines "fn \<equiv> filename (file_table s ! unat fno)"
  shows "\<exists>r s'. access_check psp fno ofs len crit s = Some (r, s') \<and> r \<in> {0, -0x21}
    \<and> (r \<noteq> 0 \<longrightarrow> (\<exists>l. foreign psp fn s l \<and> overlaps ofs (region_end ofs len) l))
    \<and> ((\<exists>l. foreign psp fn s l \<and> overlaps ofs (region_end ofs len) l \<and> \<not> encloses ofs (region_end ofs len) l) \<longrightarrow> r \<noteq> 0)
    \<and> s' = (if crit \<and> r \<noteq> 0 then call_int24 (drive_of fn) 0x0e (free_file_table_entry (unat fno) s) else s)"
  unfolding fn_def access_check_search [OF assms(1,2)] by auto

lemma lock_first_spec:
  assumes "lock_first psp fno ofs endofs ls = Some ls'" and "\<forall>l \<in> set ls. used l \<longrightarrow> \<not> (l_psp l = psp \<and> fileno l = fno \<and> start l = ofs \<and> end_ofs l = endofs)"
  shows "\<exists>as l bs. ls = as @ l # bs \<and> \<not> used l
     \<and> ls' = as @ l\<lparr>used := True, start := ofs, end_ofs := endofs, fileno := fno, l_psp := psp\<rparr> # bs
     \<and> unlock_first psp fno ofs endofs ls' = Some (as @ l\<lparr>used := False, start := ofs, end_ofs := endofs, fileno := fno, l_psp := psp\<rparr> # bs)"
  using assms
proof (induction ls arbitrary: ls')
  case (Cons l ls)
  show ?case
  proof (cases "used l")
    case False
    then show ?thesis using Cons.prems(1) by (intro exI [of _ "[]"] exI [of _ l] exI [of _ ls]) auto
  next
    case True
    then obtain ls1 where ls1: "lock_first psp fno ofs endofs ls = Some ls1" "ls' = l # ls1"
      using Cons.prems(1) by auto
    obtain as k bs where k: "ls = as @ k # bs" "\<not> used k"
      "ls1 = as @ k\<lparr>used := True, start := ofs, end_ofs := endofs, fileno := fno, l_psp := psp\<rparr> # bs"
      "unlock_first psp fno ofs endofs ls1 = Some (as @ k\<lparr>used := False, start := ofs, end_ofs := endofs, fileno := fno, l_psp := psp\<rparr> # bs)"
      using Cons.IH [OF ls1(1)] Cons.prems(2) by auto
    then show ?thesis using ls1 True Cons.prems(2)
      by (intro exI [of _ "l # as"] exI [of _ k] exI [of _ bs]) auto
  qed
qed simp

text \<open>
  C10: a lock that was granted is released again by the unlock call with the same arguments,
  which restores the active locks, in order, and the free counts.
\<close>

theorem unlock_after_lock:
  assumes inv: "share_inv s" and len: "\<not> region_len ofs len < 1"
    and lock: "lock_unlock psp fno ofs len False s = Some (0, s1)"
  shows "\<exists>s2. lock_unlock psp fno ofs len True s1 = Some (0, s2)
     \<and> filter used (lock_table s2) = filter used (lock_table s)
     \<and> file_table s2 = file_table s \<and> lock_table_free s2 = lock_table_free s"
proof -
  let ?e = "region_end ofs len"
  have e: "ofs + region_len ofs len = ?e" by (rule region_len_end)
  have ne: "ofs < ?e" by (rule region_nonempty [OF len])
  have fno: "unat fno < length (file_table s)"
    using lock len by (auto simp: lock_unlock_def access_check_def split: if_splits)
  have ne2: "\<not> region_len ofs (region_len ofs len) < 1" and e2: "region_end ofs (region_len ofs len) = ?e"
    using len e ne by (auto simp: region_len_def region_end_def)
  note ac = access_check_search [OF fno ne2, of 0 False, unfolded e2]
  have no: "\<not> (\<exists>l. foreign 0 (filename (file_table s ! unat fno)) s l \<and> overlaps ofs ?e l \<and> \<not> encloses ofs ?e l)"
  proof
    assume "\<exists>l. foreign 0 (filename (file_table s ! unat fno)) s l \<and> overlaps ofs ?e l \<and> \<not> encloses ofs ?e l"
    then have "access_check 0 fno ofs (region_len ofs len) False s = Some (-0x21, s)" using ac by simp
    then show False using lock len by (simp add: lock_unlock_def)
  qed
  then have "access_check 0 fno ofs (region_len ofs len) False s = Some (0, s)" using ac by auto
  then obtain ls where ls: "lock_first psp fno ofs ?e (lock_table s) = Some ls"
      and s1: "s1 = s\<lparr>lock_table := ls, lock_table_free := lock_table_free s - 1\<rparr>"
    using lock len e by (auto simp: lock_unlock_def split: option.splits)
  have fresh: "\<forall>l \<in> set (lock_table s). used l \<longrightarrow> \<not> (l_psp l = psp \<and> fileno l = fno \<and> start l = ofs \<and> end_ofs l = ?e)"
    using no ne by (auto simp: foreign_def overlaps_def encloses_def)
  obtain as l bs where sp: "lock_table s = as @ l # bs" "\<not> used l"
     "ls = as @ l\<lparr>used := True, start := ofs, end_ofs := ?e, fileno := fno, l_psp := psp\<rparr> # bs"
     "unlock_first psp fno ofs ?e ls = Some (as @ l\<lparr>used := False, start := ofs, end_ofs := ?e, fileno := fno, l_psp := psp\<rparr> # bs)"
    using lock_first_spec [OF ls fresh] by blast
  let ?s2 = "s1\<lparr>lock_table := as @ l\<lparr>used := False, start := ofs, end_ofs := ?e, fileno := fno, l_psp := psp\<rparr> # bs,
     lock_table_free := lock_table_free s1 + 1\<rparr>"
  have "lock_unlock psp fno ofs len True s1 = Some (0, ?s2)"
    using len sp(4) s1 by (simp add: lock_unlock_def)
  moreover have "filter used (lock_table ?s2) = filter used (lock_table s)" using sp(1,2) by simp
  ultimately show ?thesis using s1 by (intro exI [of _ ?s2]) simp
qed

section \<open>The interrupt handler\<close>

lemma unlocked_update:
  "i < length ls \<Longrightarrow> unlocked (ls[i := l]) + of_bool (\<not> used (ls ! i)) = unlocked ls + of_bool (\<not> used l)"
  unfolding unlocked_def by (rule count_update)

lemma lock_first_cases:
  "lock_first psp fno ofs endofs ls = Some ls' \<Longrightarrow> \<exists>as l bs. ls = as @ l # bs \<and> \<not> used l
     \<and> ls' = as @ l\<lparr>used := True, start := ofs, end_ofs := endofs, fileno := fno, l_psp := psp\<rparr> # bs"
proof (induction ls arbitrary: ls')
  case (Cons l ls)
  show ?case
  proof (cases "used l")
    case False
    then show ?thesis using Cons.prems by (intro exI [of _ "[]"] exI [of _ l] exI [of _ ls]) auto
  next
    case True
    then obtain ls1 where ls1: "lock_first psp fno ofs endofs ls = Some ls1" "ls' = l # ls1"
      using Cons.prems by auto
    from Cons.IH [OF ls1(1)] obtain as k bs where "ls = as @ k # bs" "\<not> used k"
      "ls1 = as @ k\<lparr>used := True, start := ofs, end_ofs := endofs, fileno := fno, l_psp := psp\<rparr> # bs" by blast
    then show ?thesis using ls1(2) by (intro exI [of _ "l # as"] exI [of _ k] exI [of _ bs]) simp
  qed
qed simp

lemma unlock_first_cases:
  "unlock_first psp fno ofs endofs ls = Some ls' \<Longrightarrow> \<exists>as l bs. ls = as @ l # bs \<and> used l
     \<and> ls' = as @ l\<lparr>used := False\<rparr> # bs"
proof (induction ls arbitrary: ls')
  case (Cons l ls)
  show ?case
  proof (cases "used l \<and> l_psp l = psp \<and> fileno l = fno \<and> start l = ofs \<and> end_ofs l = endofs")
    case True
    then show ?thesis using Cons.prems by (intro exI [of _ "[]"] exI [of _ l] exI [of _ ls]) auto
  next
    case False
    then obtain ls1 where ls1: "unlock_first psp fno ofs endofs ls = Some ls1" "ls' = l # ls1"
      using Cons.prems by (auto split: if_splits)
    from Cons.IH [OF ls1(1)] obtain as k bs where "ls = as @ k # bs" "used k"
      "ls1 = as @ k\<lparr>used := False\<rparr> # bs" by blast
    then show ?thesis using ls1(2) by (intro exI [of _ "l # as"] exI [of _ k] exI [of _ bs]) simp
  qed
qed simp

lemma lock_unlock_inv:
  assumes inv: "share_inv s" and open_fno: "unat fno < length (file_table s) \<and> filename (file_table s ! unat fno) \<noteq> []"
    and lu: "lock_unlock psp fno ofs len u s = Some (r, s')"
  shows "share_inv s'"
proof -
  have add: "share_inv (s\<lparr>lock_table := as @ l' # bs, lock_table_free := free\<rparr>)"
    if "lock_table s = as @ l # bs" "lock_ok (file_table s) l'"
      "unat free + of_bool (\<not> used l) = unlocked (lock_table s) + of_bool (\<not> used l')" for as l l' bs free
  proof -
    have "unlocked (as @ l' # bs) + of_bool (\<not> used l) = unlocked (as @ l # bs) + of_bool (\<not> used l')"
      by (auto simp: unlocked_def)
    then have "unat free = unlocked (as @ l' # bs)" using that(1,3) by simp
    moreover have "\<forall>k \<in> set (as @ l' # bs). lock_ok (file_table s) k"
      using share_invD(6) [OF inv] that(1,2) by auto
    moreover have "length (as @ l' # bs) < 65535" using share_invD(2) [OF inv] that(1) by simp
    ultimately show ?thesis
      using share_invD(1,3,5,7) [OF inv] unfolding share_inv_def by simp
  qed
  have cnt: "unlocked (lock_table s) \<le> length (lock_table s)" by (simp add: unlocked_def)
  consider "s' = s" | ls where "u" "unlock_first psp fno ofs (region_end ofs len) (lock_table s) = Some ls"
      "s' = s\<lparr>lock_table := ls, lock_table_free := lock_table_free s + 1\<rparr>"
    | ls where "lock_first psp fno ofs (ofs + region_len ofs len) (lock_table s) = Some ls"
      "s' = s\<lparr>lock_table := ls, lock_table_free := lock_table_free s - 1\<rparr>"
  proof (cases "region_len ofs len < 1")
    case True
    then show ?thesis using lu that(1) by (simp add: lock_unlock_def)
  next
    case nz: False
    show ?thesis
    proof (cases u)
      case True
      then show ?thesis using lu nz that(1,2) by (simp add: lock_unlock_def split: option.splits)
    next
      case False
      then obtain q st where ac: "access_check 0 fno ofs (region_len ofs len) False s = Some (q, st)"
        using lu nz by (cases "access_check 0 fno ofs (region_len ofs len) False s") (auto simp: lock_unlock_def)
      show ?thesis
      proof (cases "lock_first psp fno ofs (ofs + region_len ofs len) (lock_table s)")
        case None
        then show ?thesis using lu nz False ac that(1) by (simp add: lock_unlock_def split: if_splits)
      next
        case (Some ls)
        then show ?thesis using lu nz False ac that(1,3) by (simp add: lock_unlock_def split: if_splits)
      qed
    qed
  qed
  then show ?thesis
  proof cases
    case 2
    obtain as l bs where sp: "lock_table s = as @ l # bs" "used l" "ls = as @ l\<lparr>used := False\<rparr> # bs"
      using unlock_first_cases [OF 2(2)] by blast
    have "unlocked (as @ l # bs) + 1 \<le> length (as @ l # bs)"
      using sp(2) by (simp add: unlocked_def add_mono)
    then have "unat (lock_table_free s + 1) = unlocked (lock_table s) + 1"
      using share_invD(2,4) [OF inv] sp(1) by (subst unat16_inc) simp_all
    then show ?thesis unfolding 2(3) sp(3) by (intro add [OF sp(1)]) (simp_all add: sp(2) lock_ok_def)
  next
    case 3
    obtain as l bs where sp: "lock_table s = as @ l # bs" "\<not> used l"
      "ls = as @ l\<lparr>used := True, start := ofs, end_ofs := ofs + region_len ofs len, fileno := fno, l_psp := psp\<rparr> # bs"
      using lock_first_cases [OF 3(1)] by blast
    have "0 < unlocked (lock_table s)" using sp(1,2) by (simp add: unlocked_def)
    then have "unat (lock_table_free s - 1) + 1 = unlocked (lock_table s)"
      using share_invD(4) [OF inv] by (subst unat16_dec) simp_all
    then show ?thesis unfolding 3(2) sp(3) by (intro add [OF sp(1)]) (use open_fno in \<open>simp_all add: sp(2) lock_ok_def\<close>)
  qed (use inv in simp)
qed

text \<open>Calls that name a file by its number name an open one; a file is opened by a name that fits its entry.\<close>

definition call_ok :: "(u16 \<Rightarrow> u16 \<Rightarrow> bytes) \<Rightarrow> intregs \<Rightarrow> share_state \<Rightarrow> bool" where
  "call_ok str_at r s \<longleftrightarrow>
     (let isopen = (\<lambda>fno. unat fno < length (file_table s) \<and> filename (file_table s ! unat fno) \<noteq> []) in
      (r_ax r AND 0xff = 0xa0 \<longrightarrow> str_at (r_ds r) (r_si r) \<noteq> [] \<and> length (str_at (r_ds r) (r_si r)) < 128)
      \<and> (r_ax r AND 0xff = 0xa1 \<longrightarrow> isopen (r_bx r))
      \<and> (r_ax r AND 0xfe = 0xa2 \<or> r_ax r AND 0xfe = 0xa4 \<longrightarrow> isopen (r_cx r)))"

lemma call_okD:
  assumes "call_ok str_at r s"
  shows "r_ax r AND 0xff = 0xa0 \<Longrightarrow> str_at (r_ds r) (r_si r) \<noteq> [] \<and> length (str_at (r_ds r) (r_si r)) < 128"
    and "r_ax r AND 0xff = 0xa1 \<Longrightarrow> unat (r_bx r) < length (file_table s) \<and> filename (file_table s ! unat (r_bx r)) \<noteq> []"
    and "r_ax r AND 0xfe = 0xa2 \<Longrightarrow> unat (r_cx r) < length (file_table s) \<and> filename (file_table s ! unat (r_cx r)) \<noteq> []"
    and "r_ax r AND 0xfe = 0xa4 \<Longrightarrow> unat (r_cx r) < length (file_table s) \<and> filename (file_table s ! unat (r_cx r)) \<noteq> []"
  using assms unfolding call_ok_def Let_def by blast+

text \<open>A function number and its last bit.\<close>

lemma function_pair: "(x :: u16) AND 0xff = 0xa3 \<longleftrightarrow> x AND 0xfe = 0xa2 \<and> x AND 1 \<noteq> 0"
proof
  assume h: "x AND 0xff = 0xa3"
  have "x AND 0xfe = (x AND 0xff) AND 0xfe" "x AND 1 = (x AND 0xff) AND 1" by (simp_all add: and.assoc)
  then show "x AND 0xfe = 0xa2 \<and> x AND 1 \<noteq> 0" unfolding h by simp
next
  assume h: "x AND 0xfe = 0xa2 \<and> x AND 1 \<noteq> 0"
  then have "x AND 1 = 1" by (auto simp: and_one_eq mod2_eq_if split: if_splits)
  moreover have "x AND 0xff = (x AND 0xfe) OR (x AND 1)" by (simp flip: bit.conj_disj_distrib)
  ultimately show "x AND 0xff = 0xa3" using h by simp
qed

text \<open>Removing the locks that a refused access check leaves behind completes the close.\<close>

lemma remove_locks_after_free:
  "remove_all_locks fno (call_int24 a d (free_file_table_entry i s))
    = call_int24 a d (free_file_table_entry i (remove_all_locks fno s))"
  by (simp add: remove_all_locks_def call_int24_def free_file_table_entry_def upd_file_def split_beta)

lemma access_check_inv:
  assumes inv: "share_inv s" and fno: "unat fno < length (file_table s)" "filename (file_table s ! unat fno) \<noteq> []"
  shows "\<exists>v s'. access_check psp fno ofs len crit s = Some (v, s') \<and> v \<in> {0, -0x21}
     \<and> share_inv (if crit \<and> v \<noteq> 0 then remove_all_locks fno s' else s')"
proof (cases "region_len ofs len < 1")
  case True
  then show ?thesis using inv fno(1) by (simp add: access_check_def)
next
  case False
  have "share_inv (free_file_table_entry (unat fno) (remove_all_locks fno s))"
    using close_file_inv [OF inv fno] fno(1) by (simp add: close_file_def)
  then show ?thesis
    using inv unfolding access_check_search [OF fno(1) False] by (simp add: remove_locks_after_free)
qed

lemma open_check_returns:
  "length fn < 128 \<Longrightarrow> \<exists>v s'. open_check fn psp omode smode s = Some (v, s')"
  by (cases "free_slot (file_table s)")
    (simp_all add: open_check_def Let_def surj_pair del: Product_Type.split_paired_Ex)

lemma lock_unlock_returns:
  "unat fno < length (file_table s) \<Longrightarrow> \<exists>v s'. lock_unlock psp fno ofs len u s = Some (v, s')"
  by (auto simp: lock_unlock_def access_check_def Let_def split: option.splits)

text \<open>
  C11: every call of the multiplex interrupt that names open files by their numbers, and opens
  files by names that fit an entry, returns and keeps the invariant of the tables: the free counts are right,
  every lock belongs to an open file, and all entries of a file agree on the modes of its first open. There is
  one exception, the access check with a critical error (function \<open>0xa3\<close>) when it refuses: it frees the
  entry and leaves its locks, and exactly the removal of these locks restores the invariant.
\<close>

theorem inner_handler_keeps_invariant:
  assumes "share_inv s" "call_ok str_at r s"
  shows "\<exists>chain r' s'. inner_handler str_at r s = Some (chain, r', s')
    \<and> share_inv (if r_ax r AND 0xff = 0xa3 \<and> r_ax r' = - 0x21 then remove_all_locks (r_cx r) s' else s')"
proof -
  note ok = call_okD [OF assms(2)]
  let ?fn = "r_ax r AND 0xff" and ?pair = "r_ax r AND 0xfe"
  let ?ofs = "long_of (r_si r) (r_di r)" and ?len = "long_of (r_es r) (r_dx r)"
  consider "drop_bit 8 (r_ax r) AND 0xff \<noteq> 0x10 \<or> ?fn \<notin> {0xa0, 0xa1} \<and> ?pair \<notin> {0xa2, 0xa4}"
    | "drop_bit 8 (r_ax r) AND 0xff = 0x10" "?fn = 0xa0"
    | "drop_bit 8 (r_ax r) AND 0xff = 0x10" "?fn = 0xa1"
    | "drop_bit 8 (r_ax r) AND 0xff = 0x10" "?pair = 0xa2"
    | "drop_bit 8 (r_ax r) AND 0xff = 0x10" "?pair = 0xa4"
    by blast
  moreover have fun_no: "?pair = ?fn AND 0xfe" by (simp add: and.assoc)
  ultimately show ?thesis
  proof cases
    case 1
    then have "r_ax r = - 0x21 \<longrightarrow> ?fn \<noteq> 0xa3" by auto
    then show ?thesis using 1 assms(1) by (auto simp: inner_handler_def Let_def function_pair)
  next
    case 2
    obtain v s' where oc: "open_check (str_at (r_ds r) (r_si r)) (r_bx r) (r_cx r) (r_dx r) s = Some (v, s')"
      using open_check_returns ok(1) [OF 2(2)] by blast
    moreover have "share_inv s'"
      using open_check_policy [OF assms(1) _ _ oc] ok(1) [OF 2(2)] by blast
    moreover have "inner_handler str_at r s = Some (False, r\<lparr>r_ax := word_of_int v\<rparr>, s')"
      using 2 oc by (simp add: inner_handler_def Let_def)
    ultimately show ?thesis using 2(2) by auto
  next
    case 3
    then show ?thesis
      using close_file_inv [OF assms(1), of "r_bx r"] ok(2) [OF 3(2)] by (auto simp: inner_handler_def Let_def)
  next
    case 4
    obtain v s' where ac: "access_check (r_bx r) (r_cx r) ?ofs ?len (r_ax r AND 1 \<noteq> 0) s = Some (v, s')"
      "v \<in> {0, -0x21}" "share_inv (if r_ax r AND 1 \<noteq> 0 \<and> v \<noteq> 0 then remove_all_locks (r_cx r) s' else s')"
      using access_check_inv [OF assms(1)] ok(3) [OF 4(2)] by blast
    have fn: "?fn \<noteq> 0" "?fn \<noteq> 0xa0" "?fn \<noteq> 0xa1" using 4(2) fun_no by auto
    have "inner_handler str_at r s = Some (False, r\<lparr>r_ax := word_of_int v\<rparr>, s')"
      using 4 fn ac(1) by (simp add: inner_handler_def Let_def)
    moreover have "word_of_int v = (- 0x21 :: u16) \<longleftrightarrow> v \<noteq> 0" using ac(2) by auto
    ultimately show ?thesis using ac(3) 4(2) by (auto simp: function_pair)
  next
    case 5
    obtain v s' where lu: "lock_unlock (r_bx r) (r_cx r) ?ofs ?len (r_ax r AND 1 \<noteq> 0) s = Some (v, s')"
      using lock_unlock_returns ok(4) [OF 5(2)] by blast
    have fn: "?fn \<noteq> 0" "?fn \<noteq> 0xa0" "?fn \<noteq> 0xa1" "?fn \<noteq> 0xa3" using 5(2) fun_no by auto
    have "inner_handler str_at r s = Some (False, r\<lparr>r_ax := word_of_int v\<rparr>, s')"
      using 5 fn lu by (simp add: inner_handler_def Let_def)
    then show ?thesis using fn(4) lock_unlock_inv [OF assms(1) _ lu] ok(4) [OF 5(2)] by auto
  qed
qed

section \<open>A table with one open file and one lock\<close>

definition demo_file :: file_t where
  "demo_file = \<lparr>filename = [0x43], f_psp = 0x100, openmode = 0, sharemode = 4, first_openmode = 0, first_sharemode = 4\<rparr>"

definition demo_share :: share_state where
  "demo_share = \<lparr>file_table = [demo_file, blank_file, blank_file], lock_table =
      [\<lparr>used = True, start = 100, end_ofs = 110, fileno = 0, l_psp = 0x100\<rparr>, blank_lock],
     file_table_free = 2, lock_table_free = 1, int24_calls = []\<rparr>"

lemma demo_share_inv: "share_inv demo_share"
  by (simp add: share_inv_def demo_share_def demo_file_def blank_file_def blank_lock_def unused_def unlocked_def
      entry_ok_def lock_ok_def same_first_def)

theorem open_check_respects_policy_witness:
  "\<exists>s'. open_check [0x43] 0x200 0 4 demo_share = Some (1, s') \<and> share_inv s' \<and> filename (file_table s' ! 1) = [0x43]"
proof -
  have "map_option fst (open_check [0x43] 0x200 0 4 demo_share) = Some 1" by code_simp
  then obtain s' where s': "open_check [0x43] 0x200 0 4 demo_share = Some (1, s')" by auto
  then show ?thesis using open_check_respects_policy [OF demo_share_inv _ _ s'] by simp
qed

theorem close_file_releases_witness:
  "\<exists>s'. close_file 0 demo_share = Some s' \<and> share_inv s' \<and> filter used (lock_table s') = []"
proof -
  have "unat (0::u16) < length (file_table demo_share)" "filename (file_table demo_share ! unat (0::u16)) \<noteq> []"
    "filter (\<lambda>l. used l \<and> fileno l \<noteq> 0) (lock_table demo_share) = []"
    by (simp_all add: demo_share_def demo_file_def blank_lock_def)
  then show ?thesis using close_file_releases [OF demo_share_inv, of 0] by auto
qed

theorem access_check_guards_locks_witness:
  "access_check 0x200 0 105 10 False demo_share = Some (-0x21, demo_share)
   \<and> access_check 0x200 0 110 10 True demo_share = Some (0, demo_share)"
proof -
  have fno: "unat (0::u16) < length (file_table demo_share)" by (simp add: demo_share_def)
  have len: "\<not> region_len 105 10 < 1" "\<not> region_len 110 10 < 1" "region_end 105 10 = 115" "region_end 110 10 = 120"
    by (simp_all add: region_len_def region_end_def)
  have "\<exists>l. foreign 0x200 (filename (file_table demo_share ! unat (0::u16))) demo_share l
      \<and> overlaps 105 115 l \<and> \<not> encloses 105 115 l"
    by (rule exI [of _ "hd (lock_table demo_share)"])
      (simp add: foreign_def demo_share_def demo_file_def overlaps_def encloses_def)
  moreover have "\<not> (\<exists>l. foreign 0x200 (filename (file_table demo_share ! unat (0::u16))) demo_share l \<and> overlaps 110 120 l)"
    by (auto simp: foreign_def demo_share_def demo_file_def overlaps_def blank_lock_def)
  ultimately show ?thesis
    using access_check_guards_locks [OF fno len(1), of 512 False] access_check_guards_locks [OF fno len(2), of 512 True]
    unfolding len(3,4) by auto
qed

theorem unlock_after_lock_witness:
  "\<exists>s1 s2. lock_unlock 0x200 0 200 8 False demo_share = Some (0, s1) \<and> lock_unlock 0x200 0 200 8 True s1 = Some (0, s2)
     \<and> lock_table_free s2 = 1"
proof -
  have "map_option fst (lock_unlock 0x200 0 200 8 False demo_share) = Some 0" by code_simp
  then obtain s1 where s1: "lock_unlock 0x200 0 200 8 False demo_share = Some (0, s1)" by auto
  have len: "\<not> region_len 200 8 < 1" by (simp add: region_len_def)
  show ?thesis using unlock_after_lock [OF demo_share_inv len s1] s1 by (auto simp: demo_share_def)
qed

definition demo_call :: intregs where
  "demo_call = \<lparr>r_ax = 0x10a4, r_bx = 0x200, r_cx = 0, r_dx = 8, r_si = 0, r_di = 200, r_ds = 0, r_es = 0\<rparr>"

definition demo_check :: intregs where
  "demo_check = \<lparr>r_ax = 0x10a3, r_bx = 0x200, r_cx = 0, r_dx = 8, r_si = 0, r_di = 105, r_ds = 0, r_es = 0\<rparr>"

theorem inner_handler_keeps_invariant_witness:
  "(\<exists>r' s'. inner_handler (\<lambda>_ _. []) demo_call demo_share = Some (False, r', s') \<and> share_inv s')
   \<and> (\<exists>r' s'. inner_handler (\<lambda>_ _. []) demo_check demo_share = Some (False, r', s') \<and> r_ax r' = - 0x21
        \<and> share_inv (remove_all_locks 0 s'))"
proof -
  let ?h = "\<lambda>r. map_option (\<lambda>(c, r, _). (c, r_ax r)) (inner_handler (\<lambda>_ _. []) r demo_share)"
  have "?h demo_call = Some (False, 0)" "?h demo_check = Some (False, - 0x21)" by code_simp+
  moreover have "call_ok (\<lambda>_ _. []) demo_call demo_share" "call_ok (\<lambda>_ _. []) demo_check demo_share"
    "r_ax demo_call AND 0xff \<noteq> 0xa3" "r_ax demo_check AND 0xff = 0xa3" "r_cx demo_check = 0"
    by (simp_all add: call_ok_def demo_call_def demo_check_def demo_share_def demo_file_def)
  ultimately show ?thesis
    using inner_handler_keeps_invariant [OF demo_share_inv, of "\<lambda>_ _. []" demo_call]
      inner_handler_keeps_invariant [OF demo_share_inv, of "\<lambda>_ _. []" demo_check] by force
qed

section \<open>Where the tables fall short\<close>

text \<open>
  A request that strictly encloses another process's lock is allowed to read and write across it,
  and to lock it again.
\<close>

lemma enclosing_access_allowed:
  "access_check 0x200 0 50 100 False demo_share = Some (0, demo_share)
   \<and> map_option fst (lock_unlock 0x200 0 50 100 False demo_share) = Some 0"
  by code_simp

text \<open>
  Only the first open of a file is compared with a new one: the second open denies writing, and a
  third open for writing is still granted.
\<close>

lemma later_deny_write_ignored:
  "(let s = init_tables 402 2;
        (r1, s1) = the (open_check [0x43] 0x100 0 4 s);
        (r2, s2) = the (open_check [0x43] 0x200 0 2 s1);
        (r3, s3) = the (open_check [0x43] 0x300 1 4 s2)
    in (r1, r2, r3, sharemode (file_table s3 ! 1), openmode (file_table s3 ! 2))) = (0, 1, 2, 2, 1)"
  by code_simp

text \<open>An access check with the critical error frees the entry of the open file and leaves its lock behind.\<close>

lemma critical_check_breaks_invariant:
  "\<not> share_inv (snd (the (access_check 0x200 0 105 10 True demo_share)))"
  by (simp add: access_check_def region_len_def region_end_def conflicts_def demo_share_def demo_file_def blank_file_def
      blank_lock_def call_int24_def free_file_table_entry_def upd_file_def share_inv_def lock_ok_def)

end
