(* ===== verification/Block_Io.thy ===== *)
theory Block_Io
  imports Char_Dev
begin

text \<open>
  The state of the disk side of the kernel (drive table, drive parameter blocks, sector
  buffers) and \<^verbatim>\<open>dskxfer\<close> of \<^verbatim>\<open>kernel/blockio.c\<close>: a transfer request to a block device with
  the retry loop of the critical error handler. The drivers are a parameter, a function on the
  device header, the request, the transfer buffer and the state of the devices; the far pointers to
  drive parameter blocks are natural numbers, those to buffers their 16-bit offsets.
\<close>

section \<open>Drive parameter blocks and drives\<close>

text \<open>\<open>dpb_device\<close> stands for the far pointer to the device header, \<open>dpb_dh_attr\<close> holds its attributes.\<close>

record dpb =
  dpb_unit :: u8
  dpb_subunit :: u8
  dpb_secsize :: u16
  dpb_clsmask :: u8
  dpb_shftcnt :: u8
  dpb_fatstrt :: u16
  dpb_fats :: u8
  dpb_dirents :: u16
  dpb_data :: u16
  dpb_size :: u16
  dpb_fatsize :: u16
  dpb_dirstrt :: u16
  dpb_device :: nat
  dpb_dh_attr :: u16
  dpb_mdb :: u8
  dpb_flags :: u8
  dpb_cluster :: u16
  dpb_xnfreeclst :: u32
  dpb_xflags :: u16
  dpb_xfsinfosec :: u16
  dpb_xbackupsec :: u16
  dpb_xdata :: u32
  dpb_xsize :: u32
  dpb_xfatsize :: u32
  dpb_xrootclst :: u32
  dpb_xcluster :: u32

text \<open>The 16-bit free count is the low word of the 32-bit one (a union in the code).\<close>

definition dpb_nfreeclst :: "dpb \<Rightarrow> u16" where
  "dpb_nfreeclst d = ucast (dpb_xnfreeclst d)"

definition set_nfreeclst :: "u16 \<Rightarrow> dpb \<Rightarrow> dpb" where
  "set_nfreeclst n d = d\<lparr>dpb_xnfreeclst := (dpb_xnfreeclst d AND 0xffff0000) OR ucast n\<rparr>"

definition UNKNCLUSTER :: u32 where "UNKNCLUSTER = 0"
definition XUNKNCLSTFREE :: u32 where "XUNKNCLSTFREE = 0xffffffff"
definition UNKNCLSTFREE :: u16 where "UNKNCLSTFREE = 0xffff"

record cds =
  cdsCurrentPath :: bytes
  cdsFlags :: u16
  cdsDpb :: "nat option"
  cdsStrtClst :: u16
  cdsBackslashOffset :: u16

definition CDSNETWDRV :: u16 where "CDSNETWDRV = 0x8000"
definition CDSPHYSDRV :: u16 where "CDSPHYSDRV = 0x4000"
definition CDSVALID :: u16 where "CDSVALID = CDSNETWDRV OR CDSPHYSDRV"

section \<open>Buffers and the disk state\<close>

record buffer =
  b_next :: u16
  b_prev :: u16
  b_unit :: u8
  b_flag :: u8
  b_blkno :: u32
  b_copies :: u8
  b_offset :: u16
  b_dpbp :: nat
  b_buffer :: bytes

definition BFR_DIRTY :: u8 where "BFR_DIRTY = 0x40"
definition BFR_VALID :: u8 where "BFR_VALID = 0x20"
definition BFR_DATA :: u8 where "BFR_DATA = 0x08"
definition BFR_DIR :: u8 where "BFR_DIR = 0x04"
definition BFR_FAT :: u8 where "BFR_FAT = 0x02"
definition BFR_UNCACHE :: u8 where "BFR_UNCACHE = 0x01"

lemmas bfr_flags = BFR_DIRTY_def BFR_VALID_def BFR_DATA_def BFR_DIR_def BFR_FAT_def BFR_UNCACHE_def

record blk_request = request +
  r_meddesc :: u8
  r_start :: u16
  r_huge :: u32

type_synonym 'd blk_driver = "nat \<Rightarrow> blk_request \<Rightarrow> bytes \<Rightarrow> 'd \<Rightarrow> blk_request \<times> bytes \<times> 'd"

text \<open>
  \<open>cds_table\<close> has \<^verbatim>\<open>lastdrive\<close> entries, \<open>bufseg\<close> is the segment of the buffers, \<open>buf_hma\<close> whether they are in the HMA
  (\<^verbatim>\<open>bufloc != LOC_CONV\<close>), \<open>messages\<close> the texts written with \<^verbatim>\<open>clusterMessage\<close>.
\<close>

record 'd io =
  IoReqHdr :: blk_request
  io_CritErrCode :: u16
  io_answers :: "crit_answer list"
  disk :: 'd
  deblock_buf :: bytes
  bufseg :: u16
  buf_hma :: bool
  verify_ena :: bool
  cds_table :: "cds list"
  dpbs :: "nat \<Rightarrow> dpb"
  firstbuf :: u16
  bufs :: "u16 \<Rightarrow> buffer"
  nbuffers :: u16
  messages :: "(string \<times> u32) list"

definition upd_buf :: "u16 \<Rightarrow> (buffer \<Rightarrow> buffer) \<Rightarrow> 'd io \<Rightarrow> 'd io" where
  "upd_buf p f e = e\<lparr>bufs := (bufs e)(p := f (bufs e p))\<rparr>"

definition upd_dpb :: "nat \<Rightarrow> (dpb \<Rightarrow> dpb) \<Rightarrow> 'd io \<Rightarrow> 'd io" where
  "upd_dpb p f e = e\<lparr>dpbs := (dpbs e)(p := f (dpbs e p))\<rparr>"

section \<open>The drive table\<close>

definition CDSJOINED :: u16 where "CDSJOINED = 0x2000"

definition get_cds_unvalidated :: "nat \<Rightarrow> 'd io \<Rightarrow> cds option" where
  "get_cds_unvalidated drive e =
     (if drive \<ge> length (cds_table e) then None else Some (cds_table e ! drive))"

definition get_cds :: "nat \<Rightarrow> 'd io \<Rightarrow> cds option" where
  "get_cds drive e =
     (if drive \<ge> length (cds_table e) then None
      else
        (let c = cds_table e ! drive; flags = cdsFlags c
         in if flags AND CDSVALID = 0 \<or> flags AND CDSJOINED \<noteq> 0 then None
            else if flags AND CDSNETWDRV = 0 \<and> cdsDpb c = None then None
            else Some c))"

definition get_dpb :: "nat \<Rightarrow> 'd io \<Rightarrow> nat option" where
  "get_dpb dsk e =
     (case get_cds dsk e of
        None \<Rightarrow> None
      | Some c \<Rightarrow> (if cdsFlags c AND CDSNETWDRV \<noteq> 0 then None else cdsDpb c))"

section \<open>Block requests\<close>

datatype xfer_mode = DSKWRITE | DSKREAD | DSKWRITEINT26 | DSKREADINT25

definition C_OUTVFY :: u8 where "C_OUTVFY = 0x09"
definition HUGECOUNT :: u16 where "HUGECOUNT = 0xffff"
definition MAXSHORT :: u32 where "MAXSHORT = 0xffff"
definition ATTR_HUGE :: u16 where "ATTR_HUGE = 0x0002"
definition blk_req_size :: u8 where "blk_req_size = 30"

definition block_error :: "'d io \<Rightarrow> crit_answer \<times> 'd io" where
  "block_error e =
     (let e1 = e\<lparr>io_CritErrCode := (r_status (IoReqHdr e) AND S_MASK) + 0x13\<rparr>
      in case io_answers e1 of
           [] \<Rightarrow> (FAIL, e1)
         | a # as \<Rightarrow> (a, e1\<lparr>io_answers := as\<rparr>))"

text \<open>The command and the request \<^verbatim>\<open>dskxfer\<close> sends.\<close>

definition xfer_command :: "xfer_mode \<Rightarrow> bool \<Rightarrow> u8" where
  "xfer_command mode vfy =
     (case mode of DSKWRITE \<Rightarrow> (if vfy then C_OUTVFY else C_OUTPUT)
      | DSKWRITEINT26 \<Rightarrow> C_OUTPUT
      | DSKREADINT25 \<Rightarrow> C_INPUT
      | DSKREAD \<Rightarrow> C_INPUT)"

definition xfer_request :: "dpb \<Rightarrow> bool \<Rightarrow> xfer_mode \<Rightarrow> u32 \<Rightarrow> u16 \<Rightarrow> blk_request \<Rightarrow> blk_request" where
  "xfer_request d vfy mode blkno n rq =
     (let rq1 = rq\<lparr>r_length := blk_req_size, r_unit := dpb_subunit d, r_command := xfer_command mode vfy,
                   r_status := 0, r_meddesc := dpb_mdb d, r_count := n\<rparr>
      in if dpb_dh_attr d AND ATTR_HUGE \<noteq> 0 \<or> blkno \<ge> MAXSHORT
         then rq1\<lparr>r_start := HUGECOUNT, r_huge := blkno\<rparr>
         else rq1\<lparr>r_start := ucast blkno\<rparr>)"

text \<open>Copies the first \<open>n\<close> bytes of \<open>src\<close> over those of \<open>dst\<close>.\<close>

definition fmemcpy :: "bytes \<Rightarrow> bytes \<Rightarrow> nat \<Rightarrow> bytes" where
  "fmemcpy dst src n = take n src @ drop n dst"

text \<open>
  One attempt: a single sector whose buffer is at or above segment \<open>0xa000\<close> goes through
  \<^verbatim>\<open>deblock_buf\<close> when the buffers are in the HMA.
\<close>

definition xfer_once ::
  "'d blk_driver \<Rightarrow> dpb \<Rightarrow> u32 \<Rightarrow> u16 \<Rightarrow> bytes \<Rightarrow> u16 \<Rightarrow> xfer_mode \<Rightarrow> 'd io \<Rightarrow> bytes \<times> 'd io" where
  "xfer_once drv d blkno seg buf n mode e =
     (let rq = xfer_request d (verify_ena e) mode blkno n (IoReqHdr e);
          secsize = unat (dpb_secsize d)
      in if seg \<ge> 0xa000 \<and> n = 1 \<and> buf_hma e then
           (let db = (if mode = DSKWRITE then fmemcpy (deblock_buf e) buf secsize else deblock_buf e);
                (rq1, db1, d1) = drv (dpb_device d) rq db (disk e)
            in (if mode = DSKREAD then fmemcpy buf db1 secsize else buf,
                e\<lparr>IoReqHdr := rq1, deblock_buf := db1, disk := d1\<rparr>))
         else
           (let (rq1, buf1, d1) = drv (dpb_device d) rq buf (disk e)
            in (buf1, e\<lparr>IoReqHdr := rq1, disk := d1\<rparr>)))"

definition int_mode :: "xfer_mode \<Rightarrow> bool" where
  "int_mode mode \<longleftrightarrow> mode = DSKWRITEINT26 \<or> mode = DSKREADINT25"

lemma block_error_answers: "block_error e = (RETRY, e') \<Longrightarrow> length (io_answers e') < length (io_answers e)"
  by (auto simp: block_error_def Let_def split: list.splits)

lemma xfer_once_answers: "xfer_once drv d blkno seg buf n mode e = (buf', e') \<Longrightarrow> io_answers e' = io_answers e"
  by (auto simp: xfer_once_def Let_def split: prod.splits if_splits)

text \<open>The retry loop; each retry uses up an answer.\<close>

function xfer_loop ::
  "'d blk_driver \<Rightarrow> dpb \<Rightarrow> u32 \<Rightarrow> u16 \<Rightarrow> bytes \<Rightarrow> u16 \<Rightarrow> xfer_mode \<Rightarrow> 'd io \<Rightarrow> u16 \<times> bytes \<times> 'd io" where
  "xfer_loop drv d blkno seg buf n mode e =
     (case xfer_once drv d blkno seg buf n mode e of
        (buf1, e1) \<Rightarrow>
          (if r_status (IoReqHdr e1) AND (S_ERROR OR S_DONE) = S_DONE then (0, buf1, e1)
           else if int_mode mode then (r_status (IoReqHdr e1), buf1, e1)
           else
             (case block_error e1 of
                (RETRY, e2) \<Rightarrow> xfer_loop drv d blkno seg buf1 n mode e2
              | (CONTINUE, e2) \<Rightarrow> (0, buf1, e2)
              | (_, e2) \<Rightarrow> (r_status (IoReqHdr e2), buf1, e2))))"
  by pat_completeness auto
termination
  by (relation "measure (\<lambda>(drv, d, blkno, seg, buf, n, mode, e). length (io_answers e))")
    (auto dest!: block_error_answers [OF sym] simp: xfer_once_answers [OF sym])

declare xfer_loop.simps [simp del]

definition dskxfer ::
  "'d blk_driver \<Rightarrow> nat \<Rightarrow> u32 \<Rightarrow> u16 \<Rightarrow> bytes \<Rightarrow> u16 \<Rightarrow> xfer_mode \<Rightarrow> 'd io \<Rightarrow> u16 \<times> bytes \<times> 'd io" where
  "dskxfer drv dsk blkno seg buf n mode e =
     (case get_dpb dsk e of
        None \<Rightarrow> (0x0201, buf, e)
      | Some p \<Rightarrow> xfer_loop drv (dpbs e p) blkno seg buf n mode e)"

end
