(* ===== verification/Block_Cache.thy ===== *)
theory Block_Cache
  imports Block_Io
begin

text \<open>
  The sector cache of \<^verbatim>\<open>kernel/blockio.c\<close>. The buffers form a ring, linked both ways through
  their offsets in one segment, with the most recently used one at \<open>firstbuf\<close>. A loop
  around the ring that never comes back to its start does not return: \<open>None\<close>.
\<close>

section \<open>Links\<close>

definition set_next :: "u16 \<Rightarrow> u16 \<Rightarrow> (u16 \<Rightarrow> buffer) \<Rightarrow> u16 \<Rightarrow> buffer" where
  "set_next p q b = b(p := (b p)\<lparr>b_next := q\<rparr>)"

definition set_prev :: "u16 \<Rightarrow> u16 \<Rightarrow> (u16 \<Rightarrow> buffer) \<Rightarrow> u16 \<Rightarrow> buffer" where
  "set_prev p q b = b(p := (b p)\<lparr>b_prev := q\<rparr>)"

definition unlink_buffer :: "u16 \<Rightarrow> (u16 \<Rightarrow> buffer) \<Rightarrow> u16 \<Rightarrow> buffer" where
  "unlink_buffer bp b =
     (let b1 = set_prev (b_next (b bp)) (b_prev (b bp)) b
      in set_next (b_prev (b1 bp)) (b_next (b1 bp)) b1)"

definition insert_buffer :: "u16 \<Rightarrow> u16 \<Rightarrow> (u16 \<Rightarrow> buffer) \<Rightarrow> u16 \<Rightarrow> buffer" where
  "insert_buffer bp firstbp b =
     (let b1 = set_prev bp (b_prev (b firstbp)) b;
          b2 = set_next bp firstbp b1;
          b3 = set_prev (b_next (b2 bp)) bp b2
      in set_next (b_prev (b3 bp)) bp b3)"

definition move_buffer :: "u16 \<Rightarrow> u16 \<Rightarrow> (u16 \<Rightarrow> buffer) \<Rightarrow> u16 \<Rightarrow> buffer" where
  "move_buffer bp firstbp b = insert_buffer bp firstbp (unlink_buffer bp b)"

definition to_front :: "u16 \<Rightarrow> 'd io \<Rightarrow> 'd io" where
  "to_front bp e =
     (if bp \<noteq> firstbuf e then e\<lparr>firstbuf := bp, bufs := move_buffer bp (firstbuf e) (bufs e)\<rparr> else e)"

section \<open>Search\<close>

text \<open>
  The loop of \<^verbatim>\<open>searchblock\<close>: \<open>Inl\<close> the buffer that holds the block; \<open>Inr\<close> the number of FAT
  buffers, the last buffer that is not one and the last one to be released, 0 if there is none.
\<close>

definition holds_block :: "u32 \<Rightarrow> u8 \<Rightarrow> buffer \<Rightarrow> bool" where
  "holds_block blkno dsk b \<longleftrightarrow> b_blkno b = blkno \<and> b_flag b AND BFR_VALID \<noteq> 0 \<and> b_unit b = dsk"

partial_function (option) search_loop ::
  "(u16 \<Rightarrow> buffer) \<Rightarrow> u16 \<Rightarrow> u32 \<Rightarrow> u8 \<Rightarrow> u16 \<Rightarrow> nat \<times> u16 \<times> u16 \<Rightarrow> (u16 + nat \<times> u16 \<times> u16) option" where
  "search_loop b firstbp blkno dsk bp acc =
     (if holds_block blkno dsk (b bp) then Some (Inl bp)
      else
        (case acc of (fat_count, lastNonFat, uncacheBuf) \<Rightarrow>
          (let unc = (if b_flag (b bp) AND BFR_UNCACHE \<noteq> 0 then bp else uncacheBuf);
               fc = (if b_flag (b bp) AND BFR_FAT \<noteq> 0 then fat_count + 1 else fat_count);
               lnf = (if b_flag (b bp) AND BFR_FAT \<noteq> 0 then lastNonFat else bp);
               nx = b_next (b bp)
           in if nx \<noteq> firstbp then search_loop b firstbp blkno dsk nx (fc, lnf, unc)
              else Some (Inr (fc, lnf, unc)))))"

declare search_loop.simps [code]

text \<open>The buffer to reuse. After the loop \<open>bp\<close> is the first buffer again.\<close>

definition victim :: "(u16 \<Rightarrow> buffer) \<Rightarrow> u16 \<Rightarrow> nat \<times> u16 \<times> u16 \<Rightarrow> u16" where
  "victim b firstbp acc =
     (case acc of (fat_count, lastNonFat, uncacheBuf) \<Rightarrow>
       (if uncacheBuf \<noteq> 0 then uncacheBuf
        else if b_flag (b firstbp) AND BFR_FAT \<noteq> 0 \<and> fat_count < 3 \<and> lastNonFat \<noteq> 0 then lastNonFat
        else b_prev (b firstbp)))"

definition searchblock :: "u32 \<Rightarrow> u8 \<Rightarrow> 'd io \<Rightarrow> (u16 \<times> 'd io) option" where
  "searchblock blkno dsk e =
     (case search_loop (bufs e) (firstbuf e) blkno dsk (firstbuf e) (0, 0, 0) of
        None \<Rightarrow> None
      | Some (Inl bp) \<Rightarrow>
          Some (bp, to_front bp (upd_buf bp (\<lambda>b. b\<lparr>b_flag := b_flag b AND NOT BFR_UNCACHE\<rparr>) e))
      | Some (Inr acc) \<Rightarrow>
          (let bp = victim (bufs e) (firstbuf e) acc
           in Some (bp, to_front bp (upd_buf bp (\<lambda>b. b\<lparr>b_flag := b_flag b OR BFR_UNCACHE\<rparr>) e))))"

section \<open>Writing a buffer\<close>

definition is_dirty :: "buffer \<Rightarrow> bool" where
  "is_dirty b \<longleftrightarrow> b_flag b AND (BFR_VALID OR BFR_DIRTY) = BFR_VALID OR BFR_DIRTY"

text \<open>The loop over the FAT copies.\<close>

fun write_copies :: "'d blk_driver \<Rightarrow> u16 \<Rightarrow> nat \<Rightarrow> u32 \<Rightarrow> u32 \<Rightarrow> bool \<Rightarrow> 'd io \<Rightarrow> bool \<times> 'd io" where
  "write_copies drv bp 0 blkno off ok e = (ok, e)"
| "write_copies drv bp (Suc n) blkno off ok e =
     (let b = bufs e bp;
          (st, data, e1) = dskxfer drv (unat (b_unit b)) blkno (bufseg e) (b_buffer b) 1 DSKWRITE e;
          e2 = upd_buf bp (\<lambda>b. b\<lparr>b_buffer := data\<rparr>) e1
      in write_copies drv bp n (blkno + off) off (if st \<noteq> 0 then False else ok) e2)"

text \<open>The number of copies of a buffer and the distance between them.\<close>

definition copies_of :: "buffer \<Rightarrow> (nat \<Rightarrow> dpb) \<Rightarrow> nat \<times> u32" where
  "copies_of b ds =
     (if b_flag b AND BFR_FAT \<noteq> 0
      then (unat (b_copies b), if b_offset b = 0 then dpb_xfatsize (ds (b_dpbp b)) else ucast (b_offset b))
      else (1, 0))"

definition flush1 :: "'d blk_driver \<Rightarrow> u16 \<Rightarrow> 'd io \<Rightarrow> bool \<times> 'd io" where
  "flush1 drv bp e =
     (let b = bufs e bp;
          (copies, off) = copies_of b (dpbs e);
          (ok, e1) = (if is_dirty b then write_copies drv bp copies (b_blkno b) off True e else (True, e));
          e2 = upd_buf bp (\<lambda>b. b\<lparr>b_flag := b_flag b AND NOT BFR_DIRTY\<rparr>) e1
      in (ok, if ok then e2 else upd_buf bp (\<lambda>b. b\<lparr>b_flag := b_flag b AND NOT BFR_VALID\<rparr>) e2))"

text \<open>
  \<^verbatim>\<open>getblk\<close>: the outer \<open>None\<close> is a search that does not return, the inner one the null pointer.
\<close>

definition getblk :: "'d blk_driver \<Rightarrow> u32 \<Rightarrow> u8 \<Rightarrow> bool \<Rightarrow> 'd io \<Rightarrow> (u16 option \<times> 'd io) option" where
  "getblk drv blkno dsk overwrite e =
     (case searchblock blkno dsk e of
        None \<Rightarrow> None
      | Some (bp, e1) \<Rightarrow>
          (if b_flag (bufs e1 bp) AND BFR_UNCACHE = 0 then Some (Some bp, e1)
           else
             (let (ok, e2) = flush1 drv bp e1;
                  fill = (\<lambda>e. upd_buf bp (\<lambda>b. b\<lparr>b_flag := BFR_VALID OR BFR_DATA, b_unit := dsk, b_blkno := blkno\<rparr>) e)
              in if \<not> ok then Some (None, e2)
                 else if overwrite then Some (Some bp, fill e2)
                 else
                   (let (st, data, e3) = dskxfer drv (unat dsk) blkno (bufseg e2) (b_buffer (bufs e2 bp)) 1 DSKREAD e2;
                        e4 = upd_buf bp (\<lambda>b. b\<lparr>b_buffer := data\<rparr>) e3
                    in if st \<noteq> 0 then Some (None, e4) else Some (Some bp, fill e4)))))"

section \<open>Operations on all buffers\<close>

text \<open>The loop \<^verbatim>\<open>do { ... bp = b_next(bp); } while (bp != firstbuf)\<close> with the body \<open>f\<close>.\<close>

partial_function (option) ring_walk ::
  "(u16 \<Rightarrow> bool \<times> 'd io \<Rightarrow> bool \<times> 'd io) \<Rightarrow> u16 \<Rightarrow> bool \<times> 'd io \<Rightarrow> (bool \<times> 'd io) option" where
  "ring_walk f bp st =
     (let st1 = f bp st; nx = b_next (bufs (snd st1) bp)
      in if nx \<noteq> firstbuf (snd st1) then ring_walk f nx st1 else Some st1)"

declare ring_walk.simps [code]

datatype delete_mode = XFR_WRITE | XFR_READ

definition delete_step :: "'d blk_driver \<Rightarrow> u32 \<Rightarrow> u32 \<Rightarrow> u8 \<Rightarrow> delete_mode \<Rightarrow> u16 \<Rightarrow> bool \<times> 'd io \<Rightarrow> bool \<times> 'd io" where
  "delete_step drv lo hi dsk mode bp st =
     (case st of (ok, e) \<Rightarrow>
       (let b = bufs e bp
        in if lo \<le> b_blkno b \<and> b_blkno b \<le> hi \<and> b_flag b AND BFR_VALID \<noteq> 0 \<and> b_unit b = dsk then
             (if mode = XFR_READ then (ok, snd (flush1 drv bp e))
              else (ok, upd_buf bp (\<lambda>b. b\<lparr>b_flag := 0\<rparr>) e))
           else (ok, e)))"

definition DeleteBlockInBufferCache ::
  "'d blk_driver \<Rightarrow> u32 \<Rightarrow> u32 \<Rightarrow> u8 \<Rightarrow> delete_mode \<Rightarrow> 'd io \<Rightarrow> 'd io option" where
  "DeleteBlockInBufferCache drv lo hi dsk mode e =
     map_option snd (ring_walk (delete_step drv lo hi dsk mode) (firstbuf e) (True, e))"

definition setinvld :: "u8 \<Rightarrow> 'd io \<Rightarrow> 'd io option" where
  "setinvld dsk e =
     map_option snd (ring_walk
       (\<lambda>bp (ok, e). (ok, if b_unit (bufs e bp) = dsk then upd_buf bp (\<lambda>b. b\<lparr>b_flag := 0\<rparr>) e else e))
       (firstbuf e) (True, e))"

partial_function (option) dirty_loop :: "(u16 \<Rightarrow> buffer) \<Rightarrow> u16 \<Rightarrow> u8 \<Rightarrow> u16 \<Rightarrow> bool option" where
  "dirty_loop b firstbp dsk bp =
     (if b_unit (b bp) = dsk \<and> is_dirty (b bp) then Some True
      else if b_next (b bp) \<noteq> firstbp then dirty_loop b firstbp dsk (b_next (b bp))
      else Some False)"

declare dirty_loop.simps [code]

definition dirty_buffers :: "u8 \<Rightarrow> 'd io \<Rightarrow> bool option" where
  "dirty_buffers dsk e = dirty_loop (bufs e) (firstbuf e) dsk (firstbuf e)"

definition flush_step :: "'d blk_driver \<Rightarrow> u8 \<Rightarrow> u16 \<Rightarrow> bool \<times> 'd io \<Rightarrow> bool \<times> 'd io" where
  "flush_step drv dsk bp st =
     (case st of (ok, e) \<Rightarrow>
       (if b_unit (bufs e bp) = dsk
        then (let (ok1, e1) = flush1 drv bp e in (if \<not> ok1 then False else ok, e1))
        else (ok, e)))"

definition flush_buffers :: "'d blk_driver \<Rightarrow> u8 \<Rightarrow> 'd io \<Rightarrow> (bool \<times> 'd io) option" where
  "flush_buffers drv dsk e = ring_walk (flush_step drv dsk) (firstbuf e) (True, e)"

text \<open>\<open>flush\<close> is \<^verbatim>\<open>flush()\<close> up to the call of the network redirector.\<close>

definition flush :: "'d blk_driver \<Rightarrow> 'd io \<Rightarrow> (bool \<times> 'd io) option" where
  "flush drv e =
     ring_walk (\<lambda>bp (ok, e).
        (let (ok1, e1) = flush1 drv bp e
         in (if \<not> ok1 then False else ok, upd_buf bp (\<lambda>b. b\<lparr>b_flag := b_flag b AND NOT BFR_VALID\<rparr>) e1)))
       (firstbuf e) (True, e)"

end
