(* ===== verification/Fat_Table.thy ===== *)
theory Fat_Table
  imports Block_Cache "HOL-Library.Monad_Syntax"
begin

text \<open>
  The file allocation table, \<^verbatim>\<open>kernel/fattab.c\<close>: reading and writing the entry of a cluster in
  FAT12, FAT16 and FAT32, the count of free clusters and the file system information sector.
  A result is \<open>None\<close> when the code does not return or follows a null pointer.
\<close>

section \<open>Constants and FAT types\<close>

definition FREE :: u32 where "FREE = 0"
definition READ_CLUSTER :: u32 where "READ_CLUSTER = 1"
definition LONG_LAST_CLUSTER :: u32 where "LONG_LAST_CLUSTER = 0x0fffffff"
definition LONG_BAD :: u32 where "LONG_BAD = 0x0ffffff7"
definition MASK16 :: u16 where "MASK16 = 0xfff8"
definition BAD16 :: u16 where "BAD16 = 0xfff7"
definition MASK12 :: u16 where "MASK12 = 0xff8"
definition BAD12 :: u16 where "BAD12 = 0xff7"
definition FAT_MAGIC :: u16 where "FAT_MAGIC = 4085"
definition FAT_MAGIC16 :: u16 where "FAT_MAGIC16 = 65525"
definition FAT_NO_MIRRORING :: u16 where "FAT_NO_MIRRORING = 0x80"

lemmas fat_consts = FREE_def READ_CLUSTER_def LONG_LAST_CLUSTER_def LONG_BAD_def MASK16_def BAD16_def MASK12_def
  BAD12_def FAT_MAGIC_def FAT_MAGIC16_def FAT_NO_MIRRORING_def

definition ISFAT32 :: "dpb \<Rightarrow> bool" where "ISFAT32 d \<longleftrightarrow> dpb_fatsize d = 0"
definition ISFAT16 :: "dpb \<Rightarrow> bool" where "ISFAT16 d \<longleftrightarrow> dpb_size d > FAT_MAGIC \<and> dpb_size d \<le> FAT_MAGIC16"
definition ISFAT12 :: "dpb \<Rightarrow> bool" where "ISFAT12 d \<longleftrightarrow> dpb_size d - 1 < FAT_MAGIC"

definition max_cluster :: "dpb \<Rightarrow> u32" where
  "max_cluster d = (if ISFAT32 d then dpb_xsize d else ucast (dpb_size d))"

section \<open>Little-endian fields\<close>

definition fgetword :: "bytes \<Rightarrow> nat \<Rightarrow> u16" where
  "fgetword b i = mk16 (b ! i) (b ! (i + 1))"

definition fputword :: "bytes \<Rightarrow> nat \<Rightarrow> u16 \<Rightarrow> bytes" where
  "fputword b i w = b[i := lo8 w, i + 1 := hi8 w]"

definition mk32 :: "u16 \<Rightarrow> u16 \<Rightarrow> u32" where
  "mk32 l h = ucast l OR push_bit 16 (ucast h)"

definition fgetlong :: "bytes \<Rightarrow> nat \<Rightarrow> u32" where
  "fgetlong b i = mk32 (fgetword b i) (fgetword b (i + 2))"

definition fputlong :: "bytes \<Rightarrow> nat \<Rightarrow> u32 \<Rightarrow> bytes" where
  "fputlong b i w = fputword (fputword b i (ucast w)) (i + 2) (ucast (drop_bit 16 w))"

section \<open>FAT sectors\<close>

definition clusterMessage :: "string \<Rightarrow> u32 \<Rightarrow> 'd io \<Rightarrow> 'd io" where
  "clusterMessage msg clussec e = e\<lparr>messages := messages e @ [(msg, clussec)]\<rparr>"

definition getFATblock :: "'d blk_driver \<Rightarrow> nat \<Rightarrow> u32 \<Rightarrow> 'd io \<Rightarrow> (u16 option \<times> 'd io) option" where
  "getFATblock drv p clussec e = do {
     (bp, e1) \<leftarrow> getblk drv clussec (dpb_unit (dpbs e p)) False e;
     let d = dpbs e1 p;
     case bp of
       None \<Rightarrow> Some (None, clusterMessage ''I/O: 0x'' clussec e1)
     | Some b \<Rightarrow>
         Some (Some b, upd_buf b (\<lambda>x. x\<lparr>b_flag := (b_flag x AND NOT (BFR_DATA OR BFR_DIR)) OR (BFR_FAT OR BFR_VALID),
            b_dpbp := p,
            b_copies := (if ISFAT32 d \<and> dpb_xflags d AND FAT_NO_MIRRORING \<noteq> 0 then 1 else dpb_fats d),
            b_offset := dpb_fatsize d\<rparr>) e1)
   }"

section \<open>The information sector of FAT32\<close>

definition fsinfo_offset :: nat where "fsinfo_offset = 0x1e4"

definition read_fsinfo :: "'d blk_driver \<Rightarrow> nat \<Rightarrow> 'd io \<Rightarrow> 'd io option" where
  "read_fsinfo drv p e =
     (if dpb_xfsinfosec (dpbs e p) = 0xffff then Some e
      else do {
        (bp, e1) \<leftarrow> getblk drv (ucast (dpb_xfsinfosec (dpbs e p))) (dpb_unit (dpbs e p)) False e;
        b \<leftarrow> bp;
        let e2 = upd_buf b (\<lambda>x. x\<lparr>b_flag := (b_flag x AND NOT (BFR_DATA OR BFR_DIR OR BFR_FAT OR BFR_DIRTY)) OR BFR_VALID\<rparr>) e1;
        let buf = b_buffer (bufs e2 b);
        let n = fgetlong buf (fsinfo_offset + 4);
        let c = fgetlong buf (fsinfo_offset + 8);
        Some (upd_dpb p (\<lambda>d. d\<lparr>
            dpb_xnfreeclst := (if n \<ge> dpb_xsize d then XUNKNCLSTFREE else n),
            dpb_xcluster := (if c < 2 \<or> c > dpb_xsize d then UNKNCLUSTER else c)\<rparr>) e2)
      })"

definition write_fsinfo :: "'d blk_driver \<Rightarrow> nat \<Rightarrow> 'd io \<Rightarrow> 'd io option" where
  "write_fsinfo drv p e =
     (if dpb_xfsinfosec (dpbs e p) = 0xffff then Some e
      else do {
        (bp, e1) \<leftarrow> getblk drv (ucast (dpb_xfsinfosec (dpbs e p))) (dpb_unit (dpbs e p)) False e;
        b \<leftarrow> bp;
        let d = dpbs e1 p;
        let e2 = upd_buf b (\<lambda>x. x\<lparr>b_flag := (b_flag x AND NOT (BFR_DATA OR BFR_DIR OR BFR_FAT)) OR BFR_VALID\<rparr>) e1;
        let buf = b_buffer (bufs e2 b);
        let e3 = (if fgetlong buf (fsinfo_offset + 4) \<noteq> dpb_xnfreeclst d \<or> fgetlong buf (fsinfo_offset + 8) \<noteq> dpb_xcluster d
                  then upd_buf b (\<lambda>x. x\<lparr>b_flag := b_flag x OR BFR_DIRTY\<rparr>) e2 else e2);
        Some (upd_buf b (\<lambda>x. x\<lparr>b_buffer :=
            fputlong (fputlong (b_buffer x) (fsinfo_offset + 4) (dpb_xnfreeclst d)) (fsinfo_offset + 8) (dpb_xcluster d)\<rparr>) e3)
      })"

section \<open>One entry\<close>

text \<open>Where the entry is: the index in nibbles, words or double words, and the sector.\<close>

definition fat_position :: "dpb \<Rightarrow> u32 \<Rightarrow> u16 \<times> u32" where
  "fat_position d c =
     (let secsize = dpb_secsize d;
          clussec = (if ISFAT12 d then ucast (ucast c * 3 :: u16) else c);
          secdiv = (if ISFAT12 d then secsize * 2 else if ISFAT32 d then secsize div 2 div 2 else secsize div 2);
          sector = clussec div ucast secdiv + ucast (dpb_fatstrt d)
      in (ucast (clussec mod ucast secdiv),
          if ISFAT32 d \<and> dpb_xflags d AND FAT_NO_MIRRORING \<noteq> 0
          then sector + ucast (dpb_xflags d AND 0xf) * dpb_xfatsize d else sector))"

text \<open>The end of a write: the buffer is dirty and the count of free clusters changes.\<close>

definition link_done :: "'d blk_driver \<Rightarrow> nat \<Rightarrow> u16 \<Rightarrow> u32 \<Rightarrow> bool \<Rightarrow> 'd io \<Rightarrow> (u32 \<times> 'd io) option" where
  "link_done drv p b c2 wasfree e =
     (let e1 = upd_buf b (\<lambda>x. x\<lparr>b_flag := b_flag x OR (BFR_DIRTY OR BFR_VALID)\<rparr>) e;
          d = dpbs e1 p;
          adjust = (if \<not> wasfree then 1 else if c2 \<noteq> FREE then -1 else 0 :: int)
      in if c2 = FREE \<or> wasfree then
           (if ISFAT32 d \<and> dpb_xnfreeclst d \<noteq> XUNKNCLSTFREE then
              do {
                e2 \<leftarrow> write_fsinfo drv p (upd_dpb p (\<lambda>d. d\<lparr>dpb_xnfreeclst := dpb_xnfreeclst d + word_of_int adjust\<rparr>) e1);
                Some (0, e2)
              }
            else if dpb_nfreeclst d \<noteq> UNKNCLSTFREE then
              Some (0, upd_dpb p (\<lambda>d. set_nfreeclst (dpb_nfreeclst d + word_of_int adjust) d) e1)
            else Some (0, e1))
         else Some (0, e1))"

definition put_byte :: "u16 \<Rightarrow> nat \<Rightarrow> u8 \<Rightarrow> 'd io \<Rightarrow> 'd io" where
  "put_byte b i v e = upd_buf b (\<lambda>x. x\<lparr>b_buffer := (b_buffer x)[i := v]\<rparr>) e"

definition unpack12 :: "u32 \<Rightarrow> u16 \<Rightarrow> u16" where
  "unpack12 c1 w = (if c1 AND 1 \<noteq> 0 then drop_bit 4 w else w) AND 0x0fff"

definition pack12 :: "u32 \<Rightarrow> u32 \<Rightarrow> u16 \<Rightarrow> u16" where
  "pack12 c1 c2 w =
     (let v = ucast c2 AND 0x0fff
      in if ucast c1 AND (1 :: u16) \<noteq> 0 then (w AND 0x000f) OR push_bit 4 v else (w AND 0xf000) OR v)"

definition decode12 :: "u16 \<Rightarrow> u32" where
  "decode12 v = (if v \<ge> MASK12 then LONG_LAST_CLUSTER else if v = BAD12 then LONG_BAD else ucast v)"

definition decode16 :: "u16 \<Rightarrow> u32" where
  "decode16 v = (if v \<ge> MASK16 then LONG_LAST_CLUSTER else if v = BAD16 then LONG_BAD else ucast v)"

definition decode32 :: "u32 \<Rightarrow> u32" where
  "decode32 v = (if v > LONG_BAD then LONG_LAST_CLUSTER else v)"

definition is_read :: "u32 \<Rightarrow> bool" where
  "is_read c2 \<longleftrightarrow> (ucast c2 :: u16) = ucast READ_CLUSTER"

text \<open>The second byte of a FAT12 entry: the buffer and the index. \<open>None\<close> is a failed read.\<close>

definition second_byte ::
  "'d blk_driver \<Rightarrow> nat \<Rightarrow> u16 \<Rightarrow> nat \<Rightarrow> u32 \<Rightarrow> u32 \<Rightarrow> 'd io \<Rightarrow> ((u16 \<times> nat) option \<times> 'd io) option" where
  "second_byte drv p b idx clussec c2 e =
     (if idx \<ge> unat (dpb_secsize (dpbs e p) - 1) then
        do {
          (bp1, e1) \<leftarrow> getFATblock drv p (ucast (ucast clussec + 1 :: u16)) e;
          case bp1 of
            None \<Rightarrow> Some (None, e1)
          | Some b1 \<Rightarrow>
              Some (Some (b1, 0),
                if c2 \<noteq> READ_CLUSTER then upd_buf b1 (\<lambda>x. x\<lparr>b_flag := b_flag x OR (BFR_DIRTY OR BFR_VALID)\<rparr>) e1 else e1)
        }
      else Some (Some (b, idx + 1), e))"

definition link12 ::
  "'d blk_driver \<Rightarrow> nat \<Rightarrow> u16 \<Rightarrow> nat \<Rightarrow> u32 \<Rightarrow> u32 \<Rightarrow> u32 \<Rightarrow> 'd io \<Rightarrow> (u32 \<times> 'd io) option" where
  "link12 drv p b idx clussec c1 c2 e = do {
     (fbp1, e1) \<leftarrow> second_byte drv p b idx clussec c2 e;
     case fbp1 of
       None \<Rightarrow> Some (1, e1)
     | Some (b1, i1) \<Rightarrow>
         (let w = mk16 (b_buffer (bufs e1 b) ! idx) (b_buffer (bufs e1 b1) ! i1);
              v = unpack12 c1 w
          in if is_read c2 then Some (decode12 v, e1)
             else
               (let w1 = pack12 c1 c2 w;
                    e2 = put_byte b1 i1 (hi8 w1) (put_byte b idx (lo8 w1) e1)
                in link_done drv p b c2 (v = ucast FREE) e2))
   }"

definition link16 :: "'d blk_driver \<Rightarrow> nat \<Rightarrow> u16 \<Rightarrow> nat \<Rightarrow> u32 \<Rightarrow> 'd io \<Rightarrow> (u32 \<times> 'd io) option" where
  "link16 drv p b idx c2 e =
     (let res = fgetword (b_buffer (bufs e b)) (idx * 2)
      in if is_read c2 then Some (decode16 res, e)
         else link_done drv p b c2 (res = ucast FREE)
                (upd_buf b (\<lambda>x. x\<lparr>b_buffer := fputword (b_buffer x) (idx * 2) (ucast c2)\<rparr>) e))"

definition link32 :: "'d blk_driver \<Rightarrow> nat \<Rightarrow> u16 \<Rightarrow> nat \<Rightarrow> u32 \<Rightarrow> 'd io \<Rightarrow> (u32 \<times> 'd io) option" where
  "link32 drv p b idx c2 e =
     (let res = fgetlong (b_buffer (bufs e b)) (idx * 4) AND LONG_LAST_CLUSTER
      in if c2 = READ_CLUSTER then Some (decode32 res, e)
         else link_done drv p b c2 (res = FREE)
                (upd_buf b (\<lambda>x. x\<lparr>b_buffer := fputlong (b_buffer x) (idx * 4) (c2 AND LONG_LAST_CLUSTER)\<rparr>) e))"

text \<open>
  \<^verbatim>\<open>link_fat\<close>: the value of an entry for \<open>READ_CLUSTER\<close>, otherwise 0 after the entry is
  written; 1 on error. (The message \<^verbatim>\<open>Bad DPB!\<close> is recorded like a cluster message.)
\<close>

definition link_fat :: "'d blk_driver \<Rightarrow> nat \<Rightarrow> u32 \<Rightarrow> u32 \<Rightarrow> 'd io \<Rightarrow> (u32 \<times> 'd io) option" where
  "link_fat drv p c1 c2 e =
     (let d = dpbs e p
      in if c1 \<le> 1 \<or> c1 > max_cluster d then Some (1, clusterMessage ''index: 0x'' c1 e)
         else if c2 < LONG_BAD \<and> c2 > max_cluster d then Some (1, clusterMessage ''write: 0x'' c2 e)
         else
           (case fat_position d c1 of (idx, clussec) \<Rightarrow> do {
              (bp, e1) \<leftarrow> getFATblock drv p clussec e;
              case bp of
                None \<Rightarrow> Some (1, e1)
              | Some b \<Rightarrow>
                  (if ISFAT12 d then link12 drv p b (unat idx div 2) clussec c1 c2 e1
                   else if ISFAT16 d then link16 drv p b (unat idx) c2 e1
                   else if ISFAT32 d then link32 drv p b (unat idx) c2 e1
                   else Some (1, clusterMessage ''Bad DPB!'' 0 e1))
            }))"

definition next_cluster :: "'d blk_driver \<Rightarrow> nat \<Rightarrow> u32 \<Rightarrow> 'd io \<Rightarrow> (u32 \<times> 'd io) option" where
  "next_cluster drv p c e = do {
     (candidate, e1) \<leftarrow> link_fat drv p c READ_CLUSTER e;
     if candidate < 2 \<or> candidate \<ge> LONG_BAD then Some (candidate, e1)
     else do {
       (following, e2) \<leftarrow> link_fat drv p candidate READ_CLUSTER e1;
       if following < 2 \<or> (following < LONG_BAD \<and> following > max_cluster (dpbs e2 p))
       then Some (1, clusterMessage ''value: 0x'' following e2)
       else Some (candidate, e2)
     }
   }"

definition is_free_cluster :: "'d blk_driver \<Rightarrow> nat \<Rightarrow> u32 \<Rightarrow> 'd io \<Rightarrow> (bool \<times> 'd io) option" where
  "is_free_cluster drv p c e = do {
     (v, e1) \<leftarrow> link_fat drv p c READ_CLUSTER e;
     Some (v = FREE, e1)
   }"

end
