(* ===== verification/Fat_Fs.thy ===== *)
theory Fat_Fs
  imports Fat_Table
begin

text \<open>
  Clusters and files, \<^verbatim>\<open>kernel/fatfs.c\<close>: freeing a chain, finding a free cluster, extending a file,
  moving along a chain, shrinking a file, counting the free clusters, clearing a directory cluster,
  and the parameter block that a BIOS parameter block describes. The near fnodes are records passed
  and returned; \<open>f_dmp\<close> is the match structure the pointer leads to.
\<close>

section \<open>Directory entries and file nodes\<close>

record dirent =
  dir_name :: bytes
  dir_attrib :: u8
  dir_case :: u8
  dir_crtimems :: u8
  dir_crtime :: u16
  dir_crdate :: u16
  dir_accdate :: u16
  dir_start_high :: u16
  dir_time :: u16
  dir_date :: u16
  dir_start :: u16
  dir_size :: u32

record dmatch =
  dm_drive :: u8
  dm_name_pat :: bytes
  dm_attr_srch :: u8
  dm_entry :: u16
  dm_dircluster :: u32

record f_node =
  f_flags :: u16
  f_dmp :: dmatch
  f_dir :: dirent
  f_dirsector :: u32
  f_diridx :: u8
  f_dpb :: nat
  f_offset :: u32
  f_cluster_offset :: u32
  f_cluster :: u32
  f_sft_idx :: u8

definition getdstart :: "dpb \<Rightarrow> dirent \<Rightarrow> u32" where
  "getdstart d de = (if \<not> ISFAT32 d then ucast (dir_start de) else push_bit 16 (ucast (dir_start_high de)) OR ucast (dir_start de))"

definition setdstart :: "dpb \<Rightarrow> u32 \<Rightarrow> dirent \<Rightarrow> dirent" where
  "setdstart d value de =
     (let de1 = de\<lparr>dir_start := ucast value\<rparr>
      in if ISFAT32 d then de1\<lparr>dir_start_high := ucast (drop_bit 16 value)\<rparr> else de1)"

definition clus2phys :: "u32 \<Rightarrow> dpb \<Rightarrow> u32" where
  "clus2phys cl_no d = push_bit (unat (dpb_shftcnt d)) (cl_no - 2) + (if ISFAT32 d then dpb_xdata d else ucast (dpb_data d))"

text \<open>The stamps are what \<^verbatim>\<open>dos_gettime\<close> and \<^verbatim>\<open>dos_getdate\<close> return.\<close>

definition init_direntry :: "u8 \<Rightarrow> u32 \<Rightarrow> bytes \<Rightarrow> u16 \<Rightarrow> u16 \<Rightarrow> dirent" where
  "init_direntry attrib cluster name time date =
     \<lparr>dir_name = take 11 name, dir_attrib = attrib, dir_case = 0, dir_crtimems = 0, dir_crtime = time, dir_crdate = date,
      dir_accdate = 0, dir_start_high = ucast (drop_bit 16 cluster), dir_time = time, dir_date = date,
      dir_start = ucast cluster, dir_size = 0\<rparr>"

section \<open>Freeing a chain\<close>

text \<open>The hint where the free clusters begin.\<close>

definition lower_hint :: "u32 \<Rightarrow> dpb \<Rightarrow> dpb" where
  "lower_hint st d =
     (if ISFAT32 d then
        (if dpb_xcluster d = UNKNCLUSTER \<or> dpb_xcluster d > st then d\<lparr>dpb_xcluster := st\<rparr> else d)
      else if dpb_cluster d = ucast UNKNCLUSTER \<or> dpb_cluster d > ucast st then d\<lparr>dpb_cluster := ucast st\<rparr> else d)"

text \<open>The loop; the flag tells whether the end of the chain was reached.\<close>

partial_function (option) wipe_loop :: "'d blk_driver \<Rightarrow> nat \<Rightarrow> u32 \<Rightarrow> 'd io \<Rightarrow> (bool \<times> 'd io) option" where
  "wipe_loop drv p st e =
     (if st = LONG_LAST_CLUSTER then Some (True, e)
      else do {
        (nxt, e1) \<leftarrow> next_cluster drv p st e;
        if nxt \<le> 1 then Some (False, e1)
        else do {
          (r, e2) \<leftarrow> link_fat drv p st FREE e1;
          if r \<noteq> 0 then Some (False, e2)
          else wipe_loop drv p nxt (upd_dpb p (lower_hint st) e2)
        }
      })"

declare wipe_loop.simps [code]

definition wipe_out_clusters :: "'d blk_driver \<Rightarrow> nat \<Rightarrow> u32 \<Rightarrow> 'd io \<Rightarrow> 'd io option" where
  "wipe_out_clusters drv p st e = do {
     (complete, e1) \<leftarrow> wipe_loop drv p st e;
     if complete \<and> ISFAT32 (dpbs e1 p) then write_fsinfo drv p e1 else Some e1
   }"

definition wipe_out :: "'d blk_driver \<Rightarrow> f_node \<Rightarrow> 'd io \<Rightarrow> 'd io option" where
  "wipe_out drv fnp e =
     (let cluster = getdstart (dpbs e (f_dpb fnp)) (f_dir fnp)
      in if cluster \<noteq> FREE then wipe_out_clusters drv (f_dpb fnp) cluster e else Some e)"

section \<open>Finding a free cluster\<close>

text \<open>From \<open>idx\<close> to the end, then from cluster 2 to \<open>cluster\<close>; the result is \<open>(cluster, idx)\<close> of the code.\<close>

partial_function (option) find_free_loop :: "'d blk_driver \<Rightarrow> nat \<Rightarrow> u32 \<Rightarrow> u32 \<Rightarrow> u32 \<Rightarrow> 'd io \<Rightarrow> ((u32 \<times> u32) \<times> 'd io) option" where
  "find_free_loop drv p last_cl cluster idx e = do {
     (fr, e1) \<leftarrow> is_free_cluster drv p idx e;
     if fr then Some ((idx, idx), e1)
     else
       (let idx1 = (if idx + 1 > last_cl then 2 else idx + 1)
        in if idx1 = cluster then Some ((UNKNCLUSTER, LONG_LAST_CLUSTER), e1)
           else find_free_loop drv p last_cl cluster idx1 e1)
   }"

declare find_free_loop.simps [code]

definition start_hint :: "dpb \<Rightarrow> u32" where
  "start_hint d =
     (if ISFAT32 d then (if dpb_xcluster d \<noteq> UNKNCLUSTER then dpb_xcluster d else 2)
      else if dpb_cluster d \<noteq> ucast UNKNCLUSTER then ucast (dpb_cluster d) else 2)"

definition find_fat_free :: "'d blk_driver \<Rightarrow> nat \<Rightarrow> 'd io \<Rightarrow> (u32 \<times> 'd io) option" where
  "find_fat_free drv p e =
     (let d = dpbs e p; idx0 = start_hint d in do {
        ((cluster, idx), e1) \<leftarrow> find_free_loop drv p (max_cluster d) idx0 idx0 e;
        if ISFAT32 d then do {
          e2 \<leftarrow> write_fsinfo drv p (upd_dpb p (\<lambda>d. d\<lparr>dpb_xcluster := cluster\<rparr>) e1);
          Some (idx, e2)
        }
        else Some (idx, upd_dpb p (\<lambda>d. d\<lparr>dpb_cluster := ucast cluster\<rparr>) e1)
      })"

section \<open>Clearing a directory cluster\<close>

fun clear_blocks :: "'d blk_driver \<Rightarrow> nat \<Rightarrow> u32 \<Rightarrow> nat \<Rightarrow> nat \<Rightarrow> 'd io \<Rightarrow> ((dos_error + unit) \<times> 'd io) option" where
  "clear_blocks drv p cluster idx 0 e = Some (Inr (), e)"
| "clear_blocks drv p cluster idx (Suc n) e = do {
     (bp, e1) \<leftarrow> getblk drv (clus2phys cluster (dpbs e p) + of_nat idx) (dpb_unit (dpbs e p)) True e;
     case bp of
       None \<Rightarrow> Some (Inl DE_ACCESS, e1)
     | Some b \<Rightarrow>
         clear_blocks drv p cluster (idx + 1) n
           (upd_buf b (\<lambda>x. x\<lparr>b_buffer := replicate 512 0,
              b_flag := (b_flag x OR (BFR_DIRTY OR BFR_VALID)) OR (if idx \<noteq> 0 then BFR_UNCACHE else 0)\<rparr>) e1)
   }"

definition clear_dir :: "'d blk_driver \<Rightarrow> nat \<Rightarrow> u32 \<Rightarrow> 'd io \<Rightarrow> ((dos_error + unit) \<times> 'd io) option" where
  "clear_dir drv p cluster e = clear_blocks drv p cluster 0 (unat (dpb_clsmask (dpbs e p)) + 1) e"

section \<open>Extending a file by a cluster\<close>

definition extend :: "'d blk_driver \<Rightarrow> f_node \<Rightarrow> 'd io \<Rightarrow> (u32 \<times> f_node \<times> 'd io) option" where
  "extend drv fnp e =
     (let p = f_dpb fnp in do {
        (free_fat, e1) \<leftarrow> find_fat_free drv p e;
        if free_fat = LONG_LAST_CLUSTER then Some (free_fat, fnp, e1)
        else do {
          (r, e2) \<leftarrow> link_fat drv p free_fat LONG_LAST_CLUSTER e1;
          if r \<noteq> 0 then Some (LONG_LAST_CLUSTER, fnp, e2)
          else if f_cluster fnp = FREE
          then Some (free_fat, fnp\<lparr>f_dir := setdstart (dpbs e2 p) free_fat (f_dir fnp)\<rparr>, e2)
          else do {
            (nxt, e3) \<leftarrow> next_cluster drv p (f_cluster fnp) e2;
            if nxt \<noteq> LONG_LAST_CLUSTER
            then Some (LONG_LAST_CLUSTER, fnp, clusterMessage ''FAT chain size bad!'' 0 e3)
            else do {
              (r2, e4) \<leftarrow> link_fat drv p (f_cluster fnp) free_fat e3;
              if r2 \<noteq> 0 then Some (LONG_LAST_CLUSTER, fnp, e4) else Some (free_fat, fnp, e4)
            }
          }
        }
      })"

section \<open>The cluster of an offset\<close>

text \<open>The linear search along the chain.\<close>

partial_function (option) map_loop ::
  "'d blk_driver \<Rightarrow> delete_mode \<Rightarrow> u32 \<Rightarrow> f_node \<Rightarrow> 'd io \<Rightarrow> ((dos_error + unit) \<times> f_node \<times> 'd io) option" where
  "map_loop drv mode relcluster fnp e =
     (if f_cluster_offset fnp = relcluster then Some (Inr (), fnp, e)
      else do {
        (cluster, e1) \<leftarrow> next_cluster drv (f_dpb fnp) (f_cluster fnp) e;
        if cluster \<le> 1 then Some (Inl DE_SEEK, fnp, e1)
        else if cluster \<noteq> LONG_LAST_CLUSTER
        then map_loop drv mode relcluster (fnp\<lparr>f_cluster := cluster, f_cluster_offset := f_cluster_offset fnp + 1\<rparr>) e1
        else if mode = XFR_READ then Some (Inl DE_SEEK, fnp, e1)
        else do {
          (cl2, fnp2, e2) \<leftarrow> extend drv fnp e1;
          if cl2 = LONG_LAST_CLUSTER then Some (Inl DE_HNDLDSKFULL, fnp2, e2)
          else map_loop drv mode relcluster (fnp2\<lparr>f_cluster := cl2, f_cluster_offset := f_cluster_offset fnp2 + 1\<rparr>) e2
        }
      })"

declare map_loop.simps [code]

definition relative_cluster :: "dpb \<Rightarrow> u32 \<Rightarrow> u32" where
  "relative_cluster d off = drop_bit (unat (dpb_shftcnt d)) (off div ucast (dpb_secsize d))"

text \<open>A seek to before the current position starts again at the first cluster.\<close>

definition rewind :: "dpb \<Rightarrow> u32 \<Rightarrow> f_node \<Rightarrow> f_node" where
  "rewind d relcluster fnp =
     (if relcluster < f_cluster_offset fnp
      then fnp\<lparr>f_cluster := (if f_sft_idx fnp = 0xff then dm_dircluster (f_dmp fnp) else getdstart d (f_dir fnp)),
               f_cluster_offset := 0\<rparr>
      else fnp)"

definition map_cluster ::
  "'d blk_driver \<Rightarrow> delete_mode \<Rightarrow> f_node \<Rightarrow> 'd io \<Rightarrow> ((dos_error + unit) \<times> f_node \<times> 'd io) option" where
  "map_cluster drv mode fnp e =
     (let p = f_dpb fnp;
          search = (\<lambda>fnp e. let rc = relative_cluster (dpbs e p) (f_offset fnp)
                            in map_loop drv mode rc (rewind (dpbs e p) rc fnp) e)
      in if f_cluster fnp = FREE then
           (if mode = XFR_READ then Some (Inl DE_SEEK, fnp, e)
            else do {
              (cluster, fnp1, e1) \<leftarrow> extend drv fnp e;
              if cluster = LONG_LAST_CLUSTER then Some (Inl DE_HNDLDSKFULL, fnp1, e1)
              else search (fnp1\<lparr>f_cluster := cluster\<rparr>) e1
            })
         else search fnp e)"

section \<open>Shrinking a file\<close>

definition shrink_body :: "'d blk_driver \<Rightarrow> f_node \<Rightarrow> 'd io \<Rightarrow> ((dos_error + unit) \<times> f_node \<times> 'd io) option" where
  "shrink_body drv fnp e =
     (let p = f_dpb fnp in do {
        (r, fnp1, e1) \<leftarrow> map_cluster drv XFR_READ fnp e;
        if r \<noteq> Inr () then Some (Inl DE_ACCESS, fnp1, e1)
        else
          (let st = f_cluster fnp1 in do {
             (nxt, e2) \<leftarrow> next_cluster drv p st e1;
             if nxt \<le> 1 then Some (Inl DE_ACCESS, fnp1, e2)
             else if dir_size (f_dir fnp1) \<noteq> 0 \<and> nxt = LONG_LAST_CLUSTER then Some (Inr (), fnp1, e2)
             else
               (let (fnp2, last) = (if dir_size (f_dir fnp1) = 0
                       then (fnp1\<lparr>f_cluster := FREE, f_dir := setdstart (dpbs e2 p) FREE (f_dir fnp1)\<rparr>, FREE)
                       else (fnp1, LONG_LAST_CLUSTER))
                in do {
                  (r2, e3) \<leftarrow> link_fat drv p st last e2;
                  if r2 \<noteq> 0 then Some (Inl DE_ACCESS, fnp2, e3)
                  else do {
                    e4 \<leftarrow> wipe_out_clusters drv p nxt e3;
                    (ok, e5) \<leftarrow> flush_buffers drv (dpb_unit (dpbs e4 p)) e4;
                    Some (if ok then Inr () else Inl DE_ACCESS, fnp2, e5)
                  }
                })
           })
      })"

definition shrink_file :: "'d blk_driver \<Rightarrow> f_node \<Rightarrow> 'd io \<Rightarrow> ((dos_error + unit) \<times> f_node \<times> 'd io) option" where
  "shrink_file drv fnp e =
     (if f_offset fnp = 0 \<and> f_cluster fnp = FREE then Some (Inr (), fnp, e)
      else do {
        (r, fnp1, e1) \<leftarrow> shrink_body drv (if f_offset fnp \<noteq> 0 then fnp\<lparr>f_offset := f_offset fnp - 1\<rparr> else fnp) e;
        Some (r, fnp1\<lparr>f_offset := f_offset fnp\<rparr>, e1)
      })"

section \<open>Counting the free clusters\<close>

partial_function (option) free_loop :: "'d blk_driver \<Rightarrow> nat \<Rightarrow> u32 \<Rightarrow> u32 \<Rightarrow> u32 \<Rightarrow> 'd io \<Rightarrow> (u32 \<times> 'd io) option" where
  "free_loop drv p last_cl i cnt e =
     (if i > last_cl then Some (cnt, e)
      else do {
        (fr, e1) \<leftarrow> is_free_cluster drv p i e;
        if fr then
          free_loop drv p last_cl (i + 1) (cnt + 1)
            (if cnt = 0 then upd_dpb p (\<lambda>d. if ISFAT32 d then d\<lparr>dpb_xcluster := i\<rparr> else d\<lparr>dpb_cluster := ucast i\<rparr>) e1 else e1)
        else free_loop drv p last_cl (i + 1) cnt e1
      })"

declare free_loop.simps [code]

definition dos_free :: "'d blk_driver \<Rightarrow> nat \<Rightarrow> 'd io \<Rightarrow> (u32 \<times> 'd io) option" where
  "dos_free drv p e =
     (let d = dpbs e p
      in if ISFAT32 d \<and> dpb_xnfreeclst d \<noteq> XUNKNCLSTFREE then Some (dpb_xnfreeclst d, e)
         else if \<not> ISFAT32 d \<and> dpb_nfreeclst d \<noteq> UNKNCLSTFREE then Some (ucast (dpb_nfreeclst d), e)
         else do {
           (cnt, e1) \<leftarrow> free_loop drv p (max_cluster d) 2 0 e;
           if ISFAT32 d then do {
             e2 \<leftarrow> write_fsinfo drv p (upd_dpb p (\<lambda>d. d\<lparr>dpb_xnfreeclst := cnt\<rparr>) e1);
             Some (cnt, e2)
           }
           else Some (cnt, upd_dpb p (set_nfreeclst (ucast cnt)) e1)
         })"

end
