(* ===== verification/Block_Ring.thy ===== *)
theory Block_Ring
  imports Block_Cache
begin

text \<open>
  The buffer ring as a list: what the link operations do to the order of the buffers, and what
  the loops around the ring compute.
\<close>

section \<open>Linked segments\<close>

fun links :: "(u16 \<Rightarrow> buffer) \<Rightarrow> u16 \<Rightarrow> u16 list \<Rightarrow> u16 \<Rightarrow> bool" where
  "links b p [] q \<longleftrightarrow> b_next (b p) = q \<and> b_prev (b q) = p"
| "links b p (x # xs) q \<longleftrightarrow> b_next (b p) = x \<and> b_prev (b x) = p \<and> links b x xs q"

text \<open>The ring, from the first buffer on. No buffer is at offset 0, which the search takes for none.\<close>

definition ring :: "(u16 \<Rightarrow> buffer) \<Rightarrow> u16 list \<Rightarrow> bool" where
  "ring b ps \<longleftrightarrow> ps \<noteq> [] \<and> distinct ps \<and> 0 \<notin> set ps \<and> links b (hd ps) (tl ps) (hd ps)"

lemma links_append [simp]:
  "links b p (xs @ x # ys) q \<longleftrightarrow> links b p xs x \<and> links b x ys q"
  by (induction xs arbitrary: p) auto

lemma links_frame:
  assumes "links b p xs q"
    and "\<forall>x \<in> insert p (set xs). b_next (b' x) = b_next (b x)"
    and "\<forall>x \<in> insert q (set xs). b_prev (b' x) = b_prev (b x)"
  shows "links b' p xs q"
  using assms by (induction xs arbitrary: p) simp_all

lemma set_links [simp]:
  "b_next (set_next p q b x) = (if x = p then q else b_next (b x))"
  "b_prev (set_next p q b x) = b_prev (b x)"
  "b_prev (set_prev p q b x) = (if x = p then q else b_prev (b x))"
  "b_next (set_prev p q b x) = b_next (b x)"
  by (simp_all add: set_next_def set_prev_def)

lemma links_set_next [simp]: "l \<notin> insert p (set xs) \<Longrightarrow> links (set_next l r b) p xs q = links b p xs q"
  by (auto elim!: links_frame)

lemma links_set_prev [simp]: "r \<notin> insert q (set xs) \<Longrightarrow> links (set_prev r l b) p xs q = links b p xs q"
  by (auto elim!: links_frame)

lemma links_last: "links b p xs q \<Longrightarrow> b_prev (b q) = last (p # xs)"
  by (induction xs arbitrary: p) auto

lemma links_hd: "links b p xs q \<Longrightarrow> b_next (b p) = hd (xs @ [q])"
  by (cases xs) auto

section \<open>Moving a buffer to the front\<close>

lemma unlink_links:
  assumes "links b a (us @ q # vs) a" "distinct (a # us @ q # vs)"
  shows "links (unlink_buffer q b) a (us @ vs) a"
proof -
  have u: "unlink_buffer q b = set_next l r (set_prev r l b)"
    if "b_prev (b q) = l" "b_next (b q) = r" "l \<noteq> q" "r \<noteq> q" for l r
    using that by (simp add: unlink_buffer_def Let_def)
  have *: "us = [] \<or> (\<exists>ds d. us = ds @ [d])" "vs = [] \<or> (\<exists>c cs. vs = c # cs)"
    by (cases us rule: rev_cases, auto) (cases vs, auto)
  then consider "us = []" "vs = []" | c cs where "us = []" "vs = c # cs" | ds d where "us = ds @ [d]" "vs = []"
    | ds d c cs where "us = ds @ [d]" "vs = c # cs" by blast
  then show ?thesis
  proof cases
    case 1
    then show ?thesis using assms by (subst u [of a a]) auto
  next
    case 2
    then show ?thesis using assms by (subst u [of a c]) auto
  next
    case 3
    then show ?thesis using assms by (subst u [of d a]) auto
  next
    case 4
    then show ?thesis using assms by (subst u [of d c]) auto
  qed
qed

lemma insert_links:
  assumes "links b a xs a" "distinct (a # xs)" "q \<notin> set (a # xs)"
  shows "links (insert_buffer q a b) q (a # xs) q"
proof -
  have i: "insert_buffer q a b = set_next z q (set_prev a q (set_next q a (set_prev q z b)))"
    if "b_prev (b a) = z" "z \<noteq> q" for z
    using that assms(3) by (simp add: insert_buffer_def Let_def)
  show ?thesis
  proof (cases xs rule: rev_cases)
    case Nil
    then show ?thesis using assms by (subst i [of a]) auto
  next
    case (snoc ds d)
    then show ?thesis using assms by (subst i [of d]) auto
  qed
qed

text \<open>Only the links change.\<close>

definition same_data :: "buffer \<Rightarrow> buffer \<Rightarrow> bool" where
  "same_data x y \<longleftrightarrow> x\<lparr>b_next := 0, b_prev := 0\<rparr> = y\<lparr>b_next := 0, b_prev := 0\<rparr>"

lemma same_data_refl [simp]: "same_data x x"
  by (simp add: same_data_def)

lemma same_data_trans: "same_data x y \<Longrightarrow> same_data y z \<Longrightarrow> same_data x z"
  by (simp add: same_data_def)

lemma same_dataD:
  assumes "same_data x y"
  shows "b_unit x = b_unit y" "b_flag x = b_flag y" "b_blkno x = b_blkno y" "b_copies x = b_copies y"
    "b_offset x = b_offset y" "b_dpbp x = b_dpbp y" "b_buffer x = b_buffer y"
  using assms by (cases x; cases y; simp add: same_data_def)+

lemma same_data_set: "same_data (set_next p q b x) (b x)" "same_data (set_prev p q b x) (b x)"
  by (simp_all add: same_data_def set_next_def set_prev_def)

lemma same_data_move: "same_data (move_buffer q a b x) (b x)"
  unfolding move_buffer_def insert_buffer_def unlink_buffer_def Let_def
  by (meson same_data_set same_data_trans)

lemma move_buffer_ring:
  assumes "ring b (a # us @ q # vs)"
  shows "ring (move_buffer q a b) (q # a # us @ vs)"
proof -
  have "links (unlink_buffer q b) a (us @ vs) a"
    using assms by (intro unlink_links) (auto simp: ring_def)
  then have "links (move_buffer q a b) q (a # us @ vs) q"
    unfolding move_buffer_def using assms by (intro insert_links) (auto simp: ring_def)
  then show ?thesis using assms by (auto simp: ring_def)
qed

section \<open>Loops around the ring\<close>

lemma ring_next:
  assumes "ring b (xs @ p # ys)"
  shows "b_next (b p) = hd (ys @ [hd (xs @ [p])])"
proof (cases xs)
  case Nil
  then show ?thesis using assms by (auto simp: ring_def dest: links_hd)
next
  case (Cons x xs')
  then have "links b p ys x" using assms by (auto simp: ring_def)
  then show ?thesis using Cons by (auto dest: links_hd)
qed

lemma ring_prev_first: "ring b ps \<Longrightarrow> b_prev (b (hd ps)) = last ps"
  by (cases ps) (auto simp: ring_def dest: links_last)

text \<open>The search, as a function on the list.\<close>

fun scan :: "(u16 \<Rightarrow> buffer) \<Rightarrow> u32 \<Rightarrow> u8 \<Rightarrow> u16 list \<Rightarrow> nat \<times> u16 \<times> u16 \<Rightarrow> u16 + nat \<times> u16 \<times> u16" where
  "scan b blkno dsk [] acc = Inr acc"
| "scan b blkno dsk (p # ps) acc =
     (if holds_block blkno dsk (b p) then Inl p
      else scan b blkno dsk ps
        (if b_flag (b p) AND BFR_FAT \<noteq> 0 then fst acc + 1 else fst acc,
         if b_flag (b p) AND BFR_FAT \<noteq> 0 then fst (snd acc) else p,
         if b_flag (b p) AND BFR_UNCACHE \<noteq> 0 then p else snd (snd acc)))"

lemma search_loop_scan:
  assumes "ring b (xs @ p # ys)"
  shows "search_loop b (hd (xs @ [p])) blkno dsk p acc = Some (scan b blkno dsk (p # ys) acc)"
  using assms
proof (induction ys arbitrary: xs p acc)
  case Nil
  then show ?case using ring_next [OF Nil]
    by (subst search_loop.simps) (auto simp: Let_def split: prod.splits)
next
  case (Cons y ys)
  have r: "ring b ((xs @ [p]) @ y # ys)" using Cons.prems by simp
  have "y \<noteq> hd (xs @ [p])" using Cons.prems by (cases xs) (auto simp: ring_def)
  moreover have "hd ((xs @ [p]) @ [y]) = hd (xs @ [p])" by (cases xs) auto
  ultimately show ?case using Cons.IH [OF r] ring_next [OF Cons.prems]
    by (subst search_loop.simps) (auto simp: Let_def split: prod.splits)
qed

lemma search_loop_ring:
  assumes "ring b ps"
  shows "search_loop b (hd ps) blkno dsk (hd ps) acc = Some (scan b blkno dsk ps acc)"
  using search_loop_scan [of b "[]" "hd ps" "tl ps"] assms by (cases ps) (auto simp: ring_def)

lemma scan_Inl:
  assumes "scan b blkno dsk ps acc = Inl p"
  shows "p \<in> set ps \<and> holds_block blkno dsk (b p)"
  using assms by (induction ps arbitrary: acc) (auto split: if_splits)

lemma scan_Inr:
  assumes "scan b blkno dsk ps acc = Inr acc'"
  shows "(\<forall>p \<in> set ps. \<not> holds_block blkno dsk (b p))
    \<and> (fst (snd acc') = fst (snd acc) \<or> fst (snd acc') \<in> set ps \<and> b_flag (b (fst (snd acc'))) AND BFR_FAT = 0)
    \<and> (snd (snd acc') = snd (snd acc) \<and> (\<forall>p \<in> set ps. b_flag (b p) AND BFR_UNCACHE = 0)
       \<or> snd (snd acc') \<in> set ps \<and> b_flag (b (snd (snd acc'))) AND BFR_UNCACHE \<noteq> 0)"
  using assms
proof (induction ps arbitrary: acc)
  case (Cons p ps)
  let ?acc = "(if b_flag (b p) AND BFR_FAT \<noteq> 0 then fst acc + 1 else fst acc,
         if b_flag (b p) AND BFR_FAT \<noteq> 0 then fst (snd acc) else p,
         if b_flag (b p) AND BFR_UNCACHE \<noteq> 0 then p else snd (snd acc))"
  have n: "\<not> holds_block blkno dsk (b p)" and s: "scan b blkno dsk ps ?acc = Inr acc'"
    using Cons.prems by (auto split: if_splits)
  show ?case
    using Cons.IH [OF s] n by (cases "b_flag (b p) AND BFR_FAT = 0"; cases "b_flag (b p) AND BFR_UNCACHE = 0") auto
qed simp

text \<open>A body that leaves the links alone is done for every buffer once, in order.\<close>

definition keeps_links :: "'d io \<Rightarrow> 'd io \<Rightarrow> bool" where
  "keeps_links e e' \<longleftrightarrow> firstbuf e' = firstbuf e
     \<and> (\<forall>p. b_next (bufs e' p) = b_next (bufs e p) \<and> b_prev (bufs e' p) = b_prev (bufs e p))"

lemma keeps_links_refl [simp]: "keeps_links e e"
  by (simp add: keeps_links_def)

lemma keeps_links_trans: "keeps_links e e' \<Longrightarrow> keeps_links e' e'' \<Longrightarrow> keeps_links e e''"
  by (simp add: keeps_links_def)

lemma ring_keeps: "ring (bufs e) ps \<Longrightarrow> keeps_links e e' \<Longrightarrow> ring (bufs e') ps"
  by (auto simp: ring_def keeps_links_def intro: links_frame)

lemma ring_walk_fold:
  assumes "ring (bufs e) (xs @ p # ys)" "firstbuf e = hd (xs @ [p])"
    and "\<And>q ok e. keeps_links e (snd (f q (ok, e)))"
  shows "ring_walk f p (ok, e) = Some (fold f (p # ys) (ok, e))"
  using assms(1,2)
proof (induction ys arbitrary: xs p ok e)
  case Nil
  obtain ok1 e1 where f: "f p (ok, e) = (ok1, e1)" by (cases "f p (ok, e)")
  have k: "keeps_links e e1" using assms(3) [of e p ok] f by simp
  then have "b_next (bufs e1 p) = firstbuf e1"
    using ring_next [OF Nil(1)] Nil(2) by (simp add: keeps_links_def)
  then show ?case using f by (subst ring_walk.simps) (simp add: Let_def)
next
  case (Cons y ys)
  obtain ok1 e1 where f: "f p (ok, e) = (ok1, e1)" by (cases "f p (ok, e)")
  have k: "keeps_links e e1" using assms(3) [of e p ok] f by simp
  have "y \<noteq> hd (xs @ [p])" using Cons.prems by (cases xs) (auto simp: ring_def)
  then have n: "b_next (bufs e1 p) = y" "y \<noteq> firstbuf e1"
    using ring_next [OF Cons.prems(1)] Cons.prems(2) k by (simp_all add: keeps_links_def)
  have "ring (bufs e1) ((xs @ [p]) @ y # ys)" using ring_keeps [OF Cons.prems(1) k] by simp
  moreover have "firstbuf e1 = hd ((xs @ [p]) @ [y])"
    using k Cons.prems(2) by (cases xs) (auto simp: keeps_links_def)
  ultimately have "ring_walk f y (ok1, e1) = Some (fold f (y # ys) (ok1, e1))" by (rule Cons.IH)
  then show ?case using f n by (subst ring_walk.simps) (simp add: Let_def)
qed

lemma ring_walk_ring:
  assumes "ring (bufs e) ps" "firstbuf e = hd ps" "\<And>q ok e. keeps_links e (snd (f q (ok, e)))"
  shows "ring_walk f (firstbuf e) (ok, e) = Some (fold f ps (ok, e))"
  using ring_walk_fold [of e "[]" "hd ps" "tl ps" f] assms by (cases ps) (auto simp: ring_def)

lemma dirty_loop_scan:
  assumes "ring b (xs @ p # ys)"
  shows "dirty_loop b (hd (xs @ [p])) dsk p = Some (\<exists>q \<in> set (p # ys). b_unit (b q) = dsk \<and> is_dirty (b q))"
  using assms
proof (induction ys arbitrary: xs p)
  case Nil
  then show ?case using ring_next [OF Nil] by (subst dirty_loop.simps) auto
next
  case (Cons y ys)
  have r: "ring b ((xs @ [p]) @ y # ys)" using Cons.prems by simp
  have "y \<noteq> hd (xs @ [p])" using Cons.prems by (cases xs) (auto simp: ring_def)
  moreover have "hd ((xs @ [p]) @ [y]) = hd (xs @ [p])" by (cases xs) auto
  ultimately show ?case using Cons.IH [OF r] ring_next [OF Cons.prems]
    by (subst dirty_loop.simps) auto
qed

end
