(* ===== verification/Block_Props.thy ===== *)
theory Block_Props
  imports Block_Ring
begin

text \<open>
  The sector cache is transparent: with a driver that transfers sectors without errors, what is
  read through the cache is what was last written, whether it is still in a buffer or on the
  disk, and the order of the ring and the choice of the buffer to reuse do not matter.
\<close>

section \<open>Drivers that work\<close>

definition start_of :: "blk_request \<Rightarrow> u32" where
  "start_of rq = (if r_start rq = HUGECOUNT then r_huge rq else ucast (r_start rq))"

text \<open>
  \<open>sec d (dv, unit) blk\<close> is the sector \<open>blk\<close> of a unit of a device. A request for one sector
  completes without an error, a read returns the sector and a write replaces it.
\<close>

type_synonym 'd sectors = "'d \<Rightarrow> nat \<times> u8 \<Rightarrow> u32 \<Rightarrow> bytes"

definition reads_sector :: "'d blk_driver \<Rightarrow> 'd sectors \<Rightarrow> bool" where
  "reads_sector drv sec \<longleftrightarrow>
     (\<forall>dv rq buf d. r_command rq = C_INPUT \<longrightarrow> r_count rq = 1 \<longrightarrow> length buf = 512 \<longrightarrow>
        (case drv dv rq buf d of (rq1, buf1, d1) \<Rightarrow>
           r_status rq1 = S_DONE \<and> buf1 = sec d (dv, r_unit rq) (start_of rq) \<and> sec d1 = sec d))"

definition writes_sector :: "'d blk_driver \<Rightarrow> 'd sectors \<Rightarrow> bool" where
  "writes_sector drv sec \<longleftrightarrow>
     (\<forall>dv rq buf d. r_command rq = C_OUTPUT \<or> r_command rq = C_OUTVFY \<longrightarrow> r_count rq = 1 \<longrightarrow> length buf = 512 \<longrightarrow>
        (case drv dv rq buf d of (rq1, buf1, d1) \<Rightarrow>
           r_status rq1 = S_DONE \<and> buf1 = buf
           \<and> sec d1 = (\<lambda>pl b. if pl = (dv, r_unit rq) \<and> b = start_of rq then buf else sec d pl b)))"

definition reliable :: "'d blk_driver \<Rightarrow> 'd sectors \<Rightarrow> bool" where
  "reliable drv sec \<longleftrightarrow> reads_sector drv sec \<and> writes_sector drv sec \<and> (\<forall>d pl b. length (sec d pl b) = 512)"

lemma reads_sectorD:
  assumes "reads_sector drv sec" "drv dv rq buf d = (rq1, buf1, d1)"
    and "r_command rq = C_INPUT" "r_count rq = 1" "length buf = 512"
  shows "r_status rq1 = S_DONE \<and> buf1 = sec d (dv, r_unit rq) (start_of rq) \<and> sec d1 = sec d"
  using assms(1) [unfolded reads_sector_def, rule_format, OF assms(3-5), of d dv] assms(2) by simp

lemma writes_sectorD:
  assumes "writes_sector drv sec" "drv dv rq buf d = (rq1, buf1, d1)"
    and "r_command rq = C_OUTPUT \<or> r_command rq = C_OUTVFY" "r_count rq = 1" "length buf = 512"
  shows "r_status rq1 = S_DONE \<and> buf1 = buf
     \<and> sec d1 = (\<lambda>pl b. if pl = (dv, r_unit rq) \<and> b = start_of rq then buf else sec d pl b)"
  using assms(1) [unfolded writes_sector_def, rule_format, OF assms(3-5), of dv d] assms(2) by simp

lemma reliableD:
  assumes "reliable drv sec"
  shows "reads_sector drv sec" "writes_sector drv sec" "length (sec d pl b) = 512"
  using assms unfolding reliable_def by blast+

lemma start_of_request [simp]: "start_of (xfer_request d vfy mode blkno n rq) = blkno"
proof (cases "dpb_dh_attr d AND ATTR_HUGE \<noteq> 0 \<or> blkno \<ge> MAXSHORT")
  case True
  then show ?thesis by (simp add: start_of_def xfer_request_def Let_def)
next
  case False
  then have b: "unat blkno < 65535" by (simp add: MAXSHORT_def word_less_nat_alt not_le)
  have "(ucast blkno :: u16) \<noteq> HUGECOUNT"
    using b by (simp add: HUGECOUNT_def unat_eq_iff unat_ucast_32_16)
  moreover have "ucast (ucast blkno :: u16) = blkno"
    using b by (simp add: unat_eq_iff unat_ucast_32_16)
  ultimately show ?thesis using False by (simp add: start_of_def xfer_request_def Let_def)
qed

lemma xfer_request_fields [simp]:
  "r_command (xfer_request d vfy mode blkno n rq) = xfer_command mode vfy"
  "r_unit (xfer_request d vfy mode blkno n rq) = dpb_subunit d"
  "r_count (xfer_request d vfy mode blkno n rq) = n"
  by (simp_all add: xfer_request_def Let_def)

text \<open>A transfer changes the device, the request header and the deblocking buffer only.\<close>

definition dev_only :: "'d io \<Rightarrow> 'd io \<Rightarrow> bool" where
  "dev_only e e' \<longleftrightarrow> e' = e\<lparr>IoReqHdr := IoReqHdr e', deblock_buf := deblock_buf e', disk := disk e'\<rparr>"

lemma dev_onlyD:
  assumes "dev_only e e'"
  shows "bufs e' = bufs e" "firstbuf e' = firstbuf e" "dpbs e' = dpbs e" "cds_table e' = cds_table e"
    "bufseg e' = bufseg e" "verify_ena e' = verify_ena e" "buf_hma e' = buf_hma e" "nbuffers e' = nbuffers e"
    "messages e' = messages e" "io_answers e' = io_answers e" "io_CritErrCode e' = io_CritErrCode e"
  by (subst assms [unfolded dev_only_def], simp)+

text \<open>The device and unit of a drive.\<close>

definition place :: "'d io \<Rightarrow> u8 \<Rightarrow> nat \<times> u8" where
  "place e u = (let d = dpbs e (the (get_dpb (unat u) e)) in (dpb_device d, dpb_subunit d))"

definition drive_ok :: "'d io \<Rightarrow> u8 \<Rightarrow> bool" where
  "drive_ok e u \<longleftrightarrow> (case get_dpb (unat u) e of None \<Rightarrow> False | Some p \<Rightarrow> dpb_secsize (dpbs e p) = 512)"

lemma get_dpb_cong: "cds_table e' = cds_table e \<Longrightarrow> get_dpb dsk e' = get_dpb dsk e"
  by (simp add: get_dpb_def get_cds_def)

lemma drive_cong:
  assumes "cds_table e' = cds_table e" "dpbs e' = dpbs e"
  shows "place e' = place e" "drive_ok e' = drive_ok e"
  using get_dpb_cong [OF assms(1)] assms(2)
  by (auto simp: fun_eq_iff place_def drive_ok_def Let_def split: option.splits)

lemma dev_only_trans: "dev_only e e1 \<Longrightarrow> dev_only e1 e2 \<Longrightarrow> dev_only e e2"
  by (cases e; cases e1; cases e2; simp add: dev_only_def)

text \<open>Whatever the driver answers, a transfer leaves the buffers alone.\<close>

lemma xfer_loop_bufs:
  "xfer_loop drv d blk seg buf n mode e = (st, buf', e') \<Longrightarrow> bufs e' = bufs e \<and> firstbuf e' = firstbuf e"
proof (induction drv d blk seg buf n mode e rule: xfer_loop.induct)
  case (1 drv d blk seg buf n mode e)
  obtain buf1 e1 where o: "xfer_once drv d blk seg buf n mode e = (buf1, e1)"
    by (cases "xfer_once drv d blk seg buf n mode e")
  have b1: "bufs e1 = bufs e \<and> firstbuf e1 = firstbuf e"
    using o by (auto simp: xfer_once_def Let_def split: if_splits prod.splits)
  obtain a e2 where b: "block_error e1 = (a, e2)" by (cases "block_error e1")
  have b2: "bufs e2 = bufs e1 \<and> firstbuf e2 = firstbuf e1"
    using b by (auto simp: block_error_def Let_def split: list.splits)
  show ?case
    using 1(2) 1(1) [OF o [symmetric] _ _ b [symmetric]] o b b1 b2
    by (subst (asm) xfer_loop.simps) (cases a; auto split: if_splits)
qed

lemma dskxfer_bufs:
  "dskxfer drv dsk blk seg buf n mode e = (st, buf', e') \<Longrightarrow> bufs e' = bufs e \<and> firstbuf e' = firstbuf e"
  by (auto simp: dskxfer_def dest: xfer_loop_bufs split: option.splits)

lemma xfer_read:
  assumes "reliable drv sec" "drive_ok e u" "length buf = 512" "length (deblock_buf e) = 512"
  shows "\<exists>e'. dskxfer drv (unat u) blkno seg buf 1 DSKREAD e = (0, sec (disk e) (place e u) blkno, e')
     \<and> dev_only e e' \<and> sec (disk e') = sec (disk e) \<and> length (deblock_buf e') = 512"
proof -
  obtain p where p: "get_dpb (unat u) e = Some p" "dpb_secsize (dpbs e p) = 512"
    using assms(2) by (auto simp: drive_ok_def split: option.splits)
  let ?d = "dpbs e p"
  let ?rq = "xfer_request ?d (verify_ena e) DSKREAD blkno 1 (IoReqHdr e)"
  have len: "length (sec (disk e) (place e u) blkno) = 512" by (rule reliableD(3) [OF assms(1)])
  have r: "\<exists>rq1 d1. drv (dpb_device ?d) ?rq b (disk e) = (rq1, sec (disk e) (place e u) blkno, d1)
      \<and> r_status rq1 = S_DONE \<and> sec d1 = sec (disk e)" if "length b = 512" for b
  proof -
    have c: "r_command ?rq = C_INPUT" "r_count ?rq = 1" by (simp_all add: xfer_command_def)
    obtain rq1 b1 d1 where x: "drv (dpb_device ?d) ?rq b (disk e) = (rq1, b1, d1)"
      by (cases "drv (dpb_device ?d) ?rq b (disk e)") auto
    note reads_sectorD [OF reliableD(1) [OF assms(1)] x c that]
    then show ?thesis using x p by (simp add: place_def Let_def)
  qed
  show ?thesis
  proof (cases "seg \<ge> 0xa000 \<and> buf_hma e")
    case True
    then show ?thesis using r [OF assms(4)] p len assms(3)
      by (auto simp: dskxfer_def xfer_loop.simps xfer_once_def Let_def fmemcpy_def dev_only_def status_bits)
  next
    case False
    then have "\<not> (seg \<ge> 0xa000 \<and> (1::u16) = 1 \<and> buf_hma e)" by blast
    then show ?thesis using r [OF assms(3)] p assms(4)
      by (auto simp: dskxfer_def xfer_loop.simps xfer_once_def Let_def dev_only_def status_bits)
  qed
qed

lemma xfer_write:
  assumes "reliable drv sec" "drive_ok e u" "length buf = 512" "length (deblock_buf e) = 512"
  shows "\<exists>e'. dskxfer drv (unat u) blkno seg buf 1 DSKWRITE e = (0, buf, e')
     \<and> dev_only e e' \<and> length (deblock_buf e') = 512
     \<and> sec (disk e') = (\<lambda>pl b. if pl = place e u \<and> b = blkno then buf else sec (disk e) pl b)"
proof -
  obtain p where p: "get_dpb (unat u) e = Some p" "dpb_secsize (dpbs e p) = 512"
    using assms(2) by (auto simp: drive_ok_def split: option.splits)
  let ?d = "dpbs e p"
  let ?rq = "xfer_request ?d (verify_ena e) DSKWRITE blkno 1 (IoReqHdr e)"
  have r: "\<exists>rq1 d1. drv (dpb_device ?d) ?rq buf (disk e) = (rq1, buf, d1)
      \<and> r_status rq1 = S_DONE \<and> sec d1 = (\<lambda>pl b. if pl = place e u \<and> b = blkno then buf else sec (disk e) pl b)"
  proof -
    have c: "r_command ?rq = C_OUTPUT \<or> r_command ?rq = C_OUTVFY" "r_count ?rq = 1" by (simp_all add: xfer_command_def)
    obtain rq1 b1 d1 where x: "drv (dpb_device ?d) ?rq buf (disk e) = (rq1, b1, d1)"
      by (cases "drv (dpb_device ?d) ?rq buf (disk e)") auto
    note writes_sectorD [OF reliableD(2) [OF assms(1)] x c assms(3)]
    then show ?thesis using x p by (simp add: place_def Let_def)
  qed
  have f: "fmemcpy (deblock_buf e) buf (unat (512 :: u16)) = buf" using assms(3,4) by (simp add: fmemcpy_def)
  show ?thesis
  proof (cases "seg \<ge> 0xa000 \<and> buf_hma e")
    case True
    then show ?thesis using r p f assms(3)
      by (auto simp: dskxfer_def xfer_loop.simps xfer_once_def Let_def dev_only_def status_bits)
  next
    case False
    then have "\<not> (seg \<ge> 0xa000 \<and> (1::u16) = 1 \<and> buf_hma e)" by blast
    then show ?thesis using r p assms(4)
      by (auto simp: dskxfer_def xfer_loop.simps xfer_once_def Let_def dev_only_def status_bits)
  qed
qed


section \<open>Flags\<close>

lemma flag_bits:
  "x AND BFR_UNCACHE = 0 \<longleftrightarrow> \<not> bit x 0" "x AND BFR_FAT = 0 \<longleftrightarrow> \<not> bit x 1" "x AND BFR_VALID = 0 \<longleftrightarrow> \<not> bit x 5"
  using bit_iff_and_push_bit_not_eq_0 [of x 0] bit_iff_and_push_bit_not_eq_0 [of x 1] bit_iff_and_push_bit_not_eq_0 [of x 5]
  by (simp_all add: bfr_flags)

lemma is_dirty_bits: "is_dirty b \<longleftrightarrow> bit (b_flag b) 5 \<and> bit (b_flag b) 6"
proof
  assume "is_dirty b"
  then have e: "b_flag b AND 0x60 = 0x60" by (simp add: is_dirty_def bfr_flags)
  have "bit (b_flag b AND 0x60) 5" "bit (b_flag b AND 0x60) 6" unfolding e by simp_all
  then show "bit (b_flag b) 5 \<and> bit (b_flag b) 6" by (simp_all add: bit_and_iff)
next
  assume a: "bit (b_flag b) 5 \<and> bit (b_flag b) 6"
  have c: "bit (0x60 :: u8) n \<Longrightarrow> n = 5 \<or> n = 6" if "n < 8" for n
  proof -
    assume b: "bit (0x60 :: u8) n"
    have "n \<in> {0, 1, 2, 3, 4, 5, 6, 7}" using that by auto
    then show ?thesis using b by auto
  qed
  have "b_flag b AND 0x60 = 0x60" by (rule bit_word_eqI) (use a c in \<open>auto simp: bit_and_iff\<close>)
  then show "is_dirty b" by (simp add: is_dirty_def bfr_flags)
qed

lemma holds_block_bits: "holds_block blkno u b \<longleftrightarrow> b_blkno b = blkno \<and> bit (b_flag b) 5 \<and> b_unit b = u"
  by (simp add: holds_block_def flag_bits)

section \<open>The invariant of the cache\<close>

text \<open>
  \<open>L\<close> is the set of drives and blocks that are read and written through the cache; the
  mirrors of the FAT are outside it.
\<close>

definition mirror_blocks :: "buffer \<Rightarrow> (nat \<Rightarrow> dpb) \<Rightarrow> (u8 \<times> u32) set" where
  "mirror_blocks b ds =
     (\<lambda>k. (b_unit b, b_blkno b + of_nat k * snd (copies_of b ds))) ` {1..<fst (copies_of b ds)}"

definition buf_ok :: "'d sectors \<Rightarrow> (u8 \<times> u32) set \<Rightarrow> 'd io \<Rightarrow> buffer \<Rightarrow> bool" where
  "buf_ok sec L e b \<longleftrightarrow> length (b_buffer b) = 512 \<and>
     (bit (b_flag b) 5 \<longrightarrow> (b_unit b, b_blkno b) \<in> L \<and> fst (copies_of b (dpbs e)) \<noteq> 0 \<and> mirror_blocks b (dpbs e) \<inter> L = {}
        \<and> (\<not> bit (b_flag b) 6 \<longrightarrow> b_buffer b = sec (disk e) (place e (b_unit b)) (b_blkno b)))"

definition drives_ok :: "(u8 \<times> u32) set \<Rightarrow> 'd io \<Rightarrow> bool" where
  "drives_ok L e \<longleftrightarrow> (\<forall>x \<in> L. drive_ok e (fst x)) \<and> (\<forall>x \<in> L. \<forall>y \<in> L. place e (fst x) = place e (fst y) \<longrightarrow> fst x = fst y)"

definition one_holder :: "(u16 \<Rightarrow> buffer) \<Rightarrow> u16 list \<Rightarrow> bool" where
  "one_holder b ps \<longleftrightarrow> (\<forall>p \<in> set ps. \<forall>q \<in> set ps. bit (b_flag (b p)) 5 \<longrightarrow> bit (b_flag (b q)) 5
     \<longrightarrow> b_unit (b p) = b_unit (b q) \<longrightarrow> b_blkno (b p) = b_blkno (b q) \<longrightarrow> p = q)"

definition cache_inv :: "'d sectors \<Rightarrow> (u8 \<times> u32) set \<Rightarrow> u16 list \<Rightarrow> 'd io \<Rightarrow> bool" where
  "cache_inv sec L ps e \<longleftrightarrow> ring (bufs e) ps \<and> firstbuf e = hd ps \<and> length (deblock_buf e) = 512
     \<and> drives_ok L e \<and> (\<forall>p \<in> set ps. buf_ok sec L e (bufs e p)) \<and> one_holder (bufs e) ps"

text \<open>What the cache shows of a block.\<close>

definition view :: "'d sectors \<Rightarrow> u16 list \<Rightarrow> 'd io \<Rightarrow> u8 \<Rightarrow> u32 \<Rightarrow> bytes" where
  "view sec ps e u blk =
     (case find (\<lambda>p. holds_block blk u (bufs e p)) ps of
        Some p \<Rightarrow> b_buffer (bufs e p)
      | None \<Rightarrow> sec (disk e) (place e u) blk)"

lemma view_miss: "\<forall>p \<in> set ps. \<not> holds_block blk u (bufs e p) \<Longrightarrow> view sec ps e u blk = sec (disk e) (place e u) blk"
  by (auto simp: view_def find_None_iff find_Some_iff split: option.splits)

lemma view_hit:
  assumes "one_holder (bufs e) ps" "p \<in> set ps" "holds_block blk u (bufs e p)"
  shows "view sec ps e u blk = b_buffer (bufs e p)"
proof (cases "find (\<lambda>p. holds_block blk u (bufs e p)) ps")
  case None
  then show ?thesis using assms by (auto simp: find_None_iff)
next
  case (Some q)
  then have "q \<in> set ps" "holds_block blk u (bufs e q)" by (auto simp: find_Some_iff)
  then have "q = p" using assms unfolding one_holder_def holds_block_bits by metis
  then show ?thesis using Some by (simp add: view_def)
qed

section \<open>Flushing\<close>

lemma write_copies_ok:
  assumes "reliable drv sec" "drive_ok e (b_unit (bufs e p))" "length (b_buffer (bufs e p)) = 512" "length (deblock_buf e) = 512"
  shows "\<exists>e'. write_copies drv p n blk off True e = (True, e') \<and> dev_only e e' \<and> length (deblock_buf e') = 512
     \<and> (\<forall>pl b. sec (disk e') pl b =
          (if pl = place e (b_unit (bufs e p)) \<and> (\<exists>k < n. b = blk + of_nat k * off) then b_buffer (bufs e p) else sec (disk e) pl b))"
  using assms
proof (induction n arbitrary: blk e)
  case 0
  then show ?case by (simp add: dev_only_def)
next
  case (Suc n)
  let ?b = "bufs e p"
  obtain e1 where x: "dskxfer drv (unat (b_unit ?b)) blk (bufseg e) (b_buffer ?b) 1 DSKWRITE e = (0, b_buffer ?b, e1)"
    "dev_only e e1" "length (deblock_buf e1) = 512"
    "sec (disk e1) = (\<lambda>pl b. if pl = place e (b_unit ?b) \<and> b = blk then b_buffer ?b else sec (disk e) pl b)"
    using xfer_write [OF Suc.prems] by blast
  note d = dev_onlyD [OF x(2)]
  have same: "upd_buf p (\<lambda>b. b\<lparr>b_buffer := b_buffer ?b\<rparr>) e1 = e1" using d(1) by (simp add: upd_buf_def)
  have pl: "place e1 u = place e u" "drive_ok e1 u = drive_ok e u" for u
    using drive_cong [OF d(4,3)] by simp_all
  obtain e' where y: "write_copies drv p n (blk + off) off True e1 = (True, e')" "dev_only e1 e'" "length (deblock_buf e') = 512"
     "\<forall>pl b. sec (disk e') pl b =
          (if pl = place e (b_unit ?b) \<and> (\<exists>k < n. b = blk + off + of_nat k * off) then b_buffer ?b else sec (disk e1) pl b)"
    using Suc.IH [of e1 "blk + off", unfolded pl d(1)] Suc.prems(1-3) x(3) by blast
  have ex: "(\<exists>k < Suc n. b = blk + of_nat k * off) \<longleftrightarrow> b = blk \<or> (\<exists>k < n. b = blk + off + of_nat k * off)" for b :: u32
    unfolding Ex_less_Suc2 by (simp add: algebra_simps)
  have "write_copies drv p (Suc n) blk off True e = (True, e')" using x(1) y(1) same by (simp add: Let_def)
  moreover have "dev_only e e'" by (rule dev_only_trans [OF x(2) y(2)])
  ultimately show ?case using y(3,4) x(4) unfolding ex by auto
qed


text \<open>Everything but the buffers, their order and the device is left alone.\<close>

definition same_env :: "'d io \<Rightarrow> 'd io \<Rightarrow> bool" where
  "same_env e e' \<longleftrightarrow> cds_table e' = cds_table e \<and> dpbs e' = dpbs e \<and> bufseg e' = bufseg e
     \<and> buf_hma e' = buf_hma e \<and> verify_ena e' = verify_ena e \<and> nbuffers e' = nbuffers e \<and> messages e' = messages e"

lemma same_env_refl [simp]: "same_env e e"
  by (simp add: same_env_def)

lemma same_env_trans: "same_env e e1 \<Longrightarrow> same_env e1 e2 \<Longrightarrow> same_env e e2"
  by (simp add: same_env_def)

lemma same_env_drive:
  assumes "same_env e e'"
  shows "place e' = place e" "drive_ok e' = drive_ok e" "dpbs e' = dpbs e"
  using assms drive_cong [of e' e] by (simp_all add: same_env_def)

lemma dev_only_same_env: "dev_only e e' \<Longrightarrow> same_env e e'"
  by (simp add: same_env_def dev_onlyD)

lemma upd_buf_fields [simp]:
  "bufs (upd_buf p f e) = (bufs e)(p := f (bufs e p))" "firstbuf (upd_buf p f e) = firstbuf e"
  "deblock_buf (upd_buf p f e) = deblock_buf e" "disk (upd_buf p f e) = disk e" "bufseg (upd_buf p f e) = bufseg e"
  "dpbs (upd_buf p f e) = dpbs e" "cds_table (upd_buf p f e) = cds_table e"
  "verify_ena (upd_buf p f e) = verify_ena e" "messages (upd_buf p f e) = messages e"
  by (simp_all add: upd_buf_def)

lemma same_env_upd_buf [simp]: "same_env e (upd_buf p f e') = same_env e e'"
  by (simp add: same_env_def upd_buf_def)

lemma place_upd_buf [simp]: "place (upd_buf p f e) = place e" "drive_ok (upd_buf p f e) = drive_ok e"
  by (rule drive_cong; simp)+

lemma cache_invD:
  assumes "cache_inv sec L ps e"
  shows "ring (bufs e) ps" "firstbuf e = hd ps" "length (deblock_buf e) = 512" "one_holder (bufs e) ps"
    "p \<in> set ps \<Longrightarrow> buf_ok sec L e (bufs e p)" "x \<in> L \<Longrightarrow> drive_ok e (fst x)"
    "x \<in> L \<Longrightarrow> y \<in> L \<Longrightarrow> place e (fst x) = place e (fst y) \<Longrightarrow> fst x = fst y"
  using assms unfolding cache_inv_def drives_ok_def by blast+

lemma flush1_ok:
  assumes rel: "reliable drv sec" and inv: "cache_inv sec L ps e" and p: "p \<in> set ps"
  defines "b \<equiv> bufs e p"
  shows "\<exists>e'. flush1 drv p e = (True, e') \<and> same_env e e' \<and> firstbuf e' = firstbuf e \<and> length (deblock_buf e') = 512
     \<and> bufs e' = (bufs e)(p := b\<lparr>b_flag := b_flag b AND NOT BFR_DIRTY\<rparr>)
     \<and> (\<forall>x \<in> L. sec (disk e') (place e (fst x)) (snd x) =
          (if is_dirty b \<and> x = (b_unit b, b_blkno b) then b_buffer b else sec (disk e) (place e (fst x)) (snd x)))"
proof (cases "is_dirty b")
  case False
  then show ?thesis using cache_invD(3) [OF inv]
    by (intro exI [of _ "upd_buf p (\<lambda>b. b\<lparr>b_flag := b_flag b AND NOT BFR_DIRTY\<rparr>) e"])
      (simp add: flush1_def b_def case_prod_beta Let_def)
next
  case True
  have ok: "buf_ok sec L e b" using cache_invD(5) [OF inv p] by (simp add: b_def)
  then have live: "(b_unit b, b_blkno b) \<in> L" and len: "length (b_buffer b) = 512"
    and n: "fst (copies_of b (dpbs e)) \<noteq> 0" and mir: "mirror_blocks b (dpbs e) \<inter> L = {}"
    using True by (auto simp: buf_ok_def is_dirty_bits)
  define n where "n = fst (copies_of b (dpbs e))"
  define off where "off = snd (copies_of b (dpbs e))"
  obtain e1 where w: "write_copies drv p n (b_blkno b) off True e = (True, e1)" "dev_only e e1" "length (deblock_buf e1) = 512"
    "\<forall>pl c. sec (disk e1) pl c =
        (if pl = place e (b_unit b) \<and> (\<exists>k < n. c = b_blkno b + of_nat k * off) then b_buffer b else sec (disk e) pl c)"
    using write_copies_ok [OF rel, of e p n "b_blkno b" off, folded b_def, OF _ len cache_invD(3) [OF inv]]
      cache_invD(6) [OF inv live] by auto
  let ?e' = "upd_buf p (\<lambda>b. b\<lparr>b_flag := b_flag b AND NOT BFR_DIRTY\<rparr>) e1"
  have "flush1 drv p e = (True, ?e')"
    using True w(1) by (simp add: flush1_def b_def n_def off_def case_prod_beta Let_def)
  moreover have "sec (disk ?e') (place e (fst x)) (snd x) =
      (if x = (b_unit b, b_blkno b) then b_buffer b else sec (disk e) (place e (fst x)) (snd x))" if x: "x \<in> L" for x
  proof (cases "fst x = b_unit b")
    case True
    have "(\<exists>k < n. snd x = b_blkno b + of_nat k * off) \<longleftrightarrow> snd x = b_blkno b"
    proof
      assume "\<exists>k < n. snd x = b_blkno b + of_nat k * off"
      then obtain k where k: "k < n" "snd x = b_blkno b + of_nat k * off" by blast
      show "snd x = b_blkno b"
      proof (rule ccontr)
        assume "snd x \<noteq> b_blkno b"
        then have "k \<noteq> 0" using k(2) by (cases k) auto
        then have "x \<in> mirror_blocks b (dpbs e)"
          using k True by (auto simp: mirror_blocks_def n_def off_def prod_eq_iff intro!: image_eqI [of _ _ k])
        then show False using mir x by blast
      qed
    next
      assume "snd x = b_blkno b"
      then show "\<exists>k < n. snd x = b_blkno b + of_nat k * off"
        using n by (intro exI [of _ 0]) (simp add: n_def)
    qed
    then show ?thesis using w(4) [rule_format, of "place e (fst x)" "snd x"] True by (simp add: prod_eq_iff)
  next
    case False
    then have "place e (fst x) \<noteq> place e (b_unit b)" using cache_invD(7) [OF inv x live] by auto
    then show ?thesis using w(4) [rule_format, of "place e (fst x)" "snd x"] False by auto
  qed
  ultimately show ?thesis
    using True w(2,3) dev_onlyD(1,2) [OF w(2)] dev_only_same_env [OF w(2)]
    by (intro exI [of _ ?e']) (simp add: b_def)
qed


section \<open>The views\<close>

text \<open>Buffers that agree in what they hold.\<close>

definition alike :: "buffer \<Rightarrow> buffer \<Rightarrow> bool" where
  "alike x y \<longleftrightarrow> b_unit x = b_unit y \<and> b_blkno x = b_blkno y \<and> b_copies x = b_copies y \<and> b_offset x = b_offset y
     \<and> b_dpbp x = b_dpbp y \<and> b_buffer x = b_buffer y
     \<and> (\<forall>n \<in> {1, 5, 6}. bit (b_flag x) n = bit (b_flag y) n)"

lemma alike_copies: "alike x y \<Longrightarrow> copies_of x ds = copies_of y ds"
  by (simp add: alike_def copies_of_def flag_bits)

lemma alike_trans: "alike x y \<Longrightarrow> alike y z \<Longrightarrow> alike x z"
  by (simp add: alike_def)

lemma alike_same_data: "same_data x y \<Longrightarrow> alike x y"
  by (simp add: alike_def same_dataD)

lemma alike_uncache:
  "alike (b\<lparr>b_flag := b_flag b AND NOT BFR_UNCACHE\<rparr>) b" "alike (b\<lparr>b_flag := b_flag b OR BFR_UNCACHE\<rparr>) b"
  by (simp_all add: alike_def bfr_flags bit_simps)

lemma alike_holds: "alike x y \<Longrightarrow> holds_block blk u x = holds_block blk u y"
  by (simp add: alike_def holds_block_bits)

lemma alike_buf_ok:
  assumes "alike x y" "dpbs e' = dpbs e" "place e' = place e" "disk e' = disk e"
  shows "buf_ok sec L e' x = buf_ok sec L e y"
proof -
  have "copies_of x (dpbs e) = copies_of y (dpbs e)" by (rule alike_copies [OF assms(1)])
  then show ?thesis using assms unfolding buf_ok_def mirror_blocks_def alike_def by simp
qed

lemma one_holder_alike:
  assumes "\<And>q. q \<in> set ps \<Longrightarrow> alike (b' q) (b q)" "one_holder b ps" "set ps' = set ps"
  shows "one_holder b' ps'"
  using assms(2) unfolding one_holder_def assms(3)
  using assms(1) by (simp add: alike_def)

lemma one_holder_keys:
  assumes "\<And>q. bit (b_flag (b' q)) 5 = bit (b_flag (b q)) 5" "\<And>q. b_unit (b' q) = b_unit (b q)"
    "\<And>q. b_blkno (b' q) = b_blkno (b q)" "one_holder b ps"
  shows "one_holder b' ps"
  using assms unfolding one_holder_def by simp

text \<open>Reordering the ring changes no view.\<close>

lemma view_alike:
  assumes "one_holder (bufs e) ps" "\<And>q. q \<in> set ps \<Longrightarrow> alike (bufs e' q) (bufs e q)" "set ps' = set ps"
    and "place e' u = place e u" "sec (disk e') (place e u) blk = sec (disk e) (place e u) blk"
  shows "view sec ps' e' u blk = view sec ps e u blk"
proof (cases "\<exists>p \<in> set ps. holds_block blk u (bufs e p)")
  case True
  then obtain p where p: "p \<in> set ps" "holds_block blk u (bufs e p)" by blast
  have "one_holder (bufs e') ps'" by (rule one_holder_alike [OF assms(2,1,3)])
  moreover have "holds_block blk u (bufs e' p)" using p alike_holds [OF assms(2)] by blast
  ultimately have "view sec ps' e' u blk = b_buffer (bufs e' p)" using p(1) assms(3) by (intro view_hit) auto
  also have "\<dots> = b_buffer (bufs e p)" using assms(2) [OF p(1)] by (simp add: alike_def)
  also have "\<dots> = view sec ps e u blk" by (rule view_hit [OF assms(1) p, symmetric])
  finally show ?thesis .
next
  case False
  then have "\<forall>p \<in> set ps'. \<not> holds_block blk u (bufs e' p)" using alike_holds [OF assms(2)] assms(3) by auto
  then show ?thesis using False assms(4,5) by (simp add: view_miss)
qed

lemma cache_inv_alike:
  assumes "cache_inv sec L ps e" "\<And>q. q \<in> set ps \<Longrightarrow> alike (bufs e' q) (bufs e q)" "set ps' = set ps"
    and "same_env e e'" "disk e' = disk e" "deblock_buf e' = deblock_buf e" "ring (bufs e') ps'" "firstbuf e' = hd ps'"
  shows "cache_inv sec L ps' e'"
proof -
  note d = same_env_drive [OF assms(4)]
  have "buf_ok sec L e' (bufs e' q)" if "q \<in> set ps" for q
    using alike_buf_ok [OF assms(2) [OF that] d(3,1) assms(5)] cache_invD(5) [OF assms(1) that] by simp
  moreover have "one_holder (bufs e') ps'" by (rule one_holder_alike [OF assms(2) cache_invD(4) [OF assms(1)] assms(3)])
  ultimately show ?thesis
    using assms(1,3,6-8) d unfolding cache_inv_def drives_ok_def by simp
qed

section \<open>Getting a block\<close>

text \<open>The ring after \<open>to_front\<close>.\<close>

definition front :: "u16 \<Rightarrow> u16 list \<Rightarrow> u16 list" where
  "front p ps = p # remove1 p ps"

lemma front_set: "p \<in> set ps \<Longrightarrow> distinct ps \<Longrightarrow> set (front p ps) = set ps"
  by (auto simp: front_def set_remove1_eq)

lemma to_front_ring:
  assumes "ring (bufs e) ps" "firstbuf e = hd ps" "p \<in> set ps"
  shows "ring (bufs (to_front p e)) (front p ps)" "firstbuf (to_front p e) = p"
    "same_data (bufs (to_front p e) q) (bufs e q)"
proof -
  obtain a as where ps: "ps = a # as" using assms(3) by (cases ps) auto
  have "ring (bufs (to_front p e)) (front p ps) \<and> firstbuf (to_front p e) = p"
  proof (cases "p = a")
    case True
    then show ?thesis using assms ps by (simp add: to_front_def front_def)
  next
    case False
    then have "p \<in> set as" using assms(3) ps by simp
    then obtain us vs where sp: "as = us @ p # vs" by (auto dest: split_list)
    have r: "ring (bufs e) (a # us @ p # vs)" using assms(1) ps sp by simp
    then have "p \<notin> set us" by (auto simp: ring_def)
    then have "front p ps = p # a # us @ vs" using False by (simp add: front_def ps sp remove1_append)
    then show ?thesis using move_buffer_ring [OF r] assms(2) ps False by (simp add: to_front_def)
  qed
  then show "ring (bufs (to_front p e)) (front p ps)" "firstbuf (to_front p e) = p" by simp_all
  show "same_data (bufs (to_front p e) q) (bufs e q)" by (simp add: to_front_def same_data_move)
qed

lemma to_front_fields [simp]:
  "deblock_buf (to_front p e) = deblock_buf e" "disk (to_front p e) = disk e" "same_env e' (to_front p e) = same_env e' e"
  by (simp_all add: to_front_def same_env_def)

lemma touch_ok:
  assumes inv: "cache_inv sec L ps e" and p: "p \<in> set ps" and f: "alike (f (bufs e p)) (bufs e p)"
    "b_next (f (bufs e p)) = b_next (bufs e p)" "b_prev (f (bufs e p)) = b_prev (bufs e p)"
  defines "e' \<equiv> to_front p (upd_buf p f e)"
  shows "cache_inv sec L (front p ps) e' \<and> same_env e e' \<and> disk e' = disk e
     \<and> (\<forall>q \<in> set ps. same_data (bufs e' q) (if q = p then f (bufs e p) else bufs e q))
     \<and> (\<forall>u blk. view sec (front p ps) e' u blk = view sec ps e u blk)"
proof -
  let ?e1 = "upd_buf p f e"
  have "keeps_links e ?e1" using f(2,3) by (simp add: keeps_links_def)
  then have r: "ring (bufs ?e1) ps" using cache_invD(1) [OF inv] ring_keeps by blast
  note t = to_front_ring [OF r _ p]
  have h: "firstbuf ?e1 = hd ps" using cache_invD(2) [OF inv] by simp
  have sd: "same_data (bufs e' q) (if q = p then f (bufs e p) else bufs e q)" for q
    using t(3) [OF h, of q] by (auto simp: e'_def)
  have al: "alike (bufs e' q) (bufs e q)" for q
    using alike_same_data [OF sd [of q]] f(1) by (cases "q = p") (auto intro: alike_trans)
  have ds: "distinct ps" using r by (simp add: ring_def)
  have se: "same_env e e'" by (simp add: e'_def)
  have dk: "disk e' = disk e" "deblock_buf e' = deblock_buf e" by (simp_all add: e'_def)
  have "cache_inv sec L (front p ps) e'"
    by (rule cache_inv_alike [OF inv al front_set [OF p ds] se dk])
      (use t(1,2) [OF h] in \<open>simp_all add: e'_def front_def\<close>)
  moreover have "view sec (front p ps) e' u blk = view sec ps e u blk" for u blk
    by (rule view_alike [OF cache_invD(4) [OF inv] al front_set [OF p ds]]) (simp_all add: same_env_drive [OF se] dk)
  ultimately show ?thesis using se dk(1) sd by blast
qed


lemma victim_in:
  assumes "ring b ps" "scan b blk u ps (0, 0, 0) = Inr acc"
  shows "victim b (hd ps) acc \<in> set ps"
proof -
  have n: "ps \<noteq> []" using assms(1) by (simp add: ring_def)
  then have "last ps \<in> set ps" by simp
  then show ?thesis
    using scan_Inr [OF assms(2)] ring_prev_first [OF assms(1)] by (cases acc) (auto simp: victim_def)
qed

lemma cache_inv_flush:
  assumes rel: "reliable drv sec" and inv: "cache_inv sec L ps e" and p: "p \<in> set ps"
  shows "\<exists>e'. flush1 drv p e = (True, e') \<and> cache_inv sec L ps e' \<and> same_env e e'
     \<and> bufs e' = (bufs e)(p := (bufs e p)\<lparr>b_flag := b_flag (bufs e p) AND NOT BFR_DIRTY\<rparr>)
     \<and> (\<forall>x \<in> L. view sec ps e' (fst x) (snd x) = view sec ps e (fst x) (snd x))"
proof -
  let ?b = "bufs e p"
  let ?b' = "?b\<lparr>b_flag := b_flag ?b AND NOT BFR_DIRTY\<rparr>"
  obtain e' where f: "flush1 drv p e = (True, e')" "same_env e e'" "firstbuf e' = firstbuf e" "length (deblock_buf e') = 512"
    "bufs e' = (bufs e)(p := ?b')"
    "\<forall>x \<in> L. sec (disk e') (place e (fst x)) (snd x) =
          (if is_dirty ?b \<and> x = (b_unit ?b, b_blkno ?b) then b_buffer ?b else sec (disk e) (place e (fst x)) (snd x))"
    using flush1_ok [OF rel inv p] by blast
  note env = same_env_drive [OF f(2)]
  have bits: "bit (b_flag ?b') 5 = bit (b_flag ?b) 5" "\<not> bit (b_flag ?b') 6" "bit (b_flag ?b') 1 = bit (b_flag ?b) 1"
    by (simp_all add: bfr_flags bit_simps)
  have hold: "holds_block blk u (bufs e' q) = holds_block blk u (bufs e q)" for q blk u
    using bits(1) f(5) by (simp add: holds_block_bits)
  have one: "one_holder (bufs e') ps"
    by (rule one_holder_keys [OF _ _ _ cache_invD(4) [OF inv]]) (use f(5) bits(1) in simp_all)
  have ok: "buf_ok sec L e' (bufs e' q)" if q: "q \<in> set ps" for q
  proof -
    have okq: "buf_ok sec L e (bufs e q)" by (rule cache_invD(5) [OF inv q])
    have okp: "buf_ok sec L e ?b" by (rule cache_invD(5) [OF inv p])
    show ?thesis
    proof (cases "q = p")
      case True
      have "copies_of ?b' ds = copies_of ?b ds" for ds using bits(3) by (simp add: copies_of_def flag_bits)
      then have m: "mirror_blocks ?b' ds = mirror_blocks ?b ds" for ds by (simp add: mirror_blocks_def)
      have "b_buffer ?b = sec (disk e') (place e (b_unit ?b)) (b_blkno ?b)" if "bit (b_flag ?b) 5"
        using okp that f(6) [rule_format, of "(b_unit ?b, b_blkno ?b)"] by (auto simp: buf_ok_def is_dirty_bits)
      then show ?thesis
        using okp True f(5) env bits m \<open>\<And>ds. copies_of ?b' ds = copies_of ?b ds\<close> by (simp add: buf_ok_def)
    next
      case False
      have "sec (disk e') (place e (b_unit (bufs e q))) (b_blkno (bufs e q)) =
          sec (disk e) (place e (b_unit (bufs e q))) (b_blkno (bufs e q))" if v: "bit (b_flag (bufs e q)) 5"
      proof -
        have "\<not> (is_dirty ?b \<and> (b_unit (bufs e q), b_blkno (bufs e q)) = (b_unit ?b, b_blkno ?b))"
          using cache_invD(4) [OF inv] False p q v unfolding one_holder_def is_dirty_bits by blast
        moreover have "(b_unit (bufs e q), b_blkno (bufs e q)) \<in> L" using okq v by (simp add: buf_ok_def)
        ultimately show ?thesis using f(6) [rule_format, of "(b_unit (bufs e q), b_blkno (bufs e q))"] by auto
      qed
      then show ?thesis using okq False f(5) env by (simp add: buf_ok_def)
    qed
  qed
  have "keeps_links e e'" using f(3,5) by (simp add: keeps_links_def)
  then have "ring (bufs e') ps" using cache_invD(1) [OF inv] ring_keeps by blast
  then have "cache_inv sec L ps e'"
    using ok one f(3,4) inv env unfolding cache_inv_def drives_ok_def by simp
  moreover have "view sec ps e' (fst x) (snd x) = view sec ps e (fst x) (snd x)" if x: "x \<in> L" for x
  proof (cases "\<exists>q \<in> set ps. holds_block (snd x) (fst x) (bufs e q)")
    case True
    then obtain q where q: "q \<in> set ps" "holds_block (snd x) (fst x) (bufs e q)" by blast
    then have "view sec ps e' (fst x) (snd x) = b_buffer (bufs e' q)"
      using hold by (intro view_hit [OF one]) auto
    also have "\<dots> = b_buffer (bufs e q)" using f(5) by simp
    also have "\<dots> = view sec ps e (fst x) (snd x)" by (rule view_hit [OF cache_invD(4) [OF inv] q, symmetric])
    finally show ?thesis .
  next
    case False
    then have "\<not> (is_dirty ?b \<and> x = (b_unit ?b, b_blkno ?b))" using p by (auto simp: holds_block_bits is_dirty_bits)
    then have "sec (disk e') (place e (fst x)) (snd x) = sec (disk e) (place e (fst x)) (snd x)" using f(6) x by auto
    then show ?thesis using False env hold by (simp add: view_miss)
  qed
  ultimately show ?thesis using f(1,2,5) by blast
qed


text \<open>Filling a clean buffer with another block.\<close>

lemma fill_ok:
  assumes inv: "cache_inv sec L ps e" and p: "p \<in> set ps" "\<not> is_dirty (bufs e p)"
    and x: "(u, blk) \<in> L" "\<forall>q \<in> set ps. \<not> holds_block blk u (bufs e q)"
    and env: "same_env e e'" "firstbuf e' = firstbuf e" "length (deblock_buf e') = 512" "sec (disk e') = sec (disk e)"
    and data: "data = sec (disk e) (place e u) blk" "length data = 512"
    and b': "bufs e' = (bufs e)(p := (bufs e p)\<lparr>b_buffer := data, b_flag := BFR_VALID OR BFR_DATA, b_unit := u, b_blkno := blk\<rparr>)"
  shows "cache_inv sec L ps e' \<and> (\<forall>y \<in> L. view sec ps e' (fst y) (snd y) = view sec ps e (fst y) (snd y))
     \<and> holds_block blk u (bufs e' p)"
proof -
  let ?b = "bufs e p"
  let ?n = "?b\<lparr>b_buffer := data, b_flag := BFR_VALID OR BFR_DATA, b_unit := u, b_blkno := blk\<rparr>"
  note d = same_env_drive [OF env(1)]
  have bits: "bit (b_flag ?n) 5" "\<not> bit (b_flag ?n) 6" "\<not> bit (b_flag ?n) 1" by (simp_all add: bfr_flags)
  have h: "holds_block blk u ?n" using bits(1) by (simp add: holds_block_bits)
  have c: "copies_of ?n ds = (1, 0)" for ds using bits(3) by (simp add: copies_of_def flag_bits)
  have ok: "buf_ok sec L e' (bufs e' q)" if q: "q \<in> set ps" for q
  proof (cases "q = p")
    case True
    have "buf_ok sec L e' ?n" using data x(1) d c env(4) by (simp add: buf_ok_def mirror_blocks_def)
    then show ?thesis using True b' by simp
  next
    case False
    then show ?thesis using cache_invD(5) [OF inv q] d env(4) b' by (simp add: buf_ok_def)
  qed
  have one: "one_holder (bufs e') ps"
    using cache_invD(4) [OF inv] x(2) bits(1) unfolding one_holder_def b' holds_block_bits by (auto simp: fun_upd_apply)
  have "keeps_links e e'" using env(2) b' by (simp add: keeps_links_def)
  then have r: "ring (bufs e') ps" using cache_invD(1) [OF inv] ring_keeps by blast
  have inv': "cache_inv sec L ps e'"
    using r ok one env(2,3) inv d unfolding cache_inv_def drives_ok_def by simp
  have "view sec ps e' (fst y) (snd y) = view sec ps e (fst y) (snd y)" if y: "y \<in> L" for y
  proof (cases "y = (u, blk)")
    case True
    have "view sec ps e' u blk = data" using view_hit [OF one p(1), of blk u] h b' by simp
    then show ?thesis using True x(2) data(1) by (simp add: view_miss)
  next
    case ne: False
    have np: "\<not> holds_block (snd y) (fst y) (bufs e' p)" using ne b' by (auto simp: holds_block_bits prod_eq_iff)
    show ?thesis
    proof (cases "\<exists>q \<in> set ps. holds_block (snd y) (fst y) (bufs e q)")
      case True
      then obtain q where q: "q \<in> set ps" "holds_block (snd y) (fst y) (bufs e q)" by blast
      have v: "view sec ps e (fst y) (snd y) = b_buffer (bufs e q)" by (rule view_hit [OF cache_invD(4) [OF inv] q])
      show ?thesis
      proof (cases "q = p")
        case True
        have "\<not> holds_block (snd y) (fst y) (bufs e' q')" if "q' \<in> set ps" for q'
        proof (cases "q' = p")
          case False
          then have "\<not> holds_block (snd y) (fst y) (bufs e q')"
            using q that True cache_invD(4) [OF inv] unfolding one_holder_def holds_block_bits by metis
          then show ?thesis using False b' by simp
        qed (use np in simp)
        then have "view sec ps e' (fst y) (snd y) = sec (disk e') (place e' (fst y)) (snd y)" by (simp add: view_miss)
        also have "\<dots> = b_buffer ?b"
          using cache_invD(5) [OF inv p(1)] p(2) q(2) True d env(4) by (auto simp: buf_ok_def is_dirty_bits holds_block_bits)
        finally show ?thesis using v True by simp
      next
        case False
        then have "view sec ps e' (fst y) (snd y) = b_buffer (bufs e' q)"
          using q b' by (intro view_hit [OF one]) auto
        then show ?thesis using v False b' by simp
      qed
    next
      case False
      then have "\<forall>q \<in> set ps. \<not> holds_block (snd y) (fst y) (bufs e' q)" using np b' by auto
      then show ?thesis using False d env(4) by (simp add: view_miss)
    qed
  qed
  then show ?thesis using inv' h b' by simp
qed

text \<open>
  \<^verbatim>\<open>getblk\<close> returns the first buffer of the ring, which holds the block and shows what the cache
  showed before; no block looks different afterwards.
\<close>

lemma getblk_ok:
  assumes rel: "reliable drv sec" and inv: "cache_inv sec L ps e" and x: "(u, blk) \<in> L"
  shows "\<exists>p e'. getblk drv blk u False e = Some (Some p, e') \<and> p \<in> set ps \<and> cache_inv sec L (front p ps) e' \<and> same_env e e'
     \<and> holds_block blk u (bufs e' p) \<and> \<not> bit (b_flag (bufs e' p)) 0 \<and> b_buffer (bufs e' p) = view sec ps e u blk
     \<and> (\<forall>y \<in> L. view sec (front p ps) e' (fst y) (snd y) = view sec ps e (fst y) (snd y))
     \<and> (\<forall>q \<in> set ps. q \<noteq> p \<longrightarrow> same_data (bufs e' q) (bufs e q))"
proof (cases "scan (bufs e) blk u ps (0, 0, 0)")
  case (Inl p)
  have p: "p \<in> set ps" "holds_block blk u (bufs e p)" using scan_Inl [OF Inl] by blast+
  let ?f = "\<lambda>b. b\<lparr>b_flag := b_flag b AND NOT BFR_UNCACHE\<rparr>"
  let ?e' = "to_front p (upd_buf p ?f e)"
  have t: "cache_inv sec L (front p ps) ?e' \<and> same_env e ?e' \<and> disk ?e' = disk e
     \<and> (\<forall>q \<in> set ps. same_data (bufs ?e' q) (if q = p then ?f (bufs e p) else bufs e q))
     \<and> (\<forall>u blk. view sec (front p ps) ?e' u blk = view sec ps e u blk)"
    by (rule touch_ok [OF inv p(1)]) (simp_all add: alike_uncache)
  then have sd: "same_data (bufs ?e' p) (?f (bufs e p))" using p(1) by auto
  have nu: "\<not> bit (b_flag (bufs ?e' p)) 0" using same_dataD(2) [OF sd] by (simp add: bfr_flags bit_simps)
  have h: "holds_block blk u (bufs ?e' p)"
    using alike_holds [OF alike_trans [OF alike_same_data [OF sd] alike_uncache(1)]] p(2) by blast
  have "b_buffer (bufs ?e' p) = view sec ps e u blk"
    using same_dataD(7) [OF sd] view_hit [OF cache_invD(4) [OF inv] p] by simp
  moreover have "getblk drv blk u False e = Some (Some p, ?e')"
    using search_loop_ring [OF cache_invD(1) [OF inv], of blk u "(0, 0, 0)"] cache_invD(2) [OF inv] Inl nu
    by (simp add: getblk_def searchblock_def flag_bits)
  ultimately show ?thesis using t p(1) h nu by auto
next
  case (Inr acc)
  define p where "p = victim (bufs e) (hd ps) acc"
  have p: "p \<in> set ps" unfolding p_def by (rule victim_in [OF cache_invD(1) [OF inv] Inr])
  have miss: "\<forall>q \<in> set ps. \<not> holds_block blk u (bufs e q)" using scan_Inr [OF Inr] by blast
  let ?f = "\<lambda>b. b\<lparr>b_flag := b_flag b OR BFR_UNCACHE\<rparr>"
  let ?e1 = "to_front p (upd_buf p ?f e)"
  have t: "cache_inv sec L (front p ps) ?e1 \<and> same_env e ?e1 \<and> disk ?e1 = disk e
     \<and> (\<forall>q \<in> set ps. same_data (bufs ?e1 q) (if q = p then ?f (bufs e p) else bufs e q))
     \<and> (\<forall>u blk. view sec (front p ps) ?e1 u blk = view sec ps e u blk)"
    by (rule touch_ok [OF inv p]) (simp_all add: alike_uncache)
  have fs: "set (front p ps) = set ps" using p cache_invD(1) [OF inv] by (auto simp: ring_def intro!: front_set)
  have pf: "p \<in> set (front p ps)" by (simp add: front_def)
  have sdp: "same_data (bufs ?e1 p) (?f (bufs e p))" using t p by auto
  have sdq: "same_data (bufs ?e1 q) (bufs e q)" if "q \<in> set ps" "q \<noteq> p" for q using t that by auto
  have al: "alike (bufs ?e1 q) (bufs e q)" if "q \<in> set ps" for q
    using that sdq alike_same_data alike_trans [OF alike_same_data [OF sdp] alike_uncache(2)] by (cases "q = p") auto
  have unc: "bit (b_flag (bufs ?e1 p)) 0" using same_dataD(2) [OF sdp] by (simp add: bfr_flags bit_simps)
  obtain e2 where fl: "flush1 drv p ?e1 = (True, e2)" "cache_inv sec L (front p ps) e2" "same_env ?e1 e2"
     "bufs e2 = (bufs ?e1)(p := (bufs ?e1 p)\<lparr>b_flag := b_flag (bufs ?e1 p) AND NOT BFR_DIRTY\<rparr>)"
     "\<forall>y \<in> L. view sec (front p ps) e2 (fst y) (snd y) = view sec (front p ps) ?e1 (fst y) (snd y)"
    using cache_inv_flush [OF rel _ pf, of L ?e1] t by blast
  have clean: "\<not> is_dirty (bufs e2 p)" by (simp add: fl(4) is_dirty_bits bfr_flags bit_simps)
  have miss2: "\<forall>q \<in> set (front p ps). \<not> holds_block blk u (bufs e2 q)"
    using miss alike_holds [OF al] unfolding fs by (auto simp: fl(4) holds_block_bits bfr_flags bit_simps)
  have len: "length (b_buffer (bufs e2 p)) = 512" using cache_invD(5) [OF fl(2) pf] by (simp add: buf_ok_def)
  have dr: "drive_ok e2 u" using cache_invD(6) [OF fl(2) x] by simp
  obtain e3 where rd: "dskxfer drv (unat u) blk (bufseg e2) (b_buffer (bufs e2 p)) 1 DSKREAD e2
        = (0, sec (disk e2) (place e2 u) blk, e3)" "dev_only e2 e3" "sec (disk e3) = sec (disk e2)" "length (deblock_buf e3) = 512"
    using xfer_read [OF rel dr len cache_invD(3) [OF fl(2)]] by blast
  let ?data = "sec (disk e2) (place e2 u) blk"
  let ?e' = "upd_buf p (\<lambda>b. b\<lparr>b_flag := BFR_VALID OR BFR_DATA, b_unit := u, b_blkno := blk\<rparr>)
      (upd_buf p (\<lambda>b. b\<lparr>b_buffer := ?data\<rparr>) e3)"
  have g: "getblk drv blk u False e = Some (Some p, ?e')"
    using search_loop_ring [OF cache_invD(1) [OF inv], of blk u "(0, 0, 0)"] cache_invD(2) [OF inv] Inr unc fl(1) rd(1)
    by (simp add: getblk_def searchblock_def flag_bits p_def [symmetric])
  have b': "bufs ?e' = (bufs e2)(p := (bufs e2 p)\<lparr>b_buffer := ?data, b_flag := BFR_VALID OR BFR_DATA, b_unit := u, b_blkno := blk\<rparr>)"
    using dev_onlyD(1) [OF rd(2)] by simp
  have env2: "same_env e2 ?e'" using dev_only_same_env [OF rd(2)] by simp
  have "cache_inv sec L (front p ps) ?e' \<and> (\<forall>y \<in> L. view sec (front p ps) ?e' (fst y) (snd y) = view sec (front p ps) e2 (fst y) (snd y))
     \<and> holds_block blk u (bufs ?e' p)"
    by (rule fill_ok [OF fl(2) pf clean x miss2 env2 _ _ _ refl reliableD(3) [OF rel] b'])
      (use dev_onlyD(2) [OF rd(2)] rd(3,4) in simp_all)
  moreover have "b_buffer (bufs ?e' p) = view sec ps e u blk"
  proof -
    have "?data = view sec (front p ps) e2 u blk" using miss2 by (simp add: view_miss)
    also have "\<dots> = view sec ps e u blk" using fl(5) [rule_format, OF x] t by simp
    finally show ?thesis using dev_onlyD(1) [OF rd(2)] by simp
  qed
  moreover have "same_env e ?e'" using t fl(3) env2 same_env_trans by blast
  moreover have "\<not> bit (b_flag (bufs ?e' p)) 0" by (simp add: bfr_flags)
  moreover have "same_data (bufs ?e' q) (bufs e q)" if "q \<in> set ps" "q \<noteq> p" for q
    using sdq [OF that] that b' fl(4) by simp
  ultimately show ?thesis using g p fl(5) t by auto
qed

end
