(* ===== verification/Block_Calls.thy ===== *)
theory Block_Calls
  imports Block_Props
begin

text \<open>
  What the callers of the sector cache rely on: a block that is read or written through it, the
  two blocks a FAT12 entry may straddle, and the flushing of a drive.
\<close>

section \<open>Writing into a buffer\<close>

text \<open>The caller changes the data of a buffer that holds a block and marks it dirty.\<close>

lemma store_ok:
  assumes inv: "cache_inv sec L ps e" and p: "p \<in> set ps" "holds_block blk u (bufs e p)" and len: "length data = 512"
    and fl: "bit fl 5" "bit fl 6" "bit fl 1 = bit (b_flag (bufs e p)) 1"
  defines "e' \<equiv> upd_buf p (\<lambda>b. b\<lparr>b_buffer := data, b_flag := fl\<rparr>) e"
  shows "cache_inv sec L ps e' \<and> (\<forall>y \<in> L. view sec ps e' (fst y) (snd y) =
     (if y = (u, blk) then data else view sec ps e (fst y) (snd y)))"
proof -
  let ?b = "bufs e p"
  have b': "bufs e' = (bufs e)(p := ?b\<lparr>b_buffer := data, b_flag := fl\<rparr>)" by (simp add: e'_def)
  have v: "bit (b_flag ?b) 5" "b_unit ?b = u" "b_blkno ?b = blk" using p(2) by (simp_all add: holds_block_bits)
  have env: "same_env e e'" by (simp add: e'_def)
  note d = same_env_drive [OF env]
  have one: "one_holder (bufs e') ps"
    by (rule one_holder_keys [OF _ _ _ cache_invD(4) [OF inv]]) (use b' v(1) fl(1) in simp_all)
  have c: "copies_of (?b\<lparr>b_buffer := data, b_flag := fl\<rparr>) ds = copies_of ?b ds" for ds
    using fl(3) by (simp add: copies_of_def flag_bits)
  have ok: "buf_ok sec L e' (bufs e' q)" if "q \<in> set ps" for q
    using cache_invD(5) [OF inv that] b' d len v(1) fl c by (cases "q = p") (simp_all add: buf_ok_def mirror_blocks_def e'_def)
  have hold: "holds_block c w (bufs e' q) = holds_block c w (bufs e q)" for q c w
    using b' v(1) fl(1) by (simp add: holds_block_bits)
  have "keeps_links e e'" by (simp add: keeps_links_def e'_def)
  then have r: "ring (bufs e') ps" using cache_invD(1) [OF inv] ring_keeps by blast
  have inv': "cache_inv sec L ps e'"
    using r ok one inv d unfolding cache_inv_def drives_ok_def by (simp add: e'_def)
  have "view sec ps e' (fst y) (snd y) = (if y = (u, blk) then data else view sec ps e (fst y) (snd y))" for y
  proof (cases "\<exists>q \<in> set ps. holds_block (snd y) (fst y) (bufs e q)")
    case True
    then obtain q where q: "q \<in> set ps" "holds_block (snd y) (fst y) (bufs e q)" by blast
    have "view sec ps e' (fst y) (snd y) = b_buffer (bufs e' q)" using q hold by (intro view_hit [OF one]) auto
    moreover have "view sec ps e (fst y) (snd y) = b_buffer (bufs e q)" by (rule view_hit [OF cache_invD(4) [OF inv] q])
    moreover have "q = p \<longleftrightarrow> y = (u, blk)"
    proof
      assume "q = p"
      then show "y = (u, blk)" using q(2) v by (simp add: holds_block_bits prod_eq_iff)
    next
      assume "y = (u, blk)"
      then show "q = p" using q p cache_invD(4) [OF inv] unfolding one_holder_def holds_block_bits by simp
    qed
    ultimately show ?thesis using b' by simp
  next
    case False
    then have "y \<noteq> (u, blk)" using p by auto
    then show ?thesis using False hold d by (simp add: view_miss e'_def)
  qed
  then show ?thesis using inv' by blast
qed

section \<open>Two blocks at once\<close>

lemma getblk_pointer:
  assumes inv: "cache_inv sec L ps e" and g: "getblk drv blk u ow e = Some (Some q, e')"
    and first: "p = hd ps" "\<not> holds_block blk u (bufs e p)" "\<not> bit (b_flag (bufs e p)) 0" "bit (b_flag (bufs e p)) 1"
    and two: "1 < length ps"
  shows "q \<noteq> p"
proof -
  have s: "search_loop (bufs e) (firstbuf e) blk u (firstbuf e) (0, 0, 0) = Some (scan (bufs e) blk u ps (0, 0, 0))"
    using search_loop_ring [OF cache_invD(1) [OF inv]] cache_invD(2) [OF inv] by simp
  have "fst (the (searchblock blk u e)) = q"
    using g by (auto simp: getblk_def Let_def split: option.splits prod.splits if_splits)
  show ?thesis
  proof (cases "scan (bufs e) blk u ps (0, 0, 0)")
    case (Inl p')
    then have "q = p'" using \<open>fst _ = q\<close> s by (simp add: searchblock_def)
    then show ?thesis using scan_Inl [OF Inl] first(2) by blast
  next
    case (Inr acc)
    have q: "q = victim (bufs e) p acc" using \<open>fst _ = q\<close> s Inr cache_invD(2) [OF inv] first(1)
      by (simp add: searchblock_def Let_def)
    have "last ps \<noteq> hd ps"
      using two cache_invD(1) [OF inv] by (cases ps) (auto simp: ring_def)
    then show ?thesis
      using scan_Inr [OF Inr] first ring_prev_first [OF cache_invD(1) [OF inv]] q
      by (cases acc) (auto simp: victim_def flag_bits)
  qed
qed

section \<open>Flushing a drive\<close>

lemma flush_fold:
  assumes rel: "reliable drv sec" and inv: "cache_inv sec L ps e" and qs: "set qs \<subseteq> set ps"
  shows "\<exists>e'. fold (flush_step drv dsk) qs (True, e) = (True, e') \<and> cache_inv sec L ps e' \<and> same_env e e'
     \<and> (\<forall>y \<in> L. view sec ps e' (fst y) (snd y) = view sec ps e (fst y) (snd y))
     \<and> (\<forall>q. alike ((bufs e' q)\<lparr>b_flag := 0\<rparr>) ((bufs e q)\<lparr>b_flag := 0\<rparr>))
     \<and> (\<forall>q. is_dirty (bufs e' q) \<longrightarrow> is_dirty (bufs e q))
     \<and> (\<forall>q \<in> set qs. b_unit (bufs e q) = dsk \<longrightarrow> \<not> is_dirty (bufs e' q))"
  using inv qs
proof (induction qs arbitrary: e)
  case Nil
  then show ?case by (auto simp: alike_def)
next
  case (Cons p qs)
  show ?case
  proof (cases "b_unit (bufs e p) = dsk")
    case True
    obtain e1 where f: "flush1 drv p e = (True, e1)" "cache_inv sec L ps e1" "same_env e e1"
      "bufs e1 = (bufs e)(p := (bufs e p)\<lparr>b_flag := b_flag (bufs e p) AND NOT BFR_DIRTY\<rparr>)"
      "\<forall>y \<in> L. view sec ps e1 (fst y) (snd y) = view sec ps e (fst y) (snd y)"
      using cache_inv_flush [OF rel Cons.prems(1), of p] Cons.prems(2) by auto
    have st: "flush_step drv dsk p (True, e) = (True, e1)" using f(1) True by (simp add: flush_step_def)
    have c: "\<not> is_dirty (bufs e1 p)" by (simp add: f(4) is_dirty_bits bfr_flags bit_simps)
    have di: "is_dirty (bufs e1 q) \<Longrightarrow> is_dirty (bufs e q)" for q
      using c by (cases "q = p") (simp_all add: f(4))
    have al: "alike ((bufs e1 q)\<lparr>b_flag := 0\<rparr>) ((bufs e q)\<lparr>b_flag := 0\<rparr>)" and un: "b_unit (bufs e1 q) = b_unit (bufs e q)" for q
      by (simp_all add: f(4) alike_def)
    from Cons.IH [OF f(2)] Cons.prems(2)
    obtain e' where e': "fold (flush_step drv dsk) qs (True, e1) = (True, e')" "cache_inv sec L ps e'" "same_env e1 e'"
      "\<forall>y \<in> L. view sec ps e' (fst y) (snd y) = view sec ps e1 (fst y) (snd y)"
      "\<forall>q. alike ((bufs e' q)\<lparr>b_flag := 0\<rparr>) ((bufs e1 q)\<lparr>b_flag := 0\<rparr>)"
      "\<forall>q. is_dirty (bufs e' q) \<longrightarrow> is_dirty (bufs e1 q)"
      "\<forall>q \<in> set qs. b_unit (bufs e1 q) = dsk \<longrightarrow> \<not> is_dirty (bufs e' q)" by auto
    show ?thesis
      using e' st f(3,5) c di un al alike_trans [OF e'(5) [rule_format] al] same_env_trans [OF f(3) e'(3)]
      by (intro exI [of _ e']) auto
  next
    case False
    then have st: "flush_step drv dsk p (True, e) = (True, e)" by (simp add: flush_step_def)
    show ?thesis using Cons.IH [OF Cons.prems(1)] Cons.prems(2) st False by auto
  qed
qed

lemma clean_view:
  assumes inv: "cache_inv sec L ps e" and c: "\<forall>q \<in> set ps. b_unit (bufs e q) = dsk \<longrightarrow> \<not> is_dirty (bufs e q)"
  shows "view sec ps e dsk blk = sec (disk e) (place e dsk) blk"
proof (cases "\<exists>q \<in> set ps. holds_block blk dsk (bufs e q)")
  case True
  then obtain q where q: "q \<in> set ps" "holds_block blk dsk (bufs e q)" by blast
  then show ?thesis using view_hit [OF cache_invD(4) [OF inv] q] cache_invD(5) [OF inv q(1)] c
    by (auto simp: holds_block_bits buf_ok_def is_dirty_bits)
next
  case False
  then show ?thesis by (simp add: view_miss)
qed

lemma flush_step_links: "keeps_links e (snd (flush_step drv dsk q (ok, e)))"
proof -
  have w: "keeps_links e (snd (write_copies drv p n blk off ok e))" for p n blk off ok and e :: "'a io"
  proof (induction n arbitrary: blk ok e)
    case (Suc n)
    obtain st data e1 where x: "dskxfer drv (unat (b_unit (bufs e p))) blk (bufseg e) (b_buffer (bufs e p)) 1 DSKWRITE e = (st, data, e1)"
      by (cases "dskxfer drv (unat (b_unit (bufs e p))) blk (bufseg e) (b_buffer (bufs e p)) 1 DSKWRITE e") auto
    have "keeps_links e e1" using dskxfer_bufs [OF x] by (simp add: keeps_links_def)
    then have "keeps_links e (upd_buf p (\<lambda>b. b\<lparr>b_buffer := data\<rparr>) e1)" by (simp add: keeps_links_def)
    then show ?case using x Suc.IH keeps_links_trans by (simp add: Let_def) blast
  qed simp
  have "keeps_links e (snd (flush1 drv q e))"
    using w [of e q "fst (copies_of (bufs e q) (dpbs e))" "b_blkno (bufs e q)" "snd (copies_of (bufs e q) (dpbs e))" True]
    by (auto simp: flush1_def Let_def case_prod_beta keeps_links_def)
  then show ?thesis by (simp add: flush_step_def case_prod_beta Let_def)
qed


text \<open>
  C12: a block is read through the cache without a change to any other: \<^verbatim>\<open>getblk\<close> returns
  the front buffer of the ring with the data last written to the block, in a buffer or on the disk, and
  every block of the drives in use still shows the same data, although a dirty buffer may have
  been written back and reused.
\<close>

theorem getblk_transparent:
  assumes "reliable drv sec" "cache_inv sec L ps e" "(u, blk) \<in> L"
  shows "\<exists>p e'. getblk drv blk u False e = Some (Some p, e') \<and> p \<in> set ps \<and> cache_inv sec L (front p ps) e'
     \<and> b_buffer (bufs e' p) = view sec ps e u blk
     \<and> (\<forall>y \<in> L. view sec (front p ps) e' (fst y) (snd y) = view sec ps e (fst y) (snd y))"
  using getblk_ok [OF assms] by blast

text \<open>
  C13: the two buffers of a FAT entry that straddles a sector boundary are different ones: after a
  FAT sector has been fetched, fetching another block does not reuse its buffer, provided there are
  at least two.
\<close>

theorem getblk_keeps_fat_buffer:
  assumes "cache_inv sec L ps e" "getblk drv blk u ow e = Some (Some q, e')"
    and "p = hd ps" "\<not> holds_block blk u (bufs e p)" "\<not> bit (b_flag (bufs e p)) 0" "bit (b_flag (bufs e p)) 1"
    and "1 < length ps"
  shows "q \<noteq> p"
  by (rule getblk_pointer [OF assms])

lemma flush_buffers_ok:
  assumes rel: "reliable drv sec" and inv: "cache_inv sec L ps e"
  shows "\<exists>e'. flush_buffers drv dsk e = Some (True, e') \<and> cache_inv sec L ps e' \<and> dirty_buffers dsk e' = Some False \<and> same_env e e'
     \<and> (\<forall>y \<in> L. view sec ps e' (fst y) (snd y) = view sec ps e (fst y) (snd y))
     \<and> (\<forall>blk. (dsk, blk) \<in> L \<longrightarrow> sec (disk e') (place e dsk) blk = view sec ps e dsk blk)"
proof -
  obtain e' where f: "fold (flush_step drv dsk) ps (True, e) = (True, e')" "cache_inv sec L ps e'" "same_env e e'"
    "\<forall>y \<in> L. view sec ps e' (fst y) (snd y) = view sec ps e (fst y) (snd y)"
    "\<forall>q. alike ((bufs e' q)\<lparr>b_flag := 0\<rparr>) ((bufs e q)\<lparr>b_flag := 0\<rparr>)"
    "\<forall>q \<in> set ps. b_unit (bufs e q) = dsk \<longrightarrow> \<not> is_dirty (bufs e' q)"
    using flush_fold [OF rel inv order_refl] by blast
  have "flush_buffers drv dsk e = Some (True, e')"
    unfolding flush_buffers_def f(1) [symmetric]
    by (rule ring_walk_ring [OF cache_invD(1,2) [OF inv] flush_step_links])
  moreover have "b_unit (bufs e' q) = b_unit (bufs e q)" for q using f(5) by (simp add: alike_def)
  then have c: "\<forall>q \<in> set ps. b_unit (bufs e' q) = dsk \<longrightarrow> \<not> is_dirty (bufs e' q)" using f(6) by simp
  moreover have "dirty_buffers dsk e' = Some (\<exists>q \<in> set ps. b_unit (bufs e' q) = dsk \<and> is_dirty (bufs e' q))"
    using dirty_loop_scan [of "bufs e'" "[]" "hd ps" "tl ps" dsk] cache_invD(1,2) [OF f(2)]
    by (cases ps) (auto simp: dirty_buffers_def ring_def)
  moreover have "sec (disk e') (place e dsk) blk = view sec ps e dsk blk" if "(dsk, blk) \<in> L" for blk
    using clean_view [OF f(2) c, of blk] f(4) [rule_format, OF that] same_env_drive(1) [OF f(3)] by simp
  ultimately show ?thesis using f(2,3,4) by auto
qed

text \<open>
  C14: flushing a drive succeeds and leaves on the disk what the cache showed for each of its
  blocks; the drive has no dirty buffers afterwards and no view changes.
\<close>

theorem flush_buffers_writes_back:
  assumes rel: "reliable drv sec" and inv: "cache_inv sec L ps e"
  shows "\<exists>e'. flush_buffers drv dsk e = Some (True, e') \<and> cache_inv sec L ps e' \<and> dirty_buffers dsk e' = Some False
     \<and> (\<forall>y \<in> L. view sec ps e' (fst y) (snd y) = view sec ps e (fst y) (snd y))
     \<and> (\<forall>blk. (dsk, blk) \<in> L \<longrightarrow> sec (disk e') (place e dsk) blk = view sec ps e dsk blk)"
  using flush_buffers_ok [OF assms] by blast

section \<open>A small disk\<close>

text \<open>Two drives in memory, behind two buffers.\<close>

definition ram_sectors :: "(nat \<times> u8 \<Rightarrow> u32 \<Rightarrow> bytes) sectors" where
  "ram_sectors d pl b = take 512 (d pl b @ replicate 512 0)"

definition ram_driver :: "(nat \<times> u8 \<Rightarrow> u32 \<Rightarrow> bytes) blk_driver" where
  "ram_driver dv rq buf d =
     (let pl = (dv, r_unit rq); b = start_of rq; rq1 = rq\<lparr>r_status := S_DONE\<rparr>
      in if r_command rq = C_INPUT then (rq1, ram_sectors d pl b, d)
         else (rq1, buf, d(pl := (d pl)(b := buf))))"

lemma ram_reliable: "reliable ram_driver ram_sectors"
  unfolding reliable_def reads_sector_def writes_sector_def
  by (auto simp: ram_driver_def ram_sectors_def Let_def fun_eq_iff C_INPUT_def C_OUTPUT_def C_OUTVFY_def)

definition demo_request :: blk_request where
  "demo_request = \<lparr>r_length = 30, r_unit = 0, r_command = 0, r_status = 0, r_count = 0, r_ndbyte = 0, r_nunits = 0,
     r_meddesc = 0, r_start = 0, r_huge = 0\<rparr>"

definition demo_dpb :: dpb where
  "demo_dpb = \<lparr>dpb_unit = 2, dpb_subunit = 0, dpb_secsize = 512, dpb_clsmask = 0, dpb_shftcnt = 0, dpb_fatstrt = 1,
     dpb_fats = 2, dpb_dirents = 16, dpb_data = 8, dpb_size = 500, dpb_fatsize = 3, dpb_dirstrt = 7, dpb_device = 1,
     dpb_dh_attr = 0, dpb_mdb = 0xf8, dpb_flags = 0, dpb_cluster = 0, dpb_xnfreeclst = 0xffffffff, dpb_xflags = 0,
     dpb_xfsinfosec = 0xffff, dpb_xbackupsec = 0xffff, dpb_xdata = 8, dpb_xsize = 500, dpb_xfatsize = 0,
     dpb_xrootclst = 0, dpb_xcluster = 0\<rparr>"

definition demo_buffer :: "u16 \<Rightarrow> u8 \<Rightarrow> u32 \<Rightarrow> buffer" where
  "demo_buffer other fl blk = \<lparr>b_next = other, b_prev = other, b_unit = 2, b_flag = fl, b_blkno = blk, b_copies = 2,
     b_offset = 3, b_dpbp = 0, b_buffer = replicate 512 7\<rparr>"

definition demo_cds :: cds where
  "demo_cds = \<lparr>cdsCurrentPath = [], cdsFlags = 0x4000, cdsDpb = Some 0, cdsStrtClst = 0, cdsBackslashOffset = 2\<rparr>"

text \<open>A dirty FAT sector in front, an unused buffer behind.\<close>

definition demo_io :: "(nat \<times> u8 \<Rightarrow> u32 \<Rightarrow> bytes) io" where
  "demo_io = \<lparr>IoReqHdr = demo_request, io_CritErrCode = 0, io_answers = [], disk = (\<lambda>_ _. []), deblock_buf = replicate 512 0,
     bufseg = 0, buf_hma = False, verify_ena = False,
     cds_table = [demo_cds, demo_cds, demo_cds],
     dpbs = (\<lambda>_. demo_dpb), firstbuf = 16,
     bufs = (\<lambda>p. if p = 16 then demo_buffer 548 0x62 1 else demo_buffer 16 0 0),
     nbuffers = 2, messages = []\<rparr>"

definition demo_live :: "(u8 \<times> u32) set" where
  "demo_live = {(2, 1), (2, 2), (2, 3), (2, 7), (2, 8)}"

lemma demo_dpb_2: "get_dpb 2 demo_io = Some 0"
  by (simp add: get_dpb_def get_cds_def demo_io_def demo_cds_def CDSVALID_def CDSNETWDRV_def CDSPHYSDRV_def CDSJOINED_def Let_def)

lemma demo_cache_inv: "cache_inv ram_sectors demo_live [16, 548] demo_io"
proof -
  have r: "ring (bufs demo_io) [16, 548]" by (simp add: ring_def demo_io_def demo_buffer_def)
  have o: "one_holder (bufs demo_io) [16, 548]" by (simp add: one_holder_def demo_io_def demo_buffer_def)
  have d: "drives_ok demo_live demo_io"
    using demo_dpb_2 by (simp add: drives_ok_def demo_live_def drive_ok_def) (simp add: demo_io_def demo_dpb_def)
  have "copies_of (bufs demo_io 16) (dpbs demo_io) = (2, 3)"
    by (simp add: copies_of_def demo_io_def demo_buffer_def BFR_FAT_def)
  moreover have "{1..<2 :: nat} = {1}" by auto
  ultimately have "buf_ok ram_sectors demo_live demo_io (bufs demo_io 16)"
    by (simp add: buf_ok_def mirror_blocks_def) (simp add: demo_io_def demo_buffer_def demo_live_def)
  moreover have "buf_ok ram_sectors demo_live demo_io (bufs demo_io 548)"
    by (simp add: buf_ok_def demo_io_def demo_buffer_def)
  ultimately show ?thesis using r o d by (simp add: cache_inv_def) (simp add: demo_io_def)
qed

theorem getblk_transparent_witness:
  "\<exists>p e'. getblk ram_driver 1 2 False demo_io = Some (Some p, e') \<and> b_buffer (bufs e' p) = replicate 512 7"
proof -
  have "(2, 1) \<in> demo_live" by (simp add: demo_live_def)
  moreover have "view ram_sectors [16, 548] demo_io 2 1 = replicate 512 7"
    by (simp add: view_def holds_block_bits demo_io_def demo_buffer_def)
  ultimately show ?thesis using getblk_transparent [OF ram_reliable demo_cache_inv] by metis
qed

theorem getblk_keeps_fat_buffer_witness:
  "\<exists>q e'. getblk ram_driver 2 2 False demo_io = Some (Some q, e') \<and> q \<noteq> 16"
proof -
  have l: "(2, 2) \<in> demo_live" by (simp add: demo_live_def)
  obtain q e' where g: "getblk ram_driver 2 2 False demo_io = Some (Some q, e')"
    using getblk_ok [OF ram_reliable demo_cache_inv l] by blast
  have "q \<noteq> 16"
    by (rule getblk_keeps_fat_buffer [OF demo_cache_inv g])
      (simp_all add: holds_block_bits demo_io_def demo_buffer_def)
  then show ?thesis using g by blast
qed

theorem flush_buffers_writes_back_witness:
  "\<exists>e'. flush_buffers ram_driver 2 demo_io = Some (True, e') \<and> ram_sectors (disk e') (1, 0) 1 = replicate 512 7"
proof -
  have "view ram_sectors [16, 548] demo_io 2 1 = replicate 512 7"
    by (simp add: view_def holds_block_bits demo_io_def demo_buffer_def)
  moreover have "place demo_io 2 = (1, 0)"
    using demo_dpb_2 by (simp add: place_def Let_def) (simp add: demo_io_def demo_dpb_def)
  ultimately show ?thesis
    using flush_buffers_writes_back [OF ram_reliable demo_cache_inv, of 2] by (auto simp: demo_live_def)
qed

section \<open>A failed read\<close>

text \<open>
  When the read of a new block fails after it has overwritten a part of the buffer, the buffer is
  still valid for its old block: the next access to that block finds the wrong data.
\<close>

definition bad_driver :: "(nat \<times> u8 \<Rightarrow> u32 \<Rightarrow> bytes) blk_driver" where
  "bad_driver dv rq buf d = (rq\<lparr>r_status := S_ERROR OR S_DONE\<rparr>, [9], d)"

definition demo_clean :: "(nat \<times> u8 \<Rightarrow> u32 \<Rightarrow> bytes) io" where
  "demo_clean = demo_io\<lparr>deblock_buf := [], bufs := (\<lambda>p. if p = 16 then demo_buffer 548 0x28 8 else (demo_buffer 16 0x28 7)\<lparr>b_buffer := [7]\<rparr>)\<rparr>"

lemma failed_read_corrupts:
  "(let (r, e1) = the (getblk bad_driver 50 2 False demo_clean);
        (r2, e2) = the (getblk bad_driver 7 2 False e1)
    in (r, r2, b_buffer (bufs e2 (the r2)))) = (None, Some 548, [9])"
  by code_simp

end
