(* ===== verification/Cache_View.thy ===== *)
theory Cache_View
  imports Block_Calls
begin

text \<open>
  The sector cache as its clients see it: one invariant, one view of each block, and what the
  three ways to use a buffer (fetching a block, tagging the buffer, changing its data) do to it.
\<close>

fun walk :: "(u16 \<Rightarrow> buffer) \<Rightarrow> u16 \<Rightarrow> nat \<Rightarrow> u16 list" where
  "walk b p 0 = []"
| "walk b p (Suc n) = p # walk b (b_next (b p)) n"

text \<open>The buffers in the order of the ring; \<open>nbuffers\<close> is their number.\<close>

definition order :: "'d io \<Rightarrow> u16 list" where
  "order e = walk (bufs e) (firstbuf e) (unat (nbuffers e))"

definition cinv :: "'d sectors \<Rightarrow> (u8 \<times> u32) set \<Rightarrow> 'd io \<Rightarrow> bool" where
  "cinv sec L e \<longleftrightarrow> cache_inv sec L (order e) e \<and> 1 < unat (nbuffers e)"

definition cview :: "'d sectors \<Rightarrow> 'd io \<Rightarrow> u8 \<Rightarrow> u32 \<Rightarrow> bytes" where
  "cview sec e u blk = view sec (order e) e u blk"

lemma walk_length [simp]: "length (walk b p n) = n"
  by (induction n arbitrary: p) auto

lemma walk_links: "links b p xs q \<Longrightarrow> walk b p (Suc (length xs)) = p # xs"
  by (induction xs arbitrary: p) auto

lemma order_ring:
  assumes "ring (bufs e) ps" "firstbuf e = hd ps" "length ps = unat (nbuffers e)"
  shows "order e = ps"
proof (cases ps)
  case (Cons p qs)
  then have "links (bufs e) p qs p" using assms(1) by (simp add: ring_def)
  then show ?thesis using walk_links Cons assms(2,3) by (metis length_Cons list.sel(1) order_def)
qed (use assms(1) in \<open>simp add: ring_def\<close>)

lemma cinv_intro:
  assumes "cache_inv sec L ps e" "length ps = unat (nbuffers e)" "1 < unat (nbuffers e)"
  shows "cinv sec L e" "order e = ps" "cview sec e = view sec ps e"
proof -
  show o: "order e = ps" using order_ring [OF cache_invD(1,2) [OF assms(1)] assms(2)] .
  then show "cinv sec L e" "cview sec e = view sec ps e" using assms by (auto simp: cinv_def cview_def fun_eq_iff)
qed

lemma cinvD:
  assumes "cinv sec L e"
  shows "cache_inv sec L (order e) e" "length (order e) = unat (nbuffers e)" "1 < unat (nbuffers e)"
    "distinct (order e)"
  using assms cache_invD(1) [of sec L "order e" e] by (auto simp: cinv_def order_def ring_def)

section \<open>Fetching a block\<close>

lemma cgetblk:
  assumes rel: "reliable drv sec" and inv: "cinv sec L e" and x: "(u, blk) \<in> L"
  shows "\<exists>p e'. getblk drv blk u False e = Some (Some p, e') \<and> cinv sec L e' \<and> same_env e e'
     \<and> p = hd (order e') \<and> set (order e') = set (order e) \<and> p \<in> set (order e)
     \<and> holds_block blk u (bufs e' p) \<and> \<not> bit (b_flag (bufs e' p)) 0 \<and> b_buffer (bufs e' p) = cview sec e u blk
     \<and> (\<forall>y \<in> L. cview sec e' (fst y) (snd y) = cview sec e (fst y) (snd y))
     \<and> (\<forall>q \<in> set (order e). q \<noteq> p \<longrightarrow> same_data (bufs e' q) (bufs e q))"
proof -
  note i = cinvD [OF inv]
  obtain p e' where g: "getblk drv blk u False e = Some (Some p, e')" "p \<in> set (order e)"
     "cache_inv sec L (front p (order e)) e'" "same_env e e'"
     "holds_block blk u (bufs e' p)" "\<not> bit (b_flag (bufs e' p)) 0" "b_buffer (bufs e' p) = view sec (order e) e u blk"
     "\<forall>y \<in> L. view sec (front p (order e)) e' (fst y) (snd y) = view sec (order e) e (fst y) (snd y)"
     "\<forall>q \<in> set (order e). q \<noteq> p \<longrightarrow> same_data (bufs e' q) (bufs e q)"
    using getblk_ok [OF rel i(1) x] by blast
  have nb: "nbuffers e' = nbuffers e" using g(4) by (simp add: same_env_def)
  have "length (front p (order e)) = length (order e)"
    using g(2) length_pos_if_in_set [OF g(2)] by (simp add: front_def length_remove1)
  then have l: "length (front p (order e)) = unat (nbuffers e')" "1 < unat (nbuffers e')" using i(2,3) nb by simp_all
  note c = cinv_intro [OF g(3) l]
  have "set (order e') = set (order e)" using c(2) front_set [OF g(2) i(4)] by simp
  moreover have "p = hd (order e')" using c(2) by (simp add: front_def)
  moreover have "\<forall>y \<in> L. cview sec e' (fst y) (snd y) = cview sec e (fst y) (snd y)"
    using g(8) unfolding c(3) by (simp add: cview_def)
  moreover have "b_buffer (bufs e' p) = cview sec e u blk" using g(7) by (simp add: cview_def)
  ultimately show ?thesis using g(1,2,4-6,9) c(1) by blast
qed

section \<open>Changing a buffer\<close>

lemma order_upd_buf [simp]:
  "b_next (f (bufs e p)) = b_next (bufs e p) \<Longrightarrow> order (upd_buf p f e) = order e"
proof -
  assume n: "b_next (f (bufs e p)) = b_next (bufs e p)"
  have "walk ((bufs e)(p := f (bufs e p))) q k = walk (bufs e) q k" for q k
    using n by (induction k arbitrary: q) auto
  then show ?thesis by (simp add: order_def upd_buf_def)
qed

lemma cstore:
  assumes inv: "cinv sec L e" and p: "p \<in> set (order e)" "holds_block blk u (bufs e p)" and len: "length data = 512"
    and f: "f (bufs e p) = (bufs e p)\<lparr>b_buffer := data, b_flag := fl\<rparr>"
    and fl: "bit fl 5" "bit fl 6" "bit fl 1 = bit (b_flag (bufs e p)) 1"
  shows "cinv sec L (upd_buf p f e) \<and> order (upd_buf p f e) = order e \<and>
     (\<forall>y \<in> L. cview sec (upd_buf p f e) (fst y) (snd y) = (if y = (u, blk) then data else cview sec e (fst y) (snd y)))"
proof -
  have eq: "upd_buf p f e = upd_buf p (\<lambda>b. b\<lparr>b_buffer := data, b_flag := fl\<rparr>) e"
    using f by (simp add: upd_buf_def)
  have o: "order (upd_buf p f e) = order e" using f by simp
  have "nbuffers (upd_buf p f e) = nbuffers e" by (simp add: upd_buf_def)
  then show ?thesis
    using store_ok [OF cinvD(1) [OF inv] p len fl] o inv unfolding eq by (auto simp: cinv_def cview_def)
qed

text \<open>A holder may get other FAT attributes as long as its mirrors stay outside the live blocks.\<close>

lemma cretag:
  assumes inv: "cinv sec L e" and p: "p \<in> set (order e)" "holds_block blk u (bufs e p)"
    and f: "b_next (f (bufs e p)) = b_next (bufs e p)" "b_prev (f (bufs e p)) = b_prev (bufs e p)"
      "b_unit (f (bufs e p)) = u" "b_blkno (f (bufs e p)) = blk" "b_buffer (f (bufs e p)) = b_buffer (bufs e p)"
      "bit (b_flag (f (bufs e p))) 5" "bit (b_flag (f (bufs e p))) 6 \<or> \<not> bit (b_flag (bufs e p)) 6"
    and mir: "fst (copies_of (f (bufs e p)) (dpbs e)) \<noteq> 0" "mirror_blocks (f (bufs e p)) (dpbs e) \<inter> L = {}"
  shows "cinv sec L (upd_buf p f e) \<and> order (upd_buf p f e) = order e \<and>
     (\<forall>y \<in> L. cview sec (upd_buf p f e) (fst y) (snd y) = cview sec e (fst y) (snd y))"
proof -
  let ?e' = "upd_buf p f e" and ?ps = "order e"
  note i = cinvD(1) [OF inv]
  have o: "order ?e' = ?ps" using f(1) by simp
  have h: "bit (b_flag (bufs e p)) 5" "b_unit (bufs e p) = u" "b_blkno (bufs e p) = blk"
    using p(2) by (simp_all add: holds_block_bits)
  have hold: "holds_block c w (bufs ?e' q) = holds_block c w (bufs e q)" for q c w
    using f h by (simp add: holds_block_bits)
  have one: "one_holder (bufs ?e') ?ps"
    by (rule one_holder_keys [OF _ _ _ cache_invD(4) [OF i]]) (use f h in simp_all)
  have ok: "buf_ok sec L ?e' (bufs ?e' q)" if "q \<in> set ?ps" for q
    using cache_invD(5) [OF i that] f h mir by (cases "q = p") (auto simp: buf_ok_def)
  have "keeps_links e ?e'" using f(1,2) by (simp add: keeps_links_def)
  then have r: "ring (bufs ?e') ?ps" using cache_invD(1) [OF i] ring_keeps by blast
  have "cache_inv sec L ?ps ?e'"
    using r ok one i unfolding cache_inv_def drives_ok_def by simp
  moreover have "view sec ?ps ?e' w c = view sec ?ps e w c" for w c
  proof (cases "\<exists>q \<in> set ?ps. holds_block c w (bufs e q)")
    case True
    then obtain q where q: "q \<in> set ?ps" "holds_block c w (bufs e q)" by blast
    then have "view sec ?ps ?e' w c = b_buffer (bufs ?e' q)" using hold by (intro view_hit [OF one]) auto
    also have "\<dots> = b_buffer (bufs e q)" using f(5) by simp
    also have "\<dots> = view sec ?ps e w c" by (rule view_hit [OF cache_invD(4) [OF i] q, symmetric])
    finally show ?thesis .
  qed (use hold in \<open>simp add: view_miss\<close>)
  moreover have "nbuffers ?e' = nbuffers e" by (simp add: upd_buf_def)
  ultimately show ?thesis using o inv by (simp add: cinv_def cview_def)
qed

text \<open>Other fields of a drive parameter block do not matter.\<close>

lemma cinv_upd_dpb:
  assumes "dpb_device (f (dpbs e p)) = dpb_device (dpbs e p)" "dpb_subunit (f (dpbs e p)) = dpb_subunit (dpbs e p)"
    "dpb_secsize (f (dpbs e p)) = dpb_secsize (dpbs e p)" "dpb_xfatsize (f (dpbs e p)) = dpb_xfatsize (dpbs e p)"
  shows "cinv sec L (upd_dpb p f e) = cinv sec L e" "cview sec (upd_dpb p f e) = cview sec e"
    "order (upd_dpb p f e) = order e"
proof -
  let ?e = "upd_dpb p f e"
  have g: "get_dpb dsk ?e = get_dpb dsk e" for dsk by (rule get_dpb_cong) (simp add: upd_dpb_def)
  have pl: "place ?e = place e" "drive_ok ?e = drive_ok e"
    using g assms by (auto simp: fun_eq_iff place_def drive_ok_def upd_dpb_def Let_def split: option.splits)
  have b: "bufs ?e = bufs e" "firstbuf ?e = firstbuf e" "nbuffers ?e = nbuffers e" "disk ?e = disk e"
    "deblock_buf ?e = deblock_buf e" by (simp_all add: upd_dpb_def)
  have c: "copies_of x (dpbs ?e) = copies_of x (dpbs e)" for x
    using assms by (simp add: copies_of_def upd_dpb_def)
  show o: "order ?e = order e" by (simp add: order_def b)
  show "cinv sec L ?e = cinv sec L e"
    by (simp add: cinv_def cache_inv_def drives_ok_def buf_ok_def mirror_blocks_def o b pl c)
  show "cview sec ?e = cview sec e" by (auto simp: fun_eq_iff cview_def view_def o b pl split: option.split)
qed

end
