(* ===== verification/Fat_Read.thy ===== *)
theory Fat_Read
  imports Fat_Table Cache_View
begin

text \<open>
  The FAT as an array of entries: where the entry of a cluster lies, and what reading it through
  \<^verbatim>\<open>link_fat\<close> returns.
\<close>

section \<open>The layout of a FAT\<close>

definition single_fat :: "dpb \<Rightarrow> bool" where
  "single_fat d \<longleftrightarrow> ISFAT32 d \<and> dpb_xflags d AND FAT_NO_MIRRORING \<noteq> 0"

definition fat_base :: "dpb \<Rightarrow> u32" where
  "fat_base d = ucast (dpb_fatstrt d) + (if single_fat d then ucast (dpb_xflags d AND 0xf) * dpb_xfatsize d else 0)"

definition fat_copies :: "dpb \<Rightarrow> nat" where
  "fat_copies d = (if single_fat d then 1 else unat (dpb_fats d))"

definition fat_distance :: "dpb \<Rightarrow> u32" where
  "fat_distance d = (if dpb_fatsize d = 0 then dpb_xfatsize d else ucast (dpb_fatsize d))"

datatype fat_kind = Fat12 | Fat16 | Fat32

definition kind_of :: "dpb \<Rightarrow> fat_kind" where
  "kind_of d = (if ISFAT12 d then Fat12 else if ISFAT16 d then Fat16 else Fat32)"

text \<open>The last byte of the entry of cluster \<open>n\<close>.\<close>

definition entry_end :: "fat_kind \<Rightarrow> nat \<Rightarrow> nat" where
  "entry_end k n = (case k of Fat12 \<Rightarrow> 3 * n div 2 + 1 | Fat16 \<Rightarrow> 2 * n + 1 | Fat32 \<Rightarrow> 4 * n + 3)"

text \<open>
  A drive parameter block whose FAT has \<open>nsec\<close> sectors: 512-byte sectors, exactly one FAT type,
  room for the entries of all clusters, all sectors live and all mirrors not.
\<close>

definition fat_layout :: "(u8 \<times> u32) set \<Rightarrow> nat \<Rightarrow> dpb \<Rightarrow> bool" where
  "fat_layout L nsec d \<longleftrightarrow> dpb_secsize d = 512
     \<and> (ISFAT32 d \<longleftrightarrow> kind_of d = Fat32)
     \<and> max_cluster d < LONG_BAD
     \<and> entry_end (kind_of d) (unat (max_cluster d)) < 512 * nsec
     \<and> unat (fat_base d) + nsec < (if kind_of d = Fat12 then 65536 else 4294967296)
     \<and> fat_copies d \<noteq> 0
     \<and> (\<forall>s < nsec. (dpb_unit d, fat_base d + of_nat s) \<in> L
          \<and> (\<forall>k \<in> {1..<fat_copies d}. (dpb_unit d, fat_base d + of_nat s + of_nat k * fat_distance d) \<notin> L))"

lemma fat_layoutD:
  assumes "fat_layout L nsec d"
  shows "dpb_secsize d = 512" "ISFAT32 d \<longleftrightarrow> kind_of d = Fat32" "max_cluster d < LONG_BAD"
    "entry_end (kind_of d) (unat (max_cluster d)) < 512 * nsec" "fat_copies d \<noteq> 0"
    "unat (fat_base d) + nsec < 4294967296" "kind_of d = Fat12 \<Longrightarrow> unat (fat_base d) + nsec < 65536"
    "s < nsec \<Longrightarrow> (dpb_unit d, fat_base d + of_nat s) \<in> L"
    "s < nsec \<Longrightarrow> 1 \<le> k \<Longrightarrow> k < fat_copies d \<Longrightarrow> (dpb_unit d, fat_base d + of_nat s + of_nat k * fat_distance d) \<notin> L"
  using assms unfolding fat_layout_def by (auto split: if_splits)

lemma kind_cases:
  "kind_of d = Fat12 \<longleftrightarrow> ISFAT12 d" "kind_of d = Fat16 \<longleftrightarrow> \<not> ISFAT12 d \<and> ISFAT16 d"
  "kind_of d = Fat32 \<longleftrightarrow> \<not> ISFAT12 d \<and> \<not> ISFAT16 d"
  by (simp_all add: kind_of_def)

lemma fat12_size:
  assumes "ISFAT12 d"
  shows "unat (dpb_size d) \<le> 4085" "dpb_size d \<noteq> 0"
proof -
  have l: "unat (dpb_size d - 1) < 4085" using assms by (simp add: ISFAT12_def FAT_MAGIC_def word_less_nat_alt)
  show nz: "dpb_size d \<noteq> 0"
  proof
    assume "dpb_size d = 0"
    then have "dpb_size d - 1 = 0xffff" by simp
    then show False using l by simp
  qed
  then have "0 < unat (dpb_size d)" by (simp add: unat_gt_0)
  then show "unat (dpb_size d) \<le> 4085" using l unat16_dec [of "dpb_size d"] by linarith
qed

lemma max_cluster_bound:
  assumes "fat_layout L nsec d"
  shows "kind_of d = Fat12 \<Longrightarrow> unat (max_cluster d) \<le> 4085" "kind_of d = Fat16 \<Longrightarrow> unat (max_cluster d) \<le> 65525"
    "unat (max_cluster d) < 0x0ffffff7"
proof -
  show "kind_of d = Fat12 \<Longrightarrow> unat (max_cluster d) \<le> 4085"
    using fat_layoutD(2) [OF assms] fat12_size(1) [of d] by (auto simp: kind_cases max_cluster_def)
  show "kind_of d = Fat16 \<Longrightarrow> unat (max_cluster d) \<le> 65525"
    using fat_layoutD(2) [OF assms] by (auto simp: kind_cases max_cluster_def ISFAT16_def FAT_MAGIC16_def word_le_nat_alt)
  show "unat (max_cluster d) < 0x0ffffff7"
    using fat_layoutD(3) [OF assms] by (simp add: LONG_BAD_def word_less_nat_alt)
qed

text \<open>The first byte of the entry of cluster \<open>n\<close>.\<close>

definition entry_start :: "fat_kind \<Rightarrow> nat \<Rightarrow> nat" where
  "entry_start k n = (case k of Fat12 \<Rightarrow> 3 * n div 2 | Fat16 \<Rightarrow> 2 * n | Fat32 \<Rightarrow> 4 * n)"

definition byte_index :: "fat_kind \<Rightarrow> u16 \<Rightarrow> nat" where
  "byte_index k idx = (case k of Fat12 \<Rightarrow> unat idx div 2 | Fat16 \<Rightarrow> unat idx * 2 | Fat32 \<Rightarrow> unat idx * 4)"

lemma unat_mod_ucast16:
  assumes "v \<noteq> 0"
  shows "unat (ucast (w mod ucast v :: u32) :: u16) = unat w mod unat (v :: u16)"
proof -
  have "unat w mod unat v < unat v" using assms by (simp add: unat_gt_0)
  moreover have "unat v < 65536" by (rule unat16_lt)
  ultimately have "unat w mod unat v < 65536" by linarith
  then show ?thesis by (simp add: unat_ucast_32_16 unat_mod)
qed

lemma nibble_byte: "m mod 1024 div 2 = m div 2 mod (512 :: nat)"
proof -
  have "m mod (2 * 512) = 2 * (m div 2 mod 512) + m mod 2" by (rule mod_mult2_eq)
  moreover have "(2 * (m div 2 mod 512) + m mod 2) div 2 = m div 2 mod 512" by simp
  ultimately show ?thesis by simp
qed

lemma sector_address: "unat (w div ucast v :: u32) = unat w div unat (v :: u16)"
  by (simp add: unat_div)

lemma fat_position_ok:
  assumes lay: "fat_layout L nsec d" and c: "c \<le> max_cluster d"
  defines "i \<equiv> entry_start (kind_of d) (unat c)"
  shows "\<exists>idx. fat_position d c = (idx, fat_base d + of_nat (i div 512)) \<and> byte_index (kind_of d) idx = i mod 512
     \<and> i div 512 < nsec"
proof -
  have cm: "unat c \<le> unat (max_cluster d)" using c by (simp add: word_le_nat_alt)
  note l = fat_layoutD [OF lay] and m = max_cluster_bound [OF lay]
  have base: "fat_position d c = (idx, fat_base d + w)"
    if "fst (fat_position d c) = idx"
      "(if ISFAT12 d then ucast (ucast c * 3 :: u16) else c) div
         ucast (if ISFAT12 d then dpb_secsize d * 2 else if ISFAT32 d then dpb_secsize d div 2 div 2 else dpb_secsize d div 2) = w"
    for idx and w :: u32
    using that by (auto simp: fat_position_def fat_base_def single_fat_def Let_def algebra_simps)
  have inr: "i div 512 < nsec"
  proof -
    have "i \<le> entry_end (kind_of d) (unat c)" by (simp add: i_def entry_start_def entry_end_def split: fat_kind.splits)
    also have "\<dots> \<le> entry_end (kind_of d) (unat (max_cluster d))"
      using cm by (auto simp: entry_end_def div_le_mono split: fat_kind.splits)
    finally show ?thesis using l(4) by (simp add: less_mult_imp_div_less mult.commute)
  qed
  show ?thesis
  proof (cases "kind_of d")
    case Fat12
    have s: "unat c \<le> 4085" using cm m(1) [OF Fat12] by linarith
    have "unat (ucast c :: u16) = unat c" using s by (simp add: unat_ucast_32_16)
    then have n: "unat (ucast c * 3 :: u16) = 3 * unat c" using s by (subst unat_mult_no_wrap) simp_all
    have i: "i = 3 * unat c div 2" by (simp add: i_def Fat12 entry_start_def)
    have w: "ucast (ucast c * 3 :: u16) div ucast (dpb_secsize d * 2) = (of_nat (i div 512) :: u32)"
    proof (rule word_unat_eq_iff [THEN iffD2])
      have "unat (ucast (ucast c * 3 :: u16) div ucast (dpb_secsize d * 2) :: u32) = 3 * unat c div 1024"
        unfolding sector_address unat_ucast_16_32 n l(1) by simp
      also have "\<dots> = i div 512" by (simp add: i div_mult2_eq [symmetric])
      moreover have "i div 512 < 4294967296" using inr l(6) by linarith
      ultimately show "unat (ucast (ucast c * 3 :: u16) div ucast (dpb_secsize d * 2) :: u32) = unat (of_nat (i div 512) :: u32)"
        by (simp add: unat32_of_nat)
    qed
    have f: "fst (fat_position d c) = ucast (ucast (ucast c * 3 :: u16) mod ucast (dpb_secsize d * 2) :: u32)"
      using Fat12 by (simp add: fat_position_def Let_def kind_cases)
    have "unat (fst (fat_position d c)) = 3 * unat c mod 1024"
      unfolding f by (subst unat_mod_ucast16) (simp_all only: unat_ucast_16_32 n l(1), simp_all)
    then have "byte_index Fat12 (fst (fat_position d c)) = i mod 512"
      unfolding byte_index_def i fat_kind.case nibble_byte [symmetric] by (rule arg_cong)
    then show ?thesis using base [OF refl] w inr Fat12 kind_cases(1) [of d] by auto
  next
    case Fat16
    have k: "\<not> ISFAT12 d" "\<not> ISFAT32 d" using Fat16 l(2) kind_cases [of d] by auto
    have i: "i = 2 * unat c" by (simp add: i_def Fat16 entry_start_def)
    have s: "dpb_secsize d div 2 = 256" by (simp add: l(1))
    have w: "c div ucast (dpb_secsize d div 2) = (of_nat (i div 512) :: u32)"
    proof (rule word_unat_eq_iff [THEN iffD2])
      have "unat c div 256 = i div 512" by (simp add: i)
      moreover have "i div 512 < 4294967296" using inr l(6) by linarith
      ultimately show "unat (c div ucast (dpb_secsize d div 2)) = unat (of_nat (i div 512) :: u32)"
        unfolding sector_address s by (simp add: unat32_of_nat)
    qed
    have f: "fst (fat_position d c) = ucast (c mod ucast (dpb_secsize d div 2))"
      using k by (simp add: fat_position_def Let_def)
    have "unat (fst (fat_position d c)) = unat c mod 256" unfolding f s by (subst unat_mod_ucast16) simp_all
    then have "byte_index Fat16 (fst (fat_position d c)) = i mod 512"
      using mod_mult_mult1 [of 2 "unat c" 256] by (simp add: byte_index_def i)
    then show ?thesis using base [OF refl] w inr Fat16 k by auto
  next
    case Fat32
    have k: "\<not> ISFAT12 d" "ISFAT32 d" using Fat32 l(2) kind_cases [of d] by auto
    have i: "i = 4 * unat c" by (simp add: i_def Fat32 entry_start_def)
    have s: "dpb_secsize d div 2 div 2 = 128" by (simp add: l(1))
    have w: "c div ucast (dpb_secsize d div 2 div 2) = (of_nat (i div 512) :: u32)"
    proof (rule word_unat_eq_iff [THEN iffD2])
      have "unat c div 128 = i div 512" by (simp add: i)
      moreover have "i div 512 < 4294967296" using inr l(6) by linarith
      ultimately show "unat (c div ucast (dpb_secsize d div 2 div 2)) = unat (of_nat (i div 512) :: u32)"
        unfolding sector_address s by (simp add: unat32_of_nat)
    qed
    have f: "fst (fat_position d c) = ucast (c mod ucast (dpb_secsize d div 2 div 2))"
      using k by (simp add: fat_position_def Let_def)
    have "unat (fst (fat_position d c)) = unat c mod 128" unfolding f s by (subst unat_mod_ucast16) simp_all
    then have "byte_index Fat32 (fst (fat_position d c)) = i mod 512"
      using mod_mult_mult1 [of 4 "unat c" 128] by (simp add: byte_index_def i)
    then show ?thesis using base [OF refl] w inr Fat32 k by auto
  qed
qed


section \<open>Bytes and entries of the FAT\<close>

definition fat_sector :: "dpb \<Rightarrow> nat \<Rightarrow> u8 \<times> u32" where
  "fat_sector d s = (dpb_unit d, fat_base d + of_nat s)"

definition fat_byte :: "'d sectors \<Rightarrow> nat \<Rightarrow> 'd io \<Rightarrow> nat \<Rightarrow> u8" where
  "fat_byte sec p e i =
     (let x = fat_sector (dpbs e p) (i div 512) in cview sec e (fst x) (snd x) ! (i mod 512))"

text \<open>The entry of cluster \<open>n\<close> in an array of bytes, as the chains use it.\<close>

definition byte_entry :: "fat_kind \<Rightarrow> (nat \<Rightarrow> u8) \<Rightarrow> u32 \<Rightarrow> u32" where
  "byte_entry k B c =
     (let i = entry_start k (unat c) in
      case k of
        Fat12 \<Rightarrow> decode12 (unpack12 c (mk16 (B i) (B (i + 1))))
      | Fat16 \<Rightarrow> decode16 (mk16 (B i) (B (i + 1)))
      | Fat32 \<Rightarrow> decode32 (mk32 (mk16 (B i) (B (i + 1))) (mk16 (B (i + 2)) (B (i + 3))) AND LONG_LAST_CLUSTER))"

definition fat :: "'d sectors \<Rightarrow> nat \<Rightarrow> 'd io \<Rightarrow> u32 \<Rightarrow> u32" where
  "fat sec p e c = byte_entry (kind_of (dpbs e p)) (fat_byte sec p e) c"

text \<open>The state in which the FAT of a drive can be used.\<close>

definition fat_ok :: "'d sectors \<Rightarrow> (u8 \<times> u32) set \<Rightarrow> nat \<Rightarrow> nat \<Rightarrow> 'd io \<Rightarrow> bool" where
  "fat_ok sec L nsec p e \<longleftrightarrow> cinv sec L e \<and> fat_layout L nsec (dpbs e p)
     \<and> (ISFAT32 (dpbs e p) \<and> dpb_xfsinfosec (dpbs e p) \<noteq> 0xffff \<longrightarrow>
          (dpb_unit (dpbs e p), ucast (dpb_xfsinfosec (dpbs e p))) \<in> L
          \<and> unat (dpb_xfsinfosec (dpbs e p)) < unat (fat_base (dpbs e p)))"

definition same_views :: "'d sectors \<Rightarrow> (u8 \<times> u32) set \<Rightarrow> 'd io \<Rightarrow> 'd io \<Rightarrow> bool" where
  "same_views sec L e e' \<longleftrightarrow> (\<forall>y \<in> L. cview sec e' (fst y) (snd y) = cview sec e (fst y) (snd y))"

lemma same_views_refl [simp]: "same_views sec L e e"
  by (simp add: same_views_def)

lemma same_views_trans: "same_views sec L e e1 \<Longrightarrow> same_views sec L e1 e2 \<Longrightarrow> same_views sec L e e2"
  by (simp add: same_views_def)

lemma fat_okD:
  assumes "fat_ok sec L nsec p e"
  shows "cinv sec L e" "fat_layout L nsec (dpbs e p)"
  using assms by (simp_all add: fat_ok_def)

text \<open>A state with the same parameter blocks and the same views has the same FAT.\<close>

lemma fat_byte_same:
  assumes "fat_layout L nsec (dpbs e p)" "same_views sec L e e'" "dpbs e' p = dpbs e p" "i < 512 * nsec"
  shows "fat_byte sec p e' i = fat_byte sec p e i"
proof -
  have "fat_sector (dpbs e p) (i div 512) \<in> L"
    using fat_layoutD(8) [OF assms(1), of "i div 512"] assms(4)
    by (simp add: fat_sector_def less_mult_imp_div_less mult.commute)
  then show ?thesis using assms(2,3) by (simp add: fat_byte_def same_views_def Let_def)
qed

lemma entry_in_range:
  assumes "fat_layout L nsec d" "c \<le> max_cluster d"
  shows "entry_end (kind_of d) (unat c) < 512 * nsec"
proof -
  have "unat c \<le> unat (max_cluster d)" using assms(2) by (simp add: word_le_nat_alt)
  then have "entry_end (kind_of d) (unat c) \<le> entry_end (kind_of d) (unat (max_cluster d))"
    by (auto simp: entry_end_def div_le_mono split: fat_kind.splits)
  then show ?thesis using fat_layoutD(4) [OF assms(1)] by linarith
qed

lemma byte_entry_cong:
  assumes "\<And>i. entry_start k (unat c) \<le> i \<Longrightarrow> i \<le> entry_end k (unat c) \<Longrightarrow> B i = B' i"
  shows "byte_entry k B c = byte_entry k B' c"
proof -
  have "B (entry_start k (unat c) + j) = B' (entry_start k (unat c) + j)"
    if "entry_start k (unat c) + j \<le> entry_end k (unat c)" for j
    using assms that by simp
  note this [of 0] this [of 1] this [of 2] this [of 3]
  then show ?thesis by (cases k) (simp_all add: byte_entry_def entry_start_def entry_end_def Let_def)
qed

lemma fat_same:
  assumes "fat_layout L nsec (dpbs e p)" "same_views sec L e e'" "dpbs e' p = dpbs e p" "c \<le> max_cluster (dpbs e p)"
  shows "fat sec p e' c = fat sec p e c"
  unfolding fat_def assms(3)
  by (rule byte_entry_cong) (use fat_byte_same [OF assms(1-3)] entry_in_range [OF assms(1,4)] in simp)

lemma fat_ok_same:
  assumes "fat_ok sec L nsec p e" "cinv sec L e'" "dpbs e' p = dpbs e p"
  shows "fat_ok sec L nsec p e'"
  using assms by (simp add: fat_ok_def)

section \<open>Getting a FAT sector\<close>

lemma getFATblock_ok:
  assumes rel: "reliable drv sec" and ok: "fat_ok sec L nsec p e" and s: "s < nsec"
  shows "\<exists>b e'. getFATblock drv p (fat_base (dpbs e p) + of_nat s) e = Some (Some b, e') \<and> cinv sec L e' \<and> same_env e e'
     \<and> b = hd (order e') \<and> set (order e') = set (order e) \<and> b \<in> set (order e)
     \<and> holds_block (fat_base (dpbs e p) + of_nat s) (dpb_unit (dpbs e p)) (bufs e' b)
     \<and> \<not> bit (b_flag (bufs e' b)) 0 \<and> bit (b_flag (bufs e' b)) 1
     \<and> b_buffer (bufs e' b) = cview sec e (dpb_unit (dpbs e p)) (fat_base (dpbs e p) + of_nat s)
     \<and> same_views sec L e e' \<and> (\<forall>q \<in> set (order e). q \<noteq> b \<longrightarrow> same_data (bufs e' q) (bufs e q))"
proof -
  let ?d = "dpbs e p" and ?blk = "fat_base (dpbs e p) + of_nat s"
  note lay = fat_okD(2) [OF ok]
  note l = fat_layoutD [OF lay]
  obtain b e1 where g: "getblk drv ?blk (dpb_unit ?d) False e = Some (Some b, e1)" "cinv sec L e1" "same_env e e1"
     "b = hd (order e1)" "set (order e1) = set (order e)" "b \<in> set (order e)"
     "holds_block ?blk (dpb_unit ?d) (bufs e1 b)" "\<not> bit (b_flag (bufs e1 b)) 0" "b_buffer (bufs e1 b) = cview sec e (dpb_unit ?d) ?blk"
     "\<forall>y \<in> L. cview sec e1 (fst y) (snd y) = cview sec e (fst y) (snd y)"
     "\<forall>q \<in> set (order e). q \<noteq> b \<longrightarrow> same_data (bufs e1 q) (bufs e q)"
    using cgetblk [OF rel fat_okD(1) [OF ok] l(8) [OF s]] by blast
  have d: "dpbs e1 = dpbs e" using g(3) by (simp add: same_env_def)
  let ?f = "\<lambda>x. x\<lparr>b_flag := (b_flag x AND NOT (BFR_DATA OR BFR_DIR)) OR (BFR_FAT OR BFR_VALID),
            b_dpbp := p, b_copies := (if ISFAT32 ?d \<and> dpb_xflags ?d AND FAT_NO_MIRRORING \<noteq> 0 then 1 else dpb_fats ?d),
            b_offset := dpb_fatsize ?d\<rparr>"
  let ?x = "bufs e1 b"
  have h: "bit (b_flag ?x) 5" "b_unit ?x = dpb_unit ?d" "b_blkno ?x = ?blk" using g(7) by (simp_all add: holds_block_bits)
  have bits: "bit (b_flag (?f ?x)) 5" "bit (b_flag (?f ?x)) 1" "bit (b_flag (?f ?x)) 6 = bit (b_flag ?x) 6"
    "bit (b_flag (?f ?x)) 0 = bit (b_flag ?x) 0" by (simp_all add: bfr_flags bit_simps)
  have c: "copies_of (?f ?x) (dpbs e1) = (fat_copies ?d, fat_distance ?d)"
    using bits(2) d by (simp add: copies_of_def flag_bits fat_copies_def fat_distance_def single_fat_def ISFAT32_def)
  have mir: "mirror_blocks (?f ?x) (dpbs e1) \<inter> L = {}"
    using l(9) [OF s] h unfolding mirror_blocks_def c by (auto simp: add.assoc)
  have bm: "b \<in> set (order e1)" using g(5,6) by simp
  have t: "cinv sec L (upd_buf b ?f e1) \<and> order (upd_buf b ?f e1) = order e1 \<and>
     (\<forall>y \<in> L. cview sec (upd_buf b ?f e1) (fst y) (snd y) = cview sec e1 (fst y) (snd y))"
    by (rule cretag [OF g(2) bm g(7)]) (use h bits c l(5) mir in simp_all)
  have "getFATblock drv p ?blk e = Some (Some b, upd_buf b ?f e1)"
    using g(1) d by (simp add: getFATblock_def Let_def)
  moreover have "same_env e (upd_buf b ?f e1)" using g(3) by simp
  moreover have "holds_block ?blk (dpb_unit ?d) (bufs (upd_buf b ?f e1) b)" using h bits by (simp add: holds_block_bits)
  moreover have "same_views sec L e (upd_buf b ?f e1)" using t g(10) by (simp add: same_views_def)
  moreover have "\<not> bit (b_flag (bufs (upd_buf b ?f e1) b)) 0" "bit (b_flag (bufs (upd_buf b ?f e1) b)) 1" using bits g(8) by simp_all
  moreover have "b_buffer (bufs (upd_buf b ?f e1) b) = cview sec e (dpb_unit ?d) ?blk" using g(9) by simp
  moreover have "\<forall>q \<in> set (order e). q \<noteq> b \<longrightarrow> same_data (bufs (upd_buf b ?f e1) q) (bufs e q)" using g(11) by simp
  moreover have "b = hd (order (upd_buf b ?f e1))" "set (order (upd_buf b ?f e1)) = set (order e)"
    using t g(4,5) by simp_all
  ultimately show ?thesis using conjunct1 [OF t] g(6) by blast
qed

text \<open>The two buffers of a FAT12 entry, when it straddles two sectors.\<close>

lemma getFATblock_second:
  assumes rel: "reliable drv sec" and ok: "fat_ok sec L nsec p e" and s: "s < nsec"
    and b: "b = hd (order e)" "holds_block blk (dpb_unit (dpbs e p)) (bufs e b)" "blk \<noteq> fat_base (dpbs e p) + of_nat s"
      "\<not> bit (b_flag (bufs e b)) 0" "bit (b_flag (bufs e b)) 1"
    and g: "getFATblock drv p (fat_base (dpbs e p) + of_nat s) e = Some (Some b1, e')"
  shows "b1 \<noteq> b"
proof -
  let ?blk = "fat_base (dpbs e p) + of_nat s"
  have inv: "cinv sec L e" by (rule fat_okD(1) [OF ok])
  obtain e1 where "getblk drv ?blk (dpb_unit (dpbs e p)) False e = Some (Some b1, e1)"
    using g by (auto simp: getFATblock_def Let_def bind_eq_Some_conv split: option.splits)
  moreover have "\<not> holds_block ?blk (dpb_unit (dpbs e p)) (bufs e b)" using b(2,3) by (simp add: holds_block_bits)
  moreover have "1 < length (order e)" using cinvD(2,3) [OF inv] by simp
  ultimately show ?thesis using getblk_pointer [OF cinvD(1) [OF inv] _ b(1) _ b(4,5)] by blast
qed


section \<open>Reading an entry\<close>

text \<open>A buffer that holds a sector of the FAT.\<close>

definition fat_buffer :: "nat \<Rightarrow> nat \<Rightarrow> u16 \<Rightarrow> 'd io \<Rightarrow> bool" where
  "fat_buffer p s b e \<longleftrightarrow> b \<in> set (order e) \<and> holds_block (fat_base (dpbs e p) + of_nat s) (dpb_unit (dpbs e p)) (bufs e b)
     \<and> \<not> bit (b_flag (bufs e b)) 0 \<and> bit (b_flag (bufs e b)) 1"

lemma fat_buffer_view:
  assumes "cinv sec L e" "fat_buffer p s b e"
  shows "b_buffer (bufs e b) = cview sec e (dpb_unit (dpbs e p)) (fat_base (dpbs e p) + of_nat s)"
proof -
  have "b \<in> set (order e)" "holds_block (fat_base (dpbs e p) + of_nat s) (dpb_unit (dpbs e p)) (bufs e b)"
    using assms(2) by (simp_all add: fat_buffer_def)
  then show ?thesis unfolding cview_def by (rule view_hit [OF cache_invD(4) [OF cinvD(1) [OF assms(1)]], symmetric])
qed

lemma fat_buffer_byte:
  assumes "cinv sec L e" "fat_buffer p s b e" "i div 512 = s"
  shows "b_buffer (bufs e b) ! (i mod 512) = fat_byte sec p e i"
  using fat_buffer_view [OF assms(1,2)] assms(3) by (simp add: fat_byte_def fat_sector_def Let_def)

lemma fat_buffer_length: "cinv sec L e \<Longrightarrow> fat_buffer p s b e \<Longrightarrow> length (b_buffer (bufs e b)) = 512"
  using cache_invD(5) [OF cinvD(1), of sec L e b] by (simp add: fat_buffer_def buf_ok_def)

lemma getFATblock_buffer:
  assumes rel: "reliable drv sec" and ok: "fat_ok sec L nsec p e" and s: "s < nsec"
  shows "\<exists>b e'. getFATblock drv p (fat_base (dpbs e p) + of_nat s) e = Some (Some b, e') \<and> fat_ok sec L nsec p e'
     \<and> same_env e e' \<and> b = hd (order e') \<and> fat_buffer p s b e' \<and> same_views sec L e e'
     \<and> set (order e') = set (order e) \<and> (\<forall>q \<in> set (order e). q \<noteq> b \<longrightarrow> same_data (bufs e' q) (bufs e q))"
proof -
  obtain b e' where g: "getFATblock drv p (fat_base (dpbs e p) + of_nat s) e = Some (Some b, e')" "cinv sec L e'" "same_env e e'"
     "b = hd (order e')" "set (order e') = set (order e)" "b \<in> set (order e)"
     "holds_block (fat_base (dpbs e p) + of_nat s) (dpb_unit (dpbs e p)) (bufs e' b)"
     "\<not> bit (b_flag (bufs e' b)) 0" "bit (b_flag (bufs e' b)) 1" "same_views sec L e e'"
     "\<forall>q \<in> set (order e). q \<noteq> b \<longrightarrow> same_data (bufs e' q) (bufs e q)"
    using getFATblock_ok [OF assms] by blast
  have d: "dpbs e' = dpbs e" using g(3) by (simp add: same_env_def)
  have "fat_ok sec L nsec p e'" using fat_ok_same [OF ok g(2)] d by simp
  moreover have "fat_buffer p s b e'" using g(5-9) d by (simp add: fat_buffer_def)
  ultimately show ?thesis using g(1,3-5,10,11) by blast
qed

text \<open>The second byte of a FAT12 entry; a write marks the second buffer dirty at once.\<close>

lemma second_byte_ok:
  assumes rel: "reliable drv sec" and ok: "fat_ok sec L nsec p e" and k: "kind_of (dpbs e p) = Fat12"
    and b: "b = hd (order e)" "fat_buffer p s b e" and i: "i div 512 = s" "i mod 512 = j" "i + 1 < 512 * nsec"
  shows "\<exists>b1 i1 e1. second_byte drv p b j (fat_base (dpbs e p) + of_nat s) c2 e = Some (Some (b1, i1), e1)
     \<and> fat_ok sec L nsec p e1 \<and> same_env e e1 \<and> same_views sec L e e1
     \<and> fat_buffer p s b e1 \<and> fat_buffer p ((i + 1) div 512) b1 e1 \<and> i1 = (i + 1) mod 512
     \<and> (b1 = b \<longleftrightarrow> (i + 1) div 512 = s) \<and> (c2 \<noteq> READ_CLUSTER \<and> b1 \<noteq> b \<longrightarrow> bit (b_flag (bufs e1 b1)) 6)"
proof -
  let ?d = "dpbs e p"
  note lay = fat_okD(2) [OF ok]
  have ss: "unat (dpb_secsize ?d - 1) = 511" using fat_layoutD(1) [OF lay] by simp
  have j: "j < 512" using i(2) by auto
  have idj: "512 * s + j = i" using i(1,2) mult_div_mod_eq [of 512 i] by simp
  show ?thesis
  proof (cases "j \<ge> 511")
    case False
    then have "i + 1 = 512 * s + (j + 1)" "j + 1 < 512" using idj by linarith+
    then have "(i + 1) div 512 = s" "(i + 1) mod 512 = j + 1" by simp_all
    moreover have "second_byte drv p b j (fat_base ?d + of_nat s) c2 e = Some (Some (b, j + 1), e)"
      using False ss by (simp add: second_byte_def)
    ultimately show ?thesis using ok b(2) by (intro exI [of _ b] exI [of _ "j + 1"] exI [of _ e]) simp
  next
    case True
    then have j511: "j = 511" using j by linarith
    then have i1: "i + 1 = 512 * (s + 1)" using idj by simp
    then have dm: "(i + 1) div 512 = s + 1" "(i + 1) mod 512 = 0" by simp_all
    have s1: "s + 1 < nsec" using i(3) i1 by simp
    have nw: "unat (fat_base ?d) + (s + 1) < 65536" using fat_layoutD(7) [OF lay k] s1 by linarith
    have u: "unat (fat_base ?d + of_nat s) = unat (fat_base ?d) + s"
      using nw by (subst unat_add_no_wrap) (simp_all add: unat32_of_nat)
    have a: "ucast (ucast (fat_base ?d + of_nat s) + 1 :: u16) = fat_base ?d + of_nat (s + 1)"
    proof (rule word_unat_eq_iff [THEN iffD2])
      have "unat (ucast (fat_base ?d + of_nat s) :: u16) = unat (fat_base ?d) + s"
        unfolding unat_ucast_32_16 u using nw by simp
      then have "unat (ucast (fat_base ?d + of_nat s) + 1 :: u16) = unat (fat_base ?d) + (s + 1)"
        using nw by (subst unat16_inc) simp_all
      moreover have "unat (fat_base ?d + of_nat (s + 1)) = unat (fat_base ?d) + (s + 1)"
        using nw by (subst unat_add_no_wrap) (simp_all only: unat32_of_nat, simp_all)
      ultimately show "unat (ucast (ucast (fat_base ?d + of_nat s) + 1 :: u16) :: u32) = unat (fat_base ?d + of_nat (s + 1))"
        by simp
    qed
    obtain b1 e1 where g: "getFATblock drv p (fat_base ?d + of_nat (s + 1)) e = Some (Some b1, e1)" "fat_ok sec L nsec p e1"
       "same_env e e1" "fat_buffer p (s + 1) b1 e1" "same_views sec L e e1"
       "set (order e1) = set (order e)" "\<forall>q \<in> set (order e). q \<noteq> b1 \<longrightarrow> same_data (bufs e1 q) (bufs e q)"
      using getFATblock_buffer [OF rel ok s1] by blast
    have d: "dpbs e1 = dpbs e" using g(3) by (simp add: same_env_def)
    have bh: "b \<in> set (order e)" "holds_block (fat_base ?d + of_nat s) (dpb_unit ?d) (bufs e b)"
       "\<not> bit (b_flag (bufs e b)) 0" "bit (b_flag (bufs e b)) 1" using b(2) by (simp_all add: fat_buffer_def)
    have diff: "fat_base ?d + of_nat s \<noteq> fat_base ?d + of_nat (s + 1)"
      by simp
    have ne: "b1 \<noteq> b" by (rule getFATblock_second [OF rel ok s1 b(1) bh(2) diff bh(3,4) g(1)])
    then have sd: "same_data (bufs e1 b) (bufs e b)" using g(7) bh(1) ne [symmetric] by blast
    have fb: "fat_buffer p s b e1"
      using bh g(6) same_dataD [OF sd] d by (simp add: fat_buffer_def holds_block_bits)
    let ?f = "\<lambda>x. x\<lparr>b_flag := b_flag x OR (BFR_DIRTY OR BFR_VALID)\<rparr>"
    show ?thesis
    proof (cases "c2 = READ_CLUSTER")
      case True
      have "second_byte drv p b j (fat_base ?d + of_nat s) c2 e = Some (Some (b1, 0), e1)"
        using j511 ss a g(1) True by (simp add: second_byte_def)
      then show ?thesis using g ne fb dm True by (intro exI [of _ b1] exI [of _ 0] exI [of _ e1]) simp
    next
      case False
      let ?e2 = "upd_buf b1 ?f e1"
      have i1: "cinv sec L e1" by (rule fat_okD(1) [OF g(2)])
      have m: "b1 \<in> set (order e1)" "holds_block (fat_base ?d + of_nat (s + 1)) (dpb_unit ?d) (bufs e1 b1)"
        using g(4) d by (simp_all add: fat_buffer_def)
      have t: "cinv sec L ?e2 \<and> order ?e2 = order e1 \<and>
         (\<forall>y \<in> L. cview sec ?e2 (fst y) (snd y) = (if y = (dpb_unit ?d, fat_base ?d + of_nat (s + 1))
            then b_buffer (bufs e1 b1) else cview sec e1 (fst y) (snd y)))"
        by (rule cstore [OF i1 m fat_buffer_length [OF i1 g(4)], where fl = "b_flag (bufs e1 b1) OR (BFR_DIRTY OR BFR_VALID)"])
          (simp_all add: bfr_flags bit_simps)
      have sv: "same_views sec L e1 ?e2"
        using t fat_buffer_view [OF i1 g(4)] d by (auto simp: same_views_def)
      have "second_byte drv p b j (fat_base ?d + of_nat s) c2 e = Some (Some (b1, 0), ?e2)"
        using j511 ss a g(1) False by (simp add: second_byte_def)
      moreover have "fat_ok sec L nsec p ?e2" using fat_ok_same [OF g(2)] t by simp
      moreover have "fat_buffer p s b ?e2" "fat_buffer p (s + 1) b1 ?e2"
        using fb g(4) ne t by (simp_all add: fat_buffer_def holds_block_bits bfr_flags bit_simps)
      moreover have "bit (b_flag (bufs ?e2 b1)) 6" by (simp add: bfr_flags bit_simps)
      moreover have "same_env e ?e2" using g(3) by simp
      moreover have "same_views sec L e ?e2" by (rule same_views_trans [OF g(5) sv])
      ultimately show ?thesis using ne dm by (intro exI [of _ b1] exI [of _ 0] exI [of _ ?e2]) simp
    qed
  qed
qed

lemma sector_offset:
  fixes i j :: nat
  assumes "i mod 512 + j < 512"
  shows "(i + j) div 512 = i div 512" "(i + j) mod 512 = i mod 512 + j"
proof -
  define q r where "q = i div 512" and "r = i mod 512"
  have i: "i + j = (r + j) + 512 * q" by (simp add: q_def r_def)
  have r: "r + j < 512" using assms by (simp add: r_def)
  show "(i + j) div 512 = i div 512" "(i + j) mod 512 = i mod 512 + j"
    unfolding i q_def [symmetric] r_def [symmetric] using r by simp_all
qed

lemma aligned_gap:
  fixes i :: nat
  shows "2 dvd i \<Longrightarrow> i mod 512 + 1 < 512" and "4 dvd i \<Longrightarrow> i mod 512 + 3 < 512"
proof -
  have b: "i mod 512 < 512" by simp
  show "i mod 512 + 1 < 512" if "2 dvd i"
  proof -
    have "2 dvd i mod 512" using that by (intro dvd_mod) simp_all
    then obtain q where q: "i mod 512 = 2 * q" ..
    show ?thesis using b unfolding q by presburger
  qed
  show "i mod 512 + 3 < 512" if "4 dvd i"
  proof -
    have "4 dvd i mod 512" using that by (intro dvd_mod) simp_all
    then obtain q where q: "i mod 512 = 4 * q" ..
    show ?thesis using b unfolding q by presburger
  qed
qed

text \<open>Reading an entry returns it and changes no view.\<close>

lemma link_read:
  assumes rel: "reliable drv sec" and ok: "fat_ok sec L nsec p e"
    and c: "2 \<le> c" "c \<le> max_cluster (dpbs e p)"
  shows "\<exists>e'. link_fat drv p c READ_CLUSTER e = Some (fat sec p e c, e') \<and> fat_ok sec L nsec p e'
     \<and> same_env e e' \<and> same_views sec L e e'"
proof -
  let ?d = "dpbs e p"
  let ?i = "entry_start (kind_of ?d) (unat c)"
  note lay = fat_okD(2) [OF ok]
  obtain idx where pos: "fat_position ?d c = (idx, fat_base ?d + of_nat (?i div 512))"
      "byte_index (kind_of ?d) idx = ?i mod 512" "?i div 512 < nsec"
    using fat_position_ok [OF lay c(2)] by blast
  obtain b e1 where g: "getFATblock drv p (fat_base ?d + of_nat (?i div 512)) e = Some (Some b, e1)" "fat_ok sec L nsec p e1"
     "same_env e e1" "b = hd (order e1)" "fat_buffer p (?i div 512) b e1" "same_views sec L e e1"
    using getFATblock_buffer [OF rel ok pos(3)] by blast
  have d: "dpbs e1 = dpbs e" using g(3) by (simp add: same_env_def)
  have i1: "cinv sec L e1" by (rule fat_okD(1) [OF g(2)])
  have fe: "fat sec p e1 c = fat sec p e c" by (rule fat_same [OF lay g(6)]) (use d c in simp_all)
  have r: "is_read READ_CLUSTER" "\<not> c \<le> 1" "\<not> READ_CLUSTER > max_cluster ?d" "\<not> max_cluster ?d < c"
    using c by (auto simp: is_read_def fat_consts word_le_nat_alt word_less_nat_alt)
  have start: "link_fat drv p c READ_CLUSTER e =
      (if ISFAT12 ?d then link12 drv p b (unat idx div 2) (fat_base ?d + of_nat (?i div 512)) c READ_CLUSTER e1
       else if ISFAT16 ?d then link16 drv p b (unat idx) READ_CLUSTER e1
       else if ISFAT32 ?d then link32 drv p b (unat idx) READ_CLUSTER e1
       else Some (1, clusterMessage ''Bad DPB!'' 0 e1))"
    using r(2-4) pos(1) g(1) by (simp add: link_fat_def Let_def)
  have byte: "b_buffer (bufs e1 b) ! (?i mod 512 + j) = fat_byte sec p e1 (?i + j)" if "?i mod 512 + j < 512" for j
  proof -
    have "(?i + j) div 512 = ?i div 512" "(?i + j) mod 512 = ?i mod 512 + j"
      using sector_offset [OF that] by simp_all
    then show ?thesis using fat_buffer_byte [OF i1 g(5)] by metis
  qed
  show ?thesis
  proof (cases "kind_of ?d")
    case Fat12
    have i2: "?i + 1 < 512 * nsec"
      using entry_in_range [OF lay c(2)] Fat12 by (simp add: entry_end_def entry_start_def)
    have k1: "kind_of (dpbs e1 p) = Fat12" using Fat12 d by simp
    obtain b1 j1 e2 where s: "second_byte drv p b (?i mod 512) (fat_base ?d + of_nat (?i div 512)) READ_CLUSTER e1 = Some (Some (b1, j1), e2)"
       "fat_ok sec L nsec p e2" "same_env e1 e2" "same_views sec L e1 e2" "fat_buffer p (?i div 512) b e2"
       "fat_buffer p ((?i + 1) div 512) b1 e2" "j1 = (?i + 1) mod 512"
      using second_byte_ok [OF rel g(2) k1 g(4,5) refl refl i2, of READ_CLUSTER] d by auto
    have i3: "cinv sec L e2" by (rule fat_okD(1) [OF s(2)])
    have d2: "dpbs e2 = dpbs e1" using s(3) by (simp add: same_env_def)
    have bytes: "b_buffer (bufs e2 b) ! (?i mod 512) = fat_byte sec p e2 ?i" "b_buffer (bufs e2 b1) ! j1 = fat_byte sec p e2 (?i + 1)"
      using fat_buffer_byte [OF i3 s(5) refl] fat_buffer_byte [OF i3 s(6) refl] s(7) by simp_all
    have fe2: "fat sec p e2 c = fat sec p e c"
      using fat_same [OF fat_okD(2) [OF g(2)] s(4)] fe d d2 c by simp
    have l12: "link12 drv p b (?i mod 512) (fat_base ?d + of_nat (?i div 512)) c READ_CLUSTER e1
        = Some (decode12 (unpack12 c (mk16 (fat_byte sec p e2 ?i) (fat_byte sec p e2 (?i + 1)))), e2)"
      unfolding link12_def s(1) bind.bind_lunit using bytes r(1) by (simp add: Let_def)
    have ix: "unat idx div 2 = ?i mod 512" using pos(2) Fat12 by (simp add: byte_index_def)
    have "fat sec p e2 c = decode12 (unpack12 c (mk16 (fat_byte sec p e2 ?i) (fat_byte sec p e2 (?i + 1))))"
      using Fat12 d d2 by (simp add: fat_def byte_entry_def Let_def)
    moreover have "ISFAT12 ?d" using Fat12 kind_cases(1) by blast
    ultimately have "link_fat drv p c READ_CLUSTER e = Some (fat sec p e2 c, e2)"
      unfolding start ix using l12 by simp
    then show ?thesis using fe2 s(2) same_env_trans [OF g(3) s(3)] same_views_trans [OF g(6) s(4)] by auto
  next
    case Fat16
    have "?i mod 512 + 1 < 512" by (rule aligned_gap) (simp add: Fat16 entry_start_def)
    then have b2: "b_buffer (bufs e1 b) ! (?i mod 512) = fat_byte sec p e1 ?i" "b_buffer (bufs e1 b) ! Suc (?i mod 512) = fat_byte sec p e1 (?i + 1)"
      using byte [of 0] byte [of 1] by simp_all
    have "link_fat drv p c READ_CLUSTER e = Some (fat sec p e1 c, e1)"
      using start Fat16 kind_cases(2) [of ?d] pos(2) b2 r(1) d
      by (simp add: link16_def byte_index_def fat_def byte_entry_def Let_def fgetword_def)
    then show ?thesis using fe g(2,3,6) by auto
  next
    case Fat32
    have "?i mod 512 + 3 < 512" by (rule aligned_gap) (simp add: Fat32 entry_start_def)
    then have b4: "b_buffer (bufs e1 b) ! (?i mod 512) = fat_byte sec p e1 ?i" "b_buffer (bufs e1 b) ! (?i mod 512 + 1) = fat_byte sec p e1 (?i + 1)"
       "b_buffer (bufs e1 b) ! (?i mod 512 + 2) = fat_byte sec p e1 (?i + 2)" "b_buffer (bufs e1 b) ! (?i mod 512 + 3) = fat_byte sec p e1 (?i + 3)"
      using byte [of 0] byte [of 1] byte [of 2] byte [of 3] by simp_all
    have k: "\<not> ISFAT12 ?d" "\<not> ISFAT16 ?d" "ISFAT32 ?d" using Fat32 kind_cases(3) [of ?d] fat_layoutD(2) [OF lay] by auto
    have "link_fat drv p c READ_CLUSTER e = Some (fat sec p e1 c, e1)"
      using start Fat32 k pos(2) b4 d
      by (simp add: link32_def byte_index_def fat_def byte_entry_def Let_def fgetlong_def fgetword_def numeral_3_eq_3)
    then show ?thesis using fe g(2,3,6) by auto
  qed
qed

end
