(* ===== verification/Fat_Write.thy ===== *)
theory Fat_Write
  imports Fat_Read
begin

text \<open>
  Writing an entry of the FAT: exactly one entry changes, although FAT12 entries share bytes and
  may straddle two sectors, and the count of free clusters follows.
\<close>

section \<open>Packed entries\<close>

lemma bit_mk16: "bit (mk16 l h) n \<longleftrightarrow> (if n < 8 then bit l n else n < 16 \<and> bit h (n - 8))"
  by (auto simp: mk16_def bit_simps dest: bit_imp_le_length)

lemma bit_lo8: "bit (lo8 w) n \<longleftrightarrow> n < 8 \<and> bit w n"
  by (simp add: lo8_def bit_simps)

lemma bit_hi8: "bit (hi8 w) n \<longleftrightarrow> n < 8 \<and> bit w (n + 8)"
  by (simp add: hi8_def bit_simps) (simp add: add.commute)

lemma odd_bit: "c AND 1 \<noteq> 0 \<longleftrightarrow> odd (unat (c :: u32))"
proof -
  have "c AND 1 = c mod 2" using word_and_mask_mod [of c 1] by (simp add: mask_eq_exp_minus_1)
  then have "unat (c AND 1) = unat c mod 2" by (simp add: unat_mod)
  then show ?thesis by (auto simp: unat_eq_iff odd_iff_mod_2_eq_one)
qed

lemma odd_bit16: "ucast c AND (1 :: u16) \<noteq> 0 \<longleftrightarrow> odd (unat (c :: u32))"
proof -
  have "ucast c AND (1 :: u16) = ucast c mod 2" using word_and_mask_mod [of "ucast c :: u16" 1] by (simp add: mask_eq_exp_minus_1)
  then have "unat (ucast c AND (1 :: u16)) = unat c mod 2"
    by (simp add: unat_mod unat_ucast_32_16 mod_mod_cancel)
  then show ?thesis by (auto simp: unat_eq_iff odd_iff_mod_2_eq_one)
qed

lemma masks16: "(0x0fff :: u16) = mask 12" "(0x000f :: u16) = mask 4" "(0xf000 :: u16) = NOT (mask 12)"
  by (simp_all add: mask_eq_exp_minus_1)

lemma unpack12_bits: "bit (unpack12 c w) n \<longleftrightarrow> n < 12 \<and> bit w (if odd (unat c) then n + 4 else n)"
  by (simp add: unpack12_def odd_bit masks16 bit_simps) (auto simp: add.commute)

lemma pack12_bits:
  "bit (pack12 c c2 w) n \<longleftrightarrow> n < 16 \<and>
     (if odd (unat c) then (if n < 4 then bit w n else bit (ucast c2 :: u16) (n - 4))
      else (if n < 12 then bit (ucast c2 :: u16) n else bit w n))"
  by (auto simp: pack12_def odd_bit16 masks16 bit_simps Let_def dest: bit_imp_le_length)

lemma unpack_pack: "unpack12 c (pack12 c c2 w) = ucast c2 AND 0x0fff"
  by (rule bit_word_eqI) (auto simp: unpack12_bits pack12_bits masks16 bit_simps)

text \<open>The byte array after an entry is written.\<close>

definition put_entry :: "fat_kind \<Rightarrow> u32 \<Rightarrow> u32 \<Rightarrow> (nat \<Rightarrow> u8) \<Rightarrow> nat \<Rightarrow> u8" where
  "put_entry k c c2 B =
     (let i = entry_start k (unat c) in
      case k of
        Fat12 \<Rightarrow> (let w = pack12 c c2 (mk16 (B i) (B (i + 1))) in B(i := lo8 w, i + 1 := hi8 w))
      | Fat16 \<Rightarrow> B(i := lo8 (ucast c2), i + 1 := hi8 (ucast c2))
      | Fat32 \<Rightarrow> (let v = c2 AND LONG_LAST_CLUSTER in
           B(i := lo8 (ucast v), i + 1 := hi8 (ucast v),
             i + 2 := lo8 (ucast (drop_bit 16 v)), i + 3 := hi8 (ucast (drop_bit 16 v)))))"

lemma odd_byte: "(3 + 6 * m) div 2 = 3 * m + (1 :: nat)"
  by presburger

lemma unpack12_other:
  assumes ne: "unat c' \<noteq> unat c"
  defines "i \<equiv> 3 * unat c div 2" and "i' \<equiv> 3 * unat c' div 2"
  shows "unpack12 c' (mk16 (put_entry Fat12 c c2 B i') (put_entry Fat12 c c2 B (i' + 1))) = unpack12 c' (mk16 (B i') (B (i' + 1)))"
proof -
  define w where "w = pack12 c c2 (mk16 (B i) (B (i + 1)))"
  have p: "put_entry Fat12 c c2 B = B(i := lo8 w, i + 1 := hi8 w)"
    by (simp add: put_entry_def entry_start_def i_def w_def Let_def)
  consider (far) "i' + 1 < i \<or> i + 1 < i'" | (after) "even (unat c)" "i' = i + 1" "odd (unat c')" | (before) "odd (unat c)" "i' + 1 = i" "even (unat c')"
  proof (cases "unat c' + 1 = unat c \<or> unat c + 1 = unat c'")
    case True
    then show ?thesis
    proof
      assume a: "unat c' + 1 = unat c"
      show ?thesis
      proof (cases "even (unat c')")
        case True
        then obtain m where "unat c' = 2 * m" by (auto elim: evenE)
        then show ?thesis using a [symmetric] that(3) True by (simp add: i_def i'_def)
      next
        case False
        then obtain m where "unat c' = 2 * m + 1" by (auto elim: oddE)
        then show ?thesis using a [symmetric] that(1) by (simp add: i_def i'_def odd_byte)
      qed
    next
      assume a: "unat c + 1 = unat c'"
      show ?thesis
      proof (cases "even (unat c)")
        case True
        then obtain m where "unat c = 2 * m" by (auto elim: evenE)
        then show ?thesis using a [symmetric] that(2) True by (simp add: i_def i'_def)
      next
        case False
        then obtain m where "unat c = 2 * m + 1" by (auto elim: oddE)
        then show ?thesis using a [symmetric] that(1) by (simp add: i_def i'_def odd_byte)
      qed
    qed
  next
    case False
    then have "unat c' + 2 \<le> unat c \<or> unat c + 2 \<le> unat c'" using ne by linarith
    then have "i' + 1 < i \<or> i + 1 < i'" by (auto simp: i_def i'_def)
    then show ?thesis by (rule that(1))
  qed
  then show ?thesis
  proof cases
    case far
    then show ?thesis by (auto simp: p)
  next
    case after
    then have "put_entry Fat12 c c2 B i' = hi8 w" "put_entry Fat12 c c2 B (i' + 1) = B (i' + 1)" by (simp_all add: p)
    then show ?thesis using after
      by (intro bit_word_eqI) (auto simp: unpack12_bits bit_mk16 bit_hi8 w_def pack12_bits, (simp add: add.commute)+)
  next
    case before
    then have "put_entry Fat12 c c2 B i' = B i'" "put_entry Fat12 c c2 B (i' + 1) = lo8 w" by (auto simp: p)
    then show ?thesis using before
      by (intro bit_word_eqI) (auto simp: unpack12_bits bit_mk16 bit_lo8 w_def pack12_bits)
  qed
qed

text \<open>The values that can be written: a free entry, a link, a bad cluster and the end of a chain.\<close>

definition fat_value :: "dpb \<Rightarrow> u32 \<Rightarrow> bool" where
  "fat_value d v \<longleftrightarrow> v = FREE \<or> (2 \<le> v \<and> v \<le> max_cluster d) \<or> v = LONG_BAD \<or> v = LONG_LAST_CLUSTER"

lemma mk32_split: "mk32 (ucast w) (ucast (drop_bit 16 w)) = w"
  by (rule bit_word_eqI) (auto simp: mk32_def bit_simps dest: bit_imp_le_length)

lemma bit_mk32: "bit (mk32 l h) n \<longleftrightarrow> (if n < 16 then bit l n else n < 32 \<and> bit h (n - 16))"
  by (auto simp: mk32_def bit_simps dest: bit_imp_le_length)

lemma and_last_idem: "v AND LONG_LAST_CLUSTER AND LONG_LAST_CLUSTER = v AND LONG_LAST_CLUSTER"
  by (simp add: and.assoc)

lemma and_last_small:
  assumes "unat v < 0x10000000"
  shows "v AND LONG_LAST_CLUSTER = v"
proof -
  have "v AND mask 28 = v mod 2 ^ 28" by (rule word_and_mask_mod)
  moreover have "v mod 2 ^ 28 = v" using assms by (simp add: unat_eq_iff unat_mod)
  ultimately show ?thesis by (simp add: LONG_LAST_CLUSTER_def mask_eq_exp_minus_1)
qed

lemma decode_written:
  assumes lay: "fat_layout L nsec d" and v: "fat_value d c2"
  shows "kind_of d = Fat12 \<Longrightarrow> decode12 (ucast c2 AND 0x0fff) = c2"
    "kind_of d = Fat16 \<Longrightarrow> decode16 (ucast c2) = c2"
    "decode32 (c2 AND LONG_LAST_CLUSTER) = c2"
proof -
  note m = max_cluster_bound [OF lay]
  consider "c2 = LONG_BAD" | "c2 = LONG_LAST_CLUSTER" | "unat c2 \<le> unat (max_cluster d)"
    using v by (auto simp: fat_value_def FREE_def word_le_nat_alt)
  note cs = this
  show "decode12 (ucast c2 AND 0x0fff) = c2" if k: "kind_of d = Fat12"
  proof (cases rule: cs)
    case 3
    then have s: "unat c2 \<le> 4085" using m(1) [OF k] by linarith
    have "unat (ucast c2 AND (0x0fff :: u16)) = unat c2"
      using s word_and_mask_mod [of "ucast c2 :: u16" 12]
      by (simp add: mask_eq_exp_minus_1 unat_mod unat_ucast_32_16)
    then show ?thesis using s by (simp add: decode12_def fat_consts unat_eq_iff word_le_nat_alt)
  qed (simp_all add: decode12_def fat_consts)
  show "decode16 (ucast c2) = c2" if k: "kind_of d = Fat16"
  proof (cases rule: cs)
    case 3
    then have "unat c2 \<le> 65525" using m(2) [OF k] by linarith
    then show ?thesis by (simp add: decode16_def fat_consts unat_eq_iff word_le_nat_alt unat_ucast_32_16)
  qed (simp_all add: decode16_def fat_consts)
  show "decode32 (c2 AND LONG_LAST_CLUSTER) = c2"
  proof (cases rule: cs)
    case 3
    then have s: "unat c2 < 0x0ffffff7" using m(3) by linarith
    then show ?thesis by (simp add: and_last_small decode32_def LONG_BAD_def word_less_nat_alt)
  qed (simp_all add: decode32_def fat_consts)
qed

text \<open>Writing an entry changes this entry only.\<close>

lemma put_entry_ok:
  assumes lay: "fat_layout L nsec d" and v: "fat_value d c2"
  shows "byte_entry (kind_of d) (put_entry (kind_of d) c c2 B) c' = (if c' = c then c2 else byte_entry (kind_of d) B c')"
proof (cases "c' = c")
  case True
  show ?thesis
  proof (cases "kind_of d")
    case Fat12
    then show ?thesis using True decode_written(1) [OF lay v]
      by (simp add: byte_entry_def put_entry_def Let_def unpack_pack)
  next
    case Fat16
    then show ?thesis using True decode_written(2) [OF lay v] by (simp add: byte_entry_def put_entry_def Let_def)
  next
    case Fat32
    then show ?thesis using True decode_written(3) [OF lay v]
      by (simp add: byte_entry_def put_entry_def Let_def mk32_split and_last_idem del: drop_bit_and)
  qed
next
  case False
  then have ne: "unat c' \<noteq> unat c" by (simp add: unat_eq_iff)
  show ?thesis
  proof (cases "kind_of d")
    case Fat12
    then show ?thesis using False unpack12_other [OF ne, of c2 B] by (simp add: byte_entry_def entry_start_def Let_def)
  next
    case Fat16
    have "byte_entry Fat16 (put_entry Fat16 c c2 B) c' = byte_entry Fat16 B c'"
      by (rule byte_entry_cong) (use ne in \<open>auto simp: put_entry_def entry_start_def entry_end_def Let_def\<close>)
    then show ?thesis using Fat16 False by simp
  next
    case Fat32
    have "byte_entry Fat32 (put_entry Fat32 c c2 B) c' = byte_entry Fat32 B c'"
      by (rule byte_entry_cong) (use ne in \<open>auto simp: put_entry_def entry_start_def entry_end_def Let_def\<close>)
    then show ?thesis using Fat32 False by simp
  qed
qed


section \<open>Storing into a sector of the FAT\<close>

lemma fat_sector_inj:
  assumes "fat_layout L nsec d" "s < nsec" "s' < nsec" "fat_sector d s = fat_sector d s'"
  shows "s = s'"
proof -
  have "unat (fat_base d + of_nat t) = unat (fat_base d) + t" if "t < nsec" for t
    using that fat_layoutD(6) [OF assms(1)] by (subst unat_add_no_wrap) (simp_all add: unat32_of_nat)
  then show ?thesis using assms(2-4) by (auto simp: fat_sector_def unat_eq_iff)
qed

lemma fat_store:
  assumes ok: "fat_ok sec L nsec p e" and b: "fat_buffer p s b e" "s < nsec" and len: "length data = 512"
    and f: "f (bufs e b) = (bufs e b)\<lparr>b_buffer := data, b_flag := b_flag (bufs e b) OR (BFR_DIRTY OR BFR_VALID)\<rparr>"
  defines "e' \<equiv> upd_buf b f e"
  shows "fat_ok sec L nsec p e'" "same_env e e'"
    "\<And>s' b'. fat_buffer p s' b' e \<Longrightarrow> fat_buffer p s' b' e'"
    "\<And>i. i < 512 * nsec \<Longrightarrow> fat_byte sec p e' i = (if i div 512 = s then data ! (i mod 512) else fat_byte sec p e i)"
    "\<And>y. y \<in> L \<Longrightarrow> y \<noteq> fat_sector (dpbs e p) s \<Longrightarrow> cview sec e' (fst y) (snd y) = cview sec e (fst y) (snd y)"
proof -
  let ?d = "dpbs e p"
  note inv = fat_okD(1) [OF ok] and lay = fat_okD(2) [OF ok]
  have h: "b \<in> set (order e)" "holds_block (fat_base ?d + of_nat s) (dpb_unit ?d) (bufs e b)"
    using b(1) by (simp_all add: fat_buffer_def)
  let ?fl = "b_flag (bufs e b) OR (BFR_DIRTY OR BFR_VALID)"
  have t: "cinv sec L e' \<and> order e' = order e \<and>
     (\<forall>y \<in> L. cview sec e' (fst y) (snd y) = (if y = (dpb_unit ?d, fat_base ?d + of_nat s) then data else cview sec e (fst y) (snd y)))"
    unfolding e'_def by (rule cstore [where f = f, OF inv h len f]) (simp_all add: bfr_flags bit_simps)
  show "same_env e e'" by (simp add: e'_def)
  have d: "dpbs e' = dpbs e" by (simp add: e'_def)
  show "fat_ok sec L nsec p e'" using fat_ok_same [OF ok] t d by simp
  show "fat_buffer p s' b' e'" if fb: "fat_buffer p s' b' e" for s' b'
  proof (cases "b' = b")
    case True
    have u: "bufs e' b = (bufs e b)\<lparr>b_buffer := data, b_flag := ?fl\<rparr>" using f by (simp add: e'_def)
    have bits: "bit ?fl 5" "bit ?fl 0 = bit (b_flag (bufs e b)) 0" "bit ?fl 1 = bit (b_flag (bufs e b)) 1"
      by (simp_all add: bfr_flags bit_simps)
    show ?thesis using fb True t d bits by (simp add: fat_buffer_def holds_block_bits u)
  next
    case False
    then show ?thesis using fb t d by (simp add: fat_buffer_def e'_def)
  qed
  show "cview sec e' (fst y) (snd y) = cview sec e (fst y) (snd y)" if "y \<in> L" "y \<noteq> fat_sector ?d s" for y
    using t that by (simp add: fat_sector_def)
  show "fat_byte sec p e' i = (if i div 512 = s then data ! (i mod 512) else fat_byte sec p e i)" if i: "i < 512 * nsec" for i
  proof -
    have n: "i div 512 < nsec" using i by (simp add: less_mult_imp_div_less mult.commute)
    have m: "fat_sector ?d (i div 512) \<in> L" using fat_layoutD(8) [OF lay n] by (simp add: fat_sector_def)
    have "fat_sector ?d (i div 512) = fat_sector ?d s \<longleftrightarrow> i div 512 = s"
      using fat_sector_inj [OF lay n b(2)] by blast
    then show ?thesis using conjunct2 [OF conjunct2 [OF t], rule_format, OF m] d
      by (simp add: fat_byte_def Let_def fat_sector_def)
  qed
qed

section \<open>The free count\<close>

text \<open>The drive parameter block after a write.\<close>

definition count_free :: "u32 \<Rightarrow> bool \<Rightarrow> dpb \<Rightarrow> dpb" where
  "count_free c2 wasfree d =
     (let adjust = (if \<not> wasfree then 1 else if c2 \<noteq> FREE then -1 else 0)
      in if c2 = FREE \<or> wasfree then
           (if ISFAT32 d \<and> dpb_xnfreeclst d \<noteq> XUNKNCLSTFREE
            then d\<lparr>dpb_xnfreeclst := dpb_xnfreeclst d + word_of_int adjust\<rparr>
            else if dpb_nfreeclst d \<noteq> UNKNCLSTFREE
            then set_nfreeclst (dpb_nfreeclst d + word_of_int adjust) d else d)
         else d)"

text \<open>What may differ between two parameter blocks: the free count and the hints.\<close>

definition same_geometry :: "dpb \<Rightarrow> dpb \<Rightarrow> bool" where
  "same_geometry d d' \<longleftrightarrow> d' = d\<lparr>dpb_xnfreeclst := dpb_xnfreeclst d', dpb_cluster := dpb_cluster d', dpb_xcluster := dpb_xcluster d'\<rparr>"

lemma same_geometry_refl [simp]: "same_geometry d d"
  by (simp add: same_geometry_def)

lemma same_geometryD:
  assumes "same_geometry d d'"
  shows "dpb_unit d' = dpb_unit d" "dpb_device d' = dpb_device d" "dpb_subunit d' = dpb_subunit d" "dpb_secsize d' = dpb_secsize d"
    "dpb_fatsize d' = dpb_fatsize d" "dpb_size d' = dpb_size d" "dpb_xsize d' = dpb_xsize d" "dpb_xfatsize d' = dpb_xfatsize d"
    "dpb_xflags d' = dpb_xflags d" "dpb_fatstrt d' = dpb_fatstrt d" "dpb_fats d' = dpb_fats d" "dpb_xfsinfosec d' = dpb_xfsinfosec d"
  by (subst assms [unfolded same_geometry_def], simp)+

lemma same_geometry_trans: "same_geometry d d1 \<Longrightarrow> same_geometry d1 d2 \<Longrightarrow> same_geometry d d2"
  by (cases d; cases d1; cases d2; simp add: same_geometry_def)

lemma geometry_fat:
  assumes "same_geometry d d'"
  shows "kind_of d' = kind_of d" "max_cluster d' = max_cluster d" "fat_base d' = fat_base d" "fat_copies d' = fat_copies d"
    "fat_distance d' = fat_distance d" "fat_layout L nsec d' = fat_layout L nsec d" "fat_sector d' = fat_sector d"
    "ISFAT32 d' = ISFAT32 d" "fat_value d' v = fat_value d v"
  using same_geometryD [OF assms]
  by (simp_all add: kind_of_def max_cluster_def fat_base_def fat_copies_def fat_distance_def fat_layout_def
      single_fat_def ISFAT12_def ISFAT16_def ISFAT32_def fat_sector_def fat_value_def fun_eq_iff)

lemma count_free_geometry: "same_geometry d (count_free c2 wasfree d)"
  by (simp add: same_geometry_def count_free_def set_nfreeclst_def Let_def)

text \<open>
  Two states with the same FAT, as an operation that only reads or that writes the information
  sector leaves it.
\<close>

definition fs_sector :: "dpb \<Rightarrow> u8 \<times> u32" where
  "fs_sector d = (dpb_unit d, ucast (dpb_xfsinfosec d))"

text \<open>The information sector is only written on FAT32 drives that have one.\<close>

definition fs_area :: "dpb \<Rightarrow> (u8 \<times> u32) set" where
  "fs_area d = (if kind_of d = Fat32 \<and> dpb_xfsinfosec d \<noteq> 0xffff then {fs_sector d} else {})"

definition same_fat :: "'d sectors \<Rightarrow> (u8 \<times> u32) set \<Rightarrow> nat \<Rightarrow> 'd io \<Rightarrow> 'd io \<Rightarrow> bool" where
  "same_fat sec L p e e' \<longleftrightarrow> (\<forall>q. same_geometry (dpbs e q) (dpbs e' q)) \<and> (\<forall>q. q \<noteq> p \<longrightarrow> dpbs e' q = dpbs e q)
     \<and> (\<forall>y \<in> L. y \<notin> fs_area (dpbs e p) \<longrightarrow> cview sec e' (fst y) (snd y) = cview sec e (fst y) (snd y))"

lemma same_fat_refl [simp]: "same_fat sec L p e e"
  by (simp add: same_fat_def)

lemma same_fatD:
  assumes "same_fat sec L p e e'"
  shows "same_geometry (dpbs e q) (dpbs e' q)" "q \<noteq> p \<Longrightarrow> dpbs e' q = dpbs e q"
    "y \<in> L \<Longrightarrow> y \<notin> fs_area (dpbs e p) \<Longrightarrow> cview sec e' (fst y) (snd y) = cview sec e (fst y) (snd y)"
  using assms unfolding same_fat_def by blast+

lemma same_fat_trans:
  assumes "same_fat sec L p e e1" "same_fat sec L p e1 e2"
  shows "same_fat sec L p e e2"
proof -
  note g = same_geometryD [OF same_fatD(1) [OF assms(1)]]
  have f: "fs_area (dpbs e1 p) = fs_area (dpbs e p)"
    by (simp add: fs_area_def fs_sector_def g(1,12) geometry_fat(1) [OF same_fatD(1) [OF assms(1)]])
  show ?thesis
    unfolding same_fat_def
  proof (intro conjI allI ballI impI)
    show "same_geometry (dpbs e q) (dpbs e2 q)" for q
      by (rule same_geometry_trans [OF same_fatD(1) [OF assms(1)] same_fatD(1) [OF assms(2)]])
    show "dpbs e2 q = dpbs e q" if "q \<noteq> p" for q
      using same_fatD(2) [OF assms(1) that] same_fatD(2) [OF assms(2) that] by simp
    show "cview sec e2 (fst y) (snd y) = cview sec e (fst y) (snd y)" if "y \<in> L" "y \<notin> fs_area (dpbs e p)" for y
      using same_fatD(3) [OF assms(1) that] same_fatD(3) [OF assms(2) that(1)] that(2) unfolding f by simp
  qed
qed

lemma same_fat_views: "same_env e e' \<Longrightarrow> same_views sec L e e' \<Longrightarrow> same_fat sec L p e e'"
  by (simp add: same_fat_def same_views_def same_env_def)

lemma fat_ok_geometry:
  assumes "fat_ok sec L nsec p e" "cinv sec L e'" "same_geometry (dpbs e p) (dpbs e' p)"
  shows "fat_ok sec L nsec p e'"
  using assms geometry_fat [OF assms(3)] same_geometryD [OF assms(3)] by (simp add: fat_ok_def)

lemma fat_sector_area:
  assumes ok: "fat_ok sec L nsec p e" and s: "s < nsec"
  shows "fat_sector (dpbs e p) s \<notin> fs_area (dpbs e p)"
proof
  let ?d = "dpbs e p"
  note lay = fat_okD(2) [OF ok]
  assume a: "fat_sector ?d s \<in> fs_area ?d"
  then have f: "kind_of ?d = Fat32" "dpb_xfsinfosec ?d \<noteq> 0xffff" and eq: "fat_sector ?d s = fs_sector ?d"
    by (auto simp: fs_area_def split: if_splits)
  have "unat (dpb_xfsinfosec ?d) < unat (fat_base ?d)"
    using ok f fat_layoutD(2) [OF lay] by (simp add: fat_ok_def)
  moreover have "unat (fat_base ?d + of_nat s) = unat (fat_base ?d) + s"
    using s fat_layoutD(6) [OF lay] by (subst unat_add_no_wrap) (simp_all add: unat32_of_nat)
  ultimately show False using eq by (auto simp: fat_sector_def fs_sector_def unat_eq_iff)
qed

section \<open>The information sector\<close>

lemma fputword_get: "fputword b i (fgetword b i) = b"
  by (simp add: fputword_def fgetword_def)

lemma fgetlong_halves: "ucast (fgetlong b i) = fgetword b i" "ucast (drop_bit 16 (fgetlong b i)) = fgetword b (i + 2)"
  by (rule bit_word_eqI; auto simp: fgetlong_def bit_mk32 bit_simps add.commute dest: bit_imp_le_length)+

lemma fputlong_get: "fputlong b i (fgetlong b i) = b"
  by (simp add: fputlong_def fgetlong_halves fputword_get)

lemma fputlong_length [simp]: "length (fputlong b i w) = length b"
  by (simp add: fputlong_def fputword_def)

lemma write_fsinfo_ok:
  assumes rel: "reliable drv sec" and ok: "fat_ok sec L nsec p e" and k: "kind_of (dpbs e p) = Fat32"
  shows "\<exists>e'. write_fsinfo drv p e = Some e' \<and> fat_ok sec L nsec p e' \<and> dpbs e' = dpbs e \<and> same_fat sec L p e e'
     \<and> (dpb_xfsinfosec (dpbs e p) = 0xffff \<longrightarrow> e' = e)"
proof (cases "dpb_xfsinfosec (dpbs e p) = 0xffff")
  case True
  then show ?thesis using ok by (simp add: write_fsinfo_def)
next
  case False
  let ?d = "dpbs e p"
  let ?blk = "ucast (dpb_xfsinfosec ?d) :: u32"
  note lay = fat_okD(2) [OF ok]
  have L: "(dpb_unit ?d, ?blk) \<in> L" using ok False k fat_layoutD(2) [OF lay] by (simp add: fat_ok_def)
  obtain b e1 where g: "getblk drv ?blk (dpb_unit ?d) False e = Some (Some b, e1)" "cinv sec L e1" "same_env e e1"
     "b \<in> set (order e1)" "holds_block ?blk (dpb_unit ?d) (bufs e1 b)"
     "\<forall>y \<in> L. cview sec e1 (fst y) (snd y) = cview sec e (fst y) (snd y)"
    using cgetblk [OF rel fat_okD(1) [OF ok] L] by metis
  have d: "dpbs e1 = dpbs e" using g(3) by (simp add: same_env_def)
  let ?f = "\<lambda>x. x\<lparr>b_flag := (b_flag x AND NOT (BFR_DATA OR BFR_DIR OR BFR_FAT)) OR BFR_VALID\<rparr>"
  let ?e2 = "upd_buf b ?f e1"
  have h: "bit (b_flag (bufs e1 b)) 5" "b_unit (bufs e1 b) = dpb_unit ?d" "b_blkno (bufs e1 b) = ?blk"
    using g(5) by (simp_all add: holds_block_bits)
  have bits: "bit (b_flag (?f (bufs e1 b))) 5" "\<not> bit (b_flag (?f (bufs e1 b))) 1"
    "bit (b_flag (?f (bufs e1 b))) 6 = bit (b_flag (bufs e1 b)) 6" by (simp_all add: bfr_flags bit_simps)
  have c: "copies_of (?f (bufs e1 b)) (dpbs e1) = (1, 0)" using bits(2) by (simp add: copies_of_def flag_bits)
  have t: "cinv sec L ?e2 \<and> order ?e2 = order e1 \<and> (\<forall>y \<in> L. cview sec ?e2 (fst y) (snd y) = cview sec e1 (fst y) (snd y))"
    by (rule cretag [OF g(2,4,5)]) (use h bits c in \<open>simp_all add: mirror_blocks_def\<close>)
  have h2: "holds_block ?blk (dpb_unit ?d) (bufs ?e2 b)" using h bits by (simp add: holds_block_bits)
  let ?buf = "b_buffer (bufs e1 b)"
  let ?new = "fputlong (fputlong ?buf (fsinfo_offset + 4) (dpb_xnfreeclst ?d)) (fsinfo_offset + 8) (dpb_xcluster ?d)"
  let ?put = "\<lambda>x. x\<lparr>b_buffer := fputlong (fputlong (b_buffer x) (fsinfo_offset + 4) (dpb_xnfreeclst ?d)) (fsinfo_offset + 8) (dpb_xcluster ?d)\<rparr>"
  show ?thesis
  proof (cases "fgetlong ?buf (fsinfo_offset + 4) \<noteq> dpb_xnfreeclst ?d \<or> fgetlong ?buf (fsinfo_offset + 8) \<noteq> dpb_xcluster ?d")
    case True
    let ?dirty = "\<lambda>x. x\<lparr>b_flag := b_flag x OR BFR_DIRTY\<rparr>"
    let ?e3 = "upd_buf b (\<lambda>x. ?put (?dirty x)) ?e2"
    have eq: "upd_buf b ?put (upd_buf b ?dirty ?e2) = ?e3" by (simp add: upd_buf_def)
    have len: "length ?new = 512"
      using cache_invD(5) [OF cinvD(1) [OF g(2)] g(4)] by (simp add: buf_ok_def)
    have s: "cinv sec L ?e3 \<and> order ?e3 = order ?e2 \<and>
       (\<forall>y \<in> L. cview sec ?e3 (fst y) (snd y) = (if y = (dpb_unit ?d, ?blk) then ?new else cview sec ?e2 (fst y) (snd y)))"
      by (rule cstore [OF conjunct1 [OF t] _ h2 len, where fl = "b_flag (bufs ?e2 b) OR BFR_DIRTY"])
        (use t g(4) h2 in \<open>simp_all add: holds_block_bits bfr_flags bit_simps\<close>)
    have "write_fsinfo drv p e = Some ?e3"
      unfolding eq [symmetric] using False g(1) True d by (simp add: write_fsinfo_def Let_def)
    moreover have "same_fat sec L p e ?e3"
      using s t g(6) d k False by (simp add: same_fat_def fs_area_def fs_sector_def)
    moreover have "fat_ok sec L nsec p ?e3" using fat_ok_same [OF ok] s d by simp
    ultimately show ?thesis using False d by (intro exI [of _ ?e3]) simp
  next
    case same: False
    then have "?new = ?buf"
      using fputlong_get [of ?buf "fsinfo_offset + 4"] fputlong_get [of ?buf "fsinfo_offset + 8"] by simp
    then have eq: "upd_buf b ?put ?e2 = ?e2" by (simp add: upd_buf_def)
    have "write_fsinfo drv p e = Some (upd_buf b ?put ?e2)"
      using False g(1) same d by (simp add: write_fsinfo_def Let_def)
    moreover have "same_fat sec L p e ?e2" using t g(6) d by (simp add: same_fat_def)
    moreover have "fat_ok sec L nsec p ?e2" using fat_ok_same [OF ok] t d by simp
    ultimately show ?thesis unfolding eq using False d by (intro exI [of _ ?e2]) simp
  qed
qed


section \<open>Writing an entry\<close>

lemma same_fat_byte:
  assumes "fat_ok sec L nsec p e" "same_fat sec L p e e'" "i < 512 * nsec"
  shows "fat_byte sec p e' i = fat_byte sec p e i"
proof -
  have n: "i div 512 < nsec" using assms(3) by (simp add: less_mult_imp_div_less mult.commute)
  have "fat_sector (dpbs e p) (i div 512) \<in> L"
    using fat_layoutD(8) [OF fat_okD(2) [OF assms(1)] n] by (simp add: fat_sector_def)
  then show ?thesis
    using same_fatD(3) [OF assms(2) _ fat_sector_area [OF assms(1) n]] geometry_fat(7) [OF same_fatD(1) [OF assms(2)]]
    by (simp add: fat_byte_def Let_def)
qed

lemma same_fat_fat:
  assumes "fat_ok sec L nsec p e" "same_fat sec L p e e'" "c \<le> max_cluster (dpbs e p)"
  shows "fat sec p e' c = fat sec p e c"
proof -
  have "byte_entry (kind_of (dpbs e p)) (fat_byte sec p e') c = byte_entry (kind_of (dpbs e p)) (fat_byte sec p e) c"
    by (rule byte_entry_cong, rule same_fat_byte [OF assms(1,2)])
      (use entry_in_range [OF fat_okD(2) [OF assms(1)] assms(3)] in linarith)
  then show ?thesis using geometry_fat(1) [OF same_fatD(1) [OF assms(2)]] by (simp add: fat_def)
qed

lemma same_fat_upd_dpb:
  assumes "fat_ok sec L nsec p e" "same_geometry (dpbs e p) (f (dpbs e p))"
  shows "fat_ok sec L nsec p (upd_dpb p f e)" "same_fat sec L p e (upd_dpb p f e)"
proof -
  note g = same_geometryD [OF assms(2)]
  note c = cinv_upd_dpb [where f = f, OF g(2-4) g(8)]
  have d: "dpbs (upd_dpb p f e) = (dpbs e)(p := f (dpbs e p))" by (simp add: upd_dpb_def)
  show "fat_ok sec L nsec p (upd_dpb p f e)"
    by (rule fat_ok_geometry [OF assms(1)]) (use c(1) fat_okD(1) [OF assms(1)] d assms(2) in simp_all)
  show "same_fat sec L p e (upd_dpb p f e)" using c(2) d assms(2) by (simp add: same_fat_def)
qed

lemma link_done_ok:
  assumes rel: "reliable drv sec"
    and ok: "fat_ok sec L nsec p (upd_buf b (\<lambda>x. x\<lparr>b_flag := b_flag x OR (BFR_DIRTY OR BFR_VALID)\<rparr>) e)" (is "fat_ok _ _ _ _ ?e1")
  shows "\<exists>e'. link_done drv p b c2 wasfree e = Some (0, e') \<and> fat_ok sec L nsec p e' \<and> same_fat sec L p ?e1 e'
     \<and> dpbs e' p = count_free c2 wasfree (dpbs e p)"
proof -
  let ?d = "dpbs e p"
  let ?adj = "if \<not> wasfree then 1 else if c2 \<noteq> FREE then -1 else 0 :: int"
  have d: "dpbs ?e1 p = ?d" by simp
  consider (count32) "c2 = FREE \<or> wasfree" "ISFAT32 ?d \<and> dpb_xnfreeclst ?d \<noteq> XUNKNCLSTFREE"
    | (count16) "c2 = FREE \<or> wasfree" "\<not> (ISFAT32 ?d \<and> dpb_xnfreeclst ?d \<noteq> XUNKNCLSTFREE)" "dpb_nfreeclst ?d \<noteq> UNKNCLSTFREE"
    | (none) "\<not> ((c2 = FREE \<or> wasfree) \<and> (ISFAT32 ?d \<and> dpb_xnfreeclst ?d \<noteq> XUNKNCLSTFREE \<or> dpb_nfreeclst ?d \<noteq> UNKNCLSTFREE))"
    by blast
  then show ?thesis
  proof cases
    case count32
    let ?f = "\<lambda>d. d\<lparr>dpb_xnfreeclst := dpb_xnfreeclst d + word_of_int ?adj\<rparr>"
    let ?e2 = "upd_dpb p ?f ?e1"
    have g: "same_geometry (dpbs ?e1 p) (?f (dpbs ?e1 p))" by (simp add: same_geometry_def)
    note s = same_fat_upd_dpb [where f = ?f, OF ok g]
    have "kind_of (dpbs ?e2 p) = Fat32"
      using count32(2) fat_layoutD(2) [OF fat_okD(2) [OF s(1)]] by (simp add: upd_dpb_def ISFAT32_def)
    then obtain e' where w: "write_fsinfo drv p ?e2 = Some e'" "fat_ok sec L nsec p e'" "dpbs e' = dpbs ?e2" "same_fat sec L p ?e2 e'"
      using write_fsinfo_ok [OF rel s(1)] by blast
    have "link_done drv p b c2 wasfree e = Some (0, e')"
      using count32 w(1) by (simp add: link_done_def Let_def)
    moreover have "dpbs e' p = count_free c2 wasfree ?d" using w(3) count32 by (simp add: upd_dpb_def count_free_def)
    ultimately show ?thesis using w(2) same_fat_trans [OF s(2) w(4)] by blast
  next
    case count16
    let ?f = "\<lambda>d. set_nfreeclst (dpb_nfreeclst d + word_of_int ?adj) d"
    have g: "same_geometry (dpbs ?e1 p) (?f (dpbs ?e1 p))" by (simp add: same_geometry_def set_nfreeclst_def)
    have "link_done drv p b c2 wasfree e = Some (0, upd_dpb p ?f ?e1)"
      unfolding link_done_def Let_def d if_P [OF count16(1)] if_not_P [OF count16(2)] if_P [OF count16(3)] by (rule refl)
    moreover have "dpbs (upd_dpb p ?f ?e1) p = count_free c2 wasfree ?d"
      unfolding count_free_def Let_def if_P [OF count16(1)] if_not_P [OF count16(2)] if_P [OF count16(3)]
      by (simp add: upd_dpb_def)
    ultimately show ?thesis using same_fat_upd_dpb [where f = ?f, OF ok g] by blast
  next
    case none
    have "link_done drv p b c2 wasfree e = Some (0, ?e1) \<and> count_free c2 wasfree ?d = ?d"
    proof (cases "c2 = FREE \<or> wasfree")
      case True
      then have n: "\<not> (ISFAT32 ?d \<and> dpb_xnfreeclst ?d \<noteq> XUNKNCLSTFREE)" "\<not> dpb_nfreeclst ?d \<noteq> UNKNCLSTFREE"
        using none by blast+
      show ?thesis
        unfolding link_done_def count_free_def Let_def d if_P [OF True] if_not_P [OF n(1)] if_not_P [OF n(2)] by simp
    next
      case False
      show ?thesis unfolding link_done_def count_free_def Let_def d if_not_P [OF False] by simp
    qed
    then show ?thesis using ok by (intro exI [of _ ?e1]) simp
  qed
qed

end
