(* ===== verification/Fat_Chain.thy ===== *)
theory Fat_Chain
  imports Fat_Fs Fat_Write
begin

text \<open>
  The FAT of a drive as the file system uses it: an interface of entry reads, entry writes and
  parameter block updates, and what the operations on chains do to the entries, proved from the
  interface alone.
\<close>

section \<open>Chains\<close>

text \<open>\<open>chain f m c cs\<close>: from \<open>c\<close> on, the entries \<open>f\<close> lead through the clusters \<open>cs\<close> to the end mark.\<close>

fun chain :: "(u32 \<Rightarrow> u32) \<Rightarrow> u32 \<Rightarrow> u32 \<Rightarrow> u32 list \<Rightarrow> bool" where
  "chain f m c [] \<longleftrightarrow> c = LONG_LAST_CLUSTER"
| "chain f m c (x # xs) \<longleftrightarrow> c = x \<and> 2 \<le> x \<and> x \<le> m \<and> chain f m (f x) xs"

definition follow :: "(u32 \<Rightarrow> u32) \<Rightarrow> u32 \<Rightarrow> u32 \<Rightarrow> u32" where
  "follow f m c =
     (let v = f c
      in if v < 2 \<or> v \<ge> LONG_BAD then v
         else if v > m then 1
         else if f v < 2 \<or> (f v < LONG_BAD \<and> f v > m) then 1
         else v)"

lemma chain_clusters: "chain f m c cs \<Longrightarrow> x \<in> set cs \<Longrightarrow> 2 \<le> x \<and> x \<le> m"
  by (induction cs arbitrary: c) auto

lemma last_not_cluster: "m < LONG_BAD \<Longrightarrow> x \<le> m \<Longrightarrow> x \<noteq> LONG_LAST_CLUSTER"
  by (auto simp: fat_consts word_le_nat_alt word_less_nat_alt)

lemma chain_unique: "m < LONG_BAD \<Longrightarrow> chain f m c cs \<Longrightarrow> chain f m c ds \<Longrightarrow> cs = ds"
proof (induction cs arbitrary: c ds)
  case Nil
  then show ?case using last_not_cluster by (cases ds) auto
next
  case (Cons x xs)
  then show ?case using last_not_cluster by (cases ds) auto
qed

lemma chain_suffix: "chain f m c (xs @ y # ys) \<Longrightarrow> chain f m y (y # ys)"
  by (induction xs arbitrary: c) auto

lemma chain_distinct:
  assumes "m < LONG_BAD" "chain f m c cs"
  shows "distinct cs"
proof (rule ccontr)
  assume "\<not> distinct cs"
  then obtain y xs ys zs where "cs = xs @ [y] @ ys @ [y] @ zs" using not_distinct_decomp by blast
  then have "chain f m c (xs @ y # ys @ y # zs)" "chain f m c ((xs @ y # ys) @ y # zs)" using assms(2) by simp_all
  then have "y # ys @ y # zs = y # zs" using chain_unique [OF assms(1)] chain_suffix by meson
  then show False by simp
qed

lemma chain_cong: "chain f m c cs \<Longrightarrow> (\<And>x. x \<in> set cs \<Longrightarrow> g x = f x) \<Longrightarrow> chain g m c cs"
  by (induction cs arbitrary: c) auto

lemma chain_entry:
  assumes "chain f m c cs" "m < LONG_BAD"
  shows "c = LONG_LAST_CLUSTER \<or> (2 \<le> c \<and> c \<le> m)"
  using assms by (cases cs) auto

lemma follow_chain:
  assumes "m < LONG_BAD" "chain f m c (x # xs)"
  shows "follow f m x = f x" "chain f m (f x) xs" "2 \<le> f x"
proof -
  show c: "chain f m (f x) xs" using assms(2) by simp
  show v: "2 \<le> f x" using chain_entry [OF c assms(1)] by (auto simp: fat_consts word_le_nat_alt)
  show "follow f m x = f x"
  proof (cases xs)
    case Nil
    then show ?thesis using c by (simp add: follow_def fat_consts)
  next
    case (Cons y ys)
    then have y: "f x = y" "2 \<le> y" "y \<le> m" "chain f m (f y) ys" using c by auto
    have "\<not> f y < 2" "\<not> (f y < LONG_BAD \<and> f y > m)"
      using chain_entry [OF y(4) assms(1)] by (auto simp: fat_consts word_le_nat_alt word_less_nat_alt not_less)
    moreover have "\<not> y < 2" "\<not> y > m" using y by (simp_all add: not_less)
    ultimately show ?thesis using y(1) by (auto simp: follow_def Let_def)
  qed
qed

section \<open>The interface\<close>

locale fat_store =
  fixes drv :: "'d blk_driver" and p :: nat
    and good :: "'d io \<Rightarrow> bool" and ent :: "'d io \<Rightarrow> u32 \<Rightarrow> u32" and keep :: "'d io \<Rightarrow> 'd io \<Rightarrow> bool"
  assumes keep_refl: "keep e e"
    and keep_trans: "keep e e1 \<Longrightarrow> keep e1 e2 \<Longrightarrow> keep e e2"
    and keep_geometry: "keep e e' \<Longrightarrow> max_cluster (dpbs e' p) = max_cluster (dpbs e p) \<and> ISFAT32 (dpbs e' p) = ISFAT32 (dpbs e p)
       \<and> same_geometry (dpbs e p) (dpbs e' p)"
    and small: "good e \<Longrightarrow> max_cluster (dpbs e p) < (if ISFAT32 (dpbs e p) then LONG_BAD else 0x10000)"
    and reads: "good e \<Longrightarrow> 2 \<le> c \<Longrightarrow> c \<le> max_cluster (dpbs e p) \<Longrightarrow>
       \<exists>e'. link_fat drv p c READ_CLUSTER e = Some (ent e c, e') \<and> good e' \<and> keep e e' \<and> ent e' = ent e \<and> dpbs e' = dpbs e"
    and follows: "good e \<Longrightarrow> 2 \<le> c \<Longrightarrow> c \<le> max_cluster (dpbs e p) \<Longrightarrow>
       \<exists>e'. next_cluster drv p c e = Some (follow (ent e) (max_cluster (dpbs e p)) c, e') \<and> good e' \<and> keep e e'
         \<and> ent e' = ent e \<and> dpbs e' = dpbs e"
    and writes: "good e \<Longrightarrow> 2 \<le> c \<Longrightarrow> c \<le> max_cluster (dpbs e p) \<Longrightarrow> fat_value (dpbs e p) v \<Longrightarrow>
       \<exists>e'. link_fat drv p c v e = Some (0, e') \<and> good e' \<and> keep e e' \<and> ent e' = (ent e)(c := v)
         \<and> dpbs e' p = count_free v (ent e c = FREE) (dpbs e p)"
    and messages: "good e \<Longrightarrow> good (clusterMessage t c e) \<and> keep e (clusterMessage t c e) \<and> ent (clusterMessage t c e) = ent e"
    and updates: "good e \<Longrightarrow> same_geometry (dpbs e p) (f (dpbs e p)) \<Longrightarrow>
       good (upd_dpb p f e) \<and> keep e (upd_dpb p f e) \<and> ent (upd_dpb p f e) = ent e"
    and fsinfo: "good e \<Longrightarrow> ISFAT32 (dpbs e p) \<Longrightarrow>
       \<exists>e'. write_fsinfo drv p e = Some e' \<and> good e' \<and> keep e e' \<and> ent e' = ent e \<and> dpbs e' = dpbs e"
    and flushes: "good e \<Longrightarrow>
       \<exists>e'. flush_buffers drv (dpb_unit (dpbs e p)) e = Some (True, e') \<and> good e' \<and> keep e e' \<and> ent e' = ent e \<and> dpbs e' = dpbs e"
begin

lemma below_bad: "good e \<Longrightarrow> max_cluster (dpbs e p) < LONG_BAD"
  using small [of e] by (auto simp: LONG_BAD_def word_less_nat_alt split: if_splits)

lemma end_not_cluster: "good e \<Longrightarrow> c \<le> max_cluster (dpbs e p) \<Longrightarrow> c \<noteq> LONG_LAST_CLUSTER"
  using last_not_cluster below_bad by blast

end

end
