(* ===== verification/Fat_Link.thy ===== *)
theory Fat_Link
  imports Fat_Write
begin

text \<open>
  \<^verbatim>\<open>link_fat\<close> as a write: the three FAT types put together, and the interface the file system
  uses.
\<close>

section \<open>Bytes in a sector\<close>

lemma nth_store:
  assumes "length buf = 512" "i mod 512 + j < 512" "i' div 512 = i div 512"
  shows "buf[i mod 512 + j := v] ! (i' mod 512) = (if i' = i + j then v else buf ! (i' mod 512))"
proof -
  note o = sector_offset [OF assms(2)]
  have "i' mod 512 = i mod 512 + j \<longleftrightarrow> i' = i + j"
  proof
    assume "i' mod 512 = i mod 512 + j"
    then have "i' div 512 = (i + j) div 512" "i' mod 512 = (i + j) mod 512" using o assms(3) by simp_all
    then show "i' = i + j" by (metis div_mult_mod_eq)
  qed (use o in simp)
  then show ?thesis using assms by (auto simp: nth_list_update)
qed

lemma flag_dirty_id: "bit fl 5 \<Longrightarrow> bit fl 6 \<Longrightarrow> fl OR (BFR_DIRTY OR BFR_VALID) = (fl :: u8)"
proof -
  assume a: "bit fl 5" "bit fl 6"
  have "n = 5 \<or> n = 6" if "bit (0x60 :: u8) n" "n < 8" for n
  proof -
    have "n \<in> {0, 1, 2, 3, 4, 5, 6, 7}" using that(2) by auto
    then show ?thesis using that(1) by auto
  qed
  then show ?thesis using a by (intro bit_word_eqI) (auto simp: bfr_flags bit_or_iff)
qed

lemma upd_buf_twice: "upd_buf p f (upd_buf p g e) = upd_buf p (\<lambda>x. f (g x)) e"
  by (simp add: upd_buf_def)

lemma upd_buf_swap: "p \<noteq> q \<Longrightarrow> upd_buf p f (upd_buf q g e) = upd_buf q g (upd_buf p f e)"
  by (simp add: upd_buf_def fun_upd_twist)

section \<open>The write as a whole\<close>

definition fat_area :: "dpb \<Rightarrow> nat \<Rightarrow> (u8 \<times> u32) set" where
  "fat_area d nsec = fat_sector d ` {..<nsec}"

text \<open>What a write of the value \<open>c2\<close> to the entry of \<open>c\<close> does.\<close>

definition fat_written :: "'d sectors \<Rightarrow> (u8 \<times> u32) set \<Rightarrow> nat \<Rightarrow> nat \<Rightarrow> u32 \<Rightarrow> u32 \<Rightarrow> 'd io \<Rightarrow> 'd io \<Rightarrow> bool" where
  "fat_written sec L nsec p c c2 e e' \<longleftrightarrow> fat_ok sec L nsec p e'
     \<and> (\<forall>c'. c' \<le> max_cluster (dpbs e p) \<longrightarrow> fat sec p e' c' = (if c' = c then c2 else fat sec p e c'))
     \<and> dpbs e' p = count_free c2 (fat sec p e c = FREE) (dpbs e p) \<and> (\<forall>q. q \<noteq> p \<longrightarrow> dpbs e' q = dpbs e q)
     \<and> (\<forall>y \<in> L. y \<notin> fat_area (dpbs e p) nsec \<longrightarrow> y \<notin> fs_area (dpbs e p) \<longrightarrow> cview sec e' (fst y) (snd y) = cview sec e (fst y) (snd y))"

lemma fat_writtenI:
  assumes rel: "reliable drv sec" and ok: "fat_ok sec L nsec p e" and c: "c \<le> max_cluster (dpbs e p)" and v: "fat_value (dpbs e p) c2"
    and e1: "same_env e e1" "same_views sec L e e1"
    and e3: "e3 = upd_buf b (\<lambda>x. x\<lparr>b_flag := b_flag x OR (BFR_DIRTY OR BFR_VALID)\<rparr>) e2"
    and e2: "fat_ok sec L nsec p e3" "dpbs e2 = dpbs e"
    and bytes: "\<And>i. i < 512 * nsec \<Longrightarrow> fat_byte sec p e3 i = put_entry (kind_of (dpbs e p)) c c2 (fat_byte sec p e1) i"
    and rest: "\<And>y. y \<in> L \<Longrightarrow> y \<notin> fat_area (dpbs e p) nsec \<Longrightarrow> cview sec e3 (fst y) (snd y) = cview sec e1 (fst y) (snd y)"
    and free: "wasfree \<longleftrightarrow> fat sec p e1 c = FREE"
  shows "\<exists>e'. link_done drv p b c2 wasfree e2 = Some (0, e') \<and> fat_written sec L nsec p c c2 e e'"
proof -
  let ?d = "dpbs e p"
  note lay = fat_okD(2) [OF ok]
  obtain e' where l: "link_done drv p b c2 wasfree e2 = Some (0, e')" "fat_ok sec L nsec p e'" "same_fat sec L p e3 e'"
     "dpbs e' p = count_free c2 wasfree (dpbs e2 p)" using link_done_ok [OF rel e2(1) [unfolded e3]] e3 by blast
  have d: "dpbs e3 = dpbs e" "dpbs e1 = dpbs e" using e2(2) e1(1) e3 by (simp_all add: same_env_def)
  have "fat sec p e' c' = (if c' = c then c2 else fat sec p e c')" if c': "c' \<le> max_cluster ?d" for c'
  proof -
    have "fat sec p e' c' = fat sec p e3 c'" by (rule same_fat_fat [OF e2(1) l(3)]) (use c' d in simp)
    also have "\<dots> = byte_entry (kind_of ?d) (put_entry (kind_of ?d) c c2 (fat_byte sec p e1)) c'"
      unfolding fat_def d by (rule byte_entry_cong, rule bytes) (use entry_in_range [OF lay c'] in linarith)
    also have "\<dots> = (if c' = c then c2 else fat sec p e1 c')" using put_entry_ok [OF lay v] d by (simp add: fat_def)
    finally show ?thesis using fat_same [OF lay e1(2) _ c'] d by simp
  qed
  moreover have "fat sec p e1 c = fat sec p e c" by (rule fat_same [OF lay e1(2) _ c]) (simp add: d)
  moreover have "cview sec e' (fst y) (snd y) = cview sec e (fst y) (snd y)"
    if y: "y \<in> L" "y \<notin> fat_area ?d nsec" "y \<notin> fs_area ?d" for y
    using same_fatD(3) [OF l(3) y(1)] y(3) d rest [OF y(1,2)] e1(2) y(1) by (simp add: same_views_def)
  moreover have "dpbs e' q = dpbs e q" if "q \<noteq> p" for q using same_fatD(2) [OF l(3) that] d by simp
  ultimately show ?thesis using l(1,2,4) e2(2) free unfolding fat_written_def by auto
qed

lemma in_fat_area: "s < nsec \<Longrightarrow> fat_sector d s \<in> fat_area d nsec"
  by (simp add: fat_area_def)

text \<open>FAT16 and FAT32: the entry lies in one sector.\<close>

lemma link16_ok:
  assumes rel: "reliable drv sec" and ok: "fat_ok sec L nsec p e" and c: "c \<le> max_cluster (dpbs e p)" and v: "fat_value (dpbs e p) c2"
    and e1: "same_env e e1" "same_views sec L e e1" "fat_ok sec L nsec p e1" and k: "kind_of (dpbs e p) = Fat16"
    and i: "i = entry_start Fat16 (unat c)" "i div 512 < nsec" and b: "fat_buffer p (i div 512) b e1" and nr: "\<not> is_read c2"
    and ix: "idx * 2 = i mod 512"
  shows "\<exists>e'. link16 drv p b idx c2 e1 = Some (0, e') \<and> fat_written sec L nsec p c c2 e e'"
proof -
  let ?buf = "b_buffer (bufs e1 b)"
  let ?data = "fputword ?buf (i mod 512) (ucast c2)"
  let ?put = "\<lambda>x. x\<lparr>b_buffer := fputword (b_buffer x) (i mod 512) (ucast c2)\<rparr>"
  let ?flag = "\<lambda>x. x\<lparr>b_flag := b_flag x OR (BFR_DIRTY OR BFR_VALID)\<rparr>"
  let ?e2 = "upd_buf b (\<lambda>x. ?flag (?put x)) e1"
  have i1: "cinv sec L e1" by (rule fat_okD(1) [OF e1(3)])
  have len: "length ?buf = 512" by (rule fat_buffer_length [OF i1 b])
  have d: "dpbs e1 = dpbs e" using e1(1) by (simp add: same_env_def)
  have gap: "i mod 512 + 1 < 512" by (rule aligned_gap) (simp add: i(1) entry_start_def)
  have ld: "length ?data = 512" using len by (simp add: fputword_def)
  have f: "?flag (?put (bufs e1 b)) = (bufs e1 b)\<lparr>b_buffer := ?data, b_flag := b_flag (bufs e1 b) OR (BFR_DIRTY OR BFR_VALID)\<rparr>"
    by simp
  note s = fat_store [where f = "\<lambda>x. ?flag (?put x)", OF e1(3) b i(2) ld f]
  have byte: "?buf ! (i mod 512 + j) = fat_byte sec p e1 (i + j)" if "i mod 512 + j < 512" for j
    using fat_buffer_byte [OF i1 b sector_offset(1) [OF that]] sector_offset(2) [OF that] by simp
  have data: "?data ! (i' mod 512) = (if i' = i then lo8 (ucast c2) else if i' = i + 1 then hi8 (ucast c2) else ?buf ! (i' mod 512))"
    if "i' div 512 = i div 512" for i'
    using nth_store [OF _ gap that, of "?buf[i mod 512 := lo8 (ucast c2)]" "hi8 (ucast c2)"]
      nth_store [of ?buf i 0 i' "lo8 (ucast c2)"] len that by (simp add: fputword_def)
  have "fat_byte sec p ?e2 i' = put_entry Fat16 c c2 (fat_byte sec p e1) i'" if i': "i' < 512 * nsec" for i'
  proof -
    have "fat_byte sec p e1 i' = ?buf ! (i' mod 512)" if "i' div 512 = i div 512"
      using fat_buffer_byte [OF i1 b that] by simp
    moreover have "i' \<noteq> i" "i' \<noteq> i + 1" if "i' div 512 \<noteq> i div 512"
      using that sector_offset(1) [OF gap] by auto
    ultimately show ?thesis using s(4) [OF i'] data by (auto simp: put_entry_def i(1) [symmetric] Let_def)
  qed
  moreover have "cview sec ?e2 (fst y) (snd y) = cview sec e1 (fst y) (snd y)" if "y \<in> L" "y \<notin> fat_area (dpbs e p) nsec" for y
    using s(5) [OF that(1)] that(2) in_fat_area [OF i(2), of "dpbs e p"] d by auto
  moreover have "fat sec p e1 c = decode16 (fgetword ?buf (i mod 512))"
    using byte [of 0] byte [of 1] gap k d by (simp add: fat_def byte_entry_def fgetword_def i(1) [symmetric] Let_def)
  then have "fgetword ?buf (i mod 512) = ucast FREE \<longleftrightarrow> fat sec p e1 c = FREE"
    by (simp add: decode16_def fat_consts unat_eq_iff) (simp add: word_le_nat_alt)
  ultimately have "\<exists>e'. link_done drv p b c2 (fgetword ?buf (i mod 512) = ucast FREE) (upd_buf b ?put e1) = Some (0, e')
      \<and> fat_written sec L nsec p c c2 e e'"
    by (intro fat_writtenI [where ?e3.0 = ?e2, OF rel ok c v e1(1,2)]) (use s(1) d k in \<open>simp_all add: upd_buf_twice\<close>)
  then show ?thesis using nr ix by (simp add: link16_def Let_def)
qed


lemma fputlong_nth:
  assumes len: "length buf = 512" and gap: "i mod 512 + 3 < 512" and s: "i' div 512 = i div 512"
  shows "fputlong buf (i mod 512) w ! (i' mod 512) =
    (if i' = i then lo8 (ucast w) else if i' = i + 1 then hi8 (ucast w)
     else if i' = i + 2 then lo8 (ucast (drop_bit 16 w)) else if i' = i + 3 then hi8 (ucast (drop_bit 16 w))
     else buf ! (i' mod 512))"
proof -
  define b1 where "b1 = buf[i mod 512 := lo8 (ucast w)]"
  define b2 where "b2 = b1[i mod 512 + 1 := hi8 (ucast w)]"
  define b3 where "b3 = b2[i mod 512 + 2 := lo8 (ucast (drop_bit 16 w))]"
  have l: "length b1 = 512" "length b2 = 512" "length b3 = 512" using len by (simp_all add: b1_def b2_def b3_def)
  have "fputlong buf (i mod 512) w = b3[i mod 512 + 3 := hi8 (ucast (drop_bit 16 w))]"
    by (simp add: fputlong_def fputword_def numeral_3_eq_3 b1_def b2_def b3_def)
  moreover have "b1 ! (i' mod 512) = (if i' = i + 0 then lo8 (ucast w) else buf ! (i' mod 512))"
    unfolding b1_def using nth_store [of buf i 0 i'] len gap s by simp
  moreover have "b2 ! (i' mod 512) = (if i' = i + 1 then hi8 (ucast w) else b1 ! (i' mod 512))"
    unfolding b2_def by (rule nth_store [OF l(1) _ s]) (use gap in simp)
  moreover have "b3 ! (i' mod 512) = (if i' = i + 2 then lo8 (ucast (drop_bit 16 w)) else b2 ! (i' mod 512))"
    unfolding b3_def by (rule nth_store [OF l(2) _ s]) (use gap in simp)
  moreover have "b3[i mod 512 + 3 := hi8 (ucast (drop_bit 16 w))] ! (i' mod 512)
      = (if i' = i + 3 then hi8 (ucast (drop_bit 16 w)) else b3 ! (i' mod 512))"
    by (rule nth_store [OF l(3) gap s])
  ultimately show ?thesis by auto
qed

lemma link32_ok:
  assumes rel: "reliable drv sec" and ok: "fat_ok sec L nsec p e" and c: "c \<le> max_cluster (dpbs e p)" and v: "fat_value (dpbs e p) c2"
    and e1: "same_env e e1" "same_views sec L e e1" "fat_ok sec L nsec p e1" and k: "kind_of (dpbs e p) = Fat32"
    and i: "i = entry_start Fat32 (unat c)" "i div 512 < nsec" and b: "fat_buffer p (i div 512) b e1" and nr: "c2 \<noteq> READ_CLUSTER"
    and ix: "idx * 4 = i mod 512"
  shows "\<exists>e'. link32 drv p b idx c2 e1 = Some (0, e') \<and> fat_written sec L nsec p c c2 e e'"
proof -
  let ?buf = "b_buffer (bufs e1 b)"
  let ?v = "c2 AND LONG_LAST_CLUSTER"
  let ?data = "fputlong ?buf (i mod 512) ?v"
  let ?put = "\<lambda>x. x\<lparr>b_buffer := fputlong (b_buffer x) (i mod 512) ?v\<rparr>"
  let ?flag = "\<lambda>x. x\<lparr>b_flag := b_flag x OR (BFR_DIRTY OR BFR_VALID)\<rparr>"
  let ?e2 = "upd_buf b (\<lambda>x. ?flag (?put x)) e1"
  have i1: "cinv sec L e1" by (rule fat_okD(1) [OF e1(3)])
  have len: "length ?buf = 512" by (rule fat_buffer_length [OF i1 b])
  have d: "dpbs e1 = dpbs e" using e1(1) by (simp add: same_env_def)
  have gap: "i mod 512 + 3 < 512" by (rule aligned_gap) (simp add: i(1) entry_start_def)
  have ld: "length ?data = 512" using len by simp
  have f: "?flag (?put (bufs e1 b)) = (bufs e1 b)\<lparr>b_buffer := ?data, b_flag := b_flag (bufs e1 b) OR (BFR_DIRTY OR BFR_VALID)\<rparr>"
    by simp
  note s = fat_store [where f = "\<lambda>x. ?flag (?put x)", OF e1(3) b i(2) ld f]
  have byte: "?buf ! (i mod 512 + j) = fat_byte sec p e1 (i + j)" if "j \<le> 3" for j
  proof -
    have "i mod 512 + j < 512" using gap that by linarith
    then show ?thesis using fat_buffer_byte [OF i1 b sector_offset(1)] sector_offset(2) by metis
  qed
  have "fat_byte sec p ?e2 i' = put_entry Fat32 c c2 (fat_byte sec p e1) i'" if i': "i' < 512 * nsec" for i'
  proof (cases "i' div 512 = i div 512")
    case True
    have "fat_byte sec p e1 i' = ?buf ! (i' mod 512)" using fat_buffer_byte [OF i1 b True] by simp
    then show ?thesis using s(4) [OF i'] True fputlong_nth [OF len gap True, of ?v]
      by (simp add: put_entry_def i(1) [symmetric] Let_def del: drop_bit_and)
  next
    case False
    have "i' \<noteq> i + j" if "j \<le> 3" for j
    proof -
      have "i mod 512 + j < 512" using gap that by linarith
      then show ?thesis using sector_offset(1) False by metis
    qed
    from this [of 0] this [of 1] this [of 2] this [of 3] show ?thesis
      using s(4) [OF i'] False by (simp add: put_entry_def i(1) [symmetric] Let_def del: drop_bit_and)
  qed
  moreover have "cview sec ?e2 (fst y) (snd y) = cview sec e1 (fst y) (snd y)" if "y \<in> L" "y \<notin> fat_area (dpbs e p) nsec" for y
    using s(5) [OF that(1)] that(2) in_fat_area [OF i(2), of "dpbs e p"] d by auto
  moreover have "fat sec p e1 c = decode32 (fgetlong ?buf (i mod 512) AND LONG_LAST_CLUSTER)"
    using byte [of 0] byte [of 1] byte [of 2] byte [of 3] k d
    by (simp add: fat_def byte_entry_def fgetlong_def fgetword_def i(1) [symmetric] Let_def numeral_3_eq_3)
  then have "fgetlong ?buf (i mod 512) AND LONG_LAST_CLUSTER = FREE \<longleftrightarrow> fat sec p e1 c = FREE"
    by (auto simp: decode32_def fat_consts)
  ultimately have "\<exists>e'. link_done drv p b c2 (fgetlong ?buf (i mod 512) AND LONG_LAST_CLUSTER = FREE) (upd_buf b ?put e1) = Some (0, e')
      \<and> fat_written sec L nsec p c c2 e e'"
    by (intro fat_writtenI [where ?e3.0 = ?e2, OF rel ok c v e1(1,2)]) (use s(1) d k in \<open>simp_all add: upd_buf_twice\<close>)
  then show ?thesis using nr ix by (simp add: link32_def Let_def)
qed

text \<open>FAT12: the two bytes of the entry may lie in two sectors.\<close>

lemma link12_ok:
  assumes rel: "reliable drv sec" and ok: "fat_ok sec L nsec p e" and c: "c \<le> max_cluster (dpbs e p)" and v: "fat_value (dpbs e p) c2"
    and e1: "same_env e e1" "same_views sec L e e1" "fat_ok sec L nsec p e1" and k: "kind_of (dpbs e p) = Fat12"
    and i: "i = entry_start Fat12 (unat c)" "i div 512 < nsec" and b: "b = hd (order e1)" "fat_buffer p (i div 512) b e1"
    and nr: "\<not> is_read c2"
  shows "\<exists>e'. link12 drv p b (i mod 512) (fat_base (dpbs e p) + of_nat (i div 512)) c c2 e1 = Some (0, e')
     \<and> fat_written sec L nsec p c c2 e e'"
proof -
  let ?d = "dpbs e p"
  have d1: "dpbs e1 = dpbs e" using e1(1) by (simp add: same_env_def)
  have k1: "kind_of (dpbs e1 p) = Fat12" using k d1 by simp
  have i2: "i + 1 < 512 * nsec"
    using entry_in_range [OF fat_okD(2) [OF ok] c] k by (simp add: entry_end_def i(1) entry_start_def)
  have n2: "(i + 1) div 512 < nsec" using i2 by (simp only: less_mult_imp_div_less mult.commute)
  have nread: "c2 \<noteq> READ_CLUSTER" using nr by (auto simp: is_read_def)
  obtain b1 i1 e2 where s: "second_byte drv p b (i mod 512) (fat_base ?d + of_nat (i div 512)) c2 e1 = Some (Some (b1, i1), e2)"
     "fat_ok sec L nsec p e2" "same_env e1 e2" "same_views sec L e1 e2"
     "fat_buffer p (i div 512) b e2" "fat_buffer p ((i + 1) div 512) b1 e2" "i1 = (i + 1) mod 512"
     "b1 = b \<longleftrightarrow> (i + 1) div 512 = i div 512" "b1 \<noteq> b \<longrightarrow> bit (b_flag (bufs e2 b1)) 6"
    using second_byte_ok [OF rel e1(3) k1 b refl refl i2, of c2] d1 nread by auto
  have inv: "cinv sec L e2" by (rule fat_okD(1) [OF s(2)])
  have d: "dpbs e2 = dpbs e" using s(3) d1 by (simp add: same_env_def)
  have env: "same_env e e2" "same_views sec L e e2"
    using same_env_trans [OF e1(1) s(3)] same_views_trans [OF e1(2) s(4)] by blast+
  have bytes: "b_buffer (bufs e2 b) ! (i mod 512) = fat_byte sec p e2 i" "b_buffer (bufs e2 b1) ! i1 = fat_byte sec p e2 (i + 1)"
    using fat_buffer_byte [OF inv s(5) refl] fat_buffer_byte [OF inv s(6) refl] s(7) by simp_all
  let ?w = "mk16 (fat_byte sec p e2 i) (fat_byte sec p e2 (i + 1))"
  let ?w1 = "pack12 c c2 ?w"
  let ?flag = "\<lambda>x. x\<lparr>b_flag := b_flag x OR (BFR_DIRTY OR BFR_VALID)\<rparr>"
  let ?lo = "\<lambda>x. x\<lparr>b_buffer := (b_buffer x)[i mod 512 := lo8 ?w1]\<rparr>"
  let ?hi = "\<lambda>x. x\<lparr>b_buffer := (b_buffer x)[i1 := hi8 ?w1]\<rparr>"
  define e3 where "e3 = put_byte b1 i1 (hi8 ?w1) (put_byte b (i mod 512) (lo8 ?w1) e2)"
  define e4 where "e4 = upd_buf b ?flag e3"
  have len: "length (b_buffer (bufs e2 b)) = 512" "length (b_buffer (bufs e2 b1)) = 512"
    using fat_buffer_length [OF inv] s(5,6) by blast+
  have free: "unpack12 c ?w = ucast FREE \<longleftrightarrow> fat sec p e2 c = FREE"
  proof -
    have "fat sec p e2 c = decode12 (unpack12 c ?w)"
      using k d by (simp add: fat_def byte_entry_def i(1) [symmetric] Let_def)
    then show ?thesis by (simp add: decode12_def fat_consts unat_eq_iff) (simp add: word_le_nat_alt)
  qed
  have put: "put_entry Fat12 c c2 (fat_byte sec p e2) i' =
      (if i' = i + 1 then hi8 ?w1 else if i' = i then lo8 ?w1 else fat_byte sec p e2 i')" for i'
    by (simp add: put_entry_def i(1) [symmetric] Let_def)
  have main: "fat_ok sec L nsec p e4
     \<and> (\<forall>i' < 512 * nsec. fat_byte sec p e4 i' = put_entry Fat12 c c2 (fat_byte sec p e2) i')
     \<and> (\<forall>y \<in> L. y \<notin> fat_area ?d nsec \<longrightarrow> cview sec e4 (fst y) (snd y) = cview sec e2 (fst y) (snd y))"
  proof (cases "b1 = b")
    case True
    then have same: "(i + 1) div 512 = i div 512" using s(8) by simp
    have gap: "i mod 512 + 1 < 512"
    proof (rule ccontr)
      assume "\<not> i mod 512 + 1 < 512"
      moreover have "i mod 512 < 512" by simp
      ultimately have "i mod 512 = 511" by linarith
      then have "i = 512 * (i div 512) + 511" using mult_div_mod_eq [of 512 i] by simp
      then have "(i + 1) div 512 = (512 * (i div 512) + 512) div 512" by simp
      then show False using same by simp
    qed
    have i1: "i1 = i mod 512 + 1" using s(7) sector_offset(2) [OF gap] by simp
    let ?f = "\<lambda>x. ?flag (?hi (?lo x))"
    let ?data = "(b_buffer (bufs e2 b))[i mod 512 := lo8 ?w1, i1 := hi8 ?w1]"
    have e4: "e4 = upd_buf b ?f e2" by (simp add: e4_def e3_def put_byte_def True upd_buf_twice)
    have f: "?f (bufs e2 b) = (bufs e2 b)\<lparr>b_buffer := ?data, b_flag := b_flag (bufs e2 b) OR (BFR_DIRTY OR BFR_VALID)\<rparr>" by simp
    have ld: "length ?data = 512" using len by simp
    note st = fat_store [where f = ?f, OF s(2,5) i(2) ld f, folded e4]
    have "fat_byte sec p e4 i' = put_entry Fat12 c c2 (fat_byte sec p e2) i'" if i': "i' < 512 * nsec" for i'
    proof (cases "i' div 512 = i div 512")
      case True
      have "?data ! (i' mod 512) = (if i' = i + 1 then hi8 ?w1 else if i' = i then lo8 ?w1 else b_buffer (bufs e2 b) ! (i' mod 512))"
        using nth_store [OF _ gap True, of "(b_buffer (bufs e2 b))[i mod 512 := lo8 ?w1]" "hi8 ?w1"]
          nth_store [of "b_buffer (bufs e2 b)" i 0 i' "lo8 ?w1"] len True by (simp add: i1)
      then show ?thesis using st(4) [OF i'] True put fat_buffer_byte [OF inv s(5) True] by simp
    next
      case False
      then have "i' \<noteq> i" "i' \<noteq> i + 1" using same by auto
      then show ?thesis using st(4) [OF i'] False put by simp
    qed
    moreover have "cview sec e4 (fst y) (snd y) = cview sec e2 (fst y) (snd y)" if "y \<in> L" "y \<notin> fat_area ?d nsec" for y
      using st(5) [OF that(1)] that(2) in_fat_area [OF i(2), of ?d] d by auto
    ultimately show ?thesis using st(1) by blast
  next
    case False
    then have i1: "i1 = 0" and nx: "(i + 1) div 512 \<noteq> i div 512"
      using s(7,8) by (auto simp: mod_Suc div_Suc split: if_splits)
    have i1': "(i + 1) mod 512 = 0" using i1 s(7) by simp
    let ?f1 = "?hi" and ?f2 = "\<lambda>x. ?flag (?lo x)"
    have e4: "e4 = upd_buf b ?f2 (upd_buf b1 ?f1 e2)"
      using False by (simp add: e4_def e3_def put_byte_def upd_buf_twice upd_buf_swap [of b1 b])
    let ?d1 = "(b_buffer (bufs e2 b1))[i1 := hi8 ?w1]" and ?d2 = "(b_buffer (bufs e2 b))[i mod 512 := lo8 ?w1]"
    have "bit (b_flag (bufs e2 b1)) 5" using s(6) by (simp add: fat_buffer_def holds_block_bits)
    then have fl: "b_flag (bufs e2 b1) OR (BFR_DIRTY OR BFR_VALID) = b_flag (bufs e2 b1)"
      using s(9) False flag_dirty_id by blast
    have f1: "?f1 (bufs e2 b1) = (bufs e2 b1)\<lparr>b_buffer := ?d1, b_flag := b_flag (bufs e2 b1) OR (BFR_DIRTY OR BFR_VALID)\<rparr>"
      unfolding fl by simp
    have ld1: "length ?d1 = 512" using len by simp
    define e5 where "e5 = upd_buf b1 ?f1 e2"
    note st1 = fat_store [where f = ?f1, OF s(2,6) n2 ld1 f1, folded e5_def]
    have bb: "bufs e5 b = bufs e2 b" using False by (simp add: e5_def)
    have f2: "?f2 (bufs e5 b) = (bufs e5 b)\<lparr>b_buffer := ?d2, b_flag := b_flag (bufs e5 b) OR (BFR_DIRTY OR BFR_VALID)\<rparr>"
      by (simp add: bb)
    have ld2: "length ?d2 = 512" using len by simp
    note st2 = fat_store [where f = ?f2, OF st1(1) st1(3) [OF s(5)] i(2) ld2 f2]
    have e4': "e4 = upd_buf b ?f2 e5" by (simp add: e4 e5_def)
    have d5: "dpbs e5 = dpbs e" using st1(2) d by (simp add: same_env_def)
    have "fat_byte sec p e4 i' = put_entry Fat12 c c2 (fat_byte sec p e2) i'" if i': "i' < 512 * nsec" for i'
    proof (cases "i' div 512 = i div 512")
      case True
      then have "i' \<noteq> i + 1" using nx by auto
      then show ?thesis
        using st2(4) [OF i'] True put fat_buffer_byte [OF inv s(5) True] nth_store [of "b_buffer (bufs e2 b)" i 0 i' "lo8 ?w1"] len
        by (simp add: e4')
    next
      case False
      show ?thesis
      proof (cases "i' div 512 = (i + 1) div 512")
        case True
        then show ?thesis
          using st2(4) [OF i'] st1(4) [OF i'] False put fat_buffer_byte [OF inv s(6) True] i1 i1'
            nth_store [of "b_buffer (bufs e2 b1)" "i + 1" 0 i' "hi8 ?w1"] len by (auto simp: e4')
      next
        case f2: False
        then have "i' \<noteq> i" "i' \<noteq> i + 1" using False by auto
        then show ?thesis using st2(4) [OF i'] st1(4) [OF i'] False f2 put by (simp add: e4')
      qed
    qed
    moreover have "cview sec e4 (fst y) (snd y) = cview sec e2 (fst y) (snd y)" if "y \<in> L" "y \<notin> fat_area ?d nsec" for y
    proof -
      have "y \<noteq> fat_sector ?d (i div 512)" "y \<noteq> fat_sector ?d ((i + 1) div 512)"
        using that(2) in_fat_area [OF i(2), of ?d] in_fat_area [OF n2, of ?d] by auto
      then show ?thesis using st2(5) [OF that(1)] st1(5) [OF that(1)] d d5 by (simp add: e4')
    qed
    ultimately show ?thesis using st2(1) unfolding e4' by blast
  qed
  have "\<exists>e'. link_done drv p b c2 (unpack12 c ?w = ucast FREE) e3 = Some (0, e') \<and> fat_written sec L nsec p c c2 e e'"
    by (rule fat_writtenI [OF rel ok c v env e4_def])
      (use main k free d in \<open>simp_all add: e3_def put_byte_def\<close>)
  then show ?thesis unfolding link12_def s(1) bind.bind_lunit using bytes nr by (simp add: Let_def e3_def)
qed

text \<open>The write as the code does it.\<close>

lemma link_write:
  assumes rel: "reliable drv sec" and ok: "fat_ok sec L nsec p e"
    and c: "2 \<le> c" "c \<le> max_cluster (dpbs e p)" and v: "fat_value (dpbs e p) c2"
  shows "\<exists>e'. link_fat drv p c c2 e = Some (0, e') \<and> fat_written sec L nsec p c c2 e e'"
proof -
  let ?d = "dpbs e p"
  let ?i = "entry_start (kind_of ?d) (unat c)"
  note lay = fat_okD(2) [OF ok]
  obtain idx where pos: "fat_position ?d c = (idx, fat_base ?d + of_nat (?i div 512))"
      "byte_index (kind_of ?d) idx = ?i mod 512" "?i div 512 < nsec"
    using fat_position_ok [OF lay c(2)] by blast
  obtain b e1 where g: "getFATblock drv p (fat_base ?d + of_nat (?i div 512)) e = Some (Some b, e1)" "fat_ok sec L nsec p e1"
     "same_env e e1" "b = hd (order e1)" "fat_buffer p (?i div 512) b e1" "same_views sec L e e1"
    using getFATblock_buffer [OF rel ok pos(3)] by blast
  have r: "\<not> c \<le> 1" "\<not> max_cluster ?d < c" "\<not> (c2 < LONG_BAD \<and> c2 > max_cluster ?d)"
    using c v by (auto simp: fat_value_def fat_consts word_le_nat_alt word_less_nat_alt)
  have start: "link_fat drv p c c2 e =
      (if ISFAT12 ?d then link12 drv p b (unat idx div 2) (fat_base ?d + of_nat (?i div 512)) c c2 e1
       else if ISFAT16 ?d then link16 drv p b (unat idx) c2 e1
       else if ISFAT32 ?d then link32 drv p b (unat idx) c2 e1
       else Some (1, clusterMessage ''Bad DPB!'' 0 e1))"
    unfolding link_fat_def Let_def if_not_P [OF r(3)] using r(1,2) pos(1) g(1) by simp
  have nr32: "c2 \<noteq> READ_CLUSTER" using v by (auto simp: fat_value_def fat_consts word_le_nat_alt)
  have nr: "\<not> is_read c2" if "kind_of ?d \<noteq> Fat32"
  proof -
    have m: "unat (max_cluster ?d) \<le> 65525"
      using max_cluster_bound(1,2) [OF lay] that by (cases "kind_of ?d") auto
    consider "c2 = FREE" | "c2 = LONG_BAD" | "c2 = LONG_LAST_CLUSTER" | "2 \<le> c2" "c2 \<le> max_cluster ?d"
      using v by (auto simp: fat_value_def)
    then show ?thesis
    proof cases
      case 4
      then have "2 \<le> unat c2" "unat c2 \<le> 65525" using m by (simp_all add: word_le_nat_alt)
      then show ?thesis by (simp add: is_read_def fat_consts unat_eq_iff unat_ucast_32_16)
    qed (simp_all add: is_read_def fat_consts)
  qed
  show ?thesis
  proof (cases "kind_of ?d")
    case Fat12
    then have k: "ISFAT12 ?d" using kind_cases(1) by blast
    have ix: "unat idx div 2 = ?i mod 512" using pos(2) Fat12 by (simp add: byte_index_def)
    show ?thesis unfolding start ix using k link12_ok [OF rel ok c(2) v g(3,6,2) Fat12 _ _ g(4)] pos(3) g(5) nr Fat12 by simp
  next
    case Fat16
    then have k: "\<not> ISFAT12 ?d" "ISFAT16 ?d" using kind_cases(2) by auto
    show ?thesis unfolding start
      using k link16_ok [OF rel ok c(2) v g(3,6,2) Fat16, of ?i b "unat idx"] pos(2,3) g(5) nr Fat16 by (simp add: byte_index_def)
  next
    case Fat32
    then have k: "\<not> ISFAT12 ?d" "\<not> ISFAT16 ?d" "ISFAT32 ?d" using kind_cases(3) fat_layoutD(2) [OF lay] by auto
    show ?thesis unfolding start
      using k link32_ok [OF rel ok c(2) v g(3,6,2) Fat32, of ?i b "unat idx"] pos(2,3) g(5) nr32 Fat32 by (simp add: byte_index_def)
  qed
qed

end
