(* ===== verification/Fat_Props.thy ===== *)
theory Fat_Props
  imports Fat_Link
begin

text \<open>
  What the FAT layer promises: an entry is read as the FAT holds it, a write changes one entry and
  nothing else, the count of free clusters stays right, and bad cluster numbers are refused.
\<close>

section \<open>Following a chain\<close>

definition next_spec :: "'d sectors \<Rightarrow> nat \<Rightarrow> 'd io \<Rightarrow> u32 \<Rightarrow> u32" where
  "next_spec sec p e c =
     (let v = fat sec p e c
      in if v < 2 \<or> v \<ge> LONG_BAD then v
         else if v > max_cluster (dpbs e p) then 1
         else if fat sec p e v < 2 \<or> (fat sec p e v < LONG_BAD \<and> fat sec p e v > max_cluster (dpbs e p)) then 1
         else v)"

lemma fat_ok_message:
  "fat_ok sec L nsec p e \<Longrightarrow> fat_ok sec L nsec p (clusterMessage m c e)"
  "fat sec p (clusterMessage m c e) = fat sec p e" "same_views sec L e (clusterMessage m c e)"
proof -
  have o: "order (clusterMessage m c e) = order e" by (simp add: order_def clusterMessage_def)
  have v: "cview sec (clusterMessage m c e) = cview sec e"
    unfolding cview_def o by (rule ext)+ (simp add: view_def clusterMessage_def place_def get_dpb_def get_cds_def cong: if_cong option.case_cong)
  show "fat_ok sec L nsec p e \<Longrightarrow> fat_ok sec L nsec p (clusterMessage m c e)"
    unfolding fat_ok_def cinv_def o
    by (simp add: cache_inv_def buf_ok_def drives_ok_def drive_ok_def get_dpb_def get_cds_def place_def clusterMessage_def
        cong: if_cong option.case_cong)
  show "fat sec p (clusterMessage m c e) = fat sec p e"
  proof -
    have d: "dpbs (clusterMessage m c e) = dpbs e" by (simp add: clusterMessage_def)
    then have "fat_byte sec p (clusterMessage m c e) = fat_byte sec p e" by (simp add: fat_byte_def v fun_eq_iff)
    then show ?thesis unfolding fat_def d by (rule arg_cong)
  qed
  show "same_views sec L e (clusterMessage m c e)" by (simp add: same_views_def v)
qed

lemma link_fat_index:
  assumes "c \<le> 1 \<or> c > max_cluster (dpbs e p)"
  shows "link_fat drv p c c2 e = Some (1, clusterMessage ''index: 0x'' c e)"
  using assms by (simp add: link_fat_def Let_def)

lemma next_cluster_ok:
  assumes rel: "reliable drv sec" and ok: "fat_ok sec L nsec p e" and c: "2 \<le> c" "c \<le> max_cluster (dpbs e p)"
  shows "\<exists>e'. next_cluster drv p c e = Some (next_spec sec p e c, e') \<and> fat_ok sec L nsec p e'
     \<and> dpbs e' = dpbs e \<and> same_views sec L e e'"
proof -
  let ?v = "fat sec p e c"
  obtain e1 where r: "link_fat drv p c READ_CLUSTER e = Some (?v, e1)" "fat_ok sec L nsec p e1" "same_env e e1" "same_views sec L e e1"
    using link_read [OF rel ok c] by blast
  have d1: "dpbs e1 = dpbs e" using r(3) by (simp add: same_env_def)
  show ?thesis
  proof (cases "?v < 2 \<or> ?v \<ge> LONG_BAD")
    case True
    then have "next_cluster drv p c e = Some (next_spec sec p e c, e1)" using r(1) by (simp add: next_cluster_def next_spec_def)
    then show ?thesis using r d1 by blast
  next
    case False
    note v = this
    show ?thesis
    proof (cases "?v > max_cluster (dpbs e p)")
      case True
      then have "link_fat drv p ?v READ_CLUSTER e1 = Some (1, clusterMessage ''index: 0x'' ?v e1)"
        using d1 by (intro link_fat_index) simp
      then have n: "next_cluster drv p c e = Some (next_spec sec p e c, clusterMessage ''value: 0x'' 1 (clusterMessage ''index: 0x'' ?v e1))"
        using r(1) v True by (simp add: next_cluster_def next_spec_def)
      have "same_views sec L e (clusterMessage ''value: 0x'' 1 (clusterMessage ''index: 0x'' ?v e1))"
        by (rule same_views_trans [OF r(4) same_views_trans [OF fat_ok_message(3) fat_ok_message(3)]])
      moreover have "dpbs (clusterMessage ''value: 0x'' 1 (clusterMessage ''index: 0x'' ?v e1)) = dpbs e"
        using d1 by (simp add: clusterMessage_def)
      ultimately show ?thesis using n fat_ok_message(1) [OF fat_ok_message(1) [OF r(2)]] by blast
    next
      case False
      have v2: "2 \<le> ?v" "?v \<le> max_cluster (dpbs e1 p)" using v False d1 by (auto simp: not_less)
      have fe: "fat sec p e1 ?v = fat sec p e ?v"
        by (rule fat_same [OF fat_okD(2) [OF ok] r(4)]) (use v2 d1 in simp_all)
      obtain e2 where r2: "link_fat drv p ?v READ_CLUSTER e1 = Some (fat sec p e ?v, e2)" "fat_ok sec L nsec p e2" "same_env e1 e2" "same_views sec L e1 e2"
        using link_read [OF rel r(2) v2] unfolding fe by blast
      have d2: "dpbs e2 = dpbs e" using r2(3) d1 by (simp add: same_env_def)
      have sv: "same_views sec L e e2" by (rule same_views_trans [OF r(4) r2(4)])
      let ?w = "fat sec p e ?v"
      show ?thesis
      proof (cases "?w < 2 \<or> (?w < LONG_BAD \<and> ?w > max_cluster (dpbs e p))")
        case True
        then have n: "next_cluster drv p c e = Some (next_spec sec p e c, clusterMessage ''value: 0x'' ?w e2)"
          using r(1) r2(1) v False d2 by (simp add: next_cluster_def next_spec_def Let_def)
        have "same_views sec L e (clusterMessage ''value: 0x'' ?w e2)" by (rule same_views_trans [OF sv fat_ok_message(3)])
        moreover have "dpbs (clusterMessage ''value: 0x'' ?w e2) = dpbs e" using d2 by (simp add: clusterMessage_def)
        ultimately show ?thesis using n fat_ok_message(1) [OF r2(2)] by blast
      next
        case w: False
        then have "next_cluster drv p c e = Some (next_spec sec p e c, e2)"
          using r(1) r2(1) v False d2 by (auto simp: next_cluster_def next_spec_def Let_def)
        then show ?thesis using r2(2) d2 sv by blast
      qed
    qed
  qed
qed

section \<open>The count of free clusters\<close>

definition free_clusters :: "'d sectors \<Rightarrow> nat \<Rightarrow> 'd io \<Rightarrow> u32 set" where
  "free_clusters sec p e = {c. 2 \<le> c \<and> c \<le> max_cluster (dpbs e p) \<and> fat sec p e c = FREE}"

definition count_known :: "dpb \<Rightarrow> bool" where
  "count_known d \<longleftrightarrow> (if ISFAT32 d then dpb_xnfreeclst d \<noteq> XUNKNCLSTFREE else dpb_nfreeclst d \<noteq> UNKNCLSTFREE)"

definition free_count :: "dpb \<Rightarrow> nat" where
  "free_count d = (if ISFAT32 d then unat (dpb_xnfreeclst d) else unat (dpb_nfreeclst d))"

lemma free_clusters_less:
  "finite (free_clusters sec p e)" "card (free_clusters sec p e) + 2 \<le> unat (max_cluster (dpbs e p)) + 1 \<or> free_clusters sec p e = {}"
proof -
  let ?m = "unat (max_cluster (dpbs e p))"
  have sub: "unat ` free_clusters sec p e \<subseteq> {2..?m}"
    by (auto simp: free_clusters_def word_le_nat_alt)
  have inj: "inj_on unat (free_clusters sec p e)" by (rule inj_onI) (simp add: word_unat_eq_iff)
  show fin: "finite (free_clusters sec p e)" by (rule finite)
  have "card (free_clusters sec p e) \<le> card {2..?m}"
    using card_mono [OF _ sub] card_image [OF inj] by simp
  then show "card (free_clusters sec p e) + 2 \<le> ?m + 1 \<or> free_clusters sec p e = {}"
    using fin by (cases "2 \<le> ?m") (auto simp: card_eq_0_iff)
qed

lemma nfreeclst_set: "dpb_nfreeclst (set_nfreeclst n d) = n"
proof -
  have "(0xffff0000 :: u32) = NOT (mask 16)" by (simp add: mask_eq_exp_minus_1)
  then have "set_nfreeclst n d = d\<lparr>dpb_xnfreeclst := (dpb_xnfreeclst d AND NOT (mask 16)) OR ucast n\<rparr>"
    by (simp only: set_nfreeclst_def)
  then show ?thesis by (intro bit_word_eqI) (auto simp: dpb_nfreeclst_def bit_simps)
qed

lemma free_count_step:
  assumes geo: "unat (max_cluster d) < (if ISFAT32 d then 0x0ffffff7 else 65526)"
    and k: "count_known d" and n: "free_count d + 1 \<le> unat (max_cluster d) \<or> free_count d = 0" "was \<Longrightarrow> 0 < free_count d"
  shows "count_known (count_free c2 was d) \<and>
    free_count (count_free c2 was d) = (if was \<and> c2 \<noteq> FREE then free_count d - 1 else if \<not> was \<and> c2 = FREE then free_count d + 1 else free_count d)"
proof (cases "ISFAT32 d")
  case True
  let ?x = "dpb_xnfreeclst d"
  have kn: "?x \<noteq> XUNKNCLSTFREE" "free_count d = unat ?x" using k True by (simp_all add: count_known_def free_count_def)
  have f32: "ISFAT32 (d\<lparr>dpb_xnfreeclst := y\<rparr>)" for y using True by (simp add: ISFAT32_def)
  have small: "unat ?x < 0x0ffffff7" using n(1) geo True kn(2) by auto
  have inc: "unat (?x + 1) = unat ?x + 1" using small by (subst unat_add_no_wrap) simp_all
  have dec: "unat (?x - 1) = unat ?x - 1" if "0 < unat ?x" using that by (subst unat_sub) (simp_all add: word_le_nat_alt)
  have kn1: "?x + 1 \<noteq> XUNKNCLSTFREE" using inc small by (auto simp: XUNKNCLSTFREE_def unat_eq_iff)
  have kn2: "?x - 1 \<noteq> XUNKNCLSTFREE" if "0 < unat ?x" using dec [OF that] small by (auto simp: XUNKNCLSTFREE_def unat_eq_iff)
  consider "was" "c2 \<noteq> FREE" | "\<not> was" "c2 = FREE" | "was" "c2 = FREE" | "\<not> was" "c2 \<noteq> FREE" by blast
  then show ?thesis
    by cases (use True kn f32 inc dec kn1 kn2 n(2) in \<open>simp_all add: count_free_def count_known_def free_count_def Let_def\<close>)
next
  case False
  let ?x = "dpb_nfreeclst d"
  have kn: "?x \<noteq> UNKNCLSTFREE" "free_count d = unat ?x" using k False by (simp_all add: count_known_def free_count_def)
  have f32: "\<not> ISFAT32 (set_nfreeclst y d)" for y using False by (simp add: ISFAT32_def set_nfreeclst_def)
  have small: "unat ?x < 65525" using n(1) geo False kn(2) by auto
  have inc: "unat (?x + 1) = unat ?x + 1" using small by (simp add: unat16_inc)
  note dec = unat16_dec [of ?x]
  have kn1: "?x + 1 \<noteq> UNKNCLSTFREE" using inc small by (auto simp: UNKNCLSTFREE_def unat_eq_iff)
  have kn2: "?x - 1 \<noteq> UNKNCLSTFREE" if "0 < unat ?x" using dec [OF that] small by (auto simp: UNKNCLSTFREE_def unat_eq_iff)
  consider "was" "c2 \<noteq> FREE" | "\<not> was" "c2 = FREE" | "was" "c2 = FREE" | "\<not> was" "c2 \<noteq> FREE" by blast
  then show ?thesis
    by cases (use False kn f32 inc dec kn1 kn2 n(2) in \<open>simp_all add: count_free_def count_known_def free_count_def Let_def nfreeclst_set\<close>)
qed

lemma free_clusters_written:
  assumes w: "fat_written sec L nsec p c c2 e e'" and c: "2 \<le> c" "c \<le> max_cluster (dpbs e p)"
  shows "free_clusters sec p e' = (if c2 = FREE then insert c (free_clusters sec p e) else free_clusters sec p e - {c})"
proof -
  have "same_geometry (dpbs e p) (dpbs e' p)" using w count_free_geometry by (simp add: fat_written_def)
  then have m: "max_cluster (dpbs e' p) = max_cluster (dpbs e p)" by (rule geometry_fat(2))
  have "fat sec p e' c' = (if c' = c then c2 else fat sec p e c')" if "c' \<le> max_cluster (dpbs e p)" for c'
    using w that by (simp add: fat_written_def)
  then show ?thesis using c unfolding free_clusters_def m by (auto split: if_splits)
qed

lemma count_exact_step:
  assumes ok: "fat_ok sec L nsec p e" and w: "fat_written sec L nsec p c c2 e e'" and c: "2 \<le> c" "c \<le> max_cluster (dpbs e p)"
    and k: "count_known (dpbs e p)" "free_count (dpbs e p) = card (free_clusters sec p e)"
  shows "count_known (dpbs e' p) \<and> free_count (dpbs e' p) = card (free_clusters sec p e')"
proof -
  let ?d = "dpbs e p" and ?was = "fat sec p e c = FREE"
  note lay = fat_okD(2) [OF ok]
  have geo: "unat (max_cluster ?d) < (if ISFAT32 ?d then 0x0ffffff7 else 65526)"
    using max_cluster_bound [OF lay] fat_layoutD(2) [OF lay] by (cases "kind_of ?d") auto
  have in_iff: "c \<in> free_clusters sec p e \<longleftrightarrow> ?was" using c by (simp add: free_clusters_def)
  have pos: "0 < free_count ?d" if "?was"
    unfolding k(2) using in_iff that free_clusters_less(1) [of sec p e] by (auto simp: card_gt_0_iff)
  have bnd: "free_count ?d + 1 \<le> unat (max_cluster ?d) \<or> free_count ?d = 0"
    using free_clusters_less(2) [of sec p e] k(2) by auto
  have e': "dpbs e' p = count_free c2 ?was ?d" using w by (simp add: fat_written_def)
  show ?thesis
    unfolding e' free_clusters_written [OF w c]
    using free_count_step [OF geo k(1) bnd pos, where ?c2.0 = c2] in_iff free_clusters_less(1) [of sec p e] k(2)
    by (auto simp: card_insert_if insert_absorb)
qed

section \<open>Properties\<close>

text \<open>
  C16: Reading an entry returns what the FAT holds for the cluster, for FAT12, FAT16 and FAT32, and
  changes neither the FAT nor any other block.
\<close>

theorem link_fat_reads_entry:
  assumes "reliable drv sec" "fat_ok sec L nsec p e" "2 \<le> c" "c \<le> max_cluster (dpbs e p)"
  shows "\<exists>e'. link_fat drv p c READ_CLUSTER e = Some (fat sec p e c, e') \<and> fat_ok sec L nsec p e' \<and> dpbs e' = dpbs e
     \<and> (\<forall>y \<in> L. cview sec e' (fst y) (snd y) = cview sec e (fst y) (snd y))"
  using link_read [OF assms] by (auto simp: same_env_def same_views_def)

text \<open>
  C15: Writing an entry stores the value in this entry and leaves every other entry as it was, also
  the neighbour that shares a byte with it in FAT12 and when the entry straddles two sectors; blocks
  outside the FAT and the information sector keep their data.
\<close>

theorem link_fat_writes_one_entry:
  assumes "reliable drv sec" "fat_ok sec L nsec p e" "2 \<le> c" "c \<le> max_cluster (dpbs e p)" "fat_value (dpbs e p) c2"
  shows "\<exists>e'. link_fat drv p c c2 e = Some (0, e') \<and> fat_ok sec L nsec p e'
     \<and> (\<forall>c'. c' \<le> max_cluster (dpbs e p) \<longrightarrow> fat sec p e' c' = (if c' = c then c2 else fat sec p e c'))
     \<and> (\<forall>y \<in> L. y \<notin> fat_area (dpbs e p) nsec \<longrightarrow> y \<notin> fs_area (dpbs e p) \<longrightarrow>
          cview sec e' (fst y) (snd y) = cview sec e (fst y) (snd y))"
  using link_write [OF assms] by (auto simp: fat_written_def)

text \<open>
  C17: When the count of free clusters of the drive is known and right, it is right after every
  write of a FAT entry.
\<close>

theorem link_fat_keeps_free_count:
  assumes "reliable drv sec" "fat_ok sec L nsec p e" "2 \<le> c" "c \<le> max_cluster (dpbs e p)" "fat_value (dpbs e p) c2"
    "count_known (dpbs e p)" "free_count (dpbs e p) = card (free_clusters sec p e)"
  shows "\<exists>e'. link_fat drv p c c2 e = Some (0, e') \<and> count_known (dpbs e' p)
     \<and> free_count (dpbs e' p) = card (free_clusters sec p e')"
  using link_write [OF assms(1-5)] count_exact_step [OF assms(2) _ assms(3,4,6,7)] by blast

text \<open>
  Cluster numbers below 2 or above the largest cluster of the drive are refused with a message
  and without touching the cache, and so is a link to a cluster that does not exist.
\<close>

lemma link_fat_refuses:
  "(c \<le> 1 \<or> c > max_cluster (dpbs e p) \<longrightarrow> link_fat drv p c c2 e = Some (1, clusterMessage ''index: 0x'' c e))
   \<and> (\<not> (c \<le> 1 \<or> c > max_cluster (dpbs e p)) \<and> c2 < LONG_BAD \<and> c2 > max_cluster (dpbs e p) \<longrightarrow>
     link_fat drv p c c2 e = Some (1, clusterMessage ''write: 0x'' c2 e))"
  by (simp add: link_fat_def Let_def)

text \<open>
  C18: The successor of a cluster is its FAT entry, except that a link to a cluster that does not
  exist or that is itself free or damaged is the error value 1; the FAT is not changed.
\<close>

theorem next_cluster_follows_chain:
  assumes "reliable drv sec" "fat_ok sec L nsec p e" "2 \<le> c" "c \<le> max_cluster (dpbs e p)"
  shows "\<exists>e'. next_cluster drv p c e = Some (next_spec sec p e c, e') \<and> fat_ok sec L nsec p e' \<and> dpbs e' = dpbs e
     \<and> (\<forall>y \<in> L. cview sec e' (fst y) (snd y) = cview sec e (fst y) (snd y))"
  using next_cluster_ok [OF assms] by (auto simp: same_views_def)

section \<open>A small FAT\<close>

text \<open>A FAT12 drive of three clusters: the chain 2, 3 and the free cluster 4.\<close>

definition demo_fat_data :: bytes where
  "demo_fat_data = [0xf8, 0xff, 0xff, 0x03, 0xf0, 0xff, 0x00, 0x00] @ replicate 504 0"

definition demo_fat_dpb :: dpb where
  "demo_fat_dpb = demo_dpb\<lparr>dpb_size := 4, dpb_xnfreeclst := 1\<rparr>"

definition demo_fat_io :: "(nat \<times> u8 \<Rightarrow> u32 \<Rightarrow> bytes) io" where
  "demo_fat_io = demo_io\<lparr>dpbs := (\<lambda>_. demo_fat_dpb),
     bufs := (\<lambda>p. if p = 16 then (demo_buffer 548 0x62 1)\<lparr>b_buffer := demo_fat_data\<rparr> else demo_buffer 16 0 0)\<rparr>"

lemmas demo_fat_defs = demo_fat_io_def demo_fat_dpb_def demo_io_def demo_dpb_def demo_buffer_def

lemma demo_fat_dpb_2: "get_dpb 2 demo_fat_io = Some 0"
  by (simp add: get_dpb_def get_cds_def demo_fat_io_def demo_io_def demo_cds_def CDSVALID_def CDSNETWDRV_def CDSPHYSDRV_def CDSJOINED_def Let_def)

lemma demo_fat_length: "length demo_fat_data = 512"
  by (simp add: demo_fat_data_def)

lemma demo_fat_ring: "ring (bufs demo_fat_io) [16, 548]"
  by (simp add: ring_def demo_fat_defs)

lemma demo_fat_order: "order demo_fat_io = [16, 548]"
  by (rule order_ring [OF demo_fat_ring]) (simp_all add: demo_fat_defs)

lemma demo_fat_cinv: "cinv ram_sectors demo_live demo_fat_io"
proof -
  have o: "one_holder (bufs demo_fat_io) [16, 548]" by (simp add: one_holder_def demo_fat_defs)
  have d: "drives_ok demo_live demo_fat_io"
    using demo_fat_dpb_2 by (simp add: drives_ok_def demo_live_def drive_ok_def) (simp add: demo_fat_defs)
  have "copies_of (bufs demo_fat_io 16) (dpbs demo_fat_io) = (2, 3)"
    by (simp add: copies_of_def demo_fat_defs BFR_FAT_def)
  moreover have "{1..<2 :: nat} = {1}" by auto
  ultimately have "buf_ok ram_sectors demo_live demo_fat_io (bufs demo_fat_io 16)"
    by (simp add: buf_ok_def mirror_blocks_def) (simp add: demo_fat_defs demo_live_def demo_fat_length)
  moreover have "buf_ok ram_sectors demo_live demo_fat_io (bufs demo_fat_io 548)"
    by (simp add: buf_ok_def demo_fat_defs)
  ultimately have "cache_inv ram_sectors demo_live [16, 548] demo_fat_io"
    using demo_fat_ring o d by (simp add: cache_inv_def) (simp add: demo_fat_io_def demo_io_def)
  then show ?thesis by (simp add: cinv_def demo_fat_order) (simp add: demo_fat_defs)
qed

lemma demo_fat_kind: "ISFAT12 demo_fat_dpb" "\<not> ISFAT32 demo_fat_dpb" "max_cluster demo_fat_dpb = 4" "kind_of demo_fat_dpb = Fat12"
  "dpbs demo_fat_io p = demo_fat_dpb"
  by (simp_all add: demo_fat_defs kind_of_def ISFAT12_def ISFAT32_def max_cluster_def FAT_MAGIC_def)

lemma demo_fat_ok: "fat_ok ram_sectors demo_live 1 0 demo_fat_io"
proof -
  have b: "fat_base demo_fat_dpb = 1" "fat_copies demo_fat_dpb = 2" "fat_distance demo_fat_dpb = 3"
    using demo_fat_kind(2) by (simp_all add: fat_base_def fat_copies_def fat_distance_def single_fat_def demo_fat_defs)
  have "{1..<2 :: nat} = {1}" by auto
  moreover have "dpb_secsize demo_fat_dpb = 512" "dpb_unit demo_fat_dpb = 2" by (simp_all add: demo_fat_defs)
  ultimately have "fat_layout demo_live 1 demo_fat_dpb"
    using demo_fat_kind by (simp add: fat_layout_def b entry_end_def LONG_BAD_def demo_live_def)
  then show ?thesis using demo_fat_cinv demo_fat_kind by (simp add: fat_ok_def)
qed

lemma demo_fat_view: "cview ram_sectors demo_fat_io 2 1 = demo_fat_data"
  unfolding cview_def demo_fat_order by (simp add: view_def holds_block_bits demo_fat_defs)

lemma demo_fat_byte: "i < 512 \<Longrightarrow> fat_byte ram_sectors 0 demo_fat_io i = demo_fat_data ! i"
proof -
  assume "i < 512"
  moreover have "fat_sector demo_fat_dpb 0 = (2, 1)"
    using demo_fat_kind(2) by (simp add: fat_sector_def fat_base_def single_fat_def demo_fat_defs)
  ultimately show ?thesis using demo_fat_view demo_fat_kind(5) by (simp add: fat_byte_def Let_def)
qed

lemma demo_fat_entries: "fat ram_sectors 0 demo_fat_io 2 = 3" "fat ram_sectors 0 demo_fat_io 3 = LONG_LAST_CLUSTER"
  "fat ram_sectors 0 demo_fat_io 4 = FREE"
  unfolding fat_def demo_fat_kind byte_entry_def
  by (simp_all add: entry_start_def demo_fat_byte demo_fat_data_def mk16_def unpack12_def decode12_def fat_consts)

lemma demo_fat_free: "free_clusters ram_sectors 0 demo_fat_io = {4}"
proof -
  have "c = 2 \<or> c = 3 \<or> c = 4" if "2 \<le> c" "c \<le> 4" for c :: u32
  proof -
    have "unat c = 2 \<or> unat c = 3 \<or> unat c = 4" using that by (auto simp: word_le_nat_alt)
    then show ?thesis by (auto simp: word_unat_eq_iff)
  qed
  note range = this
  have "c = 4" if "2 \<le> c" "c \<le> 4" "fat ram_sectors 0 demo_fat_io c = FREE" for c
    using range [OF that(1,2)] that(3) demo_fat_entries by (auto simp: fat_consts)
  then show ?thesis using demo_fat_entries(3) demo_fat_kind by (auto simp: free_clusters_def)
qed

lemmas demo_fat_use = ram_reliable demo_fat_ok

theorem link_fat_reads_entry_witness:
  "\<exists>e'. link_fat ram_driver 0 2 READ_CLUSTER demo_fat_io = Some (3, e')"
  using link_fat_reads_entry [OF demo_fat_use, of 2] demo_fat_entries(1) by (auto simp: demo_fat_kind)

theorem link_fat_writes_one_entry_witness:
  "\<exists>e'. link_fat ram_driver 0 3 4 demo_fat_io = Some (0, e') \<and> fat ram_sectors 0 e' 3 = 4 \<and> fat ram_sectors 0 e' 2 = 3"
  using link_fat_writes_one_entry [OF demo_fat_use, of 3 4] demo_fat_entries(1)
  by (auto simp: demo_fat_kind fat_value_def)

theorem link_fat_keeps_free_count_witness:
  "\<exists>e'. link_fat ram_driver 0 3 FREE demo_fat_io = Some (0, e') \<and> free_count (dpbs e' 0) = card (free_clusters ram_sectors 0 e')"
proof -
  have "count_known demo_fat_dpb" "free_count demo_fat_dpb = 1"
    using demo_fat_kind(2) by (simp_all add: count_known_def free_count_def dpb_nfreeclst_def demo_fat_dpb_def demo_dpb_def UNKNCLSTFREE_def)
  then show ?thesis
    using link_fat_keeps_free_count [OF demo_fat_use, of 3 FREE] demo_fat_free by (auto simp: demo_fat_kind fat_value_def)
qed

theorem next_cluster_follows_chain_witness:
  "\<exists>e'. next_cluster ram_driver 0 2 demo_fat_io = Some (3, e')"
proof -
  have "next_spec ram_sectors 0 demo_fat_io 2 = 3"
    by (simp add: next_spec_def demo_fat_entries demo_fat_kind fat_consts)
  then show ?thesis using next_cluster_follows_chain [OF demo_fat_use, of 2] by (auto simp: demo_fat_kind)
qed

end
