(* ===== verification/Fat_Free.thy ===== *)
theory Fat_Free
  imports Fat_Chain Fat_Props
begin

text \<open>
  Clients of the FAT interface, part one: freeing a chain, finding a free cluster, counting the
  free clusters. They return on every FAT, also a damaged one.
\<close>

section \<open>Freeing a chain\<close>

lemma lower_hint_geometry: "same_geometry d (lower_hint st d)"
  by (simp add: same_geometry_def lower_hint_def)

lemma follow_used: "follow f m c > 1 \<Longrightarrow> f c \<noteq> FREE"
  by (auto simp: follow_def fat_consts Let_def split: if_splits)

lemma follow_range:
  assumes "follow f m c > 1" "follow f m c < LONG_BAD"
  shows "2 \<le> follow f m c \<and> follow f m c \<le> m"
  using assms by (auto simp: follow_def fat_consts Let_def not_less word_le_nat_alt word_less_nat_alt split: if_splits)

lemma over_one: "\<not> c \<le> 1 \<longleftrightarrow> 2 \<le> (c :: u32)"
  by (auto simp: word_le_nat_alt)

definition used :: "(u32 \<Rightarrow> u32) \<Rightarrow> u32 \<Rightarrow> u32 set" where
  "used f m = {c. 2 \<le> c \<and> c \<le> m \<and> f c \<noteq> FREE}"

lemma used_free:
  assumes "2 \<le> c" "c \<le> m" "f c \<noteq> FREE"
  shows "card (used (f(c := FREE)) m) < card (used f m)"
proof -
  have "used (f(c := FREE)) m = used f m - {c}" by (auto simp: used_def)
  moreover have "c \<in> used f m" using assms by (simp add: used_def)
  ultimately show ?thesis using card_Diff1_less [of "used f m" c] by simp
qed

context fat_store
begin

text \<open>Outside the clusters of the drive a read is an error.\<close>

lemma outside:
  assumes "good e" "c \<le> 1 \<or> c > max_cluster (dpbs e p)"
  shows "\<exists>e'. next_cluster drv p c e = Some (1, e') \<and> good e' \<and> keep e e' \<and> ent e' = ent e \<and> dpbs e' = dpbs e"
proof -
  have "link_fat drv p c READ_CLUSTER e = Some (1, clusterMessage ''index: 0x'' c e)"
    using assms(2) by (simp add: link_fat_def Let_def)
  then have "next_cluster drv p c e = Some (1, clusterMessage ''index: 0x'' c e)" by (simp add: next_cluster_def)
  moreover have "dpbs (clusterMessage ''index: 0x'' c e) = dpbs e" by (simp add: clusterMessage_def)
  ultimately show ?thesis using messages [OF assms(1)] by blast
qed

lemma wipe_step:
  assumes g: "good e" and c: "2 \<le> st" "st \<le> max_cluster (dpbs e p)" and nx: "2 \<le> follow (ent e) (max_cluster (dpbs e p)) st"
  shows "\<exists>e'. wipe_loop drv p st e = wipe_loop drv p (follow (ent e) (max_cluster (dpbs e p)) st) e'
     \<and> good e' \<and> keep e e' \<and> ent e' = (ent e)(st := FREE) \<and> ent e st \<noteq> FREE"
proof -
  let ?m = "max_cluster (dpbs e p)"
  let ?n = "follow (ent e) ?m st"
  obtain e1 where n: "next_cluster drv p st e = Some (?n, e1)" "good e1" "keep e e1" "ent e1 = ent e" "dpbs e1 = dpbs e"
    using follows [OF g c] by blast
  have c1: "st \<le> max_cluster (dpbs e1 p)" using c n(5) by simp
  obtain e2 where w: "link_fat drv p st FREE e1 = Some (0, e2)" "good e2" "keep e1 e2" "ent e2 = (ent e1)(st := FREE)"
    using writes [OF n(2) c(1) c1, of FREE] by (auto simp: fat_value_def)
  let ?e3 = "upd_dpb p (lower_hint st) e2"
  have u: "good ?e3" "keep e2 ?e3" "ent ?e3 = ent e2" using updates [where f = "lower_hint st", OF w(2) lower_hint_geometry] by blast+
  have "wipe_loop drv p st e = wipe_loop drv p ?n ?e3"
    using n(1) w(1) end_not_cluster [OF g c(2)] nx [folded over_one] by (subst wipe_loop.simps) simp
  moreover have "1 < ?n" using nx by (auto simp: word_le_nat_alt word_less_nat_alt)
  moreover have "ent ?e3 = (ent e)(st := FREE)" using u(3) w(4) n(4) by simp
  ultimately show ?thesis using u(1) keep_trans [OF n(3) keep_trans [OF w(3) u(2)]] follow_used by blast
qed

text \<open>Freeing returns on every FAT: each step frees an entry that was in use.\<close>

lemma wipe_returns:
  "good e \<Longrightarrow> \<exists>r e'. wipe_loop drv p st e = Some (r, e') \<and> good e' \<and> keep e e'"
proof (induction "card (used (ent e) (max_cluster (dpbs e p)))" arbitrary: st e rule: less_induct)
  case less
  let ?m = "max_cluster (dpbs e p)"
  let ?n = "follow (ent e) ?m st"
  show ?case
  proof (cases "st = LONG_LAST_CLUSTER")
    case True
    then show ?thesis using less.prems keep_refl by (subst wipe_loop.simps) auto
  next
    case False
    show ?thesis
    proof (cases "st \<le> 1 \<or> st > ?m")
      case True
      obtain e1 where "next_cluster drv p st e = Some (1, e1)" "good e1" "keep e e1"
        using outside [OF less.prems True] by blast
      then show ?thesis using False by (subst wipe_loop.simps) auto
    next
      case in_range: False
      then have c: "2 \<le> st" "st \<le> ?m" unfolding de_Morgan_disj over_one by (simp_all add: not_less)
      show ?thesis
      proof (cases "2 \<le> ?n")
        case True
        obtain e' where w: "wipe_loop drv p st e = wipe_loop drv p ?n e'" "good e'" "keep e e'"
            "ent e' = (ent e)(st := FREE)" "ent e st \<noteq> FREE" using wipe_step [OF less.prems c True] by blast
        have "card (used (ent e') (max_cluster (dpbs e' p))) < card (used (ent e) ?m)"
          using used_free [where f = "ent e", OF c w(5)] keep_geometry [OF w(3)] w(4) by simp
        from less.hyps [OF this w(2)] obtain r e2 where "wipe_loop drv p ?n e' = Some (r, e2)" "good e2" "keep e' e2" by blast
        moreover from this(1) have "wipe_loop drv p st e = Some (r, e2)" using w(1) by simp
        ultimately show ?thesis using keep_trans [OF w(3)] by blast
      next
        case stop: False
        obtain e1 where "next_cluster drv p st e = Some (?n, e1)" "good e1" "keep e e1" using follows [OF less.prems c] by blast
        moreover have "?n \<le> 1" using stop over_one by blast
        ultimately show ?thesis using False by (subst wipe_loop.simps) auto
      qed
    qed
  qed
qed

text \<open>A whole chain is freed, and nothing else.\<close>

lemma wipe_chain:
  "good e \<Longrightarrow> chain (ent e) (max_cluster (dpbs e p)) st cs \<Longrightarrow>
     \<exists>e'. wipe_loop drv p st e = Some (True, e') \<and> good e' \<and> keep e e'
       \<and> ent e' = (\<lambda>c. if c \<in> set cs then FREE else ent e c)"
proof (induction cs arbitrary: st e)
  case Nil
  then show ?case using keep_refl by (subst wipe_loop.simps) auto
next
  case (Cons x xs)
  let ?m = "max_cluster (dpbs e p)"
  have c: "st = x" "2 \<le> x" "x \<le> ?m" using Cons.prems(2) by auto
  note f = follow_chain [OF below_bad [OF Cons.prems(1)] Cons.prems(2)]
  obtain e1 where w: "wipe_loop drv p x e = wipe_loop drv p (ent e x) e1" "good e1" "keep e e1"
     "ent e1 = (ent e)(x := FREE)" using wipe_step [OF Cons.prems(1) c(2,3)] f by auto
  have "x \<notin> set xs" using chain_distinct [OF below_bad [OF Cons.prems(1)] Cons.prems(2)] by simp
  then have "chain (ent e1) ?m (ent e x) xs" using w(4) by (intro chain_cong [OF f(2)]) auto
  then have "chain (ent e1) (max_cluster (dpbs e1 p)) (ent e x) xs" using keep_geometry [OF w(3)] by simp
  from Cons.IH [OF w(2) this] obtain e' where r: "wipe_loop drv p (ent e x) e1 = Some (True, e')" "good e'" "keep e1 e'"
     "ent e' = (\<lambda>c. if c \<in> set xs then FREE else ent e1 c)" by blast
  have "ent e' = (\<lambda>c. if c \<in> set (x # xs) then FREE else ent e c)" using r(4) w(4) by (auto simp: fun_eq_iff)
  moreover have "wipe_loop drv p st e = Some (True, e')" using w(1) r(1) c(1) by simp
  ultimately show ?case using r(2) keep_trans [OF w(3) r(3)] by blast
qed

lemma wipe_end:
  assumes "wipe_loop drv p st e = Some (r, e1)" "good e1"
  shows "\<exists>e'. wipe_out_clusters drv p st e = Some e' \<and> good e' \<and> keep e1 e' \<and> ent e' = ent e1"
proof (cases "r \<and> ISFAT32 (dpbs e1 p)")
  case True
  then show ?thesis using fsinfo [OF assms(2)] assms(1) by (auto simp: wipe_out_clusters_def)
next
  case False
  then show ?thesis using assms keep_refl by (auto simp: wipe_out_clusters_def)
qed

lemma wipe_out_clusters_returns:
  "good e \<Longrightarrow> \<exists>e'. wipe_out_clusters drv p st e = Some e' \<and> good e' \<and> keep e e'"
proof -
  assume "good e"
  then obtain r e1 where w: "wipe_loop drv p st e = Some (r, e1)" "good e1" "keep e e1" using wipe_returns by blast
  then show ?thesis using wipe_end [OF w(1,2)] keep_trans [OF w(3)] by blast
qed

lemma wipe_out_clusters_chain:
  assumes "good e" "chain (ent e) (max_cluster (dpbs e p)) st cs"
  shows "\<exists>e'. wipe_out_clusters drv p st e = Some e' \<and> good e' \<and> keep e e'
     \<and> ent e' = (\<lambda>c. if c \<in> set cs then FREE else ent e c)"
proof -
  obtain e1 where w: "wipe_loop drv p st e = Some (True, e1)" "good e1" "keep e e1"
     "ent e1 = (\<lambda>c. if c \<in> set cs then FREE else ent e c)" using wipe_chain [OF assms] by blast
  then show ?thesis using wipe_end [OF w(1,2)] keep_trans [OF w(3)] by force
qed

end
section \<open>Finding a free cluster\<close>

text \<open>Cluster \<open>x\<close> comes before \<open>c\<close> in the search from \<open>h\<close>.\<close>

definition before :: "u32 \<Rightarrow> u32 \<Rightarrow> u32 \<Rightarrow> bool" where
  "before h x c \<longleftrightarrow> (if h \<le> c then h \<le> x \<and> x < c else h \<le> x \<or> x < c)"

text \<open>
  The result of the search: the first free cluster, or the end mark when there is none. The
  second component is the new hint.
\<close>

definition found_free :: "(u32 \<Rightarrow> u32) \<Rightarrow> u32 \<Rightarrow> u32 \<Rightarrow> u32 \<Rightarrow> u32 \<Rightarrow> bool" where
  "found_free f m h hint c \<longleftrightarrow>
     (if \<forall>x. 2 \<le> x \<and> x \<le> m \<longrightarrow> f x \<noteq> FREE then c = LONG_LAST_CLUSTER \<and> hint = UNKNCLUSTER
      else 2 \<le> c \<and> c \<le> m \<and> f c = FREE \<and> hint = c \<and> (\<forall>x. 2 \<le> x \<and> x \<le> m \<and> before h x c \<longrightarrow> f x \<noteq> FREE))"

lemma found_free_cases:
  assumes "found_free f m h hint c"
  obtains (full) "\<forall>x. 2 \<le> x \<and> x \<le> m \<longrightarrow> f x \<noteq> FREE" "c = LONG_LAST_CLUSTER" "hint = UNKNCLUSTER"
    | (free) "2 \<le> c" "c \<le> m" "f c = FREE" "hint = c"
proof (cases "\<forall>x. 2 \<le> x \<and> x \<le> m \<longrightarrow> f x \<noteq> FREE")
  case True
  then show ?thesis using assms unfolding found_free_def if_P [OF True] by (intro full) blast+
next
  case False
  then show ?thesis using assms unfolding found_free_def if_not_P [OF False] by (intro free) blast+
qed

text \<open>The hint in the parameter block is a cluster of the drive, or unknown and there is a cluster.\<close>

definition hint_ok :: "dpb \<Rightarrow> bool" where
  "hint_ok d \<longleftrightarrow> 2 \<le> start_hint d \<and> start_hint d \<le> max_cluster d"

lemma word_cases:
  fixes x :: u32
  shows "x \<le> c \<longleftrightarrow> unat x \<le> unat c" "x < c \<longleftrightarrow> unat x < unat c" "x = c \<longleftrightarrow> unat x = unat c"
  by (simp_all add: word_le_nat_alt word_less_nat_alt word_unat_eq_iff)

context fat_store
begin

lemma is_free:
  assumes "good e" "2 \<le> c" "c \<le> max_cluster (dpbs e p)"
  shows "\<exists>e'. is_free_cluster drv p c e = Some (ent e c = FREE, e') \<and> good e' \<and> keep e e' \<and> ent e' = ent e \<and> dpbs e' = dpbs e"
  using reads [OF assms] by (auto simp: is_free_cluster_def)

lemma unat_next:
  assumes "good e" "c \<le> max_cluster (dpbs e p)"
  shows "unat (c + 1) = unat c + 1"
proof -
  have "unat c < 0x0ffffff7"
    using below_bad [OF assms(1)] assms(2) by (simp add: LONG_BAD_def word_less_nat_alt word_le_nat_alt)
  then show ?thesis by (subst unat_add_no_wrap) simp_all
qed

text \<open>The part of the search below the start.\<close>

lemma find_low:
  "good e \<Longrightarrow> m = max_cluster (dpbs e p) \<Longrightarrow> 2 \<le> i \<Longrightarrow> i < h \<Longrightarrow> h \<le> m \<Longrightarrow>
   \<forall>x. 2 \<le> x \<and> x \<le> m \<and> (h \<le> x \<or> x < i) \<longrightarrow> ent e x \<noteq> FREE \<Longrightarrow>
   \<exists>hint c e'. find_free_loop drv p m h i e = Some ((hint, c), e') \<and> found_free (ent e) m h hint c
     \<and> good e' \<and> keep e e' \<and> ent e' = ent e \<and> dpbs e' = dpbs e"
proof (induction "unat h - unat i" arbitrary: i e rule: less_induct)
  case less
  have im: "i \<le> max_cluster (dpbs e p)" using less.prems by simp
  obtain e1 where r: "is_free_cluster drv p i e = Some (ent e i = FREE, e1)" "good e1" "keep e e1" "ent e1 = ent e" "dpbs e1 = dpbs e"
    using is_free [OF less.prems(1,3) im] by blast
  note nx = unat_next [OF less.prems(1) im]
  show ?case
  proof (cases "ent e i = FREE")
    case True
    then have "find_free_loop drv p m h i e = Some ((i, i), e1)" using r(1) by (subst find_free_loop.simps) simp
    moreover have "found_free (ent e) m h i i" using True less.prems by (auto simp: found_free_def before_def)
    ultimately show ?thesis using r by blast
  next
    case False
    have i1: "\<not> i + 1 > m" using less.prems(4,5) nx by (simp add: word_cases)
    have done_to: "\<forall>x. 2 \<le> x \<and> x \<le> m \<and> (h \<le> x \<or> x < i + 1) \<longrightarrow> ent e x \<noteq> FREE"
    proof (intro allI impI)
      fix x assume x: "2 \<le> x \<and> x \<le> m \<and> (h \<le> x \<or> x < i + 1)"
      then have "x = i \<or> (h \<le> x \<or> x < i)" using nx by (auto simp: word_cases)
      then show "ent e x \<noteq> FREE" using x False less.prems(6) by blast
    qed
    show ?thesis
    proof (cases "i + 1 = h")
      case True
      then have "find_free_loop drv p m h i e = Some ((UNKNCLUSTER, LONG_LAST_CLUSTER), e1)"
        using r(1) False i1 by (subst find_free_loop.simps) simp
      moreover have "\<forall>x. 2 \<le> x \<and> x \<le> m \<longrightarrow> ent e x \<noteq> FREE"
        using done_to True by (auto simp: not_le)
      then have "found_free (ent e) m h UNKNCLUSTER LONG_LAST_CLUSTER" by (simp add: found_free_def)
      ultimately show ?thesis using r by blast
    next
      case go: False
      have lt: "unat h - unat (i + 1) < unat h - unat i" "i + 1 < h" "2 \<le> i + 1"
        using less.prems(3,4) nx go by (auto simp: word_cases)
      have e1m: "m = max_cluster (dpbs e1 p)" "\<forall>x. 2 \<le> x \<and> x \<le> m \<and> (h \<le> x \<or> x < i + 1) \<longrightarrow> ent e1 x \<noteq> FREE"
        using r(4,5) less.prems(2) done_to by simp_all
      obtain hint c e' where l: "find_free_loop drv p m h (i + 1) e1 = Some ((hint, c), e')" "found_free (ent e1) m h hint c"
         "good e'" "keep e1 e'" "ent e' = ent e1" "dpbs e' = dpbs e1"
        using less.hyps [OF lt(1) r(2) e1m(1) lt(3,2) less.prems(5) e1m(2)] by blast
      have "find_free_loop drv p m h i e = Some ((hint, c), e')"
        using r(1) False i1 go l(1) by (subst find_free_loop.simps) simp
      then show ?thesis using l(2,3,5,6) r(4,5) keep_trans [OF r(3) l(4)] by auto
    qed
  qed
qed

text \<open>The part of the search from the start to the end of the drive.\<close>

lemma find_high:
  "good e \<Longrightarrow> m = max_cluster (dpbs e p) \<Longrightarrow> 2 \<le> h \<Longrightarrow> h \<le> i \<Longrightarrow> i \<le> m \<Longrightarrow>
   \<forall>x. h \<le> x \<and> x < i \<longrightarrow> ent e x \<noteq> FREE \<Longrightarrow>
   \<exists>hint c e'. find_free_loop drv p m h i e = Some ((hint, c), e') \<and> found_free (ent e) m h hint c
     \<and> good e' \<and> keep e e' \<and> ent e' = ent e \<and> dpbs e' = dpbs e"
proof (induction "unat m - unat i" arbitrary: i e rule: less_induct)
  case less
  have im: "i \<le> max_cluster (dpbs e p)" "2 \<le> i" using less.prems by auto
  obtain e1 where r: "is_free_cluster drv p i e = Some (ent e i = FREE, e1)" "good e1" "keep e e1" "ent e1 = ent e" "dpbs e1 = dpbs e"
    using is_free [OF less.prems(1) im(2,1)] by blast
  note nx = unat_next [OF less.prems(1) im(1)]
  show ?case
  proof (cases "ent e i = FREE")
    case True
    then have "find_free_loop drv p m h i e = Some ((i, i), e1)" using r(1) by (subst find_free_loop.simps) simp
    moreover have "found_free (ent e) m h i i" using True less.prems im by (auto simp: found_free_def before_def)
    ultimately show ?thesis using r by blast
  next
    case False
    have done_to: "ent e x \<noteq> FREE" if "h \<le> x" "x \<le> i" for x
      using that False less.prems(6) by (cases "x = i") (auto simp: order_less_le)
    show ?thesis
    proof (cases "i + 1 > m")
      case True
      then have i: "i = m" using nx less.prems(5) by (auto simp: word_cases)
      show ?thesis
      proof (cases "h = 2")
        case True
        then have "find_free_loop drv p m h i e = Some ((UNKNCLUSTER, LONG_LAST_CLUSTER), e1)"
          using r(1) False \<open>i + 1 > m\<close> by (subst find_free_loop.simps) simp
        moreover have "found_free (ent e) m h UNKNCLUSTER LONG_LAST_CLUSTER"
          using done_to True i by (simp add: found_free_def)
        ultimately show ?thesis using r by blast
      next
        case nw: False
        have e1m: "m = max_cluster (dpbs e1 p)" "\<forall>x. 2 \<le> x \<and> x \<le> m \<and> (h \<le> x \<or> x < 2) \<longrightarrow> ent e1 x \<noteq> FREE" "2 < h"
          using r(4,5) less.prems(2,3) done_to i nw by auto
        have hm: "h \<le> m" using less.prems(4,5) by simp
        obtain hint c e' where l: "find_free_loop drv p m h 2 e1 = Some ((hint, c), e')" "found_free (ent e1) m h hint c"
           "good e'" "keep e1 e'" "ent e' = ent e1" "dpbs e' = dpbs e1"
          using find_low [OF r(2) e1m(1) order_refl e1m(3) hm e1m(2)] by blast
        have "find_free_loop drv p m h i e = Some ((hint, c), e')"
          using r(1) False \<open>i + 1 > m\<close> nw l(1) by (subst find_free_loop.simps) simp
        then show ?thesis using l(2,3,5,6) r(4,5) keep_trans [OF r(3) l(4)] by auto
      qed
    next
      case go: False
      have lt: "unat m - unat (i + 1) < unat m - unat i" "h \<le> i + 1" "i + 1 \<le> m" "i + 1 \<noteq> h"
        using less.prems(4,5) nx go by (auto simp: word_cases)
      have e1m: "m = max_cluster (dpbs e1 p)" "\<forall>x. h \<le> x \<and> x < i + 1 \<longrightarrow> ent e1 x \<noteq> FREE"
        using r(4,5) less.prems(2) done_to nx by (auto simp: word_cases)
      obtain hint c e' where l: "find_free_loop drv p m h (i + 1) e1 = Some ((hint, c), e')" "found_free (ent e1) m h hint c"
         "good e'" "keep e1 e'" "ent e' = ent e1" "dpbs e' = dpbs e1"
        using less.hyps [OF lt(1) r(2) e1m(1) less.prems(3) lt(2,3) e1m(2)] by blast
      have "find_free_loop drv p m h i e = Some ((hint, c), e')"
        using r(1) False go lt(4) l(1) by (subst find_free_loop.simps) simp
      then show ?thesis using l(2,3,5,6) r(4,5) keep_trans [OF r(3) l(4)] by auto
    qed
  qed
qed

lemma find_fat_free_ok:
  assumes g: "good e" and h: "hint_ok (dpbs e p)"
  shows "\<exists>hint c e'. find_fat_free drv p e = Some (c, e')
     \<and> found_free (ent e) (max_cluster (dpbs e p)) (start_hint (dpbs e p)) hint c
     \<and> good e' \<and> keep e e' \<and> ent e' = ent e \<and> hint_ok (dpbs e' p)"
proof -
  let ?d = "dpbs e p" and ?m = "max_cluster (dpbs e p)"
  have h2: "2 \<le> start_hint ?d" "start_hint ?d \<le> ?m" using h by (simp_all add: hint_ok_def)
  obtain hint c e1 where l: "find_free_loop drv p ?m (start_hint ?d) (start_hint ?d) e = Some ((hint, c), e1)"
     "found_free (ent e) ?m (start_hint ?d) hint c" "good e1" "keep e e1" "ent e1 = ent e" "dpbs e1 = dpbs e"
    using find_high [OF g refl h2(1) order_refl h2(2)] by (auto simp: word_cases)
  have hint: "hint = 0 \<or> 2 \<le> hint \<and> hint \<le> ?m"
    using l(2) by (rule found_free_cases) (simp_all add: UNKNCLUSTER_def)
  have two: "2 \<le> ?m" using h2 by simp
  show ?thesis
  proof (cases "ISFAT32 ?d")
    case True
    let ?e2 = "upd_dpb p (\<lambda>d. d\<lparr>dpb_xcluster := hint\<rparr>) e1"
    have "same_geometry (dpbs e1 p) ((dpbs e1 p)\<lparr>dpb_xcluster := hint\<rparr>)" by (simp add: same_geometry_def)
    then have u: "good ?e2" "keep e1 ?e2" "ent ?e2 = ent e1"
      using updates [where f = "\<lambda>d. d\<lparr>dpb_xcluster := hint\<rparr>", OF l(3)] by blast+
    have d2: "dpbs ?e2 p = ?d\<lparr>dpb_xcluster := hint\<rparr>" using l(6) by (simp add: upd_dpb_def)
    have k2: "ISFAT32 (dpbs ?e2 p)" using d2 True by (simp add: ISFAT32_def)
    obtain e3 where w: "write_fsinfo drv p ?e2 = Some e3" "good e3" "keep ?e2 e3" "ent e3 = ent ?e2" "dpbs e3 = dpbs ?e2"
      using fsinfo [OF u(1) k2] by blast
    have "find_fat_free drv p e = Some (c, e3)" using l(1,6) True w(1) by (simp add: find_fat_free_def Let_def)
    moreover have "hint_ok (dpbs e3 p)"
      using hint two True k2 d2 w(5) by (auto simp: hint_ok_def start_hint_def UNKNCLUSTER_def max_cluster_def ISFAT32_def)
    moreover have "keep e e3" by (rule keep_trans [OF l(4) keep_trans [OF u(2) w(3)]])
    moreover have "ent e3 = ent e" using w(4) u(3) l(5) by simp
    ultimately show ?thesis using l(2) w(2) by blast
  next
    case False
    let ?f = "\<lambda>d :: dpb. d\<lparr>dpb_cluster := ucast hint\<rparr>"
    let ?e2 = "upd_dpb p ?f e1"
    have "same_geometry (dpbs e1 p) (?f (dpbs e1 p))" by (simp add: same_geometry_def)
    then have u: "good ?e2" "keep e1 ?e2" "ent ?e2 = ent e1" using updates [where f = ?f, OF l(3)] by blast+
    have d2: "dpbs ?e2 p = ?f ?d" using l(6) by (simp add: upd_dpb_def)
    have k2: "\<not> ISFAT32 (dpbs ?e2 p)" using d2 False by (simp add: ISFAT32_def)
    have m16: "unat ?m < 65536" using small [OF g] False by (simp add: word_cases)
    have "unat hint < 65536" using hint m16 by (auto simp: word_cases)
    then have uu: "unat (ucast hint :: u16) = unat hint" by (simp add: unat_ucast_32_16)
    have m: "max_cluster (dpbs ?e2 p) = ?m" unfolding d2 by (simp add: max_cluster_def ISFAT32_def)
    have "start_hint (dpbs ?e2 p) = (if hint = 0 then 2 else hint)"
      unfolding start_hint_def using k2 unfolding d2 using uu by (simp add: UNKNCLUSTER_def word_unat_eq_iff)
    then have "hint_ok (dpbs ?e2 p)" unfolding hint_ok_def m using hint two by auto
    moreover have "find_fat_free drv p e = Some (c, ?e2)" using l(1,6) False by (simp add: find_fat_free_def Let_def)
    moreover have "keep e ?e2" by (rule keep_trans [OF l(4) u(2)])
    moreover have "ent ?e2 = ent e" using u(3) l(5) by simp
    ultimately show ?thesis using l(2) u(1) by blast
  qed
qed

end

section \<open>Counting the free clusters\<close>

definition free_from :: "(u32 \<Rightarrow> u32) \<Rightarrow> u32 \<Rightarrow> u32 \<Rightarrow> u32 set" where
  "free_from f m i = {c. i \<le> c \<and> c \<le> m \<and> f c = FREE}"

lemma free_from_step:
  assumes "unat (i + 1) = unat i + 1" "i \<le> m"
  shows "card (free_from f m i) = (if f i = FREE then 1 else 0) + card (free_from f m (i + 1))"
proof -
  have "i \<le> x \<longleftrightarrow> x = i \<or> i + 1 \<le> x" for x using assms(1) by (auto simp: word_cases)
  then have "free_from f m i = (if f i = FREE then insert i (free_from f m (i + 1)) else free_from f m (i + 1))"
    using assms(2) by (auto simp: free_from_def)
  moreover have "i \<notin> free_from f m (i + 1)" using assms(1) by (simp add: free_from_def word_cases)
  moreover have "finite (free_from f m (i + 1))" by (rule finite)
  ultimately show ?thesis by simp
qed

lemma free_from_bound: "card (free_from f m i) + unat i \<le> unat m + 1 \<or> free_from f m i = {}"
proof -
  have inj: "inj_on unat (free_from f m i)" by (rule inj_onI) (simp add: word_unat_eq_iff)
  have "unat ` free_from f m i \<subseteq> {unat i..unat m}" by (auto simp: free_from_def word_cases)
  then have "card (free_from f m i) \<le> card {unat i..unat m}"
    using card_image [OF inj] card_mono [of "{unat i..unat m}"] by (metis finite_atLeastAtMost)
  then show ?thesis using finite [of "free_from f m i"] by (cases "unat i \<le> unat m") (auto simp: card_eq_0_iff)
qed

context fat_store
begin

lemma free_loop_counts:
  "good e \<Longrightarrow> m = max_cluster (dpbs e p) \<Longrightarrow> 2 \<le> i \<Longrightarrow> unat i \<le> unat m + 1 \<Longrightarrow>
   \<exists>e'. free_loop drv p m i cnt e = Some (cnt + of_nat (card (free_from (ent e) m i)), e')
     \<and> good e' \<and> keep e e' \<and> ent e' = ent e"
proof (induction "unat m + 1 - unat i" arbitrary: i cnt e)
  case 0
  then have g: "i > m" by (simp add: word_cases)
  then have e: "free_from (ent e) m i = {}" by (auto simp: free_from_def word_cases)
  have "free_loop drv p m i cnt e = Some (cnt, e)" using g by (subst free_loop.simps) simp
  then show ?case using 0 e keep_refl by simp
next
  case (Suc k)
  have im: "i \<le> m" using Suc by (simp add: word_cases)
  then have ngt: "\<not> m < i" by simp
  have im': "i \<le> max_cluster (dpbs e p)" using im Suc.prems(2) by simp
  obtain e1 where r: "is_free_cluster drv p i e = Some (ent e i = FREE, e1)" "good e1" "keep e e1" "ent e1 = ent e" "dpbs e1 = dpbs e"
    using is_free [OF Suc.prems(1,3) im'] by blast
  note nx = unat_next [OF Suc.prems(1) im']
  note st = free_from_step [OF nx im, of "ent e"]
  have k: "k = unat m + 1 - unat (i + 1)" using Suc.hyps(2) nx by simp
  have i2: "2 \<le> i + 1" "unat (i + 1) \<le> unat m + 1" using Suc.prems(3) im nx by (simp_all add: word_cases)
  show ?case
  proof (cases "ent e i = FREE")
    case True
    let ?f = "\<lambda>d :: dpb. if ISFAT32 d then d\<lparr>dpb_xcluster := i\<rparr> else d\<lparr>dpb_cluster := ucast i\<rparr>"
    let ?e2 = "if cnt = 0 then upd_dpb p ?f e1 else e1"
    have "same_geometry (dpbs e1 p) (?f (dpbs e1 p))" by (simp add: same_geometry_def)
    then have e2: "good ?e2" "keep e1 ?e2" "ent ?e2 = ent e1" using updates [where f = ?f, OF r(2)] r(2) keep_refl by auto
    have m2: "m = max_cluster (dpbs ?e2 p)" using keep_geometry [OF e2(2)] r(5) Suc.prems(2) by simp
    obtain e' where l: "free_loop drv p m (i + 1) (cnt + 1) ?e2 = Some (cnt + 1 + of_nat (card (free_from (ent ?e2) m (i + 1))), e')"
       "good e'" "keep ?e2 e'" "ent e' = ent ?e2" using Suc.hyps(1) [OF k e2(1) m2 i2] by blast
    have "free_loop drv p m i cnt e = free_loop drv p m (i + 1) (cnt + 1) ?e2"
      using ngt r(1) True by (subst free_loop.simps) simp
    then have "free_loop drv p m i cnt e = Some (cnt + of_nat (card (free_from (ent e) m i)), e')"
      using l(1) st True e2(3) r(4) by (simp add: add.assoc)
    then show ?thesis using l(2,4) e2(3) r(4) keep_trans [OF r(3) keep_trans [OF e2(2) l(3)]] by auto
  next
    case False
    have m2: "m = max_cluster (dpbs e1 p)" using r(5) Suc.prems(2) by simp
    obtain e' where l: "free_loop drv p m (i + 1) cnt e1 = Some (cnt + of_nat (card (free_from (ent e1) m (i + 1))), e')"
       "good e'" "keep e1 e'" "ent e' = ent e1" using Suc.hyps(1) [OF k r(2) m2 i2] by blast
    have "free_loop drv p m i cnt e = free_loop drv p m (i + 1) cnt e1"
      using ngt r(1) False by (subst free_loop.simps) simp
    then have "free_loop drv p m i cnt e = Some (cnt + of_nat (card (free_from (ent e) m i)), e')"
      using l(1) st False r(4) by simp
    then show ?thesis using l(2,4) r(4) keep_trans [OF r(3) l(3)] by auto
  qed
qed

text \<open>An unknown count is computed and stored.\<close>

lemma dos_free_counts:
  assumes g: "good e" and m: "1 \<le> max_cluster (dpbs e p)"
    and unknown: "if ISFAT32 (dpbs e p) then dpb_xnfreeclst (dpbs e p) = XUNKNCLSTFREE else dpb_nfreeclst (dpbs e p) = UNKNCLSTFREE"
  shows "\<exists>e'. dos_free drv p e = Some (of_nat (card (free_from (ent e) (max_cluster (dpbs e p)) 2)), e')
     \<and> good e' \<and> keep e e' \<and> ent e' = ent e
     \<and> (if ISFAT32 (dpbs e p) then unat (dpb_xnfreeclst (dpbs e' p)) else unat (dpb_nfreeclst (dpbs e' p)))
         = card (free_from (ent e) (max_cluster (dpbs e p)) 2)"
proof -
  let ?m = "max_cluster (dpbs e p)"
  let ?n = "card (free_from (ent e) ?m 2)"
  have "unat (2 :: u32) \<le> unat ?m + 1" using m by (simp add: word_cases)
  then obtain e1 where l: "free_loop drv p ?m 2 0 e = Some (of_nat ?n, e1)" "good e1" "keep e e1" "ent e1 = ent e"
    using free_loop_counts [OF g refl order_refl, of 0] by auto
  have bound: "?n \<le> unat ?m" using free_from_bound [of "ent e" ?m 2] by auto
  then have n32: "unat (of_nat ?n :: u32) = ?n"
    using below_bad [OF g] by (simp add: unat_of_nat LONG_BAD_def word_less_nat_alt)
  note k1 = keep_geometry [OF l(3)]
  show ?thesis
  proof (cases "ISFAT32 (dpbs e p)")
    case True
    let ?f = "\<lambda>d :: dpb. d\<lparr>dpb_xnfreeclst := of_nat ?n\<rparr>"
    let ?e2 = "upd_dpb p ?f e1"
    have "same_geometry (dpbs e1 p) (?f (dpbs e1 p))" by (simp add: same_geometry_def)
    then have u: "good ?e2" "keep e1 ?e2" "ent ?e2 = ent e1" using updates [where f = ?f, OF l(2)] by blast+
    have k2: "ISFAT32 (dpbs ?e2 p)" using keep_geometry [OF u(2)] k1 True by simp
    obtain e3 where w: "write_fsinfo drv p ?e2 = Some e3" "good e3" "keep ?e2 e3" "ent e3 = ent ?e2" "dpbs e3 = dpbs ?e2"
      using fsinfo [OF u(1) k2] by blast
    have "dos_free drv p e = Some (of_nat ?n, e3)" using l(1) True unknown w(1) by (simp add: dos_free_def Let_def)
    moreover have "unat (dpb_xnfreeclst (dpbs e3 p)) = ?n" using w(5) n32 by (simp add: upd_dpb_def)
    moreover have "ent e3 = ent e" using w(4) u(3) l(4) by simp
    ultimately show ?thesis using True w(2) keep_trans [OF l(3) keep_trans [OF u(2) w(3)]] by auto
  next
    case False
    let ?f = "set_nfreeclst (ucast (of_nat ?n :: u32))"
    let ?e2 = "upd_dpb p ?f e1"
    have "same_geometry (dpbs e1 p) (?f (dpbs e1 p))" by (simp add: same_geometry_def set_nfreeclst_def)
    then have u: "good ?e2" "keep e1 ?e2" "ent ?e2 = ent e1" using updates [where f = ?f, OF l(2)] by blast+
    have "dos_free drv p e = Some (of_nat ?n, ?e2)" using l(1) False unknown by (simp add: dos_free_def Let_def)
    moreover have "unat (dpb_nfreeclst (dpbs ?e2 p)) = ?n"
    proof -
      have "?n < 65536" using bound small [OF g] False by (simp add: word_cases)
      then show ?thesis using n32 by (simp add: upd_dpb_def nfreeclst_set unat_ucast_32_16)
    qed
    moreover have "ent ?e2 = ent e" using u(3) l(4) by simp
    ultimately show ?thesis using False u(1) keep_trans [OF l(3) u(2)] by auto
  qed
qed

end

end
