(* ===== verification/Fat_Files.thy ===== *)
theory Fat_Files
  imports Fat_Free
begin

text \<open>
  Clients of the FAT interface, part two: a file is a chain of clusters and a position in it.
  Extending appends a free cluster, moving finds the cluster of an offset, shrinking keeps a
  prefix and frees the rest.
\<close>

section \<open>The first cluster\<close>

text \<open>The first cluster is split into two words on FAT32 and a word otherwise.\<close>

lemma getdstart_setdstart:
  assumes "ISFAT32 d \<or> unat c < 65536"
  shows "getdstart d (setdstart d c de) = c"
proof (cases "ISFAT32 d")
  case True
  have "push_bit 16 (ucast (ucast (drop_bit 16 c) :: u16)) OR ucast (ucast c :: u16) = c"
    by (rule bit_word_eqI) (auto simp: bit_simps dest: bit_imp_le_length)
  then show ?thesis using True by (simp add: getdstart_def setdstart_def Let_def)
next
  case False
  then have "ucast (ucast c :: u16) = c" using assms by (simp add: word_unat_eq_iff unat_ucast_32_16)
  then show ?thesis using False by (simp add: getdstart_def setdstart_def Let_def)
qed

definition first_cluster :: "dpb \<Rightarrow> f_node \<Rightarrow> u32" where
  "first_cluster d fnp = (if f_sft_idx fnp = 0xff then dm_dircluster (f_dmp fnp) else getdstart d (f_dir fnp))"

text \<open>The file node stands at a cluster of the chain \<open>cs\<close>.\<close>

definition fnode_at :: "dpb \<Rightarrow> (u32 \<Rightarrow> u32) \<Rightarrow> f_node \<Rightarrow> u32 list \<Rightarrow> bool" where
  "fnode_at d f fnp cs \<longleftrightarrow> cs \<noteq> [] \<and> chain f (max_cluster d) (first_cluster d fnp) cs
     \<and> unat (f_cluster_offset fnp) < length cs \<and> f_cluster fnp = cs ! unat (f_cluster_offset fnp)"

definition moved :: "f_node \<Rightarrow> u32 list \<Rightarrow> nat \<Rightarrow> f_node" where
  "moved fnp cs k = fnp\<lparr>f_cluster := cs ! k, f_cluster_offset := of_nat k\<rparr>"

lemma unat_offset: "k \<le> unat (rc :: u32) \<Longrightarrow> unat (of_nat k :: u32) = k"
proof -
  assume "k \<le> unat rc"
  then have "k < 4294967296" using unat32_lt [of rc] by linarith
  then show ?thesis by (simp add: unat_of_nat)
qed

lemma offset_neq: "k < unat (rc :: u32) \<Longrightarrow> of_nat k \<noteq> rc"
  using unat_offset [of k rc] by auto

section \<open>Appending to a chain\<close>

lemma chain_append:
  assumes "chain f m s (xs @ [l])" "c \<notin> set (xs @ [l])" "2 \<le> c" "c \<le> m" "distinct (xs @ [l])"
  shows "chain (f(c := LONG_LAST_CLUSTER, l := c)) m s (xs @ [l, c])"
  using assms
proof (induction xs arbitrary: s)
  case Nil
  then show ?case by auto
next
  case (Cons x xs)
  then show ?case by auto
qed

lemma chain_nth:
  assumes "chain f m s cs" "Suc k < length cs"
  shows "f (cs ! k) = cs ! Suc k"
  using assms
proof (induction cs arbitrary: s k)
  case (Cons x xs)
  then show ?case by (cases k; cases xs) auto
qed simp

lemma chain_last:
  assumes "chain f m s cs" "cs \<noteq> []"
  shows "f (last cs) = LONG_LAST_CLUSTER" "last cs \<in> set cs"
proof -
  show "f (last cs) = LONG_LAST_CLUSTER" using assms
    by (induction cs arbitrary: s) (auto split: if_splits)
  show "last cs \<in> set cs" using assms(2) by simp
qed

lemma chain_used: "chain f m s cs \<Longrightarrow> x \<in> set cs \<Longrightarrow> f x \<noteq> FREE"
proof (induction cs arbitrary: s)
  case (Cons y ys)
  have "f y \<noteq> FREE" using Cons.prems(1) by (cases ys) (auto simp: fat_consts word_cases)
  then show ?case using Cons by auto
qed simp

lemma chain_drop: "chain f m s cs \<Longrightarrow> k < length cs \<Longrightarrow> chain f m (cs ! k) (drop k cs)"
proof (induction cs arbitrary: s k)
  case (Cons x xs)
  then show ?case by (cases k) auto
qed simp

lemma chain_take:
  assumes "chain f m s cs" "k < length cs" "distinct cs"
  shows "chain (f(cs ! k := LONG_LAST_CLUSTER)) m s (take (Suc k) cs)"
  using assms
proof (induction cs arbitrary: s k)
  case (Cons x xs)
  show ?case
  proof (cases k)
    case (Suc j)
    have "chain (f(xs ! j := LONG_LAST_CLUSTER)) m (f x) (take (Suc j) xs)"
      by (rule Cons.IH) (use Cons.prems Suc in auto)
    moreover have "x \<noteq> xs ! j" using Cons.prems Suc by auto
    ultimately show ?thesis using Cons.prems unfolding Suc by (simp add: fun_upd_def)
  qed (use Cons.prems in auto)
qed simp

definition free_set :: "(u32 \<Rightarrow> u32) \<Rightarrow> u32 \<Rightarrow> u32 set" where
  "free_set f m = {c. 2 \<le> c \<and> c \<le> m \<and> f c = FREE}"

lemma found_free_set:
  assumes "found_free f m h hint c"
  shows "free_set f m = {} \<Longrightarrow> c = LONG_LAST_CLUSTER" "free_set f m \<noteq> {} \<Longrightarrow> 2 \<le> c \<and> c \<le> m \<and> f c = FREE"
  using assms by (cases rule: found_free_cases, auto simp: free_set_def)+

lemma count_free_hint: "hint_ok (count_free v wf d) = hint_ok d" for wf
  by (simp add: hint_ok_def start_hint_def count_free_def set_nfreeclst_def max_cluster_def ISFAT32_def Let_def)

lemma geometry_dstart:
  assumes "same_geometry d d'"
  shows "getdstart d' = getdstart d" "setdstart d' = setdstart d" "relative_cluster d' = relative_cluster d"
    "first_cluster d' = first_cluster d" "fnode_at d' = fnode_at d"
proof -
  have i: "ISFAT32 d' = ISFAT32 d" "max_cluster d' = max_cluster d" using geometry_fat [OF assms] by simp_all
  have s: "dpb_shftcnt d' = dpb_shftcnt d" by (subst assms [unfolded same_geometry_def]) simp
  show g: "getdstart d' = getdstart d" "setdstart d' = setdstart d"
    by (simp_all add: fun_eq_iff getdstart_def setdstart_def i)
  show "relative_cluster d' = relative_cluster d"
    using same_geometryD(4) [OF assms] s by (simp add: fun_eq_iff relative_cluster_def)
  show f: "first_cluster d' = first_cluster d" by (simp add: fun_eq_iff first_cluster_def g)
  show "fnode_at d' = fnode_at d" by (simp add: fun_eq_iff fnode_at_def f i)
qed

text \<open>
  A chain that has grown by clusters that were free, the number of clusters a file size needs, and
  the entries after a chain is cut.
\<close>

definition grown :: "(u32 \<Rightarrow> u32) \<Rightarrow> (u32 \<Rightarrow> u32) \<Rightarrow> u32 \<Rightarrow> u32 \<Rightarrow> u32 list \<Rightarrow> u32 list \<Rightarrow> bool" where
  "grown f f' m s cs new \<longleftrightarrow> chain f' m s (cs @ new) \<and> set new \<subseteq> free_set f m
     \<and> (\<forall>x. x \<notin> set (cs @ new) \<longrightarrow> f' x = f x)"

definition kept_clusters :: "dpb \<Rightarrow> u32 \<Rightarrow> nat" where
  "kept_clusters d off = (if off = 0 then 0 else unat (relative_cluster d (off - 1)) + 1)"

definition cut_after :: "u32 list \<Rightarrow> nat \<Rightarrow> (u32 \<Rightarrow> u32) \<Rightarrow> u32 \<Rightarrow> u32" where
  "cut_after cs k f x = (if x \<in> set (drop k cs) then FREE else if k > 0 \<and> x = cs ! (k - 1) then LONG_LAST_CLUSTER else f x)"

context fat_store
begin

lemma writes_hint:
  assumes "good e" "2 \<le> c" "c \<le> max_cluster (dpbs e p)" "fat_value (dpbs e p) v"
  shows "\<exists>e'. link_fat drv p c v e = Some (0, e') \<and> good e' \<and> keep e e' \<and> ent e' = (ent e)(c := v)
     \<and> hint_ok (dpbs e' p) = hint_ok (dpbs e p)"
  using writes [OF assms] count_free_hint by (metis (no_types, lifting))

section \<open>Extending a file\<close>

lemma extend_full:
  assumes g: "good e" and h: "hint_ok (dpbs e p)" and f: "f_dpb fnp = p" and none: "free_set (ent e) (max_cluster (dpbs e p)) = {}"
  shows "\<exists>e'. extend drv fnp e = Some (LONG_LAST_CLUSTER, fnp, e') \<and> good e' \<and> keep e e' \<and> ent e' = ent e \<and> hint_ok (dpbs e' p)"
proof -
  obtain hint c e' where r: "find_fat_free drv p e = Some (c, e')"
     "found_free (ent e) (max_cluster (dpbs e p)) (start_hint (dpbs e p)) hint c"
     "good e'" "keep e e'" "ent e' = ent e" "hint_ok (dpbs e' p)" using find_fat_free_ok [OF g h] by blast
  have "c = LONG_LAST_CLUSTER" by (rule found_free_set(1) [OF r(2) none])
  then show ?thesis using r f by (simp add: extend_def Let_def)
qed

lemma extend_first:
  assumes g: "good e" and h: "hint_ok (dpbs e p)" and f: "f_dpb fnp = p" and some: "free_set (ent e) (max_cluster (dpbs e p)) \<noteq> {}"
    and empty: "f_cluster fnp = FREE"
  shows "\<exists>c e'. extend drv fnp e = Some (c, fnp\<lparr>f_dir := setdstart (dpbs e p) c (f_dir fnp)\<rparr>, e') \<and> good e' \<and> keep e e'
     \<and> c \<in> free_set (ent e) (max_cluster (dpbs e p)) \<and> ent e' = (ent e)(c := LONG_LAST_CLUSTER) \<and> hint_ok (dpbs e' p)"
proof -
  let ?m = "max_cluster (dpbs e p)"
  obtain hint c e1 where r: "find_fat_free drv p e = Some (c, e1)" "found_free (ent e) ?m (start_hint (dpbs e p)) hint c"
     "good e1" "keep e e1" "ent e1 = ent e" "hint_ok (dpbs e1 p)" using find_fat_free_ok [OF g h] by blast
  have c: "2 \<le> c" "c \<le> ?m" "ent e c = FREE" using found_free_set(2) [OF r(2) some] by blast+
  have c1: "c \<le> max_cluster (dpbs e1 p)" using c keep_geometry [OF r(4)] by simp
  obtain e2 where w: "link_fat drv p c LONG_LAST_CLUSTER e1 = Some (0, e2)" "good e2" "keep e1 e2"
     "ent e2 = (ent e1)(c := LONG_LAST_CLUSTER)" "hint_ok (dpbs e2 p) = hint_ok (dpbs e1 p)"
    using writes_hint [OF r(3) c(1) c1, of LONG_LAST_CLUSTER] by (auto simp: fat_value_def)
  have k: "keep e e2" by (rule keep_trans [OF r(4) w(3)])
  have "setdstart (dpbs e2 p) = setdstart (dpbs e p)" using keep_geometry [OF k] by (intro geometry_dstart(2)) simp
  then have "extend drv fnp e = Some (c, fnp\<lparr>f_dir := setdstart (dpbs e p) c (f_dir fnp)\<rparr>, e2)"
    using r(1) w(1) f empty end_not_cluster [OF g c(2)] by (simp add: extend_def Let_def)
  then show ?thesis using k w(2,4,5) r(5,6) c by (auto simp: free_set_def)
qed

lemma extend_last:
  assumes g: "good e" and h: "hint_ok (dpbs e p)" and f: "f_dpb fnp = p" and some: "free_set (ent e) (max_cluster (dpbs e p)) \<noteq> {}"
    and l: "2 \<le> f_cluster fnp" "f_cluster fnp \<le> max_cluster (dpbs e p)" "ent e (f_cluster fnp) = LONG_LAST_CLUSTER"
  shows "\<exists>c e'. extend drv fnp e = Some (c, fnp, e') \<and> good e' \<and> keep e e'
     \<and> c \<in> free_set (ent e) (max_cluster (dpbs e p)) \<and> ent e' = (ent e)(c := LONG_LAST_CLUSTER, f_cluster fnp := c) \<and> hint_ok (dpbs e' p)"
proof -
  let ?m = "max_cluster (dpbs e p)" and ?l = "f_cluster fnp"
  obtain hint c e1 where r: "find_fat_free drv p e = Some (c, e1)" "found_free (ent e) ?m (start_hint (dpbs e p)) hint c"
     "good e1" "keep e e1" "ent e1 = ent e" "hint_ok (dpbs e1 p)" using find_fat_free_ok [OF g h] by blast
  have c: "2 \<le> c" "c \<le> ?m" "ent e c = FREE" using found_free_set(2) [OF r(2) some] by blast+
  have c1: "c \<le> max_cluster (dpbs e1 p)" using c keep_geometry [OF r(4)] by simp
  obtain e2 where w: "link_fat drv p c LONG_LAST_CLUSTER e1 = Some (0, e2)" "good e2" "keep e1 e2"
     "ent e2 = (ent e1)(c := LONG_LAST_CLUSTER)" "hint_ok (dpbs e2 p) = hint_ok (dpbs e1 p)"
    using writes_hint [OF r(3) c(1) c1, of LONG_LAST_CLUSTER] by (auto simp: fat_value_def)
  have k2: "keep e e2" by (rule keep_trans [OF r(4) w(3)])
  have m2: "max_cluster (dpbs e2 p) = ?m" using keep_geometry [OF k2] by simp
  have ne: "?l \<noteq> c" using c(3) l(3) by (auto simp: fat_consts)
  have "?l \<noteq> FREE" using l(1) by (auto simp: fat_consts word_cases)
  have el: "ent e2 ?l = LONG_LAST_CLUSTER" using w(4) r(5) ne l(3) by simp
  obtain e3 where n: "next_cluster drv p ?l e2 = Some (follow (ent e2) ?m ?l, e3)" "good e3" "keep e2 e3" "ent e3 = ent e2" "dpbs e3 = dpbs e2"
    using follows [OF w(2) l(1)] l(2) m2 by auto
  have fl: "follow (ent e2) ?m ?l = LONG_LAST_CLUSTER" using el by (simp add: follow_def Let_def fat_consts)
  have l3: "?l \<le> max_cluster (dpbs e3 p)" using n(5) m2 l(2) by simp
  have v: "fat_value (dpbs e3 p) c" using n(5) m2 c by (simp add: fat_value_def)
  obtain e4 where x: "link_fat drv p ?l c e3 = Some (0, e4)" "good e4" "keep e3 e4" "ent e4 = (ent e3)(?l := c)"
     "hint_ok (dpbs e4 p) = hint_ok (dpbs e3 p)" using writes_hint [OF n(2) l(1) l3 v] by blast
  have "extend drv fnp e = Some (c, fnp, e4)"
    using r(1) w(1) f \<open>?l \<noteq> FREE\<close> end_not_cluster [OF g c(2)] n(1) fl x(1) by (simp add: extend_def Let_def)
  moreover have "keep e e4" by (rule keep_trans [OF k2 keep_trans [OF n(3) x(3)]])
  moreover have "ent e4 = (ent e)(c := LONG_LAST_CLUSTER, ?l := c)" using x(4) n(4) w(4) r(5) by simp
  moreover have "hint_ok (dpbs e4 p)" using x(5) n(5) w(5) r(6) by simp
  ultimately show ?thesis using x(2) c by (auto simp: free_set_def)
qed

section \<open>Moving along a chain\<close>

lemma step_to:
  assumes g: "good e" and ch: "chain (ent e) (max_cluster (dpbs e p)) s cs" and k: "k < length cs"
  shows "\<exists>e'. next_cluster drv p (cs ! k) e = Some (if Suc k < length cs then cs ! Suc k else LONG_LAST_CLUSTER, e')
     \<and> good e' \<and> keep e e' \<and> ent e' = ent e \<and> dpbs e' = dpbs e"
proof -
  let ?m = "max_cluster (dpbs e p)"
  have "cs ! k \<in> set cs" using k by simp
  then have c: "2 \<le> cs ! k" "cs ! k \<le> ?m" using chain_clusters [OF ch] by blast+
  have d: "chain (ent e) ?m (cs ! k) (cs ! k # drop (Suc k) cs)"
    using chain_drop [OF ch k] k by (simp add: Cons_nth_drop_Suc)
  have "ent e (cs ! k) = (if Suc k < length cs then cs ! Suc k else LONG_LAST_CLUSTER)"
    using d by (cases "drop (Suc k) cs") (auto simp: nth_via_drop)
  then show ?thesis using follows [OF g c] follow_chain(1) [OF below_bad [OF g] d] by simp
qed

text \<open>For reading: the cluster is found, or the offset is past the end of the chain.\<close>

lemma map_loop_read:
  "good e \<Longrightarrow> chain (ent e) (max_cluster (dpbs e p)) s cs \<Longrightarrow> k < length cs \<Longrightarrow> k \<le> unat rc \<Longrightarrow> f_dpb fnp = p \<Longrightarrow>
   \<exists>e'. map_loop drv XFR_READ rc (moved fnp cs k) e =
        Some (if unat rc < length cs then (Inr (), moved fnp cs (unat rc), e')
              else (Inl DE_SEEK, moved fnp cs (length cs - 1), e'))
     \<and> good e' \<and> keep e e' \<and> ent e' = ent e \<and> dpbs e' = dpbs e"
proof (induction "unat rc - k" arbitrary: k e)
  case 0
  then have "k = unat rc" by simp
  then have "of_nat k = rc" by simp
  then show ?case using 0 keep_refl [of e] by (subst map_loop.simps) (auto simp: moved_def)
next
  case (Suc j)
  have kk: "unat (of_nat k :: u32) = k" by (rule unat_offset [OF Suc.prems(4)])
  then have ne: "of_nat k \<noteq> rc" using Suc.hyps(2) by auto
  obtain e1 where n: "next_cluster drv p (cs ! k) e = Some (if Suc k < length cs then cs ! Suc k else LONG_LAST_CLUSTER, e1)"
     "good e1" "keep e e1" "ent e1 = ent e" "dpbs e1 = dpbs e" using step_to [OF Suc.prems(1-3)] by blast
  show ?case
  proof (cases "Suc k < length cs")
    case True
    then have "cs ! Suc k \<in> set cs" by simp
    then have c: "2 \<le> cs ! Suc k" "cs ! Suc k \<le> max_cluster (dpbs e p)" using chain_clusters [OF Suc.prems(2)] by blast+
    have "moved fnp cs (Suc k) = (moved fnp cs k)\<lparr>f_cluster := cs ! Suc k, f_cluster_offset := of_nat k + 1\<rparr>"
      by (simp add: moved_def add.commute)
    then have st: "map_loop drv XFR_READ rc (moved fnp cs k) e = map_loop drv XFR_READ rc (moved fnp cs (Suc k)) e1"
      using ne n(1) True Suc.prems(5) c(1) [folded over_one] end_not_cluster [OF Suc.prems(1) c(2)]
      by (subst map_loop.simps) (simp add: moved_def add.commute)
    have "j = unat rc - Suc k" "Suc k \<le> unat rc" using Suc.hyps(2) by simp_all
    moreover have "chain (ent e1) (max_cluster (dpbs e1 p)) s cs" using Suc.prems(2) n(4,5) by simp
    ultimately obtain e' where l: "map_loop drv XFR_READ rc (moved fnp cs (Suc k)) e1 =
        Some (if unat rc < length cs then (Inr (), moved fnp cs (unat rc), e') else (Inl DE_SEEK, moved fnp cs (length cs - 1), e'))"
       "good e'" "keep e1 e'" "ent e' = ent e1" "dpbs e' = dpbs e1"
      using Suc.hyps(1) [OF _ n(2) _ True] Suc.prems(5) by blast
    show ?thesis using st l(1,2) l(4,5) n(4,5) keep_trans [OF n(3) l(3)] by simp
  next
    case False
    then have k: "k = length cs - 1" "\<not> unat rc < length cs" using Suc.prems(3) Suc.hyps(2) by auto
    have "map_loop drv XFR_READ rc (moved fnp cs k) e = Some (Inl DE_SEEK, moved fnp cs k, e1)"
      using ne n(1) False Suc.prems(5) by (subst map_loop.simps) (simp add: moved_def fat_consts)
    then show ?thesis using n k by auto
  qed
qed

text \<open>
  For writing: the chain is extended by clusters that were free until it reaches the offset, or
  until the drive is full.
\<close>

lemma grown_trans:
  assumes "grown f g m s cs [c]" "grown g h m s (cs @ [c]) new" "m < LONG_BAD"
  shows "grown f h m s cs (c # new)"
proof -
  have "free_set g m - set (cs @ [c]) \<subseteq> free_set f m" using assms(1) by (auto simp: grown_def free_set_def)
  moreover have "distinct ((cs @ [c]) @ new)" using assms(2,3) chain_distinct unfolding grown_def by blast
  ultimately have "set new \<subseteq> free_set f m" using assms(2) by (auto simp: grown_def)
  then show ?thesis using assms(1,2) by (auto simp: grown_def)
qed

lemma map_loop_write:
  "good e \<Longrightarrow> hint_ok (dpbs e p) \<Longrightarrow> m = max_cluster (dpbs e p) \<Longrightarrow> chain (ent e) m s cs \<Longrightarrow> k < length cs \<Longrightarrow>
   k \<le> unat rc \<Longrightarrow> f_dpb fnp = p \<Longrightarrow>
   \<exists>r new k' e'. map_loop drv XFR_WRITE rc (moved fnp cs k) e = Some (r, moved fnp (cs @ new) k', e')
     \<and> good e' \<and> keep e e' \<and> hint_ok (dpbs e' p) \<and> grown (ent e) (ent e') m s cs new
     \<and> (r = Inr () \<and> k' = unat rc \<and> length (cs @ new) = max (length cs) (unat rc + 1)
        \<or> r = Inl DE_HNDLDSKFULL \<and> k' = length (cs @ new) - 1 \<and> length (cs @ new) \<le> unat rc \<and> free_set (ent e') m = {})"
proof (induction "unat rc - k" arbitrary: k e cs)
  case 0
  then have k: "k = unat rc" by simp
  then have "map_loop drv XFR_WRITE rc (moved fnp cs k) e = Some (Inr (), moved fnp (cs @ []) (unat rc), e)"
    by (subst map_loop.simps) (simp add: moved_def)
  moreover have "grown (ent e) (ent e) m s cs []" using 0 by (simp add: grown_def)
  moreover have "length (cs @ []) = max (length cs) (unat rc + 1)" using 0 k by simp
  ultimately show ?case using 0 keep_refl [of e] by blast
next
  case (Suc j)
  have ne: "of_nat k \<noteq> rc" using Suc.hyps(2) by (intro offset_neq) simp
  have ch: "chain (ent e) (max_cluster (dpbs e p)) s cs" using Suc.prems(3,4) by simp
  have j: "j = unat rc - Suc k" "Suc k \<le> unat rc" using Suc.hyps(2) by simp_all
  obtain e1 where n: "next_cluster drv p (cs ! k) e = Some (if Suc k < length cs then cs ! Suc k else LONG_LAST_CLUSTER, e1)"
     "good e1" "keep e e1" "ent e1 = ent e" "dpbs e1 = dpbs e" using step_to [OF Suc.prems(1) ch Suc.prems(5)] by blast
  have h1: "hint_ok (dpbs e1 p)" "m = max_cluster (dpbs e1 p)" "chain (ent e1) m s cs" using n(4,5) Suc.prems(2-4) by simp_all
  show ?case
  proof (cases "Suc k < length cs")
    case True
    then have "cs ! Suc k \<in> set cs" by simp
    then have c: "2 \<le> cs ! Suc k" "cs ! Suc k \<le> max_cluster (dpbs e p)" using chain_clusters [OF ch] by blast+
    have "moved fnp cs (Suc k) = (moved fnp cs k)\<lparr>f_cluster := cs ! Suc k, f_cluster_offset := of_nat k + 1\<rparr>"
      by (simp add: moved_def add.commute)
    then have st: "map_loop drv XFR_WRITE rc (moved fnp cs k) e = map_loop drv XFR_WRITE rc (moved fnp cs (Suc k)) e1"
      using ne n(1) True Suc.prems(7) c(1) [folded over_one] end_not_cluster [OF Suc.prems(1) c(2)]
      by (subst map_loop.simps) (simp add: moved_def add.commute)
    show ?thesis
      using Suc.hyps(1) [OF j(1) n(2) h1 True j(2) Suc.prems(7)] keep_trans [OF n(3)] unfolding st n(4) by blast
  next
    case False
    then have k: "k = length cs - 1" "Suc k = length cs" using Suc.prems(5) by auto
    have ds: "cs \<noteq> []" using Suc.prems(5) by auto
    then have "last cs = cs ! k" using k(1) by (simp add: last_conv_nth)
    note ds = ds this
    note lst = chain_last [OF ch ds(1), unfolded ds(2)]
    have l: "2 \<le> cs ! k" "cs ! k \<le> max_cluster (dpbs e1 p)" "ent e1 (cs ! k) = LONG_LAST_CLUSTER"
      using chain_clusters [OF ch lst(2)] lst(1) n(4,5) by simp_all
    have fc: "f_cluster (moved fnp cs k) = cs ! k" "f_dpb (moved fnp cs k) = p" using Suc.prems(7) by (simp_all add: moved_def)
    have st: "map_loop drv XFR_WRITE rc (moved fnp cs k) e =
       Option.bind (extend drv (moved fnp cs k) e1) (\<lambda>(cl2, fnp2, e2).
          if cl2 = LONG_LAST_CLUSTER then Some (Inl DE_HNDLDSKFULL, fnp2, e2)
          else map_loop drv XFR_WRITE rc (fnp2\<lparr>f_cluster := cl2, f_cluster_offset := f_cluster_offset fnp2 + 1\<rparr>) e2)"
      using ne n(1) False Suc.prems(7) by (subst map_loop.simps) (simp add: moved_def fat_consts word_le_nat_alt)
    show ?thesis
    proof (cases "free_set (ent e1) m = {}")
      case True
      then obtain e2 where x: "extend drv (moved fnp cs k) e1 = Some (LONG_LAST_CLUSTER, moved fnp cs k, e2)"
         "good e2" "keep e1 e2" "ent e2 = ent e1" "hint_ok (dpbs e2 p)"
        using extend_full [OF n(2) h1(1) fc(2)] h1(2) by auto
      have "map_loop drv XFR_WRITE rc (moved fnp cs k) e = Some (Inl DE_HNDLDSKFULL, moved fnp (cs @ []) (length (cs @ []) - 1), e2)"
        unfolding st x(1) using k by simp
      moreover have "grown (ent e) (ent e2) m s cs []" using Suc.prems(4) x(4) n(4) by (simp add: grown_def)
      moreover have "length (cs @ []) \<le> unat rc" using k j by simp
      moreover have "free_set (ent e2) m = {}" using True x(4) by simp
      ultimately show ?thesis using x(2,5) keep_trans [OF n(3) x(3)] by blast
    next
      case some: False
      then obtain c e2 where x: "extend drv (moved fnp cs k) e1 = Some (c, moved fnp cs k, e2)" "good e2" "keep e1 e2"
         "c \<in> free_set (ent e1) m" "ent e2 = (ent e1)(c := LONG_LAST_CLUSTER, cs ! k := c)" "hint_ok (dpbs e2 p)"
        using extend_last [OF n(2) h1(1) fc(2)] h1(2) l unfolding fc(1) by auto
      have m2: "m = max_cluster (dpbs e2 p)" using keep_geometry [OF x(3)] h1(2) by simp
      have c: "2 \<le> c" "c \<le> m" "ent e1 c = FREE" using x(4) by (simp_all add: free_set_def)
      have cs: "cs = butlast cs @ [cs ! k]" using ds by (metis append_butlast_last_id)
      have dist: "distinct cs" by (rule chain_distinct [OF below_bad [OF Suc.prems(1)] ch])
      have "c \<notin> set cs" using chain_used [OF ch] c(3) n(4) by auto
      then have app: "chain (ent e2) m s (cs @ [c])"
        using chain_append [of "ent e1" m s "butlast cs" "cs ! k" c] h1(3) c(1,2) dist x(5) cs by (metis append.assoc append_Cons append_Nil)
      have g1: "grown (ent e) (ent e2) m s cs [c]"
        using app x(4,5) n(4) lst(2) by (auto simp: grown_def)
      have ck: "c \<noteq> LONG_LAST_CLUSTER" using end_not_cluster [OF n(2)] c(2) h1(2) by simp
      have "(moved fnp cs k)\<lparr>f_cluster := c, f_cluster_offset := f_cluster_offset (moved fnp cs k) + 1\<rparr> = moved fnp (cs @ [c]) (Suc k)"
        by (simp add: moved_def nth_append add.commute flip: k(2))
      then have st2: "map_loop drv XFR_WRITE rc (moved fnp cs k) e = map_loop drv XFR_WRITE rc (moved fnp (cs @ [c]) (Suc k)) e2"
        unfolding st x(1) using ck by simp
      have k2: "Suc k < length (cs @ [c])" using k by simp
      obtain r new k' e' where l2: "map_loop drv XFR_WRITE rc (moved fnp (cs @ [c]) (Suc k)) e2 = Some (r, moved fnp ((cs @ [c]) @ new) k', e')"
         "good e'" "keep e2 e'" "hint_ok (dpbs e' p)" "grown (ent e2) (ent e') m s (cs @ [c]) new"
         "r = Inr () \<and> k' = unat rc \<and> length ((cs @ [c]) @ new) = max (length (cs @ [c])) (unat rc + 1)
          \<or> r = Inl DE_HNDLDSKFULL \<and> k' = length ((cs @ [c]) @ new) - 1 \<and> length ((cs @ [c]) @ new) \<le> unat rc \<and> free_set (ent e') m = {}"
        using Suc.hyps(1) [OF j(1) x(2,6) m2 app k2 j(2) Suc.prems(7)] by blast
      have "map_loop drv XFR_WRITE rc (moved fnp cs k) e = Some (r, moved fnp (cs @ c # new) k', e')" using st2 l2(1) by simp
      moreover have "grown (ent e) (ent e') m s cs (c # new)"
        by (rule grown_trans [OF g1 l2(5)]) (use below_bad [OF n(2)] h1(2) in simp)
      moreover have "r = Inr () \<and> k' = unat rc \<and> length (cs @ c # new) = max (length cs) (unat rc + 1)
          \<or> r = Inl DE_HNDLDSKFULL \<and> k' = length (cs @ c # new) - 1 \<and> length (cs @ c # new) \<le> unat rc \<and> free_set (ent e') m = {}"
        using l2(6) k j by auto
      moreover have "keep e e'" by (rule keep_trans [OF n(3) keep_trans [OF x(3) l2(3)]])
      ultimately show ?thesis using l2(2,4) by blast
    qed
  qed
qed

section \<open>The cluster of an offset\<close>

lemma moved_moved [simp]: "moved (moved fnp cs k) ds j = moved fnp ds j" "f_dpb (moved fnp cs k) = f_dpb fnp"
  "f_dir (moved fnp cs k) = f_dir fnp" "f_offset (moved fnp cs k) = f_offset fnp" "f_cluster (moved fnp cs k) = cs ! k"
  "f_sft_idx (moved fnp cs k) = f_sft_idx fnp"
  by (simp_all add: moved_def)

lemma fnode_at_start:
  assumes "fnode_at d f fnp cs"
  obtains k where "rewind d rc fnp = moved fnp cs k" "k < length cs" "k \<le> unat rc"
proof (cases "rc < f_cluster_offset fnp")
  case True
  have "cs ! 0 = first_cluster d fnp" using assms by (cases cs) (auto simp: fnode_at_def)
  then have "rewind d rc fnp = moved fnp cs 0" using True by (simp add: rewind_def moved_def first_cluster_def)
  then show ?thesis using assms that [of 0] by (simp add: fnode_at_def)
next
  case False
  have "fnp = moved fnp cs (unat (f_cluster_offset fnp))" using assms by (simp add: fnode_at_def moved_def)
  then show ?thesis using assms False that [of "unat (f_cluster_offset fnp)"] by (simp add: fnode_at_def rewind_def word_cases)
qed

lemma fnode_at_cluster:
  assumes "fnode_at d f fnp cs"
  shows "2 \<le> f_cluster fnp" "f_cluster fnp \<noteq> FREE"
proof -
  have "f_cluster fnp \<in> set cs" using assms by (simp add: fnode_at_def)
  then show "2 \<le> f_cluster fnp" using assms chain_clusters unfolding fnode_at_def by blast
  then show "f_cluster fnp \<noteq> FREE" by (auto simp: FREE_def word_cases)
qed

lemma map_cluster_read:
  assumes g: "good e" and f: "f_dpb fnp = p" and at: "fnode_at (dpbs e p) (ent e) fnp cs"
  shows "\<exists>e'. map_cluster drv XFR_READ fnp e =
       Some (if unat (relative_cluster (dpbs e p) (f_offset fnp)) < length cs
             then (Inr (), moved fnp cs (unat (relative_cluster (dpbs e p) (f_offset fnp))), e')
             else (Inl DE_SEEK, moved fnp cs (length cs - 1), e'))
     \<and> good e' \<and> keep e e' \<and> ent e' = ent e \<and> dpbs e' = dpbs e"
proof -
  let ?rc = "relative_cluster (dpbs e p) (f_offset fnp)"
  obtain k where k: "rewind (dpbs e p) ?rc fnp = moved fnp cs k" "k < length cs" "k \<le> unat ?rc"
    by (rule fnode_at_start [OF at])
  have m: "map_cluster drv XFR_READ fnp e = map_loop drv XFR_READ ?rc (moved fnp cs k) e"
    using fnode_at_cluster(2) [OF at] f k(1) by (simp add: map_cluster_def Let_def)
  have ch: "chain (ent e) (max_cluster (dpbs e p)) (first_cluster (dpbs e p) fnp) cs" using at by (simp add: fnode_at_def)
  show ?thesis unfolding m by (rule map_loop_read [OF g ch k(2,3) f])
qed

lemma map_cluster_write:
  assumes g: "good e" and h: "hint_ok (dpbs e p)" and f: "f_dpb fnp = p" and at: "fnode_at (dpbs e p) (ent e) fnp cs"
  shows "\<exists>r new k' e'. map_cluster drv XFR_WRITE fnp e = Some (r, moved fnp (cs @ new) k', e')
     \<and> good e' \<and> keep e e' \<and> hint_ok (dpbs e' p)
     \<and> grown (ent e) (ent e') (max_cluster (dpbs e p)) (first_cluster (dpbs e p) fnp) cs new
     \<and> (r = Inr () \<and> k' = unat (relative_cluster (dpbs e p) (f_offset fnp))
           \<and> length (cs @ new) = max (length cs) (unat (relative_cluster (dpbs e p) (f_offset fnp)) + 1)
        \<or> r = Inl DE_HNDLDSKFULL \<and> k' = length (cs @ new) - 1
           \<and> length (cs @ new) \<le> unat (relative_cluster (dpbs e p) (f_offset fnp)) \<and> free_set (ent e') (max_cluster (dpbs e p)) = {})"
proof -
  let ?rc = "relative_cluster (dpbs e p) (f_offset fnp)"
  obtain k where k: "rewind (dpbs e p) ?rc fnp = moved fnp cs k" "k < length cs" "k \<le> unat ?rc"
    by (rule fnode_at_start [OF at])
  have m: "map_cluster drv XFR_WRITE fnp e = map_loop drv XFR_WRITE ?rc (moved fnp cs k) e"
    using fnode_at_cluster(2) [OF at] f k(1) by (simp add: map_cluster_def Let_def)
  have ch: "chain (ent e) (max_cluster (dpbs e p)) (first_cluster (dpbs e p) fnp) cs" using at by (simp add: fnode_at_def)
  show ?thesis unfolding m by (rule map_loop_write [OF g h refl ch k(2,3) f])
qed

text \<open>A write to an empty file gives it a first cluster.\<close>

lemma map_cluster_first:
  assumes g: "good e" and h: "hint_ok (dpbs e p)" and f: "f_dpb fnp = p" and empty: "f_cluster fnp = FREE" "f_cluster_offset fnp = 0"
    and sft: "f_sft_idx fnp \<noteq> 0xff" and some: "free_set (ent e) (max_cluster (dpbs e p)) \<noteq> {}"
  shows "\<exists>r c new fnp1 k' e'. map_cluster drv XFR_WRITE fnp e = Some (r, moved fnp1 (c # new) k', e')
     \<and> fnp1 = fnp\<lparr>f_dir := setdstart (dpbs e p) c (f_dir fnp)\<rparr> \<and> first_cluster (dpbs e p) fnp1 = c
     \<and> good e' \<and> keep e e' \<and> hint_ok (dpbs e' p)
     \<and> chain (ent e') (max_cluster (dpbs e p)) c (c # new) \<and> set (c # new) \<subseteq> free_set (ent e) (max_cluster (dpbs e p))
     \<and> (\<forall>x. x \<notin> set (c # new) \<longrightarrow> ent e' x = ent e x)
     \<and> (r = Inr () \<and> length (c # new) = unat (relative_cluster (dpbs e p) (f_offset fnp)) + 1
        \<or> r = Inl DE_HNDLDSKFULL \<and> free_set (ent e') (max_cluster (dpbs e p)) = {})"
proof -
  let ?d = "dpbs e p" and ?m = "max_cluster (dpbs e p)"
  let ?rc = "relative_cluster ?d (f_offset fnp)"
  obtain c e1 where x: "extend drv fnp e = Some (c, fnp\<lparr>f_dir := setdstart ?d c (f_dir fnp)\<rparr>, e1)" "good e1" "keep e e1"
     "c \<in> free_set (ent e) ?m" "ent e1 = (ent e)(c := LONG_LAST_CLUSTER)" "hint_ok (dpbs e1 p)"
    using extend_first [OF g h f some empty(1)] by blast
  let ?fnp1 = "fnp\<lparr>f_dir := setdstart ?d c (f_dir fnp)\<rparr>"
  have c: "2 \<le> c" "c \<le> ?m" "ent e c = FREE" using x(4) by (simp_all add: free_set_def)
  note geo = keep_geometry [OF x(3)]
  have rel: "relative_cluster (dpbs e1 p) = relative_cluster ?d" using geo by (intro geometry_dstart(3)) simp
  have "ISFAT32 ?d \<or> unat c < 65536" using c(2) small [OF g] by (cases "ISFAT32 ?d") (simp_all add: word_cases)
  then have first: "first_cluster ?d ?fnp1 = c" using sft getdstart_setdstart by (simp add: first_cluster_def)
  have mv: "?fnp1\<lparr>f_cluster := c\<rparr> = moved ?fnp1 [c] 0" using empty(2) by (simp add: moved_def)
  have start: "rewind (dpbs e1 p) ?rc (moved ?fnp1 [c] 0) = moved ?fnp1 [c] 0" by (simp add: rewind_def moved_def)
  have st: "map_cluster drv XFR_WRITE fnp e = map_loop drv XFR_WRITE ?rc (moved ?fnp1 [c] 0) e1"
    using x(1) f empty(1) end_not_cluster [OF g c(2)] mv start rel by (simp add: map_cluster_def Let_def)
  have ch: "chain (ent e1) ?m c [c]" using c(1,2) x(5) by simp
  have f1: "f_dpb ?fnp1 = p" using f by simp
  have m1: "?m = max_cluster (dpbs e1 p)" using geo by simp
  obtain r new k' e' where l: "map_loop drv XFR_WRITE ?rc (moved ?fnp1 [c] 0) e1 = Some (r, moved ?fnp1 ([c] @ new) k', e')"
     "good e'" "keep e1 e'" "hint_ok (dpbs e' p)" "grown (ent e1) (ent e') ?m c [c] new"
     "r = Inr () \<and> k' = unat ?rc \<and> length ([c] @ new) = max (length [c]) (unat ?rc + 1)
      \<or> r = Inl DE_HNDLDSKFULL \<and> k' = length ([c] @ new) - 1 \<and> length ([c] @ new) \<le> unat ?rc \<and> free_set (ent e') ?m = {}"
    using map_loop_write [OF x(2,6) m1 ch _ _ f1, of 0 ?rc] by auto
  have "free_set (ent e1) ?m \<subseteq> free_set (ent e) ?m" using x(5) by (auto simp: free_set_def fat_consts split: if_splits)
  then have sub: "set (c # new) \<subseteq> free_set (ent e) ?m" using l(5) x(4) by (auto simp: grown_def)
  have same: "\<forall>y. y \<notin> set (c # new) \<longrightarrow> ent e' y = ent e y" using l(5) x(5) by (auto simp: grown_def)
  have ch': "chain (ent e') ?m c (c # new)" using l(5) by (simp add: grown_def)
  have res: "r = Inr () \<and> length (c # new) = unat ?rc + 1 \<or> r = Inl DE_HNDLDSKFULL \<and> free_set (ent e') ?m = {}" using l(6) by auto
  have mc: "map_cluster drv XFR_WRITE fnp e = Some (r, moved ?fnp1 (c # new) k', e')" using st l(1) by simp
  show ?thesis
    using mc first l(2) keep_trans [OF x(3) l(3)] l(4) ch' sub same res by blast
qed

section \<open>Shrinking a file\<close>

lemma shrink_tail:
  assumes g: "good e" and ch: "chain (ent e) (max_cluster (dpbs e p)) s cs" and j: "j < length cs" and v: "v = FREE \<or> v = LONG_LAST_CLUSTER"
  shows "\<exists>e3 e'. link_fat drv p (cs ! j) v e = Some (0, e3)
     \<and> wipe_out_clusters drv p (if Suc j < length cs then cs ! Suc j else LONG_LAST_CLUSTER) e3 = Some e' \<and> good e' \<and> keep e e'
     \<and> (\<forall>x. ent e' x = (if x \<in> set (drop (Suc j) cs) then FREE else if x = cs ! j then v else ent e x))"
proof -
  let ?m = "max_cluster (dpbs e p)" and ?n = "if Suc j < length cs then cs ! Suc j else LONG_LAST_CLUSTER"
  have "cs ! j \<in> set cs" using j by simp
  then have c: "2 \<le> cs ! j" "cs ! j \<le> ?m" using chain_clusters [OF ch] by blast+
  have fv: "fat_value (dpbs e p) v" using v by (auto simp: fat_value_def)
  obtain e3 where w: "link_fat drv p (cs ! j) v e = Some (0, e3)" "good e3" "keep e e3" "ent e3 = (ent e)(cs ! j := v)"
    using writes [OF g c fv] by blast
  have "chain (ent e) ?m (cs ! j) (cs ! j # drop (Suc j) cs)" using chain_drop [OF ch j] j by (simp add: Cons_nth_drop_Suc)
  then have t: "chain (ent e) ?m (ent e (cs ! j)) (drop (Suc j) cs)" by simp
  have ee: "ent e (cs ! j) = ?n" using t by (cases "drop (Suc j) cs") (auto simp: nth_via_drop)
  have nin: "cs ! j \<notin> set (drop (Suc j) cs)"
  proof -
    have "distinct (drop j cs)" using chain_distinct [OF below_bad [OF g] ch] by simp
    then show ?thesis using j by (simp flip: Cons_nth_drop_Suc)
  qed
  have "chain (ent e3) ?m ?n (drop (Suc j) cs)"
  proof (rule chain_cong [OF t [unfolded ee]])
    show "ent e3 x = ent e x" if "x \<in> set (drop (Suc j) cs)" for x using w(4) nin that by auto
  qed
  then have t3: "chain (ent e3) (max_cluster (dpbs e3 p)) ?n (drop (Suc j) cs)" using keep_geometry [OF w(3)] by simp
  obtain e' where x: "wipe_out_clusters drv p ?n e3 = Some e'" "good e'" "keep e3 e'"
     "ent e' = (\<lambda>c. if c \<in> set (drop (Suc j) cs) then FREE else ent e3 c)"
    using wipe_out_clusters_chain [OF w(2) t3] by blast
  have "\<forall>y. ent e' y = (if y \<in> set (drop (Suc j) cs) then FREE else if y = cs ! j then v else ent e y)"
    unfolding x(4) w(4) by simp
  then show ?thesis using w(1) x(1,2) keep_trans [OF w(3) x(3)] by blast
qed

lemma shrink_body_ok:
  assumes g: "good e" and f: "f_dpb fnp = p" and at: "fnode_at (dpbs e p) (ent e) fnp cs"
    and rc: "unat (relative_cluster (dpbs e p) (f_offset fnp)) = j" "j < length cs" and z: "dir_size (f_dir fnp) = 0 \<Longrightarrow> j = 0"
  shows "\<exists>e'. shrink_body drv fnp e = Some (Inr (), if dir_size (f_dir fnp) = 0
          then (moved fnp cs 0)\<lparr>f_cluster := FREE, f_dir := setdstart (dpbs e p) FREE (f_dir fnp)\<rparr> else moved fnp cs j, e')
     \<and> good e' \<and> keep e e' \<and> (\<forall>x. ent e' x = cut_after cs (if dir_size (f_dir fnp) = 0 then 0 else Suc j) (ent e) x)"
proof -
  let ?d = "dpbs e p" and ?m = "max_cluster (dpbs e p)"
  let ?n = "if Suc j < length cs then cs ! Suc j else LONG_LAST_CLUSTER"
  have ch: "chain (ent e) ?m (first_cluster ?d fnp) cs" using at by (simp add: fnode_at_def)
  obtain e1 where mc: "map_cluster drv XFR_READ fnp e = Some (Inr (), moved fnp cs j, e1)"
     "good e1" "keep e e1" "ent e1 = ent e" "dpbs e1 = dpbs e" using map_cluster_read [OF g f at] rc by auto
  have ch1: "chain (ent e1) (max_cluster (dpbs e1 p)) (first_cluster ?d fnp) cs" using ch mc(4,5) by simp
  obtain e2 where n: "next_cluster drv p (cs ! j) e1 = Some (?n, e2)" "good e2" "keep e1 e2" "ent e2 = ent e1" "dpbs e2 = dpbs e1"
    using step_to [OF mc(2) ch1 rc(2)] by blast
  have ch2: "chain (ent e2) (max_cluster (dpbs e2 p)) (first_cluster ?d fnp) cs" using ch1 n(4,5) by simp
  have k2: "keep e e2" by (rule keep_trans [OF mc(3) n(3)])
  have e2: "ent e2 = ent e" "dpbs e2 = dpbs e" using n(4,5) mc(4,5) by simp_all
  have big: "\<not> ?n \<le> 1"
    using chain_clusters [OF ch] nth_mem [of "Suc j" cs] unfolding over_one by (auto simp: fat_consts word_le_nat_alt)
  show ?thesis
  proof (cases "dir_size (f_dir fnp) \<noteq> 0 \<and> Suc j = length cs")
    case True
    then have "j = length cs - 1" "cs \<noteq> []" by auto
    then have "cs ! j = last cs" "cs \<noteq> []" by (simp_all add: last_conv_nth)
    then have "ent e (cs ! j) = LONG_LAST_CLUSTER" using chain_last(1) [OF ch] by simp
    moreover have "drop (Suc j) cs = []" using True by simp
    ultimately have "\<forall>x. ent e2 x = cut_after cs (Suc j) (ent e) x" using e2 by (simp add: cut_after_def)
    moreover have "shrink_body drv fnp e = Some (Inr (), moved fnp cs j, e2)"
      using mc(1) n(1) f True by (simp add: shrink_body_def Let_def fat_consts word_le_nat_alt)
    ultimately show ?thesis using n(2) k2 True by auto
  next
    case False
    let ?v = "if dir_size (f_dir fnp) = 0 then FREE else LONG_LAST_CLUSTER"
    have v: "?v = FREE \<or> ?v = LONG_LAST_CLUSTER" by simp
    obtain e3 e4 where t: "link_fat drv p (cs ! j) ?v e2 = Some (0, e3)" "wipe_out_clusters drv p ?n e3 = Some e4" "good e4" "keep e2 e4"
       "\<forall>x. ent e4 x = (if x \<in> set (drop (Suc j) cs) then FREE else if x = cs ! j then ?v else ent e2 x)"
      using shrink_tail [OF n(2) ch2 rc(2) v] by blast
    obtain e5 where fl: "flush_buffers drv (dpb_unit (dpbs e4 p)) e4 = Some (True, e5)" "good e5" "keep e4 e5" "ent e5 = ent e4"
      using flushes [OF t(3)] by blast
    have nl: "dir_size (f_dir fnp) \<noteq> 0 \<longrightarrow> ?n \<noteq> LONG_LAST_CLUSTER"
    proof
      assume "dir_size (f_dir fnp) \<noteq> 0"
      then have "Suc j < length cs" using False rc(2) by linarith
      then show "?n \<noteq> LONG_LAST_CLUSTER" using chain_clusters [OF ch nth_mem] end_not_cluster [OF g] by simp
    qed
    have res: "shrink_body drv fnp e = Some (Inr (), if dir_size (f_dir fnp) = 0
          then (moved fnp cs 0)\<lparr>f_cluster := FREE, f_dir := setdstart ?d FREE (f_dir fnp)\<rparr> else moved fnp cs j, e5)"
    proof (cases "dir_size (f_dir fnp) = 0")
      case True
      then have "j = 0" by (rule z)
      then show ?thesis using mc(1) n(1) f True big t(1,2) fl(1) e2(2) by (simp add: shrink_body_def Let_def)
    next
      case False
      then show ?thesis using mc(1) n(1) f nl big t(1,2) fl(1) by (simp add: shrink_body_def Let_def)
    qed
    have "set (drop 0 cs) = insert (cs ! 0) (set (drop (Suc 0) cs))" using rc(2) by (cases cs) auto
    then have "\<forall>x. ent e5 x = cut_after cs (if dir_size (f_dir fnp) = 0 then 0 else Suc j) (ent e) x"
      using fl(4) t(5) e2(1) z by (auto simp: cut_after_def)
    then show ?thesis using res fl(2) keep_trans [OF k2 keep_trans [OF t(4) fl(3)]] by blast
  qed
qed

lemma shrink_to:
  assumes g: "good e" and f: "f_dpb fnp = p" and at: "fnode_at (dpbs e p) (ent e) fnp cs"
    and sz: "dir_size (f_dir fnp) = f_offset fnp" and k: "kept_clusters (dpbs e p) (f_offset fnp) = k" "k \<le> length cs"
  shows "\<exists>fnp' e'. shrink_file drv fnp e = Some (Inr (), fnp', e') \<and> good e' \<and> keep e e'
     \<and> f_offset fnp' = f_offset fnp \<and> (f_dir fnp' = (if k = 0 then setdstart (dpbs e p) FREE (f_dir fnp) else f_dir fnp))
     \<and> f_cluster fnp' = (if k = 0 then FREE else cs ! (k - 1)) \<and> (\<forall>x. ent e' x = cut_after cs k (ent e) x)"
proof (cases "f_offset fnp = 0")
  case True
  have ne: "0 < length cs" using at by (simp add: fnode_at_def)
  have k0: "k = 0" using k(1) True by (simp add: kept_clusters_def)
  have rc: "unat (relative_cluster (dpbs e p) (f_offset fnp)) = 0" using True by (simp add: relative_cluster_def)
  show ?thesis
    using shrink_body_ok [OF g f at rc ne] fnode_at_cluster(2) [OF at] True k0 sz by (auto simp: shrink_file_def)
next
  case False
  let ?fnp = "fnp\<lparr>f_offset := f_offset fnp - 1\<rparr>"
  have f1: "f_dpb ?fnp = p" using f by simp
  have "first_cluster (dpbs e p) ?fnp = first_cluster (dpbs e p) fnp" by (simp add: first_cluster_def)
  then have at1: "fnode_at (dpbs e p) (ent e) ?fnp cs" using at by (simp add: fnode_at_def)
  have kk: "k = Suc (unat (relative_cluster (dpbs e p) (f_offset ?fnp)))" using k(1) False by (simp add: kept_clusters_def)
  have j: "unat (relative_cluster (dpbs e p) (f_offset ?fnp)) < length cs" using kk k(2) by simp
  have z: "dir_size (f_dir ?fnp) \<noteq> 0" using sz False by simp
  show ?thesis
    using shrink_body_ok [OF g f1 at1 refl j] z kk False by (auto simp: shrink_file_def)
qed

end

end
