(* ===== verification/Fat_Store.thy ===== *)
theory Fat_Store
  imports Fat_Files
begin

text \<open>
  The FAT layer over the sector cache provides the interface of the chain operations: an
  interpretation for every drive, and the properties of the file system operations on chains.
\<close>

definition fat_entries :: "'d sectors \<Rightarrow> nat \<Rightarrow> 'd io \<Rightarrow> u32 \<Rightarrow> u32" where
  "fat_entries sec p e c = (if c \<le> max_cluster (dpbs e p) then fat sec p e c else 0)"

definition fat_good :: "'d blk_driver \<Rightarrow> 'd sectors \<Rightarrow> (u8 \<times> u32) set \<Rightarrow> nat \<Rightarrow> nat \<Rightarrow> 'd io \<Rightarrow> bool" where
  "fat_good drv sec L nsec p e \<longleftrightarrow> reliable drv sec \<and> fat_ok sec L nsec p e"

text \<open>What every operation on the FAT leaves alone: the blocks outside the FAT, the layout of the drives.\<close>

definition fat_keep :: "'d sectors \<Rightarrow> (u8 \<times> u32) set \<Rightarrow> nat \<Rightarrow> nat \<Rightarrow> 'd io \<Rightarrow> 'd io \<Rightarrow> bool" where
  "fat_keep sec L nsec p e e' \<longleftrightarrow> same_geometry (dpbs e p) (dpbs e' p) \<and> (\<forall>q. q \<noteq> p \<longrightarrow> dpbs e' q = dpbs e q)
     \<and> (\<forall>y \<in> L. y \<notin> fat_area (dpbs e p) nsec \<longrightarrow> y \<notin> fs_area (dpbs e p) \<longrightarrow>
          cview sec e' (fst y) (snd y) = cview sec e (fst y) (snd y))"

lemma geometry_areas:
  assumes "same_geometry d d'"
  shows "fat_area d' nsec = fat_area d nsec" "fs_area d' = fs_area d"
  using geometry_fat [OF assms] same_geometryD [OF assms]
  by (simp_all add: fat_area_def fs_area_def fs_sector_def)

lemma fat_keep_trans:
  assumes "fat_keep sec L nsec p e e1" "fat_keep sec L nsec p e1 e2"
  shows "fat_keep sec L nsec p e e2"
proof -
  have g: "same_geometry (dpbs e p) (dpbs e1 p)" using assms(1) by (simp add: fat_keep_def)
  have "same_geometry (dpbs e p) (dpbs e2 p)"
    using same_geometry_trans [OF g] assms(2) by (simp add: fat_keep_def)
  then show ?thesis using assms by (simp add: fat_keep_def geometry_areas [OF g])
qed

lemma fat_keep_views:
  assumes "dpbs e' = dpbs e" "same_views sec L e e'"
  shows "fat_keep sec L nsec p e e'"
  using assms by (simp add: fat_keep_def same_views_def)

lemma fat_keep_same_fat:
  assumes "same_fat sec L p e e'"
  shows "fat_keep sec L nsec p e e'"
  using same_fatD [OF assms] by (simp add: fat_keep_def)

lemma fat_entries_same:
  assumes "fat_ok sec L nsec p e" "same_fat sec L p e e'"
  shows "fat_entries sec p e' = fat_entries sec p e"
  using same_fat_fat [OF assms] geometry_fat(2) [OF same_fatD(1) [OF assms(2)]] by (simp add: fat_entries_def fun_eq_iff)

lemma fat_good_same:
  assumes "fat_good drv sec L nsec p e" "fat_ok sec L nsec p e'" "same_fat sec L p e e'"
  shows "fat_good drv sec L nsec p e' \<and> fat_keep sec L nsec p e e' \<and> fat_entries sec p e' = fat_entries sec p e"
  using assms fat_entries_same fat_keep_same_fat unfolding fat_good_def by blast

lemma follow_entries:
  assumes "fat_ok sec L nsec p e" "c \<le> max_cluster (dpbs e p)"
  shows "next_spec sec p e c = follow (fat_entries sec p e) (max_cluster (dpbs e p)) c"
  using assms(2) by (auto simp: next_spec_def follow_def fat_entries_def Let_def)

lemma fat_goodD:
  assumes "fat_good drv sec L nsec p e"
  shows "reliable drv sec" "fat_ok sec L nsec p e" "fat_layout L nsec (dpbs e p)"
  using assms fat_okD(2) by (auto simp: fat_good_def)

section \<open>The laws\<close>

lemma store_geometry:
  assumes "fat_keep sec L nsec p e e'"
  shows "max_cluster (dpbs e' p) = max_cluster (dpbs e p) \<and> ISFAT32 (dpbs e' p) = ISFAT32 (dpbs e p)
     \<and> same_geometry (dpbs e p) (dpbs e' p)"
  using assms geometry_fat by (simp add: fat_keep_def)

lemma store_small:
  assumes "fat_good drv sec L nsec p e"
  shows "max_cluster (dpbs e p) < (if ISFAT32 (dpbs e p) then LONG_BAD else 0x10000)"
proof (cases "ISFAT32 (dpbs e p)")
  case False
  have "unat (dpb_size (dpbs e p)) < 65536" by (rule unat16_lt)
  then show ?thesis using False by (simp add: max_cluster_def word_less_nat_alt)
qed (use fat_layoutD(3) [OF fat_goodD(3) [OF assms]] in simp)

lemma store_reads:
  assumes g: "fat_good drv sec L nsec p e" and c: "2 \<le> c" "c \<le> max_cluster (dpbs e p)"
  shows "\<exists>e'. link_fat drv p c READ_CLUSTER e = Some (fat_entries sec p e c, e') \<and> fat_good drv sec L nsec p e'
     \<and> fat_keep sec L nsec p e e' \<and> fat_entries sec p e' = fat_entries sec p e \<and> dpbs e' = dpbs e"
proof -
  obtain e' where r: "link_fat drv p c READ_CLUSTER e = Some (fat sec p e c, e')" "fat_ok sec L nsec p e'"
     "same_env e e'" "same_views sec L e e'" using link_read [OF fat_goodD(1,2) [OF g] c] by blast
  have "dpbs e' = dpbs e" using r(3) by (simp add: same_env_def)
  moreover have "fat_entries sec p e c = fat sec p e c" using c(2) by (simp add: fat_entries_def)
  ultimately show ?thesis using r(1) fat_good_same [OF g r(2) same_fat_views [OF r(3,4)]] by auto
qed

lemma store_follows:
  assumes g: "fat_good drv sec L nsec p e" and c: "2 \<le> c" "c \<le> max_cluster (dpbs e p)"
  shows "\<exists>e'. next_cluster drv p c e = Some (follow (fat_entries sec p e) (max_cluster (dpbs e p)) c, e')
     \<and> fat_good drv sec L nsec p e' \<and> fat_keep sec L nsec p e e' \<and> fat_entries sec p e' = fat_entries sec p e \<and> dpbs e' = dpbs e"
proof -
  obtain e' where r: "next_cluster drv p c e = Some (next_spec sec p e c, e')" "fat_ok sec L nsec p e'"
     "dpbs e' = dpbs e" "same_views sec L e e'" using next_cluster_ok [OF fat_goodD(1,2) [OF g] c] by blast
  have "same_fat sec L p e e'" using r(3,4) by (simp add: same_fat_def same_views_def)
  then show ?thesis
    using r(1,3) fat_good_same [OF g r(2)] follow_entries [OF fat_goodD(2) [OF g] c(2)] by auto
qed

lemma store_writes:
  assumes g: "fat_good drv sec L nsec p e" and c: "2 \<le> c" "c \<le> max_cluster (dpbs e p)" and v: "fat_value (dpbs e p) v"
  shows "\<exists>e'. link_fat drv p c v e = Some (0, e') \<and> fat_good drv sec L nsec p e' \<and> fat_keep sec L nsec p e e'
     \<and> fat_entries sec p e' = (fat_entries sec p e)(c := v) \<and> dpbs e' p = count_free v (fat_entries sec p e c = FREE) (dpbs e p)"
proof -
  obtain e' where w: "link_fat drv p c v e = Some (0, e')" "fat_written sec L nsec p c v e e'"
    using link_write [OF fat_goodD(1,2) [OF g] c v] by blast
  have fe: "fat_entries sec p e c = fat sec p e c" using c(2) by (simp add: fat_entries_def)
  have d: "dpbs e' p = count_free v (fat sec p e c = FREE) (dpbs e p)" using w(2) by (simp add: fat_written_def)
  have geo: "same_geometry (dpbs e p) (dpbs e' p)" unfolding d by (rule count_free_geometry)
  have "fat_entries sec p e' = (fat_entries sec p e)(c := v)"
    using w(2) c(2) geometry_fat(2) [OF geo] by (simp add: fat_written_def fat_entries_def fun_eq_iff)
  moreover have "fat_keep sec L nsec p e e'" using w(2) geo by (simp add: fat_keep_def fat_written_def)
  moreover have "fat_good drv sec L nsec p e'" using w(2) fat_goodD(1) [OF g] by (simp add: fat_good_def fat_written_def)
  ultimately show ?thesis using w(1) d fe by auto
qed

lemma store_messages:
  assumes "fat_good drv sec L nsec p e"
  shows "fat_good drv sec L nsec p (clusterMessage t c e) \<and> fat_keep sec L nsec p e (clusterMessage t c e)
     \<and> fat_entries sec p (clusterMessage t c e) = fat_entries sec p e"
proof -
  have "dpbs (clusterMessage t c e) = dpbs e" by (simp add: clusterMessage_def)
  then have "same_fat sec L p e (clusterMessage t c e)"
    using fat_ok_message(3) [of sec L e t c] by (simp add: same_fat_def same_views_def)
  then show ?thesis using fat_good_same [OF assms fat_ok_message(1) [OF fat_goodD(2) [OF assms]]] by blast
qed

lemma store_updates:
  assumes "fat_good drv sec L nsec p e" "same_geometry (dpbs e p) (f (dpbs e p))"
  shows "fat_good drv sec L nsec p (upd_dpb p f e) \<and> fat_keep sec L nsec p e (upd_dpb p f e)
     \<and> fat_entries sec p (upd_dpb p f e) = fat_entries sec p e"
  using fat_good_same [OF assms(1) same_fat_upd_dpb [where f = f, OF fat_goodD(2) [OF assms(1)] assms(2)]] .

lemma store_fsinfo:
  assumes g: "fat_good drv sec L nsec p e" and k: "ISFAT32 (dpbs e p)"
  shows "\<exists>e'. write_fsinfo drv p e = Some e' \<and> fat_good drv sec L nsec p e' \<and> fat_keep sec L nsec p e e'
     \<and> fat_entries sec p e' = fat_entries sec p e \<and> dpbs e' = dpbs e"
proof -
  have "kind_of (dpbs e p) = Fat32" using k fat_layoutD(2) [OF fat_goodD(3) [OF g]] by simp
  then obtain e' where "write_fsinfo drv p e = Some e'" "fat_ok sec L nsec p e'" "dpbs e' = dpbs e" "same_fat sec L p e e'"
    using write_fsinfo_ok [OF fat_goodD(1,2) [OF g]] by blast
  then show ?thesis using fat_good_same [OF g] by blast
qed

lemma store_flushes:
  assumes g: "fat_good drv sec L nsec p e"
  shows "\<exists>e'. flush_buffers drv u e = Some (True, e') \<and> fat_good drv sec L nsec p e' \<and> fat_keep sec L nsec p e e'
     \<and> fat_entries sec p e' = fat_entries sec p e \<and> dpbs e' = dpbs e"
proof -
  note c = cinvD [OF fat_okD(1) [OF fat_goodD(2) [OF g]]]
  obtain e' where f: "flush_buffers drv u e = Some (True, e')" "cache_inv sec L (order e) e'" "same_env e e'"
     "\<forall>y \<in> L. view sec (order e) e' (fst y) (snd y) = view sec (order e) e (fst y) (snd y)"
    using flush_buffers_ok [OF fat_goodD(1) [OF g] c(1)] by blast
  have nb: "nbuffers e' = nbuffers e" "dpbs e' = dpbs e" using f(3) by (simp_all add: same_env_def)
  note i = cinv_intro [OF f(2)]
  have l: "length (order e) = unat (nbuffers e')" "1 < unat (nbuffers e')" using c(2,3) nb by simp_all
  have "same_views sec L e e'" using f(4) unfolding same_views_def i(3) [OF l] by (simp add: cview_def)
  moreover have "fat_ok sec L nsec p e'" using fat_goodD(2) [OF g] i(1) [OF l] nb(2) by (simp add: fat_ok_def)
  ultimately show ?thesis using f(1) nb(2) fat_good_same [OF g _ same_fat_views [OF f(3)]] by blast
qed

interpretation fs: fat_store drv p "fat_good drv sec L nsec p" "fat_entries sec p" "fat_keep sec L nsec p"
  for drv :: "'d blk_driver" and p sec L nsec
proof unfold_locales
  show "fat_keep sec L nsec p e e" for e by (simp add: fat_keep_def)
qed (fact fat_keep_trans store_geometry store_small store_reads store_follows store_writes store_messages
    store_updates store_fsinfo store_flushes)+

end
