(* ===== verification/Fat_Store_Props.thy ===== *)
theory Fat_Store_Props
  imports Fat_Store
begin

text \<open>The file system operations on chains: the properties of \<^verbatim>\<open>kernel/fatfs.c\<close> and their witnesses.\<close>

text \<open>
  C21: freeing a chain returns on every FAT, also when the chain is damaged, runs in a circle or
  starts at a cluster that does not exist.
\<close>

theorem wipe_out_clusters_terminates:
  assumes "fat_good drv sec L nsec p e"
  shows "\<exists>e'. wipe_out_clusters drv p st e = Some e' \<and> fat_good drv sec L nsec p e' \<and> fat_keep sec L nsec p e e'"
  by (rule fs.wipe_out_clusters_returns [OF assms])

text \<open>C20: freeing a chain frees the entries of exactly its clusters and no other block than the FAT changes.\<close>

theorem wipe_out_clusters_frees_chain:
  assumes "fat_good drv sec L nsec p e" "chain (fat_entries sec p e) (max_cluster (dpbs e p)) st cs"
  shows "\<exists>e'. wipe_out_clusters drv p st e = Some e' \<and> fat_good drv sec L nsec p e' \<and> fat_keep sec L nsec p e e'
     \<and> fat_entries sec p e' = (\<lambda>c. if c \<in> set cs then FREE else fat_entries sec p e c)"
  by (rule fs.wipe_out_clusters_chain [OF assms])

text \<open>
  C22: the search for a free cluster returns the first free one in the order from the hint to the end
  and around from cluster 2, or the end mark exactly when there is none; it keeps the hint in range.
\<close>

theorem find_fat_free_finds_first:
  assumes "fat_good drv sec L nsec p e" "hint_ok (dpbs e p)"
  shows "\<exists>hint c e'. find_fat_free drv p e = Some (c, e')
     \<and> found_free (fat_entries sec p e) (max_cluster (dpbs e p)) (start_hint (dpbs e p)) hint c
     \<and> fat_good drv sec L nsec p e' \<and> fat_entries sec p e' = fat_entries sec p e \<and> hint_ok (dpbs e' p)"
  using fs.find_fat_free_ok [OF assms] by blast

text \<open>C24: an unknown count of free clusters is computed by a pass over the FAT, returned and stored.\<close>

theorem dos_free_counts_free_entries:
  assumes "fat_good drv sec L nsec p e" "1 \<le> max_cluster (dpbs e p)"
    "if ISFAT32 (dpbs e p) then dpb_xnfreeclst (dpbs e p) = XUNKNCLSTFREE else dpb_nfreeclst (dpbs e p) = UNKNCLSTFREE"
  shows "\<exists>e'. dos_free drv p e = Some (of_nat (card (free_from (fat_entries sec p e) (max_cluster (dpbs e p)) 2)), e')
     \<and> fat_entries sec p e' = fat_entries sec p e
     \<and> (if ISFAT32 (dpbs e p) then unat (dpb_xnfreeclst (dpbs e' p)) else unat (dpb_nfreeclst (dpbs e' p)))
         = card (free_from (fat_entries sec p e) (max_cluster (dpbs e p)) 2)"
  using fs.dos_free_counts [OF assms] by blast

text \<open>
  For reading, the cluster of the offset is the one at that place of the chain, from whatever
  position the file node stood at; an offset past the chain is an error; the FAT does not change.
\<close>

theorem map_cluster_finds_cluster:
  assumes "fat_good drv sec L nsec p e" "f_dpb fnp = p" "fnode_at (dpbs e p) (fat_entries sec p e) fnp cs"
  shows "\<exists>e'. map_cluster drv XFR_READ fnp e =
       Some (if unat (relative_cluster (dpbs e p) (f_offset fnp)) < length cs
             then (Inr (), moved fnp cs (unat (relative_cluster (dpbs e p) (f_offset fnp))), e')
             else (Inl DE_SEEK, moved fnp cs (length cs - 1), e'))
     \<and> fat_entries sec p e' = fat_entries sec p e \<and> fat_keep sec L nsec p e e'"
  using fs.map_cluster_read [OF assms] by blast

text \<open>
  C19: for writing, the chain grows by clusters that were free until it has a cluster for the offset,
  every other entry staying as it was; when the drive fills up the error is disk full and the chain
  holds what there was.
\<close>

theorem map_cluster_extends_chain:
  assumes "fat_good drv sec L nsec p e" "hint_ok (dpbs e p)" "f_dpb fnp = p" "fnode_at (dpbs e p) (fat_entries sec p e) fnp cs"
  shows "\<exists>r new k' e'. map_cluster drv XFR_WRITE fnp e = Some (r, moved fnp (cs @ new) k', e')
     \<and> fat_good drv sec L nsec p e' \<and> hint_ok (dpbs e' p)
     \<and> grown (fat_entries sec p e) (fat_entries sec p e') (max_cluster (dpbs e p)) (first_cluster (dpbs e p) fnp) cs new
     \<and> (r = Inr () \<and> k' = unat (relative_cluster (dpbs e p) (f_offset fnp))
           \<and> length (cs @ new) = max (length cs) (unat (relative_cluster (dpbs e p) (f_offset fnp)) + 1)
        \<or> r = Inl DE_HNDLDSKFULL \<and> k' = length (cs @ new) - 1
           \<and> length (cs @ new) \<le> unat (relative_cluster (dpbs e p) (f_offset fnp))
           \<and> free_set (fat_entries sec p e') (max_cluster (dpbs e p)) = {})"
  using fs.map_cluster_write [OF assms] by blast

text \<open>
  C23: truncating a file to its size keeps the clusters the size needs, ends the chain after them and
  frees the rest; a file of size 0 has no clusters and no first cluster any more.
\<close>

theorem shrink_file_truncates:
  assumes "fat_good drv sec L nsec p e" "f_dpb fnp = p" "fnode_at (dpbs e p) (fat_entries sec p e) fnp cs"
    "dir_size (f_dir fnp) = f_offset fnp" "kept_clusters (dpbs e p) (f_offset fnp) = k" "k \<le> length cs"
  shows "\<exists>fnp' e'. shrink_file drv fnp e = Some (Inr (), fnp', e') \<and> fat_good drv sec L nsec p e' \<and> fat_keep sec L nsec p e e'
     \<and> f_offset fnp' = f_offset fnp \<and> f_dir fnp' = (if k = 0 then setdstart (dpbs e p) FREE (f_dir fnp) else f_dir fnp)
     \<and> (\<forall>x. fat_entries sec p e' x = cut_after cs k (fat_entries sec p e) x)"
  using fs.shrink_to [OF assms] by blast

section \<open>Witnesses\<close>

definition demo_dirent :: dirent where
  "demo_dirent = \<lparr>dir_name = replicate 11 65, dir_attrib = 0x20, dir_case = 0, dir_crtimems = 0, dir_crtime = 0, dir_crdate = 0,
     dir_accdate = 0, dir_start_high = 0, dir_time = 0, dir_date = 0, dir_start = 2, dir_size = 512\<rparr>"

definition demo_dmatch :: dmatch where
  "demo_dmatch = \<lparr>dm_drive = 2, dm_name_pat = replicate 11 65, dm_attr_srch = 0, dm_entry = 0, dm_dircluster = 0\<rparr>"

text \<open>A file on the chain 2, 3, standing at its second cluster.\<close>

definition demo_fnode :: "u32 \<Rightarrow> f_node" where
  "demo_fnode off = \<lparr>f_flags = 0, f_dmp = demo_dmatch, f_dir = demo_dirent, f_dirsector = 7, f_diridx = 0, f_dpb = 0,
     f_offset = off, f_cluster_offset = 1, f_cluster = 3, f_sft_idx = 0\<rparr>"

lemma demo_good: "fat_good ram_driver ram_sectors demo_live 1 0 demo_fat_io"
  using ram_reliable demo_fat_ok by (simp add: fat_good_def)

lemma demo_store_entries: "fat_entries ram_sectors 0 demo_fat_io 2 = 3"
  "fat_entries ram_sectors 0 demo_fat_io 3 = LONG_LAST_CLUSTER" "fat_entries ram_sectors 0 demo_fat_io 4 = FREE"
  using demo_fat_entries by (simp_all add: fat_entries_def demo_fat_kind)

lemma demo_chain: "chain (fat_entries ram_sectors 0 demo_fat_io) 4 2 [2, 3]"
  by (simp add: demo_store_entries)

lemma demo_at: "fnode_at (dpbs demo_fat_io 0) (fat_entries ram_sectors 0 demo_fat_io) (demo_fnode off) [2, 3]"
  using demo_chain demo_fat_kind
  by (simp add: fnode_at_def first_cluster_def getdstart_def demo_fnode_def demo_dirent_def)

lemma demo_hint: "hint_ok demo_fat_dpb"
  using demo_fat_kind by (simp add: hint_ok_def start_hint_def demo_fat_dpb_def demo_dpb_def UNKNCLUSTER_def)

lemma demo_relative: "relative_cluster demo_fat_dpb off = off div 512"
  by (simp add: relative_cluster_def demo_fat_dpb_def demo_dpb_def)

theorem wipe_out_clusters_terminates_witness:
  "\<exists>e'. wipe_out_clusters ram_driver 0 9 demo_fat_io = Some e'"
  using wipe_out_clusters_terminates [OF demo_good, of 9] by blast

theorem wipe_out_clusters_frees_chain_witness:
  "\<exists>e'. wipe_out_clusters ram_driver 0 2 demo_fat_io = Some e' \<and> fat_entries ram_sectors 0 e' 2 = FREE \<and> fat_entries ram_sectors 0 e' 3 = FREE"
  using wipe_out_clusters_frees_chain [OF demo_good, of 2 "[2, 3]"] demo_chain demo_fat_kind by auto

theorem find_fat_free_finds_first_witness:
  "\<exists>e'. find_fat_free ram_driver 0 demo_fat_io = Some (4, e')"
proof -
  obtain hint c e' where r: "find_fat_free ram_driver 0 demo_fat_io = Some (c, e')"
     "found_free (fat_entries ram_sectors 0 demo_fat_io) 4 (start_hint demo_fat_dpb) hint c"
    using find_fat_free_finds_first [OF demo_good] demo_hint demo_fat_kind by auto
  have "free_set (fat_entries ram_sectors 0 demo_fat_io) 4 = {4}"
    using demo_fat_free demo_fat_kind by (auto simp: free_set_def free_clusters_def fat_entries_def)
  then have "c = 4" using found_free_set(2) [OF r(2)] by (auto simp: free_set_def)
  then show ?thesis using r(1) by blast
qed

theorem dos_free_counts_free_entries_witness:
  "\<exists>e'. dos_free ram_driver 0 (upd_dpb 0 (set_nfreeclst UNKNCLSTFREE) demo_fat_io) = Some (1, e')"
proof -
  let ?e = "upd_dpb 0 (set_nfreeclst UNKNCLSTFREE) demo_fat_io"
  have geo: "same_geometry (dpbs demo_fat_io 0) (set_nfreeclst UNKNCLSTFREE (dpbs demo_fat_io 0))"
    by (simp add: same_geometry_def set_nfreeclst_def)
  note u = fs.updates [where f = "set_nfreeclst UNKNCLSTFREE", OF demo_good geo]
  have d: "dpbs ?e 0 = set_nfreeclst UNKNCLSTFREE demo_fat_dpb" using demo_fat_kind by (simp add: upd_dpb_def)
  have k: "\<not> ISFAT32 (dpbs ?e 0)" "max_cluster (dpbs ?e 0) = 4"
    using geometry_fat [OF geo] demo_fat_kind unfolding d by simp_all
  have "free_from (fat_entries ram_sectors 0 demo_fat_io) 4 2 = {4}"
    using demo_fat_free demo_fat_kind by (auto simp: free_from_def free_clusters_def fat_entries_def)
  moreover have "dpb_nfreeclst (dpbs ?e 0) = UNKNCLSTFREE" unfolding d by (rule nfreeclst_set)
  ultimately show ?thesis using dos_free_counts_free_entries [of ram_driver ram_sectors demo_live 1 0 ?e] u k by auto
qed

theorem map_cluster_finds_cluster_witness:
  "\<exists>e'. map_cluster ram_driver XFR_READ (demo_fnode 0) demo_fat_io = Some (Inr (), moved (demo_fnode 0) [2, 3] 0, e')"
proof -
  have d: "f_dpb (demo_fnode 0) = 0" "relative_cluster (dpbs demo_fat_io 0) (f_offset (demo_fnode 0)) = 0"
    by (simp_all add: demo_fnode_def demo_fat_kind demo_relative)
  show ?thesis using map_cluster_finds_cluster [OF demo_good d(1) demo_at] d(2) by auto
qed

theorem map_cluster_extends_chain_witness:
  "\<exists>r fnp' e'. map_cluster ram_driver XFR_WRITE (demo_fnode 1024) demo_fat_io = Some (r, fnp', e')
     \<and> hint_ok (dpbs e' 0)"
  using map_cluster_extends_chain [OF demo_good _ _ demo_at, of 1024] demo_hint demo_fat_kind(5)
  by (auto simp: demo_fnode_def)

theorem shrink_file_truncates_witness:
  "\<exists>fnp' e'. shrink_file ram_driver (demo_fnode 512) demo_fat_io = Some (Inr (), fnp', e')
     \<and> fat_entries ram_sectors 0 e' 2 = LONG_LAST_CLUSTER \<and> fat_entries ram_sectors 0 e' 3 = FREE"
proof -
  have k: "kept_clusters (dpbs demo_fat_io 0) (f_offset (demo_fnode 512)) = 1"
    by (simp add: kept_clusters_def demo_fat_kind demo_relative demo_fnode_def)
  have c: "cut_after [2, 3] 1 f 2 = LONG_LAST_CLUSTER" "cut_after [2, 3] 1 f 3 = FREE" for f
    by (simp_all add: cut_after_def)
  show ?thesis
    using shrink_file_truncates [OF demo_good _ demo_at _ k] c by (auto simp: demo_fnode_def demo_dirent_def)
qed

end
