(* ===== verification/Fat_Dpb.thy ===== *)
theory Fat_Dpb
  imports Fat_Fs
begin

text \<open>
  From the BIOS parameter block of a drive to its drive parameter block, and the media check that
  decides when it is rebuilt (\<^verbatim>\<open>kernel/fatfs.c\<close>).
\<close>

section \<open>BIOS parameter blocks\<close>

record bpb =
  bpb_nbyte :: u16
  bpb_nsector :: u8
  bpb_nreserved :: u16
  bpb_nfat :: u8
  bpb_ndirent :: u16
  bpb_nsize :: u16
  bpb_mdesc :: u8
  bpb_nfsect :: u16
  bpb_nsecs :: u16
  bpb_nheads :: u16
  bpb_hidden :: u32
  bpb_huge :: u32
  bpb_xnfsect :: u32
  bpb_xflags :: u16
  bpb_xfsversion :: u16
  bpb_xrootclst :: u32
  bpb_xfsinfosec :: u16
  bpb_xbackupsec :: u16

definition DIRENT_SIZE :: u16 where "DIRENT_SIZE = 32"

definition dpb16to32 :: "dpb \<Rightarrow> dpb" where
  "dpb16to32 d = d\<lparr>dpb_xflags := 0, dpb_xfsinfosec := 0xffff, dpb_xbackupsec := 0xffff, dpb_xrootclst := 0,
     dpb_xdata := ucast (dpb_data d), dpb_xsize := ucast (dpb_size d)\<rparr>"

lemma drop_bit_over8: "8 \<le> k \<Longrightarrow> drop_bit k (n :: u8) = 0"
  by (rule bit_word_eqI) (auto simp: bit_simps dest: bit_imp_le_length)

text \<open>The shift count: the smallest \<open>k\<close> from the start on with \<open>n >> k \<le> 1\<close>.\<close>

function shift_loop :: "u8 \<Rightarrow> nat \<Rightarrow> nat" where
  "shift_loop n k = (if drop_bit k n > 1 then shift_loop n (k + 1) else k)"
  by pat_completeness auto

termination
proof (relation "measure (\<lambda>(n, k). 8 - k)", simp)
  show "drop_bit k n > 1 \<Longrightarrow> ((n, k + 1), n, k) \<in> measure (\<lambda>(n, k). 8 - k)" for n :: u8 and k
    using drop_bit_over8 [of k n] by (cases "k < 8") auto
qed

declare shift_loop.simps [simp del]

definition shift_count :: "u8 \<Rightarrow> nat" where
  "shift_count n = (if n = 0 then 8 else shift_loop n 0)"

definition bpb_sectors :: "bpb \<Rightarrow> u32" where
  "bpb_sectors b = (if bpb_nsize b = 0 then bpb_huge b else ucast (bpb_nsize b))"

text \<open>The fields that come from the block as they are and by arithmetic.\<close>

definition dpb_fields :: "bpb \<Rightarrow> dpb \<Rightarrow> dpb" where
  "dpb_fields b d =
     (let shftcnt = shift_count (bpb_nsector b);
          dirstrt = bpb_nreserved b + ucast (bpb_nfat b) * bpb_nfsect b;
          perblock = bpb_nbyte b div DIRENT_SIZE;
          data = dirstrt + (bpb_ndirent b + perblock - 1) div perblock
      in d\<lparr>dpb_shftcnt := of_nat shftcnt, dpb_mdb := bpb_mdesc b, dpb_secsize := bpb_nbyte b, dpb_clsmask := bpb_nsector b - 1,
           dpb_fatstrt := bpb_nreserved b, dpb_fats := bpb_nfat b, dpb_dirents := bpb_ndirent b, dpb_fatsize := bpb_nfsect b,
           dpb_dirstrt := dirstrt, dpb_data := data,
           dpb_size := ucast (drop_bit shftcnt (bpb_sectors b - ucast data)) + 1\<rparr>)"

text \<open>The number of clusters is reduced when the FAT is too short for them.\<close>

definition limit_clusters :: "dpb \<Rightarrow> dpb" where
  "limit_clusters d =
     (let tmp = ucast (dpb_fatsize d) * ucast (dpb_secsize d div 2) :: u32;
          fatsiz = ucast tmp :: u16
      in if tmp \<ge> 0x10000 then d
         else if dpb_size d > FAT_MAGIC then
           (if fatsiz \<le> FAT_MAGIC then d
            else if dpb_size d \<ge> fatsiz then d\<lparr>dpb_size := fatsiz - 1\<rparr> else d)
         else if fatsiz \<ge> 0x4000 then d
         else if dpb_size d \<ge> fatsiz * 4 div 3 then d\<lparr>dpb_size := fatsiz * 4 div 3 - 1\<rparr> else d)"

definition unknown_free :: "dpb \<Rightarrow> dpb" where
  "unknown_free d = set_nfreeclst UNKNCLSTFREE (d\<lparr>dpb_flags := 0, dpb_cluster := ucast UNKNCLUSTER\<rparr>)"

text \<open>The fields of FAT32.\<close>

definition dpb_extended :: "bpb \<Rightarrow> dpb \<Rightarrow> dpb" where
  "dpb_extended b d =
     (let d1 = dpb16to32 (d\<lparr>dpb_xfatsize := (if bpb_nfsect b = 0 then bpb_xnfsect b else ucast (bpb_nfsect b)),
             dpb_xcluster := UNKNCLUSTER, dpb_xnfreeclst := XUNKNCLSTFREE\<rparr>)
      in if ISFAT32 d1 then
           (let xdata = ucast (dpb_fatstrt d1) + ucast (dpb_fats d1) * dpb_xfatsize d1
            in d1\<lparr>dpb_xflags := bpb_xflags b, dpb_xfsinfosec := bpb_xfsinfosec b, dpb_xbackupsec := bpb_xbackupsec b,
               dpb_dirents := 0, dpb_dirstrt := 0xffff, dpb_size := 0, dpb_xdata := xdata,
               dpb_xsize := drop_bit (shift_count (bpb_nsector b)) (bpb_sectors b - xdata) + 1,
               dpb_xrootclst := bpb_xrootclst b\<rparr>)
         else d1)"

text \<open>A sector size below that of a directory entry makes the size of the root directory a division by zero: \<open>None\<close>.\<close>

definition bpb_to_dpb :: "'d blk_driver \<Rightarrow> bpb \<Rightarrow> nat \<Rightarrow> bool \<Rightarrow> 'd io \<Rightarrow> 'd io option" where
  "bpb_to_dpb drv b p extended e =
     (if bpb_nbyte b div DIRENT_SIZE = 0 then None
      else let e1 = upd_dpb p (\<lambda>d. unknown_free (limit_clusters (dpb_fields b d))) e
      in if extended then
           (let e2 = upd_dpb p (dpb_extended b) e1
            in if ISFAT32 (dpbs e2 p) then read_fsinfo drv p e2 else Some e2)
         else Some e1)"

section \<open>Media check\<close>

text \<open>
  Media requests go to the block driver with their own request block; \<open>r_bpptr\<close> is the parameter
  block its answer points to.
\<close>

record media_request = request +
  r_mcmdesc :: u8
  r_mcretcode :: u8
  r_bpptr :: bpb

type_synonym 'd media_driver = "nat \<Rightarrow> media_request \<Rightarrow> 'd \<Rightarrow> media_request \<times> 'd"

definition C_MEDIACHK :: u8 where "C_MEDIACHK = 1"
definition C_BLDBPB :: u8 where "C_BLDBPB = 2"
definition M_NOT_CHANGED :: u8 where "M_NOT_CHANGED = 1"
definition M_DONT_KNOW :: u8 where "M_DONT_KNOW = 0"

text \<open>One request; the critical error handler sees its status.\<close>

definition media_once :: "'d media_driver \<Rightarrow> u8 \<Rightarrow> nat \<Rightarrow> media_request \<Rightarrow> 'd io \<Rightarrow> media_request \<times> 'd io" where
  "media_once mdrv command p rq e =
     (let d = dpbs e p;
          (rq1, d1) = mdrv (dpb_device d) (rq\<lparr>r_length := blk_req_size, r_unit := dpb_subunit d, r_command := command,
              r_mcmdesc := dpb_mdb d, r_status := 0\<rparr>) (disk e)
      in (rq1, e\<lparr>disk := d1\<rparr>))"

definition media_error :: "media_request \<Rightarrow> 'd io \<Rightarrow> crit_answer \<times> 'd io" where
  "media_error rq e =
     (let e1 = e\<lparr>io_CritErrCode := (r_status rq AND S_MASK) + 0x13\<rparr>
      in case io_answers e1 of
           [] \<Rightarrow> (FAIL, e1)
         | a # as \<Rightarrow> (a, e1\<lparr>io_answers := as\<rparr>))"

lemma media_error_answers: "media_error rq e = (RETRY, e') \<Longrightarrow> length (io_answers e') < length (io_answers e)"
  by (auto simp: media_error_def Let_def split: list.splits)

lemma media_once_answers: "media_once mdrv command p rq e = (rq', e') \<Longrightarrow> io_answers e' = io_answers e"
  by (auto simp: media_once_def Let_def split: prod.splits)

function rqblockio :: "'d media_driver \<Rightarrow> u8 \<Rightarrow> nat \<Rightarrow> media_request \<Rightarrow> 'd io \<Rightarrow> (dos_error + unit) \<times> media_request \<times> 'd io" where
  "rqblockio mdrv command p rq e =
     (case media_once mdrv command p rq e of
        (rq1, e1) \<Rightarrow>
          (if r_status rq1 AND S_ERROR \<noteq> 0 \<or> r_status rq1 AND S_DONE = 0 then
             (case media_error rq1 e1 of
                (RETRY, e2) \<Rightarrow> rqblockio mdrv command p rq1 e2
              | (CONTINUE, e2) \<Rightarrow> (Inr (), rq1, e2)
              | (_, e2) \<Rightarrow> (Inl DE_INVLDDRV, rq1, e2))
           else (Inr (), rq1, e1)))"
  by pat_completeness auto
termination
  by (relation "measure (\<lambda>(mdrv, command, p, rq, e). length (io_answers e))")
    (auto dest!: media_error_answers [OF sym] simp: media_once_answers [OF sym])

declare rqblockio.simps [simp del]

text \<open>
  \<^verbatim>\<open>media_check\<close>; \<open>internal\<close> tells whether the parameter block lies in the kernel's data segment.
\<close>

definition media_check ::
  "'d media_driver \<Rightarrow> 'd blk_driver \<Rightarrow> bool \<Rightarrow> nat option \<Rightarrow> media_request \<Rightarrow> 'd io
    \<Rightarrow> ((dos_error + unit) \<times> media_request \<times> 'd io) option" where
  "media_check mdrv drv internal dpbp rq e =
     (case dpbp of
        None \<Rightarrow> Some (Inl DE_INVLDDRV, rq, e)
      | Some p \<Rightarrow>
          (case rqblockio mdrv C_MEDIACHK p rq e of
             (Inl err, rq1, e1) \<Rightarrow> Some (Inl err, rq1, e1)
           | (Inr _, rq1, e1) \<Rightarrow>
               (let code = r_mcretcode rq1 OR dpb_flags (dpbs e1 p)
                in if code = M_NOT_CHANGED then Some (Inr (), rq1, e1)
                   else do {
                     dirty \<leftarrow> (if code = M_DONT_KNOW then dirty_buffers (dpb_unit (dpbs e1 p)) e1 else Some False);
                     if dirty then Some (Inr (), rq1, e1)
                     else do {
                       e2 \<leftarrow> setinvld (dpb_unit (dpbs e1 p)) e1;
                       (case rqblockio mdrv C_BLDBPB p rq1 e2 of
                          (Inl err, rq2, e3) \<Rightarrow> Some (Inl err, rq2, e3)
                        | (Inr _, rq2, e3) \<Rightarrow> do {
                            e4 \<leftarrow> bpb_to_dpb drv (r_bpptr rq2) p (bpb_nfsect (r_bpptr rq2) = 0 \<or> internal) e3;
                            Some (Inr (), rq2, e4)
                          })
                     }
                   })))"

end
