(* ===== verification/Fat_Dpb_Props.thy ===== *)
theory Fat_Dpb_Props
  imports Fat_Dpb Fat_Read Block_Calls
begin

text \<open>The parameter block computed from the BIOS parameter block describes a FAT that holds the entries of all clusters.\<close>

text \<open>Half the bytes of one copy of the FAT, which is the number of its FAT16 entries.\<close>

definition fat_words :: "dpb \<Rightarrow> nat" where
  "fat_words d = unat (dpb_fatsize d) * (unat (dpb_secsize d) div 2)"

lemma fat_words_tmp: "unat (ucast (dpb_fatsize d) * ucast (dpb_secsize d div 2) :: u32) = fat_words d"
proof -
  have "unat (dpb_fatsize d) * (unat (dpb_secsize d) div 2) \<le> 65535 * 32767"
  proof (rule mult_le_mono)
    show "unat (dpb_fatsize d) \<le> 65535" using unat16_lt [of "dpb_fatsize d"] by linarith
    show "unat (dpb_secsize d) div 2 \<le> 32767" using unat16_lt [of "dpb_secsize d"] by linarith
  qed
  then show ?thesis unfolding fat_words_def by (subst unat_mult_no_wrap) (simp_all add: unat_div)
qed

lemma fat_words_half: "2 * fat_words d \<le> unat (dpb_secsize d) * unat (dpb_fatsize d)"
proof -
  have "2 * (unat (dpb_secsize d) div 2) \<le> unat (dpb_secsize d)" by simp
  then have "2 * (unat (dpb_secsize d) div 2) * unat (dpb_fatsize d) \<le> unat (dpb_secsize d) * unat (dpb_fatsize d)"
    by (rule mult_le_mono1)
  then show ?thesis by (simp add: fat_words_def algebra_simps)
qed

lemma fat_words_pos:
  assumes "32 \<le> unat (dpb_secsize d)" "dpb_fatsize d \<noteq> 0"
  shows "16 \<le> fat_words d"
proof -
  have "1 * 16 \<le> unat (dpb_fatsize d) * (unat (dpb_secsize d) div 2)"
    using assms by (intro mult_le_mono) (simp_all add: unat_gt_0 Suc_le_eq)
  then show ?thesis by (simp add: fat_words_def)
qed

lemma limit_clusters_fields:
  "dpb_fatsize (limit_clusters d) = dpb_fatsize d" "dpb_secsize (limit_clusters d) = dpb_secsize d"
  "dpb_xsize (limit_clusters d) = dpb_xsize d"
  by (simp_all add: limit_clusters_def Let_def)

text \<open>The last entry fits when it fits by the arithmetic of its kind.\<close>

lemma entry_fits:
  assumes "\<not> ISFAT32 e" "0 < unat (dpb_size e)" "unat (dpb_size e) \<le> 65525"
    and "unat (dpb_size e) \<le> 4085 \<Longrightarrow> 3 * unat (dpb_size e) div 2 + 1 < n"
    and "4085 < unat (dpb_size e) \<Longrightarrow> 2 * unat (dpb_size e) + 1 < n"
  shows "entry_end (kind_of e) (unat (max_cluster e)) < n"
proof (cases "unat (dpb_size e) \<le> 4085")
  case True
  then have "unat (dpb_size e - 1) < 4085" using assms(2) by (subst unat16_dec) simp_all
  then have "ISFAT12 e" by (simp add: ISFAT12_def FAT_MAGIC_def word_less_nat_alt)
  then show ?thesis using True assms by (simp add: kind_of_def entry_end_def max_cluster_def)
next
  case False
  then have "\<not> ISFAT12 e" using fat12_size [of e] by auto
  moreover have "ISFAT16 e"
    using False assms(3) by (simp add: ISFAT16_def word_less_nat_alt word_le_nat_alt FAT_MAGIC_def FAT_MAGIC16_def)
  ultimately show ?thesis using False assms by (simp add: kind_of_def entry_end_def max_cluster_def)
qed

text \<open>\<^verbatim>\<open>limit_clusters\<close> on numbers.\<close>

definition limited :: "nat \<Rightarrow> nat \<Rightarrow> nat" where
  "limited E s = (if 65536 \<le> E then s
     else if 4085 < s then (if E \<le> 4085 then s else min s (E - 1))
     else if 16384 \<le> E then s else min s (E * 4 div 3 - 1))"

lemma limit_size:
  assumes "16 \<le> fat_words d"
  shows "unat (dpb_size (limit_clusters d)) = limited (fat_words d) (unat (dpb_size d))"
proof -
  let ?E = "fat_words d" and ?s = "unat (dpb_size d)"
  let ?tmp = "ucast (dpb_fatsize d) * ucast (dpb_secsize d div 2) :: u32"
  let ?fz = "ucast ?tmp :: u16"
  have c: "?tmp \<ge> 0x10000 \<longleftrightarrow> 65536 \<le> ?E" by (simp only: word_le_nat_alt fat_words_tmp) simp
  show ?thesis
  proof (cases "65536 \<le> ?E")
    case True
    then show ?thesis using c by (simp add: limit_clusters_def Let_def limited_def)
  next
    case False
    then have fz: "unat ?fz = ?E" by (simp add: unat_ucast_32_16 fat_words_tmp)
    have "unat (dpb_size (limit_clusters d)) =
      (if FAT_MAGIC < dpb_size d then (if ?fz \<le> FAT_MAGIC then ?s else if ?fz \<le> dpb_size d then unat (?fz - 1) else ?s)
       else if 0x4000 \<le> ?fz then ?s else if ?fz * 4 div 3 \<le> dpb_size d then unat (?fz * 4 div 3 - 1) else ?s)"
      using False c by (simp add: limit_clusters_def Let_def)
    also have "\<dots> = limited ?E ?s"
    proof (cases "4085 < ?s")
      case True
      then show ?thesis using False assms fz
        by (auto simp: limited_def FAT_MAGIC_def word_less_nat_alt word_le_nat_alt unat16_dec)
    next
      case small: False
      show ?thesis
      proof (cases "16384 \<le> ?E")
        case True
        then show ?thesis using small False fz by (simp add: limited_def FAT_MAGIC_def word_less_nat_alt word_le_nat_alt)
      next
        case nb: False
        have "unat (?fz * 4) = ?E * 4" using nb fz by (subst unat_mult_no_wrap) simp_all
        then have q: "unat (?fz * 4 div 3) = ?E * 4 div 3" by (simp add: unat_div)
        then have "unat (?fz * 4 div 3 - 1) = ?E * 4 div 3 - 1" using assms by (subst unat16_dec) simp_all
        then show ?thesis using small nb False fz q
          by (auto simp: limited_def FAT_MAGIC_def word_less_nat_alt word_le_nat_alt)
      qed
    qed
    finally show ?thesis .
  qed
qed

lemma limited_fits:
  assumes "16 \<le> E" "2 * E \<le> n" "0 < s" "s \<le> 65525" "\<not> (4085 < s \<and> E \<le> 4085)"
  shows "0 < limited E s" "limited E s \<le> s"
    and "limited E s \<le> 4085 \<Longrightarrow> 3 * limited E s div 2 + 1 < n"
    and "4085 < limited E s \<Longrightarrow> 2 * limited E s + 1 < n"
proof -
  have q: "21 \<le> E * 4 div 3" "3 * (E * 4 div 3) \<le> E * 4" using assms(1) by simp_all
  show "0 < limited E s" "limited E s \<le> s" using assms q(1) by (auto simp: limited_def)
  have "limited E s < E \<or> 65536 \<le> E \<or> s \<le> 4085" using assms(1,5) by (auto simp: limited_def)
  then show "4085 < limited E s \<Longrightarrow> 2 * limited E s + 1 < n"
    using \<open>limited E s \<le> s\<close> assms(2,4) by linarith
  have "limited E s \<le> E * 4 div 3 - 1 \<or> 16384 \<le> E \<or> limited E s < E" using assms(1,5) by (auto simp: limited_def)
  then show "limited E s \<le> 4085 \<Longrightarrow> 3 * limited E s div 2 + 1 < n"
    using q assms(1,2) by linarith
qed

text \<open>The number of clusters fits in the FAT; a FAT16 drive with too small a FAT is let through.\<close>

lemma limit_fits:
  assumes sec: "32 \<le> unat (dpb_secsize d)" and f: "dpb_fatsize d \<noteq> 0"
    and z: "dpb_size d \<noteq> 0" "dpb_size d \<le> FAT_MAGIC16"
  shows "dpb_size (limit_clusters d) \<le> dpb_size d"
    and "if dpb_size d > FAT_MAGIC \<and> fat_words d \<le> 4085 then limit_clusters d = d
      else entry_end (kind_of (limit_clusters d)) (unat (max_cluster (limit_clusters d))) < unat (dpb_secsize d) * unat (dpb_fatsize d)"
proof -
  let ?E = "fat_words d" and ?s = "unat (dpb_size d)" and ?d = "limit_clusters d"
  have E: "16 \<le> ?E" by (rule fat_words_pos [OF sec f])
  have s: "0 < ?s" "?s \<le> 65525" using z by (simp_all add: unat_gt_0 word_le_nat_alt FAT_MAGIC16_def)
  note size = limit_size [OF E]
  have "?s \<ge> limited ?E ?s" by (simp add: limited_def)
  then show "dpb_size ?d \<le> dpb_size d" by (simp add: word_le_nat_alt size)
  show "if dpb_size d > FAT_MAGIC \<and> fat_words d \<le> 4085 then limit_clusters d = d
      else entry_end (kind_of ?d) (unat (max_cluster ?d)) < unat (dpb_secsize d) * unat (dpb_fatsize d)"
  proof (cases "dpb_size d > FAT_MAGIC \<and> ?E \<le> 4085")
    case True
    then have "unat (dpb_size ?d) = ?s" unfolding size by (simp add: limited_def FAT_MAGIC_def word_less_nat_alt)
    then have "dpb_size ?d = dpb_size d" by (simp add: unat_eq_iff)
    moreover have "?d = d \<or> (\<exists>n. ?d = d\<lparr>dpb_size := n\<rparr>)" by (simp add: limit_clusters_def Let_def) blast
    ultimately have "?d = d" by auto
    then show ?thesis using True by simp
  next
    case False
    then have "\<not> (4085 < ?s \<and> ?E \<le> 4085)" by (simp add: FAT_MAGIC_def word_less_nat_alt)
    note fit = limited_fits [OF E fat_words_half s this]
    have "\<not> ISFAT32 ?d" using f by (simp add: ISFAT32_def limit_clusters_fields)
    then have "entry_end (kind_of ?d) (unat (max_cluster ?d)) < unat (dpb_secsize d) * unat (dpb_fatsize d)"
      using fit s by (intro entry_fits) (simp_all add: size)
    then show ?thesis unfolding if_not_P [OF False] .
  qed
qed

lemma same_kind:
  assumes "dpb_size e = dpb_size d" "dpb_fatsize e = dpb_fatsize d" "dpb_fatsize d \<noteq> 0"
  shows "kind_of e = kind_of d" "max_cluster e = max_cluster d"
  using assms by (simp_all add: kind_of_def max_cluster_def ISFAT12_def ISFAT16_def ISFAT32_def)

text \<open>
  C25: for a FAT12 or FAT16 drive, with any sector size from 32 bytes on, the parameter block is
  built and never has more clusters than the BIOS parameter block gives. The FAT type and the number of clusters are such that the
  last entry lies inside one copy of the FAT; the one exception is a drive with more than 4085 clusters whose FAT has no room for
  more than 4085 entries of 16 bits, which is let through with the number of clusters it has. The number of clusters of a FAT32
  drive is not checked by the code and not covered.
\<close>

theorem bpb_to_dpb_clusters_fit:
  assumes "32 \<le> unat (bpb_nbyte b)" "bpb_nfsect b \<noteq> 0"
    and "d0 = dpb_fields b (dpbs e p)" "dpb_size d0 \<noteq> 0" "dpb_size d0 \<le> FAT_MAGIC16"
  shows "\<exists>e'. bpb_to_dpb drv b p extended e = Some e' \<and> dpb_fatsize (dpbs e' p) = bpb_nfsect b
     \<and> dpb_secsize (dpbs e' p) = bpb_nbyte b \<and> dpb_size (dpbs e' p) \<le> dpb_size d0
     \<and> (if dpb_size d0 > FAT_MAGIC \<and> unat (bpb_nfsect b) * (unat (bpb_nbyte b) div 2) \<le> 4085
         then dpb_size (dpbs e' p) = dpb_size d0
         else entry_end (kind_of (dpbs e' p)) (unat (max_cluster (dpbs e' p))) < unat (bpb_nbyte b) * unat (bpb_nfsect b))"
proof -
  let ?d1 = "limit_clusters d0" and ?d2 = "unknown_free (limit_clusters d0)"
  let ?d3 = "if extended then dpb_extended b ?d2 else ?d2"
  have f: "dpb_fatsize d0 = bpb_nfsect b" "dpb_secsize d0 = bpb_nbyte b" using assms(3) by (simp_all add: dpb_fields_def Let_def)
  have nz: "dpb_fatsize d0 \<noteq> 0" "32 \<le> unat (dpb_secsize d0)" using f assms(1,2) by simp_all
  note fit = limit_fits [OF nz(2,1) assms(4,5)]
  have d2: "dpb_size ?d2 = dpb_size ?d1" "dpb_fatsize ?d2 = bpb_nfsect b" "dpb_secsize ?d2 = bpb_nbyte b"
    using f by (simp_all add: unknown_free_def set_nfreeclst_def limit_clusters_fields)
  have n2: "\<not> ISFAT32 (dpb16to32 (?d2\<lparr>dpb_xfatsize := x, dpb_xcluster := UNKNCLUSTER, dpb_xnfreeclst := XUNKNCLSTFREE\<rparr>))" for x
    using d2 assms(2) by (simp add: ISFAT32_def dpb16to32_def)
  have d3: "dpb_size ?d3 = dpb_size ?d1" "dpb_fatsize ?d3 = bpb_nfsect b" "dpb_secsize ?d3 = bpb_nbyte b"
    using d2 n2 by (simp_all add: dpb_extended_def Let_def) (simp_all add: dpb16to32_def)
  have "dpb_fatsize ?d3 = dpb_fatsize ?d1" "dpb_fatsize ?d1 \<noteq> 0" using d3 f nz by (simp_all add: limit_clusters_fields)
  note k = same_kind [OF d3(1) this]
  have n3: "\<not> ISFAT32 ?d3" using d3(2) assms(2) by (simp add: ISFAT32_def)
  have "bpb_nbyte b div DIRENT_SIZE \<noteq> 0"
    using assms(1) by (simp add: DIRENT_SIZE_def unat_eq_iff unat_div div_greater_zero_iff)
  then have "bpb_to_dpb drv b p extended e = Some (upd_dpb p (\<lambda>d. ?d3) e)"
    using n3 assms(3) by (cases extended) (simp_all add: bpb_to_dpb_def upd_dpb_def)
  moreover have "dpbs (upd_dpb p (\<lambda>d. ?d3) e) p = ?d3" by (simp add: upd_dpb_def)
  ultimately show ?thesis using k d3 fit f unfolding fat_words_def by auto
qed

text \<open>A 360 KB diskette.\<close>

definition demo_bpb :: bpb where
  "demo_bpb = \<lparr>bpb_nbyte = 512, bpb_nsector = 2, bpb_nreserved = 1, bpb_nfat = 2, bpb_ndirent = 112, bpb_nsize = 720, bpb_mdesc = 0xfd,
     bpb_nfsect = 2, bpb_nsecs = 9, bpb_nheads = 2, bpb_hidden = 0, bpb_huge = 0, bpb_xnfsect = 0, bpb_xflags = 0, bpb_xfsversion = 0,
     bpb_xrootclst = 0, bpb_xfsinfosec = 0, bpb_xbackupsec = 0\<rparr>"

lemma demo_bpb_clusters: "dpb_size (dpb_fields demo_bpb d) = 355"
proof -
  have "shift_loop 2 1 = 1" "shift_loop 2 0 = shift_loop 2 1" by (subst shift_loop.simps; simp)+
  then have "shift_count (bpb_nsector demo_bpb) = 1" by (simp add: shift_count_def demo_bpb_def)
  then show ?thesis by (simp add: dpb_fields_def Let_def) (simp add: demo_bpb_def bpb_sectors_def DIRENT_SIZE_def)
qed

theorem bpb_to_dpb_clusters_fit_witness:
  "\<exists>e'. bpb_to_dpb ram_driver demo_bpb 0 True demo_io = Some e' \<and> dpb_secsize (dpbs e' 0) = 512
     \<and> entry_end (kind_of (dpbs e' 0)) (unat (max_cluster (dpbs e' 0))) < 1024"
proof -
  have s: "32 \<le> unat (bpb_nbyte demo_bpb)" "bpb_nfsect demo_bpb \<noteq> 0" by (simp_all add: demo_bpb_def)
  have v: "bpb_nbyte demo_bpb = 512" "bpb_nfsect demo_bpb = 2" by (simp_all add: demo_bpb_def)
  show ?thesis
    using bpb_to_dpb_clusters_fit [OF s refl, of demo_io 0 ram_driver True] demo_bpb_clusters
    by (auto simp: FAT_MAGIC_def FAT_MAGIC16_def v)
qed

end
