(* ===== verification/Fat_Names.thy ===== *)
theory Fat_Names
  imports Fat_Fs
begin

text \<open>
  Names and directory entries (\<^verbatim>\<open>kernel/fatdir.c\<close>, \<^verbatim>\<open>kernel/fatfs.c\<close>): the 11-character form of a file
  name and its text, wild card comparison, and the 32 bytes of a directory entry. Texts are lists of
  bytes without the terminating zero.
\<close>

section \<open>Constants\<close>

definition D_RDONLY :: u8 where "D_RDONLY = 0x01"
definition D_HIDDEN :: u8 where "D_HIDDEN = 0x02"
definition D_SYSTEM :: u8 where "D_SYSTEM = 0x04"
definition D_VOLID :: u8 where "D_VOLID = 0x08"
definition D_DIR :: u8 where "D_DIR = 0x10"
definition D_ARCHIVE :: u8 where "D_ARCHIVE = 0x20"
definition D_DEVICE :: u8 where "D_DEVICE = 0x40"
definition D_LFN :: u8 where "D_LFN = D_RDONLY OR D_HIDDEN OR D_SYSTEM OR D_VOLID"
definition D_ALL :: u8 where "D_ALL = D_RDONLY OR D_HIDDEN OR D_SYSTEM OR D_DIR OR D_ARCHIVE"
definition DELETED :: u8 where "DELETED = 0x05"
definition EXT_DELETED :: u8 where "EXT_DELETED = 0xe5"
definition FNAME_SIZE :: nat where "FNAME_SIZE = 8"
definition FEXT_SIZE :: nat where "FEXT_SIZE = 3"

lemmas attr_defs = D_RDONLY_def D_HIDDEN_def D_SYSTEM_def D_VOLID_def D_DIR_def D_ARCHIVE_def D_DEVICE_def D_LFN_def D_ALL_def
lemmas name_consts = DELETED_def EXT_DELETED_def FNAME_SIZE_def FEXT_SIZE_def

abbreviation dot :: u8 where "dot \<equiv> 0x2e"
abbreviation blank :: u8 where "blank \<equiv> 0x20"
abbreviation backslash :: u8 where "backslash \<equiv> 0x5c"
abbreviation wildcard :: u8 where "wildcard \<equiv> 0x3f"

section \<open>Names\<close>

definition fcbmatch :: "bytes \<Rightarrow> bytes \<Rightarrow> bool" where
  "fcbmatch a b \<longleftrightarrow> take (FNAME_SIZE + FEXT_SIZE) a = take (FNAME_SIZE + FEXT_SIZE) b"

fun fcmp_wild :: "bytes \<Rightarrow> bytes \<Rightarrow> nat \<Rightarrow> bool" where
  "fcmp_wild s t 0 = True"
| "fcmp_wild (a # s) (b # t) (Suc n) = (if a \<noteq> wildcard \<and> a \<noteq> b then False else fcmp_wild s t n)"
| "fcmp_wild _ _ (Suc n) = False"

text \<open>The part of \<open>bs\<close> before its trailing blanks.\<close>

definition trim_blanks :: "bytes \<Rightarrow> bytes" where
  "trim_blanks bs = rev (dropWhile (\<lambda>c. c = blank) (rev bs))"

definition ConvertName83ToNameSZ :: "bytes \<Rightarrow> bytes" where
  "ConvertName83ToNameSZ src =
     (let base = trim_blanks (take FNAME_SIZE src);
          ext = trim_blanks (take FEXT_SIZE (drop FNAME_SIZE src))
      in if hd src = dot \<or> ext = [] then base else base @ [dot] @ ext)"

text \<open>The loop: the index, the name so far, the rest of the text.\<close>

fun name83_loop :: "nat \<Rightarrow> bytes \<Rightarrow> bytes \<Rightarrow> bytes \<times> bytes" where
  "name83_loop i dst [] = (dst, [])"
| "name83_loop i dst (c # cs) =
     (if i \<ge> FNAME_SIZE + FEXT_SIZE then (dst, c # cs)
      else if c = dot then name83_loop FNAME_SIZE dst cs
      else if c \<noteq> 0 \<and> c \<noteq> backslash then name83_loop (i + 1) (dst[i := c]) cs
      else (dst, c # cs))"

definition ConvertNameSZToName83 :: "bytes \<Rightarrow> bytes \<times> bytes" where
  "ConvertNameSZToName83 dirname = name83_loop 0 (replicate (FNAME_SIZE + FEXT_SIZE) blank) dirname"

definition swap_deleted :: "bytes \<Rightarrow> bytes" where
  "swap_deleted name =
     (if hd name = DELETED \<or> hd name = EXT_DELETED then name[0 := hd name XOR (EXT_DELETED - DELETED)] else name)"

section \<open>Directory entries\<close>

definition getdirent :: "bytes \<Rightarrow> nat \<Rightarrow> dirent" where
  "getdirent b i =
     \<lparr>dir_name = take 11 (drop i b), dir_attrib = b ! (i + 11), dir_case = b ! (i + 12), dir_crtimems = b ! (i + 13),
      dir_crtime = fgetword b (i + 14), dir_crdate = fgetword b (i + 16), dir_accdate = fgetword b (i + 18),
      dir_start_high = fgetword b (i + 20), dir_time = fgetword b (i + 22), dir_date = fgetword b (i + 24),
      dir_start = fgetword b (i + 26), dir_size = fgetlong b (i + 28)\<rparr>"

definition fputbyte :: "bytes \<Rightarrow> nat \<Rightarrow> u8 \<Rightarrow> bytes" where
  "fputbyte b i v = b[i := v]"

definition put_name :: "bytes \<Rightarrow> nat \<Rightarrow> bytes \<Rightarrow> bytes" where
  "put_name b i name = take i b @ take 11 name @ drop (i + 11) b"

definition putdirent :: "dirent \<Rightarrow> bytes \<Rightarrow> nat \<Rightarrow> bytes" where
  "putdirent de b i =
     (let b1 = put_name b i (dir_name de);
          b2 = fputbyte b1 (i + 11) (dir_attrib de);
          b3 = fputbyte b2 (i + 12) (dir_case de);
          b4 = fputbyte b3 (i + 13) (dir_crtimems de);
          b5 = fputword b4 (i + 14) (dir_crtime de);
          b6 = fputword b5 (i + 16) (dir_crdate de);
          b7 = fputword b6 (i + 18) (dir_accdate de);
          b8 = fputword b7 (i + 20) (dir_start_high de);
          b9 = fputword b8 (i + 22) (dir_time de);
          b10 = fputword b9 (i + 24) (dir_date de);
          b11 = fputword b10 (i + 26) (dir_start de)
      in fputlong b11 (i + 28) (dir_size de))"

text \<open>The fields that are also in the SFT, for closing and committing a file.\<close>

definition putdirent_update :: "bool \<Rightarrow> dirent \<Rightarrow> bytes \<Rightarrow> nat \<Rightarrow> bytes" where
  "putdirent_update fat32 de b i =
     (let b1 = put_name b i (dir_name de);
          b2 = fputbyte b1 (i + 11) (dir_attrib de);
          b3 = fputword b2 (i + 22) (dir_time de);
          b4 = fputword b3 (i + 24) (dir_date de);
          b5 = fputword b4 (i + 26) (dir_start de);
          b6 = (if fat32 then fputword b5 (i + 20) (dir_start_high de) else b5)
      in fputlong b6 (i + 28) (dir_size de))"

end
