(* ===== verification/Fat_Dir.thy ===== *)
theory Fat_Dir
  imports Fat_Names Fat_Dpb
begin

text \<open>
  Directories, \<^verbatim>\<open>kernel/fatdir.c\<close> and the directory operations of \<^verbatim>\<open>kernel/fatfs.c\<close>: reading and
  writing entries, walking a path, finding, creating, renaming and removing files and directories.
  A function that works on a near fnode takes and returns it; \<open>Inr True\<close> and \<open>Inr False\<close> are the
  results 1 and 0 of \<^verbatim>\<open>dir_read\<close>. Paths are full names without the terminating zero. The pair
  \<open>now\<close> is the time and the date that \<^verbatim>\<open>dos_gettime\<close> and \<^verbatim>\<open>dos_getdate\<close> return.
\<close>

definition SFT_FCLEAN :: u16 where "SFT_FCLEAN = 0x0040"
definition SFT_FDATE :: u16 where "SFT_FDATE = 0x4000"

section \<open>Reading and writing entries\<close>

definition dir_init_fnode :: "dpb \<Rightarrow> u32 \<Rightarrow> f_node \<Rightarrow> f_node" where
  "dir_init_fnode d dirstart fnp =
     (let start = (if dirstart = 0 \<and> ISFAT32 d then dpb_xrootclst d else dirstart)
      in fnp\<lparr>f_sft_idx := 0xff, f_offset := 0, f_cluster_offset := 0, f_cluster := start,
             f_dmp := (f_dmp fnp)\<lparr>dm_dircluster := start\<rparr>\<rparr>)"

definition set_entry :: "u16 \<Rightarrow> f_node \<Rightarrow> f_node" where
  "set_entry n fnp = fnp\<lparr>f_dmp := (f_dmp fnp)\<lparr>dm_entry := n\<rparr>\<rparr>"

definition next_entry :: "f_node \<Rightarrow> f_node" where
  "next_entry fnp = set_entry (dm_entry (f_dmp fnp) + 1) fnp"

text \<open>The sector of the entry: in the root directory of FAT12 and FAT16, or along the chain.\<close>

definition dir_position ::
  "'d blk_driver \<Rightarrow> f_node \<Rightarrow> 'd io \<Rightarrow> ((dos_error + unit) \<times> f_node \<times> 'd io) option" where
  "dir_position drv fnp e =
     (let p = f_dpb fnp; d = dpbs e p; secsize = dpb_secsize d; entry = dm_entry (f_dmp fnp)
      in if dm_dircluster (f_dmp fnp) = 0 then
           (if entry \<ge> dpb_dirents d then Some (Inl DE_SEEK, fnp, e)
            else Some (Inr (), fnp\<lparr>f_dirsector := ucast (entry div (secsize div DIRENT_SIZE) + dpb_dirstrt d)\<rparr>, e))
         else do {
           (r, fnp1, e1) \<leftarrow> map_cluster drv XFR_READ (fnp\<lparr>f_offset := ucast entry * ucast DIRENT_SIZE\<rparr>) e;
           if r \<noteq> Inr () then Some (Inl DE_SEEK, fnp1, e1)
           else
             (let sector = (ucast (f_offset fnp1 div ucast secsize) :: u8) AND dpb_clsmask d
              in Some (Inr (), fnp1\<lparr>f_dirsector := clus2phys (f_cluster fnp1) (dpbs e1 p) + ucast sector\<rparr>, e1))
         })"

definition dir_read :: "'d blk_driver \<Rightarrow> f_node \<Rightarrow> 'd io \<Rightarrow> ((dos_error + bool) \<times> f_node \<times> 'd io) option" where
  "dir_read drv fnp e =
     (if dm_entry (f_dmp fnp) \<ge> 65535 then Some (Inl DE_SEEK, fnp, e)
      else do {
        (r, fnp1, e1) \<leftarrow> dir_position drv fnp e;
        case r of
          Inl err \<Rightarrow> Some (Inl err, fnp1, e1)
        | Inr _ \<Rightarrow> do {
            (bp, e2) \<leftarrow> getblk drv (f_dirsector fnp1) (dpb_unit (dpbs e1 (f_dpb fnp1))) False e1;
            case bp of
              None \<Rightarrow> Some (Inl DE_BLKINVLD, fnp1, e2)
            | Some b \<Rightarrow>
                (let e3 = upd_buf b (\<lambda>x. x\<lparr>b_flag := (b_flag x AND NOT (BFR_DATA OR BFR_FAT)) OR (BFR_DIR OR BFR_VALID)\<rparr>) e2;
                     idx = dm_entry (f_dmp fnp1) mod (dpb_secsize (dpbs e3 (f_dpb fnp1)) div DIRENT_SIZE);
                     de = getdirent (b_buffer (bufs e3 b)) (unat (ucast idx :: u8) * unat DIRENT_SIZE);
                     fnp2 = fnp1\<lparr>f_diridx := ucast idx, f_dir := de\<lparr>dir_name := swap_deleted (dir_name de)\<rparr>\<rparr>
                 in Some (Inr (hd (dir_name (f_dir fnp2)) \<noteq> 0), fnp2, e3))
          }
      })"

definition dir_write_update :: "'d blk_driver \<Rightarrow> bool \<Rightarrow> f_node \<Rightarrow> 'd io \<Rightarrow> (bool \<times> 'd io) option" where
  "dir_write_update drv update fnp e =
     (let p = f_dpb fnp
      in if \<not> update \<or> f_flags fnp AND (SFT_FCLEAN OR SFT_FDATE) \<noteq> SFT_FCLEAN then do {
           (bp, e1) \<leftarrow> getblk drv (f_dirsector fnp) (dpb_unit (dpbs e p)) False e;
           case bp of
             None \<Rightarrow> Some (False, e1)
           | Some b \<Rightarrow>
               (let de = (f_dir fnp)\<lparr>dir_name := swap_deleted (dir_name (f_dir fnp))\<rparr>;
                    i = unat (f_diridx fnp) * unat DIRENT_SIZE;
                    e2 = upd_buf b (\<lambda>x. x\<lparr>b_buffer := (if update then putdirent_update (ISFAT32 (dpbs e1 p)) de (b_buffer x) i
                                                      else putdirent de (b_buffer x) i),
                           b_flag := (b_flag x AND NOT (BFR_DATA OR BFR_FAT)) OR (BFR_DIR OR BFR_DIRTY OR BFR_VALID)\<rparr>) e1
                in flush_buffers drv (dpb_unit (dpbs e2 p)) e2)
         }
         else flush_buffers drv (dpb_unit (dpbs e p)) e)"

definition dir_write :: "'d blk_driver \<Rightarrow> f_node \<Rightarrow> 'd io \<Rightarrow> (bool \<times> 'd io) option" where
  "dir_write drv fnp e = dir_write_update drv False fnp e"

section \<open>Walking a path\<close>

text \<open>The search for an entry: the flag \<open>i\<close> of the code.\<close>

partial_function (option) dir_search ::
  "'d blk_driver \<Rightarrow> (f_node \<Rightarrow> bool) \<Rightarrow> f_node \<Rightarrow> 'd io \<Rightarrow> (bool \<times> f_node \<times> 'd io) option" where
  "dir_search drv found fnp e = do {
     (r, fnp1, e1) \<leftarrow> dir_read drv fnp e;
     if r \<noteq> Inr True then Some (False, fnp1, e1)
     else if found fnp1 then Some (True, fnp1, e1)
     else dir_search drv found (next_entry fnp1) e1
   }"

declare dir_search.simps [code]

text \<open>Down the path from the directory the fnode stands at; false is the null pointer.\<close>

partial_function (option) dir_walk ::
  "'d blk_driver \<Rightarrow> bool \<Rightarrow> bytes \<Rightarrow> f_node \<Rightarrow> 'd io \<Rightarrow> (bool \<times> f_node \<times> 'd io) option" where
  "dir_walk drv split dirname fnp e =
     (if dirname = [] \<or> tl dirname = [] then Some (True, fnp, e)
      else
        (case ConvertNameSZToName83 (tl dirname) of (fcbname, rest) \<Rightarrow>
           (let fnp1 = fnp\<lparr>f_dmp := (f_dmp fnp)\<lparr>dm_name_pat := fcbname\<rparr>\<rparr>
            in if split \<and> rest = [] then Some (True, fnp1, e)
               else do {
                 (i, fnp2, e1) \<leftarrow> dir_search drv
                    (\<lambda>f. dir_attrib (f_dir f) AND D_VOLID = 0 \<and> fcbmatch fcbname (dir_name (f_dir f))) fnp1 e;
                 if \<not> i \<or> dir_attrib (f_dir fnp2) AND D_DIR = 0 then Some (False, fnp2, e1)
                 else
                   dir_walk drv split rest
                     (set_entry 0 (dir_init_fnode (dpbs e1 (f_dpb fnp2)) (getdstart (dpbs e1 (f_dpb fnp2)) (f_dir fnp2)) fnp2)) e1
               })))"

declare dir_walk.simps [code]

definition path_drive :: "bytes \<Rightarrow> nat" where
  "path_drive path = unat (scast (hd path) - 65 :: u16)"

definition dir_open :: "'d blk_driver \<Rightarrow> bytes \<Rightarrow> bool \<Rightarrow> f_node \<Rightarrow> 'd io \<Rightarrow> (bool \<times> f_node \<times> 'd io) option" where
  "dir_open drv dirname split fnp e = do {
     p \<leftarrow> get_dpb (path_drive dirname) e;
     dir_walk drv split (drop 2 dirname) (set_entry 0 (dir_init_fnode (dpbs e p) 0 (fnp\<lparr>f_dpb := p\<rparr>))) e
   }"

definition split_path :: "'d blk_driver \<Rightarrow> bytes \<Rightarrow> f_node \<Rightarrow> 'd io \<Rightarrow> (bool \<times> f_node \<times> 'd io) option" where
  "split_path drv path fnp e =
     (if path \<noteq> [] \<and> last path = backslash then Some (False, fnp, e) else dir_open drv path True fnp e)"

definition dir_exists :: "'d blk_driver \<Rightarrow> bytes \<Rightarrow> f_node \<Rightarrow> 'd io \<Rightarrow> (bool \<times> f_node \<times> 'd io) option" where
  "dir_exists drv path fnp e = split_path drv path fnp e"

definition find_fname ::
  "'d blk_driver \<Rightarrow> bytes \<Rightarrow> u8 \<Rightarrow> f_node \<Rightarrow> 'd io \<Rightarrow> ((dos_error + unit) \<times> f_node \<times> 'd io) option" where
  "find_fname drv path attr fnp e = do {
     (ok, fnp1, e1) \<leftarrow> split_path drv path fnp e;
     if \<not> ok then Some (Inl DE_PATHNOTFND, fnp1, e1)
     else do {
       (found, fnp2, e2) \<leftarrow> dir_search drv
          (\<lambda>f. fcbmatch (dir_name (f_dir f)) (dm_name_pat (f_dmp f))
             \<and> dir_attrib (f_dir f) AND NOT (D_RDONLY OR D_ARCHIVE OR attr) = 0) fnp1 e1;
       Some (if found then Inr () else Inl DE_FILENOTFND, fnp2, e2)
     }
   }"

section \<open>Free entries\<close>

partial_function (option) find_free :: "'d blk_driver \<Rightarrow> f_node \<Rightarrow> 'd io \<Rightarrow> (bool \<times> f_node \<times> 'd io) option" where
  "find_free drv fnp e = do {
     (r, fnp1, e1) \<leftarrow> dir_read drv fnp e;
     if r = Inr True then
       (if hd (dir_name (f_dir fnp1)) = DELETED then Some (True, fnp1, e1) else find_free drv (next_entry fnp1) e1)
     else Some (r = Inr False, fnp1, e1)
   }"

declare find_free.simps [code]

definition extend_dir :: "'d blk_driver \<Rightarrow> f_node \<Rightarrow> 'd io \<Rightarrow> ((dos_error + unit) \<times> f_node \<times> 'd io) option" where
  "extend_dir drv fnp e = do {
     (cluster, fnp1, e1) \<leftarrow> Fat_Fs.extend drv fnp e;
     if cluster = LONG_LAST_CLUSTER then Some (Inl DE_HNDLDSKFULL, fnp1, e1)
     else do {
       (r, e2) \<leftarrow> clear_dir drv (f_dpb fnp1) cluster e1;
       case r of
         Inl err \<Rightarrow> Some (Inl err, fnp1, e2)
       | Inr _ \<Rightarrow> do {
           (free, fnp2, e3) \<leftarrow> find_free drv fnp1 e2;
           if \<not> free then Some (Inl DE_HNDLDSKFULL, fnp2, e3)
           else do {
             (ok, e4) \<leftarrow> flush_buffers drv (dpb_unit (dpbs e3 (f_dpb fnp2))) e3;
             Some (if ok then Inr () else Inl DE_ACCESS, fnp2, e4)
           }
         }
     }
   }"

text \<open>The result of \<^verbatim>\<open>split_path\<close> is used without a check: a null pointer is \<open>None\<close>.\<close>

definition alloc_find_free ::
  "'d blk_driver \<Rightarrow> f_node \<Rightarrow> bytes \<Rightarrow> 'd io \<Rightarrow> ((dos_error + unit) \<times> f_node \<times> 'd io) option" where
  "alloc_find_free drv fnp path e = do {
     (ok, fnp1, e1) \<leftarrow> split_path drv path fnp e;
     if \<not> ok then None
     else do {
       (free, fnp2, e2) \<leftarrow> find_free drv fnp1 e1;
       if free then Some (Inr (), fnp2, e2)
       else if dm_dircluster (f_dmp fnp2) = 0 then Some (Inl DE_TOOMANY, fnp2, e2)
       else extend_dir drv fnp2 e2
     }
   }"

end
