(* ===== verification/Fat_DirOps.thy ===== *)
theory Fat_DirOps
  imports Fat_Dir
begin

text \<open>
  Creating, removing, renaming and changing directories and deleting files (\<^verbatim>\<open>kernel/fatfs.c\<close>), and the
  search for files (\<^verbatim>\<open>kernel/fatdir.c\<close>).
\<close>

section \<open>Entries of long file names\<close>

partial_function (option) lfn_loop :: "'d blk_driver \<Rightarrow> f_node \<Rightarrow> 'd io \<Rightarrow> ((dos_error + unit) \<times> f_node \<times> 'd io) option" where
  "lfn_loop drv fnp e =
     (if dm_entry (f_dmp fnp) = 0 then Some (Inr (), fnp, e)
      else do {
        (r, fnp1, e1) \<leftarrow> dir_read drv (set_entry (dm_entry (f_dmp fnp) - 1) fnp) e;
        if r \<noteq> Inr True then Some (Inl DE_ACCESS, fnp1, e1)
        else if dir_attrib (f_dir fnp1) \<noteq> D_LFN then Some (Inr (), fnp1, e1)
        else
          (let fnp2 = fnp1\<lparr>f_dir := (f_dir fnp1)\<lparr>dir_name := (dir_name (f_dir fnp1))[0 := DELETED]\<rparr>\<rparr> in do {
             (ok, e2) \<leftarrow> dir_write drv fnp2 e1;
             if \<not> ok then Some (Inl DE_ACCESS, fnp2, e2) else lfn_loop drv fnp2 e2
           })
      })"

declare lfn_loop.simps [code]

definition remove_lfn_entries ::
  "'d blk_driver \<Rightarrow> f_node \<Rightarrow> 'd io \<Rightarrow> ((dos_error + unit) \<times> f_node \<times> 'd io) option" where
  "remove_lfn_entries drv fnp e = do {
     (r, fnp1, e1) \<leftarrow> lfn_loop drv fnp e;
     case r of
       Inl err \<Rightarrow> Some (Inl err, fnp1, e1)
     | Inr _ \<Rightarrow> do {
         (r2, fnp2, e2) \<leftarrow> dir_read drv (set_entry (dm_entry (f_dmp fnp)) fnp1) e1;
         Some (if r2 \<noteq> Inr True then Inl DE_ACCESS else Inr (), fnp2, e2)
       }
   }"

section \<open>Deleting\<close>

definition mark_deleted :: "f_node \<Rightarrow> f_node" where
  "mark_deleted fnp = fnp\<lparr>f_dir := (f_dir fnp)\<lparr>dir_name := (dir_name (f_dir fnp))[0 := DELETED]\<rparr>\<rparr>"

definition delete_dir_entry ::
  "'d blk_driver \<Rightarrow> f_node \<Rightarrow> 'd io \<Rightarrow> ((dos_error + unit) \<times> f_node \<times> 'd io) option" where
  "delete_dir_entry drv fnp e = do {
     (r, fnp1, e1) \<leftarrow> remove_lfn_entries drv fnp e;
     case r of
       Inl err \<Rightarrow> Some (Inl err, fnp1, e1)
     | Inr _ \<Rightarrow> do {
         e2 \<leftarrow> wipe_out drv fnp1 e1;
         (ok, e3) \<leftarrow> dir_write drv (mark_deleted fnp1) e2;
         Some (if ok then Inr () else Inl DE_ACCESS, mark_deleted fnp1, e3)
       }
   }"

definition dos_delete ::
  "'d blk_driver \<Rightarrow> bytes \<Rightarrow> u8 \<Rightarrow> f_node \<Rightarrow> 'd io \<Rightarrow> ((dos_error + unit) \<times> f_node \<times> 'd io) option" where
  "dos_delete drv path attrib fnp e = do {
     (r, fnp1, e1) \<leftarrow> find_fname drv path attrib fnp e;
     case r of
       Inl err \<Rightarrow> Some (Inl err, fnp1, e1)
     | Inr _ \<Rightarrow>
         if dir_attrib (f_dir fnp1) AND (D_RDONLY OR D_DIR) \<noteq> 0 then Some (Inl DE_ACCESS, fnp1, e1)
         else delete_dir_entry drv fnp1 e1
   }"

section \<open>Removing a directory\<close>

definition cds_path :: "cds \<Rightarrow> bytes" where
  "cds_path c = takeWhile (\<lambda>b. b \<noteq> 0) (cdsCurrentPath c)"

text \<open>The scan for entries that are in use.\<close>

partial_function (option) empty_loop :: "'d blk_driver \<Rightarrow> f_node \<Rightarrow> 'd io \<Rightarrow> (bool \<times> f_node \<times> 'd io) option" where
  "empty_loop drv fnp e = do {
     (r, fnp1, e1) \<leftarrow> dir_read drv fnp e;
     if r \<noteq> Inr True then Some (True, fnp1, e1)
     else if hd (dir_name (f_dir fnp1)) \<noteq> DELETED \<and> dir_attrib (f_dir fnp1) \<noteq> D_LFN then Some (False, fnp1, e1)
     else empty_loop drv (next_entry fnp1) e1
   }"

declare empty_loop.simps [code]

definition dos_rmdir :: "'d blk_driver \<Rightarrow> bytes \<Rightarrow> f_node \<Rightarrow> 'd io \<Rightarrow> ((dos_error + unit) \<times> f_node \<times> 'd io) option" where
  "dos_rmdir drv path fnp e = do {
     cdsp \<leftarrow> get_cds (path_drive path) e;
     if path = cds_path cdsp then Some (Inl DE_RMVCUDIR, fnp, e)
     else if length path = 3 \<and> path ! 2 = backslash then Some (Inl DE_ACCESS, fnp, e)
     else do {
       (ok, fnp1, e1) \<leftarrow> dir_open drv path False fnp e;
       if \<not> ok then Some (Inl DE_PATHNOTFND, fnp1, e1)
       else if dir_attrib (f_dir fnp1) AND NOT (D_DIR OR D_RDONLY OR D_ARCHIVE) \<noteq> 0 then Some (Inl DE_ACCESS, fnp1, e1)
       else do {
         (r1, fnp2, e2) \<leftarrow> dir_read drv fnp1 e1;
         if dir_name (f_dir fnp2) ! 0 \<noteq> dot \<or> dir_name (f_dir fnp2) ! 1 \<noteq> blank then Some (Inl DE_ACCESS, fnp2, e2)
         else do {
           (r2, fnp3, e3) \<leftarrow> dir_read drv (next_entry fnp2) e2;
           if dir_name (f_dir fnp3) ! 0 \<noteq> dot \<or> dir_name (f_dir fnp3) ! 1 \<noteq> dot then Some (Inl DE_ACCESS, fnp3, e3)
           else do {
             (empty, fnp4, e4) \<leftarrow> empty_loop drv (next_entry fnp3) e3;
             if \<not> empty then Some (Inl DE_ACCESS, fnp4, e4)
             else do {
               (r3, fnp5, e5) \<leftarrow> find_fname drv path D_ALL fnp4 e4;
               if r3 \<noteq> Inr () then Some (Inl DE_PATHNOTFND, fnp5, e5) else delete_dir_entry drv fnp5 e5
             }
           }
         }
       }
     }
   }"

section \<open>Renaming\<close>

definition dos_rename ::
  "'d blk_driver \<Rightarrow> bytes \<Rightarrow> bytes \<Rightarrow> u8 \<Rightarrow> f_node \<Rightarrow> f_node \<Rightarrow> 'd io \<Rightarrow> ((dos_error + unit) \<times> 'd io) option" where
  "dos_rename drv path1 path2 attrib fnode0 fnode1 e = do {
     cdsp \<leftarrow> get_cds (path_drive path1) e;
     if path1 = cds_path cdsp then Some (Inl DE_RMVCUDIR, e)
     else do {
       (r1, fnp1, e1) \<leftarrow> find_fname drv path1 attrib fnode0 e;
       if r1 \<noteq> Inr () then Some (r1, e1)
       else do {
         (r2, fnp2, e2) \<leftarrow> find_fname drv path2 attrib fnode1 e1;
         if r2 \<noteq> Inl DE_FILENOTFND then Some (if r2 = Inr () then Inl DE_ACCESS else r2, e2)
         else do {
           (r3, fnp3, e3) \<leftarrow>
             (if dm_dircluster (f_dmp fnp1) = dm_dircluster (f_dmp fnp2) then do {
                (r, fnp1', e3) \<leftarrow> remove_lfn_entries drv fnp1 e2;
                Some (r, fnp1'\<lparr>f_dir := (f_dir fnp1')\<lparr>dir_name := dm_name_pat (f_dmp fnp2)\<rparr>\<rparr>, e3)
              }
              else if dir_attrib (f_dir fnp1) AND D_DIR \<noteq> 0 then Some (Inl DE_ACCESS, fnp2, e2)
              else do {
                (r, fnp2', e3) \<leftarrow> alloc_find_free drv fnp2 path2 e2;
                if r \<noteq> Inr () then Some (r, fnp2', e3)
                else do {
                  (r', fnp1', e4) \<leftarrow> remove_lfn_entries drv fnp1 e3;
                  if r' \<noteq> Inr () then Some (r', fnp2', e4)
                  else do {
                    (ok, e5) \<leftarrow> dir_write drv (mark_deleted fnp1') e4;
                    Some (if ok then Inr () else Inl DE_ACCESS,
                      fnp2'\<lparr>f_dir := (f_dir fnp1')\<lparr>dir_name := dm_name_pat (f_dmp fnp2')\<rparr>\<rparr>, e5)
                  }
                }
              });
           if r3 \<noteq> Inr () then Some (r3, e3)
           else do {
             (ok, e4) \<leftarrow> dir_write drv fnp3 e3;
             Some (if ok then Inr () else Inl DE_ACCESS, e4)
           }
         }
       }
     }
   }"

section \<open>Creating a directory\<close>

definition MAX_CDSPATH :: nat where "MAX_CDSPATH = 67"

definition dot_name :: bytes where "dot_name = dot # replicate 10 blank"

text \<open>The entries \<open>.\<close> and \<open>..\<close> of the new directory in cluster \<open>free_fat\<close>.\<close>

definition craft_dir ::
  "'d blk_driver \<Rightarrow> u16 \<times> u16 \<Rightarrow> u32 \<Rightarrow> u32 \<Rightarrow> f_node \<Rightarrow> 'd io \<Rightarrow> ((dos_error + unit) \<times> f_node \<times> 'd io) option" where
  "craft_dir drv now free_fat parent fnp e =
     (let entry = (\<lambda>cluster. init_direntry D_DIR cluster dot_name (fst now) (snd now)) in do {
        (free, fnp1, e1) \<leftarrow> find_free drv (set_entry 0 (dir_init_fnode (dpbs e (f_dpb fnp)) free_fat fnp)) e;
        let fnp2 = fnp1\<lparr>f_dir := entry free_fat\<rparr>;
        (ok, e2) \<leftarrow> dir_write drv fnp2 e1;
        if \<not> ok then Some (Inl DE_ACCESS, fnp2, e2)
        else do {
          (free2, fnp3, e3) \<leftarrow> find_free drv fnp2 e2;
          (r, fnp4, e4) \<leftarrow> (if free2 then Some (Inr (), fnp3, e3) else extend_dir drv fnp3 e3);
          if r \<noteq> Inr () then Some (r, fnp4, e4)
          else
            (let d = dpbs e4 (f_dpb fnp4);
                 up = (if ISFAT32 d \<and> parent = dpb_xrootclst d then 0 else parent);
                 fnp5 = fnp4\<lparr>f_dir := (entry up)\<lparr>dir_name := dot_name[1 := dot]\<rparr>\<rparr>
             in do {
               (ok2, e5) \<leftarrow> dir_write drv fnp5 e4;
               Some (if ok2 then Inr () else Inl DE_ACCESS, fnp5, e5)
             })
        }
      })"

definition dos_mkdir ::
  "'d blk_driver \<Rightarrow> u16 \<times> u16 \<Rightarrow> bytes \<Rightarrow> f_node \<Rightarrow> 'd io \<Rightarrow> ((dos_error + unit) \<times> f_node \<times> 'd io) option" where
  "dos_mkdir drv now dir fnp e =
     (if length dir \<ge> MAX_CDSPATH then Some (Inl DE_PATHNOTFND, fnp, e)
      else do {
        (r1, fnp1, e1) \<leftarrow> find_fname drv dir D_ALL fnp e;
        if r1 \<noteq> Inl DE_FILENOTFND then Some (if r1 = Inr () then Inl DE_ACCESS else r1, fnp1, e1)
        else do {
          (r2, fnp2, e2) \<leftarrow> alloc_find_free drv fnp1 dir e1;
          if r2 \<noteq> Inr () then Some (r2, fnp2, e2)
          else do {
            (free_fat, e3) \<leftarrow> find_fat_free drv (f_dpb fnp2) e2;
            if free_fat = LONG_LAST_CLUSTER then Some (Inl DE_HNDLDSKFULL, fnp2, e3)
            else
              (let fnp3 = fnp2\<lparr>f_dir := init_direntry D_DIR free_fat (dm_name_pat (f_dmp fnp2)) (fst now) (snd now)\<rparr> in do {
                 (r3, e4) \<leftarrow> link_fat drv (f_dpb fnp3) free_fat LONG_LAST_CLUSTER e3;
                 if r3 \<noteq> 0 then Some (Inl DE_HNDLDSKFULL, fnp3, e4)
                 else do {
                   (r4, e5) \<leftarrow> clear_dir drv (f_dpb fnp3) free_fat e4;
                   case r4 of
                     Inl err \<Rightarrow> Some (Inl err, fnp3, e5)
                   | Inr _ \<Rightarrow> do {
                       (ok, e6) \<leftarrow> dir_write drv fnp3 e5;
                       if \<not> ok then Some (Inl DE_ACCESS, fnp3, e6)
                       else craft_dir drv now free_fat (dm_dircluster (f_dmp fnp1)) fnp3 e6
                     }
                 }
               })
          }
        }
      })"

section \<open>The current directory and attributes\<close>

definition upd_cds :: "nat \<Rightarrow> (cds \<Rightarrow> cds) \<Rightarrow> 'd io \<Rightarrow> 'd io" where
  "upd_cds i f e = e\<lparr>cds_table := (cds_table e)[i := f (cds_table e ! i)]\<rparr>"

definition dos_cd :: "'d blk_driver \<Rightarrow> bytes \<Rightarrow> f_node \<Rightarrow> 'd io \<Rightarrow> ((dos_error + unit) \<times> f_node \<times> 'd io) option" where
  "dos_cd drv path fnp e = do {
     (ok, fnp1, e1) \<leftarrow> dir_open drv path False fnp e;
     if \<not> ok then Some (Inl DE_PATHNOTFND, fnp1, e1)
     else do {
       c \<leftarrow> get_cds (path_drive path) e1;
       Some (Inr (), fnp1, upd_cds (path_drive path) (\<lambda>c. c\<lparr>cdsStrtClst := ucast (dm_dircluster (f_dmp fnp1))\<rparr>) e1)
     }
   }"

definition dos_getfattr :: "'d blk_driver \<Rightarrow> bytes \<Rightarrow> f_node \<Rightarrow> 'd io \<Rightarrow> ((dos_error + u8) \<times> f_node \<times> 'd io) option" where
  "dos_getfattr drv name fnp e = do {
     (r, fnp1, e1) \<leftarrow> find_fname drv name D_ALL fnp e;
     Some (case r of Inl err \<Rightarrow> Inl err | Inr _ \<Rightarrow> Inr (dir_attrib (f_dir fnp1)), fnp1, e1)
   }"

section \<open>Searching files\<close>

text \<open>The attributes of a search: a volume label only, or everything whose special bits are asked for.\<close>

definition attr_matches :: "u8 \<Rightarrow> u8 \<Rightarrow> bool" where
  "attr_matches srch attrib \<longleftrightarrow>
     (let attr_srch = srch AND NOT (D_RDONLY OR D_ARCHIVE OR D_DEVICE)
      in if attr_srch = D_VOLID then attrib AND D_VOLID \<noteq> 0
         else (NOT attr_srch) AND (D_DIR OR D_SYSTEM OR D_HIDDEN OR D_VOLID) AND attrib = 0)"

definition found_entry :: "dmatch \<Rightarrow> dirent \<Rightarrow> bool" where
  "found_entry dmp de \<longleftrightarrow> hd (dir_name de) \<noteq> DELETED \<and> dir_attrib de AND D_LFN \<noteq> D_LFN
     \<and> fcmp_wild (dm_name_pat dmp) (dir_name de) (FNAME_SIZE + FEXT_SIZE) \<and> attr_matches (dm_attr_srch dmp) (dir_attrib de)"

text \<open>The loop; the entry found goes to \<^verbatim>\<open>SearchDir\<close>.\<close>

partial_function (option) findnext_loop :: "'d blk_driver \<Rightarrow> f_node \<Rightarrow> 'd io \<Rightarrow> ((dos_error + dirent) \<times> f_node \<times> 'd io) option" where
  "findnext_loop drv fnp e = do {
     (r, fnp1, e1) \<leftarrow> dir_read drv fnp e;
     if r \<noteq> Inr True then Some (Inl DE_NFILES, fnp1, e1)
     else
       (let fnp2 = next_entry fnp1
        in if found_entry (f_dmp fnp2) (f_dir fnp2) then Some (Inr (f_dir fnp2), fnp2, e1) else findnext_loop drv fnp2 e1)
   }"

declare findnext_loop.simps [code]

definition dos_findnext ::
  "'d media_driver \<Rightarrow> 'd blk_driver \<Rightarrow> bool \<Rightarrow> media_request \<Rightarrow> f_node \<Rightarrow> 'd io
    \<Rightarrow> ((dos_error + dirent) \<times> media_request \<times> f_node \<times> 'd io) option" where
  "dos_findnext mdrv drv internal rq fnp e =
     (let dpbp = get_dpb (unat (dm_drive (f_dmp fnp))) e in do {
        (r, rq1, e1) \<leftarrow> media_check mdrv drv internal dpbp rq e;
        if r \<noteq> Inr () then Some (Inl DE_NFILES, rq1, fnp, e1)
        else do {
          p \<leftarrow> dpbp;
          (r2, fnp1, e2) \<leftarrow> findnext_loop drv (dir_init_fnode (dpbs e1 p) (dm_dircluster (f_dmp fnp)) (fnp\<lparr>f_dpb := p\<rparr>)) e1;
          Some (r2, rq1, fnp1, e2)
        }
      })"

definition dos_findfirst ::
  "'d media_driver \<Rightarrow> 'd blk_driver \<Rightarrow> bool \<Rightarrow> media_request \<Rightarrow> u16 \<Rightarrow> bytes \<Rightarrow> f_node \<Rightarrow> 'd io
    \<Rightarrow> ((dos_error + dirent) \<times> media_request \<times> f_node \<times> 'd io) option" where
  "dos_findfirst mdrv drv internal rq attr name fnp e =
     (if length name \<le> 3 then Some (Inl DE_NFILES, rq, fnp, e)
      else do {
        (ok, fnp1, e1) \<leftarrow> split_path drv name fnp e;
        if \<not> ok then Some (Inl DE_PATHNOTFND, rq, fnp1, e1)
        else
          (let fnp2 = (if attr AND NOT (ucast (D_RDONLY OR D_ARCHIVE OR D_DEVICE)) = ucast D_VOLID
                       then dir_init_fnode (dpbs e1 (f_dpb fnp1)) 0 fnp1 else fnp1);
               fnp3 = fnp2\<lparr>f_dmp := (f_dmp fnp2)\<lparr>dm_drive := hd name - 65, dm_attr_srch := ucast attr\<rparr>\<rparr>
           in dos_findnext mdrv drv internal rq fnp3 e1)
      })"

end
