(* ===== verification/Fat_Loops.thy ===== *)
theory Fat_Loops
  imports Fat_DirOps
begin

text \<open>
  The loops of \<^verbatim>\<open>dos_rmdir\<close> and \<^verbatim>\<open>dos_findnext\<close> are instances of the search \<^verbatim>\<open>dir_open\<close> and
  \<^verbatim>\<open>find_fname\<close> use.
\<close>

definition in_use :: "dirent \<Rightarrow> bool" where
  "in_use d \<longleftrightarrow> hd (dir_name d) \<noteq> DELETED \<and> dir_attrib d \<noteq> D_LFN"

lemma empty_loop_search:
  "empty_loop drv g e = map_option (\<lambda>(i, h, e'). (\<not> i, h, e')) (dir_search drv (\<lambda>h. in_use (f_dir h)) g e)"
proof -
  let ?found = "\<lambda>h :: f_node. in_use (f_dir h)"
  have 1: "dir_search drv ?found g e = Some (\<not> fst y, snd y)" if "empty_loop drv g e = Some y" for y
    using that
  proof (induction rule: empty_loop.raw_induct [rotated, consumes 1, case_names step])
    case (step loop drv g e y)
    then obtain r g1 e1 where r: "dir_read drv g e = Some (r, g1, e1)" by (auto simp: bind_eq_Some_conv)
    show ?case using step r by (subst dir_search.simps) (auto simp: in_use_def split: if_splits)
  qed
  have 2: "empty_loop drv g e = Some (\<not> fst y, snd y)" if "f = ?found" "dir_search drv f g e = Some y" for f y
    using that(2,1)
  proof (induction rule: dir_search.raw_induct [rotated, consumes 1, case_names step])
    case (step loop drv f g e y)
    then obtain r g1 e1 where r: "dir_read drv g e = Some (r, g1, e1)" by (auto simp: bind_eq_Some_conv)
    show ?case using step r by (subst empty_loop.simps) (auto simp: in_use_def split: if_splits)
  qed
  show ?thesis
  proof (cases "dir_search drv ?found g e")
    case None
    then show ?thesis using 1 by (cases "empty_loop drv g e") auto
  next
    case (Some y)
    then show ?thesis using 2 [OF refl Some] by (cases y) auto
  qed
qed

definition found_here :: "f_node \<Rightarrow> bool" where
  "found_here h \<longleftrightarrow> found_entry (f_dmp h) (f_dir h)"

lemma next_entry_sel [simp]:
  "f_dir (next_entry h) = f_dir h" "found_entry (f_dmp (next_entry h)) d = found_entry (f_dmp h) d"
  by (simp_all add: next_entry_def set_entry_def found_entry_def)

lemma findnext_loop_search:
  "findnext_loop drv g e = map_option (\<lambda>(i, h, e'). if i then (Inr (f_dir h), next_entry h, e') else (Inl DE_NFILES, h, e'))
     (dir_search drv found_here g e)"
proof -
  let ?out = "\<lambda>(i, h, e'). if i then (Inr (f_dir h), next_entry h, e') else (Inl DE_NFILES, h, e')"
  have 1: "\<exists>z. dir_search drv found_here g e = Some z \<and> y = ?out z" if "findnext_loop drv g e = Some y" for y
    using that
  proof (induction rule: findnext_loop.raw_induct [rotated, consumes 1, case_names step])
    case (step loop drv g e y)
    then obtain r g1 e1 where r: "dir_read drv g e = Some (r, g1, e1)" by (auto simp: bind_eq_Some_conv)
    show ?case
    proof (cases "r = Inr True \<and> \<not> found_here g1")
      case True
      then have "loop drv (next_entry g1) e1 = Some y" using step(2) r by (simp add: found_here_def Let_def)
      from step(1) [OF this] show ?thesis using True r by (subst dir_search.simps) simp
    next
      case False
      then have "y = (if r = Inr True then (Inr (f_dir g1), next_entry g1, e1) else (Inl DE_NFILES, g1, e1))"
        using step(2) r by (auto simp: found_here_def Let_def split: if_splits)
      then show ?thesis using False r by (subst dir_search.simps) auto
    qed
  qed
  have 2: "findnext_loop drv g e = Some (?out y)" if "f = found_here" "dir_search drv f g e = Some y" for f y
    using that(2,1)
  proof (induction rule: dir_search.raw_induct [rotated, consumes 1, case_names step])
    case (step loop drv f g e y)
    then obtain r g1 e1 where r: "dir_read drv g e = Some (r, g1, e1)" by (auto simp: bind_eq_Some_conv)
    show ?case using step r by (subst findnext_loop.simps) (auto simp: found_here_def [of g1] Let_def split: if_splits)
  qed
  show ?thesis
  proof (cases "dir_search drv found_here g e")
    case None
    then show ?thesis using 1 by (cases "findnext_loop drv g e") auto
  next
    case (Some y)
    then show ?thesis using 2 [OF refl Some] by simp
  qed
qed

end
