(* ===== verification/Fat_Names_Props.thy ===== *)
theory Fat_Names_Props
  imports Fat_Names Fat_Write
begin

text \<open>
  Round trips of the formats of a directory: the 32 bytes of an entry and its record, the 11
  characters of a name and its text, and the two codes of the deleted mark.
\<close>

section \<open>Entries\<close>

lemma fgetword_update:
  "k < i \<or> i + 1 < k \<Longrightarrow> fgetword (b[k := v]) i = fgetword b i"
  by (auto simp: fgetword_def)

lemma fgetword_fputword: "i + 1 < length b \<Longrightarrow> fgetword (fputword b i w) i = w"
  by (simp add: fgetword_def fputword_def)

lemma fputword_length [simp]: "length (fputword b i w) = length b"
  by (simp add: fputword_def)

lemma fgetword_other: "k + 1 < i \<or> i + 1 < k \<Longrightarrow> fgetword (fputword b k w) i = fgetword b i"
  by (auto simp: fgetword_def fputword_def)

lemma fgetlong_fputlong: "i + 3 < length b \<Longrightarrow> fgetlong (fputlong b i w) i = w"
proof -
  assume l: "i + 3 < length b"
  have "fgetword (fputlong b i w) i = ucast w" "fgetword (fputlong b i w) (i + 2) = ucast (drop_bit 16 w)"
    using l unfolding fputlong_def by (simp_all add: fgetword_other fgetword_fputword)
  then show ?thesis by (simp add: fgetlong_def mk32_split)
qed

lemma fgetlong_other: "k + 1 < i \<or> i + 3 < k \<Longrightarrow> fgetlong (fputword b k w) i = fgetlong b i"
  by (auto simp: fgetlong_def fgetword_other)

lemma fputbyte_length [simp]: "length (fputbyte b i w) = length b"
  by (simp add: fputbyte_def)

lemma put_name_length [simp]: "length name = 11 \<Longrightarrow> i + 11 \<le> length b \<Longrightarrow> length (put_name b i name) = length b"
  by (simp add: put_name_def)

lemma nth_other:
  "j \<noteq> k \<Longrightarrow> fputbyte b k v ! j = b ! j"
  "j \<noteq> k \<Longrightarrow> j \<noteq> k + 1 \<Longrightarrow> fputword b k w ! j = b ! j"
  by (simp_all add: fputbyte_def fputword_def)

lemma nth_put_name:
  assumes "length name = 11" "i + 11 \<le> length b" "j < length b"
  shows "put_name b i name ! j = (if i \<le> j \<and> j < i + 11 then name ! (j - i) else b ! j)"
  using assms by (auto simp: put_name_def nth_append not_less)

text \<open>Every byte of the written entry.\<close>

definition entry_byte :: "dirent \<Rightarrow> nat \<Rightarrow> u8" where
  "entry_byte de k =
     (if k < 11 then dir_name de ! k
      else [dir_attrib de, dir_case de, dir_crtimems de, lo8 (dir_crtime de), hi8 (dir_crtime de), lo8 (dir_crdate de), hi8 (dir_crdate de),
        lo8 (dir_accdate de), hi8 (dir_accdate de), lo8 (dir_start_high de), hi8 (dir_start_high de), lo8 (dir_time de), hi8 (dir_time de),
        lo8 (dir_date de), hi8 (dir_date de), lo8 (dir_start de), hi8 (dir_start de), lo8 (ucast (dir_size de)), hi8 (ucast (dir_size de)),
        lo8 (ucast (drop_bit 16 (dir_size de))), hi8 (ucast (drop_bit 16 (dir_size de)))] ! (k - 11))"

lemma putdirent_length [simp]:
  "length (dir_name de) = 11 \<Longrightarrow> i + 32 \<le> length b \<Longrightarrow> length (putdirent de b i) = length b"
  by (simp add: putdirent_def Let_def)

lemma nth_putdirent:
  assumes n: "length (dir_name de) = 11" and l: "i + 32 \<le> length b" and j: "j < length b"
  shows "putdirent de b i ! j = (if i \<le> j \<and> j < i + 32 then entry_byte de (j - i) else b ! j)"
proof (cases "i \<le> j \<and> j < i + 32")
  case False
  then have "j \<noteq> i + k" if "k < 32" for k using that by auto
  then show ?thesis using False n l j
    by (auto simp: putdirent_def Let_def nth_other fputlong_def nth_put_name)
next
  case True
  then obtain k where k: "j = i + k" "k < 32" by (metis le_add_diff_inverse nat_add_left_cancel_less)
  show ?thesis
  proof (cases "k < 11")
    case True
    then show ?thesis using k n l j
      by (simp add: putdirent_def Let_def nth_other fputlong_def nth_put_name entry_byte_def)
  next
    case False
    have upt: "[11..<32] = [11, 12, 13, 14, 15, 16, 17, 18, 19, 20, 21, 22, 23, 24, 25, 26, 27, 28, 29, 30, 31 :: nat]" by (simp add: upt_rec)
    have "k \<in> set [11..<32]" using False k(2) unfolding set_upt atLeastLessThan_iff by linarith
    then have "k \<in> set [11, 12, 13, 14, 15, 16, 17, 18, 19, 20, 21, 22, 23, 24, 25, 26, 27, 28, 29, 30, 31]" unfolding upt .
    then show ?thesis using k n l j
      by (auto simp: putdirent_def Let_def fputlong_def fputword_def fputbyte_def entry_byte_def nth_list_update)
  qed
qed

lemma getdirent_cong:
  assumes "\<And>k. k < 32 \<Longrightarrow> b ! (i + k) = c ! (j + k)" "i + 32 \<le> length b" "j + 32 \<le> length c"
  shows "getdirent b i = getdirent c j"
proof -
  have "take 11 (drop i b) = take 11 (drop j c)"
    using assms by (intro nth_equalityI) simp_all
  moreover have "b ! (k + i) = c ! (k + j)" if "k < 32" for k using assms(1) [OF that] by (simp add: add.commute)
  ultimately show ?thesis by (simp add: getdirent_def fgetlong_def fgetword_def assms(1) add.assoc)
qed

lemma getdirent_entry_byte:
  assumes n: "length (dir_name de) = 11" and b: "\<And>k. k < 32 \<Longrightarrow> b ! (i + k) = entry_byte de k" and l: "i + 32 \<le> length b"
  shows "getdirent b i = de"
proof -
  have "take 11 (drop i b) = dir_name de"
    using n l b by (intro nth_equalityI) (simp_all add: entry_byte_def)
  moreover have "b ! (k + i) = entry_byte de k" if "k < 32" for k using b [OF that] by (simp add: add.commute)
  ultimately show ?thesis
    by (simp add: getdirent_def fgetlong_def fgetword_def b add.assoc) (simp add: entry_byte_def mk32_split)
qed

lemma getdirent_putdirent:
  assumes "length (dir_name de) = 11" "i + 32 \<le> length b"
  shows "getdirent (putdirent de b i) i = de"
  using assms by (intro getdirent_entry_byte) (auto simp: nth_putdirent)

lemma getdirent_putdirent_other:
  assumes "length (dir_name de) = 11" "i + 32 \<le> length b" "j + 32 \<le> length b" "j + 32 \<le> i \<or> i + 32 \<le> j"
  shows "getdirent (putdirent de b i) j = getdirent b j"
  using assms by (intro getdirent_cong) (auto simp: nth_putdirent)

section \<open>The deleted mark\<close>

lemma swap_deleted_twice: "name \<noteq> [] \<Longrightarrow> swap_deleted (swap_deleted name) = name"
  by (cases name) (auto simp: swap_deleted_def name_consts)

lemma swap_deleted_length [simp]: "length (swap_deleted name) = length name"
  by (simp add: swap_deleted_def)

section \<open>Names\<close>

text \<open>A name of 11 characters as the kernel stores it for a file: no end mark, no separators.\<close>

definition plain_char :: "u8 \<Rightarrow> bool" where
  "plain_char c \<longleftrightarrow> c \<noteq> 0 \<and> c \<noteq> dot \<and> c \<noteq> backslash"

definition plain_name :: "bytes \<Rightarrow> bool" where
  "plain_name n \<longleftrightarrow> length n = FNAME_SIZE + FEXT_SIZE \<and> list_all plain_char n"

lemma trim_blanks_pad:
  "\<exists>k. bs = trim_blanks bs @ replicate k blank"
proof -
  let ?t = "takeWhile (\<lambda>c. c = blank) (rev bs)"
  have "rev bs = ?t @ dropWhile (\<lambda>c. c = blank) (rev bs)" by simp
  then have "bs = trim_blanks bs @ rev ?t" unfolding trim_blanks_def by (metis rev_append rev_rev_ident)
  moreover have "?t = replicate (length ?t) blank"
    by (rule replicate_eqI [OF refl]) (auto dest: set_takeWhileD)
  then have "rev ?t = replicate (length ?t) blank" by (metis rev_replicate)
  ultimately show ?thesis by metis
qed

lemma trim_blanks_replicate:
  assumes "length bs = m"
  shows "trim_blanks bs @ replicate (m - length (trim_blanks bs)) blank = bs" "length (trim_blanks bs) \<le> m"
    "set (trim_blanks bs) \<subseteq> set bs"
proof -
  obtain k where k: "bs = trim_blanks bs @ replicate k blank" using trim_blanks_pad by blast
  then have l: "length bs = length (trim_blanks bs) + k" by (metis length_append length_replicate)
  then have "k = m - length (trim_blanks bs)" using assms l by simp
  then show "trim_blanks bs @ replicate (m - length (trim_blanks bs)) blank = bs" using k by simp
  show "length (trim_blanks bs) \<le> m" using l assms by simp
  show "set (trim_blanks bs) \<subseteq> set bs" using k by (metis Un_upper1 set_append)
qed

lemma name83_fill:
  assumes "list_all plain_char xs" "i + length xs \<le> FNAME_SIZE + FEXT_SIZE" "length d = i" "length ys = length xs"
  shows "name83_loop i (d @ ys @ zs) (xs @ rest) = name83_loop (i + length xs) (d @ xs @ zs) rest"
  using assms
proof (induction xs arbitrary: i d ys)
  case (Cons x xs)
  obtain y ys' where y: "ys = y # ys'" using Cons.prems(4) by (cases ys) auto
  have "name83_loop i (d @ ys @ zs) ((x # xs) @ rest) = name83_loop (i + 1) ((d @ ys @ zs)[i := x]) (xs @ rest)"
    using Cons.prems(1,2) by (simp add: plain_char_def)
  also have "(d @ ys @ zs)[i := x] = (d @ [x]) @ ys' @ zs" using Cons.prems(3) y by (simp add: list_update_append)
  also have "name83_loop (i + 1) \<dots> (xs @ rest) = name83_loop (i + 1 + length xs) ((d @ [x]) @ xs @ zs) rest"
    using Cons.prems y by (intro Cons.IH) simp_all
  finally show ?case by simp
qed simp

lemma name83_end: "rest = [] \<or> hd rest = backslash \<Longrightarrow> name83_loop i d rest = (d, rest)"
  by (cases rest) auto

lemma list_all_subset: "set xs \<subseteq> set ys \<Longrightarrow> list_all P ys \<Longrightarrow> list_all P xs"
  by (auto simp: list_all_iff)

lemma name83_round_trip:
  assumes n: "plain_name n" and rest: "rest = [] \<or> hd rest = backslash"
  shows "ConvertNameSZToName83 (ConvertName83ToNameSZ n @ rest) = (n, rest)"
proof -
  let ?b = "take 8 n" and ?x = "take 3 (drop 8 n)"
  let ?base = "trim_blanks ?b" and ?ext = "trim_blanks ?x"
  have len: "length n = 11" and pl: "list_all plain_char n" using n by (simp_all add: plain_name_def name_consts)
  have l8: "length ?b = 8" and l3: "length ?x = 3" using len by simp_all
  note b = trim_blanks_replicate [OF l8] and x = trim_blanks_replicate [OF l3]
  have nbx: "n = ?b @ ?x" using len by simp
  have pb: "list_all plain_char ?base" and px: "list_all plain_char ?ext"
    using list_all_subset [OF b(3)] list_all_subset [OF x(3)] pl nbx by (metis list_all_append)+
  have "n \<noteq> []" using len by auto
  then have hd: "hd n \<noteq> dot" using pl by (cases n) (auto simp: plain_char_def)
  let ?k = "length ?base" and ?m = "length ?ext"
  have start: "replicate 11 blank = [] @ replicate ?k blank @ (replicate (8 - ?k) blank @ replicate 3 blank)"
    using b(2) by (simp add: replicate_add [symmetric])
  have base: "name83_loop 0 (replicate 11 blank) (?base @ r) = name83_loop ?k (?b @ replicate 3 blank) r" for r
  proof -
    have "name83_loop 0 (replicate 11 blank) (?base @ r) =
        name83_loop (0 + ?k) ([] @ ?base @ (replicate (8 - ?k) blank @ replicate 3 blank)) r"
      unfolding start using pb b(2) by (intro name83_fill) (simp_all add: name_consts)
    moreover have "[] @ ?base @ (replicate (8 - ?k) blank @ replicate 3 blank) = ?b @ replicate 3 blank"
      by (simp only: append_Nil append_assoc [symmetric] b(1))
    ultimately show ?thesis by (simp only: add_0)
  qed
  show ?thesis
  proof (cases "?ext = []")
    case True
    then have "?x = replicate 3 blank" using x(1) by simp
    then have "name83_loop ?k (?b @ replicate 3 blank) rest = (n, rest)" using name83_end [OF rest] nbx by simp
    then show ?thesis using base True by (simp add: ConvertName83ToNameSZ_def ConvertNameSZToName83_def name_consts Let_def)
  next
    case False
    have pad: "replicate 3 blank = replicate ?m blank @ replicate (3 - ?m) blank"
      using x(2) by (simp add: replicate_add [symmetric])
    have "name83_loop ?k (?b @ replicate 3 blank) (dot # ?ext @ rest) = name83_loop 8 (?b @ replicate 3 blank) (?ext @ rest)"
      using b(2) by (simp add: name_consts)
    also have "\<dots> = name83_loop (8 + ?m) (?b @ ?ext @ replicate (3 - ?m) blank) rest"
      unfolding pad using px x(2) l8 by (intro name83_fill) (simp_all add: name_consts)
    also have "\<dots> = (n, rest)" using name83_end [OF rest] x(1) nbx by simp
    finally show ?thesis
      using base [of "dot # ?ext @ rest"] False hd by (simp add: ConvertName83ToNameSZ_def ConvertNameSZToName83_def name_consts Let_def)
  qed
qed

end
