(* ===== verification/Fat_DirStore.thy ===== *)
theory Fat_DirStore
  imports Fat_Loops Fat_Names_Props
begin

text \<open>
  A directory as a list of entries: the interface of reading and writing entries through a near
  fnode, and what searching, finding a free entry, testing for emptiness and removing the entries of
  a long name do, proved from the interface alone.
\<close>

section \<open>Searches over a list of entries\<close>

text \<open>The first entry from \<open>k\<close> on that satisfies \<open>Q\<close>, before the end mark.\<close>

fun first_entry :: "(dirent \<Rightarrow> bool) \<Rightarrow> dirent list \<Rightarrow> nat \<Rightarrow> nat option" where
  "first_entry Q [] k = None"
| "first_entry Q (d # ds) k = (if hd (dir_name d) = 0 then None else if Q d then Some k else first_entry Q ds (k + 1))"

lemma first_entry_Some:
  "first_entry Q (drop k ds) k = Some j \<Longrightarrow> k \<le> j \<and> j < length ds \<and> Q (ds ! j) \<and> hd (dir_name (ds ! j)) \<noteq> 0
     \<and> (\<forall>i. k \<le> i \<longrightarrow> i < j \<longrightarrow> hd (dir_name (ds ! i)) \<noteq> 0 \<and> \<not> Q (ds ! i))"
proof (induction "drop k ds" arbitrary: k)
  case Nil
  then show ?case by (metis first_entry.simps(1) option.distinct(1))
next
  case (Cons d es)
  have l: "k < length ds" using Cons.hyps(2) by (metis drop_all leI list.distinct(1))
  have d: "d = ds ! k" "es = drop (k + 1) ds" using Cons.hyps(2) l by (metis Cons_nth_drop_Suc Suc_eq_plus1 list.inject)+
  have f: "first_entry Q (drop k ds) k = (if hd (dir_name d) = 0 then None else if Q d then Some k else first_entry Q (drop (k + 1) ds) (k + 1))"
    unfolding Cons.hyps(2) [symmetric] d(2) by simp
  show ?case
  proof (cases "Q d")
    case True
    then show ?thesis using f Cons.prems l d(1) by (auto split: if_splits)
  next
    case False
    then have nz: "hd (dir_name d) \<noteq> 0" and r: "first_entry Q (drop (k + 1) ds) (k + 1) = Some j" using f Cons.prems by (auto split: if_splits)
    note ih = Cons.hyps(1) [OF d(2) r]
    have "hd (dir_name (ds ! i)) \<noteq> 0 \<and> \<not> Q (ds ! i)" if "k \<le> i" "i < j" for i
      using ih that False nz d(1) by (cases "i = k") auto
    then show ?thesis using ih by auto
  qed
qed

text \<open>The first entry that a new file may take: a deleted one or the end mark.\<close>

fun first_unused :: "dirent list \<Rightarrow> nat \<Rightarrow> nat option" where
  "first_unused [] k = None"
| "first_unused (d # ds) k = (if hd (dir_name d) = 0 \<or> hd (dir_name d) = DELETED then Some k else first_unused ds (k + 1))"

text \<open>The entries of the long name of entry \<open>j\<close>, and that entry.\<close>

definition belongs :: "dirent list \<Rightarrow> nat \<Rightarrow> nat \<Rightarrow> bool" where
  "belongs ds j i \<longleftrightarrow> i \<le> j \<and> (\<forall>k \<in> {i..<j}. dir_attrib (ds ! k) = D_LFN)"

definition deleted :: "dirent \<Rightarrow> dirent" where
  "deleted d = d\<lparr>dir_name := (dir_name d)[0 := DELETED]\<rparr>"

lemma deleted_sel [simp]: "length (dir_name (deleted d)) = length (dir_name d)" "dir_attrib (deleted d) = dir_attrib d"
  by (simp_all add: deleted_def)

lemma deleted_hd: "dir_name d \<noteq> [] \<Longrightarrow> hd (dir_name (deleted d)) = DELETED"
  by (cases "dir_name d") (simp_all add: deleted_def)

lemma belongs_Suc: "i < Suc k \<Longrightarrow> belongs ds (Suc k) i \<longleftrightarrow> dir_attrib (ds ! k) = D_LFN \<and> belongs ds k i"
  by (auto simp: belongs_def atLeastLessThanSuc)

lemma belongs_cong: "(\<And>k. k < j \<Longrightarrow> dir_attrib (ds ! k) = dir_attrib (es ! k)) \<Longrightarrow> belongs ds j i = belongs es j i"
  by (auto simp: belongs_def)

text \<open>Match structures that differ in the entry number only.\<close>

definition same_match :: "dmatch \<Rightarrow> dmatch \<Rightarrow> bool" where
  "same_match m m' \<longleftrightarrow> dm_drive m' = dm_drive m \<and> dm_name_pat m' = dm_name_pat m \<and> dm_attr_srch m' = dm_attr_srch m
     \<and> dm_dircluster m' = dm_dircluster m"

lemma same_match_set [simp]: "same_match (f_dmp fnp) (f_dmp (set_entry m g)) = same_match (f_dmp fnp) (f_dmp g)"
  "dm_entry (f_dmp (set_entry m g)) = m"
  by (simp_all add: same_match_def set_entry_def)

section \<open>The interface\<close>

locale dir_store =
  fixes drv :: "'d blk_driver" and here :: "f_node \<Rightarrow> bool" and pos :: "f_node \<Rightarrow> nat \<Rightarrow> bool" and n :: nat
    and good :: "'d io \<Rightarrow> bool" and ents :: "'d io \<Rightarrow> dirent list" and keep :: "'d io \<Rightarrow> 'd io \<Rightarrow> bool"
  assumes keep_refl: "keep e e"
    and keep_trans: "keep e e1 \<Longrightarrow> keep e1 e2 \<Longrightarrow> keep e e2"
    and few: "n \<le> 65535"
    and shape: "good e \<Longrightarrow> length (ents e) = n \<and> (\<forall>d \<in> set (ents e). length (dir_name d) = 11)"
    and same_place: "here (set_entry m fnp) = here fnp \<and> here (fnp\<lparr>f_dir := x\<rparr>) = here fnp
       \<and> pos (set_entry m fnp) k = pos fnp k \<and> pos (fnp\<lparr>f_dir := x\<rparr>) k = pos fnp k"
    and reads: "good e \<Longrightarrow> here fnp \<Longrightarrow> unat (dm_entry (f_dmp fnp)) < n \<Longrightarrow>
       \<exists>fnp' e'. dir_read drv fnp e = Some (Inr (hd (dir_name (ents e ! unat (dm_entry (f_dmp fnp)))) \<noteq> 0), fnp', e')
         \<and> good e' \<and> keep e e' \<and> ents e' = ents e \<and> here fnp' \<and> f_dmp fnp' = f_dmp fnp
         \<and> f_dir fnp' = ents e ! unat (dm_entry (f_dmp fnp)) \<and> pos fnp' (unat (dm_entry (f_dmp fnp)))"
    and past: "good e \<Longrightarrow> here fnp \<Longrightarrow> n \<le> unat (dm_entry (f_dmp fnp)) \<Longrightarrow>
       \<exists>fnp' e'. dir_read drv fnp e = Some (Inl DE_SEEK, fnp', e')
         \<and> good e' \<and> keep e e' \<and> ents e' = ents e \<and> here fnp' \<and> f_dmp fnp' = f_dmp fnp"
    and writes: "good e \<Longrightarrow> here fnp \<Longrightarrow> pos fnp k \<Longrightarrow> k < n \<Longrightarrow> length (dir_name (f_dir fnp)) = 11 \<Longrightarrow>
       \<exists>e'. dir_write drv fnp e = Some (True, e') \<and> good e' \<and> keep e e' \<and> ents e' = (ents e)[k := f_dir fnp]"
begin

text \<open>Where a search stands: in the directory, at entry \<open>k\<close>, with the rest of the match structure of \<open>fnp\<close>.\<close>

definition stands :: "f_node \<Rightarrow> nat \<Rightarrow> f_node \<Rightarrow> bool" where
  "stands fnp k g \<longleftrightarrow> here g \<and> same_match (f_dmp fnp) (f_dmp g) \<and> unat (dm_entry (f_dmp g)) = k"

lemma stands_self: "here fnp \<Longrightarrow> unat (dm_entry (f_dmp fnp)) = k \<Longrightarrow> stands fnp k fnp"
  by (simp add: stands_def same_match_def)

lemma stands_trans: "stands fnp k g \<Longrightarrow> stands g m h \<Longrightarrow> stands fnp m h"
  by (simp add: stands_def same_match_def)

lemma stands_set: "stands fnp k g \<Longrightarrow> stands fnp (unat m) (set_entry m g)"
  using same_place by (simp add: stands_def)

lemma stands_dir: "stands fnp k g \<Longrightarrow> stands fnp k (g\<lparr>f_dir := x\<rparr>)"
  using same_place by (simp add: stands_def)

lemma stands_next:
  assumes "stands fnp k g" "k < n"
  shows "stands fnp (k + 1) (next_entry g)"
proof -
  have "unat (dm_entry (f_dmp g) + 1) = k + 1" using assms few by (subst unat_add_no_wrap) (auto simp: stands_def)
  then show ?thesis using stands_set [OF assms(1)] by (metis next_entry_def)
qed

lemma read_entry:
  assumes "good e" "stands fnp k g" "k < n"
  shows "\<exists>g' e'. dir_read drv g e = Some (Inr (hd (dir_name (ents e ! k)) \<noteq> 0), g', e') \<and> good e' \<and> keep e e' \<and> ents e' = ents e
     \<and> stands fnp k g' \<and> f_dir g' = ents e ! k \<and> pos g' k"
  using reads [OF assms(1), of g] assms(2,3) by (fastforce simp: stands_def)

lemma read_past:
  assumes "good e" "stands fnp k g" "n \<le> k"
  shows "\<exists>g' e'. dir_read drv g e = Some (Inl DE_SEEK, g', e') \<and> good e' \<and> keep e e' \<and> ents e' = ents e \<and> stands fnp k g'"
  using past [OF assms(1), of g] assms(2,3) by (fastforce simp: stands_def)

section \<open>Searching\<close>

lemma search:
  assumes "good e" "stands fnp k g" "k \<le> n"
    and f: "\<And>h. here h \<Longrightarrow> same_match (f_dmp fnp) (f_dmp h) \<Longrightarrow> found h = Q (f_dir h)"
  shows "\<exists>g' e'. dir_search drv found g e = Some (first_entry Q (drop k (ents e)) k \<noteq> None, g', e') \<and> good e' \<and> keep e e'
     \<and> ents e' = ents e \<and> here g' \<and> same_match (f_dmp fnp) (f_dmp g')
     \<and> (\<forall>j. first_entry Q (drop k (ents e)) k = Some j \<longrightarrow> stands fnp j g' \<and> f_dir g' = ents e ! j \<and> pos g' j)"
  using assms(1-3)
proof (induction "n - k" arbitrary: k g e)
  case 0
  then have "n \<le> k" by simp
  moreover have "drop k (ents e) = []" using shape [OF 0(2)] 0(1) by simp
  ultimately show ?case using read_past [OF 0(2,3)] by (subst dir_search.simps) (auto simp: stands_def)
next
  case (Suc m)
  then have k: "k < n" by simp
  obtain g1 e1 where r: "dir_read drv g e = Some (Inr (hd (dir_name (ents e ! k)) \<noteq> 0), g1, e1)" "good e1" "keep e e1" "ents e1 = ents e"
     "stands fnp k g1" "f_dir g1 = ents e ! k" "pos g1 k" using read_entry [OF Suc.prems(1,2) k] by blast
  have d: "drop k (ents e) = ents e ! k # drop (k + 1) (ents e)"
    using shape [OF Suc.prems(1)] k by (metis Cons_nth_drop_Suc Suc_eq_plus1)
  have h: "here g1" "same_match (f_dmp fnp) (f_dmp g1)" using r(5) by (simp_all add: stands_def)
  consider "hd (dir_name (ents e ! k)) = 0" | "hd (dir_name (ents e ! k)) \<noteq> 0" "Q (ents e ! k)"
    | "hd (dir_name (ents e ! k)) \<noteq> 0" "\<not> Q (ents e ! k)" by blast
  then show ?case
  proof cases
    case 1
    then have "dir_search drv found g e = Some (False, g1, e1)" using r(1) by (subst dir_search.simps) simp
    then show ?thesis using 1 d r h by auto
  next
    case 2
    then have "dir_search drv found g e = Some (True, g1, e1)" using r(1,6) f [OF h] by (subst dir_search.simps) simp
    then show ?thesis using 2 d r h by auto
  next
    case 3
    then have s: "dir_search drv found g e = dir_search drv found (next_entry g1) e1" using r(1,6) f [OF h] by (subst dir_search.simps) simp
    have f1: "first_entry Q (drop k (ents e)) k = first_entry Q (drop (k + 1) (ents e1)) (k + 1)" using 3 d r(4) by simp
    have "m = n - (k + 1)" "k + 1 \<le> n" using Suc.hyps(2) k by simp_all
    from Suc.hyps(1) [OF this(1) r(2) stands_next [OF r(5) k] this(2)] show ?thesis
      unfolding s f1 using r(4) keep_trans [OF r(3)] by auto
  qed
qed

text \<open>A free entry.\<close>

lemma free_entry:
  assumes "good e" "stands fnp k g" "k \<le> n"
  shows "\<exists>g' e'. find_free drv g e = Some (first_unused (drop k (ents e)) k \<noteq> None, g', e') \<and> good e' \<and> keep e e'
     \<and> ents e' = ents e \<and> (\<forall>j. first_unused (drop k (ents e)) k = Some j \<longrightarrow> stands fnp j g' \<and> pos g' j \<and> j < n)"
  using assms
proof (induction "n - k" arbitrary: k g e)
  case 0
  then have "n \<le> k" by simp
  moreover have "drop k (ents e) = []" using shape [OF 0(2)] 0(1) by simp
  ultimately show ?case using read_past [OF 0(2,3)] by (subst find_free.simps) auto
next
  case (Suc m)
  then have k: "k < n" by simp
  obtain g1 e1 where r: "dir_read drv g e = Some (Inr (hd (dir_name (ents e ! k)) \<noteq> 0), g1, e1)" "good e1" "keep e e1" "ents e1 = ents e"
     "stands fnp k g1" "f_dir g1 = ents e ! k" "pos g1 k" using read_entry [OF Suc.prems(1,2) k] by blast
  have d: "drop k (ents e) = ents e ! k # drop (k + 1) (ents e)"
    using shape [OF Suc.prems(1)] k by (metis Cons_nth_drop_Suc Suc_eq_plus1)
  show ?case
  proof (cases "hd (dir_name (ents e ! k)) = 0 \<or> hd (dir_name (ents e ! k)) = DELETED")
    case True
    then have "find_free drv g e = Some (True, g1, e1)" using r(1,6) by (subst find_free.simps) (auto simp: name_consts)
    then show ?thesis using True d r k by auto
  next
    case False
    then have s: "find_free drv g e = find_free drv (next_entry g1) e1" using r(1,6) by (subst find_free.simps) simp
    have f1: "first_unused (drop k (ents e)) k = first_unused (drop (k + 1) (ents e1)) (k + 1)" using False d r(4) by simp
    have "m = n - (k + 1)" "k + 1 \<le> n" using Suc.hyps(2) k by simp_all
    from Suc.hyps(1) [OF this(1) r(2) stands_next [OF r(5) k] this(2)] show ?thesis
      unfolding s f1 using r(4) keep_trans [OF r(3)] by auto
  qed
qed

section \<open>Removing the entries of a long name\<close>

lemma write_entry:
  assumes "good e" "stands fnp k g" "pos g k" "k < n" "length (dir_name (f_dir g)) = 11"
  shows "\<exists>e'. dir_write drv g e = Some (True, e') \<and> good e' \<and> keep e e' \<and> ents e' = (ents e)[k := f_dir g]"
  using writes [OF assms(1) _ assms(3-5)] assms(2) by (simp add: stands_def)

lemma lfn_entries:
  assumes "good e" "stands fnp k g" "k \<le> n" "\<forall>i < k. hd (dir_name (ents e ! i)) \<noteq> 0"
  shows "\<exists>g' e' m. lfn_loop drv g e = Some (Inr (), g', e') \<and> good e' \<and> keep e e' \<and> stands fnp m g'
     \<and> (\<forall>i < n. ents e' ! i = (if i < k \<and> belongs (ents e) k i then deleted (ents e ! i) else ents e ! i))"
  using assms
proof (induction k arbitrary: g e)
  case 0
  then have "dm_entry (f_dmp g) = 0" by (simp add: stands_def unat_eq_0)
  then show ?case using 0 keep_refl by (subst lfn_loop.simps) auto
next
  case (Suc k)
  let ?g = "set_entry (dm_entry (f_dmp g) - 1) g"
  have u: "unat (dm_entry (f_dmp g)) = Suc k" using Suc.prems(2) by (simp add: stands_def)
  then have nz: "dm_entry (f_dmp g) \<noteq> 0" by auto
  then have "unat (dm_entry (f_dmp g) - 1) = k" using u unat16_dec [of "dm_entry (f_dmp g)"] by simp
  then have st: "stands fnp k ?g" using stands_set [OF Suc.prems(2)] by metis
  have k: "k < n" using Suc.prems(3) by simp
  obtain g1 e1 where r: "dir_read drv ?g e = Some (Inr (hd (dir_name (ents e ! k)) \<noteq> 0), g1, e1)" "good e1" "keep e e1" "ents e1 = ents e"
     "stands fnp k g1" "f_dir g1 = ents e ! k" "pos g1 k" using read_entry [OF Suc.prems(1) st k] by blast
  have live: "hd (dir_name (ents e ! k)) \<noteq> 0" using Suc.prems(4) by simp
  show ?case
  proof (cases "dir_attrib (ents e ! k) = D_LFN")
    case False
    then have "lfn_loop drv g e = Some (Inr (), g1, e1)" using nz r(1,6) live by (subst lfn_loop.simps) simp
    then show ?thesis using False r by (auto simp: belongs_Suc)
  next
    case True
    let ?g1 = "g1\<lparr>f_dir := deleted (ents e ! k)\<rparr>"
    have len: "length (dir_name (ents e ! k)) = 11" "length (ents e) = n" using shape [OF Suc.prems(1)] k by auto
    have p: "pos ?g1 k" using same_place r(7) by simp
    obtain e2 where w: "dir_write drv ?g1 e1 = Some (True, e2)" "good e2" "keep e1 e2" "ents e2 = (ents e)[k := deleted (ents e ! k)]"
      using write_entry [OF r(2) stands_dir [OF r(5)] p k] len r(4) by auto
    have l: "lfn_loop drv g e = lfn_loop drv ?g1 e2"
      using nz r(1,6) live True w(1) by (subst lfn_loop.simps) (simp add: deleted_def [symmetric] Let_def)
    have b: "belongs (ents e2) k i = belongs (ents e) k i" for i by (rule belongs_cong) (simp add: w(4))
    have "\<forall>i < k. hd (dir_name (ents e2 ! i)) \<noteq> 0" using Suc.prems(4) w(4) by simp
    from Suc.IH [OF w(2) stands_dir [OF r(5)] less_imp_le [OF k] this, of "deleted (ents e ! k)"] obtain g' e' m where ih: "lfn_loop drv ?g1 e2 = Some (Inr (), g', e')" "good e'"
      "keep e2 e'" "stands fnp m g'"
      "\<forall>i < n. ents e' ! i = (if i < k \<and> belongs (ents e2) k i then deleted (ents e2 ! i) else ents e2 ! i)" by blast
    have "ents e' ! i = (if i < Suc k \<and> belongs (ents e) (Suc k) i then deleted (ents e ! i) else ents e ! i)" if "i < n" for i
    proof (cases i k rule: linorder_cases)
      case equal
      then show ?thesis using ih(5) that w(4) True len(2) k by (simp add: belongs_def)
    qed (use ih(5) that b w(4) True in \<open>simp_all add: belongs_Suc\<close>)
    then show ?thesis using l ih(1,2,4) keep_trans [OF r(3) keep_trans [OF w(3) ih(3)]] by auto
  qed
qed

lemma lfn_removed:
  assumes "good e" "stands fnp j g" "j < n" "\<forall>i \<le> j. hd (dir_name (ents e ! i)) \<noteq> 0"
  shows "\<exists>g' e'. remove_lfn_entries drv g e = Some (Inr (), g', e') \<and> good e' \<and> keep e e' \<and> stands fnp j g' \<and> pos g' j
     \<and> f_dir g' = ents e ! j
     \<and> (\<forall>i < n. ents e' ! i = (if i < j \<and> belongs (ents e) j i then deleted (ents e ! i) else ents e ! i))"
proof -
  obtain g1 e1 m where l: "lfn_loop drv g e = Some (Inr (), g1, e1)" "good e1" "keep e e1" "stands fnp m g1"
      "\<forall>i < n. ents e1 ! i = (if i < j \<and> belongs (ents e) j i then deleted (ents e ! i) else ents e ! i)"
    using lfn_entries [OF assms(1,2)] assms(3,4) by auto
  have ej: "ents e1 ! j = ents e ! j" using l(5) assms(3) by simp
  have "stands fnp j (set_entry (dm_entry (f_dmp g)) g1)" using stands_set [OF l(4)] assms(2) by (simp add: stands_def)
  from read_entry [OF l(2) this assms(3)] obtain g2 e2 where
    "dir_read drv (set_entry (dm_entry (f_dmp g)) g1) e1 = Some (Inr (hd (dir_name (ents e1 ! j)) \<noteq> 0), g2, e2)" "good e2" "keep e1 e2"
    "ents e2 = ents e1" "stands fnp j g2" "f_dir g2 = ents e1 ! j" "pos g2 j" by blast
  then show ?thesis using l(1,5) keep_trans [OF l(3)] ej assms(4) by (auto simp: remove_lfn_entries_def)
qed

end

end
