(* ===== verification/Fat_Sectors.thy ===== *)
theory Fat_Sectors
  imports Fat_DirStore Fat_Store
begin

text \<open>
  Directory sectors in the cache: what \<^verbatim>\<open>dir_read\<close> and \<^verbatim>\<open>dir_write\<close> do to the buffer of the sector an
  entry lies in, and an entry of a sector as the kernel sees it.
\<close>

definition sector_entry :: "bytes \<Rightarrow> nat \<Rightarrow> dirent" where
  "sector_entry b i = (let de = getdirent b (i * 32) in de\<lparr>dir_name := swap_deleted (dir_name de)\<rparr>)"

lemma sector_entry_name: "length b = 512 \<Longrightarrow> i < 16 \<Longrightarrow> length (dir_name (sector_entry b i)) = 11"
  by (simp add: sector_entry_def Let_def getdirent_def)

definition stored_entry :: "dirent \<Rightarrow> dirent" where
  "stored_entry de = de\<lparr>dir_name := swap_deleted (dir_name de)\<rparr>"

lemma sector_entry_put:
  assumes "length (dir_name de) = 11" "length b = 512" "i < 16" "j < 16"
  shows "sector_entry (putdirent (stored_entry de) b (i * 32)) j = (if j = i then de else sector_entry b j)"
    "length (putdirent (stored_entry de) b (i * 32)) = 512"
proof -
  have l: "length (dir_name (stored_entry de)) = 11" using assms(1) by (simp add: stored_entry_def)
  have i: "i * 32 + 32 \<le> length b" "j * 32 + 32 \<le> length b" using assms(2-4) by simp_all
  show "length (putdirent (stored_entry de) b (i * 32)) = 512" using l i assms(2) by simp
  show "sector_entry (putdirent (stored_entry de) b (i * 32)) j = (if j = i then de else sector_entry b j)"
  proof (cases "j = i")
    case True
    have "dir_name de \<noteq> []" using assms(1) by auto
    then show ?thesis using True getdirent_putdirent [OF l i(1)]
      by (simp add: sector_entry_def Let_def stored_entry_def swap_deleted_twice)
  next
    case False
    then have "j * 32 + 32 \<le> i * 32 \<or> i * 32 + 32 \<le> j * 32" by (cases "j < i") simp_all
    then show ?thesis using False getdirent_putdirent_other [OF l i] by (simp add: sector_entry_def)
  qed
qed

lemma dir_flags:
  "bit ((fl AND NOT (BFR_DATA OR BFR_FAT)) OR (BFR_DIR OR BFR_VALID) :: u8) 5"
  "\<not> bit ((fl AND NOT (BFR_DATA OR BFR_FAT)) OR (BFR_DIR OR BFR_VALID) :: u8) 1"
  "bit ((fl AND NOT (BFR_DATA OR BFR_FAT)) OR (BFR_DIR OR BFR_VALID) :: u8) 6 = bit fl 6"
  "bit ((fl AND NOT (BFR_DATA OR BFR_FAT)) OR (BFR_DIR OR BFR_DIRTY OR BFR_VALID) :: u8) 5"
  "\<not> bit ((fl AND NOT (BFR_DATA OR BFR_FAT)) OR (BFR_DIR OR BFR_DIRTY OR BFR_VALID) :: u8) 1"
  "bit ((fl AND NOT (BFR_DATA OR BFR_FAT)) OR (BFR_DIR OR BFR_DIRTY OR BFR_VALID) :: u8) 6"
  by (simp_all add: bfr_flags bit_simps)

abbreviation dir_tag :: "buffer \<Rightarrow> buffer" where
  "dir_tag x \<equiv> x\<lparr>b_flag := (b_flag x AND NOT (BFR_DATA OR BFR_FAT)) OR (BFR_DIR OR BFR_VALID)\<rparr>"

lemma dir_buffer:
  assumes rel: "reliable drv sec" and inv: "cinv sec L e" and x: "(u, blk) \<in> L"
  shows "\<exists>b e1. getblk drv blk u False e = Some (Some b, e1) \<and> same_env e e1
     \<and> cinv sec L (upd_buf b dir_tag e1) \<and> same_views sec L e (upd_buf b dir_tag e1)
     \<and> b \<in> set (order (upd_buf b dir_tag e1)) \<and> holds_block blk u (bufs (upd_buf b dir_tag e1) b)
     \<and> b_buffer (bufs e1 b) = cview sec e u blk"
proof -
  obtain b e1 where g: "getblk drv blk u False e = Some (Some b, e1)" "cinv sec L e1" "same_env e e1"
     "set (order e1) = set (order e)" "b \<in> set (order e)" "holds_block blk u (bufs e1 b)" "b_buffer (bufs e1 b) = cview sec e u blk"
     "\<forall>y \<in> L. cview sec e1 (fst y) (snd y) = cview sec e (fst y) (snd y)"
    using cgetblk [OF assms] by blast
  have b: "b \<in> set (order e1)" using g(4,5) by simp
  have h: "b_unit (bufs e1 b) = u" "b_blkno (bufs e1 b) = blk" using g(6) by (simp_all add: holds_block_bits)
  have c: "copies_of (dir_tag (bufs e1 b)) (dpbs e1) = (1, 0)" using dir_flags(2) by (simp add: copies_of_def flag_bits)
  have r: "cinv sec L (upd_buf b dir_tag e1) \<and> order (upd_buf b dir_tag e1) = order e1
     \<and> (\<forall>y \<in> L. cview sec (upd_buf b dir_tag e1) (fst y) (snd y) = cview sec e1 (fst y) (snd y))"
  proof (rule cretag [OF g(2) b g(6)])
    show "fst (copies_of (dir_tag (bufs e1 b)) (dpbs e1)) \<noteq> 0" "mirror_blocks (dir_tag (bufs e1 b)) (dpbs e1) \<inter> L = {}"
      unfolding mirror_blocks_def c by simp_all
    show "bit (b_flag (dir_tag (bufs e1 b))) 6 \<or> \<not> bit (b_flag (bufs e1 b)) 6" using dir_flags(3) by simp
    show "bit (b_flag (dir_tag (bufs e1 b))) 5" using dir_flags(1) by simp
  qed (use h in simp_all)
  moreover have "holds_block blk u (bufs (upd_buf b dir_tag e1) b)" using h dir_flags(1) by (simp add: holds_block_bits)
  moreover have "same_views sec L e (upd_buf b dir_tag e1)" using r g(8) by (simp add: same_views_def)
  ultimately show ?thesis using g(1,3,7) b by auto
qed

lemma live_length:
  assumes "reliable drv sec" "cinv sec L e" "(u, blk) \<in> L"
  shows "length (cview sec e u blk) = 512"
proof -
  obtain b e1 where "cinv sec L (upd_buf b dir_tag e1)" "b \<in> set (order (upd_buf b dir_tag e1))" "b_buffer (bufs e1 b) = cview sec e u blk"
    using dir_buffer [OF assms] by blast
  then show ?thesis using cache_invD(5) [OF cinvD(1), of sec L "upd_buf b dir_tag e1" b] by (simp add: buf_ok_def)
qed

text \<open>The result of writing an entry: the sector changes, every other block stays.\<close>

lemma dir_write_sector:
  assumes rel: "reliable drv sec" and inv: "cinv sec L e" and x: "(dpb_unit (dpbs e (f_dpb g)), f_dirsector g) \<in> L"
    and i: "f_diridx g < 16" and n: "length (dir_name (f_dir g)) = 11"
  defines "y0 \<equiv> (dpb_unit (dpbs e (f_dpb g)), f_dirsector g)"
  shows "\<exists>e'. dir_write drv g e = Some (True, e') \<and> cinv sec L e' \<and> same_env e e'
     \<and> (\<forall>y \<in> L. cview sec e' (fst y) (snd y) =
          (if y = y0 then putdirent (stored_entry (f_dir g)) (cview sec e (fst y) (snd y)) (unat (f_diridx g) * 32)
           else cview sec e (fst y) (snd y)))"
proof -
  obtain b e1 where g: "getblk drv (f_dirsector g) (dpb_unit (dpbs e (f_dpb g))) False e = Some (Some b, e1)" "same_env e e1"
     "cinv sec L (upd_buf b dir_tag e1)" "same_views sec L e (upd_buf b dir_tag e1)"
     "b \<in> set (order (upd_buf b dir_tag e1))" "holds_block (f_dirsector g) (dpb_unit (dpbs e (f_dpb g))) (bufs (upd_buf b dir_tag e1) b)"
     "b_buffer (bufs e1 b) = cview sec e (dpb_unit (dpbs e (f_dpb g))) (f_dirsector g)"
    using dir_buffer [OF rel inv x] by blast
  let ?e2 = "upd_buf b dir_tag e1"
  let ?data = "putdirent (stored_entry (f_dir g)) (b_buffer (bufs e1 b)) (unat (f_diridx g) * 32)"
  let ?fl = "(b_flag (bufs e1 b) AND NOT (BFR_DATA OR BFR_FAT)) OR (BFR_DIR OR BFR_DIRTY OR BFR_VALID)"
  let ?put = "\<lambda>x. x\<lparr>b_buffer := ?data, b_flag := ?fl\<rparr>"
  have len: "length (b_buffer (bufs e1 b)) = 512"
    using cache_invD(5) [OF cinvD(1) [OF g(3)] g(5)] by (simp add: buf_ok_def)
  have i16: "unat (f_diridx g) < 16" using i by (simp add: word_less_nat_alt)
  have dl: "length ?data = 512" by (rule sector_entry_put(2) [OF n len i16 i16])
  have s: "cinv sec L (upd_buf b ?put ?e2) \<and> order (upd_buf b ?put ?e2) = order ?e2 \<and>
     (\<forall>y \<in> L. cview sec (upd_buf b ?put ?e2) (fst y) (snd y) = (if y = (dpb_unit (dpbs e (f_dpb g)), f_dirsector g) then ?data else cview sec ?e2 (fst y) (snd y)))"
    by (rule cstore [OF g(3,5,6) dl]) (use dir_flags in simp_all)
  let ?e3 = "upd_buf b ?put ?e2"
  note c = cinvD [OF s [THEN conjunct1]]
  obtain e' where f: "flush_buffers drv (dpb_unit (dpbs ?e3 (f_dpb g))) ?e3 = Some (True, e')" "cache_inv sec L (order ?e3) e'" "same_env ?e3 e'"
     "\<forall>y \<in> L. view sec (order ?e3) e' (fst y) (snd y) = view sec (order ?e3) ?e3 (fst y) (snd y)"
    using flush_buffers_ok [OF rel c(1)] by blast
  have "same_env e ?e3" using g(2) unfolding same_env_upd_buf .
  then have env: "same_env e e'" by (rule same_env_trans [OF _ f(3)])
  have d: "dpbs e1 = dpbs e" using g(2) by (simp add: same_env_def)
  have nb: "nbuffers e' = nbuffers ?e3" using f(3) unfolding same_env_def by (elim conjE)
  have l: "length (order ?e3) = unat (nbuffers e')" "1 < unat (nbuffers e')" using c(2,3) nb by simp_all
  note i = cinv_intro [OF f(2) l]
  have v: "cview sec e' (fst y) (snd y) = (if y = y0 then putdirent (stored_entry (f_dir g)) (cview sec e (fst y) (snd y)) (unat (f_diridx g) * 32)
           else cview sec e (fst y) (snd y))" if "y \<in> L" for y
  proof -
    have "cview sec e' (fst y) (snd y) = cview sec ?e3 (fst y) (snd y)" using f(4) that unfolding i(3) by (simp add: cview_def)
    also have "\<dots> = (if y = y0 then ?data else cview sec ?e2 (fst y) (snd y))" using s that by (simp add: y0_def)
    finally show ?thesis using g(4,7) that by (simp add: same_views_def y0_def)
  qed
  have "?e3 = upd_buf b (\<lambda>x. x\<lparr>b_buffer := putdirent (stored_entry (f_dir g)) (b_buffer x) (unat (f_diridx g) * 32),
     b_flag := (b_flag x AND NOT (BFR_DATA OR BFR_FAT)) OR (BFR_DIR OR BFR_DIRTY OR BFR_VALID)\<rparr>) e1"
    by (simp add: upd_buf_def)
  then have "dir_write drv g e = flush_buffers drv (dpb_unit (dpbs ?e3 (f_dpb g))) ?e3"
    using g(1) d by (simp add: dir_write_def dir_write_update_def Let_def stored_entry_def DIRENT_SIZE_def)
  then show ?thesis using f(1) i(1) env v by auto
qed

end
