(* ===== verification/Fat_Root.thy ===== *)
theory Fat_Root
  imports Fat_Sectors
begin

text \<open>
  The root directory of a FAT12 or FAT16 drive provides the interface of a directory: its entries lie
  in consecutive sectors from \<^verbatim>\<open>dpb_dirstrt\<close> on, 16 to a sector.
\<close>

definition root_sectors :: "dpb \<Rightarrow> nat" where
  "root_sectors d = (unat (dpb_dirents d) + 15) div 16"

definition root_block :: "dpb \<Rightarrow> nat \<Rightarrow> u32" where
  "root_block d k = ucast (dpb_dirstrt d) + of_nat (k div 16)"

definition root_area :: "dpb \<Rightarrow> (u8 \<times> u32) set" where
  "root_area d = (\<lambda>s. (dpb_unit d, ucast (dpb_dirstrt d) + of_nat s)) ` {..<root_sectors d}"

definition root_layout :: "(u8 \<times> u32) set \<Rightarrow> dpb \<Rightarrow> bool" where
  "root_layout L d \<longleftrightarrow> dpb_secsize d = 512 \<and> unat (dpb_dirstrt d) + root_sectors d < 65536 \<and> root_area d \<subseteq> L"

definition root_entries :: "'d sectors \<Rightarrow> dpb \<Rightarrow> 'd io \<Rightarrow> dirent list" where
  "root_entries sec d e = map (\<lambda>k. sector_entry (cview sec e (dpb_unit d) (root_block d k)) (k mod 16)) [0..<unat (dpb_dirents d)]"

definition root_good :: "'d blk_driver \<Rightarrow> 'd sectors \<Rightarrow> (u8 \<times> u32) set \<Rightarrow> nat \<Rightarrow> dpb \<Rightarrow> 'd io \<Rightarrow> bool" where
  "root_good drv sec L p d e \<longleftrightarrow> reliable drv sec \<and> cinv sec L e \<and> same_geometry d (dpbs e p) \<and> root_layout L d"

definition root_here :: "nat \<Rightarrow> f_node \<Rightarrow> bool" where
  "root_here p g \<longleftrightarrow> f_dpb g = p \<and> dm_dircluster (f_dmp g) = 0"

definition root_pos :: "dpb \<Rightarrow> f_node \<Rightarrow> nat \<Rightarrow> bool" where
  "root_pos d g k \<longleftrightarrow> f_dirsector g = root_block d k \<and> f_diridx g = of_nat (k mod 16)"

definition root_keep :: "'d sectors \<Rightarrow> (u8 \<times> u32) set \<Rightarrow> dpb \<Rightarrow> 'd io \<Rightarrow> 'd io \<Rightarrow> bool" where
  "root_keep sec L d e e' \<longleftrightarrow> same_env e e' \<and> (\<forall>y \<in> L. y \<notin> root_area d \<longrightarrow> cview sec e' (fst y) (snd y) = cview sec e (fst y) (snd y))"

lemma root_geometryD:
  assumes "same_geometry d d'"
  shows "dpb_dirents d' = dpb_dirents d" "dpb_dirstrt d' = dpb_dirstrt d" "dpb_unit d' = dpb_unit d" "dpb_secsize d' = dpb_secsize d"
    "dpb_clsmask d' = dpb_clsmask d" "dpb_shftcnt d' = dpb_shftcnt d" "dpb_data d' = dpb_data d" "dpb_xdata d' = dpb_xdata d"
    "dpb_xrootclst d' = dpb_xrootclst d"
  by (subst assms [unfolded same_geometry_def], simp)+

lemma root_goodD:
  assumes "root_good drv sec L p d e"
  shows "reliable drv sec" "cinv sec L e" "same_geometry d (dpbs e p)" "root_layout L d"
  using assms by (simp_all add: root_good_def)

text \<open>The sectors of the entries are live, and different entries of one sector have the same block.\<close>

lemma root_block_in:
  assumes "root_layout L d" "k < unat (dpb_dirents d)"
  shows "(dpb_unit d, root_block d k) \<in> L" "(dpb_unit d, root_block d k) \<in> root_area d"
    "ucast (of_nat k div 16 + dpb_dirstrt d :: u16) = root_block d k" "k div 16 < root_sectors d"
proof -
  show s: "k div 16 < root_sectors d" using assms(2) unfolding root_sectors_def by (simp add: less_eq_div_iff_mult_less_eq Suc_le_eq [symmetric])
  then show a: "(dpb_unit d, root_block d k) \<in> root_area d" by (auto simp: root_area_def root_block_def)
  then show "(dpb_unit d, root_block d k) \<in> L" using assms(1) by (auto simp: root_layout_def)
  have k: "k < 65536" using assms(2) unat16_lt [of "dpb_dirents d"] by linarith
  have b: "unat (dpb_dirstrt d) + k div 16 < 65536" using assms(1) s by (simp add: root_layout_def)
  have "unat (of_nat k div 16 :: u16) = k div 16" using k by (simp add: unat_div unat16_of_nat)
  then have "unat (of_nat k div 16 + dpb_dirstrt d :: u16) = k div 16 + unat (dpb_dirstrt d)"
    using b by (subst unat_add_no_wrap) simp_all
  moreover have "unat (of_nat (k div 16) :: u32) = k div 16" using k by (simp add: unat32_of_nat)
  then have "unat (root_block d k) = unat (dpb_dirstrt d) + k div 16" unfolding root_block_def
    using b by (subst unat_add_no_wrap) (simp_all add: unat_ucast_16_32)
  ultimately show "ucast (of_nat k div 16 + dpb_dirstrt d :: u16) = root_block d k"
    by (intro word_unat_eq_iff [THEN iffD2]) (simp add: unat_ucast_16_32)
qed

lemma root_block_inj:
  assumes "root_layout L d" "k < unat (dpb_dirents d)" "j < unat (dpb_dirents d)" "root_block d k = root_block d j"
  shows "k div 16 = j div 16"
proof -
  have "unat (root_block d i) = unat (dpb_dirstrt d) + i div 16" if "i < unat (dpb_dirents d)" for i
  proof -
    have b: "unat (dpb_dirstrt d) + i div 16 < 65536" using assms(1) root_block_in(4) [OF assms(1) that] by (simp add: root_layout_def)
    then have "unat (of_nat (i div 16) :: u32) = i div 16" by (simp add: unat32_of_nat)
    then show ?thesis unfolding root_block_def using b by (subst unat_add_no_wrap) (simp_all add: unat_ucast_16_32)
  qed
  then show ?thesis using assms(2-4) by (metis add_left_cancel)
qed

section \<open>The laws\<close>

lemma root_shape:
  assumes "root_good drv sec L p d e"
  shows "length (root_entries sec d e) = unat (dpb_dirents d) \<and> (\<forall>x \<in> set (root_entries sec d e). length (dir_name x) = 11)"
proof -
  note g = root_goodD [OF assms]
  have "length (dir_name (sector_entry (cview sec e (dpb_unit d) (root_block d k)) (k mod 16))) = 11" if "k < unat (dpb_dirents d)" for k
  proof -
    have "length (cview sec e (dpb_unit d) (root_block d k)) = 512" by (rule live_length [OF g(1,2) root_block_in(1) [OF g(4) that]])
    then show ?thesis by (rule sector_entry_name) simp
  qed
  then show ?thesis by (auto simp: root_entries_def)
qed

lemma root_entries_cong:
  assumes "root_layout L d" "\<And>y. y \<in> root_area d \<Longrightarrow> cview sec e' (fst y) (snd y) = cview sec e (fst y) (snd y)"
  shows "root_entries sec d e' = root_entries sec d e"
proof -
  have "cview sec e' (dpb_unit d) (root_block d k) = cview sec e (dpb_unit d) (root_block d k)" if "k < unat (dpb_dirents d)" for k
    using assms(2) [OF root_block_in(2) [OF assms(1) that]] by simp
  then show ?thesis by (simp add: root_entries_def)
qed

lemma root_position:
  assumes g: "root_good drv sec L p d e" and h: "root_here p fnp" and k: "unat (dm_entry (f_dmp fnp)) < unat (dpb_dirents d)"
  shows "dir_position drv fnp e = Some (Inr (), fnp\<lparr>f_dirsector := root_block d (unat (dm_entry (f_dmp fnp)))\<rparr>, e)"
proof -
  note q = root_goodD [OF g] and geo = root_geometryD [OF root_goodD(3) [OF g]]
  have "\<not> dpb_dirents (dpbs e p) \<le> dm_entry (f_dmp fnp)" using k geo by (simp add: word_le_nat_alt)
  moreover have "ucast (dm_entry (f_dmp fnp) div 16 + dpb_dirstrt d) = root_block d (unat (dm_entry (f_dmp fnp)))"
    using root_block_in(3) [OF q(4) k] by simp
  ultimately show ?thesis using h q(4) geo by (simp add: dir_position_def root_here_def DIRENT_SIZE_def root_layout_def)
qed

lemma root_reads:
  assumes g: "root_good drv sec L p d e" and h: "root_here p fnp" and k: "unat (dm_entry (f_dmp fnp)) < unat (dpb_dirents d)"
  shows "\<exists>fnp' e'. dir_read drv fnp e = Some (Inr (hd (dir_name (root_entries sec d e ! unat (dm_entry (f_dmp fnp)))) \<noteq> 0), fnp', e')
     \<and> root_good drv sec L p d e' \<and> root_keep sec L d e e' \<and> root_entries sec d e' = root_entries sec d e \<and> root_here p fnp'
     \<and> f_dmp fnp' = f_dmp fnp \<and> f_dir fnp' = root_entries sec d e ! unat (dm_entry (f_dmp fnp))
     \<and> root_pos d fnp' (unat (dm_entry (f_dmp fnp)))"
proof -
  let ?k = "unat (dm_entry (f_dmp fnp))"
  note q = root_goodD [OF g] and geo = root_geometryD [OF root_goodD(3) [OF g]]
  have p: "f_dpb fnp = p" using h by (simp add: root_here_def)
  obtain b e1 where r: "getblk drv (root_block d ?k) (dpb_unit d) False e = Some (Some b, e1)" "same_env e e1"
     "cinv sec L (upd_buf b dir_tag e1)" "same_views sec L e (upd_buf b dir_tag e1)"
     "b_buffer (bufs e1 b) = cview sec e (dpb_unit d) (root_block d ?k)"
    using dir_buffer [OF q(1,2) root_block_in(1) [OF q(4) k]] by blast
  let ?e2 = "upd_buf b dir_tag e1"
  have ds: "dpbs e1 = dpbs e" using r(2) by (simp add: same_env_def)
  have "?k < 65535" using k unat16_lt [of "dpb_dirents d"] by linarith
  then have nl: "\<not> 65535 \<le> dm_entry (f_dmp fnp)" by (simp add: word_le_nat_alt)
  have ss: "dpb_secsize (dpbs e p) = 512" using q(4) geo by (simp add: root_layout_def)
  have ix: "unat (ucast (dm_entry (f_dmp fnp) mod 16) :: u8) = ?k mod 16"
  proof -
    have "unat (dm_entry (f_dmp fnp) mod 16) = ?k mod 16" by (simp add: unat_mod)
    then show ?thesis by (simp add: unat_ucast_16_8)
  qed
  then have ix2: "(ucast (dm_entry (f_dmp fnp) mod 16) :: u8) = of_nat (?k mod 16)" by (intro word_unat_eq_iff [THEN iffD2]) (simp add: unat8_of_nat)
  let ?de = "getdirent (cview sec e (dpb_unit d) (root_block d ?k)) (?k mod 16 * 32)"
  let ?f = "fnp\<lparr>f_dirsector := root_block d ?k, f_diridx := of_nat (?k mod 16), f_dir := ?de\<lparr>dir_name := swap_deleted (dir_name ?de)\<rparr>\<rparr>"
  have en: "root_entries sec d e ! ?k = ?de\<lparr>dir_name := swap_deleted (dir_name ?de)\<rparr>"
    using k by (simp add: root_entries_def sector_entry_def Let_def)
  have "dir_read drv fnp e = Some (Inr (hd (dir_name (f_dir ?f)) \<noteq> 0), ?f, ?e2)"
    using nl root_position [OF g h k] r(1,5) p geo ds ss ix ix2 by (simp add: dir_read_def Let_def DIRENT_SIZE_def)
  moreover have "root_good drv sec L p d ?e2" using q r(3) ds by (simp add: root_good_def)
  moreover have "root_keep sec L d e ?e2" using r(2,4) by (simp add: root_keep_def same_views_def)
  moreover have "root_area d \<subseteq> L" using q(4) by (simp add: root_layout_def)
  then have "root_entries sec d ?e2 = root_entries sec d e" using r(4) by (intro root_entries_cong [OF q(4)]) (auto simp: same_views_def)
  moreover have "root_here p ?f" using h by (simp add: root_here_def)
  moreover have "root_pos d ?f ?k" by (simp add: root_pos_def)
  ultimately show ?thesis unfolding en by (intro exI [of _ ?f] exI [of _ ?e2]) simp
qed

lemma root_past:
  assumes g: "root_good drv sec L p d e" and h: "root_here p fnp" and k: "unat (dpb_dirents d) \<le> unat (dm_entry (f_dmp fnp))"
  shows "\<exists>fnp' e'. dir_read drv fnp e = Some (Inl DE_SEEK, fnp', e') \<and> root_good drv sec L p d e' \<and> root_keep sec L d e e'
     \<and> root_entries sec d e' = root_entries sec d e \<and> root_here p fnp' \<and> f_dmp fnp' = f_dmp fnp"
proof -
  have "dpb_dirents (dpbs e p) \<le> dm_entry (f_dmp fnp)" using k root_geometryD [OF root_goodD(3) [OF g]] by (simp add: word_le_nat_alt)
  then have "dir_read drv fnp e = Some (Inl DE_SEEK, fnp, e)" using h by (simp add: dir_read_def dir_position_def root_here_def)
  then show ?thesis using g h by (simp add: root_keep_def)
qed

lemma root_writes:
  assumes g: "root_good drv sec L p d e" and h: "root_here p fnp" and pos: "root_pos d fnp k" and k: "k < unat (dpb_dirents d)"
    and n: "length (dir_name (f_dir fnp)) = 11"
  shows "\<exists>e'. dir_write drv fnp e = Some (True, e') \<and> root_good drv sec L p d e' \<and> root_keep sec L d e e'
     \<and> root_entries sec d e' = (root_entries sec d e)[k := f_dir fnp]"
proof -
  note q = root_goodD [OF g] and geo = root_geometryD [OF root_goodD(3) [OF g]]
  have p: "f_dpb fnp = p" using h by (simp add: root_here_def)
  have ix: "unat (f_diridx fnp) = k mod 16" using pos by (simp add: root_pos_def unat8_of_nat)
  then have lt: "f_diridx fnp < 16" by (simp add: word_less_nat_alt)
  have bl: "f_dirsector fnp = root_block d k" using pos by (simp add: root_pos_def)
  let ?y = "(dpb_unit d, root_block d k)"
  have x: "(dpb_unit (dpbs e (f_dpb fnp)), f_dirsector fnp) \<in> L" using root_block_in(1) [OF q(4) k] p geo bl by simp
  obtain e' where w: "dir_write drv fnp e = Some (True, e')" "cinv sec L e'" "same_env e e'"
     "\<forall>y \<in> L. cview sec e' (fst y) (snd y) =
        (if y = ?y then putdirent (stored_entry (f_dir fnp)) (cview sec e (fst y) (snd y)) (unat (f_diridx fnp) * 32)
         else cview sec e (fst y) (snd y))"
    using dir_write_sector [OF q(1,2) x lt n] p geo bl by auto
  have good: "root_good drv sec L p d e'" using q w(2,3) by (simp add: root_good_def same_env_def)
  have keep: "root_keep sec L d e e'" using w(3,4) root_block_in(2) [OF q(4) k] by (auto simp: root_keep_def)
  have len: "length (cview sec e (dpb_unit d) (root_block d k)) = 512" by (rule live_length [OF q(1,2) root_block_in(1) [OF q(4) k]])
  have "root_entries sec d e' ! j = (root_entries sec d e)[k := f_dir fnp] ! j" if j: "j < unat (dpb_dirents d)" for j
  proof -
    have v: "cview sec e' (dpb_unit d) (root_block d j) =
       (if root_block d j = root_block d k then putdirent (stored_entry (f_dir fnp)) (cview sec e (dpb_unit d) (root_block d k)) (k mod 16 * 32)
        else cview sec e (dpb_unit d) (root_block d j))"
      using w(4) root_block_in(1) [OF q(4) j] ix by auto
    show ?thesis
    proof (cases "root_block d j = root_block d k")
      case True
      then have "j div 16 = k div 16" using root_block_inj [OF q(4) j k] by simp
      then have "j mod 16 = k mod 16 \<longleftrightarrow> j = k" by (metis div_mult_mod_eq)
      then show ?thesis using v True j k sector_entry_put(1) [OF n len, of "k mod 16" "j mod 16"]
        by (simp add: root_entries_def nth_list_update)
    next
      case False
      then have "j \<noteq> k" by auto
      then show ?thesis using v False j by (simp add: root_entries_def)
    qed
  qed
  then have "root_entries sec d e' = (root_entries sec d e)[k := f_dir fnp]"
    by (intro nth_equalityI) (simp_all add: root_entries_def)
  then show ?thesis using w(1) good keep by blast
qed

lemma root_same_place:
  "root_here p (set_entry m fnp) = root_here p fnp \<and> root_here p (fnp\<lparr>f_dir := x\<rparr>) = root_here p fnp
     \<and> root_pos d (set_entry m fnp) k = root_pos d fnp k \<and> root_pos d (fnp\<lparr>f_dir := x\<rparr>) k = root_pos d fnp k"
  by (simp add: root_here_def root_pos_def set_entry_def)

interpretation root: dir_store drv "root_here p" "root_pos d" "unat (dpb_dirents d)" "root_good drv sec L p d" "root_entries sec d"
    "root_keep sec L d"
  for drv :: "'d blk_driver" and p d sec L
proof unfold_locales
  show "root_keep sec L d e e" for e by (simp add: root_keep_def)
  show "root_keep sec L d e e2" if "root_keep sec L d e e1" "root_keep sec L d e1 e2" for e e1 e2
    using that same_env_trans by (auto simp: root_keep_def)
  show "unat (dpb_dirents d) \<le> 65535" using unat16_lt [of "dpb_dirents d"] by linarith
qed (fact root_shape root_same_place root_reads root_past root_writes)+

end
