(* ===== verification/Fat_Root_Props.thy ===== *)
theory Fat_Root_Props
  imports Fat_Root Fat_Store_Props
begin

text \<open>
  Files in the root directory: a path of a drive letter and a name leads to the first entry of that
  name, and deleting it removes its entries and frees its clusters.
\<close>

section \<open>The way to a file in the root directory\<close>

definition root_path :: "u8 \<Rightarrow> bytes \<Rightarrow> bytes" where
  "root_path c n = c # 0x3a # backslash # ConvertName83ToNameSZ n"

text \<open>A name with at least one character.\<close>

definition is_file_name :: "bytes \<Rightarrow> bool" where
  "is_file_name n \<longleftrightarrow> plain_name n \<and> ConvertName83ToNameSZ n \<noteq> []"

definition at_root :: "nat \<Rightarrow> bytes \<Rightarrow> f_node \<Rightarrow> bool" where
  "at_root p n g \<longleftrightarrow> root_here p g \<and> dm_entry (f_dmp g) = 0 \<and> dm_name_pat (f_dmp g) = n"

lemma name_text_last:
  assumes "plain_name n" "ConvertName83ToNameSZ n \<noteq> []"
  shows "last (ConvertName83ToNameSZ n) \<noteq> backslash"
proof -
  have l: "length n = 11" "list_all plain_char n" using assms(1) by (simp_all add: plain_name_def name_consts)
  let ?b = "trim_blanks (take 8 n)" and ?x = "trim_blanks (take 3 (drop 8 n))"
  have s: "set ?b \<subseteq> set n" "set ?x \<subseteq> set n"
    using trim_blanks_replicate(3) [OF refl, of "take 8 n"] trim_blanks_replicate(3) [OF refl, of "take 3 (drop 8 n)"]
      set_take_subset [of 8 n] set_take_subset [of 3 "drop 8 n"] set_drop_subset [of 8 n] by auto
  have "c \<noteq> backslash" if "c \<in> set n" for c using l(2) that by (auto simp: list_all_iff plain_char_def)
  then have "set (ConvertName83ToNameSZ n) \<subseteq> {c. c \<noteq> backslash}"
    using s by (auto simp: ConvertName83ToNameSZ_def name_consts Let_def split: if_splits)
  then show ?thesis using assms(2) last_in_set by blast
qed

lemma split_root_path:
  assumes n: "is_file_name n" and p: "get_dpb (path_drive (root_path c n)) e = Some p" and k: "\<not> ISFAT32 (dpbs e p)"
  shows "\<exists>g. split_path drv (root_path c n) fnp e = Some (True, g, e) \<and> at_root p n g"
proof -
  let ?t = "ConvertName83ToNameSZ n"
  have t: "?t \<noteq> []" "plain_name n" using n by (simp_all add: is_file_name_def)
  have "last (root_path c n) \<noteq> backslash" using name_text_last [OF t(2,1)] t(1) by (simp add: root_path_def)
  then have "split_path drv (root_path c n) fnp e = dir_open drv (root_path c n) True fnp e"
    by (simp add: split_path_def)
  also have "\<dots> = dir_walk drv True (backslash # ?t) (set_entry 0 (dir_init_fnode (dpbs e p) 0 (fnp\<lparr>f_dpb := p\<rparr>))) e"
    using p by (simp add: dir_open_def) (simp add: root_path_def)
  also have "\<dots> = (let f = set_entry 0 (dir_init_fnode (dpbs e p) 0 (fnp\<lparr>f_dpb := p\<rparr>))
      in Some (True, f\<lparr>f_dmp := (f_dmp f)\<lparr>dm_name_pat := n\<rparr>\<rparr>, e))"
    using t(1) name83_round_trip [OF t(2), of "[]"] by (subst dir_walk.simps) (simp add: Let_def)
  finally show ?thesis using k by (simp add: Let_def at_root_def root_here_def set_entry_def dir_init_fnode_def)
qed

text \<open>What \<^verbatim>\<open>find_fname\<close> looks for.\<close>

definition matches_name :: "bytes \<Rightarrow> u8 \<Rightarrow> dirent \<Rightarrow> bool" where
  "matches_name n attr d \<longleftrightarrow> fcbmatch (dir_name d) n \<and> dir_attrib d AND NOT (D_RDONLY OR D_ARCHIVE OR attr) = 0"

lemma find_root_file:
  fixes attr :: u8
  assumes g: "root_good drv sec L p d e" and n: "is_file_name n" and p: "get_dpb (path_drive (root_path c n)) e = Some p"
    and k: "\<not> ISFAT32 d"
  defines "j \<equiv> first_entry (matches_name n attr) (root_entries sec d e) 0"
  shows "\<exists>g e'. find_fname drv (root_path c n) attr fnp e = Some (if j = None then Inl DE_FILENOTFND else Inr (), g, e')
     \<and> root_good drv sec L p d e' \<and> root_keep sec L d e e' \<and> root_entries sec d e' = root_entries sec d e
     \<and> (\<forall>i. j = Some i \<longrightarrow> root_here p g \<and> unat (dm_entry (f_dmp g)) = i \<and> f_dir g = root_entries sec d e ! i \<and> root_pos d g i)"
proof -
  have "\<not> ISFAT32 (dpbs e p)" using k geometry_fat(8) [OF root_goodD(3) [OF g]] by simp
  then obtain g0 where s: "split_path drv (root_path c n) fnp e = Some (True, g0, e)" "at_root p n g0"
    using split_root_path [OF n p] by blast
  have st: "root.stands p g0 0 g0" using s(2) by (intro root.stands_self) (simp_all add: at_root_def)
  let ?found = "\<lambda>f. fcbmatch (dir_name (f_dir f)) (dm_name_pat (f_dmp f)) \<and> dir_attrib (f_dir f) AND NOT (D_RDONLY OR D_ARCHIVE OR attr) = 0"
  have f: "?found h = matches_name n attr (f_dir h)" if "root_here p h" "same_match (f_dmp g0) (f_dmp h)" for h
    using that(2) s(2) by (simp add: at_root_def same_match_def matches_name_def)
  from root.search [where found = ?found and Q = "matches_name n attr", OF g st _ f] obtain g1 e1 where
    r: "dir_search drv ?found g0 e = Some (j \<noteq> None, g1, e1)" "root_good drv sec L p d e1" "root_keep sec L d e e1"
      "root_entries sec d e1 = root_entries sec d e"
      "\<forall>i. j = Some i \<longrightarrow> root.stands p g0 i g1 \<and> f_dir g1 = root_entries sec d e ! i \<and> root_pos d g1 i"
    unfolding j_def by auto
  have "find_fname drv (root_path c n) attr fnp e = Some (if j = None then Inl DE_FILENOTFND else Inr (), g1, e1)"
    using s(1) r(1) by (simp add: find_fname_def)
  then show ?thesis using r(2-5) by (intro exI [of _ g1] exI [of _ e1]) (simp add: root.stands_def)
qed

section \<open>Directory and FAT side by side\<close>

text \<open>A drive in use: its FAT and its root directory do not overlap.\<close>

definition disjoint_areas :: "dpb \<Rightarrow> nat \<Rightarrow> bool" where
  "disjoint_areas d nsec \<longleftrightarrow> \<not> ISFAT32 d \<and> root_area d \<inter> fat_area d nsec = {}"

lemma no_fs_area: "fat_layout L nsec d \<Longrightarrow> \<not> ISFAT32 d \<Longrightarrow> fs_area d = {}"
  using fat_layoutD(2) by (simp add: fs_area_def)

lemma root_keeps_fat:
  assumes f: "fat_good drv sec L nsec p e" and k: "root_keep sec L (dpbs e p) e e'" and g: "root_good drv sec L p (dpbs e p) e'"
    and dj: "disjoint_areas (dpbs e p) nsec"
  shows "fat_good drv sec L nsec p e'" "fat_entries sec p e' = fat_entries sec p e" "dpbs e' = dpbs e"
proof -
  show d: "dpbs e' = dpbs e" using k by (simp add: root_keep_def same_env_def)
  have ok: "fat_ok sec L nsec p e'" using fat_ok_same [OF fat_goodD(2) [OF f] root_goodD(2) [OF g]] d by simp
  then show "fat_good drv sec L nsec p e'" using f by (simp add: fat_good_def)
  have "fat_byte sec p e' i = fat_byte sec p e i" if "i div 512 < nsec" for i
  proof -
    have a: "fat_sector (dpbs e p) (i div 512) \<in> fat_area (dpbs e p) nsec" using that by (simp add: fat_area_def)
    then have "fat_sector (dpbs e p) (i div 512) \<notin> root_area (dpbs e p)" using dj by (auto simp: disjoint_areas_def)
    moreover have "fat_sector (dpbs e p) (i div 512) \<in> L" using fat_layoutD(8) [OF fat_goodD(3) [OF f] that] by (simp add: fat_sector_def)
    ultimately show ?thesis using k d unfolding root_keep_def fat_byte_def Let_def by auto
  qed
  then have "fat sec p e' c = fat sec p e c" if "c \<le> max_cluster (dpbs e p)" for c
    unfolding fat_def d by (intro byte_entry_cong) (use entry_in_range [OF fat_goodD(3) [OF f] that] in simp)
  then show "fat_entries sec p e' = fat_entries sec p e" using d by (simp add: fat_entries_def fun_eq_iff)
qed

lemma fat_keeps_root:
  assumes f: "fat_keep sec L nsec p e e'" "fat_good drv sec L nsec p e" "fat_good drv sec L nsec p e'"
    and g: "root_good drv sec L p d e" and dj: "disjoint_areas d nsec"
  shows "root_good drv sec L p d e'" "root_entries sec d e' = root_entries sec d e"
proof -
  note q = root_goodD [OF g]
  have geo: "same_geometry (dpbs e p) (dpbs e' p)" using f(1) by (simp add: fat_keep_def)
  have cv: "cinv sec L e'" using f(3) by (simp add: fat_good_def fat_ok_def)
  show "root_good drv sec L p d e'" using q same_geometry_trans [OF q(3) geo] cv by (simp add: root_good_def)
  have a: "fat_area (dpbs e p) nsec = fat_area d nsec" "fs_area (dpbs e p) = fs_area d" using geometry_areas [OF q(3)] by simp_all
  have "fs_area d = {}" using no_fs_area [OF fat_goodD(3) [OF f(2)]] a(2) dj geometry_fat(8) [OF q(3)] by (simp add: disjoint_areas_def)
  then have "cview sec e' (fst y) (snd y) = cview sec e (fst y) (snd y)" if "y \<in> root_area d" for y
    using f(1) that dj q(4) a unfolding fat_keep_def disjoint_areas_def root_layout_def by blast
  then show "root_entries sec d e' = root_entries sec d e" by (rule root_entries_cong [OF q(4)])
qed

section \<open>Deleting\<close>

definition file_clusters :: "dpb \<Rightarrow> (u32 \<Rightarrow> u32) \<Rightarrow> dirent \<Rightarrow> u32 list \<Rightarrow> bool" where
  "file_clusters d f de cs \<longleftrightarrow>
     (if getdstart d de = FREE then cs = [] else chain f (max_cluster d) (getdstart d de) cs)"

lemma wipe_out_file:
  assumes g: "fat_good drv sec L nsec p e" and h: "f_dpb g = p" and cs: "file_clusters (dpbs e p) (fat_entries sec p e) (f_dir g) cs"
  shows "\<exists>e'. wipe_out drv g e = Some e' \<and> fat_good drv sec L nsec p e' \<and> fat_keep sec L nsec p e e'
     \<and> fat_entries sec p e' = (\<lambda>c. if c \<in> set cs then FREE else fat_entries sec p e c)"
proof (cases "getdstart (dpbs e p) (f_dir g) = FREE")
  case True
  then show ?thesis using cs g h fs.keep_refl by (simp add: wipe_out_def file_clusters_def)
next
  case False
  then show ?thesis using cs fs.wipe_out_clusters_chain [OF g] h by (simp add: wipe_out_def file_clusters_def)
qed

lemma delete_entry:
  assumes f: "fat_good drv sec L nsec p e" and g: "root_good drv sec L p (dpbs e p) e" and dj: "disjoint_areas (dpbs e p) nsec"
    and st: "root.stands p fnp j h" and j: "j < unat (dpb_dirents (dpbs e p))"
    and live: "\<forall>i \<le> j. hd (dir_name (root_entries sec (dpbs e p) e ! i)) \<noteq> 0"
    and cs: "file_clusters (dpbs e p) (fat_entries sec p e) (root_entries sec (dpbs e p) e ! j) cs"
  shows "\<exists>g' e'. delete_dir_entry drv h e = Some (Inr (), g', e')
     \<and> (\<forall>i < unat (dpb_dirents (dpbs e p)). root_entries sec (dpbs e p) e' ! i =
          (if belongs (root_entries sec (dpbs e p) e) j i then deleted (root_entries sec (dpbs e p) e ! i)
           else root_entries sec (dpbs e p) e ! i))
     \<and> fat_entries sec p e' = (\<lambda>c. if c \<in> set cs then FREE else fat_entries sec p e c)"
proof -
  let ?d = "dpbs e p" and ?ds = "root_entries sec (dpbs e p) e"
  obtain g1 e1 where l: "remove_lfn_entries drv h e = Some (Inr (), g1, e1)" "root_good drv sec L p ?d e1" "root_keep sec L ?d e e1"
     "root.stands p fnp j g1" "root_pos ?d g1 j" "f_dir g1 = ?ds ! j"
     "\<forall>i < unat (dpb_dirents ?d). root_entries sec ?d e1 ! i = (if i < j \<and> belongs ?ds j i then deleted (?ds ! i) else ?ds ! i)"
    using root.lfn_removed [OF g st j live] by blast
  note f1 = root_keeps_fat [OF f l(3,2) dj]
  have p: "f_dpb g1 = p" using l(4) by (simp add: root.stands_def root_here_def)
  obtain e2 where w: "wipe_out drv g1 e1 = Some e2" "fat_good drv sec L nsec p e2" "fat_keep sec L nsec p e1 e2"
     "fat_entries sec p e2 = (\<lambda>c. if c \<in> set cs then FREE else fat_entries sec p e1 c)"
    using wipe_out_file [OF f1(1) p, of cs] cs f1(2,3) l(6) by auto
  note r2 = fat_keeps_root [OF w(3) f1(1) w(2) l(2) dj]
  have len: "length ?ds = unat (dpb_dirents ?d)" "length (dir_name (?ds ! j)) = 11" using root.shape [OF g] j by auto
  let ?g2 = "mark_deleted g1"
  have f2: "f_dir ?g2 = deleted (?ds ! j)" by (simp add: mark_deleted_def deleted_def l(6))
  have st2: "root.stands p fnp j ?g2" "root_pos ?d ?g2 j"
    using root.stands_dir [OF l(4)] l(5) unfolding mark_deleted_def by (auto simp: root_pos_def)
  obtain e3 where x: "dir_write drv ?g2 e2 = Some (True, e3)" "root_good drv sec L p ?d e3" "root_keep sec L ?d e2 e3"
     "root_entries sec ?d e3 = (root_entries sec ?d e2)[j := f_dir ?g2]"
    using root.write_entry [OF r2(1) st2 j] f2 len(2) by auto
  have geo: "same_geometry ?d (dpbs e2 p)" by (rule root_goodD(3) [OF r2(1)])
  have dj2: "disjoint_areas (dpbs e2 p) nsec"
    using dj geometry_areas(1) [OF geo] geometry_fat(8) [OF geo] root_geometryD [OF geo] by (simp add: disjoint_areas_def root_area_def root_sectors_def)
  have "root_keep sec L (dpbs e2 p) e2 e3" "root_good drv sec L p (dpbs e2 p) e3"
    using x(2,3) root_geometryD [OF geo] root_goodD [OF x(2)] by (simp_all add: root_keep_def root_good_def root_area_def root_sectors_def same_env_def root_layout_def)
  then have fe: "fat_entries sec p e3 = fat_entries sec p e2" using root_keeps_fat(2) [OF w(2) _ _ dj2] by blast
  have "delete_dir_entry drv h e = Some (Inr (), ?g2, e3)" using l(1) w(1) x(1) by (simp add: delete_dir_entry_def)
  moreover have "root_entries sec ?d e3 ! i = (if belongs ?ds j i then deleted (?ds ! i) else ?ds ! i)" if i: "i < unat (dpb_dirents ?d)" for i
  proof -
    have "length (root_entries sec ?d e1) = unat (dpb_dirents ?d)" using root.shape [OF l(2)] by simp
    then show ?thesis using l(7) i x(4) r2(2) f2 by (cases i j rule: linorder_cases) (simp_all add: belongs_def)
  qed
  moreover have "fat_entries sec p e3 = (\<lambda>c. if c \<in> set cs then FREE else fat_entries sec p e c)" unfolding fe w(4) f1(2) by (rule refl)
  ultimately show ?thesis by blast
qed

section \<open>The properties\<close>

text \<open>
  C27: looking up a path of a drive letter and a file name in the root directory of a FAT12 or FAT16
  drive finds the first entry of that name and of admitted attributes before the end mark, with its
  place, or reports that there is none; the directory does not change.
\<close>

theorem find_fname_finds_file:
  fixes attr :: u8
  assumes "root_good drv sec L p d e" "is_file_name n" "get_dpb (path_drive (root_path c n)) e = Some p" "\<not> ISFAT32 d"
  shows "\<exists>g e'. find_fname drv (root_path c n) attr fnp e =
       Some (if first_entry (matches_name n attr) (root_entries sec d e) 0 = None then Inl DE_FILENOTFND else Inr (), g, e')
     \<and> root_entries sec d e' = root_entries sec d e
     \<and> (\<forall>i. first_entry (matches_name n attr) (root_entries sec d e) 0 = Some i \<longrightarrow>
          f_dir g = root_entries sec d e ! i \<and> unat (dm_entry (f_dmp g)) = i \<and> root_pos d g i)"
  using find_root_file [OF assms] by blast

text \<open>
  C26: deleting a file of the root directory of a FAT12 or FAT16 drive, named by a drive letter and a file name. The first entry of
  that name and of admitted attributes and the entries of its long name are marked as deleted, no other entry of the directory changes, and
  exactly the clusters of the chain of the file become free. When there is no such entry, or it is read-only or a directory, the call fails with the
  error for that, and neither the directory nor the FAT changes.
\<close>

theorem dos_delete_removes_file:
  assumes f: "fat_good drv sec L nsec p e" and g: "root_good drv sec L p (dpbs e p) e" and dj: "disjoint_areas (dpbs e p) nsec"
    and n: "is_file_name n" and p: "get_dpb (path_drive (root_path c n)) e = Some p"
    and cs: "\<And>j. first_entry (matches_name n attr) (root_entries sec (dpbs e p) e) 0 = Some j
      \<Longrightarrow> dir_attrib (root_entries sec (dpbs e p) e ! j) AND (D_RDONLY OR D_DIR) = 0
      \<Longrightarrow> file_clusters (dpbs e p) (fat_entries sec p e) (root_entries sec (dpbs e p) e ! j) cs"
  shows "\<exists>r g' e'. dos_delete drv (root_path c n) attr fnp e = Some (r, g', e')
     \<and> (let ds = root_entries sec (dpbs e p) e; same = (root_entries sec (dpbs e p) e' = ds \<and> fat_entries sec p e' = fat_entries sec p e)
        in case first_entry (matches_name n attr) ds 0 of
             None \<Rightarrow> r = Inl DE_FILENOTFND \<and> same
           | Some j \<Rightarrow>
               if dir_attrib (ds ! j) AND (D_RDONLY OR D_DIR) \<noteq> 0 then r = Inl DE_ACCESS \<and> same
               else r = Inr ()
                 \<and> (\<forall>i < unat (dpb_dirents (dpbs e p)). root_entries sec (dpbs e p) e' ! i =
                      (if belongs ds j i then deleted (ds ! i) else ds ! i))
                 \<and> fat_entries sec p e' = (\<lambda>c. if c \<in> set cs then FREE else fat_entries sec p e c))"
proof -
  let ?d = "dpbs e p" and ?ds = "root_entries sec (dpbs e p) e"
  let ?j = "first_entry (matches_name n attr) ?ds 0"
  have k: "\<not> ISFAT32 ?d" using dj by (simp add: disjoint_areas_def)
  obtain h e1 where r: "find_fname drv (root_path c n) attr fnp e = Some (if ?j = None then Inl DE_FILENOTFND else Inr (), h, e1)"
     "root_good drv sec L p ?d e1" "root_keep sec L ?d e e1" "root_entries sec ?d e1 = ?ds"
     "\<forall>j. ?j = Some j \<longrightarrow> root_here p h \<and> unat (dm_entry (f_dmp h)) = j \<and> f_dir h = ?ds ! j"
    using find_root_file [OF g n p k, of attr fnp] by blast
  note f1 = root_keeps_fat [OF f r(3,2) dj]
  show ?thesis
  proof (cases ?j)
    case None
    then show ?thesis using r(1,4) f1(2) by (simp add: dos_delete_def)
  next
    case (Some j)
    have h: "root_here p h" "unat (dm_entry (f_dmp h)) = j" "f_dir h = ?ds ! j" using r(5) Some by simp_all
    show ?thesis
    proof (cases "dir_attrib (?ds ! j) AND (D_RDONLY OR D_DIR) = 0")
      case False
      then show ?thesis using r(1,4) f1(2) Some h(3) by (simp add: dos_delete_def)
    next
      case True
      note sel = first_entry_Some [of _ 0 ?ds, simplified, OF Some]
      have jn: "j < unat (dpb_dirents ?d)" using sel root.shape [OF g] by simp
      have live: "\<forall>i \<le> j. hd (dir_name (?ds ! i)) \<noteq> 0" using sel by (metis le_neq_implies_less)
      obtain g' e' where "delete_dir_entry drv h e1 = Some (Inr (), g', e')
         \<and> (\<forall>i < unat (dpb_dirents ?d). root_entries sec ?d e' ! i = (if belongs ?ds j i then deleted (?ds ! i) else ?ds ! i))
         \<and> fat_entries sec p e' = (\<lambda>c. if c \<in> set cs then FREE else fat_entries sec p e c)"
        using delete_entry [where e = e1, OF f1(1), unfolded f1(2,3) r(4), OF r(2) dj root.stands_self [OF h(1,2)] jn live cs [OF Some True]]
        by blast
      then show ?thesis using r(1) h(3) True Some
        by (intro exI [of _ "Inr ()"] exI [of _ g'] exI [of _ e']) (simp add: dos_delete_def Let_def)
    qed
  qed
qed

text \<open>
  C28: the text of a stored file name, alone or followed by the rest of a path, is converted back to
  exactly the same 11 characters, and the conversion stops where the name ends.
\<close>

theorem ConvertName_round_trip:
  assumes "plain_name n" "rest = [] \<or> hd rest = backslash"
  shows "ConvertNameSZToName83 (ConvertName83ToNameSZ n @ rest) = (n, rest)"
  by (rule name83_round_trip [OF assms])

text \<open>
  An entry of the root directory written with \<^verbatim>\<open>dir_write\<close> is what \<^verbatim>\<open>dir_read\<close> then returns at
  that place, with the deleted mark in the code of the kernel, and no other entry of the directory changes.
\<close>

theorem dir_write_then_read:
  assumes g: "root_good drv sec L p d e" and h: "root_here p fnp" and pos: "root_pos d fnp (unat (dm_entry (f_dmp fnp)))"
    and k: "unat (dm_entry (f_dmp fnp)) < unat (dpb_dirents d)" and n: "length (dir_name (f_dir fnp)) = 11"
  shows "\<exists>e1 g' e2. dir_write drv fnp e = Some (True, e1)
     \<and> dir_read drv fnp e1 = Some (Inr (hd (dir_name (f_dir fnp)) \<noteq> 0), g', e2) \<and> f_dir g' = f_dir fnp
     \<and> root_entries sec d e2 = (root_entries sec d e)[unat (dm_entry (f_dmp fnp)) := f_dir fnp]"
proof -
  obtain e1 where w: "dir_write drv fnp e = Some (True, e1)" "root_good drv sec L p d e1"
     "root_entries sec d e1 = (root_entries sec d e)[unat (dm_entry (f_dmp fnp)) := f_dir fnp]"
    using root.writes [OF g h pos k n] by blast
  have "length (root_entries sec d e) = unat (dpb_dirents d)" using root.shape [OF g] by simp
  then have "root_entries sec d e1 ! unat (dm_entry (f_dmp fnp)) = f_dir fnp" using w(3) k by simp
  then show ?thesis using w(1,3) root.reads [OF w(2) h k] by auto
qed

text \<open>
  The scan of \<^verbatim>\<open>dos_rmdir\<close> for a used entry and the loop of \<^verbatim>\<open>dos_findnext\<close> are the search of
  \<^verbatim>\<open>dir_open\<close> with another test: they return on the same directories with the corresponding results.
\<close>

lemma directory_loops_are_searches:
  "empty_loop drv g e = map_option (\<lambda>(i, h, e'). (\<not> i, h, e')) (dir_search drv (\<lambda>h. in_use (f_dir h)) g e)
   \<and> findnext_loop drv g e = map_option (\<lambda>(i, h, e'). if i then (Inr (f_dir h), next_entry h, e') else (Inl DE_NFILES, h, e'))
       (dir_search drv found_here g e)"
  using empty_loop_search findnext_loop_search by blast

section \<open>A file on the small disk\<close>

definition demo_name :: bytes where
  "demo_name = replicate 11 65"

lemma demo_name_ok: "is_file_name demo_name"
  by (simp add: is_file_name_def plain_name_def plain_char_def demo_name_def ConvertName83ToNameSZ_def trim_blanks_def name_consts
      Let_def take_replicate dropWhile_replicate list_all_iff)

lemma demo_root_dpb: "root_layout demo_live demo_fat_dpb" "disjoint_areas demo_fat_dpb 1" "dpb_dirents demo_fat_dpb = 16"
proof -
  have s: "root_sectors demo_fat_dpb = 1" "dpb_dirstrt demo_fat_dpb = 7" "dpb_unit demo_fat_dpb = 2" "dpb_secsize demo_fat_dpb = 512"
    by (simp_all add: root_sectors_def demo_fat_dpb_def demo_dpb_def)
  have a: "root_area demo_fat_dpb = {(2, 7)}" by (simp add: root_area_def s lessThan_Suc)
  show "root_layout demo_live demo_fat_dpb" by (simp add: root_layout_def s a) (simp add: demo_live_def)
  have "fat_area demo_fat_dpb 1 = {fat_sector demo_fat_dpb 0}" by (simp add: fat_area_def lessThan_Suc)
  moreover have "fat_sector demo_fat_dpb 0 = (2, 1)" and nk: "\<not> ISFAT32 demo_fat_dpb"
    by (simp_all add: fat_sector_def fat_base_def single_fat_def ISFAT32_def demo_fat_dpb_def demo_dpb_def)
  ultimately show "disjoint_areas demo_fat_dpb 1" using a nk by (simp add: disjoint_areas_def)
  show "dpb_dirents demo_fat_dpb = 16" by (simp add: demo_fat_dpb_def demo_dpb_def)
qed

lemma demo_root_good: "root_good ram_driver ram_sectors demo_live 0 demo_fat_dpb demo_fat_io"
  using ram_reliable demo_fat_cinv demo_root_dpb(1) demo_fat_kind by (simp add: root_good_def)

text \<open>The disk with one file, whose clusters are 2 and 3.\<close>

definition one_file :: "(nat \<times> u8 \<Rightarrow> u32 \<Rightarrow> bytes) io \<Rightarrow> bool" where
  "one_file e \<longleftrightarrow> fat_good ram_driver ram_sectors demo_live 1 0 e \<and> root_good ram_driver ram_sectors demo_live 0 demo_fat_dpb e
     \<and> dpbs e 0 = demo_fat_dpb \<and> get_dpb (path_drive (root_path 67 demo_name)) e = Some 0
     \<and> root_entries ram_sectors demo_fat_dpb e ! 0 = demo_dirent \<and> root_entries ram_sectors demo_fat_dpb e \<noteq> []
     \<and> fat_entries ram_sectors 0 e = fat_entries ram_sectors 0 demo_fat_io"

lemma one_file_exists: "\<exists>e. one_file e"
proof -
  let ?g = "demo_fnode 0"
  have h: "root_here 0 ?g" "root_pos demo_fat_dpb ?g 0" "length (dir_name (f_dir ?g)) = 11" "f_dir ?g = demo_dirent"
    by (simp_all add: root_here_def root_pos_def root_block_def demo_fnode_def demo_dmatch_def demo_dirent_def demo_fat_dpb_def demo_dpb_def)
  obtain e where e: "root_good ram_driver ram_sectors demo_live 0 demo_fat_dpb e" "root_keep ram_sectors demo_live demo_fat_dpb demo_fat_io e"
     "root_entries ram_sectors demo_fat_dpb e = (root_entries ram_sectors demo_fat_dpb demo_fat_io)[0 := demo_dirent]"
    using root.writes [OF demo_root_good h(1,2) _ h(3)] demo_root_dpb(3) h(4) by auto
  have d: "dpbs demo_fat_io 0 = demo_fat_dpb" using demo_fat_kind by simp
  have l: "length (root_entries ram_sectors demo_fat_dpb demo_fat_io) = 16" using root.shape [OF demo_root_good] demo_root_dpb(3) by simp
  note k = root_keeps_fat [OF demo_good, unfolded d, OF e(2,1) demo_root_dpb(2)]
  have "path_drive (root_path 67 demo_name) = 2" by (simp add: path_drive_def root_path_def)
  moreover have "get_dpb 2 e = Some 0" using get_dpb_cong [of e demo_fat_io 2] e(2) demo_fat_dpb_2 by (simp add: root_keep_def same_env_def)
  moreover have "root_entries ram_sectors demo_fat_dpb e ! 0 = demo_dirent" "root_entries ram_sectors demo_fat_dpb e \<noteq> []"
    using e(3) l by auto
  ultimately show ?thesis using e(1) k d by (intro exI [of _ e]) (simp add: one_file_def)
qed

lemma demo_match: "one_file e \<Longrightarrow> first_entry (matches_name demo_name 0) (root_entries ram_sectors demo_fat_dpb e) 0 = Some 0"
proof -
  assume "one_file e"
  then obtain ds where "root_entries ram_sectors demo_fat_dpb e = demo_dirent # ds"
    by (cases "root_entries ram_sectors demo_fat_dpb e") (auto simp: one_file_def)
  moreover have "dir_name demo_dirent = demo_name" "hd demo_name = 65" by (simp_all add: demo_dirent_def demo_name_def)
  moreover have "dir_attrib demo_dirent AND NOT (D_RDONLY OR D_ARCHIVE OR 0) = 0" by (simp add: demo_dirent_def D_RDONLY_def D_ARCHIVE_def)
  ultimately show ?thesis by (simp add: matches_name_def fcbmatch_def)
qed

theorem find_fname_finds_file_witness:
  "\<exists>e g e'. find_fname ram_driver (root_path 67 demo_name) 0 (demo_fnode 0) e = Some (Inr (), g, e') \<and> f_dir g = demo_dirent"
proof -
  obtain e where e: "one_file e" using one_file_exists by blast
  have k: "\<not> ISFAT32 demo_fat_dpb" using demo_root_dpb(2) by (simp add: disjoint_areas_def)
  have "root_good ram_driver ram_sectors demo_live 0 demo_fat_dpb e" "get_dpb (path_drive (root_path 67 demo_name)) e = Some 0"
    using e by (simp_all add: one_file_def)
  from find_fname_finds_file [OF this(1) demo_name_ok this(2) k, of 0 "demo_fnode 0"] show ?thesis
    using demo_match [OF e] e unfolding one_file_def by auto
qed

theorem dos_delete_removes_file_witness:
  "\<exists>e g' e'. dos_delete ram_driver (root_path 67 demo_name) 0 (demo_fnode 0) e = Some (Inr (), g', e')
     \<and> hd (dir_name (root_entries ram_sectors demo_fat_dpb e' ! 0)) = DELETED
     \<and> fat_entries ram_sectors 0 e' 2 = FREE \<and> fat_entries ram_sectors 0 e' 3 = FREE"
proof -
  obtain e where e: "one_file e" using one_file_exists by blast
  then have d: "dpbs e 0 = demo_fat_dpb" and en: "root_entries ram_sectors demo_fat_dpb e ! 0 = demo_dirent" by (simp_all add: one_file_def)
  have a: "dir_attrib demo_dirent AND (D_RDONLY OR D_DIR) = 0" by (simp add: demo_dirent_def D_RDONLY_def D_DIR_def)
  have m: "max_cluster demo_fat_dpb = 4" using demo_fat_kind by simp
  have cl: "getdstart demo_fat_dpb demo_dirent = 2" using demo_fat_kind by (simp add: getdstart_def demo_dirent_def)
  have cs: "file_clusters demo_fat_dpb (fat_entries ram_sectors 0 e) demo_dirent [2, 3]"
    using demo_chain e m cl by (simp add: file_clusters_def one_file_def FREE_def)
  have g: "fat_good ram_driver ram_sectors demo_live 1 0 e" "root_good ram_driver ram_sectors demo_live 0 (dpbs e 0) e"
     "disjoint_areas (dpbs e 0) 1" "get_dpb (path_drive (root_path 67 demo_name)) e = Some 0"
    using e demo_root_dpb(2) by (simp_all add: one_file_def)
  have f: "first_entry (matches_name demo_name 0) (root_entries ram_sectors demo_fat_dpb e) 0 = Some 0" by (rule demo_match [OF e])
  have cs2: "file_clusters (dpbs e 0) (fat_entries ram_sectors 0 e) (root_entries ram_sectors (dpbs e 0) e ! j) [2, 3]"
    if "first_entry (matches_name demo_name 0) (root_entries ram_sectors (dpbs e 0) e) 0 = Some j" for j
    using that f cs en unfolding d by simp
  from dos_delete_removes_file [OF g(1-3) demo_name_ok g(4) cs2, of 0 "demo_fnode 0"]
  obtain r g' e' where r: "dos_delete ram_driver (root_path 67 demo_name) 0 (demo_fnode 0) e = Some (Inr (), g', e')"
     "\<forall>i < 16. root_entries ram_sectors demo_fat_dpb e' ! i = (if belongs (root_entries ram_sectors demo_fat_dpb e) 0 i
        then deleted (root_entries ram_sectors demo_fat_dpb e ! i) else root_entries ram_sectors demo_fat_dpb e ! i)"
     "fat_entries ram_sectors 0 e' = (\<lambda>c. if c \<in> set [2, 3] then FREE else fat_entries ram_sectors 0 e c)"
    unfolding d Let_def f demo_root_dpb(3) using a en by auto
  have "root_entries ram_sectors demo_fat_dpb e' ! 0 = deleted demo_dirent" using r(2) en by (simp add: belongs_def)
  moreover have "dir_name demo_dirent \<noteq> []" by (simp add: demo_dirent_def)
  ultimately have "hd (dir_name (root_entries ram_sectors demo_fat_dpb e' ! 0)) = DELETED" using deleted_hd by simp
  then show ?thesis using r(1,3) by (intro exI [of _ e] exI [of _ g'] exI [of _ e']) simp
qed

theorem ConvertName_round_trip_witness:
  "ConvertNameSZToName83 (ConvertName83ToNameSZ (replicate 8 65 @ replicate 3 66) @ [backslash, 67]) = (replicate 8 65 @ replicate 3 66, [backslash, 67])"
  by (rule ConvertName_round_trip) (simp_all add: plain_name_def plain_char_def name_consts list_all_iff)

theorem dir_write_then_read_witness:
  "\<exists>e1 g' e2. dir_write ram_driver (demo_fnode 0) demo_fat_io = Some (True, e1)
     \<and> dir_read ram_driver (demo_fnode 0) e1 = Some (Inr True, g', e2) \<and> f_dir g' = demo_dirent"
proof -
  have h: "root_here 0 (demo_fnode 0)" "root_pos demo_fat_dpb (demo_fnode 0) 0" "length (dir_name (f_dir (demo_fnode 0))) = 11"
    "f_dir (demo_fnode 0) = demo_dirent" "dm_entry (f_dmp (demo_fnode 0)) = 0" "hd (dir_name demo_dirent) = 65"
    by (simp_all add: root_here_def root_pos_def root_block_def demo_fnode_def demo_dmatch_def demo_dirent_def demo_fat_dpb_def demo_dpb_def)
  show ?thesis using dir_write_then_read [OF demo_root_good h(1) _ _ h(3)] h demo_root_dpb(3) by auto
qed

end
