(* ===== verification/Nls.thy ===== *)
theory Nls
  imports Fat_Table
begin

text \<open>
  National language support, \<^verbatim>\<open>kernel/nls.c\<close>: the packages, upper case, yes and no, country data and the
  default handler of multiplex interrupt 14. What other programs hook into that interrupt is a
  parameter; \<open>kernel_mux\<close> is the handler when nobody does. \<^verbatim>\<open>NLS_REORDER_POINTERS\<close> is defined.
\<close>

section \<open>Packages\<close>

text \<open>
  An entry of the pointer array: the bytes of the package from the entry on, the first of which is the
  subfunction, and the table the pointer leads to. The array has \<^verbatim>\<open>numSubfct\<close> entries; the last one
  is the extended country information.
\<close>

record nls_pointer =
  np_bytes :: bytes
  np_table :: bytes

record nls_package =
  pkg_cntry :: u16
  pkg_cp :: u16
  pkg_flags :: u16
  yeschar :: u16
  nochar :: u16
  nlsPointers :: "nls_pointer list"

text \<open>The chain starts with the hard coded package; \<open>actPkg\<close> is a place in it. \<open>said\<close> is the console.\<close>

record nls_info =
  sysCodePage :: u16
  actPkg :: nat
  nls_chain :: "nls_package list"
  said :: "string list"

definition NLS_FREEDOS_NLSFUNC_ID :: u16 where "NLS_FREEDOS_NLSFUNC_ID = 0x534b"
definition NLS_FREEDOS_NLSFUNC_VERSION :: u16 where "NLS_FREEDOS_NLSFUNC_VERSION = 0xfd02"
definition NLS_DOS_38 :: u16 where "NLS_DOS_38 = 0x101"
definition NLSFUNC_INSTALL_CHECK :: u8 where "NLSFUNC_INSTALL_CHECK = 0"
definition NLSFUNC_DOS38 :: u8 where "NLSFUNC_DOS38 = 4"
definition NLSFUNC_GETDATA :: u8 where "NLSFUNC_GETDATA = 2"
definition NLSFUNC_DRDOS_GETDATA :: u8 where "NLSFUNC_DRDOS_GETDATA = 0xfe"
definition NLSFUNC_LOAD_PKG :: u8 where "NLSFUNC_LOAD_PKG = 3"
definition NLSFUNC_LOAD_PKG2 :: u8 where "NLSFUNC_LOAD_PKG2 = 1"
definition NLSFUNC_UPMEM :: u8 where "NLSFUNC_UPMEM = 0x22"
definition NLSFUNC_YESNO :: u8 where "NLSFUNC_YESNO = 0x23"
definition NLSFUNC_FILE_UPMEM :: u8 where "NLSFUNC_FILE_UPMEM = 0xa2"
definition NLS_FLAG_DIRECT_UPCASE :: u16 where "NLS_FLAG_DIRECT_UPCASE = 1"
definition NLS_FLAG_DIRECT_FUPCASE :: u16 where "NLS_FLAG_DIRECT_FUPCASE = 2"
definition NLS_FLAG_DIRECT_YESNO :: u16 where "NLS_FLAG_DIRECT_YESNO = 4"
definition NLS_FLAG_DIRECT_GETDATA :: u16 where "NLS_FLAG_DIRECT_GETDATA = 8"
definition NLS_DEFAULT :: u16 where "NLS_DEFAULT = 0xffff"

lemmas nlsfunc_codes = NLSFUNC_INSTALL_CHECK_def NLSFUNC_DOS38_def NLSFUNC_GETDATA_def NLSFUNC_DRDOS_GETDATA_def
  NLSFUNC_LOAD_PKG_def NLSFUNC_LOAD_PKG2_def NLSFUNC_UPMEM_def NLSFUNC_YESNO_def NLSFUNC_FILE_UPMEM_def

definition act_pkg :: "nls_info \<Rightarrow> nls_package" where
  "act_pkg n = nls_chain n ! actPkg n"

text \<open>\<^verbatim>\<open>getTable2\<close>, \<^verbatim>\<open>getTable4\<close> and \<^verbatim>\<open>getTable7\<close>.\<close>

definition getTable2 :: "nls_package \<Rightarrow> bytes" where "getTable2 p = np_table (nlsPointers p ! 0)"
definition getTable4 :: "nls_package \<Rightarrow> bytes" where "getTable4 p = np_table (nlsPointers p ! 1)"
definition getTable7 :: "nls_package \<Rightarrow> bytes" where "getTable7 p = np_table (nlsPointers p ! 4)"

definition searchPackage :: "u16 \<Rightarrow> u16 \<Rightarrow> nls_info \<Rightarrow> nat option" where
  "searchPackage cp cntry n =
     (let cp1 = (if cp = NLS_DEFAULT then pkg_cp (act_pkg n) else cp);
          cntry1 = (if cntry = NLS_DEFAULT then pkg_cntry (act_pkg n) else cntry)
      in find (\<lambda>i. pkg_cp (nls_chain n ! i) = cp1 \<and> pkg_cntry (nls_chain n ! i) = cntry1) [0..<length (nls_chain n)])"

definition locateSubfct :: "nls_package \<Rightarrow> u16 \<Rightarrow> nls_pointer option" where
  "locateSubfct p subfct = find (\<lambda>e. hd (np_bytes e) = ucast subfct) (nlsPointers p)"

definition cpyBuf :: "bytes \<Rightarrow> u16 \<Rightarrow> bytes \<Rightarrow> u16 \<Rightarrow> int \<times> bytes" where
  "cpyBuf dst dstlen src srclen =
     (if srclen \<le> dstlen then (0, take (unat srclen) src @ drop (unat srclen) dst) else (errno DE_INVLDFUNC, dst))"

section \<open>Upper case\<close>

text \<open>One character: the table holds the upper case of 80h to FFh behind its length word.\<close>

definition up_char :: "bytes \<Rightarrow> u8 \<Rightarrow> u8" where
  "up_char tbl c =
     (if 0x61 \<le> c \<and> c \<le> 0x7a then c + (0x41 - 0x61)
      else if c > 0x7f then tbl ! (2 + unat c - 0x80)
      else c)"

fun upMMem :: "bytes \<Rightarrow> bytes \<Rightarrow> nat \<Rightarrow> bytes" where
  "upMMem tbl str 0 = str"
| "upMMem tbl [] (Suc n) = []"
| "upMMem tbl (c # cs) (Suc n) = up_char tbl c # upMMem tbl cs n"

definition nlsUpMem :: "nls_package \<Rightarrow> bytes \<Rightarrow> u16 \<Rightarrow> bytes" where
  "nlsUpMem p str len = upMMem (getTable2 p) str (unat len)"

definition nlsFUpMem :: "nls_package \<Rightarrow> bytes \<Rightarrow> u16 \<Rightarrow> bytes" where
  "nlsFUpMem p str len = upMMem (getTable4 p) str (unat len)"

section \<open>The multiplex interrupt\<close>

text \<open>
  \<open>call_nls\<close>: the registers AL, BP, BX (code page), DX (country) and CX (size) with the memory at ES:DI;
  the results are AX, BX and the memory.
\<close>

record mux_regs =
  mx_al :: u8
  mx_bp :: u16
  mx_bx :: u16
  mx_dx :: u16
  mx_cx :: u16

type_synonym mux = "mux_regs \<Rightarrow> bytes \<Rightarrow> nls_info \<Rightarrow> (u16 \<times> u16) \<times> bytes \<times> nls_info"

definition muxGo :: "mux \<Rightarrow> u8 \<Rightarrow> u16 \<Rightarrow> u16 \<Rightarrow> u16 \<Rightarrow> u16 \<Rightarrow> bytes \<Rightarrow> nls_info \<Rightarrow> (u16 \<times> u16) \<times> bytes \<times> nls_info" where
  "muxGo mx subfct bp cp cntry bufsize buf n =
     mx \<lparr>mx_al = subfct, mx_bp = bp, mx_bx = cp, mx_dx = cntry, mx_cx = bufsize\<rparr> buf n"

definition muxLoadPkg :: "mux \<Rightarrow> u8 \<Rightarrow> u16 \<Rightarrow> u16 \<Rightarrow> nls_info \<Rightarrow> int \<times> nls_info" where
  "muxLoadPkg mx subfct cp cntry n =
     (case muxGo mx NLSFUNC_INSTALL_CHECK 0 NLS_FREEDOS_NLSFUNC_VERSION 0 NLS_FREEDOS_NLSFUNC_ID [] n of
        ((ax, bx), _, n1) \<Rightarrow>
          (if ax \<noteq> 0x14ff then (errno DE_FILENOTFND, n1)
           else if bx \<noteq> NLS_FREEDOS_NLSFUNC_ID then (errno DE_INVLDACC, n1)
           else (case muxGo mx subfct 0 cp cntry 0 [] n1 of ((ax2, _), _, n2) \<Rightarrow> (sint ax2, n2))))"

definition muxBufGo :: "mux \<Rightarrow> u8 \<Rightarrow> u16 \<Rightarrow> u16 \<Rightarrow> u16 \<Rightarrow> u16 \<Rightarrow> bytes \<Rightarrow> nls_info \<Rightarrow> int \<times> bytes \<times> nls_info" where
  "muxBufGo mx subfct bp cp cntry bufsize buf n =
     (case muxGo mx subfct bp cp cntry bufsize buf n of ((ax, _), buf1, n1) \<Rightarrow> (sint ax, buf1, n1))"

definition xUpMem :: "mux \<Rightarrow> nls_package \<Rightarrow> bytes \<Rightarrow> u16 \<Rightarrow> nls_info \<Rightarrow> bytes \<times> nls_info" where
  "xUpMem mx p str len n =
     (if pkg_flags p AND NLS_FLAG_DIRECT_UPCASE \<noteq> 0 then (nlsUpMem p str len, n)
      else snd (muxBufGo mx NLSFUNC_UPMEM 0 (pkg_cp p) (pkg_cntry p) len str n))"

section \<open>Data and characters\<close>

definition nlsGetData :: "nls_package \<Rightarrow> u16 \<Rightarrow> bytes \<Rightarrow> u16 \<Rightarrow> int \<times> bytes" where
  "nlsGetData p subfct buf bufsize =
     (case locateSubfct p subfct of
        None \<Rightarrow> (errno DE_INVLDFUNC, buf)
      | Some poi \<Rightarrow>
          (if subfct = 1 then cpyBuf buf bufsize (np_bytes poi) (fgetword (np_bytes poi) 1 + 3)
           else if subfct = NLS_DOS_38 then cpyBuf buf bufsize (drop 7 (np_bytes poi)) 24
           else cpyBuf buf bufsize (np_bytes poi) 5))"

text \<open>The lead byte ranges: pairs of bytes up to a zero word.\<close>

fun dbcs_loop :: "bytes \<Rightarrow> u8 \<Rightarrow> bool" where
  "dbcs_loop (lo # hi # ts) ch = (if lo = 0 \<and> hi = 0 then False else lo \<le> ch \<and> ch \<le> hi \<or> dbcs_loop ts ch)"
| "dbcs_loop _ ch = False"

definition nlsIsDBCS :: "u8 \<Rightarrow> nls_info \<Rightarrow> bool" where
  "nlsIsDBCS ch n = (if ch < 128 then False else dbcs_loop (drop 2 (getTable7 (act_pkg n))) ch)"

definition nlsYesNo :: "mux \<Rightarrow> nls_package \<Rightarrow> u16 \<Rightarrow> nls_info \<Rightarrow> u16 \<times> nls_info" where
  "nlsYesNo mx p ch n =
     (let (ch1, n1) = (if \<not> nlsIsDBCS (ucast ch) n
                       then (case xUpMem mx p [ucast ch] 1 n of (s, n1) \<Rightarrow> (ucast (hd s), n1))
                       else (ch, n))
      in (if ch1 = yeschar p then 1 else if ch1 = nochar p then 0 else 2, n1))"

definition nlsCPchange :: "u16 \<Rightarrow> nls_info \<Rightarrow> nls_info" where
  "nlsCPchange cp n = n\<lparr>said := said n @ [''change codepage not yet done ska'']\<rparr>"

definition nlsSetPackage :: "nat \<Rightarrow> nls_info \<Rightarrow> int \<times> nls_info" where
  "nlsSetPackage i n =
     (let n1 = (if pkg_cp (nls_chain n ! i) \<noteq> pkg_cp (act_pkg n) then nlsCPchange (pkg_cp (nls_chain n ! i)) n else n)
      in (0, n1\<lparr>actPkg := i\<rparr>))"

definition nlsLoadPackage :: "nat \<Rightarrow> nls_info \<Rightarrow> int \<times> nls_info" where
  "nlsLoadPackage i n = (0, n\<lparr>actPkg := i\<rparr>)"

section \<open>The default handler\<close>

text \<open>
  The upper case of a character goes through the interrupt again when the package wants it; that inner call is \<open>mx\<close>.
\<close>

definition syscall_MUX14 :: "mux \<Rightarrow> mux" where
  "syscall_MUX14 mx r buf n =
     (let ret = (\<lambda>(v, buf1). ((of_int v, mx_bx r), buf1, n)); set = (\<lambda>(v, n1). ((of_int v, mx_bx r), buf, n1)); al = mx_al r
      in case searchPackage (mx_bx r) (mx_dx r) n of
           None \<Rightarrow> ret (errno DE_INVLDFUNC, buf)
         | Some i \<Rightarrow>
             (let p = nls_chain n ! i
              in if al = NLSFUNC_INSTALL_CHECK then ((0, NLS_FREEDOS_NLSFUNC_ID), buf, n)
                 else if al = NLSFUNC_DOS38 then ret (nlsGetData p NLS_DOS_38 buf 34)
                 else if al = NLSFUNC_GETDATA then ret (nlsGetData p (mx_bp r) buf (mx_cx r))
                 else if al = NLSFUNC_DRDOS_GETDATA then ret (nlsGetData p (mx_cx r AND 0xff) buf 512)
                 else if al = NLSFUNC_LOAD_PKG then set (nlsLoadPackage i n)
                 else if al = NLSFUNC_LOAD_PKG2 then set (nlsSetPackage i n)
                 else if al = NLSFUNC_YESNO then (case nlsYesNo mx p (mx_cx r) n of (v, n1) \<Rightarrow> ((v, mx_bx r), buf, n1))
                 else if al = NLSFUNC_UPMEM then ret (0, nlsUpMem p buf (mx_cx r))
                 else if al = NLSFUNC_FILE_UPMEM then ret (0, nlsFUpMem p buf (mx_cx r))
                 else ret (errno DE_INVLDFUNC, buf)))"

text \<open>
  Nobody hooks the interrupt: the inner call of the handler is an upper case request, which the
  handler answers without a further call.
\<close>

definition kernel_mux :: mux where
  "kernel_mux = syscall_MUX14 (syscall_MUX14 (\<lambda>r buf n. ((0, mx_bx r), buf, n)))"

section \<open>The DOS interface\<close>

definition DosYesNo :: "mux \<Rightarrow> u16 \<Rightarrow> nls_info \<Rightarrow> u8 \<times> nls_info" where
  "DosYesNo mx ch n =
     (if pkg_flags (act_pkg n) AND NLS_FLAG_DIRECT_YESNO \<noteq> 0
      then (case nlsYesNo mx (act_pkg n) ch n of (v, n1) \<Rightarrow> (ucast v, n1))
      else (case muxBufGo mx NLSFUNC_YESNO 0 NLS_DEFAULT NLS_DEFAULT ch [] n of (v, _, n1) \<Rightarrow> (of_int v, n1)))"

definition DosUpMem :: "mux \<Rightarrow> bytes \<Rightarrow> u16 \<Rightarrow> nls_info \<Rightarrow> bytes \<times> nls_info" where
  "DosUpMem mx str len n = xUpMem mx (act_pkg n) str len n"

definition DosUpChar :: "mux \<Rightarrow> u8 \<Rightarrow> nls_info \<Rightarrow> u8 \<times> nls_info" where
  "DosUpChar mx ch n = (case DosUpMem mx [ch] 1 n of (s, n1) \<Rightarrow> (hd s, n1))"

definition DosUpString :: "mux \<Rightarrow> bytes \<Rightarrow> nls_info \<Rightarrow> bytes \<times> nls_info" where
  "DosUpString mx str n = DosUpMem mx str (of_nat (length str)) n"

definition DosUpFMem :: "mux \<Rightarrow> bytes \<Rightarrow> u16 \<Rightarrow> nls_info \<Rightarrow> bytes \<times> nls_info" where
  "DosUpFMem mx str len n =
     (if pkg_flags (act_pkg n) AND NLS_FLAG_DIRECT_FUPCASE \<noteq> 0 then (nlsFUpMem (act_pkg n) str len, n)
      else snd (muxBufGo mx NLSFUNC_FILE_UPMEM 0 NLS_DEFAULT NLS_DEFAULT len str n))"

definition DosUpFChar :: "mux \<Rightarrow> u8 \<Rightarrow> nls_info \<Rightarrow> u8 \<times> nls_info" where
  "DosUpFChar mx ch n = (case DosUpFMem mx [ch] 1 n of (s, n1) \<Rightarrow> (hd s, n1))"

definition DosUpFString :: "mux \<Rightarrow> bytes \<Rightarrow> nls_info \<Rightarrow> bytes \<times> nls_info" where
  "DosUpFString mx str n = DosUpFMem mx str (of_nat (length str)) n"

text \<open>The buffer is \<open>None\<close> for the null pointer.\<close>

definition DosGetData :: "mux \<Rightarrow> u16 \<Rightarrow> u16 \<Rightarrow> u16 \<Rightarrow> u16 \<Rightarrow> bytes option \<Rightarrow> nls_info \<Rightarrow> int \<times> bytes option \<times> nls_info" where
  "DosGetData mx subfct cp cntry bufsize buf n =
     (case buf of
        None \<Rightarrow> (errno DE_INVLDDATA, buf, n)
      | Some b \<Rightarrow>
          (if bufsize = 0 then (errno DE_INVLDDATA, buf, n)
           else if subfct = 0 then (errno DE_INVLDFUNC, buf, n)
           else
             (let request = (\<lambda>cp cntry.
                    (case (if subfct = NLS_DOS_38 then muxBufGo mx NLSFUNC_DOS38 0 cp cntry bufsize b n
                           else muxBufGo mx NLSFUNC_GETDATA subfct cp cntry bufsize b n) of
                       (v, b1, n1) \<Rightarrow> (v, Some b1, n1)))
              in case searchPackage cp cntry n of
                   None \<Rightarrow> request cp cntry
                 | Some i \<Rightarrow>
                     (let p = nls_chain n ! i
                      in if pkg_flags p AND NLS_FLAG_DIRECT_GETDATA \<noteq> 0
                         then (case nlsGetData p subfct b bufsize of (v, b1) \<Rightarrow> (v, Some b1, n))
                         else request (pkg_cp p) (pkg_cntry p)))))"

definition DosGetCountryInformation :: "mux \<Rightarrow> u16 \<Rightarrow> bytes option \<Rightarrow> nls_info \<Rightarrow> int \<times> bytes option \<times> nls_info" where
  "DosGetCountryInformation mx cntry buf n = DosGetData mx NLS_DOS_38 NLS_DEFAULT cntry 0x18 buf n"

definition DosSetPackage :: "mux \<Rightarrow> u16 \<Rightarrow> u16 \<Rightarrow> nls_info \<Rightarrow> int \<times> nls_info" where
  "DosSetPackage mx cp cntry n = muxLoadPkg mx NLSFUNC_LOAD_PKG2 cp cntry n"

definition DosLoadPackage :: "mux \<Rightarrow> u16 \<Rightarrow> u16 \<Rightarrow> nls_info \<Rightarrow> int \<times> nls_info" where
  "DosLoadPackage mx cp cntry n =
     (case searchPackage cp cntry n of
        Some i \<Rightarrow> nlsLoadPackage i n
      | None \<Rightarrow> muxLoadPkg mx NLSFUNC_LOAD_PKG cp cntry n)"

definition DosSetCountry :: "mux \<Rightarrow> u16 \<Rightarrow> nls_info \<Rightarrow> int \<times> nls_info" where
  "DosSetCountry mx cntry n = DosLoadPackage mx NLS_DEFAULT cntry n"

definition DosGetCodepage :: "nls_info \<Rightarrow> u16 \<times> u16" where
  "DosGetCodepage n = (pkg_cp (act_pkg n), sysCodePage n)"

definition DosSetCodepage :: "mux \<Rightarrow> u16 \<Rightarrow> u16 \<Rightarrow> nls_info \<Rightarrow> int \<times> nls_info" where
  "DosSetCodepage mx actCP sysCP n =
     (if sysCP = NLS_DEFAULT \<or> sysCP = sysCodePage n then DosSetPackage mx actCP NLS_DEFAULT n
      else (errno DE_INVLDDATA, n))"

definition DosGetDBCS :: "nls_info \<Rightarrow> bytes" where
  "DosGetDBCS n = getTable7 (act_pkg n)"

end
