(* ===== verification/Dos_Sft.thy ===== *)
theory Dos_Sft
  imports Fat_DirOps Share Nls
begin

text \<open>
  The system file table and its link to the near file node: \<^verbatim>\<open>idx_to_sft\<close>, \<^verbatim>\<open>get_sft\<close> and the
  searches for free handles and entries of \<^verbatim>\<open>kernel/dosfns.c\<close>, \<^verbatim>\<open>sft_to_fnode\<close>, \<^verbatim>\<open>fnode_to_sft\<close>,
  \<^verbatim>\<open>merge_file_changes\<close>, \<^verbatim>\<open>dos_close\<close> of \<^verbatim>\<open>kernel/fatfs.c\<close> and \<^verbatim>\<open>DosCloseSft\<close>. Results of this
  layer are the integers the functions return; \<open>None\<close> is an access through a bad pointer.
\<close>

section \<open>State\<close>

text \<open>The union of the two pointers of an entry: a drive parameter block or a device header.\<close>

datatype dcb_or_dev = Dcb nat | Dev nat

record sft =
  sft_count :: u16
  sft_mode :: u16
  sft_attrib :: u8
  sft_flags :: u16
  sft_dcb :: dcb_or_dev
  sft_relclust_high :: u16
  sft_time :: u16
  sft_date :: u16
  sft_size :: u32
  sft_posit :: u32
  sft_relclust :: u16
  sft_dirsector :: u32
  sft_diridx :: u8
  sft_name :: bytes
  sft_stclust :: u32
  sft_mach :: u16
  sft_psp :: u16
  sft_shroff :: u16
  sft_cuclust :: u32

record dhdr =
  dh_attr :: u16
  dh_name :: bytes

text \<open>
  The fields of the program segment prefix that the kernel uses, in the order of the header. Far pointers are pairs of
  segment and offset, the two FCBs have 16 bytes each; \<open>ps_filetab\<close> is the table itself, wherever it lies.
\<close>

type_synonym far = "u16 \<times> u16"

record psp =
  ps_size :: u16
  ps_reentry :: far
  ps_isv22 :: far
  ps_isv23 :: far
  ps_isv24 :: far
  ps_parent :: u16
  ps_environ :: u16
  ps_stack :: far
  ps_maxfiles :: u16
  ps_filetab :: bytes
  ps_prevpsp :: u16
  ps_retdosver :: u16
  ps_fcb1 :: bytes
  ps_fcb2 :: bytes
  ps_cmd :: bytes

text \<open>
  \<open>sfthead\<close> is the chain of tables, each with \<^verbatim>\<open>sftt_count\<close> entries; a pointer into it is a pair of
  table and place. \<open>dhdrs\<close> is the chain of device headers from \<^verbatim>\<open>nul_dev\<close> on. \<open>fnode0\<close> is \<^verbatim>\<open>fnode[0]\<close>.
  \<open>stamp\<close> holds what \<^verbatim>\<open>dos_gettime\<close> and \<^verbatim>\<open>dos_getdate\<close> return, \<open>share_loaded\<close> whether \<^verbatim>\<open>share_check\<close>
  finds SHARE, \<open>shr\<close> the tables of SHARE, \<open>internal_dpb\<close> which parameter blocks lie in the kernel's data.
  The last six fields are \<^verbatim>\<open>PriPathName\<close>, \<^verbatim>\<open>SecPathName\<close>, the name in \<^verbatim>\<open>DirEntBuffer\<close> and the words a
  redirector reads: \<^verbatim>\<open>OpenMode\<close>, \<^verbatim>\<open>SAttr\<close> and \<^verbatim>\<open>ext_open_mode\<close>, \<^verbatim>\<open>ext_open_attrib\<close>, \<^verbatim>\<open>ext_open_action\<close>.
\<close>

type_synonym sft_ptr = "nat \<times> nat"

text \<open>
  \<^verbatim>\<open>current_ldt\<close> is a drive table entry, the null pointer, or \<^verbatim>\<open>FFFF:FFFF\<close>. The arguments of a
  redirector call are a table entry, a drive, a position, a region or attributes.
\<close>

datatype ldt = Ldt nat | NoLdt | LdtFFFF

datatype remote_arg =
  NoArg | Entry sft_ptr | EntryPos sft_ptr u32 | EntryRegion sft_ptr u32 u32 bool | EntryAttr sft_ptr u16
  | EntryCount sft_ptr u16 | Drive ldt | Attr u16

record ('c, 'd) fsys =
  fio :: "'d io"
  fnode0 :: f_node
  fnode1 :: f_node
  sfthead :: "sft list list"
  lpCurSft :: "sft_ptr option"
  current_sft_idx :: u16
  share_installed :: bool
  share_loaded :: bool
  shr :: share_state
  chars :: "'c char_env"
  dhdrs :: "dhdr list"
  cu_psp :: u16
  psps :: "u16 \<Rightarrow> psp"
  stamp :: "u16 \<times> u16"
  default_drive :: u8
  nls :: nls_info
  current_ldt :: ldt
  njoined :: u8
  os_major :: u8
  media_rq :: media_request
  internal_dpb :: "nat \<Rightarrow> bool"
  PriPathName :: bytes
  SecPathName :: bytes
  fcb_name :: bytes
  OpenMode :: u8
  SAttr :: u8
  SearchDir :: dirent
  ext_open :: "u16 \<times> u16 \<times> u16"

text \<open>
  The code outside the kernel: character devices by the place of their header, block devices, the media
  checks of their drivers, the hooks of multiplex interrupt 14, and the network redirector (multiplex
  interrupt 11xx): calls with a function number, the space of a drive (its result is an array of words),
  transfers from and to memory, and the full name of a path.
\<close>

record ('c, 'd) outside =
  char_drv :: "nat \<Rightarrow> 'c driver"
  blk_drv :: "'d blk_driver"
  media_drv :: "'d media_driver"
  nls_mux :: mux
  redirector :: "u16 \<Rightarrow> remote_arg \<Rightarrow> ('c, 'd) fsys \<Rightarrow> int \<times> ('c, 'd) fsys"
  remote_space :: "u16 \<Rightarrow> ldt \<Rightarrow> ('c, 'd) fsys \<Rightarrow> int \<times> u16 list \<times> ('c, 'd) fsys"
  remote_rw :: "u16 \<Rightarrow> sft_ptr \<Rightarrow> u16 \<Rightarrow> bytes \<Rightarrow> ('c, 'd) fsys \<Rightarrow> int \<times> bytes \<times> ('c, 'd) fsys"
  qualify :: "bytes \<Rightarrow> ('c, 'd) fsys \<Rightarrow> int \<times> bytes \<times> ('c, 'd) fsys"

definition SFT_FSHARED :: u16 where "SFT_FSHARED = 0x8000"
definition SFT_FDEVICE :: u16 where "SFT_FDEVICE = 0x0080"
definition SFT_FOCRM :: u16 where "SFT_FOCRM = 0x0800"
definition SFT_FEOF :: u16 where "SFT_FEOF = 0x0040"
definition SFT_MASK :: u16 where "SFT_MASK = 0x0060"
definition O_ACCMODE :: u16 where "O_ACCMODE = 0x0003"
definition O_RDONLY :: u16 where "O_RDONLY = 0"
definition REM_CLOSE :: u16 where "REM_CLOSE = 0x1106"
definition REM_FLUSH :: u16 where "REM_FLUSH = 0x1107"
definition C_OPEN :: u8 where "C_OPEN = 0x0d"
definition C_CLOSE :: u8 where "C_CLOSE = 0x0e"

definition sft_at :: "sft_ptr \<Rightarrow> ('c, 'd) fsys \<Rightarrow> sft" where
  "sft_at q s = sfthead s ! fst q ! snd q"

definition upd_sft :: "sft_ptr \<Rightarrow> (sft \<Rightarrow> sft) \<Rightarrow> ('c, 'd) fsys \<Rightarrow> ('c, 'd) fsys" where
  "upd_sft q f s = s\<lparr>sfthead := (sfthead s)[fst q := (sfthead s ! fst q)[snd q := f (sft_at q s)]]\<rparr>"

section \<open>From numbers to entries\<close>

text \<open>The walk along the tables; the second result is the number that is left.\<close>

fun locate :: "sft list list \<Rightarrow> nat \<Rightarrow> nat \<Rightarrow> sft_ptr option" where
  "locate [] b i = None"
| "locate (t # ts) b i = (if i < length t then Some (b, i) else locate ts (b + 1) (i - length t))"

definition idx_to_sft0 :: "int \<Rightarrow> ('c, 'd) fsys \<Rightarrow> int \<times> ('c, 'd) fsys" where
  "idx_to_sft0 i s =
     (let q = (if i < 0 then None else locate (sfthead s) 0 (nat i))
      in (case q of None \<Rightarrow> -1 | Some q \<Rightarrow> int (snd q), s\<lparr>lpCurSft := q\<rparr>))"

definition idx_to_sft :: "int \<Rightarrow> ('c, 'd) fsys \<Rightarrow> sft_ptr option \<times> ('c, 'd) fsys" where
  "idx_to_sft i s =
     (case idx_to_sft0 i s of (_, s1) \<Rightarrow>
        (case lpCurSft s1 of
           None \<Rightarrow> (None, s1)
         | Some q \<Rightarrow> (if sft_count (sft_at q s1) = 0 then None else Some q, s1)))"

definition cur_psp :: "('c, 'd) fsys \<Rightarrow> psp" where
  "cur_psp s = psps s (cu_psp s)"

definition get_sft_idx :: "u16 \<Rightarrow> ('c, 'd) fsys \<Rightarrow> int" where
  "get_sft_idx hndl s =
     (if hndl \<ge> ps_maxfiles (cur_psp s) then errno DE_INVLDHNDL
      else
        (let idx = ps_filetab (cur_psp s) ! unat hndl
         in if idx = 0xff then errno DE_INVLDHNDL else int (unat idx)))"

definition get_sft :: "u16 \<Rightarrow> ('c, 'd) fsys \<Rightarrow> sft_ptr option \<times> ('c, 'd) fsys" where
  "get_sft hndl s = idx_to_sft (get_sft_idx hndl s) s"

text \<open>The first free handle of the process.\<close>

definition get_free_hndl :: "('c, 'd) fsys \<Rightarrow> int" where
  "get_free_hndl s =
     (case find (\<lambda>i. ps_filetab (cur_psp s) ! i = 0xff) [0..<unat (ps_maxfiles (cur_psp s))] of
        None \<Rightarrow> errno DE_TOOMANY
      | Some i \<Rightarrow> int i)"

definition set_filetab :: "u16 \<Rightarrow> u8 \<Rightarrow> ('c, 'd) fsys \<Rightarrow> ('c, 'd) fsys" where
  "set_filetab hndl v s =
     s\<lparr>psps := (psps s)(cu_psp s := (cur_psp s)\<lparr>ps_filetab := (ps_filetab (cur_psp s))[unat hndl := v]\<rparr>)\<rparr>"

text \<open>The entries in the order of the tables, with their numbers.\<close>

fun entry_ptrs :: "sft list list \<Rightarrow> nat \<Rightarrow> nat \<Rightarrow> (nat \<times> sft_ptr) list" where
  "entry_ptrs [] b i = []"
| "entry_ptrs (t # ts) b i = map (\<lambda>j. (i + j, (b, j))) [0..<length t] @ entry_ptrs ts (b + 1) (i + length t)"

definition get_free_sft :: "('c, 'd) fsys \<Rightarrow> (nat \<times> sft_ptr) option \<times> ('c, 'd) fsys" where
  "get_free_sft s =
     (case find (\<lambda>(i, q). sft_count (sft_at q s) = 0) (entry_ptrs (sfthead s) 0 0) of
        None \<Rightarrow> (None, s)
      | Some (i, q) \<Rightarrow> (Some (i, q), s\<lparr>current_sft_idx := of_nat i\<rparr>))"

section \<open>SFT entries and file nodes\<close>

text \<open>A character device has no drive parameter block: the copy is not meant for it.\<close>

definition sft_to_fnode :: "nat \<Rightarrow> ('c, 'd) fsys \<Rightarrow> ('c, 'd) fsys option" where
  "sft_to_fnode fd s =
     (case idx_to_sft (int fd) s of
        (None, s1) \<Rightarrow> None
      | (Some q, s1) \<Rightarrow>
          (let t = sft_at q s1 in
           case sft_dcb t of
             Dev _ \<Rightarrow> None
           | Dcb p \<Rightarrow>
               (let de = (f_dir (fnode0 s1))\<lparr>dir_attrib := sft_attrib t, dir_name := take 11 (sft_name t), dir_time := sft_time t,
                           dir_date := sft_date t, dir_size := sft_size t\<rparr>
                in Some (s1\<lparr>fnode0 := (fnode0 s1)\<lparr>f_sft_idx := of_nat fd, f_flags := sft_flags t,
                     f_dir := setdstart (dpbs (fio s1) p) (sft_stclust t) de, f_dpb := p,
                     f_diridx := sft_diridx t, f_dirsector := sft_dirsector t, f_offset := sft_posit t, f_cluster := sft_cuclust t,
                     f_cluster_offset := ucast (sft_relclust t) OR push_bit 16 (ucast (sft_relclust_high t))\<rparr>\<rparr>))))"

definition fnode_to_sft :: "('c, 'd) fsys \<Rightarrow> ('c, 'd) fsys option" where
  "fnode_to_sft s =
     (let fnp = fnode0 s in
      case idx_to_sft (int (unat (f_sft_idx fnp))) s of
        (None, s1) \<Rightarrow> None
      | (Some q, s1) \<Rightarrow>
          Some (upd_sft q (\<lambda>t. t\<lparr>sft_flags := f_flags fnp, sft_attrib := dir_attrib (f_dir fnp), sft_name := take 11 (dir_name (f_dir fnp)),
             sft_time := dir_time (f_dir fnp), sft_date := dir_date (f_dir fnp), sft_size := dir_size (f_dir fnp),
             sft_stclust := getdstart (dpbs (fio s1) (f_dpb fnp)) (f_dir fnp), sft_diridx := f_diridx fnp,
             sft_dirsector := f_dirsector fnp, sft_dcb := Dcb (f_dpb fnp), sft_posit := f_offset fnp, sft_cuclust := f_cluster fnp,
             sft_relclust := ucast (f_cluster_offset fnp), sft_relclust_high := ucast (drop_bit 16 (f_cluster_offset fnp))\<rparr>) s1))"

section \<open>Several entries with one file\<close>

definition same_open_file :: "f_node \<Rightarrow> nat \<Rightarrow> sft \<Rightarrow> bool" where
  "same_open_file fnp i t \<longleftrightarrow> i \<noteq> unat (f_sft_idx fnp) \<and> sft_count t \<noteq> 0 \<and> sft_dcb t = Dcb (f_dpb fnp)
     \<and> dir_attrib (f_dir fnp) AND D_VOLID = 0 \<and> sft_attrib t AND D_VOLID = 0
     \<and> f_diridx fnp = sft_diridx t \<and> f_dirsector fnp = sft_dirsector t"

text \<open>Collecting: the first other entry that may have been written to.\<close>

fun collect_changes :: "(nat \<times> sft_ptr) list \<Rightarrow> ('c, 'd) fsys \<Rightarrow> ('c, 'd) fsys" where
  "collect_changes [] s = s"
| "collect_changes ((i, q) # qs) s =
     (let t = sft_at q s; fnp = fnode0 s
      in if same_open_file fnp i t \<and> sft_mode t AND O_ACCMODE \<noteq> O_RDONLY then
           s\<lparr>fnode0 := fnp\<lparr>f_dir := (setdstart (dpbs (fio s) (f_dpb fnp)) (sft_stclust t) (f_dir fnp))
               \<lparr>dir_size := sft_size t, dir_date := sft_date t, dir_time := sft_time t\<rparr>\<rparr>\<rparr>
         else collect_changes qs s)"

fun distribute_changes :: "(nat \<times> sft_ptr) list \<Rightarrow> ('c, 'd) fsys \<Rightarrow> ('c, 'd) fsys" where
  "distribute_changes [] s = s"
| "distribute_changes ((i, q) # qs) s =
     (let fnp = fnode0 s
      in distribute_changes qs
           (if same_open_file fnp i (sft_at q s) then
              upd_sft q (\<lambda>t. t\<lparr>sft_stclust := getdstart (dpbs (fio s) (f_dpb fnp)) (f_dir fnp), sft_size := dir_size (f_dir fnp),
                 sft_date := dir_date (f_dir fnp), sft_time := dir_time (f_dir fnp)\<rparr>) s
            else s))"

definition merge_file_changes :: "bool \<Rightarrow> ('c, 'd) fsys \<Rightarrow> ('c, 'd) fsys" where
  "merge_file_changes collect s =
     (if \<not> share_installed s then s
      else (if collect then collect_changes else distribute_changes) (entry_ptrs (sfthead s) 0 0) s)"

section \<open>Closing\<close>

definition dos_close :: "('c, 'd) outside \<Rightarrow> nat \<Rightarrow> ('c, 'd) fsys \<Rightarrow> (int \<times> ('c, 'd) fsys) option" where
  "dos_close ou fd s = do {
     s1 \<leftarrow> sft_to_fnode fd s;
     let fnp = fnode0 s1;
     let s2 = (if f_flags fnp AND SFT_FCLEAN = 0 then
                 merge_file_changes False
                   (if f_flags fnp AND SFT_FDATE = 0
                    then s1\<lparr>fnode0 := fnp\<lparr>f_dir := (f_dir fnp)\<lparr>dir_time := fst (stamp s1), dir_date := snd (stamp s1)\<rparr>\<rparr>\<rparr>
                    else s1)
               else s1);
     let s3 = s2\<lparr>fnode0 := (fnode0 s2)\<lparr>f_sft_idx := 0xff\<rparr>\<rparr>;
     (ok, e) \<leftarrow> dir_write_update (blk_drv ou) True (fnode0 s3) (fio s3);
     Some (if ok then 0 else errno DE_INVLDHNDL, s3\<lparr>fio := e\<rparr>)
   }"

definition IsShareInstalled :: "bool \<Rightarrow> ('c, 'd) fsys \<Rightarrow> bool \<times> ('c, 'd) fsys" where
  "IsShareInstalled recheck s =
     (if \<not> recheck then (share_installed s, s) else (share_loaded s, s\<lparr>share_installed := share_loaded s\<rparr>))"

text \<open>Releases the entry of SHARE when the last reference goes.\<close>

definition release_share :: "sft_ptr \<Rightarrow> ('c, 'd) fsys \<Rightarrow> ('c, 'd) fsys option" where
  "release_share q s =
     (if sft_count (sft_at q s) = 1 then
        (case IsShareInstalled True s of (inst, s1) \<Rightarrow>
           if \<not> inst then Some s1
           else do {
             s2 \<leftarrow> (if sint (sft_shroff (sft_at q s1)) \<ge> 0
                    then map_option (\<lambda>sh. s1\<lparr>shr := sh\<rparr>) (close_file (sft_shroff (sft_at q s1)) (shr s1))
                    else Some s1);
             Some (upd_sft q (\<lambda>t. t\<lparr>sft_shroff := 0xffff\<rparr>) s2)
           })
      else Some s)"

definition drop_count :: "sft_ptr \<Rightarrow> ('c, 'd) fsys \<Rightarrow> ('c, 'd) fsys" where
  "drop_count q s = upd_sft q (\<lambda>t. t\<lparr>sft_count := sft_count t - 1\<rparr>) s"

text \<open>An open or close request to a character device; true when the answer is not \<^verbatim>\<open>SUCCESS\<close>.\<close>

definition device_request :: "('c, 'd) outside \<Rightarrow> nat \<Rightarrow> u8 \<Rightarrow> ('c, 'd) fsys \<Rightarrow> bool \<times> ('c, 'd) fsys" where
  "device_request ou k cmd s =
     (case BinaryCharIO (char_drv ou k) 0 cmd [] (chars s) of (r, _, ch) \<Rightarrow> (r \<noteq> Inr 0, s\<lparr>chars := ch\<rparr>))"

definition close_device :: "('c, 'd) outside \<Rightarrow> sft_ptr \<Rightarrow> bool \<Rightarrow> ('c, 'd) fsys \<Rightarrow> (int \<times> ('c, 'd) fsys) option" where
  "close_device ou q commitonly s =
     (case sft_dcb (sft_at q s) of
        Dcb _ \<Rightarrow> None
      | Dev k \<Rightarrow>
          (let (failed, s1) = (if dh_attr (dhdrs s ! k) AND SFT_FOCRM \<noteq> 0 then device_request ou k C_CLOSE s else (False, s))
           in if failed then Some (errno DE_INVLDHNDL, s1)
              else Some (0, if commitonly then s1 else drop_count q s1)))"

definition DosCloseSft :: "('c, 'd) outside \<Rightarrow> int \<Rightarrow> bool \<Rightarrow> ('c, 'd) fsys \<Rightarrow> (int \<times> ('c, 'd) fsys) option" where
  "DosCloseSft ou sft_idx commitonly s =
     (case idx_to_sft sft_idx s of
        (None, s1) \<Rightarrow> Some (errno DE_INVLDHNDL, s1)
      | (Some q, s1) \<Rightarrow>
          (let s2 = s1\<lparr>lpCurSft := Some q\<rparr>; flags = sft_flags (sft_at q s1)
           in if flags AND SFT_FSHARED \<noteq> 0 then
                Some (redirector ou (if commitonly then REM_FLUSH else REM_CLOSE) (Entry q) s2)
              else if flags AND SFT_FDEVICE \<noteq> 0 then close_device ou q commitonly s2
              else do {
                (result, s3) \<leftarrow> dos_close ou (nat sft_idx) s2;
                if commitonly \<or> result \<noteq> 0 then Some (result, s3)
                else do {
                  s4 \<leftarrow> release_share q s3;
                  Some (0, drop_count q s4)
                }
              }))"

definition DosClose :: "('c, 'd) outside \<Rightarrow> u16 \<Rightarrow> ('c, 'd) fsys \<Rightarrow> (int \<times> ('c, 'd) fsys) option" where
  "DosClose ou hndl s =
     (let sft_idx = get_sft_idx hndl s in
      case idx_to_sft sft_idx s of
        (None, s1) \<Rightarrow> Some (errno DE_INVLDHNDL, s1)
      | (Some q, s1) \<Rightarrow> DosCloseSft ou sft_idx False (set_filetab hndl 0xff s1))"

end
