(* ===== verification/Dos_File.thy ===== *)
theory Dos_File
  imports Dos_Sft
begin

text \<open>
  Open files, \<^verbatim>\<open>kernel/fatfs.c\<close>: \<^verbatim>\<open>dos_open\<close>, \<^verbatim>\<open>dos_extend\<close>, \<^verbatim>\<open>rwblock\<close>, \<^verbatim>\<open>dos_setfattr\<close> and
  \<^verbatim>\<open>dos_merge_file_changes\<close>. They work on the near file node \<open>fnode0\<close>. The caller's memory is the
  bytes from the pointer on; the pointer itself decides only about the deblocking buffer.
\<close>

definition O_TRUNC :: u16 where "O_TRUNC = 0x0200"
definition O_OPEN :: u16 where "O_OPEN = 0x0100"
definition O_CREAT :: u16 where "O_CREAT = 0x0400"
definition O_FCB :: u16 where "O_FCB = 0x8000"
definition S_OPENED :: int where "S_OPENED = 1"
definition S_CREATED :: int where "S_CREATED = 2"
definition S_REPLACED :: int where "S_REPLACED = 3"

text \<open>Runs an operation of the file system layer on the near file node.\<close>

definition on_node ::
  "(f_node \<Rightarrow> 'd io \<Rightarrow> ('a \<times> f_node \<times> 'd io) option) \<Rightarrow> ('c, 'd) fsys \<Rightarrow> ('a \<times> ('c, 'd) fsys) option" where
  "on_node f s = map_option (\<lambda>(r, fnp, e). (r, s\<lparr>fnode0 := fnp, fio := e\<rparr>)) (f (fnode0 s) (fio s))"

definition upd_node :: "(f_node \<Rightarrow> f_node) \<Rightarrow> ('c, 'd) fsys \<Rightarrow> ('c, 'd) fsys" where
  "upd_node f s = s\<lparr>fnode0 := f (fnode0 s)\<rparr>"

definition set_size :: "u32 \<Rightarrow> ('c, 'd) fsys \<Rightarrow> ('c, 'd) fsys" where
  "set_size n = upd_node (\<lambda>f. f\<lparr>f_dir := (f_dir f)\<lparr>dir_size := n\<rparr>\<rparr>)"

definition set_offset :: "u32 \<Rightarrow> ('c, 'd) fsys \<Rightarrow> ('c, 'd) fsys" where
  "set_offset n = upd_node (\<lambda>f. f\<lparr>f_offset := n\<rparr>)"

definition node_dpb :: "('c, 'd) fsys \<Rightarrow> dpb" where
  "node_dpb s = dpbs (fio s) (f_dpb (fnode0 s))"

section \<open>Opening\<close>

text \<open>What becomes of the entry: a negative error, or one of \<^verbatim>\<open>S_OPENED\<close>, \<^verbatim>\<open>S_CREATED\<close>, \<^verbatim>\<open>S_REPLACED\<close>.\<close>

definition open_found :: "('c, 'd) outside \<Rightarrow> u16 \<Rightarrow> u16 \<Rightarrow> ('c, 'd) fsys \<Rightarrow> (int \<times> ('c, 'd) fsys) option" where
  "open_found ou flags attrib s =
     (let da = dir_attrib (f_dir (fnode0 s))
      in if flags AND O_TRUNC \<noteq> 0 then
           (if da AND (D_RDONLY OR D_DIR OR D_VOLID) \<noteq> 0 \<or> da AND NOT D_ARCHIVE AND NOT (ucast attrib) \<noteq> 0
            then Some (errno DE_ACCESS, s)
            else map_option (\<lambda>e. (S_REPLACED, s\<lparr>fio := e\<rparr>)) (wipe_out (blk_drv ou) (fnode0 s) (fio s)))
         else if flags AND O_OPEN \<noteq> 0 then
           (let flags1 = (if flags AND O_FCB \<noteq> 0 \<and> da AND D_RDONLY \<noteq> 0 then (flags AND NOT 3) OR O_RDONLY else flags)
            in if da AND (D_DIR OR D_VOLID) \<noteq> 0 \<or> da AND D_RDONLY \<noteq> 0 \<and> flags1 AND O_ACCMODE \<noteq> O_RDONLY
               then Some (errno DE_ACCESS, s) else Some (S_OPENED, s))
         else Some (errno DE_FILEEXISTS, s))"

definition open_entry :: "('c, 'd) outside \<Rightarrow> bytes \<Rightarrow> u16 \<Rightarrow> u16 \<Rightarrow> ('c, 'd) fsys \<Rightarrow> (int \<times> ('c, 'd) fsys) option" where
  "open_entry ou path flags attrib s = do {
     (r, s1) \<leftarrow> on_node (find_fname (blk_drv ou) path (D_ALL OR ucast attrib)) s;
     case r of
       Inr _ \<Rightarrow> open_found ou flags attrib s1
     | Inl err \<Rightarrow>
         if err = DE_FILENOTFND \<and> flags AND O_CREAT \<noteq> 0 then do {
           (r2, s2) \<leftarrow> on_node (\<lambda>fnp. alloc_find_free (blk_drv ou) fnp path) s1;
           Some (case r2 of Inl err2 \<Rightarrow> errno err2 | Inr _ \<Rightarrow> S_CREATED, s2)
         }
         else Some (errno err, s1)
   }"

definition dos_open ::
  "('c, 'd) outside \<Rightarrow> bytes \<Rightarrow> u16 \<Rightarrow> u16 \<Rightarrow> nat \<Rightarrow> ('c, 'd) fsys \<Rightarrow> (int \<times> ('c, 'd) fsys) option" where
  "dos_open ou path flags attrib fd s = do {
     s1 \<leftarrow> sft_to_fnode fd s;
     (status, s2) \<leftarrow> open_entry ou path flags attrib s1;
     if status < 0 then Some (status, s2)
     else
       (let s3 = upd_node (\<lambda>f. f\<lparr>f_sft_idx := of_nat fd, f_offset := 0, f_cluster_offset := 0,
                   f_flags := (f_flags f AND NOT SFT_FDATE) OR SFT_FCLEAN\<rparr>) s2 in do {
          (ok, s4) \<leftarrow>
            (if status \<noteq> S_OPENED then
               on_node (\<lambda>fnp e. map_option (\<lambda>(ok, e'). (ok, fnp, e')) (dir_write (blk_drv ou) fnp e))
                 (upd_node (\<lambda>f. f\<lparr>f_dir := init_direntry (ucast attrib) FREE (dm_name_pat (f_dmp f)) (fst (stamp s3)) (snd (stamp s3))\<rparr>) s3)
             else Some (True, s3));
          if \<not> ok then Some (errno DE_ACCESS, s4)
          else
            (let s5 = merge_file_changes (status = S_OPENED) s4;
                 s6 = upd_node (\<lambda>f. f\<lparr>f_cluster := getdstart (node_dpb s5) (f_dir f)\<rparr>) s5
             in map_option (\<lambda>s7. (status, s7)) (fnode_to_sft s6))
        })
   }"

section \<open>Extending a file to the position\<close>

text \<open>The size when only part of the clusters could be had.\<close>

definition whole_clusters :: "dpb \<Rightarrow> f_node \<Rightarrow> u32" where
  "whole_clusters d fnp = push_bit (unat (dpb_shftcnt d)) ((f_cluster_offset fnp + 1) * ucast (dpb_secsize d))"

definition at_boundary :: "dpb \<Rightarrow> u32 \<Rightarrow> bool" where
  "at_boundary d off \<longleftrightarrow> off AND (push_bit (unat (dpb_shftcnt d)) (ucast (dpb_secsize d)) - 1) = 0"

definition dos_extend :: "('c, 'd) outside \<Rightarrow> bool \<Rightarrow> ('c, 'd) fsys \<Rightarrow> (int \<times> ('c, 'd) fsys) option" where
  "dos_extend ou emptywrite s =
     (let fnp = fnode0 s; off = f_offset fnp; special = emptywrite \<and> at_boundary (node_dpb s) off
      in if off \<le> dir_size (f_dir fnp) then Some (0, s)
         else do {
           (r, s1) \<leftarrow> on_node (map_cluster (blk_drv ou) XFR_WRITE) (if special then set_offset (off - 1) s else s);
           let s2 = (if special then set_offset (f_offset (fnode0 s1) + 1) s1 else s1);
           if r \<noteq> Inr () then
             Some (errno DE_HNDLDSKFULL,
               if f_cluster (fnode0 s2) \<noteq> FREE
               then merge_file_changes False (set_size (whole_clusters (node_dpb s2) (fnode0 s2)) s2)
               else s2)
           else Some (0, merge_file_changes False (set_size (f_offset (fnode0 s2)) s2))
         })"

section \<open>Transfers\<close>

definition adjust_far :: "u16 \<times> u16 \<Rightarrow> u16 \<times> u16" where
  "adjust_far fp = (if fst fp = 0xffff then fp else (fst fp + drop_bit 4 (snd fp), snd fp AND 0xf))"

text \<open>Complete sectors: as many clusters as follow each other on the disk.\<close>

partial_function (option) extent_loop ::
  "('c, 'd) outside \<Rightarrow> delete_mode \<Rightarrow> u32 \<Rightarrow> u32 \<Rightarrow> u16 \<Rightarrow> u16 \<Rightarrow> ('c, 'd) fsys \<Rightarrow> (u16 \<times> ('c, 'd) fsys) option" where
  "extent_loop ou mode startoffset currentblock wanted n s =
     (if \<not> n < wanted then Some (n, s)
      else do {
        (r, s1) \<leftarrow> on_node (map_cluster (blk_drv ou) mode) s;
        if r \<noteq> Inr () \<or> clus2phys (f_cluster (fnode0 s1)) (node_dpb s1) \<noteq> currentblock + ucast n then Some (n, s1)
        else
          (let n' = min (n + ucast (dpb_clsmask (node_dpb s1)) + 1) wanted
           in extent_loop ou mode startoffset currentblock wanted n'
                (set_offset (startoffset + ucast (n' * dpb_secsize (node_dpb s1))) s1))
      })"

declare extent_loop.simps [code]

text \<open>What a pass of the loop did: moved bytes, met a block that cannot be had, or failed on the disk.\<close>

datatype pass = Moved u16 | Stopped | Failed

definition move_sectors ::
  "('c, 'd) outside \<Rightarrow> delete_mode \<Rightarrow> u16 \<times> u16 \<Rightarrow> u16 \<Rightarrow> u32 \<Rightarrow> u16 \<Rightarrow> bytes \<Rightarrow> ('c, 'd) fsys
    \<Rightarrow> (pass \<times> bytes \<times> ('c, 'd) fsys) option" where
  "move_sectors ou mode fp sector currentblock wanted buf s =
     (let startoffset = f_offset (fnode0 s); secsize = dpb_secsize (node_dpb s);
          n0 = min (ucast (dpb_clsmask (node_dpb s)) + 1 - sector) wanted
      in do {
        (n, s1) \<leftarrow> extent_loop ou mode startoffset currentblock wanted n0 (set_offset (startoffset + ucast (n0 * secsize)) s);
        let unit = dpb_unit (node_dpb s1);
        e \<leftarrow> DeleteBlockInBufferCache (blk_drv ou) currentblock (currentblock + ucast n - 1) unit mode (fio s1);
        let (st, buf1, e1) = dskxfer (blk_drv ou) (unat unit) currentblock (fst fp) buf n
                               (if mode = XFR_READ then DSKREAD else DSKWRITE) e;
        let s2 = s1\<lparr>fio := e1\<rparr>;
        Some (if st \<noteq> 0 then (Failed, buf1, set_offset startoffset s2) else (Moved (n * secsize), buf1, s2))
      })"

text \<open>A part of a sector, through the cache.\<close>

definition part_size :: "delete_mode \<Rightarrow> u16 \<Rightarrow> u16 \<Rightarrow> f_node \<Rightarrow> u16" where
  "part_size mode to_xfer room fnp =
     (let n = min to_xfer room
      in if mode = XFR_READ then ucast (min (ucast n) (dir_size (f_dir fnp) - f_offset fnp)) else n)"

definition move_part ::
  "('c, 'd) outside \<Rightarrow> delete_mode \<Rightarrow> u16 \<Rightarrow> u16 \<Rightarrow> u32 \<Rightarrow> bytes \<Rightarrow> ('c, 'd) fsys
    \<Rightarrow> (pass \<times> bytes \<times> ('c, 'd) fsys) option" where
  "move_part ou mode to_xfer boff currentblock buf s = do {
     (bp, e) \<leftarrow> getblk (blk_drv ou) currentblock (dpb_unit (node_dpb s)) False (fio s);
     case bp of
       None \<Rightarrow> Some (Stopped, buf, s\<lparr>fio := e\<rparr>)
     | Some b \<Rightarrow>
         (let fnp = fnode0 s; n = part_size mode to_xfer (dpb_secsize (node_dpb s) - boff) fnp; i = unat boff;
              data = b_buffer (bufs e b);
              e1 = (if mode = XFR_WRITE
                    then upd_buf b (\<lambda>x. x\<lparr>b_buffer := take i data @ fmemcpy (drop i data) buf (unat n),
                                          b_flag := b_flag x OR (BFR_DIRTY OR BFR_VALID)\<rparr>) e
                    else e);
              buf1 = (if mode = XFR_WRITE then buf else fmemcpy buf (drop i data) (unat n));
              e2 = (if n = 512 \<or> mode = XFR_READ \<and> f_offset fnp + ucast n = dir_size (f_dir fnp)
                    then upd_buf b (\<lambda>x. x\<lparr>b_flag := b_flag x OR BFR_UNCACHE\<rparr>) e1 else e1)
          in Some (Moved n, buf1, set_offset (f_offset fnp + ucast n) (s\<lparr>fio := e2\<rparr>)))
   }"

text \<open>The body of the loop once the cluster is found; \<open>buf\<close> is the memory from the pointer on.\<close>

definition rw_pass ::
  "('c, 'd) outside \<Rightarrow> delete_mode \<Rightarrow> u16 \<times> u16 \<Rightarrow> u16 \<Rightarrow> bytes \<Rightarrow> ('c, 'd) fsys \<Rightarrow> (pass \<times> bytes \<times> ('c, 'd) fsys) option" where
  "rw_pass ou mode fp to_xfer buf s =
     (let fnp = fnode0 s; secsize = dpb_secsize (node_dpb s); off = f_offset fnp; left = dir_size (f_dir fnp) - off;
          sector = ucast ((ucast (off div ucast secsize) :: u8) AND dpb_clsmask (node_dpb s)) :: u16;
          boff = ucast (off mod ucast secsize) :: u16;
          currentblock = clus2phys (f_cluster fnp) (node_dpb s) + ucast sector;
          wanted = (if mode = XFR_READ \<and> ucast to_xfer > left then ucast left else to_xfer) div secsize
      in if boff = 0 \<and> wanted \<noteq> 0 then move_sectors ou mode fp sector currentblock wanted buf s
         else move_part ou mode to_xfer boff currentblock buf s)"

definition grow_size :: "('c, 'd) fsys \<Rightarrow> ('c, 'd) fsys" where
  "grow_size s = (if f_offset (fnode0 s) > dir_size (f_dir (fnode0 s)) then set_size (f_offset (fnode0 s)) s else s)"

text \<open>The loop: \<open>ret_cnt\<close> bytes are done, \<open>count - ret_cnt\<close> are left.\<close>

partial_function (option) rw_loop ::
  "('c, 'd) outside \<Rightarrow> delete_mode \<Rightarrow> u16 \<Rightarrow> u16 \<times> u16 \<Rightarrow> u16 \<Rightarrow> bytes \<Rightarrow> ('c, 'd) fsys
    \<Rightarrow> (int \<times> bytes \<times> ('c, 'd) fsys) option" where
  "rw_loop ou mode count fp ret_cnt buf s =
     (let finish = (\<lambda>r buf s. map_option (\<lambda>s'. (r, buf, s')) (fnode_to_sft s)); done = int (unat ret_cnt)
      in if \<not> ret_cnt < count \<or> mode = XFR_READ \<and> f_offset (fnode0 s) \<ge> dir_size (f_dir (fnode0 s)) then finish done buf s
         else do {
           (r, s1) \<leftarrow> on_node (map_cluster (blk_drv ou) mode) s;
           if r \<noteq> Inr () then finish done buf s1
           else do {
             (p, rest, s2) \<leftarrow> rw_pass ou mode fp (count - ret_cnt) (drop (unat ret_cnt) buf)
                                (if mode = XFR_WRITE then merge_file_changes False s1 else s1);
             let buf1 = take (unat ret_cnt) buf @ rest;
             case p of
               Stopped \<Rightarrow> finish done buf1 s2
             | Failed \<Rightarrow> finish (errno DE_ACCESS) buf1 s2
             | Moved n \<Rightarrow>
                 rw_loop ou mode count (adjust_far (fst fp, snd fp + n)) (ret_cnt + n) buf1
                   (if mode = XFR_WRITE then merge_file_changes False (grow_size s2) else s2)
           }
         })"

declare rw_loop.simps [code]

definition mark_written :: "f_node \<Rightarrow> f_node" where
  "mark_written f = f\<lparr>f_dir := (f_dir f)\<lparr>dir_attrib := dir_attrib (f_dir f) OR D_ARCHIVE\<rparr>,
                      f_flags := f_flags f AND NOT (SFT_FCLEAN OR SFT_FDATE)\<rparr>"

definition rwblock ::
  "('c, 'd) outside \<Rightarrow> nat \<Rightarrow> u16 \<times> u16 \<Rightarrow> bytes \<Rightarrow> u16 \<Rightarrow> delete_mode \<Rightarrow> ('c, 'd) fsys
    \<Rightarrow> (int \<times> bytes \<times> ('c, 'd) fsys) option" where
  "rwblock ou fd fp buf count mode s =
     (let finish = (\<lambda>s. map_option (\<lambda>s'. (0, buf, s')) (fnode_to_sft s)) in do {
        s1 \<leftarrow> sft_to_fnode fd s;
        (ext, s2) \<leftarrow> (if mode = XFR_WRITE then dos_extend ou (count = 0) (upd_node mark_written s1) else Some (0, s1));
        if ext \<noteq> 0 then finish s2
        else if count = 0 then
          (if mode = XFR_WRITE then do {
             (r, s3) \<leftarrow> on_node (shrink_file (blk_drv ou)) (set_size (f_offset (fnode0 s2)) s2);
             if r \<noteq> Inr () then Some (errno DE_ACCESS, buf, s3) else finish s3
           }
           else finish s2)
        else if f_offset (fnode0 s2) + ucast count < f_offset (fnode0 s2) \<and> mode = XFR_WRITE
        then Some (errno DE_HNDLDSKFULL, buf, s2)
        else rw_loop ou mode count (adjust_far fp) 0 buf s2
      })"

section \<open>Attributes and other entries\<close>

definition dos_merge_file_changes :: "nat \<Rightarrow> ('c, 'd) fsys \<Rightarrow> ('c, 'd) fsys option" where
  "dos_merge_file_changes fd s = map_option (merge_file_changes False) (sft_to_fnode fd s)"

text \<open>Closes the other entries of the file; \<^verbatim>\<open>DosCloseSft\<close> uses the same near file node.\<close>

fun close_others :: "('c, 'd) outside \<Rightarrow> (nat \<times> sft_ptr) list \<Rightarrow> ('c, 'd) fsys \<Rightarrow> (int \<times> ('c, 'd) fsys) option" where
  "close_others ou [] s = Some (0, s)"
| "close_others ou ((i, q) # qs) s =
     (if same_open_file (fnode0 s) i (sft_at q s) then do {
        (rc, s1) \<leftarrow> DosCloseSft ou (int i) False s;
        if rc \<noteq> 0 then Some (rc, s1) else close_others ou qs s1
      }
      else close_others ou qs s)"

definition set_attrib :: "u16 \<Rightarrow> f_node \<Rightarrow> f_node" where
  "set_attrib attrp f = f\<lparr>f_dir := (f_dir f)\<lparr>dir_attrib := (dir_attrib (f_dir f) AND (D_VOLID OR D_DIR)) OR ucast attrp\<rparr>\<rparr>"

definition dos_setfattr :: "('c, 'd) outside \<Rightarrow> bytes \<Rightarrow> u16 \<Rightarrow> ('c, 'd) fsys \<Rightarrow> (int \<times> ('c, 'd) fsys) option" where
  "dos_setfattr ou name attrp s =
     (if attrp AND (ucast D_VOLID OR 0xc0) \<noteq> 0 then Some (errno DE_ACCESS, s)
      else do {
        (r, s1) \<leftarrow> on_node (find_fname (blk_drv ou) name D_ALL) s;
        case r of
          Inl err \<Rightarrow> Some (errno err, s1)
        | Inr _ \<Rightarrow>
            if attrp AND ucast D_DIR \<noteq> 0 \<and> dir_attrib (f_dir (fnode0 s1)) AND D_DIR = 0 then Some (errno DE_ACCESS, s1)
            else
              (let s2 = upd_node (set_attrib attrp) s1 in do {
                 (rc, s3) \<leftarrow> (if share_installed s2 then close_others ou (entry_ptrs (sfthead s2) 0 0) s2 else Some (0, s2));
                 if rc \<noteq> 0 then Some (rc, s3)
                 else do {
                   (ok, e) \<leftarrow> dir_write (blk_drv ou) (fnode0 s3) (fio s3);
                   Some (if ok then 0 else errno DE_ACCESS, s3\<lparr>fio := e\<rparr>)
                 }
               })
      })"

end
