(* ===== verification/Path_Name.thy ===== *)
theory Path_Name
  imports Fat_Names
begin

text \<open>
  The parts of a path, \<^verbatim>\<open>kernel/newstuff.c\<close>: the loop of \<^verbatim>\<open>truename\<close> that appends the components of a
  name to the directory, in 8.3 form and without \<open>.\<close> and \<open>..\<close>. Names are lists without the
  terminating zero; \<open>out\<close> is what has been written before the pointer \<open>p\<close>.
\<close>

definition slash :: u8 where "slash = 0x2f"
definition colon :: u8 where "colon = 0x3a"
definition qmark :: u8 where "qmark = 0x3f"
definition star :: u8 where "star = 0x2a"
definition SFTMAX :: nat where "SFTMAX = 128"

lemmas path_chars = slash_def colon_def qmark_def star_def

definition is_slash :: "u8 \<Rightarrow> bool" where
  "is_slash c \<longleftrightarrow> c = slash \<or> c = backslash"

text \<open>The character at a place, zero at the end.\<close>

definition char_at :: "bytes \<Rightarrow> nat \<Rightarrow> u8" where
  "char_at s i = (if i < length s then s ! i else 0)"

text \<open>\<^verbatim>\<open>get_root\<close> of \<^verbatim>\<open>kernel/dosfns.c\<close>: the part behind the last separator.\<close>

definition get_root :: "bytes \<Rightarrow> bytes" where
  "get_root fname = rev (takeWhile (\<lambda>c. \<not> (is_slash c \<or> c = colon)) (rev fname))"

definition PATH_ERROR :: "bytes \<Rightarrow> dos_error" where
  "PATH_ERROR src = (if slash \<notin> set src \<and> backslash \<notin> set src then DE_FILENOTFND else DE_PATHNOTFND)"

definition DirChars :: bytes where
  "DirChars = [0x22, 0x5b, 0x5d, 0x3a, 0x7c, 0x3c, 0x3e, 0x2b, 0x3d, 0x3b, 0x2c]"

definition DirChar :: "u8 \<Rightarrow> bool" where
  "DirChar c \<longleftrightarrow> c \<ge> 0x20 \<and> c \<notin> set DirChars"

definition addChar :: "bytes \<Rightarrow> u8 \<Rightarrow> bytes \<Rightarrow> dos_error + bytes" where
  "addChar src c out = (if length out \<ge> SFTMAX then Inl (PATH_ERROR src) else Inr (out @ [c]))"

text \<open>The question marks for a star.\<close>

fun addChars :: "bytes \<Rightarrow> u8 \<Rightarrow> nat \<Rightarrow> bytes \<Rightarrow> dos_error + bytes" where
  "addChars src c 0 out = Inr out"
| "addChars src c (Suc n) out = (case addChar src c out of Inl e \<Rightarrow> Inl e | Inr out1 \<Rightarrow> addChars src c n out1)"

definition at_end :: "bytes \<Rightarrow> bool" where
  "at_end src \<longleftrightarrow> src = [] \<or> is_slash (hd src)"

text \<open>
  A component: \<open>i\<close> characters may still be added, \<open>dotted\<close> and \<open>wild\<close> are the flags \<^verbatim>\<open>PNE_DOT\<close> and
  \<^verbatim>\<open>PNE_WILDCARD\<close>. A step takes the character \<open>c\<close> before \<open>src\<close>; \<open>None\<close> is the break at a trailing dot.
\<close>

definition name_step :: "nat \<times> bool \<times> bool \<times> bytes \<Rightarrow> u8 \<Rightarrow> bytes \<Rightarrow> dos_error + (nat \<times> bool \<times> bool \<times> bytes) option" where
  "name_step st c src =
     (case st of (i, dotted, wild, out) \<Rightarrow>
       if c = star then
         (case addChars src qmark i out of Inl e \<Rightarrow> Inl e | Inr out1 \<Rightarrow> Inr (Some (0, dotted, True, out1)))
       else if c = dot \<and> dotted then Inl (PATH_ERROR src)
       else if c = dot \<and> at_end src then Inr None
       else
         (let j = (if c = dot then FEXT_SIZE + 1 else i); dotted1 = (dotted \<or> c = dot); wild1 = (wild \<or> c = qmark)
          in if j = 0 then Inr (Some (0, dotted1, wild1, out))
             else if \<not> DirChar c then Inl (PATH_ERROR src)
             else (case addChar src c out of
                     Inl e \<Rightarrow> Inl e
                   | Inr out1 \<Rightarrow> Inr (Some (j - 1, dotted1, wild1, out1)))))"

text \<open>The results are the rest of the name, the wildcard flag and the text.\<close>

fun name_loop :: "bytes \<Rightarrow> nat \<times> bool \<times> bool \<times> bytes \<Rightarrow> dos_error + bytes \<times> bool \<times> bytes" where
  "name_loop [] (i, dotted, wild, out) = Inr ([], wild, out)"
| "name_loop (c # src) (i, dotted, wild, out) =
     (if is_slash c then Inr (c # src, wild, out)
      else
        (case name_step (i, dotted, wild, out) c src of
           Inl e \<Rightarrow> Inl e
         | Inr None \<Rightarrow> Inr (src, wild, out)
         | Inr (Some st) \<Rightarrow> name_loop src st))"

lemma name_loop_le: "name_loop src st = Inr (rest, w, o') \<Longrightarrow> length rest \<le> length src"
proof (induction src arbitrary: st)
  case (Cons c src)
  obtain i d w0 out where st: "st = (i, d, w0, out)" by (cases st) auto
  show ?case using Cons.prems unfolding st
    by (auto split: if_splits sum.splits option.splits dest!: Cons.IH)
qed (auto simp: split_paired_all)

lemma name_loop_less:
  assumes "name_loop src st = Inr (rest, w, o')" "src \<noteq> []" "\<not> is_slash (hd src)"
  shows "length rest < length src"
proof -
  obtain c cs where src: "src = c # cs" using assms(2) by (cases src) auto
  obtain i d w0 out where st: "st = (i, d, w0, out)" by (cases st) auto
  have "length rest \<le> length cs"
    using assms(1,3) unfolding src st by (auto split: sum.splits option.splits dest: name_loop_le)
  then show ?thesis unfolding src by simp
qed

text \<open>Back over the last component; \<open>None\<close> when the pointer meets the root.\<close>

fun up_dir :: "nat \<Rightarrow> bytes \<Rightarrow> nat \<Rightarrow> bytes option" where
  "up_dir root out 0 = None"
| "up_dir root out (Suc p) =
     (if char_at out p = backslash then Some (take p out)
      else if p \<le> root then None
      else up_dir root out p)"

text \<open>
  The components; \<open>sep\<close> is the character at the root, \<open>root\<close> its place. A wildcard is allowed in the
  last component only.
\<close>

function segments :: "u8 \<Rightarrow> nat \<Rightarrow> bool \<Rightarrow> bytes \<Rightarrow> bytes \<Rightarrow> dos_error + bool \<times> bytes" where
  "segments sep root wild src out =
     (if src = [] then Inr (wild, out)
      else if wild then Inl DE_PATHNOTFND
      else
        (case (if char_at out (length out - 1) \<noteq> sep then addChar src sep out else Inr out) of
           Inl e \<Rightarrow> Inl e
         | Inr out1 \<Rightarrow>
             (let src1 = dropWhile is_slash src
              in if char_at src1 0 = dot then
                   (let two = char_at src1 1 = dot; src2 = drop (if two then 2 else 1) src1
                    in if at_end src2 then
                         (let out2 = butlast out1
                          in if two then
                               (case up_dir root out2 (length out2) of
                                  None \<Rightarrow> Inl DE_PATHNOTFND
                                | Some out3 \<Rightarrow> segments sep root wild src2 out3)
                             else segments sep root wild src2 out2)
                       else Inl (PATH_ERROR src2))
                 else
                   (case name_loop src1 (FNAME_SIZE, False, wild, out1) of
                      Inl e \<Rightarrow> Inl e
                    | Inr (src2, wild1, out2) \<Rightarrow> segments sep root wild1 src2 out2))))"
  by pat_completeness auto
termination
proof (relation "measure (\<lambda>(sep, root, wild, src, out). length src)", goal_cases)
  case 1 show ?case by simp
next
  case (2 sep root wild src out out1 src1 two src2 out2 out3)
  then have "src1 \<noteq> []" by (auto simp: char_at_def split: if_splits)
  moreover have "length src1 \<le> length src" using 2(4) by (simp add: length_dropWhile_le)
  ultimately show ?case using 2(7) by (cases src1) auto
next
  case (3 sep root wild src out out1 src1 two src2 out2)
  then have "src1 \<noteq> []" by (auto simp: char_at_def split: if_splits)
  moreover have "length src1 \<le> length src" using 3(4) by (simp add: length_dropWhile_le)
  ultimately show ?case using 3(7) by (cases src1) auto
next
  case (4 sep root wild src out out1 src1 r s2 z wild1 out2)
  have l: "length s2 \<le> length src1" "src1 \<noteq> [] \<Longrightarrow> length s2 < length src1"
    using name_loop_le [of src1 _ s2 wild1 out2] name_loop_less [of src1 _ s2 wild1 out2]
      4(6,7,8) hd_dropWhile [of is_slash src] 4(4)
    by (auto simp: dropWhile_eq_Nil_conv)
  have "length src1 \<le> length src" using 4(4) by (simp add: length_dropWhile_le)
  moreover have "src1 = [] \<Longrightarrow> length src > 0" using 4(1) by simp
  ultimately show ?case using l by (cases "src1 = []") auto
qed

declare segments.simps [simp del]

end
