(* ===== verification/Dos_Handles.thy ===== *)
theory Dos_Handles
  imports Dos_File Path_Name
begin

text \<open>
  File handles and drives, \<^verbatim>\<open>kernel/dosfns.c\<close>: duplicating, seeking, file times, locks, the free space of
  a drive, and the names of character devices. A function that stores through a pointer returns
  the value; \<open>None\<close> inside the result is an output that was not written.
\<close>

definition O_NOINHERIT :: u16 where "O_NOINHERIT = 0x0080"
definition O_DENYREAD :: u16 where "O_DENYREAD = 0x0030"
definition O_DENYNONE :: u16 where "O_DENYNONE = 0x0040"
definition SEEK_CUR :: u16 where "SEEK_CUR = 1"
definition SEEK_END :: u16 where "SEEK_END = 2"
definition REM_LOCK :: u16 where "REM_LOCK = 0x110a"
definition REM_LSEEK :: u16 where "REM_LSEEK = 0x1121"
definition REM_GETSPACE :: u16 where "REM_GETSPACE = 0x110c"
definition REM_GETLARGESPACE :: u16 where "REM_GETLARGESPACE = 0x11a3"
definition ATTR_CHAR :: u16 where "ATTR_CHAR = 0x8000"
definition M_CHANGED :: u8 where "M_CHANGED = 0xff"

section \<open>Duplicating handles\<close>

definition add_ref :: "sft_ptr \<Rightarrow> ('c, 'd) fsys \<Rightarrow> ('c, 'd) fsys" where
  "add_ref q s = upd_sft q (\<lambda>t. t\<lparr>sft_count := sft_count t + 1\<rparr>) s"

definition CloneHandle :: "u16 \<Rightarrow> ('c, 'd) fsys \<Rightarrow> int \<times> ('c, 'd) fsys" where
  "CloneHandle hndl s =
     (case get_sft hndl s of
        (None, s1) \<Rightarrow> (errno DE_INVLDHNDL, s1)
      | (Some q, s1) \<Rightarrow>
          if sft_mode (sft_at q s1) AND O_NOINHERIT \<noteq> 0 then (errno DE_INVLDHNDL, s1) else (0, add_ref q s1))"

text \<open>The entry is found before the new handle is closed; a new handle beyond the table is not noticed.\<close>

definition DosForceDup :: "('c, 'd) outside \<Rightarrow> u16 \<Rightarrow> u16 \<Rightarrow> ('c, 'd) fsys \<Rightarrow> (int \<times> ('c, 'd) fsys) option" where
  "DosForceDup ou OldHandle NewHandle s =
     (case get_sft OldHandle s of
        (None, s1) \<Rightarrow> Some (errno DE_INVLDHNDL, s1)
      | (Some q, s1) \<Rightarrow>
          if unat NewHandle \<ge> length (ps_filetab (cur_psp s1)) then None
          else do {
            (ret, s2) \<leftarrow> (if ps_filetab (cur_psp s1) ! unat NewHandle \<noteq> 0xff then DosClose ou NewHandle s1 else Some (0, s1));
            if ret \<noteq> 0 then Some (ret, s2)
            else Some (0, add_ref q (set_filetab NewHandle (ps_filetab (cur_psp s2) ! unat OldHandle) s2))
          })"

definition DosDup :: "('c, 'd) outside \<Rightarrow> u16 \<Rightarrow> ('c, 'd) fsys \<Rightarrow> (int \<times> ('c, 'd) fsys) option" where
  "DosDup ou Handle s =
     (let NewHandle = get_free_hndl s
      in if NewHandle < 0 then Some (NewHandle, s)
         else do {
           (ret, s1) \<leftarrow> DosForceDup ou Handle (of_int NewHandle) s;
           Some (if ret < 0 then errno DE_INVLDHNDL else NewHandle, s1)
         })"

section \<open>Positions, times and locks\<close>

definition SftSeek2 :: "('c, 'd) outside \<Rightarrow> int \<Rightarrow> u32 \<Rightarrow> u16 \<Rightarrow> ('c, 'd) fsys \<Rightarrow> int \<times> u32 option \<times> ('c, 'd) fsys" where
  "SftSeek2 ou sft_idx new_pos mode s =
     (case idx_to_sft sft_idx s of
        (None, s1) \<Rightarrow> (errno DE_INVLDHNDL, None, s1)
      | (Some q, s1) \<Rightarrow>
          if mode > SEEK_END then (errno DE_INVLDFUNC, None, s1)
          else
            (let s2 = s1\<lparr>lpCurSft := Some q\<rparr>; t = sft_at q s2;
                 (pos, s3) =
                   (if sft_flags t AND SFT_FDEVICE \<noteq> 0 then (0, s2)
                    else if mode = SEEK_CUR then (new_pos + sft_posit t, s2)
                    else if mode = SEEK_END then
                      (if sft_flags t AND SFT_FSHARED \<noteq> 0 \<and> sft_mode t AND (O_DENYREAD OR O_DENYNONE) \<noteq> 0
                       then (case redirector ou REM_LSEEK (EntryPos q new_pos) s2 of (r, s3) \<Rightarrow> (of_int r, s3))
                       else (new_pos + sft_size t, s2))
                    else (new_pos, s2))
             in (0, Some pos, upd_sft q (\<lambda>t. t\<lparr>sft_posit := pos\<rparr>) s3)))"

definition SftSeek :: "('c, 'd) outside \<Rightarrow> int \<Rightarrow> u32 \<Rightarrow> u16 \<Rightarrow> ('c, 'd) fsys \<Rightarrow> int \<times> ('c, 'd) fsys" where
  "SftSeek ou sft_idx new_pos mode s = (case SftSeek2 ou sft_idx new_pos mode s of (r, _, s1) \<Rightarrow> (r, s1))"

text \<open>The position, or the error as an unsigned number, with the return code.\<close>

definition DosSeek :: "('c, 'd) outside \<Rightarrow> u16 \<Rightarrow> u32 \<Rightarrow> u16 \<Rightarrow> ('c, 'd) fsys \<Rightarrow> u32 \<times> int \<times> ('c, 'd) fsys" where
  "DosSeek ou hndl new_pos mode s =
     (case SftSeek2 ou (get_sft_idx hndl s) new_pos mode s of
        (rc, Some result, s1) \<Rightarrow> (if rc = 0 then result else of_int rc, rc, s1)
      | (rc, None, s1) \<Rightarrow> (of_int rc, rc, s1))"

definition DosGetFtime :: "u16 \<Rightarrow> ('c, 'd) fsys \<Rightarrow> int \<times> (u16 \<times> u16) option \<times> ('c, 'd) fsys" where
  "DosGetFtime hndl s =
     (case get_sft hndl s of
        (None, s1) \<Rightarrow> (errno DE_INVLDHNDL, None, s1)
      | (Some q, s1) \<Rightarrow> (0, Some (sft_date (sft_at q s1), sft_time (sft_at q s1)), s1))"

definition DosSetFtimeSft :: "int \<Rightarrow> u16 \<Rightarrow> u16 \<Rightarrow> ('c, 'd) fsys \<Rightarrow> int \<times> ('c, 'd) fsys" where
  "DosSetFtimeSft sft_idx dp tp s =
     (case idx_to_sft sft_idx s of
        (None, s1) \<Rightarrow> (errno DE_INVLDHNDL, s1)
      | (Some q, s1) \<Rightarrow>
          if sft_flags (sft_at q s1) AND SFT_FDEVICE \<noteq> 0 then (0, s1)
          else (0, upd_sft q (\<lambda>t. t\<lparr>sft_flags := sft_flags t OR SFT_FDATE, sft_date := dp, sft_time := tp\<rparr>) s1))"

definition DosLockUnlock :: "('c, 'd) outside \<Rightarrow> u16 \<Rightarrow> u32 \<Rightarrow> u32 \<Rightarrow> bool \<Rightarrow> ('c, 'd) fsys \<Rightarrow> (int \<times> ('c, 'd) fsys) option" where
  "DosLockUnlock ou hndl pos len unlock s =
     (case get_sft hndl s of
        (None, s1) \<Rightarrow> Some (errno DE_INVLDHNDL, s1)
      | (Some q, s1) \<Rightarrow>
          let t = sft_at q s1
          in if sft_flags t AND SFT_FSHARED \<noteq> 0 then Some (redirector ou REM_LOCK (EntryRegion q pos len unlock) s1)
             else if \<not> share_installed s1 then Some (errno DE_INVLDFUNC, s1)
             else if sint (sft_shroff t) < 0 then Some (errno DE_LOCK, s1)
             else map_option (\<lambda>(r, sh). (r, s1\<lparr>shr := sh\<rparr>)) (lock_unlock (cu_psp s1) (sft_shroff t) pos len unlock (shr s1)))"

section \<open>Drives\<close>

definition get_cds1 :: "nat \<Rightarrow> ('c, 'd) fsys \<Rightarrow> nat option" where
  "get_cds1 drv s =
     (let d = (if drv = 0 then unat (default_drive s) else drv - 1)
      in map_option (\<lambda>_. d) (get_cds d (fio s)))"

definition GetDriveDPB :: "u8 \<Rightarrow> ('c, 'd) fsys \<Rightarrow> nat option \<times> int" where
  "GetDriveDPB drive s =
     (case get_cds1 (unat drive) s of
        None \<Rightarrow> (None, errno DE_INVLDDRV)
      | Some i \<Rightarrow>
          (let c = cds_table (fio s) ! i
           in if cdsDpb c = None \<or> cdsFlags c AND CDSNETWDRV \<noteq> 0 then (None, errno DE_INVLDDRV) else (cdsDpb c, 0)))"

definition DosSelectDrv :: "u8 \<Rightarrow> ('c, 'd) fsys \<Rightarrow> nat \<times> ('c, 'd) fsys" where
  "DosSelectDrv drv s =
     (length (cds_table (fio s)),
      case get_cds (unat drv) (fio s) of
        None \<Rightarrow> s\<lparr>current_ldt := NoLdt\<rparr>
      | Some _ \<Rightarrow> s\<lparr>current_ldt := Ldt (unat drv), default_drive := drv\<rparr>)"

definition drive_media :: "('c, 'd) outside \<Rightarrow> nat option \<Rightarrow> ('c, 'd) fsys \<Rightarrow> (bool \<times> ('c, 'd) fsys) option" where
  "drive_media ou dpbp s = do {
     (r, rq, e) \<leftarrow> media_check (media_drv ou) (blk_drv ou) (case dpbp of None \<Rightarrow> False | Some p \<Rightarrow> internal_dpb s p) dpbp (media_rq s) (fio s);
     Some (r = Inr (), s\<lparr>media_rq := rq, fio := e\<rparr>)
   }"

section \<open>Free space\<close>

text \<open>Scales the cluster count down to what a word can hold.\<close>

function scale_clusters :: "u32 \<Rightarrow> u16 \<Rightarrow> u32 \<Rightarrow> u32 \<Rightarrow> u16 \<times> u32 \<times> u32" where
  "scale_clusters cluster_size spc ntotal nfree =
     (if ntotal > ucast FAT_MAGIC16 \<and> cluster_size < 0x8000
      then scale_clusters (push_bit 1 cluster_size) (push_bit 1 spc) (drop_bit 1 ntotal) (drop_bit 1 nfree)
      else (spc, ntotal, nfree))"
  by pat_completeness auto
termination
  by (relation "measure (\<lambda>(cluster_size, spc, ntotal, nfree). unat ntotal)")
    (auto simp: drop_bit_eq_div unat_div word_less_nat_alt FAT_MAGIC16_def)

declare scale_clusters.simps [simp del]

definition cap_clusters :: "u32 \<Rightarrow> u16" where
  "cap_clusters n = (if n > ucast FAT_MAGIC16 then FAT_MAGIC16 else ucast n)"

definition double_clusters :: "u16 \<Rightarrow> u16" where
  "double_clusters n = (if n < FAT_MAGIC16 div 2 then push_bit 1 n else FAT_MAGIC16)"

text \<open>
  The local part of \<^verbatim>\<open>DosGetFree\<close>: sectors per cluster, and \<^verbatim>\<open>navc\<close>, \<^verbatim>\<open>bps\<close>, \<^verbatim>\<open>nc\<close>; \<open>count\<close> tells
  whether \<^verbatim>\<open>navc\<close> is not null.
\<close>

definition free_fat32 :: "('c, 'd) outside \<Rightarrow> bool \<Rightarrow> nat \<Rightarrow> ('c, 'd) fsys
    \<Rightarrow> (u16 \<times> (u16 \<times> u16 \<times> u16) option \<times> ('c, 'd) fsys) option" where
  "free_fat32 ou count p s =
     (let d = dpbs (fio s) p in do {
        (nfree, e) \<leftarrow> (if count then dos_free (blk_drv ou) p (fio s) else Some (0, fio s));
        let (spc, ntotal, nfree1) = scale_clusters (push_bit (unat (dpb_shftcnt d)) (ucast (dpb_secsize d)))
              (ucast (dpb_clsmask d) + 1) (dpb_xsize d - 1) nfree;
        Some (spc, Some (cap_clusters nfree1, dpb_secsize d, cap_clusters ntotal), s\<lparr>fio := e\<rparr>)
      })"

definition free_fat16 :: "('c, 'd) outside \<Rightarrow> bool \<Rightarrow> nat \<Rightarrow> ('c, 'd) fsys
    \<Rightarrow> (u16 \<times> (u16 \<times> u16 \<times> u16) option \<times> ('c, 'd) fsys) option" where
  "free_fat16 ou count p s =
     (let d = dpbs (fio s) p; spc = ucast (dpb_clsmask d) + 1; nc = dpb_size d - 1 in do {
        (nfree, e) \<leftarrow> (if count then dos_free (blk_drv ou) p (fio s) else Some (0, fio s));
        let navc = ucast nfree;
        Some (if spc > 64
              then (drop_bit 1 spc, Some (double_clusters navc, dpb_secsize d, double_clusters nc), s\<lparr>fio := e\<rparr>)
              else (spc, Some (navc, dpb_secsize d, nc), s\<lparr>fio := e\<rparr>))
      })"

definition DosGetFree :: "('c, 'd) outside \<Rightarrow> u8 \<Rightarrow> bool \<Rightarrow> ('c, 'd) fsys
    \<Rightarrow> (u16 \<times> (u16 \<times> u16 \<times> u16) option \<times> ('c, 'd) fsys) option" where
  "DosGetFree ou drive count s =
     (case get_cds1 (unat drive) s of
        None \<Rightarrow> Some (0xffff, None, s)
      | Some i \<Rightarrow>
          (let c = cds_table (fio s) ! i; s1 = s\<lparr>current_ldt := Ldt i\<rparr>
           in if cdsFlags c AND CDSNETWDRV \<noteq> 0 then
                (case remote_space ou REM_GETSPACE (Ldt i) s1 of
                   (r, rg, s2) \<Rightarrow>
                     if r \<noteq> 0 then Some (0xffff, None, s2)
                     else Some (if count then rg ! 0 AND 0xff else rg ! 0, Some (rg ! 3, rg ! 2, rg ! 1), s2))
              else
                (case cdsDpb c of
                   None \<Rightarrow> Some (0xffff, None, s1)
                 | Some p \<Rightarrow> do {
                     s2 \<leftarrow> (if count then Some s1
                           else do {
                             (_, e) \<leftarrow> flush_buffers (blk_drv ou) (dpb_unit (dpbs (fio s1) p)) (fio s1);
                             Some (s1\<lparr>fio := upd_dpb p (\<lambda>d. d\<lparr>dpb_flags := M_CHANGED\<rparr>) e\<rparr>)
                           });
                     (ok, s3) \<leftarrow> drive_media ou (Some p) s2;
                     if \<not> ok then Some (0xffff, None, s3)
                     else if ISFAT32 (dpbs (fio s3) p) then free_fat32 ou count p s3 else free_fat16 ou count p s3
                   })))"

record xfreespace =
  xfs_clussize :: u32
  xfs_secsize :: u32
  xfs_freeclusters :: u32
  xfs_totalclusters :: u32
  xfs_freesectors :: u32
  xfs_totalsectors :: u32
  xfs_freeunits :: u32
  xfs_totalunits :: u32

text \<open>The answer of a redirector in 32 bit numbers, scaled to 24 bits.\<close>

function scale_down :: "u32 \<Rightarrow> u32 \<Rightarrow> u32 \<Rightarrow> u32 \<Rightarrow> u32 \<times> u32 \<times> u32" where
  "scale_down lim unit tot avail =
     (if tot > 0x00ffffff \<and> unit < lim then scale_down lim (unit * 2) (tot div 2) (avail div 2) else (unit, tot, avail))"
  by pat_completeness auto
termination
  by (relation "measure (\<lambda>(lim, unit, tot, avail). unat tot)") (auto simp: unat_div word_less_nat_alt)

declare scale_down.simps [simp del]

definition mk_free :: "u32 \<Rightarrow> u32 \<Rightarrow> u32 \<Rightarrow> u32 \<Rightarrow> xfreespace" where
  "mk_free spc bps avail tot =
     \<lparr>xfs_clussize = spc, xfs_secsize = bps, xfs_freeclusters = avail, xfs_totalclusters = tot,
      xfs_freesectors = avail * spc, xfs_totalsectors = tot * spc, xfs_freeunits = avail, xfs_totalunits = tot\<rparr>"

definition remote_ext_free :: "('c, 'd) outside \<Rightarrow> nat \<Rightarrow> ('c, 'd) fsys \<Rightarrow> (dos_error + xfreespace) \<times> ('c, 'd) fsys" where
  "remote_ext_free ou i s =
     (case remote_space ou REM_GETLARGESPACE (Ldt i) s of
        (r, rg, s1) \<Rightarrow>
          if r \<noteq> 0 then
            (case remote_space ou REM_GETSPACE (Ldt i) s1 of
               (r2, rg, s2) \<Rightarrow>
                 if r2 \<noteq> 0 then (Inl DE_INVLDDRV, s2)
                 else (Inr (mk_free (ucast (rg ! 0)) (ucast (rg ! 2)) (ucast (rg ! 3)) (ucast (rg ! 1))), s2))
          else
            (let (spc, tot, avail) = scale_down 128 1 (mk32 (rg ! 1) (rg ! 0)) (mk32 (rg ! 3) (rg ! 2));
                 (bps, tot1, avail1) = scale_down 32768 (ucast (rg ! 4)) tot avail
             in (Inr (mk_free spc bps avail1 tot1), s1)))"

definition DosGetExtFree :: "('c, 'd) outside \<Rightarrow> bytes \<Rightarrow> ('c, 'd) fsys
    \<Rightarrow> ((dos_error + xfreespace) \<times> ('c, 'd) fsys) option" where
  "DosGetExtFree ou DriveString s =
     (let c0 = char_at DriveString 0; c1 = char_at DriveString 1;
          (drv, s1) =
            (if c0 = 0 \<or> c0 = dot \<or> is_slash c0 \<and> \<not> is_slash c1 then (Some (unat (default_drive s)), s)
             else if c1 = colon then
               (case DosUpFChar (nls_mux ou) c0 (nls s) of (u, n) \<Rightarrow> (Some (unat (ucast u - 0x41 :: u16)), s\<lparr>nls := n\<rparr>))
             else (None, s))
      in case drv of
           None \<Rightarrow> Some (Inl DE_INVLDDRV, s1)
         | Some i \<Rightarrow>
             (case get_cds i (fio s1) of
                None \<Rightarrow> Some (Inl DE_INVLDDRV, s1)
              | Some c \<Rightarrow>
                  if cdsFlags c AND CDSNETWDRV \<noteq> 0 then Some (remote_ext_free ou i s1)
                  else
                    (case cdsDpb c of
                       None \<Rightarrow> Some (Inl DE_INVLDDRV, s1)
                     | Some p \<Rightarrow> do {
                         (ok, s2) \<leftarrow> drive_media ou (Some p) s1;
                         if \<not> ok then Some (Inl DE_INVLDDRV, s2)
                         else do {
                           let d = dpbs (fio s2) p;
                           (free, e) \<leftarrow> dos_free (blk_drv ou) p (fio s2);
                           Some (Inr (mk_free (ucast (dpb_clsmask d) + 1) (ucast (dpb_secsize d)) free (max_cluster d - 1)), s2\<lparr>fio := e\<rparr>)
                         }
                       })))"

section \<open>Character devices\<close>

text \<open>Compares a name with the eight characters of a device header; an extension does not count.\<close>

fun dev_match :: "mux \<Rightarrow> bytes \<Rightarrow> bytes \<Rightarrow> nls_info \<Rightarrow> bool \<times> nls_info" where
  "dev_match mx f [] n = (True, n)"
| "dev_match mx f (d # ds) n =
     (let c1 = char_at f 0
      in if c1 = dot \<or> c1 = 0 then (list_all (\<lambda>c2. c2 = blank \<or> c2 = 0) (d # ds), n)
         else
           (let (u1, n1) = DosUpFChar mx c1 n; (u2, n2) = DosUpFChar mx d n1
            in if u1 \<noteq> u2 then (False, n2) else dev_match mx (tl f) ds n2))"

fun find_device :: "mux \<Rightarrow> bytes \<Rightarrow> nat \<Rightarrow> dhdr list \<Rightarrow> nls_info \<Rightarrow> nat option \<times> nls_info" where
  "find_device mx f i [] n = (None, n)"
| "find_device mx f i (h # hs) n =
     (if dh_attr h AND ATTR_CHAR = 0 then find_device mx f (i + 1) hs n
      else
        (case dev_match mx f (take FNAME_SIZE (dh_name h)) n of
           (True, n1) \<Rightarrow> (Some i, n1)
         | (False, n1) \<Rightarrow> find_device mx f (i + 1) hs n1))"

definition IsDevice :: "('c, 'd) outside \<Rightarrow> bytes \<Rightarrow> ('c, 'd) fsys \<Rightarrow> nat option \<times> ('c, 'd) fsys" where
  "IsDevice ou fname s =
     (let froot = get_root fname
      in if froot = [] \<or> froot = [dot] \<or> froot = [dot, dot] then (None, s)
         else (case find_device (nls_mux ou) froot 0 (dhdrs s) (nls s) of (r, n) \<Rightarrow> (r, s\<lparr>nls := n\<rparr>)))"

definition pad_blanks :: "bytes \<Rightarrow> bytes" where
  "pad_blanks name = (let stem = rev (dropWhile (\<lambda>c. c = 0) (rev name)) in stem @ replicate (length name - length stem) blank)"

text \<open>A name of zeros only would be padded beyond its start.\<close>

definition DeviceOpenSft :: "('c, 'd) outside \<Rightarrow> nat \<Rightarrow> sft_ptr \<Rightarrow> ('c, 'd) fsys \<Rightarrow> (int \<times> ('c, 'd) fsys) option" where
  "DeviceOpenSft ou dhp q s =
     (let h = dhdrs s ! dhp; name = take FNAME_SIZE (dh_name h) @ drop FNAME_SIZE (sft_name (sft_at q s))
      in if list_all (\<lambda>c. c = 0) name then None
         else
           (let (name1, n) = DosUpFMem (nls_mux ou) (pad_blanks name) (of_nat (FNAME_SIZE + FEXT_SIZE)) (nls s);
                s1 = upd_sft q (\<lambda>t. t\<lparr>sft_shroff := 0xffff, sft_count := sft_count t + 1,
                       sft_flags := (dh_attr h AND NOT (SFT_MASK OR SFT_FSHARED)) OR SFT_FDEVICE OR SFT_FEOF,
                       sft_name := name1, sft_dcb := Dev dhp, sft_date := snd (stamp s), sft_time := fst (stamp s),
                       sft_attrib := D_DEVICE\<rparr>) (s\<lparr>nls := n\<rparr>)
            in if dh_attr h AND SFT_FOCRM \<noteq> 0
               then (case device_request ou dhp C_OPEN s1 of (failed, s2) \<Rightarrow> Some (if failed then errno DE_ACCESS else 0, s2))
               else Some (0, s1)))"

end
