(* ===== verification/Dos_Truename.thy ===== *)
theory Dos_Truename
  imports Dos_Handles
begin

text \<open>
  \<^verbatim>\<open>truename\<close> of \<^verbatim>\<open>kernel/newstuff.c\<close>: the full name of a path. The result is an error or the word with the
  drive number and the bits \<^verbatim>\<open>IS_DEVICE\<close> and \<^verbatim>\<open>IS_NETWORK\<close>, and the name without its terminating zero
  (the empty list with an error). The outer \<open>None\<close> is a write beyond \<^verbatim>\<open>TempCDS\<close>, or a disk operation that is \<open>None\<close>.
\<close>

definition IS_DEVICE :: u16 where "IS_DEVICE = 0x20"
definition IS_NETWORK :: u16 where "IS_NETWORK = 0x40"
definition CDS_MODE_SKIP_PHYSICAL :: u16 where "CDS_MODE_SKIP_PHYSICAL = 1"
definition CDS_MODE_CHECK_DEV_PATH :: u16 where "CDS_MODE_CHECK_DEV_PATH = 2"
definition CDS_MODE_ALLOW_WILDCARDS :: u16 where "CDS_MODE_ALLOW_WILDCARDS = 4"
definition CDSSUBST :: u16 where "CDSSUBST = 0x1000"

text \<open>The text before the first zero.\<close>

definition c_string :: "bytes \<Rightarrow> bytes" where
  "c_string b = takeWhile (\<lambda>c. c \<noteq> 0) b"

definition letter :: "u16 \<Rightarrow> u8" where
  "letter n = ucast n + 0x41"

section \<open>Devices\<close>

text \<open>The name of a device on a drive that is not valid: alone or behind \<^verbatim>\<open>\DEV\\<close>.\<close>

definition device_alone :: "bytes \<Rightarrow> bytes option" where
  "device_alone src =
     (let s = (if char_at src 1 = colon then drop 2 src else src)
      in if \<not> list_ex is_slash s then Some s
         else if \<not> is_slash (char_at s 0) then None
         else if [char_at s 1 AND 0xdf, char_at s 2 AND 0xdf, char_at s 3 AND 0xdf,
                  if char_at s 4 = backslash then slash else char_at s 4] = [0x44, 0x45, 0x56, slash]
         then Some (drop 5 s) else None)"

text \<open>
  Whether the name (without drive) is a device name alone or behind \<^verbatim>\<open>\DEV\\<close>; it is then written behind a slash.
\<close>

definition device_form :: "('c, 'd) outside \<Rightarrow> bytes \<Rightarrow> ('c, 'd) fsys \<Rightarrow> bool \<times> ('c, 'd) fsys" where
  "device_form ou src s =
     (let k = length src - length (get_root src)
      in if k = 0 then (True, s)
         else if k = 5 then
           (let (t, n) = DosUpMem (nls_mux ou) (take 5 src) 5 (nls s);
                flip = (\<lambda>c. if c = slash then backslash else c);
                t1 = t[0 := flip (t ! 0), 4 := flip (t ! 4)]
            in (t1 = [backslash, 0x44, 0x45, 0x56, backslash], s\<lparr>nls := n\<rparr>))
         else (False, s))"

definition blank_cds :: cds where
  "blank_cds = \<lparr>cdsCurrentPath = replicate MAX_CDSPATH 0, cdsFlags = 0, cdsDpb = None, cdsStrtClst = 0, cdsBackslashOffset = 0\<rparr>"

text \<open>\<^verbatim>\<open>TempCDS\<close> and the drive number; the drive is \<open>P:\<close> for a device on a drive that is not valid.\<close>

definition pick_cds :: "nat option \<Rightarrow> bytes \<Rightarrow> u16 \<Rightarrow> ('c, 'd) fsys \<Rightarrow> (dos_error + u16 \<times> nat option \<times> cds) option" where
  "pick_cds dhp src drv s =
     (case (get_cds (unat drv) (fio s), dhp) of
        (Some c, _) \<Rightarrow> Some (Inr (drv, Some (unat drv), c))
      | (None, None) \<Rightarrow> Some (Inl DE_PATHNOTFND)
      | (None, Some _) \<Rightarrow>
          (case device_alone src of
             None \<Rightarrow> Some (Inl DE_PATHNOTFND)
           | Some name \<Rightarrow>
               if length name \<ge> MAX_CDSPATH then None
               else Some (Inr (15, None, blank_cds\<lparr>cdsCurrentPath := name @ replicate (MAX_CDSPATH - length name) 0\<rparr>))))"

section \<open>The directory\<close>

text \<open>Checks the current directory of a local drive; back to the root when it is gone. \<open>None\<close> is a bad medium.\<close>

definition current_dir :: "('c, 'd) outside \<Rightarrow> nat option \<Rightarrow> cds \<Rightarrow> ('c, 'd) fsys \<Rightarrow> (bytes option \<times> ('c, 'd) fsys) option" where
  "current_dir ou ci c s =
     (let cp = (cdsCurrentPath c)[MAX_CDSPATH - 1 := 0]; off = unat (cdsBackslashOffset c)
      in case ci of
           None \<Rightarrow> Some (Some (c_string cp), s)
         | Some i \<Rightarrow>
             if cdsFlags c AND CDSNETWDRV \<noteq> 0 then Some (Some (c_string cp), s)
             else do {
               (ok, s1) \<leftarrow> drive_media ou (cdsDpb c) s;
               if \<not> ok then Some (None, s1)
               else do {
                 (r, s2) \<leftarrow> on_node (dos_cd (blk_drv ou) (c_string cp)) s1;
                 if r = Inr () then Some (Some (c_string cp), s2)
                 else
                   (let cp1 = cp[off + 1 := 0];
                        s3 = s2\<lparr>fio := upd_cds i (\<lambda>x. x\<lparr>cdsCurrentPath := (cdsCurrentPath x)[off + 1 := 0]\<rparr>) (fio s2)\<rparr>
                    in do {
                      (_, s4) \<leftarrow> on_node (dos_cd (blk_drv ou) (c_string cp1)) s3;
                      Some (Some (c_string cp1), s4)
                    })
               }
             })"

text \<open>
  The text to append to, the place of the root, the rest of the name and the result: \<open>cp\<close> is the current
  directory and \<open>off\<close> the length of its hidden part.
\<close>

definition start_text :: "u16 \<Rightarrow> cds \<Rightarrow> bytes \<Rightarrow> bytes \<Rightarrow> u16 \<Rightarrow> nat \<Rightarrow> bytes \<times> nat \<times> bytes \<times> u16" where
  "start_text mode c cp src result drives =
     (let off = unat (cdsBackslashOffset c);
          skip = mode AND CDS_MODE_SKIP_PHYSICAL \<noteq> 0;
          i = cp ! 0 - 0x41;
          result1 = (if \<not> skip \<and> cdsFlags c AND CDSSUBST \<noteq> 0 \<and> char_at cp 1 = colon \<and> unat i < drives
                     then (result AND 0xffe0) OR ucast i else result);
          root = (if skip then 2 else off);
          text = (if skip then [letter (result AND 0x1f), colon] @ drop off cp else cp);
          text1 = take root text @ [backslash] @ drop (root + 1) text;
          (out, src1) = (if src \<noteq> [] \<and> is_slash (hd src) then (take root text1, tl src) else (text1, src));
          out1 = (if char_at out (length out - 1) = backslash then butlast out else out)
      in (out1, root, src1, result1))"

section \<open>Joined drives\<close>

fun find_join :: "bytes \<Rightarrow> nat \<Rightarrow> cds list \<Rightarrow> (nat \<times> nat) option" where
  "find_join dest i [] = None"
| "find_join dest i (c # cs) =
     (let path = c_string (cdsCurrentPath c); j = length path
      in if cdsFlags c AND CDSJOINED \<noteq> 0 \<and> (char_at dest j = backslash \<or> char_at dest j = 0) \<and> take j dest = path
         then Some (i, j) else find_join dest (i + 1) cs)"

definition join_name :: "bytes \<Rightarrow> nat \<Rightarrow> nat \<Rightarrow> bytes" where
  "join_name dest i j =
     [letter (of_nat i), colon]
       @ (if char_at dest j = 0 then [backslash] else if j \<noteq> 2 then drop j dest else drop 2 dest)"

section \<open>The function\<close>

text \<open>Steps after the name is complete: joined drives, the path of a device, the result of \<^verbatim>\<open>DosTruename\<close>.\<close>

definition truename_end :: "('c, 'd) outside \<Rightarrow> u16 \<Rightarrow> u16 \<Rightarrow> bytes \<Rightarrow> ('c, 'd) fsys
    \<Rightarrow> ((dos_error + u16) \<times> bytes \<times> ('c, 'd) fsys) option" where
  "truename_end ou mode result dest s =
     (let local_path = char_at dest 2 \<noteq> slash; device = result AND (IS_DEVICE OR IS_NETWORK) = IS_DEVICE
      in case (if local_path \<and> mode AND CDS_MODE_SKIP_PHYSICAL = 0 \<and> njoined s \<noteq> 0
               then find_join dest 0 (cds_table (fio s)) else None) of
           Some (i, j) \<Rightarrow>
             (let r1 = ((result AND 0xffe0) OR of_nat i) AND NOT IS_NETWORK;
                  r2 = (if cdsFlags (cds_table (fio s) ! i) AND CDSNETWDRV \<noteq> 0 then r1 OR IS_NETWORK else r1)
              in Some (Inr r2, join_name dest i j, s\<lparr>current_ldt := Ldt i\<rparr>))
         | None \<Rightarrow> do {
             (ok, s1) \<leftarrow> (if mode AND CDS_MODE_CHECK_DEV_PATH \<noteq> 0 \<and> device \<and> local_path
                         then on_node (dir_exists (blk_drv ou) dest) s else Some (True, s));
             if \<not> ok then Some (Inl DE_PATHNOTFND, [], s1)
             else Some (Inr (if mode = CDS_MODE_ALLOW_WILDCARDS then (if os_major s1 = 6 \<and> device then 0x3a00 else 0) else result),
                        dest, s1)
           })"

definition append_name :: "('c, 'd) outside \<Rightarrow> u16 \<Rightarrow> u8 \<Rightarrow> nat \<Rightarrow> bytes \<Rightarrow> bytes \<Rightarrow> ('c, 'd) fsys
    \<Rightarrow> (dos_error + bytes) \<times> ('c, 'd) fsys" where
  "append_name ou mode sep root src out s =
     (case segments sep root False src out of
        Inl e \<Rightarrow> (Inl e, s)
      | Inr (wild, out1) \<Rightarrow>
          if wild \<and> mode AND CDS_MODE_ALLOW_WILDCARDS = 0 then (Inl DE_PATHNOTFND, s)
          else
            (let out2 = (if length out1 = 2 then out1 @ [backslash] else out1);
                 (up, n) = DosUpFString (nls_mux ou) (drop root out2) (nls s)
             in (Inr (take root out2 @ up), s\<lparr>nls := n\<rparr>)))"

text \<open>The local mapping, once the redirector has declined.\<close>

definition truename_local :: "('c, 'd) outside \<Rightarrow> bytes \<Rightarrow> u16 \<Rightarrow> u16 \<Rightarrow> ('c, 'd) fsys
    \<Rightarrow> ((dos_error + u16) \<times> bytes \<times> ('c, 'd) fsys) option" where
  "truename_local ou src drv mode s =
     (let (dhp, s1) = IsDevice ou src s in do {
        picked \<leftarrow> pick_cds dhp src drv s1;
        case picked of
          Inl e \<Rightarrow> Some (Inl e, [], s1)
        | Inr (result, ci, c) \<Rightarrow>
            (let s2 = s1\<lparr>current_ldt := (case ci of None \<Rightarrow> LdtFFFF | Some i \<Rightarrow> Ldt i)\<rparr>;
                 r1 = (if cdsFlags c AND CDSNETWDRV \<noteq> 0 then result OR IS_NETWORK else result);
                 r2 = (if dhp \<noteq> None then r1 OR IS_DEVICE else r1);
                 path = (if char_at src 1 = colon then drop 2 src else src);
                 (form, s3) = (if r2 AND IS_DEVICE \<noteq> 0 then device_form ou path s2 else (False, s2))
             in if form then
                  (case append_name ou mode slash 2 (get_root path) [letter (r2 AND 0x1f), colon] s3 of
                     (Inl e, s4) \<Rightarrow> Some (Inl e, [], s4)
                   | (Inr dest, s4) \<Rightarrow> truename_end ou mode (r2 AND NOT IS_NETWORK) dest s4)
                else do {
                  (cp, s4) \<leftarrow> current_dir ou ci c s3;
                  case cp of
                    None \<Rightarrow> Some (Inl DE_PATHNOTFND, [], s4)
                  | Some cp \<Rightarrow>
                      (case start_text mode c cp path r2 (length (cds_table (fio s4))) of
                         (out, root, src1, r3) \<Rightarrow>
                           (case append_name ou mode backslash root src1 out s4 of
                              (Inl e, s5) \<Rightarrow> Some (Inl e, [], s5)
                            | (Inr dest, s5) \<Rightarrow> truename_end ou mode r3 dest s5))
                })
      })"

definition truename :: "('c, 'd) outside \<Rightarrow> bytes \<Rightarrow> u16 \<Rightarrow> ('c, 'd) fsys
    \<Rightarrow> ((dos_error + u16) \<times> bytes \<times> ('c, 'd) fsys) option" where
  "truename ou src mode s =
     (if src = [] then Some (Inl DE_FILENOTFND, [], s)
      else
        (let (drv, s1) =
              (if char_at src 1 = colon
               then (case DosUpFChar (nls_mux ou) (hd src) (nls s) of (u, n) \<Rightarrow> (ucast (u - 0x41) :: u16, s\<lparr>nls := n\<rparr>))
               else (ucast (default_drive s), s))
         in if hd src = backslash \<and> char_at src 1 = backslash then
              (if length src \<ge> SFTMAX then Some (Inl (PATH_ERROR src), [], s1)
               else Some (Inr IS_NETWORK, src, s1\<lparr>current_ldt := LdtFFFF\<rparr>))
            else
              (let (rc, dest, s2) = (if mode AND CDS_MODE_SKIP_PHYSICAL = 0 then qualify ou src s1 else (1, [], s1))
               in if rc = 0 \<and> dest \<noteq> []
                  then Some (Inr (if char_at dest 2 = slash \<and> drv AND IS_DEVICE \<noteq> 0 then drv AND NOT IS_NETWORK
                                  else drv OR IS_NETWORK), dest, s2)
                  else truename_local ou src drv mode s2)))"

end
