(* ===== verification/Dos_Names.thy ===== *)
theory Dos_Names
  imports Dos_Truename
begin

text \<open>
  The functions of \<^verbatim>\<open>kernel/dosfns.c\<close> and \<^verbatim>\<open>kernel/newstuff.c\<close> that take a path: opening, searching, deleting,
  renaming, attributes, directories and temporary files. Each finds the full name with \<^verbatim>\<open>truename\<close> and sends the
  request to the redirector, a device or the local file system. \<^verbatim>\<open>sda_tmp_dm\<close> is the match structure of \<open>fnode0\<close>.
\<close>

definition O_VALIDMASK :: u16 where "O_VALIDMASK = 0xfff3"
definition O_LEGACY :: u16 where "O_LEGACY = 0x0800"
definition O_RDWR :: u16 where "O_RDWR = 0x0002"
definition REM_RMDIR :: u16 where "REM_RMDIR = 0x1101"
definition REM_MKDIR :: u16 where "REM_MKDIR = 0x1103"
definition REM_CHDIR :: u16 where "REM_CHDIR = 0x1105"
definition REM_SETATTR :: u16 where "REM_SETATTR = 0x110e"
definition REM_GETATTRZ :: u16 where "REM_GETATTRZ = 0x110f"
definition REM_RENAME :: u16 where "REM_RENAME = 0x1111"
definition REM_DELETE :: u16 where "REM_DELETE = 0x1113"
definition REM_OPEN :: u16 where "REM_OPEN = 0x1116"
definition REM_CREATE :: u16 where "REM_CREATE = 0x1117"
definition REM_FINDFIRST :: u16 where "REM_FINDFIRST = 0x111b"
definition REM_FINDNEXT :: u16 where "REM_FINDNEXT = 0x111c"
definition REM_EXTOC :: u16 where "REM_EXTOC = 0x112e"

definition ConvertPathNameToFCBName :: "bytes \<Rightarrow> bytes" where
  "ConvertPathNameToFCBName path = fst (ConvertNameSZToName83 (get_root path))"

definition set_fcbname :: "('c, 'd) fsys \<Rightarrow> ('c, 'd) fsys" where
  "set_fcbname s = s\<lparr>fcb_name := ConvertPathNameToFCBName (PriPathName s)\<rparr>"

text \<open>The full name goes to \<^verbatim>\<open>PriPathName\<close>; after an error nothing reads the buffer.\<close>

definition primary_name :: "('c, 'd) outside \<Rightarrow> bytes \<Rightarrow> u16 \<Rightarrow> ('c, 'd) fsys \<Rightarrow> ((dos_error + u16) \<times> ('c, 'd) fsys) option" where
  "primary_name ou name mode s = do {
     (r, dest, s1) \<leftarrow> truename ou name mode s;
     Some (r, case r of Inl _ \<Rightarrow> s1 | Inr _ \<Rightarrow> set_fcbname (s1\<lparr>PriPathName := dest\<rparr>))
   }"

definition result_int :: "dos_error + 'a \<Rightarrow> int" where
  "result_int r = (case r of Inl e \<Rightarrow> errno e | Inr _ \<Rightarrow> 0)"

section \<open>Opening\<close>

definition blank_sft :: sft where
  "blank_sft = \<lparr>sft_count = 0, sft_mode = 0, sft_attrib = 0, sft_flags = 0, sft_dcb = Dcb 0, sft_relclust_high = 0,
     sft_time = 0, sft_date = 0, sft_size = 0, sft_posit = 0, sft_relclust = 0, sft_dirsector = 0, sft_diridx = 0,
     sft_name = replicate 11 0, sft_stclust = 0, sft_mach = 0, sft_psp = 0, sft_shroff = 0, sft_cuclust = 0\<rparr>"

definition open_remote :: "('c, 'd) outside \<Rightarrow> u16 \<Rightarrow> u16 \<Rightarrow> nat \<Rightarrow> sft_ptr \<Rightarrow> ('c, 'd) fsys \<Rightarrow> int \<times> ('c, 'd) fsys" where
  "open_remote ou flags attrib idx q s =
     (let attrib1 = (if flags AND (O_TRUNC OR O_CREAT) = O_CREAT then attrib OR 0x100 else attrib);
          s1 = s\<lparr>lpCurSft := Some q\<rparr>;
          (cmd, attrib2, s2) =
            (if flags AND O_LEGACY = 0 then
               (REM_EXTOC, attrib1,
                s1\<lparr>ext_open := (flags AND 0x70ff, attrib1 AND 0xff, drop_bit 8 (flags AND 0x0300) OR drop_bit 6 (flags AND O_CREAT))\<rparr>)
             else if flags AND O_CREAT = 0 then (REM_OPEN, scast (ucast flags :: u8), s1)
             else (REM_CREATE, attrib1, s1));
          (status, s3) = redirector ou cmd (EntryAttr q attrib2) s2
      in if status \<ge> 0 then
           (int idx + status * 65536, if sft_count (sft_at q s3) = 0 then add_ref q s3 else s3)
         else (status, s3))"

definition open_local :: "('c, 'd) outside \<Rightarrow> u16 \<Rightarrow> u16 \<Rightarrow> nat \<Rightarrow> sft_ptr \<Rightarrow> ('c, 'd) fsys \<Rightarrow> (int \<times> ('c, 'd) fsys) option" where
  "open_local ou flags attrib idx q s =
     (if flags AND O_ACCMODE > 2 then Some (errno DE_INVLDACC, s)
      else if flags AND O_FCB = 0 \<and> attrib AND NOT (ucast (D_RDONLY OR D_HIDDEN OR D_SYSTEM OR D_ARCHIVE OR D_VOLID)) \<noteq> 0
      then Some (errno DE_ACCESS, s)
      else
        (let (inst, s1) = IsShareInstalled True s; path = PriPathName s1 in do {
           (fileno, s2) \<leftarrow>
             (if inst then do {
                (f, sh) \<leftarrow> open_check path (cu_psp s1) (flags AND 3) (drop_bit 4 flags AND 7) (shr s1);
                Some (f, upd_sft q (\<lambda>t. t\<lparr>sft_shroff := of_int f\<rparr>) (s1\<lparr>shr := sh\<rparr>))
              }
              else Some (0, s1));
           if inst \<and> fileno < 0 then Some (fileno, s2)
           else do {
             let s3 = upd_sft q (\<lambda>t. t\<lparr>sft_count := sft_count t + 1, sft_flags := scast (hd path) - 0x41\<rparr>) s2;
             (result, s4) \<leftarrow> dos_open ou path flags attrib idx s3;
             if result < 0 then do {
               s5 \<leftarrow> (if sint (sft_shroff (sft_at q s4)) \<ge> 0 then
                       map_option (\<lambda>sh. upd_sft q (\<lambda>t. t\<lparr>sft_shroff := 0xffff\<rparr>) (s4\<lparr>shr := sh\<rparr>))
                         (close_file (sft_shroff (sft_at q s4)) (shr s4))
                     else Some s4);
               Some (result, drop_count q s5)
             }
             else Some (int idx + result * 65536, s4)
           }
         }))"

definition DosOpenSft :: "('c, 'd) outside \<Rightarrow> bytes \<Rightarrow> u16 \<Rightarrow> u16 \<Rightarrow> ('c, 'd) fsys \<Rightarrow> (int \<times> ('c, 'd) fsys) option" where
  "DosOpenSft ou fname flags attrib s = do {
     (r, s1) \<leftarrow> primary_name ou fname CDS_MODE_CHECK_DEV_PATH s;
     case r of
       Inl e \<Rightarrow> Some (errno e, s1)
     | Inr result \<Rightarrow>
         (case get_free_sft s1 of
            (None, s2) \<Rightarrow> Some (errno DE_TOOMANY, s2)
          | (Some (idx, q), s2) \<Rightarrow>
              (let attrib1 = attrib OR ucast D_ARCHIVE;
                   s3 = upd_sft q (\<lambda>_. blank_sft\<lparr>sft_psp := cu_psp s2, sft_mode := flags AND 0xf0ff, sft_shroff := 0xffff,
                          sft_attrib := ucast attrib1\<rparr>) (s2\<lparr>OpenMode := ucast flags\<rparr>);
                   (dhp, s4) = (if result AND IS_DEVICE \<noteq> 0 \<and> result AND IS_NETWORK = 0 then IsDevice ou fname s3 else (None, s3))
               in case dhp of
                    Some k \<Rightarrow> do {
                      (rc, s5) \<leftarrow> DeviceOpenSft ou k q s4;
                      Some (if rc < 0 then rc else int idx, s5)
                    }
                  | None \<Rightarrow>
                      if result AND IS_NETWORK \<noteq> 0 then Some (open_remote ou flags attrib1 idx q s4)
                      else open_local ou flags attrib1 idx q s4))
   }"

definition DosOpen :: "('c, 'd) outside \<Rightarrow> bytes \<Rightarrow> u16 \<Rightarrow> u16 \<Rightarrow> ('c, 'd) fsys \<Rightarrow> (int \<times> ('c, 'd) fsys) option" where
  "DosOpen ou fname mode attrib s =
     (if mode AND NOT O_VALIDMASK \<noteq> 0 then Some (errno DE_INVLDACC, s)
      else
        (let hndl = get_free_hndl s
         in if hndl < 0 then Some (hndl, s)
            else do {
              (result, s1) \<leftarrow> DosOpenSft ou fname mode attrib s;
              if result < 0 then Some (result, s1)
              else Some (hndl + (result div 65536) * 65536, set_filetab (of_int hndl) (of_int result) s1)
            }))"

section \<open>Directories\<close>

definition DosGetCuDir :: "('c, 'd) outside \<Rightarrow> u8 \<Rightarrow> ('c, 'd) fsys \<Rightarrow> (int \<times> bytes option \<times> ('c, 'd) fsys) option" where
  "DosGetCuDir ou drive s =
     (let d = (if drive = 0 then default_drive s else drive - 1) in do {
        (r, dest, s1) \<leftarrow> truename ou [0x41 + (d AND 0x1f), colon] CDS_MODE_SKIP_PHYSICAL s;
        Some (case r of
                Inl _ \<Rightarrow> (errno DE_INVLDDRV, None, s1)
              | Inr _ \<Rightarrow> (0, Some (drop 3 dest), s1\<lparr>PriPathName := dest\<rparr>))
      })"

text \<open>Stores the path in the drive table, with a second zero for a path of seven characters.\<close>

definition store_path :: "bytes \<Rightarrow> cds \<Rightarrow> cds" where
  "store_path path c =
     (let p = fmemcpy (cdsCurrentPath c) (path @ [0]) (length path + 1)
      in c\<lparr>cdsCurrentPath := (if char_at path 7 = 0 then p[8 := 0] else p)\<rparr>)"

definition DosChangeDir :: "('c, 'd) outside \<Rightarrow> bytes \<Rightarrow> ('c, 'd) fsys \<Rightarrow> (int \<times> ('c, 'd) fsys) option" where
  "DosChangeDir ou name s = do {
     (r, s1) \<leftarrow> primary_name ou name CDS_MODE_CHECK_DEV_PATH s;
     case r of
       Inl _ \<Rightarrow> Some (errno DE_PATHNOTFND, s1)
     | Inr result \<Rightarrow>
         if current_ldt s1 \<noteq> LdtFFFF \<and> length (PriPathName s1) \<ge> MAX_CDSPATH then Some (errno DE_PATHNOTFND, s1)
         else do {
           (rc, s2) \<leftarrow>
             (if result AND IS_NETWORK \<noteq> 0 then Some (redirector ou REM_CHDIR NoArg s1)
              else map_option (\<lambda>(r, s2). (result_int r, s2)) (on_node (dos_cd (blk_drv ou) (PriPathName s1)) s1));
           if rc < 0 then Some (rc, s2)
           else
             (case current_ldt s2 of
                LdtFFFF \<Rightarrow> Some (0, s2)
              | NoLdt \<Rightarrow> None
              | Ldt i \<Rightarrow> Some (0, s2\<lparr>fio := upd_cds i (store_path (PriPathName s2)) (fio s2)\<rparr>))
         }
   }"

definition DosMkRmdir :: "('c, 'd) outside \<Rightarrow> bytes \<Rightarrow> u8 \<Rightarrow> ('c, 'd) fsys \<Rightarrow> (int \<times> ('c, 'd) fsys) option" where
  "DosMkRmdir ou dir action s = do {
     (r, s1) \<leftarrow> primary_name ou dir CDS_MODE_CHECK_DEV_PATH s;
     case r of
       Inl e \<Rightarrow> Some (errno e, s1)
     | Inr result \<Rightarrow>
         if result AND IS_NETWORK \<noteq> 0 then Some (redirector ou (if action = 0x39 then REM_MKDIR else REM_RMDIR) NoArg s1)
         else if result AND IS_DEVICE \<noteq> 0 then Some (errno DE_ACCESS, s1)
         else do {
           (r2, s2) \<leftarrow> on_node (if action = 0x39 then dos_mkdir (blk_drv ou) (stamp s1) (PriPathName s1)
                                else dos_rmdir (blk_drv ou) (PriPathName s1)) s1;
           Some (result_int r2, s2)
         }
   }"

section \<open>Searching\<close>

record find_data =
  fd_match :: dmatch
  dm_attr_fnd :: u8
  dm_time :: u16
  dm_date :: u16
  dm_size :: u32
  dm_name :: bytes

definition blank_dirent :: dirent where
  "blank_dirent = \<lparr>dir_name = replicate 11 0, dir_attrib = 0, dir_case = 0, dir_crtimems = 0, dir_crtime = 0, dir_crdate = 0,
     dir_accdate = 0, dir_start_high = 0, dir_time = 0, dir_date = 0, dir_start = 0, dir_size = 0\<rparr>"

definition blank_dmatch :: dmatch where
  "blank_dmatch = \<lparr>dm_drive = 0, dm_name_pat = replicate 11 0, dm_attr_srch = 0, dm_entry = 0, dm_dircluster = 0\<rparr>"

text \<open>What a successful search stores for the caller.\<close>

definition pop_dmp :: "int \<Rightarrow> ('c, 'd) fsys \<Rightarrow> int \<times> find_data option \<times> ('c, 'd) fsys" where
  "pop_dmp rc s =
     (rc, if rc = 0 then Some \<lparr>fd_match = f_dmp (fnode0 s), dm_attr_fnd = dir_attrib (SearchDir s), dm_time = dir_time (SearchDir s),
            dm_date = dir_date (SearchDir s), dm_size = dir_size (SearchDir s), dm_name = ConvertName83ToNameSZ (dir_name (SearchDir s))\<rparr>
          else None, s)"

definition set_dmp :: "dmatch \<Rightarrow> ('c, 'd) fsys \<Rightarrow> ('c, 'd) fsys" where
  "set_dmp d = upd_node (\<lambda>f. f\<lparr>f_dmp := d\<rparr>)"

definition drive_internal :: "('c, 'd) fsys \<Rightarrow> nat \<Rightarrow> bool" where
  "drive_internal s drive = (case get_dpb drive (fio s) of None \<Rightarrow> False | Some p \<Rightarrow> internal_dpb s p)"

definition keep_found ::
  "((dos_error + dirent) \<times> media_request \<times> f_node \<times> 'd io) \<Rightarrow> ('c, 'd) fsys \<Rightarrow> int \<times> ('c, 'd) fsys" where
  "keep_found x s =
     (case x of (r, rq, fnp, e) \<Rightarrow>
       (let s1 = s\<lparr>media_rq := rq, fnode0 := fnp, fio := e\<rparr>
        in (result_int r, case r of Inl _ \<Rightarrow> s1 | Inr de \<Rightarrow> s1\<lparr>SearchDir := de\<rparr>)))"

definition device_entry :: "('c, 'd) fsys \<Rightarrow> dirent" where
  "device_entry s =
     (let stem = takeWhile (\<lambda>c. c \<noteq> dot) (take FNAME_SIZE (get_root (PriPathName s)))
      in blank_dirent\<lparr>dir_attrib := D_DEVICE, dir_time := fst (stamp s), dir_date := snd (stamp s),
           dir_name := stem @ replicate (11 - length stem) blank\<rparr>)"

definition DosFindFirst :: "('c, 'd) outside \<Rightarrow> u16 \<Rightarrow> bytes \<Rightarrow> ('c, 'd) fsys \<Rightarrow> (int \<times> find_data option \<times> ('c, 'd) fsys) option" where
  "DosFindFirst ou attr name s = do {
     (r, s1) \<leftarrow> primary_name ou name (CDS_MODE_CHECK_DEV_PATH OR CDS_MODE_ALLOW_WILDCARDS) s;
     case r of
       Inl e \<Rightarrow> Some (errno e, None, s1)
     | Inr result \<Rightarrow>
         (let s2 = set_dmp blank_dmatch (s1\<lparr>SAttr := ucast attr, SearchDir := blank_dirent\<rparr>) in
          if result AND IS_NETWORK \<noteq> 0 then
            (case redirector ou REM_FINDFIRST (Drive (current_ldt s2)) s2 of (rc, s3) \<Rightarrow> Some (pop_dmp rc s3))
          else if result AND IS_DEVICE \<noteq> 0 \<and> attr AND ucast D_VOLID = 0 then
            Some (pop_dmp 0 (set_dmp (blank_dmatch\<lparr>dm_entry := 0xffff\<rparr>) (s2\<lparr>SearchDir := device_entry s2\<rparr>)))
          else do {
            x \<leftarrow> dos_findfirst (media_drv ou) (blk_drv ou) (drive_internal s2 (path_drive (PriPathName s2))) (media_rq s2)
                   attr (PriPathName s2) (fnode0 s2) (fio s2);
            (case keep_found x s2 of (rc, s3) \<Rightarrow> Some (pop_dmp rc s3))
          })
   }"

definition DosFindNext :: "('c, 'd) outside \<Rightarrow> dmatch \<Rightarrow> ('c, 'd) fsys \<Rightarrow> (int \<times> find_data option \<times> ('c, 'd) fsys) option" where
  "DosFindNext ou dmp s =
     (let s1 = set_dmp dmp s
      in if dm_attr_srch dmp AND NOT (D_RDONLY OR D_ARCHIVE OR D_DEVICE) = D_VOLID
            \<or> dm_drive dmp AND 0x80 = 0 \<and> dm_entry dmp = 0xffff
         then Some (errno DE_NFILES, None, s1)
         else
           (let s2 = s1\<lparr>SearchDir := blank_dirent\<rparr> in
            if dm_drive dmp AND 0x80 \<noteq> 0 then
              (case redirector ou REM_FINDNEXT NoArg s2 of (rc, s3) \<Rightarrow> Some (pop_dmp rc s3))
            else do {
              x \<leftarrow> dos_findnext (media_drv ou) (blk_drv ou) (drive_internal s2 (unat (dm_drive dmp))) (media_rq s2) (fnode0 s2) (fio s2);
              (case keep_found x s2 of (rc, s3) \<Rightarrow> Some (pop_dmp rc s3))
            }))"

section \<open>Attributes, deleting, renaming\<close>

definition DosGetFattr :: "('c, 'd) outside \<Rightarrow> bytes \<Rightarrow> ('c, 'd) fsys \<Rightarrow> (int \<times> ('c, 'd) fsys) option" where
  "DosGetFattr ou name s = do {
     (r, dest, s0) \<leftarrow> truename ou name CDS_MODE_CHECK_DEV_PATH s;
     case r of
       Inl e \<Rightarrow> Some (errno e, s0)
     | Inr result \<Rightarrow>
         (let s1 = s0\<lparr>PriPathName := dest\<rparr>
          in if char_at dest 3 = 0 then Some (0x10, s1)
             else
               (let s2 = set_fcbname s1
                in if result AND IS_NETWORK \<noteq> 0 then Some (redirector ou REM_GETATTRZ NoArg s2)
                   else if result AND IS_DEVICE \<noteq> 0 then Some (errno DE_FILENOTFND, s2)
                   else do {
                     (r2, s3) \<leftarrow> on_node (dos_getfattr (blk_drv ou) dest) s2;
                     Some (case r2 of Inl e \<Rightarrow> errno e | Inr a \<Rightarrow> int (unat a), s3)
                   }))
   }"

definition DosSetFattr :: "('c, 'd) outside \<Rightarrow> bytes \<Rightarrow> u16 \<Rightarrow> ('c, 'd) fsys \<Rightarrow> (int \<times> ('c, 'd) fsys) option" where
  "DosSetFattr ou name attrp s = do {
     (r, s1) \<leftarrow> primary_name ou name CDS_MODE_CHECK_DEV_PATH s;
     case r of
       Inl e \<Rightarrow> Some (errno e, s1)
     | Inr result \<Rightarrow>
         if result AND IS_NETWORK \<noteq> 0 then Some (redirector ou REM_SETATTR (Attr attrp) s1)
         else if result AND IS_DEVICE \<noteq> 0 then Some (errno DE_FILENOTFND, s1)
         else
           (let (inst, s2) = IsShareInstalled True s1; path = PriPathName s2 in
            if \<not> inst then dos_setfattr ou path attrp s2
            else do {
              (f, sh) \<leftarrow> open_check path (cu_psp s2) O_RDWR 0 (shr s2);
              if f < 0 then Some (f, s2\<lparr>shr := sh\<rparr>)
              else do {
                sh1 \<leftarrow> close_file (of_int f) sh;
                dos_setfattr ou path attrp (s2\<lparr>shr := sh1\<rparr>)
              }
            })
   }"

definition DosDelete :: "('c, 'd) outside \<Rightarrow> bytes \<Rightarrow> u8 \<Rightarrow> ('c, 'd) fsys \<Rightarrow> (int \<times> ('c, 'd) fsys) option" where
  "DosDelete ou path attrib s = do {
     (r, s1) \<leftarrow> primary_name ou path CDS_MODE_CHECK_DEV_PATH s;
     case r of
       Inl e \<Rightarrow> Some (errno e, s1)
     | Inr result \<Rightarrow>
         if result AND IS_NETWORK \<noteq> 0 then Some (redirector ou REM_DELETE NoArg s1)
         else if result AND IS_DEVICE \<noteq> 0 then Some (errno DE_FILENOTFND, s1)
         else
           (let (inst, s2) = IsShareInstalled True s1
            in if inst \<and> is_file_open (PriPathName s2) (shr s2) \<noteq> 0 then Some (errno DE_ACCESS, s2)
               else do {
                 (r2, s3) \<leftarrow> on_node (dos_delete (blk_drv ou) (PriPathName s2) attrib) s2;
                 Some (result_int r2, s3)
               })
   }"

definition DosRenameTrue :: "('c, 'd) outside \<Rightarrow> bytes \<Rightarrow> bytes \<Rightarrow> u8 \<Rightarrow> ('c, 'd) fsys \<Rightarrow> (int \<times> ('c, 'd) fsys) option" where
  "DosRenameTrue ou path1 path2 attrib s =
     (if char_at path1 0 \<noteq> char_at path2 0 then Some (errno DE_DEVICE, s)
      else
        (case current_ldt s of
           NoLdt \<Rightarrow> None
         | LdtFFFF \<Rightarrow> Some (redirector ou REM_RENAME NoArg s)
         | Ldt i \<Rightarrow>
             if cdsFlags (cds_table (fio s) ! i) AND CDSNETWDRV \<noteq> 0 then Some (redirector ou REM_RENAME NoArg s)
             else
               (let (inst, s1) = IsShareInstalled True s
                in if inst \<and> is_file_open path1 (shr s1) \<noteq> 0 then Some (errno DE_ACCESS, s1)
                   else do {
                     (r, e) \<leftarrow> dos_rename (blk_drv ou) path1 path2 attrib (fnode0 s1) (fnode1 s1) (fio s1);
                     Some (result_int r, s1\<lparr>fio := e\<rparr>)
                   })))"

definition only_device :: "u16 \<Rightarrow> bool" where
  "only_device result \<longleftrightarrow> result AND (IS_NETWORK OR IS_DEVICE) = IS_DEVICE"

definition DosRename :: "('c, 'd) outside \<Rightarrow> bytes \<Rightarrow> bytes \<Rightarrow> ('c, 'd) fsys \<Rightarrow> (int \<times> ('c, 'd) fsys) option" where
  "DosRename ou path1 path2 s = do {
     (r2, dest2, s1) \<leftarrow> truename ou path2 CDS_MODE_CHECK_DEV_PATH s;
     case r2 of
       Inl e \<Rightarrow> Some (errno e, s1)
     | Inr result2 \<Rightarrow>
         (let s2 = s1\<lparr>SecPathName := dest2\<rparr>
          in if only_device result2 then Some (errno DE_FILENOTFND, s2)
             else do {
               (r1, s3) \<leftarrow> primary_name ou path1 CDS_MODE_CHECK_DEV_PATH s2;
               case r1 of
                 Inl e \<Rightarrow> Some (errno e, s3)
               | Inr result1 \<Rightarrow>
                   if only_device result1 then Some (errno DE_FILENOTFND, s3)
                   else DosRenameTrue ou (PriPathName s3) (SecPathName s3) D_ALL s3
             })
   }"

definition DosTruename :: "('c, 'd) outside \<Rightarrow> bytes \<Rightarrow> ('c, 'd) fsys \<Rightarrow> (int \<times> bytes option \<times> ('c, 'd) fsys) option" where
  "DosTruename ou src s = do {
     (r, s1) \<leftarrow> primary_name ou src CDS_MODE_ALLOW_WILDCARDS s;
     Some (case r of Inl e \<Rightarrow> (errno e, None, s1) | Inr result \<Rightarrow> (int (unat result), Some (PriPathName s1), s1))
   }"

section \<open>Temporary files\<close>

text \<open>The eight characters of a temporary name; the first byte comes from the highest four bits.\<close>

definition tmp_char :: "u8 \<Rightarrow> u32 \<Rightarrow> nat \<Rightarrow> u8" where
  "tmp_char major v i =
     (let c = (ucast (drop_bit (4 * (7 - i)) v) AND 0xf) + 0x41
      in if major < 5 then c - (if c < 0x41 + 10 then 0x30 - 0x41 else 10) else c)"

definition tmp_name :: "u8 \<Rightarrow> u32 \<Rightarrow> bytes" where
  "tmp_name major v = map (tmp_char major v) [0..<8]"

fun tmp_loop :: "('c, 'd) outside \<Rightarrow> bytes \<Rightarrow> u16 \<Rightarrow> nat \<Rightarrow> u32 \<Rightarrow> ('c, 'd) fsys \<Rightarrow> (int \<times> bytes \<times> ('c, 'd) fsys) option" where
  "tmp_loop ou base attr n v s = do {
     let path = base @ tmp_name (os_major s) v;
     (rc, s1) \<leftarrow> DosOpen ou path (O_LEGACY OR O_CREAT OR O_RDWR) attr s;
     (case n of
        0 \<Rightarrow> Some (rc, path, s1)
      | Suc m \<Rightarrow> if rc = errno DE_FILEEXISTS then tmp_loop ou base attr m (v + 1) s1 else Some (rc, path, s1))
   }"

text \<open>At most 1000h names are tried.\<close>

definition DosMkTmp :: "('c, 'd) outside \<Rightarrow> bytes \<Rightarrow> u16 \<Rightarrow> ('c, 'd) fsys \<Rightarrow> (int \<times> bytes \<times> ('c, 'd) fsys) option" where
  "DosMkTmp ou pathname attr s =
     (let base = (if os_major s = 5 \<and> (pathname = [] \<or> \<not> is_slash (last pathname)) then pathname @ [backslash] else pathname);
          randvar = push_bit 16 (ucast (snd (stamp s))) OR ucast (fst (stamp s))
      in tmp_loop ou base attr 0xfff randvar s)"

end
