(* ===== verification/Nls_Props.thy ===== *)
theory Nls_Props
  imports Nls
begin

text \<open>
  Upper case through the interrupt and directly is the same when nobody else hooks the interrupt; upper
  case twice is upper case once; without NLSFUNC a package that is not loaded cannot be set.
\<close>

section \<open>Finding packages\<close>

definition pkg_key :: "nls_package \<Rightarrow> u16 \<times> u16" where
  "pkg_key p = (pkg_cp p, pkg_cntry p)"

text \<open>The packages of the chain have different keys, and the active one is among them.\<close>

definition nls_ok :: "nls_info \<Rightarrow> bool" where
  "nls_ok n \<longleftrightarrow> actPkg n < length (nls_chain n) \<and> distinct (map pkg_key (nls_chain n))"

lemma find_unique:
  assumes "i < n" "P i" "\<And>j. j < n \<Longrightarrow> P j \<Longrightarrow> j = i"
  shows "find P [0..<n] = Some i"
proof -
  have "\<not> P j" if "j < i" for j using assms(3) [of j] that assms(1) by auto
  then show ?thesis using assms(1,2) by (simp add: find_Some_iff exI [of _ i])
qed

lemma searchPackage_act:
  assumes "nls_ok n" "cp = NLS_DEFAULT \<or> cp = pkg_cp (act_pkg n)" "cntry = NLS_DEFAULT \<or> cntry = pkg_cntry (act_pkg n)"
  shows "searchPackage cp cntry n = Some (actPkg n)"
proof -
  have "find (\<lambda>i. pkg_cp (nls_chain n ! i) = pkg_cp (act_pkg n) \<and> pkg_cntry (nls_chain n ! i) = pkg_cntry (act_pkg n))
      [0..<length (nls_chain n)] = Some (actPkg n)"
  proof (rule find_unique)
    fix j assume j: "j < length (nls_chain n)"
      and e: "pkg_cp (nls_chain n ! j) = pkg_cp (act_pkg n) \<and> pkg_cntry (nls_chain n ! j) = pkg_cntry (act_pkg n)"
    then have "map pkg_key (nls_chain n) ! j = map pkg_key (nls_chain n) ! actPkg n"
      using assms(1) by (simp add: nls_ok_def pkg_key_def act_pkg_def)
    moreover have "actPkg n < length (nls_chain n)" "distinct (map pkg_key (nls_chain n))" using assms(1) by (auto simp: nls_ok_def)
    ultimately show "j = actPkg n" using nth_eq_iff_index_eq [of "map pkg_key (nls_chain n)" j "actPkg n"] j by simp
  qed (use assms(1) in \<open>auto simp: nls_ok_def act_pkg_def\<close>)
  then show ?thesis using assms(2,3) by (auto simp: searchPackage_def Let_def)
qed

section \<open>Upper case\<close>

lemma kernel_mux_fupmem:
  assumes "nls_ok n"
  shows "muxGo kernel_mux NLSFUNC_FILE_UPMEM 0 NLS_DEFAULT NLS_DEFAULT len str n
    = ((0, NLS_DEFAULT), nlsFUpMem (act_pkg n) str len, n)"
  using searchPackage_act [OF assms, of NLS_DEFAULT NLS_DEFAULT]
  by (simp add: muxGo_def kernel_mux_def syscall_MUX14_def nlsfunc_codes act_pkg_def)

lemma kernel_mux_upmem:
  assumes "nls_ok n"
  shows "muxGo kernel_mux NLSFUNC_UPMEM 0 (pkg_cp (act_pkg n)) (pkg_cntry (act_pkg n)) len str n
    = ((0, pkg_cp (act_pkg n)), nlsUpMem (act_pkg n) str len, n)"
  using searchPackage_act [OF assms, of "pkg_cp (act_pkg n)" "pkg_cntry (act_pkg n)"]
  by (simp add: muxGo_def kernel_mux_def syscall_MUX14_def nlsfunc_codes act_pkg_def)

lemma DosUpFMem_kernel: "nls_ok n \<Longrightarrow> DosUpFMem kernel_mux str len n = (nlsFUpMem (act_pkg n) str len, n)"
  by (simp add: DosUpFMem_def muxBufGo_def kernel_mux_fupmem)

lemma DosUpMem_kernel: "nls_ok n \<Longrightarrow> DosUpMem kernel_mux str len n = (nlsUpMem (act_pkg n) str len, n)"
  by (simp add: DosUpMem_def xUpMem_def muxBufGo_def kernel_mux_upmem)

text \<open>A table is closed when the upper case of its characters is upper case.\<close>

definition closed_table :: "bytes \<Rightarrow> bool" where
  "closed_table tbl \<longleftrightarrow> list_all (\<lambda>c. up_char tbl c = c) (take 128 (drop 2 tbl)) \<and> length tbl = 130"

lemma up_char_twice:
  assumes "closed_table tbl"
  shows "up_char tbl (up_char tbl c) = up_char tbl c"
proof -
  consider (lower) "0x61 \<le> c \<and> c \<le> 0x7a" | (high) "\<not> (0x61 \<le> c \<and> c \<le> 0x7a)" "c > 0x7f" | (other) "\<not> (0x61 \<le> c \<and> c \<le> 0x7a)" "\<not> c > 0x7f"
    by blast
  then show ?thesis
  proof cases
    case lower
    have "unat (c - 0x20) = unat c - 32" using lower by (simp add: unat_sub word_le_nat_alt)
    moreover have "97 \<le> unat c" "unat c \<le> 122" using lower by (simp_all add: word_le_nat_alt)
    ultimately have "unat (c - 0x20) < 97" by linarith
    then have "c - 0x20 < 0x61" "\<not> c - 0x20 > 0x7f" by (simp_all add: word_less_nat_alt)
    moreover have "up_char tbl c = c - 0x20" using lower by (simp add: up_char_def)
    ultimately show ?thesis by (auto simp: up_char_def)
  next
    case high
    define k where "k = unat c - 128"
    have c: "128 \<le> unat c" "unat c < 256" using high(2) unat8_lt [of c] by (auto simp: word_less_nat_alt)
    then have k: "k < 128" "2 + unat c - 128 = k + 2" unfolding k_def by linarith+
    have "up_char tbl c = tbl ! (k + 2)"
      unfolding up_char_def if_not_P [OF high(1)] if_P [OF high(2)] k(2) by (rule refl)
    then have "up_char tbl c = drop 2 tbl ! k" using k(1) assms by (simp add: closed_table_def add.commute)
    moreover have "drop 2 tbl ! k \<in> set (take 128 (drop 2 tbl))"
      using k(1) assms by (auto simp: in_set_conv_nth closed_table_def intro!: exI [of _ k])
    ultimately show ?thesis using assms by (auto simp: closed_table_def list_all_iff)
  next
    case other
    have "up_char tbl c = c" unfolding up_char_def if_not_P [OF other(1)] if_not_P [OF other(2)] by (rule refl)
    then show ?thesis by simp
  qed
qed

lemma upMMem_map: "upMMem tbl str n = map (up_char tbl) (take n str) @ drop n str"
  by (induction tbl str n rule: upMMem.induct) simp_all

lemma upMMem_twice: "closed_table tbl \<Longrightarrow> upMMem tbl (upMMem tbl str n) n = upMMem tbl str n"
  by (simp add: upMMem_map up_char_twice take_map min_def)

section \<open>The hard coded package\<close>

text \<open>The tables of \<^verbatim>\<open>kernel/nls_hc.asm\<close> for upper case (the length word and 128 characters).\<close>

definition nlsUpcaseHardcoded :: bytes where
  "nlsUpcaseHardcoded =
     [0x80, 0x00, 0x80, 0x9a, 0x45, 0x41, 0x8e, 0x41, 0x8f, 0x80, 0x45, 0x45, 0x45, 0x49, 0x49, 0x49,
      0x8e, 0x8f, 0x90, 0x92, 0x92, 0x4f, 0x99, 0x4f, 0x55, 0x55, 0x59, 0x99, 0x9a, 0x9b, 0x9c, 0x9d,
      0x9e, 0x9f, 0x41, 0x49, 0x4f, 0x55, 0xa5, 0xa5] @ map of_nat [0xa6..<0x100]"

definition nlsPackageHardcoded :: nls_package where
  "nlsPackageHardcoded =
     \<lparr>pkg_cntry = 1, pkg_cp = 437, pkg_flags = 15, yeschar = 0x59, nochar = 0x4e,
      nlsPointers = [\<lparr>np_bytes = [2], np_table = nlsUpcaseHardcoded\<rparr>, \<lparr>np_bytes = [4], np_table = nlsUpcaseHardcoded\<rparr>]\<rparr>"

definition us_info :: "u16 \<Rightarrow> nls_info" where
  "us_info flags = \<lparr>sysCodePage = 437, actPkg = 0, nls_chain = [nlsPackageHardcoded\<lparr>pkg_flags := flags\<rparr>], said = []\<rparr>"

lemma closed_hardcoded: "closed_table nlsUpcaseHardcoded"
  by code_simp

lemma us_info_ok: "nls_ok (us_info flags)"
  by (simp add: nls_ok_def us_info_def)

section \<open>Setting a package\<close>

lemma kernel_mux_install:
  assumes "searchPackage NLS_FREEDOS_NLSFUNC_VERSION 0 n = None"
  shows "muxGo kernel_mux NLSFUNC_INSTALL_CHECK 0 NLS_FREEDOS_NLSFUNC_VERSION 0 NLS_FREEDOS_NLSFUNC_ID [] n
    = ((0xffff, NLS_FREEDOS_NLSFUNC_VERSION), [], n)"
  using assms by (simp add: muxGo_def kernel_mux_def syscall_MUX14_def)

lemma muxLoadPkg_kernel:
  assumes "searchPackage NLS_FREEDOS_NLSFUNC_VERSION 0 n = None"
  shows "muxLoadPkg kernel_mux subfct cp cntry n = (errno DE_FILENOTFND, n)"
  using kernel_mux_install [OF assms] by (simp add: muxLoadPkg_def)

text \<open>Without NLSFUNC the code page cannot be set, not even to the active one.\<close>

lemma DosSetCodepage_kernel:
  assumes "searchPackage NLS_FREEDOS_NLSFUNC_VERSION 0 n = None"
  shows "DosSetCodepage kernel_mux cp (sysCodePage n) n = (errno DE_FILENOTFND, n)"
  by (simp add: DosSetCodepage_def DosSetPackage_def muxLoadPkg_kernel [OF assms])

lemma DosSetCountry_kernel:
  assumes "nls_ok n"
  shows "DosSetCountry kernel_mux (pkg_cntry (act_pkg n)) n = (0, n)"
  using searchPackage_act [OF assms, of NLS_DEFAULT "pkg_cntry (act_pkg n)"]
  by (simp add: DosSetCountry_def DosLoadPackage_def nlsLoadPackage_def)

section \<open>Properties\<close>

definition with_flags :: "u16 \<Rightarrow> nls_info \<Rightarrow> nls_info" where
  "with_flags f n = n\<lparr>nls_chain := (nls_chain n)[actPkg n := (act_pkg n)\<lparr>pkg_flags := f\<rparr>]\<rparr>"

lemma act_with_flags: "nls_ok n \<Longrightarrow> act_pkg (with_flags f n) = (act_pkg n)\<lparr>pkg_flags := f\<rparr>"
  by (simp add: with_flags_def act_pkg_def nls_ok_def)

lemma with_flags_ok: "nls_ok n \<Longrightarrow> nls_ok (with_flags f n)"
proof -
  assume n: "nls_ok n"
  have "map pkg_key (nls_chain (with_flags f n)) = map pkg_key (nls_chain n)"
    by (auto simp: with_flags_def map_update pkg_key_def act_pkg_def intro!: nth_equalityI)
      (use n in \<open>auto simp: nth_list_update pkg_key_def nls_ok_def\<close>)
  then show "nls_ok (with_flags f n)" using n by (simp add: nls_ok_def with_flags_def)
qed

text \<open>
  C29: upper case of a name does not depend on the flag for direct access: through the interrupt, with the kernel's own
  handler behind it, \<^verbatim>\<open>DosUpFMem\<close> gives the text that the direct way gives, and changes nothing else.
\<close>

theorem DosUpFMem_direct_or_mux:
  assumes "nls_ok n" "f AND NLS_FLAG_DIRECT_FUPCASE \<noteq> 0"
  shows "DosUpFMem kernel_mux str len (with_flags g n) = (fst (DosUpFMem mx str len (with_flags f n)), with_flags g n)"
  unfolding DosUpFMem_kernel [OF with_flags_ok [OF assms(1)]]
  using assms by (simp add: DosUpFMem_def act_with_flags nlsFUpMem_def getTable4_def)

theorem DosUpFMem_direct_or_mux_witness:
  "DosUpFMem kernel_mux [0x61, 0x81] 2 (us_info 0) = ([0x41, 0x9a], us_info 0)"
proof -
  have f: "(2 :: u16) AND NLS_FLAG_DIRECT_FUPCASE \<noteq> 0" by (simp add: NLS_FLAG_DIRECT_FUPCASE_def)
  have t: "upMMem nlsUpcaseHardcoded [0x61, 0x81] 2 = [0x41, 0x9a]" by code_simp
  have i: "with_flags 0 (us_info 0) = us_info 0" by (simp add: with_flags_def us_info_def act_pkg_def)
  show ?thesis using DosUpFMem_direct_or_mux [OF us_info_ok f, of "[0x61, 0x81]" 2 0 0 kernel_mux] t unfolding i
    by (simp add: DosUpFMem_def act_with_flags us_info_ok nlsFUpMem_def getTable4_def NLS_FLAG_DIRECT_FUPCASE_def)
      (simp add: us_info_def act_pkg_def nlsPackageHardcoded_def)
qed

end
