(* ===== verification/Path_Props.thy ===== *)
theory Path_Props
  imports Path_Name
begin

text \<open>
  The names the component loop of \<^verbatim>\<open>truename\<close> makes: a prefix and components in 8.3 form behind
  backslashes. Names of this form are left alone.
\<close>

section \<open>Components\<close>

definition good_char :: "u8 \<Rightarrow> bool" where
  "good_char x \<longleftrightarrow> DirChar x \<and> \<not> is_slash x \<and> x \<noteq> dot \<and> x \<noteq> star"

text \<open>One to eight characters, or these with a dot and one to three more.\<close>

definition component :: "bytes \<Rightarrow> bool" where
  "component c \<longleftrightarrow>
     (let n = takeWhile (\<lambda>x. x \<noteq> dot) c; r = dropWhile (\<lambda>x. x \<noteq> dot) c
      in n \<noteq> [] \<and> length n \<le> 8 \<and> list_all good_char n
         \<and> (r = [] \<or> 2 \<le> length r \<and> length r \<le> 4 \<and> list_all good_char (tl r)))"

fun path_text :: "bytes list \<Rightarrow> bytes" where
  "path_text [] = []"
| "path_text (c # cs) = backslash # c @ path_text cs"

lemma path_text_append [simp]: "path_text (cs @ ds) = path_text cs @ path_text ds"
  by (induction cs) auto

lemma good_dot: "list_all good_char n \<Longrightarrow> dot \<notin> set n"
  by (auto simp: list_all_iff good_char_def)

lemma component_name: "n \<noteq> [] \<Longrightarrow> length n \<le> 8 \<Longrightarrow> list_all good_char n \<Longrightarrow> component n"
proof -
  assume a: "n \<noteq> []" "length n \<le> 8" "list_all good_char n"
  have "\<forall>x\<in>set n. x \<noteq> dot" using good_dot [OF a(3)] by blast
  then have w: "takeWhile (\<lambda>x. x \<noteq> dot) n = n" "dropWhile (\<lambda>x. x \<noteq> dot) n = []" by (simp_all add: takeWhile_eq_all_conv)
  show ?thesis unfolding component_def Let_def w using a by simp
qed

lemma component_ext:
  assumes "n \<noteq> []" "length n \<le> 8" "list_all good_char n" "e \<noteq> []" "length e \<le> 3" "list_all good_char e"
  shows "component (n @ dot # e)"
proof -
  have "\<forall>x\<in>set n. x \<noteq> dot" using good_dot [OF assms(3)] by blast
  then have "takeWhile (\<lambda>x. x \<noteq> dot) (n @ dot # e) = n" "dropWhile (\<lambda>x. x \<noteq> dot) (n @ dot # e) = dot # e"
    by (simp_all add: takeWhile_append dropWhile_append)
  then show ?thesis using assms by (cases e) (simp_all add: component_def)
qed

lemma component_cases:
  assumes "component c"
  obtains (name) "c \<noteq> []" "length c \<le> 8" "list_all good_char c"
    | (ext) n e where "c = n @ dot # e" "n \<noteq> []" "length n \<le> 8" "list_all good_char n" "e \<noteq> []" "length e \<le> 3" "list_all good_char e"
proof -
  define n where "n = takeWhile (\<lambda>x. x \<noteq> dot) c"
  define r where "r = dropWhile (\<lambda>x. x \<noteq> dot) c"
  have c: "c = n @ r" by (simp add: n_def r_def)
  have h: "n \<noteq> []" "length n \<le> 8" "list_all good_char n" "r = [] \<or> 2 \<le> length r \<and> length r \<le> 4 \<and> list_all good_char (tl r)"
    using assms by (simp_all add: component_def Let_def n_def r_def)
  show thesis
  proof (cases "r = []")
    case True then show thesis using name c h by simp
  next
    case False
    then have hd: "hd r = dot" using hd_dropWhile [of "\<lambda>x. x \<noteq> dot" c] unfolding r_def by blast
    then obtain e where r: "r = dot # e" using False by (cases r) auto
    show thesis using ext [OF c [unfolded r]] h False r by (cases e) auto
  qed
qed

lemma component_no_backslash: "component c \<Longrightarrow> backslash \<notin> set c"
  by (erule component_cases) (auto simp: list_all_iff good_char_def is_slash_def)

lemma component_nonempty: "component c \<Longrightarrow> c \<noteq> []"
  by (auto elim: component_cases)

lemma component_last: "component c \<Longrightarrow> last c \<noteq> backslash"
  using component_no_backslash [of c] component_nonempty [of c] last_in_set [of c] by metis

lemma good_hd: "n \<noteq> [] \<Longrightarrow> list_all good_char n \<Longrightarrow> \<not> is_slash (hd n) \<and> hd n \<noteq> dot"
  by (cases n) (simp_all add: good_char_def)

lemma component_hd: "component c \<Longrightarrow> \<not> is_slash (hd c) \<and> hd c \<noteq> dot"
  by (erule component_cases) (simp_all add: good_hd hd_append2)

lemma path_text_last:
  assumes "list_all component cs" "last pre \<noteq> backslash" "pre \<noteq> []"
  shows "last (pre @ path_text cs) \<noteq> backslash"
proof (cases cs rule: rev_cases)
  case (snoc ds c)
  then have "component c" using assms(1) by simp
  then have "c \<noteq> []" "last c \<noteq> backslash" using component_nonempty component_last by blast+
  then show ?thesis using snoc by simp
qed (use assms in simp)

section \<open>One component\<close>

text \<open>What has been written while the loop is inside a component.\<close>

definition partial_name :: "bytes \<Rightarrow> bool \<Rightarrow> nat \<Rightarrow> bytes \<Rightarrow> bytes \<Rightarrow> bool" where
  "partial_name src dotted i base out \<longleftrightarrow>
     (if dotted then
        (\<exists>n e. out = base @ n @ dot # e \<and> n \<noteq> [] \<and> length n \<le> 8 \<and> list_all good_char n \<and> list_all good_char e
           \<and> length e + i = 3 \<and> (e \<noteq> [] \<or> \<not> at_end src))
      else
        (\<exists>n. out = base @ n \<and> list_all good_char n \<and> length n + i = 8 \<and> (n \<noteq> [] \<or> \<not> at_end src \<and> hd src \<noteq> dot)))"

lemma partial_name_done:
  assumes "partial_name src dotted i base out" "at_end src"
  shows "\<exists>c. out = base @ c \<and> component c"
  using assms component_name component_ext
  by (auto simp: partial_name_def split: if_splits)

lemma addChars_replicate: "addChars src c n out = Inr out' \<Longrightarrow> out' = out @ replicate n c"
proof (induction n arbitrary: out)
  case (Suc n)
  then have "addChars src c n (out @ [c]) = Inr out'" by (simp add: addChar_def split: if_splits)
  from Suc.IH [OF this] show ?case by simp
qed simp

lemma good_qmark: "good_char qmark"
  by (simp add: good_char_def DirChar_def DirChars_def is_slash_def path_chars)

lemma partial_nameI:
  "out = base @ n \<Longrightarrow> list_all good_char n \<Longrightarrow> length n + i = 8 \<Longrightarrow> n \<noteq> [] \<or> \<not> at_end src \<and> hd src \<noteq> dot
    \<Longrightarrow> partial_name src False i base out"
  "out = base @ n @ dot # e \<Longrightarrow> n \<noteq> [] \<Longrightarrow> length n \<le> 8 \<Longrightarrow> list_all good_char n \<Longrightarrow> list_all good_char e
    \<Longrightarrow> length e + i = 3 \<Longrightarrow> e \<noteq> [] \<or> \<not> at_end src \<Longrightarrow> partial_name src True i base out"
  by (auto simp: partial_name_def)

lemma partial_step_star:
  assumes p: "partial_name (star # src) dotted i base out" and o: "addChars src' qmark i out = Inr out'"
  shows "partial_name src dotted 0 base out'"
proof -
  have out': "out' = out @ replicate i qmark" by (rule addChars_replicate [OF o])
  have good: "list_all good_char (replicate i qmark)" by (simp add: list_all_iff good_qmark)
  show ?thesis
  proof (cases dotted)
    case True
    with p obtain n e where h: "out = base @ n @ dot # e" "n \<noteq> []" "length n \<le> 8" "list_all good_char n" "list_all good_char e"
      "length e + i = 3" by (auto simp: partial_name_def)
    have "e @ replicate i qmark \<noteq> []" using h(6) by (cases i) auto
    then show ?thesis using True unfolding out' h(1)
      by (simp, intro partial_nameI(2) [of _ _ n "e @ replicate i qmark"]) (use h good in auto)
  next
    case False
    with p obtain n where h: "out = base @ n" "list_all good_char n" "length n + i = 8" by (auto simp: partial_name_def)
    have "n @ replicate i qmark \<noteq> []" using h(3) by (cases i) auto
    then show ?thesis using False unfolding out' h(1)
      by (simp, intro partial_nameI(1) [of _ _ "n @ replicate i qmark"]) (use h good in auto)
  qed
qed

lemma partial_step:
  assumes p: "partial_name (c # src) dotted i base out" and c: "\<not> is_slash c"
    and st: "name_step (i, dotted, wild, out) c src = Inr (Some (i', dotted', wild', out'))"
  shows "partial_name src dotted' i' base out'"
proof (cases "c = star")
  case True
  then have "addChars src qmark i out = Inr out'" "i' = 0" "dotted' = dotted"
    using st by (auto simp: name_step_def split: sum.splits)
  with partial_step_star p True show ?thesis by blast
next
  case star: False
  show ?thesis
  proof (cases "c = dot")
    case True
    have d: "\<not> dotted" "\<not> at_end src" using st True by (auto simp: name_step_def star_def split: if_splits)
    then obtain n where n: "out = base @ n" "list_all good_char n" "length n + i = 8" "n \<noteq> []"
      using p True by (auto simp: partial_name_def at_end_def)
    have "dotted'" "i' = 3" "out' = out @ [dot]"
      using st True d by (auto simp: name_step_def star_def FEXT_SIZE_def addChar_def Let_def split: if_splits sum.splits)
    then show ?thesis unfolding n(1) by (simp, intro partial_nameI(2) [of _ _ n "[]"]) (use n d in auto)
  next
    case False
    have d: "dotted' = dotted" using st star False by (auto simp: name_step_def Let_def split: if_splits sum.splits)
    show ?thesis
    proof (cases "i = 0")
      case True
      then have "out' = out" "i' = i" using st star False by (auto simp: name_step_def Let_def split: if_splits sum.splits)
      then show ?thesis using p True d by (fastforce simp: partial_name_def split: if_splits)
    next
      case i: False
      then have h: "out' = out @ [c]" "i' = i - 1" "DirChar c"
        using st star False by (auto simp: name_step_def Let_def addChar_def split: if_splits sum.splits)
      have good: "good_char c" using h(3) c star False by (simp add: good_char_def)
      show ?thesis
      proof (cases dotted)
        case True
        with p obtain n e where n: "out = base @ n @ dot # e" "n \<noteq> []" "length n \<le> 8" "list_all good_char n" "list_all good_char e"
          "length e + i = 3" by (auto simp: partial_name_def)
        show ?thesis using True unfolding d h(1,2) n(1)
          by (simp, intro partial_nameI(2) [of _ _ n "e @ [c]"]) (use n good i in auto)
      next
        case False
        with p obtain n where n: "out = base @ n" "list_all good_char n" "length n + i = 8" by (auto simp: partial_name_def)
        show ?thesis using False unfolding d h(1,2) n(1)
          by (simp, intro partial_nameI(1) [of _ _ "n @ [c]"]) (use n good i in auto)
      qed
    qed
  qed
qed

lemma name_step_None:
  assumes "name_step (i, dotted, wild, out) c src = Inr None"
  shows "c = dot" "\<not> dotted" "at_end src"
  using assms by (auto simp: name_step_def Let_def split: if_splits sum.splits)

text \<open>The loop adds one component and stops at a separator or the end.\<close>

lemma name_loop_component:
  assumes "name_loop src (i, dotted, wild, out) = Inr (rest, w, out')" "partial_name src dotted i base out"
  shows "(\<exists>c. out' = base @ c \<and> component c) \<and> at_end rest"
  using assms
proof (induction src arbitrary: i dotted wild out)
  case Nil
  then show ?case using partial_name_done [of "[]"] by (auto simp: at_end_def)
next
  case (Cons c src)
  show ?case
  proof (cases "is_slash c")
    case True
    then show ?thesis using Cons.prems partial_name_done [of "c # src"] by (auto simp: at_end_def)
  next
    case False
    show ?thesis
    proof (cases "name_step (i, dotted, wild, out) c src")
      case (Inr st)
      show ?thesis
      proof (cases st)
        case None
        note n = name_step_None [OF Inr [unfolded None]]
        have "partial_name [] False i base out"
          using Cons.prems(2) n by (auto simp: partial_name_def)
        from partial_name_done [OF this] show ?thesis using Cons.prems(1) False Inr None n(3) by (auto simp: at_end_def)
      next
        case (Some st')
        obtain i' d' w' o' where st': "st' = (i', d', w', o')" by (cases st') auto
        have "name_loop src (i', d', w', o') = Inr (rest, w, out')" using Cons.prems(1) False Inr Some st' by simp
        moreover have "partial_name src d' i' base o'"
          by (rule partial_step [OF Cons.prems(2) False Inr [unfolded Some st']])
        ultimately show ?thesis by (rule Cons.IH)
      qed
    qed (use Cons.prems False in simp)
  qed
qed

section \<open>The length of the buffer\<close>

lemma addChar_length: "addChar src c out = Inr out' \<Longrightarrow> length out' \<le> SFTMAX"
  by (auto simp: addChar_def split: if_splits)

lemma addChars_length: "addChars src c n out = Inr out' \<Longrightarrow> length out \<le> SFTMAX \<Longrightarrow> length out' \<le> SFTMAX"
  by (induction n arbitrary: out) (auto split: sum.splits dest: addChar_length)

lemma name_step_length:
  "name_step (i, d, w, out) c src = Inr (Some (i', d', w', out')) \<Longrightarrow> length out \<le> SFTMAX \<Longrightarrow> length out' \<le> SFTMAX"
  by (auto simp: name_step_def Let_def split: if_splits sum.splits dest: addChar_length addChars_length)

lemma name_loop_buffer:
  "name_loop src (i, d, w, out) = Inr (rest, w', out') \<Longrightarrow> length out \<le> SFTMAX \<Longrightarrow> length out' \<le> SFTMAX"
  by (induction src arbitrary: i d w out)
    (auto split: if_splits sum.splits option.splits dest: name_step_length)

section \<open>Whole names\<close>

text \<open>The prefix, components, and perhaps a trailing backslash.\<close>

definition full_name :: "bytes \<Rightarrow> bytes \<Rightarrow> bool" where
  "full_name pre out \<longleftrightarrow>
     (\<exists>cs t. out = pre @ path_text cs @ t \<and> list_all component cs \<and> (t = [] \<or> t = [backslash]))"

lemma full_nameI: "list_all component cs \<Longrightarrow> t = [] \<or> t = [backslash] \<Longrightarrow> full_name pre (pre @ path_text cs @ t)"
  by (auto simp: full_name_def)

lemma full_name_comps: "list_all component cs \<Longrightarrow> full_name pre (pre @ path_text cs)"
  using full_nameI [of cs "[]" pre] by simp

lemma char_at_nth: "i < length s \<Longrightarrow> char_at s i = s ! i"
  by (simp add: char_at_def)

lemma char_at_end: "s \<noteq> [] \<Longrightarrow> char_at s (length s - 1) = last s"
  by (simp add: char_at_def last_conv_nth)

lemma up_dir_back:
  "k \<le> length w \<Longrightarrow> backslash \<notin> set w \<Longrightarrow> root \<le> length a
    \<Longrightarrow> up_dir root (a @ backslash # w) (Suc (length a + k)) = Some a"
proof (induction k)
  case (Suc k)
  have "char_at (a @ backslash # w) (Suc (length a + k)) = w ! k" using Suc.prems by (simp add: char_at_def nth_append)
  moreover have "w ! k \<noteq> backslash" using Suc.prems by (metis Suc_le_lessD nth_mem)
  moreover have "\<not> Suc (length a + k) \<le> root" using Suc.prems by simp
  ultimately show ?case using Suc by simp
qed (simp add: char_at_def)

lemma up_dir_path:
  assumes "up_dir (length pre) (pre @ path_text cs) (length (pre @ path_text cs)) = Some out"
    and cs: "list_all component cs" and pre: "pre \<noteq> []" "last pre \<noteq> backslash"
  shows "out = pre @ path_text (butlast cs)"
proof (cases cs rule: rev_cases)
  case Nil
  obtain n where n: "length pre = Suc n" using pre(1) by (cases pre) auto
  have "char_at pre n = last pre" using char_at_end [OF pre(1)] n by simp
  then have False using assms(1) Nil n pre by simp
  then show ?thesis ..
next
  case (snoc ds c)
  have c: "backslash \<notin> set c" using cs snoc component_no_backslash by simp
  have up: "up_dir (length pre) ((pre @ path_text ds) @ backslash # c) (Suc (length (pre @ path_text ds) + length c))
      = Some (pre @ path_text ds)" by (rule up_dir_back) (use c in auto)
  have e: "pre @ path_text cs = (pre @ path_text ds) @ backslash # c" using snoc by simp
  have l: "length ((pre @ path_text ds) @ backslash # c) = Suc (length (pre @ path_text ds) + length c)" by simp
  have "Some (pre @ path_text ds) = Some out" using up assms(1) unfolding e l by (rule trans [OF sym])
  then show ?thesis using snoc by simp
qed

lemma with_separator:
  assumes "full_name pre out" and pre: "pre \<noteq> []" "last pre \<noteq> backslash"
    and "(if char_at out (length out - 1) \<noteq> backslash then addChar src backslash out else Inr out) = Inr out1"
  shows "\<exists>cs. list_all component cs \<and> out1 = pre @ path_text cs @ [backslash]"
proof -
  obtain cs t where h: "out = pre @ path_text cs @ t" "list_all component cs" "t = [] \<or> t = [backslash]"
    using assms(1) by (auto simp: full_name_def)
  have last: "char_at out (length out - 1) = last out" by (rule char_at_end) (use h pre in simp)
  show ?thesis
  proof (cases "t = []")
    case True
    then have "out1 = out @ [backslash]"
      using path_text_last [OF h(2) pre(2,1)] assms(4) h(1) last by (auto simp: addChar_def split: if_splits)
    then show ?thesis using h True by auto
  next
    case False
    then have "last out = backslash" using h by simp
    then have "out1 = out" using assms(4) last by simp
    then show ?thesis using h False by auto
  qed
qed

lemma segments_full_name:
  assumes "segments sep root wild src out = Inr (w, out')" "sep = backslash" "root = length pre"
    and "pre \<noteq> []" "last pre \<noteq> backslash" "full_name pre out" "length out \<le> SFTMAX"
  shows "full_name pre out' \<and> length out' \<le> SFTMAX"
  using assms
proof (induction sep root wild src out rule: segments.induct)
  case (1 sep root wild src out)
  show ?case
  proof (cases "src = []")
    case True
    then show ?thesis using "1.prems" by (simp add: segments.simps)
  next
    case src: False
    have wild: "\<not> wild" using "1.prems"(1) src by (subst (asm) segments.simps) (simp split: if_splits)
    obtain out1 where o1: "(if char_at out (length out - 1) \<noteq> sep then addChar src sep out else Inr out) = Inr out1"
      using "1.prems"(1) src wild by (subst (asm) segments.simps) (auto split: sum.splits)
    obtain cs where cs: "list_all component cs" "out1 = pre @ path_text cs @ [backslash]"
      using with_separator o1 "1.prems"(2,4-6) by blast
    have len1: "length out1 \<le> SFTMAX" using o1 "1.prems"(7) addChar_length by (auto split: if_splits)
    define src1 where "src1 = dropWhile is_slash src"
    note seg = "1.prems"(1) [unfolded segments.simps [of sep root wild src out], unfolded o1 Let_def, folded src1_def]
    note IH = "1.IH" [OF src wild o1 src1_def]
    show ?thesis
    proof (cases "char_at src1 0 = dot")
      case True
      define two where "two = (char_at src1 1 = dot)"
      define src2 where "src2 = drop (if two then 2 else 1) src1"
      have e: "at_end src2" using seg src wild True by (auto simp: two_def src2_def split: if_splits)
      have b: "butlast out1 = pre @ path_text cs" using cs(2) by (simp add: butlast_append)
      show ?thesis
      proof (cases two)
        case two: True
        obtain out3 where u: "up_dir root (butlast out1) (length (butlast out1)) = Some out3"
          using seg src wild True e two by (auto simp: two_def src2_def split: option.splits)
        have s: "segments sep root wild src2 out3 = Inr (w, out')"
          using seg src wild True e two u by (simp add: two_def src2_def)
        have o3: "out3 = pre @ path_text (butlast cs)"
          by (rule up_dir_path) (use u b cs "1.prems" in auto)
        have "full_name pre out3" unfolding o3
          by (rule full_name_comps) (use cs(1) in \<open>auto simp: list_all_iff dest: in_set_butlastD\<close>)
        moreover have "length out3 \<le> SFTMAX"
        proof -
          have "length (path_text (butlast cs)) \<le> length (path_text cs)" by (cases cs rule: rev_cases) auto
          then show ?thesis using len1 cs(2) o3 by simp
        qed
        ultimately show ?thesis
          using IH(1) [OF True two_def src2_def e refl two u s] "1.prems" by blast
      next
        case two: False
        have s: "segments sep root wild src2 (butlast out1) = Inr (w, out')"
          using seg src wild True e two by (simp add: two_def src2_def)
        have "full_name pre (butlast out1)" unfolding b by (rule full_name_comps [OF cs(1)])
        moreover have "length (butlast out1) \<le> SFTMAX" using len1 by simp
        ultimately show ?thesis
          using IH(2) [OF True two_def src2_def e refl two s] "1.prems" by blast
      qed
    next
      case False
      obtain src2 wild1 out2 where n: "name_loop src1 (FNAME_SIZE, False, wild, out1) = Inr (src2, wild1, out2)"
        using seg src wild False by (auto split: sum.splits)
      have s: "segments sep root wild1 src2 out2 = Inr (w, out')" using seg src wild False n by simp
      have len2: "length out2 \<le> SFTMAX" by (rule name_loop_buffer [OF n len1])
      have "full_name pre out2"
      proof (cases "src1 = []")
        case True
        then have "out2 = out1" using n by simp
        then show ?thesis unfolding full_name_def using cs by blast
      next
        case False
        then have e: "\<not> at_end src1" using hd_dropWhile [of is_slash src] by (auto simp: at_end_def src1_def)
        have "hd src1 \<noteq> dot" using \<open>char_at src1 0 \<noteq> dot\<close> False by (simp add: char_at_def hd_conv_nth)
        then have "partial_name src1 False FNAME_SIZE out1 out1"
          by (intro partial_nameI(1) [of _ _ "[]"]) (use e in \<open>auto simp: FNAME_SIZE_def\<close>)
        from name_loop_component [OF n this] obtain c where "out2 = out1 @ c" "component c" by blast
        then have "out2 = pre @ path_text (cs @ [c])" using cs(2) by simp
        then show ?thesis using full_name_comps [of "cs @ [c]" pre] cs(1) \<open>component c\<close> by simp
      qed
      with IH(3) [OF False n refl refl s] "1.prems" len2 show ?thesis by blast
    qed
  qed
qed

section \<open>Names of this form stay\<close>

lemma name_loop_good:
  assumes "list_all good_char n" "qmark \<notin> set n" "length n \<le> i" "length out + length n \<le> SFTMAX"
  shows "name_loop (n @ src) (i, d, w, out) = name_loop src (i - length n, d, w, out @ n)"
  using assms
proof (induction n arbitrary: i out)
  case (Cons c n)
  have c: "\<not> is_slash c" "c \<noteq> star" "c \<noteq> dot" "DirChar c" "c \<noteq> qmark" using Cons.prems by (auto simp: good_char_def)
  have "name_step (i, d, w, out) c (n @ src) = Inr (Some (i - 1, d, w, out @ [c]))"
    using c Cons.prems(3,4) by (simp add: name_step_def addChar_def)
  then show ?case using c(1) Cons.IH [of "i - 1" "out @ [c]"] Cons.prems by simp
qed simp

lemma name_loop_stop: "at_end src \<Longrightarrow> name_loop src (i, d, w, out) = Inr (src, w, out)"
  by (cases src) (auto simp: at_end_def)

lemma name_loop_fixed:
  assumes c: "component c" "qmark \<notin> set c" and e: "at_end rest" and l: "length out + length c \<le> SFTMAX"
  shows "name_loop (c @ rest) (FNAME_SIZE, False, w, out) = Inr (rest, w, out @ c)"
  using c(1)
proof (cases rule: component_cases)
  case name
  then show ?thesis using name_loop_good [of c FNAME_SIZE out rest False w] c(2) l name_loop_stop [OF e]
    by (simp add: FNAME_SIZE_def)
next
  case (ext n x)
  have "name_loop (c @ rest) (FNAME_SIZE, False, w, out) = name_loop (dot # x @ rest) (8 - length n, False, w, out @ n)"
    using name_loop_good [of n FNAME_SIZE out "dot # x @ rest" False w] ext c(2) l by (simp add: FNAME_SIZE_def)
  also have "\<dots> = name_loop (x @ rest) (3, True, w, out @ n @ [dot])"
  proof -
    have "\<not> at_end (x @ rest)" using ext(5,7) by (cases x) (auto simp: at_end_def good_char_def)
    then have "name_step (8 - length n, False, w, out @ n) dot (x @ rest) = Inr (Some (3, True, w, out @ n @ [dot]))"
      using ext l by (simp add: name_step_def addChar_def FEXT_SIZE_def star_def qmark_def DirChar_def DirChars_def)
    then show ?thesis by (simp add: is_slash_def slash_def)
  qed
  also have "\<dots> = Inr (rest, w, out @ c)"
    using name_loop_good [of x 3 "out @ n @ [dot]" rest True w] ext c(2) l name_loop_stop [OF e] by simp
  finally show ?thesis .
qed

lemma segments_step:
  assumes c: "component c" "qmark \<notin> set c" and e: "at_end rest" and l: "length out + length c + 1 \<le> SFTMAX"
    and out: "out \<noteq> []" "last out \<noteq> backslash" and lead: "lead = [] \<or> lead = [backslash]"
  shows "segments backslash root False (lead @ c @ rest) out = segments backslash root False rest (out @ backslash # c)"
proof -
  obtain x xs where x: "c = x # xs" using component_nonempty [OF c(1)] by (cases c) auto
  have g: "\<not> is_slash x" "x \<noteq> dot" using component_hd [OF c(1)] x by simp_all
  have d: "dropWhile is_slash (lead @ c @ rest) = c @ rest" using lead g x by (auto simp: is_slash_def)
  have o: "(if char_at out (length out - 1) \<noteq> backslash then addChar (lead @ c @ rest) backslash out else Inr out)
      = Inr (out @ [backslash])" using char_at_end [OF out(1)] out(2) l by (simp add: addChar_def)
  have n: "name_loop (c @ rest) (FNAME_SIZE, False, False, out @ [backslash]) = Inr (rest, False, out @ backslash # c)"
    using name_loop_fixed [OF c e, of "out @ [backslash]" False] l by simp
  have ne: "lead @ c @ rest \<noteq> []" "char_at (c @ rest) 0 \<noteq> dot" using x g by (simp_all add: char_at_def)
  show ?thesis unfolding segments.simps [of backslash root False "lead @ c @ rest" out] if_not_P [OF ne(1)] o Let_def d
    using ne(2) n by simp
qed

lemma segments_fixed:
  assumes "list_all component cs" "qmark \<notin> set (path_text cs)" "out \<noteq> []" "last out \<noteq> backslash"
    and "t = [] \<or> t = [backslash]" "length (out @ path_text cs @ t) \<le> SFTMAX"
  shows "segments backslash root False (path_text cs @ t) out = Inr (False, out @ path_text cs @ t)"
  using assms
proof (induction cs arbitrary: out)
  case Nil
  show ?case
  proof (cases "t = []")
    case False
    then have t: "t = [backslash]" using Nil.prems by simp
    have o: "(if char_at out (length out - 1) \<noteq> backslash then addChar [backslash] backslash out else Inr out) = Inr (out @ [backslash])"
      using char_at_end [OF Nil.prems(3)] Nil.prems(4,6) t by (simp add: addChar_def)
    have d: "dropWhile is_slash [backslash] = []" by (simp add: is_slash_def)
    have ne: "[backslash] \<noteq> []" "char_at [] 0 \<noteq> dot" by (simp_all add: char_at_def)
    have z: "segments backslash root False [] (out @ [backslash]) = Inr (False, out @ [backslash])" by (simp add: segments.simps)
    show ?thesis unfolding t path_text.simps append_Nil segments.simps [of backslash root False "[backslash]" out] if_not_P [OF ne(1)] o Let_def d
      using ne(2) z by simp
  qed (simp add: segments.simps)
next
  case (Cons c cs)
  have e: "at_end (path_text cs @ t)" using Cons.prems(5) by (cases cs) (auto simp: at_end_def is_slash_def)
  have "last (out @ backslash # c) \<noteq> backslash"
    using component_nonempty [of c] component_last [of c] Cons.prems(1) by simp
  then have "segments backslash root False (path_text cs @ t) (out @ backslash # c) = Inr (False, (out @ backslash # c) @ path_text cs @ t)"
    by (intro Cons.IH) (use Cons.prems in auto)
  then show ?case
    using segments_step [of c "path_text cs @ t" out "[backslash]" root] e Cons.prems by simp
qed

lemma segments_fixed_rest:
  assumes "list_all component cs" "cs \<noteq> []" "qmark \<notin> set (path_text cs)" "out \<noteq> []" "last out \<noteq> backslash"
    and "t = [] \<or> t = [backslash]" "length (out @ path_text cs @ t) \<le> SFTMAX"
  shows "segments backslash root False (tl (path_text cs @ t)) out = Inr (False, out @ path_text cs @ t)"
proof -
  obtain c ds where cs: "cs = c # ds" using assms(2) by (cases cs) auto
  have e: "at_end (path_text ds @ t)" using assms(6) by (cases ds) (auto simp: at_end_def is_slash_def)
  have "last (out @ backslash # c) \<noteq> backslash"
    using component_nonempty [of c] component_last [of c] assms(1) cs by simp
  then have "segments backslash root False (path_text ds @ t) (out @ backslash # c) = Inr (False, (out @ backslash # c) @ path_text ds @ t)"
    by (intro segments_fixed) (use assms cs in auto)
  then show ?thesis using segments_step [of c "path_text ds @ t" out "[]" root] e assms cs by simp
qed

text \<open>
  C35: names have the canonical type. Whatever name is appended to a canonical directory name behind a prefix such as
  \<open>C:\<close>, the result of the component loop of \<^verbatim>\<open>truename\<close> is canonical again: the prefix, components of 8.3
  form without \<open>.\<close> and \<open>..\<close>, at most one backslash at the end, at most 128 characters. A canonical name
  without wildcards is a fixed point.
\<close>

theorem path_components_canonical:
  assumes "segments backslash (length pre) wild src out = Inr (w, out')"
    and "pre \<noteq> []" "last pre \<noteq> backslash" "full_name pre out" "length out \<le> SFTMAX"
  shows "full_name pre out' \<and> length out' \<le> SFTMAX
    \<and> (\<exists>rest. out' = pre @ rest \<and> (qmark \<notin> set rest \<longrightarrow> segments backslash (length pre) False rest pre = Inr (False, out')))"
proof -
  have f: "full_name pre out'" "length out' \<le> SFTMAX"
    using segments_full_name [OF assms(1) refl refl assms(2-5)] by simp_all
  obtain cs t where c: "list_all component cs" "t = [] \<or> t = [backslash]" "out' = pre @ path_text cs @ t"
    using f(1) unfolding full_name_def by blast
  have "segments backslash (length pre) False (path_text cs @ t) pre = Inr (False, out')" if "qmark \<notin> set (path_text cs @ t)"
    using segments_fixed [OF c(1) _ assms(2,3) c(2), of "length pre"] that f(2) c(3) by simp
  then show ?thesis using f c(3) by blast
qed

theorem path_components_canonical_witness:
  "\<exists>out'. segments backslash (length [0x43, 0x3a :: u8]) False [0x5c, 0x44, 0x5c, 0x2e, 0x2e, 0x5c, 0x41, 0x2e, 0x42] [0x43, 0x3a]
       = Inr (False, out') \<and> full_name [0x43, 0x3a] out'"
proof -
  have r: "segments backslash (length [0x43, 0x3a :: u8]) False [0x5c, 0x44, 0x5c, 0x2e, 0x2e, 0x5c, 0x41, 0x2e, 0x42] [0x43, 0x3a]
      = Inr (False, [0x43, 0x3a, 0x5c, 0x41, 0x2e, 0x42])" by code_simp
  have "full_name [0x43, 0x3a] [0x43, 0x3a]" using full_name_comps [of "[]" "[0x43, 0x3a]"] by simp
  then have "full_name [0x43, 0x3a] [0x43, 0x3a, 0x5c, 0x41, 0x2e, 0x42]"
    using path_components_canonical [OF r] by (simp add: SFTMAX_def)
  then show ?thesis using r by blast
qed

end
