(* ===== verification/Dos_Handle_Table.thy ===== *)
theory Dos_Handle_Table
  imports Dos_Handles
begin

text \<open>
  The handle table of a process and the reference counts of the system file table: what each operation does to
  both, and that no handle of the process refers to an entry with fewer references than handles.
\<close>

section \<open>Numbers of entries\<close>

text \<open>The walk along the tables finds the entry that has the number in all of them.\<close>

lemma concat_entry:
  assumes k: "k < length ts" and j: "j < length (ts ! k)" and i: "i = length (concat (take k ts)) + j"
  shows "i < length (concat ts)" "concat ts ! i = ts ! k ! j"
    "concat (ts[k := (ts ! k)[j := x]]) = (concat ts)[i := x]"
proof -
  have ts: "ts = take k ts @ ts ! k # drop (Suc k) ts" by (rule id_take_nth_drop [OF k])
  have c: "concat ts = concat (take k ts) @ ts ! k @ concat (drop (Suc k) ts)" by (subst ts) simp
  show "i < length (concat ts)" using j i unfolding c by simp
  show "concat ts ! i = ts ! k ! j" using j i unfolding c by (simp add: nth_append)
  have "concat (ts[k := (ts ! k)[j := x]]) = concat (take k ts) @ (ts ! k)[j := x] @ concat (drop (Suc k) ts)"
    using k by (simp add: upd_conv_take_nth_drop)
  then show "concat (ts[k := (ts ! k)[j := x]]) = (concat ts)[i := x]"
    using j i unfolding c by (simp add: list_update_append)
qed

lemma locate_entry:
  "locate ts b i = Some q \<Longrightarrow> \<exists>k j. q = (b + k, j) \<and> k < length ts \<and> j < length (ts ! k) \<and> i = length (concat (take k ts)) + j"
proof (induction ts arbitrary: b i)
  case (Cons t ts)
  show ?case
  proof (cases "i < length t")
    case True
    then have "q = (b + 0, i)" using Cons.prems by simp
    then show ?thesis using True by (intro exI [of _ 0] exI [of _ i]) simp
  next
    case False
    then have "locate ts (b + 1) (i - length t) = Some q" using Cons.prems by simp
    from Cons.IH [OF this] obtain k j where "q = (b + 1 + k, j)" "k < length ts" "j < length (ts ! k)"
      "i - length t = length (concat (take k ts)) + j" by blast
    then show ?thesis using False by (intro exI [of _ "Suc k"] exI [of _ j]) simp
  qed
qed simp

lemma locate_concat:
  assumes "locate ts 0 i = Some q"
  shows "fst q < length ts" "snd q < length (ts ! fst q)" "i < length (concat ts)" "concat ts ! i = ts ! fst q ! snd q"
    "concat (ts[fst q := (ts ! fst q)[snd q := x]]) = (concat ts)[i := x]"
proof -
  obtain k j where q: "q = (k, j)" and h: "k < length ts" "j < length (ts ! k)" "i = length (concat (take k ts)) + j"
    using locate_entry [OF assms] by auto
  show "fst q < length ts" "snd q < length (ts ! fst q)" unfolding q using h by simp_all
  show "i < length (concat ts)" by (rule concat_entry(1) [OF h])
  show "concat ts ! i = ts ! fst q ! snd q" unfolding q using concat_entry(2) [OF h] by simp
  show "concat (ts[fst q := (ts ! fst q)[snd q := x]]) = (concat ts)[i := x]" unfolding q using concat_entry(3) [OF h] by simp
qed

lemma locate_lengths: "map length ts' = map length ts \<Longrightarrow> locate ts' b i = locate ts b i"
proof (induction ts arbitrary: ts' b i)
  case (Cons t ts)
  then obtain t' us where h: "ts' = t' # us" "length t' = length t" "map length us = map length ts"
    by (auto simp: map_eq_Cons_conv)
  show ?case unfolding h(1) locate.simps h(2) Cons.IH [OF h(3)] by (rule refl)
qed simp

lemma locate_total: "i < length (concat ts) \<Longrightarrow> \<exists>q. locate ts b i = Some q"
proof (induction ts arbitrary: b i)
  case (Cons t ts)
  show ?case
  proof (cases "i < length t")
    case False
    then have "i - length t < length (concat ts)" using Cons.prems by simp
    from Cons.IH [OF this] show ?thesis using False by simp
  qed simp
qed simp

definition key :: "sft \<Rightarrow> u16 \<times> u16" where
  "key t = (sft_count t, sft_flags t AND SFT_FSHARED)"

definition keys :: "('c, 'd) fsys \<Rightarrow> (u16 \<times> u16) list" where
  "keys s = map key (concat (sfthead s))"

definition handle_table :: "('c, 'd) fsys \<Rightarrow> bytes" where
  "handle_table s = ps_filetab (cur_psp s)"

text \<open>The processes and the keys of the entries are as before.\<close>

definition frame :: "('c, 'd) fsys \<Rightarrow> ('c, 'd) fsys \<Rightarrow> bool" where
  "frame s s' \<longleftrightarrow> psps s' = psps s \<and> cu_psp s' = cu_psp s \<and> map (map key) (sfthead s') = map (map key) (sfthead s)"

lemma frame_refl [simp]: "frame s s" by (simp add: frame_def)

lemma frame_trans [trans]: "frame s1 s2 \<Longrightarrow> frame s2 s3 \<Longrightarrow> frame s1 s3" by (simp add: frame_def)

lemma frame_fields [simp]:
  "frame s (s'\<lparr>lpCurSft := a\<rparr>) = frame s s'" "frame s (s'\<lparr>fio := e\<rparr>) = frame s s'" "frame s (s'\<lparr>fnode0 := f\<rparr>) = frame s s'"
  "frame s (s'\<lparr>shr := sh\<rparr>) = frame s s'" "frame s (s'\<lparr>share_installed := b\<rparr>) = frame s s'" "frame s (s'\<lparr>chars := c\<rparr>) = frame s s'"
  by (simp_all add: frame_def)

lemma frame_keys: "frame s s' \<Longrightarrow> keys s' = keys s"
  by (simp add: frame_def keys_def map_concat)

lemma frame_locate:
  assumes "frame s s'"
  shows "locate (sfthead s') b i = locate (sfthead s) b i"
proof (rule locate_lengths)
  have "map length (map (map key) (sfthead s')) = map length (map (map key) (sfthead s))"
    using assms by (simp only: frame_def)
  then show "map length (sfthead s') = map length (sfthead s)" by (simp add: comp_def)
qed

lemma frame_at:
  assumes "frame s s'" "locate (sfthead s) 0 i = Some q"
  shows "key (sft_at q s') = key (sft_at q s)"
proof -
  have l: "locate (sfthead s') 0 i = Some q" using assms frame_locate by metis
  note a = locate_concat [OF assms(2)] locate_concat [OF l]
  have "keys s' ! i = keys s ! i" by (simp add: frame_keys [OF assms(1)])
  then show ?thesis using a by (simp add: keys_def sft_at_def)
qed

lemma frame_upd:
  assumes "key (f (sft_at q s)) = key (sft_at q s)"
  shows "frame s (upd_sft q f s)"
proof -
  have "map (map key) ((sfthead s)[fst q := (sfthead s ! fst q)[snd q := f (sft_at q s)]]) = map (map key) (sfthead s)"
  proof (cases "fst q < length (sfthead s)")
    case True
    have "(map key (sfthead s ! fst q))[snd q := key (sft_at q s)] = map key (sfthead s ! fst q)"
      by (cases "snd q < length (sfthead s ! fst q)") (simp_all add: sft_at_def list_update_same_conv list_update_beyond)
    then show ?thesis using True assms by (simp add: map_update list_update_same_conv)
  qed (simp add: list_update_beyond)
  then show ?thesis by (simp add: frame_def upd_sft_def)
qed

lemma keys_upd:
  assumes "locate (sfthead s) 0 i = Some q"
  shows "keys (upd_sft q f s) = (keys s)[i := key (f (sft_at q s))]"
  using locate_concat [OF assms] by (simp add: keys_def upd_sft_def map_update)

lemma key_at:
  assumes "locate (sfthead s) 0 i = Some q"
  shows "i < length (keys s)" "keys s ! i = key (sft_at q s)"
  using locate_concat [OF assms] by (simp_all add: keys_def sft_at_def)

lemma idx_to_sft_Some:
  assumes "idx_to_sft i s = (Some q, s')"
  shows "0 \<le> i" "locate (sfthead s) 0 (nat i) = Some q" "sft_count (sft_at q s) \<noteq> 0" "s' = s\<lparr>lpCurSft := Some q\<rparr>"
  using assms by (auto simp: idx_to_sft_def idx_to_sft0_def Let_def sft_at_def split: if_splits option.splits)

lemma idx_to_sft_frame: "idx_to_sft i s = (r, s') \<Longrightarrow> frame s s'"
  by (auto simp: idx_to_sft_def idx_to_sft0_def Let_def split: if_splits option.splits)

section \<open>What the file system layer keeps\<close>

lemma sft_to_fnode_frame: "sft_to_fnode fd s = Some s' \<Longrightarrow> frame s s'"
  by (auto simp: sft_to_fnode_def Let_def split: prod.splits option.splits dcb_or_dev.splits dest: idx_to_sft_frame)

lemma distribute_frame: "frame s (distribute_changes qs s)"
proof (induction qs s rule: distribute_changes.induct)
  case (2 i q qs s)
  define s1 where "s1 = (if same_open_file (fnode0 s) i (sft_at q s) then
      upd_sft q (\<lambda>t. t\<lparr>sft_stclust := getdstart (dpbs (fio s) (f_dpb (fnode0 s))) (f_dir (fnode0 s)), sft_size := dir_size (f_dir (fnode0 s)),
        sft_date := dir_date (f_dir (fnode0 s)), sft_time := dir_time (f_dir (fnode0 s))\<rparr>) s else s)"
  have "frame s s1" unfolding s1_def by (auto intro!: frame_upd simp: key_def)
  moreover have "frame s1 (distribute_changes qs s1)" unfolding s1_def by (rule "2.IH" [OF refl])
  moreover have "distribute_changes ((i, q) # qs) s = distribute_changes qs s1" by (simp add: s1_def Let_def)
  ultimately show ?case using frame_trans by metis
qed simp

lemma merge_frame: "frame s (merge_file_changes False s)"
  by (simp add: merge_file_changes_def distribute_frame)

lemma dos_close_frame: "dos_close ou fd s = Some (r, s') \<Longrightarrow> frame s s'"
proof -
  assume a: "dos_close ou fd s = Some (r, s')"
  then obtain s1 where s1: "sft_to_fnode fd s = Some s1" by (auto simp: dos_close_def bind_eq_Some_conv)
  have f: "frame s s1" by (rule sft_to_fnode_frame [OF s1])
  have g: "frame s (merge_file_changes False t)" if "frame s t" for t using frame_trans [OF that merge_frame] .
  show "frame s s'" using a unfolding dos_close_def s1 Let_def
    by (auto simp: bind_eq_Some_conv f g)
qed

lemma release_share_frame: "release_share q s = Some s' \<Longrightarrow> frame s s'"
proof -
  have u: "frame t (upd_sft q (\<lambda>t. t\<lparr>sft_shroff := v\<rparr>) t)" for t :: "('a, 'b) fsys" and v
    by (rule frame_upd) (simp add: key_def)
  assume "release_share q s = Some s'"
  then show ?thesis
    by (auto simp: release_share_def IsShareInstalled_def bind_eq_Some_conv split: if_splits
        intro!: frame_trans [OF _ u])
qed

lemma device_request_frame: "device_request ou k cmd s = (b, s') \<Longrightarrow> frame s s'"
  by (auto simp: device_request_def split: prod.splits)

section \<open>Closing an entry\<close>

text \<open>Either nothing happened to the keys, or one reference of the entry went.\<close>

definition closed_one :: "int \<Rightarrow> ('c, 'd) fsys \<Rightarrow> ('c, 'd) fsys \<Rightarrow> bool" where
  "closed_one i s s' \<longleftrightarrow>
     (\<exists>q t. 0 \<le> i \<and> locate (sfthead s) 0 (nat i) = Some q \<and> sft_count (sft_at q s) \<noteq> 0 \<and> frame s t \<and> s' = drop_count q t)"

definition local_entry :: "int \<Rightarrow> ('c, 'd) fsys \<Rightarrow> bool" where
  "local_entry i s \<longleftrightarrow> (\<forall>q. 0 \<le> i \<longrightarrow> locate (sfthead s) 0 (nat i) = Some q \<longrightarrow> sft_flags (sft_at q s) AND SFT_FSHARED = 0)"

lemma close_device_frame:
  assumes "close_device ou q commitonly s = Some (r, s')"
  shows "if r = 0 \<and> \<not> commitonly then \<exists>t. frame s t \<and> s' = drop_count q t else frame s s'"
  using assms device_request_frame
  by (auto simp: close_device_def split: dcb_or_dev.splits prod.splits if_splits) (blast intro: frame_refl)+

lemma idx_to_sft_None: "idx_to_sft i s = (None, s') \<Longrightarrow> frame s s'"
  by (rule idx_to_sft_frame)

lemma DosCloseSft_cases:
  assumes a: "DosCloseSft ou i commitonly s = Some (r, s')" and l: "local_entry i s"
  shows "if r = 0 \<and> \<not> commitonly then closed_one i s s' else frame s s'"
proof (cases "idx_to_sft i s")
  case (Pair x s1)
  show ?thesis
  proof (cases x)
    case None
    then show ?thesis using a Pair idx_to_sft_frame [OF Pair] by (simp add: DosCloseSft_def)
  next
    case (Some q)
    note q = idx_to_sft_Some [OF Pair [unfolded Some]]
    let ?s2 = "s1\<lparr>lpCurSft := Some q\<rparr>"
    have f2: "frame s ?s2" by (simp add: q(4))
    have at: "sft_at q s1 = sft_at q s" by (simp add: q(4) sft_at_def)
    have one: "closed_one i s (drop_count q t)" if "frame ?s2 t" for t
      using q(1-3) frame_trans [OF f2 that] by (auto simp: closed_one_def)
    have sh: "sft_flags (sft_at q s) AND SFT_FSHARED = 0" using l q(1,2) by (simp add: local_entry_def)
    show ?thesis
    proof (cases "sft_flags (sft_at q s) AND SFT_FDEVICE = 0")
      case False
      then have "close_device ou q commitonly ?s2 = Some (r, s')"
        using a sh by (simp add: DosCloseSft_def Pair Some at)
      from close_device_frame [OF this] show ?thesis
        using one frame_trans [OF f2] by (auto split: if_splits)
    next
      case True
      then obtain res s3 where c: "dos_close ou (nat i) ?s2 = Some (res, s3)"
        and b: "(if commitonly \<or> res \<noteq> 0 then Some (res, s3)
                 else release_share q s3 \<bind> (\<lambda>s4. Some (0, drop_count q s4))) = Some (r, s')"
        using a sh by (auto simp: DosCloseSft_def Pair Some at bind_eq_Some_conv)
      note f3 = dos_close_frame [OF c]
      show ?thesis
      proof (cases "commitonly \<or> res \<noteq> 0")
        case True
        then show ?thesis using b frame_trans [OF f2 f3] by auto
      next
        case False
        then obtain s4 where "release_share q s3 = Some s4" "r = 0" "s' = drop_count q s4"
          using b by (auto simp: bind_eq_Some_conv)
        then show ?thesis using False one [OF frame_trans [OF f3 release_share_frame]] by auto
      qed
    qed
  qed
qed

lemma closed_one_effect:
  assumes "closed_one i s s'"
  shows "0 \<le> i" "nat i < length (keys s)" "fst (keys s ! nat i) \<noteq> 0"
    "keys s' = (keys s)[nat i := (fst (keys s ! nat i) - 1, snd (keys s ! nat i))]"
    "psps s' = psps s" "cu_psp s' = cu_psp s"
proof -
  obtain q t where h: "0 \<le> i" "locate (sfthead s) 0 (nat i) = Some q" "sft_count (sft_at q s) \<noteq> 0" "frame s t" "s' = drop_count q t"
    using assms unfolding closed_one_def by blast
  show "0 \<le> i" by (rule h(1))
  show "nat i < length (keys s)" by (rule key_at [OF h(2)])
  show "fst (keys s ! nat i) \<noteq> 0" using h(3) by (simp add: key_at [OF h(2)] key_def)
  have l: "locate (sfthead t) 0 (nat i) = Some q" using h(2) by (simp add: frame_locate [OF h(4)])
  show "keys s' = (keys s)[nat i := (fst (keys s ! nat i) - 1, snd (keys s ! nat i))]"
    unfolding h(5) drop_count_def keys_upd [OF l] frame_keys [OF h(4)] key_at [OF h(2)]
    using frame_at [OF h(4) h(2)] by (simp add: key_def)
  show "psps s' = psps s" "cu_psp s' = cu_psp s" using h(4) by (simp_all add: h(5) drop_count_def upd_sft_def frame_def)
qed

lemma add_ref_effect:
  assumes "locate (sfthead s) 0 i = Some q"
  shows "keys (add_ref q s) = (keys s)[i := (fst (keys s ! i) + 1, snd (keys s ! i))]"
    "psps (add_ref q s) = psps s" "cu_psp (add_ref q s) = cu_psp s"
  by (simp_all add: add_ref_def keys_upd [OF assms] key_at [OF assms] key_def) (simp_all add: upd_sft_def)

end
