(* ===== verification/Task.thy ===== *)
theory Task
  imports Dos_Names
begin

text \<open>
  Processes, \<^verbatim>\<open>kernel/task.c\<close>: the program segment prefix of a child, the table of program versions, and the
  end of a process. The interrupt vectors are a function from numbers to far pointers.
\<close>

section \<open>Program segment prefixes\<close>

definition blank_fcb :: "bytes \<Rightarrow> bytes" where
  "blank_fcb f = fmemcpy f (0 # replicate 11 blank) 12"

definition upd_psp :: "u16 \<Rightarrow> (psp \<Rightarrow> psp) \<Rightarrow> ('c, 'd) fsys \<Rightarrow> ('c, 'd) fsys" where
  "upd_psp p f s = s\<lparr>psps := (psps s)(p := f (psps s p))\<rparr>"

text \<open>
  The copy takes the pointer to the handle table along. The table of the copy is the same table until
  \<^verbatim>\<open>child_psp\<close> gives the child its own.
\<close>

definition new_psp :: "(u8 \<Rightarrow> far) \<Rightarrow> u16 \<Rightarrow> u16 \<Rightarrow> u16 \<Rightarrow> ('c, 'd) fsys \<Rightarrow> ('c, 'd) fsys" where
  "new_psp vec ver para cur s =
     upd_psp para (\<lambda>_. (psps s cur)\<lparr>ps_isv22 := vec 0x22, ps_isv23 := vec 0x23, ps_isv24 := vec 0x24, ps_retdosver := ver\<rparr>) s"

text \<open>Clones the handles of \<open>cur\<close> one by one; a handle that may not be inherited stays free in the child.\<close>

fun clone_files :: "u16 \<Rightarrow> u16 \<Rightarrow> nat list \<Rightarrow> ('c, 'd) fsys \<Rightarrow> ('c, 'd) fsys" where
  "clone_files para cur [] s = s"
| "clone_files para cur (i # is) s =
     (case CloneHandle (of_nat i) s of (r, s1) \<Rightarrow>
        clone_files para cur is
          (if r \<ge> 0 then upd_psp para (\<lambda>p. p\<lparr>ps_filetab := (ps_filetab p)[i := ps_filetab (psps s1 cur) ! i]\<rparr>) s1 else s1))"

definition child_psp :: "(u8 \<Rightarrow> far) \<Rightarrow> u16 \<Rightarrow> u16 \<Rightarrow> u16 \<Rightarrow> u16 \<Rightarrow> ('c, 'd) fsys \<Rightarrow> ('c, 'd) fsys" where
  "child_psp vec ver para cur psize s =
     upd_psp para (\<lambda>p. p\<lparr>ps_fcb1 := blank_fcb (ps_fcb1 p), ps_fcb2 := blank_fcb (ps_fcb2 p), ps_cmd := fmemcpy (ps_cmd p) [0, 0x0d] 2\<rparr>)
       (clone_files para cur [0..<20]
          (upd_psp para (\<lambda>p. p\<lparr>ps_parent := cu_psp s, ps_prevpsp := cur, ps_size := psize, ps_maxfiles := 20,
               ps_filetab := replicate 20 0xff\<rparr>) (new_psp vec ver para cur s)))"

section \<open>The end of a process\<close>

text \<open>The loop that closes every handle of the process.\<close>

fun close_handles :: "('c, 'd) outside \<Rightarrow> nat list \<Rightarrow> ('c, 'd) fsys \<Rightarrow> ('c, 'd) fsys option" where
  "close_handles ou [] s = Some s"
| "close_handles ou (i # is) s = do { (_, s1) \<leftarrow> DosClose ou (of_nat i) s; close_handles ou is s1 }"

end
