(* ===== verification/Handle_Refs.thy ===== *)
theory Handle_Refs
  imports Dos_Handle_Table Task "HOL-Library.Multiset"
begin

text \<open>
  The invariant of the handle tables of several processes: an entry of the system file table has at least as many
  references as handles name it. The handles of all processes are seen as one multiset of numbers.
\<close>

section \<open>References and handles\<close>

lemma inc_ne_max: "x \<noteq> 0xffff \<Longrightarrow> unat (x + 1 :: u16) = unat x + 1"
proof (rule unat16_inc)
  assume "x \<noteq> 0xffff"
  then have "unat x \<noteq> 65535" by (simp add: word_unat_eq_iff)
  then show "unat x < 65535" using unat16_lt [of x] by linarith
qed

lemma dec_ne0: "x \<noteq> 0 \<Longrightarrow> unat (x - 1 :: u16) = unat x - 1"
  by (rule unat16_dec) (simp add: unat_gt_0)

definition refs_ok :: "(u16 \<times> u16) list \<Rightarrow> u8 multiset \<Rightarrow> bool" where
  "refs_ok ks M \<longleftrightarrow> (\<forall>v \<in># M. v = 0xff \<or> unat v < length ks \<and> count M v \<le> unat (fst (ks ! unat v)) \<and> snd (ks ! unat v) = 0)"

lemma refs_okD:
  assumes "refs_ok ks M" "v \<in># M" "v \<noteq> 0xff"
  shows "unat v < length ks" "count M v \<le> unat (fst (ks ! unat v))" "snd (ks ! unat v) = 0"
  using assms by (auto simp: refs_ok_def)

lemma refs_ok_free: "refs_ok ks (M - {#v#}) \<Longrightarrow> refs_ok ks (add_mset 0xff (M - {#v#}))"
  by (auto simp: refs_ok_def)

lemma refs_ok_add_free: "refs_ok ks M \<Longrightarrow> refs_ok ks (add_mset 0xff M)"
  by (auto simp: refs_ok_def)

lemma refs_ok_remove: "refs_ok ks M \<Longrightarrow> refs_ok ks (M - {#v#})"
  unfolding refs_ok_def by (auto dest!: in_diffD simp: le_diff_conv)

text \<open>One reference less for an entry with more references than handles.\<close>

lemma refs_ok_less:
  assumes "refs_ok ks M" "fst (ks ! i) \<noteq> 0" "i < length ks" "\<And>v. v \<in># M \<Longrightarrow> v \<noteq> 0xff \<Longrightarrow> unat v = i \<Longrightarrow> count M v < unat (fst (ks ! i))"
  shows "refs_ok (ks[i := (fst (ks ! i) - 1, snd (ks ! i))]) M"
proof -
  have u: "unat (fst (ks ! i) - 1) = unat (fst (ks ! i)) - 1" using dec_ne0 [OF assms(2)] by simp
  show ?thesis unfolding refs_ok_def
  proof
    fix v assume v: "v \<in># M"
    show "v = 0xff \<or> unat v < length (ks[i := (fst (ks ! i) - 1, snd (ks ! i))])
      \<and> count M v \<le> unat (fst (ks[i := (fst (ks ! i) - 1, snd (ks ! i))] ! unat v)) \<and> snd (ks[i := (fst (ks ! i) - 1, snd (ks ! i))] ! unat v) = 0"
    proof (cases "v = 0xff")
      case False
      note d = refs_okD [OF assms(1) v False]
      show ?thesis
      proof (cases "unat v = i")
        case True
        have "count M v \<le> unat (fst (ks ! i) - 1)" using assms(4) [OF v False True] u by linarith
        then show ?thesis using d True assms(3) by simp
      qed (use d in simp)
    qed simp
  qed
qed

text \<open>One reference more, with or without a handle for it.\<close>

lemma refs_ok_more:
  assumes "refs_ok ks M" "i < length ks" "fst (ks ! i) \<noteq> 0xffff"
  shows "refs_ok (ks[i := (fst (ks ! i) + 1, snd (ks ! i))]) M"
proof -
  have u: "unat (fst (ks ! i) + 1) = unat (fst (ks ! i)) + 1" using inc_ne_max [OF assms(3)] by simp
  show ?thesis unfolding refs_ok_def
  proof
    fix v assume v: "v \<in># M"
    show "v = 0xff \<or> unat v < length (ks[i := (fst (ks ! i) + 1, snd (ks ! i))])
      \<and> count M v \<le> unat (fst (ks[i := (fst (ks ! i) + 1, snd (ks ! i))] ! unat v)) \<and> snd (ks[i := (fst (ks ! i) + 1, snd (ks ! i))] ! unat v) = 0"
    proof (cases "v = 0xff")
      case False
      note d = refs_okD [OF assms(1) v False]
      show ?thesis using d u assms(2) by (cases "unat v = i") simp_all
    qed simp
  qed
qed

lemma refs_ok_handle:
  assumes r: "refs_ok ks M" and i: "unat v < length ks" and k: "fst (ks ! unat v) \<noteq> 0xffff" "snd (ks ! unat v) = 0"
    and c: "count M v \<le> unat (fst (ks ! unat v))"
  shows "refs_ok (ks[unat v := (fst (ks ! unat v) + 1, snd (ks ! unat v))]) (add_mset v M)"
proof -
  let ?ks = "ks[unat v := (fst (ks ! unat v) + 1, snd (ks ! unat v))]"
  have u: "unat (fst (ks ! unat v) + 1) = unat (fst (ks ! unat v)) + 1" using inc_ne_max [OF k(1)] by simp
  have m: "refs_ok ?ks M" by (rule refs_ok_more [OF r i k(1)])
  show ?thesis unfolding refs_ok_def
  proof
    fix w assume w: "w \<in># add_mset v M"
    show "w = 0xff \<or> unat w < length ?ks \<and> count (add_mset v M) w \<le> unat (fst (?ks ! unat w)) \<and> snd (?ks ! unat w) = 0"
    proof (cases "w = v")
      case True
      then show ?thesis using i u c k(2) by simp
    next
      case False
      then show ?thesis using w refs_okD [OF m, of w] by auto
    qed
  qed
qed

text \<open>A closed handle: the mark goes first, then the reference.\<close>

lemma refs_ok_closed:
  assumes r: "refs_ok ks M" and v: "v \<in># M" "v \<noteq> 0xff"
  shows "refs_ok (ks[unat v := (fst (ks ! unat v) - 1, snd (ks ! unat v))]) (add_mset 0xff (M - {#v#}))"
proof (rule refs_ok_less)
  note d = refs_okD [OF r v]
  have "0 < count M v" using v(1) by simp
  then show n: "fst (ks ! unat v) \<noteq> 0" using d(2) by (metis le_zero_eq neq0_conv unat_0)
  show "refs_ok ks (add_mset 0xff (M - {#v#}))" by (rule refs_ok_free [OF refs_ok_remove [OF r]])
  show "unat v < length ks" by (rule d(1))
  fix w assume "w \<in># add_mset 0xff (M - {#v#})" "w \<noteq> 0xff" "unat w = unat v"
  then have "w = v" by (simp add: word_unat_eq_iff)
  then show "count (add_mset 0xff (M - {#v#})) w < unat (fst (ks ! unat v))"
    using d(2) v \<open>0 < count M v\<close> by (cases "count M v") auto
qed

section \<open>The handles of several processes\<close>

definition all_handles :: "u16 list \<Rightarrow> ('c, 'd) fsys \<Rightarrow> u8 multiset" where
  "all_handles ps s = mset (concat (map (\<lambda>p. ps_filetab (psps s p)) ps))"

definition handles_ok :: "u16 list \<Rightarrow> ('c, 'd) fsys \<Rightarrow> bool" where
  "handles_ok ps s \<longleftrightarrow> distinct ps \<and> cu_psp s \<in> set ps \<and> length (keys s) < 0x100
     \<and> (\<forall>p \<in> set ps. length (ps_filetab (psps s p)) = unat (ps_maxfiles (psps s p)))
     \<and> refs_ok (keys s) (all_handles ps s)"

lemma all_handles_cong: "(\<And>p. p \<in> set ps \<Longrightarrow> ps_filetab (psps s' p) = ps_filetab (psps s p)) \<Longrightarrow> all_handles ps s' = all_handles ps s"
  by (simp add: all_handles_def cong: map_cong)

lemma all_handles_member:
  assumes "p \<in> set ps" "h < length (ps_filetab (psps s p))"
  shows "ps_filetab (psps s p) ! h \<in># all_handles ps s"
  using assms nth_mem by (auto simp: all_handles_def)

lemma all_handles_set:
  assumes d: "distinct ps" and p: "p \<in> set ps" and h: "h < length (ps_filetab (psps s p))"
    and t: "ps_filetab (psps s' p) = (ps_filetab (psps s p))[h := x]"
    and o: "\<And>q. q \<noteq> p \<Longrightarrow> ps_filetab (psps s' q) = ps_filetab (psps s q)"
  shows "all_handles ps s' = add_mset x (all_handles ps s - {# ps_filetab (psps s p) ! h #})"
proof -
  obtain as bs where ps: "ps = as @ p # bs" using split_list [OF p] by blast
  have n: "p \<notin> set as" "p \<notin> set bs" using d by (auto simp: ps)
  have e: "map (\<lambda>q. ps_filetab (psps s' q)) as = map (\<lambda>q. ps_filetab (psps s q)) as"
    "map (\<lambda>q. ps_filetab (psps s' q)) bs = map (\<lambda>q. ps_filetab (psps s q)) bs"
    by (rule map_cong [OF refl o], use n in blast)+
  have "ps_filetab (psps s p) ! h \<in># mset (ps_filetab (psps s p))" using h by simp
  then show ?thesis by (simp add: all_handles_def ps e t mset_update [OF h])
qed

lemma handles_frame:
  assumes "handles_ok ps s" "frame s s'"
  shows "handles_ok ps s'"
  using assms all_handles_cong [of ps s' s] by (simp add: handles_ok_def frame_keys) (simp add: frame_def)

end
