(* ===== verification/Handle_Ops.thy ===== *)
theory Handle_Ops
  imports Handle_Refs
begin

text \<open>
  Every operation on handles keeps the invariant of the handle tables: closing, duplicating, cloning, the file table
  of a child process and the end of a process.
\<close>

section \<open>From a handle to its entry\<close>

lemma handles_okD:
  assumes "handles_ok ps s"
  shows "distinct ps" "cu_psp s \<in> set ps" "length (keys s) < 0x100" "refs_ok (keys s) (all_handles ps s)"
    "\<And>p. p \<in> set ps \<Longrightarrow> length (ps_filetab (psps s p)) = unat (ps_maxfiles (psps s p))"
    "length (handle_table s) = unat (ps_maxfiles (cur_psp s))"
  using assms by (simp_all add: handles_ok_def handle_table_def cur_psp_def)

lemma get_sft_idx_cases:
  assumes "handles_ok ps s"
  obtains "get_sft_idx h s < 0"
  | "unat h < length (handle_table s)" "handle_table s ! unat h \<noteq> 0xff" "get_sft_idx h s = int (unat (handle_table s ! unat h))"
  using handles_okD(6) [OF assms] that
  by (cases "h \<ge> ps_maxfiles (cur_psp s)"; cases "handle_table s ! unat h = 0xff")
    (auto simp: get_sft_idx_def handle_table_def Let_def word_le_nat_alt not_le)

lemma in_handles:
  assumes "handles_ok ps s" "h < length (handle_table s)"
  shows "handle_table s ! h \<in># all_handles ps s"
  using assms all_handles_member [of "cu_psp s" ps h s] by (simp add: handles_okD handle_table_def cur_psp_def)

lemma handle_entry:
  assumes i: "handles_ok ps s" and h: "unat (h :: u16) < length (handle_table s)" "handle_table s ! unat h \<noteq> 0xff"
  shows "unat (handle_table s ! unat h) < length (keys s)"
    "count (all_handles ps s) (handle_table s ! unat h) \<le> unat (fst (keys s ! unat (handle_table s ! unat h)))"
    "snd (keys s ! unat (handle_table s ! unat h)) = 0"
    "fst (keys s ! unat (handle_table s ! unat h)) \<noteq> 0"
proof -
  let ?v = "handle_table s ! unat h"
  note m = in_handles [OF i h(1)]
  note d = refs_okD [OF handles_okD(4) [OF i] m h(2)]
  show "unat ?v < length (keys s)" "count (all_handles ps s) ?v \<le> unat (fst (keys s ! unat ?v))" "snd (keys s ! unat ?v) = 0"
    by (rule d)+
  have "0 < count (all_handles ps s) ?v" using m by simp
  then show "fst (keys s ! unat ?v) \<noteq> 0" using d(2) by (metis le_zero_eq neq0_conv unat_0)
qed

text \<open>A handle of the process never dangles.\<close>

lemma handle_found:
  assumes i: "handles_ok ps s" and h: "unat (h :: u16) < length (handle_table s)" "handle_table s ! unat h \<noteq> 0xff"
  obtains q where "locate (sfthead s) 0 (unat (handle_table s ! unat h)) = Some q" "get_sft h s = (Some q, s\<lparr>lpCurSft := Some q\<rparr>)"
    "sft_flags (sft_at q s) AND SFT_FSHARED = 0"
proof -
  let ?v = "handle_table s ! unat h"
  note e = handle_entry [OF i h]
  have "unat ?v < length (concat (sfthead s))" using e(1) by (simp add: keys_def)
  then obtain q where q: "locate (sfthead s) 0 (unat ?v) = Some q" using locate_total by blast
  have k: "key (sft_at q s) = keys s ! unat ?v" by (simp add: key_at [OF q])
  have "get_sft_idx h s = int (unat ?v)"
    using h handles_okD(6) [OF i] by (simp add: get_sft_idx_def handle_table_def word_le_nat_alt not_le)
  moreover have "sft_count (sft_at q s) \<noteq> 0" using e(4) k by (simp add: key_def prod_eq_iff)
  ultimately have "get_sft h s = (Some q, s\<lparr>lpCurSft := Some q\<rparr>)"
    by (simp add: get_sft_def idx_to_sft_def idx_to_sft0_def q sft_at_def)
  then show thesis using that q e(3) k by (simp add: key_def prod_eq_iff)
qed

lemma local_handle:
  assumes i: "handles_ok ps s" and h: "unat (h :: u16) < length (handle_table s)" "handle_table s ! unat h \<noteq> 0xff"
  shows "local_entry (int (unat (handle_table s ! unat h))) s"
  using handle_found [OF i h] by (metis local_entry_def nat_int option.inject)

lemma get_sft_Some:
  assumes "handles_ok ps s" "get_sft h s = (Some q, s1)"
  shows "unat h < length (handle_table s)" "handle_table s ! unat h \<noteq> 0xff"
    "locate (sfthead s) 0 (unat (handle_table s ! unat h)) = Some q" "s1 = s\<lparr>lpCurSft := Some q\<rparr>"
proof -
  note f = idx_to_sft_Some [OF assms(2) [unfolded get_sft_def]]
  show h: "unat h < length (handle_table s)" "handle_table s ! unat h \<noteq> 0xff"
    using f(1) get_sft_idx_cases [OF assms(1), of h] by fastforce+
  show "locate (sfthead s) 0 (unat (handle_table s ! unat h)) = Some q"
    using f(2) h handles_okD(6) [OF assms(1)] by (simp add: get_sft_idx_def handle_table_def word_le_nat_alt not_le)
  show "s1 = s\<lparr>lpCurSft := Some q\<rparr>" by (rule f(4))
qed

lemma frame_table: "frame s s' \<Longrightarrow> handle_table s' = handle_table s"
  by (simp add: frame_def handle_table_def cur_psp_def)

section \<open>Counting references\<close>

lemma handles_more:
  assumes "handles_ok ps s" "frame s t" "locate (sfthead t) 0 i = Some q" "fst (keys s ! i) \<noteq> 0xffff"
  shows "handles_ok ps (add_ref q t)"
proof -
  have t: "handles_ok ps t" by (rule handles_frame [OF assms(1,2)])
  have c: "all_handles ps (add_ref q t) = all_handles ps t"
    by (rule all_handles_cong) (simp add: add_ref_effect [OF assms(3)])
  show ?thesis
    using t refs_ok_more [OF handles_okD(4) [OF t] key_at(1) [OF assms(3)]] assms(4)
    unfolding handles_ok_def c add_ref_effect [OF assms(3)] by (simp add: frame_keys [OF assms(2)])
qed

lemma set_filetab_effect:
  "keys (set_filetab h x s) = keys s" "cu_psp (set_filetab h x s) = cu_psp s"
  "handle_table (set_filetab h x s) = (handle_table s)[unat h := x]" "sfthead (set_filetab h x s) = sfthead s"
  "ps_maxfiles (psps (set_filetab h x s) p) = ps_maxfiles (psps s p)"
  "p \<noteq> cu_psp s \<Longrightarrow> psps (set_filetab h x s) p = psps s p"
  "length (ps_filetab (psps (set_filetab h x s) p)) = length (ps_filetab (psps s p))"
  by (simp_all add: set_filetab_def keys_def handle_table_def cur_psp_def)

lemma all_handles_filetab:
  assumes "handles_ok ps s" "unat h < length (handle_table s)"
  shows "all_handles ps (set_filetab h x s) = add_mset x (all_handles ps s - {# handle_table s ! unat h #})"
  unfolding handle_table_def cur_psp_def
proof (rule all_handles_set [OF handles_okD(1) [OF assms(1)] handles_okD(2) [OF assms(1)]])
  show "unat h < length (ps_filetab (psps s (cu_psp s)))" using assms(2) by (simp add: handle_table_def cur_psp_def)
  show "ps_filetab (psps (set_filetab h x s) (cu_psp s)) = (ps_filetab (psps s (cu_psp s)))[unat h := x]"
    by (simp add: set_filetab_def cur_psp_def)
  show "\<And>q. q \<noteq> cu_psp s \<Longrightarrow> ps_filetab (psps (set_filetab h x s) q) = ps_filetab (psps s q)"
    by (simp add: set_filetab_effect)
qed

text \<open>A free mark for the handle, with or without the reference going.\<close>

lemma handles_unset:
  assumes i: "handles_ok ps s" and h: "unat h < length (handle_table s)"
  shows "handles_ok ps (set_filetab h 0xff s)"
  using i refs_ok_free [OF refs_ok_remove [OF handles_okD(4) [OF i]]]
  unfolding handles_ok_def all_handles_filetab [OF i h] by (simp add: set_filetab_effect)

lemma handles_closed:
  assumes i: "handles_ok ps s" and h: "unat (h :: u16) < length (handle_table s)" "handle_table s ! unat h \<noteq> 0xff"
    and c: "closed_one (int (unat (handle_table s ! unat h))) (set_filetab h 0xff s) s'"
  shows "handles_ok ps s'"
proof -
  let ?v = "handle_table s ! unat h" and ?t = "set_filetab h 0xff s"
  note e = closed_one_effect [OF c, unfolded set_filetab_effect nat_int]
  have t: "handles_ok ps ?t" by (rule handles_unset [OF i h(1)])
  have a: "all_handles ps s' = add_mset 0xff (all_handles ps s - {# ?v #})"
    unfolding all_handles_filetab [OF i h(1), symmetric] by (rule all_handles_cong) (simp add: e(5))
  have "refs_ok (keys s') (all_handles ps s')"
    unfolding a e(4) by (rule refs_ok_closed [OF handles_okD(4) [OF i] in_handles [OF i h(1)] h(2)])
  then show ?thesis using t by (simp add: handles_ok_def e(4-6) set_filetab_effect)
qed

section \<open>Closing\<close>

lemma DosClose_cases:
  assumes i: "handles_ok ps s" and a: "DosClose ou h s = Some (r, s')"
  obtains "get_sft_idx h s < 0" "r < 0" "frame s s'"
  | "unat h < length (handle_table s)" "handle_table s ! unat h \<noteq> 0xff" "r \<noteq> 0" "frame (set_filetab h 0xff s) s'"
  | "unat h < length (handle_table s)" "handle_table s ! unat h \<noteq> 0xff" "r = 0"
    "closed_one (int (unat (handle_table s ! unat h))) (set_filetab h 0xff s) s'"
proof (cases rule: get_sft_idx_cases [OF i, of h])
  case 1
  then show ?thesis using a that(1)
    by (cases "idx_to_sft (get_sft_idx h s) s") (auto simp: DosClose_def Let_def idx_to_sft_frame dest: idx_to_sft_Some split: option.splits)
next
  case 2
  let ?v = "handle_table s ! unat h"
  obtain q where q: "locate (sfthead s) 0 (unat ?v) = Some q" "get_sft h s = (Some q, s\<lparr>lpCurSft := Some q\<rparr>)"
    using handle_found [OF i 2(1,2)] by metis
  let ?t = "set_filetab h 0xff (s\<lparr>lpCurSft := Some q\<rparr>)"
  have f: "frame (set_filetab h 0xff s) ?t" by (simp add: frame_def set_filetab_def cur_psp_def)
  have c: "DosCloseSft ou (int (unat ?v)) False ?t = Some (r, s')"
    using a q(2) 2(3) by (simp add: DosClose_def get_sft_def)
  have l: "local_entry (int (unat ?v)) ?t"
    using local_handle [OF i 2(1,2)] by (simp add: local_entry_def set_filetab_def sft_at_def)
  show ?thesis
  proof (cases "r = 0")
    case True
    then have "closed_one (int (unat ?v)) ?t s'" using DosCloseSft_cases [OF c l] by simp
    then have "closed_one (int (unat ?v)) (set_filetab h 0xff s) s'"
      by (simp add: closed_one_def set_filetab_def sft_at_def frame_def cur_psp_def)
    then show ?thesis by (rule that(3) [OF 2(1,2) True])
  next
    case False
    then have "frame ?t s'" using DosCloseSft_cases [OF c l] by simp
    then show ?thesis using that(2) [OF 2(1,2) False] frame_trans [OF f] by blast
  qed
qed

lemma DosClose_handles:
  assumes i: "handles_ok ps s" and a: "DosClose ou h s = Some (r, s')"
  shows "handles_ok ps s'"
  using DosClose_cases [OF i a]
  by cases (blast intro: handles_frame [OF i] handles_frame [OF handles_unset [OF i]] handles_closed [OF i])+

lemma close_handles_ok: "handles_ok ps s \<Longrightarrow> close_handles ou is s = Some s' \<Longrightarrow> handles_ok ps s'"
  by (induction "is" arbitrary: s) (auto simp: bind_eq_Some_conv dest: DosClose_handles)

section \<open>Duplicating and cloning\<close>

text \<open>The count of the entry of a handle has room for one more.\<close>

definition count_room :: "u16 \<Rightarrow> ('c, 'd) fsys \<Rightarrow> bool" where
  "count_room h s \<longleftrightarrow> (\<forall>v. unat h < length (handle_table s) \<longrightarrow> handle_table s ! unat h = v \<longrightarrow> v \<noteq> 0xff \<longrightarrow> fst (keys s ! unat v) \<noteq> 0xffff)"

lemma CloneHandle_cases:
  assumes i: "handles_ok ps s" and a: "CloneHandle h s = (r, s')"
  obtains "r < 0" "frame s s'"
  | q t where "r = 0" "unat h < length (handle_table s)" "handle_table s ! unat h \<noteq> 0xff"
    "locate (sfthead t) 0 (unat (handle_table s ! unat h)) = Some q" "frame s t" "s' = add_ref q t"
proof (cases "get_sft h s")
  case (Pair x s1)
  have f: "frame s s1" using Pair by (simp add: get_sft_def idx_to_sft_frame)
  show ?thesis
  proof (cases x)
    case None
    then show ?thesis using a f that(1) by (simp add: CloneHandle_def Pair)
  next
    case (Some q)
    note g = get_sft_Some [OF i Pair [unfolded Some]]
    have l: "locate (sfthead s1) 0 (unat (handle_table s ! unat h)) = Some q" using g(3) frame_locate [OF f] by simp
    show ?thesis
    proof (cases "sft_mode (sft_at q s1) AND O_NOINHERIT = 0")
      case True
      then have "r = 0" "s' = add_ref q s1" using a by (simp_all add: CloneHandle_def Pair Some)
      then show ?thesis using that(2) [OF _ g(1,2) l f] by simp
    next
      case False
      then show ?thesis using a f that(1) by (simp add: CloneHandle_def Pair Some)
    qed
  qed
qed

lemma CloneHandle_handles:
  assumes i: "handles_ok ps s" and r: "count_room h s" and a: "CloneHandle h s = (rc, s')"
  shows "handles_ok ps s'"
  using CloneHandle_cases [OF i a]
proof cases
  case (2 q t)
  then have "fst (keys s ! unat (handle_table s ! unat h)) \<noteq> 0xffff" using r by (simp add: count_room_def)
  then show ?thesis using handles_more [OF i 2(5,4)] 2(6) by simp
qed (rule handles_frame [OF i])

text \<open>A second handle for an entry: the mark of a free handle, of any process, becomes the number of the entry.\<close>

lemma handles_link:
  assumes i: "handles_ok ps s" and p: "p \<in> set ps" and n: "n < length (ps_filetab (psps s p))" "ps_filetab (psps s p) ! n = 0xff"
    and v: "v \<in># all_handles ps s" "v \<noteq> 0xff" and r: "fst (keys s ! unat v) \<noteq> 0xffff"
    and k: "keys s' = (keys s)[unat v := (fst (keys s ! unat v) + 1, snd (keys s ! unat v))]"
    and t: "ps_filetab (psps s' p) = (ps_filetab (psps s p))[n := v]" "\<And>q. q \<noteq> p \<Longrightarrow> ps_filetab (psps s' q) = ps_filetab (psps s q)"
    and o: "cu_psp s' = cu_psp s" "\<And>q. ps_maxfiles (psps s' q) = ps_maxfiles (psps s q)"
  shows "handles_ok ps s'"
proof -
  note d = refs_okD [OF handles_okD(4) [OF i] v]
  have a: "all_handles ps s' = add_mset v (all_handles ps s - {#0xff#})"
    using all_handles_set [of ps p n s s' v] handles_okD(1) [OF i] p n t by simp
  have "refs_ok (keys s') (all_handles ps s')"
    unfolding a k
    by (rule refs_ok_handle [OF refs_ok_remove [OF handles_okD(4) [OF i]] d(1) r d(3)]) (use d(2) v(2) in simp)
  moreover have "length (ps_filetab (psps s' q)) = unat (ps_maxfiles (psps s' q))" if "q \<in> set ps" for q
    using handles_okD(5) [OF i that] t o(2) by (cases "q = p") simp_all
  ultimately show ?thesis using i by (simp add: handles_ok_def o(1) k)
qed

lemma handles_dup:
  assumes i: "handles_ok ps s" and h: "unat (h :: u16) < length (handle_table s)" "handle_table s ! unat h \<noteq> 0xff"
    and n: "unat n < length (handle_table s)" "handle_table s ! unat n = 0xff"
    and q: "locate (sfthead s) 0 (unat (handle_table s ! unat h)) = Some q"
    and r: "fst (keys s ! unat (handle_table s ! unat h)) \<noteq> 0xffff"
  shows "handles_ok ps (add_ref q (set_filetab n (handle_table s ! unat h) s))"
proof -
  let ?t = "set_filetab n (handle_table s ! unat h) s"
  have l: "locate (sfthead ?t) 0 (unat (handle_table s ! unat h)) = Some q" using q by (simp add: set_filetab_effect)
  note e = add_ref_effect [OF l]
  show ?thesis
  proof (rule handles_link [OF i handles_okD(2) [OF i] _ _ in_handles [OF i h(1)] h(2) r])
    show "unat n < length (ps_filetab (psps s (cu_psp s)))" "ps_filetab (psps s (cu_psp s)) ! unat n = 0xff"
      using n by (simp_all add: handle_table_def cur_psp_def)
    show "ps_filetab (psps (add_ref q ?t) (cu_psp s)) = (ps_filetab (psps s (cu_psp s)))[unat n := handle_table s ! unat h]"
      unfolding e(2) by (simp add: set_filetab_def cur_psp_def)
  qed (simp_all add: e set_filetab_effect)
qed

lemma upd_sft_locate: "locate (sfthead (upd_sft q f s)) b i = locate (sfthead s) b i"
proof (rule locate_lengths)
  show "map length (sfthead (upd_sft q f s)) = map length (sfthead s)"
    by (cases "fst q < length (sfthead s)") (simp_all add: upd_sft_def map_update list_update_same_conv list_update_beyond)
qed

lemma closed_one_locate:
  assumes "closed_one i s s'"
  shows "locate (sfthead s') b j = locate (sfthead s) b j"
proof -
  obtain q t where "frame s t" "s' = drop_count q t" using assms unfolding closed_one_def by blast
  then show ?thesis by (simp add: drop_count_def upd_sft_locate frame_locate)
qed

text \<open>Closing one handle leaves the entry of another in place, with at most its references.\<close>

lemma DosClose_other:
  assumes i: "handles_ok ps s" and a: "DosClose ou n s = Some (0, s')"
  shows "handle_table s' = (handle_table s)[unat n := 0xff]" "locate (sfthead s') b j = locate (sfthead s) b j"
    "unat n < length (handle_table s)"
    "fst (keys s ! j) \<noteq> 0xffff \<Longrightarrow> fst (keys s' ! j) \<noteq> 0xffff"
proof -
  from DosClose_cases [OF i a] obtain c: "unat n < length (handle_table s)"
    "closed_one (int (unat (handle_table s ! unat n))) (set_filetab n 0xff s) s'" by (cases; simp)
  note e = closed_one_effect [OF c(2), unfolded set_filetab_effect nat_int]
  have "handle_table s' = handle_table (set_filetab n 0xff s)" by (simp add: handle_table_def cur_psp_def e(5,6) set_filetab_effect)
  then show "handle_table s' = (handle_table s)[unat n := 0xff]" by (simp add: set_filetab_effect)
  show "locate (sfthead s') b j = locate (sfthead s) b j" using closed_one_locate [OF c(2)] by (simp add: set_filetab_effect)
  show "unat n < length (handle_table s)" by (rule c(1))
  have m: "x - 1 \<noteq> 0xffff" if "x \<noteq> 0" for x :: u16
  proof
    assume "x - 1 = 0xffff"
    then have "x - 1 + 1 = 0xffff + 1" by (rule arg_cong)
    then show False using that by simp
  qed
  show "fst (keys s' ! j) \<noteq> 0xffff" if "fst (keys s ! j) \<noteq> 0xffff"
    using that m [OF e(3)] e(2) unfolding e(4) by (cases "j = unat (handle_table s ! unat n)") simp_all
qed

lemma DosForceDup_handles:
  assumes i: "handles_ok ps s" and n: "unat n < length (handle_table s)" "n \<noteq> h" and r: "count_room h s"
    and a: "DosForceDup ou h n s = Some (rc, s')"
  shows "handles_ok ps s'"
proof (cases "get_sft h s")
  case (Pair x s1)
  have f: "frame s s1" using Pair by (simp add: get_sft_def idx_to_sft_frame)
  note i1 = handles_frame [OF i f]
  show ?thesis
  proof (cases x)
    case None
    then show ?thesis using a i1 by (simp add: DosForceDup_def Pair)
  next
    case (Some q)
    note g = get_sft_Some [OF i Pair [unfolded Some]]
    have l: "locate (sfthead s1) 0 (unat (handle_table s1 ! unat h)) = Some q"
      using g(3) frame_locate [OF f] frame_table [OF f] by simp
    have h: "unat h < length (handle_table s1)" "handle_table s1 ! unat h \<noteq> 0xff" "unat n < length (handle_table s1)"
      using g(1,2) n(1) by (simp_all add: frame_table [OF f])
    have room: "fst (keys s1 ! unat (handle_table s1 ! unat h)) \<noteq> 0xffff"
      using r g(1,2) by (simp add: count_room_def frame_table [OF f] frame_keys [OF f])
    have ne: "unat n \<noteq> unat h" using n(2) by (simp add: word_unat_eq_iff)
    show ?thesis
    proof (cases "handle_table s1 ! unat n = 0xff")
      case True
      then have "s' = add_ref q (set_filetab n (handle_table s1 ! unat h) s1)"
        using a h(3) by (simp add: DosForceDup_def Pair Some handle_table_def split: if_splits)
      then show ?thesis using handles_dup [OF i1 h(1,2,3) True l room] by simp
    next
      case False
      then obtain res s2 where c: "DosClose ou n s1 = Some (res, s2)"
        and b: "(if res \<noteq> 0 then Some (res, s2) else Some (0, add_ref q (set_filetab n (ps_filetab (cur_psp s2) ! unat h) s2))) = Some (rc, s')"
        using a h(3) by (auto simp: DosForceDup_def Pair Some handle_table_def bind_eq_Some_conv)
      note i2 = DosClose_handles [OF i1 c]
      show ?thesis
      proof (cases "res = 0")
        case True
        note o = DosClose_other [OF i1 c [unfolded True]]
        have t: "handle_table s2 ! unat h = handle_table s1 ! unat h" "handle_table s2 ! unat n = 0xff"
          "unat h < length (handle_table s2)" "unat n < length (handle_table s2)"
          using o(1) ne h by simp_all
        show ?thesis
          using handles_dup [OF i2 t(3) _ t(4,2), of q] h(2) l o(2) o(4) [OF room] b [folded handle_table_def] True unfolding t(1) by simp
      next
        case False
        then show ?thesis using b i2 by simp
      qed
    qed
  qed
qed

lemma get_free_hndl_cases:
  assumes "handles_ok ps s"
  obtains "get_free_hndl s < 0"
  | n where "get_free_hndl s = int n" "n < length (handle_table s)" "handle_table s ! n = 0xff" "unat (of_int (get_free_hndl s) :: u16) = n"
    "\<And>m. m < n \<Longrightarrow> handle_table s ! m \<noteq> 0xff"
proof (cases "find (\<lambda>i. ps_filetab (cur_psp s) ! i = 0xff) [0..<unat (ps_maxfiles (cur_psp s))]")
  case None
  then show ?thesis using that(1) by (simp add: get_free_hndl_def)
next
  case (Some n)
  then have n: "n < length (handle_table s)" "handle_table s ! n = 0xff" "\<And>m. m < n \<Longrightarrow> handle_table s ! m \<noteq> 0xff"
    using handles_okD(6) [OF assms] by (auto simp: find_Some_iff handle_table_def)
  have "n < 65536" using n(1) handles_okD(6) [OF assms] unat16_lt [of "ps_maxfiles (cur_psp s)"] by linarith
  then have "unat (of_int (get_free_hndl s) :: u16) = n" using Some by (simp add: get_free_hndl_def unat16_of_nat)
  then show ?thesis using that(2) Some n by (simp add: get_free_hndl_def)
qed

lemma DosDup_handles:
  assumes i: "handles_ok ps s" and r: "count_room h s" and a: "DosDup ou h s = Some (rc, s')"
  shows "handles_ok ps s'"
proof (cases rule: get_free_hndl_cases [OF i])
  case 1
  then show ?thesis using a i by (simp add: DosDup_def)
next
  case (2 n)
  let ?n = "of_int (get_free_hndl s) :: u16"
  obtain res where b: "DosForceDup ou h ?n s = Some (res, s')"
    using a 2(1) by (auto simp: DosDup_def bind_eq_Some_conv Let_def)
  show ?thesis
  proof (cases "?n = h")
    case True
    have "get_sft h s = (None, s1) \<Longrightarrow> handles_ok ps s1" for s1
      by (rule handles_frame [OF i]) (simp add: get_sft_def idx_to_sft_frame)
    moreover have "get_sft h s \<noteq> (Some q, s1)" for q s1
      using get_sft_Some(2) [OF i, of h q s1] 2(3,4) True by auto
    ultimately show ?thesis using b by (cases "get_sft h s"; cases "fst (get_sft h s)") (auto simp: DosForceDup_def)
  next
    case False
    then show ?thesis using DosForceDup_handles [OF i _ False r b] 2(2,4) by simp
  qed
qed

section \<open>The file table of a child\<close>

definition clone_room :: "nat \<Rightarrow> ('c, 'd) fsys \<Rightarrow> bool" where
  "clone_room k s \<longleftrightarrow> (\<forall>v \<in> set (handle_table s). v \<noteq> 0xff \<longrightarrow> unat (fst (keys s ! unat v)) + k \<le> 0xffff)"

lemma clone_files_ok:
  assumes "handles_ok ps s" "p \<in> set ps" "p \<noteq> cu_psp s" "clone_room (length is) s" "distinct is"
    "\<And>i. i \<in> set is \<Longrightarrow> i < length (ps_filetab (psps s p)) \<and> ps_filetab (psps s p) ! i = 0xff \<and> i < 65536"
  shows "handles_ok ps (clone_files p (cu_psp s) is s)"
  using assms
proof (induction "is" arbitrary: s)
  case (Cons j js)
  obtain r s1 where c: "CloneHandle (of_nat j) s = (r, s1)" by (cases "CloneHandle (of_nat j) s")
  note jj = Cons.prems(6) [of j, simplified]
  have j: "unat (of_nat j :: u16) = j" using jj by (simp add: unat16_of_nat)
  show ?case
    using CloneHandle_cases [OF Cons.prems(1) c]
  proof cases
    case 1
    have "handles_ok ps (clone_files p (cu_psp s1) js s1)"
    proof (rule Cons.IH [OF handles_frame [OF Cons.prems(1) 1(2)] Cons.prems(2)])
      show "p \<noteq> cu_psp s1" "distinct js" using 1(2) Cons.prems(3,5) by (simp_all add: frame_def)
      show "clone_room (length js) s1" using Cons.prems(4) by (auto simp: clone_room_def frame_keys [OF 1(2)] frame_table [OF 1(2)])
      show "\<And>i. i \<in> set js \<Longrightarrow> i < length (ps_filetab (psps s1 p)) \<and> ps_filetab (psps s1 p) ! i = 0xff \<and> i < 65536"
        using Cons.prems(6) 1(2) by (simp add: frame_def)
    qed
    then show ?thesis using 1 by (simp add: c) (simp add: frame_def)
  next
    case (2 q t)
    let ?v = "handle_table s ! j"
    define s2 where "s2 = upd_psp p (\<lambda>x. x\<lparr>ps_filetab := (ps_filetab x)[j := ps_filetab (psps s1 (cu_psp s)) ! j]\<rparr>) s1"
    note e = add_ref_effect [OF 2(4) [unfolded j]]
    have tf: "psps t = psps s" "cu_psp t = cu_psp s" using 2(5) by (simp_all add: frame_def)
    have v: "?v \<noteq> 0xff" "j < length (handle_table s)" using 2(2,3) by (simp_all add: j)
    have s1: "psps s1 = psps s" "cu_psp s1 = cu_psp s" "keys s1 = (keys s)[unat ?v := (fst (keys s ! unat ?v) + 1, snd (keys s ! unat ?v))]"
      by (simp_all add: 2(6) e tf frame_keys [OF 2(5)])
    have pv: "ps_filetab (psps s1 (cu_psp s)) ! j = ?v" by (simp add: s1 handle_table_def cur_psp_def)
    have k2: "keys s2 = keys s1" by (simp add: s2_def upd_psp_def keys_def)
    have p2: "cu_psp s2 = cu_psp s" "psps s2 = (psps s)(p := (psps s p)\<lparr>ps_filetab := (ps_filetab (psps s p))[j := ?v]\<rparr>)"
      unfolding s2_def pv by (simp_all add: upd_psp_def s1)
    have h2: "handle_table s2 = handle_table s" using Cons.prems(3) by (simp add: handle_table_def cur_psp_def p2)
    have room: "unat (fst (keys s ! unat ?v)) + Suc (length js) \<le> 0xffff"
      using Cons.prems(4) v by (auto simp: clone_room_def)
    then have nm: "fst (keys s ! unat ?v) \<noteq> 0xffff" by auto
    have i2: "handles_ok ps s2"
      by (rule handles_link [OF Cons.prems(1,2) _ _ in_handles [OF Cons.prems(1) v(2)] v(1) nm])
        (use jj in \<open>simp_all add: k2 s1 p2\<close>)
    have "handles_ok ps (clone_files p (cu_psp s2) js s2)"
    proof (rule Cons.IH [OF i2 Cons.prems(2)])
      show "p \<noteq> cu_psp s2" "distinct js" using Cons.prems(3,5) by (simp_all add: p2)
      have "unat (fst (keys s2 ! unat w)) + length js \<le> 0xffff" if w: "w \<in> set (handle_table s)" "w \<noteq> 0xff" for w
        using Cons.prems(4) w room inc_ne_max [OF nm] unfolding k2 s1 clone_room_def
        by (cases "unat w = unat ?v"; cases "unat ?v < length (keys s)") (auto simp: list_update_beyond)
      then show "clone_room (length js) s2" by (simp add: clone_room_def h2)
      show "\<And>i. i \<in> set js \<Longrightarrow> i < length (ps_filetab (psps s2 p)) \<and> ps_filetab (psps s2 p) ! i = 0xff \<and> i < 65536"
        using Cons.prems(5,6) by (auto simp: p2 nth_list_update)
    qed
    then show ?thesis using 2(1) by (simp add: c s2_def s1 upd_psp_def)
  qed
qed simp

end
