(* ===== verification/Handle_Open.thy ===== *)
theory Handle_Open
  imports Handle_Ops
begin

text \<open>
  What opening a file does to the handle tables and the counts of the entries, when no redirector is installed:
  one free entry changes, and a handle for it appears.
\<close>

section \<open>No redirector\<close>

text \<open>
  The kernel's own handler of interrupt 2F answers every redirector call with error 1 and the carry flag, which
  \<^verbatim>\<open>network_redirector_mx\<close> turns into -1.
\<close>

definition no_redirector :: "('c, 'd) outside \<Rightarrow> bool" where
  "no_redirector ou \<longleftrightarrow> (\<forall>f a s. redirector ou f a s = (-1, s)) \<and> (\<forall>p s. fst (qualify ou p s) = -1 \<and> snd (snd (qualify ou p s)) = s)"

section \<open>Names\<close>

lemma frame_more [simp]:
  "frame s (s'\<lparr>nls := a\<rparr>) = frame s s'" "frame s (s'\<lparr>current_ldt := b\<rparr>) = frame s s'" "frame s (s'\<lparr>media_rq := c\<rparr>) = frame s s'"
  "frame s (s'\<lparr>PriPathName := d\<rparr>) = frame s s'" "frame s (s'\<lparr>fcb_name := e\<rparr>) = frame s s'" "frame s (s'\<lparr>OpenMode := f\<rparr>) = frame s s'"
  "frame s (s'\<lparr>current_sft_idx := g\<rparr>) = frame s s'" "frame s (s'\<lparr>ext_open := h\<rparr>) = frame s s'"
  by (simp_all add: frame_def)

lemma frame_left [simp]:
  "frame (s\<lparr>nls := a\<rparr>) s' = frame s s'" "frame (s\<lparr>current_ldt := b\<rparr>) s' = frame s s'" "frame (s\<lparr>media_rq := c\<rparr>) s' = frame s s'"
  "frame (s\<lparr>PriPathName := d\<rparr>) s' = frame s s'" "frame (s\<lparr>fcb_name := e\<rparr>) s' = frame s s'" "frame (s\<lparr>OpenMode := f\<rparr>) s' = frame s s'"
  "frame (s\<lparr>current_sft_idx := g\<rparr>) s' = frame s s'" "frame (s\<lparr>lpCurSft := i\<rparr>) s' = frame s s'" "frame (s\<lparr>fio := j\<rparr>) s' = frame s s'"
  "frame (s\<lparr>fnode0 := k\<rparr>) s' = frame s s'" "frame (s\<lparr>shr := l\<rparr>) s' = frame s s'" "frame (s\<lparr>share_installed := m\<rparr>) s' = frame s s'"
  "frame (s\<lparr>chars := n\<rparr>) s' = frame s s'" "frame (s\<lparr>ext_open := h\<rparr>) s' = frame s s'"
  by (simp_all add: frame_def)

lemma on_node_frame: "on_node f s = Some (r, s') \<Longrightarrow> frame s s'"
  by (auto simp: on_node_def)

lemma drive_media_frame: "drive_media ou p s = Some (r, s') \<Longrightarrow> frame s s'"
  by (auto simp: drive_media_def bind_eq_Some_conv)

lemma IsDevice_frame: "IsDevice ou f s = (r, s') \<Longrightarrow> frame s s'"
  by (auto simp: IsDevice_def Let_def split: if_splits prod.splits)

lemma device_form_frame: "device_form ou p s = (r, s') \<Longrightarrow> frame s s'"
  by (auto simp: device_form_def Let_def split: if_splits prod.splits option.splits)

lemma append_name_frame: "append_name ou mode sep root src out s = (r, s') \<Longrightarrow> frame s s'"
  by (auto simp: append_name_def Let_def split: if_splits prod.splits sum.splits)

lemma current_dir_frame:
  assumes "current_dir ou ci c s = Some (r, s')"
  shows "frame s s'"
  using assms
  by (auto simp: current_dir_def Let_def bind_eq_Some_conv split: option.splits if_splits
      dest!: drive_media_frame on_node_frame intro: frame_trans)

lemma truename_end_frame: "truename_end ou mode res dest s = Some (r, d, s') \<Longrightarrow> frame s s'"
  by (auto simp: truename_end_def Let_def bind_eq_Some_conv split: option.splits if_splits dest!: on_node_frame)

lemma append_end_frame:
  assumes "(case append_name ou mode sep root src out t of
             (Inl e, s4) \<Rightarrow> Some (Inl e, [], s4)
           | (Inr dest, s4) \<Rightarrow> truename_end ou mode res dest s4) = Some (r, d, s')" "frame s t"
  shows "frame s s'"
proof (cases "append_name ou mode sep root src out t")
  case (Pair x u)
  have f: "frame s u" by (rule frame_trans [OF assms(2) append_name_frame [OF Pair]])
  show ?thesis
  proof (cases x)
    case (Inr dest)
    then show ?thesis using assms(1) Pair frame_trans [OF f truename_end_frame] by simp
  qed (use assms(1) Pair f in simp)
qed

lemma truename_local_frame:
  assumes "truename_local ou src drv mode s = Some (r, d, s')"
  shows "frame s s'"
proof -
  obtain dhp s1 where i: "IsDevice ou src s = (dhp, s1)" by (cases "IsDevice ou src s")
  note f1 = IsDevice_frame [OF i]
  obtain picked where p: "pick_cds dhp src drv s1 = Some picked"
    using assms by (auto simp: truename_local_def i bind_eq_Some_conv)
  show ?thesis
  proof (cases picked)
    case (Inl e)
    then show ?thesis using assms f1 by (simp add: truename_local_def i p)
  next
    case (Inr x)
    obtain result ci c where x: "x = (result, ci, c)" by (cases x)
    define s2 where "s2 = s1\<lparr>current_ldt := (case ci of None \<Rightarrow> LdtFFFF | Some i \<Rightarrow> Ldt i)\<rparr>"
    define r2 where "r2 = (if dhp \<noteq> None then (if cdsFlags c AND CDSNETWDRV \<noteq> 0 then result OR IS_NETWORK else result) OR IS_DEVICE
      else (if cdsFlags c AND CDSNETWDRV \<noteq> 0 then result OR IS_NETWORK else result))"
    define path where "path = (if char_at src 1 = colon then drop 2 src else src)"
    obtain form s3 where fo: "(if r2 AND IS_DEVICE \<noteq> 0 then device_form ou path s2 else (False, s2)) = (form, s3)"
      by (cases "if r2 AND IS_DEVICE \<noteq> 0 then device_form ou path s2 else (False, s2)")
    have "frame s2 s3" using fo device_form_frame by (auto split: if_splits)
    then have f3: "frame s s3" by (rule frame_trans [rotated]) (simp add: s2_def f1)
    note e = assms [unfolded truename_local_def i Let_def prod.case p Option.bind.simps Inr x sum.case, unfolded prod.case,
        folded s2_def r2_def path_def, unfolded fo prod.case]
    show ?thesis
    proof (cases form)
      case True
      then show ?thesis using e append_end_frame [OF _ f3] by (simp add: sum.case_distrib)
    next
      case False
      then obtain cp s4 where cd: "current_dir ou ci c s3 = Some (cp, s4)"
        and k: "(case cp of None \<Rightarrow> Some (Inl DE_PATHNOTFND, [], s4)
                  | Some cp \<Rightarrow>
                      (case start_text mode c cp path r2 (length (cds_table (fio s4))) of
                         (out, root, src1, r3) \<Rightarrow>
                           (case append_name ou mode backslash root src1 out s4 of
                              (Inl e, s5) \<Rightarrow> Some (Inl e, [], s5)
                            | (Inr dest, s5) \<Rightarrow> truename_end ou mode r3 dest s5))) = Some (r, d, s')"
        using e by (auto simp: bind_eq_Some_conv)
      have f4: "frame s s4" by (rule frame_trans [OF f3 current_dir_frame [OF cd]])
      show ?thesis
      proof (cases cp)
        case (Some cp')
        then show ?thesis using k append_end_frame [OF _ f4]
          by (cases "start_text mode c cp' path r2 (length (cds_table (fio s4)))") simp
      qed (use k f4 in simp)
    qed
  qed
qed

lemma truename_frame:
  assumes "no_redirector ou" "truename ou src mode s = Some (r, d, s')"
  shows "frame s s'"
proof -
  have q: "fst (qualify ou src t) = -1" "snd (snd (qualify ou src t)) = t" for t
    using assms(1) by (simp_all add: no_redirector_def)
  have q2: "qualify ou src t = (x, y, u) \<Longrightarrow> x = -1 \<and> u = t" for t x y u using q [of t] by simp
  show ?thesis
    using assms(2)
    by (auto simp: truename_def Let_def split: if_splits prod.splits dest!: q2 truename_local_frame)
qed

lemma primary_name_frame: "no_redirector ou \<Longrightarrow> primary_name ou name mode s = Some (r, s') \<Longrightarrow> frame s s'"
  by (cases r) (auto simp: primary_name_def bind_eq_Some_conv set_fcbname_def split: sum.splits dest: truename_frame)

section \<open>One entry changes\<close>

text \<open>The processes and the keys of all entries but one are as before.\<close>

definition frame_but :: "nat \<Rightarrow> ('c, 'd) fsys \<Rightarrow> ('c, 'd) fsys \<Rightarrow> bool" where
  "frame_but i s s' \<longleftrightarrow> psps s' = psps s \<and> cu_psp s' = cu_psp s \<and> map length (sfthead s') = map length (sfthead s)
     \<and> (\<forall>j. j \<noteq> i \<longrightarrow> keys s' ! j = keys s ! j)"

lemma frame_but_frame: "frame s s' \<Longrightarrow> frame_but i s s'"
  using frame_keys [of s s']
  by (auto simp: frame_but_def frame_def dest!: arg_cong [where f = "map length"] simp: comp_def)

lemma frame_but_refl [simp]: "frame_but i s s" by (simp add: frame_but_def)

lemma frame_but_trans: "frame_but i s t \<Longrightarrow> frame_but i t u \<Longrightarrow> frame_but i s u"
  by (simp add: frame_but_def)

lemma frame_but_locate: "frame_but i s s' \<Longrightarrow> locate (sfthead s') b j = locate (sfthead s) b j"
  by (rule locate_lengths) (simp add: frame_but_def)

lemma upd_sft_shape: "map length (sfthead (upd_sft q f s)) = map length (sfthead s)"
  by (cases "fst q < length (sfthead s)") (simp_all add: upd_sft_def map_update list_update_same_conv list_update_beyond)

lemma frame_but_upd: "locate (sfthead s) 0 i = Some q \<Longrightarrow> frame_but i s (upd_sft q f s)"
  unfolding frame_but_def upd_sft_shape keys_upd by (simp add: upd_sft_def)

lemma frame_but_length: "frame_but i s s' \<Longrightarrow> length (keys s') = length (keys s)"
  by (simp add: frame_but_def keys_def length_concat)

section \<open>Opening in the file system layer\<close>

lemma open_found_frame: "open_found ou flags attrib s = Some (r, s') \<Longrightarrow> frame s s'"
  by (auto simp: open_found_def Let_def split: if_splits)

lemma open_entry_frame:
  assumes "open_entry ou path flags attrib s = Some (r, s')"
  shows "frame s s'"
proof -
  obtain x s1 where x: "on_node (find_fname (blk_drv ou) path (D_ALL OR ucast attrib)) s = Some (x, s1)"
    using assms by (auto simp: open_entry_def bind_eq_Some_conv)
  note f = on_node_frame [OF x]
  show ?thesis
  proof (cases x)
    case (Inr y)
    then show ?thesis using assms frame_trans [OF f open_found_frame] by (simp add: open_entry_def x)
  next
    case (Inl e)
    then show ?thesis using assms f
      by (auto simp: open_entry_def x bind_eq_Some_conv split: if_splits dest!: on_node_frame intro: frame_trans)
  qed
qed

lemma collect_frame: "frame s (collect_changes qs s)"
  by (induction qs s rule: collect_changes.induct) (simp_all add: Let_def)

lemma merge_changes_frame: "frame s (merge_file_changes c s)"
  by (simp add: merge_file_changes_def distribute_frame collect_frame)

lemma distribute_node: "fnode0 (distribute_changes qs s) = fnode0 s"
  by (induction qs s rule: distribute_changes.induct) (simp_all add: Let_def upd_sft_def)

lemma collect_node: "f_sft_idx (fnode0 (collect_changes qs s)) = f_sft_idx (fnode0 s)"
  by (induction qs s rule: collect_changes.induct) (simp_all add: Let_def)

lemma merge_changes_node: "f_sft_idx (fnode0 (merge_file_changes c s)) = f_sft_idx (fnode0 s)"
  by (simp add: merge_file_changes_def distribute_node collect_node)

text \<open>The counts stay as well.\<close>

definition frame_count :: "nat \<Rightarrow> ('c, 'd) fsys \<Rightarrow> ('c, 'd) fsys \<Rightarrow> bool" where
  "frame_count i s s' \<longleftrightarrow> frame_but i s s' \<and> fst (keys s' ! i) = fst (keys s ! i)"

lemma frame_count_frame: "frame s s' \<Longrightarrow> frame_count i s s'"
  by (simp add: frame_count_def frame_but_frame frame_keys)

lemma frame_count_refl: "frame_count i s s" by (simp add: frame_count_def)

lemma frame_count_trans: "frame_count i s t \<Longrightarrow> frame_count i t u \<Longrightarrow> frame_count i s u"
  by (auto simp: frame_count_def intro: frame_but_trans)

lemma frame_count_upd:
  assumes "locate (sfthead s) 0 i = Some q" "sft_count (f (sft_at q s)) = sft_count (sft_at q s)"
  shows "frame_count i s (upd_sft q f s)"
  using assms frame_but_upd [OF assms(1)] key_at [OF assms(1)] by (simp add: frame_count_def keys_upd key_def)

lemma fnode_to_sft_count:
  assumes "fnode_to_sft s = Some s'" "unat (f_sft_idx (fnode0 s)) = i"
  shows "frame_count i s s'"
proof -
  obtain q s1 where q: "idx_to_sft (int i) s = (Some q, s1)"
    using assms by (auto simp: fnode_to_sft_def Let_def split: prod.splits option.splits)
  note f = idx_to_sft_Some [OF q]
  have fr: "frame s s1" by (rule idx_to_sft_frame [OF q])
  have l: "locate (sfthead s1) 0 i = Some q" using f(2) frame_locate [OF fr] by simp
  obtain g where g: "s' = upd_sft q g s1" "\<And>t. sft_count (g t) = sft_count t"
    using assms q by (auto simp: fnode_to_sft_def Let_def)
  show ?thesis unfolding g(1) by (rule frame_count_trans [OF frame_count_frame [OF fr] frame_count_upd [where f = g, OF l g(2)]])
qed

lemma dos_open_count:
  assumes a: "dos_open ou path flags attrib fd s = Some (r, s')" and fd: "fd < 256"
  shows "frame_count fd s s'"
proof -
  obtain s1 where s1: "sft_to_fnode fd s = Some s1" using a by (auto simp: dos_open_def bind_eq_Some_conv)
  obtain st s2 where s2: "open_entry ou path flags attrib s1 = Some (st, s2)"
    using a by (auto simp: dos_open_def bind_eq_Some_conv s1)
  have f2: "frame s s2" by (rule frame_trans [OF sft_to_fnode_frame [OF s1] open_entry_frame [OF s2]])
  show ?thesis
  proof (cases "st < 0")
    case True
    then show ?thesis using a f2 by (simp add: dos_open_def s1 s2 frame_count_frame)
  next
    case False
    define s3 where "s3 = upd_node (\<lambda>f. f\<lparr>f_sft_idx := of_nat fd, f_offset := 0, f_cluster_offset := 0,
                   f_flags := (f_flags f AND NOT SFT_FDATE) OR SFT_FCLEAN\<rparr>) s2"
    define s3' where "s3' = upd_node (\<lambda>f. f\<lparr>f_dir := init_direntry (ucast attrib) FREE (dm_name_pat (f_dmp f)) (fst (stamp s3)) (snd (stamp s3))\<rparr>) s3"
    define wr where "wr = (if st \<noteq> S_OPENED then on_node (\<lambda>fnp e. map_option (\<lambda>(ok, e'). (ok, fnp, e')) (dir_write (blk_drv ou) fnp e)) s3'
      else Some (True, s3))"
    note a' = a [unfolded dos_open_def s1 s2 Option.bind.simps prod.case if_not_P [OF False], unfolded Let_def,
        folded s3_def, folded s3'_def, folded wr_def]
    obtain ok s4 where s4: "wr = Some (ok, s4)"
      and k: "(if \<not> ok then Some (errno DE_ACCESS, s4)
          else map_option (\<lambda>s7. (st, s7)) (fnode_to_sft (upd_node (\<lambda>f. f\<lparr>f_cluster :=
             getdstart (node_dpb (merge_file_changes (st = S_OPENED) s4)) (f_dir f)\<rparr>) (merge_file_changes (st = S_OPENED) s4))))
          = Some (r, s')"
      using a' by (auto simp: bind_eq_Some_conv)
    have f3: "frame s s3" "f_sft_idx (fnode0 s3) = of_nat fd" using f2 by (simp_all add: s3_def upd_node_def)
    then have f3': "frame s s3'" "f_sft_idx (fnode0 s3') = of_nat fd" by (simp_all add: s3'_def upd_node_def)
    have f4: "frame s s4" "f_sft_idx (fnode0 s4) = of_nat fd"
      using s4 f3 f3' by (auto simp: wr_def on_node_def split: if_splits)
    show ?thesis
    proof (cases ok)
      case False
      then show ?thesis using k f4 by (simp add: frame_count_frame)
    next
      case True
      define s5 where "s5 = merge_file_changes (st = S_OPENED) s4"
      define s6 where "s6 = upd_node (\<lambda>f. f\<lparr>f_cluster := getdstart (node_dpb s5) (f_dir f)\<rparr>) s5"
      have s6: "frame s s6" "unat (f_sft_idx (fnode0 s6)) = fd"
        using frame_trans [OF f4(1) merge_changes_frame] f4(2) fd
        by (simp_all add: s6_def upd_node_def s5_def merge_changes_node unat8_of_nat)
      have "fnode_to_sft s6 = Some s'" using k True by (auto simp: s5_def s6_def Let_def)
      from fnode_to_sft_count [OF this s6(2)] show ?thesis
        by (rule frame_count_trans [OF frame_count_frame [OF s6(1)]])
    qed
  qed
qed

section \<open>Opening an entry\<close>

text \<open>
  What the caller sees: the free entry may have changed; with a result that is not negative it has one reference, and
  the low word of the result is its number.
\<close>

definition opened :: "nat \<Rightarrow> int \<Rightarrow> ('c, 'd) fsys \<Rightarrow> ('c, 'd) fsys \<Rightarrow> bool" where
  "opened i r s s' \<longleftrightarrow> frame_but i s s' \<and> fst (keys s ! i) = 0 \<and> i < length (keys s)
     \<and> (r \<ge> 0 \<longrightarrow> fst (keys s' ! i) = 1 \<and> (of_int r :: u16) = of_nat i)"

lemma count_upd:
  assumes "locate (sfthead s) 0 i = Some q"
  shows "fst (keys (upd_sft q f s) ! i) = sft_count (f (sft_at q s))"
  using key_at [OF assms] by (simp add: keys_upd [OF assms] key_def)

lemma sft_count_key: "locate (sfthead s) 0 i = Some q \<Longrightarrow> sft_count (sft_at q s) = fst (keys s ! i)"
  by (simp add: key_at key_def)

lemma high_word [simp]: "(x * 65536 :: u16) = 0"
proof -
  have z: "(65536 :: u16) = 0" by (simp add: word_unat_eq_iff)
  show ?thesis unfolding z by simp
qed

lemma frame_count_but: "frame_count i s s' \<Longrightarrow> frame_but i s s'"
  by (simp add: frame_count_def)

lemma frame_count_fst: "frame_count i s s' \<Longrightarrow> fst (keys s' ! i) = fst (keys s ! i)"
  by (simp add: frame_count_def)

lemma DeviceOpenSft_opened:
  assumes l: "locate (sfthead s) 0 i = Some q" and a: "DeviceOpenSft ou dhp q s = Some (r, s')"
  shows "frame_but i s s' \<and> fst (keys s' ! i) = fst (keys s ! i) + 1"
proof -
  define name where "name = take FNAME_SIZE (dh_name (dhdrs s ! dhp)) @ drop FNAME_SIZE (sft_name (sft_at q s))"
  obtain name1 n where u: "DosUpFMem (nls_mux ou) (pad_blanks name) (of_nat (FNAME_SIZE + FEXT_SIZE)) (nls s) = (name1, n)"
    by (cases "DosUpFMem (nls_mux ou) (pad_blanks name) (of_nat (FNAME_SIZE + FEXT_SIZE)) (nls s)")
  define g :: "sft \<Rightarrow> sft" where "g = (\<lambda>t. t\<lparr>sft_shroff := 0xffff, sft_count := sft_count t + 1,
                       sft_flags := (dh_attr (dhdrs s ! dhp) AND NOT (SFT_MASK OR SFT_FSHARED)) OR SFT_FDEVICE OR SFT_FEOF,
                       sft_name := name1, sft_dcb := Dev dhp, sft_date := snd (stamp s), sft_time := fst (stamp s),
                       sft_attrib := D_DEVICE\<rparr>)"
  have g: "sft_count (g t) = sft_count t + 1" for t by (simp add: g_def)
  have "\<not> list_all (\<lambda>c. c = 0) name"
    using a unfolding DeviceOpenSft_def Let_def name_def by (auto split: if_splits)
  then have c: "(if dh_attr (dhdrs s ! dhp) AND SFT_FOCRM \<noteq> 0
             then (case device_request ou dhp C_OPEN (upd_sft q g (s\<lparr>nls := n\<rparr>)) of (failed, s2) \<Rightarrow> Some (if failed then errno DE_ACCESS else 0, s2))
             else Some (0, upd_sft q g (s\<lparr>nls := n\<rparr>))) = Some (r, s')"
    using a [unfolded DeviceOpenSft_def Let_def, folded name_def, unfolded u prod.case, folded g_def] by (simp only: if_False)
  let ?s0 = "s\<lparr>nls := n\<rparr>" and ?s1 = "upd_sft q g (s\<lparr>nls := n\<rparr>)"
  have f0: "frame s ?s0" by simp
  have l0: "locate (sfthead ?s0) 0 i = Some q" using l by simp
  have k: "frame_but i s ?s1" "fst (keys ?s1 ! i) = fst (keys s ! i) + 1"
    using frame_but_trans [OF frame_but_frame [OF f0] frame_but_upd [OF l0]] count_upd [OF l0, of g] frame_keys [OF f0]
    by (simp_all add: g sft_count_key [OF l0])
  show ?thesis
  proof (cases "dh_attr (dhdrs s ! dhp) AND SFT_FOCRM = 0")
    case False
    then have "device_request ou dhp C_OPEN ?s1 = (fst (device_request ou dhp C_OPEN ?s1), s')" using c by (auto split: prod.splits)
    then have "frame ?s1 s'" by (rule device_request_frame)
    then show ?thesis using k frame_but_trans [OF k(1) frame_but_frame] frame_keys by metis
  qed (use c k in auto)
qed

lemma open_local_opened:
  assumes l: "locate (sfthead s) 0 i = Some q" and z: "fst (keys s ! i) = 0" and i: "i < 256"
    and a: "open_local ou flags attrib i q s = Some (r, s')"
  shows "opened i r s s'"
proof -
  have il: "i < length (keys s)" by (rule key_at [OF l])
  have bad: "opened i r s t" if "r < 0" "frame_count i s t" for t
    using that z il by (simp add: opened_def frame_count_def)
  obtain inst s1 where s1: "IsShareInstalled True s = (inst, s1)" by (cases "IsShareInstalled True s")
  have f1: "frame s s1" using s1 by (auto simp: IsShareInstalled_def)
  show ?thesis
  proof (cases "flags AND O_ACCMODE > 2 \<or> flags AND O_FCB = 0 \<and> attrib AND NOT (ucast (D_RDONLY OR D_HIDDEN OR D_SYSTEM OR D_ARCHIVE OR D_VOLID)) \<noteq> 0")
    case True
    then show ?thesis using a bad [OF _ frame_count_refl] by (auto simp: open_local_def split: if_splits)
  next
    case False
    note a1 = a [unfolded open_local_def s1 Let_def prod.case]
    define chk where "chk = (if inst then do {
                (f, sh) \<leftarrow> open_check (PriPathName s1) (cu_psp s1) (flags AND 3) (drop_bit 4 flags AND 7) (shr s1);
                Some (f, upd_sft q (\<lambda>t. t\<lparr>sft_shroff := of_int f\<rparr>) (s1\<lparr>shr := sh\<rparr>))
              }
              else Some (0, s1))"
    obtain fileno s2 where s2: "chk = Some (fileno, s2)"
      using a1 False unfolding chk_def by (auto simp: bind_eq_Some_conv split: if_splits)
    have l1: "locate (sfthead s1) 0 i = Some q" using l frame_locate [OF f1] by simp
    have f2: "frame_count i s s2"
      using s2 frame_count_frame [OF f1] l1 unfolding chk_def
      by (auto simp: bind_eq_Some_conv split: if_splits
          intro!: frame_count_trans [OF frame_count_frame [OF f1]] frame_count_trans [OF frame_count_frame frame_count_upd, of s1 _ i])
    have l2: "locate (sfthead s2) 0 i = Some q" using l frame_but_locate [OF frame_count_but [OF f2]] by simp
    show ?thesis
    proof (cases "inst \<and> fileno < 0")
      case True
      then show ?thesis using a1 s2 bad [OF _ f2] False unfolding chk_def by (auto split: if_splits)
    next
      case nb: False
      define s3 where "s3 = upd_sft q (\<lambda>t. t\<lparr>sft_count := sft_count t + 1, sft_flags := scast (hd (PriPathName s1)) - 0x41\<rparr>) s2"
      have f3: "frame_but i s s3" "fst (keys s3 ! i) = 1"
        using frame_but_trans [OF frame_count_but [OF f2] frame_but_upd [OF l2]] frame_count_fst [OF f2]
        by (simp_all add: s3_def count_upd [OF l2] sft_count_key [OF l2] z)
      have l3: "locate (sfthead s3) 0 i = Some q" using l frame_but_locate [OF f3(1)] by simp
      have e: "(do {
             (result, s4) \<leftarrow> dos_open ou (PriPathName s1) flags attrib i s3;
             if result < 0 then do {
               s5 \<leftarrow> (if sint (sft_shroff (sft_at q s4)) \<ge> 0 then
                       map_option (\<lambda>sh. upd_sft q (\<lambda>t. t\<lparr>sft_shroff := 0xffff\<rparr>) (s4\<lparr>shr := sh\<rparr>))
                         (close_file (sft_shroff (sft_at q s4)) (shr s4))
                     else Some s4);
               Some (result, drop_count q s5)
             }
             else Some (int i + result * 65536, s4)
           }) = Some (r, s')"
        using a1 [folded chk_def, unfolded s2 Option.bind.simps prod.case if_not_P [OF nb], folded s3_def] False by (simp split: if_splits)
      obtain result s4 where s4: "dos_open ou (PriPathName s1) flags attrib i s3 = Some (result, s4)"
        using e by (auto simp: bind_eq_Some_conv)
      note c4 = dos_open_count [OF s4 i]
      have f4: "frame_but i s s4" "fst (keys s4 ! i) = 1"
        using frame_but_trans [OF f3(1) frame_count_but [OF c4]] frame_count_fst [OF c4] f3(2) by simp_all
      have l4: "locate (sfthead s4) 0 i = Some q" using l frame_but_locate [OF f4(1)] by simp
      show ?thesis
      proof (cases "result < 0")
        case False
        then have "r = int i + result * 65536" "s' = s4" using e s4 by simp_all
        then show ?thesis using f4 z il by (simp add: opened_def)
      next
        case True
        then obtain s5 where s5: "(if sint (sft_shroff (sft_at q s4)) \<ge> 0 then
                       map_option (\<lambda>sh. upd_sft q (\<lambda>t. t\<lparr>sft_shroff := 0xffff\<rparr>) (s4\<lparr>shr := sh\<rparr>))
                         (close_file (sft_shroff (sft_at q s4)) (shr s4))
                     else Some s4) = Some s5" "s' = drop_count q s5" "r = result"
          using e s4 by (auto simp: bind_eq_Some_conv)
        have f5: "frame_but i s s5"
          using s5(1) f4(1) l4 by (auto split: if_splits intro!: frame_but_trans [OF f4(1)] frame_but_trans [OF frame_but_frame frame_but_upd, of s4 _ i])
        have l5: "locate (sfthead s5) 0 i = Some q" using l frame_but_locate [OF f5] by simp
        have "frame_but i s s'" unfolding s5(2) drop_count_def by (rule frame_but_trans [OF f5 frame_but_upd [OF l5]])
        then show ?thesis using True s5(3) z il by (simp add: opened_def)
      qed
    qed
  qed
qed

lemma entry_ptrs_locate: "(j, q) \<in> set (entry_ptrs ts b i) \<Longrightarrow> i \<le> j \<and> locate ts b (j - i) = Some q"
proof (induction ts arbitrary: b i)
  case (Cons t ts)
  then consider k where "k < length t" "j = i + k" "q = (b, k)" | "(j, q) \<in> set (entry_ptrs ts (b + 1) (i + length t))" by auto
  then show ?case
  proof cases
    case 2
    from Cons.IH [OF this] show ?thesis by auto
  qed simp
qed simp

lemma get_free_sft_found:
  assumes "get_free_sft s = (Some (i, q), s')"
  shows "locate (sfthead s) 0 i = Some q" "sft_count (sft_at q s) = 0" "frame s s'"
proof -
  obtain i' q' where f: "find (\<lambda>(i, q). sft_count (sft_at q s) = 0) (entry_ptrs (sfthead s) 0 0) = Some (i', q')"
    using assms by (cases "find (\<lambda>(i, q). sft_count (sft_at q s) = 0) (entry_ptrs (sfthead s) 0 0)") (auto simp: get_free_sft_def)
  then have e: "i' = i" "q' = q" "s' = s\<lparr>current_sft_idx := of_nat i\<rparr>" using assms by (auto simp: get_free_sft_def)
  have "(i, q) \<in> set (entry_ptrs (sfthead s) 0 0)" "sft_count (sft_at q s) = 0"
    using f unfolding e by (auto simp: find_Some_iff intro: nth_mem) (metis nth_mem)
  then show "locate (sfthead s) 0 i = Some q" "sft_count (sft_at q s) = 0" using entry_ptrs_locate by fastforce+
  show "frame s s'" by (simp add: e)
qed

text \<open>Either no entry changes, or one that was free.\<close>

lemma DosOpenSft_opened:
  assumes n: "no_redirector ou" and len: "length (keys s) < 0x100" and a: "DosOpenSft ou fname flags attrib s = Some (r, s')"
  obtains "r < 0" "frame s s'" | i where "opened i r s s'"
proof -
  obtain x s1 where x: "primary_name ou fname CDS_MODE_CHECK_DEV_PATH s = Some (x, s1)"
    using a by (auto simp: DosOpenSft_def bind_eq_Some_conv)
  note f1 = primary_name_frame [OF n x]
  show thesis
  proof (cases x)
    case (Inl e)
    then show ?thesis using a f1 that(1) by (cases e) (simp_all add: DosOpenSft_def x)
  next
    case (Inr result)
    obtain fe s2 where fe: "get_free_sft s1 = (fe, s2)" by (cases "get_free_sft s1")
    show ?thesis
    proof (cases fe)
      case None
      then have "s2 = s1" using fe by (auto simp: get_free_sft_def split: option.splits)
      then show ?thesis using a f1 that(1) None by (simp add: DosOpenSft_def x Inr fe)
    next
      case (Some y)
      obtain i q where y: "y = (i, q)" by (cases y)
      note g = get_free_sft_found [OF fe [unfolded Some y]]
      define s3 where "s3 = upd_sft q (\<lambda>_. blank_sft\<lparr>sft_psp := cu_psp s2, sft_mode := flags AND 0xf0ff, sft_shroff := 0xffff,
                          sft_attrib := ucast (attrib OR ucast D_ARCHIVE)\<rparr>) (s2\<lparr>OpenMode := ucast flags\<rparr>)"
      define dv where "dv = (if result AND IS_DEVICE \<noteq> 0 \<and> result AND IS_NETWORK = 0 then IsDevice ou fname s3 else (None, s3))"
      obtain dhp s4 where s4: "dv = (dhp, s4)" by (cases dv)
      note a1 = a [unfolded DosOpenSft_def x Option.bind.simps prod.case Inr sum.case fe Some y option.case Let_def,
          unfolded prod.case, folded s3_def, folded dv_def, unfolded s4 prod.case]
      have f2: "frame s (s2\<lparr>OpenMode := ucast flags\<rparr>)" using frame_trans [OF f1 g(3)] by simp
      have l: "locate (sfthead s) 0 i = Some q" using g(1) frame_locate [OF f1] by simp
      have l2: "locate (sfthead (s2\<lparr>OpenMode := ucast flags\<rparr>)) 0 i = Some q" using l frame_locate [OF f2] by simp
      have z: "fst (keys s ! i) = 0"
        using g(2) sft_count_key [OF g(1)] by (simp add: frame_keys [OF f1])
      have f3: "frame_but i s s3" "fst (keys s3 ! i) = 0"
        using frame_but_trans [OF frame_but_frame [OF f2] frame_but_upd [OF l2]]
        by (simp_all add: s3_def count_upd [OF l2] blank_sft_def)
      have f34: "frame s3 s4" using s4 IsDevice_frame by (auto simp: dv_def split: if_splits)
      have f4: "frame_but i s s4" "fst (keys s4 ! i) = 0"
        using frame_but_trans [OF f3(1) frame_but_frame [OF f34]] f3(2) by (simp_all add: frame_keys [OF f34])
      have l4: "locate (sfthead s4) 0 i = Some q" using l frame_but_locate [OF f4(1)] by simp
      have il: "i < length (keys s)" by (rule key_at [OF l])
      have o: "opened i r s s'" if "opened i r s4 s'"
        using that f4 z il by (auto simp: opened_def intro: frame_but_trans)
      show ?thesis
      proof (cases dhp)
        case (Some k)
        then obtain rc where d: "DeviceOpenSft ou k q s4 = Some (rc, s')" "r = (if rc < 0 then rc else int i)"
          using a1 by (auto simp: bind_eq_Some_conv)
        have "opened i r s4 s'"
          using DeviceOpenSft_opened [OF l4 d(1)] f4 il d(2) frame_but_length [OF f4(1)] by (auto simp: opened_def)
        then show ?thesis using that(2) o by blast
      next
        case None
        show ?thesis
        proof (cases "result AND IS_NETWORK = 0")
          case True
          then have "open_local ou flags (attrib OR ucast D_ARCHIVE) i q s4 = Some (r, s')" using a1 None by simp
          from open_local_opened [OF l4 f4(2) _ this] show ?thesis using that(2) o il len by simp
        next
          case False
          have "redirector ou f u t = (-1, t)" for f u t using n by (simp add: no_redirector_def)
          then have "r = -1 \<and> frame s4 s'" using a1 None False
            by (auto simp: open_remote_def Let_def split: if_splits prod.splits)
          then have "opened i r s4 s'" using f4 il frame_but_length [OF f4(1)] by (simp add: opened_def frame_but_frame)
          then show ?thesis using that(2) o by blast
        qed
      qed
    qed
  qed
qed

section \<open>A handle for the entry\<close>

definition all_local :: "('c, 'd) fsys \<Rightarrow> bool" where
  "all_local s \<longleftrightarrow> (\<forall>k \<in> set (keys s). snd k = 0)"

lemma low_byte: "(of_int r :: u16) = of_nat i \<Longrightarrow> (of_int r :: u8) = of_nat i"
proof -
  assume "(of_int r :: u16) = of_nat i"
  then have "(ucast (of_int r :: u16) :: u8) = ucast (of_nat i :: u16)" by simp
  moreover have "(ucast (of_int k :: u16) :: u8) = of_int k" for k by transfer (simp add: take_bit_take_bit)
  ultimately show ?thesis by (metis of_int_of_nat_eq)
qed

lemma opened_refs:
  assumes i: "handles_ok ps s" and o: "opened j r s s'"
  shows "refs_ok (keys s') (all_handles ps s)" "count (all_handles ps s) v = 0 \<or> unat v \<noteq> j \<or> v = 0xff"
proof -
  have ne: "unat v \<noteq> j" if v: "v \<in># all_handles ps s" "v \<noteq> 0xff" for v
  proof
    assume "unat v = j"
    then have "count (all_handles ps s) v \<le> 0" using refs_okD(2) [OF handles_okD(4) [OF i] v] o by (simp add: opened_def)
    moreover have "0 < count (all_handles ps s) v" using v(1) by simp
    ultimately show False by linarith
  qed
  show "refs_ok (keys s') (all_handles ps s)" unfolding refs_ok_def
  proof
    fix v assume v: "v \<in># all_handles ps s"
    show "v = 0xff \<or> unat v < length (keys s') \<and> count (all_handles ps s) v \<le> unat (fst (keys s' ! unat v)) \<and> snd (keys s' ! unat v) = 0"
      using refs_okD [OF handles_okD(4) [OF i] v] ne [OF v] o
      by (cases "v = 0xff") (simp_all add: opened_def frame_but_length [of j s s'] frame_but_def)
  qed
  show "count (all_handles ps s) v = 0 \<or> unat v \<noteq> j \<or> v = 0xff" using ne [of v] count_greater_zero_iff [of "all_handles ps s" v] by (metis gr0I)
qed

lemma opened_handles:
  assumes i: "handles_ok ps s" and o: "opened j r s s'"
  shows "handles_ok ps s'"
proof -
  have p: "psps s' = psps s" "cu_psp s' = cu_psp s" "length (keys s') = length (keys s)"
    using o frame_but_length [of j s s'] by (simp_all add: opened_def frame_but_def)
  have "all_handles ps s' = all_handles ps s" by (rule all_handles_cong) (simp add: p)
  then show ?thesis using i opened_refs(1) [OF i o] by (simp add: handles_ok_def p)
qed

lemma DosOpen_handles:
  assumes n: "no_redirector ou" and i: "handles_ok ps s" and a: "DosOpen ou fname mode attrib s = Some (r, s')" and l: "all_local s'"
  shows "handles_ok ps s'"
proof -
  consider "s' = s" | m res s1 where "get_free_hndl s = int m" "m < length (handle_table s)" "handle_table s ! m = 0xff" "m < 65536"
      "DosOpenSft ou fname mode attrib s = Some (res, s1)" "s' = (if res < 0 then s1 else set_filetab (of_nat m) (of_int res) s1)"
  proof (cases rule: get_free_hndl_cases [OF i])
    case 1
    then show ?thesis using a that(1) by (auto simp: DosOpen_def Let_def split: if_splits)
  next
    case (2 m)
    have "m < 65536" using 2(4) unat16_lt [of "of_int (get_free_hndl s)"] by simp
    show ?thesis
    proof (cases "mode AND NOT O_VALIDMASK = 0")
      case True
      then obtain res s1 where o: "DosOpenSft ou fname mode attrib s = Some (res, s1)"
        and k: "(if res < 0 then Some (res, s1) else Some (int m + (res div 65536) * 65536, set_filetab (of_int (int m)) (of_int res) s1)) = Some (r, s')"
        using a by (auto simp: DosOpen_def 2(1) Let_def bind_eq_Some_conv)
      then have "s' = (if res < 0 then s1 else set_filetab (of_nat m) (of_int res) s1)" by (auto split: if_splits)
      then show ?thesis using that(2) [OF 2(1-3) \<open>m < 65536\<close> o] by blast
    qed (use a that(1) in \<open>simp add: DosOpen_def\<close>)
  qed
  then show ?thesis
  proof cases
    case (2 m res s1)
    show ?thesis
    proof (cases rule: DosOpenSft_opened [OF n handles_okD(3) [OF i] 2(5)])
      case 1
      then show ?thesis using 2(6) handles_frame [OF i] by simp
    next
      case o: (2 j)
      note i1 = opened_handles [OF i o]
      show ?thesis
      proof (cases "res < 0")
        case True
        then show ?thesis using 2(6) i1 by simp
      next
        case False
        let ?v = "of_int res :: u8" and ?h = "of_nat m :: u16"
        have k: "fst (keys s1 ! j) = 1" "(of_int res :: u16) = of_nat j" "j < length (keys s)" "length (keys s1) = length (keys s)"
          "psps s1 = psps s" "cu_psp s1 = cu_psp s"
          using o False frame_but_length [of j s s1] by (simp_all add: opened_def frame_but_def)
        have j: "j < 255" using k(3) handles_okD(3) [OF i] by simp
        have v: "?v = of_nat j" "unat ?v = j" using low_byte [OF k(2)] j by (simp_all add: unat8_of_nat)
        have nff: "?v \<noteq> 0xff" using v(2) j by auto
        have t: "handle_table s1 = handle_table s" by (simp add: handle_table_def cur_psp_def k)
        have h: "unat ?h = m" using 2(4) by (simp add: unat16_of_nat)
        have s': "s' = set_filetab ?h ?v s1" using 2(6) False by simp
        have c: "count (all_handles ps s1) ?v = 0"
          using opened_refs(2) [OF i o, of ?v] v nff all_handles_cong [of ps s1 s] by (simp add: k)
        have ah: "all_handles ps s' = add_mset ?v (all_handles ps s1 - {# 0xff #})"
          using all_handles_filetab [OF i1, of ?h ?v] 2(2,3) by (simp add: s' t h)
        have sn: "snd (keys s1 ! j) = 0"
          using l k(3,4) nth_mem [of j "keys s1"] by (simp add: all_local_def s' set_filetab_effect)
        have "refs_ok (keys s1) (all_handles ps s')" unfolding ah refs_ok_def
        proof
          fix w assume w: "w \<in># add_mset ?v (all_handles ps s1 - {#0xff#})"
          show "w = 0xff \<or> unat w < length (keys s1) \<and> count (add_mset ?v (all_handles ps s1 - {#0xff#})) w \<le> unat (fst (keys s1 ! unat w))
            \<and> snd (keys s1 ! unat w) = 0"
          proof (cases "w = ?v")
            case True
            then show ?thesis using v k(1,3,4) c sn nff by simp
          next
            case False
            then show ?thesis using w refs_okD [OF handles_okD(4) [OF i1], of w] by (auto dest: in_diffD)
          qed
        qed
        then show ?thesis using i1 by (simp add: handles_ok_def s' set_filetab_effect)
      qed
    qed
  qed (simp add: i)
qed

end
