(* ===== verification/Handle_Props.thy ===== *)
theory Handle_Props
  imports Handle_Open Nls_Props Fat_Store_Props Fat_Dpb_Props
begin

text \<open>
  Processes and their handles as a transition system: opening, closing, duplicating, positioning, locking, starting a
  child, switching the process and ending it. No sequence of these calls leaves a handle without its entry.
\<close>

section \<open>Operations that touch no key\<close>

lemma frame_key_upd: "key (g (sft_at q s)) = key (sft_at q s) \<Longrightarrow> frame s (upd_sft q g s)"
  by (rule frame_upd)

lemma SftSeek2_frame:
  assumes "no_redirector ou" "SftSeek2 ou i pos mode s = (r, p, s')"
  shows "frame s s'"
proof (cases "idx_to_sft i s")
  case (Pair x s1)
  note f = idx_to_sft_frame [OF Pair]
  have n: "redirector ou c a t = (-1, t)" for c a t using assms(1) by (simp add: no_redirector_def)
  have u: "frame s (upd_sft q (\<lambda>t. t\<lparr>sft_posit := v\<rparr>) (s1\<lparr>lpCurSft := w\<rparr>))" for q v w
    by (rule frame_trans [OF _ frame_upd]) (simp_all add: f key_def)
  show ?thesis using assms(2) f u
    by (auto simp: SftSeek2_def Pair Let_def n split: option.splits if_splits)
qed

lemma DosSeek_frame: "no_redirector ou \<Longrightarrow> DosSeek ou h pos mode s = (x, r, s') \<Longrightarrow> frame s s'"
  by (auto simp: DosSeek_def split: prod.splits option.splits dest: SftSeek2_frame)

lemma DosSetFtimeSft_frame:
  assumes "DosSetFtimeSft i d t s = (r, s')"
  shows "frame s s'"
proof (cases "idx_to_sft i s")
  case (Pair x s1)
  note f = idx_to_sft_frame [OF Pair]
  have k: "(w OR SFT_FDATE) AND SFT_FSHARED = w AND SFT_FSHARED" for w :: u16
    by (simp add: bit.conj_disj_distrib2 SFT_FDATE_def SFT_FSHARED_def)
  have u: "frame s (upd_sft q (\<lambda>e. e\<lparr>sft_flags := sft_flags e OR SFT_FDATE, sft_date := d, sft_time := t\<rparr>) s1)" for q
    by (rule frame_trans [OF f frame_upd]) (simp add: key_def k)
  show ?thesis using assms f u by (auto simp: DosSetFtimeSft_def Pair split: option.splits if_splits)
qed

lemma DosLockUnlock_frame:
  assumes "no_redirector ou" "DosLockUnlock ou h pos len unlock s = Some (r, s')"
  shows "frame s s'"
proof (cases "get_sft h s")
  case (Pair x s1)
  have f: "frame s s1" using Pair by (simp add: get_sft_def idx_to_sft_frame)
  have n: "redirector ou c a t = (-1, t)" for c a t using assms(1) by (simp add: no_redirector_def)
  show ?thesis using assms(2) f by (auto simp: DosLockUnlock_def Pair Let_def n split: option.splits if_splits)
qed

section \<open>Children\<close>

lemma refs_ok_free_handles: "refs_ok ks M \<Longrightarrow> refs_ok ks (replicate_mset n 0xff + M)"
  by (induction n) (simp_all add: refs_ok_add_free)

lemma handles_upd_psp:
  assumes "handles_ok ps s" "\<And>x. ps_filetab (f x) = ps_filetab x" "\<And>x. ps_maxfiles (f x) = ps_maxfiles x"
  shows "handles_ok ps (upd_psp p f s)"
proof -
  have k: "keys (upd_psp p f s) = keys s" "cu_psp (upd_psp p f s) = cu_psp s" by (simp_all add: upd_psp_def keys_def)
  have t: "ps_filetab (psps (upd_psp p f s) q) = ps_filetab (psps s q)" "ps_maxfiles (psps (upd_psp p f s) q) = ps_maxfiles (psps s q)" for q
    by (simp_all add: upd_psp_def assms(2,3))
  show ?thesis using assms(1) all_handles_cong [OF t(1), of ps] by (simp add: handles_ok_def k t)
qed

lemma child_psp_handles:
  assumes i: "handles_ok ps s" and p: "para \<notin> set ps" and r: "clone_room 20 s"
  shows "handles_ok (para # ps) (child_psp vec ver para (cu_psp s) psize s)"
proof -
  define s1 where "s1 = upd_psp para (\<lambda>p. p\<lparr>ps_parent := cu_psp s, ps_prevpsp := cu_psp s, ps_size := psize, ps_maxfiles := 20,
               ps_filetab := replicate 20 0xff\<rparr>) (new_psp vec ver para (cu_psp s) s)"
  have ne: "para \<noteq> cu_psp s" using p handles_okD(2) [OF i] by auto
  have s1: "cu_psp s1 = cu_psp s" "keys s1 = keys s" "q \<noteq> para \<Longrightarrow> psps s1 q = psps s q"
    "ps_filetab (psps s1 para) = replicate 20 0xff" "ps_maxfiles (psps s1 para) = 20" for q
    by (simp_all add: s1_def upd_psp_def new_psp_def keys_def)
  have "all_handles ps s1 = all_handles ps s" by (rule all_handles_cong) (use p s1(3) in metis)
  then have a: "all_handles (para # ps) s1 = replicate_mset 20 0xff + all_handles ps s"
    by (simp add: all_handles_def s1(4))
  have q: "q \<in> set ps \<Longrightarrow> q \<noteq> para" for q using p by blast
  have i1: "handles_ok (para # ps) s1"
    using i p refs_ok_free_handles [OF handles_okD(4) [OF i], of 20]
    unfolding handles_ok_def a s1(1,2) by (simp add: s1(3-5) q)
  have t: "handle_table s1 = handle_table s" using ne by (simp add: handle_table_def cur_psp_def s1)
  have "handles_ok (para # ps) (clone_files para (cu_psp s1) [0..<20] s1)"
  proof (rule clone_files_ok [OF i1])
    show "clone_room (length [0..<20]) s1" using r by (simp add: clone_room_def t s1)
  qed (use ne in \<open>simp_all add: s1\<close>)
  then show ?thesis unfolding child_psp_def s1(1) s1_def [symmetric]
    by (rule handles_upd_psp) simp_all
qed

section \<open>The end of a process\<close>

lemma handles_switch: "handles_ok ps s \<Longrightarrow> p \<in> set ps \<Longrightarrow> handles_ok ps (s\<lparr>cu_psp := p\<rparr>)"
  by (simp add: handles_ok_def keys_def all_handles_def)

lemma refs_ok_subset: "refs_ok ks M \<Longrightarrow> N \<subseteq># M \<Longrightarrow> refs_ok ks N"
  unfolding refs_ok_def by (meson mset_subset_eq_count mset_subset_eqD order_trans)

lemma handles_remove:
  assumes i: "handles_ok ps s" and q: "q \<in> set ps" "q \<noteq> p"
  shows "handles_ok (remove1 p ps) (s\<lparr>cu_psp := q\<rparr>)"
proof -
  have "all_handles (remove1 p ps) s \<subseteq># all_handles ps s"
  proof (cases "p \<in> set ps")
    case True
    obtain as bs where "ps = as @ p # bs" "p \<notin> set as" using split_list_first [OF True] by blast
    then show ?thesis by (simp add: all_handles_def remove1_append)
  qed (simp add: remove1_idem)
  then have "refs_ok (keys s) (all_handles (remove1 p ps) s)" by (rule refs_ok_subset [OF handles_okD(4) [OF i]])
  then have "refs_ok (keys (s\<lparr>cu_psp := q\<rparr>)) (all_handles (remove1 p ps) (s\<lparr>cu_psp := q\<rparr>))"
    by (simp add: keys_def all_handles_def)
  moreover have "length (ps_filetab (psps (s\<lparr>cu_psp := q\<rparr>) x)) = unat (ps_maxfiles (psps (s\<lparr>cu_psp := q\<rparr>) x))"
    if "x \<in> set (remove1 p ps)" for x
    using handles_okD(5) [OF i] set_remove1_subset [of p ps] that by auto
  moreover have "q \<in> set (remove1 p ps)" using q by (simp add: in_set_remove1)
  moreover have "distinct (remove1 p ps)" by (rule distinct_remove1 [OF handles_okD(1) [OF i]])
  moreover have "length (keys (s\<lparr>cu_psp := q\<rparr>)) < 0x100" using handles_okD(3) [OF i] by (simp add: keys_def)
  ultimately show ?thesis unfolding handles_ok_def by simp
qed

section \<open>Calls that take a path\<close>

lemma no_redirector_call: "no_redirector ou \<Longrightarrow> redirector ou f a s = (-1, s)"
  by (simp add: no_redirector_def)

lemma result_frame: "no_redirector ou \<Longrightarrow> redirector ou f a t = (r, s') \<Longrightarrow> frame s t \<Longrightarrow> frame s s'"
  by (simp add: no_redirector_call)

lemma IsShareInstalled_frame: "IsShareInstalled b s = (x, s') \<Longrightarrow> frame s s'"
  by (auto simp: IsShareInstalled_def split: if_splits)

lemma DosMkRmdir_frame:
  assumes "no_redirector ou" "DosMkRmdir ou dir action s = Some (r, s')"
  shows "frame s s'"
proof -
  obtain x s1 where x: "primary_name ou dir CDS_MODE_CHECK_DEV_PATH s = Some (x, s1)"
    using assms(2) by (auto simp: DosMkRmdir_def bind_eq_Some_conv)
  note f = primary_name_frame [OF assms(1) x]
  show ?thesis
    using assms(2) f frame_trans [OF f on_node_frame] result_frame [OF assms(1) _ f]
    by (cases x) (auto simp: DosMkRmdir_def x bind_eq_Some_conv split: if_splits)
qed

lemma DosDelete_frame:
  assumes "no_redirector ou" "DosDelete ou path attrib s = Some (r, s')"
  shows "frame s s'"
proof -
  obtain x s1 where x: "primary_name ou path CDS_MODE_CHECK_DEV_PATH s = Some (x, s1)"
    using assms(2) by (auto simp: DosDelete_def bind_eq_Some_conv)
  note f = primary_name_frame [OF assms(1) x]
  obtain inst s2 where i: "IsShareInstalled True s1 = (inst, s2)" by (cases "IsShareInstalled True s1")
  note f2 = frame_trans [OF f IsShareInstalled_frame [OF i]]
  show ?thesis
    using assms(2) f f2 frame_trans [OF f2 on_node_frame] result_frame [OF assms(1) _ f]
    by (cases x) (auto simp: DosDelete_def x i bind_eq_Some_conv split: if_splits)
qed

lemma DosGetFattr_frame:
  assumes "no_redirector ou" "DosGetFattr ou name s = Some (r, s')"
  shows "frame s s'"
proof -
  obtain x dest s1 where x: "truename ou name CDS_MODE_CHECK_DEV_PATH s = Some (x, dest, s1)"
    using assms(2) by (auto simp: DosGetFattr_def bind_eq_Some_conv)
  note f = truename_frame [OF assms(1) x]
  have f2: "frame s (set_fcbname (s1\<lparr>PriPathName := dest\<rparr>))" using f by (simp add: set_fcbname_def)
  show ?thesis
    using assms(2) f f2 frame_trans [OF f2 on_node_frame] result_frame [OF assms(1) _ f2]
    by (cases x) (auto simp: DosGetFattr_def x Let_def bind_eq_Some_conv split: if_splits)
qed

section \<open>The transition system\<close>

text \<open>
  One call of the current process, on the list of living processes and the state. The calls that add a reference need
  room in the count; duplicating names two different handles of the table; every entry is local.
\<close>

inductive handle_step :: "('c, 'd) outside \<Rightarrow> u16 list \<times> ('c, 'd) fsys \<Rightarrow> u16 list \<times> ('c, 'd) fsys \<Rightarrow> bool" for ou where
  open_file: "DosOpen ou fname mode attrib s = Some (r, s') \<Longrightarrow> all_local s' \<Longrightarrow> handle_step ou (ps, s) (ps, s')"
| close: "DosClose ou h s = Some (r, s') \<Longrightarrow> handle_step ou (ps, s) (ps, s')"
| dup: "DosDup ou h s = Some (r, s') \<Longrightarrow> count_room h s \<Longrightarrow> handle_step ou (ps, s) (ps, s')"
| force_dup: "DosForceDup ou h n s = Some (r, s') \<Longrightarrow> count_room h s \<Longrightarrow> unat n < length (handle_table s) \<Longrightarrow> n \<noteq> h
    \<Longrightarrow> handle_step ou (ps, s) (ps, s')"
| seek: "DosSeek ou h pos mode s = (x, r, s') \<Longrightarrow> handle_step ou (ps, s) (ps, s')"
| set_time: "DosSetFtimeSft (get_sft_idx h s) d t s = (r, s') \<Longrightarrow> handle_step ou (ps, s) (ps, s')"
| lock: "DosLockUnlock ou h pos len unlock s = Some (r, s') \<Longrightarrow> handle_step ou (ps, s) (ps, s')"
| mkrmdir: "DosMkRmdir ou dir action s = Some (r, s') \<Longrightarrow> handle_step ou (ps, s) (ps, s')"
| delete: "DosDelete ou path a s = Some (r, s') \<Longrightarrow> handle_step ou (ps, s) (ps, s')"
| get_attr: "DosGetFattr ou name s = Some (r, s') \<Longrightarrow> handle_step ou (ps, s) (ps, s')"
| child: "para \<notin> set ps \<Longrightarrow> clone_room 20 s \<Longrightarrow> handle_step ou (ps, s) (para # ps, child_psp vec ver para (cu_psp s) psize s)"
| switch: "p \<in> set ps \<Longrightarrow> handle_step ou (ps, s) (ps, s\<lparr>cu_psp := p\<rparr>)"
| exit: "close_handles ou [0..<unat (ps_maxfiles (cur_psp s))] s = Some s' \<Longrightarrow> ps_parent (cur_psp s) \<in> set ps
    \<Longrightarrow> ps_parent (cur_psp s) \<noteq> cu_psp s \<Longrightarrow> handle_step ou (ps, s) (remove1 (cu_psp s) ps, s'\<lparr>cu_psp := ps_parent (cur_psp s)\<rparr>)"

lemma handle_step_ok:
  assumes n: "no_redirector ou" and i: "handles_ok ps s" and st: "handle_step ou (ps, s) (ps', s')"
  shows "handles_ok ps' s'"
  using st
proof (cases rule: handle_step.cases)
  case (open_file fname mode attrib r)
  then show ?thesis using DosOpen_handles [OF n i] by simp
next
  case (close h r)
  then show ?thesis using DosClose_handles [OF i] by simp
next
  case (dup h r)
  then show ?thesis using DosDup_handles [OF i] by simp
next
  case (force_dup h n' r)
  then show ?thesis using DosForceDup_handles [OF i] by simp
next
  case (seek h pos mode x r)
  then show ?thesis using handles_frame [OF i DosSeek_frame [OF n]] by simp
next
  case (set_time h d t r)
  then show ?thesis using handles_frame [OF i DosSetFtimeSft_frame] by simp
next
  case (lock h pos len unlock r)
  then show ?thesis using handles_frame [OF i DosLockUnlock_frame [OF n]] by simp
next
  case (mkrmdir dir action r)
  then show ?thesis using handles_frame [OF i DosMkRmdir_frame [OF n]] by simp
next
  case (delete path a r)
  then show ?thesis using handles_frame [OF i DosDelete_frame [OF n]] by simp
next
  case (get_attr name r)
  then show ?thesis using handles_frame [OF i DosGetFattr_frame [OF n]] by simp
next
  case (child para vec ver psize)
  then show ?thesis using child_psp_handles [OF i] by simp
next
  case (switch p)
  then show ?thesis using handles_switch [OF i] by simp
next
  case (exit t)
  then show ?thesis using handles_remove [OF close_handles_ok [OF i]] by simp
qed

lemma handle_steps_ok:
  assumes n: "no_redirector ou" and st: "(handle_step ou)\<^sup>*\<^sup>* x y" and i: "handles_ok (fst x) (snd x)"
  shows "handles_ok (fst y) (snd y)"
  using st i
proof (induction rule: rtranclp_induct)
  case (step y z)
  then show ?case using handle_step_ok [OF n, of "fst y" "snd y" "fst z" "snd z"] by simp
qed

text \<open>
  C30: whatever sequence of calls the processes make, no handle of any of them is left without its entry: the number in
  the table leads to an entry in use, and that entry counts at least the handles that name it. The calls of the sequence are those of \<open>handle_step\<close>: there is room for one more
  reference in the count, a forced duplicate names two different handles, entries are local and there is no redirector.
\<close>

theorem handles_never_dangle:
  assumes "no_redirector ou" "handles_ok ps s" "(handle_step ou)\<^sup>*\<^sup>* (ps, s) (ps', s')"
    and "p \<in> set ps'" "v \<in> set (ps_filetab (psps s' p))" "v \<noteq> 0xff"
  shows "handles_ok ps' s' \<and> (\<exists>q. fst (idx_to_sft (int (unat v)) s') = Some q \<and> count (all_handles ps' s') v \<le> unat (sft_count (sft_at q s')))"
proof -
  have i: "handles_ok ps' s'" using handle_steps_ok [OF assms(1,3)] assms(2) by simp
  obtain h where h: "h < length (ps_filetab (psps s' p))" "v = ps_filetab (psps s' p) ! h"
    using assms(5) by (metis in_set_conv_nth)
  have v: "v \<in># all_handles ps' s'" unfolding h(2) by (rule all_handles_member [OF assms(4) h(1)])
  note d = refs_okD [OF handles_okD(4) [OF i] v assms(6)]
  have "unat v < length (concat (sfthead s'))" using d(1) by (simp add: keys_def)
  then obtain q where q: "locate (sfthead s') 0 (unat v) = Some q" using locate_total by blast
  have c: "count (all_handles ps' s') v \<le> unat (sft_count (sft_at q s'))" using d(2) by (simp add: sft_count_key [OF q])
  moreover have "0 < count (all_handles ps' s') v" using v by simp
  ultimately have "sft_count (sft_at q s') \<noteq> 0" by (metis le_zero_eq neq0_conv unat_0)
  then have "fst (idx_to_sft (int (unat v)) s') = Some q" by (simp add: idx_to_sft_def idx_to_sft0_def q sft_at_def)
  then show ?thesis using i c by blast
qed

section \<open>A closed handle comes back\<close>

lemma get_free_hndl_le:
  assumes "handles_ok ps s" "h < length (handle_table s)" "handle_table s ! h = 0xff"
  shows "0 \<le> get_free_hndl s \<and> get_free_hndl s \<le> int h"
proof (cases "find (\<lambda>i. ps_filetab (cur_psp s) ! i = 0xff) [0..<unat (ps_maxfiles (cur_psp s))]")
  case None
  then have "handle_table s ! h \<noteq> 0xff"
    using assms(2) handles_okD(6) [OF assms(1)] by (simp add: find_None_iff handle_table_def)
  then show ?thesis using assms(3) by simp
next
  case (Some n)
  then have "\<And>m. m < n \<Longrightarrow> handle_table s ! m \<noteq> 0xff" by (auto simp: find_Some_iff handle_table_def)
  then have "n \<le> h" using assms(3) by (meson not_le)
  then show ?thesis using Some by (simp add: get_free_hndl_def)
qed

lemma entry_ptrs_set: "locate ts b i = Some q \<Longrightarrow> (k + i, q) \<in> set (entry_ptrs ts b k)"
proof (induction ts arbitrary: b i k)
  case (Cons t ts)
  show ?case
  proof (cases "i < length t")
    case False
    then have "locate ts (b + 1) (i - length t) = Some q" using Cons.prems by simp
    from Cons.IH [OF this, of "k + length t"] show ?thesis using False by simp
  qed (use Cons.prems in auto)
qed simp

lemma get_free_sft_exists:
  assumes "locate (sfthead s) 0 i = Some q" "sft_count (sft_at q s) = 0"
  shows "fst (get_free_sft s) \<noteq> None"
proof -
  have "(i, q) \<in> set (entry_ptrs (sfthead s) 0 0)" using entry_ptrs_set [OF assms(1), of 0] by simp
  then have "find (\<lambda>(i, q). sft_count (sft_at q s) = 0) (entry_ptrs (sfthead s) 0 0) \<noteq> None"
    using assms(2) unfolding find_None_iff by (metis (mono_tags, lifting) case_prod_conv)
  then show ?thesis by (auto simp: get_free_sft_def split: option.splits)
qed

text \<open>
  C31: closing a handle gives back what opening took: the handle is free and the next open gets it or a lower one, and when
  the last reference to the entry goes, an open finds a free entry again.
\<close>

theorem DosClose_frees_handle:
  assumes "handles_ok ps s" "unat h < length (handle_table s)" "handle_table s ! unat h \<noteq> 0xff" "DosClose ou h s = Some (r, s')"
  shows "handle_table s' ! unat h = 0xff \<and> 0 \<le> get_free_hndl s' \<and> get_free_hndl s' \<le> int (unat h)
    \<and> (r = 0 \<longrightarrow> fst (keys s ! unat (handle_table s ! unat h)) = 1 \<longrightarrow> fst (get_free_sft s') \<noteq> None)"
proof -
  let ?v = "handle_table s ! unat h"
  note i' = DosClose_handles [OF assms(1,4)]
  have e: "handle_table s' = (handle_table s)[unat h := 0xff] \<and> (r = 0 \<longrightarrow> closed_one (int (unat ?v)) (set_filetab h 0xff s) s')"
    using DosClose_cases [OF assms(1,4)]
  proof cases
    case 1
    then show ?thesis using assms(2,3) handles_okD(6) [OF assms(1)]
      by (simp add: get_sft_idx_def handle_table_def word_le_nat_alt not_le)
  next
    case 2
    then show ?thesis using frame_table [OF 2(4)] by (simp add: set_filetab_effect)
  next
    case 3
    note c = closed_one_effect [OF 3(4), unfolded set_filetab_effect]
    have "handle_table s' = handle_table (set_filetab h 0xff s)" by (simp add: handle_table_def cur_psp_def c set_filetab_effect)
    then show ?thesis using 3 by (simp add: set_filetab_effect)
  qed
  then have t: "unat h < length (handle_table s')" "handle_table s' ! unat h = 0xff" using assms(2) by simp_all
  have "fst (get_free_sft s') \<noteq> None" if z: "r = 0" "fst (keys s ! unat ?v) = 1"
  proof -
    have co: "closed_one (int (unat ?v)) (set_filetab h 0xff s) s'" using e z(1) by blast
    note c = closed_one_effect [OF co, unfolded set_filetab_effect nat_int]
    obtain q where q: "locate (sfthead s) 0 (unat ?v) = Some q" using handle_found [OF assms(1-3)] by metis
    have l: "locate (sfthead s') 0 (unat ?v) = Some q"
      using q closed_one_locate [OF co] by (simp add: set_filetab_effect)
    show ?thesis by (rule get_free_sft_exists [OF l]) (use c(2) z(2) in \<open>simp add: sft_count_key [OF l] c(4)\<close>)
  qed
  then show ?thesis using t get_free_hndl_le [OF i' t] by simp
qed

section \<open>Witnesses\<close>

definition demo_psp :: psp where
  "demo_psp = \<lparr>ps_size = 0x1000, ps_reentry = (0, 0), ps_isv22 = (0, 0), ps_isv23 = (0, 0), ps_isv24 = (0, 0), ps_parent = 0x100,
     ps_environ = 0, ps_stack = (0, 0), ps_maxfiles = 20, ps_filetab = [0, 0] @ replicate 18 0xff, ps_prevpsp = 0x100,
     ps_retdosver = 7, ps_fcb1 = replicate 16 0, ps_fcb2 = replicate 16 0, ps_cmd = replicate 128 0\<rparr>"

text \<open>A console with two handles, in a table of three entries.\<close>

definition demo_con :: sft where
  "demo_con = blank_sft\<lparr>sft_count := 2, sft_flags := 0xC3, sft_dcb := Dev 0\<rparr>"

definition demo_fsys :: "(unit, nat \<times> u8 \<Rightarrow> u32 \<Rightarrow> bytes) fsys" where
  "demo_fsys = \<lparr>fio = demo_io, fnode0 = demo_fnode 0, fnode1 = demo_fnode 0,
     sfthead = [[demo_con], [blank_sft, blank_sft]], lpCurSft = None, current_sft_idx = 0, share_installed = False,
     share_loaded = False, shr = \<lparr>file_table = [], lock_table = [], file_table_free = 0, lock_table_free = 0, int24_calls = []\<rparr>,
     chars = \<lparr>CharReqHdr = \<lparr>r_length = 0, r_unit = 0, r_command = 0, r_status = 0, r_count = 0, r_ndbyte = 0, r_nunits = 0\<rparr>,
       CritErrCode = 0, answers = [], dev = ()\<rparr>,
     dhdrs = [\<lparr>dh_attr = 0x8003, dh_name = [0x43, 0x4f, 0x4e] @ replicate 5 0x20\<rparr>], cu_psp = 0x100, psps = (\<lambda>_. demo_psp),
     stamp = (0, 0), default_drive = 2, nls = us_info 0, current_ldt = NoLdt, njoined = 0, os_major = 7,
     media_rq = \<lparr>r_length = 0, r_unit = 0, r_command = 0, r_status = 0, r_count = 0, r_ndbyte = 0, r_nunits = 0,
       r_mcmdesc = 0, r_mcretcode = 0, r_bpptr = demo_bpb\<rparr>, internal_dpb = (\<lambda>_. False), PriPathName = [], SecPathName = [], fcb_name = [],
     OpenMode = 0, SAttr = 0, SearchDir = demo_dirent, ext_open = (0, 0, 0)\<rparr>"

definition demo_outside :: "(unit, nat \<times> u8 \<Rightarrow> u32 \<Rightarrow> bytes) outside" where
  "demo_outside = \<lparr>char_drv = (\<lambda>_ rq buf d. (rq, buf, d)), blk_drv = ram_driver, media_drv = (\<lambda>_ rq d. (rq, d)), nls_mux = kernel_mux,
     redirector = (\<lambda>_ _ s. (-1, s)), remote_space = (\<lambda>_ _ s. (-1, [], s)), remote_rw = (\<lambda>_ _ _ buf s. (-1, buf, s)), qualify = (\<lambda>_ s. (-1, [], s))\<rparr>"

lemma demo_no_redirector: "no_redirector demo_outside"
  by (simp add: no_redirector_def demo_outside_def)

lemma demo_keys: "keys demo_fsys = [(2, 0), (0, 0), (0, 0)]"
  by (simp add: keys_def key_def demo_fsys_def demo_con_def blank_sft_def SFT_FSHARED_def)

lemma demo_table: "handle_table demo_fsys = [0, 0] @ replicate 18 0xff"
  by (simp add: handle_table_def cur_psp_def demo_fsys_def demo_psp_def)

lemma demo_handles: "handles_ok [0x100] demo_fsys"
proof -
  have a: "all_handles [0x100] demo_fsys = {#0, 0#} + replicate_mset 18 0xff"
    by (simp add: all_handles_def demo_fsys_def demo_psp_def)
  have "refs_ok (keys demo_fsys) (all_handles [0x100] demo_fsys)"
    unfolding a demo_keys by (auto simp: refs_ok_def)
  then show ?thesis unfolding handles_ok_def by (simp add: demo_keys) (simp add: demo_fsys_def demo_psp_def)
qed

text \<open>The console handles go to a child, which closes one of them.\<close>

definition demo_child :: "(unit, nat \<times> u8 \<Rightarrow> u32 \<Rightarrow> bytes) fsys" where
  "demo_child = child_psp (\<lambda>_. (0, 0)) 7 0x200 0x100 0x1100 demo_fsys"

lemma clone_files_others: "q \<noteq> p \<Longrightarrow> psps (clone_files p cur is s) q = psps s q"
proof (induction "is" arbitrary: s)
  case (Cons j js)
  obtain r s1 where c: "CloneHandle (of_nat j) s = (r, s1)" by (cases "CloneHandle (of_nat j) s")
  have "psps s1 = psps s" using c
    by (auto simp: CloneHandle_def get_sft_def idx_to_sft_def idx_to_sft0_def add_ref_def upd_sft_def Let_def split: prod.splits option.splits if_splits)
  then show ?case using Cons by (simp add: c upd_psp_def)
qed simp

lemma demo_child_table: "psps demo_child 0x100 = demo_psp"
  by (simp add: demo_child_def child_psp_def upd_psp_def clone_files_others new_psp_def) (simp add: demo_fsys_def)

lemma demo_child_step: "handle_step demo_outside ([0x100], demo_fsys) ([0x200, 0x100], demo_child)"
proof -
  have "clone_room 20 demo_fsys" by (simp add: clone_room_def demo_table demo_keys)
  moreover have "cu_psp demo_fsys = 0x100" by (simp add: demo_fsys_def)
  ultimately show ?thesis
    using handle_step.child [of "0x200" "[0x100]" demo_fsys demo_outside "\<lambda>_. (0, 0)" 7 "0x1100"] by (simp add: demo_child_def)
qed

theorem handles_never_dangle_witness:
  "handles_ok [0x200, 0x100] demo_child \<and> fst (idx_to_sft 0 demo_child) \<noteq> None"
proof -
  have v: "(0 :: u8) \<in> set (ps_filetab (psps demo_child 0x100))" by (simp add: demo_child_table demo_psp_def)
  have st: "(handle_step demo_outside)\<^sup>*\<^sup>* ([0x100], demo_fsys) ([0x200, 0x100], demo_child)"
    by (rule r_into_rtranclp) (rule demo_child_step)
  show ?thesis using handles_never_dangle [OF demo_no_redirector demo_handles st _ v] by auto
qed

theorem DosClose_frees_handle_witness:
  "\<exists>s'. DosClose demo_outside 1 demo_fsys = Some (0, s') \<and> handle_table s' ! 1 = 0xff \<and> get_free_hndl s' \<le> 1"
proof -
  have "map_option fst (DosClose demo_outside 1 demo_fsys) = Some 0" by code_simp
  then obtain s' where c: "DosClose demo_outside 1 demo_fsys = Some (0, s')" by auto
  then show ?thesis using DosClose_frees_handle [OF demo_handles _ _ c] by (simp add: demo_table)
qed

end
