(* ===== verification/Console.thy ===== *)
theory Console
  imports Dos_Names
begin

text \<open>
  The console: the cooked and raw transfers of \<^verbatim>\<open>kernel/chario.c\<close>, Ctrl-Break of \<^verbatim>\<open>kernel/break.c\<close> and
  \<^verbatim>\<open>DosRWSft\<close> of \<^verbatim>\<open>kernel/dosfns.c\<close>. Writing a character may read one (Ctrl-S), and Ctrl-C writes before control
  goes to interrupt 23, so \<^verbatim>\<open>cooked_write\<close> and \<^verbatim>\<open>DosRWSft\<close> call each other. The functions between them take
  the two as arguments, and the knot is tied with fuel. A wait for a key takes fuel as well.
\<close>

section \<open>State\<close>

definition LINEBUFSIZECON :: nat where "LINEBUFSIZECON = 128"
definition LINEBUFSIZE0A :: nat where "LINEBUFSIZE0A = 256"

record keyboard =
  kb_size :: u8
  kb_count :: u8
  kb_buf :: bytes

text \<open>
  \<open>cb_flg\<close> is the Ctrl-Break bit of the BIOS data area; the keyboard interrupt may set it at any time, which the list
  \<open>cb_events\<close> says for each look at it. \<open>fast_out\<close> are the characters given to interrupt 29, \<open>uninit\<close> is what an
  uninitialised variable holds, \<open>con_kb\<close> is the line buffer of the kernel, \<open>syscon\<close> the place of a device header.
  The second half of \<open>local_buffer\<close> shares its bytes with \<open>con_kb\<close>; of that overlap the model has what the code does
  about it, that the line in \<open>con_kb\<close> becomes invalid.
\<close>

record ('c, 'd) kstate =
  fs :: "('c, 'd) fsys"
  scr_pos :: u8
  PrinterEcho :: bool
  cb_flg :: bool
  cb_events :: "bool list"
  InDOS :: u8
  ErrorMode :: bool
  syscon :: nat
  fast_out :: bytes
  con_kb :: keyboard
  local_buffer :: bytes
  inputptr :: "nat option"
  uninit :: u16

text \<open>
  A call returns, or control goes away for good: to interrupt 23, to the program whose registers lie at an address
  (the flag is the second argument of \<^verbatim>\<open>exec_user\<close>), or to \<^verbatim>\<open>panic\<close>, which halts.
\<close>

datatype away = Int23 | Exec_user far bool | Panic

datatype 'a outcome = Ret 'a | Away away

type_synonym ('a, 'c, 'd) result = "('a outcome \<times> ('c, 'd) kstate) option"

definition ret :: "'a \<Rightarrow> 's \<Rightarrow> ('a outcome \<times> 's) option" where
  "ret x s = Some (Ret x, s)"

definition andthen :: "('a outcome \<times> 's) option \<Rightarrow> ('a \<Rightarrow> 's \<Rightarrow> ('b outcome \<times> 's) option) \<Rightarrow> ('b outcome \<times> 's) option" where
  "andthen m f = (case m of None \<Rightarrow> None | Some (Away w, s) \<Rightarrow> Some (Away w, s) | Some (Ret x, s) \<Rightarrow> f x s)"

text \<open>An operation on the environment of the character devices.\<close>

definition on_chars :: "('c char_env \<Rightarrow> 'a \<times> 'c char_env) \<Rightarrow> ('c, 'd) kstate \<Rightarrow> 'a \<times> ('c, 'd) kstate" where
  "on_chars f s = (case f (chars (fs s)) of (x, ch) \<Rightarrow> (x, s\<lparr>fs := (fs s)\<lparr>chars := ch\<rparr>\<rparr>))"

definition HT :: u8 where "HT = 0x09"
definition CR :: u8 where "CR = 0x0d"
definition LF :: u8 where "LF = 0x0a"
definition BS :: u8 where "BS = 0x08"
definition BELL :: u8 where "BELL = 0x07"
definition CTL_C :: u8 where "CTL_C = 0x03"
definition CTL_S :: u8 where "CTL_S = 0x13"
definition CTL_Z :: u8 where "CTL_Z = 0x1a"
definition ATTR_FASTCON :: u16 where "ATTR_FASTCON = 0x0010"
definition SFT_FBINARY :: u16 where "SFT_FBINARY = 0x0020"
definition SFT_FNUL :: u16 where "SFT_FNUL = 0x0004"
definition SFT_FCONOUT :: u16 where "SFT_FCONOUT = 0x0002"
definition SFT_FCONIN :: u16 where "SFT_FCONIN = 0x0001"
definition O_WRONLY :: u16 where "O_WRONLY = 0x0001"
definition STDIN :: u16 where "STDIN = 0"
definition STDOUT :: u16 where "STDOUT = 1"
definition STDPRN :: u16 where "STDPRN = 4"
definition REM_READ :: u16 where "REM_READ = 0x1108"
definition REM_WRITE :: u16 where "REM_WRITE = 0x1109"

text \<open>How \<^verbatim>\<open>DosRWSft\<close> is called.\<close>

datatype rw_mode = RD | WR | FORCE_WR

section \<open>Screen position and devices\<close>

definition update_scr_pos :: "u8 \<Rightarrow> u8 \<Rightarrow> ('c, 'd) kstate \<Rightarrow> ('c, 'd) kstate" where
  "update_scr_pos c count s =
     s\<lparr>scr_pos := (if c = CR then 0
                   else if c = BS then (if scr_pos s > 0 then scr_pos s - 1 else scr_pos s)
                   else if c \<noteq> LF \<and> c \<noteq> BELL then scr_pos s + count else scr_pos s)\<rparr>"

text \<open>The device of an entry: the system console for a bad entry, nothing for a file.\<close>

definition sft_to_dev :: "sft_ptr option \<Rightarrow> ('c, 'd) kstate \<Rightarrow> nat option" where
  "sft_to_dev q s =
     (case q of
        None \<Rightarrow> Some (syscon s)
      | Some q \<Rightarrow>
          if sft_flags (sft_at q (fs s)) AND SFT_FDEVICE \<noteq> 0
          then (case sft_dcb (sft_at q (fs s)) of Dev k \<Rightarrow> Some k | Dcb _ \<Rightarrow> None)
          else None)"

definition find_sft :: "int \<Rightarrow> ('c, 'd) kstate \<Rightarrow> sft_ptr option \<times> ('c, 'd) kstate" where
  "find_sft i s = (case idx_to_sft i (fs s) of (q, f) \<Rightarrow> (q, s\<lparr>fs := f\<rparr>))"

definition StdinBusy :: "('c, 'd) outside \<Rightarrow> ('c, 'd) kstate \<Rightarrow> (bool \<times> ('c, 'd) kstate) option" where
  "StdinBusy ou s =
     (case find_sft (get_sft_idx STDIN (fs s)) s of (q, s1) \<Rightarrow>
        (case sft_to_dev q s1 of
           Some k \<Rightarrow> Some (on_chars (Busy (char_drv ou k)) s1)
         | None \<Rightarrow> map_option (\<lambda>q. (sft_posit (sft_at q (fs s1)) \<ge> sft_size (sft_at q (fs s1)), s1)) q))"

section \<open>Ctrl-Break\<close>

definition ctrl_break_pressed :: "('c, 'd) kstate \<Rightarrow> bool \<times> ('c, 'd) kstate" where
  "ctrl_break_pressed s =
     (let b = cb_flg s \<or> (cb_events s \<noteq> [] \<and> hd (cb_events s)) in (b, s\<lparr>cb_flg := b, cb_events := tl (cb_events s)\<rparr>))"

type_synonym ('c, 'd) cooked_fn = "nat \<Rightarrow> bytes \<Rightarrow> ('c, 'd) kstate \<Rightarrow> (int, 'c, 'd) result"
type_synonym ('c, 'd) rw_fn = "int \<Rightarrow> u16 \<Rightarrow> far \<Rightarrow> bytes \<Rightarrow> rw_mode \<Rightarrow> ('c, 'd) kstate \<Rightarrow> (int \<times> bytes, 'c, 'd) result"

text \<open>The kernel's own data lie in a segment of their own; the pointer matters only for \<^verbatim>\<open>rwblock\<close>.\<close>

definition near_data :: far where "near_data = (0, 0)"

text \<open>\<open>pdev\<close> is \<open>None\<close> for the null pointer, whose flush is an access through it.\<close>

definition handle_break ::
  "('c, 'd) outside \<Rightarrow> ('c, 'd) cooked_fn \<Rightarrow> ('c, 'd) rw_fn \<Rightarrow> nat option \<Rightarrow> int \<Rightarrow> ('c, 'd) kstate \<Rightarrow> ('a, 'c, 'd) result" where
  "handle_break ou cw rw pdev sft_out s =
     (case pdev of
        None \<Rightarrow> None
      | Some k \<Rightarrow>
          (let s1 = snd (on_chars (\<lambda>ch. ((), con_flush (char_drv ou k) ch)) (s\<lparr>cb_flg := False\<rparr>));
               echo = [0x5e, 0x43, CR, LF];
               gone = (\<lambda>s2. Some (Away Int23, s2\<lparr>InDOS := (if \<not> ErrorMode s2 \<and> InDOS s2 \<noteq> 0 then InDOS s2 - 1 else InDOS s2)\<rparr>))
           in if sft_out = -1 then andthen (cw k echo s1) (\<lambda>_. gone)
              else andthen (rw sft_out 4 near_data echo FORCE_WR s1) (\<lambda>_. gone)))"

definition check_handle_break ::
  "('c, 'd) outside \<Rightarrow> ('c, 'd) cooked_fn \<Rightarrow> ('c, 'd) rw_fn \<Rightarrow> nat \<Rightarrow> ('c, 'd) kstate \<Rightarrow> (u8, 'c, 'd) result" where
  "check_handle_break ou cw rw k s =
     (let look = (\<lambda>k s. case on_chars (ndread (char_drv ou k)) s of (c, s1) \<Rightarrow> (case c of None \<Rightarrow> 0xff | Some c \<Rightarrow> c, s1));
          (b, s1) = ctrl_break_pressed s;
          (c, s2) = (if b then (CTL_C, s1) else look (syscon s1) s1);
          (c, s3) = (if c \<noteq> CTL_C \<and> k \<noteq> syscon s2 then look k s2 else (c, s2))
      in if c = CTL_C then handle_break ou cw rw (Some k) (-1) s3 else ret c s3)"

section \<open>Reading a character\<close>

text \<open>Waits for the device; the characters 256 (nothing read) and negative errors are possible results.\<close>

fun wait_char ::
  "('c, 'd) outside \<Rightarrow> ('c, 'd) cooked_fn \<Rightarrow> ('c, 'd) rw_fn \<Rightarrow> nat \<Rightarrow> nat \<Rightarrow> bool \<Rightarrow> ('c, 'd) kstate \<Rightarrow> (u16, 'c, 'd) result" where
  "wait_char ou cw rw 0 k check s = None"
| "wait_char ou cw rw (Suc n) k check s =
     (case ctrl_break_pressed s of
        (True, s1) \<Rightarrow> ret (ucast CTL_C) s1
      | (False, s1) \<Rightarrow>
          (case on_chars (Busy (char_drv ou k)) s1 of
             (False, s2) \<Rightarrow>
               (case on_chars (CharIO (char_drv ou k) 0 C_INPUT) s2 of (c, s3) \<Rightarrow>
                  ret (of_int c) s3)
           | (True, s2) \<Rightarrow>
               andthen (if check \<and> k \<noteq> syscon s2 then andthen (check_handle_break ou cw rw (syscon s2) s2) (\<lambda>_. ret ()) else ret () s2)
                 (\<lambda>_. wait_char ou cw rw n k check)))"

text \<open>A file stores one byte into the low half of a variable that was not initialised.\<close>

definition read_dev ::
  "('c, 'd) outside \<Rightarrow> ('c, 'd) cooked_fn \<Rightarrow> ('c, 'd) rw_fn \<Rightarrow> nat \<Rightarrow> bool \<Rightarrow> int \<Rightarrow> nat option \<Rightarrow> ('c, 'd) kstate \<Rightarrow> (u16, 'c, 'd) result" where
  "read_dev ou cw rw n check sft_in pdev s =
     (case pdev of
        Some k \<Rightarrow> wait_char ou cw rw n k check s
      | None \<Rightarrow> andthen (rw sft_in 1 near_data [lo8 (uninit s), hi8 (uninit s)] RD s) (\<lambda>(_, c). ret (mk16 (c ! 0) (c ! 1))))"

definition read_char_plain ::
  "('c, 'd) outside \<Rightarrow> ('c, 'd) cooked_fn \<Rightarrow> ('c, 'd) rw_fn \<Rightarrow> nat \<Rightarrow> int \<Rightarrow> ('c, 'd) kstate \<Rightarrow> (u8, 'c, 'd) result" where
  "read_char_plain ou cw rw n sft_in s =
     (case find_sft sft_in s of (q, s1) \<Rightarrow>
        andthen (read_dev ou cw rw n False sft_in (sft_to_dev q s1) s1) (\<lambda>c. ret (ucast c)))"

definition read_char_sft_dev ::
  "('c, 'd) outside \<Rightarrow> ('c, 'd) cooked_fn \<Rightarrow> ('c, 'd) rw_fn \<Rightarrow> nat \<Rightarrow> int \<Rightarrow> int \<Rightarrow> nat option \<Rightarrow> bool \<Rightarrow> ('c, 'd) kstate
    \<Rightarrow> (u16, 'c, 'd) result" where
  "read_char_sft_dev ou cw rw n sft_in sft_out pdev check s =
     andthen (read_dev ou cw rw n check sft_in pdev s) (\<lambda>c s1.
       if \<not> check \<or> c \<noteq> ucast CTL_C \<and> c \<noteq> ucast CTL_S then ret c s1
       else
         andthen (if c = ucast CTL_S then read_dev ou cw rw n False sft_in pdev s1 else ret c s1) (\<lambda>c s2.
           andthen (if c = ucast CTL_C then handle_break ou cw rw pdev sft_out s2 else ret () s2) (\<lambda>_ s3.
             andthen (read_char_plain ou cw rw n sft_in s3) (\<lambda>c. ret (ucast c)))))"

definition raw_get_char ::
  "('c, 'd) outside \<Rightarrow> ('c, 'd) cooked_fn \<Rightarrow> ('c, 'd) rw_fn \<Rightarrow> nat \<Rightarrow> nat \<Rightarrow> bool \<Rightarrow> ('c, 'd) kstate \<Rightarrow> (u16, 'c, 'd) result" where
  "raw_get_char ou cw rw n k check = read_char_sft_dev ou cw rw n (-1) (-1) (Some k) check"

definition read_char ::
  "('c, 'd) outside \<Rightarrow> ('c, 'd) cooked_fn \<Rightarrow> ('c, 'd) rw_fn \<Rightarrow> nat \<Rightarrow> int \<Rightarrow> int \<Rightarrow> bool \<Rightarrow> ('c, 'd) kstate \<Rightarrow> (u8, 'c, 'd) result" where
  "read_char ou cw rw n sft_in sft_out check s =
     (case find_sft sft_in s of (q, s1) \<Rightarrow>
        andthen (read_char_sft_dev ou cw rw n sft_in sft_out (sft_to_dev q s1) check s1) (\<lambda>c. ret (ucast c)))"

text \<open>Reads until the count is reached, an error, nothing read, or Ctrl-Z (which is stored).\<close>

fun cooked_read ::
  "('c, 'd) outside \<Rightarrow> ('c, 'd) cooked_fn \<Rightarrow> ('c, 'd) rw_fn \<Rightarrow> nat \<Rightarrow> nat \<Rightarrow> nat \<Rightarrow> bytes \<Rightarrow> nat \<Rightarrow> ('c, 'd) kstate
    \<Rightarrow> (int \<times> bytes, 'c, 'd) result" where
  "cooked_read ou cw rw n k 0 buf xfer s = ret (int xfer, buf) s"
| "cooked_read ou cw rw n k (Suc left) buf xfer s =
     andthen (raw_get_char ou cw rw n k True s) (\<lambda>c.
       if sint c < 0 then ret (sint c, buf)
       else if c = 256 then ret (int xfer, buf)
       else
         (let b = ucast c; buf1 = take xfer buf @ [b] @ drop (xfer + 1) buf
          in if b = CTL_Z then ret (int (xfer + 1), buf1) else cooked_read ou cw rw n k left buf1 (xfer + 1)))"

section \<open>Writing characters\<close>

text \<open>One character, \<open>count\<close> times; the result is the error or the counter that asks for Ctrl-C now and then.\<close>

fun out_loop ::
  "('c, 'd) outside \<Rightarrow> ('c, 'd) cooked_fn \<Rightarrow> ('c, 'd) rw_fn \<Rightarrow> nat \<Rightarrow> nat \<Rightarrow> u8 \<Rightarrow> nat \<Rightarrow> u8 \<Rightarrow> ('c, 'd) kstate \<Rightarrow> (int + u8, 'c, 'd) result" where
  "out_loop ou cw rw n k c 0 fast s = ret (Inr fast) s"
| "out_loop ou cw rw n k c (Suc count) fast s =
     andthen
       (if fast \<le> 0x80
        then andthen (check_handle_break ou cw rw k s) (\<lambda>b s1.
               if b = CTL_S then andthen (raw_get_char ou cw rw n k True s1) (\<lambda>_. ret ()) else ret () s1)
        else ret () s) (\<lambda>_ s1.
     let fast1 = (fast + 1) AND 0x9f in
     andthen (if PrinterEcho s1 then andthen (rw (get_sft_idx STDPRN (fs s1)) 1 near_data [c] WR s1) (\<lambda>_. ret ()) else ret () s1) (\<lambda>_ s2.
     if fast1 AND 0x80 \<noteq> 0 then out_loop ou cw rw n k c count fast1 (s2\<lparr>fast_out := fast_out s2 @ [c]\<rparr>)
     else
       (case on_chars (CharIO (char_drv ou k) c C_OUTPUT) s2 of
          (err, s3) \<Rightarrow> if err < 0 then ret (Inl err) s3 else out_loop ou cw rw n k c count fast1 s3)))"

text \<open>Tabs become blanks.\<close>

fun cooked_loop ::
  "('c, 'd) outside \<Rightarrow> ('c, 'd) cooked_fn \<Rightarrow> ('c, 'd) rw_fn \<Rightarrow> nat \<Rightarrow> nat \<Rightarrow> u8 \<Rightarrow> bytes \<Rightarrow> nat \<Rightarrow> ('c, 'd) kstate \<Rightarrow> (int, 'c, 'd) result" where
  "cooked_loop ou cw rw n k fast [] xfer s = ret (int xfer) s"
| "cooked_loop ou cw rw n k fast (c # cs) xfer s =
     (if c = CTL_Z then ret (int xfer) s
      else
        (let (count, c1) = (if c = HT then (8 - (scr_pos s AND 7), 0x20) else (1, c))
         in andthen (out_loop ou cw rw n k c1 (unat count) fast (update_scr_pos c1 count s)) (\<lambda>r.
              case r of
                Inl e \<Rightarrow> ret e
              | Inr fast1 \<Rightarrow> cooked_loop ou cw rw n k fast1 cs (xfer + 1))))"

definition cooked_body ::
  "('c, 'd) outside \<Rightarrow> ('c, 'd) cooked_fn \<Rightarrow> ('c, 'd) rw_fn \<Rightarrow> nat \<Rightarrow> ('c, 'd) cooked_fn" where
  "cooked_body ou cw rw n k buf s =
     cooked_loop ou cw rw n k (ucast (push_bit 3 (dh_attr (dhdrs (fs s) ! k) AND ATTR_FASTCON))) buf 0 s"

definition write_char :: "('c, 'd) rw_fn \<Rightarrow> u8 \<Rightarrow> int \<Rightarrow> ('c, 'd) kstate \<Rightarrow> (unit, 'c, 'd) result" where
  "write_char rw c sft_idx s = andthen (rw sft_idx 1 near_data [c] FORCE_WR s) (\<lambda>_. ret ())"

fun write_chars :: "('c, 'd) rw_fn \<Rightarrow> bytes \<Rightarrow> int \<Rightarrow> ('c, 'd) kstate \<Rightarrow> (unit, 'c, 'd) result" where
  "write_chars rw [] i s = ret () s"
| "write_chars rw (c # cs) i s = andthen (write_char rw c i s) (\<lambda>_. write_chars rw cs i)"

fun stdout_loop :: "('c, 'd) rw_fn \<Rightarrow> nat \<Rightarrow> u8 \<Rightarrow> ('c, 'd) kstate \<Rightarrow> (unit, 'c, 'd) result" where
  "stdout_loop rw 0 c s = ret () s"
| "stdout_loop rw (Suc count) c s = andthen (write_char rw c (get_sft_idx STDOUT (fs s)) s) (\<lambda>_. stdout_loop rw count c)"

text \<open>The flags of a bad standard output are read through a bad pointer.\<close>

definition write_char_stdout :: "('c, 'd) rw_fn \<Rightarrow> u8 \<Rightarrow> ('c, 'd) kstate \<Rightarrow> (unit, 'c, 'd) result" where
  "write_char_stdout rw c s =
     (case find_sft (get_sft_idx STDOUT (fs s)) s of
        (None, _) \<Rightarrow> None
      | (Some q, s1) \<Rightarrow>
          (let flags = sft_flags (sft_at q (fs s1));
               cooked = flags AND (SFT_FDEVICE OR SFT_FBINARY) \<noteq> SFT_FDEVICE;
               (count, c1) = (if cooked \<and> c = HT then (8 - (scr_pos s1 AND 7), 0x20) else (1, c));
               s2 = (if cooked \<and> flags AND (SFT_FDEVICE OR SFT_FCONOUT) \<noteq> SFT_FDEVICE OR SFT_FCONOUT
                     then update_scr_pos c1 count s1 else s1)
           in stdout_loop rw (unat count) c1 s2))"

section \<open>The line editor\<close>

definition CTL_F :: u16 where "CTL_F = 0x06"
definition ESC :: u16 where "ESC = 0x1b"
definition CTL_BS :: u16 where "CTL_BS = 0x7f"
definition INS :: u16 where "INS = 0x5200"
definition DEL :: u16 where "DEL = 0x5300"
definition F1 :: u16 where "F1 = 0x3b00"
definition F2 :: u16 where "F2 = 0x3c00"
definition F3 :: u16 where "F3 = 0x3d00"
definition F4 :: u16 where "F4 = 0x3e00"
definition F5 :: u16 where "F5 = 0x3f00"
definition F6 :: u16 where "F6 = 0x4000"
definition LEFT :: u16 where "LEFT = 0x4b00"
definition RIGHT :: u16 where "RIGHT = 0x4d00"

definition iscntrl :: "u8 \<Rightarrow> bool" where
  "iscntrl c \<longleftrightarrow> c < 0x20"

definition echo_char :: "('c, 'd) rw_fn \<Rightarrow> u8 \<Rightarrow> int \<Rightarrow> ('c, 'd) kstate \<Rightarrow> (unit, 'c, 'd) result" where
  "echo_char rw c out s =
     (if iscntrl c \<and> c \<noteq> HT \<and> c \<noteq> LF \<and> c \<noteq> CR then write_chars rw [0x5e, c + 0x40] out s else write_char rw c out s)"

definition destr_bs :: "('c, 'd) rw_fn \<Rightarrow> int \<Rightarrow> ('c, 'd) kstate \<Rightarrow> (unit, 'c, 'd) result" where
  "destr_bs rw out s = write_chars rw [BS, 0x20, BS] out s"

text \<open>The variables of \<^verbatim>\<open>read_line\<close>: \<open>ed_kp\<close> is the caller's buffer with the stored line.\<close>

record editor =
  ed_count :: u16
  stored_pos :: u16
  stored_size :: u16
  ed_insert :: bool
  ed_first :: bool
  ed_kp :: keyboard

definition ed_size :: "editor \<Rightarrow> u16" where
  "ed_size ed = ucast (kb_size (ed_kp ed))"

definition put_local :: "u8 \<Rightarrow> editor \<Rightarrow> ('c, 'd) kstate \<Rightarrow> (editor, 'c, 'd) result" where
  "put_local c ed s = ret (ed\<lparr>ed_count := ed_count ed + 1\<rparr>) (s\<lparr>local_buffer := (local_buffer s)[unat (ed_count ed) := c]\<rparr>)"

text \<open>Takes over \<open>m\<close> characters of the stored line while there is room.\<close>

fun copy_stored :: "('c, 'd) rw_fn \<Rightarrow> int \<Rightarrow> nat \<Rightarrow> editor \<Rightarrow> ('c, 'd) kstate \<Rightarrow> (editor, 'c, 'd) result" where
  "copy_stored rw out 0 ed s = ret ed s"
| "copy_stored rw out (Suc m) ed s =
     (if ed_count ed < ed_size ed - 1 then
        (let c = char_at (kb_buf (ed_kp ed)) (unat (stored_pos ed))
         in andthen (echo_char rw c out s) (\<lambda>_ s1.
              andthen (put_local c (ed\<lparr>stored_pos := stored_pos ed + 1\<rparr>) s1) (copy_stored rw out m)))
      else ret ed s)"

definition copy_until :: "('c, 'd) rw_fn \<Rightarrow> int \<Rightarrow> u16 \<Rightarrow> editor \<Rightarrow> ('c, 'd) kstate \<Rightarrow> (editor, 'c, 'd) result" where
  "copy_until rw out new_pos ed = copy_stored rw out (unat new_pos - unat (stored_pos ed)) ed"

text \<open>The place after the searched character, counted from the stored position.\<close>

definition find_stored :: "u8 \<Rightarrow> editor \<Rightarrow> u16" where
  "find_stored c2 ed =
     (let i = unat (stored_pos ed); line = take (unat (stored_size ed - stored_pos ed)) (drop i (kb_buf (ed_kp ed)))
      in if c2 \<in> set line then of_nat (length (takeWhile (\<lambda>x. x \<noteq> c2) line) + 1) else stored_pos ed)"

text \<open>The column of the end of the text, as shown from column \<open>pos\<close> on.\<close>

fun shown_width :: "u16 \<Rightarrow> bytes \<Rightarrow> u16" where
  "shown_width pos [] = pos"
| "shown_width pos (c # cs) =
     shown_width (if c = HT then (pos + 8) AND NOT 7 else if iscntrl c then pos + 2 else pos + 1) cs"

fun wipe_tab :: "('c, 'd) rw_fn \<Rightarrow> int \<Rightarrow> nat \<Rightarrow> u16 \<Rightarrow> ('c, 'd) kstate \<Rightarrow> (unit, 'c, 'd) result" where
  "wipe_tab rw out 0 new_pos s = None"
| "wipe_tab rw out (Suc n) new_pos s =
     andthen (destr_bs rw out s) (\<lambda>_ s1. if ucast (scr_pos s1) > new_pos then wipe_tab rw out n new_pos s1 else ret () s1)"

definition back_space :: "('c, 'd) rw_fn \<Rightarrow> int \<Rightarrow> nat \<Rightarrow> u16 \<Rightarrow> editor \<Rightarrow> ('c, 'd) kstate \<Rightarrow> (editor, 'c, 'd) result" where
  "back_space rw out n cu_pos ed s =
     (let back = (\<lambda>e. if stored_pos e > 0 then e\<lparr>stored_pos := stored_pos e - 1\<rparr> else e)
      in if ed_count ed = 0 then ret (back ed) s
         else
           (let count = ed_count ed - 1; c2 = local_buffer s ! unat count; ed1 = back (ed\<lparr>ed_count := count\<rparr>)
            in if c2 = HT then
                 andthen (wipe_tab rw out n (shown_width cu_pos (take (unat count) (local_buffer s))) s) (\<lambda>_. ret ed1)
               else
                 andthen (if iscntrl c2 then destr_bs rw out s else ret () s) (\<lambda>_ s1.
                   andthen (destr_bs rw out s1) (\<lambda>_. ret ed1))))"

definition start_new_line :: "('c, 'd) rw_fn \<Rightarrow> int \<Rightarrow> u16 \<Rightarrow> editor \<Rightarrow> ('c, 'd) kstate \<Rightarrow> (editor, 'c, 'd) result" where
  "start_new_line rw out cu_pos ed s =
     andthen (write_chars rw ([CR, LF] @ replicate (unat cu_pos) 0x20) out s)
       (\<lambda>_. ret (ed\<lparr>ed_count := 0, stored_pos := 0, ed_insert := False\<rparr>))"

definition keep_line :: "editor \<Rightarrow> ('c, 'd) kstate \<Rightarrow> keyboard" where
  "keep_line ed s = (ed_kp ed)\<lparr>kb_buf := fmemcpy (kb_buf (ed_kp ed)) (local_buffer s) (unat (ed_count ed))\<rparr>"

definition type_char :: "('c, 'd) rw_fn \<Rightarrow> int \<Rightarrow> u16 \<Rightarrow> editor \<Rightarrow> ('c, 'd) kstate \<Rightarrow> (editor, 'c, 'd) result" where
  "type_char rw out c ed s =
     (if c \<ge> 256 then ret ed s
      else
        andthen (if ed_count ed < ed_size ed - 1 \<or> c = ucast CR
                 then andthen (echo_char rw (ucast c) out s) (\<lambda>_. put_local (ucast c) ed)
                 else andthen (write_char rw BELL out s) (\<lambda>_. ret ed)) (\<lambda>ed1.
          ret (if stored_pos ed1 < stored_size ed1 \<and> \<not> ed_insert ed1 then ed1\<lparr>stored_pos := stored_pos ed1 + 1\<rparr> else ed1)))"

text \<open>One key; the first result is the key that ends the loop when it is a carriage return.\<close>

definition ed_key ::
  "('c, 'd) rw_fn \<Rightarrow> (('c, 'd) kstate \<Rightarrow> (u8, 'c, 'd) result) \<Rightarrow> int \<Rightarrow> nat \<Rightarrow> u16 \<Rightarrow> u16 \<Rightarrow> editor \<Rightarrow> ('c, 'd) kstate
    \<Rightarrow> (u16 \<times> editor, 'c, 'd) result" where
  "ed_key rw rd out n cu_pos c ed s =
     (let result = (\<lambda>m. andthen m (\<lambda>ed1. ret (c, ed1))) in
      if c = ucast LF then
        result (if ed_first ed then ret ed s else andthen (write_chars rw [CR, LF] out s) (\<lambda>_. ret ed))
      else if c = CTL_F then result (ret ed s)
      else if c = RIGHT \<or> c = F1 then
        result (if stored_pos ed < stored_size ed then copy_stored rw out 1 ed s else ret ed s)
      else if c = F2 \<or> c = F4 then
        result (andthen (rd s) (\<lambda>c2 s1.
          andthen (if c2 = 0 then andthen (rd s1) (\<lambda>_. ret (stored_pos ed)) else ret (find_stored c2 ed) s1) (\<lambda>new_pos s2.
            andthen (if c \<noteq> F4 then copy_until rw out new_pos ed s2 else ret ed s2) (\<lambda>ed1.
              ret (ed1\<lparr>stored_pos := new_pos\<rparr>)))))
      else if c = F3 then
        result (andthen (copy_until rw out (stored_size ed) ed s) (\<lambda>ed1. ret (ed1\<lparr>stored_pos := stored_size ed\<rparr>)))
      else if c = F5 then
        result (andthen (write_char rw 0x40 out s)
          (\<lambda>_. start_new_line rw out cu_pos (ed\<lparr>ed_kp := keep_line ed s, stored_size := ed_count ed\<rparr>)))
      else if c = INS then result (ret (ed\<lparr>ed_insert := \<not> ed_insert ed\<rparr>) s)
      else if c = DEL then result (ret (ed\<lparr>stored_pos := stored_pos ed + 1\<rparr>) s)
      else if c = LEFT \<or> c = CTL_BS \<or> c = ucast BS then result (back_space rw out n cu_pos ed s)
      else if c = ESC then result (andthen (write_char rw 0x5c out s) (\<lambda>_. start_new_line rw out cu_pos ed))
      else if c = F6 then andthen (type_char rw out (ucast CTL_Z) ed s) (\<lambda>ed1. ret (ucast CTL_Z, ed1))
      else result (type_char rw out c ed s))"

fun ed_loop ::
  "('c, 'd) rw_fn \<Rightarrow> (('c, 'd) kstate \<Rightarrow> (u8, 'c, 'd) result) \<Rightarrow> int \<Rightarrow> nat \<Rightarrow> u16 \<Rightarrow> editor \<Rightarrow> ('c, 'd) kstate
    \<Rightarrow> (editor, 'c, 'd) result" where
  "ed_loop rw rd out 0 cu_pos ed s = None"
| "ed_loop rw rd out (Suc n) cu_pos ed s =
     andthen (rd s) (\<lambda>c0 s1.
       andthen (if c0 = 0 then andthen (rd s1) (\<lambda>c1. ret (mk16 0 c1)) else ret (ucast c0) s1) (\<lambda>c s2.
         andthen (ed_key rw rd out n cu_pos c ed s2) (\<lambda>(c', ed1) s3.
           if c' = ucast CR then ret (ed1\<lparr>ed_first := False\<rparr>) s3
           else ed_loop rw rd out n cu_pos (ed1\<lparr>ed_first := False\<rparr>) s3)))"

definition read_line ::
  "('c, 'd) rw_fn \<Rightarrow> (('c, 'd) kstate \<Rightarrow> (u8, 'c, 'd) result) \<Rightarrow> int \<Rightarrow> nat \<Rightarrow> keyboard \<Rightarrow> ('c, 'd) kstate
    \<Rightarrow> (keyboard, 'c, 'd) result" where
  "read_line rw rd out n kp s =
     (if kb_size kp = 0 then ret kp s
      else
        (let old = (if char_at (kb_buf kp) (unat (kb_count kp)) \<noteq> CR then 0 else ucast (kb_count kp))
         in andthen (ed_loop rw rd out n (ucast (scr_pos s)) \<lparr>ed_count = 0, stored_pos = 0, stored_size = old, ed_insert = False,
                        ed_first = True, ed_kp = kp\<rparr> s) (\<lambda>ed s1.
              ret ((keep_line ed s1)\<lparr>kb_count := ucast (ed_count ed - 1)\<rparr>)
                (if unat (ed_count ed) > LINEBUFSIZECON then s1\<lparr>con_kb := (con_kb s1)\<lparr>kb_size := 0\<rparr>\<rparr> else s1))))"

text \<open>A read of the console: the rest of the last line, or a new one.\<close>

definition read_line_handle ::
  "('c, 'd) outside \<Rightarrow> ('c, 'd) cooked_fn \<Rightarrow> ('c, 'd) rw_fn \<Rightarrow> nat \<Rightarrow> int \<Rightarrow> u16 \<Rightarrow> bytes \<Rightarrow> ('c, 'd) kstate
    \<Rightarrow> (int \<times> bytes, 'c, 'd) result" where
  "read_line_handle ou cw rw n sft_idx count buf s =
     andthen
       (if inputptr s = None then
          (let s1 = (if unat (kb_size (con_kb s)) \<noteq> LINEBUFSIZECON
                     then s\<lparr>con_kb := (con_kb s)\<lparr>kb_count := 0, kb_size := of_nat LINEBUFSIZECON\<rparr>\<rparr> else s)
           in andthen (read_line rw (read_char ou cw rw n sft_idx sft_idx True) sft_idx n (con_kb s1) s1) (\<lambda>kp s2.
                andthen (echo_char rw LF sft_idx (s2\<lparr>con_kb := kp\<rparr>)) (\<lambda>_ s3.
                  (let kp1 = (con_kb s3)\<lparr>kb_buf := (kb_buf (con_kb s3))[unat (kb_count (con_kb s3)) + 1 := LF]\<rparr>
                   in ret (kb_buf kp1 ! 0 \<noteq> CTL_Z)
                        (s3\<lparr>con_kb := kp1, inputptr := (if kb_buf kp1 ! 0 = CTL_Z then None else Some 0)\<rparr>)))))
        else ret True s) (\<lambda>more s1.
       if \<not> more then ret (0, buf) s1
       else
         (let from = (case inputptr s1 of None \<Rightarrow> 0 | Some p \<Rightarrow> p);
              chars_left = unat (kb_count (con_kb s1)) + 2 - from; m = min (unat count) chars_left
          in ret (int m, fmemcpy buf (drop from (kb_buf (con_kb s1))) m)
               (s1\<lparr>inputptr := (if m = chars_left then None else Some (from + m))\<rparr>)))"

section \<open>Transfers to and from an entry\<close>

definition on_entry :: "sft_ptr \<Rightarrow> (sft \<Rightarrow> sft) \<Rightarrow> ('c, 'd) kstate \<Rightarrow> ('c, 'd) kstate" where
  "on_entry q f s = s\<lparr>fs := upd_sft q f (fs s)\<rparr>"

fun move_cursor :: "bytes \<Rightarrow> ('c, 'd) kstate \<Rightarrow> ('c, 'd) kstate" where
  "move_cursor [] s = s"
| "move_cursor (c # cs) s = move_cursor cs (update_scr_pos c 1 s)"

definition rw_binary ::
  "('c, 'd) outside \<Rightarrow> nat \<Rightarrow> u16 \<Rightarrow> u16 \<Rightarrow> bytes \<Rightarrow> rw_mode \<Rightarrow> ('c, 'd) kstate \<Rightarrow> (int \<times> bytes, 'c, 'd) result" where
  "rw_binary ou k flags n buf mode s =
     (case on_chars (\<lambda>ch. case BinaryCharIO (char_drv ou k) n (if mode = RD then C_INPUT else C_OUTPUT) buf ch of
                            (r, buf1, ch1) \<Rightarrow> ((r, buf1), ch1)) s of
        ((Inl e, buf1), s1) \<Rightarrow> ret (errno e, buf1) s1
      | ((Inr m, buf1), s1) \<Rightarrow>
          ret (int (unat m), buf1) (if mode \<noteq> RD \<and> flags AND SFT_FCONOUT \<noteq> 0 then move_cursor (take (unat m) buf) s1 else s1))"

definition rw_cooked ::
  "('c, 'd) outside \<Rightarrow> ('c, 'd) cooked_fn \<Rightarrow> ('c, 'd) rw_fn \<Rightarrow> nat \<Rightarrow> int \<Rightarrow> sft_ptr \<Rightarrow> nat \<Rightarrow> u16 \<Rightarrow> u16 \<Rightarrow> bytes \<Rightarrow> rw_mode
    \<Rightarrow> ('c, 'd) kstate \<Rightarrow> (int \<times> bytes, 'c, 'd) result" where
  "rw_cooked ou cw rw fuel sft_idx q k flags n buf mode s =
     (if mode = RD then
        (if flags AND SFT_FEOF = 0 then ret (0, buf) s
         else
           andthen (if flags AND SFT_FCONIN \<noteq> 0 then read_line_handle ou cw rw fuel sft_idx n buf s
                    else cooked_read ou cw rw fuel k (unat n) buf 0 s) (\<lambda>(rc, buf1) s1.
             ret (rc, buf1) (if char_at buf1 0 = CTL_Z then on_entry q (\<lambda>t. t\<lparr>sft_flags := sft_flags t AND NOT SFT_FEOF\<rparr>) s1 else s1)))
      else
        (let s1 = on_entry q (\<lambda>t. t\<lparr>sft_flags := sft_flags t OR SFT_FEOF\<rparr>) s
         in if flags AND SFT_FNUL \<noteq> 0 then ret (int (unat n), buf) s1
            else andthen (cw k (take (unat n) buf) s1) (\<lambda>rc. ret (rc, buf))))"

definition rw_block :: "('c, 'd) outside \<Rightarrow> int \<Rightarrow> sft_ptr \<Rightarrow> u16 \<Rightarrow> far \<Rightarrow> bytes \<Rightarrow> rw_mode \<Rightarrow> ('c, 'd) kstate \<Rightarrow> (int \<times> bytes, 'c, 'd) result" where
  "rw_block ou sft_idx q n fp buf mode s =
     (let f = fs s; t = sft_at q f in do {
        (rc, sh) \<leftarrow> (if share_installed f \<and> sint (sft_shroff t) \<ge> 0
                    then access_check (cu_psp f) (sft_shroff t) (sft_posit t) (ucast n) True (shr f) else Some (0, shr f));
        let f1 = f\<lparr>shr := sh\<rparr>;
        if rc \<noteq> 0 then ret (rc, buf) (s\<lparr>fs := f1\<rparr>)
        else do {
          (r, buf1, f2) \<leftarrow> rwblock ou (nat sft_idx) fp buf n (if mode = RD then XFR_READ else XFR_WRITE) f1;
          ret (r, buf1) (s\<lparr>fs := f2\<rparr>)
        }
      })"

definition rw_body ::
  "('c, 'd) outside \<Rightarrow> ('c, 'd) cooked_fn \<Rightarrow> ('c, 'd) rw_fn \<Rightarrow> nat \<Rightarrow> ('c, 'd) rw_fn" where
  "rw_body ou cw rw fuel sft_idx n fp buf mode s =
     (case find_sft sft_idx s of
        (None, s1) \<Rightarrow> ret (errno DE_INVLDHNDL, buf) s1
      | (Some q, s1) \<Rightarrow>
          let t = sft_at q (fs s1); flags = sft_flags t
          in if mode = RD \<and> sft_mode t AND O_WRONLY \<noteq> 0 \<or> mode = WR \<and> sft_mode t AND O_ACCMODE = O_RDONLY
             then ret (errno DE_ACCESS, buf) s1
             else if flags AND SFT_FSHARED \<noteq> 0 then
               (case remote_rw ou (if mode = RD then REM_READ else REM_WRITE) q n buf ((fs s1)\<lparr>lpCurSft := Some q\<rparr>) of
                  (r, buf1, f) \<Rightarrow> ret (r, buf1) (s1\<lparr>fs := f\<rparr>))
             else if flags AND SFT_FDEVICE \<noteq> 0 then
               (case sft_dcb t of
                  Dcb _ \<Rightarrow> None
                | Dev k \<Rightarrow>
                    if flags AND SFT_FBINARY \<noteq> 0 then rw_binary ou k flags n buf mode s1
                    else rw_cooked ou cw rw fuel sft_idx q k flags n buf mode s1)
             else rw_block ou sft_idx q n fp buf mode s1)"

text \<open>
  Writing to a device may check for a break, which writes; fuel bounds the nesting of calls and the waits. The two
  functions call each other, so they are built together.
\<close>

fun console_calls :: "('c, 'd) outside \<Rightarrow> nat \<Rightarrow> ('c, 'd) cooked_fn \<times> ('c, 'd) rw_fn" where
  "console_calls ou 0 = (\<lambda>k buf s. None, \<lambda>i n fp buf mode s. None)"
| "console_calls ou (Suc n) =
     (let cw = fst (console_calls ou n); rw = snd (console_calls ou n)
      in (cooked_body ou cw rw n, rw_body ou cw rw n))"

definition cooked_write :: "('c, 'd) outside \<Rightarrow> nat \<Rightarrow> ('c, 'd) cooked_fn" where
  "cooked_write ou n = fst (console_calls ou n)"

definition DosRWSft :: "('c, 'd) outside \<Rightarrow> nat \<Rightarrow> ('c, 'd) rw_fn" where
  "DosRWSft ou n = snd (console_calls ou n)"

lemma cooked_write_simps:
  "cooked_write ou 0 = (\<lambda>k buf s. None)"
  "cooked_write ou (Suc n) = cooked_body ou (cooked_write ou n) (DosRWSft ou n) n"
  by (simp_all add: cooked_write_def DosRWSft_def Let_def)

lemma DosRWSft_simps:
  "DosRWSft ou 0 = (\<lambda>i n fp buf mode s. None)"
  "DosRWSft ou (Suc n) = rw_body ou (cooked_write ou n) (DosRWSft ou n) n"
  by (simp_all add: cooked_write_def DosRWSft_def Let_def)

text \<open>\<^verbatim>\<open>DosRead\<close> and \<^verbatim>\<open>DosWrite\<close>.\<close>

definition DosRead :: "('c, 'd) outside \<Rightarrow> nat \<Rightarrow> u16 \<Rightarrow> u16 \<Rightarrow> far \<Rightarrow> bytes \<Rightarrow> ('c, 'd) kstate \<Rightarrow> (int \<times> bytes, 'c, 'd) result" where
  "DosRead ou fuel hndl n fp buf s = DosRWSft ou fuel (get_sft_idx hndl (fs s)) n fp buf RD s"

definition DosWrite :: "('c, 'd) outside \<Rightarrow> nat \<Rightarrow> u16 \<Rightarrow> u16 \<Rightarrow> far \<Rightarrow> bytes \<Rightarrow> ('c, 'd) kstate \<Rightarrow> (int \<times> bytes, 'c, 'd) result" where
  "DosWrite ou fuel hndl n fp buf s = DosRWSft ou fuel (get_sft_idx hndl (fs s)) n fp buf WR s"

definition read_char_stdin :: "('c, 'd) outside \<Rightarrow> nat \<Rightarrow> bool \<Rightarrow> ('c, 'd) kstate \<Rightarrow> (u8, 'c, 'd) result" where
  "read_char_stdin ou n check s =
     read_char ou (cooked_write ou n) (DosRWSft ou n) n (get_sft_idx STDIN (fs s)) (get_sft_idx STDOUT (fs s)) check s"

end
