(* ===== verification/Fcb.thy ===== *)
theory Fcb
  imports Console
begin

text \<open>
  File control blocks, \<^verbatim>\<open>kernel/fcbfns.c\<close>: names, sequential, random and block transfers, opening, closing,
  deleting, renaming and searching. \<open>xf_ext\<close> is what stands in front of an extended FCB. The disk transfer area is
  the memory from its pointer on. The calls below transfer through \<^verbatim>\<open>DosRWSft\<close>, so they take its fuel.
\<close>

section \<open>State\<close>

record fcb =
  fcb_drive :: u8
  fcb_fname :: bytes
  fcb_cublock :: u16
  fcb_recsiz :: u16
  fcb_fsize :: u32
  fcb_date :: u16
  fcb_time :: u16
  fcb_sftno :: u8
  fcb_strtclst :: u16
  fcb_dirclst :: u16
  fcb_curec :: u8
  fcb_rndm :: u32

text \<open>The five reserved bytes and the attribute of an extended FCB; \<open>fcb_fname\<close> has the extension in its last three bytes.\<close>

record xfcb =
  xf_ext :: "(bytes \<times> u8) option"
  xf_fcb :: fcb

record ('c, 'd) fcb_env =
  ks :: "('c, 'd) kstate"
  dta :: far
  dta_mem :: bytes
  wAttr :: u16
  Dmatch :: find_data
  CritErr :: int

definition FCB_SUCCESS :: u8 where "FCB_SUCCESS = 0"
definition FCB_ERR_NODATA :: u8 where "FCB_ERR_NODATA = 1"
definition FCB_ERR_SEGMENT_WRAP :: u8 where "FCB_ERR_SEGMENT_WRAP = 2"
definition FCB_ERR_EOF :: u8 where "FCB_ERR_EOF = 3"
definition FCB_ERROR :: u8 where "FCB_ERROR = 0xff"
definition PARSE_SKIP_LEAD_SEP :: u8 where "PARSE_SKIP_LEAD_SEP = 0x01"
definition PARSE_DFLT_DRIVE :: u8 where "PARSE_DFLT_DRIVE = 0x02"
definition PARSE_BLNK_FNAME :: u8 where "PARSE_BLNK_FNAME = 0x04"
definition PARSE_BLNK_FEXT :: u8 where "PARSE_BLNK_FEXT = 0x08"
definition PARSE_RET_NOWILD :: u8 where "PARSE_RET_NOWILD = 0"
definition PARSE_RET_WILD :: u8 where "PARSE_RET_WILD = 1"
definition PARSE_RET_BADDRIVE :: u8 where "PARSE_RET_BADDRIVE = 0xff"

text \<open>Lifting the operations of the layers below.\<close>

definition on_ks :: "(('c, 'd) kstate \<Rightarrow> ('a, 'c, 'd) result) \<Rightarrow> ('c, 'd) fcb_env \<Rightarrow> ('a outcome \<times> ('c, 'd) fcb_env) option" where
  "on_ks f s = map_option (\<lambda>(x, k). (x, s\<lparr>ks := k\<rparr>)) (f (ks s))"

definition on_fs :: "(('c, 'd) fsys \<Rightarrow> 'a \<times> ('c, 'd) fsys) \<Rightarrow> ('c, 'd) fcb_env \<Rightarrow> ('a outcome \<times> ('c, 'd) fcb_env) option" where
  "on_fs f s = (case f (fs (ks s)) of (x, g) \<Rightarrow> ret x (s\<lparr>ks := (ks s)\<lparr>fs := g\<rparr>\<rparr>))"

definition on_fs_opt :: "(('c, 'd) fsys \<Rightarrow> ('a \<times> ('c, 'd) fsys) option) \<Rightarrow> ('c, 'd) fcb_env \<Rightarrow> ('a outcome \<times> ('c, 'd) fcb_env) option" where
  "on_fs_opt f s = map_option (\<lambda>(x, g). (Ret x, s\<lparr>ks := (ks s)\<lparr>fs := g\<rparr>\<rparr>)) (f (fs (ks s)))"

section \<open>Parsing names\<close>

definition TestCmnSeps :: "u8 \<Rightarrow> bool" where
  "TestCmnSeps c \<longleftrightarrow> c \<in> set [0x3a, 0x3b, 0x2c, 0x3d, 0x2b, 0x20, 0x09]"

definition TestFieldSeps :: "u8 \<Rightarrow> bool" where
  "TestFieldSeps c \<longleftrightarrow> c \<le> 0x20 \<or>
     c \<in> set [0x2f, 0x5c, 0x22, 0x5b, 0x5d, 0x3c, 0x3e, 0x7c, 0x2e, 0x3a, 0x3b, 0x2c, 0x3d, 0x2b, 0x09]"

definition ParseSkipWh :: "bytes \<Rightarrow> bytes" where
  "ParseSkipWh name = dropWhile (\<lambda>c. c = 0x20 \<or> c = 0x09) name"

text \<open>The rest of the name, the field and whether it has a wildcard; the name ends with the list.\<close>

fun GetNameField :: "mux \<Rightarrow> bytes \<Rightarrow> nat \<Rightarrow> bool \<Rightarrow> nls_info \<Rightarrow> bytes \<times> bytes \<times> bool \<times> nls_info" where
  "GetNameField mx name 0 wild n = (name, [], wild, n)"
| "GetNameField mx [] left wild n = ([], replicate left blank, wild, n)"
| "GetNameField mx (c # cs) (Suc left) wild n =
     (if TestFieldSeps c then (c # cs, replicate (Suc left) blank, wild, n)
      else if c = star then (cs, replicate (Suc left) qmark, True, n)
      else
        (let (u, n1) = DosUpFChar mx c n;
             (rest, field, w, n2) = GetNameField mx cs left (wild \<or> c = qmark) n1
         in (rest, u # field, w, n2)))"

definition put_field :: "nat \<Rightarrow> bytes \<Rightarrow> fcb \<Rightarrow> fcb" where
  "put_field i b f = f\<lparr>fcb_fname := take i (fcb_fname f) @ fmemcpy (drop i (fcb_fname f)) b (length b)\<rparr>"

text \<open>The drive of the name, and whether it does not exist.\<close>

definition parse_drive :: "('c, 'd) outside \<Rightarrow> u8 \<Rightarrow> bytes \<Rightarrow> fcb \<Rightarrow> ('c, 'd) fsys \<Rightarrow> bytes \<times> bool \<times> fcb \<times> ('c, 'd) fsys" where
  "parse_drive ou mode name f s =
     (if \<not> TestFieldSeps (char_at name 0) \<and> char_at name 1 = colon then
        (let (u, n) = DosUpFChar (nls_mux ou) (char_at name 0) (nls s); drive = u - 0x41
         in (drop 2 name, get_cds (unat drive) (fio s) = None, f\<lparr>fcb_drive := drive + 1\<rparr>, s\<lparr>nls := n\<rparr>))
      else (name, False, if mode AND PARSE_DFLT_DRIVE = 0 then f\<lparr>fcb_drive := 0\<rparr> else f, s))"

definition FcbParseFname :: "('c, 'd) outside \<Rightarrow> u8 \<Rightarrow> bytes \<Rightarrow> fcb \<Rightarrow> ('c, 'd) fsys \<Rightarrow> (bytes \<times> u8 \<times> fcb) \<times> ('c, 'd) fsys" where
  "FcbParseFname ou mode name0 f0 s0 =
     (let name1 = ParseSkipWh (if mode AND PARSE_SKIP_LEAD_SEP \<noteq> 0 then dropWhile TestCmnSeps name0 else name0);
          (name2, baddrive, f1, s1) = parse_drive ou mode name1 f0 s0;
          f2 = f1\<lparr>fcb_cublock := 0, fcb_recsiz := 0\<rparr>;
          f3 = (if mode AND PARSE_BLNK_FNAME = 0 then put_field 0 (replicate FNAME_SIZE blank) f2 else f2);
          f4 = (if mode AND PARSE_BLNK_FEXT = 0 then put_field FNAME_SIZE (replicate FEXT_SIZE blank) f3 else f3)
      in if char_at name2 0 = dot then
           (if char_at name2 1 = dot then ((drop 2 name2, PARSE_RET_NOWILD, put_field 0 [dot, dot] f4), s1)
            else ((drop 1 name2, PARSE_RET_NOWILD, put_field 0 [dot] f4), s1))
         else
           (let (rest, fname, wild, n1) = GetNameField (nls_mux ou) name2 FNAME_SIZE False (nls s1);
                (rest1, fext, wild1, n2) =
                  (if char_at rest 0 = dot
                   then (case GetNameField (nls_mux ou) (tl rest) FEXT_SIZE False n1 of (r, e, w, n) \<Rightarrow> (r, Some e, w, n))
                   else (rest, None, False, n1));
                f5 = put_field 0 fname f4;
                f6 = (case fext of None \<Rightarrow> f5 | Some e \<Rightarrow> put_field FNAME_SIZE e f5)
            in ((rest1, if baddrive then PARSE_RET_BADDRIVE else if wild \<or> wild1 then PARSE_RET_WILD else PARSE_RET_NOWILD, f6),
                s1\<lparr>nls := n2\<rparr>)))"

text \<open>The name of an FCB as text, and its drive.\<close>

definition FcbNameInit :: "fcb \<Rightarrow> ('c, 'd) fsys \<Rightarrow> bytes \<times> u16" where
  "FcbNameInit f s =
     ((if fcb_drive f \<noteq> 0 then [0x41 + fcb_drive f - 1, colon] else []) @ ConvertName83ToNameSZ (fcb_fname f),
      if fcb_drive f \<noteq> 0 then ucast (fcb_drive f) else ucast (default_drive s) + 1)"

section \<open>Records\<close>

definition FcbNextRecord :: "fcb \<Rightarrow> fcb" where
  "FcbNextRecord f =
     (if fcb_curec f + 1 \<ge> 128 then f\<lparr>fcb_curec := 0, fcb_cublock := fcb_cublock f + 1\<rparr> else f\<lparr>fcb_curec := fcb_curec f + 1\<rparr>)"

definition FcbRec :: "fcb \<Rightarrow> u32" where
  "FcbRec f = ucast (fcb_cublock f) * 128 + ucast (fcb_curec f)"

definition FcbCalcRec :: "fcb \<Rightarrow> fcb" where
  "FcbCalcRec f = f\<lparr>fcb_cublock := ucast (fcb_rndm f div 128), fcb_curec := ucast (fcb_rndm f) AND 127\<rparr>"

definition FcbSetRandom :: "fcb \<Rightarrow> fcb" where
  "FcbSetRandom f = f\<lparr>fcb_rndm := FcbRec f\<rparr>"

section \<open>Transfers\<close>

definition SftGetFsize :: "int \<Rightarrow> ('c, 'd) fsys \<Rightarrow> u32 \<times> ('c, 'd) fsys" where
  "SftGetFsize i s =
     (case idx_to_sft i s of (None, s1) \<Rightarrow> (of_int (errno DE_INVLDHNDL), s1) | (Some q, s1) \<Rightarrow> (sft_size (sft_at q s1), s1))"

text \<open>The number of the entry is a signed byte.\<close>

definition fcb_entry :: "fcb \<Rightarrow> int" where
  "fcb_entry f = sint (fcb_sftno f)"

definition set_fcb :: "fcb \<Rightarrow> xfcb \<Rightarrow> xfcb" where
  "set_fcb f x = x\<lparr>xf_fcb := f\<rparr>"

text \<open>
  How the transfer ends: \<open>n\<close> is the result of the transfer, \<open>want\<close> what was asked for. The remainder by a
  record size of zero is a division error, and zeros outside the transfer area are not modelled.
\<close>

definition fcb_rw_end :: "bool \<Rightarrow> u16 \<Rightarrow> int \<Rightarrow> fcb \<Rightarrow> ('c, 'd) fcb_env \<Rightarrow> ((u8 \<times> fcb) outcome \<times> ('c, 'd) fcb_env) option" where
  "fcb_rw_end reading want n f s =
     (let left = want - of_int n
      in if left = 0 then ret (FCB_SUCCESS, FcbNextRecord f) s
         else if fcb_recsiz f = 0 then None
         else
           (let part = left mod fcb_recsiz f; at = unat (of_int n :: u16)
            in if reading \<and> part > 0 then
                 (if at + unat part > length (dta_mem s) then None
                  else ret (FCB_ERR_EOF, FcbNextRecord f)
                         (s\<lparr>dta_mem := take at (dta_mem s) @ replicate (unat part) 0 @ drop (at + unat part) (dta_mem s)\<rparr>))
               else ret (FCB_ERR_NODATA, f) s))"

definition FcbReadWrite ::
  "('c, 'd) outside \<Rightarrow> nat \<Rightarrow> fcb \<Rightarrow> u16 \<Rightarrow> rw_mode \<Rightarrow> bool \<Rightarrow> ('c, 'd) fcb_env \<Rightarrow> ((u8 \<times> fcb) outcome \<times> ('c, 'd) fcb_env) option" where
  "FcbReadWrite ou fuel f recno mode random s =
     (let recsiz = fcb_recsiz f; bigsize = unat recsiz * unat recno; sz = of_nat bigsize :: u16 in
      if bigsize > 0xffff then ret (FCB_ERR_SEGMENT_WRAP, f) s
      else if snd (dta s) + sz < snd (dta s) then ret (FCB_ERR_SEGMENT_WRAP, f) s
      else
        andthen (on_fs (SftSeek ou (fcb_entry f) (FcbRec f * ucast recsiz) 0) s) (\<lambda>rc s1.
          let s2 = s1\<lparr>CritErr := - rc\<rparr> in
          if rc \<noteq> 0 then ret (FCB_ERR_NODATA, f) s2
          else
            andthen (on_ks (DosRWSft ou fuel (fcb_entry f) sz (dta s2) (dta_mem s2) mode) s2) (\<lambda>(n, mem) s3.
              let s4 = s3\<lparr>dta_mem := mem, CritErr := (if n < 0 then - n else CritErr s3)\<rparr> in
              andthen (if mode = WR then on_fs (SftGetFsize (fcb_entry f)) s4 else ret (fcb_fsize f) s4) (\<lambda>fsize.
                let f1 = f\<lparr>fcb_fsize := fsize\<rparr>;
                    f2 = (if random \<and> recsiz > 0 then f1\<lparr>fcb_rndm := fcb_rndm f1 + ucast ((of_int n + recsiz - 1) div recsiz)\<rparr> else f1)
                in fcb_rw_end (mode = RD) sz n f2))))"

definition FcbRandomBlockIO ::
  "('c, 'd) outside \<Rightarrow> nat \<Rightarrow> fcb \<Rightarrow> u16 \<Rightarrow> rw_mode \<Rightarrow> ('c, 'd) fcb_env \<Rightarrow> ((u8 \<times> u16 \<times> fcb) outcome \<times> ('c, 'd) fcb_env) option" where
  "FcbRandomBlockIO ou fuel f nRecords mode s =
     andthen (FcbReadWrite ou fuel (FcbCalcRec f) nRecords mode True s)
       (\<lambda>(r, f1). ret (r, ucast (fcb_rndm f1 - fcb_rndm f), FcbCalcRec f1))"

definition FcbRandomIO ::
  "('c, 'd) outside \<Rightarrow> nat \<Rightarrow> fcb \<Rightarrow> rw_mode \<Rightarrow> ('c, 'd) fcb_env \<Rightarrow> ((u8 \<times> fcb) outcome \<times> ('c, 'd) fcb_env) option" where
  "FcbRandomIO ou fuel f mode s =
     (let f1 = FcbCalcRec f in
      andthen (FcbReadWrite ou fuel f1 1 mode False s)
        (\<lambda>(r, f2). ret (r, f2\<lparr>fcb_cublock := fcb_cublock f1, fcb_curec := fcb_curec f1\<rparr>)))"

section \<open>Opening and closing\<close>

text \<open>The result of \<^verbatim>\<open>DosOpenSft\<close> as a 16-bit number.\<close>

definition short_of :: "int \<Rightarrow> int" where
  "short_of r = sint (of_int r :: u16)"

definition find_entry :: "int \<Rightarrow> ('c, 'd) fcb_env \<Rightarrow> (sft_ptr option outcome \<times> ('c, 'd) fcb_env) option" where
  "find_entry i = on_fs (idx_to_sft i)"

definition FcbGetFileSize ::
  "('c, 'd) outside \<Rightarrow> fcb \<Rightarrow> ('c, 'd) fcb_env \<Rightarrow> ((u8 \<times> fcb) outcome \<times> ('c, 'd) fcb_env) option" where
  "FcbGetFileSize ou f s =
     (let (path, _) = FcbNameInit f (fs (ks s)); recsiz = fcb_recsiz f in
      andthen (on_fs (IsDevice ou path) s) (\<lambda>dhp s1.
        if dhp \<noteq> None \<or> recsiz = 0 then ret (FCB_ERROR, f) s1
        else
          andthen (on_fs_opt (DosOpenSft ou path (O_LEGACY OR O_RDONLY OR O_OPEN) 0) s1) (\<lambda>r s2.
            let i = short_of r in
            if i \<ge> 0 then
              andthen (on_fs (SftGetFsize i) s2) (\<lambda>fsize s3.
                let f1 = f\<lparr>fcb_rndm := (fsize + (ucast recsiz - 1)) div ucast recsiz\<rparr> in
                andthen (on_fs_opt (DosCloseSft ou i False) s3) (\<lambda>rc s4.
                  ret (if rc = 0 then FCB_SUCCESS else FCB_ERROR, f1) (s4\<lparr>CritErr := - rc\<rparr>)))
            else ret (FCB_ERROR, f) (s2\<lparr>CritErr := - i\<rparr>))))"

definition FcbOpen ::
  "('c, 'd) outside \<Rightarrow> xfcb \<Rightarrow> u16 \<Rightarrow> ('c, 'd) fcb_env \<Rightarrow> ((u8 \<times> xfcb) outcome \<times> ('c, 'd) fcb_env) option" where
  "FcbOpen ou x flags s =
     (let f = xf_fcb x; (path, drive) = FcbNameInit f (fs (ks s));
          attr = (case xf_ext x of Some (_, a) \<Rightarrow> if flags AND O_CREAT \<noteq> 0 then ucast a else 0 | None \<Rightarrow> 0) in
      andthen (on_fs_opt (DosOpenSft ou path flags attr) s) (\<lambda>r s1.
        let i = short_of r in
        if i < 0 then ret (FCB_ERROR, x) (s1\<lparr>CritErr := - i\<rparr>)
        else
          andthen (find_entry i s1) (\<lambda>q s2.
            case q of
              None \<Rightarrow> None
            | Some q \<Rightarrow>
                andthen (on_fs (\<lambda>g. ((), upd_sft q (\<lambda>t. t\<lparr>sft_mode := sft_mode t OR O_FCB\<rparr>) g)) s2) (\<lambda>_ s3.
                  let t = sft_at q (fs (ks s3));
                      f1 = f\<lparr>fcb_sftno := of_int i, fcb_cublock := 0, fcb_recsiz := 0\<rparr>;
                      f2 = (if sft_flags t AND SFT_FDEVICE = 0 then f1\<lparr>fcb_drive := ucast drive, fcb_recsiz := 128\<rparr> else f1)
                  in ret (FCB_SUCCESS, set_fcb (f2\<lparr>fcb_fsize := sft_size t, fcb_date := sft_date t, fcb_time := sft_time t\<rparr>) x) s3))))"

definition FcbClose :: "('c, 'd) outside \<Rightarrow> fcb \<Rightarrow> ('c, 'd) fcb_env \<Rightarrow> ((u8 \<times> fcb) outcome \<times> ('c, 'd) fcb_env) option" where
  "FcbClose ou f s =
     (if fcb_sftno f = 0xff then ret (FCB_SUCCESS, f) s
      else
        andthen (find_entry (fcb_entry f) s) (\<lambda>q s1.
          case q of
            None \<Rightarrow> ret (FCB_ERROR, f) s1
          | Some q \<Rightarrow>
              andthen (on_fs (\<lambda>g. ((), upd_sft q (\<lambda>t. t\<lparr>sft_size := fcb_fsize f\<rparr>) g)) s1) (\<lambda>_ s2.
                andthen (if sft_flags (sft_at q (fs (ks s2))) AND SFT_FSHARED = 0
                         then on_fs_opt (\<lambda>g. map_option (Pair ()) (dos_merge_file_changes (nat (fcb_entry f)) g)) s2
                         else ret () s2) (\<lambda>_ s3.
                  andthen (on_fs (DosSetFtimeSft (fcb_entry f) (fcb_date f) (fcb_time f)) s3) (\<lambda>_ s4.
                    andthen (on_fs_opt (DosCloseSft ou (fcb_entry f) False) s4) (\<lambda>rc s5.
                      ret (if rc = 0 then (FCB_SUCCESS, f\<lparr>fcb_sftno := 0xff\<rparr>) else (FCB_ERROR, f)) (s5\<lparr>CritErr := - rc\<rparr>)))))))"

text \<open>The loop ends at the first entry that is not in use; \<open>fuel\<close> is the number of entries.\<close>

fun FcbCloseAll :: "('c, 'd) outside \<Rightarrow> nat \<Rightarrow> nat \<Rightarrow> ('c, 'd) fsys \<Rightarrow> ('c, 'd) fsys option" where
  "FcbCloseAll ou 0 i s = Some s"
| "FcbCloseAll ou (Suc n) i s =
     (case idx_to_sft (int i) s of
        (None, s1) \<Rightarrow> Some s1
      | (Some q, s1) \<Rightarrow>
          if sft_mode (sft_at q s1) AND O_FCB \<noteq> 0 \<and> sft_psp (sft_at q s1) = cu_psp s1
          then do { (_, s2) \<leftarrow> DosCloseSft ou (int i) False s1; FcbCloseAll ou n (i + 1) s2 }
          else FcbCloseAll ou n (i + 1) s1)"

section \<open>Searching, deleting, renaming\<close>

definition blank_find :: find_data where
  "blank_find = \<lparr>fd_match = blank_dmatch, dm_attr_fnd = 0, dm_time = 0, dm_date = 0, dm_size = 0, dm_name = []\<rparr>"

text \<open>A search stores its state and what it found in \<open>d\<close>, which is where the transfer area points.\<close>

definition fcb_findfirst :: "('c, 'd) outside \<Rightarrow> u16 \<Rightarrow> bytes \<Rightarrow> find_data \<Rightarrow> ('c, 'd) fcb_env
    \<Rightarrow> ((int \<times> find_data) outcome \<times> ('c, 'd) fcb_env) option" where
  "fcb_findfirst ou attr path d s =
     andthen (on_fs_opt (\<lambda>g. map_option (\<lambda>(rc, fd, g1). ((rc, case fd of None \<Rightarrow> d | Some d1 \<Rightarrow> d1), g1)) (DosFindFirst ou attr path g)) s)
       (\<lambda>(rc, d1) s1. ret (rc, d1) (s1\<lparr>CritErr := - rc\<rparr>))"

definition fcb_findnext :: "('c, 'd) outside \<Rightarrow> find_data \<Rightarrow> ('c, 'd) fcb_env \<Rightarrow> ((int \<times> find_data) outcome \<times> ('c, 'd) fcb_env) option" where
  "fcb_findnext ou d s =
     andthen (on_fs_opt (\<lambda>g. map_option (\<lambda>(rc, fd, g1). ((rc, case fd of None \<Rightarrow> d | Some d1 \<Rightarrow> d1), g1)) (DosFindNext ou (fd_match d) g)) s)
       (\<lambda>(rc, d1) s1. ret (rc, d1) (s1\<lparr>CritErr := - rc\<rparr>))"

definition search_attr :: "xfcb \<Rightarrow> u8" where
  "search_attr x = (case xf_ext x of Some (_, a) \<Rightarrow> a | None \<Rightarrow> D_ALL)"

definition found_path :: "u16 \<Rightarrow> find_data \<Rightarrow> bytes" where
  "found_path drive d = [0x41 + ucast drive - 1, colon] @ dm_name d"

fun delete_loop :: "('c, 'd) outside \<Rightarrow> nat \<Rightarrow> u16 \<Rightarrow> u8 \<Rightarrow> find_data \<Rightarrow> ('c, 'd) fcb_env \<Rightarrow> (u8 outcome \<times> ('c, 'd) fcb_env) option" where
  "delete_loop ou 0 drive attr d s = None"
| "delete_loop ou (Suc n) drive attr d s =
     andthen (on_fs_opt (DosDelete ou (found_path drive d) attr) s) (\<lambda>rc s1.
       if rc \<noteq> 0 then ret FCB_ERROR s1
       else
         andthen (fcb_findnext ou d s1) (\<lambda>(rc, d1) s2.
           if rc = 0 then delete_loop ou n drive attr d1 s2 else ret FCB_SUCCESS s2))"

definition FcbDelete :: "('c, 'd) outside \<Rightarrow> nat \<Rightarrow> xfcb \<Rightarrow> ('c, 'd) fcb_env \<Rightarrow> (u8 outcome \<times> ('c, 'd) fcb_env) option" where
  "FcbDelete ou n x s =
     (let (path, drive) = FcbNameInit (xf_fcb x) (fs (ks s)); attr = search_attr x in
      andthen (on_fs (IsDevice ou path) s) (\<lambda>dhp s1.
        if dhp \<noteq> None then ret FCB_ERROR s1
        else
          andthen (fcb_findfirst ou (ucast attr) path blank_find s1) (\<lambda>(rc, d) s2.
            if rc \<noteq> 0 then ret FCB_ERROR s2 else delete_loop ou n drive attr d s2)))"

text \<open>An FCB for renaming: the old name in place of the name, the new one behind it. A pattern keeps characters under \<open>?\<close>.\<close>

record rfcb =
  ren_ext :: "(bytes \<times> u8) option"
  ren_drive :: u8
  ren_old :: bytes
  ren_new :: bytes

definition zero_fcb :: fcb where
  "zero_fcb = \<lparr>fcb_drive = 0, fcb_fname = replicate 11 0, fcb_cublock = 0, fcb_recsiz = 0, fcb_fsize = 0, fcb_date = 0, fcb_time = 0,
     fcb_sftno = 0, fcb_strtclst = 0, fcb_dirclst = 0, fcb_curec = 0, fcb_rndm = 0\<rparr>"

definition overlay :: "bytes \<Rightarrow> bytes \<Rightarrow> bytes" where
  "overlay pat name = map2 (\<lambda>p c. if p \<noteq> qmark then p else c) pat name"

text \<open>One file: its full name, the new name, and the renaming.\<close>

definition rename_one :: "('c, 'd) outside \<Rightarrow> u16 \<Rightarrow> bytes \<Rightarrow> find_data \<Rightarrow> ('c, 'd) fcb_env \<Rightarrow> (bool outcome \<times> ('c, 'd) fcb_env) option" where
  "rename_one ou drive pat d s =
     andthen (on_fs (FcbParseFname ou 0 (dm_name d) zero_fcb) s) (\<lambda>(_, _, f) s1.
       let f1 = f\<lparr>fcb_fname := overlay pat (fcb_fname f), fcb_drive := ucast drive\<rparr> in
       andthen (on_fs_opt (\<lambda>g. map_option (\<lambda>(r, dest, g1). ((r, dest), g1)) (truename ou (found_path drive d) 0 g)) s1) (\<lambda>(r, from) s2.
         case r of
           Inl _ \<Rightarrow> ret False s2
         | Inr rc \<Rightarrow>
             if rc AND IS_DEVICE \<noteq> 0 then ret False s2
             else
               andthen (on_fs_opt (\<lambda>g. map_option (\<lambda>(r, dest, g1). ((r, dest), g1))
                         (truename ou (fst (FcbNameInit f1 g)) 0 (g\<lparr>PriPathName := from\<rparr>))) s2) (\<lambda>(r, to) s3.
                 case r of
                   Inl _ \<Rightarrow> ret False s3
                 | Inr rc \<Rightarrow>
                     if only_device rc then ret False s3
                     else
                       andthen (on_fs_opt (\<lambda>g. DosRenameTrue ou from to (ucast (wAttr s3)) (g\<lparr>SecPathName := to\<rparr>)) s3)
                         (\<lambda>rc. ret (rc = 0)))))"

fun rename_loop :: "('c, 'd) outside \<Rightarrow> nat \<Rightarrow> u16 \<Rightarrow> bytes \<Rightarrow> find_data \<Rightarrow> ('c, 'd) fcb_env \<Rightarrow> (u8 outcome \<times> ('c, 'd) fcb_env) option" where
  "rename_loop ou 0 drive pat d s = None"
| "rename_loop ou (Suc n) drive pat d s =
     andthen (rename_one ou drive pat d s) (\<lambda>ok s1.
       if \<not> ok then ret FCB_ERROR s1
       else
         andthen (fcb_findnext ou d s1) (\<lambda>(rc, d1) s2.
           if rc = 0 then rename_loop ou n drive pat d1 s2 else ret FCB_SUCCESS s2))"

definition FcbRename :: "('c, 'd) outside \<Rightarrow> nat \<Rightarrow> rfcb \<Rightarrow> ('c, 'd) fcb_env \<Rightarrow> (u8 outcome \<times> ('c, 'd) fcb_env) option" where
  "FcbRename ou n x s =
     (let (path, drive) = FcbNameInit (zero_fcb\<lparr>fcb_drive := ren_drive x, fcb_fname := ren_old x\<rparr>) (fs (ks s)) in
      andthen (on_fs (\<lambda>g. case GetNameField (nls_mux ou) (take FNAME_SIZE (ren_new x)) FNAME_SIZE False (nls g) of
                            (_, fname, _, n1) \<Rightarrow>
                              (case GetNameField (nls_mux ou) (drop FNAME_SIZE (ren_new x)) FEXT_SIZE False n1 of
                                 (_, fext, _, n2) \<Rightarrow> (fname @ fext, g\<lparr>nls := n2\<rparr>))) s) (\<lambda>pat s0.
      andthen (on_fs (IsDevice ou path) s0) (\<lambda>dhp s1.
        if dhp \<noteq> None then ret FCB_ERROR s1
        else
          (let attr = (case ren_ext x of Some (_, a) \<Rightarrow> a | None \<Rightarrow> D_ALL) in
           andthen (fcb_findfirst ou (ucast attr) path blank_find (s1\<lparr>wAttr := ucast attr\<rparr>)) (\<lambda>(rc, d) s2.
             if rc \<noteq> 0 then ret FCB_ERROR s2 else rename_loop ou n drive pat d s2)))))"

text \<open>
  The state of the search is kept in the static \<open>Dmatch\<close>; what the FCB says is copied there for a first search only,
  where it has no effect. The found entry goes to the transfer area, behind the head of an extended FCB.
\<close>

definition dirent_bytes :: "dirent \<Rightarrow> bytes" where
  "dirent_bytes de = putdirent de (replicate 32 0) 0"

definition FcbFindFirstNext :: "('c, 'd) outside \<Rightarrow> xfcb \<Rightarrow> bool \<Rightarrow> ('c, 'd) fcb_env \<Rightarrow> ((u8 \<times> xfcb) outcome \<times> ('c, 'd) fcb_env) option" where
  "FcbFindFirstNext ou x first s =
     (let f = xf_fcb x; (path, drive) = FcbNameInit f (fs (ks s)) in
      andthen (if first then
                 andthen (on_fs (\<lambda>g. case DosUpFMem (nls_mux ou) (fcb_fname f) 11 (nls g) of (name, n) \<Rightarrow> (name, g\<lparr>nls := n\<rparr>)) s)
                   (\<lambda>name s1. ret () (s1\<lparr>Dmatch := (Dmatch s1)\<lparr>fd_match := \<lparr>dm_drive = fcb_sftno f, dm_name_pat = name,
                       dm_attr_srch = ucast (wAttr s1), dm_entry = fcb_strtclst f, dm_dircluster = ucast (fcb_dirclst f)\<rparr>\<rparr>,
                       wAttr := ucast D_ALL\<rparr>))
               else ret () s) (\<lambda>_ s2.
        let s3 = (case xf_ext x of Some (_, a) \<Rightarrow> s2\<lparr>wAttr := ucast a\<rparr> | None \<Rightarrow> s2);
            head = (case xf_ext x of Some (resvrd, a) \<Rightarrow> [0xff] @ resvrd @ [a] | None \<Rightarrow> []) in
        andthen (if first then fcb_findfirst ou (wAttr s3) path (Dmatch s3) s3 else fcb_findnext ou (Dmatch s3) s3) (\<lambda>(rc, d) s4.
          let s5 = s4\<lparr>Dmatch := d, dta_mem := fmemcpy (dta_mem s4) head (length head)\<rparr> in
          if rc \<noteq> 0 then ret (FCB_ERROR, x) s5
          else
            (let out = head @ [ucast drive] @ dirent_bytes (SearchDir (fs (ks s5)))
             in ret (FCB_SUCCESS, set_fcb (f\<lparr>fcb_dirclst := ucast (dm_dircluster (fd_match d)), fcb_strtclst := dm_entry (fd_match d),
                    fcb_sftno := dm_drive (fd_match d)\<rparr>) x)
                  (s5\<lparr>dta_mem := fmemcpy (dta_mem s5) out (length out)\<rparr>)))))"

section \<open>Drive data\<close>

text \<open>Sectors per cluster, bytes per sector, clusters and the media descriptor; \<open>None\<close> for an invalid drive.\<close>

definition FatGetDrvData :: "('c, 'd) outside \<Rightarrow> u8 \<Rightarrow> ('c, 'd) fsys
    \<Rightarrow> ((u8 \<times> u16 \<times> u16 \<times> u8) option \<times> ('c, 'd) fsys) option" where
  "FatGetDrvData ou drive s = do {
     (spc, r, s1) \<leftarrow> DosGetFree ou drive False s;
     Some (case r of
             None \<Rightarrow> None
           | Some (_, bps, nc) \<Rightarrow>
               if spc = 0xffff then None
               else Some (ucast spc, bps, nc,
                 case get_dpb (unat (if drive = 0 then default_drive s1 else drive - 1)) (fio s1) of
                   None \<Rightarrow> hi8 spc
                 | Some p \<Rightarrow> dpb_mdb (dpbs (fio s1) p)), s1)
   }"

section \<open>Facts\<close>

text \<open>The loop over the table ends at a free entry, whatever is open behind it.\<close>

lemma FcbCloseAll_stops_at_free:
  assumes "locate (sfthead s) 0 i = Some q" "sft_count (sft_at q s) = 0"
  shows "FcbCloseAll ou n i s = Some s \<or> FcbCloseAll ou n i s = Some (s\<lparr>lpCurSft := Some q\<rparr>)"
  using assms by (cases n) (simp_all add: idx_to_sft_def idx_to_sft0_def sft_at_def)

text \<open>A transfer that fails on an FCB with records of size 0 divides by zero.\<close>

lemma fcb_rw_end_divides:
  assumes "fcb_recsiz f = 0" "want \<noteq> of_int n"
  shows "fcb_rw_end reading want n f s = None"
  using assms by (simp add: fcb_rw_end_def Let_def)

text \<open>The record after the current one is the next one, up to the last of the last block.\<close>

lemma FcbRec_next:
  assumes "fcb_curec f < 128" "fcb_cublock f \<noteq> 0xffff"
  shows "FcbRec (FcbNextRecord f) = FcbRec f + 1"
proof -
  define c b where "c = fcb_curec f" and "b = fcb_cublock f"
  have c: "unat c < 128" using assms(1) by (simp add: word_less_nat_alt c_def)
  have b: "unat b < 65536" by simp
  have b': "unat b \<noteq> 65535"
  proof
    assume "unat b = 65535"
    then have "b = of_nat 65535" by (simp add: word_unat_eq_iff)
    then show False using assms(2) by (simp add: b_def)
  qed
  have b2: "unat b < 65535" using b b' by linarith
  have c1: "unat (c + 1) = unat c + 1" using c by (simp add: unat_word_ariths)
  have b1: "unat (b + 1) = unat b + 1" using b2 by (simp add: unat_word_ariths)
  show ?thesis
  proof (cases "c + 1 \<ge> 128")
    case True
    then have "unat c = 127" using c c1 by (simp add: word_le_nat_alt)
    then show ?thesis using True b2
      by (simp add: FcbRec_def FcbNextRecord_def flip: c_def b_def)
        (simp add: word_unat_eq_iff unat_word_ariths unsigned_ucast_eq take_bit_eq_mod b1)
  next
    case False
    then show ?thesis using c b2
      by (simp add: FcbRec_def FcbNextRecord_def flip: c_def b_def)
        (simp add: word_unat_eq_iff unat_word_ariths unsigned_ucast_eq take_bit_eq_mod c1)
  qed
qed

text \<open>Block and record determine the random record number and the other way round, below 2 to the power 23.\<close>

lemma FcbRec_calc:
  assumes "fcb_rndm f < 2 ^ 23"
  shows "FcbRec (FcbCalcRec f) = fcb_rndm f"
proof -
  define r where "r = fcb_rndm f"
  have r: "unat r < 8388608" using assms by (simp add: word_less_nat_alt r_def)
  have m: "(ucast r AND 127 :: u8) = take_bit 7 (ucast r)" by (simp add: take_bit_eq_mask mask_numeral)
  have low: "unat (ucast r AND 127 :: u8) = unat r mod 128"
    unfolding m unsigned_take_bit_eq unsigned_ucast_eq by (simp add: take_bit_take_bit) (simp add: take_bit_eq_mod)
  have high: "unat (ucast (r div 128) :: u16) = unat r div 128"
    using r by (simp add: unsigned_ucast_eq take_bit_eq_mod unat_div_distrib)
  from low high r show ?thesis
    by (simp add: FcbRec_def FcbCalcRec_def flip: r_def)
      (simp add: word_unat_eq_iff unat_word_ariths unsigned_ucast_eq take_bit_eq_mod)
qed

end
