(* ===== verification/Dos_System.thy ===== *)
theory Dos_System
  imports Fcb Mem_Manager Task Dos_Time
begin

text \<open>
  The whole kernel: the file system with its console and FCB state, the memory manager, the memory of the programs,
  the clock and the variables of the DOS data area (\<^verbatim>\<open>kernel/globals.h\<close>). Real mode addresses are pairs of
  segment and offset, bytes are at segment times 16 plus offset. What the kernel keeps in records (memory control blocks,
  program segment prefixes, tables) is not in that memory.
\<close>

section \<open>Memory of the programs\<close>

type_synonym umem = "u32 \<Rightarrow> u8"

definition lin :: "far \<Rightarrow> u32" where
  "lin p = ucast (fst p) * 16 + ucast (snd p)"

definition far_add :: "far \<Rightarrow> nat \<Rightarrow> far" where
  "far_add p n = (fst p, snd p + of_nat n)"

definition ld8 :: "umem \<Rightarrow> far \<Rightarrow> u8" where
  "ld8 m p = m (lin p)"

fun ld_bytes :: "umem \<Rightarrow> far \<Rightarrow> nat \<Rightarrow> bytes" where
  "ld_bytes m p 0 = []"
| "ld_bytes m p (Suc n) = ld8 m p # ld_bytes m (far_add p 1) n"

fun st_bytes :: "far \<Rightarrow> bytes \<Rightarrow> umem \<Rightarrow> umem" where
  "st_bytes p [] m = m"
| "st_bytes p (b # bs) m = st_bytes (far_add p 1) bs (m(lin p := b))"

definition ld16 :: "umem \<Rightarrow> far \<Rightarrow> u16" where
  "ld16 m p = mk16 (ld8 m p) (ld8 m (far_add p 1))"

definition ld32 :: "umem \<Rightarrow> far \<Rightarrow> u32" where
  "ld32 m p = push_bit 16 (ucast (ld16 m (far_add p 2))) OR ucast (ld16 m p)"

definition ld_far :: "umem \<Rightarrow> far \<Rightarrow> far" where
  "ld_far m p = (ld16 m (far_add p 2), ld16 m p)"

definition st16 :: "far \<Rightarrow> u16 \<Rightarrow> umem \<Rightarrow> umem" where
  "st16 p w = st_bytes p [lo8 w, hi8 w]"

definition st_far :: "far \<Rightarrow> far \<Rightarrow> umem \<Rightarrow> umem" where
  "st_far p q = st_bytes p [lo8 (snd q), hi8 (snd q), lo8 (fst q), hi8 (fst q)]"

text \<open>A text up to its NUL; a text without one would fill the segment.\<close>

fun ld_text_upto :: "nat \<Rightarrow> umem \<Rightarrow> far \<Rightarrow> bytes" where
  "ld_text_upto 0 m p = []"
| "ld_text_upto (Suc n) m p = (if ld8 m p = 0 then [] else ld8 m p # ld_text_upto n m (far_add p 1))"

definition ld_text :: "umem \<Rightarrow> far \<Rightarrow> bytes" where
  "ld_text = ld_text_upto 65536"

definition st_text :: "far \<Rightarrow> bytes \<Rightarrow> umem \<Rightarrow> umem" where
  "st_text p bs = st_bytes p (bs @ [0])"

lemma length_ld_bytes [simp]: "length (ld_bytes m p n) = n"
  by (induction n arbitrary: p) simp_all

section \<open>Registers\<close>

text \<open>\<^verbatim>\<open>lregs\<close> and \<^verbatim>\<open>iregs\<close> of \<^verbatim>\<open>hdr/pcb.h\<close>, with the halves of the four general registers.\<close>

record lregs =
  AX :: u16
  BX :: u16
  CX :: u16
  DX :: u16
  SI :: u16
  DI :: u16
  DS :: u16
  ES :: u16

record iregs = lregs +
  BP :: u16
  IP :: u16
  CS :: u16
  FLAGS :: u16

definition FLG_ZERO :: u16 where "FLG_ZERO = 0x0040"
definition FLG_CARRY :: u16 where "FLG_CARRY = 0x0001"

abbreviation AL :: "lregs \<Rightarrow> u8" where "AL r \<equiv> lo8 (AX r)"
abbreviation AH :: "lregs \<Rightarrow> u8" where "AH r \<equiv> hi8 (AX r)"
abbreviation BL :: "lregs \<Rightarrow> u8" where "BL r \<equiv> lo8 (BX r)"
abbreviation BH :: "lregs \<Rightarrow> u8" where "BH r \<equiv> hi8 (BX r)"
abbreviation CL :: "lregs \<Rightarrow> u8" where "CL r \<equiv> lo8 (CX r)"
abbreviation CH :: "lregs \<Rightarrow> u8" where "CH r \<equiv> hi8 (CX r)"
abbreviation DL :: "lregs \<Rightarrow> u8" where "DL r \<equiv> lo8 (DX r)"
abbreviation DH :: "lregs \<Rightarrow> u8" where "DH r \<equiv> hi8 (DX r)"

definition set_lo :: "u8 \<Rightarrow> u16 \<Rightarrow> u16" where
  "set_lo b w = mk16 b (hi8 w)"

definition set_hi :: "u8 \<Rightarrow> u16 \<Rightarrow> u16" where
  "set_hi b w = mk16 (lo8 w) b"

definition set_AL :: "u8 \<Rightarrow> lregs \<Rightarrow> lregs" where
  "set_AL b r = r\<lparr>AX := set_lo b (AX r)\<rparr>"

definition set_DL :: "u8 \<Rightarrow> lregs \<Rightarrow> lregs" where
  "set_DL b r = r\<lparr>DX := set_lo b (DX r)\<rparr>"

definition DS_DX :: "lregs \<Rightarrow> far" where "DS_DX r = (DS r, DX r)"
definition DS_SI :: "lregs \<Rightarrow> far" where "DS_SI r = (DS r, SI r)"
definition ES_DI :: "lregs \<Rightarrow> far" where "ES_DI r = (ES r, DI r)"

section \<open>The state of the kernel\<close>

record dos_vars =
  break_ena :: u8
  break_flg :: bool
  term_type :: u8
  return_code :: u16
  switchar :: u8
  oem_id :: u8
  version_flags :: u8
  os_minor :: u8
  os_setver_major :: u8
  os_setver_minor :: u8
  BootDrive :: u8
  CPULevel :: u8
  Int21AX :: u16
  CritErrLocus :: u8
  CritErrClass :: u8
  CritErrAction :: u8
  CritErrDev :: far
  ReturnAnyDosVersionExpected :: bool
  net_name :: bytes
  NetBios :: u16
  net_set_count :: u8
  NetDelay :: u8
  NetRetry :: u8
  abort_progress :: u8
  setverPtr :: far

record ('c, 'd) dos =
  fe :: "('c, 'd) fcb_env"
  mm :: mem_state
  umem :: umem
  user_r :: far
  clock :: nat
  clk_record :: ClockRecord
  clk_status :: u16
  dv :: dos_vars

type_synonym ('a, 'c, 'd) call = "('c, 'd) dos \<Rightarrow> ('a outcome \<times> ('c, 'd) dos) option"

text \<open>Views of the parts.\<close>

definition fss :: "('c, 'd) dos \<Rightarrow> ('c, 'd) fsys" where
  "fss s = fs (ks (fe s))"

definition upd_fs :: "(('c, 'd) fsys \<Rightarrow> ('c, 'd) fsys) \<Rightarrow> ('c, 'd) dos \<Rightarrow> ('c, 'd) dos" where
  "upd_fs f s = s\<lparr>fe := (fe s)\<lparr>ks := (ks (fe s))\<lparr>fs := f (fss s)\<rparr>\<rparr>\<rparr>"

definition upd_ks :: "(('c, 'd) kstate \<Rightarrow> ('c, 'd) kstate) \<Rightarrow> ('c, 'd) dos \<Rightarrow> ('c, 'd) dos" where
  "upd_ks f s = s\<lparr>fe := (fe s)\<lparr>ks := f (ks (fe s))\<rparr>\<rparr>"

definition upd_dv :: "(dos_vars \<Rightarrow> dos_vars) \<Rightarrow> ('c, 'd) dos \<Rightarrow> ('c, 'd) dos" where
  "upd_dv f s = s\<lparr>dv := f (dv s)\<rparr>"

definition upd_mem :: "(umem \<Rightarrow> umem) \<Rightarrow> ('c, 'd) dos \<Rightarrow> ('c, 'd) dos" where
  "upd_mem f s = s\<lparr>umem := f (umem s)\<rparr>"

definition this_psp :: "('c, 'd) dos \<Rightarrow> u16" where
  "this_psp s = fsys.cu_psp (fss s)"

definition psp_at :: "u16 \<Rightarrow> ('c, 'd) dos \<Rightarrow> psp" where
  "psp_at p s = psps (fss s) p"

text \<open>
  The code of the last critical error is one variable of the kernel; the requests to character and to block devices and
  the FCB calls each write it. A call starts with one value in all three places, and the place that changed is the new
  value, an FCB call's first, then that of a character request.
\<close>

definition crit_code :: "('c, 'd) dos \<Rightarrow> u16" where
  "crit_code s = of_int (CritErr (fe s))"

definition set_crit :: "u16 \<Rightarrow> ('c, 'd) fcb_env \<Rightarrow> ('c, 'd) fcb_env" where
  "set_crit c e =
     e\<lparr>CritErr := sint c, ks := (ks e)\<lparr>fs := (fs (ks e))\<lparr>fio := (fio (fs (ks e)))\<lparr>io_CritErrCode := c\<rparr>,
         chars := (chars (fs (ks e)))\<lparr>CritErrCode := c\<rparr>\<rparr>\<rparr>\<rparr>"

definition new_crit :: "u16 \<Rightarrow> ('c, 'd) fcb_env \<Rightarrow> u16" where
  "new_crit c e =
     (if of_int (CritErr e) \<noteq> c then of_int (CritErr e)
      else if CritErrCode (chars (fs (ks e))) \<noteq> c then CritErrCode (chars (fs (ks e)))
      else io_CritErrCode (fio (fs (ks e))))"

definition on_env :: "(('c, 'd) fcb_env \<Rightarrow> ('a outcome \<times> ('c, 'd) fcb_env) option) \<Rightarrow> ('a, 'c, 'd) call" where
  "on_env f s =
     map_option (\<lambda>(x, e). (x, s\<lparr>fe := set_crit (new_crit (crit_code s) e) e\<rparr>)) (f (set_crit (crit_code s) (fe s)))"

definition sys :: "(('c, 'd) fsys \<Rightarrow> 'a \<times> ('c, 'd) fsys) \<Rightarrow> ('a, 'c, 'd) call" where
  "sys f = on_env (on_fs f)"

definition sys_opt :: "(('c, 'd) fsys \<Rightarrow> ('a \<times> ('c, 'd) fsys) option) \<Rightarrow> ('a, 'c, 'd) call" where
  "sys_opt f = on_env (on_fs_opt f)"

definition con :: "(('c, 'd) kstate \<Rightarrow> ('a, 'c, 'd) result) \<Rightarrow> ('a, 'c, 'd) call" where
  "con f = on_env (on_ks f)"

definition put_crit :: "int \<Rightarrow> ('c, 'd) dos \<Rightarrow> ('c, 'd) dos" where
  "put_crit c s = s\<lparr>fe := set_crit (of_int c) (fe s)\<rparr>"

text \<open>The disk transfer area is the memory from its pointer to the end of the segment.\<close>

definition on_dta :: "(('c, 'd) fcb_env \<Rightarrow> ('a outcome \<times> ('c, 'd) fcb_env) option) \<Rightarrow> ('a, 'c, 'd) call" where
  "on_dta f s =
     (let p = dta (fe s) in
      map_option (\<lambda>(x, s1). (x, upd_mem (st_bytes p (dta_mem (fe s1))) s1))
        (on_env f (s\<lparr>fe := (fe s)\<lparr>dta_mem := ld_bytes (umem s) p (65536 - unat (snd p))\<rparr>\<rparr>)))"

text \<open>The memory manager knows the current process.\<close>

definition on_mm :: "(mem_state \<Rightarrow> ('a \<times> mem_state) option) \<Rightarrow> ('a, 'c, 'd) call" where
  "on_mm f s = map_option (\<lambda>(x, m). (Ret x, s\<lparr>mm := m\<rparr>)) (f ((mm s)\<lparr>mem_state.cu_psp := this_psp s\<rparr>))"

text \<open>A transfer between an open file or device and memory.\<close>

definition rw_far :: "('c, 'd) outside \<Rightarrow> nat \<Rightarrow> int \<Rightarrow> u16 \<Rightarrow> far \<Rightarrow> rw_mode \<Rightarrow> (int, 'c, 'd) call" where
  "rw_far ou fuel fd n p mode s =
     andthen (con (DosRWSft ou fuel fd n p (ld_bytes (umem s) p (unat n)) mode) s)
       (\<lambda>(r, buf) s1. ret r (if mode = RD then upd_mem (st_bytes p buf) s1 else s1))"

text \<open>Interrupt vectors, \<^verbatim>\<open>getvec\<close> and \<^verbatim>\<open>setvec\<close>.\<close>

definition getvec :: "u8 \<Rightarrow> ('c, 'd) dos \<Rightarrow> far" where
  "getvec n s = ld_far (umem s) (0, 4 * ucast n)"

definition setvec :: "u8 \<Rightarrow> far \<Rightarrow> ('c, 'd) dos \<Rightarrow> ('c, 'd) dos" where
  "setvec n v = upd_mem (st_far (0, 4 * ucast n) v)"

text \<open>A frame of registers as the interrupt entry pushes it.\<close>

definition st_iregs :: "far \<Rightarrow> iregs \<Rightarrow> umem \<Rightarrow> umem" where
  "st_iregs p r m =
     foldl (\<lambda>m (i, w). st16 (far_add p (2 * i)) w m) m
       (List.enumerate 0 [AX r, BX r, CX r, DX r, SI r, DI r, BP r, DS r, ES r, IP r, CS r, FLAGS r])"

definition ld_iregs :: "umem \<Rightarrow> far \<Rightarrow> iregs" where
  "ld_iregs m p =
     (let w = (\<lambda>i. ld16 m (far_add p (2 * i)))
      in \<lparr>AX = w 0, BX = w 1, CX = w 2, DX = w 3, SI = w 4, DI = w 5, DS = w 7, ES = w 8, BP = w 6, IP = w 9, CS = w 10, FLAGS = w 11\<rparr>)"

end
