(* ===== verification/Exec.thy ===== *)
theory Exec
  imports Dos_System
begin

text \<open>
  Loading and ending programs, the rest of \<^verbatim>\<open>kernel/task.c\<close>, and \<^verbatim>\<open>SetJFTSize\<close> of \<^verbatim>\<open>kernel/newstuff.c\<close>. The
  transfers take the fuel of \<^verbatim>\<open>DosRWSft\<close>. The header and the parameter block that the code keeps in
  \<^verbatim>\<open>SecPathName\<close> are values here.
\<close>

definition DE_INVLDENV :: int where "DE_INVLDENV = -10"
definition DE_INVLDFMT :: int where "DE_INVLDFMT = -11"
definition LOADNGO :: u8 where "LOADNGO = 0"
definition LOAD :: u8 where "LOAD = 1"
definition OVERLAY :: u8 where "OVERLAY = 3"
definition CHUNK :: u16 where "CHUNK = 32256"
definition MAXENV :: nat where "MAXENV = 32768"
definition ENV_KEEPFREE :: nat where "ENV_KEEPFREE = 0x83"
definition MAGIC :: u16 where "MAGIC = 0x5a4d"
definition OLD_MAGIC :: u16 where "OLD_MAGIC = 0x4d5a"
definition REM_PROCESS_END :: u16 where "REM_PROCESS_END = 0x1122"
definition REM_CLOSEALL :: u16 where "REM_CLOSEALL = 0x111d"

record exe_header =
  exSignature :: u16
  exExtraBytes :: u16
  exPages :: u16
  exRelocItems :: u16
  exHeaderSize :: u16
  exMinAlloc :: u16
  exMaxAlloc :: u16
  exInitSS :: u16
  exInitSP :: u16
  exCheckSum :: u16
  exInitIP :: u16
  exInitCS :: u16
  exRelocTable :: u16
  exOverlay :: u16

text \<open>Overlays use the first four bytes of the block: the segment to load to and the relocation factor.\<close>

record exec_blk =
  env_seg :: u16
  cmd_line :: far
  fcb_1 :: far
  fcb_2 :: far
  exec_stack :: far
  start_addr :: far

definition load_seg :: "exec_blk \<Rightarrow> u16" where "load_seg e = env_seg e"
definition load_reloc :: "exec_blk \<Rightarrow> u16" where "load_reloc e = snd (cmd_line e)"

definition ld_header :: "bytes \<Rightarrow> exe_header" where
  "ld_header b =
     (let w = (\<lambda>i. mk16 (b ! (2 * i)) (b ! (2 * i + 1)))
      in \<lparr>exSignature = w 0, exExtraBytes = w 1, exPages = w 2, exRelocItems = w 3, exHeaderSize = w 4, exMinAlloc = w 5,
          exMaxAlloc = w 6, exInitSS = w 7, exInitSP = w 8, exCheckSum = w 9, exInitIP = w 10, exInitCS = w 11,
          exRelocTable = w 12, exOverlay = w 13\<rparr>)"

definition ld_exec_blk :: "umem \<Rightarrow> far \<Rightarrow> exec_blk" where
  "ld_exec_blk m p =
     \<lparr>env_seg = ld16 m p, cmd_line = ld_far m (far_add p 2), fcb_1 = ld_far m (far_add p 6), fcb_2 = ld_far m (far_add p 10),
      exec_stack = ld_far m (far_add p 14), start_addr = ld_far m (far_add p 18)\<rparr>"

definition st_exec_blk :: "far \<Rightarrow> exec_blk \<Rightarrow> umem \<Rightarrow> umem" where
  "st_exec_blk p e m =
     st_far (far_add p 18) (start_addr e) (st_far (far_add p 14) (exec_stack e) (st_far (far_add p 10) (fcb_2 e)
       (st_far (far_add p 6) (fcb_1 e) (st_far (far_add p 2) (cmd_line e) (st16 p (env_seg e) m)))))"

section \<open>Program versions\<close>

definition toupper :: "u8 \<Rightarrow> u8" where
  "toupper c = (if 0x61 \<le> c \<and> c \<le> 0x7a then c + (0x41 - 0x61) else c)"

fun SetverCompareFilename :: "umem \<Rightarrow> far \<Rightarrow> far \<Rightarrow> nat \<Rightarrow> int" where
  "SetverCompareFilename m m1 m2 0 = 0"
| "SetverCompareFilename m m1 m2 (Suc c) =
     (if toupper (ld8 m m1) \<noteq> toupper (ld8 m m2) then sint (ld8 m m1) - sint (ld8 m m2)
      else SetverCompareFilename m (far_add m1 1) (far_add m2 1) c)"

text \<open>The length of an entry is a signed byte; one from 128 on would lead back.\<close>

definition far_move :: "far \<Rightarrow> int \<Rightarrow> far" where
  "far_move p d = (fst p, snd p + of_int d)"

partial_function (option) setver_search :: "umem \<Rightarrow> far \<Rightarrow> far \<Rightarrow> int \<Rightarrow> u16 option" where
  "setver_search m table name nlen =
     (let len = sint (ld8 m table) in
      if len = 0 then Some 0
      else if len = nlen \<and> SetverCompareFilename m name (far_add table 1) (nat len) = 0 then Some (ld16 m (far_move table (len + 1)))
      else setver_search m (far_move table (len + 3)) name nlen)"

definition SetverGetVersion :: "umem \<Rightarrow> far \<Rightarrow> far \<Rightarrow> u16 option" where
  "SetverGetVersion m table name =
     (if table \<noteq> (0, 0) \<and> name \<noteq> (0, 0) then setver_search m table name (int (length (ld_text m name))) else Some 0)"

section \<open>Memory for a program\<close>

definition access_mode :: "('c, 'd) dos \<Rightarrow> int" where
  "access_mode s = uint (mem_access_mode (mm s))"

definition set_access :: "u8 \<Rightarrow> ('c, 'd) dos \<Rightarrow> ('c, 'd) dos" where
  "set_access m s = s\<lparr>mm := (mm s)\<lparr>mem_access_mode := m\<rparr>\<rparr>"

definition int_of :: "(dos_error + 'a) \<Rightarrow> int" where
  "int_of r = (case r of Inl e \<Rightarrow> errno e | Inr _ \<Rightarrow> 0)"

definition mem_alloc :: "u16 \<Rightarrow> int \<Rightarrow> u16 option \<Rightarrow> ((dos_error + u16) \<times> u16 option, 'c, 'd) call" where
  "mem_alloc sz mode asize = on_mm (\<lambda>m. map_option (\<lambda>(r, a, m1). ((r, a), m1)) (DosMemAlloc sz mode asize m))"

definition mem_largest :: "(int \<times> u16, 'c, 'd) call" where
  "mem_largest = on_mm (\<lambda>m. map_option (\<lambda>(r, sz, m1). ((int_of r, sz), m1)) (DosMemLargest m))"

definition mem_free :: "u16 \<Rightarrow> (int, 'c, 'd) call" where
  "mem_free para = on_mm (\<lambda>m. case DosMemFree para m of (r, m1) \<Rightarrow> Some (int_of r, m1))"

definition umb_link :: "u16 \<Rightarrow> (unit, 'c, 'd) call" where
  "umb_link n s = on_mm (\<lambda>m. map_option (Pair ()) (DosUmbLink (uninit (ks (fe s))) n m)) s"

definition ExecMemLargest :: "u16 \<Rightarrow> (int \<times> u16, 'c, 'd) call" where
  "ExecMemLargest threshold s =
     andthen
       (if mem_access_mode (mm s) AND 0x80 \<noteq> 0 then
          (let s1 = set_access (mem_access_mode (mm s) AND NOT 0x80 OR 0x40) s in
           andthen (mem_largest s1) (\<lambda>(rc, asize) s2.
             let s3 = set_access (mem_access_mode (mm s2) AND NOT 0x40) s2 in
             andthen (if rc \<noteq> 0 \<or> asize < threshold then mem_largest s3 else ret (rc, asize) s3) (\<lambda>r s4.
               ret r (set_access (mem_access_mode (mm s4) OR 0x80) s4))))
        else mem_largest s)
       (\<lambda>(rc, asize). ret (if asize < threshold then errno DE_NOMEM else rc, asize))"

definition ExecMemAlloc :: "u16 \<Rightarrow> u16 \<Rightarrow> (int \<times> u16 \<times> u16, 'c, 'd) call" where
  "ExecMemAlloc sz asize s =
     andthen (mem_alloc sz (access_mode s) (Some asize) s) (\<lambda>(r, a) s1.
       andthen
         (case r of
            Inr para \<Rightarrow> ret (0, para, sz) s1
          | Inl e \<Rightarrow>
              if e \<noteq> DE_NOMEM then ret (errno e, 0, the a) s1
              else
                andthen (mem_alloc 0 LARGEST a s1) (\<lambda>(r1, a1) s2.
                  case r1 of
                    Inr para \<Rightarrow> ret (0, para, the a1) s2
                  | Inl e1 \<Rightarrow>
                      if mem_access_mode (mm s2) AND 0x80 = 0 then ret (errno e1, 0, the a1) s2
                      else
                        andthen (mem_alloc 0 LARGEST a1 (set_access (mem_access_mode (mm s2) AND NOT 0x80) s2)) (\<lambda>(r2, a2) s3.
                          ret (int_of r2, case r2 of Inr para \<Rightarrow> para | Inl _ \<Rightarrow> 0, the a2)
                            (set_access (mem_access_mode (mm s3) OR 0x80) s3))))
         (\<lambda>(rc, para, asize1) s4.
            if rc = 0 \<and> asize1 < sz then andthen (mem_free para s4) (\<lambda>_. ret (errno DE_NOMEM, para, asize1))
            else ret (rc, para, asize1) s4))"

text \<open>The length of the environment without its two NULs; the scan gives up after \<open>MAXENV - ENV_KEEPFREE\<close> bytes.\<close>

fun env_scan :: "umem \<Rightarrow> far \<Rightarrow> nat \<Rightarrow> nat \<Rightarrow> nat option" where
  "env_scan m p 0 n = None"
| "env_scan m p (Suc k) n = (if ld16 m (far_add p n) = 0 then Some n else env_scan m p k (n + 1))"

definition copy_env :: "far \<Rightarrow> nat \<Rightarrow> u16 \<Rightarrow> umem \<Rightarrow> umem" where
  "copy_env src n menv m =
     (let to = (menv + 1, 0) in
      st16 (far_add to n) 1 (st_bytes to (if fst src \<noteq> 0 then ld_bytes m src n else [0]) m))"

text \<open>The result has the segment of the control block of the environment, 0 when there is none.\<close>

definition ChildEnv :: "('c, 'd) outside \<Rightarrow> exec_blk \<Rightarrow> far \<Rightarrow> (int \<times> u16, 'c, 'd) call" where
  "ChildEnv ou ex pathname s =
     (let seg = (if env_seg ex \<noteq> 0 then env_seg ex else ps_environ (psp_at (this_psp s) s)); src = (seg, 0);
          scan = (if seg = 0 then Some 1 else map_option (\<lambda>n. n + 2) (env_scan (umem s) src (MAXENV - ENV_KEEPFREE) 0))
      in case scan of
           None \<Rightarrow> ret (DE_INVLDENV, 0) s
         | Some n \<Rightarrow>
             andthen (mem_alloc (of_nat (n + ENV_KEEPFREE + 15) div 16) (access_mode s) None s) (\<lambda>(r, _) s1.
               case r of
                 Inl e \<Rightarrow> ret (errno e, 0) s1
               | Inr menv \<Rightarrow>
                   andthen (sys_opt (primary_name ou (ld_text (umem s1) pathname) CDS_MODE_SKIP_PHYSICAL)
                              (upd_mem (copy_env src n menv) s1)) (\<lambda>r s2.
                     case r of
                       Inl e \<Rightarrow> ret (errno e, menv) s2
                     | Inr _ \<Rightarrow> ret (0, menv) (upd_mem (st_text (far_add (menv + 1, 0) (n + 2)) (PriPathName (fss s2))) s2))))"

section \<open>The program segment prefix\<close>

definition setver_now :: "('c, 'd) dos \<Rightarrow> u16" where
  "setver_now s = push_bit 8 (scast (os_setver_minor (dv s))) + scast (os_setver_major (dv s))"

definition make_child :: "u16 \<Rightarrow> u16 \<Rightarrow> ('c, 'd) dos \<Rightarrow> ('c, 'd) dos" where
  "make_child para psize s = upd_fs (child_psp (\<lambda>n. getvec n s) (setver_now s) para (this_psp s) psize) s"

text \<open>Where the last part of a path begins.\<close>

fun last_part :: "bytes \<Rightarrow> nat \<Rightarrow> nat \<Rightarrow> nat" where
  "last_part [] i best = best"
| "last_part (c # cs) i best = last_part cs (i + 1) (if c = colon \<or> c = 0x2f \<or> c = backslash then i + 1 else best)"

definition mcb_name :: "bytes \<Rightarrow> bytes \<Rightarrow> bytes" where
  "mcb_name name old =
     (let stem = map toupper (takeWhile (\<lambda>c. c \<noteq> dot) (take 8 name)); n = length stem
      in if n < 8 then stem @ [0] @ drop (n + 1) old else stem)"

definition fcb_drive_code :: "('c, 'd) fsys \<Rightarrow> bytes \<Rightarrow> u16 \<Rightarrow> u16" where
  "fcb_drive_code g f code = (if get_cds1 (unat (char_at f 0)) g \<noteq> None then 0 else code)"

definition fill_psp :: "umem \<Rightarrow> exec_blk \<Rightarrow> u16 \<Rightarrow> psp \<Rightarrow> psp" where
  "fill_psp m ex menv p =
     (let p1 = p\<lparr>ps_cmd := ld_bytes m (cmd_line ex) 128, ps_environ := menv\<rparr>
      in if snd (fcb_1 ex) \<noteq> 0xffff then p1\<lparr>ps_fcb1 := ld_bytes m (fcb_1 ex) 16, ps_fcb2 := ld_bytes m (fcb_2 ex) 16\<rparr> else p1)"

definition patchPSP :: "u16 \<Rightarrow> u16 \<Rightarrow> exec_blk \<Rightarrow> far \<Rightarrow> (u16, 'c, 'd) call" where
  "patchPSP mcbseg envseg ex fnam s =
     (let pspseg = mcbseg + 1; m = umem s; path = ld_text m fnam; k = last_part path 0 0;
          m1 = upd_mcb mcbseg (\<lambda>b. b\<lparr>m_psp := pspseg\<rparr>) (mm s);
          m2 = (if envseg \<noteq> 0 then upd_mcb envseg (\<lambda>b. b\<lparr>m_psp := pspseg\<rparr>) m1 else m1);
          m3 = upd_mcb mcbseg (\<lambda>b. b\<lparr>m_name := mcb_name (drop k path) (m_name b)\<rparr>) m2;
          menv = (if envseg \<noteq> 0 then envseg + 1 else envseg);
          s1 = upd_fs (upd_psp pspseg (fill_psp m ex menv)) (s\<lparr>mm := m3\<rparr>)
      in case SetverGetVersion m (setverPtr (dv s)) (far_add fnam k) of
           None \<Rightarrow> None
         | Some ver \<Rightarrow>
             (let s2 = (if ver \<noteq> 0 then upd_fs (upd_psp pspseg (\<lambda>p. p\<lparr>ps_retdosver := ver\<rparr>)) s1 else s1);
                  p = psp_at pspseg s2
              in ret (fcb_drive_code (fss s2) (ps_fcb1 p) 0xff OR fcb_drive_code (fss s2) (ps_fcb2 p) 0xff00) s2))"

section \<open>Control to the program\<close>

definition start_regs :: "u16 \<Rightarrow> exec_blk \<Rightarrow> u16 \<Rightarrow> iregs" where
  "start_regs seg ex code =
     \<lparr>AX = code, BX = code, CX = 0xff, DX = seg, SI = snd (start_addr ex), DI = snd (exec_stack ex), DS = seg, ES = seg,
      BP = 0x91e, IP = snd (start_addr ex), CS = fst (start_addr ex), FLAGS = 0x200\<rparr>"

definition leave_dos :: "('c, 'd) dos \<Rightarrow> ('c, 'd) dos" where
  "leave_dos = upd_ks (\<lambda>k. if InDOS k \<noteq> 0 then k\<lparr>InDOS := InDOS k - 1\<rparr> else k)"

definition load_transfer :: "u16 \<Rightarrow> exec_blk \<Rightarrow> u16 \<Rightarrow> u8 \<Rightarrow> (exec_blk, 'c, 'd) call" where
  "load_transfer seg ex code mode s =
     (let cur = this_psp s; at = user_r s;
          s1 = upd_fs (\<lambda>g. (upd_psp cur (\<lambda>q. q\<lparr>ps_stack := at\<rparr>) (upd_psp seg (\<lambda>p. p\<lparr>ps_parent := cur, ps_prevpsp := cur\<rparr>) g))\<lparr>fsys.cu_psp := seg\<rparr>) s;
          s2 = upd_mem (\<lambda>m. st16 (far_add at 22) (ld16 m (far_add at 22) AND NOT FLG_CARRY) m) s1;
          s3 = s2\<lparr>fe := (fe s2)\<lparr>dta := (seg, 0x80)\<rparr>\<rparr>
      in if mode = LOADNGO then
           (let irp = (fst (exec_stack ex), snd (exec_stack ex) - 24)
            in Some (Away (Exec_user irp True), leave_dos (upd_mem (st_iregs irp (start_regs seg ex code)) s3)))
         else
           (let ex1 = ex\<lparr>exec_stack := (fst (exec_stack ex), snd (exec_stack ex) - 2)\<rparr>
            in ret ex1 (upd_mem (st16 (exec_stack ex1) code) s3)))"

text \<open>The terminate address is the place after the caller's interrupt.\<close>

definition set_terminate :: "('c, 'd) dos \<Rightarrow> ('c, 'd) dos" where
  "set_terminate s = setvec 0x22 (ld16 (umem s) (far_add (user_r s) 20), ld16 (umem s) (far_add (user_r s) 18)) s"

section \<open>Loading\<close>

text \<open>The memory for a program and its environment, with the upper memory linked in for a high load.\<close>

definition begin_high :: "u8 \<Rightarrow> ('c, 'd) dos \<Rightarrow> (unit outcome \<times> ('c, 'd) dos) option" where
  "begin_high mode s =
     (if mode AND 0x80 \<noteq> 0 then umb_link 1 (set_access (mem_access_mode (mm s) OR 0x80) s) else ret () s)"

definition end_high :: "u8 \<Rightarrow> u8 \<Rightarrow> u8 \<Rightarrow> ('c, 'd) dos \<Rightarrow> (unit outcome \<times> ('c, 'd) dos) option" where
  "end_high mode link access s =
     (if mode AND 0x80 \<noteq> 0
      then andthen (umb_link (ucast link) s) (\<lambda>_ s1. ret () (set_access access s1))
      else ret () s)"

text \<open>\<open>want\<close> is what the program needs at least, \<open>pick\<close> what it gets of the largest area.\<close>

definition program_memory ::
  "('c, 'd) outside \<Rightarrow> exec_blk \<Rightarrow> u8 \<Rightarrow> far \<Rightarrow> u16 \<Rightarrow> (u16 \<Rightarrow> u16) \<Rightarrow> (int \<times> u16 \<times> u16 \<times> u16, 'c, 'd) call" where
  "program_memory ou ex mode namep want pick s =
     (let link = uppermem_link (mm s); access = mem_access_mode (mm s) in
      andthen (begin_high mode s) (\<lambda>_ s1.
        andthen (ChildEnv ou ex namep s1) (\<lambda>(rc, menv) s2.
          andthen (if rc = 0 then ExecMemLargest want s2 else ret (rc, 0) s2) (\<lambda>(rc, asize) s3.
            andthen (if rc = 0 then ExecMemAlloc (pick asize) asize s3 else ret (rc, 0, asize) s3) (\<lambda>(rc, para, asize) s4.
              andthen (if rc \<noteq> 0 then andthen (mem_free menv s4) (\<lambda>_. ret ()) else ret () s4) (\<lambda>_ s5.
                andthen (end_high mode link access s5) (\<lambda>_. ret (rc, para, asize, menv))))))))"

text \<open>What both loaders do at the end: the prefix of the child and control to it.\<close>

definition com_size :: "u32 \<Rightarrow> u16" where
  "com_size len = drop_bit 4 (ucast (min len 0xfe00)) + 0x10"

definition com_stack :: "u16 \<Rightarrow> u16" where
  "com_stack asize = push_bit 4 (asize - 0x11) + 0x10e"

definition com_start :: "u16 \<Rightarrow> u16 \<Rightarrow> exec_blk \<Rightarrow> u16 \<Rightarrow> u8 \<Rightarrow> (int \<times> exec_blk, 'c, 'd) call" where
  "com_start seg asize0 ex code mode s =
     (let asize = (if asize0 > 0x1000 then 0x1000 else asize0) in
      if asize < 0x11 then ret (errno DE_NOMEM, ex) s
      else
        (let a = asize - 0x11;
             s1 = upd_fs (upd_psp seg (\<lambda>p. p\<lparr>ps_reentry := (0xc - a, push_bit 4 a)\<rparr>)) s;
             ex1 = ex\<lparr>exec_stack := (seg, com_stack asize), start_addr := (seg, 0x100)\<rparr>
         in andthen (load_transfer seg ex1 code mode (upd_mem (st16 (exec_stack ex1) 0) s1)) (\<lambda>ex2. ret (0, ex2))))"

definition rewind_file :: "('c, 'd) outside \<Rightarrow> int \<Rightarrow> u32 \<Rightarrow> (int, 'c, 'd) call" where
  "rewind_file ou fd pos = sys (SftSeek ou fd pos 0)"

definition close_file :: "('c, 'd) outside \<Rightarrow> int \<Rightarrow> (int, 'c, 'd) call" where
  "close_file ou fd = sys_opt (DosCloseSft ou fd False)"

text \<open>
  For a high load of an overlay the flag stays in \<open>mode\<close>, and the file is loaded behind a prefix that is then made up
  with an environment nobody allocated: \<open>menv\<close> is what the variable holds.
\<close>

definition DosComLoader ::
  "('c, 'd) outside \<Rightarrow> nat \<Rightarrow> far \<Rightarrow> exec_blk \<Rightarrow> u8 \<Rightarrow> int \<Rightarrow> (int \<times> exec_blk, 'c, 'd) call" where
  "DosComLoader ou fuel namep ex mode0 fd s =
     andthen (sys (SftGetFsize fd) s) (\<lambda>len s1.
       andthen
         (if mode0 AND 0x7f \<noteq> OVERLAY then
            andthen (program_memory ou ex mode0 namep (com_size len) (\<lambda>a. a) s1) (\<lambda>(rc, para, asize, menv).
              ret (rc, para + 1, asize, menv, if mode0 AND 0x80 \<noteq> 0 then mode0 AND 0x7f else mode0))
          else ret (0, load_seg ex, 0, uninit (ks (fe s1)), mode0) s1)
         (\<lambda>(rc, seg, asize, menv, mode) s2.
            if rc \<noteq> 0 then ret (rc, ex) s2
            else
              andthen (rewind_file ou fd 0 s2) (\<lambda>_ s3.
                andthen (rw_far ou fuel fd (if mode = OVERLAY then 0xfffe else 0xff00) (seg, if mode = OVERLAY then 0 else 0x100) RD s3) (\<lambda>_ s4.
                  andthen (close_file ou fd s4) (\<lambda>_ s5.
                    if mode = OVERLAY then ret (0, ex) s5
                    else
                      andthen (patchPSP (seg - 1) menv ex namep (make_child seg (seg + asize) (set_terminate s5))) (\<lambda>code.
                        com_start seg asize ex code mode))))))"

text \<open>The image in pieces of \<open>CHUNK\<close> bytes; no image has more than 33 of them.\<close>

fun load_image :: "('c, 'd) outside \<Rightarrow> nat \<Rightarrow> int \<Rightarrow> nat \<Rightarrow> u16 \<Rightarrow> u16 \<Rightarrow> (unit, 'c, 'd) call" where
  "load_image ou fuel fd 0 seg paras s = None"
| "load_image ou fuel fd (Suc n) seg paras s =
     (let want = (if paras < CHUNK div 16 then paras * 16 else CHUNK) in
      andthen (rw_far ou fuel fd want (seg, 0) RD s) (\<lambda>got s1.
        if got < int (unat want) \<or> paras \<le> CHUNK div 16 then ret () s1
        else load_image ou fuel fd n (seg + CHUNK div 16) (paras - CHUNK div 16) s1))"

text \<open>The relocation entries: \<open>base\<close> is where they count from, \<open>delta\<close> what is added. False for a short read.\<close>

fun relocate :: "('c, 'd) outside \<Rightarrow> nat \<Rightarrow> int \<Rightarrow> u16 \<Rightarrow> u16 \<Rightarrow> nat \<Rightarrow> (bool, 'c, 'd) call" where
  "relocate ou fuel fd base delta 0 s = ret True s"
| "relocate ou fuel fd base delta (Suc n) s =
     andthen (con (DosRWSft ou fuel fd 4 near_data (replicate 4 0) RD) s) (\<lambda>(got, b) s1.
       if got \<noteq> 4 then ret False s1
       else
         (let spot = (mk16 (b ! 2) (b ! 3) + base, mk16 (b ! 0) (b ! 1))
          in relocate ou fuel fd base delta n (upd_mem (\<lambda>m. st16 spot (ld16 m spot + delta) m) s1)))"

definition free_both :: "bool \<Rightarrow> u16 \<Rightarrow> u16 \<Rightarrow> (unit, 'c, 'd) call" where
  "free_both own seg menv s =
     (if own then andthen (mem_free (seg - 1) s) (\<lambda>_ s1. andthen (mem_free menv s1) (\<lambda>_. ret ())) else ret () s)"

text \<open>Paragraphs of the image, with the prefix; what an EXE file gets of the largest area.\<close>

definition image_paras :: "exe_header \<Rightarrow> u16" where
  "image_paras h = push_bit 5 (exPages h) - exHeaderSize h"

definition exe_pick :: "exe_header \<Rightarrow> u16 \<Rightarrow> u16 \<Rightarrow> u16" where
  "exe_pick h img asize =
     (let want = img + exMaxAlloc h
      in if exMinAlloc h OR exMaxAlloc h = 0 then asize
         else if want > asize \<or> want < img then asize else want)"

text \<open>Where an image of \<open>img\<close> paragraphs, prefix included, goes: behind the prefix, or at the top of the block when the header asks for no memory at all.\<close>

definition start_segment :: "exe_header \<Rightarrow> u16 \<Rightarrow> u16 \<Rightarrow> mem_state \<Rightarrow> u16" where
  "start_segment h img seg m =
     (if img - 16 > 0 \<and> exMinAlloc h OR exMaxAlloc h = 0 then seg + 16 + (m_size (mem m (seg - 1)) - img)
      else seg + 16)"

definition exe_memory :: "('c, 'd) outside \<Rightarrow> exe_header \<Rightarrow> far \<Rightarrow> exec_blk \<Rightarrow> u8
    \<Rightarrow> (int \<times> u16 \<times> u16 \<times> u16 \<times> u8, 'c, 'd) call" where
  "exe_memory ou h namep ex mode s =
     (if mode AND 0x7f = OVERLAY then ret (0, load_seg ex, 0, uninit (ks (fe s)), mode) s
      else
        (let img = image_paras h + 16; least = img + exMinAlloc h
         in if least < img then ret (errno DE_NOMEM, 0, 0, 0, mode) s
            else
              andthen (program_memory ou ex mode namep least (exe_pick h img) s) (\<lambda>(rc, para, asize, menv).
                ret (rc, para + 1, asize, menv, mode AND 0x7f))))"

definition exe_start :: "exe_header \<Rightarrow> u16 \<Rightarrow> exec_blk \<Rightarrow> exec_blk" where
  "exe_start h seg ex = ex\<lparr>exec_stack := (exInitSS h + seg, exInitSP h), start_addr := (exInitCS h + seg, exInitIP h)\<rparr>"

definition DosExeLoader ::
  "('c, 'd) outside \<Rightarrow> nat \<Rightarrow> exe_header \<Rightarrow> far \<Rightarrow> exec_blk \<Rightarrow> u8 \<Rightarrow> int \<Rightarrow> (int \<times> exec_blk, 'c, 'd) call" where
  "DosExeLoader ou fuel h namep ex mode0 fd s =
     andthen (exe_memory ou h namep ex mode0 s) (\<lambda>(rc, seg, asize, menv, mode) s1.
       if rc \<noteq> 0 then ret (rc, ex) s1
       else
         (let own = mode \<noteq> OVERLAY; img = image_paras h + (if mode0 AND 0x7f \<noteq> OVERLAY then 16 else 0) in
          andthen (rewind_file ou fd (ucast (exHeaderSize h) * 16) s1) (\<lambda>rc s2.
            if rc \<noteq> 0 then andthen (free_both own seg menv s2) (\<lambda>_. ret (errno DE_INVLDDATA, ex))
            else
              (let start = (if own then start_segment h img seg (mm s2) else seg) in
               andthen (load_image ou fuel fd 33 start (if own then img - 16 else img) s2) (\<lambda>_ s3.
                 andthen (rewind_file ou fd (ucast (exRelocTable h)) s3) (\<lambda>_ s4.
                   andthen (relocate ou fuel fd (if own then start else seg) (if own then start else load_reloc ex) (unat (exRelocItems h)) s4)
                     (\<lambda>ok s5.
                        if \<not> ok then andthen (free_both own seg menv s5) (\<lambda>_. ret (errno DE_INVLDDATA, ex))
                        else
                          andthen (close_file ou fd s5) (\<lambda>_ s6.
                            if \<not> own then ret (0, ex) s6
                            else
                              andthen (patchPSP (seg - 1) menv ex namep (make_child seg (seg + asize) (set_terminate s6))) (\<lambda>code s7.
                                andthen (load_transfer seg (exe_start h start ex) code mode s7) (\<lambda>ex1. ret (0, ex1)))))))))))"

section \<open>Calls\<close>

definition exec_header :: "bytes \<Rightarrow> int \<Rightarrow> bool" where
  "exec_header b got \<longleftrightarrow> got = 28 \<and> (exSignature (ld_header b) = MAGIC \<or> exSignature (ld_header b) = OLD_MAGIC)"

definition DosExec :: "('c, 'd) outside \<Rightarrow> nat \<Rightarrow> u8 \<Rightarrow> far \<Rightarrow> far \<Rightarrow> (int, 'c, 'd) call" where
  "DosExec ou fuel mode ep lp s =
     (if mode AND 0x7f > 3 \<or> mode AND 0x7f = 2 then ret DE_INVLDFMT s
      else
        (let ex = ld_exec_blk (umem s) ep; name = ld_text (umem s) lp in
         andthen (sys (IsDevice ou name) s) (\<lambda>dhp s1.
           if dhp \<noteq> None then ret (errno DE_FILENOTFND) s1
           else
             andthen (sys_opt (DosOpenSft ou name (O_LEGACY OR O_OPEN OR O_RDONLY) 0) s1) (\<lambda>r s2.
               let fd = short_of r in
               if fd < 0 then ret (errno DE_FILENOTFND) s2
               else
                 andthen (con (DosRWSft ou fuel fd 28 near_data (replicate 28 0) RD) s2) (\<lambda>(got, b) s3.
                   andthen
                     (if exec_header b got then DosExeLoader ou fuel (ld_header b) lp ex mode fd s3
                      else if got \<noteq> 0 then DosComLoader ou fuel lp ex mode fd s3
                      else ret (DE_INVLDFMT, ex) s3)
                     (\<lambda>(rc, ex1) s4.
                        andthen (close_file ou fd s4) (\<lambda>_ s5.
                          ret rc (if mode = LOAD \<and> rc = 0 then upd_mem (st_exec_blk ep ex1) s5 else s5))))))))"

text \<open>The end of a process; \<open>uninit\<close> is what the local of \<^verbatim>\<open>DosUmbLink\<close> holds.\<close>

definition redirect :: "('c, 'd) outside \<Rightarrow> u16 \<Rightarrow> (int, 'c, 'd) call" where
  "redirect ou cmd = sys (redirector ou cmd NoArg)"

definition end_process :: "('c, 'd) outside \<Rightarrow> (unit, 'c, 'd) call" where
  "end_process ou s =
     (let p = psp_at (this_psp s) s in
      andthen (redirect ou REM_CLOSEALL s) (\<lambda>_ s1.
        andthen (sys_opt (\<lambda>g. map_option (Pair ()) (close_handles ou [0..<unat (ps_maxfiles p)] g)) s1) (\<lambda>_ s2.
          andthen (sys_opt (\<lambda>g. map_option (Pair ()) (FcbCloseAll ou (length (concat (sfthead g))) 0 g)) s2) (\<lambda>_ s3.
            andthen (on_mm (FreeProcessMem (uninit (ks (fe s3))) (uninit (ks (fe s3))) (this_psp s3)) s3) (\<lambda>_. ret ())))))"

definition return_user :: "('c, 'd) outside \<Rightarrow> ('a, 'c, 'd) call" where
  "return_user ou s =
     (let me = this_psp s; p = psp_at me s;
          s1 = setvec 0x24 (ps_isv24 p) (setvec 0x23 (ps_isv23 p) (setvec 0x22 (ps_isv22 p) s));
          s2 = upd_dv (\<lambda>d. d\<lparr>abort_progress := 0xff\<rparr>) s1
      in andthen (redirect ou REM_PROCESS_END s2) (\<lambda>_ s3.
           andthen (if term_type (dv s3) \<noteq> 3 \<and> ps_parent p \<noteq> me then end_process ou s3 else ret () s3) (\<lambda>_ s4.
             let p1 = psp_at me s4; parent = ps_parent p1;
                 s5 = upd_dv (\<lambda>d. d\<lparr>abort_progress := 0\<rparr>) (upd_fs (\<lambda>g. g\<lparr>fsys.cu_psp := parent\<rparr>) s4);
                 irp = ps_stack (psp_at parent s5);
                 s6 = upd_mem (st16 (far_add irp 22) 0x200 \<circ> st16 (far_add irp 18) (snd (ps_isv22 p1)) \<circ> st16 (far_add irp 20) (fst (ps_isv22 p1))) s5
             in Some (Away (Exec_user irp False), leave_dos s6))))"

text \<open>The shell: the command line is split at a tab or a blank; \<open>None\<close> would point before the line.\<close>

definition P_0_split :: "bytes \<Rightarrow> (bytes \<times> u8 \<times> bytes) option" where
  "P_0_split line =
     (let cut = (\<lambda>c. if c \<in> set line then Some (length (takeWhile (\<lambda>x. x \<noteq> c) line)) else None);
          at = (case cut 0x09 of Some i \<Rightarrow> Some i
                | None \<Rightarrow> (case cut blank of Some i \<Rightarrow> Some i
                          | None \<Rightarrow> if length line < 2 then None else Some (length line - 2)))
      in map_option (\<lambda>i. (take i line, of_int (int (length line) - int i - 2), drop i line)) at)"

text \<open>More handles than there are need a table of their own; fewer only set the count.\<close>

definition SetJFTSize :: "u16 \<Rightarrow> (int, 'c, 'd) call" where
  "SetJFTSize nHandles s =
     (let me = this_psp s; old = ps_maxfiles (psp_at me s) in
      if nHandles \<le> old then ret 0 (upd_fs (upd_psp me (\<lambda>p. p\<lparr>ps_maxfiles := nHandles\<rparr>)) s)
      else
        andthen (mem_alloc (drop_bit 4 (nHandles + 0xf)) (access_mode s) (Some 0) s) (\<lambda>(r, _) s1.
          case r of
            Inl _ \<Rightarrow> ret (errno DE_NOMEM) s1
          | Inr _ \<Rightarrow>
              ret 0 (upd_fs (upd_psp me (\<lambda>p. p\<lparr>ps_filetab := take (unat old) (ps_filetab p) @ replicate (unat (nHandles - old)) 0xff,
                       ps_maxfiles := nHandles\<rparr>)) s1)))"

end
