(* ===== verification/Ioctl.thy ===== *)
theory Ioctl
  imports Exec
begin

text \<open>
  Device control, \<^verbatim>\<open>kernel/ioctl.c\<close>, and the names of \<^verbatim>\<open>kernel/network.c\<close>. Drivers may read and write any memory
  through the address of a request, so a driver is a function on the whole state; together with the redirector calls
  that take registers it is a parameter.
\<close>

section \<open>The code outside the kernel\<close>

record ioctl_request = request +
  r_cat :: u8
  r_fun :: u8
  r_si :: u16
  r_di :: u16
  r_io :: far

datatype device = Char_device nat | Block_device nat

text \<open>Where the structures of the kernel lie that programs get the address of; the linker decides.\<close>

record places =
  dpb_place :: "nat \<Rightarrow> far"
  dpb_device_place :: "nat \<Rightarrow> far"
  dpb_next_place :: "nat \<Rightarrow> far"
  mdb_place :: far
  InDOS_place :: far
  DPBp_place :: far
  internal_data :: far
  swap_indos :: u16
  swap_always :: u16
  os_release :: far
  dbcs_place :: "nat \<Rightarrow> far"
  sft_place :: "sft_ptr \<Rightarrow> far"

text \<open>
  \<open>driver\<close> is \<^verbatim>\<open>execrh\<close> for these requests, \<open>net_regs\<close> is \<^verbatim>\<open>network_redirector_mx\<close> with a function, the registers and
  the caller's AX, \<open>net_intr\<close> is interrupt 2F with the caller's registers.
\<close>

record ('c, 'd) around =
  lay :: places
  outer :: "('c, 'd) outside"
  driver :: "device \<Rightarrow> ioctl_request \<Rightarrow> ('c, 'd) dos \<Rightarrow> ioctl_request \<times> ('c, 'd) dos"
  net_regs :: "u16 \<Rightarrow> u16 \<Rightarrow> lregs \<Rightarrow> ('c, 'd) dos \<Rightarrow> int \<times> lregs \<times> ('c, 'd) dos"
  net_intr :: "iregs \<Rightarrow> ('c, 'd) dos \<Rightarrow> iregs \<times> ('c, 'd) dos"

section \<open>Device control\<close>

definition C_IOCTLIN :: u8 where "C_IOCTLIN = 0x03"
definition C_IOCTLOUT :: u8 where "C_IOCTLOUT = 0x0c"
definition C_REMMEDIA :: u8 where "C_REMMEDIA = 0x0f"
definition C_GENIOCTL :: u8 where "C_GENIOCTL = 0x13"
definition C_GETLDEV :: u8 where "C_GETLDEV = 0x17"
definition C_SETLDEV :: u8 where "C_SETLDEV = 0x18"
definition C_IOCTLQRY :: u8 where "C_IOCTLQRY = 0x19"
definition ATTR_SUBST :: u16 where "ATTR_SUBST = 0x8000"
definition ATTR_IOCTL :: u16 where "ATTR_IOCTL = 0x4000"
definition ATTR_REMOTE :: u16 where "ATTR_REMOTE = 0x1000"
definition ATTR_EXCALLS :: u16 where "ATTR_EXCALLS = 0x0800"
definition ATTR_QRYIOCTL :: u16 where "ATTR_QRYIOCTL = 0x0080"
definition ATTR_GENIOCTL :: u16 where "ATTR_GENIOCTL = 0x0040"

definition ioctl_cmd :: "u8 list" where
  "ioctl_cmd = [0, 0, C_IOCTLIN, C_IOCTLOUT, C_IOCTLIN, C_IOCTLOUT, C_ISTAT, C_OSTAT, C_REMMEDIA, 0, 0, 0,
     C_GENIOCTL, C_GENIOCTL, C_GETLDEV, C_SETLDEV, C_IOCTLQRY, C_IOCTLQRY]"

text \<open>What the device must be able to do for the function.\<close>

definition needed_attr :: "u8 \<Rightarrow> u16" where
  "needed_attr al =
     (if al \<le> 0x05 then ATTR_IOCTL else if al \<le> 0x07 then 0xffff else if al \<le> 0x08 then ATTR_EXCALLS
      else if al \<le> 0x0f then ATTR_GENIOCTL else ATTR_QRYIOCTL)"

text \<open>\<^verbatim>\<open>Inl\<close> is the end of the call with its result and registers, \<^verbatim>\<open>Inr\<close> goes on with a request to a device.\<close>

type_synonym ioctl_step = "(int \<times> lregs) + (device \<times> u16 \<times> u8)"

definition char_ioctl :: "lregs \<Rightarrow> ('c, 'd) fsys \<Rightarrow> ioctl_step \<times> ('c, 'd) fsys" where
  "char_ioctl r g =
     (case get_sft (BX r) g of
        (None, g1) \<Rightarrow> (Inl (errno DE_INVLDHNDL, r), g1)
      | (Some q, g1) \<Rightarrow>
          (let t = sft_at q g1; flags = sft_flags t; al = AL r;
               attr = (case sft_dcb t of Dev k \<Rightarrow> dh_attr (dhdrs g1 ! k) | Dcb _ \<Rightarrow> 0)
           in if al = 0x00 then
                (let ax = (flags AND 0xff) OR (if flags AND SFT_FDEVICE \<noteq> 0 then attr AND 0xff00 else 0)
                 in (Inl (0, r\<lparr>AX := ax, DX := ax\<rparr>), g1))
              else if al = 0x01 then
                (if flags AND SFT_FDEVICE = 0 then (Inl (errno DE_INVLDFUNC, r), g1)
                 else if DH r \<noteq> 0 then (Inl (errno DE_INVLDDATA, r), g1)
                 else (Inl (0, set_AL (lo8 flags) r),
                       upd_sft q (\<lambda>t. t\<lparr>sft_flags := set_lo (lo8 SFT_FDEVICE OR DL r) (sft_flags t)\<rparr>) g1))
              else if al = 0x0a then (Inl (0, r\<lparr>DX := flags, AX := 0\<rparr>), g1)
              else if flags AND SFT_FDEVICE = 0 then
                (if al = 0x06 then (Inl (0, set_AL (if sft_posit t \<ge> sft_size t then 0 else 0xff) r), g1)
                 else if al = 0x07 then (Inl (0, set_AL 0 r), g1)
                 else (Inl (errno DE_INVLDFUNC, r), g1))
              else
                (Inr (case sft_dcb t of Dev k \<Rightarrow> Char_device k | Dcb p \<Rightarrow> Block_device p, attr, 0), g1)))"

text \<open>Without a parameter block only functions 8 and 9 go on; \<open>None\<close> would read through a null pointer.\<close>

definition block_ioctl :: "lregs \<Rightarrow> ('c, 'd) fsys \<Rightarrow> ioctl_step option" where
  "block_ioctl r g =
     (let al = AL r; drv = BL r AND 0x1f;
          dp = get_dpb (if drv = 0 then unat (default_drive g) else unat drv - 1) (fio g);
          d = map_option (dpbs (fio g)) dp;
          attr = (case d of None \<Rightarrow> ATTR_REMOTE | Some b \<Rightarrow> dpb_dh_attr b);
          flags = map_option (\<lambda>i. cdsFlags (cds_table (fio g) ! i)) (get_cds1 (unat drv) g);
          go_on = map_option (\<lambda>b. Inr (Block_device (dpb_device b), dpb_dh_attr b, dpb_subunit b)) d
      in if dp = None \<and> al \<noteq> 8 \<and> al \<noteq> 9 then Some (Inl (errno DE_INVLDDRV, r))
         else if al = 0x08 then
           (case flags of
              None \<Rightarrow> Some (Inl (errno DE_INVLDDRV, r))
            | Some f \<Rightarrow>
                if f AND CDSNETWDRV \<noteq> 0 then Some (Inl (errno DE_INVLDFUNC, r))
                else map_option (\<lambda>b. Inl (0, r\<lparr>AX := (if dpb_flags b = M_DONT_KNOW then 1 else 0)\<rparr>)) d)
         else if al = 0x09 then
           (case flags of
              None \<Rightarrow> Some (Inl (errno DE_INVLDDRV, r))
            | Some f \<Rightarrow> Some (Inl (0, r\<lparr>AX := S_DONE OR S_BUSY, DX := (if f AND CDSSUBST \<noteq> 0 then attr OR ATTR_SUBST else attr)\<rparr>)))
         else if al = 0x0d \<and> CX r AND NOT (0x486b - 0x084a) = 0x084a then Some (Inl (0, r\<lparr>AX := 0\<rparr>))
         else go_on)"

definition ioctl_header :: "lregs \<Rightarrow> u8 \<Rightarrow> request \<Rightarrow> ioctl_request" where
  "ioctl_header r unit hdr =
     (let al = AL r; generic = (al = 0x0c \<or> al = 0x0d \<or> al \<ge> 0x10)
      in \<lparr>r_length = 30, r_unit = unit, r_command = ioctl_cmd ! unat al, r_status = 0,
          r_count = (if generic then r_count hdr else CX r), r_ndbyte = r_ndbyte hdr, r_nunits = r_nunits hdr,
          r_cat = CH r, r_fun = CL r, r_si = SI r, r_di = DI r, r_io = DS_DX r\<rparr>)"

definition ioctl_result :: "lregs \<Rightarrow> ioctl_request \<Rightarrow> lregs" where
  "ioctl_result r q =
     (let al = AL r; busy = r_status q AND S_BUSY \<noteq> 0
      in if al \<le> 0x05 then r\<lparr>AX := r_count q\<rparr>
         else if al \<le> 0x07 then r\<lparr>AX := (if busy then 0 else 0x00ff)\<rparr>
         else if al = 0x08 then r\<lparr>AX := (if busy then 1 else 0)\<rparr>
         else if al = 0x0e \<or> al = 0x0f then set_AL (r_unit q) r
         else r\<lparr>AX := r_status q\<rparr>)"

definition ask_device :: "('c, 'd) around \<Rightarrow> lregs \<Rightarrow> device \<Rightarrow> u16 \<Rightarrow> u8 \<Rightarrow> (int \<times> lregs, 'c, 'd) call" where
  "ask_device A r k attr unit s =
     (if attr AND needed_attr (AL r) = 0 then ret (errno DE_INVLDFUNC, r) s
      else
        (case driver A k (ioctl_header r unit (CharReqHdr (chars (fss s)))) s of
           (q, s1) \<Rightarrow>
             (let s2 = upd_fs (\<lambda>g. g\<lparr>chars := (chars g)\<lparr>CharReqHdr := request.truncate q\<rparr>\<rparr>) s1
              in if r_status q AND S_ERROR \<noteq> 0
                 then ret (errno DE_ACCESS, r) (put_crit (uint ((r_status q AND S_MASK) + 0x13)) s2)
                 else ret (0, ioctl_result r q) s2)))"

definition DosDevIOctl :: "('c, 'd) around \<Rightarrow> lregs \<Rightarrow> (int \<times> lregs, 'c, 'd) call" where
  "DosDevIOctl A r s =
     (if AL r > 0x11 then ret (errno DE_INVLDFUNC, r) s
      else if AL r = 0x0b then
        ret (0, r) (upd_dv (\<lambda>d. d\<lparr>NetDelay := lo8 (CX r), NetRetry := (if DX r \<noteq> 0 then lo8 (DX r) else NetRetry d)\<rparr>) s)
      else
        andthen
          (if AL r \<in> set [0x00, 0x01, 0x02, 0x03, 0x06, 0x07, 0x0a, 0x0c, 0x10] then sys (char_ioctl r) s
           else case block_ioctl r (fss s) of None \<Rightarrow> None | Some x \<Rightarrow> ret x s)
          (\<lambda>x s1. case x of Inl y \<Rightarrow> ret y s1 | Inr (k, attr, unit) \<Rightarrow> ask_device A r k attr unit s1))"

section \<open>Names in the network\<close>

definition get_machine_name :: "far \<Rightarrow> ('c, 'd) dos \<Rightarrow> u16 \<times> ('c, 'd) dos" where
  "get_machine_name p s = (NetBios (dv s), upd_mem (st_bytes p (take 16 (net_name (dv s)))) s)"

definition set_machine_name :: "far \<Rightarrow> u16 \<Rightarrow> ('c, 'd) dos \<Rightarrow> ('c, 'd) dos" where
  "set_machine_name p num s =
     upd_dv (\<lambda>d. d\<lparr>NetBios := num, net_name := fmemcpy (net_name d) (ld_bytes (umem s) p 15) 15, net_set_count := net_set_count d + 1\<rparr>) s"

end
