(* ===== verification/Int21_Data.thy ===== *)
theory Int21_Data
  imports Ioctl
begin

text \<open>
  How the structures that programs hand over lie in memory: FCBs, the search state in the disk transfer area, the line
  buffer, parameter blocks, free space, and where the structures of the kernel lie that programs get the address of.
\<close>

section \<open>File control blocks\<close>

definition le32 :: "u32 \<Rightarrow> bytes" where
  "le32 w = [lo8 (ucast w), hi8 (ucast w), lo8 (ucast (drop_bit 16 w)), hi8 (ucast (drop_bit 16 w))]"

definition le16 :: "u16 \<Rightarrow> bytes" where
  "le16 w = [lo8 w, hi8 w]"

definition ld_fcb :: "umem \<Rightarrow> far \<Rightarrow> fcb" where
  "ld_fcb m p =
     (let a = far_add p
      in \<lparr>fcb_drive = ld8 m p, fcb_fname = ld_bytes m (a 1) 11, fcb_cublock = ld16 m (a 12), fcb_recsiz = ld16 m (a 14),
          fcb_fsize = ld32 m (a 16), fcb_date = ld16 m (a 20), fcb_time = ld16 m (a 22), fcb_sftno = ld8 m (a 24),
          fcb_strtclst = ld16 m (a 27), fcb_dirclst = ld16 m (a 29), fcb_curec = ld8 m (a 32), fcb_rndm = ld32 m (a 33)\<rparr>)"

text \<open>The bytes at 25, 26 and 31 are not touched.\<close>

definition st_fcb :: "far \<Rightarrow> fcb \<Rightarrow> umem \<Rightarrow> umem" where
  "st_fcb p f m =
     st_bytes (far_add p 32) ([fcb_curec f] @ le32 (fcb_rndm f))
       (st_bytes (far_add p 27) (le16 (fcb_strtclst f) @ le16 (fcb_dirclst f))
         (st_bytes p ([fcb_drive f] @ fcb_fname f @ le16 (fcb_cublock f) @ le16 (fcb_recsiz f) @ le32 (fcb_fsize f)
            @ le16 (fcb_date f) @ le16 (fcb_time f) @ [fcb_sftno f]) m))"

definition is_extended :: "umem \<Rightarrow> far \<Rightarrow> bool" where
  "is_extended m p \<longleftrightarrow> ld8 m p = 0xff"

text \<open>\<^verbatim>\<open>ExtFcbToFcb\<close>: where the FCB itself lies.\<close>

definition ExtFcbToFcb :: "umem \<Rightarrow> far \<Rightarrow> far" where
  "ExtFcbToFcb m p = (if is_extended m p then far_add p 7 else p)"

definition ld_ext :: "umem \<Rightarrow> far \<Rightarrow> (bytes \<times> u8) option" where
  "ld_ext m p = (if is_extended m p then Some (ld_bytes m (far_add p 1) 5, ld8 m (far_add p 6)) else None)"

definition ld_xfcb :: "umem \<Rightarrow> far \<Rightarrow> xfcb" where
  "ld_xfcb m p = \<lparr>xf_ext = ld_ext m p, xf_fcb = ld_fcb m (ExtFcbToFcb m p)\<rparr>"

definition ld_rfcb :: "umem \<Rightarrow> far \<Rightarrow> rfcb" where
  "ld_rfcb m p =
     (let q = ExtFcbToFcb m p
      in \<lparr>ren_ext = ld_ext m p, ren_drive = ld8 m q, ren_old = ld_bytes m (far_add q 1) 11, ren_new = ld_bytes m (far_add q 17) 11\<rparr>)"

section \<open>Searches and lines\<close>

definition ld_dmatch :: "umem \<Rightarrow> far \<Rightarrow> dmatch" where
  "ld_dmatch m p =
     \<lparr>dm_drive = ld8 m p, dm_name_pat = ld_bytes m (far_add p 1) 11, dm_attr_srch = ld8 m (far_add p 12),
      dm_entry = ld16 m (far_add p 13), dm_dircluster = ld32 m (far_add p 15)\<rparr>"

definition st_found :: "far \<Rightarrow> find_data \<Rightarrow> umem \<Rightarrow> umem" where
  "st_found p d m =
     (let k = fd_match d
      in st_bytes (far_add p 21) ([dm_attr_fnd d] @ le16 (dm_time d) @ le16 (dm_date d) @ le32 (dm_size d) @ dm_name d @ [0])
           (st_bytes p ([dm_drive k] @ dm_name_pat k @ [dm_attr_srch k] @ le16 (dm_entry k) @ le32 (dm_dircluster k)) m))"

text \<open>A line buffer has its size, the count of the line it holds, and the text.\<close>

definition ld_keyboard :: "umem \<Rightarrow> far \<Rightarrow> keyboard" where
  "ld_keyboard m p = \<lparr>kb_size = ld8 m p, kb_count = ld8 m (far_add p 1), kb_buf = ld_bytes m (far_add p 2) 256\<rparr>"

definition st_keyboard :: "far \<Rightarrow> keyboard \<Rightarrow> umem \<Rightarrow> umem" where
  "st_keyboard p k m = st_bytes p ([kb_size k, kb_count k] @ kb_buf k) m"

section \<open>Drives\<close>

definition ld_bpb :: "umem \<Rightarrow> far \<Rightarrow> bpb" where
  "ld_bpb m p =
     (let a = far_add p
      in \<lparr>bpb_nbyte = ld16 m p, bpb_nsector = ld8 m (a 2), bpb_nreserved = ld16 m (a 3), bpb_nfat = ld8 m (a 5),
          bpb_ndirent = ld16 m (a 6), bpb_nsize = ld16 m (a 8), bpb_mdesc = ld8 m (a 10), bpb_nfsect = ld16 m (a 11),
          bpb_nsecs = ld16 m (a 13), bpb_nheads = ld16 m (a 15), bpb_hidden = ld32 m (a 17), bpb_huge = ld32 m (a 21),
          bpb_xnfsect = ld32 m (a 25), bpb_xflags = ld16 m (a 29), bpb_xfsversion = ld16 m (a 31),
          bpb_xrootclst = ld32 m (a 33), bpb_xfsinfosec = ld16 m (a 37), bpb_xbackupsec = ld16 m (a 39)\<rparr>)"

text \<open>A drive parameter block in memory.\<close>

definition le_far :: "far \<Rightarrow> bytes" where
  "le_far p = le16 (snd p) @ le16 (fst p)"

definition dpb_bytes :: "places \<Rightarrow> nat \<Rightarrow> dpb \<Rightarrow> bytes" where
  "dpb_bytes L p d =
     [dpb_unit d, dpb_subunit d] @ le16 (dpb_secsize d) @ [dpb_clsmask d, dpb_shftcnt d] @ le16 (dpb_fatstrt d) @ [dpb_fats d]
     @ le16 (dpb_dirents d) @ le16 (dpb_data d) @ le16 (dpb_size d) @ le16 (dpb_fatsize d) @ le16 (dpb_dirstrt d)
     @ le_far (dpb_device_place L p) @ [dpb_mdb d, dpb_flags d] @ le_far (dpb_next_place L p) @ le16 (dpb_cluster d)
     @ le32 (dpb_xnfreeclst d) @ le16 (dpb_xflags d) @ le16 (dpb_xfsinfosec d) @ le16 (dpb_xbackupsec d) @ le32 (dpb_xdata d)
     @ le32 (dpb_xsize d) @ le32 (dpb_xfatsize d) @ le32 (dpb_xrootclst d) @ le32 (dpb_xcluster d)"

lemma length_le [simp]: "length (le16 w) = 2" "length (le32 v) = 4" "length (le_far p) = 4"
  by (simp_all add: le16_def le32_def le_far_def)

text \<open>The 61 bytes of the block.\<close>

lemma length_dpb_bytes: "length (dpb_bytes L p d) = 61"
  by (simp add: dpb_bytes_def)

definition freespace_bytes :: "xfreespace \<Rightarrow> bytes" where
  "freespace_bytes x =
     concat (map le32 [xfs_clussize x, xfs_secsize x, xfs_freeclusters x, xfs_totalclusters x, xfs_freesectors x,
       xfs_totalsectors x, xfs_freeunits x, xfs_totalunits x])"

end
