(* ===== verification/Int21.thy ===== *)
theory Int21
  imports Int21_Data
begin

text \<open>
  The functions of interrupt 21, \<^verbatim>\<open>int21_service\<close> of \<^verbatim>\<open>kernel/inthndlr.c\<close>, in groups. A group takes the local copy of
  the registers and returns it with the label the code jumps to at the end.
\<close>

datatype label =
  Exit_dispatch | Short_check int | Long_check int | Error_invalid | Error_exit int | Error_carry | Unsupp | Real_exit | Dispatch

type_synonym ('c, 'd) handler = "lregs \<Rightarrow> (label \<times> lregs, 'c, 'd) call"

definition leave :: "lregs \<Rightarrow> (label \<times> lregs, 'c, 'd) call" where
  "leave r = ret (Exit_dispatch, r)"

definition to :: "label \<Rightarrow> lregs \<Rightarrow> (label \<times> lregs, 'c, 'd) call" where
  "to l r = ret (l, r)"

text \<open>The frame of the caller's registers.\<close>

definition caller_regs :: "('c, 'd) dos \<Rightarrow> iregs" where
  "caller_regs s = ld_iregs (umem s) (user_r s)"

definition set_flag :: "u16 \<Rightarrow> bool \<Rightarrow> ('c, 'd) dos \<Rightarrow> ('c, 'd) dos" where
  "set_flag f on s =
     (let p = far_add (user_r s) 22; w = ld16 (umem s) p
      in upd_mem (st16 p (if on then w OR f else w AND NOT f)) s)"

section \<open>Characters\<close>

definition rw :: "('c, 'd) around \<Rightarrow> nat \<Rightarrow> ('c, 'd) rw_fn" where
  "rw A fuel = DosRWSft (outer A) fuel"

definition cw :: "('c, 'd) around \<Rightarrow> nat \<Rightarrow> ('c, 'd) cooked_fn" where
  "cw A fuel = cooked_write (outer A) fuel"

definition put_stdout :: "('c, 'd) around \<Rightarrow> nat \<Rightarrow> u8 \<Rightarrow> (unit, 'c, 'd) call" where
  "put_stdout A fuel c = con (write_char_stdout (rw A fuel) c)"

definition get_stdin :: "('c, 'd) around \<Rightarrow> nat \<Rightarrow> bool \<Rightarrow> (u8, 'c, 'd) call" where
  "get_stdin A fuel check = con (read_char_stdin (outer A) fuel check)"

definition std_entry :: "u16 \<Rightarrow> ('c, 'd) dos \<Rightarrow> int" where
  "std_entry h s = get_sft_idx h (fss s)"

definition STDAUX :: u16 where "STDAUX = 3"

definition stdin_busy :: "('c, 'd) around \<Rightarrow> (bool, 'c, 'd) call" where
  "stdin_busy A = con (\<lambda>k. map_option (\<lambda>(b, k1). (Ret b, k1)) (StdinBusy (outer A) k))"

definition DOS_01 :: "('c, 'd) around \<Rightarrow> nat \<Rightarrow> ('c, 'd) handler" where
  "DOS_01 A fuel r s = andthen (get_stdin A fuel True s) (\<lambda>c s1. andthen (put_stdout A fuel c s1) (\<lambda>_. leave (set_AL c r)))"

definition DOS_02 :: "('c, 'd) around \<Rightarrow> nat \<Rightarrow> ('c, 'd) handler" where
  "DOS_02 A fuel r s = andthen (put_stdout A fuel (DL r) s) (\<lambda>_. leave (set_AL (DL r) r))"

definition DOS_07 :: "('c, 'd) around \<Rightarrow> nat \<Rightarrow> ('c, 'd) handler" where
  "DOS_07 A fuel r s = andthen (get_stdin A fuel False s) (\<lambda>c. leave (set_AL c r))"

definition DOS_08 :: "('c, 'd) around \<Rightarrow> nat \<Rightarrow> ('c, 'd) handler" where
  "DOS_08 A fuel r s = andthen (get_stdin A fuel True s) (\<lambda>c. leave (set_AL c r))"

definition DOS_06 :: "('c, 'd) around \<Rightarrow> nat \<Rightarrow> ('c, 'd) handler" where
  "DOS_06 A fuel r s =
     (if DL r \<noteq> 0xff then DOS_02 A fuel r s
      else
        andthen (stdin_busy A (set_flag FLG_ZERO True s)) (\<lambda>busy s1.
          if busy then leave (set_AL 0 r) s1 else DOS_07 A fuel (set_AL 0 r) (set_flag FLG_ZERO False s1)))"

definition DOS_0A :: "('c, 'd) around \<Rightarrow> nat \<Rightarrow> ('c, 'd) handler" where
  "DOS_0A A fuel r s =
     (let i = std_entry STDIN s; out = std_entry STDOUT s; p = DS_DX r in
      andthen (con (read_line (rw A fuel) (read_char (outer A) (cw A fuel) (rw A fuel) fuel i out True) out fuel (ld_keyboard (umem s) p)) s)
        (\<lambda>kp s1. leave r (upd_mem (st_keyboard p kp) s1)))"

text \<open>The text of function 9 ends with a dollar sign; \<open>n\<close> bounds the segment.\<close>

fun display_string :: "('c, 'd) around \<Rightarrow> nat \<Rightarrow> nat \<Rightarrow> far \<Rightarrow> (unit, 'c, 'd) call" where
  "display_string A fuel 0 p s = None"
| "display_string A fuel (Suc n) p s =
     (let c = ld8 (umem s) p in
      if c = 0x24 then ret () s
      else andthen (put_stdout A fuel c s) (\<lambda>_. display_string A fuel n (far_add p 1)))"

definition flush_stdin :: "('c, 'd) around \<Rightarrow> (unit, 'c, 'd) call" where
  "flush_stdin A s =
     andthen (sys (get_sft STDIN) s) (\<lambda>q s1.
       case sft_to_dev q (ks (fe s1)) of
         None \<Rightarrow> ret () s1
       | Some k \<Rightarrow> con (\<lambda>k1. case on_chars (\<lambda>ch. ((), con_flush (char_drv (outer A) k) ch)) k1 of (_, k2) \<Rightarrow> ret () k2) s1)"

definition int21_char :: "('c, 'd) around \<Rightarrow> nat \<Rightarrow> ('c, 'd) handler" where
  "int21_char A fuel r s =
     (let ah = AH r; f = rw A fuel in
      if ah = 0x01 then DOS_01 A fuel r s
      else if ah = 0x02 then DOS_02 A fuel r s
      else if ah = 0x03 then
        (let i = std_entry STDAUX s
         in andthen (con (read_char (outer A) (cw A fuel) f fuel i i True) s) (\<lambda>c. leave (set_AL c r)))
      else if ah = 0x04 then andthen (con (write_char f (DL r) (std_entry STDAUX s)) s) (\<lambda>_. leave r)
      else if ah = 0x05 then andthen (con (write_char f (DL r) (std_entry STDPRN s)) s) (\<lambda>_. leave r)
      else if ah = 0x06 then DOS_06 A fuel r s
      else if ah = 0x07 then DOS_07 A fuel r s
      else if ah = 0x08 then DOS_08 A fuel r s
      else if ah = 0x09 then andthen (display_string A fuel 65536 (DS_DX r) s) (\<lambda>_. leave (set_AL 0x24 r))
      else if ah = 0x0a then DOS_0A A fuel r s
      else if ah = 0x0b then andthen (stdin_busy A s) (\<lambda>busy. leave (set_AL (if busy then 0 else 0xff) r))
      else
        andthen (flush_stdin A s) (\<lambda>_.
          let al = AL r in
          if al = 0x01 then DOS_01 A fuel r
          else if al = 0x06 then DOS_06 A fuel r
          else if al = 0x07 then DOS_07 A fuel r
          else if al = 0x08 then DOS_08 A fuel r
          else if al = 0x0a then DOS_0A A fuel r
          else leave (set_AL 0 r)))"

section \<open>File control blocks\<close>

text \<open>A call on the FCB the registers point to; the FCB is stored back.\<close>

definition with_fcb :: "(fcb \<Rightarrow> ('c, 'd) fcb_env \<Rightarrow> ((u8 \<times> fcb) outcome \<times> ('c, 'd) fcb_env) option) \<Rightarrow> lregs \<Rightarrow> (u8, 'c, 'd) call" where
  "with_fcb f r s =
     (let p = ExtFcbToFcb (umem s) (DS_DX r) in
      andthen (on_dta (f (ld_fcb (umem s) p)) s) (\<lambda>(al, x) s1. ret al (upd_mem (st_fcb p x) s1)))"

definition with_xfcb :: "(xfcb \<Rightarrow> ('c, 'd) fcb_env \<Rightarrow> ((u8 \<times> xfcb) outcome \<times> ('c, 'd) fcb_env) option) \<Rightarrow> lregs \<Rightarrow> (u8, 'c, 'd) call" where
  "with_xfcb f r s =
     (let p = ExtFcbToFcb (umem s) (DS_DX r) in
      andthen (on_dta (f (ld_xfcb (umem s) (DS_DX r))) s) (\<lambda>(al, x) s1. ret al (upd_mem (st_fcb p (xf_fcb x)) s1)))"

definition give_AL :: "lregs \<Rightarrow> (u8, 'c, 'd) call \<Rightarrow> (label \<times> lregs, 'c, 'd) call" where
  "give_AL r m s = andthen (m s) (\<lambda>al. leave (set_AL al r))"

definition parse_fcb :: "('c, 'd) around \<Rightarrow> ('c, 'd) handler" where
  "parse_fcb A r s =
     (let text = ld_text (umem s) (DS_SI r); p = ES_DI r in
      andthen (sys (FcbParseFname (outer A) (AL r) text (ld_fcb (umem s) p)) s) (\<lambda>(rest, mode, f) s1.
        leave (set_AL mode (r\<lparr>SI := SI r + of_nat (length text - length rest)\<rparr>)) (upd_mem (st_fcb p f) s1)))"

text \<open>\<open>n\<close> bounds the files a pattern names.\<close>

definition int21_fcb :: "('c, 'd) around \<Rightarrow> nat \<Rightarrow> nat \<Rightarrow> ('c, 'd) handler" where
  "int21_fcb A fuel n r s =
     (let ah = AH r; o1 = outer A; block = (\<lambda>mode.
            let p = ExtFcbToFcb (umem s) (DS_DX r) in
            andthen (on_dta (FcbRandomBlockIO o1 fuel (ld_fcb (umem s) p) (CX r) mode) s) (\<lambda>(al, cnt, f) s1.
              leave (set_AL al (r\<lparr>CX := cnt\<rparr>)) (upd_mem (st_fcb p f) s1)))
      in
      if ah = 0x0f then give_AL r (with_xfcb (\<lambda>x. FcbOpen o1 x (O_FCB OR O_LEGACY OR O_OPEN OR O_RDWR)) r) s
      else if ah = 0x10 then give_AL r (with_fcb (FcbClose o1) r) s
      else if ah = 0x11 then give_AL r (with_xfcb (\<lambda>x. FcbFindFirstNext o1 x True) r) s
      else if ah = 0x12 then give_AL r (with_xfcb (\<lambda>x. FcbFindFirstNext o1 x False) r) s
      else if ah = 0x13 then give_AL r (on_env (FcbDelete o1 n (ld_xfcb (umem s) (DS_DX r)))) s
      else if ah = 0x14 then give_AL r (with_fcb (\<lambda>f. FcbReadWrite o1 fuel f 1 RD False) r) s
      else if ah = 0x15 then give_AL r (with_fcb (\<lambda>f. FcbReadWrite o1 fuel f 1 WR False) r) s
      else if ah = 0x16 then give_AL r (with_xfcb (\<lambda>x. FcbOpen o1 x (O_FCB OR O_LEGACY OR O_CREAT OR O_TRUNC OR O_RDWR)) r) s
      else if ah = 0x17 then give_AL r (on_env (FcbRename o1 n (ld_rfcb (umem s) (DS_DX r)))) s
      else if ah = 0x21 then give_AL r (with_fcb (\<lambda>f. FcbRandomIO o1 fuel f RD) r) s
      else if ah = 0x22 then give_AL r (with_fcb (\<lambda>f. FcbRandomIO o1 fuel f WR) r) s
      else if ah = 0x23 then give_AL r (with_fcb (FcbGetFileSize o1) r) s
      else if ah = 0x24 then
        (let p = ExtFcbToFcb (umem s) (DS_DX r) in leave r (upd_mem (\<lambda>m. st_fcb p (FcbSetRandom (ld_fcb m p)) m) s))
      else if ah = 0x27 then block RD
      else if ah = 0x28 then block WR
      else parse_fcb A r s)"

section \<open>Drives, the transfer area, switches\<close>

text \<open>Flushes a drive, forgets what is known of it and asks its driver; whether the drive is there.\<close>

definition reread :: "('c, 'd) around \<Rightarrow> nat \<Rightarrow> (bool, 'c, 'd) call" where
  "reread A p =
     sys_opt (\<lambda>g. do {
       (_, e) \<leftarrow> flush_buffers (blk_drv (outer A)) (dpb_unit (dpbs (fio g) p)) (fio g);
       drive_media (outer A) (Some p) (g\<lparr>fio := upd_dpb p (\<lambda>d. d\<lparr>dpb_flags := M_CHANGED\<rparr>) e\<rparr>)
     })"

definition get_dpb_call :: "('c, 'd) around \<Rightarrow> ('c, 'd) handler" where
  "get_dpb_call A r s =
     (let g = fss s; failed = (\<lambda>s. leave (set_AL 0xff r) (put_crit (- errno DE_INVLDDRV) s)) in
      case get_dpb (if DL r = 0 \<or> AH r = 0x1f then unat (default_drive g) else unat (DL r) - 1) (fio g) of
        None \<Rightarrow> failed s
      | Some p \<Rightarrow>
          andthen (reread A p s) (\<lambda>ok s1.
            if \<not> ok \<or> ISFAT32 (dpbs (fio (fss s1)) p) then failed s1
            else leave (set_AL 0 (r\<lparr>DS := fst (dpb_place (lay A) p), BX := snd (dpb_place (lay A) p)\<rparr>)) s1))"

definition drive_data :: "('c, 'd) around \<Rightarrow> ('c, 'd) handler" where
  "drive_data A r0 s =
     (let r = (if AH r0 = 0x1b then set_DL 0 r0 else r0); drive = DL r in
      andthen (sys_opt (FatGetDrvData (outer A) drive) s) (\<lambda>x s1.
        let g = fss s1 in
        case x of
          None \<Rightarrow> leave (set_AL 0xff r) s1
        | Some (spc, bps, nc, _) \<Rightarrow>
            (let p = (case get_dpb (unat (if drive = 0 then default_drive g else drive - 1)) (fio g) of
                        None \<Rightarrow> mdb_place (lay A) | Some d \<Rightarrow> far_add (dpb_place (lay A) d) 23)
             in leave (set_AL spc (r\<lparr>CX := bps, DX := nc, DS := fst p, BX := snd p\<rparr>)) s1)))"

definition free_space :: "('c, 'd) around \<Rightarrow> ('c, 'd) handler" where
  "free_space A r s =
     andthen (sys_opt (\<lambda>g. map_option (\<lambda>(spc, x, g1). ((spc, x), g1)) (DosGetFree (outer A) (DL r) True g)) s) (\<lambda>(spc, x).
       leave (case x of None \<Rightarrow> r\<lparr>AX := spc\<rparr> | Some (navc, bps, nc) \<Rightarrow> r\<lparr>AX := spc, BX := navc, CX := bps, DX := nc\<rparr>))"

definition int21_drive :: "('c, 'd) around \<Rightarrow> ('c, 'd) handler" where
  "int21_drive A r s =
     (let ah = AH r in
      if ah = 0x0d then andthen (sys_opt (\<lambda>g. map_option (\<lambda>(_, e). ((), g\<lparr>fio := e\<rparr>)) (flush (blk_drv (outer A)) (fio g))) s) (\<lambda>_. leave r)
      else if ah = 0x0e then andthen (sys (DosSelectDrv (DL r)) s) (\<lambda>n. leave (set_AL (of_nat n) r))
      else if ah = 0x19 then leave (set_AL (default_drive (fss s)) r) s
      else if ah = 0x1a then leave r (s\<lparr>fe := (fe s)\<lparr>dta := DS_DX r\<rparr>\<rparr>)
      else if ah = 0x1b \<or> ah = 0x1c then drive_data A r s
      else if ah = 0x1f \<or> ah = 0x32 then get_dpb_call A r s
      else if ah = 0x2e then leave r (upd_fs (\<lambda>g. g\<lparr>fio := (fio g)\<lparr>verify_ena := (AL r AND 1 = 1)\<rparr>\<rparr>) s)
      else if ah = 0x2f then leave (r\<lparr>BX := snd (dta (fe s)), ES := fst (dta (fe s))\<rparr>) s
      else if ah = 0x34 then leave (r\<lparr>BX := snd (InDOS_place (lay A)), ES := fst (InDOS_place (lay A))\<rparr>) s
      else if ah = 0x36 then free_space A r s
      else if ah = 0x37 then
        (if AL r = 0 then leave (set_AL 0 (set_DL (switchar (dv s)) r)) s
         else if AL r = 1 then leave (set_AL 0 r) (upd_dv (\<lambda>d. d\<lparr>switchar := DL r\<rparr>) s)
         else to Error_invalid r s)
      else if ah = 0x52 then leave (r\<lparr>BX := snd (DPBp_place (lay A)), ES := fst (DPBp_place (lay A))\<rparr>) s
      else leave (set_AL (if verify_ena (fio (fss s)) then 1 else 0) r) s)"

section \<open>Date, time and version\<close>

definition on_time :: "('c time_state \<Rightarrow> ('a \<times> 'c time_state) option) \<Rightarrow> ('a, 'c, 'd) call" where
  "on_time f s =
     (let t = \<lparr>env = (chars (fss s))\<lparr>CritErrCode := crit_code s\<rparr>, ClkRecord = clk_record s, ClkReqHdr_status = clk_status s\<rparr>
      in map_option (\<lambda>(x, t1).
           (Ret x, put_crit (uint (CritErrCode (env t1)))
              ((upd_fs (\<lambda>g. g\<lparr>chars := env t1\<rparr>) s)\<lparr>clk_record := ClkRecord t1, clk_status := ClkReqHdr_status t1\<rparr>))) (f t))"

text \<open>The setters return what the critical error handler answered; the first answer, to go on, counts as success.\<close>

definition clk_done :: "dos_error + crit_answer option \<Rightarrow> bool" where
  "clk_done r \<longleftrightarrow> r = Inr None \<or> r = Inr (Some CONTINUE)"

definition ld_date :: "lregs \<Rightarrow> dosdate" where
  "ld_date r = \<lparr>year = CX r, monthday = DL r, month = DH r\<rparr>"

definition ld_time :: "lregs \<Rightarrow> dostime" where
  "ld_time r = \<lparr>minute = CL r, hour = CH r, hundredth = DL r, second = DH r\<rparr>"

definition int21_time :: "('c, 'd) around \<Rightarrow> ('c, 'd) handler" where
  "int21_time A r s =
     (let ah = AH r; drv = char_drv (outer A) (clock s); done = (\<lambda>x. leave (set_AL (if clk_done x then 0 else 0xff) r)) in
      if ah = 0x2a then
        andthen (on_time (\<lambda>t. map_option (\<lambda>(w, d, t1). ((w, d), t1)) (DosGetDate drv (ld_date r) t)) s) (\<lambda>(w, d).
          leave (set_AL w (r\<lparr>CX := year d, DX := mk16 (monthday d) (month d)\<rparr>)))
      else if ah = 0x2b then andthen (on_time (\<lambda>t. Some (DosSetDate drv (ld_date r) t)) s) done
      else if ah = 0x2c then
        andthen (on_time (\<lambda>t. Some (DosGetTime drv (ld_time r) t)) s) (\<lambda>d.
          leave (r\<lparr>CX := mk16 (minute d) (hour d), DX := mk16 (hundredth d) (second d)\<rparr>))
      else andthen (on_time (\<lambda>t. Some (DosSetTime drv (ld_time r) t)) s) done)"

definition REVISION_SEQ :: u8 where "REVISION_SEQ = 46"

text \<open>A program that compares the version with a constant right after the call gets that constant, if so configured.\<close>

definition expected_version :: "umem \<Rightarrow> far \<Rightarrow> u16 option" where
  "expected_version m p =
     (let b = (\<lambda>i. ld8 m (far_add p i)); jump = (\<lambda>c. c = 0x75 \<or> c = 0x74) in
      if b 0 = 0x3d \<and> jump (b 3) then Some (mk16 (b 1) (b 2))
      else if b 0 = 0x86 \<and> b 1 = 0xc4 \<and> b 2 = 0x3d \<and> jump (b 5) then Some (mk16 (b 4) (b 3))
      else None)"

definition get_version :: "('c, 'd) handler" where
  "get_version r s =
     (let v = dv s; f = caller_regs s; bh = (if AL r = 1 then version_flags v else oem_id v);
          ax = ps_retdosver (psp_at (this_psp s) s);
          ax1 = (if ReturnAnyDosVersionExpected v then case expected_version (umem s) (CS f, IP f) of None \<Rightarrow> ax | Some w \<Rightarrow> w else ax)
      in leave (r\<lparr>AX := ax1, BX := mk16 REVISION_SEQ bh, CX := 0\<rparr>) s)"

section \<open>Files and directories\<close>

definition name_at :: "far \<Rightarrow> ('c, 'd) dos \<Rightarrow> bytes" where
  "name_at p s = ld_text (umem s) p"

text \<open>\<^verbatim>\<open>goto short_check\<close> and \<^verbatim>\<open>goto long_check\<close> with the result of a call.\<close>

definition short :: "lregs \<Rightarrow> (int, 'c, 'd) call \<Rightarrow> (label \<times> lregs, 'c, 'd) call" where
  "short r m s = andthen (m s) (\<lambda>rc. to (Short_check rc) r)"

definition long :: "lregs \<Rightarrow> (int, 'c, 'd) call \<Rightarrow> (label \<times> lregs, 'c, 'd) call" where
  "long r m s = andthen (m s) (\<lambda>rc. to (Long_check rc) r)"

definition file_seek :: "('c, 'd) around \<Rightarrow> ('c, 'd) handler" where
  "file_seek A r s =
     (if AL r > 2 then to Error_invalid r s
      else
        andthen (sys (\<lambda>g. case DosSeek (outer A) (BX r) (mk32 (DX r) (CX r)) (ucast (AL r)) g of (p, rc, g1) \<Rightarrow> ((p, rc), g1)) s)
          (\<lambda>(p, rc). to (Short_check rc) (if rc = 0 then r\<lparr>DX := ucast (drop_bit 16 p), AX := ucast p\<rparr> else r)))"

definition file_attrib :: "('c, 'd) around \<Rightarrow> ('c, 'd) handler" where
  "file_attrib A r s =
     (let name = name_at (DS_DX r) s in
      if AL r = 0x00 then
        andthen (sys_opt (DosGetFattr (outer A) name) s) (\<lambda>rc. to (Short_check rc) (if rc \<ge> 0 then r\<lparr>CX := of_int rc\<rparr> else r))
      else if AL r = 0x01 then short (r\<lparr>AX := CX r\<rparr>) (sys_opt (DosSetFattr (outer A) name (CX r))) s
      else if AL r = 0xff \<and> (CL r = 0x39 \<or> CL r = 0x3a) then short r (sys_opt (DosMkRmdir (outer A) name (CL r))) s
      else if AL r = 0xff \<and> CL r = 0x56 then short r (sys_opt (DosRename (outer A) name (name_at (ES_DI r) s))) s
      else to Error_invalid r s)"

definition device_control :: "('c, 'd) around \<Rightarrow> ('c, 'd) handler" where
  "device_control A r s =
     andthen (DosDevIOctl A r s) (\<lambda>(rc, r1) s1.
       if rc < 0 then
         to Error_carry (r1\<lparr>AX := of_int (- rc)\<rparr>)
           (if rc \<noteq> errno DE_DEVICE \<and> rc \<noteq> errno DE_ACCESS then put_crit (- rc) s1 else s1)
       else leave r1 s1)"

definition put_found :: "(int \<times> find_data option) \<Rightarrow> lregs \<Rightarrow> (label \<times> lregs, 'c, 'd) call" where
  "put_found x r s =
     (case x of (rc, d) \<Rightarrow>
        to (Short_check rc) (r\<lparr>AX := 0\<rparr>)
          (case d of None \<Rightarrow> s | Some d \<Rightarrow> upd_mem (st_found (dta (fe s)) d) s))"

definition file_find :: "('c, 'd) around \<Rightarrow> ('c, 'd) handler" where
  "file_find A r s =
     (let flat = map_option (\<lambda>(rc, d, g). ((rc, d), g)) in
      andthen (sys_opt (\<lambda>g. flat (if AH r = 0x4e then DosFindFirst (outer A) (CX r) (name_at (DS_DX r) s) g
                                  else DosFindNext (outer A) (ld_dmatch (umem s) (dta (fe s))) g)) s)
        (\<lambda>x. put_found x r))"

definition file_time :: "('c, 'd) around \<Rightarrow> ('c, 'd) handler" where
  "file_time A r s =
     (if AL r = 0x00 then
        andthen (sys (\<lambda>g. case DosGetFtime (BX r) g of (rc, x, g1) \<Rightarrow> ((rc, x), g1)) s) (\<lambda>(rc, x).
          to (Short_check rc) (case x of None \<Rightarrow> r | Some (date, time) \<Rightarrow> r\<lparr>DX := date, CX := time\<rparr>))
      else if AL r = 0x01 then short r (sys (\<lambda>g. DosSetFtimeSft (get_sft_idx (BX r) g) (DX r) (CX r) g)) s
      else to Error_invalid r s)"

definition serial_number :: "('c, 'd) around \<Rightarrow> ('c, 'd) handler" where
  "serial_number A r s =
     (let drv = (if BL r = 0 then unat (default_drive (fss s)) else unat (BL r) - 1) in
      if AL r \<ge> 2 then to Error_invalid r s
      else if get_cds drv (fio (fss s)) = None then to (Error_exit (errno DE_INVLDDRV)) r s
      else if get_dpb drv (fio (fss s)) = None then to Error_invalid r s
      else
        andthen (DosDevIOctl A (set_AL 0x0d (r\<lparr>CX := (if AL r = 0 then 0x0866 else 0x0846)\<rparr>)) s) (\<lambda>(rc, r1).
          to (Short_check rc) (r1\<lparr>CX := CX r\<rparr>)))"

definition extended_open :: "('c, 'd) around \<Rightarrow> ('c, 'd) handler" where
  "extended_open A r s =
     (if DL r AND 0xef > 0x2 then to Error_invalid r s
      else
        (let flags = (BX r AND 0x70ff) OR push_bit 8 (ucast (DL r AND 3)) OR push_bit 6 (ucast (DL r AND 0x10)) in
         andthen (sys_opt (DosOpen (outer A) (name_at (DS_SI r) s) flags (ucast (CL r))) s) (\<lambda>lrc.
           to (Long_check lrc) (if lrc \<ge> 0 then r\<lparr>CX := of_int (lrc div 65536)\<rparr> else r))))"

definition int21_file :: "('c, 'd) around \<Rightarrow> nat \<Rightarrow> ('c, 'd) handler" where
  "int21_file A fuel r s =
     (let ah = AH r; ou = outer A; name = name_at (DS_DX r) s in
      if ah = 0x39 \<or> ah = 0x3a then short r (sys_opt (DosMkRmdir ou name ah)) s
      else if ah = 0x3b then short r (sys_opt (DosChangeDir ou name)) s
      else if ah = 0x3c then long r (sys_opt (DosOpen ou name (O_LEGACY OR O_RDWR OR O_CREAT OR O_TRUNC) (ucast (CL r)))) s
      else if ah = 0x3d then long r (sys_opt (DosOpen ou name (O_LEGACY OR O_OPEN OR ucast (AL r)) 0)) s
      else if ah = 0x3e then short r (sys_opt (DosClose ou (BX r))) s
      else if ah = 0x3f then long r (rw_far ou fuel (get_sft_idx (BX r) (fss s)) (CX r) (DS_DX r) RD) s
      else if ah = 0x40 then long r (rw_far ou fuel (get_sft_idx (BX r) (fss s)) (CX r) (DS_DX r) WR) s
      else if ah = 0x41 then short r (sys_opt (DosDelete ou name D_ALL)) s
      else if ah = 0x42 then file_seek A r s
      else if ah = 0x43 then file_attrib A r s
      else if ah = 0x44 then device_control A r s
      else if ah = 0x45 then long r (sys_opt (DosDup ou (BX r))) s
      else if ah = 0x46 then short r (sys_opt (DosForceDup ou (BX r) (CX r))) s
      else if ah = 0x47 then
        andthen (sys_opt (\<lambda>g. map_option (\<lambda>(rc, t, g1). ((rc, t), g1)) (DosGetCuDir ou (DL r) g)) s) (\<lambda>(rc, t) s1.
          to (Short_check rc) (r\<lparr>AX := 0x0100\<rparr>) (case t of None \<Rightarrow> s1 | Some t \<Rightarrow> upd_mem (st_text (DS_SI r) t) s1))
      else if ah = 0x4e \<or> ah = 0x4f then file_find A r s
      else if ah = 0x56 then short r (sys_opt (DosRename ou name (name_at (ES_DI r) s))) s
      else if ah = 0x57 then file_time A r s
      else if ah = 0x5a then
        andthen (sys_opt (\<lambda>g. map_option (\<lambda>(rc, p, g1). ((rc, p), g1)) (DosMkTmp ou name (CX r) g)) s) (\<lambda>(rc, p) s1.
          to (Long_check rc) r (upd_mem (st_text (DS_DX r) p) s1))
      else if ah = 0x5b then long r (sys_opt (DosOpen ou name (O_LEGACY OR O_RDWR OR O_CREAT) (CX r))) s
      else if ah = 0x5c then
        andthen (sys_opt (DosLockUnlock ou (BX r) (mk32 (DX r) (CX r)) (mk32 (DI r) (SI r)) (AL r \<noteq> 0)) s) (\<lambda>rc.
          if rc \<noteq> 0 then to (Error_exit rc) r else leave r)
      else if ah = 0x60 then
        andthen (sys_opt (\<lambda>g. map_option (\<lambda>(rc, t, g1). ((rc, t), g1)) (DosTruename ou (name_at (DS_SI r) s) g)) s) (\<lambda>(rc, t) s1.
          to (Short_check rc) (r\<lparr>AX := of_int rc\<rparr>)
            (case t of None \<Rightarrow> s1 | Some t \<Rightarrow> upd_mem (st_text (adjust_far (ES_DI r)) t) s1))
      else if ah = 0x67 then short r (SetJFTSize (BX r)) s
      else if ah = 0x68 \<or> ah = 0x6a then short r (sys_opt (\<lambda>g. DosCloseSft ou (get_sft_idx (BX r) g) True g)) s
      else if ah = 0x69 then serial_number A r s
      else extended_open A r s)"

section \<open>Memory and processes\<close>

text \<open>A chain of control blocks that is not valid halts the system.\<close>

definition mem_check :: "(bool, 'c, 'd) call" where
  "mem_check = on_mm (\<lambda>m. map_option (\<lambda>x. (x = Inr (), m)) (DosMemCheck m))"

definition check_chain :: "'a \<Rightarrow> ('a, 'c, 'd) call" where
  "check_chain x s = andthen (mem_check s) (\<lambda>ok s1. if ok then ret x s1 else Some (Away Panic, s1))"

definition alloc_call :: "('c, 'd) handler" where
  "alloc_call r s =
     andthen (mem_alloc (BX r) (access_mode s) (Some (BX r)) s) (\<lambda>(x, bx) s1.
       case x of
         Inr para \<Rightarrow> leave (r\<lparr>AX := para + 1, BX := the bx\<rparr>) s1
       | Inl e \<Rightarrow>
           andthen (mem_largest s1) (\<lambda>(_, bx1) s2.
             andthen (check_chain () s2) (\<lambda>_. to (Error_exit (errno e)) (r\<lparr>BX := bx1\<rparr>))))"

definition free_call :: "('c, 'd) handler" where
  "free_call r s =
     andthen (mem_free (ES r - 1) s) (\<lambda>rc s1.
       if rc < 0 then andthen (check_chain () s1) (\<lambda>_. to (Error_exit rc) r) else leave r s1)"

definition resize :: "u16 \<Rightarrow> u16 \<Rightarrow> u16 option \<Rightarrow> (int \<times> u16 option, 'c, 'd) call" where
  "resize para sz out = on_mm (\<lambda>m. case DosMemChange para sz out m of (x, o1, m1) \<Rightarrow> Some ((int_of x, o1), m1))"

definition resize_call :: "('c, 'd) handler" where
  "resize_call r s =
     andthen (check_chain () s) (\<lambda>_ s1.
       andthen (resize (ES r) (BX r) (Some (BX r)) s1) (\<lambda>(rc, bx) s2.
         if rc < 0 then andthen (check_chain () s2) (\<lambda>_. to (Error_exit rc) (r\<lparr>BX := the bx\<rparr>))
         else leave (r\<lparr>AX := ES r, BX := the bx\<rparr>) s2))"

definition strategy_call :: "('c, 'd) handler" where
  "strategy_call r s =
     (let m = mm s in
      if AL r = 0x00 then leave (r\<lparr>AX := ucast (mem_access_mode m)\<rparr>) s
      else if AL r = 0x01 then
        (if BL r > 0x82 \<or> BL r AND 0x3f > 0x02 then to Error_invalid r s else leave r (set_access (BL r) s))
      else if AL r = 0x02 then leave (set_AL (uppermem_link m) r) s
      else if AL r = 0x03 \<and> uppermem_root m \<noteq> 0xffff then andthen (umb_link (BX r) s) (\<lambda>_. leave r)
      else to Error_invalid r s)"

definition stay_resident :: "('c, 'd) around \<Rightarrow> ('c, 'd) handler" where
  "stay_resident A r s =
     andthen (resize (this_psp s) (if DX r < 6 then 6 else DX r) None s) (\<lambda>_ s1.
       return_user (outer A) (upd_dv (\<lambda>d. d\<lparr>return_code := ucast (AL r) OR 0x300, term_type := 3\<rparr>) s1))"

definition end_program :: "('c, 'd) around \<Rightarrow> ('c, 'd) handler" where
  "end_program A r0 s =
     (let r = (if AH r0 = 0 then r0\<lparr>AX := 0x4c00\<rparr> else r0);
          s1 = (if break_flg (dv s) then upd_dv (\<lambda>d. d\<lparr>break_flg := False, term_type := 1\<rparr>) s else s);
          s2 = upd_dv (\<lambda>d. d\<lparr>return_code := ucast (AL r) OR push_bit 8 (ucast (term_type d))\<rparr>) s1
      in andthen (check_chain () s2) (\<lambda>_. return_user (outer A)))"

text \<open>A child of the current process, with the parent's command line.\<close>

definition create_psp :: "('c, 'd) handler" where
  "create_psp r s =
     (let cur = this_psp s; line = ps_cmd (psp_at cur s)
      in leave r (upd_fs (\<lambda>g. (upd_psp (DX r) (\<lambda>p. p\<lparr>ps_cmd := line\<rparr>) g)\<lparr>fsys.cu_psp := DX r\<rparr>) (make_child (DX r) (SI r) s)))"

definition int21_process :: "('c, 'd) around \<Rightarrow> nat \<Rightarrow> ('c, 'd) handler" where
  "int21_process A fuel r s =
     (let ah = AH r in
      if ah = 0x00 \<or> ah = 0x4c then end_program A r s
      else if ah = 0x26 then leave r (upd_fs (new_psp (\<lambda>n. getvec n s) (setver_now s) (DX r) (CS (caller_regs s))) s)
      else if ah = 0x31 then stay_resident A r s
      else if ah = 0x48 then alloc_call r s
      else if ah = 0x49 then free_call r s
      else if ah = 0x4a then resize_call r s
      else if ah = 0x4b then
        short r (DosExec (outer A) fuel (AL r) (ES r, BX r) (DS_DX r)) (upd_dv (\<lambda>d. d\<lparr>break_flg := False\<rparr>) s)
      else if ah = 0x4d then leave (r\<lparr>AX := return_code (dv s)\<rparr>) (upd_dv (\<lambda>d. d\<lparr>return_code := 0\<rparr>) s)
      else if ah = 0x55 then create_psp r s
      else strategy_call r s)"

section \<open>Country information\<close>

text \<open>A call on the language tables, and one on a part of memory.\<close>

definition on_nls :: "(nls_info \<Rightarrow> 'a \<times> nls_info) \<Rightarrow> ('a, 'c, 'd) call" where
  "on_nls f = sys (\<lambda>g. case f (nls g) of (x, n) \<Rightarrow> (x, g\<lparr>nls := n\<rparr>))"

definition upcase_area :: "(bytes \<Rightarrow> u16 \<Rightarrow> nls_info \<Rightarrow> bytes \<times> nls_info) \<Rightarrow> u16 \<Rightarrow> far \<Rightarrow> (unit, 'c, 'd) call" where
  "upcase_area f n p s = andthen (on_nls (f (ld_bytes (umem s) p (unat n)) n) s) (\<lambda>b s1. ret () (upd_mem (st_bytes p b) s1))"

definition nls_data :: "('c, 'd) around \<Rightarrow> u8 \<Rightarrow> lregs \<Rightarrow> (int, 'c, 'd) call" where
  "nls_data A sub r s =
     (let p = ES_DI r; buf = (if p = (0, 0) then None else Some (ld_bytes (umem s) p (unat (CX r)))) in
      andthen (on_nls (\<lambda>n. case DosGetData (nls_mux (outer A)) (ucast sub) (BX r) (DX r) (CX r) buf n of (rc, b, n1) \<Rightarrow> ((rc, b), n1)) s)
        (\<lambda>(rc, b) s1. ret rc (case b of None \<Rightarrow> s1 | Some b \<Rightarrow> upd_mem (st_bytes p b) s1)))"

definition country_info :: "('c, 'd) around \<Rightarrow> ('c, 'd) handler" where
  "country_info A r s =
     (let mx = nls_mux (outer A); c0 = (if AL r = 0xff then BX r else ucast (AL r)) in
      if DX r = 0xffff then short r (on_nls (DosSetCountry mx c0)) s
      else
        (let c = (if c0 = 0 then 0xffff else c0); p = DS_DX r;
             buf = (if p = (0, 0) then None else Some (ld_bytes (umem s) p 0x18))
         in andthen (on_nls (\<lambda>n. case DosGetCountryInformation mx c buf n of (rc, b, n1) \<Rightarrow> ((rc, b), n1)) s) (\<lambda>(rc, b) s1.
              let s2 = (case b of None \<Rightarrow> s1 | Some b \<Rightarrow> upd_mem (st_bytes p b) s1);
                  c1 = (if c = 0xffff then pkg_cntry (act_pkg (nls (fss s2))) else c)
              in to (Short_check rc) (if rc \<ge> 0 then r\<lparr>AX := c1, BX := c1\<rparr> else r) s2)))"

definition extended_country :: "('c, 'd) around \<Rightarrow> ('c, 'd) handler" where
  "extended_country A r s =
     (let mx = nls_mux (outer A); al = AL r; p = DS_DX r; text = ld_text (umem s) p; done = (\<lambda>_. leave r) in
      if al = 0x20 then andthen (on_nls (DosUpChar mx (DL r)) s) (\<lambda>c. leave (set_DL c r))
      else if al = 0x21 then andthen (upcase_area (DosUpMem mx) (CX r) p s) done
      else if al = 0x22 then andthen (upcase_area (\<lambda>b n. DosUpString mx b) (of_nat (length text)) p s) done
      else if al = 0xa0 then andthen (on_nls (DosUpFChar mx (DL r)) s) (\<lambda>c. leave (set_DL c r))
      else if al = 0xa1 then andthen (upcase_area (DosUpFMem mx) (CX r) p s) done
      else if al = 0xa2 then andthen (upcase_area (\<lambda>b n. DosUpFString mx b) (of_nat (length text)) p s) done
      else if al = 0x23 then andthen (on_nls (DosYesNo mx (ucast (DL r))) s) (\<lambda>v. leave (r\<lparr>AX := ucast v\<rparr>))
      else short r (nls_data A al r) s)"

definition code_page :: "('c, 'd) around \<Rightarrow> ('c, 'd) handler" where
  "code_page A r s =
     (if AL r = 1 then (case DosGetCodepage (nls (fss s)) of (a, b) \<Rightarrow> leave (r\<lparr>BX := a, DX := b\<rparr>) s)
      else if AL r = 2 then
        andthen (on_nls (DosSetCodepage (nls_mux (outer A)) (BX r) (DX r)) s) (\<lambda>rc. if rc \<noteq> 0 then to (Error_exit rc) r else leave r)
      else to Error_invalid r s)"

definition dbcs_table :: "('c, 'd) around \<Rightarrow> ('c, 'd) handler" where
  "dbcs_table A r s =
     (if AL r = 0 then
        (let p = dbcs_place (lay A) (actPkg (nls (fss s))) in leave (r\<lparr>DS := fst p, SI := snd p + 2\<rparr>) s)
      else if AL r = 1 \<or> AL r = 2 then leave (set_AL 0xff r) s
      else to (Error_exit (-1)) r s)"

definition int21_country :: "('c, 'd) around \<Rightarrow> ('c, 'd) handler" where
  "int21_country A r s =
     (if AH r = 0x38 then country_info A r s
      else if AH r = 0x63 then dbcs_table A r s
      else if AH r = 0x65 then extended_country A r s
      else code_page A r s)"

end
