(* ===== verification/Int21_Service.thy ===== *)
theory Int21_Service
  imports Int21
begin

text \<open>
  The rest of interrupt 21: errors, the network, the FAT32 functions, the dispatcher with its labels, and the few functions
  \<^verbatim>\<open>int21_syscall\<close> does on the stack of the program (\<^verbatim>\<open>kernel/inthndlr.c\<close>); interrupts 25 and 26.
\<close>

definition DE_INVLDBUF :: int where "DE_INVLDBUF = -24"
definition DE_INVLDPARM :: int where "DE_INVLDPARM = -87"
definition REM_PRINTSET :: u16 where "REM_PRINTSET = 0x111f"
definition REM_PRINTREDIR :: u16 where "REM_PRINTREDIR = 0x1125"
definition REM_DOREDIRECT :: u16 where "REM_DOREDIRECT = 0x111e"

section \<open>Errors, server and network\<close>

definition ld_lregs :: "umem \<Rightarrow> far \<Rightarrow> lregs" where
  "ld_lregs m p =
     (let w = (\<lambda>i. ld16 m (far_add p (2 * i)))
      in \<lparr>AX = w 0, BX = w 1, CX = w 2, DX = w 3, SI = w 4, DI = w 5, DS = w 6, ES = w 7\<rparr>)"

definition extended_error :: "('c, 'd) handler" where
  "extended_error r s =
     (let v = dv s
      in leave (r\<lparr>AX := crit_code s, CX := set_hi (CritErrLocus v) (CX r), BX := mk16 (CritErrAction v) (CritErrClass v),
           DI := snd (CritErrDev v), ES := fst (CritErrDev v)\<rparr>) s)"

definition set_extended_error :: "lregs \<Rightarrow> ('c, 'd) dos \<Rightarrow> ('c, 'd) dos" where
  "set_extended_error er s =
     upd_dv (\<lambda>v. v\<lparr>CritErrDev := (ES er, DI er), CritErrLocus := CH er, CritErrClass := BH er, CritErrAction := BL er\<rparr>)
       (put_crit (uint (AX er)) s)"

definition server_call :: "('c, 'd) around \<Rightarrow> ('c, 'd) handler" where
  "server_call A r s =
     (let al = AL r; L = lay A; clear = set_flag FLG_CARRY False in
      if al = 0x00 then to Dispatch (ld_lregs (umem s) (DS_DX r)) s
      else if al = 0x06 then
        leave (r\<lparr>DS := fst (internal_data L), SI := snd (internal_data L), CX := swap_indos L - snd (internal_data L),
          DX := swap_always L - snd (internal_data L)\<rparr>) (clear s)
      else if al = 0x07 \<or> al = 0x08 \<or> al = 0x09 then
        (case net_regs A REM_PRINTREDIR (Int21AX (dv s)) r s of (rc, _, s1) \<Rightarrow>
           if rc \<noteq> 0 then to (Error_exit rc) r (clear s1) else leave r (clear s1))
      else if al = 0x0a then leave r (clear (set_extended_error (ld_lregs (umem s) (DS_DX r)) s))
      else to Error_invalid r (put_crit 0 s))"

definition network_names :: "('c, 'd) around \<Rightarrow> ('c, 'd) handler" where
  "network_names A r s =
     (if AL r = 0x00 then (case get_machine_name (DS_DX r) s of (n, s1) \<Rightarrow> leave (r\<lparr>CX := n\<rparr>) s1)
      else if AL r = 0x01 then leave r (set_machine_name (DS_DX r) (CX r) s)
      else (case net_regs A REM_PRINTSET (Int21AX (dv s)) r s of (rc, r1, s1) \<Rightarrow> to (Short_check rc) r1 s1))"

definition set_physical :: "bool \<Rightarrow> nat \<Rightarrow> ('c, 'd) fsys \<Rightarrow> ('c, 'd) fsys" where
  "set_physical on i g =
     g\<lparr>fio := (fio g)\<lparr>cds_table := (cds_table (fio g))[i := (cds_table (fio g) ! i)\<lparr>cdsFlags :=
         (let f = cdsFlags (cds_table (fio g) ! i) AND NOT CDSPHYSDRV in if on then f OR CDSPHYSDRV else f)\<rparr>]\<rparr>\<rparr>"

definition network_drives :: "('c, 'd) around \<Rightarrow> ('c, 'd) handler" where
  "network_drives A r s =
     (let t = cds_table (fio (fss s)); i = unat (DL r) in
      if AL r = 7 \<or> AL r = 8 then
        (if i < length t \<and> cdsDpb (t ! i) \<noteq> None then leave r (upd_fs (set_physical (AL r = 7) i) s)
         else to (Error_exit (errno DE_INVLDDRV)) r s)
      else
        (case net_regs A REM_DOREDIRECT (Int21AX (dv s)) r s of (rc, _, s1) \<Rightarrow>
           let s2 = (if rc \<noteq> 0 then set_flag FLG_CARRY True (put_crit (- rc) s1) else s1)
           in to Real_exit r (upd_mem (st16 (user_r s2) (of_int (- rc))) s2)))"

text \<open>The long positions go to the redirector only; everything else of the long name functions is refused.\<close>

definition lfn_call :: "('c, 'd) around \<Rightarrow> ('c, 'd) handler" where
  "lfn_call A r s =
     (let p = psp_at (this_psp s) s; bad = to (Error_exit (errno DE_INVLDHNDL)) r in
      if AL r \<noteq> 0x42 \<and> AL r \<noteq> 0xa6 then to Unsupp r s
      else if BX r \<ge> ps_maxfiles p then bad s
      else
        andthen (sys (idx_to_sft (int (unat (ps_filetab p ! unat (BX r))))) s) (\<lambda>q s1.
          case q of
            None \<Rightarrow> bad s1
          | Some q \<Rightarrow>
              if sft_flags (sft_at q (fss s1)) AND SFT_FSHARED = 0 \<and> AL r \<noteq> 0x42 then to Unsupp r s1
              else
                (let saved = caller_regs s1; at = sft_place (lay A) q;
                     regs = saved\<lparr>ES := fst at, DI := snd at, FLAGS := FLAGS saved OR FLG_CARRY, AX := set_hi 0x11 (AX saved)\<rparr>
                 in case net_intr A regs (upd_mem (st_iregs (user_r s1) regs) s1) of
                      (back, s2) \<Rightarrow>
                        if FLAGS back AND FLG_CARRY = 0
                        then to Real_exit r (upd_mem (st_iregs (user_r s2) (back\<lparr>ES := ES saved, DI := DI saved\<rparr>)) s2)
                        else to Unsupp r (upd_mem (st_iregs (user_r s2) saved) s2))))"

section \<open>FAT32 functions\<close>

text \<open>A transfer of sectors goes through linear addresses.\<close>

fun ld_linear :: "umem \<Rightarrow> u32 \<Rightarrow> nat \<Rightarrow> bytes" where
  "ld_linear m a 0 = []"
| "ld_linear m a (Suc n) = m a # ld_linear m (a + 1) n"

fun st_linear :: "u32 \<Rightarrow> bytes \<Rightarrow> umem \<Rightarrow> umem" where
  "st_linear a [] m = m"
| "st_linear a (b # bs) m = st_linear (a + 1) bs (m(a := b))"

definition sectors_call :: "('c, 'd) around \<Rightarrow> nat \<Rightarrow> u32 \<Rightarrow> far \<Rightarrow> u16 \<Rightarrow> xfer_mode \<Rightarrow> (u16, 'c, 'd) call" where
  "sectors_call A drv blkno p n mode s =
     (let g = fss s; secsize = (case get_dpb drv (fio g) of None \<Rightarrow> 0 | Some d \<Rightarrow> unat (dpb_secsize (dpbs (fio g) d)));
          buf = ld_linear (umem s) (lin p) (unat n * secsize)
      in andthen (sys (\<lambda>g. case dskxfer (blk_drv (outer A)) drv blkno (fst p) buf n mode (fio g) of
                             (rc, b, e) \<Rightarrow> ((rc, b), g\<lparr>fio := e\<rparr>)) s) (\<lambda>(rc, b) s1.
           ret rc (upd_mem (st_linear (lin p) b) s1)))"

definition invalidate :: "u8 \<Rightarrow> (unit, 'c, 'd) call" where
  "invalidate drv = sys_opt (\<lambda>g. map_option (\<lambda>e. ((), g\<lparr>fio := e\<rparr>)) (setinvld drv (fio g)))"

definition extended_dpb :: "dpb \<Rightarrow> dpb" where
  "extended_dpb d =
     (if \<not> ISFAT32 d \<and> dpb_xsize d \<noteq> ucast (dpb_size d) then
        (dpb16to32 (d\<lparr>dpb_xnfreeclst := mk32 (dpb_nfreeclst d) (if dpb_nfreeclst d = 0xffff then 0xffff else 0)\<rparr>))
          \<lparr>dpb_xfatsize := ucast (dpb_fatsize d), dpb_xcluster := (if dpb_cluster d = 0xffff then 0xffffffff else ucast (dpb_cluster d))\<rparr>
      else d)"

definition fat32_get_dpb :: "('c, 'd) around \<Rightarrow> lregs \<Rightarrow> (int, 'c, 'd) call" where
  "fat32_get_dpb A r s =
     (if CX r < 63 then ret DE_INVLDBUF s
      else
        (case GetDriveDPB (DL r) (fss s) of
           (None, rc) \<Rightarrow> ret rc s
         | (Some p, _) \<Rightarrow>
             andthen (reread A p s) (\<lambda>ok s1.
               if \<not> ok then ret (errno DE_INVLDDRV) s1
               else ret 0 (upd_mem (st_bytes (ES_DI r) (le16 61 @ dpb_bytes (lay A) p (extended_dpb (dpbs (fio (fss s1)) p)))) s1))))"

definition fat32_free :: "('c, 'd) around \<Rightarrow> lregs \<Rightarrow> (int, 'c, 'd) call" where
  "fat32_free A r s =
     (if CX r < 44 then ret DE_INVLDBUF s
      else
        andthen (sys_opt (DosGetExtFree (outer A) (name_at (DS_DX r) s)) s) (\<lambda>x s1.
          let body = (case x of Inl _ \<Rightarrow> replicate 32 0 | Inr f \<Rightarrow> freespace_bytes f)
          in ret (int_of x) (upd_mem (st_bytes (ES_DI r) (le16 44 @ le16 0 @ body @ replicate 8 0)) s1)))"

text \<open>Setting the free cluster count and the next free cluster; a count of 1 and numbers beyond the last cluster are refused.\<close>

definition set_counts :: "('c, 'd) around \<Rightarrow> nat \<Rightarrow> u32 \<Rightarrow> u32 \<Rightarrow> (int, 'c, 'd) call" where
  "set_counts A p nfree cluster s =
     (let d = dpbs (fio (fss s)) p; put = (\<lambda>f. upd_fs (\<lambda>g. g\<lparr>fio := upd_dpb p f (fio g)\<rparr>)) in
      if ISFAT32 d then
        (if dpb_xfsinfosec d = 0xffff \<and> (nfree \<noteq> 0 \<or> cluster \<noteq> 0) \<or> nfree = 1 \<or> nfree > dpb_xsize d \<or> cluster = 1 \<or> cluster > dpb_xsize d
         then ret DE_INVLDPARM s
         else
           andthen (sys_opt (\<lambda>g. map_option (\<lambda>e. ((), g\<lparr>fio := e\<rparr>)) (write_fsinfo (blk_drv (outer A)) p (fio g)))
                      (put (\<lambda>d. d\<lparr>dpb_xnfreeclst := nfree, dpb_xcluster := cluster\<rparr>) s)) (\<lambda>_. ret 0))
      else
        (let n = ucast nfree :: u16; c = ucast cluster :: u16 in
         if n = 1 \<or> n > dpb_size d \<or> c = 1 \<or> c > dpb_size d then ret DE_INVLDPARM s
         else ret 0 (put (\<lambda>d. (set_nfreeclst n d)\<lparr>dpb_cluster := c\<rparr>) s)))"

text \<open>The value goes to block 1 of the drive, at its place in the parameter block of a boot sector.\<close>

definition patch_sector :: "('c, 'd) around \<Rightarrow> nat \<Rightarrow> nat \<Rightarrow> bytes \<Rightarrow> (unit, 'c, 'd) call" where
  "patch_sector A p off b =
     sys_opt (\<lambda>g. do {
       (bp, e) \<leftarrow> getblk (blk_drv (outer A)) 1 (dpb_unit (dpbs (fio g) p)) False (fio g);
       bp \<leftarrow> bp;
       Some ((), g\<lparr>fio := upd_buf bp (\<lambda>x. x\<lparr>b_flag := b_flag x AND NOT (BFR_DATA OR BFR_DIR OR BFR_FAT) OR (BFR_VALID OR BFR_DIRTY),
                b_buffer := take off (b_buffer x) @ b @ drop (off + length b) (b_buffer x)\<rparr>) e\<rparr>)
     })"

definition rebuild :: "('c, 'd) around \<Rightarrow> nat \<Rightarrow> (int, 'c, 'd) call" where
  "rebuild A p s = andthen (reread A p s) (\<lambda>ok. ret (if ok then 0 else errno DE_INVLDDRV))"

definition get_set_fat :: "('c, 'd) around \<Rightarrow> nat \<Rightarrow> bool \<Rightarrow> far \<Rightarrow> (int, 'c, 'd) call" where
  "get_set_fat A p mirror at s =
     (let d = dpbs (fio (fss s)) p; new = ld32 (umem s) at; old = (if mirror then ucast (dpb_xflags d) else dpb_xrootclst d) in
      if \<not> ISFAT32 d \<or> new \<noteq> 0xffffffff \<and> (if mirror then new AND NOT 0x8f \<noteq> 0 else new < 2 \<or> new > dpb_xsize d)
      then ret DE_INVLDPARM s
      else
        (let s1 = upd_mem (st_bytes (far_add at 4) (le32 old)) s in
         andthen
           (if new = 0xffffffff then ret () s1
            else if mirror then patch_sector A p (11 + 29) (le16 (ucast new)) s1
            else patch_sector A p (11 + 33) (le32 new) s1)
           (\<lambda>_. rebuild A p)))"

text \<open>\<open>set_bpb\<close> stores a parameter block in the table of the disk driver.\<close>

definition fat32_format :: "('c, 'd) around \<Rightarrow> (u8 \<Rightarrow> bpb \<Rightarrow> 'd \<Rightarrow> 'd) \<Rightarrow> lregs \<Rightarrow> (int, 'c, 'd) call" where
  "fat32_format A set_bpb r s =
     (let x = ES_DI r in
      if CX r < 24 then ret DE_INVLDBUF s
      else
        (case GetDriveDPB (DL r) (fss s) of
           (None, rc) \<Rightarrow> ret rc s
         | (Some p, _) \<Rightarrow>
             (let s1 = upd_mem (st_bytes x (le16 24 @ le16 0)) s; f = ld16 (umem s1) (far_add x 4); at = far_add x 8 in
              if f = 0 then set_counts A p (ld32 (umem s1) at) (ld32 (umem s1) (far_add at 4)) s1
              else if f = 1 then
                (let b = ld_bpb (umem s1) (ld_far (umem s1) (far_add at 4))
                 in rebuild A p (upd_fs (\<lambda>g. g\<lparr>fio := (fio g)\<lparr>disk := set_bpb (DL r) b (disk (fio g))\<rparr>\<rparr>) s1))
              else if f = 2 then rebuild A p s1
              else if f = 3 \<or> f = 4 then get_set_fat A p (f = 3) at s1
              else ret (errno DE_INVLDFUNC) s1)))"

definition fat32_sectors :: "('c, 'd) around \<Rightarrow> lregs \<Rightarrow> (int \<times> lregs, 'c, 'd) call" where
  "fat32_sectors A r s =
     (let m = umem s; p = (DS r, BX r); writing = (SI r AND 1 \<noteq> 0); drv = unat (DL r) - 1 in
      if CX r \<noteq> 0xffff \<or> SI r AND NOT 0x6001 \<noteq> 0 then ret (DE_INVLDPARM, r) s
      else if unat (DL r) > length (cds_table (fio (fss s))) \<or> DL r = 0 then ret (- 0x207, r) s
      else
        andthen (sectors_call A drv (ld32 m p) (ld_far m (far_add p 6)) (ld16 m (far_add p 4)) (if writing then DSKWRITEINT26 else DSKREADINT25) s)
          (\<lambda>ax s1. andthen (if writing \<and> ax = 0 then invalidate (DL r - 1) s1 else ret () s1) (\<lambda>_.
             ret (if ax > 0 then - 0x20c else 0, r\<lparr>AX := ax\<rparr>))))"

definition int21_fat32 :: "('c, 'd) around \<Rightarrow> (u8 \<Rightarrow> bpb \<Rightarrow> 'd \<Rightarrow> 'd) \<Rightarrow> lregs \<Rightarrow> (int \<times> lregs, 'c, 'd) call" where
  "int21_fat32 A set_bpb r s =
     (let plain = (\<lambda>m. andthen (m s) (\<lambda>rc. ret (rc, r))) in
      if AL r = 0x02 then plain (fat32_get_dpb A r)
      else if AL r = 0x03 then plain (fat32_free A r)
      else if AL r = 0x04 then plain (fat32_format A set_bpb r)
      else if AL r = 0x05 then fat32_sectors A r s
      else ret (errno DE_INVLDFUNC, r) s)"

section \<open>Parameter blocks of programs\<close>

text \<open>
  Function 53 fills a drive parameter block in the memory of the program. The two pointers in it stay as they are; while
  the file system information of the drive is read the block stands in place 255, which no drive has.
\<close>

definition ld_dpb :: "umem \<Rightarrow> far \<Rightarrow> dpb" where
  "ld_dpb m p =
     (let b = (\<lambda>i. ld8 m (far_add p i)); w = (\<lambda>i. ld16 m (far_add p i)); l = (\<lambda>i. ld32 m (far_add p i))
      in \<lparr>dpb_unit = b 0, dpb_subunit = b 1, dpb_secsize = w 2, dpb_clsmask = b 4, dpb_shftcnt = b 5, dpb_fatstrt = w 6,
          dpb_fats = b 8, dpb_dirents = w 9, dpb_data = w 11, dpb_size = w 13, dpb_fatsize = w 15, dpb_dirstrt = w 17,
          dpb_device = 0, dpb_dh_attr = 0, dpb_mdb = b 23, dpb_flags = b 24, dpb_cluster = w 29, dpb_xnfreeclst = l 31,
          dpb_xflags = w 35, dpb_xfsinfosec = w 37, dpb_xbackupsec = w 39, dpb_xdata = l 41, dpb_xsize = l 45,
          dpb_xfatsize = l 49, dpb_xrootclst = l 53, dpb_xcluster = l 57\<rparr>)"

definition st_dpb :: "places \<Rightarrow> bool \<Rightarrow> far \<Rightarrow> dpb \<Rightarrow> umem \<Rightarrow> umem" where
  "st_dpb L extended p d m =
     (let b = dpb_bytes L 0 d
      in st_bytes (far_add p 29) (take (if extended then 32 else 4) (drop 29 b))
           (st_bytes (far_add p 23) (take 2 (drop 23 b)) (st_bytes p (take 19 b) m)))"

definition translate_bpb :: "('c, 'd) around \<Rightarrow> ('c, 'd) handler" where
  "translate_bpb A r s =
     (let extended = (CX r = 0x4558 \<and> DX r = 0x4152); p = (ES r, BP (caller_regs s)); b = ld_bpb (umem s) (DS_SI r) in
      andthen
        (sys_opt (\<lambda>g. do {
           e \<leftarrow> bpb_to_dpb (blk_drv (outer A)) b 255 extended (upd_dpb 255 (\<lambda>_. ld_dpb (umem s) p) (fio g));
           Some (dpbs e 255, g\<lparr>fio := e\<rparr>)
         }) s)
        (\<lambda>d s1. leave r (upd_mem (st_dpb (lay A) extended p d) s1)))"

section \<open>The dispatcher\<close>

text \<open>
  The bounds of a call: the nesting and waiting of console input and output, the files a pattern of an FCB names, and the
  calls a server call may stand for; \<open>set_bpb\<close> is the part of the disk driver that function 7304 changes.
\<close>

record 'd limits =
  io_fuel :: nat
  fcb_files :: nat
  set_bpb :: "u8 \<Rightarrow> bpb \<Rightarrow> 'd \<Rightarrow> 'd"

definition clears_carry :: "u8 \<Rightarrow> bool" where
  "clears_carry ah \<longleftrightarrow> 0x38 \<le> ah \<and> ah \<le> 0x4f \<or> 0x56 \<le> ah \<and> ah \<le> 0x5c \<or> 0x5e \<le> ah \<and> ah \<le> 0x60
     \<or> 0x65 \<le> ah \<and> ah \<le> 0x6a \<or> ah = 0x6c"

definition checks_break :: "u8 \<Rightarrow> ('c, 'd) dos \<Rightarrow> bool" where
  "checks_break ah s \<longleftrightarrow> break_ena (dv s) \<noteq> 0 \<or> 1 \<le> ah \<and> ah \<le> 5 \<or> 8 \<le> ah \<and> ah \<le> 0x0b"

definition before_call :: "u8 \<Rightarrow> ('c, 'd) dos \<Rightarrow> ('c, 'd) dos" where
  "before_call ah s =
     (let s1 = (if clears_carry ah then (let s0 = set_flag FLG_CARRY False s in if ah \<noteq> 0x59 then put_crit 0 s0 else s0) else s)
      in if ah > 0x0c \<and> ah \<noteq> 0x30 \<and> ah \<noteq> 0x59 then upd_ks (\<lambda>k. k\<lparr>ErrorMode := False\<rparr>) s1 else s1)"

definition break_check :: "('c, 'd) around \<Rightarrow> nat \<Rightarrow> (unit, 'c, 'd) call" where
  "break_check A fuel s =
     andthen (con (\<lambda>k. check_handle_break (outer A) (cw A fuel) (rw A fuel) (syscon k) k) s) (\<lambda>_. ret ())"

definition int21_function :: "('c, 'd) around \<Rightarrow> 'd limits \<Rightarrow> ('c, 'd) handler" where
  "int21_function A B r s =
     (let ah = AH r in
      if 0x01 \<le> ah \<and> ah \<le> 0x0c then int21_char A (io_fuel B) r s
      else if ah \<in> set [0x0f, 0x10, 0x11, 0x12, 0x13, 0x14, 0x15, 0x16, 0x17, 0x21, 0x22, 0x23, 0x24, 0x27, 0x28, 0x29]
      then int21_fcb A (io_fuel B) (fcb_files B) r s
      else if ah \<in> set [0x0d, 0x0e, 0x19, 0x1a, 0x1b, 0x1c, 0x1f, 0x2e, 0x2f, 0x32, 0x34, 0x36, 0x37, 0x52, 0x54]
      then int21_drive A r s
      else if 0x2a \<le> ah \<and> ah \<le> 0x2d then int21_time A r s
      else if ah = 0x30 then get_version r s
      else if ah \<in> set [0x00, 0x26, 0x31, 0x48, 0x49, 0x4a, 0x4b, 0x4c, 0x4d, 0x55, 0x58]
      then int21_process A (io_fuel B) r s
      else if ah \<in> set [0x38, 0x63, 0x65, 0x66] then int21_country A r s
      else if 0x39 \<le> ah \<and> ah \<le> 0x47 \<or> ah \<in> set [0x4e, 0x4f, 0x56, 0x57, 0x5a, 0x5b, 0x5c, 0x60, 0x67, 0x68, 0x69, 0x6a, 0x6c]
      then int21_file A (io_fuel B) r s
      else if ah = 0x53 then translate_bpb A r s
      else if ah = 0x59 then extended_error r s
      else if ah = 0x5d then server_call A r s
      else if ah = 0x5e then network_names A r s
      else if ah = 0x5f then network_drives A r s
      else if ah = 0x64 then to Error_invalid r s
      else if ah = 0x71 then lfn_call A r s
      else if ah = 0x73 then
        andthen (int21_fat32 A (set_bpb B) r (put_crit 0 (set_flag FLG_CARRY False s))) (\<lambda>(rc, r1). to (Short_check rc) r1)
      else leave (set_AL 0 r) s)"

text \<open>The end of a call: the labels from \<^verbatim>\<open>unsupp\<close> to \<^verbatim>\<open>real_exit\<close>.\<close>

definition exit_dispatch :: "lregs \<Rightarrow> ('c, 'd) dos \<Rightarrow> ('c, 'd) dos" where
  "exit_dispatch r s =
     (let p = user_r s
      in upd_mem (st_bytes (far_add p 14) (le16 (DS r) @ le16 (ES r)) \<circ>
           st_bytes p (le16 (AX r) @ le16 (BX r) @ le16 (CX r) @ le16 (DX r) @ le16 (SI r) @ le16 (DI r))) s)"

definition error_carry :: "lregs \<Rightarrow> ('c, 'd) dos \<Rightarrow> ('c, 'd) dos" where
  "error_carry r s = exit_dispatch r (set_flag FLG_CARRY True s)"

definition error_exit :: "int \<Rightarrow> lregs \<Rightarrow> ('c, 'd) dos \<Rightarrow> ('c, 'd) dos" where
  "error_exit rc r s =
     (let ax = of_int (- rc) in error_carry (r\<lparr>AX := ax\<rparr>) (if crit_code s = 0 then put_crit (uint ax) s else s))"

definition finish :: "label \<Rightarrow> lregs \<Rightarrow> ('c, 'd) dos \<Rightarrow> ('c, 'd) dos" where
  "finish l r s =
     (case l of
        Exit_dispatch \<Rightarrow> exit_dispatch r s
      | Short_check rc \<Rightarrow> if rc < 0 then error_exit rc r s else exit_dispatch r s
      | Long_check rc \<Rightarrow> if rc < 0 then error_exit rc r s else exit_dispatch (r\<lparr>AX := of_int rc\<rparr>) s
      | Error_invalid \<Rightarrow> error_exit (errno DE_INVLDFUNC) r s
      | Error_exit rc \<Rightarrow> error_exit rc r s
      | Error_carry \<Rightarrow> error_carry r s
      | Unsupp \<Rightarrow> error_carry (set_AL 0 r) s
      | Real_exit \<Rightarrow> s
      | Dispatch \<Rightarrow> s)"

text \<open>A server call goes round again with the registers of its block; \<open>n\<close> bounds how often.\<close>

fun int21_dispatch :: "('c, 'd) around \<Rightarrow> 'd limits \<Rightarrow> nat \<Rightarrow> lregs \<Rightarrow> (unit, 'c, 'd) call" where
  "int21_dispatch A B 0 r s = None"
| "int21_dispatch A B (Suc n) r s =
     (let s1 = before_call (AH r) s in
      andthen (if checks_break (AH r) s1 then break_check A (io_fuel B) s1 else ret () s1) (\<lambda>_ s2.
        andthen (int21_function A B r s2) (\<lambda>(l, r1) s3.
          if l = Dispatch then int21_dispatch A B n r1 s3 else ret () (finish l r1 s3))))"

definition int21_service :: "('c, 'd) around \<Rightarrow> 'd limits \<Rightarrow> nat \<Rightarrow> (unit, 'c, 'd) call" where
  "int21_service A B n s =
     int21_dispatch A B n (lregs.truncate (caller_regs s)) (upd_fs (upd_psp (this_psp s) (\<lambda>p. p\<lparr>ps_stack := user_r s\<rparr>)) s)"

section \<open>The functions without a switch of stacks\<close>

definition syscall_33 :: "places \<Rightarrow> iregs \<Rightarrow> dos_vars \<Rightarrow> u8 \<Rightarrow> iregs \<times> dos_vars" where
  "syscall_33 L r v major =
     (let al = lo8 (AX r); dl = lo8 (DX r); put_dl = (\<lambda>b r. r\<lparr>DX := set_lo b (DX r)\<rparr>) in
      if al = 0x00 then (put_dl (break_ena v) r, v)
      else if al = 0x01 then (put_dl (dl AND 1) r, v\<lparr>break_ena := dl AND 1\<rparr>)
      else if al = 0x02 then (put_dl (break_ena v) r, v\<lparr>break_ena := dl AND 1\<rparr>)
      else if al = 0x05 then (put_dl (BootDrive v) r, v)
      else if al = 0x06 then (r\<lparr>BX := mk16 major (os_minor v), DX := mk16 0 (version_flags v)\<rparr>, v)
      else if al = 0xfa then (r\<lparr>AX := set_lo (CPULevel v) (AX r)\<rparr>, v)
      else if al = 0xfc then (r, v\<lparr>os_setver_major := lo8 (BX r), os_setver_minor := hi8 (BX r)\<rparr>)
      else if al = 0xff then (r\<lparr>DX := fst (os_release L), AX := snd (os_release L)\<rparr>, v)
      else (r\<lparr>AX := set_lo 0xff (AX r)\<rparr>, v))"

definition int21_syscall :: "('c, 'd) around \<Rightarrow> ('c, 'd) dos \<Rightarrow> ('c, 'd) dos" where
  "int21_syscall A s0 =
     (let r = caller_regs s0; ah = hi8 (AX r); s = upd_dv (\<lambda>v. v\<lparr>Int21AX := AX r\<rparr>) s0 in
      if ah = 0x33 then
        (case syscall_33 (lay A) r (dv s) (os_major (fss s)) of
           (r1, v) \<Rightarrow> upd_mem (st_iregs (user_r s) r1) (s\<lparr>dv := v\<rparr>))
      else if ah = 0x50 then upd_fs (\<lambda>g. g\<lparr>fsys.cu_psp := BX r\<rparr>) s
      else if ah = 0x51 \<or> ah = 0x62 then upd_mem (st_iregs (user_r s) (r\<lparr>BX := this_psp s\<rparr>)) s
      else s)"

section \<open>Interrupts 25 and 26\<close>

record int25regs =
  r_ax :: u16
  r_bx :: u16
  r_cx :: u16
  r_dx :: u16
  r_ds :: u16
  r_flags :: u16

definition set_carry :: "bool \<Rightarrow> int25regs \<Rightarrow> int25regs" where
  "set_carry on r = r\<lparr>r_flags := (if on then r_flags r OR FLG_CARRY else r_flags r AND NOT FLG_CARRY)\<rparr>"

definition block_of :: "umem \<Rightarrow> int25regs \<Rightarrow> u32 \<times> u16 \<times> far" where
  "block_of m r =
     (let p = (r_ds r, r_bx r)
      in if r_cx r = 0xffff then (ld32 m p, ld16 m (far_add p 4), ld_far m (far_add p 6)) else (ucast (r_dx r), r_cx r, p))"

definition forget_block :: "('c, 'd) around \<Rightarrow> u32 \<Rightarrow> u8 \<Rightarrow> (unit, 'c, 'd) call" where
  "forget_block A blk drv =
     sys_opt (\<lambda>g. map_option (\<lambda>e. ((), g\<lparr>fio := e\<rparr>)) (DeleteBlockInBufferCache (blk_drv (outer A)) blk blk drv delete_mode.XFR_WRITE (fio g)))"

definition int2526_handler :: "('c, 'd) around \<Rightarrow> u16 \<Rightarrow> int25regs \<Rightarrow> (int25regs, 'c, 'd) call" where
  "int2526_handler A mode r s =
     (let drv = lo8 (r_ax r) AND 0x7f; e = fio (fss s); d = get_dpb (unat drv) e; writing = (mode = 0x26);
          in_dos = (\<lambda>f. upd_ks (\<lambda>k. k\<lparr>InDOS := f (InDOS k)\<rparr>))
      in case d of
           None \<Rightarrow> ret (set_carry True (r\<lparr>r_ax := 0x201\<rparr>)) s
         | Some p \<Rightarrow>
             if unat drv \<ge> length (cds_table e) then ret (set_carry True (r\<lparr>r_ax := 0x201\<rparr>)) s
             else if r_dx r \<noteq> 0 \<and> ISFAT32 (dpbs e p) \<and> dpb_xfatsize (dpbs e p) \<noteq> 0
             then ret (set_carry True (r\<lparr>r_ax := 0x207\<rparr>)) s
             else
               (case block_of (umem s) r of
                  (blkno, n, buf) \<Rightarrow>
                    andthen (if writing then forget_block A blkno drv (in_dos (\<lambda>x. x + 1) s) else ret () (in_dos (\<lambda>x. x + 1) s)) (\<lambda>_ s1.
                      andthen (sectors_call A (unat drv) blkno buf n (if writing then DSKWRITEINT26 else DSKREADINT25) s1) (\<lambda>ax s2.
                        andthen (if ax \<noteq> 0 \<and> writing then invalidate drv s2 else ret () s2) (\<lambda>_ s3.
                          ret (set_carry (ax \<noteq> 0) (r\<lparr>r_ax := ax\<rparr>)) (in_dos (\<lambda>x. x - 1) s3))))))"

end
