(* ===== verification/Console_Props.thy ===== *)
theory Console_Props
  imports Console Handle_Props
begin

text \<open>
  The line editor stays in its buffers. \<open>post\<close> is what holds when a call returns; the locale \<open>console\<close> is what
  \<^verbatim>\<open>read_line\<close> needs of the calls it is built from, the interpretation shows it of \<^verbatim>\<open>DosRWSft\<close> and
  \<^verbatim>\<open>read_char\<close>, which in turn read lines.
\<close>

section \<open>What holds when a call returns\<close>

definition post :: "('a outcome \<times> 's) option \<Rightarrow> ('a \<Rightarrow> 's \<Rightarrow> bool) \<Rightarrow> bool" where
  "post m Q \<longleftrightarrow> (\<forall>x s. m = Some (Ret x, s) \<longrightarrow> Q x s)"

lemma post_ret [simp]: "post (ret x s) Q = Q x s"
  by (auto simp: post_def ret_def)

lemma post_fails [simp]: "post None Q" "post (Some (Away w, s)) Q"
  by (auto simp: post_def)

lemma post_andthen: "post (andthen m f) Q = post m (\<lambda>x s. post (f x s) Q)"
  by (auto simp: post_def andthen_def split: option.splits outcome.splits)

lemma post_weaken: "post m P \<Longrightarrow> (\<And>x s. P x s \<Longrightarrow> Q x s) \<Longrightarrow> post m Q"
  by (auto simp: post_def)

lemma post_if: "(b \<Longrightarrow> post m Q) \<Longrightarrow> (\<not> b \<Longrightarrow> post n Q) \<Longrightarrow> post (if b then m else n) Q"
  by simp

lemma post_then: "post m P \<Longrightarrow> (\<And>x s. P x s \<Longrightarrow> post (f x s) Q) \<Longrightarrow> post (andthen m f) Q"
  unfolding post_andthen by (rule post_weaken)

section \<open>The buffers of the console\<close>

text \<open>The two line buffers of the kernel have their sizes.\<close>

definition con_ok :: "('c, 'd) kstate \<Rightarrow> bool" where
  "con_ok s \<longleftrightarrow> length (local_buffer s) = LINEBUFSIZE0A \<and> length (kb_buf (con_kb s)) = LINEBUFSIZECON + 1"

lemma con_ok_upd [simp]:
  "con_ok (s\<lparr>fs := f\<rparr>) = con_ok s" "con_ok (s\<lparr>scr_pos := p\<rparr>) = con_ok s" "con_ok (s\<lparr>cb_flg := b\<rparr>) = con_ok s"
  "con_ok (s\<lparr>cb_events := es\<rparr>) = con_ok s" "con_ok (s\<lparr>fast_out := cs\<rparr>) = con_ok s"
  by (simp_all add: con_ok_def)

lemma con_ok_steps [simp]:
  "con_ok (update_scr_pos c n s) = con_ok s" "con_ok (move_cursor cs s) = con_ok s" "con_ok (on_entry q g s) = con_ok s"
  by (induction cs arbitrary: s) (simp_all add: update_scr_pos_def on_entry_def)

lemma on_chars_ok: "on_chars f s = (x, s') \<Longrightarrow> con_ok s' = con_ok s"
  by (auto simp: on_chars_def split: prod.splits)

lemma find_sft_ok: "find_sft i s = (q, s') \<Longrightarrow> con_ok s' = con_ok s"
  by (auto simp: find_sft_def split: prod.splits)

lemma ctrl_break_ok: "ctrl_break_pressed s = (b, s') \<Longrightarrow> con_ok s' = con_ok s"
  by (auto simp: ctrl_break_pressed_def Let_def)

lemmas step_ok = on_chars_ok find_sft_ok ctrl_break_ok

section \<open>The editor over any console\<close>

locale console =
  fixes rw :: "('c, 'd) rw_fn" and rd :: "('c, 'd) kstate \<Rightarrow> (u8, 'c, 'd) result"
  assumes rw_ok: "con_ok s \<Longrightarrow> post (rw i n p buf mode s) (\<lambda>_. con_ok)"
    and rd_ok: "con_ok s \<Longrightarrow> post (rd s) (\<lambda>_. con_ok)"
begin

lemma write_char_ok: "con_ok s \<Longrightarrow> post (write_char rw c i s) (\<lambda>_. con_ok)"
  unfolding write_char_def by (rule post_then [OF rw_ok]) simp_all

lemma write_chars_ok: "con_ok s \<Longrightarrow> post (write_chars rw cs i s) (\<lambda>_. con_ok)"
  by (induction cs arbitrary: s) (auto intro: post_then [OF write_char_ok])

lemma echo_char_ok: "con_ok s \<Longrightarrow> post (echo_char rw c i s) (\<lambda>_. con_ok)"
  by (simp add: echo_char_def write_char_ok write_chars_ok del: write_chars.simps)

lemma destr_bs_ok: "con_ok s \<Longrightarrow> post (destr_bs rw i s) (\<lambda>_. con_ok)"
  unfolding destr_bs_def by (rule write_chars_ok)

end

text \<open>The line in the making fits the buffer of the caller, whose part behind it is not touched.\<close>

definition buffer_kept :: "keyboard \<Rightarrow> keyboard \<Rightarrow> bool" where
  "buffer_kept kp kq \<longleftrightarrow> kb_size kq = kb_size kp \<and> length (kb_buf kq) = length (kb_buf kp)
     \<and> drop (unat (kb_size kp)) (kb_buf kq) = drop (unat (kb_size kp)) (kb_buf kp)"

definition line_ok :: "keyboard \<Rightarrow> editor \<Rightarrow> bool" where
  "line_ok kp ed \<longleftrightarrow> buffer_kept kp (ed_kp ed) \<and> unat (ed_count ed) < unat (kb_size kp)"

definition line_done :: "keyboard \<Rightarrow> editor \<Rightarrow> ('c, 'd) kstate \<Rightarrow> bool" where
  "line_done kp ed s \<longleftrightarrow> buffer_kept kp (ed_kp ed) \<and> 0 < unat (ed_count ed) \<and> unat (ed_count ed) \<le> unat (kb_size kp)
     \<and> local_buffer s ! (unat (ed_count ed) - 1) = CR"

lemma line_ok_simps [simp]:
  "line_ok kp (ed\<lparr>stored_pos := n\<rparr>) = line_ok kp ed" "line_ok kp (ed\<lparr>stored_size := n\<rparr>) = line_ok kp ed"
  "line_ok kp (ed\<lparr>ed_insert := b\<rparr>) = line_ok kp ed" "line_ok kp (ed\<lparr>ed_first := b\<rparr>) = line_ok kp ed"
  "line_done kp (ed\<lparr>stored_pos := n\<rparr>) s = line_done kp ed s" "line_done kp (ed\<lparr>ed_first := b\<rparr>) s = line_done kp ed s"
  by (simp_all add: line_ok_def line_done_def)

lemma put_local_ok:
  assumes "con_ok s" "unat (ed_count ed) < LINEBUFSIZE0A"
  shows "post (put_local c ed s) (\<lambda>ed' s'. ed' = ed\<lparr>ed_count := ed_count ed + 1\<rparr> \<and> con_ok s'
    \<and> local_buffer s' ! unat (ed_count ed) = c)"
  using assms by (simp add: put_local_def con_ok_def)

lemma count_Suc:
  assumes "line_ok kp ed"
  shows "unat (ed_count ed) < LINEBUFSIZE0A" "unat (ed_count ed + 1) = unat (ed_count ed) + 1"
proof -
  show a: "unat (ed_count ed) < LINEBUFSIZE0A" 
    using order_less_trans [OF _ unat8_lt] assms by (auto simp: line_ok_def LINEBUFSIZE0A_def)
  then show "unat (ed_count ed + 1) = unat (ed_count ed) + 1" by (simp add: unat_word_ariths LINEBUFSIZE0A_def)
qed

lemma room_left:
  assumes "line_ok kp ed" "ed_count ed < ed_size ed - 1"
  shows "line_ok kp (ed\<lparr>ed_count := ed_count ed + 1\<rparr>)"
proof -
  have s: "unat (ed_size ed) = unat (kb_size kp)" "0 < unat (kb_size kp)"
    using assms(1) by (auto simp: line_ok_def ed_size_def buffer_kept_def)
  then have "unat (ed_size ed - 1) = unat (kb_size kp) - 1" by (simp add: unat_sub_if')
  then have "unat (ed_count ed) + 1 < unat (kb_size kp)" using assms(2) s by (simp add: word_less_nat_alt)
  then show ?thesis using assms(1) count_Suc [OF assms(1)] by (simp add: line_ok_def)
qed

context console
begin

lemma copy_stored_ok:
  "con_ok s \<Longrightarrow> line_ok kp ed \<Longrightarrow> post (copy_stored rw out m ed s) (\<lambda>ed' s'. con_ok s' \<and> line_ok kp ed')"
proof (induction m arbitrary: ed s)
  case (Suc m)
  let ?ed = "ed\<lparr>stored_pos := stored_pos ed + 1\<rparr>"
  have put: "post (put_local c ?ed s1) (\<lambda>ed' s'. con_ok s' \<and> line_ok kp ed')" if "con_ok s1" "ed_count ed < ed_size ed - 1" for c s1
  proof (rule post_weaken [OF put_local_ok])
    show "unat (ed_count ?ed) < LINEBUFSIZE0A" using count_Suc(1) [OF Suc.prems(2)] by simp
    have "line_ok kp (?ed\<lparr>ed_count := ed_count ed + 1\<rparr>)" using room_left [OF Suc.prems(2) that(2)] by (simp add: line_ok_def)
    then show "con_ok s' \<and> line_ok kp ed'" if "ed' = ?ed\<lparr>ed_count := ed_count ?ed + 1\<rparr> \<and> con_ok s'
      \<and> local_buffer s' ! unat (ed_count ?ed) = c" for ed' s'
      using that by simp
  qed (rule that)
  show ?case
  proof (cases "ed_count ed < ed_size ed - 1")
    case True
    show ?thesis unfolding copy_stored.simps if_P [OF True] Let_def
      by (rule post_then [OF echo_char_ok [OF Suc.prems(1)]], rule post_then [OF put], assumption, rule True, rule Suc.IH) auto
  next
    case False
    then show ?thesis using Suc.prems by simp
  qed
qed simp

lemma copy_until_ok:
  "con_ok s \<Longrightarrow> line_ok kp ed \<Longrightarrow> post (copy_until rw out p ed s) (\<lambda>ed' s'. con_ok s' \<and> line_ok kp ed')"
  unfolding copy_until_def by (rule copy_stored_ok)

end

lemma keep_line_kept:
  assumes "con_ok s" "buffer_kept kp (ed_kp ed)" "unat (ed_count ed) \<le> unat (kb_size kp)" "unat (kb_size kp) \<le> length (kb_buf kp)"
  shows "buffer_kept kp (keep_line ed s)"
    and "i < unat (ed_count ed) \<Longrightarrow> kb_buf (keep_line ed s) ! i = local_buffer s ! i"
proof -
  have l: "length (local_buffer s) = 256" using assms(1) by (simp add: con_ok_def LINEBUFSIZE0A_def)
  have c: "unat (ed_count ed) < 256" using assms(3) unat8_lt [of "kb_size kp"] by (rule le_less_trans)
  show "buffer_kept kp (keep_line ed s)"
    using assms(2-4) l c by (auto simp: buffer_kept_def keep_line_def fmemcpy_def min_def)
  show "i < unat (ed_count ed) \<Longrightarrow> kb_buf (keep_line ed s) ! i = local_buffer s ! i"
    using l c by (simp add: keep_line_def fmemcpy_def nth_append)
qed

context console
begin

lemma wipe_tab_ok: "con_ok s \<Longrightarrow> post (wipe_tab rw out n p s) (\<lambda>_. con_ok)"
  by (induction n arbitrary: s) (auto intro!: post_then [OF destr_bs_ok])

lemma back_space_ok:
  assumes "con_ok s" "line_ok kp ed"
  shows "post (back_space rw out n cu ed s) (\<lambda>ed' s'. con_ok s' \<and> line_ok kp ed')"
proof (cases "ed_count ed = 0")
  case True
  then show ?thesis using assms by (simp add: back_space_def)
next
  case False
  let ?ed = "ed\<lparr>ed_count := ed_count ed - 1\<rparr>"
  have "unat (ed_count ed - 1) \<le> unat (ed_count ed)" using False by (simp add: unat_sub_if' Suc_le_eq unat_gt_0)
  then have l: "line_ok kp ?ed" using assms(2) by (auto simp: line_ok_def)
  have two: "post (andthen (if b then destr_bs rw out s else ret () s) (\<lambda>_ s1. andthen (destr_bs rw out s1) (\<lambda>_. ret e)))
      (\<lambda>ed' s'. con_ok s' \<and> line_ok kp ed')" if "line_ok kp e" for b e
    using that by (auto intro!: post_then [where P = "\<lambda>_. con_ok"] destr_bs_ok assms(1))
  show ?thesis unfolding back_space_def Let_def if_not_P [OF False]
    using l two by (auto intro!: post_then [OF wipe_tab_ok] assms(1))
qed

lemma start_new_line_ok:
  assumes "con_ok s" "line_ok kp ed"
  shows "post (start_new_line rw out cu ed s) (\<lambda>ed' s'. con_ok s' \<and> line_ok kp ed')"
  unfolding start_new_line_def
  by (rule post_then [OF write_chars_ok]) (use assms in \<open>auto simp: line_ok_def\<close>)

lemma type_char_ok:
  assumes "con_ok s" "line_ok kp ed"
  shows "post (type_char rw out c ed s) (\<lambda>ed' s'. con_ok s' \<and> (if c = ucast CR then line_done kp ed' s' else line_ok kp ed'))"
    (is "post _ ?Q")
proof (cases "c \<ge> 256 \<or> \<not> (ed_count ed < ed_size ed - 1 \<or> c = ucast CR)")
  case True
  then have n: "c \<noteq> ucast CR" by (auto simp: CR_def)
  show ?thesis using True assms n
    by (auto simp: type_char_def intro!: post_then [OF post_then [where Q = "\<lambda>ed' s'. con_ok s' \<and> line_ok kp ed'", OF write_char_ok]])
next
  case False
  have put: "post (put_local (ucast c) ed s1) ?Q" if "con_ok s1" for s1
  proof (rule post_weaken [OF put_local_ok [OF that count_Suc(1) [OF assms(2)]]], elim conjE)
    fix ed' and s' :: "('c, 'd) kstate"
    assume h: "ed' = ed\<lparr>ed_count := ed_count ed + 1\<rparr>" "con_ok s'" "local_buffer s' ! unat (ed_count ed) = ucast c"
    have "ucast (ucast CR :: u16) = CR" by (simp add: CR_def)
    then show "?Q ed' s'"
      using h count_Suc [OF assms(2)] assms(2) room_left [OF assms(2)] False
      by (auto simp: line_ok_def line_done_def Suc_le_eq)
  qed
  show ?thesis using False
    by (auto simp: type_char_def intro!: post_then [where P = ?Q] post_then [OF echo_char_ok [OF assms(1)]] put split: if_splits)
qed

lemma ed_key_ok:
  assumes "con_ok s" "line_ok kp ed" "unat (kb_size kp) \<le> length (kb_buf kp)"
  shows "post (ed_key rw rd out n cu c ed s) (\<lambda>(c', ed') s'. con_ok s' \<and> (if c' = ucast CR then line_done kp ed' s' else line_ok kp ed'))"
    (is "post _ ?Q")
proof -
  let ?P = "\<lambda>ed' s'. con_ok s' \<and> line_ok kp ed'"
  have result: "post (andthen m (\<lambda>ed1. ret (c, ed1))) ?Q" if "post m ?P" "c \<noteq> ucast CR" for m
    using that by (auto intro: post_then)
  have new: "post (ret e s1) ?P" if "line_ok kp e" "con_ok s1" for e s1 using that by simp
  have echo: "post (andthen (write_char rw ch out s) (\<lambda>_. start_new_line rw out cu e)) ?P" if "line_ok kp e" for ch e
    by (rule post_then [OF write_char_ok [OF assms(1)]]) (rule start_new_line_ok [OF _ that])
  have f5: "line_ok kp (ed\<lparr>ed_kp := keep_line ed s, stored_size := ed_count ed\<rparr>)"
    using keep_line_kept(1) [OF assms(1) _ _ assms(3)] assms(2) by (simp add: line_ok_def)
  have lf: "post (andthen (write_chars rw [CR, LF] out s) (\<lambda>_. ret ed)) ?P"
    by (rule post_then [OF write_chars_ok [OF assms(1)]]) (simp add: assms(2))
  have find: "post (andthen (rd s) (\<lambda>c2 s1.
        andthen (if c2 = 0 then andthen (rd s1) (\<lambda>_. ret (stored_pos ed)) else ret (find_stored c2 ed) s1) (\<lambda>new_pos s2.
          andthen (if b then copy_until rw out new_pos ed s2 else ret ed s2) (\<lambda>ed1.
            ret (ed1\<lparr>stored_pos := new_pos\<rparr>))))) ?P" for b
    by (rule post_then [OF rd_ok [OF assms(1)]], rule post_then [where P = "\<lambda>_. con_ok"], force intro: post_then [OF rd_ok],
        rule post_then [where P = ?P], rule post_if) (simp_all add: copy_until_ok assms(2))
  have f3: "post (andthen (copy_until rw out p ed s) (\<lambda>ed1. ret (ed1\<lparr>stored_pos := p\<rparr>))) ?P" for p
    by (rule post_then [OF copy_until_ok [OF assms(1,2)]]) simp
  have typed: "post (andthen (type_char rw out k ed s) (\<lambda>ed1. ret (k, ed1))) ?Q" for k
    by (rule post_then [OF type_char_ok [OF assms(1,2)]]) simp
  note keys = CTL_F_def ESC_def CTL_BS_def INS_def DEL_def F1_def F2_def F3_def F4_def F5_def F6_def LEFT_def RIGHT_def CR_def LF_def BS_def
  show ?thesis unfolding ed_key_def Let_def
    by (intro post_if result new lf find f3 typed echo f5 copy_stored_ok back_space_ok assms(1,2)) (auto simp: keys assms(1,2))
qed

lemma ed_loop_ok:
  "con_ok s \<Longrightarrow> line_ok kp ed \<Longrightarrow> unat (kb_size kp) \<le> length (kb_buf kp)
    \<Longrightarrow> post (ed_loop rw rd out n cu ed s) (\<lambda>ed' s'. con_ok s' \<and> line_done kp ed' s')"
proof (induction n arbitrary: ed s)
  case (Suc n)
  have key: "post (if c0 = 0 then andthen (rd s1) (\<lambda>c1. ret (mk16 0 c1)) else ret (ucast c0) s1) (\<lambda>_. con_ok)" if "con_ok s1" for c0 s1
    using that by (auto intro: post_then [OF rd_ok])
  show ?case unfolding ed_loop.simps
    by (rule post_then [OF rd_ok [OF Suc.prems(1)]], rule post_then [OF key], assumption,
      rule post_then [OF ed_key_ok [OF _ Suc.prems(2,3)]], assumption)
      (auto intro!: post_if Suc.IH Suc.prems(3) split: if_splits)
qed simp

lemma read_line_ok:
  assumes "con_ok s" "kb_size kp \<noteq> 0" "unat (kb_size kp) \<le> length (kb_buf kp)"
  shows "post (read_line rw rd out n kp s) (\<lambda>kq s'. con_ok s' \<and> buffer_kept kp kq \<and> kb_count kq < kb_size kp
    \<and> kb_buf kq ! unat (kb_count kq) = CR)"
    (is "post _ ?Q")
proof -
  have end_line: "?Q ((keep_line ed s1)\<lparr>kb_count := ucast (ed_count ed - 1)\<rparr>) s2"
    if h: "con_ok s1 \<and> line_done kp ed s1" and s2: "con_ok s2" for ed s1 s2
  proof -
    have d: "buffer_kept kp (ed_kp ed)" "0 < unat (ed_count ed)" "unat (ed_count ed) \<le> unat (kb_size kp)"
      "local_buffer s1 ! (unat (ed_count ed) - 1) = CR"
      using h by (simp_all add: line_done_def)
    have u: "unat (ed_count ed - 1) = unat (ed_count ed) - 1" using d(2) by (simp add: unat_sub_if' Suc_le_eq)
    have "unat (ed_count ed) - 1 < 256" using le_less_trans [OF d(3) unat8_lt] by simp
    then have c: "unat (ucast (ed_count ed - 1) :: u8) = unat (ed_count ed) - 1"
      by (simp add: unat_ucast_16_8 u)
    show ?thesis
      using keep_line_kept(1) [of s1 kp ed] keep_line_kept(2) [of s1 kp ed "unat (ed_count ed) - 1"] h d c s2 assms(3)
      by (simp add: buffer_kept_def word_less_nat_alt)
  qed
  have first: "line_ok kp \<lparr>ed_count = 0, stored_pos = 0, stored_size = k, ed_insert = False, ed_first = True, ed_kp = kp\<rparr>" for k
    using assms(2) by (simp add: line_ok_def buffer_kept_def unat_gt_0)
  have over: "con_ok (s1\<lparr>con_kb := (con_kb s1)\<lparr>kb_size := 0\<rparr>\<rparr>)" if "con_ok s1" for s1 :: "('c, 'd) kstate"
    using that by (simp add: con_ok_def)
  show ?thesis unfolding read_line_def if_not_P [OF assms(2)] Let_def
    by (rule post_then [OF ed_loop_ok [OF assms(1) first assms(3)]], unfold post_ret, rule end_line, assumption) (auto intro: over)
qed

end

section \<open>The calls of the console\<close>

locale console_io =
  fixes ou :: "('c, 'd) outside" and cw :: "('c, 'd) cooked_fn" and rw :: "('c, 'd) rw_fn"
  assumes cooked_ok: "con_ok s \<Longrightarrow> post (cw k buf s) (\<lambda>_. con_ok)"
    and transfer_ok: "con_ok s \<Longrightarrow> post (rw i n p buf mode s) (\<lambda>_. con_ok)"
begin

lemma handle_break_ok: "post (handle_break ou cw rw pdev out s) Q"
  by (auto simp: handle_break_def Let_def post_andthen post_def andthen_def split: option.splits outcome.splits)

lemma check_handle_break_ok:
  assumes "con_ok s"
  shows "post (check_handle_break ou cw rw k s) (\<lambda>_. con_ok)"
  using assms by (auto simp: check_handle_break_def handle_break_ok split: prod.splits dest!: step_ok)

lemma wait_char_ok: "con_ok s \<Longrightarrow> post (wait_char ou cw rw n k check s) (\<lambda>_. con_ok)"
proof (induction n arbitrary: s)
  case (Suc n)
  then show ?case
    by (auto split: prod.splits bool.splits dest!: step_ok intro!: post_then [where P = "\<lambda>_. con_ok"] check_handle_break_ok)
qed simp

lemma read_dev_ok: "con_ok s \<Longrightarrow> post (read_dev ou cw rw n check i pdev s) (\<lambda>_. con_ok)"
  by (auto simp: read_dev_def wait_char_ok split: option.splits intro!: post_then [OF transfer_ok])

lemma read_char_plain_ok: "con_ok s \<Longrightarrow> post (read_char_plain ou cw rw n i s) (\<lambda>_. con_ok)"
  by (auto simp: read_char_plain_def split: prod.splits dest!: step_ok intro!: post_then [OF read_dev_ok])

lemma read_char_sft_dev_ok: "con_ok s \<Longrightarrow> post (read_char_sft_dev ou cw rw n i out pdev check s) (\<lambda>_. con_ok)"
  by (auto simp: read_char_sft_dev_def handle_break_ok
      intro!: post_then [where P = "\<lambda>_. con_ok"] read_dev_ok read_char_plain_ok)

lemma raw_get_char_ok: "con_ok s \<Longrightarrow> post (raw_get_char ou cw rw n k check s) (\<lambda>_. con_ok)"
  unfolding raw_get_char_def by (rule read_char_sft_dev_ok)

lemma read_char_ok: "con_ok s \<Longrightarrow> post (read_char ou cw rw n i out check s) (\<lambda>_. con_ok)"
  by (auto simp: read_char_def split: prod.splits dest!: step_ok intro!: post_then [OF read_char_sft_dev_ok])

lemma cooked_read_ok: "con_ok s \<Longrightarrow> post (cooked_read ou cw rw n k m buf xfer s) (\<lambda>_. con_ok)"
proof (induction m arbitrary: buf xfer s)
  case (Suc m)
  then show ?case by (auto simp: Let_def intro!: post_then [OF raw_get_char_ok])
qed simp

end

sublocale console_io \<subseteq> line: console rw "read_char ou cw rw n i out check" for n i out check
  by unfold_locales (fact transfer_ok read_char_ok)+

context console_io
begin

lemma out_loop_ok: "con_ok s \<Longrightarrow> post (out_loop ou cw rw n k c m fast s) (\<lambda>_. con_ok)"
proof (induction m arbitrary: fast s)
  case (Suc m)
  show ?case unfolding out_loop.simps Let_def
    by (intro post_then [where P = "\<lambda>_. con_ok"] post_if check_handle_break_ok raw_get_char_ok transfer_ok Suc)
      (auto simp: Suc split: prod.splits sum.splits dest!: step_ok)
qed simp

lemma cooked_loop_ok: "con_ok s \<Longrightarrow> post (cooked_loop ou cw rw n k fast cs xfer s) (\<lambda>_. con_ok)"
proof (induction cs arbitrary: fast xfer s)
  case (Cons c cs)
  then show ?case
    by (auto simp: Let_def simp del: out_loop.simps split: prod.splits sum.splits intro!: post_then [OF out_loop_ok])
qed simp

lemma cooked_body_ok: "con_ok s \<Longrightarrow> post (cooked_body ou cw rw n k buf s) (\<lambda>_. con_ok)"
  unfolding cooked_body_def by (rule cooked_loop_ok)

lemma read_line_handle_ok: "con_ok s \<Longrightarrow> post (read_line_handle ou cw rw n i m buf s) (\<lambda>_. con_ok)"
proof -
  assume ok: "con_ok s"
  define s1 where "s1 = (if unat (kb_size (con_kb s)) \<noteq> LINEBUFSIZECON
                     then s\<lparr>con_kb := (con_kb s)\<lparr>kb_count := 0, kb_size := of_nat LINEBUFSIZECON\<rparr>\<rparr> else s)"
  have s1: "con_ok s1" "unat (kb_size (con_kb s1)) = LINEBUFSIZECON"
    using ok by (auto simp: s1_def con_ok_def LINEBUFSIZECON_def)
  then have k: "kb_size (con_kb s1) \<noteq> 0" "unat (kb_size (con_kb s1)) \<le> length (kb_buf (con_kb s1))"
    by (auto simp: con_ok_def LINEBUFSIZECON_def)
  have new: "post (read_line rw (read_char ou cw rw n i i True) i n (con_kb s1) s1)
      (\<lambda>kq s'. con_ok s' \<and> length (kb_buf kq) = LINEBUFSIZECON + 1)"
    using s1 k by (intro post_weaken [OF line.read_line_ok]) (auto simp: con_ok_def buffer_kept_def)
  have take: "con_ok (s2\<lparr>con_kb := kq\<rparr>)" if "con_ok s2 \<and> length (kb_buf kq) = LINEBUFSIZECON + 1" for kq and s2 :: "('c, 'd) kstate"
    using that by (simp add: con_ok_def)
  have kept: "con_ok (s3\<lparr>con_kb := (con_kb s3)\<lparr>kb_buf := (kb_buf (con_kb s3))[j := c]\<rparr>, inputptr := p\<rparr>)"
    "con_ok (s3\<lparr>inputptr := p\<rparr>)" if "con_ok s3" for j c p and s3 :: "('c, 'd) kstate"
    using that by (simp_all add: con_ok_def)
  show ?thesis unfolding read_line_handle_def Let_def s1_def [symmetric]
    by (intro post_then [where P = "\<lambda>_. con_ok"] post_if post_then [OF new] line.echo_char_ok take)
      (auto simp: kept ok)
qed

lemma rw_binary_ok: "con_ok s \<Longrightarrow> post (rw_binary ou k flags n buf mode s) (\<lambda>_. con_ok)"
  by (auto simp: rw_binary_def split: prod.splits sum.splits dest!: step_ok)

lemma rw_cooked_ok: "con_ok s \<Longrightarrow> post (rw_cooked ou cw rw fuel i q k flags n buf mode s) (\<lambda>_. con_ok)"
  unfolding rw_cooked_def Let_def
  by (intro post_if post_then [where P = "\<lambda>_. con_ok"] read_line_handle_ok cooked_read_ok cooked_ok)
    (auto intro: cooked_ok)

lemma rw_block_ok: "con_ok s \<Longrightarrow> post (rw_block ou i q n fp buf mode s) (\<lambda>_. con_ok)"
  by (auto simp: rw_block_def Let_def split: prod.splits bind_splits)

lemma rw_body_ok: "con_ok s \<Longrightarrow> post (rw_body ou cw rw fuel i n fp buf mode s) (\<lambda>_. con_ok)"
  by (auto simp: rw_body_def Let_def rw_binary_ok rw_cooked_ok rw_block_ok split: prod.splits option.splits dcb_or_dev.splits dest!: step_ok)

end

lemma console_calls_ok: "console_io (cooked_write ou n) (DosRWSft ou n)"
proof (induction n)
  case 0
  show ?case by unfold_locales (simp_all add: cooked_write_simps DosRWSft_simps)
next
  case (Suc n)
  show ?case
    by unfold_locales (simp_all add: cooked_write_simps DosRWSft_simps console_io.cooked_body_ok [OF Suc.IH] console_io.rw_body_ok [OF Suc.IH])
qed

interpretation con_io: console_io ou "cooked_write ou n" "DosRWSft ou n" for ou n
  by (rule console_calls_ok)

text \<open>
  What \<^verbatim>\<open>read_line\<close> leaves in the buffer it was given when it returns, whatever is typed: the characters and the carriage
  return that ends them fit the size of the buffer, the count is that of the characters before it, and the part behind the
  size is as it was.
\<close>

lemma read_line_in_buffer:
  assumes "con_ok s" "kb_size kp \<noteq> 0" "unat (kb_size kp) \<le> length (kb_buf kp)"
    and "read_line (DosRWSft ou m) (read_char ou (cooked_write ou m) (DosRWSft ou m) m i out check) out n kp s = Some (Ret kq, s')"
  shows "con_ok s' \<and> kb_size kq = kb_size kp \<and> length (kb_buf kq) = length (kb_buf kp)
    \<and> drop (unat (kb_size kp)) (kb_buf kq) = drop (unat (kb_size kp)) (kb_buf kp)
    \<and> kb_count kq < kb_size kp \<and> kb_buf kq ! unat (kb_count kq) = CR"
  using con_io.line.read_line_ok [OF assms(1-3), of ou m m i out check out n] assms(4) by (simp add: post_def buffer_kept_def)

text \<open>A kernel whose console is the first device.\<close>

definition demo_ks :: "(unit, nat \<times> u8 \<Rightarrow> u32 \<Rightarrow> bytes) kstate" where
  "demo_ks = \<lparr>fs = demo_fsys, scr_pos = 0, PrinterEcho = False, cb_flg = False, cb_events = [], InDOS = 1, ErrorMode = False,
     syscon = 0, fast_out = [], con_kb = \<lparr>kb_size = 128, kb_count = 0, kb_buf = replicate 129 0\<rparr>,
     local_buffer = replicate 256 0, inputptr = None, uninit = 0\<rparr>"

end
