(* ===== verification/Int21_Props.thy ===== *)
theory Int21_Props
  imports Int21_Service Mem_Props Console_Props
begin

text \<open>
  Properties of the interrupt 21 dispatcher: how the result of a function reaches the frame of the caller, and calls
  followed from the caller's registers through the dispatcher to the memory manager and back.
\<close>

section \<open>Bytes of a block that does not wrap in its segment\<close>

lemma lin_far_add:
  assumes "unat (snd p) + k \<le> 65535"
  shows "lin (far_add p k) = lin p + of_nat k"
proof -
  have a: "unat (snd p + of_nat k) = unat (snd p) + k"
    using assms by (subst unat_word_ariths) (simp add: unat16_of_nat)
  have b: "unat (of_nat k :: u32) = k" using assms by (simp add: unsigned_of_nat take_bit_eq_mod)
  have "ucast (snd p + of_nat k) = (ucast (snd p) + of_nat k :: u32)"
    unfolding word_unat_eq_iff using a b assms by (subst unat_word_ariths) (simp add: unat_ucast_16_32)
  then show ?thesis by (simp add: lin_def far_add_def)
qed

lemma far_add_0 [simp]: "far_add p 0 = p"
  by (simp add: far_add_def)

lemma far_add_far_add [simp]: "far_add (far_add p j) k = far_add p (j + k)"
  by (simp add: far_add_def add.assoc)

lemma unat_Suc_pred:
  assumes "w \<noteq> (0 :: u32)"
  shows "unat w = Suc (unat (w - 1))"
proof -
  have z: "unat w \<noteq> 0" using assms by (simp add: unat_eq_0)
  have e: "unat w = Suc (unat (w - 1)) mod 2 ^ 32" using unat_word_ariths(1) [of "w - 1" 1] by simp
  have "Suc (unat (w - 1)) \<noteq> 2 ^ 32"
  proof
    assume "Suc (unat (w - 1)) = 2 ^ 32"
    with e z show False by simp
  qed
  moreover have "unat (w - 1) < 2 ^ 32" using unsigned_less [of "w - 1"] by simp
  ultimately have "Suc (unat (w - 1)) < 2 ^ 32" by linarith
  then show ?thesis using e by (metis mod_less)
qed

lemma st_bytes_at:
  assumes "unat (snd p) + length bs \<le> 65536"
  shows "st_bytes p bs m a = (if unat (a - lin p) < length bs then bs ! unat (a - lin p) else m a)"
  using assms
proof (induction bs arbitrary: p m)
  case (Cons b bs)
  show ?case
  proof (cases "bs = []")
    case True
    then show ?thesis by (auto simp: unat_eq_0)
  next
    case False
    then have w: "unat (snd p) + 1 \<le> 65535" using Cons.prems by (cases bs) auto
    have s: "unat (snd (far_add p 1)) = unat (snd p) + 1"
      using w by (simp add: far_add_def) (subst unat_word_ariths, simp)
    have l: "lin (far_add p (Suc 0)) = lin p + 1" using lin_far_add [OF w] by simp
    have n: "length bs < 2 ^ 32 - 1" using Cons.prems by simp
    show ?thesis
    proof (cases "a = lin p")
      case True
      have "unat (- 1 :: u32) = 2 ^ 32 - 1" by (simp add: unsigned_minus_1_eq_mask mask_eq_exp_minus_1)
      then have "st_bytes (far_add p 1) bs (m(lin p := b)) a = b"
        using Cons.IH [of "far_add p 1"] Cons.prems s True l n by simp
      then show ?thesis using True by simp
    next
      case False
      then have u: "unat (a - lin p) = Suc (unat (a - (lin p + 1)))"
        using unat_Suc_pred [of "a - lin p"] by (simp add: diff_diff_eq)
      show ?thesis using Cons.IH [of "far_add p 1"] Cons.prems s l u False by simp
    qed
  qed
qed simp

lemma st_bytes_off:
  assumes "unat (snd p) + k + length bs \<le> 65536" "bs \<noteq> []"
  shows "st_bytes (far_add p k) bs m (lin p + of_nat i) =
    (if unat (of_nat i - of_nat k :: u32) < length bs then bs ! unat (of_nat i - of_nat k :: u32) else m (lin p + of_nat i))"
proof -
  have k: "unat (snd p) + k \<le> 65535" using assms by (cases bs) auto
  have "unat (snd (far_add p k)) = unat (snd p) + k"
    using k by (simp add: far_add_def) (subst unat_word_ariths, simp add: unat16_of_nat)
  then show ?thesis using st_bytes_at [of "far_add p k" bs m] assms(1) lin_far_add [OF k] by simp
qed

section \<open>The frame of the caller\<close>

text \<open>A frame lies in its segment without a wrap.\<close>

definition frame_fits :: "('c, 'd) dos \<Rightarrow> bool" where
  "frame_fits s \<longleftrightarrow> unat (snd (user_r s)) \<le> 65512"

lemma ld16_off:
  assumes "unat (snd p) + k \<le> 65534"
  shows "ld16 m (far_add p k) = mk16 (m (lin p + of_nat k)) (m (lin p + of_nat (k + 1)))"
  using assms by (simp add: ld16_def ld8_def lin_far_add del: of_nat_add)

lemma caller_bytes:
  assumes "frame_fits s"
  shows "caller_regs s = (let b = (\<lambda>i. umem s (lin (user_r s) + i)) in
    \<lparr>AX = mk16 (b 0) (b 1), BX = mk16 (b 2) (b 3), CX = mk16 (b 4) (b 5), DX = mk16 (b 6) (b 7), SI = mk16 (b 8) (b 9),
     DI = mk16 (b 10) (b 11), DS = mk16 (b 14) (b 15), ES = mk16 (b 16) (b 17), BP = mk16 (b 12) (b 13), IP = mk16 (b 18) (b 19),
     CS = mk16 (b 20) (b 21), FLAGS = mk16 (b 22) (b 23)\<rparr>)"
  using assms by (simp add: caller_regs_def ld_iregs_def Let_def frame_fits_def ld16_off ld16_off [where k = 0, simplified] del: One_nat_def)

lemma user_r_exit [simp]: "user_r (exit_dispatch r s) = user_r s"
  by (simp add: exit_dispatch_def upd_mem_def Let_def)

lemma user_r_flag [simp]: "user_r (set_flag f on s) = user_r s"
  by (simp add: set_flag_def upd_mem_def Let_def)

lemma umem_exit:
  fixes r :: lregs and s :: "('c, 'd) dos"
  assumes "frame_fits s"
  defines "bs \<equiv> le16 (AX r) @ le16 (BX r) @ le16 (CX r) @ le16 (DX r) @ le16 (SI r) @ le16 (DI r)"
    and "cs \<equiv> le16 (DS r) @ le16 (ES r)"
  shows "umem (exit_dispatch r s) a = (let i = unat (a - lin (user_r s)) in
     if i < 12 then bs ! i else if 14 \<le> i \<and> i < 18 then cs ! (i - 14) else umem s a)"
proof -
  have l: "lin (far_add (user_r s) 14) = lin (user_r s) + 14"
    using assms(1) by (simp add: lin_far_add frame_fits_def)
  have o: "unat (snd (far_add (user_r s) 14)) = unat (snd (user_r s)) + 14"
    using assms(1) by (simp add: far_add_def frame_fits_def unat_word_ariths)
  have n: "length bs = 12" "length cs = 4" by (simp_all add: bs_def cs_def le16_def)
  have e: "umem (exit_dispatch r s) a = st_bytes (far_add (user_r s) 14) cs (st_bytes (user_r s) bs (umem s)) a"
    by (simp add: exit_dispatch_def bs_def cs_def upd_mem_def Let_def)
  have d: "unat (a - (lin (user_r s) + 14)) =
      (if 14 \<le> unat (a - lin (user_r s)) then unat (a - lin (user_r s)) - 14 else unat (a - lin (user_r s)) + 2 ^ 32 - 14)"
    using unat_sub_if' [of "a - lin (user_r s)" 14] by (simp add: diff_diff_eq)
  show ?thesis
    using assms(1) by (simp add: e st_bytes_at n l o d frame_fits_def Let_def) linarith
qed

lemma umem_flag:
  fixes s :: "('c, 'd) dos" and f :: u16 and on :: bool
  assumes "frame_fits s"
  defines "w \<equiv> (if on then FLAGS (caller_regs s) OR f else FLAGS (caller_regs s) AND NOT f)"
  shows "umem (set_flag f on s) a = (let i = unat (a - lin (user_r s)) in
     if i = 22 then lo8 w else if i = 23 then hi8 w else umem s a)"
proof -
  have l: "lin (far_add (user_r s) 22) = lin (user_r s) + 22"
    using assms(1) by (simp add: lin_far_add frame_fits_def)
  have o: "unat (snd (far_add (user_r s) 22)) = unat (snd (user_r s)) + 22"
    using assms(1) by (simp add: far_add_def frame_fits_def unat_word_ariths)
  have e: "umem (set_flag f on s) a = st_bytes (far_add (user_r s) 22) [lo8 w, hi8 w] (umem s) a"
    by (simp add: set_flag_def upd_mem_def st16_def Let_def w_def caller_regs_def ld_iregs_def)
  have d: "unat (a - (lin (user_r s) + 22)) =
      (if 22 \<le> unat (a - lin (user_r s)) then unat (a - lin (user_r s)) - 22 else unat (a - lin (user_r s)) + 2 ^ 32 - 22)"
    using unat_sub_if' [of "a - lin (user_r s)" 22] by (simp add: diff_diff_eq)
  show ?thesis
    using assms(1) by (auto simp add: e st_bytes_at l o d frame_fits_def Let_def less_2_cases_iff simp del: st_bytes.simps)
qed

lemma caller_exit:
  assumes "frame_fits s"
  shows "caller_regs (exit_dispatch r s) = (caller_regs s)\<lparr>AX := AX r, BX := BX r, CX := CX r, DX := DX r, SI := SI r,
    DI := DI r, DS := DS r, ES := ES r\<rparr>"
  using assms by (simp add: caller_bytes frame_fits_def [of "exit_dispatch r s"] frame_fits_def [symmetric] umem_exit Let_def le16_def)

lemma caller_flag:
  assumes "frame_fits s"
  shows "caller_regs (set_flag f on s) =
    (caller_regs s)\<lparr>FLAGS := if on then FLAGS (caller_regs s) OR f else FLAGS (caller_regs s) AND NOT f\<rparr>"
  using assms by (simp add: caller_bytes [of "set_flag f on s"] frame_fits_def [of "set_flag f on s"] frame_fits_def [symmetric] umem_flag Let_def)
    (simp add: caller_bytes Let_def)

lemma frame_exit [simp]: "frame_fits (exit_dispatch r s) = frame_fits s"
  by (simp add: frame_fits_def)

lemma frame_flag [simp]: "frame_fits (set_flag f on s) = frame_fits s"
  by (simp add: frame_fits_def)

text \<open>What the end of a call tells the caller.\<close>

definition reports_error :: "label \<Rightarrow> bool" where
  "reports_error l = (case l of Short_check rc \<Rightarrow> rc < 0 | Long_check rc \<Rightarrow> rc < 0 | Exit_dispatch \<Rightarrow> False | _ \<Rightarrow> True)"

definition result_AX :: "label \<Rightarrow> lregs \<Rightarrow> u16" where
  "result_AX l r = (case l of
       Short_check rc \<Rightarrow> if rc < 0 then of_int (- rc) else AX r
     | Long_check rc \<Rightarrow> of_int \<bar>rc\<bar>
     | Error_exit rc \<Rightarrow> of_int (- rc)
     | Error_invalid \<Rightarrow> 1
     | Unsupp \<Rightarrow> set_lo 0 (AX r)
     | _ \<Rightarrow> AX r)"

lemma user_put_crit [simp]: "user_r (put_crit c s) = user_r s" "umem (put_crit c s) = umem s" "caller_regs (put_crit c s) = caller_regs s"
  "frame_fits (put_crit c s) = frame_fits s"
  by (simp_all add: put_crit_def caller_regs_def frame_fits_def)

lemma exit_outside:
  assumes "frame_fits s" "24 \<le> unat (a - lin (user_r s))"
  shows "umem (exit_dispatch r s) a = umem s a" "umem (set_flag f on s) a = umem s a"
  using assms by (simp_all add: umem_exit umem_flag Let_def)

lemma error_carry_caller:
  assumes "frame_fits s"
  shows "caller_regs (error_carry r s) = (caller_regs s)\<lparr>AX := AX r, BX := BX r, CX := CX r, DX := DX r, SI := SI r,
      DI := DI r, DS := DS r, ES := ES r, FLAGS := FLAGS (caller_regs s) OR FLG_CARRY\<rparr>"
    and "24 \<le> unat (a - lin (user_r s)) \<Longrightarrow> umem (error_carry r s) a = umem s a"
  using assms by (simp_all add: error_carry_def caller_exit caller_flag exit_outside)

text \<open>The labels that come with an error number; the others that set the carry flag leave AX to the function.\<close>

definition error_number :: "label \<Rightarrow> bool" where
  "error_number l = (case l of Short_check rc \<Rightarrow> rc < 0 | Long_check rc \<Rightarrow> rc < 0 | Error_exit rc \<Rightarrow> True | Error_invalid \<Rightarrow> True
     | _ \<Rightarrow> False)"

lemma exit_kernel: "exit_dispatch r s = s\<lparr>umem := umem (exit_dispatch r s)\<rparr>"
  by (simp add: exit_dispatch_def Let_def upd_mem_def)

lemma carry_kernel: "error_carry r s = s\<lparr>umem := umem (error_carry r s)\<rparr>"
  by (simp add: error_carry_def exit_dispatch_def set_flag_def Let_def upd_mem_def)

lemma crit_put [simp]: "crit_code (put_crit c s) = of_int c"
  by (simp add: crit_code_def put_crit_def set_crit_def)

lemma crit_mem [simp]: "crit_code (s\<lparr>umem := m\<rparr>) = crit_code s" "put_crit c (s\<lparr>umem := m\<rparr>) = (put_crit c s)\<lparr>umem := m\<rparr>"
  by (simp_all add: crit_code_def put_crit_def)

lemma error_exit_kernel:
  "error_exit rc r s = (if crit_code s = 0 then put_crit (uint (- of_int rc :: u16)) s else s)\<lparr>umem := umem (error_exit rc r s)\<rparr>"
  unfolding error_exit_def Let_def of_int_minus by (rule carry_kernel)

lemma finish_kernel:
  assumes "l \<noteq> Real_exit" "l \<noteq> Dispatch"
  shows "finish l r s = (if error_number l \<and> crit_code s = 0 then put_crit (uint (result_AX l r)) s else s)
    \<lparr>umem := umem (finish l r s)\<rparr>"
  using assms
proof (cases l)
  case (Short_check rc)
  then show ?thesis using error_exit_kernel [of rc r s] exit_kernel [of r s]
    by (auto simp: finish_def error_number_def result_AX_def)
next
  case (Long_check rc)
  then show ?thesis using error_exit_kernel [of rc r s] exit_kernel [of "r\<lparr>AX := of_int rc\<rparr>" s]
    by (auto simp: finish_def error_number_def result_AX_def)
next
  case (Error_exit rc)
  then show ?thesis using error_exit_kernel [of rc r s] by (auto simp: finish_def error_number_def result_AX_def)
next
  case Error_invalid
  then show ?thesis using error_exit_kernel [of "errno DE_INVLDFUNC" r s]
    by (auto simp: finish_def error_number_def result_AX_def)
qed (use exit_kernel carry_kernel in \<open>auto simp: finish_def error_number_def\<close>)

text \<open>
  C33: the end of every call that goes back through the frame (all labels but the two that go round again or leave the frame
  as it is). The caller finds the general and segment registers the function computed in its frame and its own BP, IP and CS. The carry
  flag is set exactly for the labels that report an error; those that come with a negative result have its negation in AX,
  the others keep the AX of the function (with AL 0 for an unsupported call). The frame apart, no memory of programs changes, and
  the only other change is that the first such number since the code was cleared becomes the code of the critical error.
\<close>

theorem finish_reports_result:
  assumes "frame_fits s" "l \<noteq> Real_exit" "l \<noteq> Dispatch"
  shows "caller_regs (finish l r s) = (caller_regs s)\<lparr>AX := result_AX l r, BX := BX r, CX := CX r, DX := DX r, SI := SI r,
      DI := DI r, DS := DS r, ES := ES r,
      FLAGS := if reports_error l then FLAGS (caller_regs s) OR FLG_CARRY else FLAGS (caller_regs s)\<rparr>
    \<and> (\<forall>a. 24 \<le> unat (a - lin (user_r s)) \<longrightarrow> umem (finish l r s) a = umem s a)
    \<and> finish l r s = (if error_number l \<and> crit_code s = 0 then put_crit (uint (result_AX l r)) s else s)
        \<lparr>umem := umem (finish l r s)\<rparr>
    \<and> crit_code (finish l r s) = (if error_number l \<and> crit_code s = 0 then result_AX l r else crit_code s)"
proof (intro conjI)
  show "finish l r s = (if error_number l \<and> crit_code s = 0 then put_crit (uint (result_AX l r)) s else s)
      \<lparr>umem := umem (finish l r s)\<rparr>"
    by (rule finish_kernel [OF assms(2,3)])
  then show "crit_code (finish l r s) = (if error_number l \<and> crit_code s = 0 then result_AX l r else crit_code s)"
    by (rule ssubst) simp
qed (use assms in \<open>(cases l; auto simp: finish_def error_exit_def Let_def caller_exit error_carry_caller exit_outside result_AX_def
      reports_error_def set_AL_def)+\<close>)

section \<open>A call from its registers to the memory manager and back\<close>

lemma view_flag [simp]: "mm (set_flag f on s) = mm s" "fe (set_flag f on s) = fe s" "dv (set_flag f on s) = dv s"
  by (simp_all add: set_flag_def upd_mem_def Let_def)

lemma view_put_crit [simp]: "mm (put_crit c s) = mm s" "dv (put_crit c s) = dv s" "this_psp (put_crit c s) = this_psp s"
  by (simp_all add: put_crit_def set_crit_def this_psp_def fss_def)

lemma view_ks [simp]: "mm (upd_ks f s) = mm s" "dv (upd_ks f s) = dv s" "umem (upd_ks f s) = umem s" "user_r (upd_ks f s) = user_r s"
  by (simp_all add: upd_ks_def)

lemma view_fs [simp]: "mm (upd_fs f s) = mm s" "dv (upd_fs f s) = dv s" "umem (upd_fs f s) = umem s" "user_r (upd_fs f s) = user_r s"
  by (simp_all add: upd_fs_def)

lemma psp_flag [simp]: "this_psp (set_flag f on s) = this_psp s"
  by (simp add: this_psp_def fss_def)

lemma frame_view [simp]: "frame_fits (upd_fs g s) = frame_fits s" "frame_fits (upd_ks h s) = frame_fits s"
  "caller_regs (upd_fs g s) = caller_regs s" "caller_regs (upd_ks h s) = caller_regs s"
  by (simp_all add: frame_fits_def caller_regs_def)

lemma mode_not_largest: "uint (w :: u8) \<noteq> - 1"
proof -
  have "0 \<le> uint w" by simp
  then show ?thesis by linarith
qed

text \<open>What the dispatcher does before a function that clears the carry flag.\<close>

lemma before_cleared:
  assumes "clears_carry ah" "ah \<noteq> 0x59" "ah > 0x0c" "ah \<noteq> 0x30" "frame_fits s"
  shows "mm (before_call ah s) = mm s" "dv (before_call ah s) = dv s" "this_psp (before_call ah s) = this_psp s"
    "user_r (before_call ah s) = user_r s" "frame_fits (before_call ah s)"
    "caller_regs (before_call ah s) = (caller_regs s)\<lparr>FLAGS := FLAGS (caller_regs s) AND NOT FLG_CARRY\<rparr>"
    "24 \<le> unat (a - lin (user_r s)) \<Longrightarrow> umem (before_call ah s) a = umem s a"
  using assms by (simp_all add: before_call_def Let_def caller_flag exit_outside)
    (simp add: this_psp_def fss_def upd_ks_def put_crit_def set_crit_def)

lemma service_stack:
  "mm (upd_fs (upd_psp p g) s) = mm s" "this_psp (upd_fs (upd_psp p g) s) = this_psp s"
  by (simp_all add: this_psp_def fss_def upd_fs_def upd_psp_def)

lemma on_mm_Some:
  assumes "f ((mm s)\<lparr>mem_state.cu_psp := this_psp s\<rparr>) = Some (x, m)"
  shows "on_mm f s = Some (Ret x, s\<lparr>mm := m\<rparr>)"
  using assms by (simp add: on_mm_def)

text \<open>
  C32: function 48h of interrupt 21, from the registers a program leaves in its frame to the frame it finds on return. When
  some run of free memory is large enough for BX paragraphs under the current strategy, the call returns, AX is the
  segment behind the control block of the run the strategy chooses, BX and all other registers are kept, the carry flag is
  clear, exactly this block is claimed for the current process, and no byte of memory outside the frame changes.
\<close>

theorem int21_allocates_memory:
  fixes s :: "('c, 'd) dos"
  defines "c \<equiv> caller_regs s" and "m \<equiv> (mm s)\<lparr>mem_state.cu_psp := this_psp s\<rparr>" and "mode \<equiv> access_mode s"
  assumes "frame_fits s" "AH (lregs.truncate c) = 0x48" "break_ena (dv s) = 0"
    and "arena m ps" "this_psp s \<noteq> 0" "BX c \<noteq> 0"
    and "fits (BX c) (pass_mode (BX c) mode m ps) m ps \<noteq> []"
  shows "\<exists>r g s' qs. chosen (pass_mode (BX c) mode m ps) (fits (BX c) (pass_mode (BX c) mode m ps) m ps) r
     \<and> g = Mem_Alloc.place (pass_mode (BX c) mode m ps) (BX c) r
     \<and> int21_service A B (Suc n) s = Some (Ret (), s')
     \<and> caller_regs s' = c\<lparr>AX := g + 1, FLAGS := FLAGS c AND NOT FLG_CARRY\<rparr>
     \<and> arena (mm s') qs \<and> allocs (mem (mm s')) qs = insert (g, BX c, this_psp s) (allocs (mem m) ps)
     \<and> (\<forall>a. 24 \<le> unat (a - lin (user_r s)) \<longrightarrow> umem s' a = umem s a)"
proof -
  let ?m = "pass_mode (BX c) mode m ps" and ?r = "lregs.truncate c"
  have sz: "0 < unat (BX c)" using assms(9) by (simp add: unat_gt_0)
  have md: "mode \<noteq> LARGEST" unfolding mode_def access_mode_def LARGEST_def by (rule mode_not_largest)
  obtain r m' qs where r: "chosen ?m (fits (BX c) ?m m ps) r" and cl: "claimed m m' ps qs (Mem_Alloc.place ?m (BX c) r) (BX c)"
    and d: "DosMemAlloc (BX c) mode (Some (BX c)) m = Some (Inr (Mem_Alloc.place ?m (BX c) r), Some (BX c), m')"
    using alloc_result(1) [OF assms(7) md sz assms(10)] by blast
  have own: "mem_state.cu_psp m = this_psp s" by (simp add: m_def)
  define s1 where "s1 = before_call 0x48 (upd_fs (upd_psp (this_psp s) (\<lambda>p. p\<lparr>ps_stack := user_r s\<rparr>)) s)"
  have clr: "clears_carry 0x48" "(0x48 :: u8) \<noteq> 0x59" "(0x48 :: u8) > 0x0c" "(0x48 :: u8) \<noteq> 0x30" by (simp_all add: clears_carry_def)
  note b = before_cleared [OF clr, of "upd_fs (upd_psp (this_psp s) (\<lambda>p. p\<lparr>ps_stack := user_r s\<rparr>)) s", folded s1_def]
  have v: "mm s1 = mm s" "dv s1 = dv s" "this_psp s1 = this_psp s" "user_r s1 = user_r s" "frame_fits s1"
    "caller_regs s1 = c\<lparr>FLAGS := FLAGS c AND NOT FLG_CARRY\<rparr>"
    "24 \<le> unat (a - lin (user_r s)) \<Longrightarrow> umem s1 a = umem s a" for a
    using b assms(4) by (simp_all add: service_stack c_def)
  have bx: "BX ?r = BX c" by (simp add: lregs.truncate_def)
  have al: "mem_alloc (BX c) (access_mode s1) (Some (BX c)) s1
      = Some (Ret (Inr (Mem_Alloc.place ?m (BX c) r), Some (BX c)), s1\<lparr>mm := m'\<rparr>)"
    unfolding mem_alloc_def using d v(1,3) by (intro on_mm_Some) (simp add: m_def mode_def access_mode_def)
  let ?x = "?r\<lparr>AX := Mem_Alloc.place ?m (BX c) r + 1\<rparr>"
  have f: "int21_function A B ?r s1 = Some (Ret (Exit_dispatch, ?x), s1\<lparr>mm := m'\<rparr>)"
    using assms(5) al bx by (simp add: int21_function_def int21_process_def alloc_call_def andthen_def leave_def ret_def Let_def)
  have "\<not> checks_break 0x48 s1" using assms(6) v(2) by (simp add: checks_break_def)
  then have run: "int21_service A B (Suc n) s = Some (Ret (), exit_dispatch ?x (s1\<lparr>mm := m'\<rparr>))"
    using f assms(5) by (simp add: int21_service_def Let_def c_def [symmetric] s1_def [symmetric] andthen_def ret_def finish_def)
  have regs: "caller_regs (exit_dispatch ?x (s1\<lparr>mm := m'\<rparr>)) = c\<lparr>AX := Mem_Alloc.place ?m (BX c) r + 1, FLAGS := FLAGS c AND NOT FLG_CARRY\<rparr>"
    using v(5,6) by (simp add: caller_exit lregs.truncate_def frame_fits_def) (simp add: caller_regs_def)
  have out: "umem (exit_dispatch ?x (s1\<lparr>mm := m'\<rparr>)) a = umem s a" if "24 \<le> unat (a - lin (user_r s))" for a
    using exit_outside(1) [of "s1\<lparr>mm := m'\<rparr>" a ?x] v(4,5) v(7) [OF that] that by (simp add: frame_fits_def)
  have mem: "mm (exit_dispatch ?x (s1\<lparr>mm := m'\<rparr>)) = m'" by (simp add: exit_dispatch_def upd_mem_def Let_def)
  show ?thesis
    using r run regs out claimed_arena [OF cl assms(7)] claimed_allocs(1) [OF cl] assms(8)
    by (intro exI [of _ r] exI [of _ "Mem_Alloc.place ?m (BX c) r"] exI [of _ "exit_dispatch ?x (s1\<lparr>mm := m'\<rparr>)"] exI [of _ qs])
      (simp add: mem own)
qed

section \<open>Witnesses\<close>

text \<open>A program asks for 30h paragraphs: its frame is at 2000:0000.\<close>

definition demo_dos :: "(unit, nat \<times> u8 \<Rightarrow> u32 \<Rightarrow> bytes) dos" where
  "demo_dos =
     \<lparr>fe = \<lparr>ks = demo_ks, dta = (0x100, 0x80), dta_mem = [], wAttr = 0, Dmatch = blank_find, CritErr = 0\<rparr>,
      mm = demo_mem 1, umem = (\<lambda>_. 0)(0x20001 := 0x48, 0x20002 := 0x30), user_r = (0x2000, 0), clock = 0,
      clk_record = \<lparr>clkDays = 0, clkMinutes = 0, clkHours = 0, clkHundredths = 0, clkSeconds = 0\<rparr>, clk_status = 0,
      dv = \<lparr>break_ena = 0, break_flg = False, term_type = 0, return_code = 0, switchar = 0x2f, oem_id = 0xbb, version_flags = 0,
            os_minor = 10, os_setver_major = 7, os_setver_minor = 10, BootDrive = 1, CPULevel = 3, Int21AX = 0, CritErrLocus = 0,
            CritErrClass = 0, CritErrAction = 0, CritErrDev = (0, 0), ReturnAnyDosVersionExpected = False, net_name = replicate 16 0x20,
            NetBios = 0, net_set_count = 0, NetDelay = 1, NetRetry = 3, abort_progress = 0, setverPtr = (0, 0)\<rparr>\<rparr>"

lemma demo_frame: "frame_fits demo_dos" "AX (caller_regs demo_dos) = 0x4800" "BX (caller_regs demo_dos) = 0x30"
  by (simp_all add: frame_fits_def caller_regs_def ld_iregs_def ld16_def ld8_def lin_def far_add_def demo_dos_def mk16_def)

theorem finish_reports_result_witness:
  "caller_regs (finish (Error_exit (- 5)) (lregs.truncate (caller_regs demo_dos)) demo_dos) =
     (caller_regs demo_dos)\<lparr>AX := 5, FLAGS := FLAGS (caller_regs demo_dos) OR FLG_CARRY\<rparr>"
  using finish_reports_result [OF demo_frame(1), of "Error_exit (- 5)" "lregs.truncate (caller_regs demo_dos)"]
  by (simp add: result_AX_def reports_error_def lregs.truncate_def)

theorem int21_allocates_memory_witness:
  "\<forall>A B. \<exists>s' qs. int21_service A B 1 demo_dos = Some (Ret (), s') \<and> AX (caller_regs s') = 0x141 \<and> arena (mm s') qs
     \<and> (0x140, 0x30, 0x100) \<in> allocs (mem (mm s')) qs"
proof (intro allI)
  fix A B
  have ps: "this_psp demo_dos = 0x100" by (simp add: this_psp_def fss_def demo_dos_def demo_ks_def demo_fsys_def)
  let ?m = "(mm demo_dos)\<lparr>mem_state.cu_psp := this_psp demo_dos\<rparr>"
  have ar: "arena ?m (demo_low @ demo_high)" using demo_arena by (simp add: arena_def umb_linked_def demo_dos_def)
  have md: "access_mode demo_dos = FIRST_FIT" by (simp add: access_mode_def demo_dos_def demo_mem_def FIRST_FIT_def)
  have f: "fits 0x30 FIRST_FIT ?m (demo_low @ demo_high) = [(0x140, 0x3f)]"
    using demo_runs by (simp add: fits_def region_def scan_start_def demo_dos_def demo_defs fit_modes umb_linked_def)
  have pm: "pass_mode 0x30 FIRST_FIT ?m (demo_low @ demo_high) = FIRST_FIT"
    using f by (simp add: pass_mode_def fit_modes)
  have h: "AH (lregs.truncate (caller_regs demo_dos)) = 0x48" "break_ena (dv demo_dos) = 0"
    using demo_frame by (simp_all add: lregs.truncate_def hi8_def) (simp add: demo_dos_def)
  obtain r g s' qs where "chosen FIRST_FIT [(0x140, 0x3f)] r" "g = Mem_Alloc.place FIRST_FIT 0x30 r"
    "int21_service A B (Suc 0) demo_dos = Some (Ret (), s')" "AX (caller_regs s') = g + 1" "arena (mm s') qs"
    "(g, 0x30, 0x100) \<in> allocs (mem (mm s')) qs"
    using int21_allocates_memory [OF demo_frame(1) h ar, of A B 0] unfolding demo_frame(3) md ps pm [unfolded ps] f [unfolded ps] by auto
  then show "\<exists>s' qs. int21_service A B 1 demo_dos = Some (Ret (), s') \<and> AX (caller_regs s') = 0x141 \<and> arena (mm s') qs
     \<and> (0x140, 0x30, 0x100) \<in> allocs (mem (mm s')) qs"
    by (intro exI [of _ s'] exI [of _ qs]) (simp add: chosen_def Mem_Alloc.place_def is_first_fit_def is_last_fit_def fit_modes)
qed

end
