(* ===== verification/Console_Typing.thy ===== *)
theory Console_Typing
  imports Console_Props
begin

text \<open>
  A line is read: at a console whose keys are given, \<^verbatim>\<open>read_line\<close> returns, whatever is typed before the carriage return. The
  locale \<open>typing\<close> is what the editor needs of the console calls for that; the interpretation shows it of the kernel's own calls
  over a terminal.
\<close>

section \<open>A terminal\<close>

text \<open>
  \<open>kbd\<close> is what will be typed, read off the state of the device. The driver completes every request without an error, tells
  whether a key waits and which, hands over one key, and takes a character.
\<close>

definition terminal :: "'c driver \<Rightarrow> ('c \<Rightarrow> bytes) \<Rightarrow> bool" where
  "terminal drv kbd \<longleftrightarrow> (\<forall>rq buf d. case drv rq buf d of (rq1, buf1, d1) \<Rightarrow>
     r_status rq1 AND S_ERROR = 0
     \<and> (r_command rq = C_NDREAD \<longrightarrow> kbd d1 = kbd d \<and> (r_status rq1 AND S_BUSY = 0 \<longleftrightarrow> kbd d \<noteq> [])
          \<and> (kbd d \<noteq> [] \<longrightarrow> r_ndbyte rq1 = hd (kbd d)))
     \<and> (r_command rq = C_OUTPUT \<longrightarrow> kbd d1 = kbd d \<and> r_count rq1 = r_count rq)
     \<and> (r_command rq = C_INPUT \<longrightarrow> kbd d \<noteq> [] \<longrightarrow> kbd d1 = tl (kbd d) \<and> r_count rq1 = r_count rq \<and> hd buf1 = hd (kbd d)))"

lemma terminalD:
  assumes "terminal drv kbd" "drv rq buf d = (rq1, buf1, d1)"
  shows "r_status rq1 AND S_ERROR = 0"
    and "r_command rq = C_NDREAD \<Longrightarrow> kbd d1 = kbd d \<and> (r_status rq1 AND S_BUSY = 0 \<longleftrightarrow> kbd d \<noteq> [])
      \<and> (kbd d \<noteq> [] \<longrightarrow> r_ndbyte rq1 = hd (kbd d))"
    and "r_command rq = C_OUTPUT \<Longrightarrow> kbd d1 = kbd d \<and> r_count rq1 = r_count rq"
    and "r_command rq = C_INPUT \<Longrightarrow> kbd d \<noteq> [] \<Longrightarrow> kbd d1 = tl (kbd d) \<and> r_count rq1 = r_count rq \<and> hd buf1 = hd (kbd d)"
  using assms(1) [unfolded terminal_def, rule_format, of rq d buf] assms(2) by auto

lemma CharCmd_terminal:
  assumes "terminal drv kbd"
  shows "\<exists>e'. CharCmd drv C_NDREAD e = e' \<and> kbd (dev e') = kbd (dev e)
    \<and> r_status (CharReqHdr e') AND S_ERROR = 0 \<and> (r_status (CharReqHdr e') AND S_BUSY = 0 \<longleftrightarrow> kbd (dev e) \<noteq> [])
    \<and> (kbd (dev e) \<noteq> [] \<longrightarrow> r_ndbyte (CharReqHdr e') = hd (kbd (dev e)))"
proof -
  let ?rq = "(CharReqHdr e)\<lparr>r_command := C_NDREAD, r_unit := 0, r_status := 0, r_length := req_size\<rparr>"
  obtain rq1 buf1 d1 where d: "drv ?rq [] (dev e) = (rq1, buf1, d1)" by (cases "drv ?rq [] (dev e)")
  note t = terminalD [OF assms d]
  have "CharCmd drv C_NDREAD e = e\<lparr>CharReqHdr := rq1, dev := d1\<rparr>"
    using t(1) by (subst CharCmd.simps) (simp add: CharRequest_def d)
  then show ?thesis using t(1,2) by simp
qed

lemma ndread_terminal:
  assumes "terminal drv kbd"
  shows "\<exists>e'. ndread drv e = (if kbd (dev e) = [] then None else Some (hd (kbd (dev e))), e') \<and> kbd (dev e') = kbd (dev e)"
  using CharCmd_terminal [OF assms, of e] by (simp add: ndread_def Let_def)

lemma Busy_terminal:
  assumes "terminal drv kbd"
  shows "\<exists>e'. Busy drv e = (kbd (dev e) = [], e') \<and> kbd (dev e') = kbd (dev e)"
  using CharCmd_terminal [OF assms, of e] by (auto simp: Busy_def Let_def)

lemma output_terminal:
  assumes "terminal drv kbd"
  shows "\<exists>v e'. CharIO drv c C_OUTPUT e = (v, e') \<and> 0 \<le> v \<and> kbd (dev e') = kbd (dev e)"
proof -
  let ?rq = "(CharReqHdr e)\<lparr>r_count := 1, r_command := C_OUTPUT, r_unit := 0, r_status := 0, r_length := req_size\<rparr>"
  obtain rq1 buf1 d1 where d: "drv ?rq [c] (dev e) = (rq1, buf1, d1)" by (cases "drv ?rq [c] (dev e)")
  note t = terminalD [OF assms d]
  have "BinaryCharIO drv 1 C_OUTPUT [c] e = (Inr (r_count rq1), buf1, e\<lparr>CharReqHdr := rq1, dev := d1\<rparr>)"
    by (rule BinaryCharIO_ok [where drv = drv and buf = "[c]" and e = e and n = 1 and cmd = C_OUTPUT, OF d t(1)])
  then show ?thesis using t(3) by (simp add: CharIO_def)
qed

lemma input_terminal:
  assumes "terminal drv kbd" "kbd (dev e) = k # ks"
  shows "\<exists>e'. CharIO drv c C_INPUT e = (uint k, e') \<and> kbd (dev e') = ks"
proof -
  let ?rq = "(CharReqHdr e)\<lparr>r_count := 1, r_command := C_INPUT, r_unit := 0, r_status := 0, r_length := req_size\<rparr>"
  obtain rq1 buf1 d1 where d: "drv ?rq [c] (dev e) = (rq1, buf1, d1)" by (cases "drv ?rq [c] (dev e)")
  note t = terminalD [OF assms(1) d]
  have "BinaryCharIO drv 1 C_INPUT [c] e = (Inr (r_count rq1), buf1, e\<lparr>CharReqHdr := rq1, dev := d1\<rparr>)"
    by (rule BinaryCharIO_ok [where drv = drv and buf = "[c]" and e = e and n = 1 and cmd = C_INPUT, OF d t(1)])
  then show ?thesis using t(4) assms(2) by (simp add: CharIO_def)
qed

section \<open>At the console\<close>

definition console_sft :: "nat \<Rightarrow> sft \<Rightarrow> bool" where
  "console_sft k t \<longleftrightarrow> sft_count t \<noteq> 0 \<and> sft_dcb t = Dev k \<and> sft_flags t AND SFT_FSHARED = 0
     \<and> sft_flags t AND SFT_FDEVICE \<noteq> 0 \<and> sft_flags t AND SFT_FBINARY = 0 \<and> sft_flags t AND SFT_FNUL = 0"

definition console_entry :: "nat \<Rightarrow> int \<Rightarrow> ('c, 'd) fsys \<Rightarrow> bool" where
  "console_entry k i f \<longleftrightarrow> 0 \<le> i \<and> (\<exists>q. locate (sfthead f) 0 (nat i) = Some q \<and> console_sft k (sft_at q f))"

definition typed :: "('c \<Rightarrow> bytes) \<Rightarrow> ('c, 'd) kstate \<Rightarrow> bytes" where
  "typed kbd s = kbd (dev (chars (fs s)))"

text \<open>
  Both entries are the system console in cooked mode, its driver is a terminal, the printer does not echo, and neither a break nor
  Ctrl-C nor Ctrl-S is pressed.
\<close>

definition at_console :: "('c, 'd) outside \<Rightarrow> ('c \<Rightarrow> bytes) \<Rightarrow> nat \<Rightarrow> int \<Rightarrow> int \<Rightarrow> ('c, 'd) kstate \<Rightarrow> bool" where
  "at_console ou kbd k i j s \<longleftrightarrow> terminal (char_drv ou k) kbd \<and> console_entry k i (fs s) \<and> console_entry k j (fs s)
     \<and> syscon s = k \<and> \<not> PrinterEcho s \<and> \<not> cb_flg s \<and> True \<notin> set (cb_events s)
     \<and> CTL_C \<notin> set (typed kbd s) \<and> CTL_S \<notin> set (typed kbd s)"

lemma console_entry_simps [simp]:
  "console_entry k i (f\<lparr>lpCurSft := p\<rparr>) = console_entry k i f" "console_entry k i (f\<lparr>chars := c\<rparr>) = console_entry k i f"
  by (simp_all add: console_entry_def sft_at_def)

lemma console_entry_eof:
  assumes "locate (sfthead f) 0 n = Some q" "console_entry k i f"
  shows "console_entry k i (upd_sft q (\<lambda>t. t\<lparr>sft_flags := sft_flags t OR SFT_FEOF\<rparr>) f)" (is "console_entry k i ?f")
proof -
  obtain p where p: "0 \<le> i" "locate (sfthead f) 0 (nat i) = Some p" "console_sft k (sft_at p f)"
    using assms(2) by (auto simp: console_entry_def)
  have r: "fst q < length (sfthead f)" "snd q < length (sfthead f ! fst q)" using locate_concat [OF assms(1)] by auto
  have "map length (sfthead ?f) = map length (sfthead f)" using r by (simp add: upd_sft_def map_update list_update_same_conv)
  then have "locate (sfthead ?f) 0 (nat i) = Some p" unfolding p(2) [symmetric] by (rule locate_lengths)
  moreover have "console_sft k (sft_at p ?f)"
  proof (cases "p = q")
    case True
    have bits: "(w OR SFT_FEOF) AND b = (w AND b) OR (SFT_FEOF AND b)" for w b :: u16 by (rule bit.conj_disj_distrib2)
    have "sft_at p ?f = (sft_at q f)\<lparr>sft_flags := sft_flags (sft_at q f) OR SFT_FEOF\<rparr>"
      using r True by (simp add: upd_sft_def sft_at_def)
    then show ?thesis using p(3) True
      by (simp add: console_sft_def bits) (simp add: SFT_FEOF_def SFT_FSHARED_def SFT_FDEVICE_def SFT_FBINARY_def SFT_FNUL_def)
  next
    case False
    then have "sft_at p ?f = sft_at p f" using r
      by (cases "fst p = fst q") (auto simp: upd_sft_def sft_at_def prod_eq_iff)
    then show ?thesis using p(3) by simp
  qed
  ultimately show ?thesis using p(1) by (auto simp: console_entry_def)
qed

lemma find_console:
  assumes "console_entry k i (fs s)"
  shows "\<exists>q. find_sft i s = (Some q, s\<lparr>fs := (fs s)\<lparr>lpCurSft := Some q\<rparr>\<rparr>) \<and> locate (sfthead (fs s)) 0 (nat i) = Some q
     \<and> console_sft k (sft_at q (fs s))"
  using assms by (auto simp: console_entry_def find_sft_def idx_to_sft_def idx_to_sft0_def console_sft_def sft_at_def)

text \<open>A step of the console that the editor does not notice: keys, line and break state stay as they are.\<close>

definition quiet :: "('c, 'd) outside \<Rightarrow> ('c \<Rightarrow> bytes) \<Rightarrow> nat \<Rightarrow> int \<Rightarrow> int \<Rightarrow> ('c, 'd) kstate \<Rightarrow> ('c, 'd) kstate \<Rightarrow> bool" where
  "quiet ou kbd k i j s s' \<longleftrightarrow> at_console ou kbd k i j s' \<and> typed kbd s' = typed kbd s \<and> local_buffer s' = local_buffer s
     \<and> scr_pos s' = scr_pos s"

lemma quiet_refl: "at_console ou kbd k i j s \<Longrightarrow> quiet ou kbd k i j s s"
  by (simp add: quiet_def)

lemma quiet_at: "quiet ou kbd k i j s s' \<Longrightarrow> at_console ou kbd k i j s'"
  by (simp add: quiet_def)

lemma quiet_trans: "quiet ou kbd k i j s s1 \<Longrightarrow> quiet ou kbd k i j s1 s2 \<Longrightarrow> quiet ou kbd k i j s s2"
  by (simp add: quiet_def)

lemma quiet_chars:
  assumes "at_console ou kbd k i j s" "kbd (dev e) = typed kbd s"
  shows "quiet ou kbd k i j s (s\<lparr>fs := (fs s)\<lparr>chars := e\<rparr>\<rparr>)"
  using assms by (simp add: quiet_def at_console_def typed_def)

lemma quiet_break:
  assumes "at_console ou kbd k i j s"
  shows "\<exists>s'. ctrl_break_pressed s = (False, s') \<and> quiet ou kbd k i j s s'"
  using assms by (cases "cb_events s") (auto simp: ctrl_break_pressed_def Let_def quiet_def at_console_def typed_def)

lemma typed_at: "at_console ou kbd k i j s \<Longrightarrow> c \<in> set (typed kbd s) \<Longrightarrow> c \<noteq> CTL_C \<and> c \<noteq> CTL_S"
  by (auto simp: at_console_def)

lemma quiet_check:
  assumes "at_console ou kbd k i j s"
  shows "\<exists>c s'. check_handle_break ou cw rw k s = Some (Ret c, s') \<and> c \<noteq> CTL_S \<and> quiet ou kbd k i j s s'"
proof -
  obtain s1 where s1: "ctrl_break_pressed s = (False, s1)" "quiet ou kbd k i j s s1" using quiet_break [OF assms] by blast
  note a = quiet_at [OF s1(2)]
  have k: "syscon s1 = k" "terminal (char_drv ou k) kbd" using a by (simp_all add: at_console_def)
  obtain e where e: "ndread (char_drv ou k) (chars (fs s1)) = (if typed kbd s1 = [] then None else Some (hd (typed kbd s1)), e)"
      "kbd (dev e) = typed kbd s1"
    using ndread_terminal [OF k(2), of "chars (fs s1)"] by (auto simp: typed_def)
  let ?s2 = "s1\<lparr>fs := (fs s1)\<lparr>chars := e\<rparr>\<rparr>" and ?c = "if typed kbd s1 = [] then 0xff else hd (typed kbd s1)"
  have q: "quiet ou kbd k i j s ?s2" by (rule quiet_trans [OF s1(2) quiet_chars [OF a e(2)]])
  have c: "?c \<noteq> CTL_C" "?c \<noteq> CTL_S"
    using typed_at [OF a] by (auto simp: CTL_C_def CTL_S_def)
  have "check_handle_break ou cw rw k s = Some (Ret ?c, ?s2)"
    using c(1) k(1) by (cases "typed kbd s1") (simp_all add: check_handle_break_def s1(1) on_chars_def e(1) ret_def)
  then show ?thesis using c(2) q by blast
qed

lemma quiet_out:
  assumes "at_console ou kbd k i j s"
  shows "\<exists>v s'. out_loop ou cw rw n k c m fast s = Some (Ret (Inr v), s') \<and> quiet ou kbd k i j s s'"
  using assms
proof (induction m arbitrary: fast s)
  case 0
  then show ?case by (auto simp: ret_def intro: quiet_refl)
next
  case (Suc m)
  obtain b s1 where s1: "(if fast \<le> 0x80
        then andthen (check_handle_break ou cw rw k s) (\<lambda>b s1.
               if b = CTL_S then andthen (raw_get_char ou cw rw n k True s1) (\<lambda>_. ret ()) else ret () s1)
        else ret () s) = Some (Ret (), s1)" "quiet ou kbd k i j s s1"
    using quiet_check [OF Suc.prems, of cw rw] quiet_refl [OF Suc.prems] by (cases "fast \<le> 0x80") (auto simp: andthen_def ret_def)
  note a = quiet_at [OF s1(2)]
  have p: "\<not> PrinterEcho s1" and t: "terminal (char_drv ou k) kbd" using a by (simp_all add: at_console_def)
  let ?fast = "(fast + 1) AND 0x9f"
  show ?case
  proof (cases "?fast AND 0x80 \<noteq> 0")
    case True
    let ?s2 = "s1\<lparr>fast_out := fast_out s1 @ [c]\<rparr>"
    have "quiet ou kbd k i j s1 ?s2" using a by (simp add: quiet_def at_console_def typed_def)
    note q = quiet_trans [OF s1(2) this]
    have "out_loop ou cw rw n k c (Suc m) fast s = out_loop ou cw rw n k c m ?fast ?s2"
      unfolding out_loop.simps s1(1) using True p by (simp add: andthen_def ret_def Let_def)
    then show ?thesis using Suc.IH [OF quiet_at [OF q]] quiet_trans [OF q] by metis
  next
    case False
    obtain v e where e: "CharIO (char_drv ou k) c C_OUTPUT (chars (fs s1)) = (v, e)" "0 \<le> v" "kbd (dev e) = typed kbd s1"
      using output_terminal [OF t, of c "chars (fs s1)"] by (auto simp: typed_def)
    let ?s2 = "s1\<lparr>fs := (fs s1)\<lparr>chars := e\<rparr>\<rparr>"
    have q: "quiet ou kbd k i j s ?s2" by (rule quiet_trans [OF s1(2) quiet_chars [OF a e(3)]])
    have "out_loop ou cw rw n k c (Suc m) fast s = out_loop ou cw rw n k c m ?fast ?s2"
      unfolding out_loop.simps s1(1) using False p e(2) by (simp add: andthen_def ret_def Let_def on_chars_def e(1))
    then show ?thesis using Suc.IH [OF quiet_at [OF q]] quiet_trans [OF q] by metis
  qed
qed

section \<open>Characters to and from the console\<close>

text \<open>A character is shown; only blanks and backspaces say where the cursor is afterwards.\<close>

definition shown :: "('c, 'd) outside \<Rightarrow> ('c \<Rightarrow> bytes) \<Rightarrow> nat \<Rightarrow> int \<Rightarrow> int \<Rightarrow> u8 \<Rightarrow> ('c, 'd) kstate \<Rightarrow> ('c, 'd) kstate \<Rightarrow> bool" where
  "shown ou kbd k i j c s s' \<longleftrightarrow> at_console ou kbd k i j s' \<and> typed kbd s' = typed kbd s \<and> local_buffer s' = local_buffer s
     \<and> (c = BS \<or> c = 0x20 \<longrightarrow> scr_pos s' = scr_pos (update_scr_pos c 1 s))"

lemma update_scr_pos_at [simp]:
  "at_console ou kbd k i j (update_scr_pos c m s) = at_console ou kbd k i j s"
  "typed kbd (update_scr_pos c m s) = typed kbd s" "local_buffer (update_scr_pos c m s) = local_buffer s"
  by (simp_all add: update_scr_pos_def at_console_def typed_def)

lemma shown_cooked:
  assumes "at_console ou kbd k i j s"
  shows "\<exists>v s'. cooked_loop ou cw rw n k fast [c] 0 s = Some (Ret v, s') \<and> shown ou kbd k i j c s s'"
proof (cases "c = CTL_Z")
  case True
  then show ?thesis using assms by (simp add: ret_def shown_def CTL_Z_def BS_def)
next
  case False
  let ?count = "if c = HT then 8 - (scr_pos s AND 7) else 1" and ?c = "if c = HT then 0x20 else c"
  let ?s1 = "update_scr_pos ?c ?count s"
  have "at_console ou kbd k i j ?s1" using assms by simp
  then obtain v s' where o: "out_loop ou cw rw n k ?c (unat ?count) fast ?s1 = Some (Ret (Inr v), s')" "quiet ou kbd k i j ?s1 s'"
    using quiet_out by blast
  have "cooked_loop ou cw rw n k fast [c] 0 s = Some (Ret 1, s')"
    using False o(1) by (cases "c = HT") (simp_all add: andthen_def ret_def)
  moreover have "shown ou kbd k i j c s s'" using o(2) by (auto simp: shown_def quiet_def HT_def BS_def)
  ultimately show ?thesis by blast
qed

lemma at_eof:
  assumes "at_console ou kbd k i j s" "locate (sfthead (fs s)) 0 n = Some q"
  shows "at_console ou kbd k i j (on_entry q (\<lambda>t. t\<lparr>sft_flags := sft_flags t OR SFT_FEOF\<rparr>) s)"
proof -
  have "chars (upd_sft q g f) = chars f" for g and f :: "('a, 'b) fsys" by (simp add: upd_sft_def)
  then show ?thesis using assms by (simp add: at_console_def on_entry_def typed_def console_entry_eof)
qed

lemma at_current:
  "at_console ou kbd k i j (s\<lparr>fs := (fs s)\<lparr>lpCurSft := p\<rparr>\<rparr>) = at_console ou kbd k i j s"
  by (simp add: at_console_def typed_def)

lemma write_console:
  assumes "at_console ou kbd k i j s"
  shows "\<exists>x s'. DosRWSft ou (Suc (Suc m)) j 1 near_data [c] FORCE_WR s = Some (Ret x, s') \<and> shown ou kbd k i j c s s'"
proof -
  obtain q where q: "find_sft j s = (Some q, s\<lparr>fs := (fs s)\<lparr>lpCurSft := Some q\<rparr>\<rparr>)" "locate (sfthead (fs s)) 0 (nat j) = Some q"
      "console_sft k (sft_at q (fs s))"
    using find_console assms by (metis at_console_def)
  let ?s1 = "s\<lparr>fs := (fs s)\<lparr>lpCurSft := Some q\<rparr>\<rparr>"
  let ?s2 = "on_entry q (\<lambda>t. t\<lparr>sft_flags := sft_flags t OR SFT_FEOF\<rparr>) ?s1"
  have a: "at_console ou kbd k i j ?s2" by (rule at_eof) (use assms q(2) in \<open>simp_all add: at_current\<close>)
  then obtain v s' where o: "cooked_body ou (cooked_write ou m) (DosRWSft ou m) m k [c] ?s2 = Some (Ret v, s')" "shown ou kbd k i j c ?s2 s'"
    using shown_cooked [OF a, where cw = "cooked_write ou m" and rw = "DosRWSft ou m" and n = m and c = c] unfolding cooked_body_def by blast
  have same: "sft_at q (f\<lparr>lpCurSft := p\<rparr>) = sft_at q f" for p and f :: "('a, 'b) fsys" by (simp add: sft_at_def)
  have "rw_cooked ou (cooked_write ou (Suc m)) (DosRWSft ou (Suc m)) (Suc m) j q k (sft_flags (sft_at q (fs s))) 1 [c] FORCE_WR ?s1
      = Some (Ret (v, [c]), s')"
    using q(3) o(1) by (simp add: rw_cooked_def Let_def cooked_write_simps console_sft_def andthen_def ret_def)
  then have "DosRWSft ou (Suc (Suc m)) j 1 near_data [c] FORCE_WR s = Some (Ret (v, [c]), s')"
    using q(3) by (simp add: DosRWSft_simps(2) rw_body_def q(1) Let_def same console_sft_def del: cooked_write_simps DosRWSft_simps(1))
  moreover have "shown ou kbd k i j c s s'"
    using o(2) by (simp add: shown_def on_entry_def typed_def upd_sft_def update_scr_pos_def)
  ultimately show ?thesis by blast
qed

lemma read_console:
  assumes "at_console ou kbd k i j s" "typed kbd s = c # cs"
  shows "\<exists>s'. read_char ou cw rw (Suc n) i out True s = Some (Ret c, s') \<and> at_console ou kbd k i j s' \<and> typed kbd s' = cs
    \<and> local_buffer s' = local_buffer s"
proof -
  obtain q where q: "find_sft i s = (Some q, s\<lparr>fs := (fs s)\<lparr>lpCurSft := Some q\<rparr>\<rparr>)" "console_sft k (sft_at q (fs s))"
    using find_console assms(1) by (metis at_console_def)
  let ?s1 = "s\<lparr>fs := (fs s)\<lparr>lpCurSft := Some q\<rparr>\<rparr>"
  have dev: "sft_to_dev (Some q) ?s1 = Some k" using q(2) by (simp add: sft_to_dev_def console_sft_def sft_at_def)
  have a1: "at_console ou kbd k i j ?s1" using assms(1) by (simp add: at_current)
  obtain s2 where s2: "ctrl_break_pressed ?s1 = (False, s2)" "quiet ou kbd k i j ?s1 s2" using quiet_break [OF a1] by blast
  note a2 = quiet_at [OF s2(2)]
  have t: "terminal (char_drv ou k) kbd" and ty2: "kbd (dev (chars (fs s2))) = c # cs"
    using a2 s2(2) assms(2) by (simp_all add: at_console_def quiet_def typed_def)
  obtain e1 where e1: "Busy (char_drv ou k) (chars (fs s2)) = (False, e1)" "kbd (dev e1) = c # cs"
    using Busy_terminal [OF t, of "chars (fs s2)"] ty2 by auto
  obtain e2 where e2: "CharIO (char_drv ou k) 0 C_INPUT e1 = (uint c, e2)" "kbd (dev e2) = cs"
    using input_terminal [OF t e1(2)] by blast
  let ?s' = "s2\<lparr>fs := (fs s2)\<lparr>chars := e2\<rparr>\<rparr>"
  have w: "wait_char ou cw rw (Suc n) k True ?s1 = Some (Ret (ucast c), ?s')"
    by (simp add: s2(1) on_chars_def e1(1) e2(1) ret_def)
  have nc: "c \<noteq> CTL_C" "c \<noteq> CTL_S" using typed_at [OF assms(1), of c] assms(2) by simp_all
  then have "(ucast c :: u16) \<noteq> ucast CTL_C" "(ucast c :: u16) \<noteq> ucast CTL_S"
    by (simp_all add: word_unat_eq_iff unat_ucast_8_16)
  moreover have "(ucast (ucast c :: u16) :: u8) = c" by (simp add: word_unat_eq_iff unat_ucast_16_8)
  ultimately have "read_char ou cw rw (Suc n) i out True s = Some (Ret c, ?s')"
    by (simp add: read_char_def q(1) dev read_char_sft_dev_def read_dev_def w andthen_def ret_def del: wait_char.simps)
  moreover have "at_console ou kbd k i j ?s'" using a2 ty2 e2(2) by (auto simp: at_console_def typed_def)
  ultimately show ?thesis using e2(2) s2(2) by (auto simp: typed_def quiet_def)
qed

section \<open>Calls that return\<close>

definition returns :: "('a outcome \<times> 's) option \<Rightarrow> ('a \<Rightarrow> 's \<Rightarrow> bool) \<Rightarrow> bool" where
  "returns m Q \<longleftrightarrow> (\<exists>x s. m = Some (Ret x, s) \<and> Q x s)"

lemma returns_ret [simp]: "returns (ret x s) Q = Q x s"
  by (simp add: returns_def ret_def)

lemma returns_then: "returns m P \<Longrightarrow> (\<And>x s. P x s \<Longrightarrow> returns (f x s) Q) \<Longrightarrow> returns (andthen m f) Q"
  by (auto simp: returns_def andthen_def)

lemma andthen_ret [simp]: "andthen (ret x s) f = f x s"
  by (simp add: andthen_def ret_def)

lemma returns_weaken: "returns m P \<Longrightarrow> (\<And>x s. P x s \<Longrightarrow> Q x s) \<Longrightarrow> returns m Q"
  by (auto simp: returns_def)

text \<open>
  The keys that end a line: a carriage return, unless it is the second byte of a key or what a search key (F2 or F4) looks for.
\<close>

fun ends_line :: "bytes \<Rightarrow> bool" and ends_extended :: "bytes \<Rightarrow> bool" and ends_search :: "bytes \<Rightarrow> bool"
  and ends_rest :: "bytes \<Rightarrow> bool" where
  "ends_line [] = False"
| "ends_line (c # cs) = (if c = 0 then ends_extended cs else c = CR \<or> ends_line cs)"
| "ends_extended [] = False"
| "ends_extended (e # cs) = (if mk16 0 e = F2 \<or> mk16 0 e = F4 then ends_search cs else ends_line cs)"
| "ends_search [] = False"
| "ends_search (c # cs) = (if c = 0 then ends_rest cs else ends_line cs)"
| "ends_rest [] = False"
| "ends_rest (c # cs) = ends_line cs"

definition still :: "(('c, 'd) kstate \<Rightarrow> bool) \<Rightarrow> (('c, 'd) kstate \<Rightarrow> bytes) \<Rightarrow> ('c, 'd) kstate \<Rightarrow> ('c, 'd) kstate \<Rightarrow> bool" where
  "still ok ks s s' \<longleftrightarrow> ok s' \<and> ks s' = ks s \<and> local_buffer s' = local_buffer s"

lemma still_trans: "still ok ks s s1 \<Longrightarrow> still ok ks s1 s2 \<Longrightarrow> still ok ks s s2"
  by (simp add: still_def)

locale typing =
  fixes rw :: "('c, 'd) rw_fn" and rd :: "('c, 'd) kstate \<Rightarrow> (u8, 'c, 'd) result" and out :: int
    and ok :: "('c, 'd) kstate \<Rightarrow> bool" and ks :: "('c, 'd) kstate \<Rightarrow> bytes"
  assumes shows_char: "ok s \<Longrightarrow> returns (rw out 1 near_data [c] FORCE_WR s)
      (\<lambda>_ s'. still ok ks s s' \<and> (c = BS \<or> c = 0x20 \<longrightarrow> scr_pos s' = scr_pos (update_scr_pos c 1 s)))"
    and takes_key: "ok s \<Longrightarrow> ks s = c # cs \<Longrightarrow> returns (rd s) (\<lambda>x s'. x = c \<and> ok s' \<and> ks s' = cs \<and> local_buffer s' = local_buffer s)"
    and stores: "ok (s\<lparr>local_buffer := b\<rparr>) = ok s" "ks (s\<lparr>local_buffer := b\<rparr>) = ks s"
begin

lemma write_char_returns:
  assumes "ok s"
  shows "returns (write_char rw c out s)
    (\<lambda>_ s'. still ok ks s s' \<and> (c = BS \<or> c = 0x20 \<longrightarrow> scr_pos s' = scr_pos (update_scr_pos c 1 s)))"
  unfolding write_char_def by (rule returns_then [OF shows_char [OF assms]]) simp

lemma write_chars_returns: "ok s \<Longrightarrow> returns (write_chars rw cs out s) (\<lambda>_. still ok ks s)"
proof (induction cs arbitrary: s)
  case (Cons c cs)
  show ?case unfolding write_chars.simps
    by (rule returns_then [OF write_char_returns [OF Cons.prems]], rule returns_weaken [OF Cons.IH])
      (auto simp: still_def)
qed (simp add: still_def)

lemma echo_char_returns: "ok s \<Longrightarrow> returns (echo_char rw c out s) (\<lambda>_. still ok ks s)"
  by (auto simp: echo_char_def simp del: write_chars.simps intro: write_chars_returns returns_weaken [OF write_char_returns])

lemma destr_bs_returns:
  assumes "ok s"
  shows "returns (destr_bs rw out s) (\<lambda>_ s'. still ok ks s s' \<and> scr_pos s' = (if scr_pos s = 0 then 0 else scr_pos s - 1))"
proof -
  let ?p = "if scr_pos s = 0 then 0 else scr_pos s - 1"
  have up: "?p + 1 \<noteq> 0"
  proof -
    have "unat ?p < 255"
    proof (cases "scr_pos s = 0")
      case False
      then have "unat ?p = unat (scr_pos s) - 1" by (simp add: unat_minus_one)
      then show ?thesis using unat8_lt [of "scr_pos s"] by linarith
    qed simp
    then have "unat (?p + 1) \<noteq> 0" by (subst unat_add_no_wrap) simp_all
    then show ?thesis by (metis unat_0)
  qed
  show ?thesis unfolding destr_bs_def write_chars.simps
    by (rule returns_then [OF write_char_returns [OF assms]], rule returns_then [OF write_char_returns], force simp: still_def,
      rule returns_then [OF write_char_returns], force simp: still_def)
      (use up in \<open>auto simp: still_def update_scr_pos_def CR_def BS_def LF_def BELL_def word_gt_0 split: if_splits\<close>)
qed

lemma wipe_tab_returns: "ok s \<Longrightarrow> unat (scr_pos s) < n \<Longrightarrow> returns (wipe_tab rw out n p s) (\<lambda>_. still ok ks s)"
proof (induction n arbitrary: s)
  case (Suc n)
  have more: "returns (wipe_tab rw out n p s1) (\<lambda>_. still ok ks s)"
    if "still ok ks s s1" "scr_pos s1 = (if scr_pos s = 0 then 0 else scr_pos s - 1)" "ucast (scr_pos s1) > p" for s1
  proof -
    have "scr_pos s1 \<noteq> 0" using that(3) by auto
    then have "scr_pos s \<noteq> 0" "scr_pos s1 = scr_pos s - 1" using that(2) by (auto split: if_splits)
    then have "unat (scr_pos s1) < n" using Suc.prems(2) unat_minus_one [of "scr_pos s"] unat_gt_0 [of "scr_pos s"] by simp
    then show ?thesis using that(1) by (intro returns_weaken [OF Suc.IH]) (auto simp: still_def)
  qed
  show ?case unfolding wipe_tab.simps
    by (rule returns_then [OF destr_bs_returns [OF Suc.prems(1)]]) (auto intro: more)
qed simp

lemma copy_stored_returns: "ok s \<Longrightarrow> returns (copy_stored rw out m ed s) (\<lambda>_ s'. ok s' \<and> ks s' = ks s)"
proof (induction m arbitrary: ed s)
  case (Suc m)
  show ?case
  proof (cases "ed_count ed < ed_size ed - 1")
    case True
    show ?thesis unfolding copy_stored.simps if_P [OF True] Let_def
      by (rule returns_then [OF echo_char_returns [OF Suc.prems]]) 
        (auto simp: still_def put_local_def stores intro!: returns_then [where P = "\<lambda>_ s'. ok s' \<and> ks s' = ks s"] returns_weaken [OF Suc.IH])
  qed (simp add: Suc.prems)
qed simp

lemma back_space_returns:
  assumes "ok s" "256 \<le> n"
  shows "returns (back_space rw out n cu ed s) (\<lambda>_ s'. ok s' \<and> ks s' = ks s)"
proof -
  have "unat (scr_pos s) < n" using less_le_trans [OF unat8_lt assms(2)] .
  note w = wipe_tab_returns [OF assms(1) this]
  have one: "returns (andthen (destr_bs rw out s1) (\<lambda>_. ret e)) (\<lambda>_ s'. ok s' \<and> ks s' = ks s)" if "still ok ks s s1" for s1 and e :: editor
    using that by (intro returns_then [OF destr_bs_returns]) (simp_all add: still_def)
  have first: "returns (if b then destr_bs rw out s else ret () s) (\<lambda>_. still ok ks s)" for b
    using assms(1) by (auto simp: still_def intro: returns_weaken [OF destr_bs_returns])
  have tab: "returns (andthen (wipe_tab rw out n p s) (\<lambda>_. ret e)) (\<lambda>_ s'. ok s' \<and> ks s' = ks s)" for p and e :: editor
    by (rule returns_then [OF w]) (simp add: still_def)
  have two: "returns (andthen (if b then destr_bs rw out s else ret () s) (\<lambda>_ s1. andthen (destr_bs rw out s1) (\<lambda>_. ret e)))
      (\<lambda>_ s'. ok s' \<and> ks s' = ks s)" for b and e :: editor
    by (rule returns_then [OF first], rule one)
  show ?thesis
    unfolding back_space_def Let_def using assms(1) tab two by simp
qed

lemma start_new_line_returns: "ok s \<Longrightarrow> returns (start_new_line rw out cu ed s) (\<lambda>_ s'. ok s' \<and> ks s' = ks s)"
  unfolding start_new_line_def by (rule returns_then [OF write_chars_returns]) (simp_all add: still_def)

lemma type_char_returns: "ok s \<Longrightarrow> returns (type_char rw out c ed s) (\<lambda>_ s'. ok s' \<and> ks s' = ks s)"
  by (auto simp: type_char_def put_local_def stores still_def
      intro!: returns_then [where P = "\<lambda>_ s'. ok s' \<and> ks s' = ks s"] returns_then [OF echo_char_returns] returns_then [OF write_char_returns])

text \<open>One key, and the key a search asks for.\<close>

lemma search_returns:
  assumes "ok s" "ends_search (ks s)"
  shows "returns (andthen (rd s) (\<lambda>c2 s1.
          andthen (if c2 = 0 then andthen (rd s1) (\<lambda>_. ret (stored_pos ed)) else ret (find_stored c2 ed) s1) (\<lambda>new_pos s2.
            andthen (if b then copy_until rw out new_pos ed s2 else ret ed s2) (\<lambda>ed1.
              ret (ed1\<lparr>stored_pos := new_pos\<rparr>)))))
    (\<lambda>_ s'. ok s' \<and> ends_line (ks s') \<and> length (ks s') < length (ks s))"
proof -
  obtain c cs where k: "ks s = c # cs" using assms(2) by (cases "ks s") auto
  let ?P = "\<lambda>_ s'. ok s' \<and> ends_line (ks s') \<and> length (ks s') < length (ks s)"
  have second: "returns (if c = 0 then andthen (rd s1) (\<lambda>_. ret (stored_pos ed)) else ret (find_stored c ed) s1) ?P"
    if "ok s1" "ks s1 = cs" for s1
  proof (cases "c = 0")
    case True
    then obtain c2 cs2 where k2: "cs = c2 # cs2" "ends_line cs2" using assms(2) k by (cases cs) auto
    show ?thesis unfolding if_P [OF True]
      by (rule returns_then [OF takes_key [OF that(1)]]) (use that k k2 in auto)
  next
    case False
    then show ?thesis using that k assms(2) by simp
  qed
  have rest: "returns (andthen (if b then copy_until rw out p ed s2 else ret ed s2) (\<lambda>ed1. ret (ed1\<lparr>stored_pos := p\<rparr>))) ?P"
    if "ok s2 \<and> ends_line (ks s2) \<and> length (ks s2) < length (ks s)" for p s2
    using that by (auto simp: copy_until_def intro!: returns_then [OF copy_stored_returns])
  show ?thesis
    by (rule returns_then [OF takes_key [OF assms(1) k]], elim conjE, simp only:, rule returns_then [OF second], assumption, assumption, rule rest)
qed

lemma ed_key_returns:
  assumes "ok s" "256 \<le> n" "c = F2 \<or> c = F4 \<Longrightarrow> ends_search (ks s)"
  shows "returns (ed_key rw rd out n cu c ed s) (\<lambda>(c', ed') s'. ok s' \<and> length (ks s') \<le> length (ks s)
    \<and> (c = ucast CR \<longrightarrow> c' = ucast CR) \<and> (if c = F2 \<or> c = F4 then ends_line (ks s') else ks s' = ks s))" (is "returns _ ?Q")
proof -
  let ?P = "\<lambda>_ s'. ok s' \<and> ks s' = ks s"
  have result: "returns (andthen m (\<lambda>ed1. ret (c, ed1))) ?Q" if "returns m ?P" "c \<noteq> F2" "c \<noteq> F4" for m
    using that by (auto intro: returns_then)
  have search: "returns (andthen (andthen (rd s) (\<lambda>c2 s1.
          andthen (if c2 = 0 then andthen (rd s1) (\<lambda>_. ret (stored_pos ed)) else ret (find_stored c2 ed) s1) (\<lambda>new_pos s2.
            andthen (if c \<noteq> F4 then copy_until rw out new_pos ed s2 else ret ed s2) (\<lambda>ed1.
              ret (ed1\<lparr>stored_pos := new_pos\<rparr>))))) (\<lambda>ed1. ret (c, ed1))) ?Q" if "c = F2 \<or> c = F4"
    by (rule returns_then [OF search_returns [OF assms(1) assms(3) [OF that]]]) (use that in auto)
  have new: "returns (ret e s) ?P" for e using assms(1) by simp
  have lf: "returns (andthen (write_chars rw [CR, LF] out s) (\<lambda>_. ret ed)) ?P"
    by (rule returns_then [OF write_chars_returns [OF assms(1)]]) (simp add: still_def)
  have echo: "returns (andthen (write_char rw ch out s) (\<lambda>_. start_new_line rw out cu e)) ?P" for ch e
    by (rule returns_then [OF write_char_returns [OF assms(1)]], rule returns_weaken [OF start_new_line_returns])
      (simp_all add: still_def)
  have f3: "returns (andthen (copy_until rw out p ed s) (\<lambda>ed1. ret (ed1\<lparr>stored_pos := p\<rparr>))) ?P" for p
    unfolding copy_until_def by (rule returns_then [OF copy_stored_returns [OF assms(1)]]) simp
  have typed: "returns (andthen (type_char rw out (ucast CTL_Z) ed s) (\<lambda>ed1. ret (ucast CTL_Z, ed1))) ?Q" if "c = F6"
    by (rule returns_then [OF type_char_returns [OF assms(1)]])
      (use that in \<open>simp add: F2_def F4_def F6_def CR_def\<close>)
  note keys = F1_def F2_def F3_def F4_def F5_def F6_def LEFT_def RIGHT_def CTL_F_def ESC_def CTL_BS_def INS_def DEL_def CR_def LF_def BS_def
  have one: "if b then x else y" if "b \<Longrightarrow> x" "\<not> b \<Longrightarrow> y" for b x y using that by simp
  have split: "returns (if b then x else y) Q" if "b \<Longrightarrow> returns x Q" "\<not> b \<Longrightarrow> returns y Q" for b x y and Q :: "'x \<Rightarrow> ('c, 'd) kstate \<Rightarrow> bool"
    using that by simp
  show ?thesis unfolding ed_key_def Let_def
    by (intro split result search new lf f3 typed echo copy_stored_returns back_space_returns type_char_returns assms(1,2))
      (auto simp: keys)
qed

lemma ed_loop_returns:
  "ok s \<Longrightarrow> ends_line (ks s) \<Longrightarrow> length (ks s) + 256 \<le> n \<Longrightarrow> returns (ed_loop rw rd out n cu ed s) (\<lambda>_. ok)"
proof (induction n arbitrary: ed s)
  case (Suc n)
  obtain c cs where k: "ks s = c # cs" using Suc.prems(2) by (cases "ks s") auto
  let ?full = "\<lambda>s1. if c = 0 then andthen (rd s1) (\<lambda>c1. ret (mk16 0 c1)) else ret (ucast c) s1"
  have n: "256 \<le> n" using Suc.prems(3) k by simp
  have key: "returns (andthen (ed_key rw rd out n cu f ed s2) (\<lambda>(c', ed1) s3.
           if c' = ucast CR then ret (ed1\<lparr>ed_first := False\<rparr>) s3
           else ed_loop rw rd out n cu (ed1\<lparr>ed_first := False\<rparr>) s3)) (\<lambda>_. ok)"
    if "ok s2" "length (ks s2) \<le> length cs" "f = F2 \<or> f = F4 \<Longrightarrow> ends_search (ks s2)"
      "f \<noteq> F2 \<Longrightarrow> f \<noteq> F4 \<Longrightarrow> f \<noteq> ucast CR \<Longrightarrow> ends_line (ks s2)" for f s2
  proof (rule returns_then [OF ed_key_returns [OF that(1) n that(3)]], assumption, goal_cases)
    case (1 x s3)
    note h = 1
    obtain c' ed' where x: "x = (c', ed')" by (cases x)
    show ?case
    proof (cases "c' = ucast CR")
      case True
      then show ?thesis using h x by simp
    next
      case False
      then have "f \<noteq> ucast CR" using h x by auto
      then have "ends_line (ks s3)" using h x that(4) by (auto split: if_splits)
      then show ?thesis using False h x that(2) Suc.prems(3) k by (auto intro!: Suc.IH)
    qed
  qed
  have second: "returns (andthen (?full s1) (\<lambda>f s2. andthen (ed_key rw rd out n cu f ed s2) (\<lambda>(c', ed1) s3.
           if c' = ucast CR then ret (ed1\<lparr>ed_first := False\<rparr>) s3
           else ed_loop rw rd out n cu (ed1\<lparr>ed_first := False\<rparr>) s3))) (\<lambda>_. ok)"
    if h: "ok s1" "ks s1 = cs" for s1
  proof (cases "c = 0")
    case True
    then obtain e cs2 where k2: "cs = e # cs2" using Suc.prems(2) k by (cases cs) auto
    have nc: "mk16 0 e \<noteq> ucast CR"
    proof
      assume "mk16 0 e = ucast CR"
      then have "lo8 (mk16 0 e) = lo8 (ucast CR)" by (rule arg_cong)
      moreover have "lo8 (ucast CR) = 0x0d" by (simp add: lo8_def CR_def)
      ultimately show False by simp
    qed
    have "returns (?full s1) (\<lambda>f s2. f = mk16 0 e \<and> ok s2 \<and> ks s2 = cs2)"
      unfolding if_P [OF True] by (rule returns_then [OF takes_key [OF h(1)]]) (use h k2 in auto)
    then show ?thesis
      by (rule returns_then, intro key) (use Suc.prems(2) k k2 True nc in \<open>auto split: if_splits\<close>)
  next
    case False
    have big: "(ucast c :: u16) \<noteq> f" if "256 \<le> unat f" for f
    proof
      assume "ucast c = f"
      then have "unat f = unat c" by auto
      then show False using that unat8_lt [of c] by linarith
    qed
    have nf: "ucast c \<noteq> F2" "ucast c \<noteq> F4" by (rule big, simp add: F2_def F4_def)+
    have "(ucast c :: u16) \<noteq> ucast CR \<Longrightarrow> c \<noteq> CR" by auto
    then show ?thesis using False h nf Suc.prems(2) k
      by (auto intro!: returns_then [where P = "\<lambda>f s2. f = ucast c \<and> s2 = s1"] key)
  qed
  show ?case unfolding ed_loop.simps
    by (rule returns_then [OF takes_key [OF Suc.prems(1) k]], elim conjE, simp only:, rule second)
qed simp

lemma read_line_returns:
  assumes "ok s" "ends_line (ks s)" "length (ks s) + 256 \<le> n" "kb_size kp \<noteq> 0"
  shows "returns (read_line rw rd out n kp s) (\<lambda>_ _. True)"
  unfolding read_line_def if_not_P [OF assms(4)] Let_def
  by (rule returns_then [OF ed_loop_returns [OF assms(1-3)]]) simp

end

text \<open>Characters that the editor takes as they are.\<close>

definition printable :: "u8 \<Rightarrow> bool" where
  "printable c \<longleftrightarrow> 0x20 \<le> c \<and> c \<noteq> 0x7f"

lemma ed_key_plain:
  assumes "printable c \<or> c = CR"
  shows "ed_key rw rd out n cu (ucast c) ed s = andthen (type_char rw out (ucast c) ed s) (\<lambda>ed1. ret (ucast c, ed1))"
proof -
  have u: "unat (ucast c :: u16) = unat c" "unat c \<le> 255" using unat8_lt [of c] by (simp, linarith)
  have p: "32 \<le> unat c \<and> unat c \<noteq> 127 \<or> unat c = 13"
    using assms by (auto simp: printable_def word_le_nat_alt CR_def unat_eq_iff)
  have "(ucast c :: u16) \<noteq> k" if "unat k \<notin> {32..126} \<union> {128..255} \<union> {13}" for k
    using that u p by auto
  then show ?thesis
    by (simp add: ed_key_def F1_def F2_def F3_def F4_def F5_def F6_def LEFT_def RIGHT_def CTL_F_def ESC_def CTL_BS_def INS_def DEL_def
        LF_def BS_def)
qed

context typing
begin

lemma type_plain:
  assumes "ok s" "unat (ed_count ed) < 256" "ed_count ed < ed_size ed - 1 \<or> c = CR"
  shows "returns (type_char rw out (ucast c) ed s) (\<lambda>ed' s'. ok s' \<and> ks s' = ks s
    \<and> local_buffer s' = (local_buffer s)[unat (ed_count ed) := c] \<and> unat (ed_count ed') = unat (ed_count ed) + 1 \<and> ed_kp ed' = ed_kp ed)"
proof -
  have small: "\<not> (ucast c :: u16) \<ge> 256" using unat8_lt [of c] by (simp add: word_le_nat_alt not_le)
  have same: "ucast (ucast c :: u16) = c" by (simp add: word_unat_eq_iff unat_ucast_16_8)
  have room: "ed_count ed < ed_size ed - 1 \<or> ucast c = (ucast CR :: u16)" using assms(3) by auto
  have "unat (ed_count ed + 1) = unat (ed_count ed) + 1" using assms(2) by (subst unat_add_no_wrap) simp_all
  then show ?thesis
    unfolding type_char_def if_not_P [OF small] if_P [OF room] same
    by (intro returns_then [where P = "\<lambda>ed' s'. ok s' \<and> ks s' = ks s \<and> local_buffer s' = (local_buffer s)[unat (ed_count ed) := c]
          \<and> unat (ed_count ed') = unat (ed_count ed) + 1 \<and> ed_kp ed' = ed_kp ed"] returns_then [OF echo_char_returns [OF assms(1)]])
      (auto simp: still_def put_local_def stores)
qed

lemma ed_loop_plain:
  "ok s \<Longrightarrow> ks s = cs @ CR # rest \<Longrightarrow> \<forall>c \<in> set cs. printable c \<Longrightarrow> length (local_buffer s) = 256 \<Longrightarrow> length cs < n
    \<Longrightarrow> unat (ed_count ed) + length cs < unat (kb_size (ed_kp ed))
    \<Longrightarrow> returns (ed_loop rw rd out n cu ed s) (\<lambda>ed' s'. unat (ed_count ed') = unat (ed_count ed) + length cs + 1
      \<and> ed_kp ed' = ed_kp ed
      \<and> take (unat (ed_count ed) + length cs) (local_buffer s') = take (unat (ed_count ed)) (local_buffer s) @ cs)"
proof (induction cs arbitrary: n ed s)
  case Nil
  obtain m where n: "n = Suc m" using Nil.prems(5) by (cases n) auto
  have c: "unat (ed_count ed) < 256" using less_trans [OF _ unat8_lt] Nil.prems(6) by simp
  have nz: "CR \<noteq> 0" by (simp add: CR_def)
  have k: "ks s = CR # rest" using Nil.prems(2) by simp
  show ?case unfolding n ed_loop.simps
    by (rule returns_then [OF takes_key [OF Nil.prems(1) k]])
      (use nz c in \<open>auto simp: ed_key_plain intro!: returns_then [where P = "\<lambda>x s'. fst x = ucast CR \<and> local_buffer s' = (local_buffer s)[unat (ed_count ed) := CR]
          \<and> unat (ed_count (snd x)) = unat (ed_count ed) + 1 \<and> ed_kp (snd x) = ed_kp ed"] returns_then [OF type_plain]\<close>)
next
  case (Cons c cs)
  obtain m where n: "n = Suc m" "length cs < m" using Cons.prems(5) by (cases n) auto
  have cnt: "unat (ed_count ed) + 1 + length cs < unat (kb_size (ed_kp ed))" using Cons.prems(6) by simp
  have b: "unat (kb_size (ed_kp ed)) < 256" by (rule unat8_lt)
  have c: "unat (ed_count ed) < 256" using cnt b by linarith
  have room: "ed_count ed < ed_size ed - 1"
  proof -
    have "unat (ed_size ed) = unat (kb_size (ed_kp ed))" by (simp add: ed_size_def)
    moreover from this have "unat (ed_size ed - 1) = unat (ed_size ed) - 1" using cnt by (intro unat16_dec) linarith
    ultimately show ?thesis unfolding word_less_nat_alt using cnt by linarith
  qed
  have p: "printable c" and nz: "c \<noteq> 0" and ncr: "(ucast c :: u16) \<noteq> ucast CR"
  proof -
    show p: "printable c" using Cons.prems(3) by simp
    then have "32 \<le> unat c" by (simp add: printable_def word_le_nat_alt)
    then show "c \<noteq> 0" "(ucast c :: u16) \<noteq> ucast CR" by (auto simp: unat_eq_iff CR_def)
  qed
  have k: "ks s = c # cs @ CR # rest" using Cons.prems(2) by simp
  have more: "returns (ed_loop rw rd out m cu (ed1\<lparr>ed_first := False\<rparr>) s1)
      (\<lambda>ed' s'. unat (ed_count ed') = unat (ed_count ed) + length (c # cs) + 1 \<and> ed_kp ed' = ed_kp ed
        \<and> take (unat (ed_count ed) + length (c # cs)) (local_buffer s') = take (unat (ed_count ed)) (local_buffer s) @ c # cs)"
    if h: "ok s1" "ks s1 = cs @ CR # rest" "local_buffer s1 = (local_buffer s)[unat (ed_count ed) := c]"
      "unat (ed_count ed1) = unat (ed_count ed) + 1" "ed_kp ed1 = ed_kp ed" for ed1 s1
  proof (rule returns_weaken [OF Cons.IH [OF h(1,2)]])
    have "take (unat (ed_count ed) + 1) (local_buffer s1) = take (unat (ed_count ed)) (local_buffer s) @ [c]"
      using c Cons.prems(4) by (simp add: h(3) take_Suc_conv_app_nth)
    then show "unat (ed_count ed') = unat (ed_count ed) + length (c # cs) + 1 \<and> ed_kp ed' = ed_kp ed
        \<and> take (unat (ed_count ed) + length (c # cs)) (local_buffer s') = take (unat (ed_count ed)) (local_buffer s) @ c # cs"
      if "unat (ed_count ed') = unat (ed_count (ed1\<lparr>ed_first := False\<rparr>)) + length cs + 1 \<and> ed_kp ed' = ed_kp (ed1\<lparr>ed_first := False\<rparr>)
        \<and> take (unat (ed_count (ed1\<lparr>ed_first := False\<rparr>)) + length cs) (local_buffer s') = take (unat (ed_count (ed1\<lparr>ed_first := False\<rparr>))) (local_buffer s1) @ cs"
      for ed' s'
      using that h(4,5) by simp
  qed (use Cons.prems h n cnt in simp_all)
  show ?case unfolding n(1) ed_loop.simps
    by (rule returns_then [OF takes_key [OF Cons.prems(1) k]])
      (use nz c room ncr p in \<open>auto simp: ed_key_plain intro!: returns_then [where P = "\<lambda>x s'. fst x = ucast c \<and> ok s' \<and> ks s' = cs @ CR # rest
          \<and> local_buffer s' = (local_buffer s)[unat (ed_count ed) := c]
          \<and> unat (ed_count (snd x)) = unat (ed_count ed) + 1 \<and> ed_kp (snd x) = ed_kp ed"] returns_then [OF type_plain] more [simplified]\<close>)
qed

lemma read_line_plain:
  assumes "ok s" "ks s = cs @ CR # rest" "\<forall>c \<in> set cs. printable c" "length (local_buffer s) = 256" "length cs < n"
    and "length cs < unat (kb_size kp)"
  shows "returns (read_line rw rd out n kp s) (\<lambda>kq _. unat (kb_count kq) = length cs \<and> take (length cs) (kb_buf kq) = cs)"
proof -
  have nz: "kb_size kp \<noteq> 0" using assms(6) by auto
  have l: "length cs < 255" using assms(6) unat8_lt [of "kb_size kp"] by linarith
  have r: "returns (ed_loop rw rd out n cu \<lparr>ed_count = 0, stored_pos = 0, stored_size = k, ed_insert = False, ed_first = True, ed_kp = kp\<rparr> s)
      (\<lambda>ed s'. unat (ed_count ed) = length cs + 1 \<and> take (length cs) (local_buffer s') = cs)" for cu k
    by (rule returns_weaken [OF ed_loop_plain [OF assms(1-5)]]) (use assms(6) in auto)
  have fin: "unat (ucast (ed_count ed - 1) :: u8) = length cs \<and> take (length cs) (kb_buf (keep_line ed s')) = cs"
    if "unat (ed_count ed) = length cs + 1 \<and> take (length cs) (local_buffer s') = cs" for ed and s' :: "('c, 'd) kstate"
  proof -
    have "unat (ed_count ed - 1) = length cs" using that by (subst unat16_dec) simp_all
    moreover have "length (take (length cs) (local_buffer s')) = length cs" using that by simp
    then have "length cs \<le> length (local_buffer s')" by (simp add: min_def split: if_splits)
    ultimately show ?thesis using that l by (auto simp: unat_ucast_16_8 keep_line_def fmemcpy_def)
  qed
  show ?thesis unfolding read_line_def if_not_P [OF nz] Let_def
    by (rule returns_then [OF r], frule fin) simp
qed

end

section \<open>The line of a terminal\<close>

lemma at_console_line:
  "at_console ou kbd k i j (s\<lparr>local_buffer := b\<rparr>) = at_console ou kbd k i j s" "typed kbd (s\<lparr>local_buffer := b\<rparr>) = typed kbd s"
  by (simp_all add: at_console_def typed_def)

interpretation con_typing: typing "DosRWSft ou (Suc (Suc m))"
    "read_char ou (cooked_write ou (Suc (Suc m))) (DosRWSft ou (Suc (Suc m))) (Suc (Suc m)) i j True" j
    "at_console ou kbd k i j" "typed kbd" for ou m i j kbd k
proof unfold_locales
  fix s :: "('a, 'b) kstate" and c
  assume a: "at_console ou kbd k i j s"
  show "returns (DosRWSft ou (Suc (Suc m)) j 1 near_data [c] FORCE_WR s) (\<lambda>_ s'. still (at_console ou kbd k i j) (typed kbd) s s'
      \<and> (c = BS \<or> c = 0x20 \<longrightarrow> scr_pos s' = scr_pos (update_scr_pos c 1 s)))"
    using write_console [OF a, of m c] by (auto simp: returns_def shown_def still_def)
  fix cs assume "typed kbd s = c # cs"
  then show "returns (read_char ou (cooked_write ou (Suc (Suc m))) (DosRWSft ou (Suc (Suc m))) (Suc (Suc m)) i j True s)
      (\<lambda>x s'. x = c \<and> at_console ou kbd k i j s' \<and> typed kbd s' = cs \<and> local_buffer s' = local_buffer s)"
    using read_console [OF a] by (auto simp: returns_def)
qed (simp_all add: at_console_line)

text \<open>
  C34: at the console, \<^verbatim>\<open>read_line\<close> returns, with a line that fits the buffer it was given. The keys are any that have a
  carriage return which is not part of another key or of a search, and neither Ctrl-C nor Ctrl-S; fuel for two nested calls and for
  one round for each key and 256 steps of wiping is enough. The count is smaller than the size and the carriage return stands behind that many
  characters; the buffer behind its size is as it was, and the buffers of the kernel keep their sizes. When the keys are printable
  characters and fit, the line is what was typed.
\<close>

theorem read_line_returns_line:
  assumes "at_console ou kbd k i j s" "ends_line (typed kbd s)" "2 \<le> m" "length (typed kbd s) + 256 \<le> n"
    and "con_ok s" "kb_size kp \<noteq> 0" "unat (kb_size kp) \<le> length (kb_buf kp)"
  shows "\<exists>kq s'. read_line (DosRWSft ou m) (read_char ou (cooked_write ou m) (DosRWSft ou m) m i j True) j n kp s = Some (Ret kq, s')
    \<and> con_ok s' \<and> kb_size kq = kb_size kp \<and> length (kb_buf kq) = length (kb_buf kp)
    \<and> drop (unat (kb_size kp)) (kb_buf kq) = drop (unat (kb_size kp)) (kb_buf kp)
    \<and> kb_count kq < kb_size kp \<and> kb_buf kq ! unat (kb_count kq) = CR
    \<and> (\<forall>cs rest. typed kbd s = cs @ CR # rest \<and> (\<forall>c \<in> set cs. printable c) \<and> length cs < unat (kb_size kp)
         \<longrightarrow> unat (kb_count kq) = length cs \<and> take (length cs) (kb_buf kq) = cs)"
proof -
  obtain m' where m: "m = Suc (Suc m')" using assms(3) by (auto simp: numeral_2_eq_2 dest: Suc_le_D)
  obtain kq s' where r: "read_line (DosRWSft ou m) (read_char ou (cooked_write ou m) (DosRWSft ou m) m i j True) j n kp s = Some (Ret kq, s')"
    using con_typing.read_line_returns [OF assms(1,2,4,6), of m'] unfolding m returns_def by blast
  have plain: "unat (kb_count kq) = length cs \<and> take (length cs) (kb_buf kq) = cs"
    if "typed kbd s = cs @ CR # rest" "\<forall>c \<in> set cs. printable c" "length cs < unat (kb_size kp)" for cs rest
  proof -
    have "length (local_buffer s) = 256" using assms(5) by (simp add: con_ok_def LINEBUFSIZE0A_def)
    moreover have "length cs < n" using assms(4) that(1) by simp
    ultimately show ?thesis
      using con_typing.read_line_plain [OF assms(1) that(1,2) _ _ that(3), of n m'] r unfolding m by (auto simp: returns_def)
  qed
  have "con_ok s' \<and> kb_size kq = kb_size kp \<and> length (kb_buf kq) = length (kb_buf kp)
      \<and> drop (unat (kb_size kp)) (kb_buf kq) = drop (unat (kb_size kp)) (kb_buf kp)
      \<and> kb_count kq < kb_size kp \<and> kb_buf kq ! unat (kb_count kq) = CR"
    by (rule read_line_in_buffer [OF assms(5-7) r])
  then show ?thesis using r plain by blast
qed

text \<open>A terminal at which a line is typed.\<close>

definition typing_outside :: "(bytes, nat \<times> u8 \<Rightarrow> u32 \<Rightarrow> bytes) outside" where
  "typing_outside = \<lparr>char_drv = (\<lambda>_ rq buf d.
       (rq\<lparr>r_status := if d = [] then S_DONE OR S_BUSY else S_DONE, r_ndbyte := if d = [] then 0 else hd d\<rparr>,
        if r_command rq = C_INPUT then [if d = [] then 0 else hd d] else buf, if r_command rq = C_INPUT then tl d else d)),
     blk_drv = ram_driver, media_drv = (\<lambda>_ rq d. (rq, d)), nls_mux = kernel_mux, redirector = (\<lambda>_ _ s. (-1, s)),
     remote_space = (\<lambda>_ _ s. (-1, [], s)), remote_rw = (\<lambda>_ _ _ buf s. (-1, buf, s)), qualify = (\<lambda>_ s. (-1, [], s))\<rparr>"

lemma typing_terminal: "terminal (char_drv typing_outside k) (\<lambda>d. d)"
  by (simp add: terminal_def typing_outside_def status_bits dev_commands)

definition typing_fsys :: "bytes \<Rightarrow> (bytes, nat \<times> u8 \<Rightarrow> u32 \<Rightarrow> bytes) fsys" where
  "typing_fsys ks = (let f = demo_fsys in \<lparr>fio = fio f, fnode0 = fnode0 f, fnode1 = fnode1 f, sfthead = sfthead f, lpCurSft = lpCurSft f,
     current_sft_idx = current_sft_idx f, share_installed = share_installed f, share_loaded = share_loaded f, shr = shr f,
     chars = \<lparr>CharReqHdr = CharReqHdr (chars f), CritErrCode = 0, answers = [], dev = ks\<rparr>, dhdrs = dhdrs f,
     cu_psp = fsys.cu_psp f, psps = psps f, stamp = stamp f, default_drive = default_drive f, nls = nls f, current_ldt = current_ldt f,
     njoined = njoined f, os_major = os_major f, media_rq = media_rq f, internal_dpb = internal_dpb f, PriPathName = PriPathName f,
     SecPathName = SecPathName f, fcb_name = fcb_name f, OpenMode = OpenMode f, SAttr = SAttr f, SearchDir = SearchDir f,
     ext_open = ext_open f\<rparr>)"

definition typing_ks :: "bytes \<Rightarrow> (bytes, nat \<times> u8 \<Rightarrow> u32 \<Rightarrow> bytes) kstate" where
  "typing_ks ks = \<lparr>fs = typing_fsys ks, scr_pos = 0, PrinterEcho = False, cb_flg = False, cb_events = [], InDOS = 1, ErrorMode = False,
     syscon = 0, fast_out = [], con_kb = \<lparr>kb_size = 128, kb_count = 0, kb_buf = replicate 129 0\<rparr>,
     local_buffer = replicate 256 0, inputptr = None, uninit = 0\<rparr>"

lemma typing_at_console:
  assumes "CTL_C \<notin> set ks" "CTL_S \<notin> set ks"
  shows "at_console typing_outside (\<lambda>d. d) 0 0 0 (typing_ks ks)" "typed (\<lambda>d. d) (typing_ks ks) = ks" "con_ok (typing_ks ks)"
  using assms typing_terminal [of 0]
  by (simp_all add: at_console_def typed_def typing_ks_def typing_fsys_def Let_def con_ok_def LINEBUFSIZE0A_def LINEBUFSIZECON_def)
    (simp add: console_entry_def console_sft_def sft_at_def demo_fsys_def demo_con_def SFT_FSHARED_def SFT_FDEVICE_def SFT_FBINARY_def SFT_FNUL_def)

theorem read_line_returns_line_witness:
  "\<exists>kq s'. read_line (DosRWSft typing_outside 2) (read_char typing_outside (cooked_write typing_outside 2) (DosRWSft typing_outside 2) 2 0 0 True)
      0 260 \<lparr>kb_size = 8, kb_count = 0, kb_buf = replicate 9 1\<rparr> (typing_ks [0x64, 0x69, 0x72, CR]) = Some (Ret kq, s')
    \<and> unat (kb_count kq) = 3 \<and> take 3 (kb_buf kq) = [0x64, 0x69, 0x72] \<and> kb_buf kq ! 3 = CR \<and> drop 8 (kb_buf kq) = [1]"
proof -
  let ?ks = "[0x64, 0x69, 0x72, CR]" and ?kp = "\<lparr>kb_size = 8, kb_count = 0, kb_buf = replicate 9 1\<rparr> :: keyboard"
  have n: "CTL_C \<notin> set ?ks" "CTL_S \<notin> set ?ks" by (simp_all add: CTL_C_def CTL_S_def CR_def)
  note a = typing_at_console [OF n]
  have e: "ends_line ?ks" by (simp add: CR_def)
  have p: "?ks = [0x64, 0x69, 0x72] @ CR # []" "\<forall>c \<in> set [0x64, 0x69, 0x72]. printable c" by (simp_all add: printable_def)
  have h: "ends_line (typed (\<lambda>d. d) (typing_ks ?ks))" "length (typed (\<lambda>d. d) (typing_ks ?ks)) + 256 \<le> 260"
    unfolding a(2) using e by simp_all
  have k: "kb_size ?kp \<noteq> 0" "unat (kb_size ?kp) \<le> length (kb_buf ?kp)" by simp_all
  show ?thesis using read_line_returns_line [OF a(1) h(1) order_refl h(2) a(3) k]
  proof (elim exE conjE, goal_cases)
    case (1 kq s')
    have three: "length [0x64 :: u8, 0x69, 0x72] = 3" "length [0x64 :: u8, 0x69, 0x72] < unat (kb_size ?kp)" by simp_all
    have "typed (\<lambda>d. d) (typing_ks ?ks) = [0x64, 0x69, 0x72] @ CR # []" unfolding a(2) by (rule p(1))
    then have "unat (kb_count kq) = length [0x64 :: u8, 0x69, 0x72] \<and> take (length [0x64 :: u8, 0x69, 0x72]) (kb_buf kq) = [0x64, 0x69, 0x72]"
      using 1(8) p(2) three(2) by blast
    then have "unat (kb_count kq) = 3 \<and> take 3 (kb_buf kq) = [0x64, 0x69, 0x72]" unfolding three(1) .
    moreover have "drop 8 (kb_buf kq) = [1]" using 1(5) by simp
    moreover have "kb_buf kq ! 3 = CR" using 1(7) calculation(1) by simp
    ultimately show ?case using 1(1) by (intro exI conjI) simp_all
  qed
qed

end
