(* ===== verification/Prf.thy ===== *)
theory Prf
  imports Dos_System
begin

text \<open>
  Printing, \<^verbatim>\<open>kernel/prf.c\<close>: numbers in a base, the formats of \<^verbatim>\<open>printf\<close> and \<^verbatim>\<open>sprintf\<close>, and the
  console output of the resident kernel. The output is the list of the characters given to interrupt 29, or written to the
  buffer of \<^verbatim>\<open>sprintf\<close>. The arguments are the words on the stack behind the format.
\<close>

section \<open>Characters and numbers\<close>

definition put_console :: "u16 \<Rightarrow> bytes" where
  "put_console c = (if c = 0x0a then [0x0d] else []) @ [lo8 c]"

definition put_string :: "bytes \<Rightarrow> bytes" where
  "put_string s = concat (map (\<lambda>c. put_console (scast c)) s)"

definition digit :: "nat \<Rightarrow> u8" where
  "digit d = (if d < 10 then 0x30 + of_nat d else 0x61 + of_nat (d - 10))"

text \<open>The digits of \<^verbatim>\<open>ltob\<close>, the last one first; the bases are 8, 10 and 16.\<close>

function digits_rev :: "nat \<Rightarrow> nat \<Rightarrow> bytes" where
  "digits_rev base u = digit (u mod base) # (if 1 < base \<and> 0 < u div base then digits_rev base (u div base) else [])"
  by pat_completeness auto
termination
proof (relation "measure snd")
  fix base u :: nat
  assume "1 < base \<and> 0 < u div base"
  then have "1 < base" "0 < u" by (auto intro: gr0I)
  then show "((base, u div base), base, u) \<in> measure snd" by (simp add: div_less_dividend)
qed simp

declare digits_rev.simps [simp del]
declare digits_rev.simps [code]

definition ltob :: "u32 \<Rightarrow> int \<Rightarrow> bytes" where
  "ltob n base =
     (if base = -10
      then (if sint n < 0 then 0x2d # rev (digits_rev 10 (unat (- n))) else rev (digits_rev 10 (unat n)))
      else rev (digits_rev (nat base) (unat n)))"

text \<open>The last \<open>width\<close> digits.\<close>

fun put_digits :: "nat \<Rightarrow> u16 \<Rightarrow> u16 \<Rightarrow> bytes" where
  "put_digits 0 n base = []"
| "put_digits (Suc i) n base = put_digits i (n div base) base @ [digit (unat (n mod base))]"

definition put_unsigned :: "u16 \<Rightarrow> u16 \<Rightarrow> nat \<Rightarrow> bytes" where
  "put_unsigned n base width = concat (map (\<lambda>c. put_console (ucast c)) (put_digits width n base))"

text \<open>A dump of memory, 16 bytes in a line.\<close>

definition hexd_line :: "far \<Rightarrow> bytes \<Rightarrow> nat \<Rightarrow> bytes" where
  "hexd_line p line at =
     put_unsigned (fst p) 16 4 @ put_console 0x3a @ put_unsigned (snd (far_add p at)) 16 4 @ put_console 0x7c
     @ concat (map (\<lambda>b. put_unsigned (ucast b) 16 2 @ put_console 0x20) line)
     @ concat (map (\<lambda>b. put_console (if b < 0x20 then 0x2e else ucast b)) line)
     @ put_console 0x0a"

fun hexd_lines :: "far \<Rightarrow> nat \<Rightarrow> bytes list \<Rightarrow> bytes" where
  "hexd_lines p at [] = []"
| "hexd_lines p at (l # ls) = hexd_line p l at @ hexd_lines p (at + 16) ls"

fun lines16 :: "nat \<Rightarrow> bytes \<Rightarrow> bytes list" where
  "lines16 0 bs = []"
| "lines16 (Suc n) bs = (if bs = [] then [] else take 16 bs # lines16 n (drop 16 bs))"

definition hexd :: "bytes \<Rightarrow> far \<Rightarrow> nat \<Rightarrow> umem \<Rightarrow> bytes" where
  "hexd title p n m =
     put_string title @ (if n > 16 then put_console 0x0a else []) @ hexd_lines p 0 (lines16 n (ld_bytes m p n))"

section \<open>Formats\<close>

datatype sink = To_console | To_buffer

definition handle_char :: "sink \<Rightarrow> u16 \<Rightarrow> bytes" where
  "handle_char k c = (if k = To_console then put_console c else [lo8 c])"

definition handle_chars :: "sink \<Rightarrow> bytes \<Rightarrow> bytes" where
  "handle_chars k s = concat (map (\<lambda>c. handle_char k (scast c)) s)"

text \<open>Flags, width and the letter \<open>l\<close> of a format; the rest starts with its last letter.\<close>

fun format_size :: "u16 \<Rightarrow> bytes \<Rightarrow> u16 \<times> bytes" where
  "format_size n [] = (n, [])"
| "format_size n (c # cs) = (if 0x30 \<le> c \<and> c \<le> 0x39 then format_size (n * 10 + ucast (c - 0x30)) cs else (n, c # cs))"

definition skip_char :: "u8 \<Rightarrow> bytes \<Rightarrow> bool \<times> bytes" where
  "skip_char c fmt = (if take 1 fmt = [c] then (True, tl fmt) else (False, fmt))"

definition format_spec :: "bytes \<Rightarrow> (bool \<times> bool \<times> u16 \<times> bool) \<times> bytes" where
  "format_spec fmt =
     (let (left, f1) = skip_char 0x2d fmt;
          (zeros, f2) = skip_char 0x30 f1;
          (n, f3) = format_size 0 f2;
          (long_arg, f4) = skip_char 0x6c f3
      in ((left, zeros, n, long_arg), f4))"

lemma format_size_le: "format_size n fmt = (m, rest) \<Longrightarrow> length rest \<le> length fmt"
  by (induction n fmt rule: format_size.induct) (auto split: if_splits)

lemma skip_char_le: "skip_char c fmt = (b, rest) \<Longrightarrow> length rest \<le> length fmt"
  by (auto simp: skip_char_def split: if_splits)

lemma format_spec_le: "format_spec fmt = (x, rest) \<Longrightarrow> length rest \<le> length fmt"
  by (auto simp: format_spec_def Let_def split: prod.splits dest!: skip_char_le format_size_le)

definition print_field :: "sink \<Rightarrow> bool \<Rightarrow> bool \<Rightarrow> u16 \<Rightarrow> bytes \<Rightarrow> bytes" where
  "print_field k left zeros n text =
     (let pad = nat (sint (n - of_nat (length text)))
      in (if left then [] else handle_chars k (replicate pad (if zeros then 0x30 else 0x20))) @ handle_chars k text
         @ (if left then handle_chars k (replicate pad 0x20) else []))"

text \<open>The number of an argument: an int is extended by its sign, for an unsigned base by zeros.\<close>

definition number_base :: "u8 \<Rightarrow> int option" where
  "number_base c =
     (if c = 0x69 \<or> c = 0x64 then Some (-10) else if c = 0x6f then Some 8 else if c = 0x75 then Some 10
      else if c = 0x58 \<or> c = 0x78 then Some 16 else None)"

definition number_arg :: "bool \<Rightarrow> int \<Rightarrow> u16 list \<Rightarrow> (u32 \<times> u16 list) option" where
  "number_arg long_arg base args =
     (case args of
        [] \<Rightarrow> None
      | w # ws \<Rightarrow>
          if long_arg then (case ws of [] \<Rightarrow> None | h # hs \<Rightarrow> Some (mk32 w h, hs))
          else Some (if base \<ge> 0 then ucast w else scast w, ws))"

text \<open>What the last letter prints; \<open>near\<close> and \<open>far\<close> are the texts at an address. \<^verbatim>\<open>None\<close> reads words that were not passed.\<close>

definition field_text :: "(u16 \<Rightarrow> bytes) \<Rightarrow> (far \<Rightarrow> bytes) \<Rightarrow> u8 \<Rightarrow> bool \<Rightarrow> u16 list \<Rightarrow> (bytes \<times> u16 list) option" where
  "field_text near_text far_text c long_arg args =
     (if c = 0x70 then
        (case args of off # seg # ws \<Rightarrow> Some (put_digits 4 seg 16 @ [0x3a] @ put_digits 4 off 16, ws) | _ \<Rightarrow> None)
      else if c = 0x73 then (case args of p # ws \<Rightarrow> Some (near_text p, ws) | _ \<Rightarrow> None)
      else if c = 0x53 \<or> c = 0x46 then (case args of off # seg # ws \<Rightarrow> Some (far_text (seg, off), ws) | _ \<Rightarrow> None)
      else
        (case number_base c of
           None \<Rightarrow> None
         | Some base \<Rightarrow> map_option (\<lambda>(v, ws). (ltob v base, ws)) (number_arg long_arg base args)))"

definition is_field :: "u8 \<Rightarrow> bool" where
  "is_field c \<longleftrightarrow> c \<in> set [0x70, 0x73, 0x53, 0x46] \<or> number_base c \<noteq> None"

text \<open>A format that ends in \<open>%F\<close> is read beyond its end.\<close>

function do_printf :: "(u16 \<Rightarrow> bytes) \<Rightarrow> (far \<Rightarrow> bytes) \<Rightarrow> sink \<Rightarrow> bytes \<Rightarrow> u16 list \<Rightarrow> bytes option" where
  "do_printf near_text far_text k fmt args =
     (if fmt = [] then Some []
      else if hd fmt \<noteq> 0x25
      then map_option ((@) (handle_char k (scast (hd fmt)))) (do_printf near_text far_text k (tl fmt) args)
      else
        (case format_spec (tl fmt) of
           (_, []) \<Rightarrow> Some []
         | ((left, zeros, n, long_arg), c # rest) \<Rightarrow>
             if c = 0x63 then
               (case args of [] \<Rightarrow> None | w # ws \<Rightarrow> map_option ((@) (handle_char k w)) (do_printf near_text far_text k rest ws))
             else if is_field c then
               (case field_text near_text far_text c long_arg args of
                  None \<Rightarrow> None
                | Some (text, ws) \<Rightarrow>
                    if c = 0x46 \<and> rest = [] then None
                    else map_option ((@) (print_field k left zeros n text))
                           (do_printf near_text far_text k (if c = 0x46 then tl rest else rest) ws))
             else
               map_option ((@) ((if c = 0x25 then [] else handle_char k 0x3f) @ handle_char k (scast c)))
                 (do_printf near_text far_text k rest args)))"
  by pat_completeness auto
termination
  by (relation "measure (\<lambda>(_, _, _, fmt, _). length fmt)")
    (auto dest!: format_spec_le [OF sym] simp: neq_Nil_conv)

declare do_printf.simps [simp del]
declare do_printf.simps [code]

definition printf :: "(u16 \<Rightarrow> bytes) \<Rightarrow> (far \<Rightarrow> bytes) \<Rightarrow> bytes \<Rightarrow> u16 list \<Rightarrow> bytes option" where
  "printf near_text far_text = do_printf near_text far_text To_console"

definition sprintf :: "(u16 \<Rightarrow> bytes) \<Rightarrow> (far \<Rightarrow> bytes) \<Rightarrow> bytes \<Rightarrow> u16 list \<Rightarrow> bytes option" where
  "sprintf near_text far_text fmt args = map_option (\<lambda>s. s @ [0]) (do_printf near_text far_text To_buffer fmt args)"

section \<open>The digits of a number\<close>

text \<open>The digits read back give the number, for every base up to 16.\<close>

definition digit_value :: "u8 \<Rightarrow> nat" where
  "digit_value c = (if c < 0x40 then unat c - 0x30 else unat c - 0x61 + 10)"

lemma digit_value_digit: "d < 16 \<Longrightarrow> digit_value (digit d) = d"
  by (simp add: digit_def digit_value_def unat8_of_nat word_less_nat_alt unat_word_ariths)

fun value_rev :: "nat \<Rightarrow> bytes \<Rightarrow> nat" where
  "value_rev base [] = 0"
| "value_rev base (c # cs) = digit_value c + base * value_rev base cs"

lemma value_digits_rev:
  assumes "1 < base" "base \<le> 16"
  shows "value_rev base (digits_rev base u) = u"
  using assms
proof (induction base u rule: digits_rev.induct)
  case (1 base u)
  have "u mod base < base" by (rule mod_less_divisor) (use "1.prems" in linarith)
  then have "u mod base < 16" using "1.prems"(2) by (rule less_le_trans)
  then have m: "digit_value (digit (u mod base)) = u mod base" by (rule digit_value_digit)
  show ?case
  proof (cases "0 < u div base")
    case True
    then show ?thesis using 1 m by (subst digits_rev.simps) simp
  next
    case False
    then show ?thesis using "1.prems" m by (subst digits_rev.simps) (simp add: div_eq_0_iff)
  qed
qed

lemmas prf_simps = sprintf_def do_printf.simps format_spec_def skip_char_def field_text_def is_field_def number_base_def number_arg_def
  print_field_def handle_chars_def handle_char_def ltob_def digits_rev.simps digit_def mk32_def lo8_def Let_def

lemma put_digits_4:
  "put_digits 4 n b = [digit (unat (n div b div b div b mod b)), digit (unat (n div b div b mod b)), digit (unat (n div b mod b)), digit (unat (n mod b))]"
  by (simp add: numeral_eq_Suc)

lemma replicate_3: "replicate 3 c = [c, c, c]"
  by (simp add: numeral_eq_Suc)

text \<open>Cases of the test program at the end of the file.\<close>

lemma printf_tests:
  "sprintf t f [0x25, 0x30, 0x34, 0x78] [1] = Some [0x30, 0x30, 0x30, 0x31, 0]"
  "sprintf t f [0x25, 0x2d, 0x34, 0x78] [1] = Some [0x31, 0x20, 0x20, 0x20, 0]"
  "sprintf t f [0x25, 0x64] [0x8000] = Some [0x2d, 0x33, 0x32, 0x37, 0x36, 0x38, 0]"
  "sprintf t f [0x25, 0x6c, 0x78] [0, 0x8000] = Some [0x38, 0x30, 0x30, 0x30, 0x30, 0x30, 0x30, 0x30, 0]"
  "sprintf t f [0x25, 0x70] [0x5678, 0x1234] = Some [0x31, 0x32, 0x33, 0x34, 0x3a, 0x35, 0x36, 0x37, 0x38, 0]"
  by (simp_all add: prf_simps put_digits_4 replicate_3)

end
