(* ===== verification/Int2f.thy ===== *)
theory Int2f
  imports Int21_Service Prf
begin

text \<open>
  The internal calls of multiplex interrupt 2F, \<^verbatim>\<open>int2F_12_handler\<close> of \<^verbatim>\<open>kernel/inthndlr.c\<close>: HMA space
  (4A01, 4A02), the disk interrupt (13), DRIVER.SYS (08) and the functions 12xx. Without \<^verbatim>\<open>WIN31SUPPORT\<close> the calls
  16xx and 46xx do nothing. The caller hands over registers and one word of its stack.
\<close>

record int2f12regs = iregs +
  callerARG1 :: u16

text \<open>Variables only these calls use; \<open>TempCDS\<close> without the two words nothing reads.\<close>

record mux_vars =
  firstAvailableBuf :: far
  UserInt13 :: far
  BIOSInt13 :: far
  TempCDS :: cds

text \<open>Where the structures lie, and which entry of the file tables an address of the caller is.\<close>

record mux_places =
  sft_of :: "far \<Rightarrow> sft_ptr option"
  cds_place :: "nat \<Rightarrow> far"
  TempCDS_place :: far
  sizeof_cds :: u16
  filetab_place :: "u16 \<Rightarrow> far"
  nul_dev_place :: far
  nul_next_place :: far
  ddt_place :: far

section \<open>HMA space\<close>

text \<open>\<^verbatim>\<open>AllocateHMASpace\<close> of \<^verbatim>\<open>kernel/blockio.c\<close>: buffers in the area are written back and leave the ring.\<close>

definition sizeof_buffer :: u16 where "sizeof_buffer = 532"

definition drop_buffer :: "u16 \<Rightarrow> 'd io \<Rightarrow> 'd io" where
  "drop_buffer bp e =
     (let b = bufs e;
          b1 = set_next (b_prev (b bp)) (b_next (b bp)) b;
          b2 = set_prev (b_next (b1 bp)) (b_prev (b1 bp)) b1
      in e\<lparr>bufs := b2, firstbuf := (if bp = firstbuf e then b_next (b2 bp) else firstbuf e), nbuffers := nbuffers e - 1\<rparr>)"

fun hma_walk :: "'d blk_driver \<Rightarrow> u16 \<Rightarrow> u16 \<Rightarrow> nat \<Rightarrow> u16 \<Rightarrow> 'd io \<Rightarrow> 'd io" where
  "hma_walk drv low high 0 bp e = e"
| "hma_walk drv low high (Suc n) bp e =
     (let e1 = (if bp \<le> high \<and> bp + sizeof_buffer > low then drop_buffer bp (snd (flush1 drv bp e)) else e)
      in hma_walk drv low high n (b_next (bufs e1 bp)) e1)"

definition AllocateHMASpace :: "'d blk_driver \<Rightarrow> u16 \<Rightarrow> u16 \<Rightarrow> 'd io \<Rightarrow> 'd io" where
  "AllocateHMASpace drv low high e =
     (if bufseg e \<noteq> 0xffff then e
      else hma_walk drv low high (let n = unat (nbuffers e) in if n = 0 then 65536 else n) (firstbuf e) e)"

definition hma_space :: "'d blk_driver \<Rightarrow> int2f12regs \<Rightarrow> mux_vars \<Rightarrow> 'd io \<Rightarrow> int2f12regs \<times> mux_vars \<times> 'd io" where
  "hma_space drv r v e =
     (let area = (\<lambda>offs sz. r\<lparr>ES := 0xffff, DI := offs, BX := sz\<rparr>);
          realoffs = snd (firstAvailableBuf v);
          offs = (realoffs + 15) AND NOT 15; free = - offs;
          wanted = (BX r + 15) AND NOT 15
      in if fst (firstAvailableBuf v) \<noteq> 0xffff \<or> realoffs > 0xfff0 then (area 0xffff 0, v, e)
         else if lo8 (AX r) \<noteq> 0x02 then (area offs free, v, e)
         else if wanted < BX r \<or> wanted > free then (area 0xffff 0, v, e)
         else
           (area offs wanted,
            v\<lparr>firstAvailableBuf := (if unat offs + unat wanted = 0x10000 then (0xffff, 0xffff)
                                    else (0xffff, realoffs + (wanted + (offs - realoffs))))\<rparr>,
            AllocateHMASpace drv realoffs (offs + wanted - 1) e))"

section \<open>Calls of other prefixes\<close>

definition disk_interrupt :: "int2f12regs \<Rightarrow> mux_vars \<Rightarrow> int2f12regs \<times> mux_vars" where
  "disk_interrupt r v =
     (r\<lparr>DS := fst (UserInt13 v), DX := snd (UserInt13 v), ES := fst (BIOSInt13 v), BX := snd (BIOSInt13 v)\<rparr>,
      v\<lparr>UserInt13 := (DS r, DX r), BIOSInt13 := (ES r, BX r)\<rparr>)"

definition put_AL :: "u8 \<Rightarrow> int2f12regs \<Rightarrow> int2f12regs" where
  "put_AL b r = r\<lparr>AX := set_lo b (AX r)\<rparr>"

definition driver_sys :: "mux_places \<Rightarrow> int2f12regs \<Rightarrow> int2f12regs" where
  "driver_sys P r =
     (if lo8 (AX r) = 0x00 then put_AL 0xff r
      else if lo8 (AX r) = 0x03 then r\<lparr>DS := fst (nul_dev_place P), DI := snd (ddt_place P)\<rparr>
      else r)"

section \<open>Functions on registers and texts\<close>

type_synonym ('c, 'd) mux_step = "int2f12regs \<Rightarrow> (label \<times> int2f12regs, 'c, 'd) call"

definition give :: "int2f12regs \<Rightarrow> (label \<times> int2f12regs, 'c, 'd) call" where
  "give r = ret (Exit_dispatch, r)"

definition go :: "label \<Rightarrow> int2f12regs \<Rightarrow> (label \<times> int2f12regs, 'c, 'd) call" where
  "go l r = ret (l, r)"

definition put_flag :: "u16 \<Rightarrow> bool \<Rightarrow> int2f12regs \<Rightarrow> int2f12regs" where
  "put_flag f on r = r\<lparr>FLAGS := (if on then FLAGS r OR f else FLAGS r AND NOT f)\<rparr>"

definition up_ascii :: "u8 \<Rightarrow> u8" where
  "up_ascii c = (if 0x61 \<le> c \<and> c \<le> 0x7a then c - 0x20 else c)"

text \<open>Function 04: the separator test; for other characters AL keeps the function number.\<close>

definition path_separator :: "('c, 'd) mux_step" where
  "path_separator r s =
     (let c = lo8 (callerARG1 r) in
      if c = 0x2f \<or> c = 0x5c \<or> c = switchar (dv s) then give ((put_flag FLG_ZERO True (put_AL 0x5c r))\<lparr>DX := set_lo 0 (DX r)\<rparr>) s
      else give ((put_flag FLG_ZERO False r)\<lparr>DX := set_lo (if nlsIsDBCS c (nls (fss s)) then 1 else 0) (DX r)\<rparr>) s)"

text \<open>Function 11, character by character; a text without an end goes round its segment.\<close>

fun normalize_name :: "nat \<Rightarrow> far \<Rightarrow> far \<Rightarrow> umem \<Rightarrow> umem option" where
  "normalize_name 0 p q m = None"
| "normalize_name (Suc n) p q m =
     (let c = ld8 m p; c1 = (if c = 0x2f then 0x5c else up_ascii c); m1 = m(lin q := c1)
      in if c1 = 0 then Some m1 else normalize_name n (far_add p 1) (far_add q 1) m1)"

text \<open>Function 1E; texts without an end that agree are compared for ever.\<close>

fun same_names :: "nat \<Rightarrow> far \<Rightarrow> far \<Rightarrow> umem \<Rightarrow> bool option" where
  "same_names 0 p q m = None"
| "same_names (Suc n) p q m =
     (let c1 = up_ascii (ld8 m p); c2 = up_ascii (ld8 m q)
      in if c1 \<noteq> 0 \<and> c1 = c2 then same_names n (far_add p 1) (far_add q 1) m else Some (c1 = c2))"

definition text_size :: "far \<Rightarrow> ('c, 'd) dos \<Rightarrow> u16" where
  "text_size p s = of_nat (length (ld_text (umem s) p)) + 1"

definition drive_letter :: "('c, 'd) mux_step" where
  "drive_letter r s =
     (let p = (DS r, SI r); c = ld8 (umem s) p; d = c OR 0x20 in
      if c = 0 \<or> ld8 (umem s) (far_add p 1) \<noteq> 0x3a then give (put_AL 0 r) s
      else if 0x61 \<le> d \<and> d \<le> 0x7a then give ((put_AL (d - 0x60) r)\<lparr>SI := SI r + 2\<rparr>) s
      else give (put_AL 0xff r) s)"

definition mux_texts :: "('c, 'd) mux_step" where
  "mux_texts r s =
     (let al = lo8 (AX r) in
      if al = 0x04 then path_separator r s
      else if al = 0x11 then
        (case normalize_name 65536 (DS r, SI r) (ES r, DI r) (umem s) of None \<Rightarrow> None | Some m \<Rightarrow> give r (s\<lparr>umem := m\<rparr>))
      else if al = 0x12 then give (r\<lparr>CX := text_size (ES r, DI r) s\<rparr>) s
      else if al = 0x13 then give (put_AL (up_ascii (lo8 (callerARG1 r))) r) s
      else if al = 0x14 then give (put_flag FLG_ZERO (DS r = ES r \<and> SI r = DI r) r) s
      else if al = 0x1a then drive_letter r s
      else if al = 0x1e then
        (case same_names 65536 (DS r, SI r) (ES r, DI r) (umem s) of None \<Rightarrow> None | Some z \<Rightarrow> give (put_flag FLG_ZERO z r) s)
      else give (r\<lparr>CX := text_size (DS r, SI r) s\<rparr>) s)"

section \<open>Functions on the state of the kernel\<close>

text \<open>The critical error handler (interrupt 24) answers from the list of the character requests.\<close>

definition critical_error :: "('c, 'd) dos \<Rightarrow> u8 \<times> ('c, 'd) dos" where
  "critical_error s =
     (let as = answers (chars (fss s));
          code = (\<lambda>a. case a of CONTINUE \<Rightarrow> 0 | RETRY \<Rightarrow> 1 | ABORT \<Rightarrow> 2 | FAIL \<Rightarrow> 3)
      in (case as of [] \<Rightarrow> 3 | a # _ \<Rightarrow> code a, upd_fs (\<lambda>g. g\<lparr>chars := (chars g)\<lparr>answers := tl as\<rparr>\<rparr>) s))"

definition O_SHAREMASK :: u16 where "O_SHAREMASK = 0x0070"

text \<open>Functions 06, 0A and 0B; a conflict with a file opened in another way is not asked about.\<close>

definition mux_critical :: "mux_places \<Rightarrow> ('c, 'd) mux_step" where
  "mux_critical P r s =
     (let al = lo8 (AX r) in
      if al = 0x06 then (case critical_error s of (a, s1) \<Rightarrow> give (put_AL a r) s1)
      else if al = 0x0a then (case critical_error s of (a, s1) \<Rightarrow> give (put_flag FLG_CARRY (a \<noteq> 1) (put_AL a r)) s1)
      else
        (case sft_of P (ES r, DI r) of
           None \<Rightarrow> None
         | Some q \<Rightarrow>
             (let mode = sft_mode (sft_at q (fss s)) in
              if mode AND O_FCB \<noteq> 0 \<or> mode AND (O_SHAREMASK OR O_NOINHERIT) = 0
              then (case critical_error s of (a, s1) \<Rightarrow> give ((put_flag FLG_CARRY (a \<noteq> 1) r)\<lparr>AX := 0x20\<rparr>) s1)
              else give ((put_flag FLG_CARRY True r)\<lparr>AX := 0x20\<rparr>) s)))"

text \<open>Function 0C opens the device of the current entry and notes the process.\<close>

definition open_request :: request where
  "open_request = \<lparr>r_length = req_size, r_unit = 0, r_command = C_OPEN, r_status = 0, r_count = 0, r_ndbyte = 0, r_nunits = 0\<rparr>"

definition open_notice :: "('c, 'd) around \<Rightarrow> ('c, 'd) mux_step" where
  "open_notice A r s =
     (let g = fss s; own = (\<lambda>q. upd_fs (\<lambda>g. upd_sft q (\<lambda>t. t\<lparr>sft_psp := fsys.cu_psp g\<rparr>) g)) in
      case lpCurSft g of
        None \<Rightarrow> None
      | Some q \<Rightarrow>
          if sft_flags (sft_at q g) AND SFT_FDEVICE = 0 then give r (own q s)
          else
            (case sft_dcb (sft_at q g) of
               Dcb _ \<Rightarrow> None
             | Dev k \<Rightarrow>
                 (case char_drv (outer A) k open_request [] (dev (chars g)) of (_, _, d) \<Rightarrow>
                    give r (own q (upd_fs (\<lambda>g. g\<lparr>chars := (chars g)\<lparr>dev := d\<rparr>\<rparr>) s)))))"

definition mux_sft :: "('c, 'd) around \<Rightarrow> mux_places \<Rightarrow> ('c, 'd) mux_step" where
  "mux_sft A P r s =
     (let al = lo8 (AX r) in
      if al = 0x08 then
        (case sft_of P (ES r, DI r) of
           None \<Rightarrow> None
         | Some q \<Rightarrow>
             give (r\<lparr>AX := sft_count (sft_at q (fss s))\<rparr>)
               (upd_fs (upd_sft q (\<lambda>t. t\<lparr>sft_count := (if sft_count t - 1 = 0 then 0xffff else sft_count t - 1)\<rparr>)) s))
      else if al = 0x0c then open_notice A r s
      else if al = 0x16 then
        andthen (sys (idx_to_sft0 (sint (BX r))) s) (\<lambda>i s1.
          case lpCurSft (fss s1) of
            None \<Rightarrow> go Error_carry r s1
          | Some q \<Rightarrow> give (r\<lparr>BX := of_int i, ES := fst (sft_place (lay A) q), DI := snd (sft_place (lay A) q)\<rparr>) s1)
      else
        (let p = psp_at (this_psp s) s; at = far_add (filetab_place P (this_psp s)) (unat (BX r)) in
         if BX r \<ge> ps_maxfiles p then go Error_carry (put_AL 6 r) s else give (r\<lparr>ES := fst at, DI := snd at\<rparr>) s))"

text \<open>Function 1F: a drive table entry of its own for the drive.\<close>

definition temp_cds :: "u8 \<Rightarrow> cds \<Rightarrow> cds" where
  "temp_cds name c =
     \<lparr>cdsCurrentPath = [name, 0x3a, 0x5c] @ replicate (MAX_CDSPATH - 3) 0, cdsFlags = (if cdsFlags c \<noteq> 0 then CDSPHYSDRV else 0),
      cdsDpb = (if cdsFlags c \<noteq> 0 then cdsDpb c else None), cdsStrtClst = 0xffff, cdsBackslashOffset = 2\<rparr>"

definition build_cds :: "mux_places \<Rightarrow> int2f12regs \<Rightarrow> 'd io \<Rightarrow> (int2f12regs \<times> cds) option" where
  "build_cds P r e =
     (let drv = unat (callerARG1 r AND 0x1f) in
      if drv = 0 then None
      else map_option (\<lambda>c. (r\<lparr>CX := sizeof_cds P, ES := fst (TempCDS_place P), DI := snd (TempCDS_place P)\<rparr>, temp_cds (lo8 (callerARG1 r)) c))
             (get_cds_unvalidated (drv - 1) e))"

definition mux_drives :: "mux_places \<Rightarrow> ('c, 'd) mux_step" where
  "mux_drives P r s =
     (let al = lo8 (AX r); e = fio (fss s) in
      if al = 0x17 then
        (let i = unat (lo8 (callerARG1 r)) in
         if get_cds_unvalidated i e = None then go Error_carry r s
         else give (r\<lparr>DS := fst (cds_place P i), SI := snd (cds_place P i)\<rparr>) s)
      else
        (if get_cds_unvalidated (unat al) e = None then go Error_carry (r\<lparr>AX := 15\<rparr>) s
         else andthen (sys (DosSelectDrv al) s) (\<lambda>n. give (put_AL (of_nat n) r))))"

section \<open>Functions of interrupt 21\<close>

text \<open>Function 2B calls the device control with a copy of the registers and drops what it returns in them.\<close>

definition inner_ioctl :: "('c, 'd) around \<Rightarrow> ('c, 'd) mux_step" where
  "inner_ioctl A r s =
     (if BP r < 0x4400 \<or> BP r > 0x44ff then go Error_invalid r s
      else
        andthen (DosDevIOctl A (lregs.truncate (r\<lparr>AX := BP r\<rparr>)) s) (\<lambda>(rc, _) s1.
          if rc < 0 then
            go Error_carry (r\<lparr>AX := of_int (- rc)\<rparr>) (if rc \<noteq> errno DE_DEVICE \<and> rc \<noteq> errno DE_ACCESS then put_crit (- rc) s1 else s1)
          else give r s1))"

definition inner_seek :: "('c, 'd) around \<Rightarrow> ('c, 'd) mux_step" where
  "inner_seek A r s0 =
     (let s = put_crit 0 s0 in
      if BP r < 0x4200 \<or> BP r > 0x4202 then go Error_invalid r s
      else
        andthen (sys (\<lambda>g. case DosSeek (outer A) (BX r) (mk32 (DX r) (CX r)) (BP r AND 0xff) g of (p, rc, g1) \<Rightarrow> ((p, rc), g1)) s)
          (\<lambda>(p, rc). go (Short_check rc) (if rc = 0 then r\<lparr>DX := ucast (drop_bit 16 p), AX := ucast p\<rparr> else r)))"

definition mux_files :: "('c, 'd) around \<Rightarrow> nat \<Rightarrow> ('c, 'd) mux_step" where
  "mux_files A fuel r s =
     (let al = lo8 (AX r); ou = outer A; s0 = put_crit 0 s in
      if al = 0x21 then
        andthen (sys_opt (\<lambda>g. map_option (\<lambda>(rc, t, g1). ((rc, t), g1)) (DosTruename ou (ld_text (umem s) (DS r, SI r)) g)) s) (\<lambda>(rc, t) s1.
          go (Short_check rc) (r\<lparr>AX := of_int rc\<rparr>) (case t of None \<Rightarrow> s1 | Some t \<Rightarrow> upd_mem (st_text (ES r, DI r) t) s1))
      else if al = 0x23 then
        andthen (sys (\<lambda>g. IsDevice ou (takeWhile (\<lambda>c. c \<noteq> 0) (fcb_name g)) g) s) (\<lambda>k s1.
          case k of
            None \<Rightarrow> go Error_carry r s1
          | Some k \<Rightarrow> give (r\<lparr>BX := set_hi (lo8 (dh_attr (dhdrs (fss s1) ! k))) (BX r)\<rparr>) s1)
      else if al = 0x26 then
        andthen (sys_opt (DosOpen ou (ld_text (umem s) (DS r, DX r)) (O_LEGACY OR O_OPEN OR ucast (lo8 (CX r))) 0) s0) (\<lambda>rc. go (Long_check rc) r)
      else if al = 0x27 then andthen (sys_opt (DosClose ou (BX r)) s0) (\<lambda>rc. go (Short_check rc) r)
      else if al = 0x28 then inner_seek A r s
      else if al = 0x29 then
        andthen (rw_far ou fuel (get_sft_idx (BX r) (fss s0)) (CX r) (DS r, DX r) RD s0) (\<lambda>rc. go (Long_check rc) r)
      else inner_ioctl A r s)"

definition set_version :: "int2f12regs \<Rightarrow> ('c, 'd) dos \<Rightarrow> ('c, 'd) dos" where
  "set_version r s =
     upd_dv (\<lambda>v. if DX r \<noteq> 0 then v\<lparr>os_setver_major := lo8 (DX r), os_setver_minor := hi8 (DX r)\<rparr>
                 else v\<lparr>os_setver_major := os_major (fss s), os_setver_minor := os_minor v\<rparr>) s"

text \<open>The message of a function that is not there, through interrupt 29.\<close>

definition not_there :: "('c, 'd) mux_step" where
  "not_there r s =
     go Error_carry r
       (upd_ks (\<lambda>k. k\<lparr>fast_out := fast_out k @ put_string (map (of_nat \<circ> of_char) ''unimplemented internal dos function INT2F/12'')
                 @ put_unsigned (ucast (lo8 (AX r))) 16 2 @ put_console 0x0a\<rparr>) s)"

section \<open>The handler\<close>

definition mux_function :: "('c, 'd) around \<Rightarrow> mux_places \<Rightarrow> nat \<Rightarrow> ('c, 'd) mux_step" where
  "mux_function A P fuel r s =
     (let al = lo8 (AX r) in
      if al = 0x00 then give (put_AL 0xff r) s
      else if al = 0x02 then give (r\<lparr>ES := fst (getvec (lo8 (CX r)) s), BX := snd (getvec (lo8 (CX r)) s)\<rparr>) s
      else if al = 0x03 then give (r\<lparr>DS := fst (nul_dev_place P)\<rparr>) s
      else if al = 0x05 then
        andthen (break_check A fuel s) (\<lambda>_ s1. andthen (put_stdout A fuel al s1) (\<lambda>_. give r))
      else if al \<in> set [0x06, 0x0a, 0x0b] then mux_critical P r s
      else if al \<in> set [0x08, 0x0c, 0x16, 0x20] then mux_sft A P r s
      else if al = 0x0d then give (r\<lparr>AX := snd (stamp (fss s)), DX := fst (stamp (fss s))\<rparr>) s
      else if al \<in> set [0x04, 0x11, 0x12, 0x13, 0x14, 0x1a, 0x1e, 0x25] then mux_texts r s
      else if al = 0x17 \<or> al = 0x19 then mux_drives P r s
      else if al = 0x18 then give (r\<lparr>DS := fst (user_r s), SI := snd (user_r s)\<rparr>) s
      else if al = 0x1b then give (put_AL (if CX r AND 3 \<noteq> 0 then 28 else 29) r) s
      else if al \<in> set [0x21, 0x23, 0x26, 0x27, 0x28, 0x29, 0x2b] then mux_files A fuel r s
      else if al = 0x2a \<or> al = 0x2e then give r s
      else if al = 0x2c then give (r\<lparr>BX := fst (nul_next_place P), AX := snd (nul_next_place P)\<rparr>) s
      else if al = 0x2d then give (r\<lparr>AX := crit_code s\<rparr>) s
      else if al = 0x2f then give r (set_version r s)
      else if al \<le> 0x31 then not_there r s
      else give r s)"

text \<open>The labels at the end.\<close>

definition mux_end :: "label \<Rightarrow> int2f12regs \<Rightarrow> ('c, 'd) dos \<Rightarrow> int2f12regs \<times> ('c, 'd) dos" where
  "mux_end l r s =
     (let carry = (\<lambda>r. put_flag FLG_CARRY True r);
          error = (\<lambda>rc. let ax = of_int (- rc) in (carry (r\<lparr>AX := ax\<rparr>), if crit_code s = 0 then put_crit (uint (ax :: u16)) s else s))
      in case l of
           Short_check rc \<Rightarrow> if rc < 0 then error rc else (r, s)
         | Long_check rc \<Rightarrow> if rc < 0 then error rc else (r\<lparr>AX := of_int rc\<rparr>, s)
         | Error_invalid \<Rightarrow> error (errno DE_INVLDFUNC)
         | Error_exit rc \<Rightarrow> error rc
         | Error_carry \<Rightarrow> (carry r, s)
         | _ \<Rightarrow> (r, s))"

definition int2F_12_handler ::
  "('c, 'd) around \<Rightarrow> mux_places \<Rightarrow> nat \<Rightarrow> int2f12regs \<Rightarrow> mux_vars \<Rightarrow> (int2f12regs \<times> mux_vars, 'c, 'd) call" where
  "int2F_12_handler A P fuel r0 v s =
     (let r = put_flag FLG_CARRY False r0; ah = hi8 (AX r) in
      if ah = 0x4a then
        (case hma_space (blk_drv (outer A)) r v (fio (fss s)) of (r1, v1, e) \<Rightarrow> ret (r1, v1) (upd_fs (\<lambda>g. g\<lparr>fio := e\<rparr>) s))
      else if ah = 0x13 then ret (disk_interrupt r v) s
      else if ah = 0x16 \<or> ah = 0x46 then ret (r, v) s
      else if ah = 0x08 then ret (driver_sys P r, v) s
      else if lo8 (AX r) = 0x1f then
        (case build_cds P r (fio (fss s)) of
           None \<Rightarrow> ret (put_flag FLG_CARRY True r, v) s
         | Some (r1, c) \<Rightarrow> ret (r1, v\<lparr>TempCDS := c\<rparr>) s)
      else
        andthen (mux_function A P fuel r s) (\<lambda>(l, r1) s1. case mux_end l r1 s1 of (r2, s2) \<Rightarrow> ret (r2, v) s2))"

end
