(* ===== verification/Fcb_Props.thy ===== *)
theory Fcb_Props
  imports Fcb
begin

text \<open>
  The record numbers of a file control block: block and record for sequential calls, one number for random calls.
\<close>

text \<open>The current record of an FCB as one number below 2 to the power 23.\<close>

lemma unat_FcbRec: "unat (FcbRec f) = unat (fcb_cublock f) * 128 + unat (fcb_curec f)"
proof -
  have "unat (fcb_cublock f) < 65536" "unat (fcb_curec f) < 256" by simp_all
  then have "unat (fcb_cublock f) * 128 + unat (fcb_curec f) < 65536 * 128 + 256" by linarith
  then have "unat (fcb_cublock f) * 128 + unat (fcb_curec f) < 2 ^ 32" by simp
  then show ?thesis by (simp add: FcbRec_def unat_word_ariths unsigned_ucast_eq take_bit_eq_mod)
qed

lemma curec_next: "fcb_curec f < 128 \<Longrightarrow> fcb_curec (FcbNextRecord f) < 128"
  by (auto simp: FcbNextRecord_def)

lemma curec_calc: "fcb_curec (FcbCalcRec f) < 128"
proof -
  have "(ucast (fcb_rndm f) AND 127 :: u8) = take_bit 7 (ucast (fcb_rndm f))" by (simp add: take_bit_eq_mask mask_numeral)
  then show ?thesis by (simp add: FcbCalcRec_def word_less_nat_alt take_bit_eq_mod unat_mod)
qed

lemma FcbRec_nexts:
  assumes "fcb_curec f < 128" "unat (FcbRec f) + n \<le> 65535 * 128"
  shows "unat (FcbRec ((FcbNextRecord ^^ n) f)) = unat (FcbRec f) + n"
  using assms
proof (induction n arbitrary: f)
  case (Suc n)
  have "unat (fcb_cublock f) \<noteq> 65535" using Suc.prems(2) by (auto simp: unat_FcbRec)
  then have "fcb_cublock f \<noteq> 0xffff" by auto
  then have e: "FcbRec (FcbNextRecord f) = FcbRec f + 1" by (rule FcbRec_next [OF Suc.prems(1)])
  have u: "unat (FcbRec (FcbNextRecord f)) = unat (FcbRec f) + 1"
    unfolding e using Suc.prems(2) by (simp add: unat_word_ariths)
  then show ?case
    using Suc.IH [OF curec_next [OF Suc.prems(1)]] Suc.prems(2) by (simp add: funpow_swap1 [symmetric] funpow_Suc_right del: funpow.simps)
qed simp

text \<open>
  C36: random and sequential calls agree on the record. When a random number is turned into block and record
  (\<^verbatim>\<open>FcbCalcRec\<close>) and \<open>n\<close> sequential calls go on from there (\<^verbatim>\<open>FcbNextRecord\<close>), the current
  record, and the random number that \<^verbatim>\<open>FcbSetRandom\<close> stores, is the first one plus \<open>n\<close>, across the ends
  of blocks, as far as the last block.
\<close>

theorem fcb_records_agree:
  assumes "unat (fcb_rndm f) + n \<le> 65535 * 128"
  defines "g \<equiv> (FcbNextRecord ^^ n) (FcbCalcRec f)"
  shows "unat (FcbRec g) = unat (fcb_rndm f) + n \<and> fcb_rndm (FcbSetRandom g) = fcb_rndm f + of_nat n
    \<and> fcb_curec g < 128 \<and> FcbRec (FcbCalcRec (FcbSetRandom g)) = FcbRec g"
proof -
  have r: "FcbRec (FcbCalcRec f) = fcb_rndm f"
    by (rule FcbRec_calc) (use assms(1) in \<open>simp add: word_less_nat_alt\<close>)
  have g: "unat (FcbRec g) = unat (fcb_rndm f) + n"
    unfolding g_def using FcbRec_nexts [OF curec_calc, of f n] assms(1) r by simp
  have w: "FcbRec g = fcb_rndm f + of_nat n"
    unfolding word_unat_eq_iff g using assms(1) by (simp add: unat_word_ariths unsigned_of_nat take_bit_eq_mod)
  have c: "fcb_curec g < 128" unfolding g_def by (induction n) (simp_all add: curec_calc curec_next)
  have b: "fcb_rndm (FcbSetRandom g) < 2 ^ 23"
    using assms(1) g by (simp add: FcbSetRandom_def word_less_nat_alt)
  show ?thesis using g w c FcbRec_calc [OF b] by (simp add: FcbSetRandom_def)
qed

theorem fcb_records_agree_witness:
  "FcbRec ((FcbNextRecord ^^ 3) (FcbCalcRec (zero_fcb\<lparr>fcb_rndm := 382\<rparr>))) = 385"
  using fcb_records_agree [of "zero_fcb\<lparr>fcb_rndm := 382\<rparr>" 3] by (simp add: word_unat_eq_iff zero_fcb_def)

end
