(* ===== verification/Disk.thy ===== *)
theory Disk
  imports Prf Int21_Data
begin

text \<open>
  The disk driver, \<^verbatim>\<open>kernel/dsk.c\<close> on top of \<^verbatim>\<open>drivers/floppy.asm\<close>. The BIOS is a parameter: interrupt 13 is a function
  on the registers, the memory and the state of the machine; a register the code does not set is 0. The transfer buffer of the
  driver and the table behind vector 1E lie in that memory. A division by zero and a loop without end are the value \<open>None\<close>.
\<close>

section \<open>Drives and requests\<close>

record ddt =
  ddt_next :: "nat option"
  ddt_driveno :: u8
  ddt_logdriveno :: u8
  ddt_bpb :: bpb
  ddt_FileOC :: u16
  ddt_type :: u8
  ddt_descflags :: u16
  ddt_ncyl :: u16
  ddt_defbpb :: bpb
  ddt_lasttime :: u32
  ddt_volume :: bytes
  ddt_serialno :: u32
  ddt_fstype :: bytes
  ddt_offset :: u32

definition DF_FIXED :: u16 where "DF_FIXED = 0x001"
definition DF_CHANGELINE :: u16 where "DF_CHANGELINE = 0x002"
definition DF_MULTLOG :: u16 where "DF_MULTLOG = 0x010"
definition DF_CURLOG :: u16 where "DF_CURLOG = 0x020"
definition DF_DISKCHANGE :: u16 where "DF_DISKCHANGE = 0x040"
definition DF_DPCHANGED :: u16 where "DF_DPCHANGED = 0x080"
definition DF_REFORMAT :: u16 where "DF_REFORMAT = 0x100"
definition DF_NOACCESS :: u16 where "DF_NOACCESS = 0x200"
definition DF_LBA :: u16 where "DF_LBA = 0x400"
definition DF_WRTVERIFY :: u16 where "DF_WRTVERIFY = 0x800"
definition DF_DMA_TRANSPARENT :: u16 where "DF_DMA_TRANSPARENT = 0x1000"

lemmas df_flags = DF_FIXED_def DF_CHANGELINE_def DF_MULTLOG_def DF_CURLOG_def DF_DISKCHANGE_def DF_DPCHANGED_def DF_REFORMAT_def
  DF_NOACCESS_def DF_LBA_def DF_WRTVERIFY_def DF_DMA_TRANSPARENT_def

text \<open>The fields of the variants of a request; \<open>r_bpptr\<close> is the unit whose parameter block is meant, \<open>r_par\<close> the parameters.\<close>

record disk_request = request +
  r_mcretcode :: u8
  r_bpptr :: nat
  r_trans :: far
  r_start :: u16
  r_huge :: u32
  r_cat :: u8
  r_fun :: u8
  r_par :: far

record 'b pc =
  int13 :: "lregs \<Rightarrow> umem \<Rightarrow> 'b \<Rightarrow> bool \<times> lregs \<times> umem \<times> 'b"
  int16_key :: "'b \<Rightarrow> 'b"
  int2f_floppy :: "u16 \<Rightarrow> 'b \<Rightarrow> u16 \<times> 'b"
  pc_clock :: "'b bios"
  dtb_place :: far
  dap_place :: far

text \<open>\<open>nblk\<close> is \<^verbatim>\<open>blk_dev.dh_name[0]\<close>, \<open>shown\<close> what has been printed, \<open>machine\<close> the clock and the state of the BIOS.\<close>

record 'b disk_state =
  ddts :: "ddt list"
  nblk :: u8
  dmem :: umem
  machine :: "'b clock_dev"
  shown :: bytes
  maxsecsize :: u16
  LBA_WRITE_VERIFY :: u16

definition LBA_READ :: u16 where "LBA_READ = 0x4200"
definition LBA_WRITE :: u16 where "LBA_WRITE = 0x4300"
definition LBA_VERIFY :: u16 where "LBA_VERIFY = 0x4400"
definition LBA_FORMAT :: u16 where "LBA_FORMAT = 0xffff"
definition N_RETRY :: nat where "N_RETRY = 5"
definition BT_BPB :: nat where "BT_BPB = 11"
definition BPB_SIZEOF :: nat where "BPB_SIZEOF = 31"

lemmas lba_modes = LBA_READ_def LBA_WRITE_def LBA_VERIFY_def LBA_FORMAT_def

definition getddt :: "'b disk_state \<Rightarrow> nat \<Rightarrow> ddt" where
  "getddt s u = ddts s ! u"

definition upd_ddt :: "nat \<Rightarrow> (ddt \<Rightarrow> ddt) \<Rightarrow> 'b disk_state \<Rightarrow> 'b disk_state" where
  "upd_ddt u f s = s\<lparr>ddts := (ddts s)[u := f (ddts s ! u)]\<rparr>"

definition set_flags :: "u16 \<Rightarrow> ddt \<Rightarrow> ddt" where
  "set_flags w d = d\<lparr>ddt_descflags := ddt_descflags d OR w\<rparr>"

definition clear_flags :: "u16 \<Rightarrow> ddt \<Rightarrow> ddt" where
  "clear_flags w d = d\<lparr>ddt_descflags := ddt_descflags d AND NOT w\<rparr>"

definition has_flag :: "ddt \<Rightarrow> u16 \<Rightarrow> bool" where
  "has_flag d w \<longleftrightarrow> ddt_descflags d AND w \<noteq> 0"

definition hd_drive :: "ddt \<Rightarrow> bool" where
  "hd_drive d \<longleftrightarrow> has_flag d DF_FIXED"

definition upd_dmem :: "(umem \<Rightarrow> umem) \<Rightarrow> 'b disk_state \<Rightarrow> 'b disk_state" where
  "upd_dmem f s = s\<lparr>dmem := f (dmem s)\<rparr>"

definition upd_bios :: "('b \<Rightarrow> 'b) \<Rightarrow> 'b disk_state \<Rightarrow> 'b disk_state" where
  "upd_bios f s = s\<lparr>machine := (machine s)\<lparr>bios_state := f (bios_state (machine s))\<rparr>\<rparr>"

definition show_text :: "string \<Rightarrow> 'b disk_state \<Rightarrow> 'b disk_state" where
  "show_text t s = s\<lparr>shown := shown s @ put_string (map (\<lambda>c. of_char c) t)\<rparr>"

section \<open>The BIOS calls\<close>

definition regs0 :: lregs where
  "regs0 = \<lparr>AX = 0, BX = 0, CX = 0, DX = 0, SI = 0, DI = 0, DS = 0, ES = 0\<rparr>"

definition bios13 :: "'b pc \<Rightarrow> lregs \<Rightarrow> 'b disk_state \<Rightarrow> bool \<times> lregs \<times> 'b disk_state" where
  "bios13 P r s =
     (let (c, r1, m1, b1) = int13 P r (dmem s) (bios_state (machine s))
      in (c, r1, upd_bios (\<lambda>b. b1) (s\<lparr>dmem := m1\<rparr>)))"

definition fl_reset :: "'b pc \<Rightarrow> u8 \<Rightarrow> 'b disk_state \<Rightarrow> 'b disk_state" where
  "fl_reset P drive s = snd (snd (bios13 P (regs0\<lparr>DX := ucast drive\<rparr>) s))"

text \<open>1: changed, 0: not changed, FFFFh: error.\<close>

definition fl_diskchanged :: "'b pc \<Rightarrow> u8 \<Rightarrow> 'b disk_state \<Rightarrow> u16 \<times> 'b disk_state" where
  "fl_diskchanged P drive s =
     (let (c, r, s1) = bios13 P (regs0\<lparr>AX := 0x1600, DX := ucast drive\<rparr>) s
      in (if \<not> c then 0 else if AH r = 6 then 1 else 0xffff, s1))"

definition fl_common :: "'b pc \<Rightarrow> u8 \<Rightarrow> u8 \<Rightarrow> u16 \<Rightarrow> u16 \<Rightarrow> u16 \<Rightarrow> u16 \<Rightarrow> far \<Rightarrow> 'b disk_state \<Rightarrow> u16 \<times> 'b disk_state" where
  "fl_common P fun drive head track sector count p s =
     (if hi8 track > 3 then (1, s)
      else
        (let (c, r, s1) = bios13 P (regs0\<lparr>AX := mk16 (lo8 count) fun, BX := snd p, ES := fst p,
               CX := mk16 (push_bit 6 (hi8 track) OR lo8 sector) (lo8 track), DX := mk16 drive (lo8 head)\<rparr>) s
         in (if c then ucast (AH r) else 0, s1)))"

definition fl_format :: "'b pc \<Rightarrow> u8 \<Rightarrow> u16 \<Rightarrow> u16 \<Rightarrow> u16 \<Rightarrow> u16 \<Rightarrow> far \<Rightarrow> 'b disk_state \<Rightarrow> u16 \<times> 'b disk_state" where
  "fl_format P = fl_common P 5"

definition fl_read :: "'b pc \<Rightarrow> u8 \<Rightarrow> u16 \<Rightarrow> u16 \<Rightarrow> u16 \<Rightarrow> u16 \<Rightarrow> far \<Rightarrow> 'b disk_state \<Rightarrow> u16 \<times> 'b disk_state" where
  "fl_read P = fl_common P 2"

definition fl_verify :: "'b pc \<Rightarrow> u8 \<Rightarrow> u16 \<Rightarrow> u16 \<Rightarrow> u16 \<Rightarrow> u16 \<Rightarrow> far \<Rightarrow> 'b disk_state \<Rightarrow> u16 \<times> 'b disk_state" where
  "fl_verify P = fl_common P 4"

definition fl_write :: "'b pc \<Rightarrow> u8 \<Rightarrow> u16 \<Rightarrow> u16 \<Rightarrow> u16 \<Rightarrow> u16 \<Rightarrow> far \<Rightarrow> 'b disk_state \<Rightarrow> u16 \<times> 'b disk_state" where
  "fl_write P = fl_common P 3"

definition fl_lba_ReadWrite :: "'b pc \<Rightarrow> u8 \<Rightarrow> u16 \<Rightarrow> far \<Rightarrow> 'b disk_state \<Rightarrow> u16 \<times> 'b disk_state" where
  "fl_lba_ReadWrite P drive mode dap s =
     (let (c, r, s1) = bios13 P (regs0\<lparr>AX := mode, DX := ucast drive, DS := fst dap, SI := snd dap\<rparr>) s
      in (ucast (AH r), s1))"

definition fl_readkey :: "'b pc \<Rightarrow> 'b disk_state \<Rightarrow> 'b disk_state" where
  "fl_readkey P = upd_bios (int16_key P)"

definition fl_setdisktype :: "'b pc \<Rightarrow> u8 \<Rightarrow> u8 \<Rightarrow> 'b disk_state \<Rightarrow> u16 \<times> 'b disk_state" where
  "fl_setdisktype P drive type s =
     (let (c, r, s1) = bios13 P (regs0\<lparr>AX := mk16 type 0x17, DX := ucast drive\<rparr>) s
      in (ucast (AH r), s1))"

definition fl_setmediatype :: "'b pc \<Rightarrow> u8 \<Rightarrow> u16 \<Rightarrow> u16 \<Rightarrow> 'b disk_state \<Rightarrow> u16 \<times> 'b disk_state" where
  "fl_setmediatype P drive tracks sectors s =
     (let (c, r, s1) = bios13 P (regs0\<lparr>AX := 0x1800, DX := ucast drive, BX := sectors,
            CX := mk16 (word_rotr 2 (hi8 (tracks - 1)) OR lo8 sectors) (lo8 (tracks - 1))\<rparr>) s;
          s2 = (if c then s1 else upd_dmem (st_far (0, 0x78) (ES_DI r)) s1)
      in (ucast (AH r), s2))"

definition floppy_change :: "'b pc \<Rightarrow> u16 \<Rightarrow> 'b disk_state \<Rightarrow> u16 \<times> 'b disk_state" where
  "floppy_change P drives s =
     (let (cx, b) = int2f_floppy P drives (bios_state (machine s)) in (cx, upd_bios (\<lambda>_. b) s))"

definition pc_ticks :: "'b pc \<Rightarrow> 'b disk_state \<Rightarrow> u32 \<times> 'b disk_state" where
  "pc_ticks P s = (let (t, d) = ReadPCClock (pc_clock P) (machine s) in (t, s\<lparr>machine := d\<rparr>))"

definition tmark :: "'b pc \<Rightarrow> nat \<Rightarrow> 'b disk_state \<Rightarrow> 'b disk_state" where
  "tmark P u s = (let (t, s1) = pc_ticks P s in upd_ddt u (\<lambda>d. d\<lparr>ddt_lasttime := t\<rparr>) s1)"

definition tdelay :: "'b pc \<Rightarrow> nat \<Rightarrow> u32 \<Rightarrow> 'b disk_state \<Rightarrow> bool \<times> 'b disk_state" where
  "tdelay P u ticks s = (let (t, s1) = pc_ticks P s in (t - ddt_lasttime (getddt s1 u) \<ge> ticks, s1))"

section \<open>Two logical drives on one physical drive\<close>

text \<open>The unit that is the current one of the physical drive of \<open>d\<close>; the number of units when there is none.\<close>

definition current_unit :: "ddt \<Rightarrow> 'b disk_state \<Rightarrow> nat" where
  "current_unit d s =
     (case find (\<lambda>i. ddt_driveno d = ddt_driveno (getddt s i)
               \<and> ddt_descflags (getddt s i) AND (DF_MULTLOG OR DF_CURLOG) = DF_MULTLOG OR DF_CURLOG) [0..<unat (nblk s)] of
        Some i \<Rightarrow> i
      | None \<Rightarrow> unat (nblk s))"

definition drive_letter_text :: "u8 \<Rightarrow> string" where
  "drive_letter_text n = [char_of (unat (0x41 + n))]"

definition play_dj :: "'b pc \<Rightarrow> nat \<Rightarrow> 'b disk_state \<Rightarrow> u8 \<times> 'b disk_state" where
  "play_dj P u s =
     (let d = getddt s u
      in if ddt_descflags d AND (DF_MULTLOG OR DF_CURLOG) = DF_MULTLOG then
           (let i = current_unit d s
            in if i = unat (nblk s) then (M_CHANGED, show_text (''Error in the DJ mechanism!'' @ [CHR 0x0a]) s)
               else
                 (let d2 = getddt s i;
                      (cx, s1) = floppy_change P (mk16 (ddt_logdriveno d) (ddt_logdriveno d2)) s;
                      s2 = (if cx \<noteq> 0xffff
                            then fl_readkey P (show_text (''Remove diskette in drive '' @ drive_letter_text (ddt_logdriveno d2)
                                   @ '':'' @ [CHR 0x0a] @ ''Insert diskette in drive '' @ drive_letter_text (ddt_logdriveno d)
                                   @ '':'' @ [CHR 0x0a] @ ''Press any key to continue ... '' @ [CHR 0x0a]) s1)
                            else s1)
                  in (M_CHANGED, upd_dmem (st_bytes (0, 0x504) [ddt_logdriveno d])
                        (upd_ddt u (set_flags DF_CURLOG) (upd_ddt i (clear_flags DF_CURLOG) s2)))))
         else (M_NOT_CHANGED, s))"

definition diskchange :: "'b pc \<Rightarrow> nat \<Rightarrow> 'b disk_state \<Rightarrow> u8 \<times> 'b disk_state" where
  "diskchange P u s =
     (if hd_drive (getddt s u) then (M_NOT_CHANGED, s)
      else
        (let (r, s1) = play_dj P u s
         in if r = M_CHANGED then (M_CHANGED, s1)
            else
              (let (result, s2) = (if has_flag (getddt s1 u) DF_CHANGELINE then fl_diskchanged P (ddt_driveno (getddt s1 u)) s1
                                   else (0xffff, s1))
               in if result = 1 then (M_CHANGED, s2)
                  else if result = 0 then (M_NOT_CHANGED, s2)
                  else (let (late, s3) = tdelay P u 37 s2 in (if late then M_DONT_KNOW else M_NOT_CHANGED, s3)))))"

section \<open>Sectors\<close>

text \<open>The geometry: of the default parameter block on a hard disk, of the current one on a floppy.\<close>

definition geometry :: "ddt \<Rightarrow> bpb" where
  "geometry d = (if hd_drive d then ddt_defbpb d else ddt_bpb d)"

record CHS =
  Cylinder :: u16
  Head :: u16
  Sector :: u16

text \<open>\<open>None\<close>: division by zero; \<open>Some None\<close>: a cylinder that CHS calls cannot reach.\<close>

definition LBA_to_CHS :: "u32 \<Rightarrow> ddt \<Rightarrow> CHS option option" where
  "LBA_to_CHS lba d =
     (let b = geometry d;
          hs = bpb_nsecs b * bpb_nheads b;
          hsrem = ucast (lba mod ucast hs) :: u16;
          cyl = lba div ucast hs
      in if hs = 0 then None
         else if cyl > 1023 then Some None
         else Some (Some \<lparr>Cylinder = ucast cyl, Head = hsrem div bpb_nsecs b, Sector = hsrem mod bpb_nsecs b + 1\<rparr>))"

definition DMA_max_transfer :: "far \<Rightarrow> u16 \<Rightarrow> u16 \<Rightarrow> u16" where
  "DMA_max_transfer p maxsec count =
     (let dma_off = push_bit 4 (fst p) + snd p
      in min count (if dma_off = 0 then 0xffff div maxsec else (- dma_off) div maxsec))"

definition dap_bytes :: "u16 \<Rightarrow> far \<Rightarrow> u32 \<Rightarrow> bytes" where
  "dap_bytes count p lba =
     [16, 0, lo8 count, 0, lo8 (snd p), hi8 (snd p), lo8 (fst p), hi8 (fst p)] @ le32 lba @ [0, 0, 0, 0]"

text \<open>One try through LBA calls.\<close>

definition lba_try :: "'b pc \<Rightarrow> nat \<Rightarrow> u16 \<Rightarrow> u32 \<Rightarrow> u16 \<Rightarrow> far \<Rightarrow> 'b disk_state \<Rightarrow> u16 \<times> 'b disk_state" where
  "lba_try P u mode lba count p s =
     (let drive = ddt_driveno (getddt s u);
          s1 = upd_dmem (st_bytes (dap_place P) (dap_bytes count p lba)) s
      in if has_flag (getddt s1 u) DF_WRTVERIFY \<or> mode \<noteq> LBA_WRITE_VERIFY s1
         then fl_lba_ReadWrite P drive mode (dap_place P) s1
         else (let (err, s2) = fl_lba_ReadWrite P drive LBA_WRITE (dap_place P) s1
               in if err = 0 then fl_lba_ReadWrite P drive LBA_VERIFY (dap_place P) s2 else (err, s2)))"

text \<open>One try through CHS calls, with the count up to the end of the track.\<close>

definition chs_try :: "'b pc \<Rightarrow> nat \<Rightarrow> u16 \<Rightarrow> CHS \<Rightarrow> u16 \<Rightarrow> far \<Rightarrow> 'b disk_state \<Rightarrow> u16 \<times> 'b disk_state" where
  "chs_try P u mode chs count p s =
     (let drive = ddt_driveno (getddt s u);
          op = (if mode = LBA_READ then fl_read else if mode = LBA_VERIFY then fl_verify else if mode = LBA_FORMAT then fl_format
                else fl_write);
          (err, s1) = op P drive (Head chs) (Cylinder chs) (Sector chs) count p s
      in if err = 0 \<and> mode = LBA_WRITE_VERIFY s1 then fl_verify P drive (Head chs) (Cylinder chs) (Sector chs) count p s1
         else (err, s1))"

definition track_count :: "ddt \<Rightarrow> CHS \<Rightarrow> u16 \<Rightarrow> u16" where
  "track_count d chs count =
     (let n = bpb_nsecs (geometry d) in if Sector chs + count > n + 1 then n + 1 - Sector chs else count)"

text \<open>
  The retries of one piece: \<open>Inl\<close> the code with which the transfer ends at once, \<open>Inr\<close> the error code (0 after a
  success) with the number of sectors of the piece.
\<close>

fun retries ::
  "'b pc \<Rightarrow> nat \<Rightarrow> u16 \<Rightarrow> u32 \<Rightarrow> far \<Rightarrow> nat \<Rightarrow> u16 \<Rightarrow> u16 \<Rightarrow> 'b disk_state \<Rightarrow> ((u16 + u16 \<times> u16) \<times> 'b disk_state) option" where
  "retries P u mode lba p 0 err count s = Some (Inr (err, count), s)"
| "retries P u mode lba p (Suc k) err count s =
     (if has_flag (getddt s u) DF_LBA \<and> mode \<noteq> LBA_FORMAT then
        (case lba_try P u mode lba count p s of
           (err1, s1) \<Rightarrow> if err1 = 0 then Some (Inr (0, count), s1)
                         else retries P u mode lba p k err1 count (fl_reset P (ddt_driveno (getddt s u)) s1))
      else
        (case LBA_to_CHS lba (getddt s u) of
           None \<Rightarrow> None
         | Some None \<Rightarrow> Some (Inl 1, show_text (''LBA-Transfer error : cylinder > 1023'' @ [CHR 0x0a]) s)
         | Some (Some chs) \<Rightarrow>
             (let count1 = track_count (getddt s u) chs count
              in case chs_try P u mode chs count1 p s of
                   (err1, s1) \<Rightarrow> if err1 = 0 then Some (Inr (0, count1), s1)
                                 else retries P u mode lba p k err1 count1 (fl_reset P (ddt_driveno (getddt s u)) s1))))"

definition mode_class :: "u16 \<Rightarrow> u16" where
  "mode_class m = m AND 0xff00"

text \<open>Where a piece goes to: the buffer, or one sector through the transfer buffer.\<close>

definition piece :: "'b pc \<Rightarrow> nat \<Rightarrow> far \<Rightarrow> u16 \<Rightarrow> 'b disk_state \<Rightarrow> bool \<times> far \<times> u16" where
  "piece P u p todo s =
     (let count = (if has_flag (getddt s u) DF_DMA_TRANSPARENT then todo else DMA_max_transfer p (maxsecsize s) todo)
      in if fst p \<ge> 0xa000 \<or> count = 0 then (True, dtb_place P, 1) else (False, p, count))"

definition into_buffer :: "'b pc \<Rightarrow> u16 \<Rightarrow> bool \<Rightarrow> far \<Rightarrow> u16 \<Rightarrow> 'b disk_state \<Rightarrow> 'b disk_state" where
  "into_buffer P mode bounced p nbyte s =
     (if bounced \<and> mode_class mode = mode_class LBA_WRITE
      then upd_dmem (\<lambda>m. st_bytes (dtb_place P) (ld_bytes m p (unat nbyte)) m) s else s)"

definition out_of_buffer :: "'b pc \<Rightarrow> u16 \<Rightarrow> far \<Rightarrow> far \<Rightarrow> u16 \<Rightarrow> 'b disk_state \<Rightarrow> 'b disk_state" where
  "out_of_buffer P mode at p nbyte s =
     (if at = dtb_place P \<and> mode_class mode = mode_class LBA_READ
      then upd_dmem (\<lambda>m. st_bytes p (ld_bytes m (dtb_place P) (unat nbyte)) m) s else s)"

partial_function (option) transfer_loop ::
  "'b pc \<Rightarrow> nat \<Rightarrow> u16 \<Rightarrow> u16 \<Rightarrow> far \<Rightarrow> u32 \<Rightarrow> u16 \<Rightarrow> u16 \<Rightarrow> 'b disk_state \<Rightarrow> (u16 \<times> u16 \<times> 'b disk_state) option" where
  "transfer_loop P u mode nbyte p lba todo transferred s =
     (if todo = 0 then Some (0, transferred, s)
      else do {
        let (bounced, at, count) = piece P u p todo s;
        (res, s2) \<leftarrow> retries P u mode lba at N_RETRY 0 count (into_buffer P mode bounced p nbyte s);
        (case res of
           Inl code \<Rightarrow> Some (code, transferred, s2)
         | Inr (err, n) \<Rightarrow>
             (if err \<noteq> 0 then Some (err, transferred, s2)
              else transfer_loop P u mode nbyte (adjust_far (fst p, snd p + n * nbyte)) (lba + ucast n) (todo - n)
                     (transferred + n) (out_of_buffer P mode at p nbyte s2)))
      })"

text \<open>The diskette parameter table gets the sectors per track.\<close>

definition set_track_length :: "'b pc \<Rightarrow> nat \<Rightarrow> 'b disk_state \<Rightarrow> 'b disk_state" where
  "set_track_length P u s =
     (let d = getddt s u; p = far_add (ld_far (dmem s) (0, 0x78)) 4; n = lo8 (bpb_nsecs (ddt_bpb d))
      in if hd_drive d \<or> ld8 (dmem s) p = n then s
         else fl_reset P (ddt_driveno d) (upd_dmem (st_bytes p [n]) s))"

text \<open>The error code, the number of sectors that have been transferred, and the state.\<close>

definition LBA_Transfer ::
  "'b pc \<Rightarrow> nat \<Rightarrow> u16 \<Rightarrow> far \<Rightarrow> u32 \<Rightarrow> u16 \<Rightarrow> 'b disk_state \<Rightarrow> (u16 \<times> u16 \<times> 'b disk_state) option" where
  "LBA_Transfer P u mode p lba todo s =
     (if mode = LBA_FORMAT \<and> hd_drive (getddt s u) then Some (0, 0, s)
      else transfer_loop P u mode (bpb_nbyte (ddt_bpb (getddt s u))) (adjust_far p) lba todo 0
             (set_track_length P u (snd (play_dj P u s))))"

definition RWzero :: "'b pc \<Rightarrow> nat \<Rightarrow> u16 \<Rightarrow> 'b disk_state \<Rightarrow> (u16 \<times> 'b disk_state) option" where
  "RWzero P u mode s = do {
     (ret, _, s1) \<leftarrow> LBA_Transfer P u mode (dtb_place P) (ddt_offset (getddt s u)) 1 s;
     Some (ret, s1)
   }"

text \<open>The driver's status of an error code of the BIOS.\<close>

definition dskerr :: "u16 \<Rightarrow> u16" where
  "dskerr code =
     (if code AND 3 = 1 then (if code AND 8 \<noteq> 0 then S_ERROR OR 2 else failure 3)
      else if code AND 3 = 2 then failure E_FAILURE
      else if code AND 3 = 3 then failure 0
      else if code AND 0x80 \<noteq> 0 then failure 2
      else if code AND 0x40 \<noteq> 0 then failure 6
      else if code AND 0x10 \<noteq> 0 then failure 4
      else if code AND 0x04 \<noteq> 0 then failure 8
      else failure E_FAILURE)"

section \<open>Parameter blocks in memory\<close>

definition word_at :: "bytes \<Rightarrow> nat \<Rightarrow> u16" where
  "word_at bs i = mk16 (bs ! i) (bs ! (i + 1))"

definition long_at :: "bytes \<Rightarrow> nat \<Rightarrow> u32" where
  "long_at bs i = push_bit 16 (ucast (word_at bs (i + 2))) OR ucast (word_at bs i)"

definition sizeof_bpb :: nat where "sizeof_bpb = 41"

definition bytes_of_bpb :: "bpb \<Rightarrow> bytes" where
  "bytes_of_bpb b =
     le16 (bpb_nbyte b) @ [bpb_nsector b] @ le16 (bpb_nreserved b) @ [bpb_nfat b] @ le16 (bpb_ndirent b)
     @ le16 (bpb_nsize b) @ [bpb_mdesc b] @ le16 (bpb_nfsect b) @ le16 (bpb_nsecs b) @ le16 (bpb_nheads b)
     @ le32 (bpb_hidden b) @ le32 (bpb_huge b) @ le32 (bpb_xnfsect b) @ le16 (bpb_xflags b)
     @ le16 (bpb_xfsversion b) @ le32 (bpb_xrootclst b) @ le16 (bpb_xfsinfosec b) @ le16 (bpb_xbackupsec b)"

definition bpb_of_bytes :: "bytes \<Rightarrow> bpb" where
  "bpb_of_bytes bs =
     \<lparr>bpb_nbyte = word_at bs 0, bpb_nsector = bs ! 2, bpb_nreserved = word_at bs 3, bpb_nfat = bs ! 5, bpb_ndirent = word_at bs 6,
      bpb_nsize = word_at bs 8, bpb_mdesc = bs ! 10, bpb_nfsect = word_at bs 11, bpb_nsecs = word_at bs 13, bpb_nheads = word_at bs 15,
      bpb_hidden = long_at bs 17, bpb_huge = long_at bs 21, bpb_xnfsect = long_at bs 25, bpb_xflags = word_at bs 29,
      bpb_xfsversion = word_at bs 31, bpb_xrootclst = long_at bs 33, bpb_xfsinfosec = word_at bs 37, bpb_xbackupsec = word_at bs 39\<rparr>"

text \<open>The first \<open>n\<close> bytes of a block are replaced.\<close>

definition copy_bpb :: "nat \<Rightarrow> bytes \<Rightarrow> bpb \<Rightarrow> bpb" where
  "copy_bpb n src b = bpb_of_bytes (take n src @ drop n (bytes_of_bpb b))"

definition dtb_at :: "'b pc \<Rightarrow> nat \<Rightarrow> far" where
  "dtb_at P i = far_add (dtb_place P) i"

definition dtb8 :: "'b pc \<Rightarrow> nat \<Rightarrow> 'b disk_state \<Rightarrow> u8" where
  "dtb8 P i s = ld8 (dmem s) (dtb_at P i)"

section \<open>The parameter block of a drive\<close>

definition ascii :: "string \<Rightarrow> bytes" where
  "ascii t = map (\<lambda>c. of_char c) t"

text \<open>The serial number and the texts of the boot sector in the transfer buffer.\<close>

definition boot_texts :: "'b pc \<Rightarrow> 'b disk_state \<Rightarrow> ddt \<Rightarrow> ddt" where
  "boot_texts P s d =
     (let fat32 = bpb_nfsect (ddt_bpb d) = 0;
          fs = dtb_at P (if fat32 then 0x43 else 0x27);
          sign = dtb8 P (if fat32 then 0x42 else 0x26) s;
          d1 = d\<lparr>ddt_serialno := (if sign = 0x29 \<or> sign = 0x28 then ld32 (dmem s) fs else 0)\<rparr>
      in if sign = 0x29
         then d1\<lparr>ddt_volume := ld_bytes (dmem s) (far_add fs 4) 11 @ drop 11 (ddt_volume d1),
                 ddt_fstype := ld_bytes (dmem s) (far_add fs 15) 8 @ drop 8 (ddt_fstype d1)\<rparr>
         else d1\<lparr>ddt_volume := ascii ''NO NAME    '' @ drop 11 (ddt_volume d1),
                 ddt_fstype := ascii ''FAT??   '' @ drop 8 (ddt_fstype d1)\<rparr>)"

definition cylinders :: "bpb \<Rightarrow> u16" where
  "cylinders b =
     (let per = bpb_nheads b * bpb_nsecs b
      in ucast ((bpb_sectors b + ucast (per - 1)) div ucast per))"

definition getbpb :: "'b pc \<Rightarrow> nat \<Rightarrow> 'b disk_state \<Rightarrow> (u16 \<times> 'b disk_state) option" where
  "getbpb P u s = do {
     let (ch, s1) = diskchange P u s;
     let s2 = (if ch \<noteq> M_NOT_CHANGED then upd_ddt u (set_flags DF_DISKCHANGE) s1 else s1);
     (ret, s3) \<leftarrow> RWzero P u LBA_READ s2;
     (if ret \<noteq> 0 then Some (dskerr ret, s3)
      else
        (let nbyte = ld16 (dmem s3) (dtb_at P BT_BPB)
         in if dtb8 P 0x1fe s3 \<noteq> 0x55 \<or> dtb8 P 0x1ff s3 \<noteq> 0xaa \<or> nbyte mod 512 \<noteq> 0
            then Some (0, upd_ddt u (\<lambda>d. d\<lparr>ddt_bpb := ddt_defbpb d\<rparr>) s3)
            else
              (let b = bpb_of_bytes (ld_bytes (dmem s3) (dtb_at P BT_BPB) sizeof_bpb);
                   s4 = upd_ddt u (\<lambda>d. boot_texts P s3 ((clear_flags DF_NOACCESS d)\<lparr>ddt_bpb := b\<rparr>)) s3
               in if bpb_nheads b * bpb_nsecs b = 0 then Some (failure E_FAILURE, tmark P u s4)
                  else Some (0, tmark P u (upd_ddt u (\<lambda>d. d\<lparr>ddt_ncyl := cylinders b\<rparr>) s4)))))
   }"

section \<open>Requests without transfers\<close>

type_synonym 'b reply = "(u16 \<times> disk_request \<times> 'b disk_state) option"

definition mediachk :: "'b pc \<Rightarrow> disk_request \<Rightarrow> nat \<Rightarrow> 'b disk_state \<Rightarrow> 'b reply" where
  "mediachk P rq u s =
     (if has_flag (getddt s u) DF_REFORMAT
      then Some (S_DONE, rq\<lparr>r_mcretcode := M_CHANGED\<rparr>, upd_ddt u (clear_flags DF_REFORMAT) s)
      else if has_flag (getddt s u) DF_DISKCHANGE
      then Some (S_DONE, rq\<lparr>r_mcretcode := M_DONT_KNOW\<rparr>, upd_ddt u (clear_flags DF_DISKCHANGE) s)
      else
        (let (ch, s1) = diskchange P u s; rq1 = rq\<lparr>r_mcretcode := ch\<rparr>
         in if ch \<noteq> M_DONT_KNOW then Some (S_DONE, rq1, s1)
            else do {
              (result, s2) \<leftarrow> getbpb P u s1;
              Some (if result \<noteq> 0 then (result, rq1, s2)
                    else if ddt_serialno (getddt s1 u) \<noteq> ddt_serialno (getddt s2 u)
                    then (S_DONE, rq1\<lparr>r_mcretcode := M_CHANGED\<rparr>, s2)
                    else (S_DONE, rq1, s2))
            }))"

definition bldbpb :: "'b pc \<Rightarrow> disk_request \<Rightarrow> nat \<Rightarrow> 'b disk_state \<Rightarrow> 'b reply" where
  "bldbpb P rq u s = do {
     (result, s1) \<leftarrow> getbpb P u s;
     Some (if result \<noteq> 0 then (result, rq, s1) else (S_DONE, rq\<lparr>r_bpptr := u\<rparr>, s1))
   }"

definition logdev_unit :: "nat \<Rightarrow> 'b disk_state \<Rightarrow> u8" where
  "logdev_unit u s =
     (if \<not> has_flag (getddt s u) DF_MULTLOG then 0 else of_nat (current_unit (getddt s u) s + 1))"

definition Getlogdev :: "'b pc \<Rightarrow> disk_request \<Rightarrow> nat \<Rightarrow> 'b disk_state \<Rightarrow> 'b reply" where
  "Getlogdev P rq u s = Some (S_DONE, rq\<lparr>r_unit := logdev_unit u s\<rparr>, s)"

definition Setlogdev :: "'b pc \<Rightarrow> disk_request \<Rightarrow> nat \<Rightarrow> 'b disk_state \<Rightarrow> 'b reply" where
  "Setlogdev P rq u s =
     (let n = logdev_unit u s
      in if n = 0 then Some (S_DONE, rq\<lparr>r_unit := 0\<rparr>, s)
         else Some (S_DONE, rq\<lparr>r_unit := r_unit rq + 1\<rparr>,
                upd_ddt u (set_flags DF_CURLOG) (upd_ddt (unat n - 1) (clear_flags DF_CURLOG) s)))"

definition blk_Open :: "'b pc \<Rightarrow> disk_request \<Rightarrow> nat \<Rightarrow> 'b disk_state \<Rightarrow> 'b reply" where
  "blk_Open P rq u s = Some (S_DONE, rq, upd_ddt u (\<lambda>d. d\<lparr>ddt_FileOC := ddt_FileOC d + 1\<rparr>) s)"

definition blk_Close :: "'b pc \<Rightarrow> disk_request \<Rightarrow> nat \<Rightarrow> 'b disk_state \<Rightarrow> 'b reply" where
  "blk_Close P rq u s = Some (S_DONE, rq, upd_ddt u (\<lambda>d. d\<lparr>ddt_FileOC := ddt_FileOC d - 1\<rparr>) s)"

definition blk_nondr :: "'b pc \<Rightarrow> disk_request \<Rightarrow> nat \<Rightarrow> 'b disk_state \<Rightarrow> 'b reply" where
  "blk_nondr P rq u s = Some (S_BUSY OR S_DONE, rq, s)"

definition blk_Media :: "'b pc \<Rightarrow> disk_request \<Rightarrow> nat \<Rightarrow> 'b disk_state \<Rightarrow> 'b reply" where
  "blk_Media P rq u s = Some (if hd_drive (getddt s u) then S_BUSY OR S_DONE else S_DONE, rq, s)"

definition blk_error :: "'b pc \<Rightarrow> disk_request \<Rightarrow> nat \<Rightarrow> 'b disk_state \<Rightarrow> 'b reply" where
  "blk_error P rq u s = Some (failure E_FAILURE, rq\<lparr>r_count := 0\<rparr>, s)"

definition blk_noerr :: "'b pc \<Rightarrow> disk_request \<Rightarrow> nat \<Rightarrow> 'b disk_state \<Rightarrow> 'b reply" where
  "blk_noerr P rq u s = Some (S_DONE, rq, s)"

definition IoctlQueblk :: "'b pc \<Rightarrow> disk_request \<Rightarrow> nat \<Rightarrow> 'b disk_state \<Rightarrow> 'b reply" where
  "IoctlQueblk P rq u s =
     Some (if r_cat rq \<in> {8, 0x48} \<and> r_fun rq \<in> {0x46, 0x47, 0x60, 0x66, 0x67} then S_DONE else failure 3, rq, s)"

section \<open>Reading and writing\<close>

definition blockio :: "'b pc \<Rightarrow> disk_request \<Rightarrow> nat \<Rightarrow> 'b disk_state \<Rightarrow> 'b reply" where
  "blockio P rq u s =
     (let action = (if r_command rq = C_INPUT then Some LBA_READ else if r_command rq = C_OUTPUT then Some LBA_WRITE
                    else if r_command rq = C_OUTVFY then Some (LBA_WRITE_VERIFY s) else None)
      in case action of
           None \<Rightarrow> Some (failure E_FAILURE, rq, s)
         | Some mode \<Rightarrow>
             (if has_flag (getddt s u) DF_NOACCESS then Some (failure E_FAILURE, rq, s)
              else
                (let s1 = tmark P u s;
                     first = (if r_start rq \<noteq> HUGECOUNT then ucast (r_start rq) else r_huge rq);
                     d = getddt s1 u;
                     size = bpb_sectors (geometry d)
                 in if first \<ge> size \<or> first + ucast (r_count rq) > size then Some (0x0408, rq, s1)
                    else do {
                      (ret, n, s2) \<leftarrow> LBA_Transfer P u mode (r_trans rq) (first + ddt_offset d) (r_count rq) s1;
                      Some (if ret \<noteq> 0 then dskerr ret else S_DONE, rq\<lparr>r_count := n\<rparr>, s2)
                    })))"

text \<open>Head, track and sector of a generic request, from the start of the partition or of the disk.\<close>

definition chs_sector :: "ddt \<Rightarrow> u16 \<Rightarrow> u16 \<Rightarrow> u32 \<Rightarrow> u16 \<Rightarrow> u32" where
  "chs_sector d head track offset sector =
     (scast track * ucast (bpb_nheads (ddt_bpb d)) + scast head) * ucast (bpb_nsecs (ddt_bpb d)) + offset + scast sector"

definition Genblockio ::
  "'b pc \<Rightarrow> nat \<Rightarrow> u16 \<Rightarrow> u16 \<Rightarrow> u16 \<Rightarrow> u16 \<Rightarrow> u16 \<Rightarrow> far \<Rightarrow> 'b disk_state \<Rightarrow> (u16 \<times> 'b disk_state) option" where
  "Genblockio P u mode head track sector count p s = do {
     (ret, _, s1) \<leftarrow> LBA_Transfer P u mode p (chs_sector (getddt s u) head track (ddt_offset (getddt s u)) sector) count s;
     Some (ret, s1)
   }"

definition GenblockioAbs ::
  "'b pc \<Rightarrow> nat \<Rightarrow> u16 \<Rightarrow> u16 \<Rightarrow> u16 \<Rightarrow> u16 \<Rightarrow> u16 \<Rightarrow> far \<Rightarrow> 'b disk_state \<Rightarrow> (u16 \<times> 'b disk_state) option" where
  "GenblockioAbs P u mode head track sector count p s = do {
     (ret, _, s1) \<leftarrow> LBA_Transfer P u mode p (chs_sector (getddt s u) head track 0 sector) count s;
     Some (ret, s1)
   }"

section \<open>Generic device control\<close>

text \<open>Offsets of the parameter structures; all are packed.\<close>

definition par8 :: "disk_request \<Rightarrow> nat \<Rightarrow> 'b disk_state \<Rightarrow> u8" where
  "par8 rq i s = ld8 (dmem s) (far_add (r_par rq) i)"

definition par16 :: "disk_request \<Rightarrow> nat \<Rightarrow> 'b disk_state \<Rightarrow> u16" where
  "par16 rq i s = ld16 (dmem s) (far_add (r_par rq) i)"

definition set_par :: "disk_request \<Rightarrow> nat \<Rightarrow> bytes \<Rightarrow> 'b disk_state \<Rightarrow> 'b disk_state" where
  "set_par rq i bs = upd_dmem (st_bytes (far_add (r_par rq) i) bs)"

definition bpb_part :: "disk_request \<Rightarrow> nat" where
  "bpb_part rq = (if r_cat rq = 0x48 then sizeof_bpb else BPB_SIZEOF)"

definition set_device_parameters :: "disk_request \<Rightarrow> nat \<Rightarrow> 'b disk_state \<Rightarrow> 'b disk_state" where
  "set_device_parameters rq u s =
     (let src = ld_bytes (dmem s) (far_add (r_par rq) 7) (bpb_part rq);
          put = copy_bpb (bpb_part rq) src
      in upd_ddt u (\<lambda>d. (if par8 rq 0 s AND 1 = 0 then (\<lambda>d. d\<lparr>ddt_defbpb := put (ddt_defbpb d)\<rparr>)
                         else (\<lambda>d. d\<lparr>ddt_bpb := put (ddt_bpb d)\<rparr>))
            (d\<lparr>ddt_type := par8 rq 1 s, ddt_ncyl := par16 rq 4 s,
               ddt_descflags := (ddt_descflags d AND NOT 3) OR (par16 rq 2 s AND 3) OR (DF_DPCHANGED OR DF_REFORMAT)\<rparr>)) s)"

definition get_device_parameters :: "disk_request \<Rightarrow> nat \<Rightarrow> 'b disk_state \<Rightarrow> 'b disk_state" where
  "get_device_parameters rq u s =
     (let d = getddt s u;
          s1 = set_par rq 1 ([ddt_type d] @ le16 (ddt_descflags d AND 3) @ le16 (ddt_ncyl d)
                 @ [if ddt_type d = 1 \<and> ddt_ncyl d = 40 then 1 else 0]) s;
          b = (if par8 rq 0 s1 AND 1 = 0 then ddt_defbpb d else ddt_bpb d)
      in set_par rq 7 (take (bpb_part rq) (bytes_of_bpb b)) s1)"

text \<open>
  The media type for formatting: \<open>Some status\<close> ends the request. Types follow \<^verbatim>\<open>INT 13\<close> function 17h.
\<close>

definition disk_type :: "ddt \<Rightarrow> u8 option" where
  "disk_type d =
     (let tracks = ddt_ncyl d; secs = bpb_nsecs (ddt_bpb d); t = ddt_type d + 1
      in if tracks = 40 \<and> (secs = 9 \<or> secs = 8) \<and> t < 3 then Some t
         else
           (let t1 = (if t + 1 = 9 then 4 else t + 1)
            in if tracks = 80 \<and> (secs = 15 \<and> t1 = 3 \<or> secs = 9 \<and> t1 = 4) then Some t1 else None))"

definition set_media :: "'b pc \<Rightarrow> disk_request \<Rightarrow> nat \<Rightarrow> 'b disk_state \<Rightarrow> u16 option \<times> 'b disk_state" where
  "set_media P rq u s =
     (let d = getddt s u; (ret, s1) = fl_setmediatype P (ddt_driveno d) (ddt_ncyl d) (bpb_nsecs (ddt_bpb d)) s
      in if ret = 0xc then (Some (dskerr ret), set_par rq 0 [2] s1)
         else if ret = 0x80 then (Some (dskerr ret), set_par rq 0 [3] s1)
         else if ret = 0 then (None, s1)
         else
           (let (ret2, s2) = (if par8 rq 0 s1 AND 1 \<noteq> 0 then fl_read P (ddt_driveno d) 0 0 1 1 (dtb_place P) s1 else (0, s1))
            in if ret2 \<noteq> 0 then (Some (dskerr ret2), set_par rq 0 [3] s2)
               else case disk_type (getddt s2 u) of
                      None \<Rightarrow> (Some (dskerr 0xc), set_par rq 0 [2] s2)
                    | Some t \<Rightarrow> (None, snd (fl_setdisktype P (ddt_driveno d) t s2))))"

text \<open>The address fields of the sectors of a track; a byte counts them, so 255 sectors have no end.\<close>

definition address_fields :: "u8 \<Rightarrow> u8 \<Rightarrow> nat \<Rightarrow> bytes" where
  "address_fields track head nsecs = concat (map (\<lambda>i. [track, head, of_nat i, 2]) [1..<nsecs + 1])"

fun format_tracks :: "'b pc \<Rightarrow> nat \<Rightarrow> u8 \<Rightarrow> u8 \<Rightarrow> nat \<Rightarrow> 'b disk_state \<Rightarrow> (u16 option \<times> 'b disk_state) option" where
  "format_tracks P u track head 0 s = Some (None, s)"
| "format_tracks P u track head (Suc n) s =
     (let d = getddt s u; nsecs = bpb_nsecs (ddt_bpb d)
      in if ucast track > ddt_ncyl d then Some (Some (failure E_FAILURE), s)
         else if nsecs \<ge> 255 then None
         else do {
           (ret, s1) \<leftarrow> Genblockio P u LBA_FORMAT (ucast head) (ucast track) 0 nsecs (dtb_place P)
                          (upd_dmem (st_bytes (dtb_place P) (address_fields track head (unat nsecs))) s);
           (if ret \<noteq> 0 then Some (Some (dskerr ret), s1) else format_tracks P u track head n s1)
         })"

definition verify_track :: "'b pc \<Rightarrow> disk_request \<Rightarrow> nat \<Rightarrow> 'b disk_state \<Rightarrow> (u16 \<times> 'b disk_state) option" where
  "verify_track P rq u s = do {
     let nsecs = bpb_nsecs (ddt_defbpb (getddt s u));
     (ret, s1) \<leftarrow> Genblockio P u LBA_VERIFY (par16 rq 1 s) (par16 rq 3 s) 0
                    (if par8 rq 0 s \<noteq> 0 then par16 rq 5 s * nsecs else nsecs) (dtb_place P) s;
     Some (if ret \<noteq> 0 then (dskerr ret, s1) else (S_DONE, set_par rq 0 [0] s1))
   }"

definition format_track :: "'b pc \<Rightarrow> disk_request \<Rightarrow> nat \<Rightarrow> 'b disk_state \<Rightarrow> (u16 \<times> 'b disk_state) option" where
  "format_track P rq u s =
     (let d = getddt s u; s1 = upd_ddt u (clear_flags DF_DPCHANGED) s
      in if hd_drive d then Some (S_DONE, set_par rq 0 [1] s1)
         else
           (let (r, s2) = (if has_flag d DF_DPCHANGED then set_media P rq u s1 else (None, s1))
            in case r of
                 Some code \<Rightarrow> Some (code, s2)
               | None \<Rightarrow>
                   (if par8 rq 0 s2 AND 1 \<noteq> 0 then Some (S_DONE, s2)
                    else do {
                      (r2, s3) \<leftarrow> format_tracks P u (lo8 (par16 rq 3 s2)) (lo8 (par16 rq 1 s2))
                                    (if par8 rq 0 s2 AND 2 \<noteq> 0 then nat (sint (par16 rq 5 s2)) else 1) s2;
                      (case r2 of Some code \<Rightarrow> Some (code, s3) | None \<Rightarrow> verify_track P rq u s3)
                    })))"

definition set_serial :: "'b pc \<Rightarrow> disk_request \<Rightarrow> nat \<Rightarrow> 'b disk_state \<Rightarrow> (u16 \<times> 'b disk_state) option" where
  "set_serial P rq u s = do {
     (ret, s1) \<leftarrow> getbpb P u s;
     (if ret \<noteq> 0 then Some (ret, s1)
      else
        (let old = bpb_nfsect (ddt_bpb (getddt s1 u)) \<noteq> 0;
             sign = dtb8 P (if old then 0x26 else 0x42) s1;
             fs = dtb_at P (if old then 0x27 else 0x43)
         in if sign \<noteq> 0x29 \<and> sign \<noteq> 0x28 then Some (failure 7, s1)
            else
              (let serial = ld_bytes (dmem s1) (far_add (r_par rq) 2) 4;
                   s2 = upd_ddt u (\<lambda>d. d\<lparr>ddt_serialno := long_at serial 0\<rparr>) (upd_dmem (st_bytes fs serial) s1);
                   volume = ld_bytes (dmem s2) (far_add (r_par rq) 6) 11;
                   s3 = (if sign = 0x29
                         then upd_ddt u (\<lambda>d. d\<lparr>ddt_volume := volume @ drop 11 (ddt_volume d)\<rparr>)
                                (upd_dmem (st_bytes (far_add fs 4) volume) s2)
                         else s2)
               in do {
                 (ret2, s4) \<leftarrow> RWzero P u LBA_WRITE s3;
                 Some (if ret2 \<noteq> 0 then (dskerr ret2, s4) else (S_DONE, s4))
               })))
   }"

definition get_serial :: "'b pc \<Rightarrow> disk_request \<Rightarrow> nat \<Rightarrow> 'b disk_state \<Rightarrow> (u16 \<times> 'b disk_state) option" where
  "get_serial P rq u s = do {
     (ret, s1) \<leftarrow> getbpb P u s;
     Some (if ret \<noteq> 0 then (ret, s1)
           else (S_DONE, set_par rq 2 (le32 (ddt_serialno (getddt s1 u)) @ take 11 (ddt_volume (getddt s1 u))
                           @ take 8 (ddt_fstype (getddt s1 u))) s1))
   }"

definition track_io :: "'b pc \<Rightarrow> disk_request \<Rightarrow> nat \<Rightarrow> u16 \<Rightarrow> 'b disk_state \<Rightarrow> (u16 \<times> 'b disk_state) option" where
  "track_io P rq u mode s = do {
     (ret, s1) \<leftarrow> GenblockioAbs P u mode (par16 rq 1 s) (par16 rq 3 s) (par16 rq 5 s) (par16 rq 7 s)
                    (ld_far (dmem s) (far_add (r_par rq) 9)) s;
     Some (if ret \<noteq> 0 then (dskerr ret, s1) else (S_DONE, s1))
   }"

definition set_access_flag :: "disk_request \<Rightarrow> nat \<Rightarrow> 'b disk_state \<Rightarrow> 'b disk_state" where
  "set_access_flag rq u s =
     upd_ddt u (\<lambda>d. if par8 rq 1 s \<noteq> 0 then clear_flags DF_NOACCESS d else set_flags DF_NOACCESS (clear_flags DF_NOACCESS d)) s"

definition get_access :: "disk_request \<Rightarrow> nat \<Rightarrow> 'b disk_state \<Rightarrow> 'b disk_state" where
  "get_access rq u s = set_par rq 1 [if has_flag (getddt s u) DF_NOACCESS then 0 else 1] s"

definition Genblkdev :: "'b pc \<Rightarrow> disk_request \<Rightarrow> nat \<Rightarrow> 'b disk_state \<Rightarrow> 'b reply" where
  "Genblkdev P rq u s = do {
     (code, s1) \<leftarrow>
       (if r_cat rq \<noteq> 0x48 \<and> r_cat rq \<noteq> 8 then Some (failure 3, s)
        else if r_fun rq = 0x40 then Some (S_DONE, set_device_parameters rq u s)
        else if r_fun rq = 0x41 then track_io P rq u LBA_WRITE s
        else if r_fun rq = 0x42 then format_track P rq u s
        else if r_fun rq = 0x62 then verify_track P rq u s
        else if r_fun rq = 0x46 then set_serial P rq u s
        else if r_fun rq = 0x47 then Some (S_DONE, set_access_flag rq u s)
        else if r_fun rq = 0x60 then Some (S_DONE, get_device_parameters rq u s)
        else if r_fun rq = 0x61 then track_io P rq u LBA_READ s
        else if r_fun rq = 0x66 then get_serial P rq u s
        else if r_fun rq = 0x67 then Some (S_DONE, get_access rq u s)
        else Some (failure 3, s));
     Some (code, rq, s1)
   }"

section \<open>The driver\<close>

text \<open>Command 26 passes the check of the driver but has no entry in the table.\<close>

definition dispatch :: "('b pc \<Rightarrow> disk_request \<Rightarrow> nat \<Rightarrow> 'b disk_state \<Rightarrow> 'b reply) list" where
  "dispatch =
     [blk_error, mediachk, bldbpb, blk_error, blockio, blk_nondr, blk_noerr, blk_noerr, blockio, blockio, blk_noerr, blk_noerr,
      blk_error, blk_Open, blk_Close, blk_Media, blk_noerr, blk_error, blk_error, Genblkdev, blk_error, blk_error, blk_error,
      Getlogdev, Setlogdev, IoctlQueblk]"

definition NENTRY :: u8 where "NENTRY = 26"

definition block_driver :: "'b pc \<Rightarrow> disk_request \<Rightarrow> 'b disk_state \<Rightarrow> 'b reply" where
  "block_driver P rq s =
     (if r_unit rq \<ge> nblk s \<and> r_command rq \<noteq> C_INIT then Some (failure 1, rq, s)
      else if r_command rq > NENTRY then Some (failure E_FAILURE, rq, s)
      else if unat (r_command rq) < length (dispatch :: ('b pc \<Rightarrow> disk_request \<Rightarrow> nat \<Rightarrow> 'b disk_state \<Rightarrow> 'b reply) list)
      then (dispatch ! unat (r_command rq)) P rq (unat (r_unit rq)) s
      else None)"

definition writelabelBPB :: "'b pc \<Rightarrow> u8 \<Rightarrow> bytes \<Rightarrow> 'b disk_state \<Rightarrow> (u16 \<times> 'b disk_state) option" where
  "writelabelBPB P drive name s =
     (let u = unat (drive - 0x41)
      in do {
        (ret, s1) \<leftarrow> getbpb P u s;
        (if ret \<noteq> 0 then Some (ret, s1)
         else
           (let old = bpb_nfsect (ddt_bpb (getddt s1 u)) \<noteq> 0;
                at = (if dtb8 P 0x26 s1 = 0x29 \<and> old then Some 0x27 else if dtb8 P 0x42 s1 = 0x29 \<and> \<not> old then Some 0x43 else None)
            in case at of
                 None \<Rightarrow> Some (0xffff, s1)
               | Some offset \<Rightarrow>
                   RWzero P u LBA_WRITE (upd_dmem (st_bytes (dtb_at P (offset + 4)) (fst (ConvertNameSZToName83 name))) s1)))
      })"

end
