(* ===== verification/Disk_Init.thy ===== *)
theory Disk_Init
  imports Disk
begin

text \<open>
  Finding the drives at boot, \<^verbatim>\<open>kernel/initdisk.c\<close>: floppies, the partition tables of the hard disks, the drive letters
  and the default parameter block of a partition. Messages are kept as their format with its arguments. The registers a call
  leaves in a reused structure are passed on; the others are 0. The stack frame a drive is built in starts as \<open>stack_ddt\<close>.
\<close>

section \<open>State\<close>

record kernel_config =
  DLASortByDriveNo :: u8
  InitDiskShowDriveAssignment :: u8
  ForceLBA :: u8
  GlobalEnableLBAsupport :: u8
  Verbose :: int

text \<open>\<open>pcs\<close> is the machine with \<^verbatim>\<open>InitDiskTransferBuffer\<close> as its transfer buffer; interrupt 11 gives AX.\<close>

record 'b boot_env =
  pcs :: "'b pc"
  kconf :: kernel_config
  int11 :: "'b \<Rightarrow> u16 \<times> 'b"
  params_place :: far
  int1e_table :: far
  stack_ddt :: ddt

record 'b init_state =
  dk :: "'b disk_state"
  nUnits :: nat
  ExtLBAForce :: bool
  reports :: "(string \<times> u32 list) list"

definition upd_dk :: "('b disk_state \<Rightarrow> 'b disk_state) \<Rightarrow> 'b init_state \<Rightarrow> 'b init_state" where
  "upd_dk f t = t\<lparr>dk := f (dk t)\<rparr>"

definition say :: "string \<Rightarrow> u32 list \<Rightarrow> 'b init_state \<Rightarrow> 'b init_state" where
  "say fmt args t = t\<lparr>reports := reports t @ [(fmt, args)]\<rparr>"

definition say_if :: "bool \<Rightarrow> string \<Rightarrow> u32 list \<Rightarrow> 'b init_state \<Rightarrow> 'b init_state" where
  "say_if c fmt args t = (if c then say fmt args t else t)"

definition init13 :: "'b boot_env \<Rightarrow> lregs \<Rightarrow> 'b init_state \<Rightarrow> bool \<times> lregs \<times> 'b init_state" where
  "init13 E r t = (let (c, r1, s1) = bios13 (pcs E) r (dk t) in (c, r1, t\<lparr>dk := s1\<rparr>))"

record DriveParamS =
  driveno :: u8
  descflags :: u16
  total_sectors :: u32
  chs :: CHS

record PartTableEntry =
  Bootable :: u8
  FileSystem :: u8
  Begin :: CHS
  End :: CHS
  RelSect :: u32
  NumSect :: u32

definition FAT12 :: u8 where "FAT12 = 0x01"
definition FAT16SMALL :: u8 where "FAT16SMALL = 0x04"
definition EXTENDED :: u8 where "EXTENDED = 0x05"
definition FAT16LARGE :: u8 where "FAT16LARGE = 0x06"
definition FAT32 :: u8 where "FAT32 = 0x0b"
definition FAT32_LBA :: u8 where "FAT32_LBA = 0x0c"
definition FAT16_LBA :: u8 where "FAT16_LBA = 0x0e"
definition FAT12_LBA :: u8 where "FAT12_LBA = 0xff"
definition EXTENDED_LBA :: u8 where "EXTENDED_LBA = 0x0f"

lemmas part_types = FAT12_def FAT16SMALL_def EXTENDED_def FAT16LARGE_def FAT32_def FAT32_LBA_def FAT16_LBA_def FAT12_LBA_def EXTENDED_LBA_def

definition IsExtPartition :: "u8 \<Rightarrow> bool" where
  "IsExtPartition t \<longleftrightarrow> t = EXTENDED \<or> t = EXTENDED_LBA"

definition IsLBAPartition :: "u8 \<Rightarrow> bool" where
  "IsLBAPartition t \<longleftrightarrow> t = FAT12_LBA \<or> t = FAT16_LBA \<or> t = FAT32_LBA"

definition IsFATPartition :: "u8 \<Rightarrow> bool" where
  "IsFATPartition t \<longleftrightarrow> t = FAT12 \<or> t = FAT16SMALL \<or> t = FAT16LARGE \<or> t = FAT16_LBA \<or> t = FAT32 \<or> t = FAT32_LBA"

datatype scan_type = SCAN_PRIMARYBOOT | SCAN_PRIMARY | SCAN_EXTENDED | SCAN_PRIMARY2

definition NDEV :: nat where "NDEV = 26"
definition MAX_HARD_DRIVE :: nat where "MAX_HARD_DRIVE = 8"

section \<open>Drive types\<close>

definition init_readdasd :: "'b boot_env \<Rightarrow> u8 \<Rightarrow> 'b init_state \<Rightarrow> u16 \<times> 'b init_state" where
  "init_readdasd E drive t =
     (let (c, r, t1) = init13 E (regs0\<lparr>AX := 0x1500, DX := ucast drive\<rparr>) t
      in (if c then 0 else if AH r = 2 then DF_CHANGELINE else if AH r = 3 then DF_FIXED else 0, t1))"

definition floppy_bpb :: "u8 \<Rightarrow> u16 \<Rightarrow> u16 \<Rightarrow> u8 \<Rightarrow> u16 \<Rightarrow> u16 \<Rightarrow> bpb \<Rightarrow> bpb" where
  "floppy_bpb nsector ndirent nsize mdesc nfsect nsecs b =
     b\<lparr>bpb_nbyte := 512, bpb_nsector := nsector, bpb_nreserved := 1, bpb_nfat := 2, bpb_ndirent := ndirent, bpb_nsize := nsize,
       bpb_mdesc := mdesc, bpb_nfsect := nfsect, bpb_nsecs := nsecs, bpb_nheads := 2\<rparr>"

definition floppy_bpbs :: "(bpb \<Rightarrow> bpb) list" where
  "floppy_bpbs =
     [floppy_bpb 2 112 720 0xfd 2 9, floppy_bpb 1 224 2400 0xf9 7 15, floppy_bpb 2 112 1440 0xf9 3 9,
      floppy_bpb 1 224 2880 0xf0 9 18, floppy_bpb 2 240 5760 0xf0 9 36]"

text \<open>The type of a floppy drive from interrupt 13 function 8; a type of 6 reads behind the table.\<close>

definition floppy_type :: "bool \<Rightarrow> u8 \<Rightarrow> u8" where
  "floppy_type err bl = (if err then 0 else if bl - 1 > 6 then 8 else if bl - 1 = 5 then 4 else bl - 1)"

definition init_getdriveparm :: "'b boot_env \<Rightarrow> u8 \<Rightarrow> bpb \<Rightarrow> 'b init_state \<Rightarrow> (u8 \<times> bpb \<times> 'b init_state) option" where
  "init_getdriveparm E drive b t =
     (if drive AND 0x80 \<noteq> 0 then Some (5, b, t)
      else
        (let (c, r, t1) = init13 E (regs0\<lparr>AX := 0x0800, DX := ucast drive\<rparr>) t;
             type = floppy_type c (BL r);
             i = unat (type AND 7)
         in if i < length floppy_bpbs
            then Some (if type = 3 then 7 else if type = 4 then 9 else type,
                   ((floppy_bpbs ! i) b)\<lparr>bpb_hidden := 0, bpb_huge := 0\<rparr>, t1)
            else None))"

definition init_LBA_to_CHS :: "u32 \<Rightarrow> DriveParamS \<Rightarrow> CHS" where
  "init_LBA_to_CHS lba dp =
     (let hs = Sector (chs dp) * Head (chs dp);
          hsrem = ucast (lba mod ucast hs) :: u16;
          cyl = lba div ucast hs
      in \<lparr>Cylinder = (if cyl \<ge> 0x10000 then 0xffff else ucast cyl), Head = hsrem div Sector (chs dp),
          Sector = hsrem mod Sector (chs dp) + 1\<rparr>)"

definition printCHS :: "'b boot_env \<Rightarrow> string \<Rightarrow> CHS \<Rightarrow> 'b init_state \<Rightarrow> 'b init_state" where
  "printCHS E title c = say_if (Verbose (kconf E) \<ge> 0) (title @ ''%4u-%u-%u'') [ucast (Cylinder c), ucast (Head c), ucast (Sector c)]"

section \<open>The default parameter block of a partition\<close>

definition FAT16MAX :: u32 where "FAT16MAX = 65525 - 6"
definition FAT32MAX :: u32 where "FAT32MAX = 268435455 - 6"
definition MAXCLUSTSIZE :: u8 where "MAXCLUSTSIZE = 128"

text \<open>
  Length of a FAT and number of clusters for a cluster size; 0 clusters when they do not fit the FAT or would be
  taken for FAT12.
\<close>

definition fat_length :: "u32 \<Rightarrow> u16 \<Rightarrow> u8 \<Rightarrow> u32" where
  "fat_length fatdata per nsector =
     (let divisor = per * ucast nsector + 2;
          rest = fatdata mod ucast divisor
      in fatdata div ucast divisor + (ucast (2 * ucast nsector + divisor) + rest - 1) div ucast divisor)"

definition cluster_count :: "u32 \<Rightarrow> u16 \<Rightarrow> u32 \<Rightarrow> u8 \<Rightarrow> u32" where
  "cluster_count fatdata per maxcl nsector =
     (let fatlength = fat_length fatdata per nsector;
          clust = (fatdata - 2 * fatlength) div ucast nsector;
          maxclust = min (fatlength * ucast per) maxcl
      in if clust > maxclust - 2 then 0 else if clust \<le> ucast FAT_MAGIC then 0 else clust)"

text \<open>
  The smallest cluster size that fits, with the number of clusters. A byte is 0 after at most 8 doublings, so 8 rounds are enough.
\<close>

fun cluster_size :: "nat \<Rightarrow> u32 \<Rightarrow> u16 \<Rightarrow> u32 \<Rightarrow> u8 \<Rightarrow> u8 \<times> u32" where
  "cluster_size 0 fatdata per maxcl n = (n, fat_length fatdata per n)"
| "cluster_size (Suc k) fatdata per maxcl n =
     (if cluster_count fatdata per maxcl n \<noteq> 0 then (n, fat_length fatdata per n)
      else if 2 * n \<noteq> 0 \<and> 2 * n \<le> MAXCLUSTSIZE then cluster_size k fatdata per maxcl (2 * n)
      else (2 * n, fat_length fatdata per n))"

definition fat32_nsector :: "u32 \<Rightarrow> u8" where
  "fat32_nsector n =
     (let gb = ucast (n div 2097152) :: u16
      in if n \<le> 532480 then 1 else if gb \<le> 8 then 8 else if gb \<le> 16 then 16 else if gb \<le> 32 then 32 else 64)"

definition fat12_sectors :: "u32 \<Rightarrow> u16" where
  "fat12_sectors fatdata =
     (let fatdat = (if fatdata > 32640 then 32640 else ucast fatdata) :: u16
      in ucast ((ucast (fatdat + 16) * 3 + 8198 - 1) div 8198 :: u32))"

definition set_fstype :: "string \<Rightarrow> ddt \<Rightarrow> ddt" where
  "set_fstype x d = d\<lparr>ddt_fstype := ascii x @ [0]\<rparr>"

definition upd_defbpb :: "(bpb \<Rightarrow> bpb) \<Rightarrow> ddt \<Rightarrow> ddt" where
  "upd_defbpb f d = d\<lparr>ddt_defbpb := f (ddt_defbpb d)\<rparr>"

definition CalculateFATData :: "u32 \<Rightarrow> u8 \<Rightarrow> ddt \<Rightarrow> ddt" where
  "CalculateFATData n ft d =
     (let d1 = upd_defbpb (\<lambda>b. b\<lparr>bpb_nfat := 2, bpb_ndirent := 512, bpb_nreserved := 1\<rparr>) d;
          fatdata = n - 33
      in if ft = FAT12 \<or> ft = FAT12_LBA then
           set_fstype ''FAT12   '' (upd_defbpb (\<lambda>b. b\<lparr>bpb_nsector := 8, bpb_nfsect := fat12_sectors fatdata\<rparr>) d1)
         else if ft = FAT32 \<or> ft = FAT32_LBA then
           (let (ns, len) = cluster_size 8 (n - 0x20) 128 FAT32MAX (fat32_nsector n)
            in set_fstype ''FAT32   '' (upd_defbpb (\<lambda>b. b\<lparr>bpb_nsector := ns, bpb_ndirent := 0, bpb_nreserved := 0x20, bpb_nfsect := 0,
                 bpb_xnfsect := len, bpb_xflags := 0, bpb_xfsversion := 0, bpb_xrootclst := 2, bpb_xfsinfosec := 1,
                 bpb_xbackupsec := 6\<rparr>) d1))
         else
           (let (ns, len) = cluster_size 8 (min fatdata 8386688) 256 FAT16MAX 4
            in set_fstype ''FAT16   '' (upd_defbpb (\<lambda>b. b\<lparr>bpb_nsector := ns, bpb_nfsect := ucast len\<rparr>) d1)))"

section \<open>Entering drives\<close>

definition push_ddt :: "ddt \<Rightarrow> 'b init_state \<Rightarrow> 'b init_state" where
  "push_ddt d t =
     upd_dk (\<lambda>s.
       (let n = length (ddts s); s1 = s\<lparr>ddts := ddts s @ [d]\<rparr>
        in if ddt_logdriveno d \<noteq> 0
           then upd_ddt (n - 1) (\<lambda>e. (if ddt_driveno d = 0 \<and> ddt_logdriveno d = 1 then set_flags (DF_CURLOG OR DF_MULTLOG) e
                                       else e)\<lparr>ddt_next := Some n\<rparr>) s1
           else s1)) t"

definition uses_lba :: "'b boot_env \<Rightarrow> u8 \<Rightarrow> 'b init_state \<Rightarrow> bool" where
  "uses_lba E ft t \<longleftrightarrow> ForceLBA (kconf E) \<noteq> 0 \<or> IsLBAPartition ft \<or> ExtLBAForce t"

text \<open>The drive of a partition without the flags that interrupt 13 gives.\<close>

definition partition_ddt :: "'b boot_env \<Rightarrow> DriveParamS \<Rightarrow> u32 \<Rightarrow> PartTableEntry \<Rightarrow> 'b init_state \<Rightarrow> ddt" where
  "partition_ddt E dp first e t =
     (let flags = (if uses_lba E (FileSystem e) t then descflags dp else descflags dp AND NOT DF_LBA);
          small = NumSect e \<le> 0xffff;
          d = (stack_ddt E)\<lparr>ddt_next := None, ddt_driveno := driveno dp, ddt_logdriveno := of_nat (nUnits t), ddt_descflags := flags,
                ddt_ncyl := Cylinder (chs dp), ddt_offset := first\<rparr>
      in CalculateFATData (NumSect e) (FileSystem e)
           (upd_defbpb (\<lambda>b. b\<lparr>bpb_nbyte := 512, bpb_mdesc := 0xf8, bpb_nheads := Head (chs dp), bpb_nsecs := Sector (chs dp),
              bpb_hidden := RelSect e, bpb_nsize := (if small then ucast (NumSect e) else 0),
              bpb_huge := (if small then 0 else NumSect e)\<rparr>) d))"

definition DosDefinePartition ::
  "'b boot_env \<Rightarrow> DriveParamS \<Rightarrow> u32 \<Rightarrow> PartTableEntry \<Rightarrow> nat \<Rightarrow> nat \<Rightarrow> 'b init_state \<Rightarrow> 'b init_state" where
  "DosDefinePartition E dp first e extendedPartNo PrimaryNum t =
     (if nUnits t \<ge> NDEV then say ''more Partitions detected then possible, max = %d'' [of_nat NDEV] t
      else
        (let d = partition_ddt E dp first e t;
             (flags, t1) = init_readdasd E (ddt_driveno d) t;
             d1 = d\<lparr>ddt_serialno := 0x12345678, ddt_descflags := ddt_descflags d OR flags OR DF_NOACCESS, ddt_type := 5,
                    ddt_bpb := ddt_defbpb d\<rparr>;
             t2 = push_ddt d1 t1;
             ext = extendedPartNo \<noteq> 0;
             shown_chs = init_LBA_to_CHS first dp;
             t3 = (if InitDiskShowDriveAssignment (kconf E) = 0 then t2
                   else say '', start=%6lu MB, size=%6lu MB'' [first div 2048, NumSect e div 2048]
                          (printCHS E '', CHS= '' shown_chs
                            (say (if ext then ''%c: HD%d, Ext[%2d]'' else ''%c: HD%d, Pri[%2d]'')
                               [of_nat (0x41 + nUnits t), ucast (driveno dp AND 0x7f) + 1,
                                of_nat (if ext then extendedPartNo else PrimaryNum + 1)] t2)))
         in t3\<lparr>nUnits := nUnits t + 1\<rparr>))"

section \<open>The parameters of a hard disk\<close>

definition standard_geometry :: "'b boot_env \<Rightarrow> u8 \<Rightarrow> bool \<Rightarrow> lregs \<Rightarrow> DriveParamS \<Rightarrow> 'b init_state \<Rightarrow> bool \<times> DriveParamS \<times> 'b init_state" where
  "standard_geometry E drive firstPass r dp t =
     (let t0 = say_if (firstPass \<and> Verbose (kconf E) \<ge> 1) ''Retrieving CHS values for drive'' [] t;
          (c, r1, t1) = init13 E (r\<lparr>AX := set_hi 0x08 (AX r), DX := set_lo drive (DX r)\<rparr>) t0
      in if c then (False, dp\<lparr>total_sectors := 0, chs := (chs dp)\<lparr>Head := 16, Sector := 63\<rparr>\<rparr>, t1)
         else
           (let head = drop_bit 8 (DX r1) + 1;
                sec = CX r1 AND 0x3f;
                cyl = drop_bit 8 (CX r1) OR (push_bit 2 (CX r1 AND 0xc0) + 1);
                t2 = say_if (sec = 0 \<and> firstPass \<and> Verbose (kconf E) \<ge> 0) ''BIOS reported 0 sectors/track, assuming 63!'' [] t1;
                geo = \<lparr>Cylinder = cyl, Head = head, Sector = (if sec = 0 then 63 else sec)\<rparr>
            in (True, dp\<lparr>chs := geo, driveno := drive,
                  total_sectors := (if descflags dp AND DF_LBA \<noteq> 0 then total_sectors dp
                                    else ucast (Cylinder geo) * ucast (Head geo) * ucast (Sector geo))\<rparr>, t2)))"

text \<open>The answer of function 48h at \<open>p\<close>: 30 bytes.\<close>

definition lba_parameters :: "far \<Rightarrow> u8 \<Rightarrow> bool \<Rightarrow> DriveParamS \<Rightarrow> 'b init_state \<Rightarrow> DriveParamS option \<times> 'b init_state" where
  "lba_parameters p drive firstPass dp t =
     (let m = dmem (dk t);
          information = ld16 m (far_add p 2); heads = ld32 m (far_add p 8); sectors = ld32 m (far_add p 12);
          total = ld32 m (far_add p 16); high = ld32 m (far_add p 20)
      in if heads > 0xffff \<or> sectors > 0xffff \<or> total = 0 \<and> high = 0
         then (None, (if firstPass
                      then say ''  drive %02x, heads=%lu, sectors=%lu, total=0x%lx-%08lx'' [ucast drive, heads, sectors, total, high]
                             (say ''Suspicious LBA disk parameters, reverting to CHS access:'' [] t)
                      else t))
         else (Some (dp\<lparr>total_sectors := (if high = 0 then total else 0xffffffff),
                 descflags := DF_LBA OR (if information AND 8 \<noteq> 0 then DF_WRTVERIFY else 0)
                   OR (if information AND 1 \<noteq> 0 then DF_DMA_TRANSPARENT else 0)\<rparr>),
               say_if (firstPass \<and> high \<noteq> 0) ''Drive %02x is too large to handle, restricted to 2TB'' [ucast drive] t))"

definition zero_params :: DriveParamS where
  "zero_params = \<lparr>driveno = 0, descflags = 0, total_sectors = 0, chs = \<lparr>Cylinder = 0, Head = 0, Sector = 0\<rparr>\<rparr>"

text \<open>Whether there is such a drive, and what is known of it.\<close>

definition LBA_Get_Drive_Parameters :: "'b boot_env \<Rightarrow> u8 \<Rightarrow> bool \<Rightarrow> 'b init_state \<Rightarrow> bool \<times> DriveParamS \<times> 'b init_state" where
  "LBA_Get_Drive_Parameters E n firstPass t =
     (let drive = n OR 0x80; v = firstPass \<and> Verbose (kconf E) \<ge> 1;
          t0 = say_if v ''Checking for LBA support in BIOS for drive %02x'' [ucast n] t
      in if GlobalEnableLBAsupport (kconf E) = 0
         then standard_geometry E drive firstPass regs0 zero_params (say_if v ''LBA support disabled.'' [] t0)
         else
           (let (c, r, t1) = init13 E (regs0\<lparr>AX := 0x4100, BX := 0x55aa, DX := ucast drive, DS := 0x40\<rparr>) t0
            in if c \<or> BX r \<noteq> 0xaa55 \<or> CX r AND 1 = 0 then standard_geometry E drive firstPass r zero_params t1
               else
                 (let t2 = (if AH r < 0x21 then upd_dk (\<lambda>s. s\<lparr>LBA_WRITE_VERIFY := 0x4301\<rparr>) t1 else t1);
                      p = params_place E;
                      t3 = upd_dk (upd_dmem (st_bytes p (30 # replicate 29 0))) t2;
                      (c1, r1, t4) = init13 E (r\<lparr>AX := set_hi 0x48 (AX r), DX := set_lo drive (DX r), DS := fst p, SI := snd p\<rparr>) t3
                  in if c1 then standard_geometry E drive firstPass r1 zero_params t4
                     else
                       (case lba_parameters p drive firstPass zero_params t4 of
                          (None, t5) \<Rightarrow> standard_geometry E drive firstPass r1 zero_params t5
                        | (Some dp, t5) \<Rightarrow> standard_geometry E drive firstPass r1 dp t5))))"

section \<open>Partition tables\<close>

definition ConvCHSToIntern :: "bytes \<Rightarrow> CHS" where
  "ConvCHSToIntern b = \<lparr>Cylinder = ucast (b ! 2) + push_bit 2 (ucast (b ! 1) AND 0xc0), Head = ucast (b ! 0), Sector = ucast (b ! 1) AND 0x3f\<rparr>"

definition part_entry :: "bytes \<Rightarrow> PartTableEntry" where
  "part_entry b =
     \<lparr>Bootable = b ! 0, FileSystem = b ! 4, Begin = ConvCHSToIntern (drop 1 b), End = ConvCHSToIntern (drop 5 b),
      RelSect = long_at b 8, NumSect = long_at b 12\<rparr>"

definition ConvPartTableEntryToIntern :: "bytes \<Rightarrow> PartTableEntry list option" where
  "ConvPartTableEntryToIntern b =
     (if b ! 0x1fe \<noteq> 0x55 \<or> b ! 0x1ff \<noteq> 0xaa then None
      else Some (map (\<lambda>i. part_entry (take 16 (drop (0x1be + 16 * i) b))) [0..<4]))"

definition is_suspect :: "CHS \<Rightarrow> CHS \<Rightarrow> bool" where
  "is_suspect c e \<longleftrightarrow>
     \<not> (e = c \<or> Cylinder c > 1023 \<and> (Cylinder e = 1023 \<or> Cylinder e = 0x3ff AND Cylinder c))"

definition print_warning_suspect :: "'b boot_env \<Rightarrow> string \<Rightarrow> u8 \<Rightarrow> CHS \<Rightarrow> CHS \<Rightarrow> 'b init_state \<Rightarrow> 'b init_state" where
  "print_warning_suspect E name ft c e t =
     (if ForceLBA (kconf E) = 0 \<and> Verbose (kconf E) \<ge> 0
      then printCHS E '' instead of '' e (printCHS E '' with calculated values '' c
             (say (''WARNING: using suspect partition '' @ name @ '' FS %02x:'') [ucast ft] t))
      else t)"

definition part_name :: "nat \<Rightarrow> nat \<Rightarrow> string" where
  "part_name ext i = map (\<lambda>b. char_of (unat b)) (ascii (if ext \<noteq> 0 then ''Ext:'' else ''Pri:'')
     @ ltob (of_nat (if ext \<noteq> 0 then ext else i + 1)) (-10))"

definition force_lba_type :: "u8 \<Rightarrow> u8" where
  "force_lba_type t = (if t = FAT12 then FAT12_LBA else if t = FAT32 then FAT32_LBA else FAT16_LBA)"

definition wanted_entry :: "scan_type \<Rightarrow> nat \<Rightarrow> u8 \<Rightarrow> PartTableEntry \<Rightarrow> bool" where
  "wanted_entry k i ignore e \<longleftrightarrow>
     FileSystem e \<noteq> 0 \<and> \<not> bit ignore i \<and> \<not> IsExtPartition (FileSystem e)
     \<and> \<not> (k = SCAN_PRIMARYBOOT \<and> Bootable e = 0) \<and> IsFATPartition (FileSystem e)"

definition beyond_chs :: "'b boot_env \<Rightarrow> string \<Rightarrow> string \<Rightarrow> u8 \<Rightarrow> CHS \<Rightarrow> CHS \<Rightarrow> 'b init_state \<Rightarrow> 'b init_state" where
  "beyond_chs E fmt name ft c1 c2 t =
     printCHS E '', end '' c2 (printCHS E '' start '' c1 (say (fmt @ '' - part '' @ name @ '' FS %02x'') [ucast ft] t))"

text \<open>
  The checks of an entry that is wanted: \<open>None\<close> when it is left out, otherwise the file system to use. The
  places of the entry itself are only used for warnings.
\<close>

definition check_entry ::
  "'b boot_env \<Rightarrow> DriveParamS \<Rightarrow> u32 \<Rightarrow> string \<Rightarrow> PartTableEntry \<Rightarrow> 'b init_state \<Rightarrow> u8 option \<times> 'b init_state" where
  "check_entry E dp first name e t =
     (let c1 = init_LBA_to_CHS first dp;
          c2 = init_LBA_to_CHS (first + NumSect e - 1) dp;
          ft = FileSystem e;
          t1 = (if is_suspect c1 (Begin e) then print_warning_suspect E name ft c1 (Begin e) t else t)
      in if is_suspect c2 (End e) \<and> NumSect e = 0
         then (None, say (''Not using partition '' @ name @ '' with 0 sectors'') [] t1)
         else
           (let t2 = (if is_suspect c2 (End e) then print_warning_suspect E name ft c2 (End e) t1 else t1)
            in if Cylinder c1 > 1023 \<or> Cylinder c2 > 1023 then
                 (if descflags dp AND DF_LBA = 0
                  then (None, beyond_chs E ''can't use LBA partition without LBA support'' name ft c1 c2 t2)
                  else if uses_lba E ft t2 then (Some ft, t2)
                  else (Some (force_lba_type ft), beyond_chs E ''WARNING: Partition ID does not suggest LBA'' name ft c1 c2 t2))
               else (Some ft, t2)))"

text \<open>The entries from the \<open>i\<close>-th on; the result has the bits of the partitions that have a drive letter.\<close>

fun scan_entries ::
  "'b boot_env \<Rightarrow> DriveParamS \<Rightarrow> scan_type \<Rightarrow> u32 \<Rightarrow> nat \<Rightarrow> nat \<Rightarrow> PartTableEntry list \<Rightarrow> u8 \<Rightarrow> 'b init_state \<Rightarrow> u8 \<times> 'b init_state" where
  "scan_entries E dp k base ext i [] ignore t = (ignore, t)"
| "scan_entries E dp k base ext i (e # es) ignore t =
     (if \<not> wanted_entry k i ignore e then scan_entries E dp k base ext (Suc i) es ignore t
      else
        (case check_entry E dp (base + RelSect e) (part_name ext i) e t of
           (None, t1) \<Rightarrow> scan_entries E dp k base ext (Suc i) es ignore t1
         | (Some ft, t1) \<Rightarrow>
             (let ignore1 = ignore OR push_bit i 1;
                  t2 = DosDefinePartition E dp (base + RelSect e) (e\<lparr>FileSystem := ft\<rparr>) ext i t1
              in if k = SCAN_PRIMARYBOOT \<or> k = SCAN_PRIMARY then (ignore1, t2)
                 else scan_entries E dp k base ext (Suc i) es ignore1 t2)))"

definition ScanForPrimaryPartitions ::
  "'b boot_env \<Rightarrow> DriveParamS \<Rightarrow> scan_type \<Rightarrow> PartTableEntry list \<Rightarrow> u32 \<Rightarrow> u8 \<Rightarrow> nat \<Rightarrow> 'b init_state \<Rightarrow> u8 \<times> 'b init_state" where
  "ScanForPrimaryPartitions E dp k table startSector ignore ext = scan_entries E dp k startSector ext 0 table ignore"

section \<open>Reading a sector\<close>

definition BIOS_drive_reset :: "'b boot_env \<Rightarrow> u8 \<Rightarrow> 'b init_state \<Rightarrow> 'b init_state" where
  "BIOS_drive_reset E drive t = snd (snd (init13 E (regs0\<lparr>DX := ucast (drive OR 0x80)\<rparr>) t))"

definition read_with_lba :: "'b boot_env \<Rightarrow> DriveParamS \<Rightarrow> CHS \<Rightarrow> 'b init_state \<Rightarrow> bool" where
  "read_with_lba E dp c t \<longleftrightarrow>
     descflags dp AND DF_LBA \<noteq> 0 \<and> (ForceLBA (kconf E) \<noteq> 0 \<or> ExtLBAForce t \<or> Cylinder c > 1023)"

definition chs_registers :: "CHS \<Rightarrow> far \<Rightarrow> lregs \<Rightarrow> lregs" where
  "chs_registers c p r =
     r\<lparr>AX := 0x0201, BX := snd p, ES := fst p, DX := set_hi (lo8 (Head c)) (DX r),
       CX := push_bit 8 (Cylinder c AND 0xff) + drop_bit 2 (Cylinder c AND 0x300) + Sector c\<rparr>"

text \<open>\<open>k\<close> tries are left; \<open>err\<close> is the carry flag of the last one.\<close>

fun read_tries :: "'b boot_env \<Rightarrow> DriveParamS \<Rightarrow> u8 \<Rightarrow> u32 \<Rightarrow> nat \<Rightarrow> bool \<Rightarrow> lregs \<Rightarrow> 'b init_state \<Rightarrow> bool \<times> 'b init_state" where
  "read_tries E dp drive lba 0 err r t = (err, t)"
| "read_tries E dp drive lba (Suc k) err r t =
     (let c = init_LBA_to_CHS lba dp; v = Verbose (kconf E) \<ge> 1; p = dtb_place (pcs E); q = dap_place (pcs E);
          t1 = say_if v ''retry# %i sector %lu'' [of_nat (N_RETRY - Suc k), lba] t;
          r0 = r\<lparr>DX := set_lo (drive OR 0x80) (DX r)\<rparr>
      in if read_with_lba E dp c t1 then
           (case init13 E (r0\<lparr>AX := LBA_READ, DS := fst q, SI := snd q\<rparr>)
                   (upd_dk (upd_dmem (st_bytes q (dap_bytes 1 p lba))) (say_if v ''LBA mode'' [] t1)) of
              (c1, r1, t2) \<Rightarrow> if \<not> c1 then (False, t2)
                             else read_tries E dp drive lba k True r1 (BIOS_drive_reset E (driveno dp) t2))
         else if Cylinder c > 1023
         then (True, say ''LBA-Transfer error : address = %lu, cylinder %u > 1023'' [lba, ucast (Cylinder c)]
                       (say_if v ''CHS mode'' [] t1))
         else
           (case init13 E (chs_registers c p r0) (say_if v ''CHS mode'' [] t1) of
              (c1, r1, t2) \<Rightarrow> if \<not> c1 then (False, t2)
                             else read_tries E dp drive lba k True r1 (BIOS_drive_reset E (driveno dp) t2)))"

definition Read1LBASector :: "'b boot_env \<Rightarrow> DriveParamS \<Rightarrow> u8 \<Rightarrow> u32 \<Rightarrow> 'b init_state \<Rightarrow> bool \<times> 'b init_state" where
  "Read1LBASector E dp drive lba t = read_tries E dp drive lba N_RETRY False regs0 t"

definition init_buffer :: "'b boot_env \<Rightarrow> 'b init_state \<Rightarrow> bytes" where
  "init_buffer E t = ld_bytes (dmem (dk t)) (dtb_place (pcs E)) 512"

text \<open>A partition table with up to three tries: \<open>Inl\<close> whether the read itself failed.\<close>

fun read_table :: "'b boot_env \<Rightarrow> DriveParamS \<Rightarrow> u8 \<Rightarrow> u32 \<Rightarrow> nat \<Rightarrow> 'b init_state \<Rightarrow> (bool + PartTableEntry list) \<times> 'b init_state" where
  "read_table E dp drive lba 0 t = (Inl False, t)"
| "read_table E dp drive lba (Suc k) t =
     (case Read1LBASector E dp drive lba t of
        (True, t1) \<Rightarrow> (Inl True, t1)
      | (False, t1) \<Rightarrow> (case ConvPartTableEntryToIntern (init_buffer E t1) of
                         None \<Rightarrow> read_table E dp drive lba k t1
                       | Some table \<Rightarrow> (Inr table, t1)))"

section \<open>The disks\<close>

text \<open>
  The chain of partition tables from sector \<open>rel\<close> on, \<open>found\<close> extended partitions have been followed, the first of them starts at
  \<open>ext\<close> (0: none yet).
\<close>

function table_chain ::
  "'b boot_env \<Rightarrow> DriveParamS \<Rightarrow> scan_type \<Rightarrow> u8 \<Rightarrow> u32 \<Rightarrow> u32 \<Rightarrow> nat \<Rightarrow> u8 \<Rightarrow> 'b init_state \<Rightarrow> u8 \<times> 'b init_state" where
  "table_chain E dp k drive rel ext found ignore t =
     (case read_table E dp drive rel 3 t of
        (Inl err, t1) \<Rightarrow>
          (ignore, if err then say ''Error reading partition table drive %02Xh sector %lu'' [ucast drive, rel] t1
                   else say_if (k = SCAN_PRIMARYBOOT) ''illegal partition table - drive %02x sector %lu'' [ucast drive, rel] t1)
      | (Inr table, t1) \<Rightarrow>
          (case (if k \<noteq> SCAN_EXTENDED \<or> found \<noteq> 0 then ScanForPrimaryPartitions E dp k table rel ignore found t1 else (ignore, t1)) of
             (ignore1, t2) \<Rightarrow>
               if k \<noteq> SCAN_EXTENDED then (ignore1, t2)
               else
                 (case find (\<lambda>e. IsExtPartition (FileSystem e)) table of
                    None \<Rightarrow> (0, t2)
                  | Some e \<Rightarrow>
                      (let t3 = (if ext = 0 then t2\<lparr>ExtLBAForce := (FileSystem e = EXTENDED_LBA)\<rparr> else t2)
                       in if found + 1 > 30 then (0, say ''found more then 30 extended partitions, terminated'' [] t3)
                          else table_chain E dp k drive (ext + RelSect e) (if ext = 0 then RelSect e else ext) (found + 1) 0 t3))))"
  by pat_completeness auto
termination
  by (relation "measure (\<lambda>(E, dp, k, drive, rel, ext, found, ignore, t). 31 - found)") auto

declare table_chain.simps [simp del]

definition ProcessDisk :: "'b boot_env \<Rightarrow> scan_type \<Rightarrow> u8 \<Rightarrow> u8 \<Rightarrow> 'b init_state \<Rightarrow> u8 \<times> 'b init_state" where
  "ProcessDisk E k drive ignore t =
     (case LBA_Get_Drive_Parameters E drive (k = SCAN_PRIMARYBOOT) t of
        (False, dp, t1) \<Rightarrow> (ignore, say ''can't get drive parameters for drive %02x'' [ucast drive] t1)
      | (True, dp, t1) \<Rightarrow> table_chain E dp k drive 0 0 0 ignore (t1\<lparr>ExtLBAForce := False\<rparr>))"

definition BIOS_nrdrives :: "'b boot_env \<Rightarrow> 'b init_state \<Rightarrow> nat \<times> 'b init_state" where
  "BIOS_nrdrives E t =
     (let (c, r, t1) = init13 E (regs0\<lparr>AX := 0x0800, DX := 0x0080\<rparr>) t
      in if c then (0, say ''no hard disks detected'' [] t1) else (unat (DL r), t1))"

text \<open>A floppy drive; the answer is also the frame for the next one.\<close>

definition make_ddt :: "'b boot_env \<Rightarrow> u8 \<Rightarrow> u8 \<Rightarrow> u16 \<Rightarrow> ddt \<Rightarrow> 'b init_state \<Rightarrow> (ddt \<times> 'b init_state) option" where
  "make_ddt E unit drive flags d t = do {
     (type, b, t1) \<leftarrow> init_getdriveparm E drive (ddt_defbpb d) t;
     let (dasd, t2) = init_readdasd E drive t1;
     let d1 = d\<lparr>ddt_next := None, ddt_logdriveno := unit, ddt_driveno := drive, ddt_type := type, ddt_defbpb := b,
           ddt_ncyl := (if type AND 7 \<noteq> 0 then 80 else 40), ddt_descflags := dasd OR flags, ddt_offset := 0,
           ddt_serialno := 0x12345678, ddt_bpb := b\<rparr>;
     Some (d1, push_ddt d1 t2)
   }"

definition adjust_int1e :: "'b boot_env \<Rightarrow> 'b init_state \<Rightarrow> 'b init_state" where
  "adjust_int1e E = upd_dk (upd_dmem (\<lambda>m.
     (let tab = (ld_bytes m (ld_far m (0, 0x78)) 14)[3 := 2];
          tab1 = (if tab ! 4 < 9 then tab[4 := 9] else tab)
      in st_far (0, 0x78) (int1e_table E) (st_bytes (int1e_table E) tab1 m))))"

definition floppy_drives :: "'b boot_env \<Rightarrow> 'b init_state \<Rightarrow> 'b init_state option" where
  "floppy_drives E t = do {
     (d, t1) \<leftarrow> make_ddt E 0 0 0 (stack_ddt E) t;
     let (ax, b) = int11 E (bios_state (machine (dk t1)));
     let t2 = upd_dk (upd_bios (\<lambda>_. b)) t1;
     (_, t3) \<leftarrow> (if lo8 ax AND 1 \<noteq> 0 \<and> lo8 ax AND 0xc0 \<noteq> 0 then make_ddt E 1 1 0 d t2 else make_ddt E 1 0 DF_MULTLOG d t2);
     Some (t3\<lparr>nUnits := 2\<rparr>)
   }"

text \<open>One pass over the disks \<open>0..<n\<close>; \<open>f\<close> gives the new entry of \<open>foundPartitions\<close>.\<close>

definition for_disks :: "nat \<Rightarrow> (nat \<Rightarrow> u8 \<Rightarrow> 'b init_state \<Rightarrow> u8 \<times> 'b init_state) \<Rightarrow> u8 list \<times> 'b init_state \<Rightarrow> u8 list \<times> 'b init_state" where
  "for_disks n f = fold (\<lambda>i (found, t). case f i (found ! i) t of (b, t1) \<Rightarrow> (found[i := b], t1)) [0..<n]"

definition first_primary :: "'b boot_env \<Rightarrow> nat \<Rightarrow> 'b init_state \<Rightarrow> u8 \<times> 'b init_state" where
  "first_primary E i t =
     (case ProcessDisk E SCAN_PRIMARYBOOT (of_nat i) 0 t of
        (b, t1) \<Rightarrow> if b = 0 then ProcessDisk E SCAN_PRIMARY (of_nat i) 0 t1 else (b, t1))"

definition rest_of_disk :: "'b boot_env \<Rightarrow> nat \<Rightarrow> u8 \<Rightarrow> 'b init_state \<Rightarrow> u8 \<times> 'b init_state" where
  "rest_of_disk E i b t = (b, snd (ProcessDisk E SCAN_PRIMARY2 (of_nat i) b t))"

definition extended_of_disk :: "'b boot_env \<Rightarrow> nat \<Rightarrow> u8 \<Rightarrow> 'b init_state \<Rightarrow> u8 \<times> 'b init_state" where
  "extended_of_disk E i b t = (b, snd (ProcessDisk E SCAN_EXTENDED (of_nat i) 0 t))"

text \<open>First primary partitions of all disks, then logical drives, then the other primary partitions.\<close>

definition dos_order :: "'b boot_env \<Rightarrow> nat \<Rightarrow> u8 list \<times> 'b init_state \<Rightarrow> u8 list \<times> 'b init_state" where
  "dos_order E n x = for_disks n (rest_of_disk E) (for_disks n (extended_of_disk E) (for_disks n (\<lambda>i b. first_primary E i) x))"

text \<open>The search of the disk that was booted from stops at it.\<close>

fun boot_disk :: "'b boot_env \<Rightarrow> u8 \<Rightarrow> nat list \<Rightarrow> u8 list \<times> 'b init_state \<Rightarrow> u8 list \<times> 'b init_state" where
  "boot_disk E bootdrv [] x = x"
| "boot_disk E bootdrv (i # is) (found, t) =
     (case LBA_Get_Drive_Parameters E (of_nat i) False t of
        (ok, dp, t1) \<Rightarrow>
          if ok \<and> driveno dp = bootdrv
          then (case ProcessDisk E SCAN_PRIMARYBOOT (of_nat i) 0 t1 of (b, t2) \<Rightarrow> (found[i := b], t2))
          else boot_disk E bootdrv is (found, t1))"

definition disk_by_disk :: "'b boot_env \<Rightarrow> nat \<Rightarrow> u8 \<Rightarrow> 'b init_state \<Rightarrow> u8 \<times> 'b init_state" where
  "disk_by_disk E i b t =
     (case (if b = 0 then first_primary E i t else (b, t)) of
        (b1, t1) \<Rightarrow> rest_of_disk E i b1 (snd (extended_of_disk E i b1 t1)))"

definition drive_order :: "'b boot_env \<Rightarrow> nat \<Rightarrow> u8 list \<times> 'b init_state \<Rightarrow> u8 list \<times> 'b init_state" where
  "drive_order E n x =
     (let x1 = (fst x, say_if (Verbose (kconf E) \<ge> 1) ''Drive Letter Assignment - sorted by drive'' [] (snd x))
      in for_disks n (disk_by_disk E) (boot_disk E (ld8 (dmem (dk (snd x))) (0, 0x5e0)) [0..<n] x1))"

definition ReadAllPartitionTables :: "'b boot_env \<Rightarrow> 'b init_state \<Rightarrow> 'b init_state option" where
  "ReadAllPartitionTables E t = do {
     t1 \<leftarrow> floppy_drives E (adjust_int1e E t);
     let (found, t2) = BIOS_nrdrives E t1;
     let n = min found MAX_HARD_DRIVE;
     let t3 = fold (\<lambda>i. BIOS_drive_reset E (of_nat i)) [0..<n] t2;
     let x = (replicate n 0, t3);
     let (parts, t4) =
       (if DLASortByDriveNo (kconf E) = 0
        then dos_order E n (fst x, say_if (Verbose (kconf E) \<ge> 1) ''Drive Letter Assignment - DOS order'' [] (snd x))
        else drive_order E n x);
     Some (say_if (Verbose (kconf E) \<ge> 0 \<and> (\<forall>b\<in>set parts. b = 0)) ''No supported partitions found.'' [] t4)
   }"

definition dsk_init :: "'b boot_env \<Rightarrow> 'b init_state \<Rightarrow> (nat \<times> 'b init_state) option" where
  "dsk_init E t = do {
     t1 \<leftarrow> ReadAllPartitionTables E (BIOS_drive_reset E 0 (say_if (Verbose (kconf E) \<ge> 1) ''InitDisk'' [] t));
     Some (nUnits t1, t1)
   }"

end
