(* ===== verification/Disk_Props.thy ===== *)
theory Disk_Props
  imports Disk_Init
begin

text \<open>
  Transfers stay in a 64K page of the DMA controller, sector numbers and their cylinder, head and sector determine each other,
  the default parameter block of a partition is consistent, and the units found at boot are numbered without gaps.
\<close>

section \<open>The DMA page\<close>

lemma unat_lin_page: "unat (lin p) mod 65536 = unat (push_bit 4 (fst p) + snd p)"
proof -
  have "unat (lin p) = unat (fst p) * 16 + unat (snd p)"
  proof -
    have a: "unat (fst p) < 268435456" by (rule less_trans [OF unat16_lt]) simp
    have m: "unat (ucast (fst p) * 16 :: u32) = unat (fst p) * 16"
      using a by (subst unat_mult_no_wrap) simp_all
    have "unat (fst p) * 16 + unat (snd p) < 4294967296"
      using unat16_lt [of "fst p"] unat16_lt [of "snd p"] by linarith
    then show ?thesis unfolding lin_def by (subst unat_add_no_wrap) (simp_all add: m)
  qed
  moreover have "unat (push_bit 4 (fst p) + snd p) = (unat (fst p) * 16 + unat (snd p)) mod 65536"
    unfolding push_bit_eq_mult by (simp add: unat_word_ariths mod_simps)
  ultimately show ?thesis by simp
qed

lemma min_times_le: "a \<le> c div m \<Longrightarrow> a * m \<le> (c :: nat)"
  by (metis div_times_less_eq_dividend le_trans mult_le_mono1)

text \<open>
  C37: the number of sectors that \<open>DMA_max_transfer\<close> allows for one call of the BIOS fits between the address of the
  buffer and the end of its 64K page, for every buffer, sector size and count.
\<close>

theorem DMA_max_transfer_in_page:
  "unat (lin p) mod 65536 + unat (DMA_max_transfer p maxsec n) * unat maxsec \<le> 65536"
proof -
  let ?off = "push_bit 4 (fst p) + snd p"
  have le: "unat (DMA_max_transfer p maxsec n) \<le> unat (if ?off = 0 then 0xffff div maxsec else (- ?off) div maxsec)"
    unfolding DMA_max_transfer_def Let_def by (simp only: word_le_nat_alt [symmetric] min.cobounded2)
  show ?thesis
  proof (cases "?off = 0")
    case True
    then have "unat (DMA_max_transfer p maxsec n) \<le> 65535 div unat maxsec" using le by (simp add: unat_div)
    then have "unat (DMA_max_transfer p maxsec n) * unat maxsec \<le> 65535" by (rule min_times_le)
    then show ?thesis unfolding unat_lin_page True by simp
  next
    case False
    then have "unat (DMA_max_transfer p maxsec n) \<le> unat (- ?off) div unat maxsec" using le by (simp add: unat_div)
    then have "unat (DMA_max_transfer p maxsec n) * unat maxsec \<le> unat (- ?off)" by (rule min_times_le)
    moreover have "unat (- ?off) = 65536 - unat ?off" using False unat_sub_if' [of 0 ?off] by (simp add: unat_gt_0)
    moreover have "unat ?off < 65536" by simp
    ultimately show ?thesis unfolding unat_lin_page by linarith
  qed
qed

section \<open>Sector numbers\<close>

text \<open>
  C38: the place of a sector determines it. With a geometry whose cylinder has less than 65536 sectors, a sector number that
  has a place on the disk comes back as ((cylinder * heads + head) * sectors + sector - 1), the head and the sector are in range, and
  the cylinder is one that the BIOS accepts.
\<close>

theorem LBA_to_CHS_inverse:
  assumes "unat (bpb_nsecs (geometry d)) * unat (bpb_nheads (geometry d)) < 65536"
    and "LBA_to_CHS lba d = Some (Some c)"
  shows "unat lba = (unat (Cylinder c) * unat (bpb_nheads (geometry d)) + unat (Head c)) * unat (bpb_nsecs (geometry d)) + unat (Sector c) - 1
     \<and> unat (Head c) < unat (bpb_nheads (geometry d)) \<and> 1 \<le> unat (Sector c) \<and> unat (Sector c) \<le> unat (bpb_nsecs (geometry d))
     \<and> unat (Cylinder c) \<le> 1023"
proof -
  let ?n = "unat (bpb_nsecs (geometry d))" and ?h = "unat (bpb_nheads (geometry d))"
  let ?hs = "bpb_nsecs (geometry d) * bpb_nheads (geometry d)"
  let ?rem = "ucast (lba mod ucast ?hs) :: u16"
  have hs: "unat ?hs = ?n * ?h" using assms(1) by (subst unat_mult_no_wrap) simp_all
  have nz: "?hs \<noteq> 0" and c: "\<not> lba div ucast ?hs > 1023"
      "c = \<lparr>Cylinder = ucast (lba div ucast ?hs), Head = ?rem div bpb_nsecs (geometry d), Sector = ?rem mod bpb_nsecs (geometry d) + 1\<rparr>"
    using assms(2) by (auto simp: LBA_to_CHS_def Let_def split: if_splits)
  have pos: "0 < ?n" "0 < ?h" using nz hs by (auto simp: unat_gt_0 intro!: gr0I dest: unat_0_iff [THEN iffD1])
  have cyl: "unat (lba div ucast ?hs) = unat lba div (?n * ?h)" by (simp only: unat_div unat_ucast_16_32 hs)
  have small: "unat lba div (?n * ?h) \<le> 1023" using c(1) by (simp add: word_less_nat_alt cyl not_less)
  have rem: "unat ?rem = unat lba mod (?n * ?h)"
  proof -
    have "unat (lba mod ucast ?hs) = unat lba mod (?n * ?h)" by (simp only: unat_mod unat_ucast_16_32 hs)
    moreover have "unat lba mod (?n * ?h) < ?n * ?h" using pos by simp
    ultimately show ?thesis using assms(1) by (simp add: unat_ucast_32_16)
  qed
  have C: "unat (Cylinder c) = unat lba div (?n * ?h)" using small by (simp only: c(2) CHS.simps unat_ucast_32_16 cyl) simp
  have H: "unat (Head c) = unat lba mod (?n * ?h) div ?n" by (simp only: c(2) CHS.simps unat_div rem)
  have m: "unat lba mod (?n * ?h) mod ?n < ?n" using pos(1) by (rule mod_less_divisor)
  have S: "unat (Sector c) = unat lba mod (?n * ?h) mod ?n + 1"
  proof -
    have "unat (?rem mod bpb_nsecs (geometry d)) = unat lba mod (?n * ?h) mod ?n" by (simp only: unat_mod rem)
    moreover have "unat lba mod (?n * ?h) mod ?n < 65535" using m unat16_lt [of "bpb_nsecs (geometry d)"] by linarith
    ultimately show ?thesis by (simp only: c(2) CHS.simps) (subst unat16_inc, simp_all)
  qed
  have head: "unat (Head c) < ?h" unfolding H using pos by (simp add: less_mult_imp_div_less mult.commute)
  have "unat lba = (unat (Cylinder c) * ?h + unat (Head c)) * ?n + unat (Sector c) - 1"
  proof -
    have "unat lba = ?n * ?h * (unat lba div (?n * ?h)) + unat lba mod (?n * ?h)" by simp
    also have "unat lba mod (?n * ?h) = ?n * (unat lba mod (?n * ?h) div ?n) + unat lba mod (?n * ?h) mod ?n" by simp
    finally show ?thesis unfolding C H S by (simp add: algebra_simps)
  qed
  then show ?thesis using head S m C small by simp
qed

definition demo_ddt :: ddt where
  "demo_ddt = \<lparr>ddt_next = None, ddt_driveno = 0, ddt_logdriveno = 0, ddt_bpb = bpb_of_bytes (replicate 41 0)\<lparr>bpb_nbyte := 512, bpb_nsecs := 18, bpb_nheads := 2\<rparr>,
     ddt_FileOC = 0, ddt_type = 7, ddt_descflags = 0, ddt_ncyl = 80, ddt_defbpb = bpb_of_bytes (replicate 41 0), ddt_lasttime = 0,
     ddt_volume = replicate 12 0, ddt_serialno = 0, ddt_fstype = replicate 9 0, ddt_offset = 0\<rparr>"

lemma demo_chs: "LBA_to_CHS 100 demo_ddt = Some (Some \<lparr>Cylinder = 2, Head = 1, Sector = 11\<rparr>)"
  by (simp add: LBA_to_CHS_def Let_def geometry_def hd_drive_def has_flag_def demo_ddt_def df_flags)

theorem LBA_to_CHS_inverse_witness:
  "unat (100 :: u32) = (unat (2 :: u16) * unat (bpb_nheads (geometry demo_ddt)) + unat (1 :: u16)) * unat (bpb_nsecs (geometry demo_ddt)) + unat (11 :: u16) - 1"
  using LBA_to_CHS_inverse [OF _ demo_chs] by (simp add: geometry_def hd_drive_def has_flag_def demo_ddt_def df_flags)

section \<open>The default parameter block\<close>

text \<open>
  The search for a cluster size on numbers: the length of the FAT is the number of sectors of the FAT for all clusters, rounded up, and
  the clusters share what the two FATs leave.
\<close>

definition fat_len :: "nat \<Rightarrow> nat \<Rightarrow> nat \<Rightarrow> nat" where
  "fat_len F p s = (F + 2 * s + p * s + 1) div (p * s + 2)"

definition clusters_of :: "nat \<Rightarrow> nat \<Rightarrow> nat \<Rightarrow> nat" where
  "clusters_of F p s = (F - 2 * fat_len F p s) div s"

lemma round_up:
  assumes "0 < (D :: nat)"
  shows "N \<le> (N + D - 1) div D * D" "(N + D - 1) div D * D < N + D"
proof -
  have e: "(N + D - 1) div D * D + (N + D - 1) mod D = N + D - 1" by (rule div_mult_mod_eq)
  have m: "(N + D - 1) mod D < D" using assms by (rule mod_less_divisor)
  show "N \<le> (N + D - 1) div D * D" using e m by linarith
  show "(N + D - 1) div D * D < N + D" using e assms by linarith
qed

lemma fat_len_bounds:
  "F + 2 * s \<le> fat_len F p s * (p * s + 2)" "fat_len F p s * (p * s + 2) < F + 2 * s + (p * s + 2)"
proof -
  have "F + 2 * s + p * s + 1 = (F + 2 * s) + (p * s + 2) - 1" by simp
  then have e: "fat_len F p s = ((F + 2 * s) + (p * s + 2) - 1) div (p * s + 2)" unfolding fat_len_def by (rule arg_cong)
  show "F + 2 * s \<le> fat_len F p s * (p * s + 2)" "fat_len F p s * (p * s + 2) < F + 2 * s + (p * s + 2)"
    unfolding e by (rule round_up, simp)+
qed

text \<open>A divisor that is not larger than the real one bounds the length from above.\<close>

lemma fat_len_le:
  assumes "d \<le> p * s + 2" "0 < d"
  shows "fat_len F p s * d < F + 2 * s + d"
proof (cases "fat_len F p s")
  case (Suc l)
  have "(l + 1) * (p * s + 2) < F + 2 * s + (p * s + 2)" using fat_len_bounds(2) [of F p s] unfolding Suc by simp
  then have "l * (p * s + 2) < F + 2 * s" by (simp only: add_mult_distrib mult_1 add_less_cancel_right)
  moreover have "l * d \<le> l * (p * s + 2)" using assms(1) by (rule mult_le_mono2)
  ultimately show ?thesis unfolding Suc by (simp only: mult_Suc)
qed (use assms(2) in simp)

lemma fat_len_small:
  assumes "128 \<le> p" "0 < s" "s \<le> 128" "16384 \<le> F"
  shows "2 * fat_len F p s \<le> F"
proof -
  have "128 * 1 \<le> p * s" using assms(1,2) by (intro mult_le_mono) simp_all
  then have "fat_len F p s * 130 < F + 2 * s + 130" by (intro fat_len_le) simp_all
  then show ?thesis using assms(3,4) by linarith
qed

text \<open>The FAT always has an entry for every cluster and the two reserved ones.\<close>

lemma clusters_fit:
  assumes "0 < s" "2 * fat_len F p s \<le> F"
  shows "clusters_of F p s + 2 \<le> fat_len F p s * p"
proof -
  let ?L = "fat_len F p s"
  have "F + 2 * s \<le> (?L * p) * s + 2 * ?L" using fat_len_bounds(1) [of F s p] by (simp add: algebra_simps)
  then have "F - 2 * ?L + 2 * s \<le> (?L * p) * s" using assms(2) by linarith
  then have "(F - 2 * ?L + 2 * s) div s \<le> (?L * p) * s div s" by (rule div_le_mono)
  then show ?thesis unfolding clusters_of_def using assms(1) by simp
qed

lemma clusters_ge:
  assumes "0 < s" "x * s \<le> F - 2 * fat_len F p s"
  shows "x \<le> clusters_of F p s"
  unfolding clusters_of_def using assms by (simp add: less_eq_div_iff_mult_less_eq)

lemma clusters_le: "0 < s \<Longrightarrow> F < x * s \<Longrightarrow> clusters_of F p s < x"
  unfolding clusters_of_def by (rule div_less_iff_less_mult [THEN iffD2]) simp_all

text \<open>FAT16: the first size gives enough clusters; twice a size that gives too many gives enough; the largest size never gives too many.\<close>

lemma fat16_first:
  assumes "16384 \<le> F"
  shows "4085 < clusters_of F 256 4"
proof -
  have "fat_len F 256 4 * 1026 < F + 1034" using fat_len_le [of 1026 256 4 F] by simp
  then have "4086 * 4 \<le> F - 2 * fat_len F 256 4" using assms by linarith
  then show ?thesis using clusters_ge [of 4 4086 F 256] by simp
qed

lemma fat16_double:
  assumes "0 < s" "s \<le> 64" "65517 < clusters_of F 256 s"
  shows "4085 < clusters_of F 256 (2 * s)"
proof -
  have "65518 \<le> (F - 2 * fat_len F 256 s) div s" using assms(3) by (simp add: clusters_of_def)
  then have "65518 * s \<le> F - 2 * fat_len F 256 s" using assms(1) by (simp add: less_eq_div_iff_mult_less_eq)
  moreover have "fat_len F 256 (2 * s) * 258 < F + 2 * (2 * s) + 258" using assms(1) by (intro fat_len_le) simp_all
  ultimately have "4086 * (2 * s) \<le> F - 2 * fat_len F 256 (2 * s)" using assms(1) by linarith
  then show ?thesis using clusters_ge [of "2 * s" 4086 F 256] assms(1) by simp
qed

lemma fat16_last:
  assumes "F \<le> 8386688"
  shows "clusters_of F 256 128 \<le> 65517"
proof -
  have "F - 2 * fat_len F 256 128 < 65518 * 128"
    using fat_len_bounds(1) [of F 128 256] assms by simp
  then have "(F - 2 * fat_len F 256 128) div 128 < 65518" by (simp add: div_less_iff_less_mult)
  then show ?thesis by (simp add: clusters_of_def)
qed

text \<open>FAT32: the size of the table gives the right number at once.\<close>

lemma fat32_first:
  assumes "66560 \<le> F" "0 < s" "s = 1 \<and> F \<le> 532448 \<or> s \<le> 64 \<and> 66500 * s \<le> F" "F \<le> 260000000 * s"
  shows "65525 < clusters_of F 128 s" "clusters_of F 128 s + 2 \<le> 268435449"
proof -
  have "65526 * s \<le> F - 2 * fat_len F 128 s"
  proof (cases "s = 1")
    case True
    then show ?thesis using fat_len_le [of 130 128 1 F] assms(1) by simp
  next
    case False
    then have "fat_len F 128 s * 258 < F + 2 * s + 258" using assms(2) by (intro fat_len_le) simp_all
    then show ?thesis using assms False by linarith
  qed
  then show "65525 < clusters_of F 128 s" using clusters_ge [of s 65526 F 128] assms(2) by simp
  have "F < 260000001 * s" using assms(2,4) by linarith
  then show "clusters_of F 128 s + 2 \<le> 268435449" using clusters_le [of s F 260000001 128] assms(2) by simp
qed

text \<open>The arithmetic of the code does not wrap, so that it computes these numbers.\<close>

lemma fat_length_exact:
  assumes per: "2 \<le> unat per" "unat per \<le> 256" and ns: "0 < unat ns" "unat ns \<le> 128"
  shows "unat (fat_length F per ns) = fat_len (unat F) (unat per) (unat ns)"
proof -
  let ?d = "per * ucast ns + 2" and ?D = "unat per * unat ns + 2"
  have "unat per * unat ns \<le> 256 * 128" using per(2) ns(2) by (rule mult_le_mono)
  then have D: "?D \<le> 32770" by simp
  have d: "unat ?d = ?D"
  proof -
    have "unat (per * ucast ns) = unat per * unat ns" using D by (subst unat_mult_no_wrap) simp_all
    then show ?thesis using D by (subst unat_add_no_wrap) simp_all
  qed
  let ?m = "unat F mod ?D"
  have m: "?m < ?D" by simp
  have a: "unat (2 * ucast ns + ?d) = 2 * unat ns + ?D"
  proof -
    have "unat (2 * ucast ns :: u16) = 2 * unat ns" by (subst unat_mult_no_wrap) (use ns in simp_all)
    then show ?thesis using d D ns by (subst unat_add_no_wrap) simp_all
  qed
  have rest: "unat (F mod ucast ?d) = ?m" by (simp only: unat_mod unat_ucast_16_32 d)
  have sum: "unat (ucast (2 * ucast ns + ?d) + F mod ucast ?d :: u32) = 2 * unat ns + ?D + ?m"
  proof -
    have "2 * unat ns + ?D + ?m < 4294967296" using m D ns by linarith
    then show ?thesis by (subst unat_add_no_wrap) (simp_all only: unat_ucast_16_32 a rest, simp)
  qed
  have x: "unat (ucast (2 * ucast ns + ?d) + F mod ucast ?d - 1 :: u32) = 2 * unat ns + ?D + ?m - 1"
  proof -
    have "1 \<le> (ucast (2 * ucast ns + ?d) + F mod ucast ?d :: u32)" unfolding word_le_nat_alt sum by simp
    then show ?thesis by (simp only: unat_sub sum unat_1)
  qed
  have le: "2 * unat ns \<le> unat per * unat ns" using per(1) by (rule mult_right_mono) simp
  have r: "(2 * unat ns + ?D + ?m - 1) div ?D \<le> 2"
  proof -
    have "2 * s + D + r - 1 < 3 * D" if "r < D" "2 * s \<le> D" "0 < D" for s D r :: nat using that by linarith
    then have "2 * unat ns + ?D + ?m - 1 < 3 * ?D" using m le by (simp only: trans_le_add1)
    then show ?thesis by (simp add: div_less_iff_less_mult less_Suc_eq_le [symmetric])
  qed
  have q: "unat F div ?D \<le> 2147483648"
  proof -
    have "unat F div ?D \<le> unat F div 2" by (rule div_le_mono2) simp_all
    also have "\<dots> \<le> 4294967296 div 2" by (rule div_le_mono) (rule less_imp_le [OF unat32_lt])
    finally show ?thesis by simp
  qed
  have "unat (fat_length F per ns) = unat F div ?D + (2 * unat ns + ?D + ?m - 1) div ?D"
    unfolding fat_length_def Let_def
    by (subst unat_add_no_wrap) (simp_all only: unat_div x unat_ucast_16_32 d, use q r in simp)
  also have "\<dots> = (unat F div ?D * ?D + (2 * unat ns + ?D + ?m - 1)) div ?D"
  proof -
    have e: "q + x div D = (q * D + x) div D" if "0 < D" for q x D :: nat using that by simp
    show ?thesis by (rule e) simp
  qed
  also have "unat F div ?D * ?D + (2 * unat ns + ?D + ?m - 1) = unat F + 2 * unat ns + unat per * unat ns + 1"
    using div_mult_mod_eq [of "unat F" ?D] by linarith
  finally show ?thesis by (simp only: fat_len_def)
qed

lemma entries_small:
  assumes "L * (p + 2) < f + 2 * s + (p + 2)" "p = 128 \<or> p = 256 \<and> f \<le> 8386688" "s \<le> 128" "f < (4294967296 :: nat)"
  shows "L * p < 4294967296"
  using assms(2)
proof
  assume "p = 128"
  then show ?thesis using assms(1,3,4) by simp
qed (use assms(1,3) in simp)

lemma cluster_count_nz:
  assumes per: "unat per = 128 \<or> unat per = 256 \<and> unat F \<le> 8386688" and F: "16384 \<le> unat F"
    and ns: "0 < unat ns" "unat ns \<le> 128" and max: "2 \<le> unat maxcl"
  defines "L \<equiv> fat_len (unat F) (unat per) (unat ns)" and "c \<equiv> clusters_of (unat F) (unat per) (unat ns)"
  shows "2 * L \<le> unat F" "c + 2 \<le> L * unat per"
    and "cluster_count F per maxcl ns \<noteq> 0 \<longleftrightarrow> 4085 < c \<and> c + 2 \<le> unat maxcl"
proof -
  let ?fl = "fat_length F per ns" and ?clust = "(F - 2 * fat_length F per ns) div ucast ns"
  let ?max = "min (fat_length F per ns * ucast per) maxcl"
  have fl: "unat ?fl = L" unfolding L_def using per ns by (intro fat_length_exact) auto
  show le: "2 * L \<le> unat F" unfolding L_def using per ns F by (intro fat_len_small) auto
  show fit: "c + 2 \<le> L * unat per" unfolding c_def L_def using ns(1) le [unfolded L_def] by (rule clusters_fit)
  have Lp: "L * unat per < 4294967296"
  proof -
    have "L * (unat per + 2) < unat F + 2 * unat ns + (unat per + 2)"
    proof -
      have "unat per * 1 \<le> unat per * unat ns" using ns(1) by (intro mult_le_mono2) simp
      then show ?thesis unfolding L_def by (intro fat_len_le) simp_all
    qed
    then show ?thesis using per ns(2) unat32_lt [of F] by (rule entries_small)
  qed
  have flp: "unat (?fl * ucast per) = L * unat per" by (subst unat_mult_no_wrap) (use Lp fl in simp_all)
  have m: "unat ?max = min (L * unat per) (unat maxcl)" unfolding min_def word_le_nat_alt by (simp add: flp)
  have m2: "2 \<le> unat ?max" using m max fit by simp
  have two: "unat (2 * ?fl) = 2 * L"
  proof -
    have "2 * L < 4294967296" using le unat32_lt [of F] by (rule le_less_trans)
    then show ?thesis by (subst unat_mult_no_wrap) (simp_all add: fl)
  qed
  have cl: "unat ?clust = c"
  proof -
    have "unat (F - 2 * ?fl) = unat F - 2 * L" using le two by (subst unat_sub) (simp_all add: word_le_nat_alt)
    then show ?thesis unfolding c_def clusters_of_def L_def by (simp add: unat_div)
  qed
  have "?clust > ?max - 2 \<longleftrightarrow> min (L * unat per) (unat maxcl) < c + 2"
    using m2 unfolding word_less_nat_alt cl by (subst unat_sub) (auto simp: word_le_nat_alt m)
  moreover have "?clust \<le> ucast FAT_MAGIC \<longleftrightarrow> c \<le> 4085" by (simp add: word_le_nat_alt cl FAT_MAGIC_def)
  moreover have "?clust = 0 \<longleftrightarrow> c = 0" by (simp add: unat_eq_iff cl)
  ultimately show "cluster_count F per maxcl ns \<noteq> 0 \<longleftrightarrow> 4085 < c \<and> c + 2 \<le> unat maxcl"
    using fit by (auto simp: cluster_count_def Let_def)
qed

text \<open>The sectors of a partition behind the reserved ones and the root directory; FAT16 uses at most 4 GB of them.\<close>

definition is_fat32 :: "u8 \<Rightarrow> bool" where
  "is_fat32 ft \<longleftrightarrow> ft = FAT32 \<or> ft = FAT32_LBA"

definition fat_and_data :: "u8 \<Rightarrow> u32 \<Rightarrow> nat" where
  "fat_and_data ft n = (if is_fat32 ft then unat n - 32 else min (unat n - 33) 8386688)"

definition sectors_of_fat :: "u8 \<Rightarrow> bpb \<Rightarrow> nat" where
  "sectors_of_fat ft b = (if is_fat32 ft then unat (bpb_xnfsect b) else unat (bpb_nfsect b))"

lemma eight: "(8 :: nat) = Suc (Suc (Suc (Suc (Suc (Suc (Suc (Suc 0)))))))"
  by simp

lemma fat16_size:
  assumes "cluster_size k F 256 FAT16MAX n = (ns, len)" "unat n = 2 ^ i" "i \<le> 7" "7 \<le> i + k"
    and F: "16384 \<le> unat F" "unat F \<le> 8386688" and n: "4085 < clusters_of (unat F) 256 (unat n)"
  shows "\<exists>j \<le> 7. unat ns = 2 ^ j \<and> len = fat_length F 256 ns \<and> cluster_count F 256 FAT16MAX ns \<noteq> 0"
  using assms(1-4) n
proof (induction k arbitrary: n i)
  have p: "2 ^ i \<le> (2 :: nat) ^ 7" if "i \<le> 7" for i using that by (rule power_increasing) simp
  have nz: "cluster_count F 256 FAT16MAX m \<noteq> 0 \<longleftrightarrow> clusters_of (unat F) 256 (unat m) + 2 \<le> 65519"
    if "unat m = 2 ^ i" "i \<le> 7" "4085 < clusters_of (unat F) 256 (unat m)" for m i
    using cluster_count_nz(3) [of 256 F m FAT16MAX] F that p [of i] by (simp add: FAT16MAX_def)
  have last: "cluster_count F 256 FAT16MAX m \<noteq> 0" if "unat m = 2 ^ 7" "4085 < clusters_of (unat F) 256 (unat m)" for m
    using nz [OF that(1) _ that(2)] fat16_last [OF F(2)] that(1) by simp
  {
    case 0
    then have "i = 7" by simp
    then show ?case using 0 last [of n] by (intro exI [of _ 7]) auto
  next
    case (Suc k)
    show ?case
    proof (cases "cluster_count F 256 FAT16MAX n = 0")
      case False
      then show ?thesis using Suc.prems by auto
    next
      case True
      have "i \<noteq> 7" using last [of n] True Suc.prems(2,5) by auto
      then have i: "Suc i \<le> 7" using Suc.prems(3) by simp
      have s: "unat n \<le> 64"
        using power_increasing [of i 6 "2 :: nat"] i Suc.prems(2) by simp
      have dbl: "unat (2 * n) = 2 ^ Suc i" using s Suc.prems(2) by (subst unat_mult_no_wrap) simp_all
      have size: "2 * n \<noteq> 0" "2 * n \<le> MAXCLUSTSIZE"
        using dbl p [OF i] by (auto simp: word_le_nat_alt MAXCLUSTSIZE_def unat_eq_iff)
      have "65517 < clusters_of (unat F) 256 (unat n)" using nz [OF Suc.prems(2,3,5)] True by simp
      then have "4085 < clusters_of (unat F) 256 (unat (2 * n))"
        using fat16_double [of "unat n" "unat F"] s Suc.prems(2) dbl by simp
      then show ?thesis using Suc.IH [of "2 * n" "Suc i"] Suc.prems(1,4) True size dbl i by simp
    qed
  }
qed

lemma fat32_size:
  assumes n: "66592 \<le> unat n" and F: "unat F = unat n - 32"
  defines "s \<equiv> fat32_nsector n"
  shows "\<exists>j \<le> 7. unat s = 2 ^ j" "cluster_count F 128 FAT32MAX s \<noteq> 0" "65525 < clusters_of (unat F) 128 (unat s)"
    and "clusters_of (unat F) 128 (unat s) + 2 \<le> 268435449"
proof -
  let ?q = "unat n div 2097152"
  have q: "?q < 2048" "unat n < (?q + 1) * 2097152" "?q * 2097152 \<le> unat n"
    using unat32_lt [of n] by (simp_all add: div_less_iff_less_mult)
  have gb: "unat (ucast (n div 2097152) :: u16) = ?q" using q(1) by (simp add: unat_ucast_32_16 unat_div)
  have s: "unat s = (if unat n \<le> 532480 then 1 else if ?q \<le> 8 then 8 else if ?q \<le> 16 then 16 else if ?q \<le> 32 then 32 else 64)"
    by (simp add: s_def fat32_nsector_def Let_def word_le_nat_alt gb)
  have two: "2 ^ 0 = (1 :: nat)" "2 ^ 3 = (8 :: nat)" "2 ^ 4 = (16 :: nat)" "2 ^ 5 = (32 :: nat)" "2 ^ 6 = (64 :: nat)" by simp_all
  show pow: "\<exists>j \<le> 7. unat s = 2 ^ j" unfolding s
    by (auto intro: exI [of _ 0] exI [of _ 3] exI [of _ 4] exI [of _ 5] exI [of _ 6])
  have bounds: "0 < unat s" "unat s = 1 \<and> unat F \<le> 532448 \<or> unat s \<le> 64 \<and> 66500 * unat s \<le> unat F"
    "unat F \<le> 260000000 * unat s" "unat s \<le> 128"
    unfolding s F using n q by auto
  show c: "65525 < clusters_of (unat F) 128 (unat s)" "clusters_of (unat F) 128 (unat s) + 2 \<le> 268435449"
    using fat32_first [OF _ bounds(1-3)] n F by simp_all
  show "cluster_count F 128 FAT32MAX s \<noteq> 0"
    using cluster_count_nz(3) [of 128 F s FAT32MAX] bounds(1,4) n F c by (simp add: FAT32MAX_def)
qed

text \<open>
  C39: the default parameter block of a FAT16 or FAT32 partition is consistent. For every
  partition with at least 8 MB (FAT16) or 32.5 MB (FAT32) behind the reserved sectors and the root directory, a cluster size is found; it
  is a power of two of at most 128 sectors. Both FATs leave room for the clusters, the FAT has an entry for every cluster and the two
  reserved ones, and the number of clusters is one of its kind of FAT: more than 4085 and at most 65517 for FAT16, more than 65525 and at
  most 268435447 for FAT32.
\<close>

theorem CalculateFATData_fits:
  assumes "ft \<noteq> FAT12" "ft \<noteq> FAT12_LBA" "(if is_fat32 ft then 66560 else 16384) \<le> fat_and_data ft n"
    "b = ddt_defbpb (CalculateFATData n ft d)"
  defines "clusters \<equiv> (fat_and_data ft n - 2 * sectors_of_fat ft b) div unat (bpb_nsector b)"
  shows "(\<exists>j \<le> 7. unat (bpb_nsector b) = 2 ^ j) \<and> 2 * sectors_of_fat ft b \<le> fat_and_data ft n
     \<and> clusters + 2 \<le> sectors_of_fat ft b * (if is_fat32 ft then 128 else 256)
     \<and> (if is_fat32 ft then 65525 else 4085) < clusters \<and> clusters + 2 \<le> (if is_fat32 ft then 268435449 else 65519)"
proof (cases "is_fat32 ft")
  case True
  let ?F = "n - 0x20" and ?s = "fat32_nsector n"
  have n: "66592 \<le> unat n" using assms(3) True by (simp add: fat_and_data_def)
  then have F: "unat ?F = unat n - 32" by (subst unat_sub) (simp_all add: word_le_nat_alt)
  note size = fat32_size [OF n F]
  have "cluster_size 8 ?F 128 FAT32MAX ?s = (?s, fat_length ?F 128 ?s)" using size(2) by (simp add: eight)
  then have b: "bpb_nsector b = ?s" "bpb_xnfsect b = fat_length ?F 128 ?s"
    using assms(1,2,4) True by (auto simp: CalculateFATData_def is_fat32_def Let_def set_fstype_def upd_defbpb_def)
  obtain j where j: "j \<le> 7" "unat ?s = 2 ^ j" using size(1) by blast
  have s: "0 < unat ?s" "unat ?s \<le> 128" using j power_increasing [of j 7 "2 :: nat"] by simp_all
  have len: "unat (fat_length ?F 128 ?s) = fat_len (unat ?F) 128 (unat ?s)" using fat_length_exact [of 128 ?s ?F] s by simp
  have c: "clusters = clusters_of (unat ?F) 128 (unat ?s)"
    using True b len F by (simp add: clusters_def clusters_of_def sectors_of_fat_def fat_and_data_def)
  show ?thesis
    using cluster_count_nz(1,2) [of 128 ?F ?s FAT32MAX] s n F size True b len
    unfolding c by (simp add: sectors_of_fat_def fat_and_data_def FAT32MAX_def)
next
  case False
  let ?F = "min (n - 33) 8386688"
  have n: "33 \<le> unat n" using assms(3) False by (simp add: fat_and_data_def)
  then have n33: "unat (n - 33) = unat n - 33" by (subst unat_sub) (simp_all add: word_le_nat_alt)
  have F: "unat ?F = fat_and_data ft n" unfolding fat_and_data_def min_def word_le_nat_alt n33 using False by (simp add: n33)
  have F2: "16384 \<le> unat ?F" "unat ?F \<le> 8386688" using assms(3) False unfolding F by (simp_all add: fat_and_data_def)
  obtain ns len where cs: "cluster_size 8 ?F 256 FAT16MAX 4 = (ns, len)" by force
  have b: "bpb_nsector b = ns" "bpb_nfsect b = ucast len"
    using assms(1,2,4) False cs by (auto simp: CalculateFATData_def is_fat32_def Let_def set_fstype_def upd_defbpb_def)
  obtain j where j: "j \<le> 7" "unat ns = 2 ^ j" "len = fat_length ?F 256 ns" "cluster_count ?F 256 FAT16MAX ns \<noteq> 0"
    using fat16_size [OF cs, of 2] F2 fat16_first [OF F2(1)] by auto
  have s: "0 < unat ns" "unat ns \<le> 128" using j(1,2) power_increasing [of j 7 "2 :: nat"] by simp_all
  note cc = cluster_count_nz [of 256 ?F ns FAT16MAX]
  have len: "unat len = fat_len (unat ?F) 256 (unat ns)" unfolding j(3) using fat_length_exact [of 256 ns ?F] s by simp
  have "unat len < 65536"
  proof -
    have "fat_len (unat ?F) 256 (unat ns) * 258 < unat ?F + 2 * unat ns + 258" using s(1) by (intro fat_len_le) simp_all
    then show ?thesis unfolding len using F2(2) s(2) by linarith
  qed
  then have nf: "unat (bpb_nfsect b) = unat len" using b by (simp add: unat_ucast_32_16)
  have c: "clusters = clusters_of (unat ?F) 256 (unat ns)"
    unfolding clusters_def clusters_of_def sectors_of_fat_def F using False b nf len F by simp
  have "2 * unat len \<le> unat ?F \<and> clusters + 2 \<le> unat len * 256 \<and> 4085 < clusters \<and> clusters + 2 \<le> 65519"
    using cc s F2 j(4) len unfolding c by (simp add: FAT16MAX_def)
  then show ?thesis using False b nf j(1,2) unfolding sectors_of_fat_def F by auto
qed

lemma demo_fat16:
  "bpb_nsector (ddt_defbpb (CalculateFATData 200033 6 demo_ddt)) = 4 \<and> bpb_nfsect (ddt_defbpb (CalculateFATData 200033 6 demo_ddt)) = 195"
  unfolding CalculateFATData_def Let_def eight
  by (simp add: part_types set_fstype_def upd_defbpb_def cluster_count_def fat_length_def FAT16MAX_def FAT_MAGIC_def)

theorem CalculateFATData_fits_witness:
  "4085 < (fat_and_data 6 200033 - 2 * 195) div 4 \<and> (fat_and_data 6 200033 - 2 * 195) div 4 + 2 \<le> (195 * 256 :: nat)"
  using CalculateFATData_fits [of 6 200033 _ demo_ddt, OF _ _ _ refl] demo_fat16
  by (simp add: part_types is_fat32_def sectors_of_fat_def fat_and_data_def)

text \<open>A FAT16 partition of 5 MB gets no cluster size.\<close>

lemma small_fat16: "bpb_nsector (ddt_defbpb (CalculateFATData 10000 6 d)) = 0"
  unfolding CalculateFATData_def Let_def eight
  by (simp add: part_types set_fstype_def upd_defbpb_def cluster_count_def fat_length_def FAT16MAX_def FAT_MAGIC_def MAXCLUSTSIZE_def)

end
