(* ===== verification/Disk_Units.thy ===== *)
theory Disk_Units
  imports Disk_Props
begin

text \<open>
  The units the boot finds: entering a drive keeps the table of units numbered and chained, everything else leaves it alone.
\<close>

section \<open>The units found at boot\<close>

text \<open>The units and their number; everything but entering a drive leaves them alone.\<close>

definition units :: "'b init_state \<Rightarrow> ddt list \<times> nat" where
  "units t = (ddts (dk t), nUnits t)"

lemma units_say [frame_simps]: "units (say fmt args t) = units t" "units (say_if c fmt args t) = units t"
  by (simp_all add: units_def say_def say_if_def)

lemma units_mem [frame_simps]: "units (upd_dk (upd_dmem f) t) = units t"
  by (simp add: units_def upd_dk_def upd_dmem_def)

lemma units_bios [frame_simps]: "units (upd_dk (upd_bios f) t) = units t"
  by (simp add: units_def upd_dk_def upd_bios_def)

lemma units_verify [frame_simps]: "units (upd_dk (\<lambda>s. s\<lparr>LBA_WRITE_VERIFY := w\<rparr>) t) = units t"
  by (simp add: units_def upd_dk_def)

lemma units_force [frame_simps]: "units (t\<lparr>ExtLBAForce := b\<rparr>) = units t"
  by (simp add: units_def)

lemma units_printCHS [frame_simps]: "units (printCHS E title c t) = units t"
  by (simp add: printCHS_def frame_simps)

lemma units_init13: "init13 E r t = (c, r1, t1) \<Longrightarrow> units t1 = units t"
  by (auto simp: init13_def bios13_def units_def upd_bios_def split: prod.splits)

lemma units_reset [frame_simps]: "units (BIOS_drive_reset E d t) = units t"
  using units_init13 [of E "regs0\<lparr>DX := ucast (d OR 0x80)\<rparr>" t] by (cases "init13 E (regs0\<lparr>DX := ucast (d OR 0x80)\<rparr>) t") (auto simp: BIOS_drive_reset_def)

lemma units_readdasd: "init_readdasd E d t = (w, t1) \<Longrightarrow> units t1 = units t"
  by (auto simp: init_readdasd_def dest!: units_init13 split: prod.splits)

lemma units_driveparm: "init_getdriveparm E d b t = Some (w, b1, t1) \<Longrightarrow> units t1 = units t"
  by (auto simp: init_getdriveparm_def Let_def dest!: units_init13 split: prod.splits if_splits)

lemma units_standard: "standard_geometry E d f r dp t = (ok, dp1, t1) \<Longrightarrow> units t1 = units t"
  by (auto simp: standard_geometry_def Let_def frame_simps dest!: units_init13 split: prod.splits if_splits)

lemma units_lba_parameters: "lba_parameters p d f dp t = (x, t1) \<Longrightarrow> units t1 = units t"
  by (auto simp: lba_parameters_def Let_def frame_simps split: if_splits)

lemma units_drive_parameters:
  "LBA_Get_Drive_Parameters E n f t = (ok, dp, t1) \<Longrightarrow> units t1 = units t"
  by (auto simp: LBA_Get_Drive_Parameters_def Let_def frame_simps
      dest!: units_init13 units_standard units_lba_parameters split: prod.splits if_splits option.splits)

lemma units_warning [frame_simps]: "units (print_warning_suspect E name ft c e t) = units t"
  by (simp add: print_warning_suspect_def frame_simps)

lemma units_beyond [frame_simps]: "units (beyond_chs E fmt name ft c1 c2 t) = units t"
  by (simp add: beyond_chs_def frame_simps)

lemma units_check_entry: "check_entry E dp base name e t = (x, t1) \<Longrightarrow> units t1 = units t"
  by (auto simp: check_entry_def Let_def frame_simps split: if_splits)

lemma units_read_tries: "read_tries E dp d lba k err r t = (b, t1) \<Longrightarrow> units t1 = units t"
proof (induction k arbitrary: err r t)
  case (Suc k)
  then show ?case
    by (auto simp: Let_def frame_simps dest!: units_init13 split: prod.splits if_splits)
qed simp

lemma units_read_table: "read_table E dp d lba k t = (x, t1) \<Longrightarrow> units t1 = units t"
  by (induction k arbitrary: t)
    (auto simp: Read1LBASector_def dest!: units_read_tries split: prod.splits bool.splits option.splits)

lemma units_nrdrives: "BIOS_nrdrives E t = (n, t1) \<Longrightarrow> units t1 = units t"
  by (auto simp: BIOS_nrdrives_def Let_def frame_simps dest!: units_init13 split: prod.splits if_splits)

text \<open>The units are numbered from 0 and chained in this order, there are at most 26 and at least the two of the floppies.\<close>

definition chained :: "ddt list \<Rightarrow> bool" where
  "chained ds \<longleftrightarrow> length ds \<le> NDEV
     \<and> (\<forall>i < length ds. unat (ddt_logdriveno (ds ! i)) = i \<and> ddt_next (ds ! i) = (if i + 1 < length ds then Some (i + 1) else None))"

definition numbered :: "'b init_state \<Rightarrow> bool" where
  "numbered t \<longleftrightarrow> chained (fst (units t)) \<and> snd (units t) = length (fst (units t)) \<and> 2 \<le> snd (units t)"

lemma numbered_cong: "units t' = units t \<Longrightarrow> numbered t' = numbered t"
  by (simp add: numbered_def)

lemma units_push:
  "units (push_ddt d t) =
     (if ddt_logdriveno d \<noteq> 0
      then (let n = length (fst (units t)); ds = fst (units t) @ [d]
            in ds[n - 1 := (if ddt_driveno d = 0 \<and> ddt_logdriveno d = 1 then set_flags (DF_CURLOG OR DF_MULTLOG) (ds ! (n - 1))
                            else ds ! (n - 1))\<lparr>ddt_next := Some n\<rparr>])
      else fst (units t) @ [d], snd (units t))"
  by (simp add: units_def push_ddt_def upd_dk_def upd_ddt_def Let_def)

lemma set_flags_fields [simp]: "ddt_logdriveno (set_flags w d) = ddt_logdriveno d" "ddt_next (set_flags w d) = ddt_next d"
  by (simp_all add: set_flags_def)

lemma chained_push:
  assumes "chained ds" "length ds < NDEV" "unat (ddt_logdriveno d) = length ds" "ddt_next d = None"
    and "fst (units t) = ds"
  shows "chained (fst (units (push_ddt d t)))" "length (fst (units (push_ddt d t))) = length ds + 1"
proof -
  show "length (fst (units (push_ddt d t))) = length ds + 1" by (simp add: units_push assms(5) Let_def)
  show "chained (fst (units (push_ddt d t)))"
  proof (cases "ds = []")
    case True
    then show ?thesis using assms by (simp add: units_push chained_def unat_eq_iff)
  next
    case False
    then have nz: "ddt_logdriveno d \<noteq> 0" using assms(3) by (auto simp: unat_eq_iff)
    obtain es e where ds: "ds = es @ [e]" using False by (cases ds rule: rev_cases) auto
    have old: "unat (ddt_logdriveno (ds ! i)) = i \<and> ddt_next (ds ! i) = (if i + 1 < length ds then Some (i + 1) else None)"
      if "i < length ds" for i using assms(1) that by (auto simp: chained_def)
    let ?e = "(if ddt_driveno d = 0 \<and> ddt_logdriveno d = 1 then set_flags (DF_CURLOG OR DF_MULTLOG) e else e)\<lparr>ddt_next := Some (length es + 1)\<rparr>"
    have "fst (units (push_ddt d t)) = es @ [?e, d]"
      using nz by (simp add: units_push assms(5) ds Let_def nth_append list_update_append)
    moreover have "unat (ddt_logdriveno ?e) = length es" using old [of "length es"] ds by simp
    moreover have "unat (ddt_logdriveno (es ! i)) = i \<and> ddt_next (es ! i) = Some (i + 1)" if "i < length es" for i
      using old [of i] that ds by (simp add: nth_append)
    ultimately show ?thesis using assms(2-4) ds
      by (auto simp: chained_def nth_append nth_Cons' less_Suc_eq)
  qed
qed

lemma numbered_define: "numbered t \<Longrightarrow> numbered (DosDefinePartition E dp base e ext i t)"
proof (cases "nUnits t \<ge> NDEV")
  case True
  then show "numbered t \<Longrightarrow> ?thesis" by (simp add: DosDefinePartition_def numbered_cong [OF units_say(1)])
next
  case False
  assume num: "numbered t"
  define d where "d = partition_ddt E dp base e t"
  obtain flags t1 where r: "init_readdasd E (ddt_driveno d) t = (flags, t1)" by force
  have u: "units t1 = units t" using units_readdasd [OF r] .
  define d1 where "d1 = d\<lparr>ddt_serialno := 0x12345678, ddt_descflags := ddt_descflags d OR flags OR DF_NOACCESS, ddt_type := 5,
                    ddt_bpb := ddt_defbpb d\<rparr>"
  have dd: "ddt_logdriveno d1 = of_nat (nUnits t)" "ddt_next d1 = None"
    by (auto simp: d1_def d_def partition_ddt_def CalculateFATData_def Let_def set_fstype_def upd_defbpb_def split: prod.splits)
  have len: "length (fst (units t1)) = nUnits t" "chained (fst (units t1))" "nUnits t < NDEV"
    using num False u by (auto simp: numbered_def units_def)
  have "unat (ddt_logdriveno d1) = nUnits t" using len(3) dd by (simp add: unat8_of_nat NDEV_def)
  then have p: "chained (fst (units (push_ddt d1 t1)))" "length (fst (units (push_ddt d1 t1))) = nUnits t + 1"
    using chained_push [OF len(2) _ _ dd(2) refl] len by simp_all
  have "fst (units (DosDefinePartition E dp base e ext i t)) = fst (units (push_ddt d1 t1)) \<and> snd (units (DosDefinePartition E dp base e ext i t)) = nUnits t + 1"
    using False r by (simp add: DosDefinePartition_def Let_def d_def [symmetric] d1_def [symmetric] units_def say_def say_if_def printCHS_def)
  then show ?thesis using p num by (simp add: numbered_def units_def)
qed

lemma numbered_scan: "scan_entries E dp k base ext i es ignore t = (m, t1) \<Longrightarrow> numbered t \<Longrightarrow> numbered t1"
proof (induction es arbitrary: i ignore t)
  case (Cons e es)
  note IH = Cons.IH
  show ?case
  proof (cases "wanted_entry k i ignore e")
    case False
    then show ?thesis using Cons by simp
  next
    case True
    obtain x t0 where c: "check_entry E dp (base + RelSect e) (part_name ext i) e t = (x, t0)" by force
    have n0: "numbered t0" using Cons.prems(2) numbered_cong [OF units_check_entry [OF c]] by simp
    show ?thesis
    proof (cases x)
      case None
      then show ?thesis using Cons.prems(1) True c IH n0 by simp
    next
      case (Some ft)
      then show ?thesis using Cons.prems(1) True c IH numbered_define [OF n0]
        by (auto simp: Let_def split: if_splits)
    qed
  qed
qed simp

lemma numbered_chain: "table_chain E dp k d rel ext found ignore t = (m, t1) \<Longrightarrow> numbered t \<Longrightarrow> numbered t1"
proof (induction E dp k d rel ext found ignore t rule: table_chain.induct)
  case (1 E dp k d rel ext found ignore t)
  obtain x ta where r: "read_table E dp d rel 3 t = (x, ta)" by force
  have na: "numbered ta" using "1.prems"(2) numbered_cong [OF units_read_table [OF r]] by simp
  show ?case
  proof (cases x)
    case (Inl err)
    then show ?thesis using "1.prems"(1) r na by (auto simp: table_chain.simps numbered_cong [OF units_say(1)] numbered_cong [OF units_say(2)])
  next
    case (Inr table)
    obtain i2 t2 where s: "(if k \<noteq> SCAN_EXTENDED \<or> found \<noteq> 0 then ScanForPrimaryPartitions E dp k table rel ignore found ta else (ignore, ta)) = (i2, t2)"
      by force
    have n2: "numbered t2" using s na numbered_scan by (auto simp: ScanForPrimaryPartitions_def split: if_splits)
    show ?thesis
    proof (cases "k \<noteq> SCAN_EXTENDED \<or> find (\<lambda>e. IsExtPartition (FileSystem e)) table = None")
      case True
      then show ?thesis using "1.prems"(1) r Inr s n2
        by (subst (asm) table_chain.simps) (auto split: if_splits option.splits)
    next
      case False
      then obtain e where e: "k = SCAN_EXTENDED" "find (\<lambda>e. IsExtPartition (FileSystem e)) table = Some e" by auto
      define t3 where "t3 = (if ext = 0 then t2\<lparr>ExtLBAForce := (FileSystem e = EXTENDED_LBA)\<rparr> else t2)"
      have n3: "numbered t3" using n2 by (simp add: t3_def numbered_cong [OF units_force])
      show ?thesis
      proof (cases "found + 1 > 30")
        case True
        then show ?thesis using "1.prems"(1) r Inr s e n3 unfolding t3_def
          by (subst (asm) table_chain.simps) (auto simp: Let_def numbered_cong [OF units_say(1)])
      next
        case False
        have "table_chain E dp k d (ext + RelSect e) (if ext = 0 then RelSect e else ext) (found + 1) 0 t3 = (m, t1)"
          using "1.prems"(1) r Inr s e False unfolding t3_def
          by (subst (asm) table_chain.simps) (simp add: Let_def)
        then show ?thesis using "1.IH" [OF r [symmetric] Inr s [symmetric] _ e(2) t3_def False] e(1) n3 by simp
      qed
    qed
  qed
qed

lemma numbered_process: "ProcessDisk E k d ignore t = (m, t1) \<Longrightarrow> numbered t \<Longrightarrow> numbered t1"
  unfolding ProcessDisk_def
  by (auto dest!: units_drive_parameters numbered_cong dest: numbered_chain
      simp: numbered_cong [OF units_say(1)] numbered_cong [OF units_force] split: prod.splits bool.splits)

lemma numbered_first: "first_primary E i t = (m, t1) \<Longrightarrow> numbered t \<Longrightarrow> numbered t1"
  by (auto simp: first_primary_def dest: numbered_process split: prod.splits if_splits)

lemma numbered_rest: "rest_of_disk E i b t = (m, t1) \<Longrightarrow> numbered t \<Longrightarrow> numbered t1"
  by (cases "ProcessDisk E SCAN_PRIMARY2 (of_nat i) b t") (auto simp: rest_of_disk_def dest: numbered_process)

lemma numbered_extended: "extended_of_disk E i b t = (m, t1) \<Longrightarrow> numbered t \<Longrightarrow> numbered t1"
  by (cases "ProcessDisk E SCAN_EXTENDED (of_nat i) 0 t") (auto simp: extended_of_disk_def dest: numbered_process)

lemma numbered_by_disk: "disk_by_disk E i b t = (m, t1) \<Longrightarrow> numbered t \<Longrightarrow> numbered t1"
proof -
  assume d: "disk_by_disk E i b t = (m, t1)" and n: "numbered t"
  obtain b1 ta where f: "(if b = 0 then first_primary E i t else (b, t)) = (b1, ta)" by force
  have na: "numbered ta" using f n numbered_first by (auto split: if_splits)
  obtain b2 tb where e: "extended_of_disk E i b1 ta = (b2, tb)" by force
  have "rest_of_disk E i b1 tb = (m, t1)" using d f e by (simp add: disk_by_disk_def)
  then show "numbered t1" using numbered_rest numbered_extended [OF e na] by blast
qed

lemma numbered_for:
  assumes "\<And>i b t m t1. f i b t = (m, t1) \<Longrightarrow> numbered t \<Longrightarrow> numbered t1" "numbered (snd x)"
  shows "numbered (snd (for_disks n f x))"
proof -
  have "numbered (snd (fold (\<lambda>i (found, t). case f i (found ! i) t of (b, t1) \<Rightarrow> (found[i := b], t1)) is x))" for "is"
    using assms(2)
  proof (induction "is" arbitrary: x)
    case (Cons i js)
    then show ?case using assms(1) by (cases x) (auto split: prod.splits)
  qed simp
  then show ?thesis by (simp add: for_disks_def)
qed

lemma numbered_boot: "numbered (snd x) \<Longrightarrow> numbered (snd (boot_disk E b js x))"
proof (induction E b js x rule: boot_disk.induct)
  case (2 E b i js found t)
  obtain ok dp ta where g: "LBA_Get_Drive_Parameters E (of_nat i) False t = (ok, dp, ta)" by (metis surj_pair)
  have "numbered ta" using "2.prems" numbered_cong [OF units_drive_parameters [OF g]] by simp
  show ?case
  proof (cases "ok \<and> driveno dp = b")
    case True
    obtain b1 tb where p: "ProcessDisk E SCAN_PRIMARYBOOT (of_nat i) 0 ta = (b1, tb)" by force
    then show ?thesis using True g numbered_process [OF p] \<open>numbered ta\<close> by simp
  next
    case False
    then show ?thesis using "2.IH" [OF g [symmetric] refl False] g \<open>numbered ta\<close> by auto
  qed
qed simp

lemma make_ddt_pushes:
  assumes "make_ddt E u drive fl d t = Some (d1, t1)"
  shows "\<exists>t2. t1 = push_ddt d1 t2 \<and> units t2 = units t \<and> ddt_logdriveno d1 = u \<and> ddt_next d1 = None"
  using assms
  by (auto simp: make_ddt_def Let_def split: prod.splits bind_splits dest!: units_driveparm units_readdasd)

lemma numbered_floppies:
  assumes "floppy_drives E t = Some t1" "fst (units t) = []"
  shows "numbered t1 \<and> nUnits t1 = 2"
proof -
  obtain d ta where a: "make_ddt E 0 0 0 (stack_ddt E) t = Some (d, ta)"
    using assms(1) by (auto simp: floppy_drives_def split: bind_splits)
  obtain ax b where ab: "int11 E (bios_state (machine (dk ta))) = (ax, b)" by force
  define tb where "tb = upd_dk (upd_bios (\<lambda>_. b)) ta"
  obtain drive fl d2 tc where c: "make_ddt E 1 drive fl d tb = Some (d2, tc)" "t1 = tc\<lparr>nUnits := 2\<rparr>"
    using assms(1) a ab by (auto simp: floppy_drives_def Let_def tb_def split: bind_splits if_splits)
  obtain ta' where pa: "ta = push_ddt d ta'" "units ta' = units t" "ddt_logdriveno d = 0" "ddt_next d = None"
    using make_ddt_pushes [OF a] by blast
  obtain tb' where pb: "tc = push_ddt d2 tb'" "units tb' = units tb" "ddt_logdriveno d2 = 1" "ddt_next d2 = None"
    using make_ddt_pushes [OF c(1)] by blast
  have one: "chained (fst (units ta))" "length (fst (units ta)) = 1"
    using chained_push [of "[]" d ta'] pa assms(2) by (simp_all add: chained_def NDEV_def)
  have "units tb' = units ta" using pb(2) by (simp add: tb_def units_bios)
  then have "chained (fst (units tc))" "length (fst (units tc)) = 2"
    using chained_push [of "fst (units ta)" d2 tb'] one pb by (simp_all add: NDEV_def)
  then show ?thesis using c(2) by (simp add: numbered_def units_def)
qed

text \<open>
  C40: the drive letters are given without gaps. After \<open>dsk_init\<close> there are between 2 and 26 units, whatever the partition tables hold and
  the BIOS answers: unit \<open>i\<close> carries the number \<open>i\<close> and points to unit \<open>i + 1\<close>, the last one to none.
\<close>

theorem dsk_init_numbers_units:
  assumes "dsk_init E t = Some (n, t1)" "ddts (dk t) = []"
  shows "n = length (ddts (dk t1)) \<and> 2 \<le> n \<and> n \<le> 26
    \<and> (\<forall>i < n. unat (ddt_logdriveno (ddts (dk t1) ! i)) = i \<and> ddt_next (ddts (dk t1) ! i) = (if i + 1 < n then Some (i + 1) else None))"
proof -
  let ?t0 = "adjust_int1e E (BIOS_drive_reset E 0 (say_if (Verbose (kconf E) \<ge> 1) ''InitDisk'' [] t))"
  have u0: "fst (units ?t0) = []" using assms(2) by (simp add: adjust_int1e_def frame_simps) (simp add: units_def)
  have r: "ReadAllPartitionTables E (BIOS_drive_reset E 0 (say_if (Verbose (kconf E) \<ge> 1) ''InitDisk'' [] t)) = Some t1" "n = nUnits t1"
    using assms(1) by (auto simp: dsk_init_def split: bind_splits)
  obtain ta where f: "floppy_drives E ?t0 = Some ta" using r(1) by (auto simp: ReadAllPartitionTables_def split: bind_splits)
  have na: "numbered ta" "nUnits ta = 2" using numbered_floppies [OF f u0] by blast+
  obtain k tb where k: "BIOS_nrdrives E ta = (k, tb)" by force
  define tc where "tc = fold (\<lambda>i. BIOS_drive_reset E (of_nat i)) [0..<min k MAX_HARD_DRIVE] tb"
  have "numbered (fold (\<lambda>i. BIOS_drive_reset E (of_nat i)) js x)" if "numbered x" for js x
    using that by (induction js arbitrary: x) (simp_all add: numbered_cong [OF units_reset])
  then have nc: "numbered tc" using na(1) numbered_cong [OF units_nrdrives [OF k]] by (simp add: tc_def)
  obtain parts td where d: "(if DLASortByDriveNo (kconf E) = 0
        then dos_order E (min k MAX_HARD_DRIVE) (replicate (min k MAX_HARD_DRIVE) 0, say_if (Verbose (kconf E) \<ge> 1) ''Drive Letter Assignment - DOS order'' [] tc)
        else drive_order E (min k MAX_HARD_DRIVE) (replicate (min k MAX_HARD_DRIVE) 0, tc)) = (parts, td)" by force
  have dos: "numbered (snd (dos_order E m x))" if "numbered (snd x)" for m x
    unfolding dos_order_def
    by (intro numbered_for that) (auto dest: numbered_first numbered_extended numbered_rest)
  have drv: "numbered (snd (drive_order E m x))" if "numbered (snd x)" for m x
    unfolding drive_order_def Let_def
    by (intro numbered_for numbered_boot) (use that in \<open>auto dest: numbered_by_disk simp: numbered_cong [OF units_say(2)]\<close>)
  have nd: "numbered td"
  proof (cases "DLASortByDriveNo (kconf E) = 0")
    case True
    have "td = snd (dos_order E (min k MAX_HARD_DRIVE) (replicate (min k MAX_HARD_DRIVE) 0, say_if (Verbose (kconf E) \<ge> 1) ''Drive Letter Assignment - DOS order'' [] tc))"
      using d True by simp
    then show ?thesis using nc by (simp only: dos numbered_cong [OF units_say(2)] snd_conv)
  next
    case False
    have "td = snd (drive_order E (min k MAX_HARD_DRIVE) (replicate (min k MAX_HARD_DRIVE) 0, tc))" using d False by simp
    then show ?thesis using nc by (simp only: drv snd_conv)
  qed
  have "t1 = say_if (Verbose (kconf E) \<ge> 0 \<and> (\<forall>b\<in>set parts. b = 0)) ''No supported partitions found.'' [] td"
    using r(1) f k d by (simp add: ReadAllPartitionTables_def Let_def tc_def [symmetric] cong: if_cong)
  then have "numbered t1" using nd by (simp add: numbered_cong [OF units_say(2)])
  then show ?thesis using r(2) by (auto simp: numbered_def chained_def units_def NDEV_def)
qed

text \<open>A machine without disks: every call of interrupt 13 fails.\<close>

definition demo_pc :: "unit pc" where
  "demo_pc = \<lparr>int13 = (\<lambda>r m b. (True, r, m, b)), int16_key = id, int2f_floppy = (\<lambda>d b. (0, b)),
     pc_clock = \<lparr>bios_time = (\<lambda>b. (0, 0, b)), bios_set_time = (\<lambda>t b. b), bios_set_rtc_time = (\<lambda>h m s b. b), bios_set_rtc_date = (\<lambda>d b. b)\<rparr>,
     dtb_place = (0x1000, 0), dap_place = (0x1000, 0x200)\<rparr>"

definition demo_boot :: "unit boot_env" where
  "demo_boot = \<lparr>pcs = demo_pc, kconf = \<lparr>DLASortByDriveNo = 0, InitDiskShowDriveAssignment = 1, ForceLBA = 0, GlobalEnableLBAsupport = 1, Verbose = 0\<rparr>,
     int11 = (\<lambda>b. (0x41, b)), params_place = (0x1000, 0x220), int1e_table = (0x1000, 0x240), stack_ddt = demo_ddt\<rparr>"

definition demo_start :: "unit init_state" where
  "demo_start = \<lparr>dk = \<lparr>ddts = [], nblk = 0, dmem = (\<lambda>a. 0), machine = \<lparr>DaysSinceEpoch = 0, bios_state = ()\<rparr>, shown = [], maxsecsize = 512,
     LBA_WRITE_VERIFY = 0x4302\<rparr>, nUnits = 0, ExtLBAForce = False, reports = []\<rparr>"

lemma demo_13: "init13 demo_boot r t = (True, r, t)"
proof -
  have "upd_bios f s = s" for f and s :: "unit disk_state" by (simp add: upd_bios_def)
  then show ?thesis by (simp add: init13_def bios13_def demo_boot_def demo_pc_def Let_def)
qed

lemma demo_floppy:
  "drive AND 0x80 = 0 \<Longrightarrow> \<exists>d1. make_ddt demo_boot u drive fl d t = Some (d1, push_ddt d1 t)"
  by (simp add: make_ddt_def init_getdriveparm_def init_readdasd_def demo_13 floppy_type_def floppy_bpbs_def Let_def)

lemma demo_init: "\<exists>t1. dsk_init demo_boot demo_start = Some (2, t1)"
proof -
  have f: "\<exists>t1. floppy_drives demo_boot t = Some (t1\<lparr>nUnits := 2\<rparr>)" for t
  proof -
    obtain d where "make_ddt demo_boot 0 0 0 (stack_ddt demo_boot) t = Some (d, push_ddt d t)" using demo_floppy [of 0] by fastforce
    moreover obtain d2 where "make_ddt demo_boot 1 1 0 d (upd_dk (upd_bios (\<lambda>_. ())) (push_ddt d t))
        = Some (d2, push_ddt d2 (upd_dk (upd_bios (\<lambda>_. ())) (push_ddt d t)))"
      using demo_floppy [of 1] by fastforce
    ultimately show ?thesis by (auto simp: floppy_drives_def Let_def demo_boot_def lo8_def)
  qed
  obtain t1 where t1: "floppy_drives demo_boot (adjust_int1e demo_boot (BIOS_drive_reset demo_boot 0
      (say_if (1 \<le> Verbose (kconf demo_boot)) ''InitDisk'' [] demo_start))) = Some (t1\<lparr>nUnits := 2\<rparr>)" using f by blast
  then show ?thesis
    by (simp add: dsk_init_def ReadAllPartitionTables_def BIOS_nrdrives_def demo_13 dos_order_def for_disks_def Let_def)
      (simp add: demo_boot_def say_def say_if_def)
qed

theorem dsk_init_numbers_units_witness:
  "\<exists>t1. dsk_init demo_boot demo_start = Some (2, t1) \<and> length (ddts (dk t1)) = 2 \<and> ddt_next (ddts (dk t1) ! 0) = Some 1"
proof -
  obtain t1 where "dsk_init demo_boot demo_start = Some (2, t1)" using demo_init by blast
  moreover have "ddts (dk demo_start) = []" by (simp add: demo_start_def)
  ultimately show ?thesis using dsk_init_numbers_units [of demo_boot demo_start 2 t1] by auto
qed

end
