(* ===== verification/Spec2Isabelle.thy ===== *)
theory Spec2Isabelle
  imports Mem_Props Dos_Time_Props Share_Props Fat_Store_Props Fat_Dpb_Props Fat_DirOps Fat_Root_Props Dos_Names Nls_Props Path_Props Dos_Handle_Table Handle_Props Int21_Props Console_Props Console_Typing Int2f Fcb_Props Disk_Units
begin

text \<open>
  Burdah-DOS, a FreeDOS kernel: a verification development for the C code of \<^verbatim>\<open>kernel/\<close> and of \<^verbatim>\<open>share/\<close>.

  The build that is modelled is the default one with \<^verbatim>\<open>WITHFAT32\<close>: a cluster number has 32 bits, \<^verbatim>\<open>int\<close> has 16,
  \<^verbatim>\<open>BYTE\<close> is a signed character. \<^verbatim>\<open>WITHLFNAPI\<close>, \<^verbatim>\<open>WIN31SUPPORT\<close> and the debugging options are off.

  \<^bold>\<open>How the parts work together.\<close> A program calls interrupt 21. The dispatcher picks the service, which works on handles,
  paths, file control blocks, memory or the clock. Handles lead to entries of the system file table and these to the
  clusters of a file or to a character device. Clusters and directories are read and written through the sector buffers, the
  buffers call the block driver, and the driver of the kernel calls the BIOS. SHARE is asked over multiplex interrupt 2F
  when a file is opened, closed or locked.

  \<^bold>\<open>Theories and sources.\<close>
  \<^item> \<open>Prelude\<close>: machine words, error codes (\<^verbatim>\<open>hdr/error.h\<close>), bytes of a word, shared facts on words and lists.
  \<^item> \<open>Mem_Manager\<close>, \<open>Mem_Chain\<close>, \<open>Mem_Alloc\<close>, \<open>Mem_Calls\<close>, \<open>Mem_Props\<close>: \<^verbatim>\<open>kernel/memmgr.c\<close>. The chain of memory control blocks is a
    map from segments to blocks.
  \<^item> \<open>Dos_Time\<close>, \<open>Dos_Time_Props\<close>: \<^verbatim>\<open>systime.c\<close>, \<^verbatim>\<open>sysclk.c\<close>, \<^verbatim>\<open>initclk.c\<close> and the clock calls of \<^verbatim>\<open>drivers/\<close>.
  \<^item> \<open>Share\<close>, \<open>Share_Props\<close>: \<^verbatim>\<open>share/src/share.c\<close>, the tables of open files and locks.
  \<^item> \<open>Char_Dev\<close>: \<^verbatim>\<open>chario.c\<close>, \<^verbatim>\<open>error.c\<close>, requests to character devices and the critical error handler.
  \<^item> \<open>Block_Io\<close>, \<open>Block_Cache\<close>, \<open>Block_Ring\<close>, \<open>Block_Props\<close>, \<open>Block_Calls\<close>, \<open>Cache_View\<close>: \<^verbatim>\<open>blockio.c\<close>, the ring of sector buffers.
    \<open>Cache_View\<close> is its specification: what the drive holds for a block, whether in a buffer or on the disk.
  \<^item> \<open>Fat_Table\<close>, \<open>Fat_Sectors\<close>, \<open>Fat_Link\<close>, \<open>Fat_Props\<close>: \<^verbatim>\<open>fattab.c\<close>. \<open>Fat_Chain\<close>, \<open>Fat_Read\<close>, \<open>Fat_Write\<close>, \<open>Fat_Free\<close>, \<open>Fat_Fs\<close>,
    \<open>Fat_Loops\<close>, \<open>Fat_Store\<close>, \<open>Fat_Store_Props\<close>: the chains of clusters of \<^verbatim>\<open>fatfs.c\<close> over a FAT that is a list of entries.
    \<open>Fat_Dpb\<close>, \<open>Fat_Dpb_Props\<close>: parameter blocks and the media check of \<^verbatim>\<open>fatfs.c\<close>.
  \<^item> \<open>Fat_Names\<close>, \<open>Fat_Dir\<close>, \<open>Fat_DirStore\<close>, \<open>Fat_Files\<close>, \<open>Fat_DirOps\<close>, \<open>Fat_Root\<close> and their properties: \<^verbatim>\<open>fatdir.c\<close>, \<^verbatim>\<open>fcbfns.c\<close> (names) and
    the directory operations of \<^verbatim>\<open>fatfs.c\<close>.
  \<^item> \<open>Dos_Sft\<close>, \<open>Dos_File\<close>, \<open>Dos_Handles\<close>, \<open>Dos_Handle_Table\<close>, \<open>Handle_Ops\<close>, \<open>Handle_Open\<close>, \<open>Handle_Refs\<close>, \<open>Handle_Props\<close>: the system file
    table, transfers and handles of \<^verbatim>\<open>dosfns.c\<close> and \<^verbatim>\<open>fatfs.c\<close>.
  \<^item> \<open>Path_Name\<close>, \<open>Dos_Truename\<close>, \<open>Dos_Names\<close>, \<open>Path_Props\<close>: \<^verbatim>\<open>newstuff.c\<close> and the calls that take a path. \<open>Nls\<close>, \<open>Nls_Props\<close>: \<^verbatim>\<open>nls.c\<close>.
  \<^item> \<open>Console\<close>, \<open>Console_Props\<close>, \<open>Console_Typing\<close>: the console part of \<^verbatim>\<open>chario.c\<close>, \<^verbatim>\<open>break.c\<close> and \<^verbatim>\<open>DosRWSft\<close>;
    \<open>Console_Typing\<close> follows a line that is typed at the console. \<open>Fcb\<close>, \<open>Fcb_Props\<close>: \<^verbatim>\<open>fcbfns.c\<close>.
  \<^item> \<open>Task\<close>, \<open>Dos_System\<close>, \<open>Exec\<close>, \<open>Ioctl\<close>: the state of the whole kernel, loading and ending programs (\<^verbatim>\<open>task.c\<close>), device control
    (\<^verbatim>\<open>ioctl.c\<close>, \<^verbatim>\<open>network.c\<close>).
  \<^item> \<open>Int21\<close>, \<open>Int21_Data\<close>, \<open>Int21_Service\<close>, \<open>Int21_Props\<close>, \<open>Int2f\<close>: \<^verbatim>\<open>inthndlr.c\<close>. \<open>Prf\<close>: \<^verbatim>\<open>prf.c\<close>.
  \<^item> \<open>Disk\<close>, \<open>Disk_Init\<close>, \<open>Disk_Props\<close>, \<open>Disk_Units\<close>: the disk driver \<^verbatim>\<open>dsk.c\<close> over \<^verbatim>\<open>drivers/floppy.asm\<close>, and the search of the drives at
    boot, \<^verbatim>\<open>initdisk.c\<close>.

  \<^bold>\<open>State.\<close> A structure of the C code is a record, a table a list or a map from its index, a pointer into a table the index
  (\<open>None\<close> for a null pointer). The global variables of a component are the fields of its state record; the state of a layer
  contains that of the layer below: \<open>io\<close> (buffers, drives) in \<open>fsys\<close> (files) in \<open>kstate\<close> (console) in \<open>dos\<close> (everything). The
  memory of the programs is a function from linear addresses to bytes and is kept apart from these records.

  \<^bold>\<open>Errors and control.\<close> A negative return code is an \<open>Inl\<close> or a negative integer, as in the code. \<open>None\<close> means that the code
  does not return or leaves its data: a null pointer is used, a loop has no end, a number is divided by zero. Calls that
  leave the kernel for good (the start of a program, interrupt 23, a panic) are outcomes of their own.

  \<^bold>\<open>Parameters.\<close> Device drivers, the BIOS, the network redirector, the multiplex hooks of other programs and the answers of the
  critical error handler are not code of the repository: they are arguments. A theorem that needs something of them says so; its
  witness gives a concrete one.

  \<^bold>\<open>Bounds.\<close> Loops over tables, lists and retries are structural or have a measure. Where a damaged disk can make the code loop,
  the function is a partial one with \<open>None\<close> for no end, and that it returns is proved where it does
  (\<open>wipe_out_clusters_terminates\<close>). A few loops count rounds: a text ends within the 65536 bytes of its segment, the number of
  sectors per cluster is 0 after 8 doublings, and input from the keyboard, which may never come, takes as many rounds as the argument
  \<open>io_fuel\<close> of the dispatcher says (\<open>fcb_files\<close> for the files a pattern of file control blocks matches); theorems about such loops
  hold for every number of rounds, or for all from a number on that they give: \<open>read_line_returns_line\<close> needs one round for each key
  that is typed and 256 for wiping.

  \<^bold>\<open>What is shown.\<close> Memory: allocation, resizing and freeing change exactly the blocks they should. Time: what is set is read
  back. SHARE: the compatibility table, locks and the invariant of the tables. Buffers: they are transparent, nothing is lost.
  FAT: an entry is written without touching its neighbours, the count of free clusters stays right, chains are extended, shortened
  and freed as lists are. Directories: deleting and finding in the root directory of a FAT12 or FAT16
  drive. Handles never dangle. Paths are canonical, the line editor returns
  the line that is typed at the console and ends it inside its buffer, the dispatcher delivers results and errors. Disks: a transfer stays in a DMA page, a sector and its place
  determine each other, default parameter blocks of partitions that are not too small are consistent, drive letters have no gaps. The locales state interfaces (a clock device, the FAT below the
  chains of clusters, the store of a directory, the console below the line editor) and are interpreted on the definitions of the
  kernel.

  \<^bold>\<open>Not modelled.\<close> The start of the kernel (\<^verbatim>\<open>config.c\<close>, \<^verbatim>\<open>main.c\<close>, \<^verbatim>\<open>inithma.c\<close>) works on raw memory before the structures of the
  other parts exist. Assembler code is modelled only where a C function is a wrapper around it. The shell in \<^verbatim>\<open>portal/\<close>, \<^verbatim>\<open>sys/\<close>, the
  tools, the tests and the boot sectors are programs of their own above or below the kernel.
\<close>

end
